(* ===== verification/Prelude.thy ===== *)
theory Prelude
  imports Main "HOL-Library.Word" "HOL-Library.Monad_Syntax"
begin

text \<open>
  Shared vocabulary of the development: bytes and byte buffers, the C bit macros, loops over a
  mutable state, and the total-correctness predicate \<open>ok\<close> with its rules.

  Code with a fault in it has no defined result: an index outside an array, a lock taken twice by
  the same thread, a mutex released by a thread that does not hold it, an uncaught exception.
  Such a run is \<^term>\<open>None\<close> in the models; a run that returns is \<^term>\<open>Some\<close> of the new state. So
  \<open>ok m P\<close> reads: the run \<open>m\<close> returns, and \<open>P\<close> holds of what it returns.
\<close>

unbundle bit_operations_syntax

section \<open>Collections of facts\<close>

named_theorems ok_rules "rewrite rules that push \<open>ok\<close> through a program"
named_theorems buf_simps "reads of a buffer after a write"

type_synonym byte = "8 word"

section \<open>Total correctness of a run\<close>

definition ok :: "'a option \<Rightarrow> ('a \<Rightarrow> bool) \<Rightarrow> bool" where
  "ok m P = (case m of None \<Rightarrow> False | Some x \<Rightarrow> P x)"

lemma ok_iff: "ok m P \<longleftrightarrow> (\<exists>x. m = Some x \<and> P x)"
  by (auto simp: ok_def split: option.splits)

lemma ok_Some [simp, ok_rules]: "ok (Some x) P = P x"
  by (simp add: ok_def)

lemma ok_None [simp, ok_rules]: "ok None P = False"
  by (simp add: ok_def)

lemma ok_bind [simp, ok_rules]: "ok (Option.bind m f) P = ok m (\<lambda>x. ok (f x) P)"
  by (cases m) simp_all

lemma ok_map [simp, ok_rules]: "ok (map_option f m) P = ok m (\<lambda>x. P (f x))"
  by (cases m) simp_all

lemma ok_if: "ok (if b then m else n) P = (if b then ok m P else ok n P)"
  by simp

lemma ok_True: "ok m (\<lambda>x. True) \<longleftrightarrow> m \<noteq> None"
  by (cases m) simp_all

lemma ok_mono: "ok m P \<Longrightarrow> (\<And>x. m = Some x \<Longrightarrow> P x \<Longrightarrow> Q x) \<Longrightarrow> ok m Q"
  by (auto simp: ok_iff)

lemma ok_weaken: "ok m P \<Longrightarrow> (\<And>x. P x \<Longrightarrow> Q x) \<Longrightarrow> ok m Q"
  by (auto simp: ok_iff)

lemma ok_conj: "ok m P \<Longrightarrow> ok m Q \<Longrightarrow> ok m (\<lambda>x. P x \<and> Q x)"
  by (auto simp: ok_iff)

lemma okD: "ok m P \<Longrightarrow> m = Some x \<Longrightarrow> P x"
  by (simp add: ok_def)

section \<open>Loops\<close>

text \<open>A \<open>for\<close> loop whose body may fault; the loop variable runs through a list.\<close>

primrec for_each :: "('i \<Rightarrow> 's \<Rightarrow> 's option) \<Rightarrow> 'i list \<Rightarrow> 's \<Rightarrow> 's option" where
  "for_each f [] s = Some s"
| "for_each f (i # is) s = Option.bind (f i s) (for_each f is)"

lemma for_each_append:
  "for_each f (xs @ ys) s = Option.bind (for_each f xs s) (for_each f ys)"
  by (induction xs arbitrary: s) (auto split: Option.bind_splits)

lemma ok_for_each:
  assumes "I s" and "\<And>i t. i \<in> set is \<Longrightarrow> I t \<Longrightarrow> ok (f i t) I"
  shows "ok (for_each f is s) I"
  using assms
proof (induction "is" arbitrary: s)
  case Nil
  then show ?case by simp
next
  case (Cons i "is")
  then have "ok (f i s) I" by simp
  then show ?case
    using Cons by (auto intro: ok_weaken)
qed

text \<open>One round that always faults.\<close>

lemma for_each_fault:
  "i \<in> set is \<Longrightarrow> (\<And>t. f i t = None) \<Longrightarrow> for_each f is s = None"
  by (induction "is" arbitrary: s) (auto split: Option.bind_splits)

text \<open>The rule of the invariant for a loop that is known to return.\<close>

lemma for_each_inv:
  assumes "for_each f is s = Some r" "I s"
    and "\<And>i t u. i \<in> set is \<Longrightarrow> I t \<Longrightarrow> f i t = Some u \<Longrightarrow> I u"
  shows "I r"
  using assms by (induction "is" arbitrary: s) (auto simp: bind_eq_Some_conv)

text \<open>The counting loop \<open>for (i = 0; i < n; i++)\<close>, with an invariant that may mention \<open>i\<close>.\<close>

lemma ok_for_upt:
  assumes "I 0 s" and "\<And>i t. i < n \<Longrightarrow> I i t \<Longrightarrow> ok (f i t) (I (Suc i))"
  shows "ok (for_each f [0..<n] s) (I n)"
  using assms
proof (induction n)
  case 0
  then show ?case by simp
next
  case (Suc n)
  then have "ok (for_each f [0..<n] s) (I n)" by simp
  then show ?case
    using Suc.prems(2)[of n] by (auto simp: for_each_append intro: ok_weaken)
qed

text \<open>The same for a loop that cannot fault.\<close>

lemma fold_upt_inv:
  assumes "I 0 s" and "\<And>i t. i < n \<Longrightarrow> I i t \<Longrightarrow> I (Suc i) (f i t)"
  shows "I n (fold f [0..<n] s)"
  using assms by (induction n) auto

lemma fold_inv:
  assumes "I s" and "\<And>i t. i \<in> set is \<Longrightarrow> I t \<Longrightarrow> I (f i t)"
  shows "I (fold f is s)"
  using assms by (induction "is" arbitrary: s) auto

section \<open>Checked access to an array\<close>

definition rd :: "'a list \<Rightarrow> nat \<Rightarrow> 'a option" where
  "rd xs i = (if i < length xs then Some (xs ! i) else None)"

definition wr :: "'a list \<Rightarrow> nat \<Rightarrow> 'a \<Rightarrow> 'a list option" where
  "wr xs i v = (if i < length xs then Some (xs[i := v]) else None)"

lemma rd_in [buf_simps]: "i < length xs \<Longrightarrow> rd xs i = Some (xs ! i)"
  by (simp add: rd_def)

lemma wr_in [buf_simps]: "i < length xs \<Longrightarrow> wr xs i v = Some (xs[i := v])"
  by (simp add: wr_def)

lemma ok_rd [ok_rules]: "ok (rd xs i) P \<longleftrightarrow> i < length xs \<and> P (xs ! i)"
  by (simp add: rd_def)

lemma ok_wr [ok_rules]: "ok (wr xs i v) P \<longleftrightarrow> i < length xs \<and> P (xs[i := v])"
  by (simp add: wr_def)

text \<open>\<open>memmove(\&xs[dst], \&xs[src], n)\<close>: the bytes are read before any is written.\<close>

definition memmove :: "'a list \<Rightarrow> nat \<Rightarrow> nat \<Rightarrow> nat \<Rightarrow> 'a list option" where
  "memmove xs dst src n =
     (if dst + n \<le> length xs \<and> src + n \<le> length xs
      then Some (take dst xs @ take n (drop src xs) @ drop (dst + n) xs) else None)"

lemma memmove_length: "memmove xs d s n = Some ys \<Longrightarrow> length ys = length xs"
  by (auto simp: memmove_def split: if_splits)

lemma ok_memmove [ok_rules]:
  "ok (memmove xs d s n) P \<longleftrightarrow>
     d + n \<le> length xs \<and> s + n \<le> length xs \<and> P (take d xs @ take n (drop s xs) @ drop (d + n) xs)"
  by (auto simp: memmove_def)

lemma memmove_nth:
  assumes "memmove xs d s n = Some ys" and "i < length xs"
  shows "ys ! i = (if d \<le> i \<and> i < d + n then xs ! (s + (i - d)) else xs ! i)"
  using assms by (auto simp: memmove_def nth_append split: if_splits)

section \<open>Bit and byte macros\<close>

definition bitRead :: "byte \<Rightarrow> nat \<Rightarrow> byte" where
  "bitRead value b = drop_bit b value AND 1"

definition bitWrite :: "byte \<Rightarrow> nat \<Rightarrow> byte \<Rightarrow> byte" where
  "bitWrite value b bitvalue =
     (if bitvalue \<noteq> 0 then value OR push_bit b 1 else value AND NOT (push_bit b 1))"

definition lowByte :: "nat \<Rightarrow> byte" where
  "lowByte w = word_of_nat (w mod 256)"

definition highByte :: "nat \<Rightarrow> byte" where
  "highByte w = word_of_nat (w div 256)"

lemma bitWrite_bit:
  assumes "b < 8" "k < 8"
  shows "bit (bitWrite x b v) k = (if k = b then v \<noteq> 0 else bit x k)"
  using assms by (auto simp: bitWrite_def bit_simps)

lemma bitRead_bit: "bitRead x b = (if bit x b then 1 else 0)"
proof (rule bit_word_eqI)
  fix n :: nat
  assume "n < LENGTH(8)"
  then show "bit (bitRead x b) n = bit (if bit x b then 1 else 0 :: byte) n"
    by (cases n) (auto simp: bitRead_def bit_simps)
qed

lemma bitRead_nonzero [simp]: "(bitRead x b \<noteq> 0) = bit x b"
  by (simp add: bitRead_bit)

lemma unat_lowByte: "unat (lowByte w) = w mod 256"
  by (simp add: lowByte_def unat_of_nat take_bit_eq_mod)

lemma unat_highByte: "w < 65536 \<Longrightarrow> unat (highByte w) = w div 256"
  by (simp add: highByte_def unat_of_nat take_bit_eq_mod)

lemma nat_bit_bound: "v < 2 ^ m \<Longrightarrow> m \<le> n \<Longrightarrow> \<not> bit (v :: nat) n"
  by (metis bit_take_bit_iff linorder_not_less take_bit_nat_eq_self)

lemma two_bytes_or: "l < 256 \<Longrightarrow> push_bit 8 h OR l = 256 * h + (l :: nat)"
proof -
  assume "l < 256"
  then have "push_bit 8 h OR l = push_bit 8 h + l"
    by (intro disjunctive_add[symmetric]) (use nat_bit_bound[of l 8] in \<open>auto simp: bit_push_bit_iff_nat\<close>)
  then show ?thesis by (simp add: push_bit_eq_mult)
qed

section \<open>Words and their bytes\<close>

lemma unat_plus_small: "unat a + unat b < 2 ^ LENGTH('a) \<Longrightarrow> unat (a + b) = unat a + unat b"
  for a b :: "'a::len word"
  by (simp add: unat_add_lem)

lemma unat_mult_small: "unat a * unat b < 2 ^ LENGTH('a) \<Longrightarrow> unat (a * b) = unat a * unat b"
  for a b :: "'a::len word"
  by (simp add: unat_mult_lem)

lemma unat_ucast_64: "unat (ucast w :: 64 word) = unat w" for w :: "32 word"
  using unsigned_less[of w, where 'a = nat] by (simp add: unsigned_ucast_eq take_bit_nat_eq_self)

text \<open>Byte \<open>k\<close> of a number in memory, the least significant one first.\<close>

definition mem_byte :: "'a::len word \<Rightarrow> nat \<Rightarrow> byte" where
  "mem_byte v k = ucast (drop_bit (8 * k) v)"

lemma bit_mem_byte: "bit (ucast (mem_byte v k) :: 'b::len word) n \<longleftrightarrow> n < LENGTH('b) \<and> n < 8 \<and> bit v (8 * k + n)"
  for v :: "'a::len word"
  by (cases "8 * k + n < LENGTH('a)") (auto simp: mem_byte_def bit_simps ac_simps dest: bit_imp_le_length)

lemma bytes2: "push_bit 8 (ucast (mem_byte v 1)) OR ucast (mem_byte v 0) = (ucast v :: 16 word)"
  for v :: "32 word"
  by (rule bit_word_eqI) (auto simp: mem_byte_def bit_simps)

lemma bytes4: "push_bit 24 (ucast (mem_byte v 3)) OR push_bit 16 (ucast (mem_byte v 2)) OR
   push_bit 8 (ucast (mem_byte v 1)) OR ucast (mem_byte v 0) = v"
  for v :: "32 word"
proof (rule bit_word_eqI)
  fix n assume "n < LENGTH(32)"
  then consider "n < 8" | "8 \<le> n" "n < 16" | "16 \<le> n" "n < 24" | "24 \<le> n" "n < 32"
    by (simp, linarith)
  then show "bit (push_bit 24 (ucast (mem_byte v 3)) OR push_bit 16 (ucast (mem_byte v 2)) OR
      push_bit 8 (ucast (mem_byte v 1)) OR ucast (mem_byte v 0) :: 32 word) n = bit v n"
    by cases (simp_all add: bit_or_iff bit_push_bit_iff bit_mem_byte less_diff_conv2)
qed

lemma bytes8: "push_bit 56 (ucast (mem_byte v 7)) OR push_bit 48 (ucast (mem_byte v 6)) OR
   push_bit 40 (ucast (mem_byte v 5)) OR push_bit 32 (ucast (mem_byte v 4)) OR
   push_bit 24 (ucast (mem_byte v 3)) OR push_bit 16 (ucast (mem_byte v 2)) OR
   push_bit 8 (ucast (mem_byte v 1)) OR ucast (mem_byte v 0) = v"
  for v :: "64 word"
proof (rule bit_word_eqI)
  fix n assume "n < LENGTH(64)"
  then consider "n < 8" | "8 \<le> n" "n < 16" | "16 \<le> n" "n < 24" | "24 \<le> n" "n < 32" |
    "32 \<le> n" "n < 40" | "40 \<le> n" "n < 48" | "48 \<le> n" "n < 56" | "56 \<le> n" "n < 64"
    by (simp, linarith)
  then show "bit (push_bit 56 (ucast (mem_byte v 7)) OR push_bit 48 (ucast (mem_byte v 6)) OR
      push_bit 40 (ucast (mem_byte v 5)) OR push_bit 32 (ucast (mem_byte v 4)) OR
      push_bit 24 (ucast (mem_byte v 3)) OR push_bit 16 (ucast (mem_byte v 2)) OR
      push_bit 8 (ucast (mem_byte v 1)) OR ucast (mem_byte v 0) :: 64 word) n = bit v n"
    by cases (simp_all add: bit_or_iff bit_push_bit_iff bit_mem_byte less_diff_conv2)
qed

end
