(* ===== verification/PlcImage.thy ===== *)
theory PlcImage
  imports Prelude
begin

text \<open>
  The process image of the PLC runtime (ladder.h, glueVars.cpp and the helpers of main.cpp).

  The image is a family of tables of pointers. A table entry is NULL or points to a cell: a located
  variable of the compiled PLC program, or an element of one of the arrays of the Modbus server.
  The cells live in a store, one function per cell type, so that two table entries which hold the
  same pointer share the cell, as they do in the code.
\<close>

section \<open>Pointers, cells and the image\<close>

definition BUFFER_SIZE :: nat where "BUFFER_SIZE = 1024"

text \<open>The targets of an \<open>IEC_BOOL *\<close> and of an \<open>IEC_UINT *\<close>.\<close>

datatype bool_ptr = BVar nat | MbDiscreteInput nat | MbCoil nat

datatype uint_ptr = UVar nat | MbInputReg nat | MbHoldingReg nat | PcccHoldingReg nat

record iec_time =
  tv_sec :: int
  tv_nsec :: int

record plc =
  bool_input :: "nat \<Rightarrow> nat \<Rightarrow> bool_ptr option"
  bool_output :: "nat \<Rightarrow> nat \<Rightarrow> bool_ptr option"
  byte_input :: "nat \<Rightarrow> nat option"
  byte_output :: "nat \<Rightarrow> nat option"
  int_input :: "nat \<Rightarrow> uint_ptr option"
  int_output :: "nat \<Rightarrow> uint_ptr option"
  int_memory :: "nat \<Rightarrow> uint_ptr option"
  dint_memory :: "nat \<Rightarrow> nat option"
  lint_memory :: "nat \<Rightarrow> nat option"
  special_functions :: "nat \<Rightarrow> nat option"
  bools :: "bool_ptr \<Rightarrow> byte"
  bytes :: "nat \<Rightarrow> byte"
  uints :: "uint_ptr \<Rightarrow> 16 word"
  dints :: "nat \<Rightarrow> 32 word"
  lints :: "nat \<Rightarrow> 64 word"
  bufferLock :: bool

text \<open>Reading a pointer table; an index outside the declared array is a fault.\<close>

definition tab_at :: "(nat \<Rightarrow> 'p option) \<Rightarrow> nat \<Rightarrow> 'p option option" where
  "tab_at t i = (if i < BUFFER_SIZE then Some (t i) else None)"

definition bool_at :: "(nat \<Rightarrow> nat \<Rightarrow> bool_ptr option) \<Rightarrow> nat \<Rightarrow> nat \<Rightarrow> bool_ptr option option" where
  "bool_at t i j = (if i < BUFFER_SIZE \<and> j < 8 then Some (t i j) else None)"

lemma tab_at_in [simp]: "i < 1024 \<Longrightarrow> tab_at t i = Some (t i)"
  by (simp add: tab_at_def BUFFER_SIZE_def)

lemma tab_at_out: "\<not> i < 1024 \<Longrightarrow> tab_at t i = None"
  by (simp add: tab_at_def BUFFER_SIZE_def)

lemma bool_at_in [simp]: "i < 1024 \<Longrightarrow> j < 8 \<Longrightarrow> bool_at t i j = Some (t i j)"
  by (simp add: bool_at_def BUFFER_SIZE_def)

lemma bool_at_flat [simp]: "p < 8192 \<Longrightarrow> bool_at t (p div 8) (p mod 8) = Some (t (p div 8) (p mod 8))"
  by simp

text \<open>Assignments through a pointer.\<close>

definition set_bool :: "bool_ptr \<Rightarrow> byte \<Rightarrow> plc \<Rightarrow> plc" where
  "set_bool a v p = p\<lparr>bools := (bools p)(a := v)\<rparr>"

definition set_uint :: "uint_ptr \<Rightarrow> 16 word \<Rightarrow> plc \<Rightarrow> plc" where
  "set_uint a v p = p\<lparr>uints := (uints p)(a := v)\<rparr>"

definition set_dint :: "nat \<Rightarrow> 32 word \<Rightarrow> plc \<Rightarrow> plc" where
  "set_dint a v p = p\<lparr>dints := (dints p)(a := v)\<rparr>"

definition set_lint :: "nat \<Rightarrow> 64 word \<Rightarrow> plc \<Rightarrow> plc" where
  "set_lint a v p = p\<lparr>lints := (lints p)(a := v)\<rparr>"

text \<open>\<open>if (q != NULL) *q = v\<close>, the shape of nearly every write to the image.\<close>

definition store_bool :: "bool_ptr option \<Rightarrow> byte \<Rightarrow> plc \<Rightarrow> plc" where
  "store_bool q v p = (case q of None \<Rightarrow> p | Some a \<Rightarrow> set_bool a v p)"

definition store_uint :: "uint_ptr option \<Rightarrow> 16 word \<Rightarrow> plc \<Rightarrow> plc" where
  "store_uint q v p = (case q of None \<Rightarrow> p | Some a \<Rightarrow> set_uint a v p)"

definition store_lint :: "nat option \<Rightarrow> 64 word \<Rightarrow> plc \<Rightarrow> plc" where
  "store_lint q v p = (case q of None \<Rightarrow> p | Some a \<Rightarrow> set_lint a v p)"

section \<open>The buffer mutex\<close>

text \<open>
  A thread that locks the default mutex twice never returns, and one that unlocks a mutex nobody
  holds has undefined behaviour; both are \<^term>\<open>None\<close>.
\<close>

definition lock :: "plc \<Rightarrow> plc option" where
  "lock p = (if bufferLock p then None else Some (p\<lparr>bufferLock := True\<rparr>))"

definition unlock :: "plc \<Rightarrow> plc option" where
  "unlock p = (if bufferLock p then Some (p\<lparr>bufferLock := False\<rparr>) else None)"

lemma ok_lock [ok_rules]: "ok (lock p) P \<longleftrightarrow> \<not> bufferLock p \<and> P (p\<lparr>bufferLock := True\<rparr>)"
  by (simp add: lock_def)

lemma ok_unlock [ok_rules]: "ok (unlock p) P \<longleftrightarrow> bufferLock p \<and> P (p\<lparr>bufferLock := False\<rparr>)"
  by (simp add: unlock_def)

text \<open>Only the cells and the mutex differ: the pointer tables are those of \<open>p\<close>.\<close>

definition same_tables :: "plc \<Rightarrow> plc \<Rightarrow> bool" where
  "same_tables p q \<longleftrightarrow>
     bool_input q = bool_input p \<and> bool_output q = bool_output p \<and>
     byte_input q = byte_input p \<and> byte_output q = byte_output p \<and>
     int_input q = int_input p \<and> int_output q = int_output p \<and> int_memory q = int_memory p \<and>
     dint_memory q = dint_memory p \<and> lint_memory q = lint_memory p \<and>
     special_functions q = special_functions p"

lemma same_tables_refl [simp, intro]: "same_tables p p"
  by (simp add: same_tables_def)

lemma same_tables_trans: "same_tables p q \<Longrightarrow> same_tables q r \<Longrightarrow> same_tables p r"
  by (simp add: same_tables_def)

lemma same_tables_set [simp]:
  "same_tables p (set_bool a v q) = same_tables p q"
  "same_tables p (set_uint b w q) = same_tables p q"
  "same_tables p (set_dint c x q) = same_tables p q"
  "same_tables p (set_lint c y q) = same_tables p q"
  "same_tables p (q\<lparr>bufferLock := l\<rparr>) = same_tables p q"
  by (simp_all add: same_tables_def set_bool_def set_uint_def set_dint_def set_lint_def)

lemma bufferLock_set [simp]:
  "bufferLock (set_bool a v q) = bufferLock q"
  "bufferLock (set_uint b w q) = bufferLock q"
  "bufferLock (set_dint c x q) = bufferLock q"
  "bufferLock (set_lint c y q) = bufferLock q"
  by (simp_all add: set_bool_def set_uint_def set_dint_def set_lint_def)

lemma store_simps [simp]:
  "same_tables p (store_bool a v q) = same_tables p q"
  "same_tables p (store_uint b w q) = same_tables p q"
  "same_tables p (store_lint c y q) = same_tables p q"
  "bufferLock (store_bool a v q) = bufferLock q"
  "bufferLock (store_uint b w q) = bufferLock q"
  "bufferLock (store_lint c y q) = bufferLock q"
  by (simp_all add: store_bool_def store_uint_def store_lint_def split: option.splits)

lemma bools_store_bool:
  "bools (store_bool q v p) = (case q of None \<Rightarrow> bools p | Some a \<Rightarrow> (bools p)(a := v))"
  by (simp add: store_bool_def set_bool_def split: option.splits)

lemma uints_store_uint:
  "uints (store_uint q v p) = (case q of None \<Rightarrow> uints p | Some a \<Rightarrow> (uints p)(a := v))"
  by (simp add: store_uint_def set_uint_def split: option.splits)

lemma uints_store_bool [simp]: "uints (store_bool q v p) = uints p"
  by (simp add: store_bool_def set_bool_def split: option.splits)

lemma bools_store_uint [simp]: "bools (store_uint q v p) = bools p"
  by (simp add: store_uint_def set_uint_def split: option.splits)

section \<open>Glue and shutdown\<close>

text \<open>The image before \<open>glueVars\<close> runs: every table is NULL and every array zero.\<close>

definition null_image :: plc where
  "null_image =
     \<lparr>bool_input = (\<lambda>i j. None), bool_output = (\<lambda>i j. None), byte_input = (\<lambda>i. None),
      byte_output = (\<lambda>i. None), int_input = (\<lambda>i. None), int_output = (\<lambda>i. None),
      int_memory = (\<lambda>i. None), dint_memory = (\<lambda>i. None), lint_memory = (\<lambda>i. None),
      special_functions = (\<lambda>i. None), bools = (\<lambda>a. 0), bytes = (\<lambda>a. 0), uints = (\<lambda>a. 0),
      dints = (\<lambda>a. 0), lints = (\<lambda>a. 0), bufferLock = False\<rparr>"

lemma null_image_simps [simp]:
  "bool_input null_image = (\<lambda>i j. None)" "bool_output null_image = (\<lambda>i j. None)"
  "byte_input null_image = (\<lambda>i. None)" "byte_output null_image = (\<lambda>i. None)"
  "int_input null_image = (\<lambda>i. None)" "int_output null_image = (\<lambda>i. None)"
  "int_memory null_image = (\<lambda>i. None)" "dint_memory null_image = (\<lambda>i. None)"
  "lint_memory null_image = (\<lambda>i. None)" "special_functions null_image = (\<lambda>i. None)"
  "bools null_image = (\<lambda>a. 0)" "uints null_image = (\<lambda>a. 0)" "bufferLock null_image = False"
  by (simp_all add: null_image_def)

text \<open>
  \<open>glueVars\<close> attaches the located variables of the compiled program (here \<open>%IX0.0\<close> and \<open>%QX0.0\<close>)
  to the image; \<open>ix\<close> and \<open>qx\<close> are the addresses the generated \<open>LOCATED_VARIABLES.h\<close> gives them.
\<close>

definition glueVars :: "nat \<Rightarrow> nat \<Rightarrow> plc \<Rightarrow> plc" where
  "glueVars ix qx p =
     p\<lparr>bool_input := (bool_input p)(0 := (bool_input p 0)(0 := Some (BVar ix))),
       bool_output := (bool_output p)(0 := (bool_output p 0)(0 := Some (BVar qx)))\<rparr>"

lemma bufferLock_glueVars [simp]: "bufferLock (glueVars ix qx p) = bufferLock p"
  by (simp add: glueVars_def)

text \<open>
  \<open>updateTime\<close> advances the PLC clock by the cycle time of the generated program. The fields are
  \<open>long\<close>; the sums below stay inside 32 bits for a cycle of at most one second.
\<close>

definition updateTime :: "int \<Rightarrow> iec_time \<Rightarrow> iec_time" where
  "updateTime common_ticktime t =
     (let t1 = t\<lparr>tv_nsec := tv_nsec t + common_ticktime\<rparr> in
      if tv_nsec t1 \<ge> 1000000000
      then t1\<lparr>tv_nsec := tv_nsec t1 - 1000000000, tv_sec := tv_sec t1 + 1\<rparr> else t1)"

text \<open>The deadline that \<open>sleep_until\<close> hands to \<open>clock_nanosleep\<close>.\<close>

definition sleep_until :: "iec_time \<Rightarrow> int \<Rightarrow> iec_time" where
  "sleep_until ts delay =
     (let t1 = ts\<lparr>tv_nsec := tv_nsec ts + delay\<rparr> in
      if tv_nsec t1 \<ge> 1000 * 1000 * 1000
      then t1\<lparr>tv_nsec := tv_nsec t1 - 1000 * 1000 * 1000, tv_sec := tv_sec t1 + 1\<rparr> else t1)"

text \<open>The intervals that \<open>sleepms\<close> and \<open>sleepns\<close> hand to \<open>nanosleep\<close>.\<close>

definition sleepms :: "int \<Rightarrow> iec_time" where
  "sleepms milliseconds =
     \<lparr>tv_sec = milliseconds div 1000, tv_nsec = (milliseconds mod 1000) * 1000000\<rparr>"

definition sleepns :: "int \<Rightarrow> iec_time" where
  "sleepns nanoseconds =
     \<lparr>tv_sec = nanoseconds div 1000000, tv_nsec = (nanoseconds mod 1000000) * 1000000000\<rparr>"

definition time_ns :: "iec_time \<Rightarrow> int" where
  "time_ns t = tv_sec t * 1000000000 + tv_nsec t"

definition normalised :: "iec_time \<Rightarrow> bool" where
  "normalised t \<longleftrightarrow> 0 \<le> tv_nsec t \<and> tv_nsec t < 1000000000"

primrec pinNotPresent :: "int list \<Rightarrow> int \<Rightarrow> bool" where
  "pinNotPresent [] pinNumber = True"
| "pinNotPresent (v # vs) pinNumber = (if v = pinNumber then False else pinNotPresent vs pinNumber)"

lemma pinNotPresent_iff: "pinNotPresent vs n \<longleftrightarrow> n \<notin> set vs"
  by (induction vs) auto

definition disableOutputs :: "plc \<Rightarrow> plc" where
  "disableOutputs p =
     (let p1 = fold (\<lambda>i. fold (\<lambda>j q. store_bool (bool_output q i j) 0 q) [0..<8]) [0..<BUFFER_SIZE] p;
          p2 = fold (\<lambda>i q. case byte_output q i of None \<Rightarrow> q
                           | Some a \<Rightarrow> q\<lparr>bytes := (bytes q)(a := 0)\<rparr>) [0..<BUFFER_SIZE] p1
      in fold (\<lambda>i q. store_uint (int_output q i) 0 q) [0..<BUFFER_SIZE] p2)"

text \<open>
  \<open>handleSpecialFunctions\<close>: the host clock, its time zone offset and its daylight-saving flag are
  arguments; the cycle counter is returned incremented.
\<close>

definition handleSpecialFunctions ::
  "64 word \<Rightarrow> 64 word \<Rightarrow> bool \<Rightarrow> 64 word \<times> plc \<Rightarrow> 64 word \<times> plc" where
  "handleSpecialFunctions now timezone dst = (\<lambda>(cycle_counter, p).
     (let p1 = store_lint (special_functions p 3) now p;
          rawtime = now - timezone;
          rawtime' = (if dst then rawtime + 3600 else rawtime);
          p2 = store_lint (special_functions p1 0) rawtime' p1;
          c = cycle_counter + 1;
          p3 = store_lint (special_functions p2 1) c p2
      in (c, p3)))"

end
