(* ===== verification/NetState.thy ===== *)
theory NetState
  imports PlcImage
begin

text \<open>
  What the protocol servers share: the runtime log of main.cpp, and the state a request handler
  works on, which is the connection's message buffer, the process image and the log.
\<close>

section \<open>The runtime log (main.cpp)\<close>

text \<open>
  \<open>log_text\<close> is the part of \<open>log_buffer\<close> below \<open>log_index\<close>; the array has a million bytes and every
  character is written together with a terminating NUL behind it.
\<close>

record rlog =
  log_text :: string
  log_counter :: nat

definition LOG_SIZE :: nat where "LOG_SIZE = 1000000"

definition runtime_log :: "string \<Rightarrow> rlog \<Rightarrow> rlog option" where
  "runtime_log logmsg r =
     (if length (log_text r) + length logmsg < LOG_SIZE
      then let r1 = r\<lparr>log_text := log_text r @ logmsg, log_counter := log_counter r + 1\<rparr> in
           Some (if log_counter r1 \<ge> 1000 then \<lparr>log_text = [], log_counter = 0\<rparr> else r1)
      else None)"

text \<open>The servers format into \<open>log_msg[1000]\<close>: at most 999 characters before the NUL.\<close>

definition log_inv :: "rlog \<Rightarrow> bool" where
  "log_inv r \<longleftrightarrow> log_counter r < 1000 \<and> length (log_text r) \<le> 999 * log_counter r"

lemma ok_runtime_log:
  assumes "log_inv r" and "length m \<le> 999"
  shows "ok (runtime_log m r) log_inv"
  using assms by (auto simp: runtime_log_def log_inv_def LOG_SIZE_def Let_def)

text \<open>The end of a log line.\<close>

definition nl :: string where "nl = [CHR 0x0A]"

text \<open>Decimal and two-digit hexadecimal conversions of \<open>printf\<close>.\<close>

definition digit_char :: "nat \<Rightarrow> char" where
  "digit_char d = (if d < 10 then char_of (48 + d) else char_of (87 + d))"

fun show_nat :: "nat \<Rightarrow> string" where
  "show_nat n = (if n < 10 then [digit_char n] else show_nat (n div 10) @ [digit_char (n mod 10)])"

declare show_nat.simps [simp del]

definition show_int :: "int \<Rightarrow> string" where
  "show_int k = (if k < 0 then CHR ''-'' # show_nat (nat (- k)) else show_nat (nat k))"

definition show_hex2 :: "byte \<Rightarrow> string" where
  "show_hex2 b = [digit_char (unat b div 16), digit_char (unat b mod 16)]"

lemma length_show_nat: "n < 10 ^ k \<Longrightarrow> 0 < k \<Longrightarrow> length (show_nat n) \<le> k"
proof (induction n arbitrary: k rule: show_nat.induct)
  case (1 n)
  show ?case
  proof (cases "n < 10")
    case True
    then show ?thesis using "1.prems" by (subst show_nat.simps) simp
  next
    case False
    then obtain k' where k: "k = Suc k'" "0 < k'"
      using "1.prems" by (cases k; cases "k - 1") auto
    with "1.prems" have "n div 10 < 10 ^ k'" by simp
    with "1.IH" False k have "length (show_nat (n div 10)) \<le> k'" by blast
    with False k show ?thesis by (subst show_nat.simps) simp
  qed
qed

section \<open>The state of a request handler\<close>

record nst =
  buf :: "byte list"
  img :: plc
  lg :: rlog

text \<open>The network buffer of 10000 bytes after a read of the message \<open>bs\<close> into a clear buffer.\<close>

definition NET_BUFFER_SIZE :: nat where "NET_BUFFER_SIZE = 10000"

definition received :: "byte list \<Rightarrow> byte list" where
  "received bs = bs @ replicate (NET_BUFFER_SIZE - length bs) 0"

lemma length_received [simp]: "length bs \<le> 10000 \<Longrightarrow> length (received bs) = 10000"
  by (simp add: received_def NET_BUFFER_SIZE_def)

lemma nth_received [simp]: "i < length bs \<Longrightarrow> received bs ! i = bs ! i"
  by (simp add: received_def nth_append)

lemma nth_received_rest: "length bs \<le> i \<Longrightarrow> i < 10000 \<Longrightarrow> received bs ! i = 0"
  by (simp add: received_def nth_append NET_BUFFER_SIZE_def)

definition getb :: "nat \<Rightarrow> 'a nst_scheme \<Rightarrow> byte option" where
  "getb i s = rd (buf s) i"

definition putb :: "nat \<Rightarrow> byte \<Rightarrow> 'a nst_scheme \<Rightarrow> 'a nst_scheme option" where
  "putb i v s = map_option (\<lambda>b. s\<lparr>buf := b\<rparr>) (wr (buf s) i v)"

definition on_img :: "(plc \<Rightarrow> plc option) \<Rightarrow> 'a nst_scheme \<Rightarrow> 'a nst_scheme option" where
  "on_img f s = map_option (\<lambda>p. s\<lparr>img := p\<rparr>) (f (img s))"

definition on_log :: "(rlog \<Rightarrow> rlog option) \<Rightarrow> 'a nst_scheme \<Rightarrow> 'a nst_scheme option" where
  "on_log f s = map_option (\<lambda>r. s\<lparr>lg := r\<rparr>) (f (lg s))"

definition movb :: "nat \<Rightarrow> nat \<Rightarrow> nat \<Rightarrow> 'a nst_scheme \<Rightarrow> 'a nst_scheme option" where
  "movb dst src n s = map_option (\<lambda>b. s\<lparr>buf := b\<rparr>) (memmove (buf s) dst src n)"

lemma ok_getb [ok_rules]: "ok (getb i s) P \<longleftrightarrow> i < length (buf s) \<and> P (buf s ! i)"
  by (simp add: getb_def ok_rd)

lemma ok_putb [ok_rules]:
  "ok (putb i v s) P \<longleftrightarrow> i < length (buf s) \<and> P (s\<lparr>buf := (buf s)[i := v]\<rparr>)"
  by (simp add: putb_def ok_wr)

lemma ok_on_img [ok_rules]: "ok (on_img f s) P = ok (f (img s)) (\<lambda>p. P (s\<lparr>img := p\<rparr>))"
  by (simp add: on_img_def)

lemma ok_on_lock:
  "ok (on_img lock s) P \<longleftrightarrow> \<not> bufferLock (img s) \<and> P (s\<lparr>img := (img s)\<lparr>bufferLock := True\<rparr>\<rparr>)"
  by (simp add: ok_on_img ok_lock)

lemma ok_on_log [ok_rules]: "ok (on_log f s) P = ok (f (lg s)) (\<lambda>r. P (s\<lparr>lg := r\<rparr>))"
  by (simp add: on_log_def)

lemma ok_movb [ok_rules]:
  "ok (movb d c n s) P \<longleftrightarrow> d + n \<le> length (buf s) \<and> c + n \<le> length (buf s) \<and>
     P (s\<lparr>buf := take d (buf s) @ take n (drop c (buf s)) @ drop (d + n) (buf s)\<rparr>)"
  by (simp add: movb_def ok_memmove)

lemma getb_in [buf_simps]: "i < length (buf s) \<Longrightarrow> getb i s = Some (buf s ! i)"
  by (simp add: getb_def rd_def)

lemma putb_in [buf_simps]: "i < length (buf s) \<Longrightarrow> putb i v s = Some (s\<lparr>buf := (buf s)[i := v]\<rparr>)"
  by (simp add: putb_def wr_def)

text \<open>
  The frame every handler keeps: the buffer keeps its length, the pointer tables are untouched, the
  mutex is left as it was found and the log cannot have overflowed.
\<close>

definition frame :: "'a nst_scheme \<Rightarrow> 'a nst_scheme \<Rightarrow> bool" where
  "frame s t \<longleftrightarrow> length (buf t) = length (buf s) \<and> same_tables (img s) (img t) \<and>
     bufferLock (img t) = bufferLock (img s) \<and> (log_inv (lg s) \<longrightarrow> log_inv (lg t))"

lemma frame_refl [simp, intro]: "frame s s"
  by (simp add: frame_def)

lemma frame_trans [trans]: "frame s t \<Longrightarrow> frame t u \<Longrightarrow> frame s u"
  by (auto simp: frame_def intro: same_tables_trans)

lemma frame_buf [simp]:
  "frame s (t\<lparr>buf := bs\<rparr>) \<longleftrightarrow> length bs = length (buf s) \<and> same_tables (img s) (img t) \<and>
     bufferLock (img t) = bufferLock (img s) \<and> (log_inv (lg s) \<longrightarrow> log_inv (lg t))"
  by (simp add: frame_def)

text \<open>The state inside a handler's critical section, which starts in \<open>s\<close>.\<close>

definition locked :: "'a nst_scheme \<Rightarrow> 'a nst_scheme \<Rightarrow> bool" where
  "locked s t \<longleftrightarrow> length (buf t) = length (buf s) \<and> same_tables (img s) (img t) \<and>
     bufferLock (img t) \<and> (log_inv (lg s) \<longrightarrow> log_inv (lg t))"

lemma locked_upd [simp]:
  "locked s (t\<lparr>buf := (buf t)[i := b]\<rparr>) = locked s t"
  "locked s (t\<lparr>img := store_bool q v (img t)\<rparr>) = locked s t"
  "locked s (t\<lparr>img := store_uint r w (img t)\<rparr>) = locked s t"
  "locked s (t\<lparr>img := set_uint a' w (img t)\<rparr>) = locked s t"
  "locked s (t\<lparr>img := set_dint b' x (img t)\<rparr>) = locked s t"
  "locked s (t\<lparr>img := set_lint b' y (img t)\<rparr>) = locked s t"
  "locked (s\<lparr>buf := (buf s)[i := b]\<rparr>) t = locked s t"
  by (simp_all add: locked_def)

text \<open>Taking the mutex enters the section, releasing it restores the frame.\<close>

lemma locked_enter [simp]: "locked s (s\<lparr>img := (img s)\<lparr>bufferLock := True\<rparr>\<rparr>)"
  by (simp add: locked_def)

lemma locked_leave:
  "locked s t \<Longrightarrow> \<not> bufferLock (img s) \<Longrightarrow> frame s (t\<lparr>img := (img t)\<lparr>bufferLock := False\<rparr>\<rparr>)"
  by (simp add: locked_def frame_def)

lemma ok_for_each_locked:
  assumes "locked s t" and "\<And>i u. i \<in> set is \<Longrightarrow> locked s u \<Longrightarrow> ok (f i u) (locked s)"
  shows "ok (for_each f is t) (locked s)"
  using assms by (rule ok_for_each)

text \<open>A critical section whose body keeps \<open>locked\<close>.\<close>

lemma ok_section:
  assumes "\<not> bufferLock (img s)" and "\<And>t. locked s t \<Longrightarrow> ok (body t) (locked s)"
  shows "ok (on_img lock s) (\<lambda>t. ok (body t) (\<lambda>t. ok (on_img unlock t) (frame s)))"
  using assms(1) ok_weaken[OF assms(2)[OF locked_enter]] locked_leave[of s]
  by (auto simp: ok_on_img ok_lock ok_unlock locked_def)

text \<open>A message that has just been received, on an image, with an empty log.\<close>

definition message :: "byte list \<Rightarrow> plc \<Rightarrow> nst" where
  "message bs p = \<lparr>buf = received bs, img = p, lg = \<lparr>log_text = [], log_counter = 0\<rparr>\<rparr>"

lemma message_simps [simp]:
  "buf (message bs p) = received bs" "img (message bs p) = p" "log_inv (lg (message bs p))"
  by (simp_all add: message_def log_inv_def)

section \<open>Lines of the log\<close>

text \<open>
  \<open>sprintf(log_msg, ...); log(log_msg)\<close>: the text is built in a local array of 1000 bytes, so a text
  that leaves no room for its NUL is written past the array.
\<close>

definition log_line :: "string \<Rightarrow> 'a nst_scheme \<Rightarrow> 'a nst_scheme option" where
  "log_line m s = (if length m < 1000 then on_log (runtime_log m) s else None)"

lemma ok_log_line:
  assumes "length m < 1000" and "log_inv (lg s)"
  shows "ok (log_line m s) (\<lambda>t. frame s t \<and> log_inv (lg t) \<and> buf t = buf s \<and> img t = img s)"
proof -
  have "ok (runtime_log m (lg s)) log_inv"
    using assms by (intro ok_runtime_log) simp_all
  then show ?thesis
    using assms by (auto simp: log_line_def ok_on_log frame_def intro: ok_weaken)
qed

end
