(* ===== verification/ImageBank.thy ===== *)
theory ImageBank
  imports PlcImage
begin

text \<open>
  The interface between the process image and its clients. Protocol servers, the Modbus master, the
  persistent storage and the hardware layers all read and write runs of consecutive image entries.
  \<open>image_bank\<close> states what they rely on: a value stored at an entry is what is read there, and
  nowhere else, provided no two entries of the bank share a cell. The lemma about storing a block
  is proved once, inside the locale, and the banks of the image interpret it.
\<close>

section \<open>Reading an entry\<close>

definition bool_val :: "plc \<Rightarrow> bool_ptr option \<Rightarrow> byte" where
  "bool_val p q = (case q of None \<Rightarrow> 0 | Some a \<Rightarrow> bools p a)"

definition uint_val :: "plc \<Rightarrow> uint_ptr option \<Rightarrow> 16 word" where
  "uint_val p q = (case q of None \<Rightarrow> 0 | Some a \<Rightarrow> uints p a)"

lemma val_simps [simp]:
  "bool_val p None = 0" "bool_val p (Some a) = bools p a"
  "uint_val p None = 0" "uint_val p (Some b) = uints p b"
  by (simp_all add: bool_val_def uint_val_def)

text \<open>Entry \<open>k\<close> of a bit table, counted through its rows of eight.\<close>

definition coil_ptr :: "plc \<Rightarrow> nat \<Rightarrow> bool_ptr option" where
  "coil_ptr p k = bool_output p (k div 8) (k mod 8)"

definition input_ptr :: "plc \<Rightarrow> nat \<Rightarrow> bool_ptr option" where
  "input_ptr p k = bool_input p (k div 8) (k mod 8)"

section \<open>The interface\<close>

locale image_bank =
  fixes get :: "plc \<Rightarrow> nat \<Rightarrow> 'v"
    and put :: "nat \<Rightarrow> 'v \<Rightarrow> plc \<Rightarrow> plc"
    and mapped :: "plc \<Rightarrow> nat \<Rightarrow> bool"
    and wf :: "plc \<Rightarrow> bool"
  assumes get_put: "wf p \<Longrightarrow> get (put i v p) k = (if k = i \<and> mapped p i then v else get p k)"
    and wf_put: "wf p \<Longrightarrow> wf (put i v p)"
    and mapped_put: "mapped (put i v p) = mapped p"
    and put_tables: "same_tables p (put i v p)"
    and put_lock: "bufferLock (put i v p) = bufferLock p"
begin

definition put_block :: "nat \<Rightarrow> (nat \<Rightarrow> 'v) \<Rightarrow> nat \<Rightarrow> plc \<Rightarrow> plc" where
  "put_block a f n p = fold (\<lambda>i. put (a + i) (f i)) [0..<n] p"

lemma put_block_Suc: "put_block a f (Suc n) p = put (a + n) (f n) (put_block a f n p)"
  by (simp add: put_block_def)

lemma put_block_frame:
  "wf p \<Longrightarrow> wf (put_block a f n p) \<and> mapped (put_block a f n p) = mapped p \<and>
     same_tables p (put_block a f n p) \<and> bufferLock (put_block a f n p) = bufferLock p"
proof (induction n)
  case 0
  then show ?case by (simp add: put_block_def)
next
  case (Suc n)
  then show ?case
    by (auto simp: put_block_Suc mapped_put put_lock wf_put intro: same_tables_trans put_tables)
qed

lemma get_put_block:
  "wf p \<Longrightarrow> get (put_block a f n p) k =
     (if a \<le> k \<and> k < a + n \<and> mapped p k then f (k - a) else get p k)"
proof (induction n)
  case 0
  then show ?case by (auto simp: put_block_def)
next
  case (Suc n)
  then have w: "wf (put_block a f n p)" and m: "mapped (put_block a f n p) = mapped p"
    using put_block_frame by blast+
  show ?case
    using Suc by (cases "k = a + n") (auto simp: put_block_Suc get_put[OF w] m)
qed

end

section \<open>The banks of the image\<close>

definition distinct_ptrs :: "(nat \<Rightarrow> 'p option) \<Rightarrow> bool" where
  "distinct_ptrs t \<longleftrightarrow> (\<forall>i j a. t i = Some a \<longrightarrow> t j = Some a \<longrightarrow> i = j)"

lemma distinct_ptrsD: "distinct_ptrs t \<Longrightarrow> t i = Some a \<Longrightarrow> t j = Some a \<Longrightarrow> i = j"
  by (auto simp: distinct_ptrs_def)

lemma tables_set [simp]:
  "coil_ptr (store_bool q v p) = coil_ptr p" "input_ptr (store_bool q v p) = input_ptr p"
  "int_output (store_uint r w p) = int_output p" "int_input (store_uint r w p) = int_input p"
  "int_memory (store_uint r w p) = int_memory p" "int_memory (store_bool q v p) = int_memory p"
  "int_output (store_bool q v p) = int_output p" "int_input (store_bool q v p) = int_input p"
  "coil_ptr (store_uint r w p) = coil_ptr p" "input_ptr (store_uint r w p) = input_ptr p"
  by (auto simp: fun_eq_iff coil_ptr_def input_ptr_def store_bool_def store_uint_def set_bool_def
      set_uint_def split: option.splits)

lemma ptrs_lock [simp]:
  "coil_ptr (p\<lparr>bufferLock := l\<rparr>) = coil_ptr p" "input_ptr (p\<lparr>bufferLock := l\<rparr>) = input_ptr p"
  "bool_val (p\<lparr>bufferLock := l\<rparr>) q = bool_val p q" "uint_val (p\<lparr>bufferLock := l\<rparr>) r = uint_val p r"
  by (auto simp: fun_eq_iff coil_ptr_def input_ptr_def bool_val_def uint_val_def split: option.splits)

lemma bool_bank:
  "distinct_ptrs u \<Longrightarrow> bool_val (store_bool (u i) v p) (u k) =
    (if k = i \<and> u i \<noteq> None then v else bool_val p (u k))"
  by (auto simp: bool_val_def store_bool_def set_bool_def split: option.splits dest: distinct_ptrsD)

lemma uint_bank:
  "distinct_ptrs u \<Longrightarrow> uint_val (store_uint (u i) v p) (u k) =
    (if k = i \<and> u i \<noteq> None then v else uint_val p (u k))"
  by (auto simp: uint_val_def store_uint_def set_uint_def split: option.splits dest: distinct_ptrsD)

interpretation coils: image_bank "\<lambda>p k. bool_val p (coil_ptr p k)"
  "\<lambda>i v p. store_bool (coil_ptr p i) v p" "\<lambda>p k. coil_ptr p k \<noteq> None" "\<lambda>p. distinct_ptrs (coil_ptr p)"
  by unfold_locales (simp_all add: bool_bank)

interpretation inputs: image_bank "\<lambda>p k. bool_val p (input_ptr p k)"
  "\<lambda>i v p. store_bool (input_ptr p i) v p" "\<lambda>p k. input_ptr p k \<noteq> None" "\<lambda>p. distinct_ptrs (input_ptr p)"
  by unfold_locales (simp_all add: bool_bank)

interpretation outregs: image_bank "\<lambda>p k. uint_val p (int_output p k)"
  "\<lambda>i v p. store_uint (int_output p i) v p" "\<lambda>p k. int_output p k \<noteq> None" "\<lambda>p. distinct_ptrs (int_output p)"
  by unfold_locales (simp_all add: uint_bank)

interpretation inregs: image_bank "\<lambda>p k. uint_val p (int_input p k)"
  "\<lambda>i v p. store_uint (int_input p i) v p" "\<lambda>p k. int_input p k \<noteq> None" "\<lambda>p. distinct_ptrs (int_input p)"
  by unfold_locales (simp_all add: uint_bank)

interpretation memregs: image_bank "\<lambda>p k. uint_val p (int_memory p k)"
  "\<lambda>i v p. store_uint (int_memory p i) v p" "\<lambda>p k. int_memory p k \<noteq> None" "\<lambda>p. distinct_ptrs (int_memory p)"
  by unfold_locales (simp_all add: uint_bank)

section \<open>The images the runtime starts with\<close>

lemma null_ptrs [simp]: "distinct_ptrs (coil_ptr null_image)" "distinct_ptrs (int_output null_image)"
  by (simp_all add: distinct_ptrs_def coil_ptr_def)

lemma coil_ptr_glue: "coil_ptr (glueVars ix qx null_image) = (\<lambda>k. if k = 0 then Some (BVar qx) else None)"
proof
  fix k :: nat
  have "k div 8 = 0 \<and> k mod 8 = 0 \<longleftrightarrow> k = 0" by auto
  then show "coil_ptr (glueVars ix qx null_image) k = (if k = 0 then Some (BVar qx) else None)"
    by (auto simp: coil_ptr_def glueVars_def)
qed

lemma distinct_glue [simp]: "distinct_ptrs (coil_ptr (glueVars ix qx null_image))"
  by (simp add: coil_ptr_glue distinct_ptrs_def)

end
