(* ===== verification/Modbus.thy ===== *)
theory Modbus
  imports NetState ImageBank "HOL-Library.Signed_Division"
begin

text \<open>
  The Modbus/TCP server of the runtime (Packetized-PLC-IO/modbus.cpp): one definition per function,
  over a state that holds the message buffer, the process image, the log, the global
  \<open>MessageLength\<close> and the handler's local \<open>mb_error\<close>. The two bit readers have the same body over
  different tables, which is \<open>read_bits\<close>; the loop bodies of the register handlers are named
  definitions. Addresses and lengths are C \<open>int\<close>s between 0 and 200000 and modelled as \<^typ>\<open>nat\<close>,
  except where the code subtracts.
\<close>

section \<open>Constants and state\<close>

definition MAX_DISCRETE_INPUT :: nat where "MAX_DISCRETE_INPUT = 8192"
definition MAX_COILS :: nat where "MAX_COILS = 8192"
definition MAX_INP_REGS :: nat where "MAX_INP_REGS = 1024"
definition MIN_16B_RANGE :: nat where "MIN_16B_RANGE = 1024"
definition MAX_16B_RANGE :: nat where "MAX_16B_RANGE = 2047"
definition MIN_32B_RANGE :: nat where "MIN_32B_RANGE = 2048"
definition MAX_32B_RANGE :: nat where "MAX_32B_RANGE = 4095"
definition MIN_64B_RANGE :: nat where "MIN_64B_RANGE = 4096"
definition MAX_64B_RANGE :: nat where "MAX_64B_RANGE = 8191"

lemmas mb_ranges = MAX_DISCRETE_INPUT_def MAX_COILS_def MAX_INP_REGS_def MIN_16B_RANGE_def
  MAX_16B_RANGE_def MIN_32B_RANGE_def MAX_32B_RANGE_def MIN_64B_RANGE_def MAX_64B_RANGE_def

datatype mb_err = ERR_NONE | ERR_ILLEGAL_FUNCTION | ERR_ILLEGAL_DATA_ADDRESS | ERR_ILLEGAL_DATA_VALUE
  | ERR_SLAVE_DEVICE_FAILURE | ERR_SLAVE_DEVICE_BUSY

fun mb_code :: "mb_err \<Rightarrow> byte" where
  "mb_code ERR_NONE = 0"
| "mb_code ERR_ILLEGAL_FUNCTION = 1"
| "mb_code ERR_ILLEGAL_DATA_ADDRESS = 2"
| "mb_code ERR_ILLEGAL_DATA_VALUE = 3"
| "mb_code ERR_SLAVE_DEVICE_FAILURE = 4"
| "mb_code ERR_SLAVE_DEVICE_BUSY = 6"

record mbs = nst +
  MessageLength :: nat
  mb_error :: mb_err

text \<open>The state in which a connection hands a received message to the server.\<close>

definition request :: "byte list \<Rightarrow> plc \<Rightarrow> mbs" where
  "request bs p = \<lparr>buf = received bs, img = p, lg = \<lparr>log_text = [], log_counter = 0\<rparr>,
     MessageLength = 0, mb_error = ERR_NONE\<rparr>"

lemma request_simps [simp]:
  "buf (request bs p) = received bs" "img (request bs p) = p"
  by (simp_all add: request_def)

section \<open>Helpers\<close>

definition word_mb :: "byte \<Rightarrow> byte \<Rightarrow> nat" where
  "word_mb byte1 byte2 = push_bit 8 (unat byte1) OR unat byte2"

text \<open>
  \<open>mapUnusedIO\<close> points every entry the PLC program leaves NULL at the Modbus server's own arrays; one
  definition per loop body.
\<close>

definition map_input_step :: "nat \<Rightarrow> plc \<Rightarrow> plc" where
  "map_input_step i p =
     (if bool_input p (i div 8) (i mod 8) = None
      then p\<lparr>bool_input := (bool_input p)(i div 8 := (bool_input p (i div 8))(i mod 8 := Some (MbDiscreteInput i)))\<rparr>
      else p)"

definition map_coil_step :: "nat \<Rightarrow> plc \<Rightarrow> plc" where
  "map_coil_step i p =
     (if bool_output p (i div 8) (i mod 8) = None
      then p\<lparr>bool_output := (bool_output p)(i div 8 := (bool_output p (i div 8))(i mod 8 := Some (MbCoil i)))\<rparr>
      else p)"

definition map_inreg_step :: "nat \<Rightarrow> plc \<Rightarrow> plc" where
  "map_inreg_step i p =
     (if int_input p i = None then p\<lparr>int_input := (int_input p)(i := Some (MbInputReg i))\<rparr> else p)"

definition map_holding_step :: "nat \<Rightarrow> plc \<Rightarrow> plc" where
  "map_holding_step i p =
     (if i < MIN_16B_RANGE
      then (if int_output p i = None
            then p\<lparr>int_output := (int_output p)(i := Some (MbHoldingReg i))\<rparr> else p)
      else if i \<ge> MIN_16B_RANGE \<and> i \<le> MAX_16B_RANGE
      then (if int_memory p (i - MIN_16B_RANGE) = None
            then p\<lparr>int_memory := (int_memory p)(i - MIN_16B_RANGE := Some (MbHoldingReg i))\<rparr> else p)
      else p)"

definition mapUnusedIO :: "plc \<Rightarrow> plc option" where
  "mapUnusedIO p = do {
     p \<leftarrow> lock p;
     let p = fold map_input_step [0..<MAX_DISCRETE_INPUT] p;
     let p = fold map_coil_step [0..<MAX_COILS] p;
     let p = fold map_inreg_step [0..<MAX_INP_REGS] p;
     let p = fold map_holding_step [0..<MAX_16B_RANGE + 1] p;
     unlock p
   }"

definition ModbusError :: "mb_err \<Rightarrow> mbs \<Rightarrow> mbs option" where
  "ModbusError e s = do {
     s \<leftarrow> putb 4 0 s;
     s \<leftarrow> putb 5 3 s;
     b7 \<leftarrow> getb 7 s;
     s \<leftarrow> putb 7 (b7 OR 0x80) s;
     s \<leftarrow> putb 8 (mb_code e) s;
     Some (s\<lparr>MessageLength := 9\<rparr>)
   }"

text \<open>How most handlers end: the error response if a step recorded an error, else the length.\<close>

definition finish :: "nat \<Rightarrow> mbs \<Rightarrow> mbs option" where
  "finish n s = (if mb_error s \<noteq> ERR_NONE then ModbusError (mb_error s) s
     else Some (s\<lparr>MessageLength := n\<rparr>))"

text \<open>How the two single-write handlers end: the request is echoed.\<close>

definition finish_echo :: "mbs \<Rightarrow> mbs option" where
  "finish_echo s =
     (if mb_error s \<noteq> ERR_NONE then ModbusError (mb_error s) s
      else do {
        s \<leftarrow> putb 4 0 s;
        s \<leftarrow> putb 5 6 s;
        Some (s\<lparr>MessageLength := 12\<rparr>)
      })"

text \<open>Number of bytes that hold \<open>n\<close> bits: \<open>n / 8\<close>, plus one if there is a remainder.\<close>

definition bit_bytes :: "nat \<Rightarrow> nat" where
  "bit_bytes n = (if n div 8 * 8 < n then n div 8 + 1 else n div 8)"

section \<open>Reading bits\<close>

definition read_bit_step ::
  "(plc \<Rightarrow> nat \<Rightarrow> nat \<Rightarrow> bool_ptr option) \<Rightarrow> nat \<Rightarrow> nat \<Rightarrow> nat \<Rightarrow> nat \<Rightarrow> mbs \<Rightarrow> mbs option" where
  "read_bit_step tab limit Start i j s =
     (let position = Start + i * 8 + j in
      if position < limit
      then do {
        q \<leftarrow> bool_at (tab (img s)) (position div 8) (position mod 8);
        b \<leftarrow> getb (9 + i) s;
        (case q of
           Some a \<Rightarrow> putb (9 + i) (bitWrite b j (bools (img s) a)) s
         | None \<Rightarrow> putb (9 + i) (bitWrite b j 0) s)
      }
      else Some (s\<lparr>mb_error := ERR_ILLEGAL_DATA_ADDRESS\<rparr>))"

definition read_bits ::
  "(plc \<Rightarrow> nat \<Rightarrow> nat \<Rightarrow> bool_ptr option) \<Rightarrow> nat \<Rightarrow> nat \<Rightarrow> mbs \<Rightarrow> mbs option" where
  "read_bits tab limit bufferSize s0 =
     (let s = s0\<lparr>mb_error := ERR_NONE\<rparr> in
      if bufferSize < 12 then ModbusError ERR_ILLEGAL_DATA_VALUE s
      else do {
        b8 \<leftarrow> getb 8 s; b9 \<leftarrow> getb 9 s; b10 \<leftarrow> getb 10 s; b11 \<leftarrow> getb 11 s;
        let Start = word_mb b8 b9;
        let CoilDataLength = word_mb b10 b11;
        let ByteDataLength = bit_bytes CoilDataLength;
        if ByteDataLength > 255 then ModbusError ERR_ILLEGAL_DATA_ADDRESS s
        else do {
          s \<leftarrow> putb 4 (highByte (ByteDataLength + 3)) s;
          s \<leftarrow> putb 5 (lowByte (ByteDataLength + 3)) s;
          s \<leftarrow> putb 8 (lowByte ByteDataLength) s;
          s \<leftarrow> on_img lock s;
          s \<leftarrow> for_each (\<lambda>i. for_each (read_bit_step tab limit Start i) [0..<8]) [0..<ByteDataLength] s;
          s \<leftarrow> on_img unlock s;
          finish (ByteDataLength + 9) s
        }
      })"

definition ReadCoils :: "nat \<Rightarrow> mbs \<Rightarrow> mbs option" where
  "ReadCoils = read_bits bool_output MAX_COILS"

definition ReadDiscreteInputs :: "nat \<Rightarrow> mbs \<Rightarrow> mbs option" where
  "ReadDiscreteInputs = read_bits bool_input MAX_DISCRETE_INPUT"

section \<open>Reading registers\<close>

definition hi16 :: "16 word \<Rightarrow> byte" where "hi16 w = ucast (drop_bit 8 w)"
definition lo16 :: "16 word \<Rightarrow> byte" where "lo16 w = ucast w"

text \<open>
  The bytes the response carries for the holding register at a position; the inner \<^term>\<open>None\<close> is
  the invalid address. A 32-bit or 64-bit variable is read by 16-bit words, the most significant
  one first; \<open>(uint16_t)(v >> k)\<close> of a signed value is the same bits as of an unsigned one.
\<close>

definition dint_word :: "32 word \<Rightarrow> nat \<Rightarrow> 16 word" where
  "dint_word v k = (if k mod 2 = 0 then ucast (drop_bit 16 v) else ucast (v AND 0xffff))"

definition lint_word :: "64 word \<Rightarrow> nat \<Rightarrow> 16 word" where
  "lint_word v k =
     (if k mod 4 = 0 then ucast (drop_bit 48 v)
      else if k mod 4 = 1 then ucast (drop_bit 32 v AND 0xffff)
      else if k mod 4 = 2 then ucast (drop_bit 16 v AND 0xffff)
      else ucast (v AND 0xffff))"

definition holding_bytes :: "plc \<Rightarrow> nat \<Rightarrow> (byte \<times> byte) option option" where
  "holding_bytes p position =
     (if position \<le> MIN_16B_RANGE then do {
        q \<leftarrow> tab_at (int_output p) position;
        Some (Some (case q of None \<Rightarrow> (0, 0) | Some a \<Rightarrow> (hi16 (uints p a), lo16 (uints p a))))
      }
      else if position \<ge> MIN_16B_RANGE \<and> position \<le> MAX_16B_RANGE then do {
        q \<leftarrow> tab_at (int_memory p) (position - MIN_16B_RANGE);
        Some (Some (case q of None \<Rightarrow> (0, 0) | Some a \<Rightarrow> (hi16 (uints p a), lo16 (uints p a))))
      }
      else if position \<ge> MIN_32B_RANGE \<and> position \<le> MAX_32B_RANGE then do {
        q \<leftarrow> tab_at (dint_memory p) ((position - MIN_32B_RANGE) div 2);
        Some (Some (case q of
            None \<Rightarrow> (ucast (uints p (MbHoldingReg position)), ucast (uints p (MbHoldingReg position)))
          | Some a \<Rightarrow> let w = dint_word (dints p a) (position - MIN_32B_RANGE) in (hi16 w, lo16 w)))
      }
      else if position \<ge> MIN_64B_RANGE \<and> position \<le> MAX_64B_RANGE then do {
        q \<leftarrow> tab_at (lint_memory p) ((position - MIN_64B_RANGE) div 4);
        Some (Some (case q of
            None \<Rightarrow> (ucast (uints p (MbHoldingReg position)), ucast (uints p (MbHoldingReg position)))
          | Some a \<Rightarrow> let w = lint_word (lints p a) (position - MIN_64B_RANGE) in (hi16 w, lo16 w)))
      }
      else Some None)"

definition input_bytes :: "plc \<Rightarrow> nat \<Rightarrow> (byte \<times> byte) option option" where
  "input_bytes p position =
     (if position < MAX_INP_REGS then do {
        q \<leftarrow> tab_at (int_input p) position;
        Some (Some (case q of None \<Rightarrow> (0, 0) | Some a \<Rightarrow> (hi16 (uints p a), lo16 (uints p a))))
      }
      else Some None)"

definition read_reg_step ::
  "(plc \<Rightarrow> nat \<Rightarrow> (byte \<times> byte) option option) \<Rightarrow> nat \<Rightarrow> nat \<Rightarrow> mbs \<Rightarrow> mbs option" where
  "read_reg_step reg Start i s = do {
     r \<leftarrow> reg (img s) (Start + i);
     (case r of
        Some hl \<Rightarrow> do {
          s \<leftarrow> putb (9 + i * 2) (fst hl) s;
          putb (10 + i * 2) (snd hl) s
        }
      | None \<Rightarrow> Some (s\<lparr>mb_error := ERR_ILLEGAL_DATA_ADDRESS\<rparr>))
   }"

definition read_regs ::
  "(plc \<Rightarrow> nat \<Rightarrow> (byte \<times> byte) option option) \<Rightarrow> nat \<Rightarrow> mbs \<Rightarrow> mbs option" where
  "read_regs reg bufferSize s0 =
     (let s = s0\<lparr>mb_error := ERR_NONE\<rparr> in
      if bufferSize < 12 then ModbusError ERR_ILLEGAL_DATA_VALUE s
      else do {
        b8 \<leftarrow> getb 8 s; b9 \<leftarrow> getb 9 s; b10 \<leftarrow> getb 10 s; b11 \<leftarrow> getb 11 s;
        let Start = word_mb b8 b9;
        let WordDataLength = word_mb b10 b11;
        let ByteDataLength = WordDataLength * 2;
        if ByteDataLength > 255 then ModbusError ERR_ILLEGAL_DATA_ADDRESS s
        else do {
          s \<leftarrow> putb 4 (highByte (ByteDataLength + 3)) s;
          s \<leftarrow> putb 5 (lowByte (ByteDataLength + 3)) s;
          s \<leftarrow> putb 8 (lowByte ByteDataLength) s;
          s \<leftarrow> on_img lock s;
          s \<leftarrow> for_each (read_reg_step reg Start) [0..<WordDataLength] s;
          s \<leftarrow> on_img unlock s;
          finish (ByteDataLength + 9) s
        }
      })"

definition ReadHoldingRegisters :: "nat \<Rightarrow> mbs \<Rightarrow> mbs option" where
  "ReadHoldingRegisters = read_regs holding_bytes"

definition ReadInputRegisters :: "nat \<Rightarrow> mbs \<Rightarrow> mbs option" where
  "ReadInputRegisters = read_regs input_bytes"

section \<open>Writing coils\<close>

definition WriteCoil :: "nat \<Rightarrow> mbs \<Rightarrow> mbs option" where
  "WriteCoil bufferSize s0 =
     (let s = s0\<lparr>mb_error := ERR_NONE\<rparr> in
      if bufferSize < 12 then ModbusError ERR_ILLEGAL_DATA_VALUE s
      else do {
        b8 \<leftarrow> getb 8 s; b9 \<leftarrow> getb 9 s;
        let Start = word_mb b8 b9;
        s \<leftarrow> (if Start < MAX_COILS
             then do {
               b10 \<leftarrow> getb 10 s; b11 \<leftarrow> getb 11 s;
               let value = (if word_mb b10 b11 > 0 then 1 else 0);
               s \<leftarrow> on_img lock s;
               q \<leftarrow> bool_at (bool_output (img s)) (Start div 8) (Start mod 8);
               s \<leftarrow> on_img (\<lambda>p. Some (store_bool q value p)) s;
               on_img unlock s
             }
             else Some (s\<lparr>mb_error := ERR_ILLEGAL_DATA_ADDRESS\<rparr>));
        finish_echo s
      })"

definition write_coil_step :: "nat \<Rightarrow> nat \<Rightarrow> nat \<Rightarrow> mbs \<Rightarrow> mbs option" where
  "write_coil_step Start i j s =
     (let position = Start + i * 8 + j in
      if position < MAX_COILS
      then do {
        q \<leftarrow> bool_at (bool_output (img s)) (position div 8) (position mod 8);
        b \<leftarrow> getb (13 + i) s;
        on_img (\<lambda>p. Some (store_bool q (bitRead b j) p)) s
      }
      else Some (s\<lparr>mb_error := ERR_ILLEGAL_DATA_ADDRESS\<rparr>))"

definition WriteMultipleCoils :: "nat \<Rightarrow> mbs \<Rightarrow> mbs option" where
  "WriteMultipleCoils bufferSize s0 =
     (let s = s0\<lparr>mb_error := ERR_NONE\<rparr> in
      if bufferSize < 12 then ModbusError ERR_ILLEGAL_DATA_VALUE s
      else do {
        b8 \<leftarrow> getb 8 s; b9 \<leftarrow> getb 9 s; b10 \<leftarrow> getb 10 s; b11 \<leftarrow> getb 11 s;
        let Start = word_mb b8 b9;
        let CoilDataLength = word_mb b10 b11;
        let ByteDataLength = bit_bytes CoilDataLength;
        b12 \<leftarrow> getb 12 s;
        if bufferSize < 13 + ByteDataLength \<or> unat b12 \<noteq> ByteDataLength
        then ModbusError ERR_ILLEGAL_DATA_VALUE s
        else do {
          s \<leftarrow> putb 4 0 s;
          s \<leftarrow> putb 5 6 s;
          s \<leftarrow> on_img lock s;
          s \<leftarrow> for_each (\<lambda>i. for_each (write_coil_step Start i) [0..<8]) [0..<ByteDataLength] s;
          s \<leftarrow> on_img unlock s;
          finish 12 s
        }
      })"

section \<open>Writing registers\<close>

text \<open>Replacing one 16-bit word of a 32-bit or 64-bit variable: mask it out, then or it in.\<close>

definition put_dint_word :: "nat \<Rightarrow> nat \<Rightarrow> 32 word \<Rightarrow> 32 word" where
  "put_dint_word k tempValue v =
     (if k mod 2 = 0 then (v AND 0x0000ffff) OR push_bit 16 (word_of_nat tempValue)
      else (v AND 0xffff0000) OR word_of_nat tempValue)"

definition put_lint_word :: "int \<Rightarrow> nat \<Rightarrow> 64 word \<Rightarrow> 64 word" where
  "put_lint_word k tempValue v =
     (if k = 0 then (v AND 0x0000ffffffffffff) OR push_bit 48 (word_of_nat tempValue)
      else if k = 1 then (v AND 0xffff0000ffffffff) OR push_bit 32 (word_of_nat tempValue)
      else if k = 2 then (v AND 0xffffffff0000ffff) OR push_bit 16 (word_of_nat tempValue)
      else if k = 3 then (v AND 0xffffffffffff0000) OR word_of_nat tempValue
      else v)"

definition write_holding :: "nat \<Rightarrow> nat \<Rightarrow> mbs \<Rightarrow> mbs option" where
  "write_holding Start val s =
     (if Start \<le> MIN_16B_RANGE then do {
        q \<leftarrow> tab_at (int_output (img s)) Start;
        on_img (\<lambda>p. Some (store_uint q (word_of_nat val) p)) s
      }
      else if Start \<ge> MIN_16B_RANGE \<and> Start \<le> MAX_16B_RANGE then do {
        q \<leftarrow> tab_at (int_memory (img s)) (Start - MIN_16B_RANGE);
        on_img (\<lambda>p. Some (store_uint q (word_of_nat val) p)) s
      }
      else if Start \<ge> MIN_32B_RANGE \<and> Start \<le> MAX_32B_RANGE then do {
        q \<leftarrow> tab_at (dint_memory (img s)) ((Start - MIN_32B_RANGE) div 2);
        on_img (\<lambda>p. Some (case q of
            Some a \<Rightarrow> set_dint a (put_dint_word (Start - MIN_32B_RANGE) val (dints p a)) p
          | None \<Rightarrow> set_uint (MbHoldingReg Start) (word_of_nat val) p)) s
      }
      else if Start \<ge> MIN_64B_RANGE \<and> Start \<le> MAX_64B_RANGE then do {
        q \<leftarrow> tab_at (lint_memory (img s)) ((Start - MIN_64B_RANGE) div 4);
        on_img (\<lambda>p. Some (case q of
            Some a \<Rightarrow> set_lint a (put_lint_word (int ((Start - MIN_64B_RANGE) mod 4)) val (lints p a)) p
          | None \<Rightarrow> set_uint (MbHoldingReg Start) (word_of_nat val) p)) s
      }
      else Some (s\<lparr>mb_error := ERR_ILLEGAL_DATA_ADDRESS\<rparr>))"

definition WriteRegister :: "nat \<Rightarrow> mbs \<Rightarrow> mbs option" where
  "WriteRegister bufferSize s0 =
     (let s = s0\<lparr>mb_error := ERR_NONE\<rparr> in
      if bufferSize < 12 then ModbusError ERR_ILLEGAL_DATA_VALUE s
      else do {
        b8 \<leftarrow> getb 8 s; b9 \<leftarrow> getb 9 s;
        let Start = word_mb b8 b9;
        s \<leftarrow> on_img lock s;
        b10 \<leftarrow> getb 10 s; b11 \<leftarrow> getb 11 s;
        s \<leftarrow> write_holding Start (word_mb b10 b11) s;
        s \<leftarrow> on_img unlock s;
        finish_echo s
      })"

text \<open>
  The loop body of \<open>WriteMultipleRegisters\<close>. It selects the 32-bit variable's NULL test, the word of
  a 64-bit variable other than the first, and the holding register of an unmapped 64-bit variable
  by \<open>Start\<close> where it writes at \<open>position\<close>; the subtractions may be negative, and the quotient and
  remainder are those of C.
\<close>

definition tab_at_int :: "(nat \<Rightarrow> 'p option) \<Rightarrow> int \<Rightarrow> 'p option option" where
  "tab_at_int t i = (if i < 0 then None else tab_at t (nat i))"

definition write_regs_step :: "nat \<Rightarrow> nat \<Rightarrow> mbs \<Rightarrow> mbs option" where
  "write_regs_step Start i s =
     (let position = Start + i in
      if position \<le> MIN_16B_RANGE then do {
        q \<leftarrow> tab_at (int_output (img s)) position;
        h \<leftarrow> getb (13 + i * 2) s; l \<leftarrow> getb (14 + i * 2) s;
        on_img (\<lambda>p. Some (store_uint q (word_of_nat (word_mb h l)) p)) s
      }
      else if position \<ge> MIN_16B_RANGE \<and> position \<le> MAX_16B_RANGE then do {
        q \<leftarrow> tab_at (int_memory (img s)) (position - MIN_16B_RANGE);
        h \<leftarrow> getb (13 + i * 2) s; l \<leftarrow> getb (14 + i * 2) s;
        on_img (\<lambda>p. Some (store_uint q (word_of_nat (word_mb h l)) p)) s
      }
      else if position \<ge> MIN_32B_RANGE \<and> position \<le> MAX_32B_RANGE then do {
        test \<leftarrow> tab_at_int (dint_memory (img s)) ((int Start - int MIN_32B_RANGE) sdiv 2);
        h \<leftarrow> getb (13 + i * 2) s; l \<leftarrow> getb (14 + i * 2) s;
        (if test \<noteq> None
         then do {
           q \<leftarrow> tab_at (dint_memory (img s)) ((position - MIN_32B_RANGE) div 2);
           a \<leftarrow> q;
           on_img (\<lambda>p. Some (set_dint a
             (put_dint_word (position - MIN_32B_RANGE) (word_mb h l) (dints p a)) p)) s
         }
         else on_img (\<lambda>p. Some (set_uint (MbHoldingReg position) (word_of_nat (word_mb h l)) p)) s)
      }
      else if position \<ge> MIN_64B_RANGE \<and> position \<le> MAX_64B_RANGE then do {
        q \<leftarrow> tab_at (lint_memory (img s)) ((position - MIN_64B_RANGE) div 4);
        h \<leftarrow> getb (13 + i * 2) s; l \<leftarrow> getb (14 + i * 2) s;
        b10 \<leftarrow> getb 10 s; b11 \<leftarrow> getb 11 s;
        (case q of
           Some a \<Rightarrow>
             (let k = (if (position - MIN_64B_RANGE) mod 4 = 0 then 0
                       else let r = (int Start - int MIN_64B_RANGE) smod 4 in
                            if r \<in> {1, 2, 3} then r else -1)
              in on_img (\<lambda>p. Some (set_lint a (put_lint_word k (word_mb h l) (lints p a)) p)) s)
         | None \<Rightarrow> on_img (\<lambda>p. Some (set_uint (MbHoldingReg Start) (word_of_nat (word_mb b10 b11)) p)) s)
      }
      else Some (s\<lparr>mb_error := ERR_ILLEGAL_DATA_ADDRESS\<rparr>))"

definition WriteMultipleRegisters :: "nat \<Rightarrow> mbs \<Rightarrow> mbs option" where
  "WriteMultipleRegisters bufferSize s0 =
     (let s = s0\<lparr>mb_error := ERR_NONE\<rparr> in
      if bufferSize < 12 then ModbusError ERR_ILLEGAL_DATA_VALUE s
      else do {
        b8 \<leftarrow> getb 8 s; b9 \<leftarrow> getb 9 s; b10 \<leftarrow> getb 10 s; b11 \<leftarrow> getb 11 s;
        let Start = word_mb b8 b9;
        let WordDataLength = word_mb b10 b11;
        let ByteDataLength = WordDataLength * 2;
        b12 \<leftarrow> getb 12 s;
        if bufferSize < 13 + ByteDataLength \<or> unat b12 \<noteq> ByteDataLength
        then ModbusError ERR_ILLEGAL_DATA_VALUE s
        else do {
          s \<leftarrow> putb 4 0 s;
          s \<leftarrow> putb 5 6 s;
          s \<leftarrow> on_img lock s;
          s \<leftarrow> for_each (write_regs_step Start) [0..<WordDataLength] s;
          s \<leftarrow> on_img unlock s;
          finish 12 s
        }
      })"

section \<open>The dispatcher\<close>

definition processModbusMessage :: "nat \<Rightarrow> mbs \<Rightarrow> mbs option" where
  "processModbusMessage bufferSize s0 =
     (let s = s0\<lparr>MessageLength := 0\<rparr> in
      if bufferSize < 8 then ModbusError ERR_ILLEGAL_FUNCTION s
      else do {
        fc \<leftarrow> getb 7 s;
        if fc = 1 then ReadCoils bufferSize s
        else if fc = 2 then ReadDiscreteInputs bufferSize s
        else if fc = 3 then ReadHoldingRegisters bufferSize s
        else if fc = 4 then ReadInputRegisters bufferSize s
        else if fc = 5 then WriteCoil bufferSize s
        else if fc = 6 then WriteRegister bufferSize s
        else if fc = 15 then WriteMultipleCoils bufferSize s
        else if fc = 16 then WriteMultipleRegisters bufferSize s
        else ModbusError ERR_ILLEGAL_FUNCTION s
      })"

end
