(* ===== verification/Modbus_Props.thy ===== *)
theory Modbus_Props
  imports Modbus
begin

text \<open>
  The Modbus server is memory safe and leaves the mutex as it found it for every request that does
  not reach register 1024, reads and writes what the protocol says over the bit tables, and the
  register functions have the defects proved at the end.
\<close>

section \<open>Arithmetic of requests\<close>

lemma word_mb_eq: "word_mb h l = 256 * unat h + unat l"
proof -
  have l: "take_bit 8 (unat l) = unat l"
    using unsigned_less[of l, where 'a = nat] by (simp add: take_bit_nat_eq_self)
  have "push_bit 8 (unat h) OR unat l = push_bit 8 (unat h) + unat l"
    by (rule disjunctive_add[symmetric])
      (metis bit_push_bit_iff_nat bit_take_bit_iff l linorder_not_less)
  then show ?thesis by (simp add: word_mb_def push_bit_eq_mult)
qed

lemma word_mb_bound: "word_mb h l < 65536"
proof -
  have "unat h < 2 ^ 8" "unat l < 2 ^ 8"
    using unsigned_less[of h] unsigned_less[of l] by simp_all
  then show ?thesis by (simp add: word_mb_eq)
qed

lemma bit_bytes_eq: "bit_bytes n = (n + 7) div 8"
  by (auto simp: bit_bytes_def)

lemma bit_bytes_cover: "n \<le> 8 * bit_bytes n"
  by (auto simp: bit_bytes_def)

lemma unat_byte_bound: "unat (b :: byte) < 256"
  using unsigned_less[of b] by simp

section \<open>The state inside a handler's critical section\<close>

lemma frame_upd [simp]:
  "frame s (t\<lparr>MessageLength := n\<rparr>) = frame s (t :: mbs)"
  "frame s (t\<lparr>mb_error := e\<rparr>) = frame s (t :: mbs)"
  by (simp_all add: frame_def)

lemma frame_from [simp]:
  "frame (s\<lparr>MessageLength := n\<rparr>) (t :: mbs) = frame s t"
  "frame (s\<lparr>mb_error := e\<rparr>) (t :: mbs) = frame s t"
  by (simp_all add: frame_def)

lemma locked_mbs [simp]:
  "locked s (t\<lparr>mb_error := e\<rparr>) = locked s (t :: mbs)"
  "locked (s\<lparr>mb_error := e\<rparr>) t = locked s (t :: mbs)"
  "locked (s\<lparr>MessageLength := n\<rparr>) t = locked s (t :: mbs)"
  by (simp_all add: locked_def)

lemma ok_ModbusError:
  "8 < length (buf s) \<Longrightarrow> ok (ModbusError e s) (\<lambda>t. frame s t \<and> MessageLength t = 9)"
  by (simp add: ModbusError_def ok_rules)

text \<open>What every handler guarantees.\<close>

definition handled :: "mbs \<Rightarrow> mbs \<Rightarrow> bool" where
  "handled s t \<longleftrightarrow> frame s t \<and> 9 \<le> MessageLength t \<and> MessageLength t \<le> 264"

lemma handled_ModbusError:
  "8 < length (buf t) \<Longrightarrow> frame s t \<Longrightarrow> ok (ModbusError e t) (handled s)"
  by (rule ok_weaken[OF ok_ModbusError]) (auto simp: handled_def intro: frame_trans)

text \<open>
  The shape of the handlers: a critical section whose body keeps \<open>locked\<close>, then the error response
  or the normal one.
\<close>

lemma handled_finish:
  assumes "locked s t" "\<not> bufferLock (img s)" "8 < length (buf s)" "9 \<le> n" "n \<le> 264"
  shows "ok (on_img unlock t) (\<lambda>u. ok (finish n u) (handled s))"
proof -
  let ?u = "t\<lparr>img := (img t)\<lparr>bufferLock := False\<rparr>\<rparr>"
  have f: "frame s ?u" using assms(1,2) by (rule locked_leave)
  have "8 < length (buf ?u)" using assms(1,3) by (simp add: locked_def)
  with f assms(4,5) handled_ModbusError[of ?u s "mb_error t"] assms(1) show ?thesis
    by (simp add: ok_on_img ok_unlock locked_def handled_def finish_def)
qed

lemma handled_critical:
  assumes "frame s u" "\<not> bufferLock (img s)" "8 < length (buf s)" "9 \<le> n" "n \<le> 264"
    and "\<And>t. locked s t \<Longrightarrow> ok (body t) (locked s)"
  shows "ok (on_img lock u) (\<lambda>t. ok (body t) (\<lambda>t. ok (on_img unlock t) (\<lambda>u. ok (finish n u) (handled s))))"
proof -
  let ?t = "u\<lparr>img := (img u)\<lparr>bufferLock := True\<rparr>\<rparr>"
  have "locked s ?t" using assms(1) by (simp add: frame_def locked_def)
  then have "ok (body ?t) (\<lambda>t. ok (on_img unlock t) (\<lambda>u. ok (finish n u) (handled s)))"
    by (rule ok_weaken[OF assms(6)]) (rule handled_finish[OF _ assms(2-5)])
  then show ?thesis
    using assms(1,2) by (simp add: ok_on_img ok_lock frame_def)
qed

section \<open>Memory safety and the mutex\<close>

lemma safe_read_bit_step:
  assumes "locked s t" "9 + i < length (buf s)" "j < 8" "limit \<le> 8192"
  shows "ok (read_bit_step tab limit Start i j t) (locked s)"
proof -
  have "9 + i < length (buf t)" using assms(1,2) by (simp add: locked_def)
  then show ?thesis
    using assms by (auto simp: read_bit_step_def Let_def ok_rules split: option.splits)
qed

lemma safe_read_bits:
  assumes "10000 \<le> length (buf s)" "\<not> bufferLock (img s)" "limit \<le> 8192"
  shows "ok (read_bits tab limit n s) (handled s)"
proof -
  have loop: "ok (for_each (\<lambda>i. for_each (read_bit_step tab limit S i) [0..<8]) [0..<b] t) (locked s)"
    if "locked s t" "b \<le> 255" for S b t
    using that assms
    by (auto intro!: ok_for_each_locked safe_read_bit_step)
  show ?thesis
    unfolding read_bits_def Let_def
    using assms
    by (auto simp: ok_getb ok_putb intro!: handled_ModbusError handled_critical loop)
qed

lemma safe_read_reg_step:
  assumes "locked s t" "10 + 2 * i < length (buf s)" "reg (img t) (Start + i) \<noteq> None"
  shows "ok (read_reg_step reg Start i t) (locked s)"
  using assms by (auto simp: read_reg_step_def ok_rules locked_def split: option.splits)

lemma safe_read_regs:
  assumes "10000 \<le> length (buf s)" "\<not> bufferLock (img s)"
    and "\<And>q i. 2 * word_mb (buf s ! 10) (buf s ! 11) \<le> 255 \<Longrightarrow> i < word_mb (buf s ! 10) (buf s ! 11) \<Longrightarrow>
           reg q (word_mb (buf s ! 8) (buf s ! 9) + i) \<noteq> None"
  shows "ok (read_regs reg n s) (handled s)"
proof -
  let ?w = "word_mb (buf s ! 10) (buf s ! 11)" and ?a = "word_mb (buf s ! 8) (buf s ! 9)"
  have loop: "ok (for_each (read_reg_step reg ?a) [0..<?w] t) (locked s)"
    if "locked s t" "?w * 2 \<le> 255" for t
    using that assms by (auto intro!: ok_for_each_locked safe_read_reg_step)
  show ?thesis
    unfolding read_regs_def Let_def
    using assms
    by (auto simp: ok_getb ok_putb intro!: handled_ModbusError handled_critical loop)
qed

lemma input_bytes_total: "input_bytes p i \<noteq> None"
  by (simp add: input_bytes_def MAX_INP_REGS_def)

lemma holding_bytes_total: "i \<noteq> 1024 \<Longrightarrow> holding_bytes p i \<noteq> None"
  by (auto simp: holding_bytes_def mb_ranges)

lemma holding_bytes_1024: "holding_bytes p 1024 = None"
  by (simp add: holding_bytes_def mb_ranges tab_at_out)

lemma safe_write_coil_step:
  assumes "locked s t" "13 + i < length (buf s)"
  shows "ok (write_coil_step Start i j t) (locked s)"
  using assms by (auto simp: write_coil_step_def Let_def ok_rules MAX_COILS_def locked_def
      option.case_distrib)

lemma safe_WriteMultipleCoils:
  assumes "10000 \<le> length (buf s)" "\<not> bufferLock (img s)"
  shows "ok (WriteMultipleCoils n s) (handled s)"
proof -
  have loop: "ok (for_each (\<lambda>i. for_each (write_coil_step S i) [0..<8]) [0..<b] t) (locked s)"
    if "locked s t" "b \<le> 255" for S b t
    using that assms by (auto intro!: ok_for_each_locked safe_write_coil_step)
  show ?thesis
    unfolding WriteMultipleCoils_def Let_def
    using assms unat_byte_bound[of "buf s ! 12"]
    by (auto simp: ok_getb ok_putb intro!: handled_ModbusError handled_critical loop)
qed

lemma safe_write_holding:
  assumes "locked s t" "Start \<noteq> 1024"
  shows "ok (write_holding Start v t) (locked s)"
  using assms by (auto simp: write_holding_def mb_ranges ok_rules option.case_distrib
      split: option.splits)

lemma handled_echo:
  assumes "frame s t" "8 < length (buf s)"
  shows "ok (finish_echo t) (handled s)"
  using assms handled_ModbusError[of t s "mb_error t"]
  by (auto simp: finish_echo_def ok_rules handled_def frame_def)

lemma safe_WriteCoil:
  assumes "10000 \<le> length (buf s)" "\<not> bufferLock (img s)"
  shows "ok (WriteCoil n s) (handled s)"
  unfolding WriteCoil_def Let_def
  using assms
  by (auto simp: ok_rules MAX_COILS_def frame_def intro!: handled_ModbusError handled_echo)

lemma safe_WriteRegister:
  assumes "10000 \<le> length (buf s)" "\<not> bufferLock (img s)" "word_mb (buf s ! 8) (buf s ! 9) \<noteq> 1024"
  shows "ok (WriteRegister n s) (handled s)"
proof -
  have fin: "ok (on_img unlock t) (\<lambda>u. ok (finish_echo u) (handled s))" if "locked s t" for t
    using locked_leave[OF that assms(2)] that assms(1)
    by (auto simp: ok_on_img ok_unlock locked_def intro!: handled_echo)
  have body: "ok (write_holding a v t) (\<lambda>t. ok (on_img unlock t) (\<lambda>u. ok (finish_echo u) (handled s)))"
    if "locked s t" "a \<noteq> 1024" for a v t
    by (rule ok_weaken[OF safe_write_holding[OF that]]) (rule fin)
  show ?thesis
    unfolding WriteRegister_def Let_def
    using assms
    by (auto simp: ok_getb ok_on_lock locked_def intro!: handled_ModbusError body)
qed

text \<open>
  \<open>WriteMultipleRegisters\<close> tests the pointer of the 32-bit variable at the address of the request and stores
  through the pointer of each position: a position is written without a fault when it is not 1024 and, in the block of
  the 32-bit variables, when the address of the request is not more than one below the block, and the variable of the
  position is mapped if the one that was tested is.
\<close>

definition reg_write_ok :: "plc \<Rightarrow> nat \<Rightarrow> nat \<Rightarrow> bool" where
  "reg_write_ok p Start position \<longleftrightarrow> position \<noteq> 1024 \<and>
     (2048 \<le> position \<and> position \<le> 4095 \<longrightarrow> 2047 \<le> Start \<and>
       (dint_memory p ((Start - 2048) div 2) \<noteq> None \<longrightarrow> dint_memory p ((position - 2048) div 2) \<noteq> None))"

lemma tested_dint:
  assumes "Start \<le> position" "position \<le> 4095"
  shows "tab_at_int t ((int Start - 2048) sdiv 2) = (if 2047 \<le> Start then Some (t ((Start - 2048) div 2)) else None)"
proof (cases "2048 \<le> Start")
  case True
  then have e: "int Start - 2048 = int (Start - 2048)" by simp
  have "(int Start - 2048) sdiv 2 = int ((Start - 2048) div 2)"
    unfolding e by (auto simp: signed_divide_int_def sgn_if zdiv_int)
  then show ?thesis using True assms by (simp add: tab_at_int_def tab_at_in)
next
  case False
  then have "(int Start - 2048) sdiv 2 = - int ((2048 - Start) div 2)"
    by (auto simp: signed_divide_int_def sgn_if zdiv_int)
  then show ?thesis using False by (auto simp: tab_at_int_def tab_at_in)
qed

lemma write_regs_step_exact:
  assumes "locked s t" "14 + 2 * i < length (buf s)"
  shows "if reg_write_ok (img s) Start (Start + i) then ok (write_regs_step Start i t) (locked s) else write_regs_step Start i t = None"
proof -
  have t: "length (buf t) = length (buf s)" "dint_memory (img t) = dint_memory (img s)"
    using assms(1) by (auto simp: locked_def same_tables_def)
  have d: "2048 \<le> Start + i \<Longrightarrow> Start + i \<le> 4095 \<Longrightarrow>
      tab_at_int (dint_memory (img t)) ((int Start - 2048) sdiv 2) = (if 2047 \<le> Start then Some (dint_memory (img s) ((Start - 2048) div 2)) else None)"
    unfolding t(2) by (rule tested_dint) simp_all
  consider "Start + i < 1024" | "Start + i = 1024" | "1024 < Start + i" "Start + i < 2048" | "2048 \<le> Start + i" "Start + i \<le> 4095"
    | "4095 < Start + i" by linarith
  then show ?thesis
  proof cases
    case 4
    have "ok (dint_memory (img s) ((Start + i - 2048) div 2)) P \<longleftrightarrow> (\<exists>a. dint_memory (img s) ((Start + i - 2048) div 2) = Some a \<and> P a)" for P
      by (auto simp: ok_iff)
    with 4 show ?thesis using assms t d[OF 4]
      by (auto simp: write_regs_step_def Let_def mb_ranges reg_write_ok_def ok_rules)
  next
    case 5
    then show ?thesis using assms t
      by (auto simp: write_regs_step_def Let_def mb_ranges reg_write_ok_def ok_rules option.case_distrib split: option.splits)
  qed (use assms t in \<open>auto simp: write_regs_step_def Let_def mb_ranges reg_write_ok_def ok_rules tab_at_out option.case_distrib split: option.splits\<close>)
qed

lemma for_each_exact:
  assumes "locked s t" and "\<And>i u. i \<in> set is \<Longrightarrow> locked s u \<Longrightarrow> if P i then ok (f i u) (locked s) else f i u = None"
  shows "if \<forall>i\<in>set is. P i then ok (for_each f is t) (locked s) else for_each f is t = None"
  using assms
proof (induction "is" arbitrary: t)
  case (Cons i js)
  have i: "if P i then ok (f i t) (locked s) else f i t = None" using Cons.prems by simp
  show ?case
  proof (cases "P i")
    case True
    then obtain u where u: "f i t = Some u" "locked s u" using i by (auto simp: ok_iff)
    show ?thesis using Cons.IH[OF u(2)] Cons.prems(2) u(1) True by simp
  qed (use i in simp)
qed simp

lemma WriteMultipleRegisters_exact:
  fixes s :: mbs
  defines "w \<equiv> word_mb (buf s ! 10) (buf s ! 11)" and "a \<equiv> word_mb (buf s ! 8) (buf s ! 9)"
  assumes "10000 \<le> length (buf s)" "\<not> bufferLock (img s)"
  shows "if 12 \<le> n \<and> 13 + 2 * w \<le> n \<and> unat (buf s ! 12) = 2 * w \<longrightarrow> (\<forall>i<w. reg_write_ok (img s) a (a + i))
    then ok (WriteMultipleRegisters n s) (handled s) else WriteMultipleRegisters n s = None"
proof -
  have loop: "if \<forall>i<w. reg_write_ok (img s) a (a + i) then ok (for_each (write_regs_step a) [0..<w] t) (locked s)
      else for_each (write_regs_step a) [0..<w] t = None"
    if "locked s t" "w * 2 < 256" for t
  proof -
    have "if reg_write_ok (img s) a (a + i) then ok (write_regs_step a i u) (locked s) else write_regs_step a i u = None"
      if "i \<in> set [0..<w]" "locked s u" for i u
      by (rule write_regs_step_exact) (use that \<open>w * 2 < 256\<close> assms(3) in simp_all)
    from for_each_exact[OF that(1), of "[0..<w]" "\<lambda>i. reg_write_ok (img s) a (a + i)" "write_regs_step a", OF this]
    show ?thesis by (auto split: if_splits)
  qed
  show ?thesis
  proof (cases "\<forall>i<w. reg_write_ok (img s) a (a + i)")
    case True
    then have "ok (for_each (write_regs_step a) [0..<w] t) (locked s)" if "locked s t" "w * 2 < 256" for t
      using loop[OF that] by simp
    then have "ok (WriteMultipleRegisters n s) (handled s)"
      unfolding WriteMultipleRegisters_def Let_def using assms unat_byte_bound[of "buf s ! 12"]
      by (auto simp: ok_getb ok_putb intro!: handled_ModbusError handled_critical)
    with True show ?thesis by simp
  next
    case False
    then have none: "for_each (write_regs_step a) [0..<w] t = None" if "locked s t" "w * 2 < 256" for t
      using loop[OF that] by simp
    show ?thesis
    proof (cases "12 \<le> n \<and> 13 + 2 * w \<le> n \<and> unat (buf s ! 12) = 2 * w")
      case True
      then have "w * 2 < 256" using unat_byte_bound[of "buf s ! 12"] by simp
      moreover have "locked s (s\<lparr>mb_error := ERR_NONE, buf := (buf s)[4 := 0, 5 := 6], img := (img s)\<lparr>bufferLock := True\<rparr>\<rparr>)"
        by (simp add: locked_def)
      ultimately have "for_each (write_regs_step a) [0..<w] (s\<lparr>mb_error := ERR_NONE, buf := (buf s)[4 := 0, 5 := 6], img := (img s)\<lparr>bufferLock := True\<rparr>\<rparr>) = None"
        by (rule none[rotated])
      then have "WriteMultipleRegisters n s = None"
        using True assms(3,4) by (simp add: WriteMultipleRegisters_def Let_def buf_simps on_img_def lock_def w_def a_def mult.commute)
      with True False show ?thesis by simp
    next
      case nocheck: False
      then have "ok (WriteMultipleRegisters n s) (handled s)"
        unfolding WriteMultipleRegisters_def Let_def using assms
        by (auto simp: ok_getb ok_putb mult.commute intro!: handled_ModbusError)
      moreover have "12 \<le> n \<and> 13 + 2 * w \<le> n \<and> unat (buf s ! 12) = 2 * w \<longrightarrow> (\<forall>i<w. reg_write_ok (img s) a (a + i))"
        using nocheck by blast
      ultimately show ?thesis by (subst if_P)
    qed
  qed
qed

text \<open>The requests that the server processes without a fault; \<open>n\<close> is the number of bytes received.\<close>

definition request_safe :: "nat \<Rightarrow> mbs \<Rightarrow> bool" where
  "request_safe n s =
     (let fc = buf s ! 7; Start = word_mb (buf s ! 8) (buf s ! 9); w = word_mb (buf s ! 10) (buf s ! 11)
      in if n < 12 then True
         else if fc = 3 then 2 * w \<le> 255 \<longrightarrow> \<not> (Start \<le> 1024 \<and> 1024 < Start + w)
         else if fc = 6 then Start \<noteq> 1024
         else if fc = 16 then 13 + 2 * w \<le> n \<and> unat (buf s ! 12) = 2 * w \<longrightarrow> (\<forall>i<w. reg_write_ok (img s) Start (Start + i))
         else True)"

lemma short_request:
  assumes "10000 \<le> length (buf s)" "n < 12"
  shows "ok (processModbusMessage n s) (handled s)"
proof -
  have "ok (processModbusMessage n s) (handled (s\<lparr>MessageLength := 0\<rparr>))"
    using assms unfolding processModbusMessage_def Let_def
    by (auto simp: ok_getb ReadCoils_def ReadDiscreteInputs_def ReadHoldingRegisters_def ReadInputRegisters_def read_bits_def read_regs_def
      WriteCoil_def WriteRegister_def WriteMultipleCoils_def WriteMultipleRegisters_def Let_def intro!: handled_ModbusError)
  then show ?thesis by (rule ok_weaken) (simp add: handled_def)
qed

lemma read_1024_faults:
  assumes "10000 \<le> length (buf s)" "\<not> bufferLock (img s)" "12 \<le> n" "2 * word_mb (buf s ! 10) (buf s ! 11) \<le> 255"
    and "word_mb (buf s ! 8) (buf s ! 9) \<le> 1024" "1024 < word_mb (buf s ! 8) (buf s ! 9) + word_mb (buf s ! 10) (buf s ! 11)"
  shows "ReadHoldingRegisters n s = None"
proof -
  let ?a = "word_mb (buf s ! 8) (buf s ! 9)" and ?w = "word_mb (buf s ! 10) (buf s ! 11)"
  have "for_each (read_reg_step holding_bytes ?a) [0..<?w] t = None" for t
    by (rule for_each_fault[of "1024 - ?a"]) (use assms(5,6) in \<open>auto simp: read_reg_step_def holding_bytes_1024\<close>)
  then show ?thesis
    using assms by (simp add: ReadHoldingRegisters_def read_regs_def Let_def buf_simps on_img_def lock_def mult.commute)
qed

lemma write_1024_faults:
  assumes "10000 \<le> length (buf s)" "\<not> bufferLock (img s)" "12 \<le> n" "word_mb (buf s ! 8) (buf s ! 9) = 1024"
  shows "WriteRegister n s = None"
  using assms by (simp add: WriteRegister_def Let_def buf_simps on_img_def lock_def write_holding_def mb_ranges tab_at_out)

lemma processModbusMessage_handled:
  assumes "10000 \<le> length (buf s)" and "\<not> bufferLock (img s)" and "request_safe n s"
  shows "ok (processModbusMessage n s) (handled s)"
proof (cases "n < 12")
  case True
  then show ?thesis by (rule short_request[OF assms(1)])
next
  case False
  let ?s = "s\<lparr>MessageLength := 0\<rparr>"
  have h: "10000 \<le> length (buf ?s)" "\<not> bufferLock (img ?s)" using assms(1,2) by simp_all
  have r3: "ok (ReadHoldingRegisters n ?s) (handled ?s)" if "buf s ! 7 = 3"
  proof -
    have "holding_bytes q (word_mb (buf s ! 8) (buf s ! 9) + i) \<noteq> None"
      if "2 * word_mb (buf s ! 10) (buf s ! 11) \<le> 255" "i < word_mb (buf s ! 10) (buf s ! 11)" for q i
      using assms(3) that \<open>buf s ! 7 = 3\<close> False by (intro holding_bytes_total) (auto simp: request_safe_def Let_def)
    then show ?thesis using h unfolding ReadHoldingRegisters_def by (intro safe_read_regs) simp_all
  qed
  have r16: "ok (WriteMultipleRegisters n ?s) (handled ?s)" if "buf s ! 7 = 16"
    using WriteMultipleRegisters_exact[OF h, of n] assms(3) that False by (auto simp: request_safe_def Let_def split: if_splits)
  have "ok (processModbusMessage n s) (handled ?s)"
    using h assms(3) r3 r16 False unfolding processModbusMessage_def Let_def
    by (auto simp: ok_getb ReadCoils_def ReadDiscreteInputs_def ReadInputRegisters_def MAX_COILS_def MAX_DISCRETE_INPUT_def request_safe_def
        Let_def input_bytes_total[simplified]
        intro!: handled_ModbusError safe_read_bits safe_read_regs safe_WriteCoil safe_WriteRegister safe_WriteMultipleCoils)
  then show ?thesis
    by (rule ok_weaken) (simp add: handled_def)
qed

lemma unsafe_request_faults:
  assumes "10000 \<le> length (buf s)" and "\<not> bufferLock (img s)" and "\<not> request_safe n s"
  shows "processModbusMessage n s = None"
proof -
  let ?s = "s\<lparr>MessageLength := 0\<rparr>"
  have h: "10000 \<le> length (buf ?s)" "\<not> bufferLock (img ?s)" "12 \<le> n"
    using assms by (simp_all add: request_safe_def Let_def split: if_splits)
  consider "buf s ! 7 = 3" | "buf s ! 7 = 6" | "buf s ! 7 = 16"
    using assms(3) by (auto simp: request_safe_def Let_def split: if_splits)
  then show ?thesis
  proof cases
    case 1
    have "ReadHoldingRegisters n ?s = None"
      by (rule read_1024_faults[OF h]) (use assms(3) 1 h(3) in \<open>auto simp: request_safe_def Let_def split: if_splits\<close>)
    then show ?thesis using 1 h by (simp add: processModbusMessage_def Let_def buf_simps)
  next
    case 2
    have "WriteRegister n ?s = None"
      by (rule write_1024_faults[OF h]) (use assms(3) 2 h(3) in \<open>auto simp: request_safe_def Let_def split: if_splits\<close>)
    then show ?thesis using 2 h by (simp add: processModbusMessage_def Let_def buf_simps)
  next
    case 3
    have "WriteMultipleRegisters n ?s = None"
      using WriteMultipleRegisters_exact[OF h(1,2), of n] assms(3) 3 h(3) by (auto simp: request_safe_def Let_def split: if_splits)
    then show ?thesis using 3 h by (simp add: processModbusMessage_def Let_def buf_simps)
  qed
qed


section \<open>What a bit read answers\<close>

definition bit_entry :: "(plc \<Rightarrow> nat \<Rightarrow> nat \<Rightarrow> bool_ptr option) \<Rightarrow> plc \<Rightarrow> nat \<Rightarrow> byte" where
  "bit_entry tab p k = bool_val p (tab p (k div 8) (k mod 8))"

text \<open>After \<open>j\<close> steps of row \<open>i\<close>: the bits of the rows and steps done are those of the image.\<close>

definition bits_done ::
  "(plc \<Rightarrow> nat \<Rightarrow> nat \<Rightarrow> bool_ptr option) \<Rightarrow> nat \<Rightarrow> mbs \<Rightarrow> nat \<Rightarrow> nat \<Rightarrow> mbs \<Rightarrow> bool" where
  "bits_done tab Start s i j t \<longleftrightarrow>
     length (buf t) = length (buf s) \<and> img t = img s \<and> mb_error t = ERR_NONE \<and>
     (\<forall>k < 9. buf t ! k = buf s ! k) \<and>
     (\<forall>k c. k < i \<or> k = i \<and> c < j \<longrightarrow> c < 8 \<longrightarrow>
        bit (buf t ! (9 + k)) c = (bit_entry tab (img s) (Start + k * 8 + c) \<noteq> 0))"

lemma read_bit_step_done:
  assumes "bits_done tab Start s i j t" "j < 8" "9 + i < length (buf s)"
    and "Start + i * 8 + j < limit" "limit \<le> 8192"
  shows "ok (read_bit_step tab limit Start i j t) (bits_done tab Start s i (Suc j))"
proof -
  let ?pos = "Start + i * 8 + j"
  let ?v = "bit_entry tab (img s) ?pos"
  let ?t = "t\<lparr>buf := (buf t)[9 + i := bitWrite (buf t ! (9 + i)) j ?v]\<rparr>"
  have l: "9 + i < length (buf t)" and im: "img t = img s"
    using assms(1,3) by (simp_all add: bits_done_def)
  have st: "read_bit_step tab limit Start i j t = Some ?t"
    using assms l im
    by (cases "tab (img s) (?pos div 8) (?pos mod 8)")
      (simp_all add: read_bit_step_def Let_def buf_simps bit_entry_def)
  have "bits_done tab Start s i (Suc j) ?t"
    using assms(1,2) l
    by (auto simp: bits_done_def bitWrite_bit nth_list_update less_Suc_eq)
  then show ?thesis by (simp add: st)
qed

lemma read_row_done:
  assumes "bits_done tab Start s i 0 t" "9 + i < length (buf s)"
    and "Start + i * 8 + 8 \<le> limit" "limit \<le> 8192"
  shows "ok (for_each (read_bit_step tab limit Start i) [0..<8] t) (bits_done tab Start s (Suc i) 0)"
proof (rule ok_weaken)
  show "ok (for_each (read_bit_step tab limit Start i) [0..<8] t) (bits_done tab Start s i 8)"
    by (rule ok_for_upt[where I = "bits_done tab Start s i"])
      (use assms in \<open>auto intro: read_bit_step_done\<close>)
qed (auto simp: bits_done_def less_Suc_eq)

lemma read_rows_done:
  assumes "bits_done tab Start s 0 0 t" "9 + n \<le> length (buf s)"
    and "Start + n * 8 \<le> limit" "limit \<le> 8192"
  shows "ok (for_each (\<lambda>i. for_each (read_bit_step tab limit Start i) [0..<8]) [0..<n] t)
    (bits_done tab Start s n 0)"
  by (rule ok_for_upt[where I = "\<lambda>i. bits_done tab Start s i 0"])
    (use assms in \<open>auto intro: read_row_done\<close>)

lemma read_bits_answer:
  assumes "10000 \<le> length (buf s)" "\<not> bufferLock (img s)" "12 \<le> sz" "limit \<le> 8192"
    and "Start = word_mb (buf s ! 8) (buf s ! 9)"
    and "n = bit_bytes (word_mb (buf s ! 10) (buf s ! 11))" "n \<le> 255" "Start + n * 8 \<le> limit"
  shows "ok (read_bits tab limit sz s) (\<lambda>t. img t = img s \<and> MessageLength t = n + 9 \<and>
    unat (buf t ! 8) = n \<and> buf t ! 7 = buf s ! 7 \<and>
    (\<forall>k < n * 8. bit (buf t ! (9 + k div 8)) (k mod 8) = (bit_entry tab (img s\<lparr>bufferLock := True\<rparr>) (Start + k) \<noteq> 0)))"
proof -
  let ?u = "s\<lparr>mb_error := ERR_NONE, buf := (buf s)[4 := highByte (n + 3), 5 := lowByte (n + 3),
      8 := lowByte n], img := img s\<lparr>bufferLock := True\<rparr>\<rparr>"
  have d0: "bits_done tab Start ?u 0 0 ?u" by (simp add: bits_done_def)
  have loop: "ok (for_each (\<lambda>i. for_each (read_bit_step tab limit Start i) [0..<8]) [0..<n] ?u)
      (bits_done tab Start ?u n 0)"
    using assms by (intro read_rows_done[OF d0]) auto
  have fin: "ok (on_img unlock t) (\<lambda>u. ok (finish (n + 9) u) (\<lambda>t. img t = img s \<and> MessageLength t = n + 9 \<and>
      unat (buf t ! 8) = n \<and> buf t ! 7 = buf s ! 7 \<and>
      (\<forall>k < n * 8. bit (buf t ! (9 + k div 8)) (k mod 8) = (bit_entry tab (img s\<lparr>bufferLock := True\<rparr>) (Start + k) \<noteq> 0))))"
    if "bits_done tab Start ?u n 0 t" for t
  proof -
    have "(img s)\<lparr>bufferLock := False\<rparr> = img s" using assms(2) by simp
    moreover have "bit (buf t ! (9 + k div 8)) (k mod 8) = (bit_entry tab (img s\<lparr>bufferLock := True\<rparr>) (Start + k) \<noteq> 0)"
      if "k < n * 8" for k
    proof -
      have "k div 8 < n" using that by (simp add: less_mult_imp_div_less)
      moreover have "Start + (k div 8) * 8 + k mod 8 = Start + k" by simp
      ultimately show ?thesis
        using \<open>bits_done tab Start ?u n 0 t\<close> by (simp add: bits_done_def add.assoc)
    qed
    ultimately show ?thesis
      using that assms by (auto simp: ok_on_img ok_unlock finish_def bits_done_def unat_lowByte)
  qed
  show ?thesis
    unfolding read_bits_def Let_def
    using assms(1-4,7,8) ok_weaken[OF loop fin]
    by (simp add: ok_getb ok_putb ok_on_lock assms(5,6)[symmetric])
qed

section \<open>What a coil write stores\<close>

definition data_bit :: "byte list \<Rightarrow> nat \<Rightarrow> byte" where
  "data_bit b k = bitRead (b ! (13 + k div 8)) (k mod 8)"

definition coils_done :: "nat \<Rightarrow> mbs \<Rightarrow> nat \<Rightarrow> mbs \<Rightarrow> bool" where
  "coils_done Start s k t \<longleftrightarrow> buf t = buf s \<and> mb_error t = ERR_NONE \<and>
     img t = coils.put_block Start (data_bit (buf s)) k (img s)"

lemma write_coil_step_done:
  assumes "coils_done Start s (i * 8 + j) t" "j < 8" "13 + i < length (buf s)"
    and "Start + i * 8 + j < 8192"
  shows "ok (write_coil_step Start i j t) (coils_done Start s (i * 8 + Suc j))"
proof -
  let ?k = "i * 8 + j"
  have b: "data_bit (buf s) ?k = bitRead (buf s ! (13 + i)) j"
    using assms(2) by (simp add: data_bit_def)
  show ?thesis
    using assms b
    by (auto simp: write_coil_step_def Let_def MAX_COILS_def coils_done_def ok_rules
        coils.put_block_Suc coil_ptr_def[symmetric] add.assoc)
qed

lemma write_rows_done:
  assumes "coils_done Start s 0 t" "13 + n \<le> length (buf s)" "Start + n * 8 \<le> 8192"
  shows "ok (for_each (\<lambda>i. for_each (write_coil_step Start i) [0..<8]) [0..<n] t)
    (coils_done Start s (n * 8))"
proof (rule ok_for_upt[where I = "\<lambda>i. coils_done Start s (i * 8)"])
  fix i u assume i: "i < n" and u: "coils_done Start s (i * 8) u"
  have "ok (for_each (write_coil_step Start i) [0..<8] u) (coils_done Start s (i * 8 + 8))"
    by (rule ok_for_upt[where I = "\<lambda>j. coils_done Start s (i * 8 + j)"])
      (use i u assms in \<open>auto intro!: write_coil_step_done simp del: add_Suc_right\<close>)
  then show "ok (for_each (write_coil_step Start i) [0..<8] u) (coils_done Start s (Suc i * 8))"
    by (simp add: add.commute)
qed (use assms in simp)

lemma WriteMultipleCoils_stores:
  assumes "10000 \<le> length (buf s)" "\<not> bufferLock (img s)" "13 + n \<le> sz"
    and "Start = word_mb (buf s ! 8) (buf s ! 9)"
    and "n = bit_bytes (word_mb (buf s ! 10) (buf s ! 11))" "0 < n" "unat (buf s ! 12) = n"
    and "Start + n * 8 \<le> 8192"
  shows "ok (WriteMultipleCoils sz s) (\<lambda>t. MessageLength t = 12 \<and>
    img t = (coils.put_block Start (data_bit (buf s)) (n * 8) (img s\<lparr>bufferLock := True\<rparr>))\<lparr>bufferLock := False\<rparr>)"
proof -
  let ?u = "s\<lparr>mb_error := ERR_NONE, buf := (buf s)[4 := 0, 5 := 6], img := img s\<lparr>bufferLock := True\<rparr>\<rparr>"
  have n: "n < 256" using unat_byte_bound[of "buf s ! 12"] assms(7) by simp
  have d: "data_bit ((buf s)[4 := 0, 5 := 6]) = data_bit (buf s)"
    by (auto simp: data_bit_def)
  have loop: "ok (for_each (\<lambda>i. for_each (write_coil_step Start i) [0..<8]) [0..<n] ?u)
      (coils_done Start ?u (n * 8))"
    using assms(1,8) n by (intro write_rows_done) (auto simp: coils_done_def coils.put_block_def)
  have fin: "ok (on_img unlock t) (\<lambda>u. ok (finish 12 u) (\<lambda>t. MessageLength t = 12 \<and>
    img t = (coils.put_block Start (data_bit (buf s)) (n * 8) (img s\<lparr>bufferLock := True\<rparr>))\<lparr>bufferLock := False\<rparr>))"
    if "coils_done Start ?u (n * 8) t" for t
  proof -
    have "bufferLock (img t)"
      using that coils.put_block_frame[of "img s\<lparr>bufferLock := True\<rparr>"]
      by (simp add: coils_done_def coils.put_block_def) (rule fold_inv, auto)
    then show ?thesis
      using that by (simp add: ok_on_img ok_unlock finish_def coils_done_def d)
  qed
  show ?thesis
    unfolding WriteMultipleCoils_def Let_def
    using assms(1-3,6,7) n ok_weaken[OF loop fin]
    by (simp add: ok_getb ok_putb ok_on_lock assms(4,5)[symmetric])
qed

lemma bit_entry_coils: "bit_entry bool_output p k = bool_val p (coil_ptr p k)"
  by (simp add: bit_entry_def coil_ptr_def)

lemma ReadCoils_bits:
  assumes "10000 \<le> length (buf s)" and "\<not> bufferLock (img s)" and "12 \<le> sz"
    and "n = bit_bytes (word_mb (buf s ! 10) (buf s ! 11))" and "n \<le> 255"
    and "word_mb (buf s ! 8) (buf s ! 9) + n * 8 \<le> 8192"
  shows "ok (ReadCoils sz s) (\<lambda>t. img t = img s \<and> MessageLength t = n + 9 \<and>
    unat (buf t ! 8) = n \<and> buf t ! 7 = buf s ! 7 \<and>
    (\<forall>k < n * 8. bit (buf t ! (9 + k div 8)) (k mod 8) =
       (bool_val (img s) (coil_ptr (img s) (word_mb (buf s ! 8) (buf s ! 9) + k)) \<noteq> 0)))"
  unfolding ReadCoils_def
  using read_bits_answer[OF assms(1-3) _ refl assms(4,5), of MAX_COILS bool_output] assms(6)
  by (simp add: MAX_COILS_def bit_entry_coils)

text \<open>
  A Read Coils request whose rounded-up range lies below 8192 is answered with one bit per coil:
  bit \<open>k mod 8\<close> of data byte \<open>k div 8\<close> is set exactly when coil \<open>Start + k\<close> holds a non-zero value
  (an unmapped coil reads as 0). The byte count, the message length and the untouched image are those
  of the protocol.
\<close>

theorem ReadCoils_answer:
  assumes "10000 \<le> length (buf s)" and "\<not> bufferLock (img s)" and "12 \<le> sz"
    and "n = bit_bytes (word_mb (buf s ! 10) (buf s ! 11))" and "n \<le> 255"
    and "word_mb (buf s ! 8) (buf s ! 9) + n * 8 \<le> 8192"
  shows "ok (ReadCoils sz s) (\<lambda>t. img t = img s \<and> MessageLength t = n + 9 \<and>
    unat (buf t ! 8) = n \<and> buf t ! 7 = buf s ! 7 \<and>
    (\<forall>k < n * 8. bit (buf t ! (9 + k div 8)) (k mod 8) =
       (bool_val (img s) (coil_ptr (img s) (word_mb (buf s ! 8) (buf s ! 9) + k)) \<noteq> 0)))"
  using ReadCoils_bits[OF assms] .

lemma WriteMultipleCoils_coils:
  assumes "10000 \<le> length (buf s)" and "\<not> bufferLock (img s)" and "distinct_ptrs (coil_ptr (img s))"
    and "n = bit_bytes (word_mb (buf s ! 10) (buf s ! 11))" and "0 < n" and "unat (buf s ! 12) = n"
    and "13 + n \<le> sz" and "word_mb (buf s ! 8) (buf s ! 9) + n * 8 \<le> 8192"
  shows "ok (WriteMultipleCoils sz s) (\<lambda>t. MessageLength t = 12 \<and> coil_ptr (img t) = coil_ptr (img s) \<and>
    (\<forall>k. bool_val (img t) (coil_ptr (img s) k) =
       (if word_mb (buf s ! 8) (buf s ! 9) \<le> k \<and> k < word_mb (buf s ! 8) (buf s ! 9) + n * 8 \<and>
           coil_ptr (img s) k \<noteq> None
        then data_bit (buf s) (k - word_mb (buf s ! 8) (buf s ! 9))
        else bool_val (img s) (coil_ptr (img s) k))))"
proof -
  let ?a = "word_mb (buf s ! 8) (buf s ! 9)"
  let ?q = "coils.put_block ?a (data_bit (buf s)) (n * 8) (img s\<lparr>bufferLock := True\<rparr>)"
  have d: "distinct_ptrs (coil_ptr (img s\<lparr>bufferLock := True\<rparr>))" using assms(3) by simp
  have c: "coil_ptr ?q = coil_ptr (img s)"
    using coils.put_block_frame[OF d, of ?a "data_bit (buf s)" "n * 8"]
    by (simp add: same_tables_def coil_ptr_def fun_eq_iff)
  show ?thesis
    by (rule ok_weaken[OF WriteMultipleCoils_stores[OF assms(1,2,7) refl assms(4,5,6,8)]])
      (use coils.get_put_block[OF d, of ?a "data_bit (buf s)" "n * 8"] c in \<open>auto simp: fun_eq_iff\<close>)
qed

text \<open>
  A well-formed Write Multiple Coils request stores every bit of its data bytes: each mapped coil
  from \<open>Start\<close> up to the last bit of the last byte (the count rounded up to a multiple of eight, not
  the count itself) takes the bit of the request, every other coil keeps its value, and the answer is
  12 bytes. No two coils may share a cell.
\<close>

theorem WriteMultipleCoils_effect:
  assumes "10000 \<le> length (buf s)" and "\<not> bufferLock (img s)" and "distinct_ptrs (coil_ptr (img s))"
    and "n = bit_bytes (word_mb (buf s ! 10) (buf s ! 11))" and "0 < n" and "unat (buf s ! 12) = n"
    and "13 + n \<le> sz" and "word_mb (buf s ! 8) (buf s ! 9) + n * 8 \<le> 8192"
  shows "ok (WriteMultipleCoils sz s) (\<lambda>t. MessageLength t = 12 \<and> coil_ptr (img t) = coil_ptr (img s) \<and>
    (\<forall>k. bool_val (img t) (coil_ptr (img s) k) =
       (if word_mb (buf s ! 8) (buf s ! 9) \<le> k \<and> k < word_mb (buf s ! 8) (buf s ! 9) + n * 8 \<and>
           coil_ptr (img s) k \<noteq> None
        then data_bit (buf s) (k - word_mb (buf s ! 8) (buf s ! 9))
        else bool_val (img s) (coil_ptr (img s) k))))"
  using WriteMultipleCoils_coils[OF assms] .

lemma bytes_eq_bits: "(\<And>c. c < 8 \<Longrightarrow> bit (a :: byte) c = bit b c) \<Longrightarrow> a = b"
  by (rule bit_word_eqI) simp

text \<open>
  C17. Round trip through the coils: after a well-formed Write Multiple Coils over mapped coils, a Read
  Coils request for the same start and count, on the image the write left, answers with exactly the
  data bytes of the write.
\<close>

theorem coils_write_then_read:
  assumes "10000 \<le> length (buf s)" and "\<not> bufferLock (img s)" and "distinct_ptrs (coil_ptr (img s))"
    and "n = bit_bytes (word_mb (buf s ! 10) (buf s ! 11))" and "0 < n" and "unat (buf s ! 12) = n"
    and "13 + n \<le> sz" and "word_mb (buf s ! 8) (buf s ! 9) + n * 8 \<le> 8192"
    and "\<And>k. k < n * 8 \<Longrightarrow> coil_ptr (img s) (word_mb (buf s ! 8) (buf s ! 9) + k) \<noteq> None"
    and "WriteMultipleCoils sz s = Some t" and "img r = img t" and "10000 \<le> length (buf r)"
    and "buf r ! 8 = buf s ! 8" and "buf r ! 9 = buf s ! 9"
    and "buf r ! 10 = buf s ! 10" and "buf r ! 11 = buf s ! 11"
  shows "ok (ReadCoils 12 r) (\<lambda>u. unat (buf u ! 8) = n \<and> (\<forall>i < n. buf u ! (9 + i) = buf s ! (13 + i)))"
proof -
  let ?a = "word_mb (buf s ! 8) (buf s ! 9)"
  have t: "coil_ptr (img t) = coil_ptr (img s)"
    "\<And>k. ?a \<le> k \<Longrightarrow> k < ?a + n * 8 \<Longrightarrow> coil_ptr (img s) k \<noteq> None \<Longrightarrow>
       bool_val (img t) (coil_ptr (img s) k) = data_bit (buf s) (k - ?a)"
    using okD[OF WriteMultipleCoils_coils[OF assms(1-8)] assms(10)] by auto
  have lk: "\<not> bufferLock (img t)"
    using okD[OF WriteMultipleCoils_stores[OF assms(1,2,7) refl assms(4-6,8)] assms(10)] by simp
  have n: "n \<le> 255" using unat_byte_bound[of "buf s ! 12"] assms(6) by simp
  have val: "(bool_val (img r) (coil_ptr (img r) (?a + k)) \<noteq> 0) = bit (buf s ! (13 + k div 8)) (k mod 8)"
    if "k < n * 8" for k
    using t(2)[of "?a + k"] that assms(9) by (simp add: assms(11) t(1) data_bit_def)
  have bits: "bit (b ! (9 + i)) c = bit (buf s ! (13 + i)) c"
    if "\<forall>k < n * 8. bit (b ! (9 + k div 8)) (k mod 8) = bit (buf s ! (13 + k div 8)) (k mod 8)"
      "i < n" "c < 8" for b :: "byte list" and i c
  proof -
    have "i * 8 + c < n * 8" "(i * 8 + c) div 8 = i" "(i * 8 + c) mod 8 = c" using that(2,3) by auto
    with that(1) show ?thesis by metis
  qed
  have same: "word_mb (buf r ! 8) (buf r ! 9) = ?a"
    "n = bit_bytes (word_mb (buf r ! 10) (buf r ! 11))"
    using assms(4,13-16) by simp_all
  have lk': "\<not> bufferLock (img r)" using lk assms(11) by simp
  have "ok (ReadCoils 12 r) (\<lambda>u. unat (buf u ! 8) = n \<and>
      (\<forall>k < n * 8. bit (buf u ! (9 + k div 8)) (k mod 8) = bit (buf s ! (13 + k div 8)) (k mod 8)))"
    by (rule ok_weaken[OF ReadCoils_bits[OF assms(12) lk' _ same(2) n]])
      (use same assms(8) val in auto)
  then show ?thesis
  proof (rule ok_weaken)
    fix u :: mbs
    assume u: "unat (buf u ! 8) = n \<and>
      (\<forall>k < n * 8. bit (buf u ! (9 + k div 8)) (k mod 8) = bit (buf s ! (13 + k div 8)) (k mod 8))"
    have "buf u ! (9 + i) = buf s ! (13 + i)" if "i < n" for i
      by (rule bytes_eq_bits) (rule bits[OF conjunct2[OF u] that])
    with u show "unat (buf u ! 8) = n \<and> (\<forall>i < n. buf u ! (9 + i) = buf s ! (13 + i))" by blast
  qed
qed

section \<open>Registers\<close>

text \<open>After \<open>i\<close> steps of a register read the response holds the bytes of the registers read.\<close>

definition regs_done ::
  "(plc \<Rightarrow> nat \<Rightarrow> (byte \<times> byte) option option) \<Rightarrow> nat \<Rightarrow> mbs \<Rightarrow> nat \<Rightarrow> mbs \<Rightarrow> bool" where
  "regs_done reg Start s i t \<longleftrightarrow>
     length (buf t) = length (buf s) \<and> img t = img s \<and> mb_error t = ERR_NONE \<and>
     (\<forall>k < 9. buf t ! k = buf s ! k) \<and>
     (\<forall>k < i. reg (img s) (Start + k) = Some (Some (buf t ! (9 + 2 * k), buf t ! (10 + 2 * k))))"

lemma read_reg_step_done:
  assumes "regs_done reg Start s i t" "10 + 2 * i < length (buf s)"
    and "reg (img s) (Start + i) = Some (Some hl)"
  shows "ok (read_reg_step reg Start i t) (regs_done reg Start s (Suc i))"
  using assms
  by (auto simp: read_reg_step_def regs_done_def ok_rules nth_list_update less_Suc_eq mult.commute)

lemma read_regs_answer:
  assumes "10000 \<le> length (buf s)" "\<not> bufferLock (img s)" "12 \<le> sz"
    and "Start = word_mb (buf s ! 8) (buf s ! 9)"
    and "n = word_mb (buf s ! 10) (buf s ! 11)" "n * 2 \<le> 255"
    and "\<And>k. k < n \<Longrightarrow> reg (img s\<lparr>bufferLock := True\<rparr>) (Start + k) \<notin> {None, Some None}"
  shows "ok (read_regs reg sz s) (\<lambda>t. img t = img s \<and> MessageLength t = n * 2 + 9 \<and>
    unat (buf t ! 8) = n * 2 \<and> buf t ! 7 = buf s ! 7 \<and>
    (\<forall>k < n. reg (img s\<lparr>bufferLock := True\<rparr>) (Start + k) =
       Some (Some (buf t ! (9 + 2 * k), buf t ! (10 + 2 * k)))))"
proof -
  let ?u = "s\<lparr>mb_error := ERR_NONE, buf := (buf s)[4 := highByte (n * 2 + 3), 5 := lowByte (n * 2 + 3),
      8 := lowByte (n * 2)], img := img s\<lparr>bufferLock := True\<rparr>\<rparr>"
  have loop: "ok (for_each (read_reg_step reg Start) [0..<n] ?u) (regs_done reg Start ?u n)"
  proof (rule ok_for_upt[where I = "regs_done reg Start ?u"])
    fix i t assume i: "i < n" and t: "regs_done reg Start ?u i t"
    from assms(7)[OF i] obtain hl where "reg (img ?u) (Start + i) = Some (Some hl)"
      by (cases "reg (img ?u) (Start + i)") auto
    then show "ok (read_reg_step reg Start i t) (regs_done reg Start ?u (Suc i))"
      using i t assms(1,6) by (auto intro!: read_reg_step_done)
  qed (simp add: regs_done_def)
  have same: "(img s)\<lparr>bufferLock := False\<rparr> = img s" using assms(2) by simp
  have fin: "ok (on_img unlock t) (\<lambda>u. ok (finish (n * 2 + 9) u) (\<lambda>t. img t = img s \<and>
      MessageLength t = n * 2 + 9 \<and> unat (buf t ! 8) = n * 2 \<and> buf t ! 7 = buf s ! 7 \<and>
      (\<forall>k < n. reg (img s\<lparr>bufferLock := True\<rparr>) (Start + k) =
         Some (Some (buf t ! (9 + 2 * k), buf t ! (10 + 2 * k))))))"
    if "regs_done reg Start ?u n t" for t
    using that assms same
    by (auto simp: ok_on_img ok_unlock finish_def regs_done_def unat_lowByte)
  show ?thesis
    unfolding read_regs_def Let_def
    using assms(1-3,6) ok_weaken[OF loop fin]
    by (simp add: ok_getb ok_putb ok_on_lock assms(4,5)[symmetric])
qed

text \<open>16-bit words and their two bytes.\<close>

lemma word_mb_hi_lo: "word_mb (hi16 w) (lo16 w) = unat w"
proof -
  have b: "unat w < 65536" using unsigned_less[of w, where 'a = nat] by simp
  have "unat (hi16 w) = unat w div 256"
    using b
    by (simp add: hi16_def unsigned_ucast_eq unsigned_drop_bit_eq take_bit_eq_mod)
      (simp add: drop_bit_eq_div flip: unsigned_drop_bit_eq)
  moreover have "unat (lo16 w) = unat w mod 256"
    by (simp add: lo16_def unsigned_ucast_eq take_bit_eq_mod)
  ultimately show ?thesis by (simp add: word_mb_eq)
qed

lemma byte_bits: "\<not> bit (unat (b :: byte)) n" if "8 \<le> n"
  using that unsigned_less[of b, where 'a = nat] by (intro nat_bit_bound[of _ 8]) auto

lemma hi16_word_mb: "hi16 (word_of_nat (word_mb h l)) = h"
  by (rule bit_word_eqI) (auto simp: hi16_def word_mb_def bit_simps byte_bits dest: bit_imp_le_length)

lemma lo16_word_mb: "lo16 (word_of_nat (word_mb h l)) = l"
  by (rule bit_word_eqI) (auto simp: lo16_def word_mb_def bit_simps)

lemma word_masks:
  "(0xffff :: 32 word) = mask 16" "(0xffff0000 :: 32 word) = NOT (mask 16)"
  "(0xffff :: 64 word) = mask 16" "(0xffffffffffff :: 64 word) = mask 48"
  "(0xffff0000ffffffff :: 64 word) = NOT (mask 48) OR mask 32"
  "(0xffffffff0000ffff :: 64 word) = NOT (mask 32) OR mask 16"
  "(0xffffffffffff0000 :: 64 word) = NOT (mask 16)"
  by (simp_all add: mask_eq_exp_minus_1)

lemma dint_word_put:
  assumes "v < 65536"
  shows "dint_word (put_dint_word k v x) j = (if j mod 2 = k mod 2 then word_of_nat v else dint_word x j)"
proof -
  have v: "\<not> bit v n" if "16 \<le> n" for n
    using assms that by (intro nat_bit_bound[of v 16]) auto
  show ?thesis
    by (rule bit_word_eqI)
      (use v in \<open>auto simp: dint_word_def put_dint_word_def word_masks bit_simps\<close>)
qed

lemma lint_word_put:
  assumes "v < 65536" "k < 4"
  shows "lint_word (put_lint_word (int k) v x) j =
    (if j mod 4 = k then word_of_nat v else lint_word x j)"
proof -
  have v: "\<not> bit v n" if "16 \<le> n" for n
    using assms that by (intro nat_bit_bound[of v 16]) auto
  have k: "k = 0 \<or> k = 1 \<or> k = 2 \<or> k = 3" using assms(2) by auto
  have j: "j mod 4 = 0 \<or> j mod 4 = 1 \<or> j mod 4 = 2 \<or> j mod 4 = 3" by auto
  show ?thesis
    by (rule bit_word_eqI)
      (use v k j in \<open>auto simp: lint_word_def put_lint_word_def word_masks bit_simps\<close>)
qed

text \<open>Which cell of the image a register address below 8192 denotes, if any.\<close>

definition register_mapped :: "plc \<Rightarrow> nat \<Rightarrow> bool" where
  "register_mapped p a =
     (if a < 1024 then int_output p a \<noteq> None
      else if 1024 < a \<and> a < 2048 then int_memory p (a - 1024) \<noteq> None
      else if 2048 \<le> a \<and> a < 4096 then dint_memory p ((a - 2048) div 2) \<noteq> None
      else if 4096 \<le> a \<and> a < 8192 then lint_memory p ((a - 4096) div 4) \<noteq> None
      else False)"

lemma holding_bytes_lock [simp]:
  "holding_bytes (p\<lparr>bufferLock := l\<rparr>) a = holding_bytes p a"
  "register_mapped (p\<lparr>bufferLock := l\<rparr>) a = register_mapped p a"
  by (simp_all add: holding_bytes_def register_mapped_def cong: option.case_cong)

lemma write_holding_reads:
  assumes "register_mapped (img t) a"
  shows "ok (write_holding a (word_mb h l) t)
    (\<lambda>u. holding_bytes (img u) a = Some (Some (h, l)) \<and> bufferLock (img u) = bufferLock (img t) \<and>
      buf u = buf t \<and> mb_error u = mb_error t)"
  using assms word_mb_bound[of h l]
  by (auto simp: register_mapped_def write_holding_def holding_bytes_def mb_ranges ok_rules
      store_uint_def set_uint_def set_dint_def set_lint_def dint_word_put lint_word_put
      hi16_word_mb lo16_word_mb split: if_splits)

lemma WriteRegister_stores:
  assumes "10000 \<le> length (buf s)" "\<not> bufferLock (img s)" "12 \<le> sz"
    and "register_mapped (img s) (word_mb (buf s ! 8) (buf s ! 9))"
  shows "ok (WriteRegister sz s) (\<lambda>t. MessageLength t = 12 \<and> \<not> bufferLock (img t) \<and>
    holding_bytes (img t) (word_mb (buf s ! 8) (buf s ! 9)) = Some (Some (buf s ! 10, buf s ! 11)))"
  unfolding WriteRegister_def Let_def
  using assms
  by (auto simp: ok_getb ok_lock ok_on_img ok_unlock ok_putb finish_echo_def
      intro!: ok_weaken[OF write_holding_reads])

text \<open>
  Round trip through a register: a Write Single Register request for a mapped address other than
  1024 (a 16-bit output or memory register, or one 16-bit word of a 32-bit or 64-bit variable) is
  followed by a Read Holding Registers request of that address which answers with the two bytes
  written.
\<close>

theorem register_write_then_read:
  assumes "10000 \<le> length (buf s)" and "\<not> bufferLock (img s)" and "12 \<le> sz"
    and "register_mapped (img s) (word_mb (buf s ! 8) (buf s ! 9))"
    and "WriteRegister sz s = Some t" and "img r = img t" and "10000 \<le> length (buf r)"
    and "buf r ! 8 = buf s ! 8" and "buf r ! 9 = buf s ! 9" and "buf r ! 10 = 0" and "buf r ! 11 = 1"
  shows "ok (ReadHoldingRegisters 12 r) (\<lambda>u. MessageLength u = 11 \<and> unat (buf u ! 8) = 2 \<and>
    buf u ! 9 = buf s ! 10 \<and> buf u ! 10 = buf s ! 11)"
proof -
  have t: "\<not> bufferLock (img r)"
    "holding_bytes (img r) (word_mb (buf s ! 8) (buf s ! 9)) = Some (Some (buf s ! 10, buf s ! 11))"
    using okD[OF WriteRegister_stores[OF assms(1-4)] assms(5)] assms(6) by simp_all
  show ?thesis
    unfolding ReadHoldingRegisters_def
    by (rule ok_weaken[OF read_regs_answer[OF assms(7) t(1) _ refl refl]])
      (use t(2) assms(8-11) in \<open>auto simp: word_mb_eq\<close>)
qed

text \<open>
  The holding registers that stand in for unmapped 32-bit and 64-bit variables do not round-trip:
  after a Write Single Register, the read answers with the low byte of the value in both bytes.
\<close>

theorem unmapped_register_reads_low_byte_twice:
  assumes "10000 \<le> length (buf s)" and "\<not> bufferLock (img s)" and "12 \<le> sz"
    and "2048 \<le> word_mb (buf s ! 8) (buf s ! 9)" and "word_mb (buf s ! 8) (buf s ! 9) < 8192"
    and "\<not> register_mapped (img s) (word_mb (buf s ! 8) (buf s ! 9))"
    and "WriteRegister sz s = Some t" and "img r = img t" and "10000 \<le> length (buf r)"
    and "buf r ! 8 = buf s ! 8" and "buf r ! 9 = buf s ! 9" and "buf r ! 10 = 0" and "buf r ! 11 = 1"
  shows "ok (ReadHoldingRegisters 12 r) (\<lambda>u. buf u ! 9 = buf s ! 11 \<and> buf u ! 10 = buf s ! 11)"
proof -
  let ?a = "word_mb (buf s ! 8) (buf s ! 9)"
  have "ok (WriteRegister sz s) (\<lambda>t. \<not> bufferLock (img t) \<and>
      holding_bytes (img t) ?a = Some (Some (buf s ! 11, buf s ! 11)))"
    unfolding WriteRegister_def Let_def
    using assms(1-6)
    by (auto simp: ok_rules finish_echo_def write_holding_def mb_ranges register_mapped_def
        holding_bytes_def set_uint_def lo16_word_mb[unfolded lo16_def] split: if_splits)
  from okD[OF this assms(7)] have t: "\<not> bufferLock (img r)"
    "holding_bytes (img r) ?a = Some (Some (buf s ! 11, buf s ! 11))"
    using assms(8) by simp_all
  show ?thesis
    unfolding ReadHoldingRegisters_def
    by (rule ok_weaken[OF read_regs_answer[OF assms(9) t(1) _ refl refl]])
      (use t(2) assms(10-13) in \<open>auto simp: word_mb_eq\<close>)
qed

section \<open>Multiple registers\<close>

definition data_word :: "byte list \<Rightarrow> nat \<Rightarrow> 16 word" where
  "data_word b k = word_of_nat (word_mb (b ! (13 + k * 2)) (b ! (14 + k * 2)))"

definition outregs_done :: "nat \<Rightarrow> mbs \<Rightarrow> nat \<Rightarrow> mbs \<Rightarrow> bool" where
  "outregs_done Start s k t \<longleftrightarrow> buf t = buf s \<and> mb_error t = ERR_NONE \<and>
     img t = outregs.put_block Start (data_word (buf s)) k (img s)"

lemma write_outreg_step_done:
  assumes "outregs_done Start s i t" "14 + i * 2 < length (buf s)" "Start + i < 1024"
  shows "ok (write_regs_step Start i t) (outregs_done Start s (Suc i))"
  using assms
  by (auto simp: write_regs_step_def Let_def mb_ranges outregs_done_def ok_rules
      outregs.put_block_Suc data_word_def)

text \<open>
  A well-formed Write Multiple Registers request below address 1024 stores its data words, most
  significant byte first, in the mapped registers \<open>Start\<close> to \<open>Start + n - 1\<close>, keeps every other
  register, releases the mutex and answers with 12 bytes. No two registers may share a cell.
\<close>

theorem WriteMultipleRegisters_effect:
  assumes "10000 \<le> length (buf s)" and "\<not> bufferLock (img s)" and "distinct_ptrs (int_output (img s))"
    and "n = word_mb (buf s ! 10) (buf s ! 11)" and "unat (buf s ! 12) = n * 2"
    and "13 + n * 2 \<le> sz" and "word_mb (buf s ! 8) (buf s ! 9) + n \<le> 1024"
  shows "ok (WriteMultipleRegisters sz s) (\<lambda>t. MessageLength t = 12 \<and> bufferLock (img t) = False \<and>
    (\<forall>k. uint_val (img t) (int_output (img t) k) =
       (if word_mb (buf s ! 8) (buf s ! 9) \<le> k \<and> k < word_mb (buf s ! 8) (buf s ! 9) + n \<and>
           int_output (img s) k \<noteq> None
        then data_word (buf s) (k - word_mb (buf s ! 8) (buf s ! 9))
        else uint_val (img s) (int_output (img s) k))))"
proof -
  let ?a = "word_mb (buf s ! 8) (buf s ! 9)"
  let ?u = "s\<lparr>mb_error := ERR_NONE, buf := (buf s)[4 := 0, 5 := 6], img := img s\<lparr>bufferLock := True\<rparr>\<rparr>"
  have n: "n * 2 < 256" using unat_byte_bound[of "buf s ! 12"] assms(5) by simp
  have d: "distinct_ptrs (int_output (img s\<lparr>bufferLock := True\<rparr>))" using assms(3) by simp
  have w: "data_word ((buf s)[4 := 0, 5 := 6]) = data_word (buf s)" by (auto simp: data_word_def)
  have loop: "ok (for_each (write_regs_step ?a) [0..<n] ?u) (outregs_done ?a ?u n)"
    by (rule ok_for_upt[where I = "outregs_done ?a ?u"])
      (use assms(1,7) n in \<open>auto intro!: write_outreg_step_done
         simp: outregs_done_def outregs.put_block_def\<close>)
  have fin: "ok (on_img unlock t) (\<lambda>u. ok (finish 12 u) (\<lambda>t. MessageLength t = 12 \<and>
      bufferLock (img t) = False \<and>
      (\<forall>k. uint_val (img t) (int_output (img t) k) =
       (if ?a \<le> k \<and> k < ?a + n \<and> int_output (img s) k \<noteq> None
        then data_word (buf s) (k - ?a) else uint_val (img s) (int_output (img s) k)))))"
    if "outregs_done ?a ?u n t" for t
    using that outregs.put_block_frame[OF d, of ?a "data_word (buf s)" n]
      outregs.get_put_block[OF d, of ?a "data_word (buf s)" n]
    by (auto simp: outregs_done_def w ok_on_img ok_unlock finish_def)
  show ?thesis
    unfolding WriteMultipleRegisters_def Let_def
    using assms(1,2,5,6) n ok_weaken[OF loop fin]
    by (simp add: ok_getb ok_putb ok_on_lock assms(4)[symmetric])
qed

lemma write_aligned_long_step:
  assumes "e < 1024" "i < 4" "lint_memory (img t) e = Some a" "14 + i * 2 < length (buf t)"
  shows "write_regs_step (4096 + 4 * e) i t = Some (if i = 0
    then t\<lparr>img := set_lint a (put_lint_word 0 (word_mb (buf t ! 13) (buf t ! 14)) (lints (img t) a)) (img t)\<rparr>
    else t)"
proof -
  have z: "(int (4096 + 4 * e) - 4096) smod 4 = 0"
    by (simp add: signed_modulo_int_def)
  have q: "(4 * e + i) div 4 = e" "(4 * e + i) mod 4 = i" using assms(2) by auto
  have v: "put_lint_word (- 1) w x = x" for w x by (simp add: put_lint_word_def)
  show ?thesis
    using assms z q
    by (simp add: write_regs_step_def Let_def mb_ranges getb_in on_img_def v set_lint_def)
qed

text \<open>
  Writing all four words of a mapped 64-bit variable with one Write Multiple Registers request
  changes its most significant word only; the other three words of the request are dropped, and the
  request is still acknowledged.
\<close>

theorem long_register_write_keeps_low_words:
  assumes "10000 \<le> length (buf s)" and "\<not> bufferLock (img s)"
    and "word_mb (buf s ! 8) (buf s ! 9) = 4096 + 4 * e" and "e < 1024"
    and "lint_memory (img s) e = Some a"
    and "word_mb (buf s ! 10) (buf s ! 11) = 4" and "buf s ! 12 = 8" and "21 \<le> sz"
  shows "ok (WriteMultipleRegisters sz s) (\<lambda>t. MessageLength t = 12 \<and>
    (\<forall>j. lint_word (lints (img t) a) j =
      (if j mod 4 = 0 then word_of_nat (word_mb (buf s ! 13) (buf s ! 14))
       else lint_word (lints (img s) a) j)))"
proof -
  have u: "[0..<4] = [0, 1, 2, 3::nat]" by (simp add: upt_rec)
  have r: "lint_word (put_lint_word 0 (word_mb h l) x) j =
     (if j mod 4 = 0 then word_of_nat (word_mb h l) else lint_word x j)" for h l x j
    using lint_word_put[OF word_mb_bound[of h l], of 0] by simp
  show ?thesis
    unfolding WriteMultipleRegisters_def Let_def
    using assms
    by (simp add: ok_rules u write_aligned_long_step[where a = a] finish_def set_lint_def r)
qed

section \<open>Register 1024\<close>

text \<open>
  Address 1024 is taken for a 16-bit output register, one past the end of \<open>int_output\<close>: every
  accepted Read Holding Registers request that covers it reads outside the table.
\<close>

theorem ReadHoldingRegisters_faults_at_1024:
  assumes "10000 \<le> length (buf s)" and "\<not> bufferLock (img s)" and "12 \<le> sz"
    and "word_mb (buf s ! 10) (buf s ! 11) \<le> 127"
    and "word_mb (buf s ! 8) (buf s ! 9) \<le> 1024"
    and "1024 < word_mb (buf s ! 8) (buf s ! 9) + word_mb (buf s ! 10) (buf s ! 11)"
  shows "ReadHoldingRegisters sz s = None"
proof -
  let ?a = "word_mb (buf s ! 8) (buf s ! 9)" and ?n = "word_mb (buf s ! 10) (buf s ! 11)"
  have "read_reg_step holding_bytes ?a (1024 - ?a) t = None" for t
    using assms(5) by (simp add: read_reg_step_def holding_bytes_1024)
  then have "for_each (read_reg_step holding_bytes ?a) [0..<?n] t = None" for t
    using assms(5,6) by (intro for_each_fault[of "1024 - ?a"]) auto
  then show ?thesis
    using assms(1-4)
    by (simp add: ReadHoldingRegisters_def read_regs_def Let_def getb_in putb_in on_img_def lock_def)
qed

section \<open>Mapping the unused entries\<close>

lemma fill_bool_input:
  "fold map_input_step [0..<n] p =
   p\<lparr>bool_input := \<lambda>i j. if i * 8 + j < n \<and> j < 8 \<and> bool_input p i j = None
      then Some (MbDiscreteInput (i * 8 + j)) else bool_input p i j\<rparr>"
proof (induction n)
  case (Suc n)
  have "i * 8 + j = n \<longleftrightarrow> i = n div 8 \<and> j = n mod 8" if "j < 8" for i j
    using that by auto
  then show ?case
    by (simp add: Suc) (auto simp: map_input_step_def less_Suc_eq fun_eq_iff intro!: plc.equality)
qed simp

lemma fill_bool_output:
  "fold map_coil_step [0..<n] p =
   p\<lparr>bool_output := \<lambda>i j. if i * 8 + j < n \<and> j < 8 \<and> bool_output p i j = None
      then Some (MbCoil (i * 8 + j)) else bool_output p i j\<rparr>"
proof (induction n)
  case (Suc n)
  have "i * 8 + j = n \<longleftrightarrow> i = n div 8 \<and> j = n mod 8" if "j < 8" for i j
    using that by auto
  then show ?case
    by (simp add: Suc) (auto simp: map_coil_step_def less_Suc_eq fun_eq_iff intro!: plc.equality)
qed simp

lemma fill_int_input:
  "fold map_inreg_step [0..<n] p =
   p\<lparr>int_input := \<lambda>i. if i < n \<and> int_input p i = None then Some (MbInputReg i) else int_input p i\<rparr>"
  by (induction n) (auto simp: map_inreg_step_def less_Suc_eq fun_eq_iff intro!: plc.equality)

lemma fill_holding:
  "fold map_holding_step [0..<n] p =
   p\<lparr>int_output := \<lambda>i. if i < n \<and> i < 1024 \<and> int_output p i = None
        then Some (MbHoldingReg i) else int_output p i,
     int_memory := \<lambda>i. if i + 1024 < n \<and> i < 1024 \<and> int_memory p i = None
        then Some (MbHoldingReg (i + 1024)) else int_memory p i\<rparr>"
proof (induction n)
  case (Suc n)
  consider "n < 1024" | "1024 \<le> n" "n \<le> 2047" | "2047 < n" by linarith
  then show ?case
  proof cases
    case 1
    then show ?thesis
      by (simp add: Suc) (auto simp: map_holding_step_def MIN_16B_RANGE_def fun_eq_iff less_Suc_eq intro!: plc.equality)
  next
    case 2
    define m where "m = n - 1024"
    have m: "n = m + 1024" "m < 1024" using 2 by (simp_all add: m_def)
    show ?thesis
      by (simp add: Suc) (auto simp: m map_holding_step_def mb_ranges fun_eq_iff less_Suc_eq intro!: plc.equality)
  next
    case 3
    then have "i + 1024 < Suc n \<and> i < 1024 \<longleftrightarrow> i < (1024::nat)" "i < Suc n \<and> i < 1024 \<longleftrightarrow> i < (1024::nat)"
      "i + 1024 < n \<and> i < 1024 \<longleftrightarrow> i < (1024::nat)" "i < n \<and> i < 1024 \<longleftrightarrow> i < (1024::nat)" for i by auto
    with 3 show ?thesis
      by (simp add: Suc) (simp add: map_holding_step_def mb_ranges conj_assoc[symmetric])
  qed
qed simp



text \<open>Located variables never point into the Modbus server's arrays.\<close>

definition unmapped_clean :: "plc \<Rightarrow> bool" where
  "unmapped_clean p \<longleftrightarrow>
     (\<forall>i j k. bool_input p i j \<noteq> Some (MbDiscreteInput k) \<and> bool_output p i j \<noteq> Some (MbCoil k)) \<and>
     (\<forall>i k. int_input p i \<noteq> Some (MbInputReg k) \<and> int_output p i \<noteq> Some (MbHoldingReg k) \<and>
       int_memory p i \<noteq> Some (MbHoldingReg k))"

lemma mapUnusedIO_eq:
  assumes "\<not> bufferLock p"
  shows "mapUnusedIO p = Some (p\<lparr>
     bool_input := \<lambda>i j. if i < 1024 \<and> j < 8 \<and> bool_input p i j = None
       then Some (MbDiscreteInput (i * 8 + j)) else bool_input p i j,
     bool_output := \<lambda>i j. if i < 1024 \<and> j < 8 \<and> bool_output p i j = None
       then Some (MbCoil (i * 8 + j)) else bool_output p i j,
     int_input := \<lambda>i. if i < 1024 \<and> int_input p i = None then Some (MbInputReg i) else int_input p i,
     int_output := \<lambda>i. if i < 1024 \<and> int_output p i = None
       then Some (MbHoldingReg i) else int_output p i,
     int_memory := \<lambda>i. if i < 1024 \<and> int_memory p i = None
       then Some (MbHoldingReg (i + 1024)) else int_memory p i\<rparr>)"
proof -
  have e: "i * 8 + j < 8192 \<and> j < 8 \<and> q \<longleftrightarrow> i < 1024 \<and> j < 8 \<and> q" for i j :: nat and q by auto
  have f: "i + 1024 < 2048 \<and> i < 1024 \<and> q \<longleftrightarrow> i < 1024 \<and> q"
    "i < 2048 \<and> i < 1024 \<and> q \<longleftrightarrow> i < 1024 \<and> q" for i :: nat and q by auto
  show ?thesis
    using assms
    by (simp add: mapUnusedIO_def lock_def unlock_def fill_bool_input fill_bool_output
        fill_int_input fill_holding MAX_DISCRETE_INPUT_def MAX_COILS_def MAX_INP_REGS_def
        MAX_16B_RANGE_def e f Let_def del: upt_rec_numeral cong: if_cong)
qed

text \<open>
  \<open>mapUnusedIO\<close> leaves no entry of the coil, input and 16-bit register tables NULL, keeps the
  entries the PLC program had mapped and every cell, releases the mutex, and maps no two coils and no
  two output registers to one cell if the program did not.
\<close>

theorem mapUnusedIO_maps_all:
  assumes "\<not> bufferLock p" and "unmapped_clean p" and "distinct_ptrs (coil_ptr p)"
    and "distinct_ptrs (int_output p)"
  shows "ok (mapUnusedIO p) (\<lambda>q. \<not> bufferLock q \<and>
    (\<forall>k < 8192. coil_ptr q k \<noteq> None \<and> input_ptr q k \<noteq> None) \<and>
    (\<forall>k < 1024. int_input q k \<noteq> None \<and> int_output q k \<noteq> None \<and> int_memory q k \<noteq> None) \<and>
    distinct_ptrs (coil_ptr q) \<and> distinct_ptrs (int_output q) \<and>
    (\<forall>k a. coil_ptr p k = Some a \<longrightarrow> coil_ptr q k = Some a) \<and>
    (\<forall>k a. int_output p k = Some a \<longrightarrow> int_output q k = Some a) \<and>
    bools q = bools p \<and> uints q = uints p)"
proof -
  have k: "k div 8 < 1024 \<longleftrightarrow> k < 8192" for k :: nat by auto
  have c: "distinct_ptrs (\<lambda>k. if k < 8192 \<and> coil_ptr p k = None then Some (MbCoil k) else coil_ptr p k)"
    using assms(2,3)
    by (auto simp: distinct_ptrs_def unmapped_clean_def coil_ptr_def split: if_splits)
  have o: "distinct_ptrs (\<lambda>k. if k < 1024 \<and> int_output p k = None then Some (MbHoldingReg k) else int_output p k)"
    using assms(2,4)
    by (auto simp: distinct_ptrs_def unmapped_clean_def split: if_splits)
  show ?thesis
    using c o
    by (simp add: mapUnusedIO_eq[OF assms(1)] coil_ptr_def[abs_def] input_ptr_def k assms(1)
        cong: if_cong) 
qed

section \<open>Concrete requests\<close>

text \<open>The image in which the Modbus server has mapped everything, and one with a 64-bit variable.\<close>

definition served_image :: plc where
  "served_image = the (mapUnusedIO null_image)"

definition long_image :: plc where
  "long_image = null_image\<lparr>lint_memory := \<lambda>i. if i = 0 then Some 7 else None\<rparr>"

lemma served_image_facts:
  "\<not> bufferLock served_image" "distinct_ptrs (coil_ptr served_image)"
  "distinct_ptrs (int_output served_image)"
  "k < 8192 \<Longrightarrow> coil_ptr served_image k = Some (MbCoil k)"
  "k < 1024 \<Longrightarrow> int_output served_image k = Some (MbHoldingReg k)"
  "dint_memory served_image = (\<lambda>i. None)" "lint_memory served_image = (\<lambda>i. None)"
  by (auto simp: served_image_def mapUnusedIO_eq coil_ptr_def distinct_ptrs_def dest: le_less_trans)


lemma ReadCoils_answer_witness:
  "ok (ReadCoils 12 (request [0, 1, 0, 0, 0, 6, 1, 1, 0, 0, 0, 8] null_image))
     (\<lambda>t. MessageLength t = 10 \<and> unat (buf t ! 8) = 1)"
  by (rule ok_weaken[OF ReadCoils_answer[of _ 12 1]]) (simp_all add: word_mb_eq bit_bytes_def)

lemma WriteMultipleCoils_effect_witness:
  "ok (WriteMultipleCoils 14 (request [0, 1, 0, 0, 0, 8, 1, 15, 0, 0, 0, 3, 1, 5] served_image))
     (\<lambda>t. MessageLength t = 12 \<and> bool_val (img t) (coil_ptr served_image 2) = 1 \<and>
        bool_val (img t) (coil_ptr served_image 7) = 0)"
proof (rule ok_weaken[OF WriteMultipleCoils_effect[where n = 1]], goal_cases)
  case (9 t)
  then show ?case
    by (elim conjE) (frule spec[where x = 2], drule spec[where x = 7],
      simp add: word_mb_eq served_image_facts data_bit_def bitRead_bit bit_numeral_word_iff)
qed (simp_all add: word_mb_eq bit_bytes_def served_image_facts)

lemma coils_write_then_read_witness:
  "ok (WriteMultipleCoils 14 (request [0, 1, 0, 0, 0, 8, 1, 15, 0, 0, 0, 3, 1, 5] served_image))
     (\<lambda>t. ok (ReadCoils 12 (request [0, 2, 0, 0, 0, 6, 1, 1, 0, 0, 0, 3] (img t)))
        (\<lambda>u. unat (buf u ! 8) = 1 \<and> buf u ! 9 = 5))"
proof -
  let ?s = "request [0, 1, 0, 0, 0, 8, 1, 15, 0, 0, 0, 3, 1, 5] served_image"
  have "ok (WriteMultipleCoils 14 ?s) (\<lambda>t. True)"
    by (rule ok_weaken[OF WriteMultipleCoils_stores[where n = 1 and Start = 0]])
      (simp_all add: word_mb_eq bit_bytes_def served_image_facts)
  then show ?thesis
  proof (rule ok_mono)
    fix t assume t: "WriteMultipleCoils 14 ?s = Some t"
    show "ok (ReadCoils 12 (request [0, 2, 0, 0, 0, 6, 1, 1, 0, 0, 0, 3] (img t)))
        (\<lambda>u. unat (buf u ! 8) = 1 \<and> buf u ! 9 = 5)"
      by (rule ok_weaken[OF coils_write_then_read[where n = 1, OF _ _ _ _ _ _ _ _ _ t]])
        (simp_all add: word_mb_eq bit_bytes_def served_image_facts)
  qed
qed

lemma register_write_then_read_witness:
  "ok (WriteRegister 12 (request [0, 1, 0, 0, 0, 6, 1, 6, 0, 3, 0x12, 0x34] served_image))
     (\<lambda>t. ok (ReadHoldingRegisters 12 (request [0, 2, 0, 0, 0, 6, 1, 3, 0, 3, 0, 1] (img t)))
        (\<lambda>u. buf u ! 9 = 0x12 \<and> buf u ! 10 = 0x34))"
proof -
  let ?s = "request [0, 1, 0, 0, 0, 6, 1, 6, 0, 3, 0x12, 0x34] served_image"
  have m: "register_mapped served_image 3" by (simp add: register_mapped_def served_image_facts)
  have "ok (WriteRegister 12 ?s) (\<lambda>t. True)"
    by (rule ok_weaken[OF WriteRegister_stores]) (simp_all add: word_mb_eq served_image_facts m)
  then show ?thesis
  proof (rule ok_mono)
    fix t assume t: "WriteRegister 12 ?s = Some t"
    show "ok (ReadHoldingRegisters 12 (request [0, 2, 0, 0, 0, 6, 1, 3, 0, 3, 0, 1] (img t)))
        (\<lambda>u. buf u ! 9 = 0x12 \<and> buf u ! 10 = 0x34)"
      by (rule ok_weaken[OF register_write_then_read[OF _ _ _ _ t]])
        (simp_all add: word_mb_eq served_image_facts m)
  qed
qed

lemma unmapped_register_reads_low_byte_twice_witness:
  "ok (WriteRegister 12 (request [0, 1, 0, 0, 0, 6, 1, 6, 8, 0, 0x12, 0x34] served_image))
     (\<lambda>t. ok (ReadHoldingRegisters 12 (request [0, 2, 0, 0, 0, 6, 1, 3, 8, 0, 0, 1] (img t)))
        (\<lambda>u. buf u ! 9 = 0x34 \<and> buf u ! 10 = 0x34))"
proof -
  let ?s = "request [0, 1, 0, 0, 0, 6, 1, 6, 8, 0, 0x12, 0x34] served_image"
  have m: "\<not> register_mapped served_image 2048" by (simp add: register_mapped_def served_image_facts)
  have "frame ?s t" if "WriteRegister 12 ?s = Some t" for t
    using okD[OF safe_WriteRegister[of ?s 12] that] by (simp add: word_mb_eq served_image_facts handled_def)
  have "ok (WriteRegister 12 ?s) (\<lambda>t. True)"
    by (rule ok_weaken[OF safe_WriteRegister]) (simp_all add: word_mb_eq served_image_facts)
  then show ?thesis
  proof (rule ok_mono)
    fix t assume t: "WriteRegister 12 ?s = Some t"
    show "ok (ReadHoldingRegisters 12 (request [0, 2, 0, 0, 0, 6, 1, 3, 8, 0, 0, 1] (img t)))
        (\<lambda>u. buf u ! 9 = 0x34 \<and> buf u ! 10 = 0x34)"
      by (rule ok_weaken[OF unmapped_register_reads_low_byte_twice[OF _ _ _ _ _ _ t]])
        (simp_all add: word_mb_eq served_image_facts m)
  qed
qed

lemma WriteMultipleRegisters_effect_witness:
  "ok (WriteMultipleRegisters 17 (request [0, 1, 0, 0, 0, 11, 1, 16, 0, 5, 0, 2, 4, 1, 2, 3, 4] served_image))
     (\<lambda>t. uint_val (img t) (int_output (img t) 5) = 0x0102 \<and>
        uint_val (img t) (int_output (img t) 6) = 0x0304 \<and> bufferLock (img t) = False)"
proof (rule ok_weaken[OF WriteMultipleRegisters_effect[where n = 2]], goal_cases)
  case (8 t)
  then show ?case
    by (elim conjE) (frule spec[where x = 5], drule spec[where x = 6],
      simp add: word_mb_eq served_image_facts data_word_def)
qed (simp_all add: word_mb_eq served_image_facts)

lemma long_register_write_keeps_low_words_witness:
  "ok (WriteMultipleRegisters 21 (request
      [0, 1, 0, 0, 0, 15, 1, 16, 16, 0, 0, 4, 8, 0, 1, 0, 2, 0, 3, 0, 4] long_image))
     (\<lambda>t. lint_word (lints (img t) 7) 0 = 1 \<and> lint_word (lints (img t) 7) 1 = 0 \<and>
        lint_word (lints (img t) 7) 2 = 0 \<and> lint_word (lints (img t) 7) 3 = 0)"
proof (rule ok_weaken[OF long_register_write_keeps_low_words[where e = 0 and a = 7]], goal_cases)
  case (9 t)
  then show ?case
    by (elim conjE) (frule spec[where x = 0], frule spec[where x = 1], frule spec[where x = 2],
      drule spec[where x = 3], simp add: word_mb_eq lint_word_def long_image_def null_image_def)
qed (simp_all add: word_mb_eq long_image_def)

lemma ReadHoldingRegisters_faults_at_1024_witness:
  "ReadHoldingRegisters 12 (request [0, 1, 0, 0, 0, 6, 1, 3, 4, 0, 0, 1] null_image) = None"
  by (rule ReadHoldingRegisters_faults_at_1024) (simp_all add: word_mb_eq)

lemma mapUnusedIO_maps_all_witness:
  "ok (mapUnusedIO (glueVars 3 4 null_image))
     (\<lambda>q. distinct_ptrs (coil_ptr q) \<and> coil_ptr q 0 = Some (BVar 4) \<and> int_memory q 9 \<noteq> None)"
  by (rule ok_weaken[OF mapUnusedIO_maps_all])
    (simp_all add: coil_ptr_glue, simp_all add: glueVars_def unmapped_clean_def distinct_ptrs_def)

end
