(* ===== verification/Pccc.thy ===== *)
theory Pccc
  imports NetState ImageBank
begin

text \<open>
  The PCCC commands carried by EtherNet/IP (Packetized-PLC-IO/pccc.cpp), over any extension of the
  handler state. No handler uses the length it is passed, which is left out. A command lies in the
  message buffer at offset \<open>b\<close>, the \<open>buffer\<close> pointer of the code; a handler returns the length of the
  reply, an unsigned 16-bit number, with the new state. Pointers have 32 bits on the target, so the
  casts of pointers to \<open>unsigned int\<close> lose nothing.
\<close>

section \<open>Constants and helpers\<close>

definition PCCC_MAX_DISCRETE_INPUT :: nat where "PCCC_MAX_DISCRETE_INPUT = 1024"
definition PCCC_MAX_COILS :: nat where "PCCC_MAX_COILS = 1024"
definition PCCC_MIN_16B_RANGE :: nat where "PCCC_MIN_16B_RANGE = 1024"
definition PCCC_MAX_16B_RANGE :: nat where "PCCC_MAX_16B_RANGE = 2047"

definition PCCC_INPUT_LOGICAL_SLOT :: byte where "PCCC_INPUT_LOGICAL_SLOT = 0x8c"
definition PCCC_OUTPUT_LOGICAL_SLOT :: byte where "PCCC_OUTPUT_LOGICAL_SLOT = 0x8b"
definition PCCC_INTEGER :: byte where "PCCC_INTEGER = 0x89"
definition PCCC_FLOATING_POINT :: byte where "PCCC_FLOATING_POINT = 0x8a"
definition PCCC_FN_OUTPUT :: byte where "PCCC_FN_OUTPUT = 0"
definition PCCC_FN_INPUT :: byte where "PCCC_FN_INPUT = 1"
definition PCCC_FN_INT :: byte where "PCCC_FN_INT = 7"
definition PCCC_FN_FLOAT :: byte where "PCCC_FN_FLOAT = 8"

lemmas pccc_consts = PCCC_MAX_DISCRETE_INPUT_def PCCC_MAX_COILS_def PCCC_MIN_16B_RANGE_def
  PCCC_MAX_16B_RANGE_def PCCC_INPUT_LOGICAL_SLOT_def PCCC_OUTPUT_LOGICAL_SLOT_def PCCC_INTEGER_def
  PCCC_FLOATING_POINT_def PCCC_FN_OUTPUT_def PCCC_FN_INPUT_def PCCC_FN_INT_def PCCC_FN_FLOAT_def

text \<open>\<open>word_pccc\<close> does not shift either byte; \<open>an_word_pccc\<close> has the low byte first.\<close>

definition word_pccc :: "byte \<Rightarrow> byte \<Rightarrow> nat" where
  "word_pccc byte1 byte2 = unat byte1 OR unat byte2"

definition an_word_pccc :: "byte \<Rightarrow> byte \<Rightarrow> nat" where
  "an_word_pccc byte1 byte2 = unat byte1 OR push_bit 8 (unat byte2)"

text \<open>
  \<open>(int) log2(n)\<close>: the logarithm of zero is minus infinity, whose conversion to \<open>int\<close> is undefined.
\<close>

fun log2_floor :: "nat \<Rightarrow> nat" where
  "log2_floor n = (if n < 2 then 0 else Suc (log2_floor (n div 2)))"

declare log2_floor.simps [simp del]

definition int_log2 :: "nat \<Rightarrow> nat option" where
  "int_log2 n = (if n = 0 then None else Some (log2_floor n))"

section \<open>Reading\<close>

text \<open>
  Both bit readers store bit \<open>j\<close> of entry \<open>Start + 8 * i + j\<close> in data byte \<open>4 + i\<close>. The reader of coils
  also computes a mask that nothing uses, whose conversion is undefined when the two bytes are zero.
\<close>

definition pccc_bit_step ::
  "(plc \<Rightarrow> nat \<Rightarrow> nat \<Rightarrow> bool_ptr option) \<Rightarrow> nat \<Rightarrow> nat \<Rightarrow> nat \<Rightarrow> nat \<Rightarrow> nat \<Rightarrow> 'a nst_scheme \<Rightarrow> 'a nst_scheme option" where
  "pccc_bit_step tab limit b Start i j s =
     (let position = Start + i * 8 + j in
      if position < limit
      then do {
        q \<leftarrow> bool_at (tab (img s)) (position div 8) (position mod 8);
        v \<leftarrow> getb (b + 4 + i) s;
        (case q of
           Some a \<Rightarrow> putb (b + 4 + i) (bitWrite v j (bools (img s) a)) s
         | None \<Rightarrow> putb (b + 4 + i) (bitWrite v j 0) s)
      }
      else Some s)"

definition pccc_read_bits ::
  "(plc \<Rightarrow> nat \<Rightarrow> nat \<Rightarrow> bool_ptr option) \<Rightarrow> nat \<Rightarrow> nat \<Rightarrow> 'a nst_scheme \<Rightarrow> 'a nst_scheme option" where
  "pccc_read_bits tab limit b s = do {
     b8 \<leftarrow> getb (b + 8) s; b9 \<leftarrow> getb (b + 9) s;
     let Start = word_pccc b8 b9;
     b5 \<leftarrow> getb (b + 5) s;
     let ByteDataLength = unat b5;
     s \<leftarrow> on_img lock s;
     s \<leftarrow> for_each (\<lambda>i. for_each (pccc_bit_step tab limit b Start i) [0..<8]) [0..<ByteDataLength] s;
     on_img unlock s
   }"

definition Pccc_ReadCoils :: "nat \<Rightarrow> 'a nst_scheme \<Rightarrow> 'a nst_scheme option" where
  "Pccc_ReadCoils b s = do {
     b10 \<leftarrow> getb (b + 10) s; b11 \<leftarrow> getb (b + 11) s;
     Mask \<leftarrow> int_log2 (word_pccc b10 b11);
     pccc_read_bits bool_output PCCC_MAX_COILS b s
   }"

definition Pccc_ReadDiscreteInputs :: "nat \<Rightarrow> 'a nst_scheme \<Rightarrow> 'a nst_scheme option" where
  "Pccc_ReadDiscreteInputs = pccc_read_bits bool_input PCCC_MAX_DISCRETE_INPUT"

text \<open>
  The register reader stores the value of an entry at twice its absolute position, whatever the
  start of the request was.
\<close>

definition pccc_put_word :: "nat \<Rightarrow> nat \<Rightarrow> 16 word \<Rightarrow> 'a nst_scheme \<Rightarrow> 'a nst_scheme option" where
  "pccc_put_word b position v s = do {
     s \<leftarrow> putb (b + 4 + position * 2) (ucast v) s;
     putb (b + 5 + position * 2) (ucast (drop_bit 8 v)) s
   }"

definition pccc_read_reg_step :: "nat \<Rightarrow> byte \<Rightarrow> byte \<Rightarrow> nat \<Rightarrow> nat \<Rightarrow> 'a nst_scheme \<Rightarrow> 'a nst_scheme option" where
  "pccc_read_reg_step b FileT FileN Start i s =
     (let position = Start + i in
      if position \<le> PCCC_MIN_16B_RANGE \<and> FileN = PCCC_FN_INT \<and> FileT = PCCC_INTEGER
      then do {
        q \<leftarrow> tab_at (int_output (img s)) position;
        pccc_put_word b position (uint_val (img s) q) s
      }
      else if (position \<ge> PCCC_MIN_16B_RANGE \<and> position \<le> PCCC_MAX_16B_RANGE) \<and>
        FileN = PCCC_FN_INT \<and> FileT = PCCC_INTEGER
      then do {
        q \<leftarrow> tab_at (int_memory (img s)) (position - PCCC_MIN_16B_RANGE);
        pccc_put_word b position (uint_val (img s) q) s
      }
      else if FileN = PCCC_FN_FLOAT \<and> FileT = PCCC_FLOATING_POINT \<and> position mod 2 = 0
      then do {
        let position = position div 2;
        q \<leftarrow> tab_at (dint_memory (img s)) position;
        a \<leftarrow> q;
        let tempValue = dints (img s) a;
        s \<leftarrow> putb (b + 4 + 4 * position) (ucast tempValue) s;
        s \<leftarrow> putb (b + 5 + 4 * position) (ucast (drop_bit 8 tempValue)) s;
        s \<leftarrow> putb (b + 6 + 4 * position) (ucast (drop_bit 16 tempValue)) s;
        putb (b + 7 + 4 * position) (ucast (drop_bit 24 tempValue)) s
      }
      else Some s)"

definition Pccc_ReadHoldingRegisters :: "nat \<Rightarrow> 'a nst_scheme \<Rightarrow> 'a nst_scheme option" where
  "Pccc_ReadHoldingRegisters b s = do {
     b8 \<leftarrow> getb (b + 8) s; b9 \<leftarrow> getb (b + 9) s;
     let Start = word_pccc b8 b9;
     b5 \<leftarrow> getb (b + 5) s;
     let WordDataLength = unat b5 div 2;
     FileT \<leftarrow> getb (b + 7) s;
     FileN \<leftarrow> getb (b + 6) s;
     s \<leftarrow> on_img lock s;
     s \<leftarrow> for_each (pccc_read_reg_step b FileT FileN Start) [0..<WordDataLength] s;
     on_img unlock s
   }"

section \<open>Writing\<close>

definition Pccc_WriteCoil :: "nat \<Rightarrow> 'a nst_scheme \<Rightarrow> 'a nst_scheme option" where
  "Pccc_WriteCoil b s = do {
     b4 \<leftarrow> getb (b + 4) s;
     b5 \<leftarrow> getb (b + 5) s;
     let mask_offset = (if b4 = 0xab then unat b5 else 0);
     b8 \<leftarrow> getb (b + 8) s; b9 \<leftarrow> getb (b + 9) s;
     let Start = word_pccc b8 b9;
     b10 \<leftarrow> getb (b + 10) s; b11 \<leftarrow> getb (b + 11) s;
     Mask \<leftarrow> int_log2 (word_pccc b10 b11);
     if Start < PCCC_MAX_COILS
     then do {
       v10 \<leftarrow> getb (b + 10 + mask_offset) s; v11 \<leftarrow> getb (b + 11 + mask_offset) s;
       let value = (if word_pccc v10 v11 > 0 then 1 else 0);
       s \<leftarrow> on_img lock s;
       q \<leftarrow> bool_at (bool_output (img s)) Start Mask;
       s \<leftarrow> on_img (\<lambda>p. Some (store_bool q value p)) s;
       on_img unlock s
     }
     else Some s
   }"

text \<open>
  One pass of the loop of \<open>Pccc_WriteRegister\<close>, without the \<open>unlock\<close> that ends it; it also returns
  the loop counter, which a 32-bit write advances by four.
\<close>

definition pccc_write_int :: "nat \<Rightarrow> byte \<Rightarrow> byte \<Rightarrow> nat \<Rightarrow> nat \<Rightarrow> 'a nst_scheme \<Rightarrow> 'a nst_scheme option" where
  "pccc_write_int b FileT FileN position i s =
     (if position \<le> PCCC_MIN_16B_RANGE \<and> FileN = PCCC_FN_INT \<and> FileT = PCCC_INTEGER
      then do {
        q \<leftarrow> tab_at (int_output (img s)) position;
        l \<leftarrow> getb (b + 10 + i) s; h \<leftarrow> getb (b + 11 + i) s;
        on_img (\<lambda>p. Some (store_uint q (word_of_nat (an_word_pccc l h)) p)) s
      }
      else if (position \<ge> PCCC_MIN_16B_RANGE \<and> position \<le> PCCC_MAX_16B_RANGE) \<and>
        FileN = PCCC_FN_OUTPUT \<and> FileT = PCCC_INTEGER
      then do {
        q \<leftarrow> tab_at (int_memory (img s)) (position - PCCC_MIN_16B_RANGE);
        l \<leftarrow> getb (b + 10 + i) s; h \<leftarrow> getb (b + 11 + i) s;
        on_img (\<lambda>p. Some (store_uint q (word_of_nat (an_word_pccc l h)) p)) s
      }
      else Some s)"

definition pccc_write_float ::
  "nat \<Rightarrow> byte \<Rightarrow> byte \<Rightarrow> nat \<Rightarrow> nat \<Rightarrow> 'a nst_scheme \<Rightarrow> (nat \<times> 'a nst_scheme) option" where
  "pccc_write_float b FileT FileN position i s =
     (if FileN = PCCC_FN_FLOAT \<and> FileT = PCCC_FLOATING_POINT
      then do {
        q \<leftarrow> tab_at (dint_memory (img s)) position;
        b0 \<leftarrow> getb (b + 10 + i) s; b1 \<leftarrow> getb (b + 11 + i) s;
        (case q of
           Some a \<Rightarrow> do {
             b2 \<leftarrow> getb (b + 12 + i) s; b3 \<leftarrow> getb (b + 13 + i) s;
             let tempValue = ucast b0 OR push_bit 8 (ucast b1) OR push_bit 16 (ucast b2) OR
               push_bit 24 (ucast b3);
             s \<leftarrow> on_img (\<lambda>p. Some (set_dint a tempValue p)) s;
             Some (i + 4, s)
           }
         | None \<Rightarrow> do {
             s \<leftarrow> on_img (\<lambda>p. Some (set_uint (PcccHoldingReg position)
               (word_of_nat (an_word_pccc b0 b1)) p)) s;
             Some (i, s)
           })
      }
      else Some (i, s))"

definition pccc_write_reg_step ::
  "nat \<Rightarrow> byte \<Rightarrow> byte \<Rightarrow> nat \<Rightarrow> nat \<Rightarrow> 'a nst_scheme \<Rightarrow> (nat \<times> 'a nst_scheme) option" where
  "pccc_write_reg_step b FileT FileN Start i s = do {
     s \<leftarrow> pccc_write_int b FileT FileN (Start + i) i s;
     pccc_write_float b FileT FileN (Start + i) i s
   }"

lemma pccc_write_reg_step_advances:
  "pccc_write_reg_step b FileT FileN Start i s = Some (i', s') \<Longrightarrow> i \<le> i'"
  by (auto simp: pccc_write_reg_step_def pccc_write_float_def bind_eq_Some_conv Let_def
      split: if_splits option.splits)

text \<open>The mutex is taken before the loop and released in every pass.\<close>

function pccc_write_loop ::
  "nat \<Rightarrow> byte \<Rightarrow> byte \<Rightarrow> nat \<Rightarrow> nat \<Rightarrow> nat \<Rightarrow> 'a nst_scheme \<Rightarrow> 'a nst_scheme option" where
  "pccc_write_loop b FileT FileN Start n i s =
     (if i < n
      then Option.bind (pccc_write_reg_step b FileT FileN Start i s) (\<lambda>r.
        Option.bind (on_img unlock (snd r)) (pccc_write_loop b FileT FileN Start n (fst r + 1)))
      else Some s)"
  by pat_completeness auto

termination
  by (relation "measure (\<lambda>(b, t, f, S, n, i, s). n - i)")
    (auto dest: pccc_write_reg_step_advances)

declare pccc_write_loop.simps [simp del]

definition Pccc_WriteRegister :: "nat \<Rightarrow> 'a nst_scheme \<Rightarrow> 'a nst_scheme option" where
  "Pccc_WriteRegister b s = do {
     b8 \<leftarrow> getb (b + 8) s; b9 \<leftarrow> getb (b + 9) s;
     let Start = word_pccc b8 b9;
     b5 \<leftarrow> getb (b + 5) s;
     let WordDataLength = unat b5 div 2;
     FileT \<leftarrow> getb (b + 7) s;
     FileN \<leftarrow> getb (b + 6) s;
     s \<leftarrow> on_img lock s;
     pccc_write_loop b FileT FileN Start WordDataLength 0 s
   }"

section \<open>Replies and the dispatcher\<close>

text \<open>The four header bytes of a reply: the code, and the status and transaction of the request.\<close>

definition pccc_reply_header :: "nat \<Rightarrow> 'a nst_scheme \<Rightarrow> 'a nst_scheme option" where
  "pccc_reply_header b s = do {
     s \<leftarrow> putb b 0x4f s;
     s \<leftarrow> movb (b + 1) (b + 1) 1 s;
     movb (b + 2) (b + 2) 2 s
   }"

text \<open>\<open>return -1\<close> from a function of type \<open>uint16_t\<close>.\<close>

definition pccc_failed :: "string \<Rightarrow> 'a nst_scheme \<Rightarrow> (nat \<times> 'a nst_scheme) option" where
  "pccc_failed msg s = do {
     s \<leftarrow> on_log (runtime_log (msg @ nl)) s;
     Some (65535, s)
   }"

definition Protected_Logical_Read_Reply :: "nat \<Rightarrow> 'a nst_scheme \<Rightarrow> (nat \<times> 'a nst_scheme) option" where
  "Protected_Logical_Read_Reply b s = do {
     b5 \<leftarrow> getb (b + 5) s;
     let len_resp = 4 + unat b5;
     b6 \<leftarrow> getb (b + 6) s; b7 \<leftarrow> getb (b + 7) s;
     let reply = (\<lambda>r. do { s \<leftarrow> r; s \<leftarrow> pccc_reply_header b s; Some (len_resp, s) });
     if b6 = PCCC_FN_OUTPUT \<and> b7 = PCCC_OUTPUT_LOGICAL_SLOT then reply (Pccc_ReadCoils b s)
     else if b6 = PCCC_FN_INPUT \<and> b7 = PCCC_INPUT_LOGICAL_SLOT then reply (Pccc_ReadDiscreteInputs b s)
     else if (b6 = PCCC_FN_INT \<or> b6 = PCCC_FN_FLOAT) \<and> (b7 = PCCC_INTEGER \<or> b7 = PCCC_FLOATING_POINT)
     then reply (Pccc_ReadHoldingRegisters b s)
     else pccc_failed ''PCCC: Error occured while processing Protected Logical Read'' s
   }"

definition Protected_Logical_Write_Reply :: "nat \<Rightarrow> 'a nst_scheme \<Rightarrow> (nat \<times> 'a nst_scheme) option" where
  "Protected_Logical_Write_Reply b s = do {
     s \<leftarrow> pccc_reply_header b s;
     b6 \<leftarrow> getb (b + 6) s; b7 \<leftarrow> getb (b + 7) s;
     s \<leftarrow> (if b6 = PCCC_FN_OUTPUT \<and> b7 = PCCC_OUTPUT_LOGICAL_SLOT then Pccc_WriteCoil b s
          else if (b6 = PCCC_FN_FLOAT \<or> b6 = PCCC_FN_INT) \<and> (b7 = PCCC_INTEGER \<or> b7 = PCCC_FLOATING_POINT)
          then Pccc_WriteRegister b s
          else Some s);
     Some (5 - 1, s)
   }"

definition Command_Protocol :: "nat \<Rightarrow> 'a nst_scheme \<Rightarrow> (nat \<times> 'a nst_scheme) option" where
  "Command_Protocol b s = do {
     cmd \<leftarrow> getb b s;
     fn \<leftarrow> getb (b + 4) s;
     if cmd = 0x0f \<and> fn = 0xa2 then Protected_Logical_Read_Reply b s
     else if cmd = 0x0f \<and> (fn = 0xaa \<or> fn = 0xab) then Protected_Logical_Write_Reply b s
     else pccc_failed ''PCCC: Unsupportedd Command/Data Function Code!'' s
   }"

definition ParsePCCCData :: "nat \<Rightarrow> 'a nst_scheme \<Rightarrow> (nat \<times> 'a nst_scheme) option" where
  "ParsePCCCData = Command_Protocol"

definition processPCCCMessage :: "nat \<Rightarrow> 'a nst_scheme \<Rightarrow> (nat \<times> 'a nst_scheme) option" where
  "processPCCCMessage = ParsePCCCData"

end
