(* ===== verification/Pccc_Props.thy ===== *)
theory Pccc_Props
  imports Pccc
begin

text \<open>
  The PCCC commands: memory safety and the mutex discipline of those that \<open>pccc_safe\<close> admits, the
  effect of a coil write, and the two ways in which a register write mishandles the mutex.
\<close>

section \<open>Arithmetic of commands\<close>

lemma word_pccc_eq: "word_pccc b1 b2 = unat (b1 OR b2)"
  by (simp add: word_pccc_def unsigned_or_eq)

lemma word_pccc_bound: "word_pccc b1 b2 < 256"
  using unsigned_less[of "b1 OR b2", where 'a = nat] by (simp add: word_pccc_eq)

lemma log2_floor_bound: "n < 2 ^ Suc k \<Longrightarrow> log2_floor n \<le> k"
proof (induction k arbitrary: n)
  case 0
  then show ?case by (subst log2_floor.simps) simp
next
  case (Suc k)
  then have "log2_floor (n div 2) \<le> k" by auto
  then show ?case by (subst log2_floor.simps) simp
qed

lemma ok_int_log2: "ok (int_log2 (word_pccc b1 b2)) P \<longleftrightarrow> word_pccc b1 b2 \<noteq> 0 \<and> P (log2_floor (word_pccc b1 b2))"
  by (simp add: int_log2_def)

lemma mask_bound: "log2_floor (word_pccc b1 b2) < 8"
  using log2_floor_bound[of "word_pccc b1 b2" 7] word_pccc_bound[of b1 b2] by simp

section \<open>Memory safety and the mutex\<close>

lemma safe_pccc_bit_step:
  assumes "locked s t" "b + 4 + i < length (buf s)" "j < 8" "limit \<le> 8192"
  shows "ok (pccc_bit_step tab limit b Start i j t) (locked s)"
proof -
  have "b + 4 + i < length (buf t)" using assms(1,2) by (simp add: locked_def)
  then show ?thesis
    using assms by (auto simp: pccc_bit_step_def Let_def ok_rules split: option.splits)
qed

lemma safe_pccc_read_bits:
  assumes "b + 1024 \<le> length (buf s)" "\<not> bufferLock (img s)" "limit \<le> 8192"
  shows "ok (pccc_read_bits tab limit b s) (frame s)"
proof -
  have loop: "ok (for_each (\<lambda>i. for_each (pccc_bit_step tab limit b S i) [0..<8]) [0..<unat n] t) (locked s)"
    if "locked s t" for S t and n :: byte
    using that assms unsigned_less[of n, where 'a = nat]
    by (auto intro!: ok_for_each_locked safe_pccc_bit_step)
  show ?thesis
    unfolding pccc_read_bits_def Let_def
    using assms by (auto simp: ok_getb intro!: ok_section loop)
qed

lemma safe_pccc_read_reg_step:
  assumes "locked s t" "b + 1024 \<le> length (buf s)" "Start < 256" "i < 128"
    and "FileN = 8 \<Longrightarrow> FileT = 0x8a \<Longrightarrow> \<forall>k < 256. dint_memory (img s) k \<noteq> None"
  shows "ok (pccc_read_reg_step b FileT FileN Start i t) (locked s)"
proof -
  have t: "length (buf t) = length (buf s)" "dint_memory (img t) = dint_memory (img s)"
    using assms(1) by (auto simp: locked_def same_tables_def)
  show ?thesis
  proof (cases "FileN = 8 \<and> FileT = 0x8a \<and> (Start + i) mod 2 = 0")
    case True
    have d: "(Start + i) div 2 < 192" using assms(3,4) by simp
    from True assms(5) have "\<forall>k < 256. dint_memory (img s) k \<noteq> None" by blast
    with d have "dint_memory (img s) ((Start + i) div 2) \<noteq> None" by simp
    then obtain a where "dint_memory (img s) ((Start + i) div 2) = Some a" by blast
    with True assms(1,2) t d show ?thesis
      by (simp add: pccc_read_reg_step_def pccc_consts Let_def ok_rules)
  next
    case False
    then show ?thesis
      using assms t by (auto simp: pccc_read_reg_step_def pccc_consts Let_def ok_rules pccc_put_word_def)
  qed
qed

lemma safe_Pccc_ReadHoldingRegisters:
  assumes "b + 1024 \<le> length (buf s)" "\<not> bufferLock (img s)"
    and "buf s ! (b + 6) = 8 \<Longrightarrow> buf s ! (b + 7) = 0x8a \<Longrightarrow> \<forall>k < 256. dint_memory (img s) k \<noteq> None"
  shows "ok (Pccc_ReadHoldingRegisters b s) (frame s)"
proof -
  have loop: "ok (for_each (pccc_read_reg_step b (buf s ! (b + 7)) (buf s ! (b + 6))
      (word_pccc x y)) [0..<unat n div 2] t) (locked s)" if "locked s t" for x y t and n :: byte
    using that assms unsigned_less[of n, where 'a = nat] word_pccc_bound[of x y]
    by (auto intro!: ok_for_each_locked safe_pccc_read_reg_step)
  show ?thesis
    unfolding Pccc_ReadHoldingRegisters_def Let_def
    using assms by (auto simp: ok_getb intro!: ok_section loop)
qed

lemma safe_Pccc_WriteCoil:
  assumes "b + 1024 \<le> length (buf s)" "\<not> bufferLock (img s)"
    and "word_pccc (buf s ! (b + 10)) (buf s ! (b + 11)) \<noteq> 0"
  shows "ok (Pccc_WriteCoil b s) (frame s)"
proof -
  have "word_pccc x y < 1024" for x y using word_pccc_bound[of x y] by simp
  moreover have "unat (buf s ! (b + 5)) < 256"
    using unsigned_less[of "buf s ! (b + 5)", where 'a = nat] by simp
  ultimately show ?thesis
    unfolding Pccc_WriteCoil_def Let_def
    using assms mask_bound
    by (auto simp: ok_rules ok_int_log2 frame_def PCCC_MAX_COILS_def)
qed

lemma pccc_write_loop_done: "n \<le> i \<Longrightarrow> pccc_write_loop b T F S n i s = Some s"
  by (simp add: pccc_write_loop.simps)

lemma safe_pccc_write_reg_step:
  assumes "locked s t" "b + 1024 \<le> length (buf s)" "Start < 256" "i < 128"
  shows "ok (pccc_write_reg_step b FileT FileN Start i t) (\<lambda>r. locked s (snd r))"
proof -
  have t: "length (buf t) = length (buf s)" using assms(1) by (simp add: locked_def)
  show ?thesis
    using assms t
    by (auto simp: pccc_write_reg_step_def pccc_write_int_def pccc_write_float_def pccc_consts
        ok_rules option.case_distrib Let_def split: option.splits)
qed

text \<open>A request for one word passes through the loop once and releases the mutex once.\<close>

lemma safe_Pccc_WriteRegister:
  assumes "b + 1024 \<le> length (buf s)" "\<not> bufferLock (img s)" "unat (buf s ! (b + 5)) div 2 = 1"
  shows "ok (Pccc_WriteRegister b s) (frame s)"
proof -
  have body: "ok (pccc_write_loop b T F (word_pccc x y) (Suc 0) 0 t) (frame s)" if "locked s t" for T F x y t
  proof -
    have "ok (pccc_write_reg_step b T F (word_pccc x y) 0 t) (\<lambda>r. locked s (snd r))"
      using that assms(1) word_pccc_bound[of x y] by (rule safe_pccc_write_reg_step) simp
    then have "ok (pccc_write_reg_step b T F (word_pccc x y) 0 t)
        (\<lambda>r. ok (on_img unlock (snd r)) (frame s))"
      by (rule ok_weaken) (use locked_leave assms(2) in \<open>auto simp: ok_on_img ok_unlock locked_def\<close>)
    then show ?thesis
      by (subst pccc_write_loop.simps) (simp add: pccc_write_loop_done)
  qed
  show ?thesis
    unfolding Pccc_WriteRegister_def Let_def
    using assms by (auto simp: ok_getb ok_on_lock intro!: body)
qed


section \<open>The dispatcher\<close>

lemma movb_self: "d + n \<le> length (buf s) \<Longrightarrow> movb d d n s = Some s"
proof -
  assume d: "d + n \<le> length (buf s)"
  have "take d (buf s) @ take n (drop d (buf s)) @ drop (d + n) (buf s) = buf s"
    by (metis append_take_drop_id drop_drop add.commute)
  with d show ?thesis by (simp add: movb_def memmove_def)
qed

lemma pccc_reply_header_eq:
  "b + 4 \<le> length (buf s) \<Longrightarrow> pccc_reply_header b s = Some (s\<lparr>buf := (buf s)[b := 0x4f]\<rparr>)"
  by (simp add: pccc_reply_header_def putb_in movb_self)

lemma ok_pccc_reply_header:
  assumes "frame s t" "b + 1024 \<le> length (buf s)"
  shows "ok (pccc_reply_header b t) (frame s)"
  using assms by (simp add: pccc_reply_header_eq frame_def)

lemma ok_pccc_failed:
  assumes "length msg \<le> 998" "log_inv (lg s)"
  shows "ok (pccc_failed msg s) (\<lambda>(n, t). n = 65535 \<and> frame s t)"
proof -
  have "ok (runtime_log (msg @ nl) (lg s)) log_inv"
    using assms by (intro ok_runtime_log) (simp_all add: nl_def)
  then show ?thesis
    unfolding pccc_failed_def by (auto simp: ok_on_log frame_def intro: ok_weaken)
qed

text \<open>The commands that neither fault nor leave the mutex taken.\<close>

definition pccc_safe :: "nat \<Rightarrow> 'a nst_scheme \<Rightarrow> bool" where
  "pccc_safe b s =
     (let fn = buf s ! (b + 4); FileN = buf s ! (b + 6); FileT = buf s ! (b + 7) in
      if fn = 0xa2 \<and> FileN = 8 \<and> FileT = 0x8a then \<forall>k < 256. dint_memory (img s) k \<noteq> None
      else if fn \<in> {0xa2, 0xaa, 0xab} \<and> FileN = 0 \<and> FileT = 0x8b
      then word_pccc (buf s ! (b + 10)) (buf s ! (b + 11)) \<noteq> 0
      else if (fn = 0xaa \<or> fn = 0xab) \<and> FileN \<in> {7, 8} \<and> FileT \<in> {0x89, 0x8a}
      then unat (buf s ! (b + 5)) div 2 = 1
      else True)"

lemma safe_read_reply:
  assumes "b + 1024 \<le> length (buf s)" "\<not> bufferLock (img s)" "log_inv (lg s)"
    and "buf s ! (b + 6) = 8 \<Longrightarrow> buf s ! (b + 7) = 0x8a \<Longrightarrow> \<forall>k < 256. dint_memory (img s) k \<noteq> None"
    and "buf s ! (b + 6) = 0 \<Longrightarrow> buf s ! (b + 7) = 0x8b \<Longrightarrow> word_pccc (buf s ! (b + 10)) (buf s ! (b + 11)) \<noteq> 0"
  shows "ok (Protected_Logical_Read_Reply b s) (\<lambda>(n, t). (n = 65535 \<or> n \<le> 259) \<and> frame s t)"
proof -
  have n: "unat (buf s ! (b + 5)) \<le> 255"
    using unsigned_less[of "buf s ! (b + 5)", where 'a = nat] by simp
  have h: "ok (pccc_reply_header b t) (frame s)" if "frame s t" for t
    by (rule ok_pccc_reply_header[OF that assms(1)])
  have c: "ok (Pccc_ReadCoils b s) (frame s)" if "buf s ! (b + 6) = 0" "buf s ! (b + 7) = 0x8b"
    unfolding Pccc_ReadCoils_def using assms(1,2) assms(5)[OF that]
    by (auto simp: ok_getb ok_int_log2 PCCC_MAX_COILS_def intro!: safe_pccc_read_bits)
  have i: "ok (Pccc_ReadDiscreteInputs b s) (frame s)"
    unfolding Pccc_ReadDiscreteInputs_def using assms(1,2)
    by (auto simp: PCCC_MAX_DISCRETE_INPUT_def intro!: safe_pccc_read_bits)
  have r: "ok (Pccc_ReadHoldingRegisters b s) (frame s)"
    using assms(1,2,4) by (intro safe_Pccc_ReadHoldingRegisters)
  have f: "ok (pccc_failed ''PCCC: Error occured while processing Protected Logical Read'' s)
      (\<lambda>(n, t). (n = 65535 \<or> n \<le> 259) \<and> frame s t)"
    by (rule ok_weaken[OF ok_pccc_failed]) (use assms(3) in auto)
  show ?thesis
    unfolding Protected_Logical_Read_Reply_def Let_def
    using assms(1) n f ok_weaken[OF c h] ok_weaken[OF i h] ok_weaken[OF r h]
    by (simp add: ok_getb pccc_consts)
qed

lemma safe_write_reply:
  assumes "b + 1024 \<le> length (buf s)" "\<not> bufferLock (img s)"
    and "buf s ! (b + 6) = 0 \<Longrightarrow> buf s ! (b + 7) = 0x8b \<Longrightarrow>
      word_pccc (buf s ! (b + 10)) (buf s ! (b + 11)) \<noteq> 0"
    and "buf s ! (b + 6) \<in> {7, 8} \<Longrightarrow> buf s ! (b + 7) \<in> {0x89, 0x8a} \<Longrightarrow> unat (buf s ! (b + 5)) div 2 = 1"
  shows "ok (Protected_Logical_Write_Reply b s) (\<lambda>(n, t). n = 4 \<and> frame s t)"
proof -
  let ?t = "s\<lparr>buf := (buf s)[b := 0x4f]\<rparr>"
  have h: "pccc_reply_header b s = Some ?t" using assms(1) by (simp add: pccc_reply_header_eq)
  have t: "buf ?t ! (b + k) = buf s ! (b + k)" if "0 < k" for k using that by simp
  have f: "frame s u" if "frame ?t u" for u using that by (simp add: frame_def)
  have c: "ok (Pccc_WriteCoil b ?t) (frame s)" if "buf s ! (b + 6) = 0" "buf s ! (b + 7) = 0x8b"
    by (rule ok_weaken[OF safe_Pccc_WriteCoil]) (use assms(1-3) that f in auto)
  have r: "ok (Pccc_WriteRegister b ?t) (frame s)"
    if "buf s ! (b + 6) \<in> {7, 8}" "buf s ! (b + 7) \<in> {0x89, 0x8a}"
    by (rule ok_weaken[OF safe_Pccc_WriteRegister]) (use assms(1,2) assms(4)[OF that] f in auto)
  show ?thesis
    unfolding Protected_Logical_Write_Reply_def
    using assms(1) c r by (auto simp: h ok_getb pccc_consts)
qed

lemma processPCCCMessage_ok:
  assumes "b + 1024 \<le> length (buf s)" and "\<not> bufferLock (img s)" and "log_inv (lg s)"
    and "pccc_safe b s"
  shows "ok (processPCCCMessage b s) (\<lambda>(n, t). (n = 65535 \<or> n \<le> 259) \<and> frame s t)"
proof -
  have f: "ok (pccc_failed ''PCCC: Unsupportedd Command/Data Function Code!'' s)
      (\<lambda>(n, t). (n = 65535 \<or> n \<le> 259) \<and> frame s t)"
    by (rule ok_weaken[OF ok_pccc_failed]) (use assms(3) in auto)
  have r: "ok (Protected_Logical_Read_Reply b s) (\<lambda>(n, t). (n = 65535 \<or> n \<le> 259) \<and> frame s t)"
    if "buf s ! (b + 4) = 0xa2"
    using assms that by (intro safe_read_reply) (auto simp: pccc_safe_def Let_def)
  have w: "ok (Protected_Logical_Write_Reply b s) (\<lambda>(n, t). (n = 65535 \<or> n \<le> 259) \<and> frame s t)"
    if "buf s ! (b + 4) = 0xaa \<or> buf s ! (b + 4) = 0xab"
    by (rule ok_weaken[OF safe_write_reply]) (use assms that in \<open>auto simp: pccc_safe_def Let_def\<close>)
  show ?thesis
    unfolding processPCCCMessage_def ParsePCCCData_def Command_Protocol_def
    using assms(1) f r w by (auto simp: ok_getb)
qed

text \<open>
  A PCCC command at offset \<open>b\<close> with 1024 bytes of buffer behind it, with the mutex free, and which
  \<open>pccc_safe\<close> admits (the bytes 10 and 11 of a coil read or write are not both zero, a register write is for one word, a
  floating-point read finds every 32-bit variable mapped) is processed without a fault, leaves the mutex
  free and the log within its bounds, and returns a length of at most 259, or 65535 for the error.
\<close>

theorem processPCCCMessage_safe:
  assumes "b + 1024 \<le> length (buf s)" and "\<not> bufferLock (img s)" and "log_inv (lg s)"
    and "pccc_safe b s"
  shows "ok (processPCCCMessage b s) (\<lambda>(n, t). (n = 65535 \<or> n \<le> 259) \<and> frame s t)"
  using processPCCCMessage_ok[OF assms] .

text \<open>A coil read takes the logarithm of its bytes 10 and 11, and uses it for nothing.\<close>

lemma Pccc_ReadCoils_of_zero:
  assumes "b + 12 \<le> length (buf s)" "buf s ! (b + 10) = 0" "buf s ! (b + 11) = 0"
  shows "Pccc_ReadCoils b s = None"
  using assms by (simp add: Pccc_ReadCoils_def getb_in word_pccc_eq int_log2_def)

text \<open>
  A PCCC register write of no word, for integers or floating-point numbers, returns with the buffer
  mutex still taken: the release stands inside the loop.
\<close>

theorem Pccc_WriteRegister_leaks_lock:
  assumes "b + 1024 \<le> length (buf s)" and "\<not> bufferLock (img s)" and "unat (buf s ! (b + 5)) < 2"
  shows "ok (Pccc_WriteRegister b s) (\<lambda>t. bufferLock (img t))"
  using assms by (simp add: Pccc_WriteRegister_def ok_getb ok_on_lock pccc_write_loop_done)

text \<open>
  A PCCC write of two or more integer words releases the mutex a second time in its second pass.
\<close>

theorem Pccc_WriteRegister_unlocks_twice:
  fixes s :: "'a nst_scheme"
  assumes "b + 1024 \<le> length (buf s)" and "\<not> bufferLock (img s)" and "4 \<le> unat (buf s ! (b + 5))"
    and "buf s ! (b + 6) = 7" and "buf s ! (b + 7) = 0x89"
  shows "Pccc_WriteRegister b s = None"
proof -
  let ?st = "\<lambda>i. pccc_write_reg_step b 0x89 7 (word_pccc (buf s ! (b + 8)) (buf s ! (b + 9))) i"
  have step: "?st i t = None \<or> (\<exists>u. ?st i t = Some (i, u) \<and> bufferLock (img u) = bufferLock (img t))"
    for i and t :: "'a nst_scheme"
    by (auto simp: pccc_write_reg_step_def pccc_write_int_def pccc_write_float_def pccc_consts
        on_img_def split: Option.bind_splits)
  have two: "pccc_write_loop b 0x89 7 (word_pccc (buf s ! (b + 8)) (buf s ! (b + 9))) n (Suc 0) t = None"
    if "2 \<le> n" "\<not> bufferLock (img t)" for n and t :: "'a nst_scheme"
    using step[of "Suc 0" t] that
    by (subst pccc_write_loop.simps) (auto simp: on_img_def unlock_def)
  have "pccc_write_loop b 0x89 7 (word_pccc (buf s ! (b + 8)) (buf s ! (b + 9))) n 0 t = None"
    if "2 \<le> n" for n and t :: "'a nst_scheme"
    using step[of 0 t] that two
    by (subst pccc_write_loop.simps) (auto simp: on_img_def unlock_def)
  then show ?thesis
    using assms by (simp add: Pccc_WriteRegister_def getb_in on_img_def lock_def)
qed

section \<open>Writing a coil\<close>

text \<open>
  A masked PCCC write to a mapped coil row stores whether the data word is non-zero in the coil that
  the row and the highest set bit of the mask name, and changes no other coil. No two coils may share
  a cell.
\<close>

theorem Pccc_WriteCoil_effect:
  assumes "b + 1024 \<le> length (buf s)" and "\<not> bufferLock (img s)" and "distinct_ptrs (coil_ptr (img s))"
    and "buf s ! (b + 4) = 0xab" and "n = unat (buf s ! (b + 5))"
    and "mk = word_pccc (buf s ! (b + 10)) (buf s ! (b + 11))" and "mk \<noteq> 0"
    and "c = word_pccc (buf s ! (b + 8)) (buf s ! (b + 9)) * 8 + log2_floor mk"
  shows "ok (Pccc_WriteCoil b s) (\<lambda>t. \<not> bufferLock (img t) \<and> buf t = buf s \<and>
    (\<forall>k. bool_val (img t) (coil_ptr (img s) k) =
      (if k = c \<and> coil_ptr (img s) c \<noteq> None
       then if word_pccc (buf s ! (b + 10 + n)) (buf s ! (b + 11 + n)) > 0 then 1 else 0
       else bool_val (img s) (coil_ptr (img s) k))))"
proof -
  have l: "word_pccc (buf s ! (b + 8)) (buf s ! (b + 9)) < 1024"
    using word_pccc_bound[of "buf s ! (b + 8)" "buf s ! (b + 9)"] by simp
  have n: "n < 256" using unsigned_less[of "buf s ! (b + 5)", where 'a = nat] assms(5) by simp
  have m: "log2_floor mk < 8" unfolding assms(6) by (rule mask_bound)
  have c: "bool_output (img s) (word_pccc (buf s ! (b + 8)) (buf s ! (b + 9))) (log2_floor mk)
      = coil_ptr (img s) c"
    using m by (simp add: coil_ptr_def assms(8))
  have d: "distinct_ptrs (coil_ptr ((img s)\<lparr>bufferLock := True\<rparr>))" using assms(3) by simp
  show ?thesis
    unfolding Pccc_WriteCoil_def Let_def
    using assms(1,2,4,7) l n m coils.get_put[OF d]
    by (simp add: ok_rules int_log2_def assms(5,6)[symmetric] PCCC_MAX_COILS_def c)
qed

section \<open>Concrete commands\<close>

lemma processPCCCMessage_safe_witness:
  "ok (processPCCCMessage 2 (message [0, 0, 0x0f, 0, 1, 2, 0xa2, 2, 0, 0x8b, 0, 0, 1, 0] null_image))
     (\<lambda>(n, t). (n = 65535 \<or> n \<le> 259) \<and>
        frame (message [0, 0, 0x0f, 0, 1, 2, 0xa2, 2, 0, 0x8b, 0, 0, 1, 0] null_image) t)"
  by (rule processPCCCMessage_safe) (simp_all add: pccc_safe_def word_pccc_eq)

lemma Pccc_WriteRegister_leaks_lock_witness:
  "ok (Pccc_WriteRegister 0 (message [0x0f, 0, 1, 2, 0xaa, 0, 7, 0x89, 0, 0] null_image))
     (\<lambda>t. bufferLock (img t))"
  by (rule Pccc_WriteRegister_leaks_lock) simp_all

lemma Pccc_WriteRegister_unlocks_twice_witness:
  "Pccc_WriteRegister 0 (message [0x0f, 0, 1, 2, 0xaa, 4, 7, 0x89, 0, 0, 1, 2, 3, 4] null_image) = None"
  by (rule Pccc_WriteRegister_unlocks_twice) simp_all

lemma Pccc_WriteCoil_effect_witness:
  "ok (Pccc_WriteCoil 0 (message [0x0f, 0, 1, 2, 0xab, 2, 0, 0x8b, 0, 0, 1, 0, 1, 0]
      (glueVars 3 4 null_image)))
     (\<lambda>t. bool_val (img t) (coil_ptr (glueVars 3 4 null_image) 0) = 1)"
proof (rule ok_weaken[OF Pccc_WriteCoil_effect[where c = 0 and n = 2 and mk = 1]], goal_cases)
  case (9 t)
  then show ?case
    by (elim conjE) (drule spec[where x = 0], simp add: word_pccc_eq coil_ptr_def glueVars_def)
qed (simp_all add: word_pccc_eq log2_floor.simps distinct_glue)

end
