(* ===== verification/Enip.thy ===== *)
theory Enip
  imports Pccc
begin

text \<open>
  The EtherNet/IP server (Packetized-PLC-IO/enip.cpp, enipStruct.h). The structs of pointers into the
  message become records of offsets into the buffer; \<open>uint16_t\<close> values are 16-bit words, so the sizes
  of a reply wrap where the code wraps. The session number comes from \<open>rand()\<close>, whose four bytes are
  an argument.
\<close>

section \<open>State and structs\<close>

record es = nst +
  enip_session :: "byte list"

definition ENIP_MIN_LENGTH :: nat where "ENIP_MIN_LENGTH = 28"

record enip_header =
  hd_command :: nat
  hd_length :: nat
  hd_session_handle :: nat
  hd_status :: nat
  hd_sender_context :: nat
  hd_options :: nat
  hd_data :: nat

record enip_data_Unknown =
  unk_interface_handle :: nat
  unk_timeout :: nat
  unk_item_count :: nat
  unk_item1_id :: nat
  unk_item1_length :: nat
  unk_item1_data :: nat
  unk_item2_id :: nat
  unk_item2_length :: nat
  unk_item2_data :: nat

record enip_data_Unconnected =
  unc_interface_handle :: nat
  unc_timeout :: nat
  unc_item_count :: nat
  unc_item1_id :: nat
  unc_item1_length :: nat
  unc_item2_id :: nat
  unc_item2_length :: nat
  unc_service :: nat
  unc_request_pathSize :: nat
  unc_request_path :: nat
  unc_requestor_idLength :: nat
  unc_vendor_id :: nat
  unc_serial_number :: nat
  unc_data :: nat

record enip_data_Connected =
  con_interface_handle :: nat
  con_timeout :: nat
  con_item_count :: nat
  con_item1_id :: nat
  con_item1_length :: nat
  con_item2_id :: nat
  con_item2_length :: nat
  con_service :: nat
  con_request_pathSize :: nat
  con_request_path :: nat
  con_actual_timeout :: nat
  con_o2t_netConnectID :: nat
  con_t2o_netConnectID :: nat
  con_connect_serialNo :: nat
  con_orig_vendorNo :: nat
  con_orig_serialNo :: nat
  con_timeout_multiplier :: nat
  con_reserved :: nat
  con_o2t_rpi :: nat
  con_o2t_netConnectParam :: nat
  con_t2o_rpi :: nat
  con_t2o_netConnectParam :: nat
  con_transport_trigger :: nat
  con_connection_pathSize :: nat
  con_connection_path :: nat

record enip_data_Connected_0x70 =
  c70_interface_handle :: nat
  c70_timeout :: nat
  c70_item_count :: nat
  c70_item1_id :: nat
  c70_item1_length :: nat
  c70_connection_id :: nat
  c70_item2_id :: nat
  c70_item2_length :: nat
  c70_sequence_count :: nat
  c70_service :: nat
  c70_request_pathSize :: nat
  c70_request_path :: nat
  c70_requestor_id :: nat
  c70_pcccData :: nat

section \<open>Parsing\<close>

definition header_at :: enip_header where
  "header_at = \<lparr>hd_command = 0, hd_length = 2, hd_session_handle = 4, hd_status = 8,
     hd_sender_context = 12, hd_options = 20, hd_data = 24\<rparr>"

definition parseEnipUnknown :: enip_data_Unknown where
  "parseEnipUnknown = \<lparr>unk_interface_handle = 24, unk_timeout = 28, unk_item_count = 30,
     unk_item1_id = 32, unk_item1_length = 34, unk_item1_data = 36, unk_item2_id = 37,
     unk_item2_length = 39, unk_item2_data = 41\<rparr>"

definition parseEnipUnconnected :: enip_data_Unconnected where
  "parseEnipUnconnected = \<lparr>unc_interface_handle = 24, unc_timeout = 28, unc_item_count = 30,
     unc_item1_id = 32, unc_item1_length = 34, unc_item2_id = 36, unc_item2_length = 38,
     unc_service = 40, unc_request_pathSize = 41, unc_request_path = 42,
     unc_requestor_idLength = 46, unc_vendor_id = 47, unc_serial_number = 49, unc_data = 53\<rparr>"

definition parseEnipConnected :: enip_data_Connected where
  "parseEnipConnected = \<lparr>con_interface_handle = 24, con_timeout = 28, con_item_count = 30,
     con_item1_id = 32, con_item1_length = 34, con_item2_id = 36, con_item2_length = 38,
     con_service = 40, con_request_pathSize = 41, con_request_path = 42, con_actual_timeout = 46,
     con_o2t_netConnectID = 48, con_t2o_netConnectID = 52, con_connect_serialNo = 56,
     con_orig_vendorNo = 58, con_orig_serialNo = 60, con_timeout_multiplier = 64, con_reserved = 65,
     con_o2t_rpi = 68, con_o2t_netConnectParam = 72, con_t2o_rpi = 74, con_t2o_netConnectParam = 78,
     con_transport_trigger = 80, con_connection_pathSize = 81, con_connection_path = 82\<rparr>"

definition parseEnipDataConnected_0x70 :: enip_data_Connected_0x70 where
  "parseEnipDataConnected_0x70 = \<lparr>c70_interface_handle = 24, c70_timeout = 28, c70_item_count = 30,
     c70_item1_id = 32, c70_item1_length = 34, c70_connection_id = 36, c70_item2_id = 40,
     c70_item2_length = 42, c70_sequence_count = 44, c70_service = 46, c70_request_pathSize = 47,
     c70_request_path = 48, c70_requestor_id = 52, c70_pcccData = 59\<rparr>"

text \<open>A little-endian 16-bit field, read and written.\<close>

definition get16 :: "nat \<Rightarrow> es \<Rightarrow> 16 word option" where
  "get16 i s = do {
     l \<leftarrow> getb i s; h \<leftarrow> getb (i + 1) s;
     Some (push_bit 8 (ucast h) OR ucast l)
   }"

definition put16 :: "nat \<Rightarrow> 16 word \<Rightarrow> es \<Rightarrow> es option" where
  "put16 i w s = do {
     s \<leftarrow> putb i (ucast (w AND 0xff)) s;
     putb (i + 1) (ucast (drop_bit 8 w)) s
   }"

definition get_HeaderLength :: "enip_header \<Rightarrow> es \<Rightarrow> 16 word option" where
  "get_HeaderLength h = get16 (hd_length h)"

definition get_Item2_DataLength :: "enip_data_Unknown \<Rightarrow> es \<Rightarrow> 16 word option" where
  "get_Item2_DataLength d = get16 (unk_item2_length d)"

definition get_Item2_DataLength_Unconnected :: "enip_data_Unconnected \<Rightarrow> es \<Rightarrow> 16 word option" where
  "get_Item2_DataLength_Unconnected d = get16 (unc_item2_length d)"

definition get_Item2_DataLength_Connected_0x70 :: "enip_data_Connected_0x70 \<Rightarrow> es \<Rightarrow> 16 word option" where
  "get_Item2_DataLength_Connected_0x70 d = get16 (c70_item2_length d)"

text \<open>The inner \<^term>\<open>None\<close> is the result -1.\<close>

definition parseEnipHeader :: "nat \<Rightarrow> es \<Rightarrow> (nat \<times> enip_header) option option" where
  "parseEnipHeader buffer_size s =
     (if buffer_size < ENIP_MIN_LENGTH then Some None
      else do {
        enip_data_size \<leftarrow> get16 (hd_length header_at) s;
        Some (if buffer_size - 24 < unat enip_data_size then None
              else Some (unat enip_data_size, header_at))
      })"

definition getEnipType :: "enip_data_Unknown \<Rightarrow> enip_header \<Rightarrow> es \<Rightarrow> int option" where
  "getEnipType d h s = do {
     cmd \<leftarrow> getb (hd_command h) s;
     id1 \<leftarrow> getb (unk_item1_id d) s;
     dat1 \<leftarrow> getb (unk_item1_data d) s;
     len2 \<leftarrow> getb (unk_item2_length d + 1) s;
     Some (if cmd = 65 \<or> cmd = 0x70 then 0
           else if id1 = 0x81 then 1
           else if dat1 = 0xb2 \<and> len2 = 0x4b then 2
           else if dat1 = 0xb2 \<and> (len2 = 0x54 \<or> len2 = 0x4e) then 3
           else if id1 = 0xa1 then 3
           else -1)
   }"

section \<open>Commands\<close>

text \<open>
  Every handler returns a C \<open>int\<close>: the size of the reply, or -1. \<open>rand4\<close> are the bytes of four calls
  of \<open>rand()\<close>.
\<close>

fun put_bytes :: "nat \<Rightarrow> byte list \<Rightarrow> es \<Rightarrow> es option" where
  "put_bytes i [] s = Some s"
| "put_bytes i (v # vs) s = do { s \<leftarrow> putb i v s; put_bytes (i + 1) vs s }"

definition registerEnipSession :: "byte list \<Rightarrow> enip_header \<Rightarrow> es \<Rightarrow> (int \<times> es) option" where
  "registerEnipSession rand4 h s = do {
     s \<leftarrow> put_bytes (hd_session_handle h) (take 4 rand4) s;
     Some (int ENIP_MIN_LENGTH, s\<lparr>enip_session := take 4 rand4\<rparr>)
   }"

definition sendRRData_Unknown :: "enip_header \<Rightarrow> enip_data_Unknown \<Rightarrow> es \<Rightarrow> (int \<times> es) option" where
  "sendRRData_Unknown h d s = do {
     currentHeaderLength \<leftarrow> get_HeaderLength h s;
     currentPcccSize \<leftarrow> get_Item2_DataLength d s;
     s \<leftarrow> putb (unk_timeout d) 0 s;
     s \<leftarrow> putb (unk_timeout d + 1) 4 s;
     r \<leftarrow> processPCCCMessage (unk_item2_data d) s;
     let newPcccSize = (word_of_nat (fst r) :: 16 word);
     let s = snd r;
     if uint newPcccSize = -1 then Some (-1, s)
     else do {
       s \<leftarrow> put16 (unk_item2_length d) newPcccSize s;
       let len = currentHeaderLength - (currentPcccSize - newPcccSize);
       s \<leftarrow> put16 (hd_length h) len s;
       let messageSize = len + 24;
       Some (uint messageSize, s)
     }
   }"

definition sendRRData_Unconnected :: "enip_header \<Rightarrow> enip_data_Unconnected \<Rightarrow> es \<Rightarrow> (int \<times> es) option" where
  "sendRRData_Unconnected h d s = do {
     s \<leftarrow> putb (unc_timeout d) 0 s;
     s \<leftarrow> putb (unc_timeout d + 1) 4 s;
     currentHeaderLength \<leftarrow> get_HeaderLength h s;
     currentItem2Size \<leftarrow> get_Item2_DataLength_Unconnected d s;
     r \<leftarrow> processPCCCMessage (unc_data d) s;
     let newPcccSize = (word_of_nat (fst r) :: 16 word);
     let s = snd r;
     if uint newPcccSize = -1 then Some (-1, s)
     else do {
       let newItem2Size = 11 + newPcccSize;
       s \<leftarrow> put16 (unc_item2_length d) newItem2Size s;
       let newHeaderLength = currentHeaderLength - (currentItem2Size - newItem2Size);
       s \<leftarrow> put16 (hd_length h) newHeaderLength s;
       s \<leftarrow> putb (unc_service d) 0xcb s;
       s \<leftarrow> putb (unc_request_pathSize d) 0 s;
       s \<leftarrow> putb (unc_request_path d) 0 s;
       s \<leftarrow> putb (unc_request_path d + 1) 0 s;
       s \<leftarrow> movb (unc_request_path d + 2) (unc_requestor_idLength d) (unat newPcccSize + 7) s;
       let messageSize = newHeaderLength + 24;
       Some (uint messageSize, s)
     }
   }"

definition sendRRData_Connected :: "enip_header \<Rightarrow> enip_data_Connected \<Rightarrow> es \<Rightarrow> (int \<times> es) option" where
  "sendRRData_Connected h d s = do {
     s \<leftarrow> putb (con_timeout d) 0 s;
     s \<leftarrow> putb (con_timeout d + 1) 4 s;
     s \<leftarrow> putb (con_item2_length d) 0x1e s;
     s \<leftarrow> putb (con_item2_length d + 1) 0 s;
     s \<leftarrow> putb (con_service d) 0xd4 s;
     s \<leftarrow> putb (con_request_pathSize d) 0 s;
     s \<leftarrow> putb (con_request_path d) 0 s;
     s \<leftarrow> putb (con_request_path d + 1) 0 s;
     s \<leftarrow> putb (con_request_path d + 2) 0x5a s;
     s \<leftarrow> putb (con_request_path d + 3) 0xf0 s;
     s \<leftarrow> putb (con_actual_timeout d) 0xb8 s;
     s \<leftarrow> putb (con_actual_timeout d + 1) 1 s;
     s \<leftarrow> putb (con_t2o_netConnectParam d) 0 s;
     s \<leftarrow> putb (con_t2o_netConnectParam d + 1) 0 s;
     s \<leftarrow> movb (con_o2t_netConnectParam d) (con_t2o_rpi d) 6 s;
     s \<leftarrow> movb (con_timeout_multiplier d) (con_o2t_rpi d) 10 s;
     s \<leftarrow> movb (con_o2t_netConnectID d) (con_t2o_netConnectID d) 22 s;
     s \<leftarrow> putb (hd_length h) 0x2e s;
     s \<leftarrow> putb (hd_length h + 1) 0 s;
     Some (70, s)
   }"

definition sendRRData ::
  "int \<Rightarrow> enip_header \<Rightarrow> enip_data_Unknown \<Rightarrow> enip_data_Unconnected \<Rightarrow> enip_data_Connected \<Rightarrow>
   es \<Rightarrow> (int \<times> es) option" where
  "sendRRData enipType h unk unc con s =
     (if enipType = 1 then sendRRData_Unknown h unk s
      else if enipType = 2 then sendRRData_Unconnected h unc s
      else if enipType = 3 then sendRRData_Connected h con s
      else Some (-1, s))"

definition sendUnitData :: "enip_header \<Rightarrow> enip_data_Connected_0x70 \<Rightarrow> es \<Rightarrow> (int \<times> es) option" where
  "sendUnitData h d s = do {
     s \<leftarrow> putb (c70_service d) 0xcb s;
     s \<leftarrow> putb (c70_request_pathSize d) 0 s;
     s \<leftarrow> putb (c70_request_path d) 0 s;
     s \<leftarrow> putb (c70_request_path d + 1) 0 s;
     let pcccData = c70_pcccData d;
     p4 \<leftarrow> getb (pcccData + 4) s; p5 \<leftarrow> getb (pcccData + 5) s; p7 \<leftarrow> getb (pcccData + 7) s;
     let masked_write_check = (if p4 = 0xab then ucast p5 else 0);
     let write_check = (if p4 = 0xaa then 2 else 0);
     let write_check_2 = (if p4 = 0xa2 \<and> p7 = 0x8a then -6 else 0);
     currentItem2Size \<leftarrow> get_Item2_DataLength_Connected_0x70 d s;
     r \<leftarrow> processPCCCMessage pcccData s;
     let newPcccSize = (word_of_nat (fst r) :: 16 word);
     let s = snd r;
     if uint newPcccSize = -1 then Some (-1, s)
     else do {
       let newItem2Size = newPcccSize + 13;
       let newHeaderSize = newPcccSize + newItem2Size + 14 + masked_write_check + write_check + write_check_2;
       s \<leftarrow> put16 (c70_item2_length d) newItem2Size s;
       s \<leftarrow> put16 (hd_length h) newHeaderSize s;
       s \<leftarrow> movb (c70_request_path d + 2) (c70_requestor_id d) (unat newPcccSize + 7) s;
       let messageSize = newHeaderSize + 24;
       Some (uint messageSize, s)
     }
   }"

section \<open>The dispatcher\<close>

text \<open>\<open>uint16_t size = f(...); return size;\<close>\<close>

definition as_uint16 :: "int \<times> es \<Rightarrow> int \<times> es" where
  "as_uint16 r = (uint (word_of_int (fst r) :: 16 word), snd r)"

definition unsupported_type_text :: string where
  "unsupported_type_text = ''ENIP: Received unsupported EtherNet/IP Type'' @ nl"

definition unknown_request_text :: "nat \<Rightarrow> es \<Rightarrow> string" where
  "unknown_request_text buffer_size s =
     ''Unknown EtherNet/IP request: '' @
     concat (map (\<lambda>b. show_hex2 b @ '' '') (take buffer_size (buf s))) @ nl"

definition processEnipMessage :: "byte list \<Rightarrow> nat \<Rightarrow> es \<Rightarrow> (int \<times> es) option" where
  "processEnipMessage rand4 buffer_size s = do {
     hdr \<leftarrow> parseEnipHeader buffer_size s;
     (case hdr of
        None \<Rightarrow> Some (-1, s)
      | Some (n, header) \<Rightarrow> do {
          cmd \<leftarrow> getb (hd_command header) s;
          if cmd = 0x65 then registerEnipSession rand4 header s
          else if cmd = 0x70 then map_option as_uint16 (sendUnitData header parseEnipDataConnected_0x70 s)
          else do {
            enipType \<leftarrow> getEnipType parseEnipUnknown header s;
            s \<leftarrow> (if enipType < 0
                 then log_line unsupported_type_text s else Some s);
            if cmd = 0x6f
            then map_option as_uint16
              (sendRRData enipType header parseEnipUnknown parseEnipUnconnected parseEnipConnected s)
            else do {
              s \<leftarrow> log_line (unknown_request_text buffer_size s) s;
              Some (-1, s)
            }
          }
        })
   }"

end
