(* ===== verification/Enip_Props.thy ===== *)
theory Enip_Props
  imports Enip Pccc_Props
begin

text \<open>
  The EtherNet/IP server: the length fields of its replies, the requests it processes without a
  fault, and the ways in which it miscomputes a size or overruns its log line.
\<close>

section \<open>Commands the PCCC server recognises\<close>

text \<open>The commands that are not answered with -1.\<close>

definition pccc_recognised :: "nat \<Rightarrow> 'a nst_scheme \<Rightarrow> bool" where
  "pccc_recognised b s =
     (let fn = buf s ! (b + 4); FileN = buf s ! (b + 6); FileT = buf s ! (b + 7) in
      buf s ! b = 0x0f \<and>
      (fn = 0xaa \<or> fn = 0xab \<or>
       fn = 0xa2 \<and> (FileN = 0 \<and> FileT = 0x8b \<or> FileN = 1 \<and> FileT = 0x8c \<or>
         FileN \<in> {7, 8} \<and> FileT \<in> {0x89, 0x8a})))"

lemma recognised_length:
  assumes "pccc_recognised b s" "processPCCCMessage b s = Some (n, t)" "b + 8 \<le> length (buf s)"
  shows "4 \<le> n \<and> n \<le> 259"
  using assms unsigned_less[of "buf s ! (b + 5)", where 'a = nat]
  by (auto simp: processPCCCMessage_def ParsePCCCData_def Command_Protocol_def pccc_recognised_def
      Let_def getb_in Protected_Logical_Read_Reply_def Protected_Logical_Write_Reply_def pccc_consts
      bind_eq_Some_conv split: if_splits)

text \<open>A command does not change when the buffer changes below it.\<close>

lemma pccc_safe_below:
  assumes "\<And>k. b \<le> k \<Longrightarrow> buf u ! k = buf s ! k" "img u = img s"
  shows "pccc_safe b u = pccc_safe b s" "pccc_recognised b u = pccc_recognised b s"
  using assms by (simp_all add: pccc_safe_def pccc_recognised_def)

section \<open>Frames\<close>

lemma frame_session [simp]: "frame s (t\<lparr>enip_session := x\<rparr>) = frame s (t :: es)"
  by (simp add: frame_def)

lemma frame_putb: "frame s t \<Longrightarrow> i < length (buf s) \<Longrightarrow> ok (putb i v t) (frame s)"
  by (simp add: ok_putb frame_def)

lemma frame_movb: "frame s t \<Longrightarrow> d + n \<le> length (buf s) \<Longrightarrow> c + n \<le> length (buf s) \<Longrightarrow> ok (movb d c n t) (frame s)"
  by (simp add: ok_movb frame_def)

lemma ok_get16: "i + 1 < length (buf s) \<Longrightarrow>
  get16 i s = Some (push_bit 8 (ucast (buf s ! (i + 1))) OR ucast (buf s ! i))"
  by (simp add: get16_def getb_in)

lemma ok_put16: "i + 1 < length (buf s) \<Longrightarrow>
  put16 i w s = Some (s\<lparr>buf := (buf s)[i := ucast (w AND 0xff), i + 1 := ucast (drop_bit 8 w)]\<rparr>)"
  by (simp add: put16_def putb_in)

lemma join_bytes:
  "push_bit 8 (ucast (ucast (drop_bit 8 w) :: byte)) OR ucast (ucast (w AND 0xff) :: byte) = (w :: 16 word)"
proof -
  have m: "(0xff :: 16 word) = mask 8" by (simp add: mask_eq_exp_minus_1)
  show ?thesis unfolding m by (rule bit_word_eqI) (auto simp: bit_simps)
qed

lemma join_bytes' [simp]:
  "push_bit 8 (ucast (ucast (drop_bit 8 w) :: byte)) OR ucast (ucast (w AND 255) :: byte) = (w :: 16 word)"
  using join_bytes[of w] by simp

section \<open>Replies\<close>

lemma pccc_step:
  assumes "b + 1024 \<le> length (buf s)" "\<not> bufferLock (img s)" "log_inv (lg s)" "pccc_safe b s"
    and "pccc_recognised b s"
  shows "ok (processPCCCMessage b s) (\<lambda>r. 4 \<le> fst r \<and> fst r \<le> 259 \<and> frame s (snd r))"
  by (rule ok_mono[OF processPCCCMessage_ok[OF assms(1-4)]])
    (use recognised_length[OF assms(5)] assms(1) in \<open>auto split: prod.splits\<close>)

lemma not_minus_one: "uint (w :: 16 word) \<noteq> - 1"
  using uint_nonnegative[of w] by linarith

lemma get16_other: "i + 1 < j \<or> j + 1 < i \<Longrightarrow> get16 j (s\<lparr>buf := (buf s)[i := v, i + 1 := w]\<rparr>) = get16 j s"
  by (auto simp: get16_def getb_def rd_def)

lemma okr_put16: "ok (put16 i w s) P \<longleftrightarrow> i + 1 < length (buf s) \<and>
  P (s\<lparr>buf := (buf s)[i := ucast (w AND 0xff), i + 1 := ucast (drop_bit 8 w)]\<rparr>)"
  by (auto simp: put16_def ok_putb)

lemma okr_get16: "ok (get16 i s) P \<longleftrightarrow> i + 1 < length (buf s) \<and>
  P (push_bit 8 (ucast (buf s ! (i + 1))) OR ucast (buf s ! i))"
  by (auto simp: get16_def ok_getb)

text \<open>
  A PCCC command carried without connection data (item 0x81), whose length fields agree (header
  length 17 more than the item length), is answered by a message whose length fields agree again: the
  item length is that of the PCCC reply, the header length 17 more, and the size sent 24 more.
\<close>

theorem sendRRData_Unknown_reply:
  assumes "10000 \<le> length (buf s)" and "\<not> bufferLock (img s)" and "log_inv (lg s)"
    and "pccc_safe 41 s" and "pccc_recognised 41 s"
    and "get16 2 s = Some (17 + m)" and "get16 39 s = Some m"
  shows "ok (sendRRData_Unknown header_at parseEnipUnknown s) (\<lambda>(n, t). \<exists>k. 4 \<le> k \<and> k \<le> 259 \<and>
    n = 24 + 17 + int k \<and> get16 2 t = Some (word_of_nat (17 + k)) \<and> get16 39 t = Some (word_of_nat k) \<and>
    frame s t)"
proof -
  let ?s = "s\<lparr>buf := (buf s)[28 := 0, 29 := 4]\<rparr>"
  have r: "ok (processPCCCMessage 41 ?s) (\<lambda>r. 4 \<le> fst r \<and> fst r \<le> 259 \<and> frame ?s (snd r))"
    using assms(1-5) by (intro pccc_step) (simp_all add: pccc_safe_below[of _ ?s s])
  have fin: "ok (put16 39 (word_of_nat k) u) (\<lambda>t. ok (put16 2 (17 + word_of_nat k) t) (\<lambda>t.
      \<exists>j \<ge> 4. j \<le> 259 \<and> uint (41 + word_of_nat k :: 16 word) = 41 + int j \<and>
      get16 2 t = Some (17 + word_of_nat j) \<and> get16 39 t = Some (word_of_nat j) \<and> frame s t))"
    if "4 \<le> k \<and> k \<le> 259 \<and> frame ?s u" for k u
  proof -
    have l: "uint (41 + word_of_nat k :: 16 word) = 41 + int k"
      using that by (simp add: uint_word_ariths unsigned_of_nat take_bit_eq_mod)
    have f: "frame s u" "10000 \<le> length (buf u)" using that assms(1) by (simp_all add: frame_def)
    then show ?thesis
      using that by (auto simp: ok_put16 ok_get16 frame_def l)
  qed
  show ?thesis
    unfolding sendRRData_Unknown_def get_HeaderLength_def get_Item2_DataLength_def Let_def
      header_at_def parseEnipUnknown_def
    using assms(1,6,7)
    by (simp add: ok_putb not_minus_one) (rule ok_weaken[OF r], rule fin)
qed

text \<open>
  The same for an unconnected request (item 0xb2, service 0x4b): the reply drops the two bytes of
  request path, so its item length is 11 more than the PCCC reply, its header length 27 more, the size
  sent 51 more, and the service byte is marked as a reply.
\<close>

theorem sendRRData_Unconnected_reply:
  assumes "10000 \<le> length (buf s)" and "\<not> bufferLock (img s)" and "log_inv (lg s)"
    and "pccc_safe 53 s" and "pccc_recognised 53 s"
    and "get16 2 s = Some (16 + m)" and "get16 38 s = Some m"
  shows "ok (sendRRData_Unconnected header_at parseEnipUnconnected s) (\<lambda>(n, t). \<exists>k. 4 \<le> k \<and> k \<le> 259 \<and>
    n = 24 + 27 + int k \<and> get16 2 t = Some (word_of_nat (27 + k)) \<and>
    get16 38 t = Some (word_of_nat (11 + k)) \<and> buf t ! 40 = 0xcb \<and> frame s t)"
proof -
  let ?s = "s\<lparr>buf := (buf s)[28 := 0, 29 := 4]\<rparr>"
  have r: "ok (processPCCCMessage 53 ?s) (\<lambda>r. 4 \<le> fst r \<and> fst r \<le> 259 \<and> frame ?s (snd r))"
    using assms(1-5) by (intro pccc_step) (simp_all add: pccc_safe_below[of _ ?s s])
  have g: "get16 2 ?s = Some (16 + m)" "get16 38 ?s = Some m"
    using assms(1,6,7) by (simp_all add: ok_get16)
  have fin: "ok (put16 38 (11 + word_of_nat k) u) (\<lambda>u. ok (put16 2 (27 + word_of_nat k) u) (\<lambda>u.
      40 < length (buf u) \<and> 41 < length (buf u) \<and> 42 < length (buf u) \<and> 43 < length (buf u) \<and>
      ok (movb 44 46 (unat (word_of_nat k :: 16 word) + 7)
        (u\<lparr>buf := (buf u)[40 := 0xcb, 41 := 0, 42 := 0, 43 := 0]\<rparr>)) (\<lambda>t.
      \<exists>j \<ge> 4. j \<le> 259 \<and> uint (51 + word_of_nat k :: 16 word) = 51 + int j \<and>
      get16 2 t = Some (27 + word_of_nat j) \<and> get16 38 t = Some (11 + word_of_nat j) \<and>
      buf t ! 40 = 0xcb \<and> frame s t)))"
    if "4 \<le> k \<and> k \<le> 259 \<and> frame ?s u" for k u
  proof -
    have l: "uint (51 + word_of_nat k :: 16 word) = 51 + int k" "unat (word_of_nat k :: 16 word) = k"
      using that by (simp_all add: uint_word_ariths unsigned_of_nat take_bit_eq_mod)
    have f: "frame s u" "10000 \<le> length (buf u)" using that assms(1) by (simp_all add: frame_def)
    then show ?thesis
      unfolding l using that
      by (auto simp: okr_put16 ok_movb ok_get16 frame_def nth_append)
  qed
  show ?thesis
    unfolding sendRRData_Unconnected_def get_HeaderLength_def get_Item2_DataLength_Unconnected_def
      Let_def header_at_def parseEnipUnconnected_def
    using assms(1) g
    by (simp add: ok_putb not_minus_one) (rule ok_weaken[OF r], rule fin)
qed

lemma read_length:
  assumes "pccc_recognised b s" "processPCCCMessage b s = Some (n, t)" "b + 8 \<le> length (buf s)"
    and "buf s ! (b + 4) = 0xa2"
  shows "n = 4 + unat (buf s ! (b + 5))"
  using assms
  by (auto simp: processPCCCMessage_def ParsePCCCData_def Command_Protocol_def pccc_recognised_def
      Let_def getb_in Protected_Logical_Read_Reply_def pccc_consts bind_eq_Some_conv split: if_splits)

lemma unit_data_pccc:
  assumes "10000 \<le> length (buf s)" "\<not> bufferLock (img s)" "log_inv (lg s)"
    and "pccc_safe 59 s" "pccc_recognised 59 s"
    and "u = s\<lparr>buf := (buf s)[46 := 0xcb, 47 := 0, 48 := 0, 49 := 0]\<rparr>"
  shows "ok (processPCCCMessage 59 u) (\<lambda>r. 4 \<le> fst r \<and> fst r \<le> 259 \<and> frame u (snd r) \<and>
    (buf s ! 63 = 0xa2 \<longrightarrow> fst r = 4 + unat (buf s ! 64)))"
proof -
  have u: "pccc_safe 59 u" "pccc_recognised 59 u"
    using assms(4,5) pccc_safe_below[of 59 u s] by (simp_all add: assms(6))
  have b: "59 + 1024 \<le> length (buf u)" "\<not> bufferLock (img u)" "log_inv (lg u)"
    "buf u ! 63 = buf s ! 63" "buf u ! 64 = buf s ! 64"
    using assms(1-3) by (simp_all add: assms(6))
  show ?thesis
  proof (rule ok_mono[OF pccc_step[OF b(1-3) u]])
    fix r assume r: "processPCCCMessage 59 u = Some r"
      "4 \<le> fst r \<and> fst r \<le> 259 \<and> frame u (snd r)"
    have "buf s ! 63 = 0xa2 \<longrightarrow> fst r = 4 + unat (buf s ! 64)"
      using read_length[OF u(2), of "fst r" "snd r"] r(1) b by simp
    with r(2) show "4 \<le> fst r \<and> fst r \<le> 259 \<and> frame u (snd r) \<and>
      (buf s ! 63 = 0xa2 \<longrightarrow> fst r = 4 + unat (buf s ! 64))" by blast
  qed
qed

text \<open>
  A connected read of \<open>d\<close> bytes (command 0x70, not floating-point) is answered with an item of
  \<open>17 + d\<close> bytes, which ends 61 + d bytes into the message; the size sent and the header length are
  computed as if it were \<open>59 + 2 * d\<close>, which is right for two bytes of data only.
\<close>

theorem sendUnitData_read_size:
  assumes "10000 \<le> length (buf s)" and "\<not> bufferLock (img s)" and "log_inv (lg s)"
    and "pccc_safe 59 s" and "pccc_recognised 59 s" and "buf s ! 63 = 0xa2" and "buf s ! 66 \<noteq> 0x8a"
    and "d = unat (buf s ! 64)"
  shows "ok (sendUnitData header_at parseEnipDataConnected_0x70 s) (\<lambda>(n, t). n = 59 + 2 * int d \<and>
    get16 2 t = Some (word_of_nat (35 + 2 * d)) \<and> get16 42 t = Some (word_of_nat (17 + d)) \<and> frame s t)"
proof -
  let ?s = "s\<lparr>buf := (buf s)[46 := 0xcb, 47 := 0, 48 := 0, 49 := 0]\<rparr>"
  note r = unit_data_pccc[OF assms(1-5) refl]
  have d: "d < 256" using unsigned_less[of "buf s ! 64", where 'a = nat] by (simp add: assms(8))
  have fin: "ok (put16 42 (word_of_nat k + 13) u) (\<lambda>u. ok (put16 2 (27 + 2 * word_of_nat k) u)
     (\<lambda>u. ok (movb 50 52 (unat (word_of_nat k :: 16 word) + 7) u) (\<lambda>t.
      uint (51 + 2 * word_of_nat k :: 16 word) = 59 + 2 * int d \<and>
      get16 2 t = Some (35 + 2 * word_of_nat d) \<and> get16 42 t = Some (17 + word_of_nat d) \<and> frame s t)))"
    if "4 \<le> k \<and> k \<le> 259 \<and> frame ?s u \<and> (buf s ! 63 = 0xa2 \<longrightarrow> k = 4 + unat (buf s ! 64))" for k u
  proof -
    have k: "k = 4 + d" using that assms(6,8) by simp
    have l: "uint (51 + 2 * word_of_nat k :: 16 word) = 59 + 2 * int d"
      using d by (simp add: k uint_word_ariths unsigned_of_nat take_bit_eq_mod)
    have l': "unat (word_of_nat k :: 16 word) = k"
      using that by (simp add: unsigned_of_nat take_bit_eq_mod)
    have f: "frame s u" "10000 \<le> length (buf u)" using that assms(1) by (simp_all add: frame_def)
    then show ?thesis
      unfolding l l' using that
      by (auto simp: okr_put16 ok_movb ok_get16 frame_def nth_append k)
  qed
  show ?thesis
    unfolding sendUnitData_def get_Item2_DataLength_Connected_0x70_def
      Let_def header_at_def parseEnipDataConnected_0x70_def
    using assms(1,6,7)
    by (simp add: ok_getb ok_putb okr_get16 not_minus_one) (rule ok_weaken[OF r], rule fin)
qed

section \<open>Safety of the dispatcher\<close>

text \<open>Straight-line code keeps the frame as long as it stays inside the buffer.\<close>

lemma chain_putb:
  "frame s t \<Longrightarrow> i < length (buf s) \<Longrightarrow> (\<And>u. frame s u \<Longrightarrow> ok (f u) P) \<Longrightarrow> ok (putb i v t) (\<lambda>u. ok (f u) P)"
  by (simp add: ok_putb frame_def)

lemma chain_movb:
  "frame s t \<Longrightarrow> d + n \<le> length (buf s) \<Longrightarrow> c + n \<le> length (buf s) \<Longrightarrow>
    (\<And>u. frame s u \<Longrightarrow> ok (f u) P) \<Longrightarrow> ok (movb d c n t) (\<lambda>u. ok (f u) P)"
  by (simp add: ok_movb frame_def)

lemma chain_put16:
  "frame s t \<Longrightarrow> i + 1 < length (buf s) \<Longrightarrow> (\<And>u. frame s u \<Longrightarrow> ok (f u) P) \<Longrightarrow> ok (put16 i w t) (\<lambda>u. ok (f u) P)"
  by (simp add: okr_put16 frame_def)

lemma chain_get16:
  "frame s t \<Longrightarrow> i + 1 < length (buf s) \<Longrightarrow> (\<And>w. ok (f w) P) \<Longrightarrow> ok (get16 i t) (\<lambda>w. ok (f w) P)"
  by (simp add: okr_get16 frame_def)

lemma frame_put16: "frame s t \<Longrightarrow> i + 1 < length (buf s) \<Longrightarrow> ok (put16 i w t) (frame s)"
  by (simp add: okr_put16 frame_def)

lemmas chain = chain_putb chain_movb chain_put16 chain_get16 frame_putb frame_movb frame_put16

text \<open>What a handler guarantees: the frame, and a C \<open>int\<close> that is -1 or fits 16 bits.\<close>

definition enip_handled :: "es \<Rightarrow> int \<times> es \<Rightarrow> bool" where
  "enip_handled s r \<longleftrightarrow> - 1 \<le> fst r \<and> fst r < 65536 \<and> frame s (snd r)"

lemma enip_handled_word [simp]: "enip_handled s (uint (w :: 16 word), t) = frame s t"
proof -
  have "- 1 \<le> uint w" using order_trans[of "- 1" 0 "uint w"] by simp
  then show ?thesis using unsigned_less[of w, where 'a = int] by (simp add: enip_handled_def)
qed

lemma safe_Unknown:
  assumes "10000 \<le> length (buf s)" "\<not> bufferLock (img s)" "log_inv (lg s)" "pccc_safe 41 s"
    "pccc_recognised 41 s"
  shows "ok (sendRRData_Unknown header_at parseEnipUnknown s) (enip_handled s)"
proof -
  let ?s = "s\<lparr>buf := (buf s)[28 := 0, 29 := 4]\<rparr>"
  have r: "ok (processPCCCMessage 41 ?s) (\<lambda>r. 4 \<le> fst r \<and> fst r \<le> 259 \<and> frame ?s (snd r))"
    using assms(1-5) by (intro pccc_step) (simp_all add: pccc_safe_below[of _ ?s s])
  have f: "frame s u" if "frame ?s u" for u using that by (simp add: frame_def)
  show ?thesis
    unfolding sendRRData_Unknown_def get_HeaderLength_def get_Item2_DataLength_def
      Let_def header_at_def parseEnipUnknown_def
    using assms(1)
    by (auto simp: ok_putb okr_get16 not_minus_one intro!: ok_weaken[OF r] chain dest!: f)
qed

lemma safe_Connected:
  assumes "10000 \<le> length (buf s)"
  shows "ok (sendRRData_Connected header_at parseEnipConnected s) (enip_handled s)"
  unfolding sendRRData_Connected_def header_at_def parseEnipConnected_def
  using assms by (auto intro!: chain[of s] simp: enip_handled_def)

lemma byte_size_bound: "k \<le> 259 \<Longrightarrow> unat (word_of_nat k :: 16 word) \<le> 259"
  by (simp add: unsigned_of_nat take_bit_eq_mod)

lemma safe_Unconnected:
  assumes "10000 \<le> length (buf s)" "\<not> bufferLock (img s)" "log_inv (lg s)" "pccc_safe 53 s"
    "pccc_recognised 53 s"
  shows "ok (sendRRData_Unconnected header_at parseEnipUnconnected s) (enip_handled s)"
proof -
  let ?s = "s\<lparr>buf := (buf s)[28 := 0, 29 := 4]\<rparr>"
  have r: "ok (processPCCCMessage 53 ?s) (\<lambda>r. 4 \<le> fst r \<and> fst r \<le> 259 \<and> frame ?s (snd r))"
    using assms(1-5) by (intro pccc_step) (simp_all add: pccc_safe_below[of _ ?s s])
  have f: "frame s u" if "frame ?s u" for u using that by (simp add: frame_def)
  have b: "unat (word_of_nat k :: 16 word) + 7 < 9000" if "k \<le> 259" for k
    using byte_size_bound[OF that] by simp
  have fin: "ok (put16 38 w u) (\<lambda>u. ok (put16 2 w' u) (\<lambda>u.
      40 < length (buf u) \<and> 41 < length (buf u) \<and> 42 < length (buf u) \<and> 43 < length (buf u) \<and>
      ok (movb 44 46 (unat (word_of_nat k :: 16 word) + 7)
        (u\<lparr>buf := (buf u)[40 := 0xcb, 41 := 0, 42 := 0, 43 := 0]\<rparr>)) (frame s)))"
    if "4 \<le> k \<and> k \<le> 259 \<and> frame ?s u" for k u w w'
    using that assms(1) b[of k] by (simp add: okr_put16 ok_movb frame_def)
  show ?thesis
    unfolding sendRRData_Unconnected_def get_HeaderLength_def get_Item2_DataLength_Unconnected_def
      Let_def header_at_def parseEnipUnconnected_def
    using assms(1)
    by (simp add: ok_putb okr_get16 not_minus_one) (rule ok_weaken[OF r], rule fin)
qed

lemma safe_UnitData:
  assumes "10000 \<le> length (buf s)" "\<not> bufferLock (img s)" "log_inv (lg s)" "pccc_safe 59 s"
    "pccc_recognised 59 s"
  shows "ok (sendUnitData header_at parseEnipDataConnected_0x70 s) (enip_handled s)"
proof -
  let ?s = "s\<lparr>buf := (buf s)[46 := 0xcb, 47 := 0, 48 := 0, 49 := 0]\<rparr>"
  note r = unit_data_pccc[OF assms refl]
  have f: "frame s u" if "frame ?s u" for u using that by (simp add: frame_def)
  have b: "unat (word_of_nat k :: 16 word) + 7 < 9000" if "k \<le> 259" for k
    using byte_size_bound[OF that] by simp
  have fin: "ok (put16 42 w u) (\<lambda>u. ok (put16 2 w' u)
     (\<lambda>u. ok (movb 50 52 (unat (word_of_nat k :: 16 word) + 7) u) (frame s)))"
    if "4 \<le> k \<and> k \<le> 259 \<and> frame ?s u \<and> Q" for k u w w' Q
    using that assms(1) by (auto intro!: chain dest!: f b)
  show ?thesis
    unfolding sendUnitData_def get_Item2_DataLength_Connected_0x70_def
      Let_def header_at_def parseEnipDataConnected_0x70_def
    using assms(1)
    by (simp add: ok_getb ok_putb okr_get16 not_minus_one)
      (intro conjI impI; (rule ok_weaken[OF r], rule fin))
qed

lemma safe_register:
  assumes "10000 \<le> length (buf s)"
  shows "ok (registerEnipSession r header_at s) (enip_handled s)"
proof -
  have p: "ok (put_bytes i vs t) (frame s)" if "frame s t" "i + length vs \<le> length (buf s)" for i vs t
    using that by (induction vs arbitrary: i t) (auto intro!: chain)
  show ?thesis
    unfolding registerEnipSession_def header_at_def ENIP_MIN_LENGTH_def
    by (simp add: enip_handled_def) (rule ok_weaken[OF p], use assms in auto)
qed

text \<open>Requests without one of the server's faults.\<close>

definition enip_safe :: "nat \<Rightarrow> es \<Rightarrow> bool" where
  "enip_safe n s =
     (let cmd = buf s ! 0 in
      if cmd = 0x65 then True
      else if cmd = 0x70 then pccc_safe 59 s \<and> pccc_recognised 59 s
      else if cmd = 0x6f then
        (buf s ! 32 = 0x81 \<longrightarrow> pccc_safe 41 s \<and> pccc_recognised 41 s) \<and>
        (buf s ! 32 \<noteq> 0x81 \<and> buf s ! 36 = 0xb2 \<and> buf s ! 40 = 0x4b \<longrightarrow>
          pccc_safe 53 s \<and> pccc_recognised 53 s)
      else n \<le> 323)"

lemma handled_as_uint16: "ok m (enip_handled s) \<Longrightarrow> ok (map_option as_uint16 m) (enip_handled s)"
  by (auto simp: ok_iff as_uint16_def) (auto simp: enip_handled_def)

lemma unknown_request_length:
  "n \<le> length (buf s) \<Longrightarrow> length (unknown_request_text n s) = 30 + 3 * n"
  by (simp add: unknown_request_text_def length_concat o_def show_hex2_def nl_def sum_list_triv)

lemma ok_parseEnipHeader:
  "10000 \<le> length (buf s) \<Longrightarrow> ok (parseEnipHeader n s) (\<lambda>h. h = None \<or> (\<exists>k. h = Some (k, header_at)))"
  by (simp add: parseEnipHeader_def okr_get16 header_at_def)

lemma ok_getEnipType:
  assumes "10000 \<le> length (buf s)"
  shows "ok (getEnipType parseEnipUnknown header_at s) (\<lambda>k. k \<in> {-1, 0, 1, 2, 3} \<and>
    (k = 1 \<longrightarrow> buf s ! 32 = 0x81) \<and>
    (k = 2 \<longrightarrow> buf s ! 32 \<noteq> 0x81 \<and> buf s ! 36 = 0xb2 \<and> buf s ! 40 = 0x4b))"
  using assms by (auto simp: getEnipType_def header_at_def parseEnipUnknown_def ok_getb)

lemma safe_sendRRData:
  assumes "10000 \<le> length (buf s)" "\<not> bufferLock (img s)" "log_inv (lg s)"
    and "k = 1 \<Longrightarrow> pccc_safe 41 s \<and> pccc_recognised 41 s"
    and "k = 2 \<Longrightarrow> pccc_safe 53 s \<and> pccc_recognised 53 s"
  shows "ok (sendRRData k header_at parseEnipUnknown parseEnipUnconnected parseEnipConnected s) (enip_handled s)"
proof -
  consider "k = 1" | "k = 2" | "k = 3" | "k \<notin> {1, 2, 3}" by blast
  then show ?thesis
  proof cases
    case 1
    with safe_Unknown[OF assms(1-3)] assms(4) show ?thesis by (simp add: sendRRData_def)
  next
    case 2
    with safe_Unconnected[OF assms(1-3)] assms(5) show ?thesis by (simp add: sendRRData_def)
  next
    case 3
    with safe_Connected[OF assms(1)] show ?thesis by (simp add: sendRRData_def)
  next
    case 4
    then show ?thesis by (simp add: sendRRData_def enip_handled_def)
  qed
qed

lemma handled_from: "frame s u \<Longrightarrow> enip_handled u r \<Longrightarrow> enip_handled s r"
  by (auto simp: enip_handled_def intro: frame_trans)

text \<open>What the log call keeps, and what \<open>getEnipType\<close> has seen of the buffer.\<close>

definition only_logged :: "es \<Rightarrow> es \<Rightarrow> bool" where
  "only_logged s u \<longleftrightarrow> frame s u \<and> log_inv (lg u) \<and> buf u = buf s \<and> img u = img s"

definition type_seen :: "es \<Rightarrow> int \<Rightarrow> bool" where
  "type_seen s k \<longleftrightarrow> k \<in> {-1, 0, 1, 2, 3} \<and> (k = 1 \<longrightarrow> buf s ! 32 = 0x81) \<and>
     (k = 2 \<longrightarrow> buf s ! 32 \<noteq> 0x81 \<and> buf s ! 36 = 0xb2 \<and> buf s ! 40 = 0x4b)"

lemma safe_rr_message:
  assumes "10000 \<le> length (buf s)" "\<not> bufferLock (img s)" "enip_safe n s"
    and "buf s ! 0 = 0x6f" "only_logged s u" "type_seen s k"
  shows "ok (map_option as_uint16 (sendRRData k header_at parseEnipUnknown parseEnipUnconnected
    parseEnipConnected u)) (enip_handled s)"
proof -
  have u: "frame s u" "log_inv (lg u)" "buf u = buf s" "img u = img s"
    using assms(5) by (simp_all add: only_logged_def)
  then have "pccc_safe b u = pccc_safe b s" "pccc_recognised b u = pccc_recognised b s" for b
    by (intro pccc_safe_below; simp)+
  then have "ok (map_option as_uint16 (sendRRData k header_at parseEnipUnknown parseEnipUnconnected
      parseEnipConnected u)) (enip_handled u)"
    using assms(1-4,6) u
    by (intro handled_as_uint16 safe_sendRRData) (auto simp: enip_safe_def type_seen_def Let_def)
  with u(1) show ?thesis by (auto elim: ok_weaken intro: handled_from)
qed

lemma safe_unknown_message:
  assumes "10000 \<le> length (buf s)" "n \<le> 323" "only_logged s u"
  shows "ok (log_line (unknown_request_text n u) u) (\<lambda>u. enip_handled s (- 1, u))"
proof -
  have "length (unknown_request_text n u) < 1000"
    using unknown_request_length[of n u] assms by (simp add: only_logged_def)
  with assms(3) show ?thesis
    by (intro ok_weaken[OF ok_log_line]) (auto simp: only_logged_def enip_handled_def intro: frame_trans)
qed

lemma safe_typed_message:
  assumes "10000 \<le> length (buf s)" "\<not> bufferLock (img s)" "enip_safe n s"
    and "buf s ! 0 \<noteq> 0x65" "buf s ! 0 \<noteq> 0x70" "only_logged s u" "type_seen s k"
  shows "ok (if buf s ! 0 = 0x6f then map_option as_uint16 (sendRRData k header_at parseEnipUnknown
        parseEnipUnconnected parseEnipConnected u)
      else Option.bind (log_line (unknown_request_text n u) u) (\<lambda>u. Some (- 1, u))) (enip_handled s)"
proof (cases "buf s ! 0 = 0x6f")
  case True
  then show ?thesis using safe_rr_message[OF assms(1-3) True assms(6,7)] by simp
next
  case False
  with safe_unknown_message[OF assms(1) _ assms(6)] assms(3-5) show ?thesis
    by (simp add: enip_safe_def Let_def)
qed

lemma safe_other_message:
  assumes "10000 \<le> length (buf s)" "\<not> bufferLock (img s)" "log_inv (lg s)" "enip_safe n s"
    and "buf s ! 0 \<noteq> 0x65" "buf s ! 0 \<noteq> 0x70"
  shows "ok (getEnipType parseEnipUnknown header_at s) (\<lambda>k.
      ok (if k < 0 then log_line unsupported_type_text s else Some s)
        (\<lambda>u. ok (if buf s ! 0 = 0x6f then map_option as_uint16 (sendRRData k header_at parseEnipUnknown
        parseEnipUnconnected parseEnipConnected u)
      else Option.bind (log_line (unknown_request_text n u) u) (\<lambda>u. Some (- 1, u))) (enip_handled s)))"
proof (rule ok_weaken[OF ok_getEnipType[OF assms(1), folded type_seen_def]])
  fix k
  assume k: "type_seen s k"
  have "ok (log_line unsupported_type_text s) (only_logged s)"
    unfolding only_logged_def using assms(3)
    by (intro ok_log_line) (simp_all add: nl_def unsupported_type_text_def)
  then have "ok (if k < 0 then log_line unsupported_type_text s else Some s) (only_logged s)"
    using assms(3) by (simp add: only_logged_def)
  then show "ok (if k < 0 then log_line unsupported_type_text s else Some s)
      (\<lambda>u. ok (if buf s ! 0 = 0x6f then map_option as_uint16 (sendRRData k header_at parseEnipUnknown
        parseEnipUnconnected parseEnipConnected u)
      else Option.bind (log_line (unknown_request_text n u) u) (\<lambda>u. Some (- 1, u))) (enip_handled s))"
    by (rule ok_weaken) (rule safe_typed_message[OF assms(1,2,4-6) _ k])
qed

lemma safe_parsed_message:
  assumes "10000 \<le> length (buf s)" "\<not> bufferLock (img s)" "log_inv (lg s)" "enip_safe n s"
    and "parseEnipHeader n s = Some (Some (k, header_at))"
  shows "ok (processEnipMessage r n s) (enip_handled s)"
proof -
  have cmd: "getb 0 s = Some (buf s ! 0)" by (rule getb_in) (use assms(1) in linarith)
  have hc: "hd_command header_at = 0" by (simp add: header_at_def)
  have "ok (map_option as_uint16 (sendUnitData header_at parseEnipDataConnected_0x70 s)) (enip_handled s)"
    if "buf s ! 0 = 0x70"
    using assms(1-4) that by (intro handled_as_uint16 safe_UnitData) (auto simp: enip_safe_def Let_def)
  then show ?thesis
    using safe_register[OF assms(1)] safe_other_message[OF assms(1-4)] cmd assms(5)
    by (simp add: processEnipMessage_def hc)
qed

text \<open>
  C39. On a buffer of 10000 bytes, with the mutex free, every message that \<open>enip_safe\<close> admits (the PCCC
  command it carries is recognised and free of the PCCC faults: the bytes 10 and 11 of a coil read or write are not both
  zero, a register write is for one word, a floating-point read finds every 32-bit variable mapped; a message with an
  unknown command has at most 323 bytes) is processed without a fault: the mutex is free again, the tables and the buffer size
  are unchanged, the log is within its bounds, and the result is -1 or a 16-bit size.
\<close>

theorem processEnipMessage_safe:
  assumes "10000 \<le> length (buf s)" and "\<not> bufferLock (img s)" and "log_inv (lg s)"
    and "n \<le> 10000" and "enip_safe n s"
  shows "ok (processEnipMessage r n s) (\<lambda>(k, t). - 1 \<le> k \<and> k < 65536 \<and> frame s t)"
proof -
  from ok_parseEnipHeader[OF assms(1), of n]
  obtain h where h: "parseEnipHeader n s = Some h" "h = None \<or> (\<exists>k. h = Some (k, header_at))"
    by (auto simp: ok_iff)
  from h(2) have "ok (processEnipMessage r n s) (enip_handled s)"
  proof (elim disjE exE)
    assume "h = None"
    with h(1) show ?thesis by (simp add: processEnipMessage_def enip_handled_def)
  next
    fix k
    assume "h = Some (k, header_at)"
    with h(1) show ?thesis using safe_parsed_message[OF assms(1-3,5)] by simp
  qed
  then show ?thesis
    by (rule ok_weaken) (auto simp: enip_handled_def)
qed

text \<open>A message whose header announces no more data than was received.\<close>

definition enip_complete :: "nat \<Rightarrow> es \<Rightarrow> bool" where
  "enip_complete n s \<longleftrightarrow> 28 \<le> n \<and>
     unat (push_bit 8 (ucast (buf s ! 3)) OR ucast (buf s ! 2) :: 16 word) \<le> n - 24"

lemma parse_complete:
  assumes "10000 \<le> length (buf s)" "enip_complete n s"
  shows "\<exists>k. parseEnipHeader n s = Some (Some (k, header_at))"
  using assms
  by (simp add: parseEnipHeader_def ENIP_MIN_LENGTH_def enip_complete_def ok_get16 header_at_def)

text \<open>The -1 of an unsupported item passes through a \<open>uint16_t\<close>.\<close>

lemma unsupported_size:
  assumes "10000 \<le> length (buf s)" and "log_inv (lg s)" and "enip_complete n s"
    and "buf s ! 0 = 0x6f" and "buf s ! 32 \<noteq> 0x81" and "buf s ! 32 \<noteq> 0xa1" and "buf s ! 36 \<noteq> 0xb2"
  shows "ok (processEnipMessage r n s) (\<lambda>(k, t). k = 65535 \<and> frame s t)"
proof -
  obtain k where p: "parseEnipHeader n s = Some (Some (k, header_at))"
    using parse_complete[OF assms(1,3)] by blast
  have g: "getb 0 s = Some (0x6f)" using assms(1,4) by (subst getb_in) auto
  have t: "getEnipType parseEnipUnknown header_at s = Some (-1)"
    using assms by (simp add: getEnipType_def header_at_def parseEnipUnknown_def getb_in g)
  have l: "ok (log_line unsupported_type_text s) (\<lambda>t. frame s t)"
    by (rule ok_weaken[OF ok_log_line]) (simp_all add: assms(2) unsupported_type_text_def nl_def)
  have m: "uint (- 1 :: 16 word) = 65535"
    by (simp add: unsigned_minus_1_eq_mask mask_eq_exp_minus_1)
  show ?thesis
    using l by (simp add: processEnipMessage_def p t g m sendRRData_def as_uint16_def
        header_at_def[THEN arg_cong[where f = hd_command]])
qed

text \<open>
  A request with an unknown command that is 324 bytes or longer overruns the 1000-byte array in
  which the server formats it for the log.
\<close>

theorem processEnipMessage_unknown_overflow:
  assumes "10000 \<le> length (buf s)" and "n \<le> 10000" and "enip_complete n s" and "324 \<le> n"
    and "buf s ! 0 \<notin> {0x65, 0x6f, 0x70}"
  shows "processEnipMessage r n s = None"
proof -
  obtain k where p: "parseEnipHeader n s = Some (Some (k, header_at))"
    using parse_complete[OF assms(1,3)] by blast
  have g: "getb 0 s = Some (buf s ! 0)" by (rule getb_in) (use assms(1) in linarith)
  have hc: "hd_command header_at = 0" by (simp add: header_at_def)
  have l: "log_line (unknown_request_text n u) u = None" if "buf u = buf s" for u
    using unknown_request_length[of n u] that assms(1,2,4) by (simp add: log_line_def)
  have b: "buf u = buf s" if "log_line m s = Some u" for m u
    using that by (auto simp: log_line_def on_log_def split: if_splits)
  show ?thesis
    using assms(5) l b
    by (auto simp: processEnipMessage_def p g hc split: Option.bind_splits)
qed

section \<open>Concrete messages\<close>

definition enip_request :: "byte list \<Rightarrow> plc \<Rightarrow> es" where
  "enip_request bs p = \<lparr>buf = received bs, img = p, lg = \<lparr>log_text = [], log_counter = 0\<rparr>,
     enip_session = []\<rparr>"

lemma enip_request_simps [simp]:
  "buf (enip_request bs p) = received bs" "img (enip_request bs p) = p"
  "log_inv (lg (enip_request bs p))"
  by (simp_all add: enip_request_def log_inv_def)

text \<open>The 24 bytes of a header with a command and a length, and the fields up to an item.\<close>

definition enip_hdr :: "byte \<Rightarrow> byte \<Rightarrow> byte list" where
  "enip_hdr cmd n = [cmd, 0, n, 0, 0, 0, 0, 0, 0, 0, 0, 0, 0, 0, 0, 0, 0, 0, 0, 0, 0, 0, 0, 0,
     0, 0, 0, 0, 0, 0, 2, 0]"

lemma sendRRData_Unknown_reply_witness:
  "ok (sendRRData_Unknown header_at parseEnipUnknown (enip_request (enip_hdr 0x6f 29 @
      [0x81, 0, 1, 0, 5, 0x91, 0, 12, 0, 0x0f, 0, 1, 2, 0xa2, 2, 0, 0x8b, 0, 0, 1, 0]) null_image))
     (\<lambda>(n, t). get16 39 t \<noteq> None)"
  by (rule ok_weaken[OF sendRRData_Unknown_reply[where m = 12]])
    (auto simp: word_pccc_eq enip_hdr_def pccc_safe_def pccc_recognised_def ok_get16)

lemma sendRRData_Unconnected_reply_witness:
  "ok (sendRRData_Unconnected header_at parseEnipUnconnected (enip_request (enip_hdr 0x6f 41 @
      [0, 0, 0, 0, 0xb2, 0, 25, 0, 0x4b, 2, 0x20, 0x67, 0x24, 1, 7, 0, 0, 0, 0, 0, 0,
       0x0f, 0, 1, 2, 0xa2, 2, 0, 0x8b, 0, 0, 1, 0]) null_image))
     (\<lambda>(n, t). get16 38 t \<noteq> None \<and> buf t ! 40 = 0xcb)"
  by (rule ok_weaken[OF sendRRData_Unconnected_reply[where m = 25]])
    (auto simp: word_pccc_eq enip_hdr_def pccc_safe_def pccc_recognised_def ok_get16)

lemma sendUnitData_read_size_witness:
  "ok (sendUnitData header_at parseEnipDataConnected_0x70 (enip_request (enip_hdr 0x70 45 @
      [0xa1, 0, 4, 0, 0, 0, 0, 0, 0xb1, 0, 25, 0, 0, 0, 0x4b, 2, 0x20, 0x67, 0x24, 1, 7, 0, 0, 0, 0, 0, 0,
       0x0f, 0, 1, 2, 0xa2, 8, 7, 0x89, 0, 0]) null_image))
     (\<lambda>(n, t). n = 75 \<and> get16 42 t = Some 25)"
  by (rule ok_weaken[OF sendUnitData_read_size[where d = 8]])
    (auto simp: enip_hdr_def pccc_safe_def pccc_recognised_def)

text \<open>A coil read in an unknown item, as it comes from a client.\<close>

definition coil_read_request :: es where
  "coil_read_request = enip_request (enip_hdr 0x6f 29 @
     [0x81, 0, 1, 0, 5, 0x91, 0, 12, 0, 0x0f, 0, 1, 2, 0xa2, 2, 0, 0x8b, 0, 0, 1, 0]) null_image"

lemma processEnipMessage_safe_witness:
  "ok (processEnipMessage [1, 2, 3, 4] 53 coil_read_request) (\<lambda>(k, t). - 1 \<le> k \<and> k < 65536 \<and> frame coil_read_request t)"
  by (rule processEnipMessage_safe)
    (simp_all add: coil_read_request_def enip_hdr_def enip_safe_def pccc_safe_def pccc_recognised_def word_pccc_eq ok_get16)

lemma processEnipMessage_unknown_overflow_witness:
  "processEnipMessage [1, 2, 3, 4] 400 (enip_request (enip_hdr 0x01 4) null_image) = None"
  by (rule processEnipMessage_unknown_overflow) (simp_all add: enip_hdr_def enip_complete_def)

end
