(* ===== verification/Server.thy ===== *)
theory Server
  imports Modbus Enip
begin

text \<open>
  The TCP server that carries Modbus and EtherNet/IP (Packetized-PLC-IO/server.cpp). System calls are
  represented by their results, which are arguments: what \<open>read\<close> and \<open>accept\<close> return, and the value
  of the run flag when a loop tests it. A connection's bytes go out through \<open>write\<close>, recorded in
  \<open>sent\<close>.
\<close>

section \<open>State\<close>

datatype protocol = MODBUS_PROTOCOL | DNP3_PROTOCOL | ENIP_PROTOCOL

record srv = nst +
  srv_session :: "byte list"
  srv_length :: nat
  sent :: "byte list list"

text \<open>What \<open>read(client_fd, buffer, NET_BUFFER_SIZE)\<close> does: it stores bytes, or returns 0 or -1.\<close>

datatype net_read = Data "byte list" | Nothing int

text \<open>One round of a connection's loop: the run flag, the read, and the bytes \<open>rand()\<close> would give.\<close>

record round =
  rd_run :: bool
  rd_result :: net_read
  rd_rand :: "byte list"

section \<open>Sockets\<close>

text \<open>\<open>fcntl\<close> flags with \<open>O_NONBLOCK\<close> set or cleared; -1 is the error of \<open>F_GETFL\<close>.\<close>

definition O_NONBLOCK :: "32 word" where "O_NONBLOCK = 0x800"

definition SetSocketBlockingEnabled :: "int \<Rightarrow> bool \<Rightarrow> 32 word \<Rightarrow> (32 word \<Rightarrow> bool) \<Rightarrow> bool" where
  "SetSocketBlockingEnabled fd blocking flags setfl =
     (if fd < 0 then False
      else if flags = -1 then False
      else setfl (if blocking then flags AND NOT O_NONBLOCK else flags OR O_NONBLOCK))"

text \<open>The results of \<open>socket\<close> and \<open>bind\<close> and the text of \<open>strerror(errno)\<close>.\<close>

record sock_env =
  sk_socket :: int
  sk_bind :: int
  sk_error :: string

definition createSocket :: "sock_env \<Rightarrow> nat \<Rightarrow> 'a nst_scheme \<Rightarrow> (int \<times> 'a nst_scheme) option" where
  "createSocket e port s =
     (if sk_socket e < 0
      then do {
        s \<leftarrow> log_line (''Server: error creating stream socket => '' @ sk_error e @ nl) s;
        Some (-1, s)
      }
      else if sk_bind e < 0
      then do {
        s \<leftarrow> log_line (''Server: error binding socket => '' @ sk_error e @ nl) s;
        Some (-1, s)
      }
      else do {
        s \<leftarrow> log_line (''Server: Listening on port '' @ show_nat port @ nl) s;
        Some (sk_socket e, s)
      })"

text \<open>
  The accept loop: each element of the list is the run flag and, if it is set, what \<open>accept\<close> returns.
  \<open>client_fd\<close> is uninitialised until the first call. The rest of the list is returned.
\<close>

fun accept_loop :: "(bool \<times> int) list \<Rightarrow> int option \<Rightarrow> (int option \<times> (bool \<times> int) list)" where
  "accept_loop [] client_fd = (client_fd, [])"
| "accept_loop ((run, fd) # es) client_fd =
     (if \<not> run then (client_fd, (run, fd) # es)
      else if fd > 0 then (Some fd, es)
      else accept_loop es (Some fd))"

definition waitForClient ::
  "protocol \<Rightarrow> (bool \<times> int) list \<Rightarrow> 'a nst_scheme \<Rightarrow> (int \<times> (bool \<times> int) list \<times> 'a nst_scheme) option" where
  "waitForClient protocol_type es s = do {
     s \<leftarrow> log_line (''Server: waiting for new client...'' @ nl) s;
     if protocol_type = DNP3_PROTOCOL then None
     else do {
       let r = accept_loop es None;
       fd \<leftarrow> fst r;
       Some (fd, snd r, s)
     }
   }"

definition listenToClient :: "net_read \<Rightarrow> srv \<Rightarrow> int \<times> srv" where
  "listenToClient r s =
     (case r of
        Data bs \<Rightarrow> (int (length bs), s\<lparr>buf := received bs\<rparr>)
      | Nothing n \<Rightarrow> (n, s\<lparr>buf := received []\<rparr>))"

text \<open>
  \<open>write(client_fd, buffer, n)\<close>: a negative \<open>n\<close> becomes a size the kernel refuses; a size beyond the
  buffer sends what lies behind it.
\<close>

definition sock_write :: "int \<Rightarrow> srv \<Rightarrow> srv option" where
  "sock_write n s =
     (if n < 0 then Some s
      else if nat n \<le> length (buf s) then Some (s\<lparr>sent := sent s @ [take (nat n) (buf s)]\<rparr>)
      else None)"

section \<open>Requests\<close>

text \<open>The two protocol handlers on the state of a connection.\<close>

definition as_mbs :: "srv \<Rightarrow> mbs" where
  "as_mbs s = \<lparr>buf = buf s, img = img s, lg = lg s, MessageLength = srv_length s, mb_error = ERR_NONE\<rparr>"

definition as_es :: "srv \<Rightarrow> es" where
  "as_es s = \<lparr>buf = buf s, img = img s, lg = lg s, enip_session = srv_session s\<rparr>"

definition processMessage :: "protocol \<Rightarrow> byte list \<Rightarrow> nat \<Rightarrow> srv \<Rightarrow> srv option" where
  "processMessage protocol_type rand4 bufferSize s =
     (if protocol_type = MODBUS_PROTOCOL
      then do {
        m \<leftarrow> processModbusMessage bufferSize (as_mbs s);
        sock_write (int (MessageLength m))
          (s\<lparr>buf := buf m, img := img m, lg := lg m, srv_length := MessageLength m\<rparr>)
      }
      else if protocol_type = ENIP_PROTOCOL
      then do {
        r \<leftarrow> processEnipMessage rand4 bufferSize (as_es s);
        let e = snd r;
        sock_write (fst r) (s\<lparr>buf := buf e, img := img e, lg := lg e, srv_session := enip_session e\<rparr>)
      }
      else Some s)"

definition closed_text :: "nat \<Rightarrow> string" where
  "closed_text client_fd =
     ''Modbus Server: client ID: '' @ show_nat client_fd @ '' has closed the connection'' @ nl"

definition wrong_text :: "nat \<Rightarrow> int \<Rightarrow> string" where
  "wrong_text client_fd n =
     ''Modbus Server: Something is wrong with the  client ID: '' @ show_nat client_fd @
     '' message Size : '' @ show_int n @ nl"

fun connection_loop :: "protocol \<Rightarrow> nat \<Rightarrow> round list \<Rightarrow> srv \<Rightarrow> srv option" where
  "connection_loop protocol_type client_fd [] s = Some s"
| "connection_loop protocol_type client_fd (r # rs) s =
     (if \<not> rd_run r then Some s
      else let (messageSize, s) = listenToClient (rd_result r) s in
        if messageSize \<le> 0 \<or> messageSize > int NET_BUFFER_SIZE
        then log_line (if messageSize = 0 then closed_text client_fd
                       else wrong_text client_fd messageSize) s
        else do {
          s \<leftarrow> processMessage protocol_type (rd_rand r) (nat messageSize) s;
          connection_loop protocol_type client_fd rs s
        })"

definition handleConnections :: "protocol \<Rightarrow> nat \<Rightarrow> round list \<Rightarrow> srv \<Rightarrow> srv option" where
  "handleConnections protocol_type client_fd rs s =
     (if protocol_type = DNP3_PROTOCOL then None
      else do {
        s \<leftarrow> log_line (''Server: Thread created for client ID: '' @ show_nat client_fd @ nl) s;
        s \<leftarrow> connection_loop protocol_type client_fd rs s;
        log_line (''Terminating Modbus connections thread'' @ [CHR 0x0D] @ nl) s
      })"

text \<open>
  The accept thread: it starts one connection thread per client, recorded as the descriptors handed
  over. The fuel bounds the number of clients.
\<close>

fun server_loop ::
  "nat \<Rightarrow> protocol \<Rightarrow> (bool \<times> int) list \<Rightarrow> int list \<Rightarrow> 'a nst_scheme \<Rightarrow> (int list \<times> 'a nst_scheme) option" where
  "server_loop 0 protocol_type es clients s = Some (clients, s)"
| "server_loop (Suc fuel) protocol_type es clients s =
     (case es of
        [] \<Rightarrow> Some (clients, s)
      | e # es' \<Rightarrow>
          if \<not> fst e then Some (clients, s)
          else Option.bind (waitForClient protocol_type es s) (\<lambda>(client_fd, rest, s).
            if client_fd < 0
            then Option.bind (log_line (''Server: Error accepting client!'' @ nl) s)
              (server_loop fuel protocol_type rest clients)
            else Option.bind (log_line (''Server: Client accepted! Creating thread for the new client ID: '' @
                show_int client_fd @ ''...'' @ nl) s)
              (server_loop fuel protocol_type rest (clients @ [client_fd]))))"

definition startServer ::
  "nat \<Rightarrow> sock_env \<Rightarrow> nat \<Rightarrow> protocol \<Rightarrow> (bool \<times> int) list \<Rightarrow> 'a nst_scheme \<Rightarrow> (int list \<times> 'a nst_scheme) option" where
  "startServer fuel e port protocol_type es s =
     (if protocol_type = DNP3_PROTOCOL then None
      else do {
        r \<leftarrow> createSocket e port s;
        c \<leftarrow> server_loop fuel protocol_type es [] (snd r);
        s \<leftarrow> log_line (''Terminating Server thread'' @ [CHR 0x0D] @ nl) (snd c);
        Some (fst c, s)
      })"

end
