(* ===== verification/Server_Props.thy ===== *)
theory Server_Props
  imports Server Modbus_Props Enip_Props
begin

text \<open>
  The TCP server: a connection that carries Modbus answers every message and stays within its buffers,
  and the over-read of an EtherNet/IP connection.
\<close>

section \<open>Log lines\<close>

lemma length_show_fd: "n < 2 ^ 31 \<Longrightarrow> length (show_nat n) \<le> 10"
  by (rule length_show_nat) simp_all

lemma show_int_length: "\<bar>k\<bar> < 2 ^ 31 \<Longrightarrow> length (show_int k) \<le> 11"
proof -
  assume "\<bar>k\<bar> < 2 ^ 31"
  then have "nat k < 2 ^ 31" "nat (- k) < 2 ^ 31" by auto
  from this[THEN length_show_fd] show ?thesis by (simp add: show_int_def)
qed

lemma frame_srv [simp]:
  "frame s (t\<lparr>srv_length := n\<rparr>) = frame s (t :: srv)"
  "frame s (t\<lparr>srv_session := x\<rparr>) = frame s (t :: srv)"
  "frame s (t\<lparr>sent := y\<rparr>) = frame s (t :: srv)"
  by (simp_all add: frame_def)

section \<open>A Modbus connection\<close>

text \<open>The requests the Modbus server answers without a fault, given the tables of the image.\<close>

definition message_safe :: "plc \<Rightarrow> byte list \<Rightarrow> bool" where
  "message_safe p bs \<longleftrightarrow> 1 \<le> length bs \<and> length bs \<le> 10000 \<and> request_safe (length bs) (request bs p)"

lemma request_safe_tables:
  "buf s = buf t \<Longrightarrow> same_tables (img s) (img t) \<Longrightarrow> request_safe n s = request_safe n t"
  by (simp add: request_safe_def reg_write_ok_def same_tables_def)

text \<open>What holds between two rounds of a connection that started in \<open>s0\<close>.\<close>

definition conn_inv :: "srv \<Rightarrow> srv \<Rightarrow> bool" where
  "conn_inv s0 s \<longleftrightarrow> length (buf s) = 10000 \<and> same_tables (img s0) (img s) \<and> \<not> bufferLock (img s) \<and>
     log_inv (lg s) \<and> (\<forall>m \<in> set (sent s). m \<in> set (sent s0) \<or> 9 \<le> length m \<and> length m \<le> 264)"

lemma conn_round:
  assumes "conn_inv s0 s" "message_safe (img s0) bs"
  shows "ok (processMessage MODBUS_PROTOCOL r (length bs) (s\<lparr>buf := received bs\<rparr>))
    (\<lambda>t. conn_inv s0 t \<and> length (sent t) = Suc (length (sent s)))"
proof -
  let ?m = "as_mbs (s\<lparr>buf := received bs\<rparr>)"
  have l: "length (received bs) = 10000" using assms(2) by (simp add: message_safe_def)
  have safe: "request_safe (length bs) ?m"
    using assms request_safe_tables[of "request bs (img s0)" ?m "length bs"]
    by (simp add: message_safe_def conn_inv_def as_mbs_def)
  have "ok (processModbusMessage (length bs) ?m) (handled ?m)"
    using assms l safe by (intro processModbusMessage_handled) (simp_all add: as_mbs_def conn_inv_def)
  then show ?thesis
    unfolding processMessage_def
    by (simp, elim ok_weaken)
      (use assms(1) l in \<open>auto simp: sock_write_def frame_def conn_inv_def as_mbs_def handled_def
        elim: same_tables_trans\<close>)
qed

text \<open>The rounds of a well-behaved client: it sends safe messages until it closes the connection.\<close>

fun client_rounds :: "plc \<Rightarrow> round list \<Rightarrow> bool" where
  "client_rounds p [] = True"
| "client_rounds p (r # rs) =
     (case rd_result r of
        Data bs \<Rightarrow> message_safe p bs \<and> client_rounds p rs
      | Nothing n \<Rightarrow> n \<in> {- 1, 0})"

text \<open>How many messages such a client gets to send.\<close>

fun served :: "round list \<Rightarrow> nat" where
  "served [] = 0"
| "served (r # rs) =
     (if \<not> rd_run r then 0
      else case rd_result r of Data bs \<Rightarrow> Suc (served rs) | Nothing n \<Rightarrow> 0)"

lemma conn_log:
  assumes "conn_inv s0 s" "length m < 1000"
  shows "ok (log_line m s) (\<lambda>t. conn_inv s0 t \<and> length (sent t) = length (sent s))"
proof -
  have "ok (runtime_log m (lg s)) log_inv"
    using assms by (intro ok_runtime_log) (simp_all add: conn_inv_def)
  then show ?thesis
    using assms by (auto simp: log_line_def ok_on_log conn_inv_def elim: ok_weaken)
qed

lemma end_texts:
  assumes "fd < 2 ^ 31" "n \<in> {- 1, 0}"
  shows "length (closed_text fd) < 1000" "length (wrong_text fd n) < 1000"
  using length_show_fd[OF assms(1)] show_int_length[of n] assms(2)
  by (auto simp: closed_text_def wrong_text_def nl_def)

lemma conn_listen:
  assumes "conn_inv s0 s"
  shows "conn_inv s0 (s\<lparr>buf := received []\<rparr>)"
  using assms by (simp add: conn_inv_def)

lemma connection_loop_ok:
  assumes "conn_inv s0 s" "fd < 2 ^ 31" "client_rounds (img s0) rs"
  shows "ok (connection_loop MODBUS_PROTOCOL fd rs s)
    (\<lambda>t. conn_inv s0 t \<and> length (sent t) = length (sent s) + served rs)"
  using assms
proof (induction rs arbitrary: s)
  case Nil
  then show ?case by simp
next
  case (Cons r rs)
  show ?case
  proof (cases "rd_result r")
    case (Data bs)
    with Cons.prems(3) have m: "message_safe (img s0) bs" "client_rounds (img s0) rs" by simp_all
    have "ok (processMessage MODBUS_PROTOCOL (rd_rand r) (length bs) (s\<lparr>buf := received bs\<rparr>))
        (\<lambda>t. ok (connection_loop MODBUS_PROTOCOL fd rs t)
          (\<lambda>t. conn_inv s0 t \<and> length (sent t) = Suc (length (sent s)) + served rs))"
    proof (rule ok_weaken[OF conn_round[OF Cons.prems(1) m(1)]])
      fix t assume t: "conn_inv s0 t \<and> length (sent t) = Suc (length (sent s))"
      show "ok (connection_loop MODBUS_PROTOCOL fd rs t)
          (\<lambda>t. conn_inv s0 t \<and> length (sent t) = Suc (length (sent s)) + served rs)"
        by (rule ok_weaken[OF Cons.IH[OF conjunct1[OF t] Cons.prems(2) m(2)]]) (use t in simp)
    qed
    then show ?thesis
      using Cons.prems(1) m(1) Data
      by (auto simp: listenToClient_def message_safe_def NET_BUFFER_SIZE_def)
  next
    case (Nothing n)
    with Cons.prems have n: "n \<in> {- 1, 0}" by simp
    then show ?thesis
      using Cons.prems(1) Nothing conn_log[OF conn_listen[OF Cons.prems(1)]] end_texts[OF Cons.prems(2) n]
      by (auto simp: listenToClient_def)
  qed
qed

text \<open>
  A thread that serves a Modbus client sends an answer of 9 to 264 bytes to each message and ends
  with the mutex free, the pointer tables unchanged and the log within its bounds, whatever the number
  of messages, when the client sends messages of at most 10000 bytes that \<open>request_safe\<close> admits until it
  closes the connection or the read fails.
\<close>

theorem handleConnections_modbus:
  assumes "conn_inv s s" and "client_fd < 2 ^ 31" and "client_rounds (img s) rs" and "sent s = []"
  shows "ok (handleConnections MODBUS_PROTOCOL client_fd rs s) (\<lambda>t.
    same_tables (img s) (img t) \<and> \<not> bufferLock (img t) \<and> log_inv (lg t) \<and>
    length (sent t) = served rs \<and> (\<forall>m \<in> set (sent t). 9 \<le> length m \<and> length m \<le> 264))"
proof -
  let ?I = "\<lambda>n t. conn_inv s t \<and> length (sent t) = n"
  have first: "ok (log_line (''Server: Thread created for client ID: '' @ show_nat client_fd @ nl) s)
      (\<lambda>t. conn_inv s t \<and> length (sent t) = length (sent s))"
    by (rule conn_log[OF assms(1)]) (use length_show_fd[OF assms(2)] in \<open>simp add: nl_def\<close>)
  have last: "ok (log_line (''Terminating Modbus connections thread'' @ [CHR 0x0D] @ nl) t) (?I (served rs))"
    if "?I (served rs) t" for t
    by (rule ok_weaken[OF conn_log[OF conjunct1[OF that]]]) (use that in \<open>simp_all add: nl_def\<close>)
  have loop: "ok (connection_loop MODBUS_PROTOCOL client_fd rs t) (?I (served rs))"
    if "conn_inv s t \<and> length (sent t) = length (sent s)" for t
    by (rule ok_weaken[OF connection_loop_ok[OF conjunct1[OF that] assms(2,3)]])
      (use that assms(4) in simp)
  have "ok (handleConnections MODBUS_PROTOCOL client_fd rs s) (?I (served rs))"
    unfolding handleConnections_def
    by (simp del: append_Cons append.simps)
      (rule ok_weaken[OF first], rule ok_weaken[OF loop], assumption, rule last)
  then show ?thesis
    by (rule ok_weaken) (use assms(4) in \<open>auto simp: conn_inv_def\<close>)
qed

section \<open>An EtherNet/IP message\<close>

text \<open>
  An EtherNet/IP SendRRData message whose item is of no supported type makes the server send 65535
  bytes from its 10000-byte buffer: the -1 of \<open>sendRRData\<close> has passed through a \<open>uint16_t\<close>.
\<close>

theorem processMessage_enip_overread:
  assumes "bs = cmd # rest" and "cmd = 0x6f" and "28 \<le> length bs" and "length bs \<le> 10000"
    and "buf s = received bs" and "log_inv (lg s)" and "enip_complete (length bs) (as_es s)"
    and "received bs ! 32 \<notin> {0x81, 0xa1}" and "received bs ! 36 \<noteq> 0xb2"
  shows "processMessage ENIP_PROTOCOL r (length bs) s = None"
proof -
  have "ok (processEnipMessage r (length bs) (as_es s)) (\<lambda>(k, t). k = 65535 \<and> frame (as_es s) t)"
    using assms by (intro unsupported_size) (auto simp: as_es_def)
  then obtain k t where e: "processEnipMessage r (length bs) (as_es s) = Some (k, t)"
    "k = 65535" "length (buf t) = 10000"
    using assms(3,4,5) by (auto simp: ok_iff frame_def as_es_def)
  then show ?thesis
    by (simp add: processMessage_def sock_write_def)
qed

section \<open>Concrete connections\<close>

definition connection :: "plc \<Rightarrow> byte list \<Rightarrow> srv" where
  "connection p bs = \<lparr>buf = received bs, img = p, lg = \<lparr>log_text = [], log_counter = 0\<rparr>,
     srv_session = [], srv_length = 0, sent = []\<rparr>"

lemma handleConnections_modbus_witness:
  "ok (handleConnections MODBUS_PROTOCOL 5
     [\<lparr>rd_run = True, rd_result = Data [0, 1, 0, 0, 0, 6, 1, 3, 0, 0, 0, 2], rd_rand = []\<rparr>,
      \<lparr>rd_run = True, rd_result = Nothing 0, rd_rand = []\<rparr>] (connection null_image []))
     (\<lambda>t. length (sent t) = 1 \<and> \<not> bufferLock (img t))"
  by (rule ok_weaken[OF handleConnections_modbus])
    (simp_all add: connection_def conn_inv_def log_inv_def message_safe_def request_safe_def word_mb_eq)

lemma processMessage_enip_overread_witness:
  "processMessage ENIP_PROTOCOL [] (length (enip_hdr 0x6f 4))
     (connection null_image (enip_hdr 0x6f 4)) = None"
  by (rule processMessage_enip_overread[where rest = "tl (enip_hdr 0x6f 4)"])
    (simp_all add: enip_hdr_def connection_def log_inv_def enip_complete_def as_es_def nth_received_rest)

end
