(* ===== verification/Json.thy ===== *)
theory Json
  imports Prelude "HOL-Library.AList"
begin

text \<open>
  The JSON documents the switch is configured with, and the accessors of the JSON library the code
  uses. \<open>operator[]\<close> with a name the object lacks, an index past the end, and a conversion of a value
  of another type stop the process (an exception or a failed assertion): \<^term>\<open>None\<close>.
\<close>

datatype json = JNull | JBool bool | JInt int | JStr string | JArr "json list" | JObj "(string \<times> json) list"

definition jfield :: "string \<Rightarrow> json \<Rightarrow> json option" where
  "jfield k j = (case j of JObj fs \<Rightarrow> map_of fs k | _ \<Rightarrow> None)"

definition jindex :: "nat \<Rightarrow> json \<Rightarrow> json option" where
  "jindex i j = (case j of JArr xs \<Rightarrow> (if i < length xs then Some (xs ! i) else None) | _ \<Rightarrow> None)"

text \<open>A range-based \<open>for\<close> visits the elements of an array and the values of an object.\<close>

definition jelems :: "json \<Rightarrow> json list" where
  "jelems j = (case j of JArr xs \<Rightarrow> xs | JObj fs \<Rightarrow> map snd fs | JNull \<Rightarrow> [] | _ \<Rightarrow> [j])"

definition jstr :: "json \<Rightarrow> string option" where
  "jstr j = (case j of JStr s \<Rightarrow> Some s | _ \<Rightarrow> None)"

text \<open>\<open>get<int>()\<close> and \<open>get<uint32_t>()\<close> of an integer convert modulo \<open>2 ^ 32\<close>; a truth value counts as
  0 or 1. Numbers with a fraction are not modelled.\<close>

definition jint :: "json \<Rightarrow> int option" where
  "jint j = (case j of JInt k \<Rightarrow> Some (sint (word_of_int k :: 32 word)) | JBool b \<Rightarrow> Some (of_bool b) | _ \<Rightarrow> None)"

definition juint32 :: "json \<Rightarrow> 32 word option" where
  "juint32 j = (case j of JInt k \<Rightarrow> Some (word_of_int k) | JBool b \<Rightarrow> Some (of_bool b) | _ \<Rightarrow> None)"

text \<open>\<open>elem["type"] != "link"\<close>: a comparison with a string literal.\<close>

definition jtype_is :: "string \<Rightarrow> json \<Rightarrow> bool option" where
  "jtype_is s j = map_option (\<lambda>v. v = JStr s) (jfield ''type'' j)"

definition int_field :: "string \<Rightarrow> json \<Rightarrow> int option" where
  "int_field k j = Option.bind (jfield k j) jint"

definition str_field :: "string \<Rightarrow> json \<Rightarrow> string option" where
  "str_field k j = Option.bind (jfield k j) jstr"

definition uint32_field :: "string \<Rightarrow> json \<Rightarrow> 32 word option" where
  "uint32_field k j = Option.bind (jfield k j) juint32"

definition elems_field :: "string \<Rightarrow> json \<Rightarrow> json list option" where
  "elems_field k j = map_option jelems (jfield k j)"

text \<open>
  \<open>operator[]\<close> on a document that may be written: a missing name reads as null. (The code also inserts
  the null, in its own copy of the document, where nothing looks for it.)
\<close>

definition jref :: "string \<Rightarrow> json \<Rightarrow> json option" where
  "jref k j = (case j of JObj fs \<Rightarrow> Some (case map_of fs k of None \<Rightarrow> JNull | Some v \<Rightarrow> v)
     | JNull \<Rightarrow> Some JNull | _ \<Rightarrow> None)"

definition jset :: "string \<Rightarrow> json \<Rightarrow> json \<Rightarrow> json" where
  "jset k v j = (case j of JObj fs \<Rightarrow> JObj (AList.update k v fs) | _ \<Rightarrow> JObj [(k, v)])"

definition int_ref :: "string \<Rightarrow> json \<Rightarrow> int option" where
  "int_ref k j = Option.bind (jref k j) jint"

definition str_ref :: "string \<Rightarrow> json \<Rightarrow> string option" where
  "str_ref k j = Option.bind (jref k j) jstr"

definition elems_ref :: "string \<Rightarrow> json \<Rightarrow> json list option" where
  "elems_ref k j = map_option jelems (jref k j)"

text \<open>\<open>get<std::vector<int>>()\<close> of an array.\<close>

definition jints :: "json \<Rightarrow> int list option" where
  "jints j = (case j of JArr xs \<Rightarrow> those (map jint xs) | _ \<Rightarrow> None)"

text \<open>A range-based \<open>for\<close> that changes the elements in place.\<close>

definition jmap :: "(json \<Rightarrow> json option) \<Rightarrow> json \<Rightarrow> json option" where
  "jmap f j = (case j of
     JArr xs \<Rightarrow> map_option JArr (those (map f xs))
   | JObj fs \<Rightarrow> map_option (\<lambda>vs. JObj (zip (map fst fs) vs)) (those (map (f \<circ> snd) fs))
   | JNull \<Rightarrow> Some JNull
   | _ \<Rightarrow> f j)"

text \<open>Values in the range of a C \<open>int\<close> are read as they are.\<close>

lemma jint_in_range: "- (2 ^ 31) \<le> k \<Longrightarrow> k < 2 ^ 31 \<Longrightarrow> jint (JInt k) = Some k"
  by (simp add: jint_def signed_of_int signed_take_bit_int_eq_self)

end
