(* ===== verification/CaasConfig.thy ===== *)
theory CaasConfig
  imports Json
begin

text \<open>
  The start-up configuration of the control-as-a-service node (Packetized-PLC-IO/config.cpp). The
  documents \<open>config.json\<close> and \<open>schedule.json\<close> and the line read from the network interface are
  arguments; what is printed is left out. \<^term>\<open>None\<close> is a process that stops: an uncaught exception,
  a failed assertion, or \<open>exit(1)\<close>.
\<close>

section \<open>MAC addresses\<close>

definition char_upper :: "char \<Rightarrow> char" where
  "char_upper c = (if of_char c \<ge> (97 :: nat) \<and> of_char c \<le> (122 :: nat)
     then char_of ((of_char c :: nat) - 97 + 65) else c)"

definition toUpper :: "string \<Rightarrow> string" where
  "toUpper s = map char_upper s"

definition get_mac_address :: "string \<Rightarrow> string" where
  "get_mac_address line = toUpper line"

definition hex_value :: "char \<Rightarrow> nat option" where
  "hex_value c =
     (let n = (of_char c :: nat) in
      if 48 \<le> n \<and> n \<le> 57 then Some (n - 48)
      else if 65 \<le> n \<and> n \<le> 70 then Some (n - 55)
      else if 97 \<le> n \<and> n \<le> 102 then Some (n - 87)
      else None)"

definition is_space :: "char \<Rightarrow> bool" where
  "is_space c = (let n = (of_char c :: nat) in n = 32 \<or> (9 \<le> n \<and> n \<le> 13))"

text \<open>
  \<open>stoi(s, \&p, 16)\<close>: white space, a sign, an optional \<open>0x\<close>, then the digits; the value and the number
  of characters read. No digit is an exception, and so is a value that no \<open>int\<close> holds.
\<close>

fun hex_digits :: "string \<Rightarrow> nat \<Rightarrow> nat \<Rightarrow> nat \<times> nat" where
  "hex_digits [] v n = (v, n)"
| "hex_digits (c # cs) v n =
     (case hex_value c of None \<Rightarrow> (v, n) | Some d \<Rightarrow> hex_digits cs (v * 16 + d) (n + 1))"

definition has_prefix0x :: "string \<Rightarrow> bool" where
  "has_prefix0x s = (case s of
     a # b # c # _ \<Rightarrow> a = CHR ''0'' \<and> (b = CHR ''x'' \<or> b = CHR ''X'') \<and> hex_value c \<noteq> None
   | _ \<Rightarrow> False)"

definition stoi16 :: "string \<Rightarrow> (int \<times> nat) option" where
  "stoi16 s =
     (let w = length (takeWhile is_space s);
          s1 = dropWhile is_space s;
          sgn = (case s1 of [] \<Rightarrow> 0 | c # _ \<Rightarrow> if c = CHR ''+'' \<or> c = CHR ''-'' then 1 else 0);
          neg = (case s1 of [] \<Rightarrow> False | c # _ \<Rightarrow> c = CHR ''-'');
          s2 = drop sgn s1;
          pre = (if has_prefix0x s2 then 2 else 0);
          (v, n) = hex_digits (drop pre s2) 0 0;
          k = (if neg then - int v else int v)
      in if n = 0 \<or> k < - (2 ^ 31) \<or> 2 ^ 31 \<le> k then None else Some (k, w + sgn + pre + n))"

text \<open>
  The constructor of \<open>MacAddr\<close>: \<open>addr\<close> is the whole text, \<open>s\<close> what is left of it, \<open>i\<close> the byte.
  \<open>substr\<close> past the end is an exception.
\<close>

function mac_bytes :: "string \<Rightarrow> nat \<Rightarrow> string \<Rightarrow> byte list option" where
  "mac_bytes addr i s =
     (if i < 6 then Option.bind (stoi16 s) (\<lambda>(k, p).
        if p < length addr \<and> addr ! p = CHR '':'' \<and> p = 2
        then if i < 5
          then if p + 1 \<le> length s
            then map_option (\<lambda>bs. word_of_int k # bs) (mac_bytes addr (i + 1) (drop (p + 1) s))
            else None
          else Some [word_of_int k]
        else None)
      else Some [])"
  by pat_completeness auto

termination
  by (relation "measure (\<lambda>(a, i, s). 6 - i)") auto

declare mac_bytes.simps [simp del]

definition MacAddr :: "string \<Rightarrow> byte list option" where
  "MacAddr addr = mac_bytes addr 0 addr"

text \<open>\<open>operator<<\<close>: six two-digit upper-case hexadecimal numbers, separated by colons.\<close>

definition hex_char :: "nat \<Rightarrow> char" where
  "hex_char d = (if d < 10 then char_of (48 + d) else char_of (55 + d))"

definition show_byte :: "byte \<Rightarrow> string" where
  "show_byte b = [hex_char (unat b div 16), hex_char (unat b mod 16)]"

fun show_mac :: "byte list \<Rightarrow> string" where
  "show_mac [] = []"
| "show_mac [b] = show_byte b"
| "show_mac (b # bs) = show_byte b @ CHR '':'' # show_mac bs"

section \<open>Source and destination of a flow\<close>

text \<open>
  The link elements of the schedule; \<open>sOutflow\<close> and \<open>sInflow\<close> are the nodes a flow leaves and the
  nodes it enters. The sets are unordered in the code; here they are lists without duplicates.
\<close>

definition flow_matches :: "int \<Rightarrow> int \<Rightarrow> json \<Rightarrow> bool option" where
  "flow_matches job_id flow_id flow = do {
     j \<leftarrow> int_field ''job_id'' flow;
     if job_id = j then map_option (\<lambda>f. flow_id = f) (int_field ''flow_id'' flow) else Some False
   }"

definition flow_step ::
  "int \<Rightarrow> int \<Rightarrow> int \<Rightarrow> int \<Rightarrow> json \<Rightarrow> int list \<times> int list \<Rightarrow> (int list \<times> int list) option" where
  "flow_step job_id flow_id src dst flow sets = do {
     b \<leftarrow> flow_matches job_id flow_id flow;
     Some (if b then (List.insert src (fst sets), List.insert dst (snd sets)) else sets)
   }"

definition link_step :: "int \<Rightarrow> int \<Rightarrow> json \<Rightarrow> int list \<times> int list \<Rightarrow> (int list \<times> int list) option" where
  "link_step job_id flow_id elem sets = do {
     link \<leftarrow> jtype_is ''link'' elem;
     if \<not> link then Some sets
     else do {
       src \<leftarrow> int_field ''from'' elem;
       dst \<leftarrow> int_field ''to'' elem;
       flows \<leftarrow> elems_field ''schedule'' elem;
       for_each (flow_step job_id flow_id src dst) flows sets
     }
   }"

definition flow_ends :: "json \<Rightarrow> int \<Rightarrow> int \<Rightarrow> (int list \<times> int list) option" where
  "flow_ends sche job_id flow_id = for_each (link_step job_id flow_id) (jelems sche) ([], [])"

text \<open>The one element of \<open>xs\<close> outside \<open>ys\<close>; the inner \<^term>\<open>None\<close> is \<open>return false\<close>.\<close>

fun lone_id :: "int list \<Rightarrow> int list \<Rightarrow> int \<Rightarrow> int option" where
  "lone_id [] ys r = Some r"
| "lone_id (x # xs) ys r =
     (if x \<in> set ys then lone_id xs ys r
      else if r \<noteq> -1 then None else lone_id xs ys x)"

definition find_src_dst :: "json \<Rightarrow> int \<Rightarrow> int \<Rightarrow> (int \<times> int) option option" where
  "find_src_dst sche job_id flow_id = do {
     sets \<leftarrow> flow_ends sche job_id flow_id;
     let (sOutflow, sInflow) = sets;
     Some (case lone_id sOutflow sInflow (-1) of
         None \<Rightarrow> None
       | Some src_id \<Rightarrow>
           (case lone_id sInflow sOutflow (-1) of
              None \<Rightarrow> None
            | Some dst_id \<Rightarrow> if src_id \<noteq> -1 \<and> dst_id \<noteq> -1 then Some (src_id, dst_id) else None))
   }"

section \<open>The configuration\<close>

record caas_cfg =
  input_seq_ids :: "32 word list"
  output_seq_ids :: "32 word list"
  output_dst_addresses :: "byte list list"
  output_src_address :: "byte list"
  INPUT_STREAM_NUM :: nat
  OUTPUT_STREAM_NUM :: nat
  CYCLE_TIME :: "32 word"
  COMPUTE_OFFSET :: "32 word"
  COMPUTE_TIME :: "32 word"

definition cfg0 :: caas_cfg where
  "cfg0 = \<lparr>input_seq_ids = [], output_seq_ids = [], output_dst_addresses = [], output_src_address = [],
     INPUT_STREAM_NUM = 0, OUTPUT_STREAM_NUM = 0, CYCLE_TIME = 0, COMPUTE_OFFSET = 0, COMPUTE_TIME = 0\<rparr>"

text \<open>The nodes of the topology: the map from identifiers to addresses, and this node's identifier.\<close>

definition node_step ::
  "string \<Rightarrow> json \<Rightarrow> (int \<Rightarrow> string option) \<times> int \<Rightarrow> ((int \<Rightarrow> string option) \<times> int) option" where
  "node_step my_mac_addr node r = do {
     mac \<leftarrow> str_field ''mac'' node;
     let node_mac = toUpper mac;
     node_type \<leftarrow> str_field ''type'' node;
     node_id \<leftarrow> int_field ''id'' node;
     Some ((fst r)(node_id \<mapsto> node_mac), if node_mac = my_mac_addr then node_id else snd r)
   }"

definition seq_id_of :: "int \<Rightarrow> int \<Rightarrow> 32 word" where
  "seq_id_of job_id flow_id = push_bit 8 (word_of_int job_id) OR word_of_int flow_id"

definition input_step :: "int \<Rightarrow> json \<Rightarrow> caas_cfg \<Rightarrow> caas_cfg option" where
  "input_step job_id flow c = do {
     j \<leftarrow> int_field ''job_id'' flow;
     if j \<noteq> job_id then Some c
     else do {
       flow_id \<leftarrow> int_field ''flow_id'' flow;
       Some (c\<lparr>INPUT_STREAM_NUM := INPUT_STREAM_NUM c + 1,
         input_seq_ids := input_seq_ids c @ [seq_id_of job_id flow_id]\<rparr>)
     }
   }"

definition output_step ::
  "json \<Rightarrow> (int \<Rightarrow> string option) \<Rightarrow> int \<Rightarrow> json \<Rightarrow> caas_cfg \<Rightarrow> caas_cfg option" where
  "output_step sche id2mac job_id flow c = do {
     j \<leftarrow> int_field ''job_id'' flow;
     if j \<noteq> job_id then Some c
     else do {
       flow_id \<leftarrow> int_field ''flow_id'' flow;
       let c = c\<lparr>OUTPUT_STREAM_NUM := OUTPUT_STREAM_NUM c + 1,
         output_seq_ids := output_seq_ids c @ [seq_id_of job_id flow_id]\<rparr>;
       ends \<leftarrow> find_src_dst sche job_id flow_id;
       sd \<leftarrow> ends;
       mac \<leftarrow> MacAddr (case id2mac (snd sd) of None \<Rightarrow> '''' | Some m \<Rightarrow> m);
       Some (c\<lparr>output_dst_addresses := output_dst_addresses c @ [mac]\<rparr>)
     }
   }"

definition stream_link_step ::
  "json \<Rightarrow> (int \<Rightarrow> string option) \<Rightarrow> int \<Rightarrow> int \<Rightarrow> json \<Rightarrow> caas_cfg \<Rightarrow> caas_cfg option" where
  "stream_link_step sche id2mac my_id job_id elem2 c = do {
     link \<leftarrow> jtype_is ''link'' elem2;
     if \<not> link then Some c
     else do {
       src \<leftarrow> int_field ''from'' elem2;
       dst \<leftarrow> int_field ''to'' elem2;
       c \<leftarrow> (if dst = my_id
            then do { flows \<leftarrow> elems_field ''schedule'' elem2; for_each (input_step job_id) flows c }
            else Some c);
       (if src = my_id
        then do { flows \<leftarrow> elems_field ''schedule'' elem2; for_each (output_step sche id2mac job_id) flows c }
        else Some c)
     }
   }"

text \<open>The switch elements of the schedule with this node's address.\<close>

definition own_switch :: "string \<Rightarrow> json \<Rightarrow> bool option" where
  "own_switch my_mac_addr elem = do {
     sw \<leftarrow> jtype_is ''switch'' elem;
     if \<not> sw then Some False
     else map_option (\<lambda>m. toUpper m = my_mac_addr) (str_field ''mac'' elem)
   }"

definition stream_step ::
  "json \<Rightarrow> (int \<Rightarrow> string option) \<Rightarrow> string \<Rightarrow> int \<Rightarrow> json \<Rightarrow> caas_cfg \<Rightarrow> caas_cfg option" where
  "stream_step sche id2mac my_mac_addr my_id elem c = do {
     own \<leftarrow> own_switch my_mac_addr elem;
     if \<not> own then Some c
     else do {
       jobs \<leftarrow> elems_field ''schedule'' elem;
       for_each (\<lambda>job c. do {
         job_id \<leftarrow> int_field ''job_id'' job;
         for_each (stream_link_step sche id2mac my_id job_id) (jelems sche) c
       }) jobs c
     }
   }"

definition compute_step :: "string \<Rightarrow> json \<Rightarrow> caas_cfg \<Rightarrow> caas_cfg option" where
  "compute_step my_mac_addr elem c = do {
     own \<leftarrow> own_switch my_mac_addr elem;
     if \<not> own then Some c
     else do {
       jobs \<leftarrow> jfield ''schedule'' elem;
       if length (jelems jobs) \<noteq> 1 then None
       else do {
         job \<leftarrow> jindex 0 jobs;
         period \<leftarrow> uint32_field ''period'' job;
         start \<leftarrow> uint32_field ''start'' job;
         stop \<leftarrow> uint32_field ''end'' job;
         Some (c\<lparr>CYCLE_TIME := push_bit 14 period, COMPUTE_OFFSET := push_bit 14 start,
           COMPUTE_TIME := push_bit 14 (stop - start - 1)\<rparr>)
       }
     }
   }"

definition init_configure :: "string \<Rightarrow> json \<Rightarrow> json \<Rightarrow> caas_cfg option" where
  "init_configure line topo sche = do {
     let my_mac_addr = get_mac_address line;
     myMacAddr \<leftarrow> MacAddr my_mac_addr;
     nodes \<leftarrow> elems_field ''nodes'' topo;
     r \<leftarrow> for_each (node_step my_mac_addr) nodes (Map.empty, -1);
     let (mId2mac, my_id) = r;
     if my_id = -1 then None
     else do {
       c \<leftarrow> for_each (stream_step sche mId2mac my_mac_addr my_id) (jelems sche)
         (cfg0\<lparr>output_src_address := myMacAddr\<rparr>);
       for_each (compute_step my_mac_addr) (jelems sche) c
     }
   }"

end
