(* ===== verification/CaasConfig_Props.thy ===== *)
theory CaasConfig_Props
  imports CaasConfig
begin

text \<open>
  The configuration of the node: addresses are read back as they are printed, the ends of a flow are
  found whatever the order of the links, the lists a configuration holds have the lengths its users
  rely on, and stream numbers do not collide.
\<close>

section \<open>Addresses\<close>

lemma hex_value_hex_char: "d < 16 \<Longrightarrow> hex_value (hex_char d) = Some d"
  by (auto simp: hex_char_def hex_value_def Let_def)

lemma of_hex_char: "d < 16 \<Longrightarrow> (of_char (hex_char d) :: nat) = (if d < 10 then 48 + d else 55 + d)"
  by (simp add: hex_char_def)

lemma hex_char_plain:
  assumes "d < 16"
  shows "\<not> is_space (hex_char d)" "hex_char d \<noteq> CHR ''+''" "hex_char d \<noteq> CHR ''-''"
    "hex_char d \<noteq> CHR ''x''" "hex_char d \<noteq> CHR ''X''"
proof -
  have ne: "hex_char d \<noteq> c" if "(of_char c :: nat) < 48 \<or> 70 < (of_char c :: nat)" for c
  proof
    assume "hex_char d = c"
    then have "(of_char (hex_char d) :: nat) = of_char c" by simp
    then show False using that assms by (auto simp: of_hex_char split: if_splits)
  qed
  show "\<not> is_space (hex_char d)"
    using assms by (auto simp: is_space_def of_hex_char Let_def)
  show "hex_char d \<noteq> CHR ''+''" "hex_char d \<noteq> CHR ''-''"
    "hex_char d \<noteq> CHR ''x''" "hex_char d \<noteq> CHR ''X''"
    by (rule ne; simp)+
qed

lemma colon_no_hex: "hex_value CHR '':'' = None"
  by (simp add: hex_value_def)

text \<open>Reading a byte back from its two digits, at the end of the text or before a colon.\<close>

lemma stoi16_byte:
  assumes "rest = [] \<or> hd rest = CHR '':''"
  shows "stoi16 (show_byte b @ rest) = Some (uint b, 2)"
proof -
  let ?h = "unat b div 16" and ?l = "unat b mod 16"
  have b: "unat b < 256" using unsigned_less[of b, where 'a = nat] by simp
  then have h: "?h < 16" "?l < 16" by auto
  have r: "hex_digits rest v n = (v, n)" for v n
    using assms colon_no_hex by (cases rest) auto
  have d: "hex_digits (show_byte b @ rest) 0 0 = (unat b, 2)"
    using h by (simp add: show_byte_def hex_value_hex_char r)
  have x: "\<not> has_prefix0x (show_byte b @ rest)"
    using hex_char_plain[OF h(2)] by (cases rest) (auto simp: has_prefix0x_def show_byte_def)
  have u: "int (unat b) = uint b" by simp
  show ?thesis
    using hex_char_plain[OF h(1)] d x b
    unfolding stoi16_def Let_def
    by (simp add: show_byte_def u)
qed

text \<open>
  Round trip of addresses: six bytes printed as two-digit upper-case hexadecimal numbers with colons
  between them are read back by the constructor of \<open>MacAddr\<close>.
\<close>

theorem MacAddr_show_mac:
  assumes "length bs = 6"
  shows "MacAddr (show_mac bs) = Some bs"
proof -
  obtain a b c d e f where bs: "bs = [a, b, c, d, e, f]"
    using assms by (auto simp: numeral_eq_Suc length_Suc_conv)
  have l: "length (show_byte x) = 2" for x by (simp add: show_byte_def)
  have dr: "drop (Suc 2) (show_byte x @ CHR '':'' # ys) = ys" for x ys by (simp add: l)
  have n: "(show_byte x @ CHR '':'' # ys) ! 2 = CHR '':''" for x ys by (simp add: nth_append l)
  show ?thesis
    by (simp add: bs MacAddr_def mac_bytes.simps stoi16_byte stoi16_byte[where rest = "[]", simplified] dr n l)
qed

section \<open>The ends of a flow\<close>

lemma lone_id_found: "r \<noteq> -1 \<Longrightarrow> lone_id xs ys r = (if set xs \<subseteq> set ys then Some r else None)"
  by (induction xs) auto

lemma lone_id_iff:
  assumes "distinct xs" "-1 \<notin> set xs"
  shows "lone_id xs ys (-1) = Some a \<and> a \<noteq> -1 \<longleftrightarrow> set xs - set ys = {a}"
  using assms
proof (induction xs)
  case Nil
  then show ?case by auto
next
  case (Cons x xs)
  show ?case
  proof (cases "x \<in> set ys")
    case True
    then show ?thesis using Cons by (simp add: insert_Diff_if)
  next
    case False
    then have "lone_id (x # xs) ys (-1) = (if set xs \<subseteq> set ys then Some x else None)"
      using Cons.prems by (simp add: lone_id_found)
    moreover have "set (x # xs) - set ys = {a} \<longleftrightarrow> set xs \<subseteq> set ys \<and> a = x"
    proof -
      have "x \<notin> set xs - set ys" using Cons.prems by simp
      then show ?thesis using False by (auto simp: insert_Diff_if)
    qed
    moreover have "x \<noteq> -1" using Cons.prems by simp
    ultimately show ?thesis by (auto split: if_splits)
  qed
qed

text \<open>The links a flow is scheduled on, as pairs of nodes.\<close>

definition on_link :: "int \<Rightarrow> int \<Rightarrow> json \<Rightarrow> int \<Rightarrow> int \<Rightarrow> bool" where
  "on_link job_id flow_id elem src dst \<longleftrightarrow> jtype_is ''link'' elem = Some True \<and>
     int_field ''from'' elem = Some src \<and> int_field ''to'' elem = Some dst \<and>
     (\<exists>flows. elems_field ''schedule'' elem = Some flows \<and>
       (\<exists>flow \<in> set flows. flow_matches job_id flow_id flow = Some True))"

definition flow_links :: "json \<Rightarrow> int \<Rightarrow> int \<Rightarrow> (int \<times> int) set" where
  "flow_links sche job_id flow_id =
     {(src, dst). \<exists>elem \<in> set (jelems sche). on_link job_id flow_id elem src dst}"

lemma flow_loop:
  assumes "for_each (flow_step j f src dst) flows sets = Some sets'"
  shows "set (fst sets') = set (fst sets) \<union> {s. s = src \<and> (\<exists>fl \<in> set flows. flow_matches j f fl = Some True)} \<and>
    set (snd sets') = set (snd sets) \<union> {d. d = dst \<and> (\<exists>fl \<in> set flows. flow_matches j f fl = Some True)} \<and>
    (distinct (fst sets) \<and> distinct (snd sets) \<longrightarrow> distinct (fst sets') \<and> distinct (snd sets'))"
  using assms
proof (induction flows arbitrary: sets)
  case Nil
  then show ?case by simp
next
  case (Cons fl flows)
  then obtain b where b: "flow_matches j f fl = Some b"
    by (cases "flow_matches j f fl") (auto simp: flow_step_def)
  then have st: "flow_step j f src dst fl sets =
      Some (if b then (List.insert src (fst sets), List.insert dst (snd sets)) else sets)"
    by (simp add: flow_step_def)
  have "for_each (flow_step j f src dst) flows
      (if b then (List.insert src (fst sets), List.insert dst (snd sets)) else sets) = Some sets'"
    using Cons.prems unfolding for_each.simps st by simp
  from Cons.IH[OF this] b show ?case by (cases b) auto
qed

lemma link_loop:
  assumes "for_each (link_step j f) elems sets = Some sets'"
  shows "set (fst sets') = set (fst sets) \<union> {s. \<exists>e \<in> set elems. \<exists>d. on_link j f e s d} \<and>
    set (snd sets') = set (snd sets) \<union> {d. \<exists>e \<in> set elems. \<exists>s. on_link j f e s d} \<and>
    (distinct (fst sets) \<and> distinct (snd sets) \<longrightarrow> distinct (fst sets') \<and> distinct (snd sets'))"
  using assms
proof (induction elems arbitrary: sets)
  case Nil
  then show ?case by simp
next
  case (Cons e elems)
  from Cons.prems obtain sets1 where s1: "link_step j f e sets = Some sets1"
    "for_each (link_step j f) elems sets1 = Some sets'"
    by (auto simp: bind_eq_Some_conv)
  have "set (fst sets1) = set (fst sets) \<union> {s. \<exists>d. on_link j f e s d} \<and>
    set (snd sets1) = set (snd sets) \<union> {d. \<exists>s. on_link j f e s d} \<and>
    (distinct (fst sets) \<and> distinct (snd sets) \<longrightarrow> distinct (fst sets1) \<and> distinct (snd sets1))"
  proof (cases "jtype_is ''link'' e = Some True")
    case True
    with s1(1) obtain src dst flows where d: "int_field ''from'' e = Some src" "int_field ''to'' e = Some dst"
      "elems_field ''schedule'' e = Some flows" "for_each (flow_step j f src dst) flows sets = Some sets1"
      by (auto simp: link_step_def bind_eq_Some_conv)
    from flow_loop[OF d(4)] True d(1-3) show ?thesis by (auto simp: on_link_def)
  next
    case False
    with s1(1) have "sets1 = sets"
      by (cases "jtype_is ''link'' e") (auto simp: link_step_def)
    with False show ?thesis by (auto simp: on_link_def)
  qed
  with Cons.IH[OF s1(2)] show ?case by auto
qed

text \<open>
  C40. When the schedule is well formed and no node has the identifier -1, \<open>find_src_dst\<close> returns a
  source and a destination exactly when the flow leaves one node that it never enters and enters one
  node that it never leaves, and returns those two; the order in which the links are listed is
  irrelevant.
\<close>

theorem find_src_dst_correct:
  assumes "flow_ends sche job_id flow_id \<noteq> None"
    and "\<And>a b. (a, b) \<in> flow_links sche job_id flow_id \<Longrightarrow> a \<noteq> -1 \<and> b \<noteq> -1"
  shows "find_src_dst sche job_id flow_id = Some (Some (src, dst)) \<longleftrightarrow>
    Domain (flow_links sche job_id flow_id) - Range (flow_links sche job_id flow_id) = {src} \<and>
    Range (flow_links sche job_id flow_id) - Domain (flow_links sche job_id flow_id) = {dst}"
proof -
  obtain sets where s: "flow_ends sche job_id flow_id = Some sets" using assms(1) by blast
  from link_loop[OF s[unfolded flow_ends_def]]
  have o: "set (fst sets) = Domain (flow_links sche job_id flow_id)"
    "set (snd sets) = Range (flow_links sche job_id flow_id)"
    and d: "distinct (fst sets)" "distinct (snd sets)"
    by (auto simp: flow_links_def)
  have m: "-1 \<notin> set (fst sets)" "-1 \<notin> set (snd sets)"
    using assms(2) by (auto simp: o)
  have "find_src_dst sche job_id flow_id = Some (Some (src, dst)) \<longleftrightarrow>
    (lone_id (fst sets) (snd sets) (-1) = Some src \<and> src \<noteq> -1) \<and>
    (lone_id (snd sets) (fst sets) (-1) = Some dst \<and> dst \<noteq> -1)"
    by (auto simp: find_src_dst_def s split: option.splits prod.splits)
  then show ?thesis
    by (simp add: lone_id_iff[OF d(1) m(1)] lone_id_iff[OF d(2) m(2)] o)
qed

section \<open>The streams of the configuration\<close>

lemma mac_bytes_length: "mac_bytes addr i s = Some bs \<Longrightarrow> i \<le> 6 \<Longrightarrow> length bs = 6 - i"
proof (induction addr i s arbitrary: bs rule: mac_bytes.induct)
  case (1 addr i s)
  show ?case
  proof (cases "i < 6")
    case False
    then show ?thesis using "1.prems" by (simp add: mac_bytes.simps)
  next
    case True
    then obtain k p where k: "stoi16 s = Some (k, p)"
      using "1.prems" by (subst (asm) mac_bytes.simps) (auto simp: bind_eq_Some_conv)
    show ?thesis
    proof (cases "i < 5")
      case i: True
      with True k "1.prems" obtain bs' where "mac_bytes addr (i + 1) (drop (p + 1) s) = Some bs'" "bs = word_of_int k # bs'"
        and p: "p < length addr \<and> addr ! p = CHR '':'' \<and> p = 2" "p + 1 \<le> length s"
        by (subst (asm) mac_bytes.simps) (auto split: if_splits)
      with "1.IH"[OF True k refl p(1) i p(2)] i show ?thesis by simp
    next
      case False
      with True k "1.prems" show ?thesis
        by (subst (asm) mac_bytes.simps) (auto split: if_splits)
    qed
  qed
qed

lemma MacAddr_length: "MacAddr s = Some bs \<Longrightarrow> length bs = 6"
  using mac_bytes_length[of s 0 s bs] by (simp add: MacAddr_def)

definition cfg_inv :: "caas_cfg \<Rightarrow> bool" where
  "cfg_inv c \<longleftrightarrow> length (input_seq_ids c) = INPUT_STREAM_NUM c \<and>
     length (output_seq_ids c) = OUTPUT_STREAM_NUM c \<and>
     length (output_dst_addresses c) = OUTPUT_STREAM_NUM c \<and>
     length (output_src_address c) = 6 \<and> (\<forall>a \<in> set (output_dst_addresses c). length a = 6)"

lemma cfg_inv_input: "cfg_inv c \<Longrightarrow> input_step job fl c = Some d \<Longrightarrow> cfg_inv d"
  by (auto simp: input_step_def cfg_inv_def bind_eq_Some_conv split: if_splits)

lemma cfg_inv_output: "cfg_inv c \<Longrightarrow> output_step sche m job fl c = Some d \<Longrightarrow> cfg_inv d"
  by (auto simp: output_step_def cfg_inv_def bind_eq_Some_conv dest: MacAddr_length split: if_splits)

lemma cfg_inv_link:
  assumes "cfg_inv c" "stream_link_step sche m my job e c = Some d"
  shows "cfg_inv d"
proof -
  have i: "cfg_inv u" if "for_each (input_step job) flows t = Some u" "cfg_inv t" for flows t u
    using for_each_inv[where I = cfg_inv, OF that] cfg_inv_input by blast
  have o: "cfg_inv u" if "for_each (output_step sche m job) flows t = Some u" "cfg_inv t" for flows t u
    using for_each_inv[where I = cfg_inv, OF that] cfg_inv_output by blast
  from assms i o show ?thesis
    unfolding stream_link_step_def
    by (auto simp: bind_eq_Some_conv split: if_splits dest!: i o)
qed

lemma cfg_inv_stream:
  assumes "cfg_inv c" "stream_step sche m mac my e c = Some d"
  shows "cfg_inv d"
proof -
  have l: "cfg_inv u" if "for_each (stream_link_step sche m my job) es t = Some u" "cfg_inv t" for job es t u
    using for_each_inv[where I = cfg_inv, OF that] cfg_inv_link by blast
  have j: "cfg_inv u"
    if "for_each (\<lambda>job c. Option.bind (int_field ''job_id'' job)
      (\<lambda>job_id. for_each (stream_link_step sche m my job_id) (jelems sche) c)) jobs t = Some u" "cfg_inv t" for jobs t u
    by (rule for_each_inv[where I = cfg_inv, OF that]) (use l in \<open>auto simp: bind_eq_Some_conv\<close>)
  from assms j show ?thesis
    by (auto simp: stream_step_def bind_eq_Some_conv split: if_splits)
qed

lemma cfg_inv_compute: "cfg_inv c \<Longrightarrow> compute_step mac e c = Some d \<Longrightarrow> cfg_inv d"
  by (auto simp: compute_step_def cfg_inv_def bind_eq_Some_conv split: if_splits)

lemma cfg_inv_init:
  assumes "init_configure line topo sche = Some c"
  shows "cfg_inv c"
proof -
  from assms obtain mac m my c1 where
    m: "MacAddr (get_mac_address line) = Some mac" and
    c1: "for_each (stream_step sche m (get_mac_address line) my) (jelems sche) (cfg0\<lparr>output_src_address := mac\<rparr>) = Some c1"
    and c: "for_each (compute_step (get_mac_address line)) (jelems sche) c1 = Some c"
    by (auto simp: init_configure_def Let_def bind_eq_Some_conv split: if_splits prod.splits)
  have "cfg_inv (cfg0\<lparr>output_src_address := mac\<rparr>)"
    using MacAddr_length[OF m] by (simp add: cfg_inv_def cfg0_def)
  from for_each_inv[where I = cfg_inv, OF c1 this] cfg_inv_stream have "cfg_inv c1" by blast
  from for_each_inv[where I = cfg_inv, OF c this] cfg_inv_compute show ?thesis by blast
qed

text \<open>
  A configuration that \<open>init_configure\<close> accepts is consistent: the stream counters are the lengths
  of the lists of stream numbers, there is one destination address for each output stream, and the source
  address and all destination addresses have six bytes.
\<close>

theorem init_configure_consistent:
  assumes "init_configure line topo sche = Some c"
  shows "length (input_seq_ids c) = INPUT_STREAM_NUM c \<and>
    length (output_seq_ids c) = OUTPUT_STREAM_NUM c \<and>
    length (output_dst_addresses c) = OUTPUT_STREAM_NUM c \<and>
    length (output_src_address c) = 6 \<and> (\<forall>a \<in> set (output_dst_addresses c). length a = 6)"
  using cfg_inv_init[OF assms] by (simp add: cfg_inv_def)

text \<open>
  Streams of jobs and flows numbered below 256 have different numbers in the 16 bits that a frame
  carries.
\<close>

theorem seq_id_injective:
  assumes "0 \<le> j" and "j < 256" and "0 \<le> f" and "f < 256"
    and "0 \<le> j'" and "j' < 256" and "0 \<le> f'" and "f' < 256"
    and "ucast (seq_id_of j f) = (ucast (seq_id_of j' f') :: 16 word)"
  shows "j = j' \<and> f = f'"
proof -
  have v: "unat (ucast (seq_id_of (int a) (int b)) :: 16 word) = 256 * a + b" if "a < 256" "b < 256" for a b
  proof -
    have "ucast (seq_id_of (int a) (int b)) = (word_of_nat (push_bit 8 a OR b) :: 16 word)"
      by (rule bit_word_eqI) (auto simp: seq_id_of_def bit_simps)
    moreover have "unat (word_of_nat (256 * a + b) :: 16 word) = 256 * a + b"
      using that by (simp add: unsigned_of_nat take_bit_eq_mod del: of_nat_add of_nat_mult)
    ultimately show ?thesis by (simp only: two_bytes_or[OF that(2)])
  qed
  obtain a b a' b' where n: "j = int a" "f = int b" "j' = int a'" "f' = int b'"
    using assms(1,3,5,7) by (metis nonneg_int_cases)
  have l: "a < 256" "b < 256" "a' < 256" "b' < 256" using assms(2,4,6,8) by (simp_all add: n)
  have e: "256 * a + b = 256 * a' + b'"
    using v[OF l(1,2)] v[OF l(3,4)] assms(9) by (simp only: n)
  have "(256 * a + b) div 256 = a" "(256 * a' + b') div 256 = a'"
    "(256 * a + b) mod 256 = b" "(256 * a' + b') mod 256 = b'"
    using l by simp_all
  then show ?thesis unfolding e by (simp add: n)
qed

section \<open>A concrete configuration\<close>

text \<open>Two devices and this switch: flow 1 of job 2 comes in from node 1 and flow 2 goes out to node 3.\<close>

definition example_topo :: json where
  "example_topo = JObj [(''nodes'', JArr
     [JObj [(''id'', JInt 1), (''type'', JStr ''device''), (''mac'', JStr ''00:00:00:00:00:01'')],
      JObj [(''id'', JInt 2), (''type'', JStr ''switch''), (''mac'', JStr ''00:00:00:00:00:02'')],
      JObj [(''id'', JInt 3), (''type'', JStr ''device''), (''mac'', JStr ''00:00:00:00:00:03'')]])]"

definition example_sche :: json where
  "example_sche = JArr
     [JObj [(''type'', JStr ''link''), (''from'', JInt 1), (''to'', JInt 2), (''schedule'', JArr
        [JObj [(''job_id'', JInt 2), (''flow_id'', JInt 1)]])],
      JObj [(''type'', JStr ''link''), (''from'', JInt 2), (''to'', JInt 3), (''schedule'', JArr
        [JObj [(''job_id'', JInt 2), (''flow_id'', JInt 2)]])],
      JObj [(''type'', JStr ''switch''), (''mac'', JStr ''00:00:00:00:00:02''), (''schedule'', JArr
        [JObj [(''job_id'', JInt 2), (''period'', JInt 128), (''start'', JInt 16), (''end'', JInt 80)]])]]"

lemmas json_simps = jfield_def jelems_def jstr_def jint_def juint32_def jindex_def jtype_is_def
  int_field_def str_field_def uint32_field_def elems_field_def

lemma MacAddr_show_mac_witness: "MacAddr (show_mac [0, 10, 53, 0, 1, 83]) = Some [0, 10, 53, 0, 1, 83]"
  by (rule MacAddr_show_mac) simp

lemma seq_id_injective_witness:
  "(ucast (seq_id_of 2 1) = (ucast (seq_id_of 2 1) :: 16 word)) \<and> (2 = (2 :: int) \<and> 1 = (1 :: int))"
  using seq_id_injective[of 2 1 2 1] by simp

lemma find_src_dst_correct_witness:
  "find_src_dst example_sche 2 2 = Some (Some (2, 3))"
proof -
  have e: "flow_ends example_sche 2 2 = Some ([2], [3])"
    by (simp add: example_sche_def flow_ends_def link_step_def flow_step_def flow_matches_def json_simps)
  have l: "flow_links example_sche 2 2 = {(2, 3)}"
    by (auto simp: example_sche_def flow_links_def on_link_def flow_matches_def json_simps)
  have "Domain (flow_links example_sche 2 2) - Range (flow_links example_sche 2 2) = {2} \<and>
      Range (flow_links example_sche 2 2) - Domain (flow_links example_sche 2 2) = {3}"
    by (auto simp: l)
  then show ?thesis
    by (subst find_src_dst_correct) (simp_all add: e l)
qed

lemma init_configure_consistent_witness:
  "ok (init_configure ''00:00:00:00:00:02'' example_topo example_sche)
     (\<lambda>c. length (input_seq_ids c) = INPUT_STREAM_NUM c \<and> length (output_src_address c) = 6)"
proof -
  have "init_configure ''00:00:00:00:00:02'' example_topo example_sche \<noteq> None"
    by code_simp
  then show ?thesis
    using init_configure_consistent[of "''00:00:00:00:00:02''" example_topo example_sche]
    by (auto simp: ok_iff)
qed

end
