(* ===== verification/Caas.thy ===== *)
theory Caas
  imports CaasConfig NetState
begin

text \<open>
  The hardware layer of the control-as-a-service node (Packetized-PLC-IO/hardware_layers/blank.cpp).
  Inputs are packets of the configured streams: \<open>updateBuffersIn\<close> keeps the buffer mutex and polls
  for packets until every stream has one of the current cycle, waits for the compute instant of that
  cycle, and sets the PLC's input; \<open>updateBuffersOut\<close> sends one frame per output stream. The DMA
  transfers and the clock readings are arguments. Debug output is left out.
\<close>

section \<open>Frames\<close>

definition PACKET_HEADER_SIZE :: nat where "PACKET_HEADER_SIZE = 42"
definition PACKET_PAYLOAD_SIZE :: nat where "PACKET_PAYLOAD_SIZE = 18"

definition frame_header :: "32 word \<Rightarrow> 64 word \<Rightarrow> 32 word \<Rightarrow> byte list \<Rightarrow> byte list \<Rightarrow> byte list" where
  "frame_header seq_id send_timestamp send_pkt_id src_mac_addr dst_mac_addr =
     [dst_mac_addr ! 0, dst_mac_addr ! 1, dst_mac_addr ! 2, dst_mac_addr ! 3, dst_mac_addr ! 4, dst_mac_addr ! 5,
      src_mac_addr ! 0, src_mac_addr ! 1, src_mac_addr ! 2, src_mac_addr ! 3, src_mac_addr ! 4, src_mac_addr ! 5,
      0x81, 0x00,
      0x20, 0x00,
      0x00, 0x2A,
      0x00, 0x00,
      mem_byte send_timestamp 7, mem_byte send_timestamp 6, mem_byte send_timestamp 5, mem_byte send_timestamp 4,
      mem_byte send_timestamp 3, mem_byte send_timestamp 2, mem_byte send_timestamp 1, mem_byte send_timestamp 0,
      0, 0, 0, 0, 0, 0, 0, 0,
      mem_byte seq_id 1, mem_byte seq_id 0,
      mem_byte send_pkt_id 3, mem_byte send_pkt_id 2, mem_byte send_pkt_id 1, mem_byte send_pkt_id 0]"

text \<open>The bytes \<open>sendFrame\<close> hands to the DMA engine; an address of fewer than six bytes is over-read.\<close>

definition build_frame ::
  "32 word \<Rightarrow> 64 word \<Rightarrow> 32 word \<Rightarrow> byte list \<Rightarrow> byte list \<Rightarrow> byte list option" where
  "build_frame seq_id send_timestamp send_pkt_id src_mac_addr dst_mac_addr =
     (if length src_mac_addr < 6 \<or> length dst_mac_addr < 6 then None
      else let origin_frame_length = PACKET_HEADER_SIZE + PACKET_PAYLOAD_SIZE in
        Some (frame_header seq_id send_timestamp send_pkt_id src_mac_addr dst_mac_addr @
          map (\<lambda>i. word_of_nat (origin_frame_length - i)) [PACKET_HEADER_SIZE..<origin_frame_length]))"

text \<open>The fields \<open>updateBuffersIn\<close> takes from a received buffer.\<close>

definition rx_seq_id :: "byte list \<Rightarrow> 16 word" where
  "rx_seq_id b = push_bit 8 (ucast (b ! 36)) OR ucast (b ! 37)"

definition rx_pkt_id :: "byte list \<Rightarrow> 32 word" where
  "rx_pkt_id b = push_bit 24 (ucast (b ! 38)) OR push_bit 16 (ucast (b ! 39)) OR
     push_bit 8 (ucast (b ! 40)) OR ucast (b ! 41)"

definition rx_tx_timestamp :: "byte list \<Rightarrow> 64 word" where
  "rx_tx_timestamp b = push_bit 56 (ucast (b ! 20)) OR push_bit 48 (ucast (b ! 21)) OR
     push_bit 40 (ucast (b ! 22)) OR push_bit 32 (ucast (b ! 23)) OR
     push_bit 24 (ucast (b ! 24)) OR push_bit 16 (ucast (b ! 25)) OR
     push_bit 8 (ucast (b ! 26)) OR ucast (b ! 27)"

section \<open>State\<close>

record caas =
  image :: plc
  cfg :: caas_cfg
  input_timestamp :: "64 word list"
  input_pkt_id :: "32 word list"
  seqid_index :: "int \<Rightarrow> nat option"
  next_compute_ts :: "64 word"
  dropped :: nat
  send_timestamp :: "64 word"
  send_pkt_id :: "32 word"
  out_pkt_id :: "32 word"
  tx_frames :: "byte list list"
  clock_reads :: nat

definition on_image :: "(plc \<Rightarrow> plc option) \<Rightarrow> caas \<Rightarrow> caas option" where
  "on_image f s = map_option (\<lambda>p. s\<lparr>image := p\<rparr>) (f (image s))"

text \<open>\<open>dma_init\<close> stops the process when a device cannot be opened or mapped.\<close>

definition dma_init :: "(int \<times> bool) list \<Rightarrow> (int \<times> bool) list \<Rightarrow> unit option" where
  "dma_init tx rx =
     (if (\<exists>c \<in> set tx. fst c < 1 \<or> \<not> snd c) \<or> (\<exists>c \<in> set rx. fst c < 1 \<or> \<not> snd c)
      then None else Some ())"

text \<open>
  \<open>initializeHardware\<close>, with the configuration that \<open>init_configure\<close> computed. \<open>junk\<close> is what
  \<open>malloc\<close> left in the array of packet numbers, which is not cleared.
\<close>

definition index_streams :: "32 word list \<Rightarrow> int \<Rightarrow> nat option" where
  "index_streams ids = fold (\<lambda>i m. m(sint (ids ! i) \<mapsto> i)) [0..<length ids] Map.empty"

definition initializeHardware ::
  "string \<Rightarrow> json \<Rightarrow> json \<Rightarrow> (int \<times> bool) list \<Rightarrow> (int \<times> bool) list \<Rightarrow> (nat \<Rightarrow> 32 word) \<Rightarrow>
   caas \<Rightarrow> caas option" where
  "initializeHardware line topo sche tx rx junk s = do {
     c \<leftarrow> init_configure line topo sche;
     u \<leftarrow> dma_init tx rx;
     Some (s\<lparr>cfg := c,
       input_timestamp := replicate (INPUT_STREAM_NUM c) 0,
       input_pkt_id := map junk [0..<INPUT_STREAM_NUM c],
       out_pkt_id := 0,
       seqid_index := index_streams (input_seq_ids c)\<rparr>)
   }"

section \<open>Receiving\<close>

text \<open>
  One pass of the polling loop: whether the transfer succeeded, the bytes in the DMA buffer, the
  clock when they are looked at, and the clock readings of the final wait, if it comes to that.
\<close>

record rx_event =
  rx_success :: bool
  rx_bytes :: "byte list"
  rx_now :: "64 word"
  rx_clock :: "64 word list"

text \<open>The compute instant of a packet sent at \<open>tx\<close> and seen at \<open>now\<close>; \<^term>\<open>None\<close> drops it.\<close>

definition compute_instant :: "64 word \<Rightarrow> 64 word \<Rightarrow> 64 word \<Rightarrow> 64 word \<Rightarrow> 64 word option" where
  "compute_instant cycle offset tx now =
     (let past_cycles = tx div cycle in
      if past_cycles * cycle + offset \<ge> now then Some (past_cycles * cycle + offset)
      else if offset \<le> tx mod cycle then Some ((past_cycles + 1) * cycle + offset)
      else None)"

text \<open>The loop that decides whether all streams have a packet of this cycle.\<close>

definition gate_step ::
  "64 word \<Rightarrow> 64 word \<Rightarrow> 64 word \<Rightarrow> 64 word \<times> 32 word \<Rightarrow> bool \<times> 64 word \<times> 32 word \<Rightarrow> bool \<times> 64 word \<times> 32 word" where
  "gate_step instant cycle first stream acc =
     (let (ts, pid) = stream; (send_packet, sts, spid) = acc
      in (send_packet \<and> ts \<ge> instant - cycle \<and> first \<noteq> 0,
          if sts > ts then ts else sts, if spid < pid then pid else spid))"

text \<open>\<open>std::map::operator[]\<close> inserts a zero for a key it does not have.\<close>

definition map_index :: "int \<Rightarrow> (int \<Rightarrow> nat option) \<Rightarrow> nat \<times> (int \<Rightarrow> nat option)" where
  "map_index k m = (case m k of Some i \<Rightarrow> (i, m) | None \<Rightarrow> (0, m(k \<mapsto> 0)))"

text \<open>What a received packet does; the result tells whether \<open>send_packet\<close> holds.\<close>

definition rx_packet :: "byte list \<Rightarrow> 64 word \<Rightarrow> caas \<Rightarrow> (bool \<times> caas) option" where
  "rx_packet b now s =
     (if length b < 42 \<or> CYCLE_TIME (cfg s) = 0 then None
      else let cycle = ucast (CYCLE_TIME (cfg s)); offset = ucast (COMPUTE_OFFSET (cfg s));
               tx = rx_tx_timestamp b
        in (case compute_instant cycle offset tx now of
              None \<Rightarrow> Some (False, s\<lparr>dropped := dropped s + 1\<rparr>)
            | Some instant \<Rightarrow> do {
                let (i, m) = map_index (uint (rx_seq_id b)) (seqid_index s);
                ts \<leftarrow> wr (input_timestamp s) i tx;
                pids \<leftarrow> wr (input_pkt_id s) i (rx_pkt_id b);
                first \<leftarrow> rd ts 0;
                pid0 \<leftarrow> rd pids 0;
                let (send_packet, sts, spid) =
                  fold (gate_step instant cycle first) (zip ts pids) (True, first, pid0);
                Some (send_packet, s\<lparr>next_compute_ts := instant, seqid_index := m,
                  input_timestamp := ts, input_pkt_id := pids,
                  send_timestamp := sts, send_pkt_id := spid\<rparr>)
              }))"

text \<open>The polling loop ends, or it is still waiting when the events run out.\<close>

datatype rx_end = Released | Waiting

fun rx_loop :: "rx_event list \<Rightarrow> caas \<Rightarrow> (rx_end \<times> caas) option" where
  "rx_loop [] s = Some (Waiting, s)"
| "rx_loop (e # es) s =
     (if \<not> rx_success e then rx_loop es s
      else Option.bind (rx_packet (rx_bytes e) (rx_now e) s) (\<lambda>(send_packet, s).
        if \<not> send_packet then rx_loop es s
        else if \<exists>t \<in> set (rx_clock e). t \<ge> next_compute_ts s then Some (Released, s)
        else Some (Waiting, s)))"

definition updateBuffersIn :: "rx_event list \<Rightarrow> caas \<Rightarrow> (rx_end \<times> caas) option" where
  "updateBuffersIn es s = do {
     s \<leftarrow> on_image lock s;
     q \<leftarrow> bool_at (bool_input (image s)) (0 div 8) (0 mod 8);
     (if q = None then map_option (\<lambda>s. (Released, s)) (on_image unlock s)
      else do {
        r \<leftarrow> rx_loop es s;
        (case fst r of
           Waiting \<Rightarrow> Some r
         | Released \<Rightarrow> do {
             s \<leftarrow> on_image (\<lambda>p. Some (store_bool q 1 p)) (snd r);
             map_option (\<lambda>s. (Released, s)) (on_image unlock s)
           })
      })
   }"

section \<open>Sending\<close>

text \<open>\<open>sendFrame\<close> with the result of its transfer.\<close>

definition sendFrame ::
  "bool \<Rightarrow> 32 word \<Rightarrow> 64 word \<Rightarrow> 32 word \<Rightarrow> byte list \<Rightarrow> byte list \<Rightarrow> caas \<Rightarrow> caas option" where
  "sendFrame success seq_id ts pid src dst s = do {
     b \<leftarrow> build_frame seq_id ts pid src dst;
     Some (s\<lparr>tx_frames := tx_frames s @ [b],
       out_pkt_id := (if success then out_pkt_id s + 1 else out_pkt_id s)\<rparr>)
   }"

text \<open>
  How often the loop that simulates control logic reads the clock: the subtraction is done in 32
  bits. \<open>clock_reads\<close> counts the readings of \<open>updateBuffersOut\<close>, each of which takes time.
\<close>

definition compute_times :: "32 word \<Rightarrow> 64 word" where
  "compute_times compute_time = ucast (compute_time - 200000) div 3504"

definition send_step :: "(nat \<Rightarrow> bool) \<Rightarrow> nat \<Rightarrow> caas \<Rightarrow> caas option" where
  "send_step success i s = do {
     sid \<leftarrow> rd (output_seq_ids (cfg s)) i;
     dst \<leftarrow> rd (output_dst_addresses (cfg s)) i;
     sendFrame (success i) sid (send_timestamp s) (send_pkt_id s) (output_src_address (cfg s)) dst s
   }"

definition updateBuffersOut :: "(nat \<Rightarrow> bool) \<Rightarrow> caas \<Rightarrow> caas option" where
  "updateBuffersOut success s = do {
     s \<leftarrow> on_image lock s;
     q \<leftarrow> bool_at (bool_output (image s)) (0 div 8) (0 mod 8);
     s \<leftarrow> (case q of
         None \<Rightarrow> Some s
       | Some a \<Rightarrow>
           if bools (image s) a = 1
           then for_each (send_step success) [0..<OUTPUT_STREAM_NUM (cfg s)]
             (s\<lparr>clock_reads := clock_reads s + 1 + unat (compute_times (COMPUTE_TIME (cfg s)))\<rparr>)
           else Some s);
     on_image unlock s
   }"

end
