(* ===== verification/Caas_Props.thy ===== *)
theory Caas_Props
  imports Caas CaasConfig_Props
begin

text \<open>
  The control-as-a-service node: frames are read back as they were built, the compute instant of a
  packet is the right one, the wait for packets keeps its invariant and ends when every stream has
  sent, the frames sent carry what the inputs brought, and a frame of one node arrives at the next.
\<close>

section \<open>Frames\<close>

lemma header_length: "length (frame_header sid ts pid src dst) = 42"
  by (simp add: frame_header_def)

lemma header_nth: "i < 42 \<Longrightarrow> (frame_header sid ts pid src dst @ xs) ! i = frame_header sid ts pid src dst ! i"
  by (simp add: nth_append header_length)

lemma frame_fields:
  assumes "length src = 6" and "length dst = 6" and "build_frame sid ts pid src dst = Some b"
  shows "length b = 60 \<and> take 6 b = dst \<and> take 6 (drop 6 b) = src \<and>
    rx_seq_id b = ucast sid \<and> rx_pkt_id b = pid \<and> rx_tx_timestamp b = ts"
proof -
  obtain d0 d1 d2 d3 d4 d5 where d: "dst = [d0, d1, d2, d3, d4, d5]"
    using assms(2) by (auto simp: numeral_eq_Suc length_Suc_conv)
  obtain s0 s1 s2 s3 s4 s5 where s: "src = [s0, s1, s2, s3, s4, s5]"
    using assms(1) by (auto simp: numeral_eq_Suc length_Suc_conv)
  have b: "b = frame_header sid ts pid src dst @
      map (\<lambda>i. word_of_nat (60 - i)) [42..<60]"
    using assms by (simp add: build_frame_def PACKET_HEADER_SIZE_def PACKET_PAYLOAD_SIZE_def)
  show ?thesis
    using bytes2[of sid] bytes4[of pid] bytes8[of ts]
    by (simp add: b d s rx_seq_id_def rx_pkt_id_def rx_tx_timestamp_def frame_header_def)
qed

lemma build_frame_total:
  assumes "length src = 6" and "length dst = 6"
  shows "build_frame sid ts pid src dst \<noteq> None"
  using assms by (simp add: build_frame_def Let_def)

text \<open>
  Round trip of frames: the 60 bytes \<open>sendFrame\<close> hands to the DMA engine carry the two addresses, and
  the receiver's expressions read back the time stamp, the packet number and the low 16 bits of the stream
  number, for all values of the three.
\<close>

theorem frame_roundtrip:
  assumes "length src = 6" and "length dst = 6"
  shows "ok (build_frame sid ts pid src dst) (\<lambda>b. length b = 60 \<and> take 6 b = dst \<and>
    take 6 (drop 6 b) = src \<and> rx_seq_id b = ucast sid \<and> rx_pkt_id b = pid \<and> rx_tx_timestamp b = ts)"
  using frame_fields[OF assms] build_frame_total[OF assms, of sid ts pid] by (auto simp: ok_iff)

section \<open>The compute instant\<close>

lemma compute_instant_nat:
  fixes cycle offset tx now :: "64 word"
  assumes "0 < cycle" and "offset < cycle" and "unat tx + 2 * unat cycle < 2 ^ 64"
  defines "t0 \<equiv> unat tx - unat tx mod unat cycle + unat offset"
  shows "map_option unat (compute_instant cycle offset tx now) =
    (if unat now \<le> t0 then Some t0
     else if unat offset \<le> unat tx mod unat cycle then Some (t0 + unat cycle) else None)"
proof -
  have c: "0 < unat cycle" "unat offset < unat cycle" using assms(1,2) by (simp_all add: word_less_nat_alt)
  have q: "unat tx div unat cycle * unat cycle = unat tx - unat tx mod unat cycle"
    by (simp add: minus_mod_eq_div_mult)
  have l: "unat tx - unat tx mod unat cycle \<le> unat tx" by simp
  have m: "unat (tx div cycle * cycle) = unat tx - unat tx mod unat cycle"
  proof -
    have "unat (tx div cycle) * unat cycle < 2 ^ LENGTH(64)"
      using assms(3) by (simp add: unat_div q)
    from unat_mult_small[OF this] show ?thesis by (simp add: unat_div q)
  qed
  have t: "unat (tx div cycle * cycle + offset) = t0"
    using unat_plus_small[of "tx div cycle * cycle" offset] assms(3) c l by (simp add: m t0_def)
  have s: "(tx div cycle + 1) * cycle + offset = (tx div cycle * cycle + offset) + cycle"
    by (simp add: algebra_simps)
  have u: "unat ((tx div cycle + 1) * cycle + offset) = t0 + unat cycle"
    unfolding s using unat_plus_small[of "tx div cycle * cycle + offset" cycle] assms(3) c l
    by (simp add: t) (simp add: t0_def)
  show ?thesis
    by (simp add: compute_instant_def Let_def word_le_nat_alt t u unat_mod)
qed

text \<open>
  The compute instant of a packet that was sent at \<open>tx\<close> and is seen at \<open>now\<close>, not earlier, when the
  clock is two cycles away from its end: it is \<open>offset\<close> into a cycle, and lies in the cycle that follows
  \<open>tx\<close>. It still lies ahead of \<open>now\<close> if the packet took at most \<open>offset\<close>. A packet is dropped only when the
  instant of the cycle it was sent in came after it was sent and has passed. (A packet that is later still
  but was sent after the instant of its cycle is not dropped, and its instant may have passed.)
\<close>

theorem compute_instant_spec:
  fixes cycle offset tx now :: "64 word"
  assumes "0 < cycle" and "offset < cycle" and "unat tx + 2 * unat cycle < 2 ^ 64" and "tx \<le> now"
  shows "case compute_instant cycle offset tx now of
      Some t \<Rightarrow> unat t mod unat cycle = unat offset \<and> tx \<le> t \<and> unat t \<le> unat tx + unat cycle \<and>
        (unat now \<le> unat tx + unat offset \<longrightarrow> now \<le> t)
    | None \<Rightarrow> unat tx < unat tx div unat cycle * unat cycle + unat offset \<and>
        unat tx div unat cycle * unat cycle + unat offset < unat now"
proof -
  let ?c = "unat cycle" and ?o = "unat offset" and ?x = "unat tx"
  have c: "0 < ?c" "?o < ?c" using assms(1,2) by (simp_all add: word_less_nat_alt)
  have n: "?x \<le> unat now" using assms(4) by (simp add: word_le_nat_alt)
  have q: "?x - ?x mod ?c = ?x div ?c * ?c" by (simp add: minus_mod_eq_div_mult)
  have x: "?x = ?x div ?c * ?c + ?x mod ?c" by simp
  have r: "?x mod ?c < ?c" using c by simp
  have mo: "(k * ?c + ?o) mod ?c = ?o" "(k * ?c + ?o + ?c) mod ?c = ?o" for k using c by simp_all
  note e = compute_instant_nat[OF assms(1-3), of now, unfolded q]
  show ?thesis
  proof (cases "compute_instant cycle offset tx now")
    case None
    with e have "\<not> unat now \<le> ?x div ?c * ?c + ?o" "?x mod ?c < ?o" by (auto split: if_splits)
    moreover have "?x < ?x div ?c * ?c + ?o" using x calculation(2) by linarith
    ultimately show ?thesis by (simp add: None)
  next
    case (Some t)
    with e have "unat t = ?x div ?c * ?c + ?o \<and> unat now \<le> ?x div ?c * ?c + ?o \<or>
      unat t = ?x div ?c * ?c + ?o + ?c \<and> ?o \<le> ?x mod ?c"
      by (auto split: if_splits)
    then show ?thesis
    proof
      assume a: "unat t = ?x div ?c * ?c + ?o \<and> unat now \<le> ?x div ?c * ?c + ?o"
      then have "?x \<le> unat t \<and> unat t \<le> ?x + ?c \<and> unat now \<le> unat t"
        using n x r c by linarith
      moreover have "unat t mod ?c = ?o" using a mo(1) by simp
      ultimately show ?thesis by (simp add: Some word_le_nat_alt)
    next
      assume a: "unat t = ?x div ?c * ?c + ?o + ?c \<and> ?o \<le> ?x mod ?c"
      then have "?x \<le> unat t \<and> unat t \<le> ?x + ?c \<and> (unat now \<le> ?x + ?o \<longrightarrow> unat now \<le> unat t)"
        using n x r c by linarith
      moreover have "unat t mod ?c = ?o" using a mo(2) by simp
      ultimately show ?thesis by (simp add: Some word_le_nat_alt)
    qed
  qed
qed

section \<open>Receiving\<close>

text \<open>The invariant of the receiver: one time stamp and one packet number per stream, and every index valid.\<close>

definition caas_inv :: "caas \<Rightarrow> bool" where
  "caas_inv s \<longleftrightarrow> length (input_timestamp s) = INPUT_STREAM_NUM (cfg s) \<and>
     length (input_pkt_id s) = INPUT_STREAM_NUM (cfg s) \<and> 0 < INPUT_STREAM_NUM (cfg s) \<and>
     (\<forall>k i. seqid_index s k = Some i \<longrightarrow> i < INPUT_STREAM_NUM (cfg s)) \<and> CYCLE_TIME (cfg s) \<noteq> 0"

text \<open>The stream a packet is filed under: an unknown one is filed under stream 0.\<close>

definition rx_stream :: "caas \<Rightarrow> byte list \<Rightarrow> nat" where
  "rx_stream s b = fst (map_index (uint (rx_seq_id b)) (seqid_index s))"

definition rx_instant :: "caas \<Rightarrow> byte list \<Rightarrow> 64 word \<Rightarrow> 64 word option" where
  "rx_instant s b now =
     compute_instant (ucast (CYCLE_TIME (cfg s))) (ucast (COMPUTE_OFFSET (cfg s))) (rx_tx_timestamp b) now"

definition fresh :: "caas \<Rightarrow> 64 word \<Rightarrow> 64 word \<Rightarrow> bool" where
  "fresh s instant ts \<longleftrightarrow> instant - ucast (CYCLE_TIME (cfg s)) \<le> ts"

lemma gate_fold:
  "fold (gate_step instant cycle first) xs (b, m, p) =
     (b \<and> (\<forall>x \<in> set xs. instant - cycle \<le> fst x \<and> first \<noteq> 0),
      fold min (map fst xs) m, fold max (map snd xs) p)"
proof (induction xs arbitrary: b m p)
  case Nil
  then show ?case by simp
next
  case (Cons x xs)
  have "gate_step instant cycle first x (b, m, p) =
      (b \<and> instant - cycle \<le> fst x \<and> first \<noteq> 0, min (fst x) m, max (snd x) p)"
    by (cases x) (auto simp: gate_step_def min_def max_def)
  then show ?case using Cons by auto
qed

lemma zip_all:
  assumes "length ts = length ps" and "ts \<noteq> []"
  shows "(\<forall>x \<in> set (zip ts ps). A (fst x) \<and> B) \<longleftrightarrow> (\<forall>t \<in> set ts. A t) \<and> B"
proof -
  have f: "fst ` set (zip ts ps) = set ts" using assms by (metis list.set_map map_fst_zip)
  have "set (zip ts ps) \<noteq> {}" using f assms(2) by auto
  then obtain z where "z \<in> set (zip ts ps)" by (metis ex_in_conv)
  then show ?thesis unfolding f[symmetric] by blast
qed

lemma fold_min_first: "xs \<noteq> [] \<Longrightarrow> fold min xs (xs ! 0) = Min (set xs)" for xs :: "'a::linorder list"
  by (cases xs) (simp_all flip: Min.set_eq_fold)

lemma fold_max_first: "xs \<noteq> [] \<Longrightarrow> fold max xs (xs ! 0) = Max (set xs)" for xs :: "'a::linorder list"
  by (cases xs) (simp_all flip: Max.set_eq_fold)

lemma map_index_eq: "map_index k m = (fst (map_index k m), m(k \<mapsto> fst (map_index k m)))"
  by (auto simp: map_index_def split: option.splits)

text \<open>What a packet does in a state that satisfies the invariant.\<close>

lemma rx_packet_eq:
  assumes "caas_inv s" and "42 \<le> length b"
  shows "rx_packet b now s = Some (case rx_instant s b now of
      None \<Rightarrow> (False, s\<lparr>dropped := dropped s + 1\<rparr>)
    | Some instant \<Rightarrow>
        let ts = (input_timestamp s)[rx_stream s b := rx_tx_timestamp b];
            pids = (input_pkt_id s)[rx_stream s b := rx_pkt_id b]
        in ((\<forall>x \<in> set ts. fresh s instant x) \<and> ts ! 0 \<noteq> 0,
          s\<lparr>next_compute_ts := instant, seqid_index := (seqid_index s)(uint (rx_seq_id b) \<mapsto> rx_stream s b),
            input_timestamp := ts, input_pkt_id := pids,
            send_timestamp := Min (set ts), send_pkt_id := Max (set pids)\<rparr>))"
proof (cases "rx_instant s b now")
  case None
  then show ?thesis using assms by (simp add: rx_packet_def rx_instant_def caas_inv_def Let_def)
next
  case (Some instant)
  let ?i = "rx_stream s b"
  let ?ts = "(input_timestamp s)[?i := rx_tx_timestamp b]" and ?ps = "(input_pkt_id s)[?i := rx_pkt_id b]"
  have i: "?i < INPUT_STREAM_NUM (cfg s)"
    using assms(1) by (auto simp: rx_stream_def map_index_def caas_inv_def split: option.splits)
  have l: "length ?ts = INPUT_STREAM_NUM (cfg s)" "length ?ps = INPUT_STREAM_NUM (cfg s)"
    and n: "?ts \<noteq> []" "?ps \<noteq> []" "0 < INPUT_STREAM_NUM (cfg s)"
    using assms(1) by (auto simp: caas_inv_def)
  have g: "fold (gate_step instant (ucast (CYCLE_TIME (cfg s))) (?ts ! 0)) (zip ?ts ?ps) (True, ?ts ! 0, ?ps ! 0) =
      ((\<forall>x \<in> set ?ts. fresh s instant x) \<and> ?ts ! 0 \<noteq> 0, Min (set ?ts), Max (set ?ps))"
    using l n by (simp only: gate_fold zip_all map_fst_zip map_snd_zip fold_min_first fold_max_first fresh_def simp_thms)
  have mi: "map_index (uint (rx_seq_id b)) (seqid_index s) =
      (?i, (seqid_index s)(uint (rx_seq_id b) \<mapsto> ?i))"
    using map_index_eq by (simp add: rx_stream_def)
  from assms Some i l n g show ?thesis
    by (simp add: rx_packet_def rx_instant_def caas_inv_def Let_def mi wr_def rd_def)
qed


lemma rx_packet_inv:
  assumes "caas_inv s" and "42 \<le> length b"
  shows "ok (rx_packet b now s) (\<lambda>r. caas_inv (snd r) \<and> cfg (snd r) = cfg s \<and> image (snd r) = image s)"
proof -
  have "rx_stream s b < INPUT_STREAM_NUM (cfg s)"
    using assms(1) by (auto simp: rx_stream_def map_index_def caas_inv_def split: option.splits)
  with assms show ?thesis
    by (auto simp: rx_packet_eq caas_inv_def Let_def split: option.splits)
qed

text \<open>
  C37. A packet that is not dropped sets the next compute instant, files its time stamp and its number under
  its stream and touches no other stream; the time stamp to be sent is the oldest of all streams and the
  number the largest, and the wait ends exactly when every stream has a packet sent at most one cycle
  before that instant (and stream 0 has one at all).
\<close>

theorem rx_packet_gate:
  assumes "caas_inv s" and "42 \<le> length b" and "rx_instant s b now = Some instant"
  shows "ok (rx_packet b now s) (\<lambda>(go, t). next_compute_ts t = instant \<and>
    (\<forall>i < INPUT_STREAM_NUM (cfg s).
      input_timestamp t ! i = (if i = rx_stream s b then rx_tx_timestamp b else input_timestamp s ! i) \<and>
      input_pkt_id t ! i = (if i = rx_stream s b then rx_pkt_id b else input_pkt_id s ! i)) \<and>
    send_timestamp t = Min (set (input_timestamp t)) \<and> send_pkt_id t = Max (set (input_pkt_id t)) \<and>
    (go \<longleftrightarrow> (\<forall>ts \<in> set (input_timestamp t). instant - ucast (CYCLE_TIME (cfg s)) \<le> ts) \<and>
      input_timestamp t ! 0 \<noteq> 0) \<and>
    dropped t = dropped s \<and> image t = image s \<and> cfg t = cfg s)"
  using assms(1) unfolding rx_packet_eq[OF assms(1,2)]
  by (auto simp: assms(3) Let_def fresh_def caas_inv_def)

text \<open>
  A packet of a stream that the configuration does not know is not ignored: when no unknown stream was
  seen before, it replaces the time stamp and the packet number of stream 0.
\<close>

theorem unknown_stream_replaces_first:
  assumes "caas_inv s" and "42 \<le> length b" and "rx_instant s b now \<noteq> None"
    and "seqid_index s (uint (rx_seq_id b)) = None"
  shows "ok (rx_packet b now s) (\<lambda>(go, t). input_timestamp t ! 0 = rx_tx_timestamp b \<and>
    input_pkt_id t ! 0 = rx_pkt_id b)"
proof -
  obtain instant where i: "rx_instant s b now = Some instant" using assms(3) by blast
  have r: "rx_stream s b = 0" using assms(4) by (simp add: rx_stream_def map_index_def)
  show ?thesis
    using assms(1) unfolding rx_packet_eq[OF assms(1,2)]
    by (auto simp: i Let_def r caas_inv_def)
qed

section \<open>Waiting for all streams\<close>

lemma rx_loop_inv:
  assumes "caas_inv s" and "\<forall>e \<in> set es. 42 \<le> length (rx_bytes e)"
  shows "ok (rx_loop es s) (\<lambda>r. caas_inv (snd r) \<and> cfg (snd r) = cfg s \<and> image (snd r) = image s)"
  using assms
proof (induction es arbitrary: s)
  case Nil
  then show ?case by simp
next
  case (Cons e es)
  have "42 \<le> length (rx_bytes e)" using Cons.prems(2) by simp
  from rx_packet_inv[OF Cons.prems(1) this, of "rx_now e"] obtain go t where
    p: "rx_packet (rx_bytes e) (rx_now e) s = Some (go, t)" and
    i: "caas_inv t" "cfg t = cfg s" "image t = image s"
    by (auto simp: ok_iff)
  show ?case
    using Cons.IH[OF i(1)] Cons.IH[OF Cons.prems(1)] Cons.prems i
    by (auto simp: p)
qed

text \<open>
  \<open>updateBuffersIn\<close> does not fault on packets that reach the end of the header, keeps the invariant
  and changes nothing of the image but the mutex and the input. When it returns, the mutex is free
  and the input is 1; while it waits for packets or for the compute instant, it holds the mutex.
\<close>

theorem updateBuffersIn_safe:
  assumes "caas_inv s" and "\<forall>e \<in> set es. 42 \<le> length (rx_bytes e)"
    and "\<not> bufferLock (image s)" and "bool_input (image s) 0 0 = Some q"
  shows "ok (updateBuffersIn es s) (\<lambda>(r, t). caas_inv t \<and> cfg t = cfg s \<and>
    image t = (case r of Released \<Rightarrow> set_bool q 1 (image s) | Waiting \<Rightarrow> (image s)\<lparr>bufferLock := True\<rparr>))"
proof -
  let ?s = "s\<lparr>image := (image s)\<lparr>bufferLock := True\<rparr>\<rparr>"
  have i: "caas_inv ?s" using assms(1) by (simp add: caas_inv_def)
  from rx_loop_inv[OF i assms(2)] obtain r t where
    l: "rx_loop es ?s = Some (r, t)" and
    t: "caas_inv t" "cfg t = cfg s" "image t = (image s)\<lparr>bufferLock := True\<rparr>"
    by (auto simp: ok_iff)
  have u: "(set_bool q 1 ((image s)\<lparr>bufferLock := True\<rparr>))\<lparr>bufferLock := False\<rparr> = set_bool q 1 (image s)"
    using assms(3) by (cases "image s") (simp add: set_bool_def)
  show ?thesis
    using assms(3,4) t u
    by (cases r) (simp_all add: updateBuffersIn_def on_image_def lock_def unlock_def l store_bool_def caas_inv_def)
qed

lemma rx_stream_less: "caas_inv s \<Longrightarrow> rx_stream s b < INPUT_STREAM_NUM (cfg s)"
  by (auto simp: rx_stream_def map_index_def caas_inv_def split: option.splits)

text \<open>One packet for the cycle that ends at \<open>instant\<close>, and the clock reaching the instant after it.\<close>

definition on_time :: "caas_cfg \<Rightarrow> 64 word \<Rightarrow> rx_event \<Rightarrow> bool" where
  "on_time c instant e \<longleftrightarrow> rx_success e \<and> 42 \<le> length (rx_bytes e) \<and>
     compute_instant (ucast (CYCLE_TIME c)) (ucast (COMPUTE_OFFSET c)) (rx_tx_timestamp (rx_bytes e)) (rx_now e) =
       Some instant \<and>
     instant - ucast (CYCLE_TIME c) \<le> rx_tx_timestamp (rx_bytes e) \<and> rx_tx_timestamp (rx_bytes e) \<noteq> 0 \<and>
     (\<exists>t \<in> set (rx_clock e). instant \<le> t)"

definition ready :: "64 word \<Rightarrow> caas \<Rightarrow> nat \<Rightarrow> bool" where
  "ready instant s i \<longleftrightarrow> fresh s instant (input_timestamp s ! i) \<and> input_timestamp s ! i \<noteq> 0"

lemma rx_packet_on_time:
  assumes "caas_inv s" and "on_time (cfg s) instant e"
    and "seqid_index s (uint (rx_seq_id (rx_bytes e))) = Some k"
  shows "ok (rx_packet (rx_bytes e) (rx_now e) s) (\<lambda>(go, t). caas_inv t \<and> cfg t = cfg s \<and>
    seqid_index t = seqid_index s \<and> next_compute_ts t = instant \<and>
    (\<forall>i < INPUT_STREAM_NUM (cfg s). ready instant s i \<or> i = k \<longrightarrow> ready instant t i) \<and>
    ((\<forall>i < INPUT_STREAM_NUM (cfg s). ready instant t i) \<longrightarrow> go))"
proof -
  have l: "42 \<le> length (rx_bytes e)" and r: "rx_instant s (rx_bytes e) (rx_now e) = Some instant"
    using assms(2) by (auto simp: on_time_def rx_instant_def)
  have k: "rx_stream s (rx_bytes e) = k" using assms(3) by (simp add: rx_stream_def map_index_def)
  have kn: "k < INPUT_STREAM_NUM (cfg s)" using assms(1,3) by (auto simp: caas_inv_def)
  have m: "(seqid_index s)(uint (rx_seq_id (rx_bytes e)) \<mapsto> k) = seqid_index s"
    using assms(3) by (simp add: fun_upd_idem)
  note e = rx_packet_eq[OF assms(1) l, of "rx_now e"]
  have n: "length (input_timestamp s) = INPUT_STREAM_NUM (cfg s)" "0 < INPUT_STREAM_NUM (cfg s)"
    using assms(1) by (auto simp: caas_inv_def)
  let ?ts = "(input_timestamp s)[k := rx_tx_timestamp (rx_bytes e)]"
  have "(\<forall>i < INPUT_STREAM_NUM (cfg s). fresh s instant (?ts ! i) \<and> ?ts ! i \<noteq> 0) \<longrightarrow>
      (\<forall>x \<in> set ?ts. fresh s instant x) \<and> ?ts ! 0 \<noteq> 0"
    using n by (auto simp: all_set_conv_all_nth)
  moreover have "fresh s instant (?ts ! i) \<and> ?ts ! i \<noteq> 0"
    if "i < INPUT_STREAM_NUM (cfg s)" "ready instant s i \<or> i = k" for i
  proof (cases "i = k")
    case True
    then show ?thesis using assms(2) kn n(1) by (simp add: on_time_def fresh_def)
  next
    case False
    then show ?thesis using that(2) by (simp add: ready_def)
  qed
  moreover from rx_packet_inv[OF assms(1) l, of "rx_now e"] obtain go t where
    p: "rx_packet (rx_bytes e) (rx_now e) s = Some (go, t)" and i: "caas_inv t" "cfg t = cfg s"
    by (auto simp: ok_iff)
  moreover have "input_timestamp t = ?ts" "next_compute_ts t = instant" "seqid_index t = seqid_index s"
    "go \<longleftrightarrow> (\<forall>x \<in> set ?ts. fresh s instant x) \<and> ?ts ! 0 \<noteq> 0"
    using p by (auto simp: e r k m Let_def)
  moreover have "fresh t = fresh s" using i by (simp add: fresh_def fun_eq_iff)
  ultimately show ?thesis by (simp only: ok_Some ready_def prod.case) blast
qed

lemma rx_loop_released:
  assumes "caas_inv s" and "es \<noteq> []" and "\<forall>e \<in> set es. on_time (cfg s) instant e"
    and "\<forall>e \<in> set es. \<exists>k. seqid_index s (uint (rx_seq_id (rx_bytes e))) = Some k"
    and "\<forall>i < INPUT_STREAM_NUM (cfg s). ready instant s i \<or>
      (\<exists>e \<in> set es. seqid_index s (uint (rx_seq_id (rx_bytes e))) = Some i)"
  shows "ok (rx_loop es s) (\<lambda>r. fst r = Released)"
  using assms
proof (induction es arbitrary: s)
  case Nil
  then show ?case by simp
next
  case (Cons e es)
  obtain k where k: "seqid_index s (uint (rx_seq_id (rx_bytes e))) = Some k"
    using Cons.prems(4) by auto
  have o: "on_time (cfg s) instant e" using Cons.prems(3) by simp
  from rx_packet_on_time[OF Cons.prems(1) o k] obtain go t where
    p: "rx_packet (rx_bytes e) (rx_now e) s = Some (go, t)" and
    t: "caas_inv t" "cfg t = cfg s" "seqid_index t = seqid_index s" "next_compute_ts t = instant" and
    rd: "\<And>i. i < INPUT_STREAM_NUM (cfg s) \<Longrightarrow> ready instant s i \<or> i = k \<Longrightarrow> ready instant t i" and
    g: "(\<forall>i < INPUT_STREAM_NUM (cfg s). ready instant t i) \<Longrightarrow> go"
    by (auto simp: ok_iff)
  have c: "\<exists>t \<in> set (rx_clock e). instant \<le> t" "rx_success e" using o by (auto simp: on_time_def)
  show ?case
  proof (cases go)
    case True
    then show ?thesis using p c t(4) by simp
  next
    case False
    have all: "ready instant t i \<or> (\<exists>e \<in> set es. seqid_index t (uint (rx_seq_id (rx_bytes e))) = Some i)"
      if "i < INPUT_STREAM_NUM (cfg t)" for i
      using Cons.prems(5) that k rd by (auto simp: t(2,3))
    have "es \<noteq> []" using all g False by (auto simp: t(2))
    then have "ok (rx_loop es t) (\<lambda>r. fst r = Released)"
      using Cons.IH[OF t(1)] Cons.prems(3,4) all by (simp add: t(2,3))
    then show ?thesis using p c False by simp
  qed
qed

lemma updateBuffersIn_returns:
  assumes "caas_inv s" and "\<not> bufferLock (image s)" and "bool_input (image s) 0 0 = Some q"
    and "\<forall>e \<in> set es. on_time (cfg s) instant e"
    and "Some ` {..<INPUT_STREAM_NUM (cfg s)} = (\<lambda>e. seqid_index s (uint (rx_seq_id (rx_bytes e)))) ` set es"
  shows "ok (updateBuffersIn es s) (\<lambda>(r, t). r = Released \<and> image t = set_bool q 1 (image s))"
proof -
  let ?s = "s\<lparr>image := (image s)\<lparr>bufferLock := True\<rparr>\<rparr>"
  have i: "caas_inv ?s" using assms(1) by (simp add: caas_inv_def)
  have n: "0 < INPUT_STREAM_NUM (cfg s)" using assms(1) by (simp add: caas_inv_def)
  have ne: "es \<noteq> []" using assms(5) n by auto
  have k: "\<exists>k. seqid_index s (uint (rx_seq_id (rx_bytes e))) = Some k" if "e \<in> set es" for e
  proof -
    have "seqid_index s (uint (rx_seq_id (rx_bytes e))) \<in> Some ` {..<INPUT_STREAM_NUM (cfg s)}"
      using that by (simp only: assms(5)) blast
    then show ?thesis by blast
  qed
  have a: "\<exists>e \<in> set es. seqid_index s (uint (rx_seq_id (rx_bytes e))) = Some i" if "i < INPUT_STREAM_NUM (cfg s)" for i
  proof -
    have "Some i \<in> (\<lambda>e. seqid_index s (uint (rx_seq_id (rx_bytes e)))) ` set es"
      using that by (simp only: assms(5)[symmetric]) simp
    then show ?thesis by force
  qed
  have "ok (rx_loop es ?s) (\<lambda>r. fst r = Released)"
    using rx_loop_released[OF i ne, of instant] assms(4) k a by simp
  moreover have "\<forall>e \<in> set es. 42 \<le> length (rx_bytes e)" using assms(4) by (simp add: on_time_def)
  ultimately have "ok (rx_loop es ?s) (\<lambda>r. fst r = Released \<and> image (snd r) = image ?s)"
    using rx_loop_inv[OF i, of es] by (auto simp: ok_iff)
  then obtain t where l: "rx_loop es ?s = Some (Released, t)" and t: "image t = (image s)\<lparr>bufferLock := True\<rparr>"
    by (auto simp: ok_iff)
  have u: "(set_bool q 1 ((image s)\<lparr>bufferLock := True\<rparr>))\<lparr>bufferLock := False\<rparr> = set_bool q 1 (image s)"
    using assms(2) by (cases "image s") (simp add: set_bool_def)
  show ?thesis
    using assms(2,3) t u
    by (simp add: updateBuffersIn_def on_image_def lock_def unlock_def l store_bool_def)
qed

text \<open>
  The wait for packets ends: when every stream sends a packet for the cycle that ends at \<open>instant\<close>, in
  any order, and the clock reaches that instant, \<open>updateBuffersIn\<close> returns with the input set and the
  mutex free.
\<close>

theorem updateBuffersIn_released:
  assumes "caas_inv s" and "\<not> bufferLock (image s)" and "bool_input (image s) 0 0 = Some q"
    and "\<forall>e \<in> set es. on_time (cfg s) instant e"
    and "Some ` {..<INPUT_STREAM_NUM (cfg s)} = (\<lambda>e. seqid_index s (uint (rx_seq_id (rx_bytes e)))) ` set es"
  shows "ok (updateBuffersIn es s) (\<lambda>(r, t). r = Released \<and> image t = set_bool q 1 (image s))"
  by (rule updateBuffersIn_returns[OF assms])

section \<open>Sending\<close>

text \<open>What a loop over the output streams has sent after \<open>n\<close> of them.\<close>

definition frame_of :: "caas \<Rightarrow> nat \<Rightarrow> byte list" where
  "frame_of s i = the (build_frame (output_seq_ids (cfg s) ! i) (send_timestamp s) (send_pkt_id s)
     (output_src_address (cfg s)) (output_dst_addresses (cfg s) ! i))"

lemma frame_of_upd [simp]: "frame_of (s\<lparr>image := p, clock_reads := n\<rparr>) = frame_of s"
  by (simp add: frame_of_def fun_eq_iff)

lemma build_frame_of:
  assumes "cfg_inv (cfg s)" and "i < OUTPUT_STREAM_NUM (cfg s)"
  shows "build_frame (output_seq_ids (cfg s) ! i) (send_timestamp s) (send_pkt_id s)
    (output_src_address (cfg s)) (output_dst_addresses (cfg s) ! i) = Some (frame_of s i)"
  using assms build_frame_total by (simp add: frame_of_def cfg_inv_def)

lemma send_loop:
  assumes "cfg_inv (cfg s)"
  shows "ok (for_each (send_step success) [0..<OUTPUT_STREAM_NUM (cfg s)] s) (\<lambda>t.
    \<exists>c. t = s\<lparr>tx_frames := tx_frames s @ map (frame_of s) [0..<OUTPUT_STREAM_NUM (cfg s)], out_pkt_id := c\<rparr>)"
proof (rule ok_for_upt[where I = "\<lambda>n t. n \<le> OUTPUT_STREAM_NUM (cfg s) \<longrightarrow>
    (\<exists>c. t = s\<lparr>tx_frames := tx_frames s @ map (frame_of s) [0..<n], out_pkt_id := c\<rparr>)", THEN ok_weaken])
  show "0 \<le> OUTPUT_STREAM_NUM (cfg s) \<longrightarrow>
    (\<exists>c. s = s\<lparr>tx_frames := tx_frames s @ map (frame_of s) [0..<0], out_pkt_id := c\<rparr>)"
    by (auto intro: exI[of _ "out_pkt_id s"])
next
  fix i t
  assume i: "i < OUTPUT_STREAM_NUM (cfg s)" and "i \<le> OUTPUT_STREAM_NUM (cfg s) \<longrightarrow>
    (\<exists>c. t = s\<lparr>tx_frames := tx_frames s @ map (frame_of s) [0..<i], out_pkt_id := c\<rparr>)"
  then obtain c where t: "t = s\<lparr>tx_frames := tx_frames s @ map (frame_of s) [0..<i], out_pkt_id := c\<rparr>" by auto
  have l: "i < length (output_seq_ids (cfg s))" "i < length (output_dst_addresses (cfg s))"
    using assms i by (simp_all add: cfg_inv_def)
  show "ok (send_step success i t) (\<lambda>t. Suc i \<le> OUTPUT_STREAM_NUM (cfg s) \<longrightarrow>
    (\<exists>c. t = s\<lparr>tx_frames := tx_frames s @ map (frame_of s) [0..<Suc i], out_pkt_id := c\<rparr>))"
    using l build_frame_of[OF assms i] by (auto simp: t send_step_def rd_in sendFrame_def)
qed simp

lemma updateBuffersOut_eq:
  assumes "cfg_inv (cfg s)" and "\<not> bufferLock (image s)" and "bool_output (image s) 0 0 = Some q"
  shows "ok (updateBuffersOut success s) (\<lambda>t. image t = image s \<and> cfg t = cfg s \<and>
    tx_frames t = tx_frames s @ (if bools (image s) q = 1 then map (frame_of s) [0..<OUTPUT_STREAM_NUM (cfg s)] else []) \<and>
    clock_reads t = clock_reads s +
      (if bools (image s) q = 1 then 1 + unat (compute_times (COMPUTE_TIME (cfg s))) else 0))"
proof -
  let ?s = "s\<lparr>image := (image s)\<lparr>bufferLock := True\<rparr>,
    clock_reads := clock_reads s + 1 + unat (compute_times (COMPUTE_TIME (cfg s)))\<rparr>"
  have u: "(image s)\<lparr>bufferLock := False\<rparr> = image s" using assms(2) by (cases "image s") simp
  from send_loop[of ?s success] assms(1) obtain t c where
    "for_each (send_step success) [0..<OUTPUT_STREAM_NUM (cfg s)] ?s = Some t" and
    "t = ?s\<lparr>tx_frames := tx_frames s @ map (frame_of s) [0..<OUTPUT_STREAM_NUM (cfg s)], out_pkt_id := c\<rparr>"
    by (auto simp: ok_iff)
  then show ?thesis
    using assms(2,3) u
    by (simp add: updateBuffersOut_def on_image_def lock_def unlock_def)
qed

text \<open>
  When the output is 1, \<open>updateBuffersOut\<close> sends one frame of 60 bytes for each output stream, in the
  order of the configuration: to the stream's destination, with the stream's number, the oldest time stamp
  and the largest packet number of the inputs. When it is not 1, nothing is sent. In both cases the image
  is unchanged and the mutex free.
\<close>

theorem updateBuffersOut_frames:
  assumes "cfg_inv (cfg s)" and "\<not> bufferLock (image s)" and "bool_output (image s) 0 0 = Some q"
  shows "ok (updateBuffersOut success s) (\<lambda>t. image t = image s \<and>
    (if bools (image s) q = 1
     then \<exists>bs. tx_frames t = tx_frames s @ bs \<and> length bs = OUTPUT_STREAM_NUM (cfg s) \<and>
       (\<forall>i < OUTPUT_STREAM_NUM (cfg s). length (bs ! i) = 60 \<and>
         take 6 (bs ! i) = output_dst_addresses (cfg s) ! i \<and>
         take 6 (drop 6 (bs ! i)) = output_src_address (cfg s) \<and>
         rx_seq_id (bs ! i) = ucast (output_seq_ids (cfg s) ! i) \<and>
         rx_tx_timestamp (bs ! i) = send_timestamp s \<and> rx_pkt_id (bs ! i) = send_pkt_id s)
     else tx_frames t = tx_frames s))"
proof -
  have f: "length (frame_of s i) = 60 \<and> take 6 (frame_of s i) = output_dst_addresses (cfg s) ! i \<and>
    take 6 (drop 6 (frame_of s i)) = output_src_address (cfg s) \<and>
    rx_seq_id (frame_of s i) = ucast (output_seq_ids (cfg s) ! i) \<and>
    rx_pkt_id (frame_of s i) = send_pkt_id s \<and> rx_tx_timestamp (frame_of s i) = send_timestamp s"
    if i: "i < OUTPUT_STREAM_NUM (cfg s)" for i
    using assms(1) i by (intro frame_fields[OF _ _ build_frame_of[OF assms(1) i]]) (simp_all add: cfg_inv_def)
  show ?thesis
    by (rule ok_mono[OF updateBuffersOut_eq[OF assms, of success]])
      (use f in \<open>auto intro!: exI[of _ "map (frame_of s) [0..<OUTPUT_STREAM_NUM (cfg s)]"]\<close>)
qed

text \<open>
  The loop that stands for control logic reads the clock once for 3504 ns of the scheduled computation
  beyond 200000 ns; a schedule that gives the computation less than that makes it read the clock more than
  1.2 million times, because the subtraction wraps around.
\<close>

theorem compute_loop_length:
  assumes "cfg_inv (cfg s)" and "\<not> bufferLock (image s)" and "bool_output (image s) 0 0 = Some q"
    and "bools (image s) q = 1"
  shows "ok (updateBuffersOut success s) (\<lambda>t.
    if unat (COMPUTE_TIME (cfg s)) < 200000 then clock_reads t > clock_reads s + 1200000
    else clock_reads t = clock_reads s + 1 + (unat (COMPUTE_TIME (cfg s)) - 200000) div 3504)"
proof -
  let ?c = "COMPUTE_TIME (cfg s)"
  have t: "unat (compute_times ?c) = unat (?c - 200000) div 3504"
    by (simp add: compute_times_def unat_div unat_ucast_64)
  have b: "unat ?c < 4294967296" using unsigned_less[of ?c, where 'a = nat] by simp
  have u: "unat (?c - 200000) = (if unat ?c < 200000 then unat ?c + 4294967296 - 200000 else unat ?c - 200000)"
    using unat_sub_if'[of ?c 200000] b by simp
  have "unat (compute_times ?c) \<ge> 1200000" if "unat ?c < 200000"
    using that b by (simp add: t u)
  moreover have "unat (compute_times ?c) = (unat ?c - 200000) div 3504" if "\<not> unat ?c < 200000"
    using that by (simp add: t u)
  ultimately show ?thesis
    by (intro ok_mono[OF updateBuffersOut_eq[OF assms(1-3), of success]]) (auto simp: assms(4))
qed

section \<open>Start-up, and two nodes\<close>

lemma index_streams_upto:
  "fold (\<lambda>i m. m(sint (ids ! i) \<mapsto> i)) [0..<n] Map.empty k = Some i \<Longrightarrow> i < n \<and> sint (ids ! i) = k"
  by (induction n) (auto split: if_splits)

lemma index_streams_dom:
  assumes "i < n"
  shows "\<exists>j. fold (\<lambda>i m. m(sint (ids ! i) \<mapsto> i)) [0..<n] Map.empty (sint (ids ! i)) = Some j"
  using assms
proof (induction n)
  case 0
  then show ?case by simp
next
  case (Suc n)
  then show ?case by (cases "i = n") (auto simp: less_Suc_eq)
qed

text \<open>
  When \<open>initializeHardware\<close> accepts the configuration and it has an input stream and a cycle, the state
  satisfies the receiver's invariant; if the stream numbers differ, each of them is filed under its
  own position.
\<close>

theorem initializeHardware_ready:
  assumes "initializeHardware line topo sche tx rx junk s = Some t"
    and "0 < INPUT_STREAM_NUM (cfg t)" and "CYCLE_TIME (cfg t) \<noteq> 0"
  shows "init_configure line topo sche = Some (cfg t) \<and> caas_inv t \<and> cfg_inv (cfg t) \<and>
    (distinct (input_seq_ids (cfg t)) \<longrightarrow>
      (\<forall>i < INPUT_STREAM_NUM (cfg t). seqid_index t (sint (input_seq_ids (cfg t) ! i)) = Some i))"
proof -
  from assms(1) obtain c where c: "init_configure line topo sche = Some c" and
    t: "t = s\<lparr>cfg := c, input_timestamp := replicate (INPUT_STREAM_NUM c) 0,
       input_pkt_id := map junk [0..<INPUT_STREAM_NUM c], out_pkt_id := 0,
       seqid_index := index_streams (input_seq_ids c)\<rparr>"
    by (auto simp: initializeHardware_def bind_eq_Some_conv)
  have i: "cfg_inv c" using cfg_inv_init[OF c] .
  then have l: "length (input_seq_ids c) = INPUT_STREAM_NUM c" by (simp add: cfg_inv_def)
  have ub: "k < INPUT_STREAM_NUM c \<and> sint (input_seq_ids c ! k) = x"
    if "index_streams (input_seq_ids c) x = Some k" for x k
    using that index_streams_upto by (auto simp: index_streams_def l)
  have "index_streams (input_seq_ids c) (sint (input_seq_ids c ! k)) = Some k"
    if d: "distinct (input_seq_ids c)" and k: "k < INPUT_STREAM_NUM c" for k
  proof -
    obtain j where j: "index_streams (input_seq_ids c) (sint (input_seq_ids c ! k)) = Some j"
      using index_streams_dom[OF k, of "input_seq_ids c"] by (auto simp: index_streams_def l)
    then have "j < INPUT_STREAM_NUM c" "input_seq_ids c ! j = input_seq_ids c ! k"
      using ub[OF j] by (blast, metis word_eq_iff_signed)
    with d k l j show ?thesis by (simp add: nth_eq_iff_index_eq)
  qed
  with assms(2,3) c i ub show ?thesis by (auto simp: t caas_inv_def)
qed

text \<open>
  C38. From node to node: a frame that one node sends on stream \<open>i\<close> and another node, which files that
  stream under \<open>k\<close>, receives in time leaves the sender's time stamp and packet number with the
  receiver's stream \<open>k\<close>.
\<close>

theorem node_to_node:
  assumes "cfg_inv (cfg a)" and "\<not> bufferLock (image a)" and "bool_output (image a) 0 0 = Some q"
    and "bools (image a) q = 1" and "i < OUTPUT_STREAM_NUM (cfg a)"
    and "caas_inv b" and "seqid_index b (uint (ucast (output_seq_ids (cfg a) ! i) :: 16 word)) = Some k"
    and "compute_instant (ucast (CYCLE_TIME (cfg b))) (ucast (COMPUTE_OFFSET (cfg b))) (send_timestamp a) now \<noteq> None"
  shows "ok (updateBuffersOut success a) (\<lambda>a'.
    ok (rx_packet (tx_frames a' ! (length (tx_frames a) + i)) now b) (\<lambda>(go, b').
      input_timestamp b' ! k = send_timestamp a \<and> input_pkt_id b' ! k = send_pkt_id a))"
proof (rule ok_mono[OF updateBuffersOut_eq[OF assms(1-3), of success]])
  let ?f = "frame_of a i"
  have f: "length ?f = 60 \<and> rx_seq_id ?f = ucast (output_seq_ids (cfg a) ! i) \<and>
      rx_pkt_id ?f = send_pkt_id a \<and> rx_tx_timestamp ?f = send_timestamp a"
    using frame_fields[OF _ _ build_frame_of[OF assms(1,5)]] assms(1,5) by (simp add: cfg_inv_def)
  obtain instant where r: "rx_instant b ?f now = Some instant"
    using assms(8) f by (auto simp: rx_instant_def)
  have k: "rx_stream b ?f = k" "k < length (input_timestamp b)" "k < length (input_pkt_id b)"
    using assms(6,7) f by (auto simp: rx_stream_def map_index_def caas_inv_def)
  have l: "42 \<le> length ?f" using f by simp
  have "ok (rx_packet ?f now b) (\<lambda>(go, b'). input_timestamp b' ! k = send_timestamp a \<and> input_pkt_id b' ! k = send_pkt_id a)"
    unfolding rx_packet_eq[OF assms(6) l] using f k by (simp add: r Let_def)
  moreover fix a' assume "image a' = image a \<and> cfg a' = cfg a \<and>
    tx_frames a' = tx_frames a @ (if bools (image a) q = 1 then map (frame_of a) [0..<OUTPUT_STREAM_NUM (cfg a)] else []) \<and>
    clock_reads a' = clock_reads a + (if bools (image a) q = 1 then 1 + unat (compute_times (COMPUTE_TIME (cfg a))) else 0)"
  ultimately show "ok (rx_packet (tx_frames a' ! (length (tx_frames a) + i)) now b) (\<lambda>(go, b').
      input_timestamp b' ! k = send_timestamp a \<and> input_pkt_id b' ! k = send_pkt_id a)"
    using assms(4,5) by (simp add: nth_append)
qed


section \<open>A concrete node\<close>

text \<open>Streams 513 and 514 come in, stream 515 goes out; a cycle of 128 and an offset of 16 slots.\<close>

definition example_cfg :: caas_cfg where
  "example_cfg = cfg0\<lparr>input_seq_ids := [513, 514], output_seq_ids := [515],
     output_dst_addresses := [[0, 0, 0, 0, 0, 3]], output_src_address := [0, 0, 0, 0, 0, 2],
     INPUT_STREAM_NUM := 2, OUTPUT_STREAM_NUM := 1,
     CYCLE_TIME := 2097152, COMPUTE_OFFSET := 262144, COMPUTE_TIME := 163840\<rparr>"

definition example_node :: caas where
  "example_node = \<lparr>image = set_bool (BVar 5) 1 (glueVars 4 5 null_image), cfg = example_cfg,
     input_timestamp = [0, 0], input_pkt_id = [7, 7], seqid_index = [513 \<mapsto> 0, 514 \<mapsto> 1, 515 \<mapsto> 1],
     next_compute_ts = 0, dropped = 0, send_timestamp = 10800000, send_pkt_id = 9, out_pkt_id = 0,
     tx_frames = [], clock_reads = 0\<rparr>"

definition example_packet :: "32 word \<Rightarrow> byte list" where
  "example_packet sid = frame_header sid 10800000 9 [0, 0, 0, 0, 0, 1] [0, 0, 0, 0, 0, 2]"

definition example_event :: "32 word \<Rightarrow> rx_event" where
  "example_event sid = \<lparr>rx_success = True, rx_bytes = example_packet sid, rx_now = 10900000,
     rx_clock = [12000000, 12845057]\<rparr>"

lemma example_caas_inv: "caas_inv example_node" "cfg_inv (cfg example_node)"
  by (auto simp: caas_inv_def cfg_inv_def example_node_def example_cfg_def cfg0_def split: if_splits)

lemma example_fields:
  "length (example_packet sid) = 42" "rx_tx_timestamp (example_packet sid) = 10800000"
  "rx_pkt_id (example_packet sid) = 9" "rx_seq_id (example_packet sid) = ucast sid"
  using bytes2[of sid] bytes4[of 9] bytes8[of 10800000]
  by (simp_all add: example_packet_def frame_header_def rx_tx_timestamp_def rx_pkt_id_def rx_seq_id_def)

lemma example_instant:
  "compute_instant 2097152 262144 10800000 10900000 = Some 12845056"
  by (simp add: compute_instant_def)

lemma example_cells [simp]:
  "cfg example_node = example_cfg" "\<not> bufferLock (image example_node)"
  "bool_input (image example_node) 0 0 = Some (BVar 4)" "bool_output (image example_node) 0 0 = Some (BVar 5)"
  "bools (image example_node) (BVar 5) = 1"
  "CYCLE_TIME example_cfg = 2097152" "COMPUTE_OFFSET example_cfg = 262144" "COMPUTE_TIME example_cfg = 163840"
  "INPUT_STREAM_NUM example_cfg = 2" "OUTPUT_STREAM_NUM example_cfg = 1" "output_seq_ids example_cfg = [515]"
  by (simp_all add: example_node_def example_cfg_def set_bool_def glueVars_def)

lemma frame_roundtrip_witness:
  "ok (build_frame 513 10800000 9 [0, 0, 0, 0, 0, 1] [0, 0, 0, 0, 0, 2]) (\<lambda>b. rx_pkt_id b = 9)"
  by (rule ok_weaken[OF frame_roundtrip]) simp_all

lemma compute_instant_spec_witness:
  "\<exists>t. compute_instant 2097152 262144 10800000 10900000 = Some t \<and> unat t mod 2097152 = 262144"
  using compute_instant_spec[of 2097152 262144 10800000 10900000] by (simp add: example_instant)

lemma rx_packet_gate_witness:
  "ok (rx_packet (example_packet 513) 10900000 example_node)
     (\<lambda>(go, t). next_compute_ts t = 12845056 \<and> input_timestamp t ! 0 = 10800000)"
proof -
  have i: "rx_instant example_node (example_packet 513) 10900000 = Some 12845056"
    by (simp add: rx_instant_def example_fields example_instant)
  have s: "rx_stream example_node (example_packet 513) = 0"
    by (simp add: rx_stream_def example_fields map_index_def example_node_def)
  show ?thesis
    by (rule ok_weaken[OF rx_packet_gate[OF example_caas_inv(1) _ i]])
      (auto simp: example_fields s)
qed

lemma unknown_stream_replaces_first_witness:
  "ok (rx_packet (example_packet 600) 10900000 example_node) (\<lambda>(go, t). input_timestamp t ! 0 = 10800000)"
  by (rule ok_weaken[OF unknown_stream_replaces_first[OF example_caas_inv(1)]])
    (auto simp: example_fields rx_instant_def example_instant, simp add: example_node_def)

lemma updateBuffersIn_safe_witness:
  "ok (updateBuffersIn [example_event 513] example_node) (\<lambda>(r, t). caas_inv t)"
  by (rule ok_weaken[OF updateBuffersIn_safe[OF example_caas_inv(1)]])
    (auto simp: example_event_def example_fields)

lemma updateBuffersIn_released_witness:
  "ok (updateBuffersIn [example_event 514, example_event 513] example_node)
     (\<lambda>(r, t). r = Released \<and> bools (image t) (BVar 4) = 1)"
proof -
  have o: "on_time example_cfg 12845056 (example_event sid)" for sid
    by (simp add: on_time_def example_event_def example_fields example_instant)
  have k: "seqid_index example_node (uint (rx_seq_id (rx_bytes (example_event 513)))) = Some 0"
    "seqid_index example_node (uint (rx_seq_id (rx_bytes (example_event 514)))) = Some 1"
    by (simp_all add: example_event_def example_fields example_node_def)
  have n: "{..<2 :: nat} = {1, 0}" by auto
  show ?thesis
    by (rule ok_weaken[OF updateBuffersIn_released[where instant = 12845056, OF example_caas_inv(1)]])
      (auto simp: o k n set_bool_def)
qed

lemma updateBuffersOut_frames_witness:
  "ok (updateBuffersOut (\<lambda>i. True) example_node) (\<lambda>t. tx_frames t \<noteq> [])"
  by (rule ok_weaken[OF updateBuffersOut_frames[OF example_caas_inv(2)]]) auto

lemma compute_loop_length_witness:
  "ok (updateBuffersOut (\<lambda>i. True) example_node) (\<lambda>t. clock_reads t > 1200000)"
  by (rule ok_weaken[OF compute_loop_length[OF example_caas_inv(2)]]) auto

lemma node_to_node_witness:
  "ok (updateBuffersOut (\<lambda>i. True) example_node) (\<lambda>a'.
    ok (rx_packet (tx_frames a' ! 0) 10900000 example_node) (\<lambda>(go, b'). input_timestamp b' ! 1 = 10800000))"
proof -
  have f: "tx_frames example_node = []" "send_timestamp example_node = 10800000"
    "seqid_index example_node 515 = Some 1"
    by (simp_all add: example_node_def)
  have "ok (updateBuffersOut (\<lambda>i. True) example_node) (\<lambda>a'.
    ok (rx_packet (tx_frames a' ! (length (tx_frames example_node) + 0)) 10900000 example_node)
      (\<lambda>(go, b'). input_timestamp b' ! 1 = send_timestamp example_node \<and> input_pkt_id b' ! 1 = send_pkt_id example_node))"
    by (rule node_to_node[where q = "BVar 5", OF example_caas_inv(2) _ _ _ _ example_caas_inv(1)])
      (simp_all add: f example_instant)
  then show ?thesis by (auto simp: ok_iff f)
qed

lemma initializeHardware_ready_witness:
  "ok (initializeHardware ''00:00:00:00:00:02'' example_topo example_sche [(3, True)] [(4, True)] (\<lambda>i. 7) example_node)
     caas_inv"
proof -
  have "ok (init_configure ''00:00:00:00:00:02'' example_topo example_sche)
      (\<lambda>c. INPUT_STREAM_NUM c = 1 \<and> CYCLE_TIME c = 2097152)"
    by code_simp
  then obtain t where t: "initializeHardware ''00:00:00:00:00:02'' example_topo example_sche [(3, True)] [(4, True)]
      (\<lambda>i. 7) example_node = Some t" "INPUT_STREAM_NUM (cfg t) = 1" "CYCLE_TIME (cfg t) = 2097152"
    by (auto simp: ok_iff initializeHardware_def dma_init_def)
  with initializeHardware_ready[OF t(1)] show ?thesis by simp
qed

end
