(* ===== verification/Topo.thy ===== *)
theory Topo
  imports CaasConfig
begin

text \<open>
  The switch configuration (Time-Synchronization/topo.cpp): the forwarding rules and the gate control
  lists of the switch are computed from the topology and the schedule and written to the registers
  of the programmable logic (tsn_drivers/switch_rules.c and gcl.c), and the clock's parameters are read.
  The two documents and the address of the network interface are arguments; what is printed is left
  out. \<^term>\<open>None\<close> is a process that stops or a loop without end.
\<close>

section \<open>Registers (switch_rules.c, gcl.c)\<close>

text \<open>Memory of bytes; a 32-bit store writes the least significant byte first.\<close>

type_synonym mem = "nat \<Rightarrow> byte"

definition store32 :: "nat \<Rightarrow> 32 word \<Rightarrow> mem \<Rightarrow> mem" where
  "store32 a w m = m(a := ucast w, a + 1 := ucast (drop_bit 8 w),
     a + 2 := ucast (drop_bit 16 w), a + 3 := ucast (drop_bit 24 w))"

definition load32 :: "nat \<Rightarrow> mem \<Rightarrow> 32 word" where
  "load32 a m = push_bit 24 (ucast (m (a + 3))) OR push_bit 16 (ucast (m (a + 2))) OR
     push_bit 8 (ucast (m (a + 1))) OR ucast (m a)"

record pl =
  rule_mem :: mem
  g_counter :: nat
  gcl_mem :: mem

definition N_DEFAULT_RULE :: nat where "N_DEFAULT_RULE = 6"
definition SWITCH_TABLE_LEN :: nat where "SWITCH_TABLE_LEN = 64"

definition switch_rule_init :: "pl \<Rightarrow> pl" where
  "switch_rule_init r = r\<lparr>g_counter := N_DEFAULT_RULE * 2,
     rule_mem := fold (\<lambda>i. store32 (4 * i) 0) [N_DEFAULT_RULE * 2..<SWITCH_TABLE_LEN] (rule_mem r)\<rparr>"

definition port_byte :: "int \<Rightarrow> byte option" where
  "port_byte output_port =
     (if output_port = 0 then Some 0x01
      else if output_port = 1 then Some 0x04
      else if output_port = 2 then Some 0x10
      else if output_port = 3 then Some 0x40
      else if output_port = 4 then Some 0x08
      else if output_port = 5 then Some 0x20
      else None)"

text \<open>The result is the returned code and the new state.\<close>

definition push_switch_rule :: "byte list \<Rightarrow> int \<Rightarrow> pl \<Rightarrow> int \<times> pl" where
  "push_switch_rule mac output_port r = (case port_byte output_port of
     None \<Rightarrow> (1, r)
   | Some pb \<Rightarrow> let a = 4 * g_counter r in
       (0, r\<lparr>rule_mem := (rule_mem r)(a := mac ! 2, a + 1 := mac ! 3, a + 2 := mac ! 4, a + 3 := mac ! 5,
           a + 4 := pb, a + 5 := 0, a + 6 := mac ! 0, a + 7 := mac ! 1),
         g_counter := g_counter r + 2\<rparr>))"

text \<open>Offsets of the gate registers of port \<open>k\<close>, from gcl.h.\<close>

definition GCL_CTRL :: "nat \<Rightarrow> nat" where "GCL_CTRL k = 0x150 + 0x44 * k"
definition GCL_DATA :: "nat \<Rightarrow> nat \<Rightarrow> nat" where "GCL_DATA k i = 0x154 + 0x44 * k + 4 * i"
definition GCL_TIME :: "nat \<Rightarrow> nat \<Rightarrow> nat" where "GCL_TIME k i = 0x2A0 + 0x40 * k + 4 * i"

definition set_gcl :: "16 word \<Rightarrow> nat \<Rightarrow> 16 word \<Rightarrow> pl \<Rightarrow> pl option" where
  "set_gcl portNumber gcl_id value r =
     (if portNumber \<in> {1, 2, 3, 4}
      then if gcl_id < 16
        then let k = unat portNumber - 1 in
          Some (r\<lparr>gcl_mem := store32 (GCL_CTRL k) 2 (store32 (GCL_CTRL k) 0
            (store32 (GCL_DATA k gcl_id) (push_bit 9 (word_of_nat gcl_id) + ucast value) (gcl_mem r)))\<rparr>)
        else None
      else Some r)"

definition set_gcl_time_interval :: "16 word \<Rightarrow> nat \<Rightarrow> 16 word \<Rightarrow> pl \<Rightarrow> pl option" where
  "set_gcl_time_interval portNumber gcl_id value r =
     (if portNumber \<in> {1, 2, 3, 4}
      then if gcl_id < 16
        then let k = unat portNumber - 1 in
          Some (r\<lparr>gcl_mem := store32 (GCL_CTRL k) 4 (store32 (GCL_CTRL k) 0
            (store32 (GCL_TIME k gcl_id) (push_bit 20 (word_of_nat gcl_id) + ucast value) (gcl_mem r)))\<rparr>)
        else None
      else Some r)"

section \<open>The documents\<close>

definition char_lower :: "char \<Rightarrow> char" where
  "char_lower c = (if of_char c \<ge> (65 :: nat) \<and> of_char c \<le> (90 :: nat)
     then char_of ((of_char c :: nat) + 32) else c)"

definition to_lower :: "string \<Rightarrow> string" where
  "to_lower s = map char_lower s"

definition lower_mac :: "json \<Rightarrow> json option" where
  "lower_mac node = map_option (\<lambda>m. jset ''mac'' (JStr (to_lower m)) node) (str_ref ''mac'' node)"

definition get_config :: "json \<Rightarrow> json option" where
  "get_config file = do {
     nodes \<leftarrow> jref ''nodes'' file;
     nodes \<leftarrow> jmap lower_mac nodes;
     Some (jset ''nodes'' nodes file)
   }"

definition get_gcl_config :: "json \<Rightarrow> json option" where
  "get_gcl_config file = jmap (\<lambda>node. do {
     type \<leftarrow> str_ref ''type'' node;
     if type = ''switch'' then lower_mac node else Some node
   }) file"

section \<open>Forwarding rules\<close>

definition topo_node_step ::
  "string \<Rightarrow> json \<Rightarrow> (int \<Rightarrow> string option) \<times> int \<Rightarrow> ((int \<Rightarrow> string option) \<times> int) option" where
  "topo_node_step mac_addr node acc = do {
     mac \<leftarrow> str_ref ''mac'' node;
     node_id \<leftarrow> int_ref ''id'' node;
     let nodes = (fst acc)(node_id \<mapsto> mac);
     if mac = mac_addr
     then map_option (\<lambda>type. (nodes, node_id)) (str_ref ''type'' node)
     else Some (nodes, snd acc)
   }"

text \<open>\<open>std::stoi(dst_mac.substr(i * 3, 2), nullptr, 16)\<close> for the six bytes.\<close>

definition mac_byte :: "string \<Rightarrow> nat \<Rightarrow> byte option" where
  "mac_byte dst_mac i =
     (if i * 3 \<le> length dst_mac
      then map_option (\<lambda>r. word_of_int (fst r)) (stoi16 (take 2 (drop (i * 3) dst_mac))) else None)"

definition link_rule :: "int \<Rightarrow> (int \<Rightarrow> string option) \<Rightarrow> json \<Rightarrow> pl \<Rightarrow> pl option" where
  "link_rule my_id nodes link r = do {
     src \<leftarrow> int_ref ''src'' link;
     if src = my_id
     then do {
       src_port \<leftarrow> int_ref ''src_port'' link;
       dst \<leftarrow> int_ref ''dst'' link;
       dst_mac \<leftarrow> nodes dst;
       bytes \<leftarrow> those (map (mac_byte dst_mac) [0..<6]);
       Some (snd (push_switch_rule bytes src_port r))
     }
     else Some r
   }"

definition setup_topo :: "json \<Rightarrow> string \<Rightarrow> pl \<Rightarrow> pl option" where
  "setup_topo file mac_addr r = do {
     j \<leftarrow> get_config file;
     elems \<leftarrow> elems_ref ''nodes'' j;
     found \<leftarrow> for_each (topo_node_step mac_addr) elems (Map.empty, -1);
     let (nodes, my_id) = found;
     if my_id = -1 then None
     else do {
       links \<leftarrow> elems_ref ''fwd'' j;
       for_each (link_rule my_id nodes) links r
     }
   }"

section \<open>Gate control lists\<close>

definition MAX_PERIOD :: int where "MAX_PERIOD = 2048"
definition GCL_SIZE :: nat where "GCL_SIZE = 16"

text \<open>An addition of \<open>int\<close>s that overflows has no defined result.\<close>

definition iadd :: "int \<Rightarrow> int \<Rightarrow> int option" where
  "iadd a b = (if - (2 ^ 31) \<le> a + b \<and> a + b < 2 ^ 31 then Some (a + b) else None)"

text \<open>One occurrence of a frame, from \<open>start\<close> to \<open>stop\<close>: time points and start times to append.\<close>

definition occurrence :: "int \<Rightarrow> int \<Rightarrow> int list \<times> int list \<Rightarrow> int list \<times> int list" where
  "occurrence start stop acc =
     (if stop > MAX_PERIOD
      then (fst acc @ [0, stop - MAX_PERIOD, start, MAX_PERIOD], snd acc @ [0, start])
      else (fst acc @ [start, stop], snd acc @ [start]))"

text \<open>The loop over the occurrences of a frame; a period that is not positive never ends it.\<close>

function occurrences ::
  "int \<Rightarrow> int \<Rightarrow> int \<Rightarrow> int \<Rightarrow> int list \<times> int list \<Rightarrow> (int list \<times> int list) option" where
  "occurrences period start stop x acc =
     (if x < MAX_PERIOD
      then if period \<le> 0 then None
        else do {
          e \<leftarrow> iadd x stop;
          b \<leftarrow> iadd x start;
          y \<leftarrow> iadd x period;
          occurrences period start stop y (occurrence b e acc)
        }
      else Some acc)"
  by pat_completeness auto

termination
  by (relation "measure (\<lambda>(p, a, b, x, acc). nat (MAX_PERIOD - x))")
    (auto simp: iadd_def split: if_splits)

declare occurrences.simps [simp del]

definition item_step :: "json \<Rightarrow> int list \<times> int list \<Rightarrow> (int list \<times> int list) option" where
  "item_step item acc = do {
     period \<leftarrow> int_ref ''period'' item;
     start \<leftarrow> int_ref ''start'' item;
     stop \<leftarrow> int_ref ''end'' item;
     if period = MAX_PERIOD then Some (occurrence start stop acc)
     else occurrences period start stop 0 acc
   }"

text \<open>The time points, sorted and without duplicates, and the start times.\<close>

definition gcl_points :: "json \<Rightarrow> (int list \<times> int list) option" where
  "gcl_points data = do {
     items \<leftarrow> elems_ref ''schedule'' data;
     acc \<leftarrow> for_each item_step items ([0, MAX_PERIOD], []);
     Some (remdups_adj (sort (fst acc)), snd acc)
   }"

fun gcl_fill :: "int list \<Rightarrow> int list \<Rightarrow> nat \<Rightarrow> int list \<times> int list \<Rightarrow> (int list \<times> int list) option" where
  "gcl_fill (time_point # next_point # rest) starts gcl_index acc =
     (if time_point \<in> set starts
      then do {
        vs \<leftarrow> wr (fst acc) gcl_index 1;
        ts \<leftarrow> wr (snd acc) gcl_index ((next_point - time_point) * 8);
        gcl_fill (next_point # rest) starts (gcl_index + 1) (vs, ts)
      }
      else do {
        vs \<leftarrow> wr (fst acc) gcl_index 0x102;
        ts \<leftarrow> wr (snd acc) gcl_index ((next_point - time_point) * 8);
        gcl_fill (next_point # rest) starts (gcl_index + 1) (vs, ts)
      })"
| "gcl_fill _ starts gcl_index acc = Some acc"

definition gcl_write :: "int \<Rightarrow> int list \<times> int list \<Rightarrow> nat \<Rightarrow> pl \<Rightarrow> pl option" where
  "gcl_write port ctl i r = do {
     r \<leftarrow> set_gcl (word_of_int (port + 1)) i (word_of_int (fst ctl ! i)) r;
     set_gcl_time_interval (word_of_int (port + 1)) i (word_of_int (snd ctl ! i)) r
   }"

definition apply_gcl :: "json \<Rightarrow> int \<Rightarrow> pl \<Rightarrow> pl option" where
  "apply_gcl data port r = do {
     src \<leftarrow> int_ref ''from'' data;
     dst \<leftarrow> int_ref ''to'' data;
     points \<leftarrow> gcl_points data;
     ctl \<leftarrow> gcl_fill (fst points) (snd points) 0 (replicate GCL_SIZE 1, replicate GCL_SIZE 0);
     for_each (gcl_write port ctl) [0..<length (fst ctl)] r
   }"

text \<open>The first switch of the schedule with this address; the inner \<^term>\<open>None\<close> is that there is none.\<close>

fun find_switch :: "string \<Rightarrow> json list \<Rightarrow> (int \<times> json) option option" where
  "find_switch mac_addr [] = Some None"
| "find_switch mac_addr (item # items) = do {
     type \<leftarrow> str_ref ''type'' item;
     if type \<noteq> ''switch'' then find_switch mac_addr items
     else do {
       mac \<leftarrow> str_ref ''mac'' item;
       if mac = mac_addr then map_option (\<lambda>my_id. Some (my_id, item)) (int_ref ''id'' item)
       else find_switch mac_addr items
     }
   }"

definition link_gcl :: "int \<Rightarrow> json \<Rightarrow> pl \<Rightarrow> pl option" where
  "link_gcl my_id link r = do {
     type \<leftarrow> str_ref ''type'' link;
     if type \<noteq> ''link'' then Some r
     else do {
       src \<leftarrow> int_ref ''from'' link;
       if src \<noteq> my_id then Some r
       else do {
         src_port \<leftarrow> int_ref ''from_port'' link;
         apply_gcl link src_port r
       }
     }
   }"

text \<open>\<open>link_port_map\<close> is filled, which may fail, and never read.\<close>

definition port_map_step :: "int \<Rightarrow> json \<Rightarrow> (int \<Rightarrow> int option) \<Rightarrow> (int \<Rightarrow> int option) option" where
  "port_map_step my_id link m = do {
     src \<leftarrow> int_ref ''src'' link;
     if src \<noteq> my_id then Some m
     else do {
       src_port \<leftarrow> int_ref ''src_port'' link;
       link_id \<leftarrow> int_ref ''id'' link;
       Some (m(link_id \<mapsto> src_port))
     }
   }"

definition setup_gcl :: "json \<Rightarrow> json \<Rightarrow> string \<Rightarrow> pl \<Rightarrow> pl option" where
  "setup_gcl sche_file topo_file mac_addr r = do {
     j \<leftarrow> get_gcl_config sche_file;
     sw \<leftarrow> find_switch mac_addr (jelems j);
     (case sw of
        None \<Rightarrow> Some r
      | Some (my_id, item) \<Rightarrow>
          if my_id = -1 then Some r
          else do {
            topo \<leftarrow> get_config topo_file;
            links \<leftarrow> elems_ref ''fwd'' topo;
            link_port_map \<leftarrow> for_each (port_map_step my_id) links Map.empty;
            for_each (link_gcl my_id) (jelems j) r
          })
   }"

section \<open>Clock parameters\<close>

record system_identity =
  priority1 :: byte
  clockClass :: byte
  clockAccuracy :: byte
  offsetScaledLogVariance :: "16 word"
  priority2 :: byte
  clockIdentity :: "byte list"

text \<open>The value of an optional field that must be an array to count.\<close>

definition array_field :: "string \<Rightarrow> json \<Rightarrow> json option" where
  "array_field k item = (case item of
     JObj fs \<Rightarrow> (case map_of fs k of Some (JArr xs) \<Rightarrow> Some (JArr xs) | _ \<Rightarrow> None) | _ \<Rightarrow> None)"

definition opt_field :: "string \<Rightarrow> json \<Rightarrow> json option" where
  "opt_field k item = (case item of JObj fs \<Rightarrow> map_of fs k | _ \<Rightarrow> None)"

definition copy_ints :: "(int \<Rightarrow> 'a) \<Rightarrow> int list \<Rightarrow> 'a list \<Rightarrow> 'a list option" where
  "copy_ints f vs dst = for_each (\<lambda>i d. wr d i (f (vs ! i))) [0..<length vs] dst"

text \<open>The switch of the topology with this address; the process stops when there is none.\<close>

definition find_node :: "json \<Rightarrow> string \<Rightarrow> (int \<times> json) option" where
  "find_node file mac_addr = do {
     j \<leftarrow> get_config file;
     nodes \<leftarrow> elems_ref ''nodes'' j;
     sw \<leftarrow> find_switch mac_addr nodes;
     sw
   }"

definition get_ptp_ports :: "json \<Rightarrow> string \<Rightarrow> int list \<Rightarrow> int list option" where
  "get_ptp_ports file mac_addr ptp_ports = do {
     sw \<leftarrow> find_node file mac_addr;
     (case array_field ''ptp_ports'' (snd sw) of
        None \<Rightarrow> if fst sw = -1 then None else Some ptp_ports
      | Some a \<Rightarrow> do {
          ports \<leftarrow> jints a;
          if ports = [] then Some ptp_ports
          else do {
            out \<leftarrow> copy_ints id ports ptp_ports;
            if fst sw = -1 then None else Some out
          }
        })
   }"

definition get_clock_identity :: "json \<Rightarrow> string \<Rightarrow> byte list \<Rightarrow> byte list option" where
  "get_clock_identity file mac_addr clock_identity = do {
     sw \<leftarrow> find_node file mac_addr;
     (case array_field ''clock_identity'' (snd sw) of
        None \<Rightarrow> if fst sw = -1 then None else Some clock_identity
      | Some a \<Rightarrow> do {
          bytes \<leftarrow> jints a;
          if bytes = [] then Some clock_identity
          else do {
            out \<leftarrow> copy_ints word_of_int bytes clock_identity;
            if fst sw = -1 then None else Some out
          }
        })
   }"

definition get_priority1 :: "json \<Rightarrow> string \<Rightarrow> byte \<Rightarrow> byte option" where
  "get_priority1 file mac_addr p = do {
     sw \<leftarrow> find_node file mac_addr;
     p \<leftarrow> (case opt_field ''priority1'' (snd sw) of
        None \<Rightarrow> Some p
      | Some v \<Rightarrow> map_option word_of_int (jint v));
     if fst sw = -1 then None else Some p
   }"

definition read_identity :: "json \<Rightarrow> system_identity \<Rightarrow> system_identity option" where
  "read_identity v s = do {
     p1 \<leftarrow> int_ref ''priority1'' v;
     cc \<leftarrow> int_ref ''clockClass'' v;
     ca \<leftarrow> int_ref ''clockAccuracy'' v;
     lv \<leftarrow> int_ref ''offsetScaledLogVariance'' v;
     p2 \<leftarrow> int_ref ''priority2'' v;
     a \<leftarrow> jref ''clock_identity'' v;
     bytes \<leftarrow> jints a;
     ci \<leftarrow> copy_ints word_of_int bytes (clockIdentity s);
     Some \<lparr>priority1 = word_of_int p1, clockClass = word_of_int cc, clockAccuracy = word_of_int ca,
       offsetScaledLogVariance = word_of_int lv, priority2 = word_of_int p2, clockIdentity = ci\<rparr>
   }"

definition get_config_from_json ::
  "json \<Rightarrow> string \<Rightarrow> system_identity \<times> int list \<times> bool \<Rightarrow> (system_identity \<times> int list \<times> bool) option" where
  "get_config_from_json file mac_addr acc = do {
     sw \<leftarrow> find_node file mac_addr;
     let (identity, ptp_ports, ext) = acc;
     ports \<leftarrow> (case array_field ''ptp_ports'' (snd sw) of
        None \<Rightarrow> Some None
      | Some a \<Rightarrow> map_option Some (jints a));
     if ports = Some [] then Some acc
     else do {
       ptp_ports \<leftarrow> (case ports of None \<Rightarrow> Some ptp_ports | Some ps \<Rightarrow> copy_ints id ps ptp_ports);
       ext \<leftarrow> (case opt_field ''externalPortConfigurationEnabled'' (snd sw) of
          None \<Rightarrow> Some ext | Some v \<Rightarrow> map_option (\<lambda>k. k \<noteq> 0) (jint v));
       identity \<leftarrow> (case opt_field ''system_identity'' (snd sw) of
          None \<Rightarrow> Some identity | Some v \<Rightarrow> read_identity v identity);
       if fst sw = -1 then None else Some (identity, ptp_ports, ext)
     }
   }"

end
