(* ===== verification/Topo_Props.thy ===== *)
theory Topo_Props
  imports Topo
begin

text \<open>
  The switch configuration: what a schedule makes the gate of a port do in every slot of the cycle,
  what the links of the topology leave in the forwarding table, and the limit of the gate control list.
\<close>

section \<open>Registers\<close>

lemma bytes_word: "push_bit 24 (ucast (ucast (drop_bit 24 w) :: byte)) OR push_bit 16 (ucast (ucast (drop_bit 16 w) :: byte)) OR
   push_bit 8 (ucast (ucast (drop_bit 8 w) :: byte)) OR ucast (ucast w :: byte) = w"
  for w :: "32 word"
  using bytes4[of w] by (simp add: mem_byte_def)

lemma load_store_same [simp]: "load32 a (store32 a w m) = w"
  by (simp add: load32_def store32_def bytes_word)

lemma load_store_other: "a + 4 \<le> b \<or> b + 4 \<le> a \<Longrightarrow> load32 a (store32 b w m) = load32 a m"
  by (auto simp: load32_def store32_def)

lemmas gcl_addr = GCL_CTRL_def GCL_DATA_def GCL_TIME_def

text \<open>The two registers of entry \<open>i\<close> of port \<open>k\<close>.\<close>

definition gcl_entry :: "nat \<Rightarrow> nat \<Rightarrow> mem \<Rightarrow> 32 word \<times> 32 word" where
  "gcl_entry k i m = (load32 (GCL_DATA k i) m, load32 (GCL_TIME k i) m)"

definition entry_words :: "int list \<times> int list \<Rightarrow> nat \<Rightarrow> 32 word \<times> 32 word" where
  "entry_words ctl i = (push_bit 9 (word_of_nat i) + ucast (word_of_int (fst ctl ! i) :: 16 word),
     push_bit 20 (word_of_nat i) + ucast (word_of_int (snd ctl ! i) :: 16 word))"

lemma gcl_write_ok:
  assumes "0 \<le> port" "port < 4" "i < 16"
  shows "\<exists>m. gcl_write port ctl i r = Some (r\<lparr>gcl_mem := m\<rparr>) \<and>
    gcl_entry (nat port) i m = entry_words ctl i \<and>
    (\<forall>k < 4. \<forall>j < 16. (k, j) \<noteq> (nat port, i) \<longrightarrow> gcl_entry k j m = gcl_entry k j (gcl_mem r))"
proof -
  obtain k where k: "port = int k" "k < 4" using assms(1,2) by (metis int_nat_eq nat_less_iff of_nat_numeral)
  have p: "word_of_int (port + 1) \<in> {1, 2, 3, 4 :: 16 word}" "unat (word_of_int (port + 1) :: 16 word) - 1 = k"
  proof -
    consider "k = 0" | "k = 1" | "k = 2" | "k = 3" using k(2) by linarith
    then show "word_of_int (port + 1) \<in> {1, 2, 3, 4 :: 16 word}"
      "unat (word_of_int (port + 1) :: 16 word) - 1 = k"
      unfolding k(1) by (cases; simp)+
  qed
  have sep: "load32 (GCL_DATA k' j) m' = load32 (GCL_DATA k' j) m \<and> load32 (GCL_TIME k' j) m' = load32 (GCL_TIME k' j) m"
    if "m' = store32 (GCL_CTRL k) x (store32 (GCL_CTRL k) y m)" "k' < 4" "j < 16" for k' j x y m m'
  proof -
    have "GCL_DATA k' j + 4 \<le> GCL_CTRL k \<or> GCL_CTRL k + 4 \<le> GCL_DATA k' j"
      "GCL_TIME k' j + 4 \<le> GCL_CTRL k \<or> GCL_CTRL k + 4 \<le> GCL_TIME k' j"
      using that(2,3) k(2) by (cases "k' < k"; simp add: gcl_addr)+
    then show ?thesis by (simp add: that(1) load_store_other)
  qed
  let ?w = "entry_words ctl i"
  define m1 where "m1 = store32 (GCL_CTRL k) 2 (store32 (GCL_CTRL k) 0 (store32 (GCL_DATA k i) (fst ?w) (gcl_mem r)))"
  define m2 where "m2 = store32 (GCL_CTRL k) 4 (store32 (GCL_CTRL k) 0 (store32 (GCL_TIME k i) (snd ?w) m1))"
  have d: "load32 (GCL_DATA k' j) m1 = (if (k', j) = (k, i) then fst ?w else load32 (GCL_DATA k' j) (gcl_mem r)) \<and>
      load32 (GCL_TIME k' j) m1 = load32 (GCL_TIME k' j) (gcl_mem r)" if "k' < 4" "j < 16" for k' j
  proof -
    have "(k', j) = (k, i) \<or> GCL_DATA k' j + 4 \<le> GCL_DATA k i \<or> GCL_DATA k i + 4 \<le> GCL_DATA k' j"
      "GCL_TIME k' j + 4 \<le> GCL_DATA k i \<or> GCL_DATA k i + 4 \<le> GCL_TIME k' j"
      using that k(2) assms(3)
      by (cases "k' < k"; cases "k < k'"; cases "j < i"; cases "i < j"; simp add: gcl_addr)+
    then show ?thesis
      using sep[OF m1_def that] by (auto simp: load_store_other)
  qed
  have t: "load32 (GCL_TIME k' j) m2 = (if (k', j) = (k, i) then snd ?w else load32 (GCL_TIME k' j) m1) \<and>
      load32 (GCL_DATA k' j) m2 = load32 (GCL_DATA k' j) m1" if "k' < 4" "j < 16" for k' j
  proof -
    have "(k', j) = (k, i) \<or> GCL_TIME k' j + 4 \<le> GCL_TIME k i \<or> GCL_TIME k i + 4 \<le> GCL_TIME k' j"
      "GCL_DATA k' j + 4 \<le> GCL_TIME k i \<or> GCL_TIME k i + 4 \<le> GCL_DATA k' j"
      using that k(2) assms(3)
      by (cases "k' < k"; cases "k < k'"; cases "j < i"; cases "i < j"; simp add: gcl_addr)+
    then show ?thesis
      using sep[OF m2_def that] by (auto simp: load_store_other)
  qed
  have "gcl_write port ctl i r = Some (r\<lparr>gcl_mem := m2\<rparr>)"
    using p assms(3) by (simp add: gcl_write_def set_gcl_def set_gcl_time_interval_def m1_def m2_def entry_words_def Let_def)
  moreover have "gcl_entry k' j m2 = (if (k', j) = (k, i) then ?w else gcl_entry k' j (gcl_mem r))"
    if "k' < 4" "j < 16" for k' j
    using d[OF that] t[OF that] by (auto simp: gcl_entry_def)
  ultimately show ?thesis using k assms(3) by auto
qed

section \<open>The entries of a list\<close>

text \<open>The value of the interval that starts at a time point.\<close>

definition gate_value :: "int list \<Rightarrow> int \<Rightarrow> int" where
  "gate_value starts u = (if u \<in> set starts then 1 else 0x102)"

lemma gcl_fill_step:
  assumes "i < length vs" "length ts = length vs"
  shows "gcl_fill (p # q # rest) starts i (vs, ts) =
    gcl_fill (q # rest) starts (i + 1) (vs[i := gate_value starts p], ts[i := (q - p) * 8])"
  using assms by (simp add: gate_value_def wr_def)

text \<open>Entry \<open>j\<close> of the lists after the time points \<open>tps\<close> were entered from index \<open>i\<close> on.\<close>

definition fill_val :: "int list \<Rightarrow> nat \<Rightarrow> int list \<Rightarrow> int list \<Rightarrow> nat \<Rightarrow> int" where
  "fill_val starts i tps vs j =
     (if i \<le> j \<and> Suc (j - i) < length tps then gate_value starts (tps ! (j - i)) else vs ! j)"

definition fill_time :: "nat \<Rightarrow> int list \<Rightarrow> int list \<Rightarrow> nat \<Rightarrow> int" where
  "fill_time i tps ts j =
     (if i \<le> j \<and> Suc (j - i) < length tps then (tps ! Suc (j - i) - tps ! (j - i)) * 8 else ts ! j)"

lemma fill_step:
  assumes "i < 16" "j < 16" "length vs = 16" "length ts = 16"
  shows "fill_val starts (i + 1) (q # rest) (vs[i := gate_value starts p]) j = fill_val starts i (p # q # rest) vs j"
    and "fill_time (i + 1) (q # rest) (ts[i := (q - p) * 8]) j = fill_time i (p # q # rest) ts j"
proof -
  consider "j < i" | "j = i" | d where "j = Suc (i + d)"
    by (metis add_Suc less_imp_Suc_add linorder_neqE_nat add_Suc_right)
  then show "fill_val starts (i + 1) (q # rest) (vs[i := gate_value starts p]) j = fill_val starts i (p # q # rest) vs j"
    using assms by cases (simp_all add: fill_val_def)
  consider "j < i" | "j = i" | d where "j = Suc (i + d)"
    by (metis add_Suc less_imp_Suc_add linorder_neqE_nat add_Suc_right)
  then show "fill_time (i + 1) (q # rest) (ts[i := (q - p) * 8]) j = fill_time i (p # q # rest) ts j"
    using assms by cases (simp_all add: fill_time_def)
qed

lemma gcl_fill_lists:
  assumes "length vs = 16" "length ts = 16" "i + length tps \<le> 17"
  shows "ok (gcl_fill tps starts i (vs, ts)) (\<lambda>r. length (fst r) = 16 \<and> length (snd r) = 16 \<and>
    (\<forall>j < 16. fst r ! j = fill_val starts i tps vs j \<and> snd r ! j = fill_time i tps ts j))"
  using assms
proof (induction tps arbitrary: i vs ts)
  case Nil
  then show ?case by (simp add: fill_val_def fill_time_def)
next
  case (Cons p ps)
  show ?case
  proof (cases ps)
    case Nil
    then show ?thesis using Cons.prems by (simp add: fill_val_def fill_time_def)
  next
    case (Cons q rest)
    have i: "i < 16" using Cons.prems Cons by simp
    let ?vs = "vs[i := gate_value starts p]" and ?ts = "ts[i := (q - p) * 8]"
    have s: "gcl_fill (p # ps) starts i (vs, ts) = gcl_fill ps starts (i + 1) (?vs, ?ts)"
      unfolding Cons using Cons.prems i by (intro gcl_fill_step) simp_all
    have "length ?vs = 16" "length ?ts = 16" "(i + 1) + length ps \<le> 17" using Cons.prems by simp_all
    from Cons.IH[OF this] show ?thesis
      unfolding s by (rule ok_weaken) (use fill_step[OF i] Cons.prems in \<open>simp add: Cons\<close>)
  qed
qed

lemma gcl_fill_overflow:
  assumes "length vs = 16" "length ts = 16" "i \<le> 16" "17 < i + length tps"
  shows "gcl_fill tps starts i (vs, ts) = None"
  using assms
proof (induction tps arbitrary: i vs ts)
  case Nil
  then show ?case by simp
next
  case (Cons p ps)
  then obtain q rest where ps: "ps = q # rest" by (cases ps) auto
  show ?case
  proof (cases "i < 16")
    case True
    have "gcl_fill (p # ps) starts i (vs, ts) =
        gcl_fill ps starts (i + 1) (vs[i := gate_value starts p], ts[i := (q - p) * 8])"
      unfolding ps using Cons.prems True by (intro gcl_fill_step) simp_all
    with Cons.IH[of _ _ "i + 1"] Cons.prems True show ?thesis by simp
  next
    case False
    then show ?thesis using Cons.prems by (simp add: ps wr_def)
  qed
qed

section \<open>What the gate does\<close>

text \<open>The gate steps through its entries; an entry is a value and an interval.\<close>

fun gate_walk :: "(nat \<times> nat) list \<Rightarrow> nat \<Rightarrow> nat option" where
  "gate_walk [] u = None"
| "gate_walk ((v, d) # es) u = (if u < d then Some v else gate_walk es (u - d))"

definition gate_entries :: "nat \<Rightarrow> mem \<Rightarrow> (nat \<times> nat) list" where
  "gate_entries k m = map (\<lambda>i. (unat (fst (gcl_entry k i m)) mod 2 ^ 9, unat (snd (gcl_entry k i m)) mod 2 ^ 20)) [0..<16]"

text \<open>The value of port \<open>k\<close> in slot \<open>t\<close> of \<open>2 ^ 14\<close> ns; the intervals count units of \<open>2 ^ 11\<close> ns.\<close>

definition gate_at :: "nat \<Rightarrow> nat \<Rightarrow> mem \<Rightarrow> nat option" where
  "gate_at k t m = gate_walk (gate_entries k m) (8 * t)"

fun segments :: "(int \<Rightarrow> int) \<Rightarrow> int list \<Rightarrow> (nat \<times> nat) list" where
  "segments g (p # q # rest) = (nat (g p), nat ((q - p) * 8)) # segments g (q # rest)"
| "segments g _ = []"

lemma length_segments: "length (segments g ps) = length ps - 1"
  by (induction g ps rule: segments.induct) auto

lemma nth_segments: "Suc j < length ps \<Longrightarrow> segments g ps ! j = (nat (g (ps ! j)), nat ((ps ! Suc j - ps ! j) * 8))"
proof (induction g ps arbitrary: j rule: segments.induct)
  case (1 g p q rest)
  then show ?case by (cases j) auto
qed auto

lemma walk_segments:
  assumes "sorted_wrt (<) (p # ps)" "p \<le> t" "t < last (p # ps)"
  shows "\<exists>u \<in> set (p # ps). u \<le> t \<and> (\<forall>q \<in> set (p # ps). q \<le> t \<longrightarrow> q \<le> u) \<and>
    gate_walk (segments g (p # ps) @ rest) (nat ((t - p) * 8)) = Some (nat (g u))"
  using assms
proof (induction ps arbitrary: p)
  case Nil
  then show ?case by simp
next
  case (Cons q ps)
  have pq: "p < q" using Cons.prems(1) by simp
  show ?case
  proof (cases "t < q")
    case True
    have "nat ((t - p) * 8) < nat ((q - p) * 8)" using True Cons.prems(2) by simp
    moreover have "\<forall>r \<in> set (p # q # ps). r \<le> t \<longrightarrow> r \<le> p" using True Cons.prems(1) by auto
    ultimately show ?thesis using Cons.prems(2) by (intro bexI[of _ p]) auto
  next
    case False
    then have "q \<le> t" by simp
    with Cons.IH[of q] Cons.prems obtain u where u: "u \<in> set (q # ps)" "u \<le> t"
      "\<forall>r \<in> set (q # ps). r \<le> t \<longrightarrow> r \<le> u"
      "gate_walk (segments g (q # ps) @ rest) (nat ((t - q) * 8)) = Some (nat (g u))"
      by auto
    have "nat ((t - p) * 8) - nat ((q - p) * 8) = nat ((t - q) * 8)" "\<not> nat ((t - p) * 8) < nat ((q - p) * 8)"
      using False pq by (auto simp: nat_diff_distrib' algebra_simps)
    moreover have "p \<le> u" using u(1) Cons.prems(1) by (auto intro: less_imp_le)
    ultimately show ?thesis using u by (intro bexI[of _ u]) auto
  qed
qed

section \<open>The windows of a schedule\<close>

text \<open>The intervals that one occurrence takes up: one, or two if it goes past the end of the cycle.\<close>

definition window :: "int \<Rightarrow> int \<Rightarrow> (int \<times> int) set" where
  "window b e = (if e > 2048 then {(0, e - 2048), (b, 2048)} else {(b, e)})"

definition item_windows :: "int \<Rightarrow> int \<Rightarrow> int \<Rightarrow> int \<Rightarrow> (int \<times> int) set" where
  "item_windows p s e x = (\<Union>k \<in> {k. x + int k * p < 2048}. window (x + int k * p + s) (x + int k * p + e))"

text \<open>The time points and the start times are those of the windows \<open>W\<close>.\<close>

definition points_of :: "(int \<times> int) set \<Rightarrow> int list \<times> int list \<Rightarrow> bool" where
  "points_of W acc \<longleftrightarrow> set (fst acc) = {0, 2048} \<union> fst ` W \<union> snd ` W \<and> set (snd acc) = fst ` W"

lemma points_occurrence: "points_of W acc \<Longrightarrow> points_of (W \<union> window b e) (occurrence b e acc)"
  by (auto simp: points_of_def occurrence_def window_def MAX_PERIOD_def)

lemma item_windows_done: "2048 \<le> x \<Longrightarrow> 0 < p \<Longrightarrow> item_windows p s e x = {}"
  by (auto simp: item_windows_def) (smt (verit) mult_nonneg_nonneg of_nat_0_le_iff)

lemma item_windows_step:
  assumes "x < 2048"
  shows "item_windows p s e x = window (x + s) (x + e) \<union> item_windows p s e (x + p)"
proof -
  have "{k. x + int k * p < 2048} = insert 0 (Suc ` {k. x + p + int k * p < 2048})" (is "?A = ?B")
  proof (rule set_eqI)
    fix k
    show "k \<in> ?A \<longleftrightarrow> k \<in> ?B" using assms by (cases k) (auto simp: algebra_simps)
  qed
  then show ?thesis by (simp add: item_windows_def algebra_simps)
qed

lemma points_occurrences:
  assumes "points_of W acc" and "occurrences p s e x acc = Some acc'" and "0 < p"
  shows "points_of (W \<union> item_windows p s e x) acc'"
  using assms
proof (induction p s e x acc arbitrary: W rule: occurrences.induct)
  case (1 p s e x acc)
  show ?case
  proof (cases "x < 2048")
    case False
    then show ?thesis
      using "1.prems" by (subst (asm) occurrences.simps) (simp add: MAX_PERIOD_def item_windows_done)
  next
    case True
    with "1.prems"(2,3) have i: "iadd x e = Some (x + e)" "iadd x s = Some (x + s)" "iadd x p = Some (x + p)"
      and r: "occurrences p s e (x + p) (occurrence (x + s) (x + e) acc) = Some acc'"
      by (subst (asm) occurrences.simps; auto simp: MAX_PERIOD_def bind_eq_Some_conv iadd_def split: if_splits)+
    have "\<not> p \<le> 0" "x < MAX_PERIOD" using "1.prems"(3) True by (simp_all add: MAX_PERIOD_def)
    from "1.IH"[OF this(2,1) i points_occurrence[OF "1.prems"(1)] r "1.prems"(3)]
    show ?thesis by (simp add: item_windows_step[OF True] Un_assoc)
  qed
qed

text \<open>A frame: its period, its first slot and the slot after its last one, in slots of \<open>2 ^ 14\<close> ns.\<close>

type_synonym tt_frame = "int \<times> int \<times> int"

definition tt_frame :: "json \<Rightarrow> tt_frame option" where
  "tt_frame item = do {
     p \<leftarrow> int_ref ''period'' item;
     s \<leftarrow> int_ref ''start'' item;
     e \<leftarrow> int_ref ''end'' item;
     Some (p, s, e)
   }"

text \<open>A frame whose occurrences fit its period, and a period that divides the cycle.\<close>

definition valid_frame :: "tt_frame \<Rightarrow> bool" where
  "valid_frame f = (case f of (p, s, e) \<Rightarrow> 0 < p \<and> p dvd 2048 \<and> 0 \<le> s \<and> s < p \<and> s < e \<and> e \<le> s + p)"

text \<open>The slots in which the frame is to be sent.\<close>

definition frame_slot :: "tt_frame \<Rightarrow> int \<Rightarrow> bool" where
  "frame_slot f t = (case f of (p, s, e) \<Rightarrow> (t - s) mod p < e - s)"

definition frame_windows :: "tt_frame \<Rightarrow> (int \<times> int) set" where
  "frame_windows f = (case f of (p, s, e) \<Rightarrow> item_windows p s e 0)"

text \<open>The one window of the frame that can contain slot \<open>t\<close>.\<close>

definition window_at :: "tt_frame \<Rightarrow> int \<Rightarrow> int \<times> int" where
  "window_at f t = (case f of (p, s, e) \<Rightarrow>
     let x = (t - s) div p * p in if x < 0 then (0, x + e) else (x + s, min 2048 (x + e)))"

lemma div_eqI: "p * k \<le> a \<Longrightarrow> a < p * k + p \<Longrightarrow> a div p = k" for a p k :: int
  by (rule int_div_pos_eq[of a p k "a - p * k"]) auto

lemma frame_window_slot:
  assumes "valid_frame f" and "(a, b) \<in> frame_windows f"
  shows "0 \<le> a \<and> a < b \<and> b \<le> 2048"
    and "a \<le> t \<Longrightarrow> t < b \<Longrightarrow> frame_slot f t \<and> (a, b) = window_at f t"
proof -
  obtain p s e where f: "f = (p, s, e)" by (cases f)
  from assms(1) obtain n where v: "0 < p" "2048 = p * n" "0 \<le> s" "s < p" "s < e" "e \<le> s + p"
    by (auto simp: f valid_frame_def)
  from assms(2) obtain k where k: "int k * p < 2048" and w: "(a, b) \<in> window (int k * p + s) (int k * p + e)"
    by (auto simp: f frame_windows_def item_windows_def)
  have "int k < n" using k v(1,2) by (metis mult.commute mult_less_cancel_left_pos)
  then have "int k + 1 \<le> n" by simp
  then have x: "p * int k + p \<le> 2048" using v(1,2) by (metis mult_left_mono distrib_left mult.right_neutral less_imp_le)
  have kp: "int k * p = p * int k" "0 \<le> p * int k" using v(1) by simp_all
  have nn: "\<not> p * int k < 0" using kp(2) by linarith
  have pl: "p \<le> 2048" using x kp(2) by linarith
  show "0 \<le> a \<and> a < b \<and> b \<le> 2048"
    using w v x kp pl by (auto simp: window_def split: if_splits)
  assume t: "a \<le> t" "t < b"
  show "frame_slot f t \<and> (a, b) = window_at f t"
  proof (cases "a = p * int k + s")
    case True
    then have e: "p * int k \<le> t - s" "t - s < p * int k + p" "t < p * int k + e" "b = min 2048 (p * int k + e)"
      using w v x kp t pl by (auto simp: window_def split: if_splits)
    have "(t - s) div p = int k" by (rule div_eqI[OF e(1,2)])
    moreover then have "(t - s) mod p = t - s - p * int k" by (simp add: minus_mult_div_eq_mod[symmetric])
    ultimately show ?thesis
      using e True nn by (simp add: f frame_slot_def window_at_def Let_def mult.commute)
  next
    case False
    then have e: "a = 0" "b = p * int k + e - 2048" using w kp by (auto simp: window_def split: if_splits)
    have pn: "p * (int k - n) = p * int k - 2048" using v(2) by (simp add: right_diff_distrib)
    have d: "(t - s) div p = int k - n"
    proof (rule div_eqI)
      show "p * (int k - n) \<le> t - s" unfolding pn using e t v(4) x by linarith
      show "t - s < p * (int k - n) + p" unfolding pn using e t v(6) by linarith
    qed
    then have "(t - s) mod p = t - s - p * int k + 2048"
      using pn by (simp add: minus_mult_div_eq_mod[symmetric])
    moreover have "(t - s) div p * p = p * int k - 2048" using d pn by (simp only: mult.commute)
    ultimately show ?thesis
      using e t x v(1) by (simp add: f frame_slot_def window_at_def Let_def)
  qed
qed

lemma frame_slot_window:
  assumes "valid_frame f" and "frame_slot f t" and "0 \<le> t" "t < 2048"
  shows "\<exists>(a, b) \<in> frame_windows f. a \<le> t \<and> t < b"
proof -
  obtain p s e where f: "f = (p, s, e)" by (cases f)
  from assms(1) obtain n where v: "0 < p" "2048 = p * n" "0 \<le> s" "s < p" "s < e" "e \<le> s + p"
    by (auto simp: f valid_frame_def)
  define q where "q = (t - s) div p"
  have m: "t - s = p * q + (t - s) mod p" "0 \<le> (t - s) mod p" "(t - s) mod p < e - s"
    using v(1) assms(2) by (simp_all add: q_def f frame_slot_def)
  show ?thesis
  proof (cases "0 \<le> q")
    case True
    then obtain k where k: "q = int k" by (metis nonneg_int_cases)
    have "(if p * q + e > 2048 then (p * q + s, 2048) else (p * q + s, p * q + e)) \<in> window (int k * p + s) (int k * p + e)"
      by (simp add: window_def k mult.commute)
    moreover have "int k * p < 2048" using m v(3) assms(4) by (simp add: k mult.commute)
    ultimately have "(if p * q + e > 2048 then (p * q + s, 2048) else (p * q + s, p * q + e)) \<in> frame_windows f"
      unfolding frame_windows_def item_windows_def f by auto
    then show ?thesis using m assms(4) by (intro bexI) (auto split: if_splits)
  next
    case False
    have "p * q > p * (- 2)" using m assms(3) v by simp
    then have "- 2 < q" using v(1) by (simp only: mult_less_cancel_left_pos)
    then have q: "q = -1" using False by simp
    have n: "0 < n" using v(1,2) by (metis zero_less_mult_pos zero_less_numeral)
    define k where "k = nat (n - 1)"
    have k: "int k = n - 1" using n by (simp add: k_def)
    have kp: "int k * p = 2048 - p" using v(2) by (simp add: k algebra_simps)
    have "(0, e - p) \<in> window (int k * p + s) (int k * p + e)"
      using m q assms(3) v by (simp add: window_def kp)
    moreover have "int k * p < 2048" using v(1) kp by simp
    ultimately have "(0, e - p) \<in> frame_windows f"
      unfolding frame_windows_def item_windows_def f by auto
    then show ?thesis using m q assms(3) by (intro bexI[of _ "(0, e - p)"]) auto
  qed
qed

text \<open>The points and the start times of a whole schedule.\<close>

definition tt_frames :: "json \<Rightarrow> tt_frame list option" where
  "tt_frames data = Option.bind (elems_ref ''schedule'' data) (\<lambda>items. those (map tt_frame items))"

lemma points_items:
  assumes "points_of W acc" and "for_each item_step items acc = Some acc'"
    and "those (map tt_frame items) = Some fs" and "\<forall>f \<in> set fs. valid_frame f"
  shows "points_of (W \<union> (\<Union>f \<in> set fs. frame_windows f)) acc'"
  using assms
proof (induction items arbitrary: W acc fs)
  case Nil
  then show ?case by simp
next
  case (Cons item items)
  from Cons.prems(3) obtain f fs' where f: "tt_frame item = Some f" "those (map tt_frame items) = Some fs'" "fs = f # fs'"
    by (auto split: option.splits)
  obtain p s e where pse: "f = (p, s, e)" by (cases f)
  from Cons.prems(2) obtain acc1 where a: "item_step item acc = Some acc1" "for_each item_step items acc1 = Some acc'"
    by (auto simp: bind_eq_Some_conv)
  have v: "0 < p" using Cons.prems(4) by (simp add: f pse valid_frame_def)
  have i: "item_step item acc = (if p = 2048 then Some (occurrence s e acc) else occurrences p s e 0 acc)"
    using f(1) by (auto simp: tt_frame_def item_step_def pse MAX_PERIOD_def bind_eq_Some_conv)
  have "points_of (W \<union> frame_windows f) acc1"
  proof (cases "p = 2048")
    case True
    then have "frame_windows f = window s e"
      by (simp add: frame_windows_def pse item_windows_step item_windows_done)
    then show ?thesis using a(1) i True points_occurrence[OF Cons.prems(1), of s e] by simp
  next
    case False
    then show ?thesis
      using a(1) i points_occurrences[OF Cons.prems(1) _ v] by (simp add: frame_windows_def pse)
  qed
  from Cons.IH[OF this a(2) f(2)] Cons.prems(4) show ?case by (simp add: f(3) Un_assoc)
qed

lemma sorted_strict: "sorted xs \<Longrightarrow> sorted_wrt (<) (remdups_adj xs)" for xs :: "'a::linorder list"
  by (induction xs rule: remdups_adj.induct) (auto simp: order_less_le)

lemma gcl_points_set:
  assumes "gcl_points data = Some (tps, starts)" and "tt_frames data = Some fs" and "\<forall>f \<in> set fs. valid_frame f"
  defines "W \<equiv> \<Union>f \<in> set fs. frame_windows f"
  shows "sorted_wrt (<) tps" "set tps = {0, 2048} \<union> fst ` W \<union> snd ` W" "set starts = fst ` W"
proof -
  from assms(1,2) obtain items acc where i: "elems_ref ''schedule'' data = Some items"
    "for_each item_step items ([0, MAX_PERIOD], []) = Some acc" "those (map tt_frame items) = Some fs"
    and t: "tps = remdups_adj (sort (fst acc))" "starts = snd acc"
    by (auto simp: gcl_points_def tt_frames_def bind_eq_Some_conv)
  have "points_of {} ([0, MAX_PERIOD], [])" by (simp add: points_of_def MAX_PERIOD_def)
  from points_items[OF this i(2,3) assms(3)] have p: "points_of W acc" by (simp add: W_def)
  show "set tps = {0, 2048} \<union> fst ` W \<union> snd ` W" "set starts = fst ` W"
    using p by (simp_all add: t points_of_def)
  show "sorted_wrt (<) tps" by (simp add: t sorted_strict)
qed

text \<open>The greatest time point up to a slot is a start time exactly when a frame is due in the slot.\<close>

lemma start_iff_slot:
  assumes "\<forall>f \<in> set fs. valid_frame f" and "\<And>f g. f \<in> set fs \<Longrightarrow> g \<in> set fs \<Longrightarrow> f \<noteq> g \<Longrightarrow>
      \<forall>t. \<not> (frame_slot f t \<and> frame_slot g t)"
  defines "W \<equiv> \<Union>f \<in> set fs. frame_windows f"
  assumes u: "u \<in> {0, 2048} \<union> fst ` W \<union> snd ` W" "u \<le> t" "\<forall>q \<in> {0, 2048} \<union> fst ` W \<union> snd ` W. q \<le> t \<longrightarrow> q \<le> u"
    and t: "0 \<le> t" "t < 2048"
  shows "u \<in> fst ` W \<longleftrightarrow> (\<exists>f \<in> set fs. frame_slot f t)"
proof -
  have w: "0 \<le> a \<and> a < b \<and> b \<le> 2048" if "(a, b) \<in> W" for a b
    using that frame_window_slot(1) assms(1) unfolding W_def by blast
  have uniq: "(a, b) = (c, d)" if "(a, b) \<in> W" "(c, d) \<in> W" "a \<le> r" "r < b" "c \<le> r" "r < d" for a b c d r
  proof -
    from that(1) obtain f where f: "f \<in> set fs" "(a, b) \<in> frame_windows f" by (auto simp: W_def)
    from that(2) obtain g where g: "g \<in> set fs" "(c, d) \<in> frame_windows g" by (auto simp: W_def)
    from frame_window_slot(2)[OF _ f(2) that(3,4)] assms(1) f(1)
    have x: "frame_slot f r" "(a, b) = window_at f r" by auto
    from frame_window_slot(2)[OF _ g(2) that(5,6)] assms(1) g(1)
    have y: "frame_slot g r" "(c, d) = window_at g r" by auto
    from assms(2)[OF f(1) g(1)] x(1) y(1) have "f = g" by blast
    with x y show ?thesis by simp
  qed
  have "(\<exists>f \<in> set fs. frame_slot f t) \<longleftrightarrow> (\<exists>(a, b) \<in> W. a \<le> t \<and> t < b)"
    using frame_slot_window[OF _ _ t] frame_window_slot(2) assms(1) by (fastforce simp: W_def)
  also have "\<dots> \<longleftrightarrow> u \<in> fst ` W"
  proof
    assume "u \<in> fst ` W"
    then obtain b where b: "(u, b) \<in> W" by auto
    then have "b \<in> snd ` W" by force
    then have "b \<le> t \<longrightarrow> b \<le> u" using u(3) by blast
    then have "t < b" using w[OF b] by linarith
    then show "\<exists>(a, b) \<in> W. a \<le> t \<and> t < b" using b u(2) by auto
  next
    assume "\<exists>(a, b) \<in> W. a \<le> t \<and> t < b"
    then obtain a b where ab: "(a, b) \<in> W" "a \<le> t" "t < b" by auto
    then have "a \<in> fst ` W" by force
    with u(3) ab(2) have au: "a \<le> u" by auto
    show "u \<in> fst ` W"
    proof (rule ccontr)
      assume n: "u \<notin> fst ` W"
      with \<open>a \<in> fst ` W\<close> au have "a < u" by (cases "a = u") auto
      with w[OF ab(1)] u(1) n ab(3) u(2) have "u \<in> snd ` W" by auto
      then obtain c where c: "(c, u) \<in> W" by auto
      from uniq[OF ab(1) c, of "u - 1"] w[OF c] \<open>a < u\<close> u(2) ab(3) show False by auto
    qed
  qed
  finally show ?thesis by simp
qed

section \<open>The gate of a port\<close>

lemma gcl_loop:
  assumes "0 \<le> port" "port < 4" "n \<le> 16"
  shows "ok (for_each (gcl_write port ctl) [0..<n] r) (\<lambda>r'.
    (\<forall>j < n. gcl_entry (nat port) j (gcl_mem r') = entry_words ctl j) \<and>
    (\<forall>k < 4. \<forall>j < 16. k \<noteq> nat port \<longrightarrow> gcl_entry k j (gcl_mem r') = gcl_entry k j (gcl_mem r)) \<and>
    rule_mem r' = rule_mem r \<and> g_counter r' = g_counter r)"
proof -
  let ?I = "\<lambda>i r'. (\<forall>j < i. gcl_entry (nat port) j (gcl_mem r') = entry_words ctl j) \<and>
    (\<forall>k < 4. \<forall>j < 16. k \<noteq> nat port \<longrightarrow> gcl_entry k j (gcl_mem r') = gcl_entry k j (gcl_mem r)) \<and>
    rule_mem r' = rule_mem r \<and> g_counter r' = g_counter r"
  have p: "nat port < 4" using assms(2) by simp
  show ?thesis
  proof (rule ok_for_upt[where I = ?I])
    show "?I 0 r" by simp
    fix i and t :: pl
    assume i: "i < n" and I: "?I i t"
    from gcl_write_ok[OF assms(1,2), of i ctl t] i assms(3) obtain m where
      m: "gcl_write port ctl i t = Some (t\<lparr>gcl_mem := m\<rparr>)" "gcl_entry (nat port) i m = entry_words ctl i"
      "\<forall>k < 4. \<forall>j < 16. (k, j) \<noteq> (nat port, i) \<longrightarrow> gcl_entry k j m = gcl_entry k j (gcl_mem t)"
      by auto
    then show "ok (gcl_write port ctl i t) (?I (Suc i))"
      using I i assms(3) p by (auto simp: less_Suc_eq)
  qed
qed

lemma entry_value: "i < 16 \<Longrightarrow> 0 \<le> v \<Longrightarrow> v < 512 \<Longrightarrow>
  unat (push_bit 9 (word_of_nat i) + ucast (word_of_int v :: 16 word) :: 32 word) mod 2 ^ 9 = nat v"
proof -
  assume a: "i < 16" "0 \<le> v" "v < 512"
  obtain n where n: "v = int n" "n < 512" using a(2,3) by (metis int_nat_eq nat_less_iff of_nat_numeral)
  have l: "unat (push_bit 9 (word_of_nat i) :: 32 word) = 512 * i" "unat (ucast (word_of_int v :: 16 word) :: 32 word) = n"
    using a(1) n by (simp_all add: push_bit_eq_mult unat_word_ariths unat_of_nat take_bit_eq_mod unsigned_ucast_eq)
  have "unat (push_bit 9 (word_of_nat i) + ucast (word_of_int v :: 16 word) :: 32 word) = 512 * i + n"
    using a(1) n(2) by (subst unat_plus_small) (simp_all add: l)
  then show ?thesis using n by simp
qed

lemma entry_interval: "i < 16 \<Longrightarrow> 0 \<le> v \<Longrightarrow> v < 65536 \<Longrightarrow>
  unat (push_bit 20 (word_of_nat i) + ucast (word_of_int v :: 16 word) :: 32 word) mod 2 ^ 20 = nat v"
proof -
  assume a: "i < 16" "0 \<le> v" "v < 65536"
  obtain n where n: "v = int n" "n < 65536" using a(2,3) by (metis int_nat_eq nat_less_iff of_nat_numeral)
  have l: "unat (push_bit 20 (word_of_nat i) :: 32 word) = 1048576 * i" "unat (ucast (word_of_int v :: 16 word) :: 32 word) = n"
    using a(1) n by (simp_all add: push_bit_eq_mult unat_word_ariths unat_of_nat take_bit_eq_mod unsigned_ucast_eq)
  have "unat (push_bit 20 (word_of_nat i) + ucast (word_of_int v :: 16 word) :: 32 word) = 1048576 * i + n"
    using a(1) n(2) by (subst unat_plus_small) (simp_all add: l)
  then show ?thesis using n by simp
qed

lemma sum_segments: "sorted_wrt (<) (p # ps) \<Longrightarrow>
  sum_list (map snd (segments g (p # ps))) = nat ((last (p # ps) - p) * 8)"
proof (induction ps arbitrary: p)
  case Nil
  then show ?case by simp
next
  case (Cons q ps)
  have "q \<le> last (q # ps)" using Cons.prems by (auto intro: less_imp_le)
  moreover have "p < q" using Cons.prems by simp
  ultimately show ?case using Cons.IH[of q] Cons.prems by (simp add: nat_add_distrib[symmetric] algebra_simps)
qed

text \<open>The lists of \<open>apply_gcl\<close>, read back from the registers.\<close>

lemma entries_of_lists:
  assumes "length tps \<le> 17" "sorted_wrt (<) tps" "\<forall>t \<in> set tps. 0 \<le> t \<and> t \<le> 2048"
    and "\<forall>j < 16. fst ctl ! j = fill_val starts 0 tps (replicate 16 1) j \<and> snd ctl ! j = fill_time 0 tps (replicate 16 0) j"
    and "\<forall>j < 16. gcl_entry k j m = entry_words ctl j"
  shows "gate_entries k m = segments (gate_value starts) tps @ replicate (16 - (length tps - 1)) (1, 0)"
proof (rule nth_equalityI)
  show "length (gate_entries k m) = length (segments (gate_value starts) tps @ replicate (16 - (length tps - 1)) (1, 0))"
    using assms(1) by (simp add: gate_entries_def length_segments)
  fix j assume "j < length (gate_entries k m)"
  then have j: "j < 16" by (simp add: gate_entries_def)
  let ?v = "fill_val starts 0 tps (replicate 16 1) j" and ?t = "fill_time 0 tps (replicate 16 0) j"
  have v: "0 \<le> ?v" "?v < 512" using j by (auto simp: fill_val_def gate_value_def)
  have t: "0 \<le> ?t" "?t < 65536"
  proof -
    have "0 \<le> ?t \<and> ?t < 65536"
    proof (cases "Suc j < length tps")
      case True
      then have "tps ! j < tps ! Suc j" "0 \<le> tps ! j" "tps ! Suc j \<le> 2048"
        using assms(2,3) by (auto simp: sorted_wrt_nth_less)
      then show ?thesis by (simp add: fill_time_def True)
    next
      case False
      then show ?thesis using j by (simp add: fill_time_def)
    qed
    then show "0 \<le> ?t" "?t < 65536" by simp_all
  qed
  have "gate_entries k m ! j = (nat ?v, nat ?t)"
    using j assms(4,5) entry_value[OF j v] entry_interval[OF j t] by (simp add: gate_entries_def entry_words_def)
  then show "gate_entries k m ! j = (segments (gate_value starts) tps @ replicate (16 - (length tps - 1)) (1, 0)) ! j"
    using j assms(1) by (simp add: nth_append length_segments nth_segments fill_val_def fill_time_def less_diff_conv)
qed

lemma strict_bounds:
  "sorted_wrt (<) (q # qs) \<Longrightarrow> t \<in> set (q # qs) \<Longrightarrow> q \<le> t \<and> t \<le> last (q # qs)" for q :: "'a::linorder"
proof (induction qs arbitrary: q)
  case Nil
  then show ?case by simp
next
  case (Cons x xs)
  have "q < x" "x \<le> last (x # xs)" using Cons.prems(1) Cons.IH[of x] Cons.prems(1)
    by (auto intro: less_imp_le)
  then show ?case using Cons by (auto intro: less_imp_le)
qed

text \<open>The points of a list of valid frames: a strictly ascending list from 0 to 2048.\<close>

lemma gcl_points_span:
  assumes "gcl_points data = Some (tps, starts)" "tt_frames data = Some fs" "\<forall>f \<in> set fs. valid_frame f"
  shows "sorted_wrt (<) tps" "\<forall>t \<in> set tps. 0 \<le> t \<and> t \<le> 2048" "\<exists>qs. tps = 0 # qs \<and> last (0 # qs) = 2048"
    and "set tps = {0, 2048} \<union> fst ` (\<Union>f \<in> set fs. frame_windows f) \<union> snd ` (\<Union>f \<in> set fs. frame_windows f)"
    and "set starts = fst ` (\<Union>f \<in> set fs. frame_windows f)"
proof -
  define W where "W = (\<Union>f \<in> set fs. frame_windows f)"
  have p: "sorted_wrt (<) tps" "set tps = {0, 2048} \<union> fst ` W \<union> snd ` W" "set starts = fst ` W"
    using gcl_points_set[OF assms] by (simp_all add: W_def)
  have "0 \<le> a \<and> a < b \<and> b \<le> 2048" if "(a, b) \<in> W" for a b
    using that frame_window_slot(1) assms(3) unfolding W_def by blast
  then have r: "\<forall>t \<in> set tps. 0 \<le> t \<and> t \<le> 2048" unfolding p(2) by fastforce
  obtain q qs where tps: "tps = q # qs" using p(2) by (cases tps) auto
  have "0 \<in> set tps" "2048 \<in> set tps" using p(2) by simp_all
  then have m: "q \<le> 0" "2048 \<le> last (q # qs)"
    using strict_bounds[OF p(1)[unfolded tps], of 0] strict_bounds[OF p(1)[unfolded tps], of 2048]
    unfolding tps by blast+
  have "q \<in> set tps" "last (q # qs) \<in> set tps"
    unfolding tps by (simp_all only: last_in_set list.set_intros list.distinct not_False_eq_True)
  then have "0 \<le> q" "last (q # qs) \<le> 2048" using r by blast+
  with m tps show "\<exists>qs. tps = 0 # qs \<and> last (0 # qs) = 2048" by simp
  show "sorted_wrt (<) tps" "\<forall>t \<in> set tps. 0 \<le> t \<and> t \<le> 2048" by (fact p r)+
  show "set tps = {0, 2048} \<union> fst ` (\<Union>f \<in> set fs. frame_windows f) \<union> snd ` (\<Union>f \<in> set fs. frame_windows f)"
    "set starts = fst ` (\<Union>f \<in> set fs. frame_windows f)"
    using p by (simp_all add: W_def)
qed

text \<open>
  C13. Gate control: for a link whose frames have valid periods and never share a slot, and whose schedule
  needs at most 16 intervals, \<open>apply_gcl\<close> programs the port so that in every slot of the cycle the gate
  has the value 1 (time-triggered traffic) when one of the frames is due in the slot, and otherwise the
  value that lets the other traffic pass. The intervals add up to the cycle and the other ports keep
  theirs.
\<close>

theorem apply_gcl_gate:
  assumes "0 \<le> port" "port < 4" "int_ref ''from'' data \<noteq> None" "int_ref ''to'' data \<noteq> None"
    and "tt_frames data = Some fs" "\<forall>f \<in> set fs. valid_frame f"
    and "\<And>f g t. f \<in> set fs \<Longrightarrow> g \<in> set fs \<Longrightarrow> f \<noteq> g \<Longrightarrow> \<not> (frame_slot f t \<and> frame_slot g t)"
    and "gcl_points data = Some (tps, starts)" "length tps \<le> 17"
  shows "ok (apply_gcl data port r) (\<lambda>r'.
    (\<forall>t < 2048. gate_at (nat port) t (gcl_mem r') =
      Some (if \<exists>f \<in> set fs. frame_slot f (int t) then 1 else 0x102)) \<and>
    sum_list (map snd (gate_entries (nat port) (gcl_mem r'))) = 8 * 2048 \<and>
    (\<forall>k < 4. k \<noteq> nat port \<longrightarrow> gate_entries k (gcl_mem r') = gate_entries k (gcl_mem r)))"
proof -
  note p = gcl_points_span[OF assms(8,5,6)]
  obtain qs where tps: "tps = 0 # qs" and l: "last (0 # qs) = 2048" using p(3) by blast
  obtain ctl where c: "gcl_fill tps starts 0 (replicate GCL_SIZE 1, replicate GCL_SIZE 0) = Some ctl"
    "length (fst ctl) = 16" "\<forall>j < 16. fst ctl ! j = fill_val starts 0 tps (replicate 16 1) j \<and>
      snd ctl ! j = fill_time 0 tps (replicate 16 0) j"
    using gcl_fill_lists[of "replicate 16 1" "replicate 16 0" 0 tps starts] assms(9)
    by (auto simp: ok_iff GCL_SIZE_def)
  obtain r' where r': "for_each (gcl_write port ctl) [0..<16] r = Some r'"
    "\<forall>j < 16. gcl_entry (nat port) j (gcl_mem r') = entry_words ctl j"
    "\<forall>k < 4. \<forall>j < 16. k \<noteq> nat port \<longrightarrow> gcl_entry k j (gcl_mem r') = gcl_entry k j (gcl_mem r)"
    using gcl_loop[OF assms(1,2), of 16 ctl r] by (auto simp: ok_iff)
  have a: "apply_gcl data port r = Some r'"
    using assms(3,4,8) c(1,2) r'(1) by (auto simp: apply_gcl_def)
  note e = entries_of_lists[OF assms(9) p(1,2) c(3) r'(2)]
  have g: "gate_at (nat port) t (gcl_mem r') = Some (if \<exists>f \<in> set fs. frame_slot f (int t) then 1 else 0x102)"
    if t: "t < 2048" for t
  proof -
    from walk_segments[OF p(1)[unfolded tps], of "int t" "gate_value starts" "replicate (16 - (length tps - 1)) (1, 0)"] t
    obtain u where u: "u \<in> set tps" "u \<le> int t" "\<forall>x \<in> set tps. x \<le> int t \<longrightarrow> x \<le> u" and
      g: "gate_walk (gate_entries (nat port) (gcl_mem r')) (nat (int t * 8)) = Some (nat (gate_value starts u))"
      unfolding l unfolding tps[symmetric] e[symmetric] by auto
    have "u \<in> set starts \<longleftrightarrow> (\<exists>f \<in> set fs. frame_slot f (int t))"
      unfolding p(5)
      by (rule start_iff_slot[OF assms(6)]) (use assms(7) u t in \<open>auto simp: p(4)\<close>)
    moreover have "nat (int t * 8) = 8 * t" by simp
    ultimately show ?thesis using g by (auto simp: gate_at_def gate_value_def)
  qed
  have s: "sum_list (map snd (gate_entries (nat port) (gcl_mem r'))) = 8 * 2048"
    using sum_segments[OF p(1)[unfolded tps], of "gate_value starts"] unfolding l unfolding tps[symmetric]
    by (simp add: e sum_list_replicate)
  have o: "gate_entries k (gcl_mem r') = gate_entries k (gcl_mem r)" if "k < 4" "k \<noteq> nat port" for k
    using r'(3) that by (simp add: gate_entries_def)
  show ?thesis using g s o by (simp add: a)
qed

text \<open>
  A schedule that needs more than 16 intervals on a link is not refused: \<open>apply_gcl\<close> writes past the
  end of its lists.
\<close>

theorem apply_gcl_too_many:
  assumes "gcl_points data = Some (tps, starts)" "17 < length tps"
  shows "apply_gcl data port r = None"
  using gcl_fill_overflow[of "replicate 16 1" "replicate 16 0" 0 tps starts] assms
  by (cases "int_ref ''from'' data"; cases "int_ref ''to'' data") (simp_all add: apply_gcl_def GCL_SIZE_def)

section \<open>The forwarding table\<close>

text \<open>Rule \<open>i\<close> of the table: the destination address and the port byte.\<close>

definition rule_at :: "nat \<Rightarrow> mem \<Rightarrow> byte list \<times> byte" where
  "rule_at i m = ([m (8 * i + 6), m (8 * i + 7), m (8 * i), m (8 * i + 1), m (8 * i + 2), m (8 * i + 3)], m (8 * i + 4))"

text \<open>The rule that a link asks for: none if it starts elsewhere or its port is unknown.\<close>

definition rule_of :: "int \<Rightarrow> (int \<Rightarrow> string option) \<Rightarrow> json \<Rightarrow> (byte list \<times> byte) option" where
  "rule_of my_id nodes link = do {
     src \<leftarrow> int_ref ''src'' link;
     src_port \<leftarrow> int_ref ''src_port'' link;
     dst \<leftarrow> int_ref ''dst'' link;
     dst_mac \<leftarrow> nodes dst;
     bytes \<leftarrow> those (map (mac_byte dst_mac) [0..<6]);
     pb \<leftarrow> port_byte src_port;
     if src = my_id then Some (bytes, pb) else None
   }"

lemma push_rule:
  assumes "g_counter r = 2 * n" "length mac = 6" "port_byte p = Some pb"
  shows "\<exists>m. snd (push_switch_rule mac p r) = r\<lparr>rule_mem := m, g_counter := 2 * (n + 1)\<rparr> \<and>
    rule_at n m = (mac, pb) \<and> (\<forall>i. i \<noteq> n \<longrightarrow> rule_at i m = rule_at i (rule_mem r))"
proof -
  obtain b0 b1 b2 b3 b4 b5 where mac: "mac = [b0, b1, b2, b3, b4, b5]"
    using assms(2) by (auto simp: numeral_eq_Suc length_Suc_conv)
  define m where "m = (rule_mem r)(8 * n := b2, 8 * n + 1 := b3, 8 * n + 2 := b4, 8 * n + 3 := b5,
    8 * n + 4 := pb, 8 * n + 5 := 0, 8 * n + 6 := b0, 8 * n + 7 := b1)"
  have "snd (push_switch_rule mac p r) = r\<lparr>rule_mem := m, g_counter := 2 * (n + 1)\<rparr>"
    by (simp add: push_switch_rule_def assms(1,3) mac Let_def m_def)
  moreover have "rule_at n m = (mac, pb)" by (simp add: rule_at_def mac m_def)
  moreover have "rule_at i m = rule_at i (rule_mem r)" if "i \<noteq> n" for i
  proof -
    have "m a = rule_mem r a" if "a div 8 = i" for a
      using \<open>i \<noteq> n\<close> that by (auto simp: m_def)
    then show ?thesis by (simp add: rule_at_def)
  qed
  ultimately show ?thesis by blast
qed

lemma those_map_length: "those (map f xs) = Some ys \<Longrightarrow> length ys = length xs"
  by (induction xs arbitrary: ys) (auto split: option.splits)

lemma link_rules:
  assumes "for_each (link_rule my_id nodes) links r = Some r'" "g_counter r = 2 * n"
  defines "rules \<equiv> List.map_filter (rule_of my_id nodes) links"
  shows "g_counter r' = 2 * (n + length rules) \<and> gcl_mem r' = gcl_mem r \<and>
    (\<forall>i < length rules. rule_at (n + i) (rule_mem r') = rules ! i) \<and>
    (\<forall>i < n. rule_at i (rule_mem r') = rule_at i (rule_mem r))"
  using assms(1,2) unfolding rules_def
proof (induction links arbitrary: r n)
  case Nil
  then show ?case by (simp add: map_filter_simps)
next
  case (Cons link links)
  from Cons.prems(1) obtain s where s: "link_rule my_id nodes link r = Some s"
    "for_each (link_rule my_id nodes) links s = Some r'"
    by (auto simp: bind_eq_Some_conv)
  show ?case
  proof (cases "rule_of my_id nodes link")
    case None
    have "s = r"
    proof (cases "int_ref ''src'' link = Some my_id")
      case True
      with s(1) obtain p d mac bs where x: "int_ref ''src_port'' link = Some p" "int_ref ''dst'' link = Some d"
        "nodes d = Some mac" "those (map (mac_byte mac) [0..<6]) = Some bs" "s = snd (push_switch_rule bs p r)"
        by (auto simp: link_rule_def bind_eq_Some_conv)
      with True None have "port_byte p = None"
        by (cases "port_byte p") (auto simp: rule_of_def)
      then show ?thesis by (simp add: x(5) push_switch_rule_def)
    next
      case False
      then show ?thesis using s(1) by (auto simp: link_rule_def bind_eq_Some_conv split: if_splits)
    qed
    with Cons.IH[OF s(2)] Cons.prems(2) None show ?thesis by (simp add: map_filter_simps)
  next
    case (Some rule)
    then obtain p d mac bs pb where x: "int_ref ''src'' link = Some my_id" "int_ref ''src_port'' link = Some p"
      "int_ref ''dst'' link = Some d" "nodes d = Some mac" "those (map (mac_byte mac) [0..<6]) = Some bs"
      "port_byte p = Some pb" "rule = (bs, pb)"
      by (auto simp: rule_of_def bind_eq_Some_conv split: if_splits)
    have "s = snd (push_switch_rule bs p r)" using s(1) x by (simp add: link_rule_def)
    with push_rule[OF Cons.prems(2) _ x(6), of bs] those_map_length[OF x(5)] obtain m where
      m: "s = r\<lparr>rule_mem := m, g_counter := 2 * (n + 1)\<rparr>" "rule_at n m = rule"
        "\<forall>i. i \<noteq> n \<longrightarrow> rule_at i m = rule_at i (rule_mem r)"
      by (auto simp: x(7))
    then have "g_counter s = 2 * (n + 1)" by simp
    from Cons.IH[OF s(2) this] have i: "g_counter r' = 2 * (n + 1 + length (List.map_filter (rule_of my_id nodes) links))"
      "gcl_mem r' = gcl_mem r"
      "\<forall>i < length (List.map_filter (rule_of my_id nodes) links).
        rule_at (n + 1 + i) (rule_mem r') = List.map_filter (rule_of my_id nodes) links ! i"
      "\<forall>i < n + 1. rule_at i (rule_mem r') = rule_at i m"
      by (simp_all add: m(1))
    have "rule_at (n + i) (rule_mem r') = (rule # List.map_filter (rule_of my_id nodes) links) ! i"
      if "i < Suc (length (List.map_filter (rule_of my_id nodes) links))" for i
      using that i(3,4) m(2) by (cases i) auto
    then show ?thesis using i m(3) Some by (simp add: map_filter_simps)
  qed
qed

text \<open>
  Forwarding: after \<open>setup_topo\<close>, the table holds, behind the rules it had, one rule for each link that
  starts at this node and whose port is known, in the order of the document: the address of the link's
  destination and the byte of its port. The rules before them and the gate control are unchanged. Nothing
  limits the number of rules.
\<close>

theorem setup_topo_rules:
  assumes "setup_topo file mac_addr r = Some r'" and "g_counter r = 2 * n"
  shows "\<exists>j ns nodes my_id links. get_config file = Some j \<and> elems_ref ''nodes'' j = Some ns \<and>
    elems_ref ''fwd'' j = Some links \<and>
    for_each (topo_node_step mac_addr) ns (Map.empty, -1) = Some (nodes, my_id) \<and> my_id \<noteq> -1 \<and>
    (let rules = List.map_filter (rule_of my_id nodes) links in
      g_counter r' = 2 * (n + length rules) \<and> gcl_mem r' = gcl_mem r \<and>
      (\<forall>i < length rules. rule_at (n + i) (rule_mem r') = rules ! i) \<and>
      (\<forall>i < n. rule_at i (rule_mem r') = rule_at i (rule_mem r)))"
proof -
  from assms(1) obtain j ns nodes my_id links where x: "get_config file = Some j" "elems_ref ''nodes'' j = Some ns"
    "for_each (topo_node_step mac_addr) ns (Map.empty, -1) = Some (nodes, my_id)" "my_id \<noteq> -1"
    "elems_ref ''fwd'' j = Some links" "for_each (link_rule my_id nodes) links r = Some r'"
    by (auto simp: setup_topo_def bind_eq_Some_conv split: if_splits prod.splits)
  from link_rules[OF x(6) assms(2)] x show ?thesis by (simp add: Let_def)
qed

section \<open>Concrete documents\<close>

definition example_link :: json where
  "example_link = JObj [(''type'', JStr ''link''), (''from'', JInt 0), (''to'', JInt 1), (''from_port'', JInt 2),
     (''schedule'', JArr
       [JObj [(''period'', JInt 1024), (''start'', JInt 100), (''end'', JInt 150)],
        JObj [(''period'', JInt 2048), (''start'', JInt 2000), (''end'', JInt 2100)]])]"

definition example_busy_link :: json where
  "example_busy_link = JObj [(''from'', JInt 0), (''to'', JInt 1),
     (''schedule'', JArr [JObj [(''period'', JInt 128), (''start'', JInt 10), (''end'', JInt 20)]])]"

definition example_network :: json where
  "example_network = JObj [(''nodes'', JArr
     [JObj [(''type'', JStr ''switch''), (''id'', JInt 0), (''mac'', JStr ''00:0A:35:00:03:53'')],
      JObj [(''type'', JStr ''device''), (''id'', JInt 1), (''mac'', JStr ''a0:36:9f:74:0e:e1'')]]),
     (''fwd'', JArr
     [JObj [(''src'', JInt 0), (''src_port'', JInt 3), (''dst'', JInt 1)],
      JObj [(''src'', JInt 1), (''src_port'', JInt 0), (''dst'', JInt 0)]])]"

definition example_pl :: pl where
  "example_pl = \<lparr>rule_mem = (\<lambda>a. 0), g_counter = 12, gcl_mem = (\<lambda>a. 0)\<rparr>"

lemma apply_gcl_gate_witness:
  "ok (apply_gcl example_link 2 example_pl) (\<lambda>r'. gate_at 2 120 (gcl_mem r') = Some 1 \<and>
     gate_at 2 51 (gcl_mem r') = Some 1 \<and> gate_at 2 52 (gcl_mem r') = Some 258)"
proof -
  have f: "tt_frames example_link = Some [(1024, 100, 150), (2048, 2000, 2100)]" by code_simp
  have p: "gcl_points example_link = Some ([0, 52, 100, 150, 1124, 1174, 2000, 2048], [100, 1124, 0, 2000])"
    by code_simp
  have d: "\<not> ((t - 100) mod 1024 < 50 \<and> (t - 2000) mod 2048 < 100)" for t :: int
  proof
    let ?a = "(t - 2000) mod 2048"
    assume a: "(t - 100) mod 1024 < 50 \<and> ?a < 100"
    have "(t - 2000) mod 1024 = ?a mod 1024" by (simp add: mod_mod_cancel)
    then have "(t - 2000 + 1900) mod 1024 = (?a + 1900) mod 1024" by (rule mod_add_cong) simp
    also have "\<dots> = (?a + 876) mod 1024" using minus_mod_self2[of "?a + 1900" 1024] by (simp add: add.commute)
    also have "\<dots> = ?a + 876" using a by (intro mod_pos_pos_trivial) simp_all
    finally have "(t - 100) mod 1024 = ?a + 876" by simp
    moreover have "0 \<le> ?a" by simp
    ultimately show False using a by linarith
  qed
  have "ok (apply_gcl example_link 2 example_pl) (\<lambda>r'. \<forall>t < 2048. gate_at (nat 2) t (gcl_mem r') =
      Some (if \<exists>f \<in> set [(1024, 100, 150), (2048, 2000, 2100)]. frame_slot f (int t) then 1 else 0x102))"
    by (rule ok_weaken[OF apply_gcl_gate[OF _ _ _ _ f _ _ p]])
      (use d in \<open>auto simp: example_link_def valid_frame_def frame_slot_def int_ref_def jref_def jint_def\<close>)
  then show ?thesis by (rule ok_weaken) (simp add: frame_slot_def)
qed

lemma apply_gcl_too_many_witness: "apply_gcl example_busy_link 2 example_pl = None"
proof -
  have "ok (gcl_points example_busy_link) (\<lambda>r. 17 < length (fst r))" by code_simp
  then obtain tps starts where "gcl_points example_busy_link = Some (tps, starts)" "17 < length tps"
    by (auto simp: ok_iff)
  then show ?thesis by (rule apply_gcl_too_many)
qed

lemma setup_topo_rules_witness:
  "ok (setup_topo example_network ''00:0a:35:00:03:53'' example_pl) (\<lambda>r'. even (g_counter r'))"
proof -
  have "get_config example_network = Some (JObj [(''nodes'', JArr
     [JObj [(''type'', JStr ''switch''), (''id'', JInt 0), (''mac'', JStr ''00:0a:35:00:03:53'')],
      JObj [(''type'', JStr ''device''), (''id'', JInt 1), (''mac'', JStr ''a0:36:9f:74:0e:e1'')]]),
     (''fwd'', JArr
     [JObj [(''src'', JInt 0), (''src_port'', JInt 3), (''dst'', JInt 1)],
      JObj [(''src'', JInt 1), (''src_port'', JInt 0), (''dst'', JInt 0)]])])"
    by code_simp
  moreover have "those (map (mac_byte ''a0:36:9f:74:0e:e1'') [0..<6]) = Some [0xA0, 0x36, 0x9F, 0x74, 0x0E, 0xE1]"
    by code_simp
  ultimately have "setup_topo example_network ''00:0a:35:00:03:53'' example_pl \<noteq> None"
    by (simp add: setup_topo_def elems_ref_def jref_def jelems_def topo_node_step_def str_ref_def jstr_def
      int_ref_def jint_def link_rule_def)
  then obtain r' where r: "setup_topo example_network ''00:0a:35:00:03:53'' example_pl = Some r'" by blast
  have "g_counter example_pl = 2 * 6" by (simp add: example_pl_def)
  from setup_topo_rules[OF r this] show ?thesis by (auto simp: r Let_def)
qed

end
