(* ===== verification/PtpTypes.thy ===== *)
theory PtpTypes
  imports Prelude Complex_Main
begin

text \<open>
  The data of the time synchronization daemon (\<open>tsn_drivers/ptp_types.h\<close>) and the operations of
  \<open>tsn_drivers/ptp_types.c\<close>: scaled nanoseconds, port identities, priority vectors, time stamps
  and message headers.

  A C \<open>struct\<close> is a record, an \<open>enum\<close> a datatype, an unsigned integer a word of its width; a
  signed integer is a word too, read with \<^term>\<open>sint\<close> where its sign matters. A \<open>bool\<close> (a
  \<open>uint8_t\<close> that only ever holds 0 or 1) is a \<^typ>\<open>bool\<close>. A \<open>ClockIdentity\<close> is eight octets
  that the code only copies and compares as a whole; it is the 64-bit number whose most
  significant octet is the first one, so that \<open>memcmp\<close> of two identities is the comparison of the
  two numbers. The machine is little-endian: a multi-byte integer lies in memory with its least
  significant byte first.
\<close>

section \<open>Pointers to heap blocks\<close>

text \<open>
  A pointer to a block the state machine owns: null, a live block with its contents, or a block
  that has been freed. Reading through a null or a dangling pointer, and freeing a block twice,
  are faults.
\<close>

datatype 'a cptr = Null | Live 'a | Dangling

primrec deref :: "'a cptr \<Rightarrow> 'a option" where
  "deref Null = None"
| "deref (Live x) = Some x"
| "deref Dangling = None"

text \<open>\<open>free(p)\<close>; the pointer keeps its value and dangles afterwards.\<close>

primrec cfree :: "'a cptr \<Rightarrow> 'a cptr option" where
  "cfree Null = Some Null"
| "cfree (Live x) = Some Dangling"
| "cfree Dangling = None"

lemma ok_deref [ok_rules, simp]: "ok (deref p) P \<longleftrightarrow> (\<exists>x. p = Live x \<and> P x)"
  by (cases p) simp_all

section \<open>Records of \<open>ptp_types.h\<close>\<close>

type_synonym double = rat
type_synonym ClockIdentity = "64 word"

abbreviation (input) N_PORTS :: nat where "N_PORTS \<equiv> 4"
abbreviation (input) ONE_SEC_NS :: "64 word" where "ONE_SEC_NS \<equiv> 1000000000"
abbreviation (input) MAXLENGTH :: nat where "MAXLENGTH \<equiv> 64"
abbreviation (input) MAX_PATH_TRACE_N :: nat where "MAX_PATH_TRACE_N \<equiv> 8"
abbreviation (input) FLAG_MASK_LEAP61 :: byte where "FLAG_MASK_LEAP61 \<equiv> 0x01"
abbreviation (input) FLAG_MASK_LEAP59 :: byte where "FLAG_MASK_LEAP59 \<equiv> 0x02"
abbreviation (input) FLAG_MASK_UTC_OFFSET :: byte where "FLAG_MASK_UTC_OFFSET \<equiv> 0x04"
abbreviation (input) FLAG_MASK_PTP_TIMESCALE :: byte where "FLAG_MASK_PTP_TIMESCALE \<equiv> 0x08"
abbreviation (input) FLAG_MASK_TIME_TRACEABLE :: byte where "FLAG_MASK_TIME_TRACEABLE \<equiv> 0x10"
abbreviation (input) FLAG_MASK_FREQ_TRACEABLE :: byte where "FLAG_MASK_FREQ_TRACEABLE \<equiv> 0x20"

datatype PortState = MASTER_PORT | SLAVE_PORT | PASSIVE_PORT | DISABLED_PORT

record UScaledNs =
  subns :: "16 word"
  nsec :: "64 word"
  nsec_msb :: "16 word"

record SystemIdentity =
  priority1 :: byte
  clockClass :: byte
  clockAccuracy :: byte
  offsetScaledLogVariance :: "16 word"
  priority2 :: byte
  rootClockIdentity :: ClockIdentity

record PriorityVector =
  rootSystemIdentity :: SystemIdentity
  stepsRemoved :: "16 word"
  sourcePortClockIdentity :: ClockIdentity
  sourcePortNumber :: "16 word"
  pv_portNumber :: "16 word"

record PortIdentity =
  clockIdentity :: ClockIdentity
  portNumber :: "16 word"

datatype BmcsInfoIs = INFOIS_RECEIVED | INFOIS_MINE | INFOIS_AGED | INFOIS_DISABLED

datatype BmcsRcvdInfo = RCVDINFO_REPEATED_MASTER_INFO | RCVDINFO_SUPERIOR_MASTER_INFO
  | RCVDINFO_INFERIOR_MASTER_INFO | RCVDINFO_OTHER_INFO

datatype bmcs_priority_comparison_result = SAME_PRIORITY | SUPERIOR_PRIORITY | INFERIOR_PRIORITY

record PerPortGlobal =
  asCapable :: bool
  asymmetryMeasurementMode :: bool
  syncReceiptTimeoutTimeInterval :: UScaledNs
  currentLogSyncInterval :: byte
  syncInterval :: UScaledNs
  neighborRateRatio :: double
  meanLinkDelay :: UScaledNs
  computeNeighborRateRatio :: bool
  computeMeanLinkDelay :: bool
  portOper :: bool
  ptpPortEnabled :: bool
  thisPort :: "16 word"
  syncLocked :: bool
  syncSlowDown :: bool
  oldSyncInterval :: UScaledNs
  syncReceiptTimeout :: "16 word"
  announceReceiptTimeout :: "16 word"
  announceReceiptTimeoutTimeInterval :: UScaledNs
  infoIs :: BmcsInfoIs
  masterPriority :: PriorityVector
  currentLogAnnounceInterval :: byte
  initialLogAnnounceInterval :: byte
  announceInterval :: UScaledNs
  newInfo :: bool
  portPriority :: PriorityVector
  portStepsRemoved :: "16 word"
  rcvdMsg :: bool
  updtInfo :: bool
  annLeap61 :: bool
  annLeap59 :: bool
  annCurrentUtcOffsetValid :: bool
  annPtpTimescale :: bool
  annTimeTraceable :: bool
  annFrequencyTraceable :: bool
  annCurrentUtcOffset :: "16 word"
  annTimeSource :: byte
  annPathSequenceCount :: byte
  annPathSequence :: "ClockIdentity list"

record PerPTPInstanceGlobal =
  BEGIN :: bool
  clockMasterSyncInterval :: UScaledNs
  clockMasterLogSyncInterval :: byte
  syncReceiptTime :: UScaledNs
  syncReceiptLocalTime :: UScaledNs
  clockSourceFreqOffset :: double
  clockSourcePhaseOffset :: UScaledNs
  clockSourceTimeBaseIndicator :: "16 word"
  clockSourceTimeBaseIndicatorOld :: "16 word"
  instanceEnable :: bool
  gmPresent :: bool
  gmRateRatio :: double
  gmTimeBaseIndicator :: "16 word"
  lastGmPhaseChange :: UScaledNs
  lastGmFreqChange :: double
  localTime :: UScaledNs
  selectedState :: "PortState list"
  masterTime :: UScaledNs
  thisClock :: ClockIdentity
  parentLogSyncInterval :: byte
  syncReceiptTimeoutTime :: UScaledNs
  reselect :: "bool list"
  selected :: "bool list"
  masterStepsRemoved :: "16 word"
  leap61 :: bool
  leap59 :: bool
  currentUtcOffsetValid :: bool
  ptpTimescale :: bool
  timeTraceable :: bool
  frequencyTraceable :: bool
  currentUtcOffset :: "16 word"
  timeSource :: byte
  sysLeap61 :: bool
  sysLeap59 :: bool
  sysCurrentUTCOffsetValid :: bool
  sysPtpTimescale :: bool
  sysTimeTraceable :: bool
  sysFrequencyTraceable :: bool
  sysCurrentUtcOffset :: "16 word"
  sysTimeSource :: byte
  systemPriority :: PriorityVector
  gmPriority :: PriorityVector
  lastGmPriority :: PriorityVector
  gmStepsRemoved :: "16 word"
  nPathTrace :: "16 word"
  pathTrace :: "ClockIdentity list"
  externalPortConfigurationEnabled :: bool
  domainNumber :: byte
  gmIdentity :: ClockIdentity

record MDEntityGlobal =
  isMeasuringDelay :: bool
  asCapableAcrossDomains :: bool
  allowedLostResponses :: byte
  pdelayReqInterval :: UScaledNs
  meanLinkDelayThresh :: UScaledNs
  allowedFaults :: byte
  syncSequenceId :: "16 word"

section \<open>Messages\<close>

datatype PTPMsgType = NO_FRAME | SYNC | PDELAY_REQ | PDELAY_RESP | FOLLOW_UP
  | PDELAY_RESP_FOLLOW_UP | ANNOUNCE

text \<open>The number of an enumerator as it is stored in a four-bit field.\<close>

primrec msg_code :: "PTPMsgType \<Rightarrow> byte" where
  "msg_code NO_FRAME = 0xFF"
| "msg_code SYNC = 0"
| "msg_code PDELAY_REQ = 2"
| "msg_code PDELAY_RESP = 3"
| "msg_code FOLLOW_UP = 8"
| "msg_code PDELAY_RESP_FOLLOW_UP = 10"
| "msg_code ANNOUNCE = 11"

record PTPMsgTimestamp =
  seconds_msb :: "16 word"
  seconds_lsb :: "32 word"
  nanoseconds :: "32 word"

record PTPMsgHeader =
  majorSdoId :: byte
  messageType :: byte
  minorVersionPTP :: byte
  versionPTP :: byte
  messageLength :: "16 word"
  headDomainNumber :: byte
  minorSdoId :: byte
  flags0 :: byte
  flags1 :: byte
  correctionField :: "64 word"
  messageTypeSpecific :: "32 word"
  sourcePortIdentity :: PortIdentity
  sequenceId :: "16 word"
  controlField :: byte
  logMessageInterval :: byte

record PTPMsgPdelayReq =
  preq_head :: PTPMsgHeader

record PTPMsgPdelayResp =
  presp_head :: PTPMsgHeader
  requestReceiptTimestamp :: PTPMsgTimestamp
  presp_requestingPortIdentity :: PortIdentity

record PTPMsgPdelayRespFollowUp =
  pfu_head :: PTPMsgHeader
  responseOriginTimestamp :: PTPMsgTimestamp
  pfu_requestingPortIdentity :: PortIdentity

record PTPMsgSync =
  sync_head :: PTPMsgHeader

record PTPMsgFollowUpTLV =
  fu_tlvType :: "16 word"
  fu_lengthField :: "16 word"
  organizationId :: "byte list"
  organizationSubType :: "byte list"
  cumulativeScaledRateOffset :: "32 word"
  tlv_gmTimeBaseIndicator :: "16 word"
  tlv_lastGmPhaseChange :: UScaledNs
  scaledLastGmFreqChange :: "32 word"

record PTPMsgFollowUp =
  fu_head :: PTPMsgHeader
  preciseOriginTimestamp :: PTPMsgTimestamp
  followUpInformationTLV :: PTPMsgFollowUpTLV

record PTPMsgPathTraceTLV =
  tlvType :: "16 word"
  lengthField :: "16 word"
  pathSequence :: "ClockIdentity list"

record PTPMsgAnnounce =
  ann_head :: PTPMsgHeader
  ann_currentUtcOffset :: "16 word"
  grandmasterPriority1 :: byte
  gmClockClass :: byte
  gmClockAccuracy :: byte
  gmOffsetScaledLogVariance :: "16 word"
  grandmasterPriority2 :: byte
  grandmasterIdentity :: ClockIdentity
  ann_stepsRemoved :: "16 word"
  ann_timeSource :: byte
  pathTraceTLV :: PTPMsgPathTraceTLV

record TSUTimestamp =
  ts_ts :: UScaledNs
  ts_sequenceID :: "16 word"
  ts_msgType :: byte

end
