(* ===== verification/Machine.thy ===== *)
theory Machine
  imports PtpTypes
begin

text \<open>
  What the state machines of the time synchronization share: the loop \<open>while (1)\<close> of every
  \<open>*_sm_run\<close> function, the context a machine of a port runs in, and the interface under which a
  machine returns.
\<close>

section \<open>The loop of a state machine\<close>

text \<open>
  One turn of the loop runs the action of the state if it was entered in this turn, computes the
  next state, and says whether the state has changed, in which case the loop goes on. A machine
  that keeps changing state does not return: \<^term>\<open>None\<close>, as for a fault.
\<close>

partial_function (option) sm_loop :: "('s \<Rightarrow> ('s \<times> bool) option) \<Rightarrow> 's \<Rightarrow> 's option" where
  "sm_loop body s =
     Option.bind (body s) (\<lambda>(t, changed). if changed then sm_loop body t else Some t)"

text \<open>
  The interface of a machine: an invariant its turns keep, a rank that goes down whenever the
  state changes, and what holds when the state does not change.
\<close>

locale state_machine =
  fixes body :: "'s \<Rightarrow> ('s \<times> bool) option"
    and inv :: "'s \<Rightarrow> bool"
    and rank :: "'s \<Rightarrow> nat"
    and rest :: "'s \<Rightarrow> bool"
  assumes turn: "inv s \<Longrightarrow>
    ok (body s) (\<lambda>(t, changed). inv t \<and> (if changed then rank t < rank s else rest t))"
begin

lemma loop_ok: "inv s \<Longrightarrow> ok (sm_loop body s) (\<lambda>t. inv t \<and> rest t)"
proof (induction "rank s" arbitrary: s rule: less_induct)
  case less
  from turn[OF less.prems] obtain t changed where t: "body s = Some (t, changed)" "inv t"
    "if changed then rank t < rank s else rest t"
    by (auto simp: ok_iff)
  then show ?case
    using less.hyps[of t] by (subst sm_loop.simps) simp
qed

lemma returns: "inv s \<Longrightarrow> \<exists>t. sm_loop body s = Some t"
  using loop_ok by (auto simp: ok_iff)

text \<open>What one turn keeps, the loop keeps.\<close>

lemma loop_keeps:
  assumes "inv s" "P s" and "\<And>s t changed. inv s \<Longrightarrow> P s \<Longrightarrow> body s = Some (t, changed) \<Longrightarrow> P t"
  shows "ok (sm_loop body s) P"
  using assms(1,2)
proof (induction "rank s" arbitrary: s rule: less_induct)
  case less
  from turn[OF less.prems(1)] obtain t changed where t: "body s = Some (t, changed)" "inv t"
    "if changed then rank t < rank s else rest t"
    by (auto simp: ok_iff)
  then show ?case
    using less.hyps[of t] assms(3)[OF less.prems t(1)] by (subst sm_loop.simps) simp
qed

end

lemma sm_loop_stop: "body s = Some (t, False) \<Longrightarrow> sm_loop body s = Some t"
  by (subst sm_loop.simps) simp

lemma sm_loop_turn: "body s = Some (t, True) \<Longrightarrow> sm_loop body s = sm_loop body t"
  by (subst sm_loop.simps) simp

section \<open>The context of a machine of one port\<close>

text \<open>The machine itself and the globals its pointers lead to, which other machines share.\<close>

record 'sm Ctx =
  sm :: 'sm
  port :: PerPortGlobal
  inst :: PerPTPInstanceGlobal

text \<open>\<open>1 << n\<close> for an \<open>int8_t\<close>: undefined unless the result fits an \<open>int\<close>.\<close>

definition shl1 :: "byte \<Rightarrow> 64 word option" where
  "shl1 n = (let t = sint n in if 0 \<le> t \<and> t < 31 then Some (push_bit (nat t) 1) else None)"

lemma ok_shl1 [ok_rules]: "ok (shl1 n) P \<longleftrightarrow> 0 \<le> sint n \<and> sint n < 31 \<and> P (2 ^ nat (sint n))"
  by (auto simp: shl1_def Let_def)

text \<open>The counting loop from \<open>m\<close>.\<close>

lemma ok_for_range:
  assumes "m \<le> n" "I m s" and "\<And>i t. m \<le> i \<Longrightarrow> i < n \<Longrightarrow> I i t \<Longrightarrow> ok (f i t) (I (Suc i))"
  shows "ok (for_each f [m..<n] s) (I n)"
  using assms
proof (induction n)
  case (Suc n)
  show ?case
  proof (cases "m = Suc n")
    case False
    then have "m \<le> n" using Suc.prems(1) by simp
    then have "ok (for_each f [m..<n] s) (I n)" using Suc.IH Suc.prems by simp
    then show ?thesis
      using Suc.prems(3)[of n] \<open>m \<le> n\<close> by (auto simp: for_each_append intro: ok_weaken)
  qed (use Suc.prems in simp)
qed simp

end
