(* ===== verification/PriorityVec.thy ===== *)
theory PriorityVec
  imports PtpTypes
begin

text \<open>
  Priority vectors (\<open>compare_priority_vectors\<close>), and the headers of the messages
  (\<open>ptp_msg_header_template\<close>, \<open>ptp_msg_ann_header_template\<close>).
\<close>

section \<open>Priority vectors in memory\<close>

text \<open>
  A packed \<open>PriorityVector\<close> is 28 bytes; the four 16-bit fields lie in them with the least
  significant byte first.
\<close>

definition le16 :: "16 word \<Rightarrow> byte list" where
  "le16 w = [mem_byte w 0, mem_byte w 1]"

definition be64 :: "64 word \<Rightarrow> byte list" where
  "be64 w = map (mem_byte w) [7, 6, 5, 4, 3, 2, 1, 0]"

definition si_bytes :: "SystemIdentity \<Rightarrow> byte list" where
  "si_bytes s = [priority1 s, clockClass s, clockAccuracy s] @ le16 (offsetScaledLogVariance s) @
     [priority2 s] @ be64 (rootClockIdentity s)"

definition pv_bytes :: "'z PriorityVector_scheme \<Rightarrow> byte list" where
  "pv_bytes v = si_bytes (rootSystemIdentity v) @ le16 (stepsRemoved v) @ be64 (sourcePortClockIdentity v) @
     le16 (sourcePortNumber v) @ le16 (pv_portNumber v)"

text \<open>\<open>memcmp\<close> of two blocks of the same size.\<close>

fun memcmp :: "byte list \<Rightarrow> byte list \<Rightarrow> int" where
  "memcmp (x # xs) (y # ys) = (if x = y then memcmp xs ys else if x < y then -1 else 1)"
| "memcmp _ _ = 0"

definition compare_priority_vectors ::
  "PriorityVector \<Rightarrow> PriorityVector \<Rightarrow> bmcs_priority_comparison_result" where
  "compare_priority_vectors a b =
     (let compare = memcmp (pv_bytes a) (pv_bytes b) in
      if compare < 0 then SUPERIOR_PRIORITY else if compare > 0 then INFERIOR_PRIORITY else SAME_PRIORITY)"

section \<open>The order of the bytes\<close>

text \<open>A block of bytes read as a number, the first byte the most significant.\<close>

primrec key :: "byte list \<Rightarrow> nat" where
  "key [] = 0"
| "key (x # xs) = unat x * 256 ^ length xs + key xs"

lemma key_less: "key xs < 256 ^ length xs"
proof (induction xs)
  case (Cons x xs)
  have "key (x # xs) < Suc (unat x) * 256 ^ length xs" using Cons by simp
  also have "\<dots> \<le> 256 * 256 ^ length xs"
    using unsigned_less[of x, where 'a = nat] by (intro mult_le_mono1) simp
  finally show ?case by simp
qed simp

definition cmp3 :: "nat \<Rightarrow> nat \<Rightarrow> int" where
  "cmp3 a b = (if a < b then -1 else if b < a then 1 else 0)"

lemma memcmp_key: "length xs = length ys \<Longrightarrow> memcmp xs ys = cmp3 (key xs) (key ys)"
proof (induction xs ys rule: memcmp.induct)
  case (1 x xs y ys)
  have lt: "key (u # us) < key (w # ws)" if "u < w" "length us = length ws" for u w us ws
  proof -
    have "key (u # us) < Suc (unat u) * 256 ^ length us" using key_less[of us] by simp
    also have "\<dots> \<le> unat w * 256 ^ length ws"
      unfolding that(2) using that(1) by (intro mult_le_mono1) (simp add: word_less_nat_alt)
    finally show ?thesis by simp
  qed
  consider "x = y" | "x < y" | "y < x" by (meson linorder_less_linear)
  then show ?case
  proof cases
    case 1
    then show ?thesis using "1.IH" "1.prems" by (simp add: cmp3_def)
  next
    case 2
    have "key (x # xs) < key (y # ys)" using lt[OF 2, of xs ys] "1.prems" by simp
    with 2 show ?thesis by (auto simp add: cmp3_def simp del: key.simps)
  next
    case 3
    have "key (y # ys) < key (x # xs)" using lt[OF 3, of ys xs] "1.prems" by simp
    with 3 show ?thesis by (auto simp add: cmp3_def simp del: key.simps)
  qed
qed (auto simp: cmp3_def)

lemma key_inject: "length xs = length ys \<Longrightarrow> key xs = key ys \<longleftrightarrow> xs = ys"
proof (induction xs arbitrary: ys)
  case (Cons x xs)
  then obtain y ys' where y: "ys = y # ys'" "length ys' = length xs" by (cases ys) auto
  have "unat x * 256 ^ length xs + key xs = unat y * 256 ^ length xs + key ys' \<longleftrightarrow> unat x = unat y \<and> key xs = key ys'"
  proof
    assume e: "unat x * 256 ^ length xs + key xs = unat y * 256 ^ length xs + key ys'"
    have "(unat x * 256 ^ length xs + key xs) div 256 ^ length xs = unat x"
      "(unat y * 256 ^ length xs + key ys') div 256 ^ length xs = unat y"
      using key_less[of xs] key_less[of ys'] y(2) by simp_all
    with e show "unat x = unat y \<and> key xs = key ys'" by simp
  qed simp
  then show ?case using Cons y by (simp add: word_unat_eq_iff)
qed simp

lemma length_pv_bytes [simp]: "length (pv_bytes v) = 28"
  by (simp add: pv_bytes_def si_bytes_def le16_def be64_def)

lemma memcmp_append:
  "length xs = length ys \<Longrightarrow>
   memcmp (xs @ xs') (ys @ ys') = (if memcmp xs ys = 0 then memcmp xs' ys' else memcmp xs ys)"
  by (induction xs ys rule: memcmp.induct) auto

lemma unat_mem_byte: "unat (mem_byte w k) = unat w div 256 ^ k mod 256"
  for w :: "'a::len word"
proof -
  have "unat (mem_byte w k) = unat (drop_bit (8 * k) w) mod 256"
    by (simp add: mem_byte_def unsigned_ucast_eq take_bit_eq_mod[where 'a = nat])
  also have "unat (drop_bit (8 * k) w) = unat w div 256 ^ k"
    by (simp add: unat_drop_bit_eq drop_bit_eq_div[where 'a = nat] power_mult)
  finally show ?thesis .
qed

lemma key_mem_bytes: "key (map (mem_byte w) (rev [0..<k])) = unat w mod 256 ^ k"
proof (induction k)
  case (Suc k)
  have "unat w mod 256 ^ Suc k = 256 ^ k * (unat w div 256 ^ k mod 256) + unat w mod 256 ^ k"
    unfolding power_Suc2 by (rule mod_mult2_eq)
  then show ?case using Suc by (simp add: unat_mem_byte)
qed simp

lemma key_be64: "key (be64 w) = unat w"
proof -
  have "be64 w = map (mem_byte w) (rev [0..<8])" by (simp add: be64_def upt_rec eval_nat_numeral)
  then show ?thesis using unsigned_less[of w, where 'a = nat] by (simp add: key_mem_bytes)
qed

lemma key_le16: "key (le16 w) = 256 * (unat w mod 256) + unat w div 256"
proof -
  have "unat w div 256 < 256" using unsigned_less[of w, where 'a = nat] by (simp add: less_mult_imp_div_less)
  then show ?thesis by (simp add: le16_def unat_mem_byte)
qed

lemma memcmp_be64: "memcmp (be64 v) (be64 w) = cmp3 (unat v) (unat w)"
  by (subst memcmp_key) (simp_all add: key_be64, simp add: be64_def)

definition swap16 :: "16 word \<Rightarrow> nat" where
  "swap16 w = 256 * (unat w mod 256) + unat w div 256"

lemma memcmp_le16: "memcmp (le16 v) (le16 w) = cmp3 (swap16 v) (swap16 w)"
  by (subst memcmp_key) (simp_all add: key_le16 swap16_def, simp add: le16_def)


section \<open>Priority vectors are linearly ordered\<close>

text \<open>The order of \<open>memcmp\<close>: the smaller vector has priority.\<close>

lemma be64_inject: "be64 v = be64 w \<longleftrightarrow> v = w"
  by (metis key_be64 word_unat_eq_iff)

lemma le16_inject: "le16 v = le16 w \<longleftrightarrow> v = w"
proof
  assume "le16 v = le16 w"
  then have "unat v mod 256 = unat w mod 256" "unat v div 256 mod 256 = unat w div 256 mod 256"
    by (auto simp: le16_def unat_mem_byte dest!: arg_cong[where f = unat])
  moreover have "unat x div 256 < 256" for x :: "16 word"
    using unsigned_less[of x, where 'a = nat] by (simp add: less_mult_imp_div_less)
  ultimately have "unat v = unat w" by (metis div_mult_mod_eq mod_less)
  then show "v = w" by (simp add: word_unat_eq_iff)
qed simp

lemma pv_bytes_inject: "pv_bytes v = pv_bytes w \<longleftrightarrow>
   PriorityVector.truncate v = PriorityVector.truncate w"
proof -
  have l: "length (le16 x) = 2" "length (be64 y) = 8" for x y by (simp_all add: le16_def be64_def)
  have s: "si_bytes x = si_bytes y \<longleftrightarrow> x = y" for x y
    by (cases x; cases y) (simp add: si_bytes_def l le16_inject be64_inject)
  have ls: "length (si_bytes x) = length (si_bytes y)" for x y by (simp add: si_bytes_def l)
  show ?thesis
    by (cases v; cases w) (simp add: pv_bytes_def PriorityVector.truncate_def l ls s le16_inject be64_inject)
qed

definition pv_key :: "'z PriorityVector_scheme \<Rightarrow> nat" where
  "pv_key v = key (pv_bytes v)"

lemma pv_key_inject: "pv_key v = pv_key w \<and> PriorityVector.more v = PriorityVector.more w \<longleftrightarrow> v = w"
  unfolding pv_key_def
  by (subst key_inject) (simp, cases v, cases w, auto simp: pv_bytes_inject PriorityVector.truncate_def)

instantiation PriorityVector_ext :: (linorder) linorder
begin

definition less_eq_PriorityVector_ext :: "'a PriorityVector_scheme \<Rightarrow> 'a PriorityVector_scheme \<Rightarrow> bool" where
  "less_eq_PriorityVector_ext v w \<longleftrightarrow>
     pv_key v < pv_key w \<or> pv_key v = pv_key w \<and> PriorityVector.more v \<le> PriorityVector.more w"

definition less_PriorityVector_ext :: "'a PriorityVector_scheme \<Rightarrow> 'a PriorityVector_scheme \<Rightarrow> bool" where
  "less_PriorityVector_ext v w \<longleftrightarrow>
     pv_key v < pv_key w \<or> pv_key v = pv_key w \<and> PriorityVector.more v < PriorityVector.more w"

instance
proof
  fix u v w :: "'a PriorityVector_scheme"
  show "v < w \<longleftrightarrow> v \<le> w \<and> \<not> w \<le> v"
    by (auto simp: less_eq_PriorityVector_ext_def less_PriorityVector_ext_def)
  show "v \<le> v" by (simp add: less_eq_PriorityVector_ext_def)
  show "u \<le> v \<Longrightarrow> v \<le> w \<Longrightarrow> u \<le> w"
    by (auto simp: less_eq_PriorityVector_ext_def)
  show "v \<le> w \<Longrightarrow> w \<le> v \<Longrightarrow> v = w"
    using pv_key_inject[of v w] by (auto simp: less_eq_PriorityVector_ext_def)
  show "v \<le> w \<or> w \<le> v" by (auto simp: less_eq_PriorityVector_ext_def)
qed

end

lemma compare_priority_vectors_order:
  "compare_priority_vectors v w = SUPERIOR_PRIORITY \<longleftrightarrow> v < w"
  "compare_priority_vectors v w = INFERIOR_PRIORITY \<longleftrightarrow> w < v"
  "compare_priority_vectors v w = SAME_PRIORITY \<longleftrightarrow> v = w"
  using pv_key_inject[of v w]
  by (auto simp: compare_priority_vectors_def Let_def memcmp_key less_PriorityVector_ext_def pv_key_def cmp3_def split: if_splits)

lemma memcmp_zero: "memcmp (pv_bytes v) (pv_bytes w) = 0 \<longleftrightarrow> v = w" for v w :: PriorityVector
  using pv_key_inject[of v w] by (auto simp: memcmp_key pv_key_def cmp3_def)

section \<open>The order of the standard\<close>

text \<open>
  IEEE 802.1AS, 10.3.4: the components are compared as numbers, the earlier ones first. The
  comparison of the bytes agrees with it when the 16-bit components that differ are below 256.
\<close>

fun first_difference :: "(nat \<times> nat) list \<Rightarrow> bmcs_priority_comparison_result" where
  "first_difference [] = SAME_PRIORITY"
| "first_difference ((x, y) # zs) =
     (if x < y then SUPERIOR_PRIORITY else if y < x then INFERIOR_PRIORITY else first_difference zs)"

definition pv_fields :: "PriorityVector \<Rightarrow> nat list" where
  "pv_fields v = (let s = rootSystemIdentity v in
     [unat (priority1 s), unat (clockClass s), unat (clockAccuracy s), unat (offsetScaledLogVariance s),
      unat (priority2 s), unat (rootClockIdentity s), unat (stepsRemoved v),
      unat (sourcePortClockIdentity v), unat (sourcePortNumber v), unat (pv_portNumber v)])"

definition standard_compare :: "PriorityVector \<Rightarrow> PriorityVector \<Rightarrow> bmcs_priority_comparison_result" where
  "standard_compare v w = first_difference (zip (pv_fields v) (pv_fields w))"

text \<open>Two numbers whose bytes in memory compare as they do: both below 256, or equal.\<close>

definition comparable16 :: "16 word \<Rightarrow> 16 word \<Rightarrow> bool" where
  "comparable16 x y \<longleftrightarrow> x = y \<or> x < 256 \<and> y < 256"

definition comparable :: "PriorityVector \<Rightarrow> PriorityVector \<Rightarrow> bool" where
  "comparable v w \<longleftrightarrow>
     comparable16 (offsetScaledLogVariance (rootSystemIdentity v)) (offsetScaledLogVariance (rootSystemIdentity w)) \<and>
     comparable16 (stepsRemoved v) (stepsRemoved w) \<and>
     comparable16 (sourcePortNumber v) (sourcePortNumber w) \<and> comparable16 (pv_portNumber v) (pv_portNumber w)"

definition cmp_result :: "int \<Rightarrow> bmcs_priority_comparison_result" where
  "cmp_result c = (if c < 0 then SUPERIOR_PRIORITY else if c > 0 then INFERIOR_PRIORITY else SAME_PRIORITY)"

lemma cmp_result_app:
  assumes "length xs = length ys" and "memcmp xs ys = cmp3 a b"
  shows "cmp_result (memcmp (xs @ xs') (ys @ ys')) =
    (if a < b then SUPERIOR_PRIORITY else if b < a then INFERIOR_PRIORITY else cmp_result (memcmp xs' ys'))"
  using assms by (auto simp: memcmp_append cmp_result_def cmp3_def)

text \<open>
  C23. \<open>compare_priority_vectors\<close>, a \<open>memcmp\<close> of the two structures in memory, is the comparison of the
  standard (802.1AS, 10.3.4), which goes through the components one by one as numbers, for any two
  vectors whose 16-bit components are equal or below 256.
\<close>

theorem compare_is_standard:
  assumes "comparable v w"
  shows "compare_priority_vectors v w = standard_compare v w"
proof -
  have l: "length (le16 x) = 2" "length (be64 y) = 8" for x y by (simp_all add: le16_def be64_def)
  have b1: "memcmp [x] [y] = cmp3 (unat x) (unat y)" for x y :: byte
    by (auto simp: cmp3_def word_less_nat_alt word_unat_eq_iff)
  have sw: "memcmp (le16 x) (le16 y) = cmp3 (unat x) (unat y)" if "comparable16 x y" for x y
    using that by (auto simp: comparable16_def memcmp_le16 swap16_def word_less_nat_alt cmp3_def)
  obtain p1 cc ca lv p2 ci sr sc sn pn where v: "v = \<lparr>rootSystemIdentity = \<lparr>priority1 = p1, clockClass = cc,
      clockAccuracy = ca, offsetScaledLogVariance = lv, priority2 = p2, rootClockIdentity = ci\<rparr>, stepsRemoved = sr,
      sourcePortClockIdentity = sc, sourcePortNumber = sn, pv_portNumber = pn\<rparr>"
    by (metis PriorityVector.cases SystemIdentity.cases old.unit.exhaust)
  obtain p1' cc' ca' lv' p2' ci' sr' sc' sn' pn' where w: "w = \<lparr>rootSystemIdentity = \<lparr>priority1 = p1', clockClass = cc',
      clockAccuracy = ca', offsetScaledLogVariance = lv', priority2 = p2', rootClockIdentity = ci'\<rparr>, stepsRemoved = sr',
      sourcePortClockIdentity = sc', sourcePortNumber = sn', pv_portNumber = pn'\<rparr>"
    by (metis PriorityVector.cases SystemIdentity.cases old.unit.exhaust)
  have h: "comparable16 lv lv'" "comparable16 sr sr'" "comparable16 sn sn'" "comparable16 pn pn'"
    using assms unfolding v w comparable_def by simp_all
  have "compare_priority_vectors v w = cmp_result (memcmp (pv_bytes v) (pv_bytes w))"
    by (simp add: compare_priority_vectors_def cmp_result_def Let_def)
  also have "pv_bytes v = [p1] @ [cc] @ [ca] @ le16 lv @ [p2] @ be64 ci @ le16 sr @ be64 sc @ le16 sn @ le16 pn @ []"
    by (simp add: v pv_bytes_def si_bytes_def)
  also have "pv_bytes w = [p1'] @ [cc'] @ [ca'] @ le16 lv' @ [p2'] @ be64 ci' @ le16 sr' @ be64 sc' @ le16 sn' @ le16 pn' @ []"
    by (simp add: w pv_bytes_def si_bytes_def)
  also have "cmp_result (memcmp ([p1] @ [cc] @ [ca] @ le16 lv @ [p2] @ be64 ci @ le16 sr @ be64 sc @ le16 sn @ le16 pn @ [])
      ([p1'] @ [cc'] @ [ca'] @ le16 lv' @ [p2'] @ be64 ci' @ le16 sr' @ be64 sc' @ le16 sn' @ le16 pn' @ [])) =
    standard_compare v w"
    by (simp only: cmp_result_app[OF _ b1] cmp_result_app[OF _ memcmp_be64] cmp_result_app[OF _ sw[OF h(1)]]
        cmp_result_app[OF _ sw[OF h(2)]] cmp_result_app[OF _ sw[OF h(3)]] cmp_result_app[OF _ sw[OF h(4)]]
        list.size l)
      (simp add: standard_compare_def pv_fields_def Let_def v w cmp_result_def)
  finally show ?thesis .
qed

definition vector_of :: "byte \<Rightarrow> ClockIdentity \<Rightarrow> 16 word \<Rightarrow> PriorityVector" where
  "vector_of p1 cid steps = \<lparr>rootSystemIdentity = \<lparr>priority1 = p1, clockClass = 248, clockAccuracy = 254,
     offsetScaledLogVariance = 17258, priority2 = 247, rootClockIdentity = cid\<rparr>, stepsRemoved = steps,
     sourcePortClockIdentity = cid, sourcePortNumber = 0, pv_portNumber = 1\<rparr>"

theorem compare_is_standard_witness:
  "compare_priority_vectors (vector_of 246 5 1) (vector_of 246 5 2) = SUPERIOR_PRIORITY"
proof -
  have "comparable (vector_of 246 5 1) (vector_of 246 5 2)"
    by (simp add: comparable_def comparable16_def vector_of_def)
  from compare_is_standard[OF this] show ?thesis
    by (simp add: standard_compare_def pv_fields_def vector_of_def)
qed

text \<open>The other vectors compare by their low bytes: 256 steps are fewer than one.\<close>

lemma more_steps_win: "compare_priority_vectors (vector_of 246 5 256) (vector_of 246 5 1) = SUPERIOR_PRIORITY"
  by (simp add: compare_priority_vectors_def Let_def vector_of_def pv_bytes_def si_bytes_def le16_def be64_def mem_byte_def)

end
