(* ===== verification/PtpArith.thy ===== *)
theory PtpArith
  imports PtpTypes "HOL-Library.Log_Nat"
begin

text \<open>
  The arithmetic of \<open>tsn_drivers/ptp_types.c\<close>: sums, differences, products, quotients and
  comparisons of scaled nanoseconds, and their conversions to a \<open>double\<close>, to the correction field
  and to the time stamp of a message.

  A \<open>double\<close> is the rational number it stands for. Every operation that may round is written with
  \<^term>\<open>fl\<close>, rounding to nearest, ties to even, at 53 significant bits; the values that occur are far
  from the ends of the exponent range, which is not bounded here.
\<close>

section \<open>Binary floating point\<close>

text \<open>The exponent of the leading bit of a positive number.\<close>

definition fl_exp :: "rat \<Rightarrow> int" where
  "fl_exp x = (if 1 \<le> x then bitlen \<lfloor>x\<rfloor> - 1 else - bitlen (\<lceil>1 / x\<rceil> - 1))"

definition round_even :: "rat \<Rightarrow> int" where
  "round_even y =
     (let f = \<lfloor>y\<rfloor>; d = y - of_int f in
      if d < 1 / 2 then f else if 1 / 2 < d then f + 1 else if even f then f else f + 1)"

definition fl :: "rat \<Rightarrow> double" where
  "fl x = (if x = 0 then 0 else
     let s = 52 - fl_exp \<bar>x\<bar> in sgn x * of_int (round_even (\<bar>x\<bar> * 2 powi s)) * 2 powi (- s))"

section \<open>Scaled nanoseconds\<close>

definition uscaledns_subtract :: "UScaledNs \<Rightarrow> UScaledNs \<Rightarrow> UScaledNs" where
  "uscaledns_subtract t1 t2 =
     (let borrow1 = (if subns t1 \<ge> subns t2 then 0 else 1 :: 64 word);
          r1 = subns t1 - subns t2;
          (r2, borrow2) =
            (if nsec t1 = 0 \<and> borrow1 = 1 then (0xFFFFFFFFFFFFFFFF - nsec t2, 1 :: 16 word)
             else if nsec t1 - borrow1 \<ge> nsec t2 then (nsec t1 - borrow1 - nsec t2, 0)
             else (nsec t1 - borrow1 - nsec t2, 1));
          r3 = (if nsec_msb t1 = 0 \<and> borrow2 = 1 then 0xFFFF - nsec_msb t2
                else nsec_msb t1 - borrow2 - nsec_msb t2)
      in \<lparr>subns = r1, nsec = r2, nsec_msb = r3\<rparr>)"

definition check_overflow :: "64 word \<Rightarrow> 64 word \<Rightarrow> 64 word \<Rightarrow> bool" where
  "check_overflow a b carry =
     (let s = a + b + carry in if carry = 0 then s < a else \<not> s > a)"

definition uscaledns_add :: "UScaledNs \<Rightarrow> UScaledNs \<Rightarrow> UScaledNs" where
  "uscaledns_add t1 t2 =
     (let temp = ucast (subns t1) + ucast (subns t2) :: 64 word;
          c = (if temp \<ge> 0xFFFF then 1 else 0 :: 64 word);
          c' = (if check_overflow (nsec t1) (nsec t2) c then 1 else 0)
      in \<lparr>subns = ucast (temp AND 0xFFFF), nsec = nsec t1 + nsec t2 + c,
          nsec_msb = nsec_msb t1 + nsec_msb t2 + c'\<rparr>)"

text \<open>The three limbs of 32 bits that the product and the quotient compute with.\<close>

definition limb0 :: "UScaledNs \<Rightarrow> 64 word" where
  "limb0 t = ucast (subns t) + push_bit 16 (nsec t AND 0xFFFF)"

definition limb1 :: "UScaledNs \<Rightarrow> 64 word" where
  "limb1 t = drop_bit 16 (nsec t) AND 0xFFFFFFFF"

definition limb2 :: "UScaledNs \<Rightarrow> 64 word" where
  "limb2 t = drop_bit 48 (nsec t) + push_bit 16 (ucast (nsec_msb t))"

definition uscaledns_mul :: "UScaledNs \<Rightarrow> UScaledNs \<Rightarrow> UScaledNs" where
  "uscaledns_mul t1 t2 =
     (let a0 = limb0 t1; a1 = limb1 t1; a2 = limb2 t1; b0 = limb0 t2; b1 = limb1 t2; b2 = limb2 t2;
          c0 = a0 * b0; c1 = a0 * b1 + a1 * b0; c2 = a0 * b2 + a1 * b1 + a2 * b0;
          c3 = a1 * b2 + a2 * b1; c4 = a2 * b2;
          c1 = c1 + drop_bit 32 c0; c0 = c0 AND 0xFFFFFFFF;
          c2 = c2 + drop_bit 32 c1; c1 = c1 AND 0xFFFFFFFF;
          c3 = c3 + drop_bit 32 c2; c2 = c2 AND 0xFFFFFFFF;
          c4 = c4 + drop_bit 32 c3; c3 = c3 AND 0xFFFFFFFF
      in \<lparr>subns = ucast (drop_bit 16 c0), nsec = c1 + push_bit 16 c2, nsec_msb = ucast (c3 AND 0xFFFF)\<rparr>)"

definition uscaledns_divide_by_2 :: "UScaledNs \<Rightarrow> UScaledNs" where
  "uscaledns_divide_by_2 t =
     (let s = drop_bit 1 (subns t); s = (if nsec t AND 1 \<noteq> 0 then s OR 0x8000 else s);
          n = drop_bit 1 (nsec t); n = (if nsec_msb t AND 1 \<noteq> 0 then n OR 0x8000000000000000 else n)
      in \<lparr>subns = s, nsec = n, nsec_msb = drop_bit 1 (nsec_msb t)\<rparr>)"

definition uscaledns_compare :: "UScaledNs \<Rightarrow> UScaledNs \<Rightarrow> int" where
  "uscaledns_compare t1 t2 =
     (if nsec_msb t1 > nsec_msb t2 then 1 else if nsec_msb t1 < nsec_msb t2 then -1
      else if nsec t1 > nsec t2 then 1 else if nsec t1 < nsec t2 then -1
      else if subns t1 > subns t2 then 1 else if subns t1 < subns t2 then -1 else 0)"

definition uint64_uscaledns :: "UScaledNs \<Rightarrow> 64 word" where
  "uint64_uscaledns t = ucast (subns t) OR push_bit 16 (nsec t)"

definition uscaledns_uint64 :: "64 word \<Rightarrow> UScaledNs" where
  "uscaledns_uint64 t = \<lparr>subns = ucast (t AND 0xFFFF), nsec = drop_bit 16 t, nsec_msb = 0\<rparr>"

definition portIdentityEqual :: "PortIdentity \<Rightarrow> PortIdentity \<Rightarrow> bool" where
  "portIdentityEqual pi1 pi2 \<longleftrightarrow>
     clockIdentity pi1 = clockIdentity pi2 \<and> portNumber pi1 = portNumber pi2"

definition uscaledns_ptpmsgtimestamp :: "PTPMsgTimestamp \<Rightarrow> UScaledNs" where
  "uscaledns_ptpmsgtimestamp p =
     \<lparr>subns = 0, nsec = ucast (seconds_lsb p) * 1000000000 + ucast (nanoseconds p), nsec_msb = 0\<rparr>"

definition ptpmsgtimestamp_uscaledns :: "UScaledNs \<Rightarrow> PTPMsgTimestamp" where
  "ptpmsgtimestamp_uscaledns t =
     \<lparr>seconds_msb = 0, seconds_lsb = ucast (nsec t div 1000000000),
      nanoseconds = ucast (nsec t mod 1000000000)\<rparr>"

section \<open>Quotients\<close>

text \<open>\<open>compare_array\<close>: from the most significant limb down.\<close>

fun compare_from :: "64 word list \<Rightarrow> 64 word list \<Rightarrow> nat \<Rightarrow> int" where
  "compare_from a b 0 = 0"
| "compare_from a b (Suc i) =
     (if a ! i = b ! i then compare_from a b i else if a ! i < b ! i then -1 else 1)"

definition compare_array :: "64 word list \<Rightarrow> 64 word list \<Rightarrow> nat \<Rightarrow> int" where
  "compare_array a b n = compare_from a b n"

text \<open>Doubling the number in the limbs, from the least significant limb up; the carry comes out.\<close>

fun shift_limbs :: "64 word list \<Rightarrow> 64 word \<Rightarrow> 64 word list \<times> 64 word" where
  "shift_limbs [] carry_bit = ([], carry_bit)"
| "shift_limbs (x # xs) carry_bit =
     (let (ys, c) = shift_limbs xs (drop_bit 31 x)
      in (((push_bit 1 x + carry_bit) AND 0xFFFFFFFF) # ys, c))"

fun sub_limbs :: "64 word list \<Rightarrow> 64 word list \<Rightarrow> 64 word \<Rightarrow> 64 word list \<times> 64 word" where
  "sub_limbs (x # xs) (y # ys) carry_bit =
     (let carry_bit_tmp = (if x < y + carry_bit then 1 else 0);
          (zs, c) = sub_limbs xs ys carry_bit_tmp
      in ((x + push_bit 32 carry_bit_tmp - y - carry_bit) # zs, c))"
| "sub_limbs _ _ carry_bit = ([], carry_bit)"

text \<open>\<open>while (a > b) b *= 2\<close>, with the number of doublings; a lost carry fails the assertion.\<close>

partial_function (option) scale_up ::
  "64 word list \<Rightarrow> 64 word list \<Rightarrow> nat \<Rightarrow> (64 word list \<times> nat) option" where
  "scale_up a b k =
     (if compare_array a b 4 > 0 then
        let (b', carry_bit) = shift_limbs b 0 in
        if carry_bit = 0 then scale_up a b' (Suc k) else None
      else Some (b, k))"

text \<open>One quotient bit per step, for the steps \<open>i, i - 1, \<dots>, 0\<close>; \<open>r\<close> is the sum so far.\<close>

fun div_bits :: "nat \<Rightarrow> 64 word list \<Rightarrow> 64 word list \<Rightarrow> double \<Rightarrow> double option" where
  "div_bits 0 a b r = Some r"
| "div_bits (Suc i) a b r =
     (let (a, carry_bit) = shift_limbs a 0; compare_result = compare_array a b 4 in
      if carry_bit \<noteq> 0 then None
      else if compare_result \<ge> 0 then
        let (a, carry_bit) = sub_limbs a b 0; r = fl (r + 2 powi (int i - 32)) in
        if carry_bit \<noteq> 0 then None else if compare_result = 0 then Some r else div_bits i a b r
      else div_bits i a b r)"

definition uscaledns_div :: "UScaledNs \<Rightarrow> UScaledNs \<Rightarrow> double option" where
  "uscaledns_div t1 t2 = do {
     let a = [limb0 t1, limb1 t1, limb2 t1, 0];
     let b = [limb0 t2, limb1 t2, limb2 t2, 0];
     (b, k) \<leftarrow> scale_up a b 0;
     if compare_array a b 4 = 0 then Some (2 ^ k) else div_bits (k + 32) a b 0
   }"

section \<open>From a double\<close>

text \<open>The sixteen fraction bits of \<open>uscaledns_double\<close>, then the rounding bit.\<close>

fun frac_bits :: "nat \<Rightarrow> 'a::len word \<Rightarrow> rat \<Rightarrow> 'a word \<times> rat" where
  "frac_bits 0 s r = (s, r)"
| "frac_bits (Suc i) s r =
     (if r * 2 > 1 then frac_bits i (s OR push_bit i 1) (r * 2 - 1) else frac_bits i s (r * 2))"

text \<open>The conversion of a negative number to an unsigned integer, or of one of 2 ^ 64 or more, is undefined.\<close>

definition uscaledns_double :: "double \<Rightarrow> UScaledNs option" where
  "uscaledns_double r =
     (if r < 0 \<or> r \<ge> 2 ^ 64 then None else Some (let n = word_of_int \<lfloor>r\<rfloor> :: 64 word; m = word_of_int \<lfloor>rat_of_int \<lfloor>r\<rfloor> / 2 ^ 64\<rfloor> :: 16 word;
          (s, f) = frac_bits 16 0 (r - of_int \<lfloor>r\<rfloor>)
      in if f * 2 > 1 then
           if s = 0xFFFF then
             if n = 0xFFFFFFFFFFFFFFFF then \<lparr>subns = 0, nsec = 0, nsec_msb = m + 1\<rparr>
             else \<lparr>subns = 0, nsec = n + 1, nsec_msb = m\<rparr>
           else \<lparr>subns = s + 1, nsec = n, nsec_msb = m\<rparr>
         else \<lparr>subns = s, nsec = n, nsec_msb = m\<rparr>))"

definition uscaledns_mul_double :: "UScaledNs \<Rightarrow> double \<Rightarrow> UScaledNs option" where
  "uscaledns_mul_double t1 r = map_option (uscaledns_mul t1) (uscaledns_double r)"

end
