(* ===== verification/PortAnnounceInfo.thy ===== *)
theory PortAnnounceInfo
  imports Machine PriorityVec PtpArith
begin

text \<open>
  The PortAnnounceInformation state machine (\<open>time_sync/port_announce_information_sm.c\<close>): what a
  port makes of the Announce messages it receives.
\<close>

section \<open>State\<close>

datatype PortAnnounceInformationSMState = PAI_BEFORE_INIT | PAI_INIT | PAI_DISABLED | PAI_AGED
  | PAI_UPDATE | PAI_CURRENT | PAI_RECEIVE | PAI_INFERIOR_MASTER_OR_OTHER_PORT
  | PAI_REPEATED_MASTER_PORT | PAI_SUPERIOR_MASTER_PORT

record PortAnnounceInformationSM =
  announceReceiptTimeoutTime :: UScaledNs
  messagePriorityPAI :: PriorityVector
  rcvdInfo :: BmcsRcvdInfo
  rcvdAnnouncePtr :: "PTPMsgAnnounce cptr"
  pai_state :: PortAnnounceInformationSMState
  pai_last_state :: PortAnnounceInformationSMState

type_synonym PaiCtx = "PortAnnounceInformationSM Ctx"

text \<open>The index of the port in the arrays of the instance.\<close>

abbreviation pidx :: "'sm Ctx \<Rightarrow> nat" where
  "pidx c \<equiv> unat (thisPort (port c))"

text \<open>\<open>RESELECT[thisPort] = 1; SELECTED[thisPort] = 0\<close>.\<close>

definition request_reselect :: "'sm Ctx \<Rightarrow> 'sm Ctx option" where
  "request_reselect c = do {
     r \<leftarrow> wr (reselect (inst c)) (pidx c) True;
     s \<leftarrow> wr (selected (inst c)) (pidx c) False;
     Some (c\<lparr>inst := (inst c)\<lparr>reselect := r, selected := s\<rparr>\<rparr>)
   }"

section \<open>What an Announce message says\<close>

text \<open>
  The priority vector of the message. The member \<open>sourcePortNumber\<close> is not assigned: it keeps the
  value it had.
\<close>

definition message_priority :: "PTPMsgAnnounce \<Rightarrow> PriorityVector \<Rightarrow> PriorityVector" where
  "message_priority a v = v\<lparr>
     rootSystemIdentity := \<lparr>priority1 = grandmasterPriority1 a, clockClass = gmClockClass a,
       clockAccuracy = gmClockAccuracy a, offsetScaledLogVariance = gmOffsetScaledLogVariance a,
       priority2 = grandmasterPriority2 a, rootClockIdentity = grandmasterIdentity a\<rparr>,
     stepsRemoved := ann_stepsRemoved a,
     sourcePortClockIdentity := clockIdentity (sourcePortIdentity (ann_head a)),
     pv_portNumber := portNumber (sourcePortIdentity (ann_head a))\<rparr>"

definition rcvInfo :: "PaiCtx \<Rightarrow> (PaiCtx \<times> BmcsRcvdInfo) option" where
  "rcvInfo c = do {
     a \<leftarrow> deref (rcvdAnnouncePtr (sm c));
     let mp = message_priority a (messagePriorityPAI (sm c));
     let c = c\<lparr>sm := (sm c)\<lparr>messagePriorityPAI := mp\<rparr>, inst := (inst c)\<lparr>gmStepsRemoved := ann_stepsRemoved a\<rparr>\<rparr>;
     st \<leftarrow> rd (selectedState (inst c)) (pidx c);
     Some (c,
       if st \<noteq> DISABLED_PORT then
         if memcmp (pv_bytes (portPriority (port c))) (pv_bytes mp) = 0 then RCVDINFO_REPEATED_MASTER_INFO
         else if compare_priority_vectors mp (portPriority (port c)) = SUPERIOR_PRIORITY
         then RCVDINFO_SUPERIOR_MASTER_INFO else RCVDINFO_INFERIOR_MASTER_INFO
       else RCVDINFO_OTHER_INFO)
   }"

text \<open>
  \<open>memcpy\<close> of \<open>n\<close> bytes from one array of clock identities to another; the last identity may be
  copied in part. An array has eight of them.
\<close>

definition copy_identities :: "nat \<Rightarrow> ClockIdentity list \<Rightarrow> ClockIdentity list \<Rightarrow> ClockIdentity list option" where
  "copy_identities n src dst =
     (let q = n div 8; r = n mod 8 in
      if n \<le> 8 * length src \<and> n \<le> 8 * length dst then
        if r = 0 then Some (take q src @ drop q dst)
        else let m = mask (8 * (8 - r)) in
          Some (take q src @ [(src ! q AND NOT m) OR (dst ! q AND m)] @ drop (Suc q) dst)
      else None)"

definition recordOtherAnnounceInfo :: "PaiCtx \<Rightarrow> PaiCtx option" where
  "recordOtherAnnounceInfo c = do {
     a \<leftarrow> deref (rcvdAnnouncePtr (sm c));
     let f = flags1 (ann_head a);
     path \<leftarrow> copy_identities (unat (lengthField (pathTraceTLV a))) (pathSequence (pathTraceTLV a)) (annPathSequence (port c));
     Some (c\<lparr>
       port := (port c)\<lparr>
         annLeap61 := (f AND 0x1 = 0x1), annLeap59 := (f AND 0x2 = 0x2),
         annCurrentUtcOffsetValid := (f AND 0x4 = 0x4), annPtpTimescale := (f AND 0x8 = 0x8),
         annTimeTraceable := (f AND 0x10 = 0x10), annFrequencyTraceable := (f AND 0x20 = 0x20),
         annCurrentUtcOffset := ann_currentUtcOffset a, annTimeSource := ann_timeSource a,
         annPathSequenceCount := ucast (lengthField (pathTraceTLV a) div 8),
         annPathSequence := path\<rparr>,
       inst := (inst c)\<lparr>gmIdentity := grandmasterIdentity a\<rparr>\<rparr>)
   }"

section \<open>Actions and transitions\<close>

definition pai_all_state_transition :: "PaiCtx \<Rightarrow> PortAnnounceInformationSMState" where
  "pai_all_state_transition c =
     (let tricon = \<not> portOper (port c) \<or> \<not> ptpPortEnabled (port c) \<or> \<not> asCapable (port c) in
      if ((tricon \<and> infoIs (port c) \<noteq> INFOIS_DISABLED) \<or> BEGIN (inst c) \<or> \<not> instanceEnable (inst c)) \<and>
         \<not> externalPortConfigurationEnabled (inst c)
      then PAI_DISABLED else pai_state (sm c))"

definition pai_disabled_action :: "UScaledNs \<Rightarrow> PaiCtx \<Rightarrow> PaiCtx option" where
  "pai_disabled_action ts c =
     request_reselect (c\<lparr>port := (port c)\<lparr>rcvdMsg := False, infoIs := INFOIS_DISABLED\<rparr>,
       sm := (sm c)\<lparr>announceReceiptTimeoutTime := ts\<rparr>\<rparr>)"

definition pai_disabled_transition :: "PaiCtx \<Rightarrow> PortAnnounceInformationSMState" where
  "pai_disabled_transition c =
     (if portOper (port c) \<and> ptpPortEnabled (port c) \<and> asCapable (port c) then PAI_AGED
      else if rcvdMsg (port c) then PAI_DISABLED else pai_state (sm c))"

definition pai_aged_action :: "PaiCtx \<Rightarrow> PaiCtx option" where
  "pai_aged_action c = do {
     c \<leftarrow> request_reselect (c\<lparr>port := (port c)\<lparr>infoIs := INFOIS_AGED\<rparr>\<rparr>);
     Some (c\<lparr>port := (port c)\<lparr>annPathSequenceCount := 0\<rparr>, inst := (inst c)\<lparr>gmIdentity := thisClock (inst c)\<rparr>\<rparr>)
   }"

definition pai_aged_transition :: "PaiCtx \<Rightarrow> PortAnnounceInformationSMState option" where
  "pai_aged_transition c = do {
     s \<leftarrow> rd (selected (inst c)) (pidx c);
     Some (if s \<and> updtInfo (port c) then PAI_UPDATE else PAI_AGED)
   }"

definition pai_update_action :: "PaiCtx \<Rightarrow> PaiCtx" where
  "pai_update_action c = c\<lparr>port := (port c)\<lparr>portPriority := masterPriority (port c),
     portStepsRemoved := masterStepsRemoved (inst c), updtInfo := False, infoIs := INFOIS_MINE, newInfo := True\<rparr>\<rparr>"

definition pai_current_transition :: "UScaledNs \<Rightarrow> PaiCtx \<Rightarrow> PortAnnounceInformationSMState option" where
  "pai_current_transition ts c = do {
     s \<leftarrow> rd (selected (inst c)) (pidx c);
     Some (if s \<and> updtInfo (port c) then PAI_UPDATE
       else if infoIs (port c) = INFOIS_RECEIVED \<and>
           uscaledns_compare ts (announceReceiptTimeoutTime (sm c)) \<ge> 0 \<and> \<not> updtInfo (port c) \<and> \<not> rcvdMsg (port c) \<or>
         uscaledns_compare ts (syncReceiptTimeoutTime (inst c)) \<ge> 0 \<and> gmPresent (inst c) then PAI_AGED
       else if rcvdMsg (port c) \<and> \<not> updtInfo (port c) then PAI_RECEIVE
       else PAI_CURRENT)
   }"

definition pai_receive_action :: "PaiCtx \<Rightarrow> PaiCtx option" where
  "pai_receive_action c = do {
     (c, info) \<leftarrow> rcvInfo c;
     Some (c\<lparr>sm := (sm c)\<lparr>rcvdInfo := info\<rparr>\<rparr>)
   }"

definition pai_receive_transition :: "PaiCtx \<Rightarrow> PortAnnounceInformationSMState" where
  "pai_receive_transition c =
     (if asymmetryMeasurementMode (port c) then PAI_RECEIVE else
      case rcvdInfo (sm c) of
        RCVDINFO_INFERIOR_MASTER_INFO \<Rightarrow> PAI_INFERIOR_MASTER_OR_OTHER_PORT
      | RCVDINFO_OTHER_INFO \<Rightarrow> PAI_INFERIOR_MASTER_OR_OTHER_PORT
      | RCVDINFO_REPEATED_MASTER_INFO \<Rightarrow> PAI_REPEATED_MASTER_PORT
      | RCVDINFO_SUPERIOR_MASTER_INFO \<Rightarrow> PAI_SUPERIOR_MASTER_PORT)"

text \<open>The message has been used up: the pointer is dropped, the block is not freed.\<close>

definition pai_forget :: "PaiCtx \<Rightarrow> PaiCtx" where
  "pai_forget c = c\<lparr>port := (port c)\<lparr>rcvdMsg := False\<rparr>, sm := (sm c)\<lparr>rcvdAnnouncePtr := Null\<rparr>\<rparr>"

definition pai_repeated_action :: "UScaledNs \<Rightarrow> PaiCtx \<Rightarrow> PaiCtx option" where
  "pai_repeated_action ts c = do {
     let c = c\<lparr>sm := (sm c)\<lparr>announceReceiptTimeoutTime :=
       uscaledns_add ts (announceReceiptTimeoutTimeInterval (port c))\<rparr>\<rparr>;
     c \<leftarrow> recordOtherAnnounceInfo c;
     Some (pai_forget c)
   }"

definition pai_superior_action :: "UScaledNs \<Rightarrow> PaiCtx \<Rightarrow> PaiCtx option" where
  "pai_superior_action ts c = do {
     a \<leftarrow> deref (rcvdAnnouncePtr (sm c));
     let c = c\<lparr>port := (port c)\<lparr>portPriority := messagePriorityPAI (sm c), portStepsRemoved := ann_stepsRemoved a\<rparr>\<rparr>;
     c \<leftarrow> recordOtherAnnounceInfo c;
     k \<leftarrow> shl1 (logMessageInterval (ann_head a));
     let i1 = \<lparr>subns = 0, nsec = ucast (announceReceiptTimeout (port c)) * ONE_SEC_NS * k, nsec_msb = 0\<rparr>;
     let c = c\<lparr>port := (port c)\<lparr>announceReceiptTimeoutTimeInterval := i1\<rparr>,
               sm := (sm c)\<lparr>announceReceiptTimeoutTime := uscaledns_add ts i1\<rparr>\<rparr>;
     k \<leftarrow> shl1 (initialLogAnnounceInterval (port c));
     let i2 = \<lparr>subns = 0, nsec = ucast (announceReceiptTimeout (port c)) * ONE_SEC_NS * k, nsec_msb = 0\<rparr>;
     let c = c\<lparr>port := (port c)\<lparr>syncReceiptTimeoutTimeInterval := i2, infoIs := INFOIS_RECEIVED\<rparr>,
               inst := (inst c)\<lparr>syncReceiptTimeoutTime := uscaledns_add ts i2\<rparr>\<rparr>;
     c \<leftarrow> request_reselect c;
     Some (pai_forget c)
   }"

section \<open>The machine\<close>

text \<open>One turn of the loop.\<close>

definition pai_goto :: "PortAnnounceInformationSMState \<Rightarrow> PaiCtx \<Rightarrow> PaiCtx" where
  "pai_goto st c = c\<lparr>sm := (sm c)\<lparr>pai_state := st\<rparr>\<rparr>"

definition pai_body :: "UScaledNs \<Rightarrow> PaiCtx \<Rightarrow> (PaiCtx \<times> bool) option" where
  "pai_body ts c0 = do {
     let state_change = pai_last_state (sm c0) \<noteq> pai_state (sm c0);
     let c = c0\<lparr>sm := (sm c0)\<lparr>pai_last_state := pai_state (sm c0)\<rparr>\<rparr>;
     c \<leftarrow> (case pai_state (sm c) of
         PAI_BEFORE_INIT \<Rightarrow> Some c
       | PAI_INIT \<Rightarrow> Some (pai_goto PAI_DISABLED c)
       | PAI_DISABLED \<Rightarrow> do {
           c \<leftarrow> (if state_change then pai_disabled_action ts c else Some c);
           Some (pai_goto (pai_disabled_transition c) c) }
       | PAI_AGED \<Rightarrow> do {
           c \<leftarrow> (if state_change then pai_aged_action c else Some c);
           s \<leftarrow> pai_aged_transition c;
           Some (pai_goto s c) }
       | PAI_UPDATE \<Rightarrow> Some (pai_goto PAI_CURRENT (if state_change then pai_update_action c else c))
       | PAI_CURRENT \<Rightarrow> do {
           s \<leftarrow> pai_current_transition ts c;
           Some (pai_goto s c) }
       | PAI_RECEIVE \<Rightarrow> do {
           c \<leftarrow> (if state_change then pai_receive_action c else Some c);
           Some (pai_goto (pai_receive_transition c) c) }
       | PAI_INFERIOR_MASTER_OR_OTHER_PORT \<Rightarrow>
           Some (pai_goto PAI_CURRENT (if state_change then pai_forget c else c))
       | PAI_REPEATED_MASTER_PORT \<Rightarrow> do {
           c \<leftarrow> (if state_change then pai_repeated_action ts c else Some c);
           Some (pai_goto PAI_CURRENT c) }
       | PAI_SUPERIOR_MASTER_PORT \<Rightarrow> do {
           c \<leftarrow> (if state_change then pai_superior_action ts c else Some c);
           Some (pai_goto PAI_CURRENT c) });
     Some (c, pai_last_state (sm c) \<noteq> pai_state (sm c))
   }"

definition port_announce_information_sm_run :: "UScaledNs \<Rightarrow> PaiCtx \<Rightarrow> PaiCtx option" where
  "port_announce_information_sm_run ts c = sm_loop (pai_body ts) (pai_goto (pai_all_state_transition c) c)"

definition zero_ts :: UScaledNs where
  "zero_ts = \<lparr>subns = 0, nsec = 0, nsec_msb = 0\<rparr>"

definition init_port_announce_information_sm :: "PaiCtx \<Rightarrow> PaiCtx option" where
  "init_port_announce_information_sm c =
     port_announce_information_sm_run zero_ts
       (c\<lparr>sm := (sm c)\<lparr>rcvdAnnouncePtr := Null, pai_state := PAI_INIT, pai_last_state := PAI_BEFORE_INIT\<rparr>\<rparr>)"

definition port_announce_information_sm_recv_announce :: "UScaledNs \<Rightarrow> PTPMsgAnnounce \<Rightarrow> PaiCtx \<Rightarrow> PaiCtx option" where
  "port_announce_information_sm_recv_announce ts a c = do {
     _ \<leftarrow> cfree (rcvdAnnouncePtr (sm c));
     port_announce_information_sm_run ts
       (c\<lparr>port := (port c)\<lparr>rcvdMsg := True\<rparr>, sm := (sm c)\<lparr>rcvdAnnouncePtr := Live a\<rparr>\<rparr>)
   }"

end
