(* ===== verification/MsgFrame.thy ===== *)
theory MsgFrame
  imports PriorityVec PtpArith
begin

text \<open>
  The messages on the wire: the header templates (\<open>tsn_drivers/ptp_types.c\<close>), the conversions of
  \<open>time_sync/msg_frame.c\<close>, the frames the machines build (\<open>tx*\<close>) and what \<open>recv_ptp_frame\<close>
  reads from a frame (\<open>time_sync/eth_frame.c\<close>).

  A packed frame is the list of its bytes in memory. A field stored through \<open>htons\<close>, \<open>htonl\<close> or
  \<open>htonll\<close> is stored with its bytes swapped by a little-endian machine, that is with the most
  significant byte first.
\<close>

section \<open>Header templates\<close>

definition ptp_msg_header_template ::
  "PTPMsgType \<Rightarrow> 16 word \<Rightarrow> PortIdentity \<Rightarrow> 16 word \<Rightarrow> byte \<Rightarrow> 64 word \<Rightarrow> PTPMsgHeader" where
  "ptp_msg_header_template msgtype len portId seqid interval correction =
     \<lparr>majorSdoId = 1, messageType = msg_code msgtype, minorVersionPTP = 1, versionPTP = 2,
      messageLength = len, headDomainNumber = 0, minorSdoId = 0, flags0 = 0x2, flags1 = 0x0,
      correctionField = correction, messageTypeSpecific = 0, sourcePortIdentity = portId, sequenceId = seqid,
      controlField = (case msgtype of SYNC \<Rightarrow> 0x0 | FOLLOW_UP \<Rightarrow> 0x2 | _ \<Rightarrow> 0x5),
      logMessageInterval = interval\<rparr>"

definition flag_if :: "bool \<Rightarrow> byte \<Rightarrow> byte" where
  "flag_if b bits = (if b then bits else 0)"

definition ptp_msg_ann_header_template ::
  "PTPMsgType \<Rightarrow> 16 word \<Rightarrow> PortIdentity \<Rightarrow> 16 word \<Rightarrow> byte \<Rightarrow> 64 word \<Rightarrow> PerPTPInstanceGlobal \<Rightarrow> PTPMsgHeader" where
  "ptp_msg_ann_header_template msgtype len portId seqid interval correction g =
     \<lparr>majorSdoId = 1, messageType = msg_code msgtype, minorVersionPTP = 1, versionPTP = 2,
      messageLength = len, headDomainNumber = 0, minorSdoId = 0, flags0 = 0x0,
      flags1 = 0x0 OR flag_if (leap61 g) FLAG_MASK_LEAP61 OR flag_if (leap59 g) FLAG_MASK_LEAP59 OR
        flag_if (currentUtcOffsetValid g) FLAG_MASK_UTC_OFFSET OR flag_if (ptpTimescale g) FLAG_MASK_PTP_TIMESCALE OR
        flag_if (timeTraceable g) FLAG_MASK_TIME_TRACEABLE OR flag_if (frequencyTraceable g) FLAG_MASK_FREQ_TRACEABLE,
      correctionField = correction, messageTypeSpecific = 0, sourcePortIdentity = portId, sequenceId = seqid,
      controlField = 0x0, logMessageInterval = interval\<rparr>"

section \<open>Byte order\<close>

text \<open>The number in memory whose bytes, the least significant first, are given.\<close>

fun from_bytes :: "byte list \<Rightarrow> 'a::len word" where
  "from_bytes [] = 0"
| "from_bytes (b # bs) = ucast b OR push_bit 8 (from_bytes bs)"

declare from_bytes.simps [simp del]

definition htons :: "16 word \<Rightarrow> 16 word" where
  "htons h = from_bytes [mem_byte h 1, mem_byte h 0]"

definition ntohs :: "16 word \<Rightarrow> 16 word" where
  "ntohs n = from_bytes [mem_byte n 1, mem_byte n 0]"

definition htonl :: "32 word \<Rightarrow> 32 word" where
  "htonl h = from_bytes [mem_byte h 3, mem_byte h 2, mem_byte h 1, mem_byte h 0]"

definition ntohl :: "32 word \<Rightarrow> 32 word" where
  "ntohl n = from_bytes [mem_byte n 3, mem_byte n 2, mem_byte n 1, mem_byte n 0]"

definition htonll :: "64 word \<Rightarrow> 64 word" where
  "htonll h = from_bytes (map (mem_byte h) [7, 6, 5, 4, 3, 2, 1, 0])"

definition ntohll :: "64 word \<Rightarrow> 64 word" where
  "ntohll n = from_bytes (map (mem_byte n) [7, 6, 5, 4, 3, 2, 1, 0])"

text \<open>Storing and loading a field of a packed structure.\<close>

definition put32 :: "32 word \<Rightarrow> byte list" where
  "put32 w = map (mem_byte w) [0, 1, 2, 3]"

definition put64 :: "64 word \<Rightarrow> byte list" where
  "put64 w = map (mem_byte w) [0, 1, 2, 3, 4, 5, 6, 7]"

definition read16 :: "byte list \<Rightarrow> nat \<Rightarrow> 16 word" where
  "read16 bs i = from_bytes [bs ! i, bs ! (i + 1)]"

definition read32 :: "byte list \<Rightarrow> nat \<Rightarrow> 32 word" where
  "read32 bs i = from_bytes (map (\<lambda>k. bs ! (i + k)) [0, 1, 2, 3])"

definition read64 :: "byte list \<Rightarrow> nat \<Rightarrow> 64 word" where
  "read64 bs i = from_bytes (map (\<lambda>k. bs ! (i + k)) [0, 1, 2, 3, 4, 5, 6, 7])"

text \<open>A clock identity is copied byte by byte: its first octet is the most significant one.\<close>

definition get_id :: "byte list \<Rightarrow> nat \<Rightarrow> ClockIdentity" where
  "get_id bs i = from_bytes (map (\<lambda>k. bs ! (i + k)) [7, 6, 5, 4, 3, 2, 1, 0])"

section \<open>The header\<close>

definition set_ptp_frame_header :: "PTPMsgHeader \<Rightarrow> byte list" where
  "set_ptp_frame_header h =
     [push_bit 4 (majorSdoId h) OR messageType h, push_bit 4 (minorVersionPTP h) OR versionPTP h] @
     le16 (htons (messageLength h)) @ [headDomainNumber h, minorSdoId h, flags0 h, flags1 h] @
     put64 (htonll (correctionField h)) @ put32 (messageTypeSpecific h) @
     be64 (clockIdentity (sourcePortIdentity h)) @ le16 (htons (portNumber (sourcePortIdentity h))) @
     le16 (htons (sequenceId h)) @ [controlField h, logMessageInterval h]"

definition get_ptp_msg_header :: "byte list \<Rightarrow> nat \<Rightarrow> PTPMsgHeader" where
  "get_ptp_msg_header f i =
     \<lparr>majorSdoId = drop_bit 4 (f ! i) AND 0xF, messageType = f ! i AND 0xF,
      minorVersionPTP = drop_bit 4 (f ! (i + 1)) AND 0xF, versionPTP = f ! (i + 1) AND 0xF,
      messageLength = ntohs (read16 f (i + 2)), headDomainNumber = f ! (i + 4), minorSdoId = f ! (i + 5),
      flags0 = f ! (i + 6), flags1 = f ! (i + 7), correctionField = ntohll (read64 f (i + 8)),
      messageTypeSpecific = read32 f (i + 16),
      sourcePortIdentity = \<lparr>clockIdentity = get_id f (i + 20), portNumber = ntohs (read16 f (i + 28))\<rparr>,
      sequenceId = ntohs (read16 f (i + 30)), controlField = f ! (i + 32), logMessageInterval = f ! (i + 33)\<rparr>"

section \<open>The frames the machines send\<close>

definition put_timestamp :: "PTPMsgTimestamp \<Rightarrow> byte list" where
  "put_timestamp t = le16 (htons (seconds_msb t)) @ put32 (htonl (seconds_lsb t)) @ put32 (htonl (nanoseconds t))"

definition put_port_identity :: "PortIdentity \<Rightarrow> byte list" where
  "put_port_identity p = be64 (clockIdentity p) @ le16 (htons (portNumber p))"

definition pdelay_req_frame :: "PTPMsgPdelayReq \<Rightarrow> byte list" where
  "pdelay_req_frame m = set_ptp_frame_header (preq_head m) @ replicate 20 0"

definition pdelay_resp_frame :: "PTPMsgPdelayResp \<Rightarrow> byte list" where
  "pdelay_resp_frame m = set_ptp_frame_header (presp_head m) @ put_timestamp (requestReceiptTimestamp m) @
     put_port_identity (presp_requestingPortIdentity m)"

definition pdelay_resp_follow_up_frame :: "PTPMsgPdelayRespFollowUp \<Rightarrow> byte list" where
  "pdelay_resp_follow_up_frame m = set_ptp_frame_header (pfu_head m) @ put_timestamp (responseOriginTimestamp m) @
     put_port_identity (pfu_requestingPortIdentity m)"

definition sync_frame :: "PTPMsgSync \<Rightarrow> byte list" where
  "sync_frame m = set_ptp_frame_header (sync_head m) @ replicate 10 0"

definition follow_up_frame :: "PTPMsgFollowUp \<Rightarrow> byte list" where
  "follow_up_frame m = (let t = followUpInformationTLV m; c = tlv_lastGmPhaseChange t in
     set_ptp_frame_header (fu_head m) @ put_timestamp (preciseOriginTimestamp m) @
     le16 (htons (fu_tlvType t)) @ le16 (htons (fu_lengthField t)) @ take 3 (organizationId t) @
     take 3 (organizationSubType t) @ put32 (htonl (cumulativeScaledRateOffset t)) @
     le16 (htons (tlv_gmTimeBaseIndicator t)) @ le16 (htons (nsec_msb c)) @ put64 (htonll (nsec c)) @
     le16 (htons (subns c)) @ put32 (htonl (scaledLastGmFreqChange t)))"

text \<open>
  \<open>txAnnounce\<close>: the path trace is copied into the eight identities of the frame, of which only
  \<open>lengthField\<close> bytes are sent.
\<close>

definition announce_frame :: "PTPMsgAnnounce \<Rightarrow> byte list option" where
  "announce_frame m =
     (let t = pathTraceTLV m; n = unat (lengthField t); path = concat (map be64 (pathSequence t)) in
      if n \<le> 64 \<and> n \<le> length path then Some (
        set_ptp_frame_header (ann_head m) @ replicate 10 0 @ le16 (htons (ann_currentUtcOffset m)) @
        [0, grandmasterPriority1 m, gmClockClass m, gmClockAccuracy m] @
        le16 (htons (gmOffsetScaledLogVariance m)) @ [grandmasterPriority2 m] @ be64 (grandmasterIdentity m) @
        le16 (htons (ann_stepsRemoved m)) @ [ann_timeSource m] @ le16 (htons (tlvType t)) @
        le16 (htons (lengthField t)) @ take n path)
      else None)"

section \<open>Parsing a received frame\<close>

definition get_timestamp :: "byte list \<Rightarrow> nat \<Rightarrow> PTPMsgTimestamp" where
  "get_timestamp f i = \<lparr>seconds_msb = ntohs (read16 f i), seconds_lsb = ntohl (read32 f (i + 2)),
     nanoseconds = ntohl (read32 f (i + 6))\<rparr>"

definition recv_pdelay_req :: "byte list \<Rightarrow> nat \<Rightarrow> PTPMsgPdelayReq" where
  "recv_pdelay_req f i = \<lparr>preq_head = get_ptp_msg_header f i\<rparr>"

definition recv_pdelay_resp :: "byte list \<Rightarrow> nat \<Rightarrow> PTPMsgPdelayResp" where
  "recv_pdelay_resp f i = \<lparr>presp_head = get_ptp_msg_header f i, requestReceiptTimestamp = get_timestamp f (i + 34),
     presp_requestingPortIdentity = \<lparr>clockIdentity = get_id f (i + 44), portNumber = ntohs (read16 f (i + 52))\<rparr>\<rparr>"

text \<open>The port number is taken from the frame as it is, without \<open>ntohs\<close>.\<close>

definition recv_pdelay_resp_follow_up :: "byte list \<Rightarrow> nat \<Rightarrow> PTPMsgPdelayRespFollowUp" where
  "recv_pdelay_resp_follow_up f i = \<lparr>pfu_head = get_ptp_msg_header f i, responseOriginTimestamp = get_timestamp f (i + 34),
     pfu_requestingPortIdentity = \<lparr>clockIdentity = get_id f (i + 44), portNumber = read16 f (i + 52)\<rparr>\<rparr>"

definition recv_sync :: "byte list \<Rightarrow> nat \<Rightarrow> PTPMsgSync" where
  "recv_sync f i = \<lparr>sync_head = get_ptp_msg_header f i\<rparr>"

definition recv_follow_up :: "byte list \<Rightarrow> nat \<Rightarrow> PTPMsgFollowUp" where
  "recv_follow_up f i = \<lparr>fu_head = get_ptp_msg_header f i, preciseOriginTimestamp = get_timestamp f (i + 34),
     followUpInformationTLV = \<lparr>fu_tlvType = ntohs (read16 f (i + 44)), fu_lengthField = ntohs (read16 f (i + 46)),
       organizationId = take 3 (drop (i + 48) f), organizationSubType = take 3 (drop (i + 51) f),
       cumulativeScaledRateOffset = ntohl (read32 f (i + 54)), tlv_gmTimeBaseIndicator = ntohs (read16 f (i + 58)),
       tlv_lastGmPhaseChange = \<lparr>subns = ntohs (read16 f (i + 70)), nsec = ntohll (read64 f (i + 62)),
         nsec_msb = ntohs (read16 f (i + 60))\<rparr>,
       scaledLastGmFreqChange = ntohl (read32 f (i + 72))\<rparr>\<rparr>"

text \<open>
  \<open>lengthField\<close> bytes of path trace are copied out of the receive buffer into the eight identities
  of a fresh message (whose contents are arbitrary before, here \<open>junk\<close>); the length comes from the
  frame.
\<close>

definition recv_announce :: "ClockIdentity list \<Rightarrow> byte list \<Rightarrow> nat \<Rightarrow> PTPMsgAnnounce option" where
  "recv_announce junk f i =
     (let n = unat (ntohs (read16 f (i + 66)));
          bytes = take n (drop (i + 68) f) @ drop n (concat (map be64 junk)) in
      if n \<le> 64 \<and> i + 68 + n \<le> length f then Some
       \<lparr>ann_head = get_ptp_msg_header f i, ann_currentUtcOffset = ntohs (read16 f (i + 44)),
        grandmasterPriority1 = f ! (i + 47), gmClockClass = f ! (i + 48), gmClockAccuracy = f ! (i + 49),
        gmOffsetScaledLogVariance = ntohs (read16 f (i + 50)), grandmasterPriority2 = f ! (i + 52),
        grandmasterIdentity = get_id f (i + 53), ann_stepsRemoved = ntohs (read16 f (i + 61)),
        ann_timeSource = f ! (i + 63),
        pathTraceTLV = \<lparr>tlvType = ntohs (read16 f (i + 64)), lengthField = ntohs (read16 f (i + 66)),
          pathSequence = map (\<lambda>k. get_id bytes (8 * k)) [0..<8]\<rparr>\<rparr>
      else None)"

end
