(* ===== verification/BufferQueue.thy ===== *)
theory BufferQueue
  imports Prelude
begin

text \<open>
  The queue of received packets (\<open>dma_proxy/buffer_queue.c\<close>) between the thread that receives from
  the DMA engine (\<open>process_packet\<close> in \<open>dma_proxy/dma-proxy.c\<close>) and the time synchronization loop.
  Both threads take the mutex \<open>buf_queue_lock\<close> around their one operation on the queue, so that the
  queue sees a sequence of whole operations. A call of \<open>exit\<close> ends the process: there is no state
  after it, \<^term>\<open>None\<close> as for a fault.
\<close>

abbreviation (input) FIFO_SIZE :: nat where "FIFO_SIZE \<equiv> 64"
abbreviation (input) MAX_PKT_LEN :: nat where "MAX_PKT_LEN \<equiv> 1600"

record buffer_queue =
  q_front :: nat
  q_rear :: nat
  q_size :: nat
  buf_array :: "byte list list"
  len_array :: "nat list"

text \<open>\<open>memcpy\<close> of a block into a buffer at an offset.\<close>

definition blit :: "byte list \<Rightarrow> nat \<Rightarrow> byte list \<Rightarrow> byte list option" where
  "blit dst i src = (if i + length src \<le> length dst then Some (take i dst @ src @ drop (i + length src) dst) else None)"

text \<open>\<open>malloc\<close> gives buffers with arbitrary contents, \<open>junk\<close>.\<close>

definition init_queue :: "(nat \<Rightarrow> nat \<Rightarrow> byte) \<Rightarrow> buffer_queue" where
  "init_queue junk = \<lparr>q_front = 0, q_rear = 0, q_size = 0,
     buf_array = map (\<lambda>i. map (junk i) [0..<MAX_PKT_LEN + 1]) [0..<FIFO_SIZE],
     len_array = replicate FIFO_SIZE 0\<rparr>"

definition push_queue :: "buffer_queue \<Rightarrow> byte list \<Rightarrow> nat \<Rightarrow> buffer_queue option" where
  "push_queue q buf len =
     (if q_size q \<ge> FIFO_SIZE then None
      else if len > MAX_PKT_LEN then None
      else if len > length buf then None
      else do {
        old \<leftarrow> rd (buf_array q) (q_rear q);
        b \<leftarrow> blit old 0 (take len buf);
        bs \<leftarrow> wr (buf_array q) (q_rear q) b;
        ls \<leftarrow> wr (len_array q) (q_rear q) len;
        Some (q\<lparr>buf_array := bs, len_array := ls, q_rear := (q_rear q + 1) mod FIFO_SIZE, q_size := q_size q + 1\<rparr>)
      })"

text \<open>The buffer of the caller, and the length it is told.\<close>

definition pop_queue :: "buffer_queue \<Rightarrow> byte list \<Rightarrow> (buffer_queue \<times> byte list \<times> nat) option" where
  "pop_queue q buf =
     (if q_size q = 0 then None
      else do {
        b \<leftarrow> rd (buf_array q) (q_front q);
        n \<leftarrow> rd (len_array q) (q_front q);
        buf \<leftarrow> (if n \<le> length b then blit buf 0 (take n b) else None);
        let q = q\<lparr>q_front := (q_front q + 1) mod FIFO_SIZE, q_size := q_size q - 1\<rparr>;
        len \<leftarrow> rd (len_array q) (q_front q);
        Some (q, buf, len)
      })"

section \<open>The producer\<close>

definition mac_addr_ptp :: "byte list" where
  "mac_addr_ptp = [0x01, 0x80, 0xc2, 0x00, 0x00, 0x0e]"

definition is_ptp_frame :: "byte list \<Rightarrow> bool" where
  "is_ptp_frame buf \<longleftrightarrow> take 6 (drop 32 buf) = mac_addr_ptp"

definition process_packet :: "byte list \<Rightarrow> buffer_queue \<Rightarrow> buffer_queue option" where
  "process_packet buf q = (if is_ptp_frame buf then push_queue q buf MAX_PKT_LEN else Some q)"

text \<open>The queue together with the static buffer of the consumer.\<close>

definition rx_process :: "byte list \<Rightarrow> buffer_queue \<times> byte list \<Rightarrow> (buffer_queue \<times> byte list) option" where
  "rx_process buf = (\<lambda>(q, rx). map_option (\<lambda>q. (q, rx)) (process_packet buf q))"

definition rx_pop :: "buffer_queue \<times> byte list \<Rightarrow> ((buffer_queue \<times> byte list) \<times> byte list) option" where
  "rx_pop = (\<lambda>(q, rx). map_option (\<lambda>(q, rx, len). ((q, rx), rx)) (pop_queue q rx))"

section \<open>The interface of a bounded queue\<close>

text \<open>
  What a client relies on: the list of the packets in the queue, which \<open>push\<close> extends at the end
  and \<open>pop\<close> shortens at the front.
\<close>

primrec pop_n :: "('q \<Rightarrow> ('q \<times> 'a) option) \<Rightarrow> nat \<Rightarrow> 'q \<Rightarrow> ('q \<times> 'a list) option" where
  "pop_n pop 0 q = Some (q, [])"
| "pop_n pop (Suc n) q = do { (q, x) \<leftarrow> pop q; (q, xs) \<leftarrow> pop_n pop n q; Some (q, x # xs) }"

locale bounded_fifo =
  fixes wf :: "'q \<Rightarrow> bool"
    and contents :: "'q \<Rightarrow> 'a list"
    and capacity :: nat
    and fits :: "'a \<Rightarrow> bool"
    and push :: "'a \<Rightarrow> 'q \<Rightarrow> 'q option"
    and pop :: "'q \<Rightarrow> ('q \<times> 'a) option"
  assumes push_spec: "wf q \<Longrightarrow> length (contents q) < capacity \<Longrightarrow> fits x \<Longrightarrow>
      ok (push x q) (\<lambda>r. wf r \<and> contents r = contents q @ [x])"
    and push_full: "wf q \<Longrightarrow> length (contents q) = capacity \<Longrightarrow> fits x \<Longrightarrow> push x q = None"
    and pop_spec: "wf q \<Longrightarrow> contents q = x # xs \<Longrightarrow> \<exists>r. pop q = Some (r, x) \<and> wf r \<and> contents r = xs"
    and bounded: "wf q \<Longrightarrow> length (contents q) \<le> capacity"
begin

lemma push_all:
  assumes "wf q" "length (contents q) + length xs \<le> capacity" "\<forall>x \<in> set xs. fits x"
  shows "ok (for_each push xs q) (\<lambda>r. wf r \<and> contents r = contents q @ xs)"
  using assms
proof (induction xs arbitrary: q)
  case (Cons x xs)
  then have "ok (push x q) (\<lambda>r. wf r \<and> contents r = contents q @ [x])"
    by (intro push_spec) simp_all
  moreover have "ok (for_each push xs r) (\<lambda>s. wf s \<and> contents s = contents q @ x # xs)"
    if "wf r" "contents r = contents q @ [x]" for r
    using Cons.IH[of r] Cons.prems that by simp
  ultimately show ?case by (auto intro: ok_weaken)
qed simp

lemma pop_all: "wf q \<Longrightarrow> \<exists>r. pop_n pop (length (contents q)) q = Some (r, contents q) \<and> wf r \<and> contents r = []"
proof (induction "contents q" arbitrary: q)
  case (Cons x xs)
  from pop_spec[OF Cons.prems Cons.hyps(2)[symmetric]] obtain r where
    r: "pop q = Some (r, x)" "wf r" "contents r = xs" by blast
  with Cons.hyps(1)[of r] show ?case by (auto simp flip: Cons.hyps(2))
qed simp

text \<open>What goes in comes out in the same order, and nothing else.\<close>

lemma first_in_first_out:
  assumes "wf q" "contents q = []" "length xs \<le> capacity" "\<forall>x \<in> set xs. fits x"
  shows "ok (for_each push xs q) (\<lambda>r. \<exists>s. pop_n pop (length xs) r = Some (s, xs) \<and> wf s \<and> contents s = [])"
proof -
  have "ok (for_each push xs q) (\<lambda>r. wf r \<and> contents r = xs)"
    using push_all[of q xs] assms by simp
  then show ?thesis by (rule ok_weaken) (use pop_all in force)
qed

text \<open>One packet more than there is room for ends the process.\<close>

lemma overflow:
  assumes "wf q" "contents q = []" "length xs = capacity" "\<forall>x \<in> set xs. fits x" "fits x"
  shows "for_each push (xs @ [x]) q = None"
proof -
  have "ok (for_each push xs q) (\<lambda>r. wf r \<and> contents r = xs)"
    using push_all[of q xs] assms by simp
  then show ?thesis
    using push_full[of _ x] assms(3,5) by (auto simp: ok_iff for_each_append)
qed

end

end
