(* ===== verification/EthFrame.thy ===== *)
theory EthFrame
  imports MsgFrame BufferQueue
begin

text \<open>
  Sending and receiving frames (\<open>time_sync/eth_frame.c\<close>), and the time stamps that the hardware
  takes of them (\<open>tsn_drivers/tsu.c\<close>).

  The time stamping unit is hardware: for every port it has a queue of entries of four registers,
  in the order in which the frames came in. What it will have stamped is an argument of the model:
  a list per port, whose end is where the hardware has nothing more. A loop that polls an empty
  queue does not return: \<^term>\<open>None\<close>.
\<close>

section \<open>Time stamps\<close>

record tsu_entry =
  data_hh :: "32 word"
  data_hl :: "32 word"
  data_lh :: "32 word"
  data_ll :: "32 word"

text \<open>Seconds and nanoseconds become nanoseconds; \<open>ts_sec_h\<close> is read and not used.\<close>

definition tsu_timestamp :: "tsu_entry \<Rightarrow> TSUTimestamp" where
  "tsu_timestamp e = \<lparr>
     ts_ts = \<lparr>subns = 0, nsec = ucast (data_hl e) * 1000000000 + ucast (data_lh e), nsec_msb = 0\<rparr>,
     ts_sequenceID = ucast (data_ll e AND 0xFFFF),
     ts_msgType = ucast (drop_bit 28 (data_ll e) AND 0xF)\<rparr>"

definition valid_port :: "16 word \<Rightarrow> bool" where
  "valid_port p \<longleftrightarrow> 1 \<le> p \<and> p \<le> 4"

text \<open>\<open>tsu_rx_get_timestamp\<close> waits for an entry; for an unknown port it leaves the time stamp as it is.\<close>

definition tsu_rx_get_timestamp ::
  "16 word \<Rightarrow> TSUTimestamp \<times> tsu_entry list list \<Rightarrow> (TSUTimestamp \<times> tsu_entry list list) option" where
  "tsu_rx_get_timestamp p = (\<lambda>(t, qs).
     if valid_port p then
       case qs ! (unat p - 1) of [] \<Rightarrow> None | e # es \<Rightarrow> Some (tsu_timestamp e, qs[unat p - 1 := es])
     else Some (t, qs))"

text \<open>\<open>tsu_tx_get_timestamp\<close> does not wait: 0 when the queue is empty.\<close>

definition tsu_tx_get_timestamp ::
  "16 word \<Rightarrow> TSUTimestamp \<times> tsu_entry list list \<Rightarrow> int \<times> TSUTimestamp \<times> tsu_entry list list" where
  "tsu_tx_get_timestamp p = (\<lambda>(t, qs).
     if valid_port p then
       case qs ! (unat p - 1) of [] \<Rightarrow> (0, t, qs) | e # es \<Rightarrow> (1, tsu_timestamp e, qs[unat p - 1 := es])
     else (0, t, qs))"

text \<open>The loop of \<open>recv_ptp_frame\<close> that throws time stamps away until one fits the frame.\<close>

partial_function (option) tsu_match ::
  "byte \<Rightarrow> 16 word \<Rightarrow> 16 word \<Rightarrow> TSUTimestamp \<times> tsu_entry list list \<Rightarrow> (TSUTimestamp \<times> tsu_entry list list) option" where
  "tsu_match code seq p s =
     (if ts_msgType (fst s) \<noteq> code \<or> seq \<noteq> ts_sequenceID (fst s)
      then Option.bind (tsu_rx_get_timestamp p s) (tsu_match code seq p) else Some s)"

section \<open>Sending\<close>

text \<open>The transmit buffer, and the packets handed to the DMA engine so far.\<close>

record EthTx =
  txBufferPtr :: "byte list"
  dma_sent :: "byte list list"

abbreviation (input) CPU_HEADER_SRC_PORT :: nat where "CPU_HEADER_SRC_PORT \<equiv> 2"
abbreviation (input) CPU_HEADER_LENGTH :: nat where "CPU_HEADER_LENGTH \<equiv> 32"
abbreviation (input) PAY_LOAD_OFFSET :: nat where "PAY_LOAD_OFFSET \<equiv> 46"

definition dst_port_code :: "16 word \<Rightarrow> byte option" where
  "dst_port_code p = (if p = 1 then Some 0x02 else if p = 2 then Some 0x08 else if p = 3 then Some 0x20
     else if p = 4 then Some 0x80 else None)"

definition eth_header :: "byte list" where
  "eth_header = [0x01, 0x80, 0xC2, 0x00, 0x00, 0x0E, 0x00, 0x0a, 0x35, 0xCC, 0xF9, 0x73, 0x88, 0xF7]"

definition send_ptp_frame :: "byte list \<Rightarrow> 16 word \<Rightarrow> EthTx \<Rightarrow> EthTx option" where
  "send_ptp_frame buffer portNum e = do {
     b \<leftarrow> (case dst_port_code portNum of Some c \<Rightarrow> wr (txBufferPtr e) CPU_HEADER_SRC_PORT c | None \<Rightarrow> Some (txBufferPtr e));
     b \<leftarrow> blit b CPU_HEADER_LENGTH eth_header;
     b \<leftarrow> blit b PAY_LOAD_OFFSET buffer;
     Some (e\<lparr>txBufferPtr := b, dma_sent := dma_sent e @ [take (length buffer + PAY_LOAD_OFFSET) b]\<rparr>)
   }"

section \<open>Receiving\<close>

datatype RcvdMsg = RcvdNothing
  | RcvdPdelayReq PTPMsgPdelayReq TSUTimestamp
  | RcvdPdelayResp PTPMsgPdelayResp TSUTimestamp
  | RcvdPdelayRespFollowUp PTPMsgPdelayRespFollowUp
  | RcvdSync PTPMsgSync TSUTimestamp
  | RcvdFollowUp PTPMsgFollowUp
  | RcvdAnnounce PTPMsgAnnounce

record EthRx =
  rxBufferPtr :: "byte list"
  rxQueue :: buffer_queue
  tsuRx :: "tsu_entry list list"

definition ParseSrcPort :: "byte list \<Rightarrow> 16 word" where
  "ParseSrcPort rx = (if rx ! 2 = 0x01 then 1 else if rx ! 2 = 0x04 then 2 else if rx ! 2 = 0x10 then 3
     else if rx ! 2 = 0x40 then 4 else 0xFFFF)"

text \<open>
  The time stamp of a received frame: one is fetched, and others until one fits. \<open>t0\<close> is what the
  block from \<open>malloc\<close> holds.
\<close>

definition recv_timestamp ::
  "PTPMsgType \<Rightarrow> 16 word \<Rightarrow> 16 word \<Rightarrow> TSUTimestamp \<Rightarrow> EthRx \<Rightarrow> (TSUTimestamp \<times> EthRx) option" where
  "recv_timestamp mt seq p t0 e = do {
     s \<leftarrow> tsu_rx_get_timestamp p (t0, tsuRx e);
     (t, qs) \<leftarrow> tsu_match (msg_code mt) seq p s;
     Some (t, e\<lparr>tsuRx := qs\<rparr>)
   }"

definition recv_ptp_frame ::
  "TSUTimestamp \<Rightarrow> ClockIdentity list \<Rightarrow> 16 word \<Rightarrow> EthRx \<Rightarrow> (RcvdMsg \<times> 16 word \<times> EthRx) option" where
  "recv_ptp_frame t0 junk portNum e =
     (if q_size (rxQueue e) > 0 then do {
        (q, f, len) \<leftarrow> pop_queue (rxQueue e) (rxBufferPtr e);
        let e = e\<lparr>rxQueue := q, rxBufferPtr := f\<rparr>;
        let header = get_ptp_msg_header f PAY_LOAD_OFFSET;
        let p = ParseSrcPort f;
        (if messageType header = msg_code PDELAY_REQ then do {
           let m = recv_pdelay_req f PAY_LOAD_OFFSET;
           (t, e) \<leftarrow> recv_timestamp PDELAY_REQ (sequenceId header) p t0 e;
           Some (RcvdPdelayReq m t, p, e) }
         else if messageType header = msg_code PDELAY_RESP then do {
           let m = recv_pdelay_resp f PAY_LOAD_OFFSET;
           (t, e) \<leftarrow> recv_timestamp PDELAY_RESP (sequenceId header) p t0 e;
           Some (RcvdPdelayResp m t, p, e) }
         else if messageType header = msg_code PDELAY_RESP_FOLLOW_UP then
           Some (RcvdPdelayRespFollowUp (recv_pdelay_resp_follow_up f PAY_LOAD_OFFSET), p, e)
         else if messageType header = msg_code SYNC then do {
           let m = recv_sync f PAY_LOAD_OFFSET;
           (t, e) \<leftarrow> recv_timestamp SYNC (sequenceId header) p t0 e;
           Some (RcvdSync m t, p, e) }
         else if messageType header = msg_code FOLLOW_UP then
           Some (RcvdFollowUp (recv_follow_up f PAY_LOAD_OFFSET), p, e)
         else if messageType header = msg_code ANNOUNCE then do {
           m \<leftarrow> recv_announce junk f PAY_LOAD_OFFSET;
           Some (RcvdAnnounce m, p, e) }
         else Some (RcvdNothing, p, e))
      }
      else Some (RcvdNothing, portNum, e))"

end
