(* ===== verification/TxMachine.thy ===== *)
theory TxMachine
  imports Machine EthFrame
begin

text \<open>
  What the machines that send messages share: the transmitter and the variables of the media
  dependent layer, besides the globals of \<open>Ctx\<close>.
\<close>

text \<open>The context of a machine that sends, and of one of the media dependent layer of a port.\<close>

record 'sm TxCtx = "'sm Ctx" +
  eth :: EthTx

record 'sm MdCtx = "'sm TxCtx" +
  mdent :: MDEntityGlobal

text \<open>The index of the port.\<close>

abbreviation tidx :: "('sm, 'z) TxCtx_scheme \<Rightarrow> nat" where
  "tidx c \<equiv> unat (thisPort (port c))"

text \<open>\<open>portOper && ptpPortEnabled && asCapable\<close>.\<close>

definition port_valid :: "PerPortGlobal \<Rightarrow> bool" where
  "port_valid p \<longleftrightarrow> portOper p \<and> ptpPortEnabled p \<and> asCapable p"

end
