(* ===== verification/PortAnnounceTransmit.thy ===== *)
theory PortAnnounceTransmit
  imports PortAnnounceInfo TxMachine
begin

text \<open>
  The PortAnnounceTransmit state machine (\<open>time_sync/port_announce_transmit_sm.c\<close>): when a port sends
  an Announce message, and what the message says.
\<close>

section \<open>State\<close>

datatype PortAnnounceTransmitSMState = PAT_REACTION | PAT_BEFORE_INIT | PAT_INIT | PAT_TRANSMIT_INIT
  | PAT_TRANSMIT_PERIODIC | PAT_IDLE | PAT_TRANSMIT_ANNOUNCE

record PortAnnounceTransmitSM =
  announceSendTime :: UScaledNs
  numberAnnounceTransmission :: byte
  interval2 :: UScaledNs
  pat_sequenceId :: "16 word"
  txAnnouncePtr :: "PTPMsgAnnounce cptr"
  pat_newInfo :: bool
  announceSlowdown :: bool
  pat_state :: PortAnnounceTransmitSMState
  pat_last_state :: PortAnnounceTransmitSMState

type_synonym PatCtx = "PortAnnounceTransmitSM TxCtx"

section \<open>The message\<close>

text \<open>
  A frame has room for eight identities and 68 bytes before them; the length in the header leaves
  out the identities that are not used. \<open>junk\<close> is what the block from \<open>malloc\<close> holds.
\<close>

definition setAnnounce :: "ClockIdentity list \<Rightarrow> PatCtx \<Rightarrow> PTPMsgAnnounce option" where
  "setAnnounce junk c = do {
     let g = inst c;
     let r = rootSystemIdentity (masterPriority (port c));
     path \<leftarrow> copy_identities (unat (nPathTrace g) * 8) (pathTrace g) junk;
     Some \<lparr>ann_head = ptp_msg_ann_header_template ANNOUNCE (132 - 8 * (8 - nPathTrace g))
         \<lparr>clockIdentity = thisClock g, portNumber = thisPort (port c)\<rparr> (pat_sequenceId (sm c))
         (currentLogAnnounceInterval (port c)) 0 g,
       ann_currentUtcOffset = currentUtcOffset g, grandmasterPriority1 = priority1 r, gmClockClass = clockClass r,
       gmClockAccuracy = clockAccuracy r, gmOffsetScaledLogVariance = offsetScaledLogVariance r,
       grandmasterPriority2 = priority2 r, grandmasterIdentity = rootClockIdentity r,
       ann_stepsRemoved = masterStepsRemoved g, ann_timeSource = timeSource g,
       pathTraceTLV = \<lparr>tlvType = 0x8, lengthField = nPathTrace g * 8, pathSequence = path\<rparr>\<rparr>
   }"

definition txAnnounce :: "PatCtx \<Rightarrow> PatCtx option" where
  "txAnnounce c = do {
     m \<leftarrow> deref (txAnnouncePtr (sm c));
     f \<leftarrow> announce_frame m;
     e \<leftarrow> send_ptp_frame f (thisPort (port c)) (eth c);
     Some (c\<lparr>eth := e\<rparr>)
   }"

section \<open>Actions and transitions\<close>

definition pat_all_state_transition :: "PatCtx \<Rightarrow> PortAnnounceTransmitSMState" where
  "pat_all_state_transition c =
     (if BEGIN (inst c) \<or> \<not> instanceEnable (inst c) then PAT_TRANSMIT_INIT else pat_state (sm c))"

definition pat_transmit_init_action :: "PatCtx \<Rightarrow> PatCtx" where
  "pat_transmit_init_action c =
     c\<lparr>sm := (sm c)\<lparr>pat_newInfo := True, announceSlowdown := False, numberAnnounceTransmission := 0\<rparr>\<rparr>"

text \<open>\<open>1 || ...\<close>: the state of the port is not looked at.\<close>

definition pat_transmit_periodic_action :: "PatCtx \<Rightarrow> PatCtx" where
  "pat_transmit_periodic_action c = c\<lparr>sm := (sm c)\<lparr>pat_newInfo := True\<rparr>\<rparr>"

definition pat_idle_action :: "UScaledNs \<Rightarrow> PatCtx \<Rightarrow> PatCtx" where
  "pat_idle_action ts c = c\<lparr>sm := (sm c)\<lparr>announceSendTime := uscaledns_add ts (interval2 (sm c))\<rparr>\<rparr>"

definition pat_idle_transition :: "UScaledNs \<Rightarrow> PatCtx \<Rightarrow> PortAnnounceTransmitSMState option" where
  "pat_idle_transition ts c = do {
     s \<leftarrow> rd (selected (inst c)) (tidx c);
     st \<leftarrow> rd (selectedState (inst c)) (tidx c);
     let ready = s \<and> \<not> updtInfo (port c) \<or> externalPortConfigurationEnabled (inst c);
     Some (if uscaledns_compare ts (announceSendTime (sm c)) \<ge> 0 \<and> ready then PAT_TRANSMIT_PERIODIC
       else if pat_newInfo (sm c) \<and> st = MASTER_PORT \<and> uscaledns_compare ts (announceSendTime (sm c)) < 0 \<and> ready \<and>
         \<not> asymmetryMeasurementMode (port c) then PAT_TRANSMIT_ANNOUNCE
       else pat_state (sm c))
   }"

text \<open>The message sent before is not freed.\<close>

definition pat_transmit_announce_action :: "ClockIdentity list \<Rightarrow> PatCtx \<Rightarrow> PatCtx option" where
  "pat_transmit_announce_action junk c = do {
     let c = c\<lparr>sm := (sm c)\<lparr>pat_newInfo := False\<rparr>\<rparr>;
     m \<leftarrow> setAnnounce junk c;
     c \<leftarrow> txAnnounce (c\<lparr>sm := (sm c)\<lparr>txAnnouncePtr := Live m\<rparr>\<rparr>);
     Some (c\<lparr>sm := (sm c)\<lparr>interval2 := announceInterval (port c)\<rparr>\<rparr>)
   }"

section \<open>The machine\<close>

definition pat_goto :: "PortAnnounceTransmitSMState \<Rightarrow> PatCtx \<Rightarrow> PatCtx" where
  "pat_goto st c = c\<lparr>sm := (sm c)\<lparr>pat_state := st\<rparr>\<rparr>"

definition pat_body :: "ClockIdentity list \<Rightarrow> UScaledNs \<Rightarrow> PatCtx \<Rightarrow> (PatCtx \<times> bool) option" where
  "pat_body junk ts c0 = do {
     let state_change = pat_state (sm c0) \<noteq> pat_last_state (sm c0);
     let c = c0\<lparr>sm := (sm c0)\<lparr>pat_last_state := pat_state (sm c0)\<rparr>\<rparr>;
     c \<leftarrow> (case pat_state (sm c) of
         PAT_INIT \<Rightarrow> Some (pat_goto PAT_TRANSMIT_INIT c)
       | PAT_TRANSMIT_INIT \<Rightarrow> Some (pat_goto PAT_IDLE (if state_change then pat_transmit_init_action c else c))
       | PAT_TRANSMIT_PERIODIC \<Rightarrow> Some (pat_goto PAT_IDLE (if state_change then pat_transmit_periodic_action c else c))
       | PAT_IDLE \<Rightarrow> do {
           let c = (if state_change then pat_idle_action ts c else c);
           s \<leftarrow> pat_idle_transition ts c;
           Some (pat_goto s c) }
       | PAT_TRANSMIT_ANNOUNCE \<Rightarrow> do {
           c \<leftarrow> (if state_change then pat_transmit_announce_action junk c else Some c);
           Some (pat_goto PAT_IDLE c) }
       | PAT_REACTION \<Rightarrow> Some c
       | PAT_BEFORE_INIT \<Rightarrow> Some c);
     Some (c, pat_state (sm c) \<noteq> pat_last_state (sm c))
   }"

definition port_announce_transmit_sm_run :: "ClockIdentity list \<Rightarrow> UScaledNs \<Rightarrow> PatCtx \<Rightarrow> PatCtx option" where
  "port_announce_transmit_sm_run junk ts c = sm_loop (pat_body junk ts) (pat_goto (pat_all_state_transition c) c)"

text \<open>The first sequence number is a random number, \<open>r\<close>.\<close>

definition init_port_announce_transmit_sm :: "16 word \<Rightarrow> ClockIdentity list \<Rightarrow> PatCtx \<Rightarrow> PatCtx option" where
  "init_port_announce_transmit_sm r junk c =
     port_announce_transmit_sm_run junk zero_ts
       (c\<lparr>sm := (sm c)\<lparr>interval2 := announceInterval (port c), pat_sequenceId := r, txAnnouncePtr := Null,
         pat_newInfo := False, announceSlowdown := False, pat_state := PAT_INIT, pat_last_state := PAT_BEFORE_INIT\<rparr>\<rparr>)"

end
