(* ===== verification/PtpArith_Props.thy ===== *)
theory PtpArith_Props
  imports PtpArith
begin

text \<open>
  What the arithmetic of scaled nanoseconds computes, over the number \<open>usval\<close> of sixteenth binary fractions of a nanosecond
  that a value stands for; where it carries too early and where a quotient never ends.
\<close>

section \<open>Sums and differences\<close>

definition usval :: "UScaledNs \<Rightarrow> nat" where
  "usval t = unat (subns t) + 2 ^ 16 * unat (nsec t) + 2 ^ 80 * unat (nsec_msb t)"

lemma unat_bounds:
  "unat (subns t) < 65536" "unat (nsec t) < 18446744073709551616" "unat (nsec_msb t) < 65536"
  using unsigned_less[of "subns t", where 'a = nat] unsigned_less[of "nsec t", where 'a = nat]
    unsigned_less[of "nsec_msb t", where 'a = nat] by simp_all

lemma usval_less: "usval t < 2 ^ 96"
proof -
  have "unat (subns t) \<le> 65535" "unat (nsec t) \<le> 18446744073709551615" "unat (nsec_msb t) \<le> 65535"
    using unat_bounds[of t] by simp_all
  then have "usval t \<le> 65535 + 2 ^ 16 * 18446744073709551615 + 2 ^ 80 * 65535"
    unfolding usval_def by (intro add_mono mult_le_mono) simp_all
  also have "\<dots> < 2 ^ 96" by simp
  finally show ?thesis .
qed

lemma limbs_eq_iff:
  fixes a b c d m :: nat
  assumes *: "a < m" "c < m"
  shows "a + m * b = c + m * d \<longleftrightarrow> a = c \<and> b = d"
proof
  assume e: "a + m * b = c + m * d"
  then have "(a + m * b) mod m = (c + m * d) mod m" "(a + m * b) div m = (c + m * d) div m" by simp_all
  with * show "a = c \<and> b = d" by simp
qed simp

lemma usval_inject: "usval a = usval b \<longleftrightarrow> a = b"
proof -
  have e: "usval t = unat (subns t) + 65536 * (unat (nsec t) + 18446744073709551616 * unat (nsec_msb t))" for t
    by (simp add: usval_def)
  have "usval a = usval b \<longleftrightarrow> unat (subns a) = unat (subns b) \<and> unat (nsec a) = unat (nsec b) \<and>
      unat (nsec_msb a) = unat (nsec_msb b)"
    unfolding e limbs_eq_iff[OF unat_bounds(1) unat_bounds(1)] limbs_eq_iff[OF unat_bounds(2) unat_bounds(2)] ..
  then show ?thesis
    by (cases a; cases b) (auto simp: word_unat_eq_iff)
qed

text \<open>Sums and differences, limb by limb.\<close>

lemma usval_sumI:
  assumes "unat (subns r) + 65536 * c = unat (subns a) + unat (subns b)"
    and "unat (nsec r) + 18446744073709551616 * d = unat (nsec a) + unat (nsec b) + c"
    and "unat (nsec_msb r) + 65536 * e = unat (nsec_msb a) + unat (nsec_msb b) + d"
  shows "usval r + 2 ^ 96 * e = usval a + usval b"
  using assms unfolding usval_def by simp

lemma unat_borrow:
  fixes a b :: "'a::len word"
  assumes "c \<le> 1" "1 < LENGTH('a)"
  shows "unat a + 2 ^ LENGTH('a) * (if unat b + c \<le> unat a then 0 else 1) =
    unat (a - of_nat c - b) + unat b + c"
proof (cases "c = 0")
  case True
  then show ?thesis
    using order_less_imp_le[OF unsigned_less[of b, where 'a = nat]] by (auto simp: unat_sub_if')
next
  case False
  then have c: "c = 1" using assms by simp
  have two: "Suc 0 < (2::nat) ^ LENGTH('a)"
    using assms by (metis One_nat_def one_less_power one_less_numeral_iff semiring_norm(76) less_trans zero_less_one)
  note less = unsigned_less[of b, where 'a = nat] unsigned_less[of a, where 'a = nat]
  show ?thesis
  proof (cases "a = 0")
    case True
    moreover have "unat (- 1 :: 'a word) = 2 ^ LENGTH('a) - 1"
      by (simp add: unsigned_minus_1_eq_mask mask_eq_exp_minus_1)
    moreover have "unat b \<le> 2 ^ LENGTH('a) - 1" using less(1) by linarith
    ultimately show ?thesis unfolding c using two by (auto simp: unat_sub_if')
  next
    case False
    then have "Suc 0 \<le> unat a" by (simp add: Suc_le_eq unat_gt_0)
    moreover have "Suc (unat b) \<le> 2 ^ LENGTH('a)" using less(1) by linarith
    ultimately show ?thesis unfolding c using False two by (auto simp: unat_sub_if')
  qed
qed

lemma usval_subtract: "usval (uscaledns_subtract a b) = (usval a + 2 ^ 96 - usval b) mod 2 ^ 96"
proof -
  let ?r = "uscaledns_subtract a b"
  define c where "c = (if unat (subns b) + 0 \<le> unat (subns a) then 0 else 1 :: nat)"
  define d where "d = (if unat (nsec b) + c \<le> unat (nsec a) then 0 else 1 :: nat)"
  define e where "e = (if unat (nsec_msb b) + d \<le> unat (nsec_msb a) then 0 else 1 :: nat)"
  have "c \<le> 1" "d \<le> 1" by (simp_all add: c_def d_def)
  have r1: "subns ?r = subns a - of_nat 0 - subns b"
    by (simp add: uscaledns_subtract_def Let_def split_beta)
  have r2: "nsec ?r = nsec a - of_nat c - nsec b"
    by (simp add: uscaledns_subtract_def Let_def split_beta c_def word_le_nat_alt)
  have dd: "d = 1 \<longleftrightarrow> nsec a = 0 \<and> c = 1 \<or> \<not> nsec b \<le> nsec a - of_nat c"
  proof (cases "c = 0")
    case False
    then have "c = 1" using \<open>c \<le> 1\<close> by simp
    then show ?thesis
      using unat_gt_0[of "nsec a"] by (cases "nsec a = 0") (auto simp: d_def word_le_nat_alt unat_minus_one)
  qed (simp add: d_def word_le_nat_alt)
  have r3: "nsec_msb ?r = nsec_msb a - of_nat d - nsec_msb b"
    using dd by (auto simp: uscaledns_subtract_def Let_def split_beta c_def word_le_nat_alt d_def)
  have "usval a + 2 ^ 96 * e = usval ?r + usval b"
    using unat_borrow[of 0 "subns a" "subns b"] unat_borrow[of c "nsec a" "nsec b"]
      unat_borrow[of d "nsec_msb a" "nsec_msb b"] \<open>c \<le> 1\<close> \<open>d \<le> 1\<close>
    unfolding r1[symmetric] r2[symmetric] r3[symmetric] c_def[symmetric] d_def[symmetric] e_def[symmetric]
    by (intro usval_sumI[of _ c _ _ d]) simp_all
  then show ?thesis
    using usval_less[of a] usval_less[of b] usval_less[of ?r] by (cases "e = 0") (auto simp: e_def split: if_splits)
qed


lemma unat_carry:
  fixes a b :: "'a::len word"
  assumes "c \<le> 1" "1 < LENGTH('a)"
  shows "unat (a + b + of_nat c) + 2 ^ LENGTH('a) * (if unat a + unat b + c < 2 ^ LENGTH('a) then 0 else 1) =
    unat a + unat b + c"
proof -
  have two: "Suc 0 < (2::nat) ^ LENGTH('a)"
    using assms by (metis One_nat_def one_less_power one_less_numeral_iff semiring_norm(76) less_trans zero_less_one)
  then have "unat (of_nat c :: 'a word) = c"
    using assms by (cases "c = 0") (auto simp: le_Suc_eq)
  then show ?thesis
    using two add_less_le_mono[OF unsigned_less[of b, where 'a = nat] Suc_leI[OF unsigned_less[of a, where 'a = nat]]] assms
    by (auto simp: unat_plus_if')
qed

lemma ucast_sum: "unat (ucast x + ucast y :: 64 word) = unat x + unat y" for x y :: "16 word"
proof -
  have "unat (ucast z :: 64 word) = unat z" for z :: "16 word"
    using unsigned_less[of z, where 'a = nat] by (simp add: unsigned_ucast_eq take_bit_nat_eq_self)
  then show ?thesis
    using unsigned_less[of x, where 'a = nat] unsigned_less[of y, where 'a = nat]
    by (subst unat_plus_small) simp_all
qed

text \<open>
  The sum carries into the nanoseconds one step too early: the fractions \<open>0xFFFF\<close> in all, which
  do not overflow, are counted as an overflow too.
\<close>

text \<open>
  The carry of the fractions is tested with \<open>>= 0xFFFF\<close>: a sum of exactly 65535 is carried although it fits, and the
  result is one nanosecond too large.
\<close>

definition carry_error :: "UScaledNs \<Rightarrow> UScaledNs \<Rightarrow> nat" where
  "carry_error a b = (if unat (subns a) + unat (subns b) = 65535 then 65536 else 0)"

lemma usval_add:
  "usval (uscaledns_add a b) =
    (usval a + usval b + (if unat (subns a) + unat (subns b) = 65535 then 65536 else 0)) mod 2 ^ 96"
proof -
  let ?r = "uscaledns_add a b"
  define c where "c = (if 65535 \<le> unat (subns a) + unat (subns b) then 1 else 0 :: nat)"
  define c' where "c' = (if unat (subns a) + unat (subns b) + 0 < 65536 then 0 else 1 :: nat)"
  define d where "d = (if unat (nsec a) + unat (nsec b) + c < 2 ^ 64 then 0 else 1 :: nat)"
  define e where "e = (if unat (nsec_msb a) + unat (nsec_msb b) + d < 65536 then 0 else 1 :: nat)"
  have "c \<le> 1" "d \<le> 1" by (simp_all add: c_def d_def)
  have r1: "subns ?r = subns a + subns b + of_nat 0"
  proof -
    have "ucast (ucast x + ucast y AND 0xFFFF :: 64 word) = x + y" for x y :: "16 word"
    proof -
      have "0xFFFF = (mask 16 :: 64 word)" by (simp add: mask_eq_exp_minus_1)
      then have "ucast (z AND 0xFFFF :: 64 word) = (ucast z :: 16 word)" for z
        by (simp only: flip: take_bit_eq_mask) (rule bit_word_eqI, auto simp: bit_simps)
      then show ?thesis
        using ucast_sum[of x y] by (simp only: word_unat_eq_iff unsigned_ucast_eq take_bit_eq_mod unat_word_ariths(1))
    qed
    then show ?thesis by (simp add: uscaledns_add_def Let_def)
  qed
  have r2: "nsec ?r = nsec a + nsec b + of_nat c"
    by (simp add: uscaledns_add_def Let_def c_def word_le_nat_alt ucast_sum)
  have dd: "check_overflow (nsec a) (nsec b) (of_nat c) \<longleftrightarrow> d = 1"
  proof (cases "c = 0")
    case True
    then show ?thesis
      using unat_bounds[of a] unat_bounds[of b]
      by (auto simp: check_overflow_def Let_def word_less_nat_alt unat_plus_if' d_def)
  next
    case False
    then have "c = 1" using \<open>c \<le> 1\<close> by simp
    then show ?thesis
      using unat_bounds[of a] unat_bounds[of b] unat_carry[of 1 "nsec a" "nsec b"]
      by (auto simp: check_overflow_def Let_def word_less_nat_alt d_def split: if_splits)
  qed
  have r3: "nsec_msb ?r = nsec_msb a + nsec_msb b + of_nat d"
    using dd by (auto simp: uscaledns_add_def Let_def c_def word_le_nat_alt ucast_sum d_def)
  have "unat (subns ?r) + 65536 * c' = unat (subns a) + unat (subns b)"
    using unat_carry[of 0 "subns a" "subns b"] unfolding r1 c'_def by simp
  moreover have "unat (nsec ?r) + 18446744073709551616 * d = unat (nsec a) + unat (nsec b) + c"
    using unat_carry[of c "nsec a" "nsec b"] \<open>c \<le> 1\<close> unfolding r2 d_def by simp
  moreover have "unat (nsec_msb ?r) + 65536 * e = unat (nsec_msb a) + unat (nsec_msb b) + d"
    using unat_carry[of d "nsec_msb a" "nsec_msb b"] \<open>d \<le> 1\<close> unfolding r3 e_def by simp
  ultimately have "usval ?r + 65536 * c' + 2 ^ 96 * e = usval a + usval b + 65536 * c"
    unfolding usval_def by simp
  moreover have "c = c' + (if unat (subns a) + unat (subns b) = 65535 then 1 else 0)"
    unfolding c_def c'_def by simp
  ultimately have "usval ?r + 2 ^ 96 * e =
      usval a + usval b + (if unat (subns a) + unat (subns b) = 65535 then 65536 else 0)"
    by simp
  then show ?thesis
    using usval_less[of ?r] by (metis mod_less mod_mult_self2)
qed

section \<open>Comparison\<close>

lemma usval_nested:
  "usval t = unat (subns t) + 65536 * (unat (nsec t) + 18446744073709551616 * unat (nsec_msb t))"
  by (simp add: usval_def)

lemma limbs_less_iff:
  fixes a b c d m :: nat
  assumes "a < m" "c < m"
  shows "a + m * b < c + m * d \<longleftrightarrow> b < d \<or> b = d \<and> a < c"
proof -
  have "a + m * b < c + m * d" if "b < d"
  proof -
    have "a + m * b < m * Suc b" using assms by simp
    also have "\<dots> \<le> m * d" using that by (intro mult_le_mono2) simp
    finally show ?thesis by simp
  qed
  moreover have "c + m * d < a + m * b" if "d < b"
  proof -
    have "c + m * d < m * Suc d" using assms by simp
    also have "\<dots> \<le> m * b" using that by (intro mult_le_mono2) simp
    finally show ?thesis by simp
  qed
  ultimately show ?thesis by (cases b d rule: linorder_cases) auto
qed

lemma usval_less_iff:
  "usval a < usval b \<longleftrightarrow> nsec_msb a < nsec_msb b \<or> nsec_msb a = nsec_msb b \<and>
     (nsec a < nsec b \<or> nsec a = nsec b \<and> subns a < subns b)"
  unfolding usval_nested limbs_less_iff[OF unat_bounds(1) unat_bounds(1)]
    limbs_less_iff[OF unat_bounds(2) unat_bounds(2)] limbs_eq_iff[OF unat_bounds(2) unat_bounds(2)]
  by (auto simp: word_less_nat_alt word_unat_eq_iff)

lemma uscaledns_compare_usval: "uscaledns_compare a b = sgn (int (usval a) - int (usval b))"
proof -
  have "uscaledns_compare a b = (if usval a < usval b then -1 else if usval b < usval a then 1 else 0)"
    unfolding usval_less_iff uscaledns_compare_def by auto
  then show ?thesis by (simp add: sgn_if)
qed

lemma half_or:
  fixes w :: "'a::len word"
  assumes "1 < LENGTH('a)"
  shows "unat (drop_bit 1 w OR 2 ^ (LENGTH('a) - 1)) = unat w div 2 + 2 ^ (LENGTH('a) - 1)"
proof -
  have "drop_bit 1 w + 2 ^ (LENGTH('a) - 1) = drop_bit 1 w OR 2 ^ (LENGTH('a) - 1)"
    by (intro disjunctive_add) (auto simp: bit_simps dest: bit_imp_le_length)
  moreover have "unat (drop_bit 1 w) = unat w div 2" using unat_drop_bit_eq[of 1 w] unfolding drop_bit_eq_div[of 1 "unat w"] by simp
  moreover have "unat (2 ^ (LENGTH('a) - 1) :: 'a word) = 2 ^ (LENGTH('a) - 1)"
  proof -
    have "(2::nat) ^ (LENGTH('a) - 1) < 2 ^ LENGTH('a)" by simp
    then have "unat (of_nat (2 ^ (LENGTH('a) - 1)) :: 'a word) = 2 ^ (LENGTH('a) - 1)"
      by (simp only: unsigned_of_nat take_bit_nat_eq_self of_nat_id)
    then show ?thesis by simp
  qed
  moreover have "unat w div 2 + 2 ^ (LENGTH('a) - 1) < 2 ^ LENGTH('a)"
  proof -
    have "(2::nat) ^ LENGTH('a) = 2 * 2 ^ (LENGTH('a) - 1)"
      using assms by (metis Suc_diff_1 len_gt_0 power_Suc)
    then show ?thesis using unsigned_less[of w, where 'a = nat] by linarith
  qed
  ultimately show ?thesis by (metis unat_plus_small)
qed

lemma and_one_nonzero: "w AND 1 \<noteq> 0 \<longleftrightarrow> odd (unat w)" for w :: "'a::len word"
proof -
  have "w AND 1 \<noteq> 0 \<longleftrightarrow> bit w 0" by (simp add: and_one_eq bit_0 mod_2_eq_odd)
  also have "\<dots> \<longleftrightarrow> bit (unat w) 0" by (simp only: bit_unsigned_iff) simp
  finally show ?thesis by (simp add: bit_0)
qed

lemma usval_divide_by_2: "usval (uscaledns_divide_by_2 t) = usval t div 2"
proof -
  have h: "unat (drop_bit 1 w) = unat w div 2" for w :: "'w::len word"
    using unat_drop_bit_eq[of 1 w] unfolding drop_bit_eq_div[of 1 "unat w"] by simp
  have s: "unat (subns (uscaledns_divide_by_2 t)) = unat (subns t) div 2 + (if odd (unat (nsec t)) then 32768 else 0)"
    using half_or[of "subns t"] h[of "subns t"] by (simp add: uscaledns_divide_by_2_def Let_def and_one_nonzero)
  have n: "unat (nsec (uscaledns_divide_by_2 t)) =
      unat (nsec t) div 2 + (if odd (unat (nsec_msb t)) then 9223372036854775808 else 0)"
    using half_or[of "nsec t"] h[of "nsec t"] by (simp add: uscaledns_divide_by_2_def Let_def and_one_nonzero)
  have m: "unat (nsec_msb (uscaledns_divide_by_2 t)) = unat (nsec_msb t) div 2"
    using h[of "nsec_msb t"] by (simp add: uscaledns_divide_by_2_def Let_def)
  have d: "x = 2 * (x div 2) + (if odd x then 1 else 0)" for x :: nat by simp
  have "usval t = 2 * usval (uscaledns_divide_by_2 t) + (if odd (unat (subns t)) then 1 else 0)"
    unfolding usval_nested s n m
    by (subst d[of "unat (subns t)"], subst d[of "unat (nsec t)"], subst d[of "unat (nsec_msb t)"]) simp
  then show ?thesis by simp
qed

lemma uint64_uscaledns_uint64: "uint64_uscaledns (uscaledns_uint64 t) = t"
proof -
  have m: "0xFFFF = (mask 16 :: 64 word)" by (simp add: mask_eq_exp_minus_1)
  show ?thesis
    unfolding uint64_uscaledns_def uscaledns_uint64_def m
  proof (rule bit_word_eqI)
    fix n assume "n < LENGTH(64)"
    then show "bit (ucast (subns \<lparr>subns = ucast (t AND mask 16), nsec = drop_bit 16 t, nsec_msb = 0\<rparr>) OR
        push_bit 16 (nsec \<lparr>subns = ucast (t AND mask 16), nsec = drop_bit 16 t, nsec_msb = 0\<rparr>)) n = bit t n"
      by (cases "n < 16") (auto simp: bit_simps)
  qed
qed

lemma unat_ucast_mod: "unat (ucast a :: 'b::len word) = unat a mod 2 ^ LENGTH('b)" for a :: "'a::len word"
  by (simp add: unsigned_ucast_eq take_bit_eq_mod)

lemma timestamp_roundtrip:
  assumes "subns t = 0" "nsec_msb t = 0" "unat (nsec t) < 2 ^ 32 * 1000000000"
  shows "uscaledns_ptpmsgtimestamp (ptpmsgtimestamp_uscaledns t) = t"
proof -
  let ?n = "unat (nsec t)"
  have a: "unat (nsec t div 1000000000) = ?n div 1000000000" by (simp add: unat_div)
  have b: "unat (nsec t mod 1000000000) = ?n mod 1000000000" by (simp add: unat_mod)
  have q: "?n div 1000000000 < 4294967296" using assms(3) by (simp add: less_mult_imp_div_less mult.commute)
  have "unat (ucast (ucast (nsec t div 1000000000) :: 32 word) :: 64 word) = ?n div 1000000000"
    using q by (simp add: unat_ucast_mod a)
  moreover have "unat (ucast (ucast (nsec t mod 1000000000) :: 32 word) :: 64 word) = ?n mod 1000000000"
    by (simp add: unat_ucast_mod b)
  ultimately have "unat (ucast (ucast (nsec t div 1000000000) :: 32 word) * 1000000000 +
      ucast (ucast (nsec t mod 1000000000) :: 32 word) :: 64 word) = ?n"
    using q by (subst unat_plus_small; subst unat_mult_small) simp_all
  then have "nsec (uscaledns_ptpmsgtimestamp (ptpmsgtimestamp_uscaledns t)) = nsec t"
    unfolding uscaledns_ptpmsgtimestamp_def ptpmsgtimestamp_uscaledns_def word_unat_eq_iff by simp
  then show ?thesis
    using assms by (cases t) (simp add: uscaledns_ptpmsgtimestamp_def)
qed

section \<open>Products\<close>

lemma unat_limb0: "unat (limb0 t) = unat (subns t) + 65536 * (unat (nsec t) mod 65536)"
proof -
  have m: "0xFFFF = (mask 16 :: 64 word)" by (simp add: mask_eq_exp_minus_1)
  have "push_bit 16 (nsec t AND 0xFFFF) = (nsec t AND 0xFFFF) * 65536" by (simp add: push_bit_eq_mult)
  moreover have "unat (nsec t AND 0xFFFF) = unat (nsec t) mod 65536"
    unfolding m by (simp flip: take_bit_eq_mask add: unsigned_take_bit_eq take_bit_eq_mod[where 'a = nat])
  ultimately have "unat (push_bit 16 (nsec t AND 0xFFFF)) = 65536 * (unat (nsec t) mod 65536)"
    by (simp add: unat_mult_small)
  moreover have "unat (ucast (subns t) :: 64 word) = unat (subns t)"
    using unat_bounds(1)[of t] by (simp add: unat_ucast_mod)
  ultimately show ?thesis
    unfolding limb0_def using unat_bounds(1)[of t] by (subst unat_plus_small) simp_all
qed

lemma unat_limb1: "unat (limb1 t) = unat (nsec t) div 65536 mod 4294967296"
proof -
  have m: "0xFFFFFFFF = (mask 32 :: 64 word)" by (simp add: mask_eq_exp_minus_1)
  show ?thesis
    unfolding limb1_def m
    by (simp flip: take_bit_eq_mask add: unsigned_take_bit_eq take_bit_eq_mod[where 'a = nat] unat_drop_bit_eq drop_bit_eq_div[where 'a = nat] del: drop_bit_of_nat)
qed

lemma unat_limb2: "unat (limb2 t) = unat (nsec t) div 281474976710656 + 65536 * unat (nsec_msb t)"
proof -
  have "push_bit 16 (ucast (nsec_msb t)) = (ucast (nsec_msb t)) * (65536 :: 64 word)" by (simp add: push_bit_eq_mult)
  moreover have "unat (ucast (nsec_msb t) :: 64 word) = unat (nsec_msb t)"
    using unat_bounds(3)[of t] by (simp add: unat_ucast_mod)
  ultimately have "unat (push_bit 16 (ucast (nsec_msb t)) :: 64 word) = 65536 * unat (nsec_msb t)"
    using unat_bounds(3)[of t] by (simp add: unat_mult_small)
  moreover have "unat (drop_bit 48 (nsec t)) = unat (nsec t) div 281474976710656"
    by (simp add: unat_drop_bit_eq drop_bit_eq_div[where 'a = nat])
  moreover have "unat (nsec t) div 281474976710656 < 65536"
    using unat_bounds(2)[of t] by (simp add: less_mult_imp_div_less)
  ultimately show ?thesis
    unfolding limb2_def using unat_bounds(3)[of t] by (subst unat_plus_small) simp_all
qed

lemma limbs_less: "unat (limb0 t) < 4294967296" "unat (limb1 t) < 4294967296" "unat (limb2 t) < 4294967296"
proof -
  have "unat (nsec t) div 281474976710656 < 65536"
    using unat_bounds(2)[of t] by (simp add: less_mult_imp_div_less)
  moreover have "unat (nsec t) mod 65536 < 65536" by simp
  ultimately show "unat (limb0 t) < 4294967296" "unat (limb1 t) < 4294967296" "unat (limb2 t) < 4294967296"
    unfolding unat_limb0 unat_limb1 unat_limb2 using unat_bounds[of t] by linarith+
qed

lemma usval_limbs: "usval t = unat (limb0 t) + 2 ^ 32 * unat (limb1 t) + 2 ^ 64 * unat (limb2 t)"
proof -
  have "n = n mod 65536 + 65536 * (n div 65536 mod 4294967296) + 281474976710656 * (n div 281474976710656)" for n :: nat
  proof -
    have "n div 281474976710656 = n div 65536 div 4294967296" by (simp add: div_mult2_eq[symmetric])
    then show ?thesis
      using div_mult_mod_eq[of n 65536] div_mult_mod_eq[of "n div 65536" 4294967296] by linarith
  qed
  from this[of "unat (nsec t)"] show ?thesis
    unfolding unat_limb0 unat_limb1 unat_limb2 usval_nested by simp
qed


text \<open>
  The product is right while it stays below \<open>2 ^ 32\<close> nanoseconds: beyond that the third limb is
  added to the nanoseconds shifted by 16 bits and not by 32.
\<close>

lemma low_limbs:
  fixes p q r s u :: nat
  assumes "p + 2 ^ 32 * q + 2 ^ 64 * r + 2 ^ 96 * s + 2 ^ 128 * u < 2 ^ 64"
  shows "r = 0 \<and> s = 0 \<and> u = 0 \<and> p + 2 ^ 32 * q < 2 ^ 64"
  using assms by (cases r; cases s; cases u) simp_all

lemma carry_bound: "x + 4294967296 * y < 18446744073709551616 \<Longrightarrow> x div 4294967296 + y < 4294967296"
  for x y :: nat
proof -
  assume "x + 4294967296 * y < 18446744073709551616"
  then have "(x + 4294967296 * y) div 4294967296 < 4294967296" by (intro less_mult_imp_div_less) simp
  then show ?thesis by simp
qed

lemma carry_join: "x mod 4294967296 div 65536 + 65536 * (y + x div 4294967296) = (x + 4294967296 * y) div 65536"
  for x y :: nat
proof -
  have "x + 4294967296 * y = x mod 4294967296 + 65536 * (65536 * (y + x div 4294967296))"
    using mult_div_mod_eq[of 4294967296 x] by simp
  then have "(x + 4294967296 * y) div 65536 = x mod 4294967296 div 65536 + 65536 * (y + x div 4294967296)"
    by (simp only: div_mult_self2 zero_neq_numeral not_False_eq_True numeral_neq_zero)
  then show ?thesis by (rule sym)
qed

lemma usval_mul:
  assumes "usval a * usval b < 2 ^ 64"
  shows "usval (uscaledns_mul a b) = usval a * usval b div 2 ^ 16"
proof -
  define a0 a1 a2 b0 b1 b2 where d: "a0 = unat (limb0 a)" "a1 = unat (limb1 a)" "a2 = unat (limb2 a)"
    "b0 = unat (limb0 b)" "b1 = unat (limb1 b)" "b2 = unat (limb2 b)"
  have p: "usval a * usval b = a0 * b0 + 2 ^ 32 * (a0 * b1 + a1 * b0) + 2 ^ 64 * (a0 * b2 + a1 * b1 + a2 * b0)
      + 2 ^ 96 * (a1 * b2 + a2 * b1) + 2 ^ 128 * (a2 * b2)"
    unfolding usval_limbs d by (simp add: algebra_simps)
  have "a0 * b2 + a1 * b1 + a2 * b0 = 0 \<and> a1 * b2 + a2 * b1 = 0 \<and> a2 * b2 = 0 \<and>
      a0 * b0 + 2 ^ 32 * (a0 * b1 + a1 * b0) < 2 ^ 64"
    using assms unfolding p by (rule low_limbs)
  then have z: "a0 * b2 = 0" "a1 * b1 = 0" "a2 * b0 = 0" "a1 * b2 = 0" "a2 * b1 = 0" "a2 * b2 = 0"
    and s: "a0 * b0 + 4294967296 * (a0 * b1 + a1 * b0) < 18446744073709551616" by simp_all
  have prod: "unat (x * y) = unat x * unat y" if "unat x * unat y < 18446744073709551616" for x y :: "64 word"
    using that by (simp add: unat_mult_small)
  have w0: "x * y = 0" if "unat x * unat y = 0" for x y :: "64 word"
    using that by (auto simp: unat_eq_0)
  have w: "limb0 a * limb2 b = 0" "limb1 a * limb1 b = 0" "limb2 a * limb0 b = 0" "limb1 a * limb2 b = 0"
    "limb2 a * limb1 b = 0" "limb2 a * limb2 b = 0"
    using z unfolding d by (simp_all only: w0)
  define c0 where "c0 = limb0 a * limb0 b"
  define c1 where "c1 = limb0 a * limb1 b + limb1 a * limb0 b + drop_bit 32 c0"
  have u0: "unat c0 = a0 * b0" using s by (simp add: c0_def prod d)
  have "unat (drop_bit 32 c0) = unat c0 div 4294967296"
    by (simp add: unat_drop_bit_eq drop_bit_eq_div[where 'a = nat])
  moreover note cb = carry_bound[OF s]
  ultimately have u1: "unat c1 = a0 * b1 + a1 * b0 + a0 * b0 div 4294967296"
    unfolding c1_def using s by (simp add: unat_plus_small prod flip: d u0)
  have l1: "unat c1 < 4294967296" using u1 cb by simp
  have h: "drop_bit 32 c1 = 0"
    using l1 by (simp add: word_unat_eq_iff unat_drop_bit_eq drop_bit_eq_div[where 'a = nat])
  have m: "0xFFFFFFFF = (mask 32 :: 64 word)" "0xFFFF = (mask 16 :: 64 word)" by (simp_all add: mask_eq_exp_minus_1)
  have c1m: "c1 AND 0xFFFFFFFF = c1"
    using l1 unfolding m by (simp add: word_unat_eq_iff unsigned_take_bit_eq take_bit_nat_eq_self flip: take_bit_eq_mask)
  have r: "uscaledns_mul a b = \<lparr>subns = ucast (drop_bit 16 (c0 AND 0xFFFFFFFF)), nsec = c1, nsec_msb = 0\<rparr>"
    unfolding uscaledns_mul_def Let_def c0_def[symmetric] c1_def[symmetric] w
    by (simp add: h c1m)
  have "unat (ucast (drop_bit 16 (c0 AND 0xFFFFFFFF)) :: 16 word) = a0 * b0 mod 4294967296 div 65536"
  proof -
    have "unat (drop_bit 16 (c0 AND 0xFFFFFFFF)) = a0 * b0 mod 4294967296 div 65536"
      unfolding m by (simp flip: take_bit_eq_mask add: unsigned_take_bit_eq take_bit_eq_mod[where 'a = nat]
          unat_drop_bit_eq drop_bit_eq_div[where 'a = nat] u0)
    moreover have "a0 * b0 mod 4294967296 div 65536 < 65536" by (simp add: less_mult_imp_div_less)
    ultimately show ?thesis by (simp add: unat_ucast_mod)
  qed
  then have "usval (uscaledns_mul a b) = a0 * b0 mod 4294967296 div 65536 + 65536 * (a0 * b1 + a1 * b0 + a0 * b0 div 4294967296)"
    unfolding r usval_nested by (simp add: u1)
  also have "\<dots> = (a0 * b0 + 4294967296 * (a0 * b1 + a1 * b0)) div 65536"
    by (rule carry_join)
  also have "\<dots> = usval a * usval b div 2 ^ 16"
    unfolding p z by simp
  finally show ?thesis .
qed

section \<open>Quotients\<close>

text \<open>The number the limbs stand for.\<close>

fun lval :: "64 word list \<Rightarrow> nat" where
  "lval [] = 0"
| "lval (x # xs) = unat x + 2 ^ 32 * lval xs"

definition limbs :: "64 word list \<Rightarrow> bool" where
  "limbs xs \<longleftrightarrow> (\<forall>x \<in> set xs. unat x < 4294967296)"

lemma limbs_simps [simp]: "limbs []" "limbs (x # xs) \<longleftrightarrow> unat x < 4294967296 \<and> limbs xs"
  by (auto simp: limbs_def)

lemma lval_less: "limbs xs \<Longrightarrow> lval xs < 2 ^ (32 * length xs)"
proof (induction xs)
  case (Cons x xs)
  then have "lval (x # xs) < 4294967296 * Suc (lval xs)" by simp
  also have "\<dots> \<le> 4294967296 * 2 ^ (32 * length xs)" using Cons by (intro mult_le_mono2) simp
  finally show ?case by (simp add: power_add)
qed simp

lemma shift_step:
  fixes x c :: "64 word"
  assumes "unat x < 4294967296" "unat c \<le> 1"
  shows "unat ((push_bit 1 x + c) AND 0xFFFFFFFF) + 4294967296 * unat (drop_bit 31 x) = 2 * unat x + unat c"
    "unat ((push_bit 1 x + c) AND 0xFFFFFFFF) < 4294967296" "unat (drop_bit 31 x) \<le> 1"
proof -
  have m: "0xFFFFFFFF = (mask 32 :: 64 word)" by (simp add: mask_eq_exp_minus_1)
  have d: "unat (drop_bit 31 x) = unat x div 2147483648"
    by (simp add: unat_drop_bit_eq drop_bit_eq_div[where 'a = nat])
  have "push_bit 1 x = x * 2" by (simp add: push_bit_eq_mult)
  then have "unat (push_bit 1 x + c) = 2 * unat x + unat c"
    using assms by (simp add: unat_plus_small unat_mult_small)
  then have "unat ((push_bit 1 x + c) AND 0xFFFFFFFF) = (2 * unat x + unat c) mod 4294967296"
    unfolding m by (simp flip: take_bit_eq_mask add: unsigned_take_bit_eq take_bit_eq_mod[where 'a = nat])
  moreover have "(2 * unat x + unat c) div 4294967296 = unat x div 2147483648"
    using assms(2) div_mult2_eq[of "2 * unat x + unat c" 2 2147483648] by simp
  ultimately show "unat ((push_bit 1 x + c) AND 0xFFFFFFFF) + 4294967296 * unat (drop_bit 31 x) = 2 * unat x + unat c"
    unfolding d using div_mult_mod_eq[of "2 * unat x + unat c" 4294967296] by simp
  show "unat ((push_bit 1 x + c) AND 0xFFFFFFFF) < 4294967296"
    unfolding m by (simp flip: take_bit_eq_mask add: unsigned_take_bit_eq take_bit_eq_mod[where 'a = nat])
  show "unat (drop_bit 31 x) \<le> 1" unfolding d using assms(1) by (simp add: less_Suc_eq_le[symmetric] less_mult_imp_div_less)
qed

lemma shift_limbs_val:
  assumes "limbs xs" "unat c \<le> 1" "shift_limbs xs c = (ys, d)"
  shows "limbs ys \<and> length ys = length xs \<and> unat d \<le> 1 \<and>
    lval ys + 2 ^ (32 * length xs) * unat d = 2 * lval xs + unat c"
  using assms
proof (induction xs arbitrary: c ys)
  case (Cons x xs)
  obtain zs e where e: "shift_limbs xs (drop_bit 31 x) = (zs, e)" by (metis surj_pair)
  from Cons.prems e have ys: "ys = ((push_bit 1 x + c) AND 0xFFFFFFFF) # zs" "d = e" by simp_all
  have s: "unat x < 4294967296" "limbs xs" using Cons.prems by simp_all
  note st = shift_step[OF s(1) Cons.prems(2)]
  have "limbs zs \<and> length zs = length xs \<and> unat d \<le> 1 \<and>
    lval zs + 2 ^ (32 * length xs) * unat d = 2 * lval xs + unat (drop_bit 31 x)"
    using Cons.IH[OF s(2) st(3)] e ys by simp
  then show ?case using st ys by (simp add: power_add algebra_simps)
qed simp

lemma compare_from_val:
  assumes "limbs xs" "limbs ys" "n \<le> length xs" "n \<le> length ys"
  shows "compare_from xs ys n = sgn (int (lval (take n xs)) - int (lval (take n ys)))"
  using assms
proof (induction n)
  case (Suc n)
  have app: "lval (us @ [v]) = lval us + 2 ^ (32 * length us) * unat v" for us v
    by (induction us) (simp_all add: power_add algebra_simps)
  have t: "lval (take (Suc n) zs) = lval (take n zs) + 2 ^ (32 * n) * unat (zs ! n)" if "n < length zs" for zs
    using that by (simp add: take_Suc_conv_app_nth app)
  have b: "lval (take n zs) < 2 ^ (32 * n)" if "limbs zs" "n < length zs" for zs
    using lval_less[of "take n zs"] that by (auto simp: limbs_def dest: in_set_takeD)
  have less: "lval (take (Suc n) us) < lval (take (Suc n) vs)"
    if "us ! n < vs ! n" "limbs us" "limbs vs" "n < length us" "n < length vs" for us vs
    unfolding t[OF that(4)] t[OF that(5)] limbs_less_iff[OF b[OF that(2,4)] b[OF that(3,5)]]
    using that(1) by (simp add: word_less_nat_alt)
  show ?case
  proof (cases "xs ! n = ys ! n")
    case True
    then show ?thesis using Suc t[of xs] t[of ys] by simp
  next
    case False
    then consider "xs ! n < ys ! n" | "ys ! n < xs ! n" by (meson linorder_less_linear)
    then show ?thesis using less[of xs ys] less[of ys xs] Suc.prems False by cases (auto simp: sgn_if)
  qed
qed simp


lemma compare_array_val:
  assumes "limbs a" "limbs b" "length a = 4" "length b = 4"
  shows "compare_array a b 4 = sgn (int (lval a) - int (lval b))"
  using compare_from_val[of a b 4] assms by (simp add: compare_array_def)

lemma sub_step:
  fixes x y c :: "64 word"
  assumes "unat x < 4294967296" "unat y < 4294967296" "unat c \<le> 1"
  defines "d \<equiv> (if x < y + c then 1 else 0 :: 64 word)"
  shows "unat (x + push_bit 32 d - y - c) + unat y + unat c = unat x + 4294967296 * unat d"
    "unat (x + push_bit 32 d - y - c) < 4294967296" "unat d \<le> 1"
proof -
  have yc: "unat (y + c) = unat y + unat c" using assms by (simp add: unat_plus_small)
  have d: "d = (if unat x < unat y + unat c then 1 else 0)" by (simp add: d_def word_less_nat_alt yc)
  have "unat (push_bit 32 d) = 4294967296 * unat d" by (simp add: d push_bit_eq_mult)
  then have xp: "unat (x + push_bit 32 d) = unat x + 4294967296 * unat d"
    using assms(1) by (subst unat_plus_small) (simp_all add: d)
  have e: "x + push_bit 32 d - y - c = x + push_bit 32 d - (y + c)" by simp
  have "y + c \<le> x + push_bit 32 d"
    unfolding word_le_nat_alt xp yc using assms(1-3) by (simp add: d)
  then have "unat (x + push_bit 32 d - y - c) = unat x + 4294967296 * unat d - (unat y + unat c)"
    unfolding e by (simp add: unat_sub xp yc)
  then show "unat (x + push_bit 32 d - y - c) + unat y + unat c = unat x + 4294967296 * unat d"
    "unat (x + push_bit 32 d - y - c) < 4294967296" "unat d \<le> 1"
    using assms(1-3) by (auto simp: d)
qed

lemma two32: "(2::nat) ^ 32 = 4294967296" by simp

lemma sub_limbs_val:
  assumes "limbs xs" "limbs ys" "length xs = length ys" "unat c \<le> 1" "sub_limbs xs ys c = (zs, d)"
  shows "limbs zs \<and> length zs = length xs \<and> unat d \<le> 1 \<and>
    lval zs + lval ys + unat c = lval xs + 2 ^ (32 * length xs) * unat d"
  using assms
proof (induction xs ys c arbitrary: zs rule: sub_limbs.induct)
  case (1 x xs y ys c)
  define e where "e = (if x < y + c then 1 else 0 :: 64 word)"
  obtain us f where f: "sub_limbs xs ys e = (us, f)" by (metis surj_pair)
  then have zs: "zs = (x + push_bit 32 e - y - c) # us" "d = f"
    using "1.prems"(5) by (simp_all add: e_def[symmetric] Let_def)
  have b: "unat x < 4294967296" "unat y < 4294967296" "unat c \<le> 1" using "1.prems" by simp_all
  note st = sub_step[OF b, folded e_def]
  have "limbs us \<and> length us = length xs \<and> unat f \<le> 1 \<and>
    lval us + lval ys + unat e = lval xs + 2 ^ (32 * length xs) * unat f"
    using "1.IH"[OF e_def, of us] "1.prems"(1-3) st(3) f zs(2) by simp
  moreover have "2 ^ (32 * length (x # xs)) * unat f = 4294967296 * (2 ^ (32 * length xs) * unat f)"
    by (simp add: power_add)
  ultimately show ?case using st two32 unfolding zs by (intro conjI; simp only: lval.simps limbs_simps list.size; (elim conjE)?; (simp | linarith))
qed simp_all

section \<open>Rounding\<close>

lemma fl_exact:
  assumes "m < 2 ^ 53"
  shows "fl (of_nat m / 2 ^ 32) = of_nat m / 2 ^ 32"
proof (cases "m = 0")
  case True
  then show ?thesis by (simp add: fl_def)
next
  case False
  define x where "x = (of_nat m / 2 ^ 32 :: rat)"
  define s where "s = 52 - fl_exp x"
  have x: "0 < x" "\<bar>x\<bar> = x" "sgn x = 1" "x \<noteq> 0" using False by (simp_all add: x_def)
  have xl: "x < 2097152"
  proof -
    have "of_nat m < (of_nat (2 ^ 53) :: rat)" using assms of_nat_less_iff by blast
    then show ?thesis unfolding x_def by simp
  qed
  have "32 \<le> s"
  proof (cases "1 \<le> x")
    case True
    have "\<lfloor>x\<rfloor> < 2 ^ 21" using xl by (simp add: floor_less_iff)
    then have "bitlen \<lfloor>x\<rfloor> \<le> 21"
      using bitlen_le_iff_power[of "\<lfloor>x\<rfloor>" 21] True by simp
    then show ?thesis using True by (simp add: s_def fl_exp_def)
  next
    case False
    then show ?thesis using bitlen_nonneg[of "\<lceil>1 / x\<rceil> - 1"] by (simp add: s_def fl_exp_def)
  qed
  then obtain t where t: "s = 32 + int t" by (metis zle_iff_zadd)
  have p: "(2::rat) powi s = 2 ^ 32 * 2 ^ t" unfolding t by (simp add: power_int_add)
  have "x * 2 powi s = of_int (int (m * 2 ^ t))" unfolding p x_def by simp
  then have "round_even (x * 2 powi s) = int (m * 2 ^ t)" by (simp only: round_even_def floor_of_int Let_def) simp
  then have "fl x = of_int (int (m * 2 ^ t)) * 2 powi (- s)"
    using x unfolding fl_def Let_def by (simp add: s_def)
  also have "\<dots> = x" unfolding power_int_minus p x_def by simp
  finally show ?thesis unfolding x_def .
qed

lemma shift4:
  assumes "limbs a" "length a = 4" "lval a < 2 ^ 127"
  shows "\<exists>a'. shift_limbs a 0 = (a', 0) \<and> limbs a' \<and> length a' = 4 \<and> lval a' = 2 * lval a"
proof -
  obtain a' c where a': "shift_limbs a 0 = (a', c)" by (metis surj_pair)
  have s: "limbs a' \<and> length a' = length a \<and> unat c \<le> 1 \<and>
      lval a' + 2 ^ (32 * length a) * unat c = 2 * lval a + unat (0 :: 64 word)"
    by (rule shift_limbs_val[OF assms(1) _ a']) simp
  moreover have "unat c = 0"
    using s assms(2,3) by (cases "unat c = 0") simp_all
  ultimately show ?thesis using assms(2) a' by (auto simp: unat_eq_0)
qed

lemma sub4:
  assumes "limbs a" "limbs b" "length a = 4" "length b = 4" "lval b \<le> lval a"
  shows "\<exists>a'. sub_limbs a b 0 = (a', 0) \<and> limbs a' \<and> length a' = 4 \<and> lval a' = lval a - lval b"
proof -
  obtain a' d where a': "sub_limbs a b 0 = (a', d)" by (metis surj_pair)
  have s: "limbs a' \<and> length a' = length a \<and> unat d \<le> 1 \<and>
      lval a' + lval b + unat (0 :: 64 word) = lval a + 2 ^ (32 * length a) * unat d"
    by (rule sub_limbs_val[OF assms(1,2) _ _ a']) (simp_all add: assms)
  have l: "lval a' < 2 ^ 128" using lval_less[of a'] s assms(3) by simp
  have "unat d = 0" using s l assms(3,5) by (cases "unat d = 0") simp_all
  then show ?thesis using s assms(3) a' by (auto simp: unat_eq_0)
qed

lemma div_bits_val:
  assumes "limbs a" "limbs b" "length a = 4" "length b = 4" "lval a < lval b" "lval b < 2 ^ 127"
    and "(m + 1) * 2 ^ i \<le> 2 ^ 53"
  shows "div_bits i a b (of_nat (m * 2 ^ i) / 2 ^ 32) =
    Some (of_nat (m * 2 ^ i + lval a * 2 ^ i div lval b) / 2 ^ 32)"
  using assms
proof (induction i arbitrary: a m)
  case 0
  then show ?case by simp
next
  case (Suc i)
  obtain a' where a': "shift_limbs a 0 = (a', 0)" and sh: "limbs a'" "length a' = 4" "lval a' = 2 * lval a"
    using shift4[OF Suc.prems(1,3)] Suc.prems(5,6) by auto
  have cmp: "compare_array a' b 4 = sgn (int (2 * lval a) - int (lval b))"
    using compare_array_val[OF sh(1) Suc.prems(2) sh(2) Suc.prems(4)] sh(3) by simp
  show ?case
  proof (cases "lval b \<le> 2 * lval a")
    case True
    then obtain a'' where a'': "sub_limbs a' b 0 = (a'', 0)"
      and sb: "limbs a''" "length a'' = 4" "lval a'' = 2 * lval a - lval b"
      using sub4[OF sh(1) Suc.prems(2) sh(2) Suc.prems(4)] sh(3) by auto
    have e: "(of_nat (m * 2 ^ Suc i) / 2 ^ 32 + 2 powi (int i - 32) :: rat) = of_nat ((2 * m + 1) * 2 ^ i) / 2 ^ 32"
      by (simp add: power_int_diff add_divide_distrib algebra_simps)
    have lt: "(2 * m + 1) * 2 ^ i < 2 ^ 53"
    proof -
      have "(2 * m + 1) * 2 ^ i < (m + 1) * 2 ^ Suc i" by simp
      then show ?thesis using Suc.prems(7) by linarith
    qed
    have r: "fl (of_nat (m * 2 ^ Suc i) / 2 ^ 32 + 2 powi (int i - 32)) =
        of_nat ((2 * m + 1) * 2 ^ i) / 2 ^ 32"
      unfolding e by (rule fl_exact[OF lt])
    have q: "lval a * 2 ^ Suc i div lval b = 2 ^ i + (2 * lval a - lval b) * 2 ^ i div lval b"
    proof -
      have "lval a * 2 ^ Suc i = 2 ^ i * lval b + (2 * lval a - lval b) * 2 ^ i"
        using True by (simp add: algebra_simps flip: add_mult_distrib2)
      then show ?thesis using Suc.prems(5) by simp
    qed
    have "div_bits i a'' b (of_nat ((2 * m + 1) * 2 ^ i) / 2 ^ 32) =
        Some (of_nat ((2 * m + 1) * 2 ^ i + (2 * lval a - lval b) * 2 ^ i div lval b) / 2 ^ 32)"
      using Suc.IH[OF sb(1) Suc.prems(2) sb(2) Suc.prems(4) _ Suc.prems(6), of "2 * m + 1"] sb(3) Suc.prems(5,7)
      by simp
    then show ?thesis
      unfolding div_bits.simps a' split Let_def cmp a'' r q
      using True by (auto simp: sgn_if algebra_simps)
  next
    case False
    have "lval a * 2 ^ Suc i div lval b = 2 * lval a * 2 ^ i div lval b" by (simp add: mult.commute mult.left_commute)
    moreover have "div_bits i a' b (of_nat ((2 * m) * 2 ^ i) / 2 ^ 32) =
        Some (of_nat ((2 * m) * 2 ^ i + 2 * lval a * 2 ^ i div lval b) / 2 ^ 32)"
      using Suc.IH[OF sh(1) Suc.prems(2) sh(2) Suc.prems(4) _ Suc.prems(6), of "2 * m"] sh(3) Suc.prems(7) False
      by simp
    moreover have "m * 2 ^ Suc i = (2 * m) * 2 ^ i" by simp
    ultimately show ?thesis
      unfolding div_bits.simps a' split Let_def cmp using False by (simp add: sgn_if)
  qed
qed


lemma scale_up_val:
  assumes "limbs a" "limbs b" "length a = 4" "length b = 4" "lval a < 2 ^ 96" "0 < lval b" "lval b < 2 ^ 97"
  shows "\<exists>b' j. scale_up a b k = Some (b', k + j) \<and> limbs b' \<and> length b' = 4 \<and>
    lval b' = 2 ^ j * lval b \<and> lval a \<le> lval b' \<and> lval b' < 2 ^ 97 \<and> (0 < j \<longrightarrow> lval b' < 2 * lval a)"
  using assms(2,4,6,7)
proof (induction "lval a - lval b" arbitrary: b k rule: less_induct)
  case less
  note b = less.prems
  have cmp: "compare_array a b 4 = sgn (int (lval a) - int (lval b))"
    using compare_array_val assms b by blast
  show ?case
  proof (cases "lval b < lval a")
    case False
    then have "scale_up a b k = Some (b, k)" using cmp by (subst scale_up.simps) (simp add: sgn_if)
    then show ?thesis using b False by (intro exI[of _ b] exI[of _ 0]) simp
  next
    case True
    obtain b' where b': "shift_limbs b 0 = (b', 0)" and sh: "limbs b'" "length b' = 4" "lval b' = 2 * lval b"
      using shift4[OF b(1,2)] b(4) by auto
    have "scale_up a b k = scale_up a b' (Suc k)"
      using cmp True b' by (subst scale_up.simps) (simp add: sgn_if)
    moreover have "\<exists>b'' j. scale_up a b' (Suc k) = Some (b'', Suc k + j) \<and> limbs b'' \<and> length b'' = 4 \<and>
        lval b'' = 2 ^ j * lval b' \<and> lval a \<le> lval b'' \<and> lval b'' < 2 ^ 97 \<and> (0 < j \<longrightarrow> lval b'' < 2 * lval a)"
      using sh True b(3) assms(5) by (intro less.hyps) simp_all
    then obtain b'' j where "scale_up a b' (Suc k) = Some (b'', Suc k + j)" "limbs b''" "length b'' = 4"
      "lval b'' = 2 ^ j * lval b'" "lval a \<le> lval b''" "lval b'' < 2 ^ 97" "0 < j \<longrightarrow> lval b'' < 2 * lval a" by blast
    ultimately show ?thesis
      using sh(3) True by (intro exI[of _ b''] exI[of _ "Suc j"]) (cases j, auto)
  qed
qed

text \<open>A zero divisor is doubled for ever.\<close>

lemma scale_up_zero:
  assumes "scale_up a b k = Some r" "limbs a" "limbs b" "length a = 4" "length b = 4" "0 < lval a" "lval b = 0"
  shows False
proof -
  have "limbs a \<longrightarrow> limbs b \<longrightarrow> length a = 4 \<longrightarrow> length b = 4 \<longrightarrow> 0 < lval a \<longrightarrow> lval b = 0 \<longrightarrow> False"
  proof (rule scale_up.raw_induct[of "\<lambda>a b k r. limbs a \<longrightarrow> limbs b \<longrightarrow> length a = 4 \<longrightarrow> length b = 4 \<longrightarrow> 0 < lval a \<longrightarrow> lval b = 0 \<longrightarrow> False", OF _ assms(1)], intro impI)
    fix f a b k r
    assume IH: "\<And>a b k y. f a b k = Some y \<Longrightarrow> limbs a \<longrightarrow> limbs b \<longrightarrow> length a = 4 \<longrightarrow> length b = 4 \<longrightarrow>
        0 < lval a \<longrightarrow> lval b = 0 \<longrightarrow> False"
      and e: "(if 0 < compare_array a b 4 then let (b', carry_bit) = shift_limbs b 0 in
          if carry_bit = 0 then f a b' (Suc k) else None else Some (b, k)) = Some r"
      and h: "limbs a" "limbs b" "length a = 4" "length b = 4" "0 < lval a" "lval b = 0"
    have "compare_array a b 4 = 1" using compare_array_val[OF h(1-4)] h(5,6) by simp
    moreover obtain b' c where b': "shift_limbs b 0 = (b', c)" by (metis surj_pair)
    ultimately have "c = 0" "f a b' (Suc k) = Some r" using e by (auto split: if_splits)
    moreover have "limbs b' \<and> length b' = length b \<and> unat c \<le> 1 \<and>
        lval b' + 2 ^ (32 * length b) * unat c = 2 * lval b + unat (0 :: 64 word)"
      by (rule shift_limbs_val[OF h(2) _ b']) simp
    ultimately show False using IH[of a b' "Suc k" r] h by simp
  qed
  then show False using assms by simp
qed

lemma div_limbs: "limbs [limb0 t, limb1 t, limb2 t, 0]" "lval [limb0 t, limb1 t, limb2 t, 0] = usval t"
  using limbs_less[of t] by (simp_all add: usval_limbs)

lemma uscaledns_div_runs:
  assumes "usval t2 \<noteq> 0" "usval t1 < 2 ^ 21 * usval t2"
  shows "uscaledns_div t1 t2 = Some (of_nat (usval t1 * 2 ^ 32 div usval t2) / 2 ^ 32)"
proof -
  let ?a = "[limb0 t1, limb1 t1, limb2 t1, 0]" and ?b = "[limb0 t2, limb1 t2, limb2 t2, 0]"
  obtain b k where b: "scale_up ?a ?b 0 = Some (b, k)" "limbs b" "length b = 4"
    "lval b = 2 ^ k * usval t2" "usval t1 \<le> lval b" "lval b < 2 ^ 97" "0 < k \<longrightarrow> lval b < 2 * usval t1"
    using scale_up_val[of ?a ?b 0] usval_less[of t1] usval_less[of t2] assms(1) by (auto simp only: div_limbs) (auto)
  have cmp: "compare_array ?a b 4 = sgn (int (usval t1) - int (lval b))"
    using compare_array_val[OF div_limbs(1) b(2) _ b(3)] by (simp only: div_limbs) simp
  have k: "k \<le> 21"
  proof (rule ccontr)
    assume "\<not> k \<le> 21"
    then have "2 ^ 22 * usval t2 \<le> lval b" unfolding b(4) by (intro mult_le_mono1 power_increasing) simp_all
    then show False using b(7) assms(2) \<open>\<not> k \<le> 21\<close> by simp
  qed
  show ?thesis
  proof (cases "usval t1 = lval b")
    case True
    then have "uscaledns_div t1 t2 = Some (2 ^ k)"
      unfolding uscaledns_div_def Let_def b(1) using cmp by simp
    then show ?thesis using True b(4) assms(1) by (simp add: mult.assoc mult.commute[of _ "usval t2"])
  next
    case False
    have "div_bits (k + 32) ?a b (of_nat (0 * 2 ^ (k + 32)) / 2 ^ 32) =
        Some (of_nat (0 * 2 ^ (k + 32) + lval ?a * 2 ^ (k + 32) div lval b) / 2 ^ 32)"
    proof (rule div_bits_val[OF div_limbs(1) b(2) _ b(3)])
      have "(2::nat) ^ (k + 32) \<le> 2 ^ 53" using k by (intro power_increasing) simp_all
      then show "(0 + 1) * 2 ^ (k + 32) \<le> (2::nat) ^ 53" by simp
    qed (use False b(5,6) in \<open>simp_all only: div_limbs, simp_all\<close>)
    moreover have "usval t1 * 2 ^ (k + 32) div lval b = usval t1 * 2 ^ 32 div usval t2"
      unfolding b(4) power_add by (simp add: mult.assoc mult.left_commute[of _ "2 ^ k"])
    ultimately have "div_bits (k + 32) ?a b 0 = Some (of_nat (usval t1 * 2 ^ 32 div usval t2) / 2 ^ 32)"
      by (simp only: div_limbs mult_0 add_0) simp
    then show ?thesis
      unfolding uscaledns_div_def Let_def b(1) using cmp False by (simp add: sgn_if)
  qed
qed

text \<open>
  C33. \<open>uscaledns_div\<close>, the long division by shifting and subtracting in limbs of 32 bits followed by a
  conversion to \<open>double\<close>, computes the quotient of the two times, cut off behind 32 binary places,
  whenever it is below 2097152; no step of it rounds.
\<close>

theorem uscaledns_div_correct:
  assumes "usval t2 \<noteq> 0" "usval t1 < 2 ^ 21 * usval t2"
  shows "uscaledns_div t1 t2 = Some (of_nat (usval t1 * 2 ^ 32 div usval t2) / 2 ^ 32)"
  by (rule uscaledns_div_runs[OF assms])


lemma div_bits_total:
  assumes "limbs a" "limbs b" "length a = 4" "length b = 4" "lval a < lval b" "lval b < 2 ^ 127"
  shows "div_bits i a b r \<noteq> None"
  using assms
proof (induction i arbitrary: a r)
  case (Suc i)
  obtain a' where a': "shift_limbs a 0 = (a', 0)" and sh: "limbs a'" "length a' = 4" "lval a' = 2 * lval a"
    using shift4[OF Suc.prems(1,3)] Suc.prems(5,6) by auto
  have cmp: "compare_array a' b 4 = sgn (int (2 * lval a) - int (lval b))"
    using compare_array_val[OF sh(1) Suc.prems(2) sh(2) Suc.prems(4)] sh(3) by simp
  show ?case
  proof (cases "lval b \<le> 2 * lval a")
    case True
    then obtain a'' where a'': "sub_limbs a' b 0 = (a'', 0)"
      and sb: "limbs a''" "length a'' = 4" "lval a'' = 2 * lval a - lval b"
      using sub4[OF sh(1) Suc.prems(2) sh(2) Suc.prems(4)] sh(3) by auto
    have "div_bits i a'' b (fl (r + 2 powi (int i - 32))) \<noteq> None"
      using Suc.IH[OF sb(1) Suc.prems(2) sb(2) Suc.prems(4) _ Suc.prems(6)] sb(3) Suc.prems(5) by simp
    then show ?thesis using a' a'' cmp True by (simp add: Let_def sgn_if)
  next
    case False
    then have "div_bits i a' b r \<noteq> None"
      using Suc.IH[OF sh(1) Suc.prems(2) sh(2) Suc.prems(4) _ Suc.prems(6)] sh(3) by simp
    then show ?thesis using False a' cmp by (simp add: sgn_if)
  qed
qed simp

theorem uscaledns_div_correct_witness:
  "uscaledns_div \<lparr>subns = 0, nsec = 1500000000, nsec_msb = 0\<rparr> \<lparr>subns = 0, nsec = 1000000000, nsec_msb = 0\<rparr> = Some (3 / 2)"
  using uscaledns_div_correct[of "\<lparr>subns = 0, nsec = 1000000000, nsec_msb = 0\<rparr>" "\<lparr>subns = 0, nsec = 1500000000, nsec_msb = 0\<rparr>"]
  by (simp add: usval_def)

text \<open>
  \<open>uscaledns_div\<close> returns exactly when the divisor is not zero or the dividend is: a zero divisor is
  doubled for ever by the loop that looks for the first power of two.
\<close>

theorem uscaledns_div_returns: "uscaledns_div t1 t2 \<noteq> None \<longleftrightarrow> usval t2 \<noteq> 0 \<or> usval t1 = 0"
proof -
  let ?a = "[limb0 t1, limb1 t1, limb2 t1, 0]" and ?b = "[limb0 t2, limb1 t2, limb2 t2, 0]"
  show ?thesis
  proof (cases "usval t2 = 0")
    case z: True
    show ?thesis
    proof (cases "usval t1 = 0")
      case True
      have c: "compare_array ?a ?b 4 = 0"
        using compare_array_val[OF div_limbs(1) div_limbs(1)] z True by (simp only: div_limbs) simp
      then have "scale_up ?a ?b 0 = Some (?b, 0)" by (subst scale_up.simps) simp
      then have "uscaledns_div t1 t2 = Some 1" using c unfolding uscaledns_div_def Let_def by simp
      then show ?thesis using True by simp
    next
      case False
      then have "scale_up ?a ?b 0 \<noteq> Some r" for r
        using scale_up_zero[of ?a ?b 0 r] z by (auto simp only: div_limbs) auto
      then have "scale_up ?a ?b 0 = None" by (cases "scale_up ?a ?b 0") blast+
      then show ?thesis using z False unfolding uscaledns_div_def Let_def by simp
    qed
  next
    case False
    obtain b k where b: "scale_up ?a ?b 0 = Some (b, k)" "limbs b" "length b = 4"
      "usval t1 \<le> lval b" "lval b < 2 ^ 97"
      using scale_up_val[of ?a ?b 0] usval_less[of t1] usval_less[of t2] False by (auto simp only: div_limbs) (auto)
    have cmp: "compare_array ?a b 4 = sgn (int (usval t1) - int (lval b))"
      using compare_array_val[OF div_limbs(1) b(2) _ b(3)] by (simp only: div_limbs) simp
    have "div_bits (k + 32) ?a b 0 \<noteq> None" if "usval t1 < lval b"
      using div_bits_total[OF div_limbs(1) b(2) _ b(3), of t1] b(5) that by (simp only: div_limbs) simp
    then show ?thesis
      using False b(1,4) cmp unfolding uscaledns_div_def Let_def by (auto simp: sgn_if)
  qed
qed

theorem uscaledns_div_returns_witness:
  "uscaledns_div \<lparr>subns = 0, nsec = 1, nsec_msb = 0\<rparr> \<lparr>subns = 0, nsec = 0, nsec_msb = 0\<rparr> = None \<and>
   uscaledns_div \<lparr>subns = 0, nsec = 1, nsec_msb = 0\<rparr> \<lparr>subns = 1, nsec = 0, nsec_msb = 0\<rparr> \<noteq> None"
  using uscaledns_div_returns[of "\<lparr>subns = 0, nsec = 1, nsec_msb = 0\<rparr>" "\<lparr>subns = 0, nsec = 0, nsec_msb = 0\<rparr>"]
    uscaledns_div_returns[of "\<lparr>subns = 0, nsec = 1, nsec_msb = 0\<rparr>" "\<lparr>subns = 1, nsec = 0, nsec_msb = 0\<rparr>"]
  by (simp add: usval_def)

section \<open>Conversions\<close>

lemma or_push_bit:
  assumes "(n + 1) * 2 ^ Suc i \<le> 2 ^ LENGTH('a)"
  shows "(of_nat (n * 2 ^ Suc i) :: 'a::len word) OR push_bit i 1 = of_nat ((2 * n + 1) * 2 ^ i)"
proof -
  have e: "(of_nat (n * 2 ^ Suc i) :: 'a word) = push_bit (Suc i) (of_nat n)"
    by (simp add: push_bit_eq_mult mult.commute)
  have "(of_nat (n * 2 ^ Suc i) :: 'a word) + push_bit i 1 = of_nat (n * 2 ^ Suc i) OR push_bit i 1"
    unfolding e by (intro disjunctive_add) (simp only: bit_push_bit_iff bit_1_iff, auto)
  moreover have "(of_nat (n * 2 ^ Suc i) :: 'a word) + push_bit i 1 = of_nat ((2 * n + 1) * 2 ^ i)"
    by (simp add: push_bit_eq_mult algebra_simps)
  ultimately show ?thesis by simp
qed

lemma frac_bits_val:
  assumes "0 \<le> r" "r \<le> 1" "(n + 1) * 2 ^ i \<le> 2 ^ LENGTH('a)"
  shows "\<exists>q f. frac_bits i (of_nat (n * 2 ^ i) :: 'a::len word) r = (of_nat (n * 2 ^ i + q), f) \<and>
    q < 2 ^ i \<and> r * 2 ^ i = of_nat q + f \<and> 0 \<le> f \<and> f \<le> 1"
  using assms
proof (induction i arbitrary: r n)
  case 0
  then show ?case by auto
next
  case (Suc i)
  show ?case
  proof (cases "r * 2 > 1")
    case True
    have le: "(2 * n + 1 + 1) * 2 ^ i \<le> 2 ^ LENGTH('a)" using Suc.prems(3) by (simp add: algebra_simps)
    obtain q f where q: "frac_bits i (of_nat ((2 * n + 1) * 2 ^ i) :: 'a word) (r * 2 - 1) =
        (of_nat ((2 * n + 1) * 2 ^ i + q), f)" "q < 2 ^ i" "(r * 2 - 1) * 2 ^ i = of_nat q + f" "0 \<le> f" "f \<le> 1"
      using Suc.IH[of "r * 2 - 1" "2 * n + 1"] Suc.prems(2) True le by auto
    have e: "(2 * n + 1) * 2 ^ i + q = n * 2 ^ Suc i + (2 ^ i + q)" by (simp add: algebra_simps)
    have "frac_bits (Suc i) (of_nat (n * 2 ^ Suc i) :: 'a word) r = (of_nat (n * 2 ^ Suc i + (2 ^ i + q)), f)"
      unfolding frac_bits.simps or_push_bit[OF Suc.prems(3)] if_P[OF True] q(1) e ..
    moreover have "r * 2 ^ Suc i = of_nat (2 ^ i + q) + f" using q(3) by (simp add: algebra_simps)
    ultimately show ?thesis using q(2,4,5) by (intro exI[of _ "2 ^ i + q"] exI[of _ f]) simp
  next
    case False
    have le: "(2 * n + 1) * 2 ^ i \<le> 2 ^ LENGTH('a)" using Suc.prems(3) by (simp add: algebra_simps)
    have e: "n * 2 ^ Suc i = 2 * n * 2 ^ i" by simp
    obtain q f where "frac_bits i (of_nat (2 * n * 2 ^ i) :: 'a word) (r * 2) = (of_nat (2 * n * 2 ^ i + q), f)"
      "q < 2 ^ i" "r * 2 * 2 ^ i = of_nat q + f" "0 \<le> f" "f \<le> 1"
      using Suc.IH[of "r * 2" "2 * n"] Suc.prems(1) False le by auto
    then show ?thesis
      unfolding frac_bits.simps if_not_P[OF False] e by (intro exI[of _ q] exI[of _ f]) simp
  qed
qed

lemma usval_uscaledns_double:
  assumes "0 \<le> r" "r < 2 ^ 64 - 1"
  shows "\<exists>d. uscaledns_double r = Some d \<and> usval d = nat \<lceil>r * 2 ^ 16 - 1 / 2\<rceil>"
proof -
  have in_range: "\<not> (r < 0 \<or> r \<ge> 2 ^ 64)" using assms by simp
  let ?n = "nat \<lfloor>r\<rfloor>" and ?g = "r - of_int \<lfloor>r\<rfloor>"
  have n: "?n < 18446744073709551615" "of_int \<lfloor>r\<rfloor> = (of_nat ?n :: rat)"
    using assms by (simp_all add: nat_less_iff floor_less_iff)
  obtain q f where q: "frac_bits 16 (of_nat (0 * 2 ^ 16) :: 16 word) ?g = (of_nat (0 * 2 ^ 16 + q), f)"
    "q < 2 ^ 16" "?g * 2 ^ 16 = of_nat q + f" "0 \<le> f" "f \<le> 1"
    using frac_bits_val[of ?g 0 16, where 'a = 16] by (auto simp: frac_lt_1 less_imp_le simp flip: frac_def)
  have w: "word_of_int \<lfloor>r\<rfloor> = (of_nat ?n :: 64 word)" using assms(1) by simp
  have m: "\<lfloor>rat_of_int \<lfloor>r\<rfloor> / 2 ^ 64\<rfloor> = 0"
    using n by (intro floor_unique) simp_all
  have un: "unat (of_nat ?n :: 64 word) = ?n" "unat (of_nat ?n + 1 :: 64 word) = ?n + 1"
  proof -
    show u: "unat (of_nat ?n :: 64 word) = ?n" using n(1) by (simp add: unsigned_of_nat take_bit_nat_eq_self)
    show "unat (of_nat ?n + 1 :: 64 word) = ?n + 1" using n(1) u by (subst unat_plus_small) simp_all
  qed
  have uq: "unat (of_nat q :: 16 word) = q" using q(2) by (simp add: unsigned_of_nat take_bit_nat_eq_self)
  have "r * 2 ^ 16 = of_nat (65536 * ?n + q) + f" using q(3) n(2) by (simp add: algebra_simps)
  then have "\<lceil>r * 2 ^ 16 - 1 / 2\<rceil> = int (65536 * ?n + q + (if f * 2 > 1 then 1 else 0))"
    using q(4,5) by (intro ceiling_unique) auto
  then have c: "nat \<lceil>r * 2 ^ 16 - 1 / 2\<rceil> = 65536 * ?n + q + (if f * 2 > 1 then 1 else 0)"
    by (simp only: nat_int)
  have nn: "of_nat ?n \<noteq> (0xFFFFFFFFFFFFFFFF :: 64 word)" using un(1) n(1) by (auto simp: word_unat_eq_iff)
  have qq: "of_nat q = (0xFFFF :: 16 word) \<longleftrightarrow> q = 65535" using uq by (auto simp: word_unat_eq_iff)
  have uq1: "unat (of_nat q + 1 :: 16 word) = q + 1" if "q \<noteq> 65535"
    using q(2) uq that by (subst unat_plus_small) simp_all
  show ?thesis
    unfolding c uscaledns_double_def if_not_P[OF in_range] Let_def w m using q(1) un uq uq1 nn
    by (auto simp: usval_nested qq)
qed

end
