(* ===== verification/PortAnnounceInfo_Props.thy ===== *)
theory PortAnnounceInfo_Props
  imports PortAnnounceInfo PtpArith_Props
begin

text \<open>
  The PortAnnounceInformation machine keeps its port well formed, returns from every well-formed state,
  and adopts a superior announcement.
\<close>

section \<open>Well-formedness and rank\<close>

definition good_announce :: "PTPMsgAnnounce \<Rightarrow> bool" where
  "good_announce a \<longleftrightarrow> unat (lengthField (pathTraceTLV a)) \<le> 64 \<and> length (pathSequence (pathTraceTLV a)) = 8 \<and>
     0 \<le> sint (logMessageInterval (ann_head a)) \<and> sint (logMessageInterval (ann_head a)) < 31"

definition holds_announce :: "PaiCtx \<Rightarrow> bool" where
  "holds_announce c \<longleftrightarrow> (\<exists>a. rcvdAnnouncePtr (sm c) = Live a \<and> good_announce a)"

definition inst_wf :: "PerPTPInstanceGlobal \<Rightarrow> bool" where
  "inst_wf g \<longleftrightarrow> length (selected g) = Suc N_PORTS \<and> length (reselect g) = Suc N_PORTS \<and>
     length (selectedState g) = Suc N_PORTS \<and> length (pathTrace g) = MAX_PATH_TRACE_N"

definition port_wf :: "PerPortGlobal \<Rightarrow> bool" where
  "port_wf p \<longleftrightarrow> unat (thisPort p) \<le> N_PORTS \<and> length (annPathSequence p) = MAX_PATH_TRACE_N \<and>
     0 \<le> sint (initialLogAnnounceInterval p) \<and> sint (initialLogAnnounceInterval p) < 31"

definition pai_wf :: "PaiCtx \<Rightarrow> bool" where
  "pai_wf c \<longleftrightarrow> inst_wf (inst c) \<and> port_wf (port c) \<and>
     (rcvdMsg (port c) \<or> pai_state (sm c) \<in> {PAI_RECEIVE, PAI_REPEATED_MASTER_PORT, PAI_SUPERIOR_MASTER_PORT} \<longrightarrow>
      holds_announce c)"

definition pai_rank :: "PaiCtx \<Rightarrow> nat" where
  "pai_rank c =
     (let entered = pai_last_state (sm c) \<noteq> pai_state (sm c); u = updtInfo (port c) in
      case pai_state (sm c) of
        PAI_BEFORE_INIT \<Rightarrow> 0 | PAI_INIT \<Rightarrow> 120 | PAI_DISABLED \<Rightarrow> 100
      | PAI_AGED \<Rightarrow> if entered then 1 else 75
      | PAI_UPDATE \<Rightarrow> if entered then 70 else 150
      | PAI_CURRENT \<Rightarrow> if u then 80 else if rcvdMsg (port c) then 64 else 4
      | PAI_RECEIVE \<Rightarrow> if u then 95 else 30
      | _ \<Rightarrow> if \<not> entered then 150 else if u then 90 else 29)"

definition pai_rest :: "PaiCtx \<Rightarrow> bool" where
  "pai_rest c \<longleftrightarrow> pai_last_state (sm c) = pai_state (sm c) \<and>
     pai_state (sm c) \<in> {PAI_BEFORE_INIT, PAI_DISABLED, PAI_AGED, PAI_CURRENT, PAI_RECEIVE}"

lemma ok_copy_identities:
  assumes "length src = 8" "length dst = 8" "n \<le> 64"
  shows "ok (copy_identities n src dst) (\<lambda>r. length r = 8)"
proof -
  have "n div 8 \<le> 8" using assms(3) by simp
  moreover have "n div 8 < 8" if "n mod 8 \<noteq> 0" using assms(3) that by presburger
  ultimately show ?thesis using assms by (auto simp: copy_identities_def Let_def)
qed

lemma ok_request_reselect:
  assumes "inst_wf (inst c)" "port_wf (port c)"
  shows "ok (request_reselect c) (\<lambda>d. inst_wf (inst d) \<and> port d = port c \<and> sm d = sm c \<and>
    inst d = (inst c)\<lparr>reselect := (reselect (inst c))[pidx c := True], selected := (selected (inst c))[pidx c := False]\<rparr>)"
  using assms by (simp add: request_reselect_def inst_wf_def port_wf_def ok_wr)

lemma ok_pai_disabled_action:
  assumes "inst_wf (inst c)" "port_wf (port c)"
  shows "ok (pai_disabled_action ts c) (\<lambda>d. inst_wf (inst d) \<and> port_wf (port d) \<and> \<not> rcvdMsg (port d) \<and>
    pai_state (sm d) = pai_state (sm c) \<and> pai_last_state (sm d) = pai_last_state (sm c))"
  using assms unfolding pai_disabled_action_def
  by (intro ok_weaken[OF ok_request_reselect]) (auto simp: port_wf_def)

lemma ok_pai_aged_action:
  assumes "inst_wf (inst c)" "port_wf (port c)"
  shows "ok (pai_aged_action c) (\<lambda>d. inst_wf (inst d) \<and> port_wf (port d) \<and> sm d = sm c \<and>
    rcvdMsg (port d) = rcvdMsg (port c) \<and> pidx d = pidx c \<and> \<not> selected (inst d) ! pidx c)"
  using assms unfolding pai_aged_action_def ok_bind
  by (intro ok_weaken[OF ok_request_reselect]) (auto simp: port_wf_def inst_wf_def)

lemma ok_rcvInfo:
  assumes "inst_wf (inst c)" "port_wf (port c)" "holds_announce c"
  shows "ok (rcvInfo c) (\<lambda>(d, info). inst_wf (inst d) \<and> port d = port c \<and> rcvdAnnouncePtr (sm d) = rcvdAnnouncePtr (sm c) \<and>
    pai_state (sm d) = pai_state (sm c) \<and> pai_last_state (sm d) = pai_last_state (sm c))"
  using assms by (auto simp: rcvInfo_def Let_def holds_announce_def inst_wf_def port_wf_def ok_rd)

lemma ok_recordOtherAnnounceInfo:
  assumes "inst_wf (inst c)" "port_wf (port c)" "holds_announce c"
  shows "ok (recordOtherAnnounceInfo c) (\<lambda>d. inst_wf (inst d) \<and> port_wf (port d) \<and> sm d = sm c \<and>
    rcvdMsg (port d) = rcvdMsg (port c) \<and> updtInfo (port d) = updtInfo (port c) \<and>
    announceReceiptTimeout (port d) = announceReceiptTimeout (port c) \<and>
    initialLogAnnounceInterval (port d) = initialLogAnnounceInterval (port c))"
proof -
  obtain a where a: "rcvdAnnouncePtr (sm c) = Live a" "good_announce a"
    using assms(3) by (auto simp: holds_announce_def)
  have "ok (copy_identities (unat (lengthField (pathTraceTLV a))) (pathSequence (pathTraceTLV a)) (annPathSequence (port c)))
      (\<lambda>r. length r = 8)"
    using a(2) assms(2) by (intro ok_copy_identities) (simp_all add: good_announce_def port_wf_def)
  then show ?thesis
    unfolding recordOtherAnnounceInfo_def ok_bind a(1) Let_def using assms(1,2)
    by (auto intro!: ok_weaken simp: inst_wf_def port_wf_def)
qed

lemma ok_pai_repeated_action:
  assumes "inst_wf (inst c)" "port_wf (port c)" "holds_announce c"
  shows "ok (pai_repeated_action ts c) (\<lambda>d. inst_wf (inst d) \<and> port_wf (port d) \<and> \<not> rcvdMsg (port d) \<and>
    updtInfo (port d) = updtInfo (port c) \<and>
    pai_state (sm d) = pai_state (sm c) \<and> pai_last_state (sm d) = pai_last_state (sm c))"
  unfolding pai_repeated_action_def ok_bind Let_def
  using assms by (intro ok_weaken[OF ok_recordOtherAnnounceInfo])
    (auto simp: pai_forget_def holds_announce_def port_wf_def)

lemma ok_pai_superior_action:
  assumes "inst_wf (inst c)" "port_wf (port c)" "holds_announce c"
  shows "ok (pai_superior_action ts c) (\<lambda>d. inst_wf (inst d) \<and> port_wf (port d) \<and> \<not> rcvdMsg (port d) \<and>
    updtInfo (port d) = updtInfo (port c) \<and>
    pai_state (sm d) = pai_state (sm c) \<and> pai_last_state (sm d) = pai_last_state (sm c))"
proof -
  obtain a where a: "rcvdAnnouncePtr (sm c) = Live a" "good_announce a"
    using assms(3) by (auto simp: holds_announce_def)
  show ?thesis
    unfolding pai_superior_action_def ok_bind Let_def a(1) deref.simps ok_Some
    apply (rule ok_weaken[OF ok_recordOtherAnnounceInfo])
    using assms apply (simp_all add: holds_announce_def port_wf_def)[3]
    using a(2) apply (clarsimp simp: ok_shl1 good_announce_def)
    apply (simp add: port_wf_def)
    apply (rule ok_weaken[OF ok_request_reselect])
    apply (auto simp: pai_forget_def inst_wf_def port_wf_def)
    done
qed

interpretation pai: state_machine "pai_body t" pai_wf pai_rank pai_rest for t
proof
  fix c assume wf: "pai_wf c"
  note d = pai_body_def Let_def pai_goto_def
  show "ok (pai_body t c) (\<lambda>(d, changed). pai_wf d \<and> (if changed then pai_rank d < pai_rank c else pai_rest d))"
  proof (cases "pai_state (sm c)")
    case PAI_BEFORE_INIT
    then show ?thesis using wf by (simp add: d pai_wf_def pai_rest_def holds_announce_def)
  next
    case PAI_INIT
    then show ?thesis using wf by (simp add: d pai_wf_def pai_rank_def holds_announce_def)
  next
    case PAI_UPDATE
    then show ?thesis using wf by (auto simp add: d pai_wf_def pai_rank_def holds_announce_def pai_update_action_def port_wf_def)
  next
    case PAI_INFERIOR_MASTER_OR_OTHER_PORT
    then show ?thesis using wf by (auto simp add: d pai_wf_def pai_rank_def holds_announce_def pai_forget_def port_wf_def)
  next
    case PAI_CURRENT
    then show ?thesis using wf
      by (auto simp add: d pai_wf_def pai_rank_def pai_rest_def holds_announce_def pai_current_transition_def
        inst_wf_def port_wf_def ok_rd)
  next
    case PAI_DISABLED
    note st = this
    let ?c = "c\<lparr>sm := (sm c)\<lparr>pai_last_state := PAI_DISABLED\<rparr>\<rparr>"
    show ?thesis
    proof (cases "pai_last_state (sm c) = PAI_DISABLED")
      case True
      with st wf show ?thesis
        by (auto simp: d pai_wf_def pai_rank_def pai_rest_def pai_disabled_transition_def holds_announce_def)
    next
      case False
      obtain e where "pai_disabled_action t ?c = Some e" "inst_wf (inst e)" "port_wf (port e)" "\<not> rcvdMsg (port e)"
        "pai_state (sm e) = PAI_DISABLED" "pai_last_state (sm e) = PAI_DISABLED"
        using ok_pai_disabled_action[of ?c t] wf st by (auto simp: ok_iff pai_wf_def)
      with False st show ?thesis
        by (simp add: d pai_wf_def pai_rank_def pai_rest_def pai_disabled_transition_def)
    qed
  next
    case PAI_AGED
    note st = this
    let ?c = "c\<lparr>sm := (sm c)\<lparr>pai_last_state := PAI_AGED\<rparr>\<rparr>"
    show ?thesis
    proof (cases "pai_last_state (sm c) = PAI_AGED")
      case True
      with st wf show ?thesis
        by (auto simp: d pai_wf_def pai_rank_def pai_rest_def pai_aged_transition_def holds_announce_def ok_rd inst_wf_def port_wf_def)
    next
      case False
      obtain e where "pai_aged_action ?c = Some e" "inst_wf (inst e)" "port_wf (port e)" "sm e = sm ?c"
        "rcvdMsg (port e) = rcvdMsg (port c)" "\<not> selected (inst e) ! pidx e"
        using ok_pai_aged_action[of ?c] wf by (auto simp: ok_iff pai_wf_def)
      with False st wf show ?thesis
        by (auto simp: d pai_wf_def pai_rank_def pai_rest_def pai_aged_transition_def holds_announce_def ok_rd inst_wf_def port_wf_def)
    qed
  next
    case PAI_RECEIVE
    note st = this
    let ?c = "c\<lparr>sm := (sm c)\<lparr>pai_last_state := PAI_RECEIVE\<rparr>\<rparr>"
    have h: "holds_announce c" using wf st by (simp add: pai_wf_def)
    show ?thesis
    proof (cases "pai_last_state (sm c) = PAI_RECEIVE")
      case True
      with st wf show ?thesis
        by (auto simp: d pai_wf_def pai_rank_def pai_rest_def pai_receive_transition_def holds_announce_def split: BmcsRcvdInfo.splits)
    next
      case False
      obtain e info where "rcvInfo ?c = Some (e, info)" "inst_wf (inst e)" "port e = port c"
        "rcvdAnnouncePtr (sm e) = rcvdAnnouncePtr (sm c)" "pai_state (sm e) = PAI_RECEIVE" "pai_last_state (sm e) = PAI_RECEIVE"
        using ok_rcvInfo[of ?c] wf h st by (auto simp: ok_iff pai_wf_def holds_announce_def)
      with False st wf h show ?thesis
        by (auto simp: d pai_wf_def pai_rank_def pai_rest_def pai_receive_action_def pai_receive_transition_def
          holds_announce_def split: BmcsRcvdInfo.splits)
    qed
  next
    case PAI_REPEATED_MASTER_PORT
    note st = this
    let ?c = "c\<lparr>sm := (sm c)\<lparr>pai_last_state := PAI_REPEATED_MASTER_PORT\<rparr>\<rparr>"
    have h: "holds_announce ?c" using wf st by (simp add: pai_wf_def holds_announce_def)
    show ?thesis
    proof (cases "pai_last_state (sm c) = PAI_REPEATED_MASTER_PORT")
      case True
      with st wf show ?thesis
        by (auto simp: d pai_wf_def pai_rank_def holds_announce_def)
    next
      case False
      obtain e where "pai_repeated_action t ?c = Some e" "inst_wf (inst e)" "port_wf (port e)" "\<not> rcvdMsg (port e)"
        "updtInfo (port e) = updtInfo (port c)" "pai_last_state (sm e) = PAI_REPEATED_MASTER_PORT"
        using ok_pai_repeated_action[of ?c t] wf h st by (auto simp: ok_iff pai_wf_def)
      with False st show ?thesis
        by (simp add: d pai_wf_def pai_rank_def)
    qed
  next
    case PAI_SUPERIOR_MASTER_PORT
    note st = this
    let ?c = "c\<lparr>sm := (sm c)\<lparr>pai_last_state := PAI_SUPERIOR_MASTER_PORT\<rparr>\<rparr>"
    have h: "holds_announce ?c" using wf st by (simp add: pai_wf_def holds_announce_def)
    show ?thesis
    proof (cases "pai_last_state (sm c) = PAI_SUPERIOR_MASTER_PORT")
      case True
      with st wf show ?thesis
        by (auto simp: d pai_wf_def pai_rank_def holds_announce_def)
    next
      case False
      obtain e where "pai_superior_action t ?c = Some e" "inst_wf (inst e)" "port_wf (port e)" "\<not> rcvdMsg (port e)"
        "updtInfo (port e) = updtInfo (port c)" "pai_last_state (sm e) = PAI_SUPERIOR_MASTER_PORT"
        using ok_pai_superior_action[of ?c t] wf h st by (auto simp: ok_iff pai_wf_def)
      with False st show ?thesis
        by (simp add: d pai_wf_def pai_rank_def)
    qed
  qed
qed

section \<open>Runs\<close>

lemma pai_goto_all_state: "pai_wf c \<Longrightarrow> pai_wf (pai_goto (pai_all_state_transition c) c)"
  by (auto simp: pai_wf_def pai_goto_def pai_all_state_transition_def holds_announce_def Let_def)

lemma pai_run_ok: "pai_wf c \<Longrightarrow> ok (port_announce_information_sm_run t c) (\<lambda>d. pai_wf d \<and> pai_rest d)"
  unfolding port_announce_information_sm_run_def by (rule pai.loop_ok[OF pai_goto_all_state])

text \<open>A time limit of some nanoseconds from now lies in the future.\<close>

lemma timeout_later:
  assumes "usval t < 2 ^ 95" "n \<noteq> 0"
  shows "uscaledns_compare t (uscaledns_add t \<lparr>subns = 0, nsec = n, nsec_msb = 0\<rparr>) < 0"
proof -
  let ?i = "\<lparr>subns = 0, nsec = n, nsec_msb = 0\<rparr>"
  have i: "usval ?i = 65536 * unat n" "unat n < 18446744073709551616" "0 < unat n"
    using assms(2) unsigned_less[of n, where 'a = nat] by (simp_all add: usval_def unat_gt_0)
  define e where "e = (if unat (subns t) + unat (subns ?i) = 65535 then 65536 else 0 :: nat)"
  have "usval (uscaledns_add t ?i) = (usval t + usval ?i + e) mod 2 ^ 96"
    unfolding e_def by (rule usval_add)
  moreover have "usval t + usval ?i + e < 2 ^ 96" using assms(1) i(1,2) by (simp add: e_def)
  ultimately have "usval t < usval (uscaledns_add t ?i)" using i by simp
  then show ?thesis by (simp add: uscaledns_compare_usval)
qed

text \<open>The nanoseconds of a receipt timeout never wrap to zero.\<close>

lemma timeout_nonzero:
  assumes "T \<noteq> 0" "k < 31"
  shows "ucast (T :: 16 word) * 1000000000 * 2 ^ k \<noteq> (0 :: 64 word)"
proof
  assume z: "ucast T * 1000000000 * 2 ^ k = (0 :: 64 word)"
  have "(of_nat (unat T * 1000000000 * 2 ^ k) :: 64 word) = ucast T * 1000000000 * 2 ^ k"
    by (simp add: unsigned_ucast_eq)
  then have "(of_nat (unat T * 1000000000 * 2 ^ k) :: 64 word) = 0" unfolding z .
  then have "2 ^ LENGTH(64) dvd unat T * 1000000000 * 2 ^ k" by (simp only: word_of_nat_eq_0_iff)
  moreover have "(2::nat) ^ LENGTH(64) = 2 ^ (55 - k) * 2 ^ (9 + k)"
    using assms(2) by (simp flip: power_add)
  moreover have "unat T * 1000000000 * 2 ^ k = (unat T * 1953125) * 2 ^ (9 + k)"
    by (simp add: power_add)
  ultimately have "2 ^ (55 - k) * 2 ^ (9 + k) dvd (unat T * 1953125) * 2 ^ (9 + k)" by (simp only:)
  then have "2 ^ (55 - k) dvd unat T * 1953125" by (simp only: dvd_times_right_cancel_iff power_not_zero zero_neq_numeral not_False_eq_True numeral_neq_zero)
  moreover have "coprime ((2::nat) ^ (55 - k)) 1953125" by simp
  ultimately have "2 ^ (55 - k) dvd unat T" by (simp only: coprime_dvd_mult_left_iff)
  moreover have "0 < unat T" using assms(1) by (simp add: unat_gt_0)
  ultimately have "2 ^ (55 - k) \<le> unat T" by (rule dvd_imp_le)
  moreover have "(2::nat) ^ 24 \<le> 2 ^ (55 - k)" using assms(2) by (intro power_increasing) simp_all
  ultimately show False using unsigned_less[of T, where 'a = nat] by simp
qed

text \<open>What a run leaves alone of the node.\<close>

definition same_node :: "PaiCtx \<Rightarrow> PaiCtx \<Rightarrow> bool" where
  "same_node d c \<longleftrightarrow> systemPriority (inst d) = systemPriority (inst c) \<and> thisClock (inst d) = thisClock (inst c) \<and>
     BEGIN (inst d) = BEGIN (inst c) \<and> instanceEnable (inst d) = instanceEnable (inst c) \<and>
     asymmetryMeasurementMode (port d) = asymmetryMeasurementMode (port c)"

text \<open>The four turns of a run that adopts a better master.\<close>

lemma superior_announce_run:
  assumes wf: "pai_wf c" and g: "good_announce a" and ptr: "rcvdAnnouncePtr (sm c) \<noteq> Dangling"
    and st: "pai_state (sm c) = PAI_CURRENT" "pai_last_state (sm c) = PAI_CURRENT"
    and en: "portOper (port c)" "ptpPortEnabled (port c)" "asCapable (port c)" "\<not> BEGIN (inst c)" "instanceEnable (inst c)"
    and idle: "\<not> updtInfo (port c)" "\<not> asymmetryMeasurementMode (port c)"
      "uscaledns_compare t (syncReceiptTimeoutTime (inst c)) < 0"
    and sup: "selectedState (inst c) ! pidx c \<noteq> DISABLED_PORT"
      "message_priority a (messagePriorityPAI (sm c)) < portPriority (port c)"
    and tm: "announceReceiptTimeout (port c) \<noteq> 0" "usval t < 2 ^ 95"
  shows "ok (port_announce_information_sm_recv_announce t a c) (\<lambda>d.
    pai_state (sm d) = PAI_CURRENT \<and> pai_last_state (sm d) = PAI_CURRENT \<and>
    portPriority (port d) = message_priority a (messagePriorityPAI (sm c)) \<and>
    portStepsRemoved (port d) = ann_stepsRemoved a \<and> infoIs (port d) = INFOIS_RECEIVED \<and>
    \<not> rcvdMsg (port d) \<and> thisPort (port d) = thisPort (port c) \<and>
    reselect (inst d) = (reselect (inst c))[pidx c := True] \<and> selected (inst d) = (selected (inst c))[pidx c := False] \<and>
    pai_wf d \<and> same_node d c)"
proof -
  let ?v = "message_priority a (messagePriorityPAI (sm c))"
  define c1 where "c1 = c\<lparr>port := (port c)\<lparr>rcvdMsg := True\<rparr>, sm := (sm c)\<lparr>rcvdAnnouncePtr := Live a\<rparr>\<rparr>"
  have wfc: "inst_wf (inst c)" "port_wf (port c)" using wf by (simp_all add: pai_wf_def)
  have lens: "length (selected (inst c)) = 5" "length (selectedState (inst c)) = 5" "length (reselect (inst c)) = 5" "pidx c < 5"
    using wfc by (simp_all add: inst_wf_def port_wf_def)
  have "port_announce_information_sm_recv_announce t a c = port_announce_information_sm_run t c1"
    using ptr by (cases "rcvdAnnouncePtr (sm c)") (simp_all add: port_announce_information_sm_recv_announce_def c1_def)
  also have "pai_all_state_transition c1 = pai_state (sm c1)"
    using en by (simp add: pai_all_state_transition_def c1_def)
  then have "port_announce_information_sm_run t c1 = sm_loop (pai_body t) c1"
    by (simp add: port_announce_information_sm_run_def pai_goto_def)
  finally have run: "port_announce_information_sm_recv_announce t a c = sm_loop (pai_body t) c1" .
  define c2 where "c2 = c1\<lparr>sm := (sm c1)\<lparr>pai_last_state := PAI_CURRENT, pai_state := PAI_RECEIVE\<rparr>\<rparr>"
  have t1: "pai_body t c1 = Some (c2, True)"
    using st idle lens by (simp add: pai_body_def Let_def pai_current_transition_def rd_in pai_goto_def c1_def c2_def)
  have cmp: "compare_priority_vectors ?v (portPriority (port c)) = SUPERIOR_PRIORITY"
    "memcmp (pv_bytes (portPriority (port c))) (pv_bytes ?v) \<noteq> 0"
    using sup(2) by (auto simp: compare_priority_vectors_order memcmp_zero)
  define c3 where "c3 = c2\<lparr>sm := (sm c2)\<lparr>pai_last_state := PAI_RECEIVE, messagePriorityPAI := ?v,
      rcvdInfo := RCVDINFO_SUPERIOR_MASTER_INFO, pai_state := PAI_SUPERIOR_MASTER_PORT\<rparr>,
      inst := (inst c2)\<lparr>gmStepsRemoved := ann_stepsRemoved a\<rparr>\<rparr>"
  have t2: "pai_body t c2 = Some (c3, True)"
    using lens idle sup(1) cmp by (simp add: pai_body_def Let_def pai_receive_action_def rcvInfo_def rd_in pai_goto_def
        pai_receive_transition_def c1_def c2_def c3_def)
  let ?c3 = "c3\<lparr>sm := (sm c3)\<lparr>pai_last_state := PAI_SUPERIOR_MASTER_PORT\<rparr>\<rparr>"
  have ga: "unat (lengthField (pathTraceTLV a)) \<le> 64" "length (pathSequence (pathTraceTLV a)) = 8"
    "0 \<le> sint (logMessageInterval (ann_head a))" "sint (logMessageInterval (ann_head a)) < 31"
    using g by (simp_all add: good_announce_def)
  obtain path where path: "copy_identities (unat (lengthField (pathTraceTLV a))) (pathSequence (pathTraceTLV a))
      (annPathSequence (port c)) = Some path"
    using ok_copy_identities[OF ga(2) _ ga(1)] wfc(2) by (auto simp: port_wf_def ok_iff)
  have il: "0 \<le> sint (initialLogAnnounceInterval (port c))" "sint (initialLogAnnounceInterval (port c)) < 31"
    using wfc(2) by (simp_all add: port_wf_def)
  let ?n1 = "ucast (announceReceiptTimeout (port c)) * ONE_SEC_NS * 2 ^ nat (sint (logMessageInterval (ann_head a)))"
  let ?n2 = "ucast (announceReceiptTimeout (port c)) * ONE_SEC_NS * 2 ^ nat (sint (initialLogAnnounceInterval (port c)))"
  let ?i = "\<lambda>n. \<lparr>subns = 0, nsec = n, nsec_msb = 0\<rparr>"
  obtain c4 where c4: "pai_superior_action t ?c3 = Some c4" "pai_last_state (sm c4) = PAI_SUPERIOR_MASTER_PORT"
    "portPriority (port c4) = ?v" "portStepsRemoved (port c4) = ann_stepsRemoved a" "infoIs (port c4) = INFOIS_RECEIVED"
    "\<not> rcvdMsg (port c4)" "\<not> updtInfo (port c4)" "thisPort (port c4) = thisPort (port c)"
    "reselect (inst c4) = (reselect (inst c))[pidx c := True]" "selected (inst c4) = (selected (inst c))[pidx c := False]"
    "same_node c4 c"
    "announceReceiptTimeoutTime (sm c4) = uscaledns_add t (?i ?n1)"
    "syncReceiptTimeoutTime (inst c4) = uscaledns_add t (?i ?n2)"
    using ga(3,4) il path lens idle
    by (simp add: pai_superior_action_def recordOtherAnnounceInfo_def Let_def shl1_def request_reselect_def wr_in
        pai_forget_def c1_def c2_def c3_def same_node_def)
  define c5 where "c5 = c4\<lparr>sm := (sm c4)\<lparr>pai_state := PAI_CURRENT\<rparr>\<rparr>"
  have t3: "pai_body t c3 = Some (c5, True)"
    using c4(1,2) by (simp add: pai_body_def Let_def pai_goto_def c5_def) (simp add: c3_def c2_def pai_goto_def)
  have later: "uscaledns_compare t (uscaledns_add t (?i ?n1)) < 0" "uscaledns_compare t (uscaledns_add t (?i ?n2)) < 0"
    using ga(3,4) il by (intro timeout_later[OF tm(2)] timeout_nonzero[OF tm(1)]; simp add: nat_less_iff)+
  define c6 where "c6 = c5\<lparr>sm := (sm c5)\<lparr>pai_last_state := PAI_CURRENT, pai_state := PAI_CURRENT\<rparr>\<rparr>"
  have t4: "pai_body t c5 = Some (c6, False)"
    using c4 later lens by (simp add: pai_body_def Let_def pai_current_transition_def rd_in pai_goto_def c5_def c6_def)
  have "sm_loop (pai_body t) c1 = Some c6"
    using sm_loop_turn[of "pai_body t", OF t1] sm_loop_turn[of "pai_body t", OF t2] sm_loop_turn[of "pai_body t", OF t3]
      sm_loop_stop[of "pai_body t", OF t4] by simp
  moreover have "pai_wf c6"
  proof -
    have "pai_wf c1" using wf g by (auto simp: pai_wf_def c1_def holds_announce_def port_wf_def)
    from pai.loop_ok[OF this, of t] show ?thesis using calculation by simp
  qed
  ultimately show ?thesis unfolding run using c4 by (simp add: c6_def c5_def same_node_def)
qed

end
