(* ===== verification/MsgFrame_Props.thy ===== *)
theory MsgFrame_Props
  imports MsgFrame
begin

text \<open>
  What is written into a frame is read back: the byte order of a field, the header, and each of
  the messages; and the frames that cannot be read.
\<close>

section \<open>Fields\<close>

lemma bit_from_bytes:
  "bit (from_bytes bs :: 'a::len word) n \<longleftrightarrow> n < LENGTH('a) \<and> n div 8 < length bs \<and> bit (bs ! (n div 8)) (n mod 8)"
proof (induction bs arbitrary: n)
  case Nil
  show ?case by (simp add: from_bytes.simps)
next
  case (Cons b bs)
  show ?case
  proof (cases "n < 8")
    case True
    then show ?thesis by (auto simp: from_bytes.simps bit_simps)
  next
    case False
    then obtain m where "n = m + 8" by (metis add.commute le_iff_add not_less)
    then show ?thesis using Cons.IH[of m] by (auto simp: from_bytes.simps bit_simps dest: bit_imp_le_length)
  qed
qed

lemma mem_byte_from_bytes:
  assumes "k < length bs" "8 * length bs \<le> LENGTH('a)"
  shows "mem_byte (from_bytes bs :: 'a::len word) k = bs ! k"
proof (rule bit_word_eqI)
  fix n assume "n < LENGTH(8)"
  then have "n < 8" by simp
  moreover have "8 * k + n < LENGTH('a)" using assms \<open>n < 8\<close> by linarith
  ultimately show "bit (mem_byte (from_bytes bs :: 'a word) k) n = bit (bs ! k) n"
    using assms by (simp add: mem_byte_def bit_simps bit_from_bytes ac_simps)
qed

lemma from_mem_bytes:
  assumes "LENGTH('a) = 8 * n"
  shows "from_bytes (map (mem_byte (w :: 'a::len word)) [0..<n]) = w"
proof (rule bit_word_eqI)
  fix k assume "k < LENGTH('a)"
  then have "k div 8 < n" using assms by simp
  then show "bit (from_bytes (map (mem_byte w) [0..<n]) :: 'a word) k = bit w k"
    using \<open>k < LENGTH('a)\<close> by (simp add: bit_from_bytes mem_byte_def bit_simps)
qed

lemma upt_eval: "[0..<2] = [0, 1::nat]" "[0..<4] = [0, 1, 2, 3::nat]" "[0..<8] = [0, 1, 2, 3, 4, 5, 6, 7::nat]"
  by (simp_all add: upt_rec eval_nat_numeral)

lemma from_bytes_16 [buf_simps]: "from_bytes [mem_byte w 0, mem_byte w 1] = (w :: 16 word)"
  using from_mem_bytes[of 2 w] by (simp add: upt_eval)

lemma from_bytes_32 [buf_simps]: "from_bytes [mem_byte w 0, mem_byte w 1, mem_byte w 2, mem_byte w 3] = (w :: 32 word)"
  using from_mem_bytes[of 4 w] by (simp add: upt_eval)

lemma from_bytes_64 [buf_simps]:
  "from_bytes [mem_byte w 0, mem_byte w 1, mem_byte w 2, mem_byte w 3, mem_byte w 4, mem_byte w 5, mem_byte w 6, mem_byte w 7]
     = (w :: 64 word)"
  using from_mem_bytes[of 8 w] by (simp add: upt_eval)

lemma ntohs_htons [buf_simps]: "ntohs (htons w) = w" and htons_ntohs [buf_simps]: "htons (ntohs w) = w"
  by (simp_all add: ntohs_def htons_def mem_byte_from_bytes from_bytes_16 del: One_nat_def)

lemma ntohl_htonl [buf_simps]: "ntohl (htonl w) = w"
  by (simp add: ntohl_def htonl_def mem_byte_from_bytes from_bytes_32 del: One_nat_def)

lemma ntohll_htonll [buf_simps]: "ntohll (htonll w) = w"
  by (simp add: ntohll_def htonll_def mem_byte_from_bytes from_bytes_64 del: One_nat_def)

text \<open>Reading behind a prefix.\<close>

lemma nth_append_plus [simp]: "(xs @ ys) ! (length xs + k) = ys ! k"
  by (simp add: nth_append)

lemma get_shift:
  "read16 (p @ f) (length p + k) = read16 f k" "read32 (p @ f) (length p + k) = read32 f k"
  "read64 (p @ f) (length p + k) = read64 f k" "get_id (p @ f) (length p + k) = get_id f k"
  by (simp_all add: read16_def read32_def read64_def get_id_def add.assoc del: One_nat_def add_Suc_right)

lemma get_header_shift: "get_ptp_msg_header (p @ f) (length p) = get_ptp_msg_header f 0"
  using nth_append_plus[of p f 0] by (simp add: get_ptp_msg_header_def get_shift del: One_nat_def add_Suc_right add_2_eq_Suc')

section \<open>The header\<close>

lemma nibbles:
  fixes a b :: byte
  assumes "a < 16" "b < 16"
  shows "drop_bit 4 (push_bit 4 a OR b) AND 0xF = a" "(push_bit 4 a OR b) AND 0xF = b"
proof -
  have m: "0xF = (mask 4 :: byte)" by (simp add: mask_eq_exp_minus_1)
  have t: "take_bit 4 a = a" "take_bit 4 b = b"
    using assms by (simp_all add: word_unat_eq_iff unsigned_take_bit_eq take_bit_nat_eq_self word_less_nat_alt)
  have "bit (drop_bit 4 (push_bit 4 a OR b) AND 0xF) n = bit (take_bit 4 a) n" if "n < 8" for n
    using that arg_cong[OF t(2), of "\<lambda>w. bit w (4 + n)"] unfolding m by (auto simp: bit_simps ac_simps)
  then show "drop_bit 4 (push_bit 4 a OR b) AND 0xF = a" using t by (intro bit_word_eqI) simp
  have "bit ((push_bit 4 a OR b) AND 0xF) n = bit (take_bit 4 b) n" if "n < 8" for n
    using that unfolding m by (auto simp: bit_simps)
  then show "(push_bit 4 a OR b) AND 0xF = b" using t by (intro bit_word_eqI) simp
qed

text \<open>A header whose four-bit members fit four bits.\<close>

definition header_fits :: "PTPMsgHeader \<Rightarrow> bool" where
  "header_fits h \<longleftrightarrow> majorSdoId h < 16 \<and> messageType h < 16 \<and> minorVersionPTP h < 16 \<and> versionPTP h < 16"

lemma length_header [simp]: "length (set_ptp_frame_header h) = 34"
  by (simp add: set_ptp_frame_header_def le16_def be64_def put32_def put64_def)

lemmas put_defs = le16_def be64_def put32_def put64_def
lemmas get_defs = read16_def read32_def read64_def get_id_def

lemma header_read:
  assumes "header_fits h"
  shows "get_ptp_msg_header (set_ptp_frame_header h @ r) 0 = h"
  using assms
  by (simp add: header_fits_def get_ptp_msg_header_def set_ptp_frame_header_def put_defs get_defs nibbles buf_simps
    del: One_nat_def drop_bit_or)

section \<open>The messages\<close>

lemma timestamp_read [buf_simps]: "get_timestamp (put_timestamp t @ r) 0 = t"
  by (simp add: get_timestamp_def put_timestamp_def put_defs get_defs buf_simps del: One_nat_def)

lemma length_put [simp]: "length (put_timestamp t) = 10" "length (put_port_identity q) = 10"
  by (simp_all add: put_timestamp_def put_port_identity_def put_defs)

lemma port_identity_read [buf_simps]:
  "get_id (put_port_identity q @ r) 0 = clockIdentity q" "ntohs (read16 (put_port_identity q @ r) 8) = portNumber q"
  "read16 (put_port_identity q @ r) 8 = htons (portNumber q)"
  by (simp_all add: put_port_identity_def put_defs get_defs buf_simps del: One_nat_def)

lemma get_timestamp_shift: "get_timestamp (p @ f) (length p + k) = get_timestamp f k"
  by (simp add: get_timestamp_def get_shift add.assoc del: add_2_eq_Suc')

lemmas shifts = get_shift get_header_shift get_timestamp_shift
lemmas get_shift0 = get_shift[where k = 0, simplified] get_timestamp_shift[where k = 0, simplified]

text \<open>A message behind a prefix is read as if it came first.\<close>

lemma recv_shift:
  "recv_pdelay_req (p @ f) (length p) = recv_pdelay_req f 0" "recv_pdelay_resp (p @ f) (length p) = recv_pdelay_resp f 0"
  "recv_pdelay_resp_follow_up (p @ f) (length p) = recv_pdelay_resp_follow_up f 0"
  "recv_sync (p @ f) (length p) = recv_sync f 0"
  by (simp_all add: recv_pdelay_req_def recv_pdelay_resp_def recv_pdelay_resp_follow_up_def recv_sync_def shifts)

lemma recv_follow_up_shift: "recv_follow_up (p @ f) (length p) = recv_follow_up f 0"
  by (simp add: recv_follow_up_def shifts)

lemma recv_announce_shift: "recv_announce junk (p @ f) (length p) = recv_announce junk f 0"
  by (simp add: recv_announce_def shifts Let_def add.assoc)

text \<open>A read behind the first part of a frame.\<close>

lemma get_skip:
  assumes "length p \<le> k"
  shows "read16 (p @ f) k = read16 f (k - length p)" "read32 (p @ f) k = read32 f (k - length p)"
    "read64 (p @ f) k = read64 f (k - length p)" "get_id (p @ f) k = get_id f (k - length p)"
    "get_timestamp (p @ f) k = get_timestamp f (k - length p)"
  using shifts(1-4)[of p f "k - length p"] get_timestamp_shift[of p f "k - length p"] assms by simp_all

lemma pdelay_read:
  "header_fits (preq_head q) \<Longrightarrow> recv_pdelay_req (pdelay_req_frame q @ r) 0 = q"
  "header_fits (presp_head m) \<Longrightarrow> recv_pdelay_resp (pdelay_resp_frame m @ r) 0 = m"
  "header_fits (sync_head s) \<Longrightarrow> recv_sync (sync_frame s @ r) 0 = s"
  by (simp_all add: recv_pdelay_req_def pdelay_req_frame_def recv_sync_def sync_frame_def recv_pdelay_resp_def
    pdelay_resp_frame_def header_read get_skip buf_simps)

text \<open>The port number of a \<open>PDELAY_RESP_FOLLOW_UP\<close> comes out with its two bytes swapped.\<close>

lemma pdelay_resp_follow_up_read:
  assumes "header_fits (pfu_head m)"
  shows "recv_pdelay_resp_follow_up (pdelay_resp_follow_up_frame m @ r) 0 =
    m\<lparr>pfu_requestingPortIdentity := (pfu_requestingPortIdentity m)\<lparr>portNumber := htons (portNumber (pfu_requestingPortIdentity m))\<rparr>\<rparr>"
  using assms by (simp add: recv_pdelay_resp_follow_up_def pdelay_resp_follow_up_frame_def header_read get_skip buf_simps)

lemma follow_up_read:
  assumes "header_fits (fu_head m)" "length (organizationId (followUpInformationTLV m)) = 3"
    "length (organizationSubType (followUpInformationTLV m)) = 3"
  shows "recv_follow_up (follow_up_frame m @ r) 0 = m"
proof -
  obtain a b c where o1: "organizationId (followUpInformationTLV m) = [a, b, c]"
    using assms(2) by (auto simp: length_Suc_conv eval_nat_numeral)
  obtain a' b' c' where o2: "organizationSubType (followUpInformationTLV m) = [a', b', c']"
    using assms(3) by (auto simp: length_Suc_conv eval_nat_numeral)
  show ?thesis
    using assms(1)
    by (simp add: recv_follow_up_def follow_up_frame_def Let_def header_read get_skip buf_simps o1 o2)
      (simp add: get_defs put_defs buf_simps o1[symmetric] o2[symmetric] del: One_nat_def)
qed

section \<open>The path trace\<close>

lemma length_be64 [simp]: "length (be64 w) = 8"
  by (simp add: be64_def)

lemma length_identities [simp]: "length (concat (map be64 ids)) = 8 * length ids"
  by (induction ids) simp_all

lemma take_identities: "take (8 * n) (concat (map be64 ids)) = concat (map be64 (take n ids))"
proof (induction ids arbitrary: n)
  case (Cons w ids)
  then show ?case by (cases n) simp_all
qed simp

lemma drop_identities: "drop (8 * n) (concat (map be64 ids)) = concat (map be64 (drop n ids))"
proof (induction ids arbitrary: n)
  case (Cons w ids)
  then show ?case by (cases n) simp_all
qed simp

lemma get_be64: "get_id (be64 w @ r) 0 = w"
  by (simp add: get_id_def be64_def buf_simps del: One_nat_def)

lemma identities_read: "k < length ids \<Longrightarrow> get_id (concat (map be64 ids)) (8 * k) = ids ! k"
proof (induction ids arbitrary: k)
  case (Cons w ids)
  then show ?case by (cases k) (simp_all add: get_be64 get_skip)
qed simp

lemma announce_read:
  assumes "header_fits (ann_head m)" "length junk = 8" "k \<le> 8" "k \<le> length (pathSequence (pathTraceTLV m))"
    and "lengthField (pathTraceTLV m) = of_nat (8 * k)"
  obtains f where "announce_frame m = Some f"
    "recv_announce junk (f @ r) 0 = Some (m\<lparr>pathTraceTLV := (pathTraceTLV m)\<lparr>pathSequence :=
       take k (pathSequence (pathTraceTLV m)) @ drop k junk\<rparr>\<rparr>)"
proof -
  have n: "unat (lengthField (pathTraceTLV m)) = 8 * k"
    using assms(3,5) by (simp add: unat_of_nat take_bit_nat_eq_self del: of_nat_mult)
  define path where "path = concat (map be64 (take k (pathSequence (pathTraceTLV m))))"
  have lp: "length path = 8 * k" using assms(4) by (simp add: path_def)
  obtain f where f: "announce_frame m = Some f"
    using assms(3,4) by (simp add: announce_frame_def Let_def n)
  define g where "g = replicate 10 0 @ le16 (htons (ann_currentUtcOffset m)) @
        [0, grandmasterPriority1 m, gmClockClass m, gmClockAccuracy m] @
        le16 (htons (gmOffsetScaledLogVariance m)) @ [grandmasterPriority2 m] @ be64 (grandmasterIdentity m) @
        le16 (htons (ann_stepsRemoved m)) @ [ann_timeSource m] @ le16 (htons (tlvType (pathTraceTLV m))) @
        le16 (htons (lengthField (pathTraceTLV m)))"
  have lg: "length g = 34" by (simp add: g_def le16_def)
  have fd: "f = set_ptp_frame_header (ann_head m) @ g @ path"
    using f assms(3,4) by (simp add: announce_frame_def Let_def n take_identities path_def g_def split: if_splits)
  have g: "read16 (g @ x) 10 = htons (ann_currentUtcOffset m)" "(g @ x) ! 13 = grandmasterPriority1 m"
    "(g @ x) ! 14 = gmClockClass m" "(g @ x) ! 15 = gmClockAccuracy m"
    "read16 (g @ x) 16 = htons (gmOffsetScaledLogVariance m)" "(g @ x) ! 18 = grandmasterPriority2 m"
    "get_id (g @ x) 19 = grandmasterIdentity m" "read16 (g @ x) 27 = htons (ann_stepsRemoved m)"
    "(g @ x) ! 29 = ann_timeSource m" "read16 (g @ x) 30 = htons (tlvType (pathTraceTLV m))"
    "read16 (g @ x) 32 = htons (lengthField (pathTraceTLV m))" for x
    by (simp_all add: g_def get_defs put_defs buf_simps nth_append del: One_nat_def)
  define ids where "ids = take k (pathSequence (pathTraceTLV m)) @ drop k junk"
  have "path @ drop (8 * k) (concat (map be64 junk)) = concat (map be64 ids)"
    by (simp add: path_def ids_def drop_identities)
  moreover have li: "length ids = 8" using assms(2,3,4) by (simp add: ids_def)
  moreover have "map (\<lambda>i. get_id (concat (map be64 ids)) (8 * i)) [0..<8] = ids"
    using li by (intro nth_equalityI) (simp_all add: identities_read)
  ultimately have "recv_announce junk (f @ r) 0 = Some (m\<lparr>pathTraceTLV := (pathTraceTLV m)\<lparr>pathSequence := ids\<rparr>\<rparr>)"
    using assms(1,3)
    by (simp add: recv_announce_def fd get_skip nth_append g g[of "[]", simplified] lg buf_simps n lp header_read Let_def)
  then show ?thesis using that[OF f] by (simp add: ids_def)
qed

end
