(* ===== verification/BufferQueue_Props.thy ===== *)
theory BufferQueue_Props
  imports BufferQueue
begin

text \<open>
  The cyclic buffer is a bounded queue of packets; the length that \<open>pop_queue\<close> reports is that of
  another packet.
\<close>

section \<open>The packets in the buffer\<close>

definition slot :: "buffer_queue \<Rightarrow> nat \<Rightarrow> byte list" where
  "slot q i = (let k = (q_front q + i) mod FIFO_SIZE in take (len_array q ! k) (buf_array q ! k))"

definition packets :: "buffer_queue \<Rightarrow> byte list list" where
  "packets q = map (slot q) [0..<q_size q]"

definition queue_wf :: "buffer_queue \<Rightarrow> bool" where
  "queue_wf q \<longleftrightarrow> q_size q \<le> FIFO_SIZE \<and> q_front q < FIFO_SIZE \<and> q_rear q = (q_front q + q_size q) mod FIFO_SIZE \<and>
     length (buf_array q) = FIFO_SIZE \<and> length (len_array q) = FIFO_SIZE \<and>
     (\<forall>b \<in> set (buf_array q). length b = MAX_PKT_LEN + 1) \<and> (\<forall>n \<in> set (len_array q). n \<le> MAX_PKT_LEN)"

lemma init_queue_wf: "queue_wf (init_queue junk)" and init_queue_empty: "packets (init_queue junk) = []"
  by (auto simp: queue_wf_def init_queue_def packets_def)

lemma length_packets [simp]: "length (packets q) = q_size q"
  by (simp add: packets_def)

lemma ok_blit [ok_rules]:
  "ok (blit d i s) P \<longleftrightarrow> i + length s \<le> length d \<and> P (take i d @ s @ drop (i + length s) d)"
  by (simp add: blit_def)

lemma mod_64_inj: "i < 64 \<Longrightarrow> j < 64 \<Longrightarrow> (f + i) mod 64 = (f + j) mod 64 \<Longrightarrow> i = (j :: nat)"
proof (induction i j rule: linorder_wlog)
  case (le i j)
  then have "64 dvd (f + j) - (f + i)" using mod_eq_dvd_iff_nat[of "f + i" "f + j" 64] by simp
  then show ?case using le dvd_imp_le[of 64 "j - i"] by (cases "j = i") auto
next
  case (sym i j)
  then show ?case by simp
qed

lemma ok_push_queue:
  assumes "queue_wf q" "q_size q < FIFO_SIZE" "n \<le> MAX_PKT_LEN" "n \<le> length buf"
  shows "ok (push_queue q buf n) (\<lambda>r. queue_wf r \<and> packets r = packets q @ [take n buf])"
proof -
  define k where "k = q_rear q"
  have k: "k < 64" "k < length (buf_array q)" "k < length (len_array q)"
    using assms(1) by (simp_all add: queue_wf_def k_def)
  then have lk: "length (buf_array q ! k) = 1601" using assms(1) by (simp add: queue_wf_def)
  define b where "b = take n buf @ drop n (buf_array q ! k)"
  define r where "r = q\<lparr>buf_array := (buf_array q)[k := b], len_array := (len_array q)[k := n],
     q_rear := (k + 1) mod 64, q_size := q_size q + 1\<rparr>"
  have run: "push_queue q buf n = Some r"
    using assms(2-4) k lk by (simp add: push_queue_def r_def b_def k_def[symmetric] buf_simps blit_def)
  have lb: "length b = 1601" using assms(3,4) lk by (simp add: b_def)
  have rear: "k = (q_front q + q_size q) mod 64" using assms(1) by (simp add: queue_wf_def k_def)
  have "queue_wf r"
    using assms(1-3) lb rear unfolding queue_wf_def r_def
    by (auto dest!: set_update_subset_insert[THEN subsetD] simp: mod_Suc_eq)
  moreover have "slot r i = slot q i" if "i < q_size q" for i
  proof -
    have "(q_front q + i) mod 64 \<noteq> k"
      using mod_64_inj[of i "q_size q" "q_front q"] that assms(2) rear by auto
    then show ?thesis by (simp add: slot_def r_def Let_def)
  qed
  moreover have "slot r (q_size q) = take n buf"
    using k lb assms(4) by (simp add: slot_def r_def Let_def rear[symmetric] b_def)
  ultimately show ?thesis by (simp add: run packets_def r_def)
qed

lemma ok_pop_queue:
  assumes "queue_wf q" "packets q = x # xs" "MAX_PKT_LEN \<le> length buf"
  shows "ok (pop_queue q buf) (\<lambda>(r, buf', len). queue_wf r \<and> packets r = xs \<and>
     buf' = x @ drop (length x) buf \<and> (xs \<noteq> [] \<longrightarrow> len = length (hd xs)))"
proof -
  define k where "k = q_front q"
  have s: "q_size q \<noteq> 0" using assms(2) by (metis length_packets length_0_conv list.distinct(1))
  have k: "k < 64" "k < length (buf_array q)" "k < length (len_array q)"
    using assms(1) by (simp_all add: queue_wf_def k_def)
  then have lk: "length (buf_array q ! k) = 1601" "len_array q ! k \<le> 1600" using assms(1) by (simp_all add: queue_wf_def)
  define r where "r = q\<lparr>q_front := (k + 1) mod 64, q_size := q_size q - 1\<rparr>"
  have "packets q = slot q 0 # map (slot q) (map Suc [0..<q_size q - 1])"
    using s by (simp add: packets_def map_Suc_upt upt_conv_Cons)
  moreover have "slot q (Suc i) = slot r i" for i
    by (simp add: slot_def r_def k_def mod_add_left_eq flip: mod_add_left_eq[of "Suc k"])
  ultimately have x: "x = slot q 0" and xs: "xs = packets r"
    using assms(2) by (simp_all add: packets_def r_def comp_def)
  have x': "x = take (len_array q ! k) (buf_array q ! k)" using x k by (simp add: slot_def k_def Let_def)
  have wf: "queue_wf r"
    using assms(1) s unfolding queue_wf_def r_def k_def by (cases "q_size q") (auto simp: mod_simps)
  have "len_array r ! q_front r = length (hd xs)" if "xs \<noteq> []"
  proof -
    have "q_size r \<noteq> 0" using that by (auto simp: xs packets_def)
    then have "hd xs = slot r 0" by (simp add: xs packets_def hd_map)
    moreover have "q_front r < 64" using wf by (simp add: queue_wf_def)
    moreover from this have "len_array r ! q_front r \<le> 1600" "length (buf_array r ! q_front r) = 1601"
      using wf by (simp_all add: queue_wf_def)
    ultimately show ?thesis by (simp add: slot_def Let_def)
  qed
  moreover have "length (len_array q) = 64" using assms(1) by (simp add: queue_wf_def)
  ultimately show ?thesis
    using s k lk wf xs x' assms(3)
    by (simp add: pop_queue_def buf_simps blit_def Let_def k_def[symmetric] r_def)
qed

section \<open>The interface\<close>

text \<open>
  Every packet of the producer has \<open>MAX_PKT_LEN\<close> bytes, the size of the consumer's buffer; so what
  \<open>pop_queue\<close> leaves in that buffer is the packet.
\<close>

definition ptp_packet :: "byte list \<Rightarrow> bool" where
  "ptp_packet x \<longleftrightarrow> length x = MAX_PKT_LEN \<and> is_ptp_frame x"

definition rx_packets :: "buffer_queue \<times> byte list \<Rightarrow> byte list list" where
  "rx_packets = (\<lambda>(q, rx). packets q)"

definition rx_wf :: "buffer_queue \<times> byte list \<Rightarrow> bool" where
  "rx_wf = (\<lambda>(q, rx). queue_wf q \<and> (\<forall>x \<in> set (packets q). length x = MAX_PKT_LEN) \<and> length rx = MAX_PKT_LEN)"

lemma rx_pop_spec:
  assumes "rx_wf s" "rx_packets s = x # xs"
  shows "\<exists>r. rx_pop s = Some (r, x) \<and> rx_wf r \<and> rx_packets r = xs"
proof -
  obtain q rx where s: "s = (q, rx)" by (cases s)
  have "length x = length rx" using assms by (auto simp: s rx_wf_def rx_packets_def)
  then show ?thesis
    using ok_pop_queue[of q x xs rx] assms
    by (fastforce simp: s rx_pop_def rx_wf_def rx_packets_def ok_iff)
qed

lemma push_queue_full: "q_size q = FIFO_SIZE \<Longrightarrow> push_queue q buf len = None"
  by (simp add: push_queue_def)

interpretation packet_queue: bounded_fifo rx_wf rx_packets FIFO_SIZE ptp_packet rx_process rx_pop
proof (unfold_locales, goal_cases)
  case (1 s x)
  obtain q rx where s: "s = (q, rx)" by (cases s)
  with 1 have "ok (push_queue q x MAX_PKT_LEN) (\<lambda>r. queue_wf r \<and> packets r = packets q @ [x])"
    using ok_push_queue[of q MAX_PKT_LEN x] by (simp add: rx_wf_def rx_packets_def ptp_packet_def)
  then show ?case
    using 1 by (auto simp: s rx_process_def process_packet_def ptp_packet_def rx_wf_def rx_packets_def elim!: ok_weaken)
next
  case (2 s x)
  then show ?case
    by (cases s) (simp add: rx_process_def rx_packets_def process_packet_def ptp_packet_def push_queue_full)
next
  case (3 s x xs)
  then show ?case by (rule rx_pop_spec)
next
  case (4 s)
  then show ?case by (auto simp: rx_wf_def rx_packets_def queue_wf_def)
qed

text \<open>
  C26. The packet queue is first in, first out: at most 64 PTP packets handed over by the receiving
  thread are read back whole and in their order by the time synchronization loop, and the queue is
  empty again.
\<close>

theorem packets_in_order:
  assumes "length xs \<le> FIFO_SIZE" "\<forall>x \<in> set xs. length x = MAX_PKT_LEN \<and> is_ptp_frame x" "length rx = MAX_PKT_LEN"
  shows "ok (for_each rx_process xs (init_queue junk, rx))
    (\<lambda>r. \<exists>q rx'. pop_n rx_pop (length xs) r = Some ((q, rx'), xs) \<and> packets q = [])"
proof -
  have "rx_wf (init_queue junk, rx)" "rx_packets (init_queue junk, rx) = []"
    using assms(3) by (simp_all add: rx_wf_def rx_packets_def init_queue_wf init_queue_empty)
  from packet_queue.first_in_first_out[OF this assms(1)] show ?thesis
    using assms(2) by (auto simp: ptp_packet_def rx_packets_def elim!: ok_weaken)
qed

definition sync_packet :: "byte \<Rightarrow> byte list" where
  "sync_packet b = replicate 32 b @ mac_addr_ptp @ replicate 1562 b"

theorem packets_in_order_witness:
  "ok (for_each rx_process [sync_packet 1, sync_packet 2] (init_queue (\<lambda>i j. 0), replicate 1600 0))
    (\<lambda>r. \<exists>q rx'. pop_n rx_pop 2 r = Some ((q, rx'), [sync_packet 1, sync_packet 2]) \<and> packets q = [])"
  using packets_in_order[of "[sync_packet 1, sync_packet 2]" "replicate 1600 0" "\<lambda>i j. 0"]
  by (simp add: sync_packet_def is_ptp_frame_def mac_addr_ptp_def numeral_2_eq_2 del: for_each.simps)

text \<open>
  A 65th PTP packet that arrives before the loop has taken one does not get lost: it ends the
  process.
\<close>

theorem packet_burst_exits:
  assumes "length xs = FIFO_SIZE" "\<forall>x \<in> set (y # xs). length x = MAX_PKT_LEN \<and> is_ptp_frame x" "length rx = MAX_PKT_LEN"
  shows "for_each rx_process (xs @ [y]) (init_queue junk, rx) = None"
  by (rule packet_queue.overflow)
    (use assms in \<open>simp_all add: rx_wf_def rx_packets_def init_queue_wf init_queue_empty ptp_packet_def\<close>)

theorem packet_burst_exits_witness:
  "for_each rx_process (replicate 64 (sync_packet 1) @ [sync_packet 2]) (init_queue (\<lambda>i j. 0), replicate 1600 0) = None"
  by (rule packet_burst_exits) (auto simp: sync_packet_def is_ptp_frame_def mac_addr_ptp_def)

text \<open>
  \<open>pop_queue\<close> delivers the first packet with the length of the second.
\<close>

theorem pop_queue_wrong_length:
  assumes "queue_wf q" "packets q = x # y # xs" "MAX_PKT_LEN \<le> length buf"
  shows "ok (pop_queue q buf) (\<lambda>(r, buf', len). take (length x) buf' = x \<and> len = length y \<and> packets r = y # xs)"
  by (rule ok_mono[OF ok_pop_queue[OF assms]]) auto

definition two_lengths :: buffer_queue where
  "two_lengths = \<lparr>q_front = 0, q_rear = 2, q_size = 2, buf_array = replicate 64 (replicate 1601 7),
     len_array = 4 # 2 # replicate 62 0\<rparr>"

theorem pop_queue_wrong_length_witness:
  "ok (pop_queue two_lengths (replicate 1600 0)) (\<lambda>(r, buf', len). take 4 buf' = [7, 7, 7, 7] \<and> len = 2 \<and> packets r = [[7, 7]])"
proof -
  have "packets two_lengths = [[7, 7, 7, 7], [7, 7]]"
    by (simp add: packets_def slot_def two_lengths_def upt_rec Let_def)
      (simp add: eval_nat_numeral)
  moreover have "queue_wf two_lengths" by (auto simp: queue_wf_def two_lengths_def)
  moreover have "length [7, 7, 7, 7 :: byte] = 4" "length [7, 7 :: byte] = 2" by simp_all
  ultimately show ?thesis
    using pop_queue_wrong_length[of two_lengths "[7, 7, 7, 7]" "[7, 7]" "[]" "replicate 1600 0"]
    by (simp del: list.size)
qed

end
