(* ===== verification/EthFrame_Props.thy ===== *)
theory EthFrame_Props
  imports EthFrame MsgFrame_Props BufferQueue_Props
begin

text \<open>
  A received frame gets the first time stamp that fits it; what one node sends the other receives;
  and the frames with which a peer stops the loop.
\<close>

section \<open>Time stamps of received frames\<close>

definition wanted :: "PTPMsgType \<Rightarrow> 16 word \<Rightarrow> TSUTimestamp \<Rightarrow> bool" where
  "wanted mt seq t \<longleftrightarrow> ts_msgType t = msg_code mt \<and> ts_sequenceID t = seq"

lemma valid_port_index: "valid_port p \<Longrightarrow> 1 \<le> unat p \<and> unat p \<le> 4"
  by (simp add: valid_port_def word_le_nat_alt)

lemma tsu_match_skip:
  assumes "valid_port p" "length qs = 4" "qs ! (unat p - 1) = es @ x # rest"
    and "\<not> wanted mt seq t" "\<forall>e \<in> set es. \<not> wanted mt seq (tsu_timestamp e)" "wanted mt seq (tsu_timestamp x)"
  shows "tsu_match (msg_code mt) seq p (t, qs) = Some (tsu_timestamp x, qs[unat p - 1 := rest])"
  using assms(2-6)
proof (induction es arbitrary: t qs)
  case Nil
  have "tsu_match (msg_code mt) seq p (tsu_timestamp x, qs') = Some (tsu_timestamp x, qs')" for qs'
    using Nil.prems(5) by (subst tsu_match.simps) (auto simp: wanted_def)
  then show ?case
    using Nil assms(1) by (subst tsu_match.simps) (auto simp: wanted_def tsu_rx_get_timestamp_def)
next
  case (Cons e es)
  let ?qs = "qs[unat p - 1 := es @ x # rest]"
  have "tsu_match (msg_code mt) seq p (tsu_timestamp e, ?qs) = Some (tsu_timestamp x, ?qs[unat p - 1 := rest])"
    using Cons.prems valid_port_index[OF assms(1)] by (intro Cons.IH) auto
  then show ?case
    using Cons.prems assms(1) by (subst tsu_match.simps) (auto simp: wanted_def tsu_rx_get_timestamp_def)
qed

lemma tsu_match_never:
  assumes "valid_port p" "length qs = 4" "\<forall>e \<in> set (qs ! (unat p - 1)). \<not> wanted mt seq (tsu_timestamp e)" "\<not> wanted mt seq t"
  shows "tsu_match (msg_code mt) seq p (t, qs) = None"
  using assms(2-4)
proof (induction "qs ! (unat p - 1)" arbitrary: t qs)
  case Nil
  then show ?case
    using assms(1) by (subst tsu_match.simps) (auto simp: wanted_def tsu_rx_get_timestamp_def)
next
  case (Cons e es)
  let ?qs = "qs[unat p - 1 := es]"
  have "tsu_match (msg_code mt) seq p (tsu_timestamp e, ?qs) = None"
    using Cons.prems Cons.hyps(2)[symmetric] valid_port_index[OF assms(1)] by (intro Cons.hyps(1)) auto
  then show ?case
    using Cons.prems Cons.hyps(2)[symmetric] assms(1)
    by (subst tsu_match.simps) (auto simp: wanted_def tsu_rx_get_timestamp_def)
qed

lemma recv_timestamp_first:
  assumes "valid_port p" "length (tsuRx e) = 4" "tsuRx e ! (unat p - 1) = es @ x # rest"
    and "\<forall>e \<in> set es. \<not> wanted mt seq (tsu_timestamp e)" "wanted mt seq (tsu_timestamp x)"
  shows "recv_timestamp mt seq p t0 e = Some (tsu_timestamp x, e\<lparr>tsuRx := (tsuRx e)[unat p - 1 := rest]\<rparr>)"
proof (cases es)
  case Nil
  have "tsu_match (msg_code mt) seq p (tsu_timestamp x, qs') = Some (tsu_timestamp x, qs')" for qs'
    using assms(5) by (subst tsu_match.simps) (auto simp: wanted_def)
  then show ?thesis using assms Nil by (simp add: recv_timestamp_def tsu_rx_get_timestamp_def)
next
  case (Cons y ys)
  let ?qs = "(tsuRx e)[unat p - 1 := ys @ x # rest]"
  have "tsu_match (msg_code mt) seq p (tsu_timestamp y, ?qs) = Some (tsu_timestamp x, ?qs[unat p - 1 := rest])"
    using assms Cons valid_port_index[OF assms(1)] by (intro tsu_match_skip) auto
  then show ?thesis using assms(1-3) Cons by (simp add: recv_timestamp_def tsu_rx_get_timestamp_def)
qed

lemma recv_timestamp_never:
  assumes "valid_port p" "length (tsuRx e) = 4" "\<forall>x \<in> set (tsuRx e ! (unat p - 1)). \<not> wanted mt seq (tsu_timestamp x)"
  shows "recv_timestamp mt seq p t0 e = None"
proof (cases "tsuRx e ! (unat p - 1)")
  case (Cons y ys)
  then have "tsu_match (msg_code mt) seq p (tsu_timestamp y, (tsuRx e)[unat p - 1 := ys]) = None"
    using assms valid_port_index[OF assms(1)] by (intro tsu_match_never) auto
  then show ?thesis using assms(1) Cons by (simp add: recv_timestamp_def tsu_rx_get_timestamp_def)
qed (use assms(1) in \<open>simp add: recv_timestamp_def tsu_rx_get_timestamp_def\<close>)

section \<open>From one node to another\<close>

text \<open>
  The switch hands a packet to the processor of the peer behind a header of 32 bytes, whose third
  byte names the port it came in by; the buffer has \<open>MAX_PKT_LEN\<close> bytes.
\<close>

definition arrives_from :: "byte list \<Rightarrow> byte \<Rightarrow> byte list \<Rightarrow> bool" where
  "arrives_from sent c x \<longleftrightarrow> length x = MAX_PKT_LEN \<and> x ! 2 = c \<and> take (length sent - 32) (drop 32 x) = drop 32 sent"

lemma length_eth_header [simp]: "length eth_header = 14"
  by (simp add: eth_header_def)

lemma sent_packet:
  assumes "send_ptp_frame f p tx = Some tx'" "length (txBufferPtr tx) = MAX_PKT_LEN"
  shows "drop 32 (last (dma_sent tx')) = eth_header @ f" "length (last (dma_sent tx')) = length f + 46"
    "length (txBufferPtr tx') = MAX_PKT_LEN"
  using assms
  by (auto simp: send_ptp_frame_def blit_def wr_def bind_eq_Some_conv split: option.splits if_splits)

lemma port_cases: "1 \<le> (p :: 16 word) \<Longrightarrow> p \<le> 4 \<Longrightarrow> p = 1 \<or> p = 2 \<or> p = 3 \<or> p = 4"
  by (simp add: word_le_nat_alt word_unat_eq_iff) linarith

text \<open>The packet names the port by one bit.\<close>

lemma sent_port:
  assumes "send_ptp_frame f p tx = Some tx'" "length (txBufferPtr tx) = MAX_PKT_LEN" "1 \<le> p" "p \<le> 4"
  shows "last (dma_sent tx') ! 2 = push_bit (2 * unat p - 1) 1"
  using port_cases[OF assms(3,4)] assms(1,2)
  by (elim disjE) (auto simp: send_ptp_frame_def dst_port_code_def blit_def wr_def bind_eq_Some_conv nth_append split: if_splits)

lemma arrived_packet:
  assumes "arrives_from P c x" "drop 32 P = eth_header @ f" "length P = length f + 46"
  obtains h r where "x = (h @ eth_header) @ f @ r" "length (h @ eth_header) = 46"
proof
  show "x = (take 32 x @ eth_header) @ f @ drop (length P) x"
  proof -
    have "drop (length P - 32) (drop 32 x) = drop (length P) x" using assms(3) by (simp add: add.commute)
    then have "drop 32 x = eth_header @ f @ drop (length P) x"
      using assms(1,2) append_take_drop_id[of "length P - 32" "drop 32 x"] by (simp add: arrives_from_def)
    then show ?thesis using append_take_drop_id[of 32 x] by simp
  qed
  show "length (take 32 x @ eth_header) = 46" using assms(1) by (simp add: arrives_from_def eth_header_def)
qed

lemma pop_received:
  assumes "queue_wf (rxQueue rx)" "packets (rxQueue rx) = x # xs" "length x = MAX_PKT_LEN" "length (rxBufferPtr rx) = MAX_PKT_LEN"
  shows "\<exists>q n. pop_queue (rxQueue rx) (rxBufferPtr rx) = Some (q, x, n) \<and> queue_wf q \<and> packets q = xs \<and>
    0 < q_size (rxQueue rx)"
proof -
  have "0 < q_size (rxQueue rx)" using arg_cong[OF assms(2), of length] by simp
  then show ?thesis using ok_pop_queue[OF assms(1,2), of "rxBufferPtr rx"] assms(3,4) by (fastforce simp: ok_iff)
qed

section \<open>Concrete packets\<close>

text \<open>A packet as it arrives, and a receiver whose queue holds one packet.\<close>

definition tx_idle :: EthTx where
  "tx_idle = \<lparr>txBufferPtr = replicate 1600 0, dma_sent = []\<rparr>"

definition delivered :: "byte \<Rightarrow> byte list \<Rightarrow> byte list" where
  "delivered c f = [0, 0, c] @ replicate 29 0 @ eth_header @ f @ replicate (1554 - length f) 0"

definition rx_one :: "byte list \<Rightarrow> tsu_entry list \<Rightarrow> EthRx" where
  "rx_one x es = \<lparr>rxBufferPtr = replicate 1600 0,
     rxQueue = \<lparr>q_front = 0, q_rear = 1, q_size = 1, buf_array = (x @ [0]) # replicate 63 (replicate 1601 0),
       len_array = 1600 # replicate 63 0\<rparr>,
     tsuRx = [es, [], [], []]\<rparr>"

lemma length_delivered: "length f \<le> 1554 \<Longrightarrow> length (delivered c f) = 1600"
  by (simp add: delivered_def)

lemma rx_one_packet:
  assumes "length x = 1600"
  shows "queue_wf (rxQueue (rx_one x es))" "packets (rxQueue (rx_one x es)) = [x]"
    "length (rxBufferPtr (rx_one x es)) = MAX_PKT_LEN" "length (tsuRx (rx_one x es)) = 4" "tsuRx (rx_one x es) ! 0 = es"
  using assms by (auto simp: rx_one_def queue_wf_def packets_def slot_def)

lemma send_idle:
  assumes "length f \<le> 1554"
  shows "\<exists>tx. send_ptp_frame f 1 tx_idle = Some tx \<and> arrives_from (last (dma_sent tx)) c (delivered c f)"
proof -
  obtain tx where tx: "send_ptp_frame f 1 tx_idle = Some tx"
    using assms by (simp add: send_ptp_frame_def dst_port_code_def tx_idle_def wr_in blit_def)
  have "length (txBufferPtr tx_idle) = MAX_PKT_LEN" by (simp add: tx_idle_def)
  note sent = sent_packet[OF tx this]
  have "arrives_from (last (dma_sent tx)) c (delivered c f)"
    unfolding arrives_from_def sent using assms by (simp add: delivered_def numeral_2_eq_2)
  with tx show ?thesis by blast
qed

lemma parse_delivered: "ParseSrcPort (delivered 0x01 f) = 1"
  by (simp add: ParseSrcPort_def delivered_def numeral_2_eq_2)

definition example_header :: "PTPMsgType \<Rightarrow> PTPMsgHeader" where
  "example_header mt = ptp_msg_header_template mt 44 \<lparr>clockIdentity = 0x000A35FFFECCF973, portNumber = 2\<rparr> 7 0 0"

lemma example_header_fits: "mt \<noteq> NO_FRAME \<Longrightarrow> header_fits (example_header mt)"
  by (cases mt) (simp_all add: example_header_def ptp_msg_header_template_def header_fits_def)

lemma example_header_type: "messageType (example_header mt) = msg_code mt" "sequenceId (example_header mt) = 7"
  by (simp_all add: example_header_def ptp_msg_header_template_def)

definition example_announce :: PTPMsgAnnounce where
  "example_announce = \<lparr>ann_head = example_header ANNOUNCE, ann_currentUtcOffset = 37, grandmasterPriority1 = 246,
     gmClockClass = 248, gmClockAccuracy = 0xFE, gmOffsetScaledLogVariance = 0x436A, grandmasterPriority2 = 248,
     grandmasterIdentity = 0x000A35FFFECCF973, ann_stepsRemoved = 0, ann_timeSource = 0xA0,
     pathTraceTLV = \<lparr>tlvType = 8, lengthField = 8, pathSequence = 0x000A35FFFECCF973 # replicate 7 0\<rparr>\<rparr>"

definition announce_bytes :: "byte list" where
  "announce_bytes = the (announce_frame example_announce)"

lemma announce_bytes_are: "announce_frame example_announce = Some announce_bytes" "length announce_bytes = 76"
  by (simp_all add: announce_bytes_def announce_frame_def example_announce_def le16_def)

definition example_sync :: PTPMsgSync where
  "example_sync = \<lparr>sync_head = example_header SYNC\<rparr>"

definition old_stamp :: tsu_entry where
  "old_stamp = \<lparr>data_hh = 0, data_hl = 4, data_lh = 5, data_ll = 0x00000006\<rparr>"

definition new_stamp :: tsu_entry where
  "new_stamp = \<lparr>data_hh = 0, data_hl = 4, data_lh = 500, data_ll = 0x00000007\<rparr>"

lemma stamps:
  "\<not> wanted SYNC 7 (tsu_timestamp old_stamp)" "wanted SYNC 7 (tsu_timestamp new_stamp)"
  by (simp_all add: wanted_def tsu_timestamp_def old_stamp_def new_stamp_def)

lemma delivered_header:
  "get_ptp_msg_header (delivered c (set_ptp_frame_header h @ g)) 46 = get_ptp_msg_header (set_ptp_frame_header h @ g @ replicate (1520 - length g) 0) 0"
  using get_header_shift[of "[0, 0, c] @ replicate 29 0 @ eth_header" "set_ptp_frame_header h @ g @ replicate (1520 - length g) 0"]
  by (simp add: delivered_def)

section \<open>Delivery and its failures\<close>

lemma announce_arrives:
  assumes "announce_frame m = Some f" "send_ptp_frame f p tx = Some tx'" "length (txBufferPtr tx) = MAX_PKT_LEN"
    and "header_fits (ann_head m)" "messageType (ann_head m) = msg_code ANNOUNCE"
    and "k \<le> 8" "k \<le> length (pathSequence (pathTraceTLV m))" "lengthField (pathTraceTLV m) = of_nat (8 * k)"
    and "arrives_from (last (dma_sent tx')) c x" "packets (rxQueue rx) = x # xs"
    and "queue_wf (rxQueue rx)" "length (rxBufferPtr rx) = MAX_PKT_LEN" "length junk = 8"
  shows "\<exists>rx'. recv_ptp_frame t0 junk pn rx = Some (RcvdAnnounce (m\<lparr>pathTraceTLV := (pathTraceTLV m)\<lparr>pathSequence :=
       take k (pathSequence (pathTraceTLV m)) @ drop k junk\<rparr>\<rparr>), ParseSrcPort x, rx') \<and> packets (rxQueue rx') = xs"
proof -
  obtain h r where x: "x = (h @ eth_header) @ f @ r" and l: "length (h @ eth_header) = 46"
    using arrived_packet[OF assms(9)] sent_packet[OF assms(2,3)] by metis
  obtain q n where q: "pop_queue (rxQueue rx) (rxBufferPtr rx) = Some (q, x, n)" "packets q = xs" "0 < q_size (rxQueue rx)"
    using pop_received[OF assms(11,10)] assms(9,12) by (auto simp: arrives_from_def)
  obtain f' where f': "announce_frame m = Some f'"
    "recv_announce junk (f' @ r) 0 = Some (m\<lparr>pathTraceTLV := (pathTraceTLV m)\<lparr>pathSequence :=
       take k (pathSequence (pathTraceTLV m)) @ drop k junk\<rparr>\<rparr>)"
    by (rule announce_read[OF assms(4,13,6,7,8)])
  have "recv_announce junk x 46 = recv_announce junk (f @ r) 0"
    using recv_announce_shift[of junk "h @ eth_header" "f @ r"] l by (simp add: x)
  moreover have "get_ptp_msg_header x 46 = ann_head m"
  proof -
    have "get_ptp_msg_header x 46 = get_ptp_msg_header (f @ r) 0"
      using get_header_shift[of "h @ eth_header" "f @ r"] l by (simp add: x)
    moreover obtain g where "f = set_ptp_frame_header (ann_head m) @ g"
      using assms(1) by (auto simp: announce_frame_def Let_def split: if_splits)
    ultimately show ?thesis using header_read[OF assms(4), of "g @ r"] by simp
  qed
  ultimately show ?thesis
    using q f' assms(1,5) by (simp add: recv_ptp_frame_def Let_def)
qed

text \<open>
  C25. An Announce message that a node sends on a port is received by its peer: the frame that
  \<open>txAnnounce\<close> builds and \<open>send_ptp_frame\<close> hands to the DMA engine is parsed by \<open>recv_ptp_frame\<close> into
  the message that was sent, with the port it came in by, for every value of every member.
  Of the path trace the \<open>lengthField\<close> bytes are carried over.
\<close>

theorem announce_delivered:
  assumes "announce_frame m = Some f" "send_ptp_frame f p tx = Some tx'" "length (txBufferPtr tx) = MAX_PKT_LEN"
    and "header_fits (ann_head m)" "messageType (ann_head m) = msg_code ANNOUNCE"
    and "k \<le> 8" "k \<le> length (pathSequence (pathTraceTLV m))" "lengthField (pathTraceTLV m) = of_nat (8 * k)"
    and "arrives_from (last (dma_sent tx')) c x" "packets (rxQueue rx) = x # xs"
    and "queue_wf (rxQueue rx)" "length (rxBufferPtr rx) = MAX_PKT_LEN" "length junk = 8"
  shows "\<exists>rx'. recv_ptp_frame t0 junk pn rx = Some (RcvdAnnounce (m\<lparr>pathTraceTLV := (pathTraceTLV m)\<lparr>pathSequence :=
       take k (pathSequence (pathTraceTLV m)) @ drop k junk\<rparr>\<rparr>), ParseSrcPort x, rx') \<and> packets (rxQueue rx') = xs"
  using assms by (rule announce_arrives)

theorem announce_delivered_witness:
  "\<exists>rx. recv_ptp_frame (tsu_timestamp old_stamp) (replicate 8 0) 0 (rx_one (delivered 0x01 announce_bytes) []) =
     Some (RcvdAnnounce example_announce, 1, rx) \<and> packets (rxQueue rx) = []"
proof -
  obtain tx where tx: "send_ptp_frame announce_bytes 1 tx_idle = Some tx"
    "arrives_from (last (dma_sent tx)) 0x01 (delivered 0x01 announce_bytes)"
    using send_idle[of announce_bytes "0x01"] announce_bytes_are by auto
  have "length (delivered 0x01 announce_bytes) = 1600" by (simp add: length_delivered announce_bytes_are)
  note rx = rx_one_packet[OF this, of "[]"]
  have "\<exists>rx. recv_ptp_frame (tsu_timestamp old_stamp) (replicate 8 0) 0 (rx_one (delivered 0x01 announce_bytes) []) =
     Some (RcvdAnnounce (example_announce\<lparr>pathTraceTLV := (pathTraceTLV example_announce)\<lparr>pathSequence :=
       take 1 (pathSequence (pathTraceTLV example_announce)) @ drop 1 (replicate 8 0)\<rparr>\<rparr>),
       ParseSrcPort (delivered 0x01 announce_bytes), rx) \<and> packets (rxQueue rx) = []"
    by (rule announce_delivered[OF announce_bytes_are(1) tx(1) _ _ _ _ _ _ tx(2) rx(2,1,3)])
      (simp_all add: tx_idle_def example_announce_def example_header_fits example_header_type)
  then show ?thesis by (simp add: parse_delivered example_announce_def eval_nat_numeral)
qed

text \<open>
  A Sync message reaches the peer together with its own time stamp: whatever stamps of earlier
  frames are still in the queue of the unit, \<open>recv_ptp_frame\<close> throws those away that do not fit and
  returns the first one with the type and sequence number of the frame.
\<close>

theorem sync_delivered:
  assumes "send_ptp_frame (sync_frame m) p tx = Some tx'" "length (txBufferPtr tx) = MAX_PKT_LEN"
    and "header_fits (sync_head m)" "messageType (sync_head m) = msg_code SYNC"
    and "arrives_from (last (dma_sent tx')) c x" "packets (rxQueue rx) = x # xs"
    and "queue_wf (rxQueue rx)" "length (rxBufferPtr rx) = MAX_PKT_LEN"
    and "valid_port (ParseSrcPort x)" "length (tsuRx rx) = 4" "tsuRx rx ! (unat (ParseSrcPort x) - 1) = es @ y # rest"
    and "\<forall>e \<in> set es. \<not> wanted SYNC (sequenceId (sync_head m)) (tsu_timestamp e)"
    and "wanted SYNC (sequenceId (sync_head m)) (tsu_timestamp y)"
  shows "\<exists>rx'. recv_ptp_frame t0 junk pn rx = Some (RcvdSync m (tsu_timestamp y), ParseSrcPort x, rx') \<and>
    packets (rxQueue rx') = xs \<and> tsuRx rx' = (tsuRx rx)[unat (ParseSrcPort x) - 1 := rest]"
proof -
  obtain h r where x: "x = (h @ eth_header) @ sync_frame m @ r" and l: "length (h @ eth_header) = 46"
    using arrived_packet[OF assms(5)] sent_packet[OF assms(1,2)] by metis
  obtain q n where q: "pop_queue (rxQueue rx) (rxBufferPtr rx) = Some (q, x, n)" "packets q = xs" "0 < q_size (rxQueue rx)"
    using pop_received[OF assms(7,6)] assms(5,8) by (auto simp: arrives_from_def)
  have m: "recv_sync x 46 = m"
    using recv_shift(4)[of "h @ eth_header" "sync_frame m @ r"] l pdelay_read(3)[OF assms(3)] by (simp add: x)
  then have hd: "get_ptp_msg_header x 46 = sync_head m" by (metis PTPMsgSync.select_convs(1) recv_sync_def)
  let ?rx = "rx\<lparr>rxQueue := q, rxBufferPtr := x\<rparr>"
  have "recv_timestamp SYNC (sequenceId (sync_head m)) (ParseSrcPort x) t0 ?rx =
      Some (tsu_timestamp y, ?rx\<lparr>tsuRx := (tsuRx ?rx)[unat (ParseSrcPort x) - 1 := rest]\<rparr>)"
    by (rule recv_timestamp_first) (use assms in auto)
  then show ?thesis
    using q m hd assms(4) by (simp add: recv_ptp_frame_def Let_def)
qed

theorem sync_delivered_witness:
  "\<exists>rx. recv_ptp_frame (tsu_timestamp old_stamp) [] 0 (rx_one (delivered 0x01 (sync_frame example_sync)) [old_stamp, new_stamp]) =
     Some (RcvdSync example_sync (tsu_timestamp new_stamp), 1, rx) \<and> packets (rxQueue rx) = [] \<and>
     tsuRx rx = [[], [], [], []]"
proof -
  let ?f = "sync_frame example_sync"
  have l: "length ?f = 44" by (simp add: sync_frame_def)
  obtain tx where tx: "send_ptp_frame ?f 1 tx_idle = Some tx" "arrives_from (last (dma_sent tx)) 0x01 (delivered 0x01 ?f)"
    using send_idle[of ?f "0x01"] l by auto
  have "length (delivered 0x01 ?f) = 1600" by (simp add: length_delivered l)
  note rx = rx_one_packet[OF this, of "[old_stamp, new_stamp]"]
  have "\<exists>rx. recv_ptp_frame (tsu_timestamp old_stamp) [] 0 (rx_one (delivered 0x01 ?f) [old_stamp, new_stamp]) =
     Some (RcvdSync example_sync (tsu_timestamp new_stamp), ParseSrcPort (delivered 0x01 ?f), rx) \<and> packets (rxQueue rx) = [] \<and>
     tsuRx rx = (tsuRx (rx_one (delivered 0x01 ?f) [old_stamp, new_stamp]))[unat (ParseSrcPort (delivered 0x01 ?f)) - 1 := []]"
    by (rule sync_delivered[OF tx(1) _ _ _ tx(2) rx(2,1,3) _ rx(4), where es = "[old_stamp]"])
      (simp_all add: tx_idle_def example_sync_def example_header_fits example_header_type parse_delivered valid_port_def
        rx(5)[unfolded example_sync_def] stamps)
  then show ?thesis by (simp add: parse_delivered rx_one_def)
qed

text \<open>
  One time stamp that the hardware loses stops the daemon: when none of the stamps of the port
  fits a received Sync message, \<open>recv_ptp_frame\<close> never returns.
\<close>

theorem missing_timestamp_blocks:
  assumes "packets (rxQueue rx) = x # xs" "length x = MAX_PKT_LEN" "queue_wf (rxQueue rx)" "length (rxBufferPtr rx) = MAX_PKT_LEN"
    and "messageType (get_ptp_msg_header x PAY_LOAD_OFFSET) = msg_code SYNC"
    and "valid_port (ParseSrcPort x)" "length (tsuRx rx) = 4"
    and "\<forall>e \<in> set (tsuRx rx ! (unat (ParseSrcPort x) - 1)).
      \<not> wanted SYNC (sequenceId (get_ptp_msg_header x PAY_LOAD_OFFSET)) (tsu_timestamp e)"
  shows "recv_ptp_frame t0 junk pn rx = None"
proof -
  obtain q n where q: "pop_queue (rxQueue rx) (rxBufferPtr rx) = Some (q, x, n)" "0 < q_size (rxQueue rx)"
    using pop_received[OF assms(3,1,2,4)] by auto
  have "recv_timestamp SYNC (sequenceId (get_ptp_msg_header x 46)) (ParseSrcPort x) t0 (rx\<lparr>rxQueue := q, rxBufferPtr := x\<rparr>) = None"
    by (rule recv_timestamp_never) (use assms in auto)
  then show ?thesis using q assms(5) by (simp add: recv_ptp_frame_def Let_def)
qed

theorem missing_timestamp_blocks_witness:
  "recv_ptp_frame (tsu_timestamp old_stamp) [] 0 (rx_one (delivered 0x01 (sync_frame example_sync)) [old_stamp]) = None"
proof -
  let ?f = "sync_frame example_sync"
  have "length (delivered 0x01 ?f) = 1600" by (simp add: length_delivered sync_frame_def)
  note rx = rx_one_packet[OF this, of "[old_stamp]"] this
  have "get_ptp_msg_header (delivered 0x01 ?f) 46 = example_header SYNC"
    by (simp add: sync_frame_def delivered_header header_read example_header_fits example_sync_def)
  with rx show ?thesis
    by (intro missing_timestamp_blocks[OF rx(2)])
      (simp_all add: parse_delivered valid_port_def example_header_type stamps)
qed

text \<open>
  The length of the path trace is believed: an Announce frame that names more than 64 bytes makes
  \<open>recv_ptp_frame\<close> write past the end of the message it has allocated.
\<close>

theorem long_path_trace_overflows:
  assumes "packets (rxQueue rx) = x # xs" "length x = MAX_PKT_LEN" "queue_wf (rxQueue rx)" "length (rxBufferPtr rx) = MAX_PKT_LEN"
    and "messageType (get_ptp_msg_header x PAY_LOAD_OFFSET) = msg_code ANNOUNCE"
    and "64 < ntohs (read16 x (PAY_LOAD_OFFSET + 66))"
  shows "recv_ptp_frame t0 junk pn rx = None"
proof -
  obtain q n where q: "pop_queue (rxQueue rx) (rxBufferPtr rx) = Some (q, x, n)" "0 < q_size (rxQueue rx)"
    using pop_received[OF assms(3,1,2,4)] by auto
  have "recv_announce junk x 46 = None"
    using assms(6) by (simp add: recv_announce_def Let_def word_less_nat_alt)
  then show ?thesis using q assms(5) by (simp add: recv_ptp_frame_def Let_def)
qed

definition long_announce :: "byte list" where
  "long_announce = set_ptp_frame_header (example_header ANNOUNCE) @ replicate 32 0 @ [0, 65]"

theorem long_path_trace_overflows_witness:
  "recv_ptp_frame (tsu_timestamp old_stamp) (replicate 8 0) 0 (rx_one (delivered 0x01 long_announce) []) = None"
proof -
  have "length (delivered 0x01 long_announce) = 1600" by (simp add: length_delivered long_announce_def)
  note rx = rx_one_packet[OF this, of "[]"] this
  have "get_ptp_msg_header (delivered 0x01 long_announce) 46 = example_header ANNOUNCE"
    by (simp add: long_announce_def delivered_header header_read example_header_fits)
  moreover have "read16 (delivered 0x01 long_announce) 112 = from_bytes [0, 65]"
    by (simp add: read16_def delivered_def long_announce_def nth_append)
  then have "ntohs (read16 (delivered 0x01 long_announce) 112) = 65"
    by (simp add: ntohs_def mem_byte_from_bytes) (simp add: from_bytes.simps)
  ultimately show ?thesis
    using rx by (intro long_path_trace_overflows[OF rx(2)]) (simp_all add: example_header_type)
qed

end
