(* ===== verification/TxMachine_Props.thy ===== *)
theory TxMachine_Props
  imports TxMachine EthFrame_Props
begin

text \<open>The transmitter keeps the size of its buffer, and a frame that fits is sent.\<close>

definition tx_wf :: "EthTx \<Rightarrow> bool" where
  "tx_wf e \<longleftrightarrow> length (txBufferPtr e) = MAX_PKT_LEN"

lemma ok_send_ptp_frame:
  assumes "tx_wf e" "length f \<le> 1554"
  shows "ok (send_ptp_frame f p e) tx_wf"
proof -
  have "\<exists>e'. send_ptp_frame f p e = Some e'"
    using assms by (simp add: send_ptp_frame_def tx_wf_def blit_def wr_in split: option.splits)
  then show ?thesis using sent_packet(3)[of f p e] assms(1) by (auto simp: ok_iff tx_wf_def)
qed

text \<open>
  A packet that carries a frame out of a port: the switch reads the third byte of the header of 32 bytes, in
  which the bit \<open>2 p - 1\<close> alone stands for the port \<open>p\<close>. \<open>sends\<close> is for frames with their ports, sent one
  after the other.
\<close>

definition carries :: "16 word \<times> byte list \<Rightarrow> byte list \<Rightarrow> bool" where
  "carries x packet \<longleftrightarrow> drop 32 packet = eth_header @ snd x \<and>
     (1 \<le> fst x \<and> fst x \<le> 4 \<longrightarrow> packet ! 2 = push_bit (2 * unat (fst x) - 1) 1)"

definition sends :: "(16 word \<times> byte list) list \<Rightarrow> EthTx \<Rightarrow> EthTx \<Rightarrow> bool" where
  "sends fs e e' \<longleftrightarrow> (\<exists>ps. dma_sent e' = dma_sent e @ ps \<and> list_all2 carries fs ps \<and> tx_wf e')"

lemma sends_nil: "tx_wf e \<Longrightarrow> sends [] e e"
  by (simp add: sends_def)

lemma sends_append: "sends fs e e' \<Longrightarrow> sends gs e' e'' \<Longrightarrow> sends (fs @ gs) e e''"
  unfolding sends_def by (metis append.assoc list_all2_appendI)

lemma send_sends:
  assumes "tx_wf e" "length f \<le> 1554"
  obtains e' where "send_ptp_frame f p e = Some e'" "sends [(p, f)] e e'" "tx_wf e'"
proof -
  obtain e' where e': "send_ptp_frame f p e = Some e'" "tx_wf e'"
    using ok_send_ptp_frame[OF assms, of p] by (auto simp: ok_iff)
  have l: "length (txBufferPtr e) = 1600" using assms(1) by (simp add: tx_wf_def)
  have "\<exists>q. dma_sent e' = dma_sent e @ [q]"
    using e'(1) by (auto simp: send_ptp_frame_def bind_eq_Some_conv)
  then have "dma_sent e' = dma_sent e @ [last (dma_sent e')]" by auto
  moreover have "drop 32 (last (dma_sent e')) = eth_header @ f" by (rule sent_packet(1)[OF e'(1) l])
  ultimately have "sends [(p, f)] e e'"
    unfolding sends_def carries_def using e'(2) sent_port[OF e'(1) l]
    by (intro exI[of _ "[last (dma_sent e')]"]) simp
  with e' that show thesis by blast
qed

end
