(* ===== verification/PortAnnounceTransmit_Props.thy ===== *)
theory PortAnnounceTransmit_Props
  imports PortAnnounceTransmit PortAnnounceInfo_Props TxMachine_Props
begin

text \<open>
  The PortAnnounceTransmit machine returns from every well-formed state, and sends one Announce
  message when it is due on a master port and none otherwise.
\<close>

section \<open>Well-formedness and rank\<close>

definition pos_interval :: "UScaledNs \<Rightarrow> bool" where
  "pos_interval i \<longleftrightarrow> subns i = 0 \<and> nsec i \<noteq> 0 \<and> nsec_msb i = 0"

lemma later_by_interval:
  assumes "usval t < 2 ^ 95" "pos_interval i"
  shows "uscaledns_compare t (uscaledns_add t i) < 0"
proof -
  have "i = \<lparr>subns = 0, nsec = nsec i, nsec_msb = 0\<rparr>" using assms(2) by (simp add: pos_interval_def)
  then show ?thesis using timeout_later[OF assms(1), of "nsec i"] assms(2) by (simp add: pos_interval_def)
qed

definition pat_globals :: "PatCtx \<Rightarrow> bool" where
  "pat_globals c \<longleftrightarrow> inst_wf (inst c) \<and> unat (thisPort (port c)) \<le> N_PORTS \<and> unat (nPathTrace (inst c)) \<le> MAX_PATH_TRACE_N \<and>
     tx_wf (eth c) \<and> pos_interval (announceInterval (port c)) \<and> pos_interval (interval2 (sm c))"

definition pat_wf :: "PatCtx \<Rightarrow> bool" where
  "pat_wf c \<longleftrightarrow> pat_globals c \<and> pat_state (sm c) \<notin> {PAT_BEFORE_INIT, PAT_REACTION} \<and>
     (pat_state (sm c) = pat_last_state (sm c) \<longrightarrow> pat_state (sm c) \<in> {PAT_IDLE, PAT_TRANSMIT_INIT})"

definition pat_rank :: "PatCtx \<Rightarrow> nat" where
  "pat_rank c = (case pat_state (sm c) of
       PAT_INIT \<Rightarrow> 10 | PAT_TRANSMIT_INIT \<Rightarrow> 9 | PAT_TRANSMIT_PERIODIC \<Rightarrow> 8 | PAT_TRANSMIT_ANNOUNCE \<Rightarrow> 4
     | PAT_IDLE \<Rightarrow> if pat_last_state (sm c) = PAT_IDLE then 9 else if pat_newInfo (sm c) then 5 else 3
     | _ \<Rightarrow> 0)"

definition pat_rest :: "PatCtx \<Rightarrow> bool" where
  "pat_rest c \<longleftrightarrow> pat_state (sm c) = PAT_IDLE \<and> pat_last_state (sm c) = PAT_IDLE"

section \<open>Sending\<close>

lemma announce_header_fits: "header_fits (ptp_msg_ann_header_template ANNOUNCE n p s i k g)"
  "messageType (ptp_msg_ann_header_template ANNOUNCE n p s i k g) = msg_code ANNOUNCE"
  by (simp_all add: header_fits_def ptp_msg_ann_header_template_def)

lemma setAnnounce_returns:
  assumes "unat (nPathTrace (inst c)) \<le> 8" "length (pathTrace (inst c)) = 8" "length junk = 8"
  obtains m f where "setAnnounce junk c = Some m" "announce_frame m = Some f" "length f = 68 + 8 * unat (nPathTrace (inst c))"
    "header_fits (ann_head m)" "messageType (ann_head m) = msg_code ANNOUNCE"
    "lengthField (pathTraceTLV m) = of_nat (8 * unat (nPathTrace (inst c)))"
    "pathSequence (pathTraceTLV m) = take (unat (nPathTrace (inst c))) (pathTrace (inst c)) @ drop (unat (nPathTrace (inst c))) junk"
proof -
  define n where "n = unat (nPathTrace (inst c))"
  have n: "n \<le> 8" using assms(1) by (simp add: n_def)
  have lf: "nPathTrace (inst c) * 8 = of_nat (8 * n)" by (simp add: n_def)
  have un: "unat (of_nat (8 * n) :: 16 word) = 8 * n" using n by (simp add: unat_of_nat take_bit_nat_eq_self del: of_nat_mult)
  have cp: "copy_identities (n * 8) (pathTrace (inst c)) junk = Some (take n (pathTrace (inst c)) @ drop n junk)"
    using n assms(2,3) by (simp add: copy_identities_def)
  obtain m where m: "setAnnounce junk c = Some m" "header_fits (ann_head m)" "messageType (ann_head m) = msg_code ANNOUNCE"
    "lengthField (pathTraceTLV m) = of_nat (8 * n)" "pathSequence (pathTraceTLV m) = take n (pathTrace (inst c)) @ drop n junk"
    using cp announce_header_fits(2)
    by (simp add: setAnnounce_def Let_def n_def[symmetric] lf announce_header_fits(1) del: of_nat_mult)
  moreover obtain f where "announce_frame m = Some f" "length f = 68 + 8 * n"
    using n assms(2,3) un
    by (simp add: announce_frame_def Let_def m(4,5) le16_def min_def del: of_nat_mult)
  ultimately show thesis using that unfolding n_def by blast
qed

lemma transmit_announce_action:
  assumes "pat_globals c" "length junk = 8"
  obtains m f e where "setAnnounce junk c = Some m" "announce_frame m = Some f" "tx_wf e"
    "send_ptp_frame f (thisPort (port c)) (eth c) = Some e"
    "pat_transmit_announce_action junk c = Some (c\<lparr>sm := (sm c)\<lparr>pat_newInfo := False, txAnnouncePtr := Live m,
       interval2 := announceInterval (port c)\<rparr>, eth := e\<rparr>)"
proof -
  have g: "unat (nPathTrace (inst c)) \<le> 8" "length (pathTrace (inst c)) = 8" "tx_wf (eth c)"
    using assms(1) by (simp_all add: pat_globals_def inst_wf_def)
  let ?c = "c\<lparr>sm := (sm c)\<lparr>pat_newInfo := False\<rparr>\<rparr>"
  obtain m f where m: "setAnnounce junk ?c = Some m" "announce_frame m = Some f" "length f = 68 + 8 * unat (nPathTrace (inst c))"
    by (rule setAnnounce_returns[of ?c junk]) (use g assms(2) in auto)
  obtain e where e: "send_ptp_frame f (thisPort (port c)) (eth c) = Some e" "tx_wf e"
    using ok_send_ptp_frame[OF g(3), of f "thisPort (port c)"] m(3) g(1) by (auto simp: ok_iff)
  have "setAnnounce junk c = Some m" using m(1) by (simp add: setAnnounce_def)
  then show thesis using that[OF _ m(2) e(2,1)] m e
    by (simp add: pat_transmit_announce_action_def txAnnounce_def Let_def)
qed

section \<open>Every run ends\<close>

definition pat_inv :: "ClockIdentity list \<Rightarrow> UScaledNs \<Rightarrow> PatCtx \<Rightarrow> bool" where
  "pat_inv junk t c \<longleftrightarrow> pat_wf c \<and> usval t < 2 ^ 95 \<and> length junk = 8"

interpretation pat: state_machine "pat_body junk t" "pat_inv junk t" pat_rank pat_rest for junk t
proof
  fix c assume inv: "pat_inv junk t c"
  then have wf: "pat_wf c" and g: "pat_globals c" and t: "usval t < 2 ^ 95" and junk: "length junk = 8"
    by (simp_all add: pat_inv_def pat_wf_def)
  have lens: "length (selected (inst c)) = 5" "length (selectedState (inst c)) = 5" "tidx c \<le> 4"
    using g by (simp_all add: pat_globals_def inst_wf_def)
  have later: "uscaledns_compare t (uscaledns_add t (interval2 (sm c))) < 0"
    using later_by_interval[OF t] g by (simp add: pat_globals_def)
  note d = pat_body_def Let_def pat_goto_def pat_inv_def pat_wf_def pat_globals_def pat_rank_def pat_rest_def
  show "ok (pat_body junk t c) (\<lambda>(d, changed). pat_inv junk t d \<and> (if changed then pat_rank d < pat_rank c else pat_rest d))"
  proof (cases "pat_state (sm c)")
    case PAT_INIT
    then show ?thesis using inv by (simp add: d)
  next
    case PAT_TRANSMIT_INIT
    then show ?thesis using inv by (simp add: d pat_transmit_init_action_def)
  next
    case PAT_TRANSMIT_PERIODIC
    then show ?thesis using inv by (simp add: d pat_transmit_periodic_action_def)
  next
    case PAT_IDLE
    note st = this
    show ?thesis
    proof (cases "pat_last_state (sm c) = PAT_IDLE")
      case True
      then show ?thesis using st wf g t junk lens
        by (simp add: pat_body_def Let_def pat_goto_def pat_idle_transition_def rd_in)
          (simp add: pat_inv_def pat_wf_def pat_globals_def pat_rank_def pat_rest_def)
    next
      case False
      then show ?thesis using st wf g t junk lens later
        by (simp add: pat_body_def Let_def pat_goto_def pat_idle_action_def pat_idle_transition_def rd_in)
          (simp add: pat_inv_def pat_wf_def pat_globals_def pat_rank_def pat_rest_def)
    qed
  next
    case PAT_TRANSMIT_ANNOUNCE
    then have ch: "pat_last_state (sm c) \<noteq> PAT_TRANSMIT_ANNOUNCE" using wf by (auto simp: pat_wf_def)
    let ?c = "c\<lparr>sm := (sm c)\<lparr>pat_last_state := PAT_TRANSMIT_ANNOUNCE\<rparr>\<rparr>"
    have "pat_globals ?c" using g by (simp add: pat_globals_def)
    from transmit_announce_action[OF this junk] obtain m f e where
      e: "tx_wf e" "pat_transmit_announce_action junk ?c = Some (?c\<lparr>sm := (sm ?c)\<lparr>pat_newInfo := False,
        txAnnouncePtr := Live m, interval2 := announceInterval (port ?c)\<rparr>, eth := e\<rparr>)" .
    define c' where "c' = c\<lparr>sm := (sm c)\<lparr>pat_last_state := PAT_TRANSMIT_ANNOUNCE, pat_newInfo := False, txAnnouncePtr := Live m,
      interval2 := announceInterval (port c), pat_state := PAT_IDLE\<rparr>, eth := e\<rparr>"
    have "pat_body junk t c = Some (c', True)"
      using PAT_TRANSMIT_ANNOUNCE ch e(2) by (simp add: pat_body_def Let_def pat_goto_def c'_def)
    moreover have "pat_inv junk t c'"
      using g t junk e(1) by (simp add: pat_inv_def pat_wf_def pat_globals_def c'_def)
    moreover have "pat_rank c' < pat_rank c"
      using PAT_TRANSMIT_ANNOUNCE by (simp add: pat_rank_def c'_def)
    ultimately show ?thesis by simp
  qed (use wf in \<open>simp_all add: pat_wf_def\<close>)
qed

text \<open>
  Every call of \<open>port_announce_transmit_sm_run\<close> returns, with the machine idle and its state well
  formed, whatever state it starts in, as long as the announce interval is not zero.
\<close>

theorem announce_transmit_returns:
  assumes "pat_wf c" "usval t < 2 ^ 95" "length junk = 8"
  shows "ok (port_announce_transmit_sm_run junk t c) (\<lambda>d. pat_wf d \<and> pat_rest d)"
proof -
  have "pat_inv junk t (pat_goto (pat_all_state_transition c) c)"
    using assms by (auto simp: pat_inv_def pat_wf_def pat_globals_def pat_goto_def pat_all_state_transition_def)
  from pat.loop_ok[OF this] show ?thesis
    unfolding port_announce_transmit_sm_run_def by (rule ok_weaken) (simp add: pat_inv_def)
qed

section \<open>When a message is sent\<close>

definition pat_active :: "PatCtx \<Rightarrow> bool" where
  "pat_active c \<longleftrightarrow> pat_wf c \<and> pat_rest c \<and> \<not> BEGIN (inst c) \<and> instanceEnable (inst c) \<and>
     selected (inst c) ! tidx c \<and> \<not> updtInfo (port c) \<and> \<not> asymmetryMeasurementMode (port c)"

lemma announce_due_run:
  assumes act: "pat_active c" and t: "usval t < 2 ^ 95" "uscaledns_compare t (announceSendTime (sm c)) \<ge> 0"
    and junk: "length junk = 8"
  shows "if selectedState (inst c) ! tidx c = MASTER_PORT
    then \<exists>m f e d. setAnnounce junk c = Some m \<and> announce_frame m = Some f \<and>
      send_ptp_frame f (thisPort (port c)) (eth c) = Some e \<and> port_announce_transmit_sm_run junk t c = Some d \<and> eth d = e \<and>
      announceSendTime (sm d) = uscaledns_add t (announceInterval (port c)) \<and> pat_active d
    else \<exists>d. port_announce_transmit_sm_run junk t c = Some d \<and> eth d = eth c \<and> pat_active d"
proof -
  have g: "pat_globals c" and st: "pat_state (sm c) = PAT_IDLE" "pat_last_state (sm c) = PAT_IDLE"
    and lens: "length (selected (inst c)) = 5" "length (selectedState (inst c)) = 5" "tidx c \<le> 4"
    and ready: "selected (inst c) ! tidx c" "\<not> updtInfo (port c)" "\<not> asymmetryMeasurementMode (port c)"
    using act by (simp_all add: pat_active_def pat_wf_def pat_globals_def inst_wf_def pat_rest_def)
  have later: "uscaledns_compare t (uscaledns_add t (interval2 (sm c))) < 0"
    "uscaledns_compare t (uscaledns_add t (announceInterval (port c))) < 0"
    using later_by_interval[OF t(1)] g by (simp_all add: pat_globals_def)
  have "pat_all_state_transition c = pat_state (sm c)"
    using act by (simp add: pat_all_state_transition_def pat_active_def)
  then have run: "port_announce_transmit_sm_run junk t c = sm_loop (pat_body junk t) c"
    by (simp add: port_announce_transmit_sm_run_def pat_goto_def)
  note body = pat_body_def Let_def pat_goto_def
  define c1 where "c1 = c\<lparr>sm := (sm c)\<lparr>pat_last_state := PAT_IDLE, pat_state := PAT_TRANSMIT_PERIODIC\<rparr>\<rparr>"
  have t1: "pat_body junk t c = Some (c1, True)"
    using st t(2) lens ready by (simp add: body pat_idle_transition_def rd_in c1_def)
  define c2 where "c2 = c1\<lparr>sm := (sm c1)\<lparr>pat_newInfo := True, pat_last_state := PAT_TRANSMIT_PERIODIC, pat_state := PAT_IDLE\<rparr>\<rparr>"
  have t2: "pat_body junk t c1 = Some (c2, True)"
    by (simp add: body pat_transmit_periodic_action_def c1_def c2_def)
  show ?thesis
  proof (cases "selectedState (inst c) ! tidx c = MASTER_PORT")
    case False
    define c3 where "c3 = c2\<lparr>sm := (sm c2)\<lparr>pat_last_state := PAT_IDLE, announceSendTime := uscaledns_add t (interval2 (sm c))\<rparr>\<rparr>"
    have t3: "pat_body junk t c2 = Some (c3, False)"
      using lens ready later False by (simp add: body pat_idle_action_def pat_idle_transition_def rd_in c1_def c2_def c3_def)
    have "sm_loop (pat_body junk t) c = Some c3"
      using sm_loop_turn[of "pat_body junk t", OF t1] sm_loop_turn[of "pat_body junk t", OF t2]
        sm_loop_stop[of "pat_body junk t", OF t3] by simp
    moreover have "pat_active c3"
      using act by (simp add: pat_active_def pat_wf_def pat_rest_def pat_globals_def c1_def c2_def c3_def)
    moreover have "eth c3 = eth c" by (simp add: c1_def c2_def c3_def)
    ultimately show ?thesis using False run by simp
  next
    case True
    define c3 where "c3 = c2\<lparr>sm := (sm c2)\<lparr>pat_last_state := PAT_IDLE, announceSendTime := uscaledns_add t (interval2 (sm c)),
      pat_state := PAT_TRANSMIT_ANNOUNCE\<rparr>\<rparr>"
    have t3: "pat_body junk t c2 = Some (c3, True)"
      using lens ready later True by (simp add: body pat_idle_action_def pat_idle_transition_def rd_in c1_def c2_def c3_def)
    let ?c3 = "c3\<lparr>sm := (sm c3)\<lparr>pat_last_state := PAT_TRANSMIT_ANNOUNCE\<rparr>\<rparr>"
    have "pat_globals ?c3" using g by (simp add: pat_globals_def c1_def c2_def c3_def)
    then obtain m f e where m: "setAnnounce junk ?c3 = Some m" "announce_frame m = Some f"
      "send_ptp_frame f (thisPort (port ?c3)) (eth ?c3) = Some e" "tx_wf e"
      "pat_transmit_announce_action junk ?c3 = Some (?c3\<lparr>sm := (sm ?c3)\<lparr>pat_newInfo := False, txAnnouncePtr := Live m,
         interval2 := announceInterval (port ?c3)\<rparr>, eth := e\<rparr>)"
      using transmit_announce_action[OF _ junk] by metis
    define c4 where "c4 = ?c3\<lparr>sm := (sm ?c3)\<lparr>pat_newInfo := False, txAnnouncePtr := Live m,
         interval2 := announceInterval (port c), pat_state := PAT_IDLE\<rparr>, eth := e\<rparr>"
    have t4: "pat_body junk t c3 = Some (c4, True)"
      using m(5) by (simp add: body c3_def c2_def c1_def c4_def)
    define c5 where "c5 = c4\<lparr>sm := (sm c4)\<lparr>pat_last_state := PAT_IDLE, announceSendTime := uscaledns_add t (announceInterval (port c))\<rparr>\<rparr>"
    have t5: "pat_body junk t c4 = Some (c5, False)"
      using lens ready later by (simp add: body pat_idle_action_def pat_idle_transition_def rd_in c1_def c2_def c3_def c4_def c5_def)
    have "sm_loop (pat_body junk t) c = Some c5"
      using sm_loop_turn[of "pat_body junk t", OF t1] sm_loop_turn[of "pat_body junk t", OF t2]
        sm_loop_turn[of "pat_body junk t", OF t3] sm_loop_turn[of "pat_body junk t", OF t4]
        sm_loop_stop[of "pat_body junk t", OF t5] by simp
    moreover have "pat_active c5"
      using act m(4) by (simp add: pat_active_def pat_wf_def pat_rest_def pat_globals_def c1_def c2_def c3_def c4_def c5_def)
    moreover have "setAnnounce junk c = Some m" using m(1) by (simp add: setAnnounce_def c1_def c2_def c3_def)
    moreover have "eth c5 = e" "announceSendTime (sm c5) = uscaledns_add t (announceInterval (port c))"
      by (simp_all add: c5_def c4_def)
    moreover have "send_ptp_frame f (thisPort (port c)) (eth c) = Some e" using m(3) by (simp add: c1_def c2_def c3_def)
    ultimately show ?thesis using True m(2) run by auto
  qed
qed

text \<open>
  When the time of a port has come, one run sends exactly one Announce message if the port is in
  the master role, with the port's master priority, and the next time is one announce interval
  later; on any other port nothing is sent.
\<close>

theorem announce_sent_when_due:
  assumes "pat_active c" "usval t < 2 ^ 95" "uscaledns_compare t (announceSendTime (sm c)) \<ge> 0" "length junk = 8"
  shows "if selectedState (inst c) ! tidx c = MASTER_PORT
    then \<exists>m f e d. setAnnounce junk c = Some m \<and> announce_frame m = Some f \<and>
      send_ptp_frame f (thisPort (port c)) (eth c) = Some e \<and> port_announce_transmit_sm_run junk t c = Some d \<and> eth d = e \<and>
      announceSendTime (sm d) = uscaledns_add t (announceInterval (port c)) \<and> pat_active d
    else \<exists>d. port_announce_transmit_sm_run junk t c = Some d \<and> eth d = eth c \<and> pat_active d"
  by (rule announce_due_run[OF assms])

end
