(* ===== verification/PortStateSelection.thy ===== *)
theory PortStateSelection
  imports Machine PriorityVec
begin

text \<open>
  The PortStateSelection state machine (\<open>time_sync/port_state_selection_sm.c\<close>): the best master
  clock algorithm. It elects the grandmaster among the system itself and what the ports have
  received, and gives every port its state.
\<close>

section \<open>State\<close>

datatype PortStateSelectionSMState = PSSEL_BEFORE_INIT | PSSEL_INIT | PSSEL_INIT_BRIDGE
  | PSSEL_STATE_SELECTION | PSSEL_REACTION

record PortStateSelectionSM =
  systemIdentityChange :: bool
  asymmetryMeasurementModeChange :: bool
  pss_state :: PortStateSelectionSMState
  pss_last_state :: PortStateSelectionSMState

text \<open>The machine, the globals of the instance and the globals of the four ports.\<close>

record SelCtx =
  sel :: PortStateSelectionSM
  sel_inst :: PerPTPInstanceGlobal
  sel_ports :: "PerPortGlobal list"

section \<open>Functions\<close>

definition HAS_PORT_PRIORITY :: "PriorityVector \<Rightarrow> bool" where
  "HAS_PORT_PRIORITY pp \<longleftrightarrow> (let s = rootSystemIdentity pp in
     priority1 s \<noteq> 0 \<or> clockClass s \<noteq> 0 \<or> clockAccuracy s \<noteq> 0 \<or> offsetScaledLogVariance s \<noteq> 0 \<or>
     priority2 s \<noteq> 0 \<or> stepsRemoved pp \<noteq> 0)"

definition pss_all_state_transition :: "SelCtx \<Rightarrow> PortStateSelectionSMState" where
  "pss_all_state_transition c =
     (if (BEGIN (sel_inst c) \<or> \<not> instanceEnable (sel_inst c)) \<and> \<not> externalPortConfigurationEnabled (sel_inst c)
      then PSSEL_INIT_BRIDGE else pss_state (sel c))"

text \<open>\<open>memset(p, b, sizeof(PriorityVector))\<close> for \<open>b = 1\<close> and \<open>b = 0xFF\<close>.\<close>

definition pv_ones :: PriorityVector where
  "pv_ones = \<lparr>rootSystemIdentity = \<lparr>priority1 = 1, clockClass = 1, clockAccuracy = 1,
     offsetScaledLogVariance = 0x0101, priority2 = 1, rootClockIdentity = 0x0101010101010101\<rparr>,
     stepsRemoved = 0x0101, sourcePortClockIdentity = 0x0101010101010101, sourcePortNumber = 0x0101,
     pv_portNumber = 0x0101\<rparr>"

definition pv_worst :: PriorityVector where
  "pv_worst = \<lparr>rootSystemIdentity = \<lparr>priority1 = 0xFF, clockClass = 0xFF, clockAccuracy = 0xFF,
     offsetScaledLogVariance = 0xFFFF, priority2 = 0xFF, rootClockIdentity = 0xFFFFFFFFFFFFFFFF\<rparr>,
     stepsRemoved = 0xFFFF, sourcePortClockIdentity = 0xFFFFFFFFFFFFFFFF, sourcePortNumber = 0xFFFF,
     pv_portNumber = 0xFFFF\<rparr>"

definition updtStateDisabledTree :: "SelCtx \<Rightarrow> SelCtx option" where
  "updtStateDisabledTree c = do {
     st \<leftarrow> for_each (\<lambda>i st. wr st (i + 1) DISABLED_PORT) [0..<N_PORTS] (selectedState (sel_inst c));
     path \<leftarrow> wr (pathTrace (sel_inst c)) 0 (thisClock (sel_inst c));
     Some (c\<lparr>sel_inst := (sel_inst c)\<lparr>selectedState := st, lastGmPriority := pv_ones,
       pathTrace := path, nPathTrace := 1\<rparr>\<rparr>)
   }"

definition clearReselectTree :: "SelCtx \<Rightarrow> SelCtx option" where
  "clearReselectTree c = do {
     r \<leftarrow> for_each (\<lambda>i r. wr r i False) [0..<N_PORTS + 1] (reselect (sel_inst c));
     Some (c\<lparr>sel_inst := (sel_inst c)\<lparr>reselect := r\<rparr>\<rparr>)
   }"

definition setSelectedTree :: "SelCtx \<Rightarrow> SelCtx option" where
  "setSelectedTree c = do {
     s \<leftarrow> for_each (\<lambda>i s. wr s i True) [0..<N_PORTS + 1] (selected (sel_inst c));
     Some (c\<lparr>sel_inst := (sel_inst c)\<lparr>selected := s\<rparr>\<rparr>)
   }"

text \<open>The state of a port and whether its information must be updated.\<close>

definition port_state :: "PerPTPInstanceGlobal \<Rightarrow> PriorityVector \<Rightarrow> PortState \<Rightarrow> PerPortGlobal \<Rightarrow> PortState \<times> bool" where
  "port_state g gmPathPriority old p =
     (if infoIs p = INFOIS_DISABLED then (DISABLED_PORT, False)
      else if asymmetryMeasurementMode p then (PASSIVE_PORT, False)
      else if infoIs p = INFOIS_AGED then (MASTER_PORT, True)
      else if infoIs p = INFOIS_MINE then
        (MASTER_PORT,
         if memcmp (pv_bytes (masterPriority p)) (pv_bytes (portPriority p)) \<noteq> 0 \<or>
            masterStepsRemoved g \<noteq> portStepsRemoved p then True else updtInfo p)
      else if infoIs p = INFOIS_RECEIVED then
        if memcmp (pv_bytes (gmPriority g)) (pv_bytes gmPathPriority) = 0 then (SLAVE_PORT, False)
        else if compare_priority_vectors (masterPriority p) (portPriority p) \<noteq> SUPERIOR_PRIORITY
        then (PASSIVE_PORT, False) else (MASTER_PORT, True)
      else (old, updtInfo p))"

text \<open>A port that becomes the slave port brings the path trace of its master.\<close>

definition new_path_trace :: "PerPTPInstanceGlobal \<Rightarrow> PerPortGlobal \<Rightarrow> PerPTPInstanceGlobal option" where
  "new_path_trace g p =
     (let n = (if unat (annPathSequenceCount p) < MAX_PATH_TRACE_N then unat (annPathSequenceCount p) else MAX_PATH_TRACE_N)
      in if n + 1 \<le> MAX_PATH_TRACE_N then
           if n \<le> length (annPathSequence p) \<and> n < length (pathTrace g) then
             Some (g\<lparr>pathTrace := (take n (annPathSequence p) @ drop n (pathTrace g))[n := thisClock g],
                     nPathTrace := of_nat (n + 1)\<rparr>)
           else None
         else Some (g\<lparr>nPathTrace := 0\<rparr>))"

definition portStateUpdate :: "PriorityVector list \<Rightarrow> nat \<Rightarrow> SelCtx \<Rightarrow> SelCtx option" where
  "portStateUpdate gmPath i c = do {
     old \<leftarrow> rd (selectedState (sel_inst c)) i;
     p \<leftarrow> rd (sel_ports c) (i - 1);
     gp \<leftarrow> rd gmPath (i - 1);
     let (st, upd) = port_state (sel_inst c) gp old p;
     states \<leftarrow> wr (selectedState (sel_inst c)) i st;
     ports \<leftarrow> wr (sel_ports c) (i - 1) (p\<lparr>updtInfo := upd\<rparr>);
     let g = (sel_inst c)\<lparr>selectedState := states\<rparr>;
     g \<leftarrow> (if st = SLAVE_PORT \<and> old \<noteq> SLAVE_PORT then new_path_trace g p else Some g);
     Some (c\<lparr>sel_inst := g, sel_ports := ports\<rparr>)
   }"

section \<open>The election\<close>

definition path_priority :: "PerPortGlobal \<Rightarrow> PriorityVector" where
  "path_priority p =
     (if HAS_PORT_PRIORITY (portPriority p) \<and> infoIs p \<noteq> INFOIS_AGED
      then (portPriority p)\<lparr>stepsRemoved := stepsRemoved (portPriority p) + 1\<rparr> else pv_worst)"

text \<open>The system's own time properties, and those a port has received.\<close>

definition system_properties :: "PerPTPInstanceGlobal \<Rightarrow> PerPTPInstanceGlobal" where
  "system_properties g = g\<lparr>leap61 := sysLeap61 g, leap59 := sysLeap59 g,
     currentUtcOffsetValid := sysCurrentUTCOffsetValid g, ptpTimescale := sysPtpTimescale g,
     timeTraceable := sysTimeTraceable g, frequencyTraceable := sysFrequencyTraceable g,
     currentUtcOffset := sysCurrentUtcOffset g, timeSource := sysTimeSource g\<rparr>"

definition port_properties :: "PerPortGlobal \<Rightarrow> PerPTPInstanceGlobal \<Rightarrow> PerPTPInstanceGlobal" where
  "port_properties p g = g\<lparr>leap61 := annLeap61 p, leap59 := annLeap59 p,
     currentUtcOffsetValid := annCurrentUtcOffsetValid p, ptpTimescale := annPtpTimescale p,
     timeTraceable := annTimeTraceable p, frequencyTraceable := annFrequencyTraceable p,
     currentUtcOffset := annCurrentUtcOffset p, timeSource := annTimeSource p\<rparr>"

definition elect_step :: "PriorityVector \<times> PerPortGlobal \<Rightarrow> PerPTPInstanceGlobal \<Rightarrow> PerPTPInstanceGlobal" where
  "elect_step = (\<lambda>(gp, p) g.
     if infoIs p = INFOIS_DISABLED then g
     else if sourcePortClockIdentity gp \<noteq> thisClock g \<and>
       compare_priority_vectors gp (gmPriority g) = SUPERIOR_PRIORITY
     then port_properties p (g\<lparr>gmPriority := gp\<rparr>) else g)"

definition elect :: "PriorityVector list \<Rightarrow> PerPortGlobal list \<Rightarrow> PerPTPInstanceGlobal \<Rightarrow> PerPTPInstanceGlobal" where
  "elect gmPath ports g =
     fold elect_step (zip gmPath ports)
       (system_properties (g\<lparr>lastGmPriority := gmPriority g, gmPriority := systemPriority g\<rparr>))"

definition master_priority :: "PerPTPInstanceGlobal \<Rightarrow> PerPortGlobal \<Rightarrow> PerPortGlobal" where
  "master_priority g p = p\<lparr>masterPriority := (gmPriority g)\<lparr>sourcePortClockIdentity := thisClock g,
     sourcePortNumber := thisPort p, pv_portNumber := thisPort p\<rparr>\<rparr>"

text \<open>Returns the new context and whether the grandmaster has changed.\<close>

definition updtStatesTree :: "SelCtx \<Rightarrow> (SelCtx \<times> bool) option" where
  "updtStatesTree c = do {
     let gmPath = map path_priority (sel_ports c);
     let g = elect gmPath (sel_ports c) (sel_inst c);
     let gmchange = memcmp (pv_bytes (lastGmPriority g)) (pv_bytes (gmPriority g)) \<noteq> 0;
     let ports = map (master_priority g) (sel_ports c);
     let g = g\<lparr>masterStepsRemoved := stepsRemoved (gmPriority g)\<rparr>;
     c \<leftarrow> for_each (portStateUpdate gmPath) [1..<N_PORTS + 1] (c\<lparr>sel_inst := g, sel_ports := ports\<rparr>);
     let g = sel_inst c;
     let g = g\<lparr>gmPresent := (priority1 (rootSystemIdentity (gmPriority g)) < 255)\<rparr>;
     let slavePortAvail = (\<exists>i\<in>{1..N_PORTS}. selectedState g ! i = SLAVE_PORT);
     states \<leftarrow> wr (selectedState g) 0 (if slavePortAvail then MASTER_PORT else SLAVE_PORT);
     let g = g\<lparr>selectedState := states\<rparr>;
     g \<leftarrow> (if thisClock g = rootClockIdentity (rootSystemIdentity (gmPriority g)) then do {
            path \<leftarrow> wr (pathTrace g) 0 (thisClock g);
            Some (g\<lparr>pathTrace := path, nPathTrace := 1\<rparr>) }
          else Some g);
     Some (c\<lparr>sel_inst := g\<rparr>, gmchange)
   }"

section \<open>The machine\<close>

definition state_selection_action :: "SelCtx \<Rightarrow> (SelCtx \<times> bool) option" where
  "state_selection_action c = do {
     let c = c\<lparr>sel := (sel c)\<lparr>systemIdentityChange := False, asymmetryMeasurementModeChange := False\<rparr>\<rparr>;
     c \<leftarrow> clearReselectTree c;
     (c, rval) \<leftarrow> updtStatesTree c;
     c \<leftarrow> setSelectedTree c;
     Some (c, rval)
   }"

text \<open>The transition marks the state as entered anew when a reselection is asked for.\<close>

definition state_selection_transition :: "SelCtx \<Rightarrow> SelCtx" where
  "state_selection_transition c =
     (let reselected = (\<exists>i\<in>{0..N_PORTS}. reselect (sel_inst c) ! i) in
      if reselected \<or> systemIdentityChange (sel c) \<or> asymmetryMeasurementModeChange (sel c)
      then c\<lparr>sel := (sel c)\<lparr>pss_last_state := PSSEL_REACTION, pss_state := PSSEL_STATE_SELECTION\<rparr>\<rparr> else c)"

definition pss_goto :: "PortStateSelectionSMState \<Rightarrow> SelCtx \<Rightarrow> SelCtx" where
  "pss_goto st c = c\<lparr>sel := (sel c)\<lparr>pss_state := st\<rparr>\<rparr>"

text \<open>
  One turn of the loop. The loop ends when the state does not change, and at once when the
  grandmaster has changed: the run then returns its identity.
\<close>

definition pss_body :: "SelCtx \<times> bool \<Rightarrow> ((SelCtx \<times> bool) \<times> bool) option" where
  "pss_body = (\<lambda>(c0, retp). do {
     let state_change = pss_last_state (sel c0) \<noteq> pss_state (sel c0);
     let c = c0\<lparr>sel := (sel c0)\<lparr>pss_last_state := pss_state (sel c0)\<rparr>\<rparr>;
     (c, retp) \<leftarrow> (case pss_state (sel c) of
         PSSEL_BEFORE_INIT \<Rightarrow> Some (c, retp)
       | PSSEL_INIT \<Rightarrow> Some (pss_goto PSSEL_INIT_BRIDGE c, retp)
       | PSSEL_INIT_BRIDGE \<Rightarrow> do {
           c \<leftarrow> (if state_change then updtStateDisabledTree c else Some c);
           Some (pss_goto PSSEL_STATE_SELECTION c, if state_change then False else retp) }
       | PSSEL_STATE_SELECTION \<Rightarrow> do {
           (c, retp) \<leftarrow> (if state_change then state_selection_action c else Some (c, retp));
           Some (state_selection_transition c, retp) }
       | PSSEL_REACTION \<Rightarrow> Some (c, retp));
     Some ((c, retp), \<not> retp \<and> pss_last_state (sel c) \<noteq> pss_state (sel c))
   })"

definition port_state_selection_sm_run :: "SelCtx \<Rightarrow> (SelCtx \<times> ClockIdentity option) option" where
  "port_state_selection_sm_run c = do {
     (c, changed) \<leftarrow> sm_loop pss_body (pss_goto (pss_all_state_transition c) c, False);
     Some (c, if changed then Some (rootClockIdentity (rootSystemIdentity (gmPriority (sel_inst c)))) else None)
   }"

definition init_port_state_selection_sm :: "SelCtx \<Rightarrow> SelCtx option" where
  "init_port_state_selection_sm c = do {
     (c, _) \<leftarrow> port_state_selection_sm_run
       (c\<lparr>sel := (sel c)\<lparr>systemIdentityChange := False, asymmetryMeasurementModeChange := False,
          pss_state := PSSEL_INIT, pss_last_state := PSSEL_BEFORE_INIT\<rparr>\<rparr>);
     Some c
   }"

end
