(* ===== verification/PortStateSelection_Props.thy ===== *)
theory PortStateSelection_Props
  imports PortStateSelection PortAnnounceInfo_Props
begin

text \<open>
  The election takes the least of the priority vectors in play, every port gets the state that follows
  from it, and the machine returns.
\<close>

section \<open>The election\<close>

text \<open>Who may become grandmaster, as the ports see it.\<close>

definition candidates :: "PerPTPInstanceGlobal \<Rightarrow> PerPortGlobal list \<Rightarrow> PriorityVector set" where
  "candidates g ports = {path_priority p |p. p \<in> set ports \<and> infoIs p \<noteq> INFOIS_DISABLED \<and>
     sourcePortClockIdentity (path_priority p) \<noteq> thisClock g}"

lemma elect_step_keeps [simp]:
  "thisClock (elect_step x g) = thisClock g" "lastGmPriority (elect_step x g) = lastGmPriority g"
  "selectedState (elect_step x g) = selectedState g" "reselect (elect_step x g) = reselect g"
  "selected (elect_step x g) = selected g" "pathTrace (elect_step x g) = pathTrace g"
  by (simp_all add: elect_step_def port_properties_def split: prod.splits)

lemma fold_elect_keeps:
  "thisClock (fold elect_step xs g) = thisClock g" "lastGmPriority (fold elect_step xs g) = lastGmPriority g"
  "selectedState (fold elect_step xs g) = selectedState g" "reselect (fold elect_step xs g) = reselect g"
  "selected (fold elect_step xs g) = selected g" "pathTrace (fold elect_step xs g) = pathTrace g"
  by (induction xs arbitrary: g) simp_all

lemma elect_keeps [simp]:
  "thisClock (elect gp ps g) = thisClock g" "lastGmPriority (elect gp ps g) = gmPriority g"
  "selectedState (elect gp ps g) = selectedState g" "reselect (elect gp ps g) = reselect g"
  "selected (elect gp ps g) = selected g" "pathTrace (elect gp ps g) = pathTrace g"
  by (simp_all add: elect_def fold_elect_keeps system_properties_def)

lemma gmPriority_elect_step:
  "gmPriority (elect_step (gp, p) g) =
     (if infoIs p \<noteq> INFOIS_DISABLED \<and> sourcePortClockIdentity gp \<noteq> thisClock g then min (gmPriority g) gp
      else gmPriority g)"
  by (auto simp: elect_step_def port_properties_def compare_priority_vectors_order min_def not_le)

lemma gmPriority_fold_elect:
  "gmPriority (fold elect_step (zip (map path_priority ps) ps) g) = Min (insert (gmPriority g) (candidates g ps))"
proof (induction ps arbitrary: g)
  case Nil
  then show ?case by (simp add: candidates_def)
next
  case (Cons p ps)
  have fin: "finite (candidates g ps)"
    by (rule finite_subset[of _ "path_priority ` set ps"]) (auto simp: candidates_def)
  have c: "candidates (elect_step (path_priority p, p) g) ps = candidates g ps" by (simp add: candidates_def)
  have cc: "candidates g (p # ps) = (if infoIs p \<noteq> INFOIS_DISABLED \<and> sourcePortClockIdentity (path_priority p) \<noteq> thisClock g
      then insert (path_priority p) (candidates g ps) else candidates g ps)"
    by (auto simp: candidates_def)
  have "Min (insert (min a b) S) = Min (insert a (insert b S))" if "finite S" for a b and S :: "PriorityVector set"
    using that by (cases "S = {}") (simp_all add: min.assoc)
  then show ?case using Cons[of "elect_step (path_priority p, p) g"] fin by (simp add: c cc gmPriority_elect_step)
qed

lemma gmPriority_elect:
  "gmPriority (elect (map path_priority ps) ps g) = Min (insert (systemPriority g) (candidates g ps))"
proof -
  let ?g = "system_properties (g\<lparr>lastGmPriority := gmPriority g, gmPriority := systemPriority g\<rparr>)"
  have "candidates ?g ps = candidates g ps" by (simp add: candidates_def system_properties_def)
  then show ?thesis unfolding elect_def gmPriority_fold_elect by (simp add: system_properties_def)
qed

text \<open>The states of the ports after the assignment: the first \<open>k\<close> ports are done.\<close>

definition port_done :: "PriorityVector list \<Rightarrow> SelCtx \<Rightarrow> bool \<Rightarrow> nat \<Rightarrow> PortState list \<Rightarrow> PerPortGlobal list \<Rightarrow> bool" where
  "port_done gmPath c0 b j states ports \<longleftrightarrow>
     (let r = port_state (sel_inst c0) (gmPath ! j) (selectedState (sel_inst c0) ! Suc j) (sel_ports c0 ! j) in
      states ! Suc j = (if b then fst r else selectedState (sel_inst c0) ! Suc j) \<and>
      ports ! j = (if b then (sel_ports c0 ! j)\<lparr>updtInfo := snd r\<rparr> else sel_ports c0 ! j))"

definition ports_done :: "PriorityVector list \<Rightarrow> SelCtx \<Rightarrow> nat \<Rightarrow> SelCtx \<Rightarrow> bool" where
  "ports_done gmPath c0 k c \<longleftrightarrow> inst_wf (sel_inst c) \<and> sel c = sel c0 \<and> length (sel_ports c) = N_PORTS \<and>
     gmPriority (sel_inst c) = gmPriority (sel_inst c0) \<and> lastGmPriority (sel_inst c) = lastGmPriority (sel_inst c0) \<and>
     masterStepsRemoved (sel_inst c) = masterStepsRemoved (sel_inst c0) \<and> thisClock (sel_inst c) = thisClock (sel_inst c0) \<and>
     reselect (sel_inst c) = reselect (sel_inst c0) \<and> selected (sel_inst c) = selected (sel_inst c0) \<and>
     (\<forall>j<N_PORTS. port_done gmPath c0 (j < k) j (selectedState (sel_inst c)) (sel_ports c))"

lemma port_state_cong:
  "gmPriority g = gmPriority h \<Longrightarrow> masterStepsRemoved g = masterStepsRemoved h \<Longrightarrow> port_state g = port_state h"
  by (intro ext) (simp add: port_state_def)

lemma ok_new_path_trace:
  assumes "length (annPathSequence p) = MAX_PATH_TRACE_N" "length (pathTrace g) = MAX_PATH_TRACE_N"
  shows "ok (new_path_trace g p) (\<lambda>h. \<exists>path n. h = g\<lparr>pathTrace := path, nPathTrace := n\<rparr> \<and>
    length path = MAX_PATH_TRACE_N \<and> unat n \<le> MAX_PATH_TRACE_N)"
proof -
  define n where "n = (if unat (annPathSequenceCount p) < 8 then unat (annPathSequenceCount p) else 8)"
  have l: "n \<le> 8" by (simp add: n_def)
  have u: "unat (of_nat (n + 1) :: 16 word) = n + 1" using l by (simp only: unsigned_of_nat) (simp add: take_bit_nat_eq_self)
  show ?thesis
  proof (cases "n + 1 \<le> 8")
    case True
    then show ?thesis
      unfolding new_path_trace_def Let_def n_def[symmetric] using assms u by (auto simp del: of_nat_add intro!: exI)
  next
    case False
    have "g\<lparr>nPathTrace := 0\<rparr> = g\<lparr>pathTrace := pathTrace g, nPathTrace := 0\<rparr>" by simp
    with False show ?thesis
      unfolding new_path_trace_def Let_def n_def[symmetric] using assms(2)
      by (simp only: if_False ok_Some) (metis le0 unsigned_0)
  qed
qed

lemma ok_portStateUpdate:
  assumes c: "ports_done gmPath c0 j c" and l: "length gmPath = N_PORTS" "j < N_PORTS"
    and a: "length (annPathSequence (sel_ports c0 ! j)) = MAX_PATH_TRACE_N"
  shows "ok (portStateUpdate gmPath (Suc j) c) (ports_done gmPath c0 (Suc j))"
proof -
  have lc: "length (selectedState (sel_inst c)) = 5" "length (pathTrace (sel_inst c)) = 8" "length (sel_ports c) = 4"
    using c by (simp_all add: ports_done_def inst_wf_def)
  have "port_done gmPath c0 (j < j) j (selectedState (sel_inst c)) (sel_ports c)"
    using c l(2) unfolding ports_done_def by blast
  then have same: "selectedState (sel_inst c) ! Suc j = selectedState (sel_inst c0) ! Suc j" "sel_ports c ! j = sel_ports c0 ! j"
    by (simp_all add: port_done_def Let_def)
  have g: "port_state (sel_inst c) = port_state (sel_inst c0)"
    using c by (intro port_state_cong) (simp_all add: ports_done_def)
  define st where "st = fst (port_state (sel_inst c0) (gmPath ! j) (selectedState (sel_inst c0) ! Suc j) (sel_ports c0 ! j))"
  define upd where "upd = snd (port_state (sel_inst c0) (gmPath ! j) (selectedState (sel_inst c0) ! Suc j) (sel_ports c0 ! j))"
  have ps: "port_state (sel_inst c0) (gmPath ! j) (selectedState (sel_inst c0) ! Suc j) (sel_ports c0 ! j) = (st, upd)"
    by (simp add: st_def upd_def)
  let ?states = "(selectedState (sel_inst c))[Suc j := st]"
  let ?ports = "(sel_ports c)[j := (sel_ports c0 ! j)\<lparr>updtInfo := upd\<rparr>]"
  let ?g = "(sel_inst c)\<lparr>selectedState := ?states\<rparr>"
  have pd: "port_done gmPath c0 (i < Suc j) i ?states ?ports" if "i < 4" for i
  proof (cases "i = j")
    case True
    then show ?thesis using l lc by (simp add: port_done_def ps)
  next
    case False
    have "port_done gmPath c0 (i < j) i (selectedState (sel_inst c)) (sel_ports c)"
      using c that unfolding ports_done_def by blast
    moreover have "i < Suc j \<longleftrightarrow> i < j" using False by auto
    ultimately show ?thesis using False by (simp add: port_done_def Let_def)
  qed
  have fin: "ports_done gmPath c0 (Suc j) (c\<lparr>sel_inst := ?g\<lparr>pathTrace := path, nPathTrace := n\<rparr>, sel_ports := ?ports\<rparr>)"
    if "length path = 8" for path n
    using c lc that pd by (auto simp: ports_done_def inst_wf_def)
  have run: "portStateUpdate gmPath (Suc j) c = Option.bind
      (if st = SLAVE_PORT \<and> selectedState (sel_inst c0) ! Suc j \<noteq> SLAVE_PORT then new_path_trace ?g (sel_ports c0 ! j) else Some ?g)
      (\<lambda>g. Some (c\<lparr>sel_inst := g, sel_ports := ?ports\<rparr>))"
    unfolding portStateUpdate_def using l lc by (simp add: rd_in wr_in same g ps Let_def)
  show ?thesis
  proof (cases "st = SLAVE_PORT \<and> selectedState (sel_inst c0) ! Suc j \<noteq> SLAVE_PORT")
    case True
    have "ok (new_path_trace ?g (sel_ports c0 ! j)) (\<lambda>h. \<exists>path n. h = ?g\<lparr>pathTrace := path, nPathTrace := n\<rparr> \<and>
        length path = MAX_PATH_TRACE_N \<and> unat n \<le> MAX_PATH_TRACE_N)"
      using a lc by (intro ok_new_path_trace) simp_all
    then show ?thesis
      unfolding run if_P[OF True] ok_bind ok_Some by (rule ok_weaken) (use fin in auto)
  next
    case False
    have "?g = ?g\<lparr>pathTrace := pathTrace (sel_inst c), nPathTrace := nPathTrace (sel_inst c)\<rparr>" by simp
    then have "ports_done gmPath c0 (Suc j) (c\<lparr>sel_inst := ?g, sel_ports := ?ports\<rparr>)"
      using fin[OF lc(2)] by metis
    then show ?thesis unfolding run if_not_P[OF False] by simp
  qed
qed


definition sel_wf :: "SelCtx \<Rightarrow> bool" where
  "sel_wf c \<longleftrightarrow> inst_wf (sel_inst c) \<and> length (sel_ports c) = N_PORTS \<and>
     (\<forall>p\<in>set (sel_ports c). length (annPathSequence p) = MAX_PATH_TRACE_N)"

definition elected :: "SelCtx \<Rightarrow> PriorityVector" where
  "elected c = Min (insert (systemPriority (sel_inst c)) (candidates (sel_inst c) (sel_ports c)))"

text \<open>The state of port \<open>Suc j\<close> once \<open>gm\<close> has been elected.\<close>

definition elected_state :: "SelCtx \<Rightarrow> nat \<Rightarrow> PortState \<times> bool" where
  "elected_state c j =
     (let gm = elected c; p = sel_ports c ! j;
          g = (sel_inst c)\<lparr>gmPriority := gm, masterStepsRemoved := stepsRemoved gm\<rparr>
      in port_state g (path_priority p) (selectedState (sel_inst c) ! Suc j) (master_priority g p))"

definition after_election :: "SelCtx \<Rightarrow> SelCtx \<Rightarrow> bool" where
  "after_election c d \<longleftrightarrow> sel_wf d \<and> sel d = sel c \<and> gmPriority (sel_inst d) = elected c \<and>
     masterStepsRemoved (sel_inst d) = stepsRemoved (elected c) \<and> thisClock (sel_inst d) = thisClock (sel_inst c) \<and>
     reselect (sel_inst d) = reselect (sel_inst c) \<and> selected (sel_inst d) = selected (sel_inst c) \<and>
     gmPresent (sel_inst d) = (priority1 (rootSystemIdentity (elected c)) < 255) \<and>
     (\<forall>j<N_PORTS. selectedState (sel_inst d) ! Suc j = fst (elected_state c j) \<and>
        sel_ports d ! j = (sel_ports c ! j)\<lparr>masterPriority := (elected c)\<lparr>sourcePortClockIdentity := thisClock (sel_inst c),
          sourcePortNumber := thisPort (sel_ports c ! j), pv_portNumber := thisPort (sel_ports c ! j)\<rparr>,
          updtInfo := snd (elected_state c j)\<rparr>) \<and>
     selectedState (sel_inst d) ! 0 = (if \<exists>j<N_PORTS. fst (elected_state c j) = SLAVE_PORT then MASTER_PORT else SLAVE_PORT)"

lemma ok_updtStatesTree:
  assumes "sel_wf c"
  shows "ok (updtStatesTree c) (\<lambda>(d, changed). after_election c d \<and> changed = (gmPriority (sel_inst c) \<noteq> elected c))"
proof -
  let ?gp = "map path_priority (sel_ports c)"
  define g where "g = elect ?gp (sel_ports c) (sel_inst c)"
  have gm: "gmPriority g = elected c" unfolding g_def elected_def by (rule gmPriority_elect)
  define c0 where "c0 = c\<lparr>sel_inst := g\<lparr>masterStepsRemoved := stepsRemoved (gmPriority g)\<rparr>,
    sel_ports := map (master_priority g) (sel_ports c)\<rparr>"
  have l: "length (sel_ports c) = 4" "inst_wf (sel_inst c)" using assms by (simp_all add: sel_wf_def)
  have ann: "length (annPathSequence (sel_ports c0 ! j)) = 8" if "j < 4" for j
    using assms that by (simp add: c0_def master_priority_def sel_wf_def)
  have pd0: "ports_done ?gp c0 0 c0"
    using l by (simp add: ports_done_def port_done_def c0_def inst_wf_def g_def Let_def)
  have loop: "ok (for_each (portStateUpdate ?gp) [1..<5] c0) (\<lambda>d. ports_done ?gp c0 (5 - 1) d)"
  proof (rule ok_for_range[where I = "\<lambda>i d. ports_done ?gp c0 (i - 1) d"])
    fix i t assume i: "1 \<le> i" "i < 5" "ports_done ?gp c0 (i - 1) t"
    then obtain j where j: "i = Suc j" "j < 4" by (cases i) auto
    show "ok (portStateUpdate ?gp i t) (\<lambda>d. ports_done ?gp c0 (Suc i - 1) d)"
      using ok_portStateUpdate[of ?gp c0 j t] i(3) j l(1) ann[OF j(2)] by simp
  qed (use pd0 in simp_all)
  have es: "port_state (sel_inst c0) (?gp ! j) (selectedState (sel_inst c0) ! Suc j) (sel_ports c0 ! j) = elected_state c j"
    if "j < 4" for j
    using that l(1) gm unfolding elected_state_def Let_def c0_def
    by (simp add: port_state_def master_priority_def g_def)
  obtain d where d: "for_each (portStateUpdate ?gp) [1..<5] c0 = Some d" "ports_done ?gp c0 4 d"
    using loop by (auto simp: ok_iff)
  have sts: "selectedState (sel_inst d) ! Suc j = fst (elected_state c j)"
    "sel_ports d ! j = (master_priority g (sel_ports c ! j))\<lparr>updtInfo := snd (elected_state c j)\<rparr>" if "j < 4" for j
  proof -
    have "port_done ?gp c0 (j < 4) j (selectedState (sel_inst d)) (sel_ports d)"
      using d(2) that unfolding ports_done_def by blast
    then have "selectedState (sel_inst d) ! Suc j = fst (elected_state c j)"
      "sel_ports d ! j = (sel_ports c0 ! j)\<lparr>updtInfo := snd (elected_state c j)\<rparr>"
      unfolding port_done_def es[OF that] using that by (simp_all add: Let_def)
    then show "selectedState (sel_inst d) ! Suc j = fst (elected_state c j)"
      "sel_ports d ! j = (master_priority g (sel_ports c ! j))\<lparr>updtInfo := snd (elected_state c j)\<rparr>"
      using that l(1) by (simp_all add: c0_def)
  qed
  have ld: "inst_wf (sel_inst d)" "length (sel_ports d) = 4" "gmPriority (sel_inst d) = elected c"
    "masterStepsRemoved (sel_inst d) = stepsRemoved (elected c)" "thisClock (sel_inst d) = thisClock (sel_inst c)"
    "sel d = sel c" "reselect (sel_inst d) = reselect (sel_inst c)" "selected (sel_inst d) = selected (sel_inst c)"
    using d(2) gm by (simp_all add: ports_done_def c0_def g_def)
  have ex: "(\<exists>i\<in>{1..4}. selectedState (sel_inst d) ! i = SLAVE_PORT) \<longleftrightarrow> (\<exists>j<4. fst (elected_state c j) = SLAVE_PORT)"
  proof
    assume "\<exists>i\<in>{1..4}. selectedState (sel_inst d) ! i = SLAVE_PORT"
    then obtain i where i: "1 \<le> i" "i \<le> 4" "selectedState (sel_inst d) ! i = SLAVE_PORT" by auto
    then obtain j where "i = Suc j" "j < 4" by (cases i) auto
    then show "\<exists>j<4. fst (elected_state c j) = SLAVE_PORT" using i(3) sts(1)[of j] by auto
  next
    assume "\<exists>j<4. fst (elected_state c j) = SLAVE_PORT"
    then show "\<exists>i\<in>{1..4}. selectedState (sel_inst d) ! i = SLAVE_PORT" using sts(1) by (metis Suc_leI atLeastAtMost_iff One_nat_def le_numeral_extra(4) Suc_le_mono le0)
  qed
  have ann': "\<forall>p\<in>set (sel_ports d). length (annPathSequence p) = 8"
  proof
    fix p assume "p \<in> set (sel_ports d)"
    then obtain j where "j < 4" "p = sel_ports d ! j" using ld(2) by (metis in_set_conv_nth)
    then show "length (annPathSequence p) = 8"
      using sts(2)[of j] ann[of j] l(1) by (simp add: c0_def)
  qed
  have mp: "memcmp (pv_bytes (lastGmPriority g)) (pv_bytes (gmPriority g)) \<noteq> 0 \<longleftrightarrow> gmPriority (sel_inst c) \<noteq> elected c"
    by (simp add: memcmp_zero gm) (simp add: g_def)
  define h where "h = (sel_inst d)\<lparr>gmPresent := (priority1 (rootSystemIdentity (elected c)) < 255),
    selectedState := (selectedState (sel_inst d))[0 := if \<exists>j<4. fst (elected_state c j) = SLAVE_PORT then MASTER_PORT else SLAVE_PORT]\<rparr>"
  define h' where "h' = (if thisClock (sel_inst c) = rootClockIdentity (rootSystemIdentity (elected c))
    then h\<lparr>pathTrace := (pathTrace h)[0 := thisClock (sel_inst c)], nPathTrace := 1\<rparr> else h)"
  have "updtStatesTree c = Some (d\<lparr>sel_inst := h'\<rparr>, gmPriority (sel_inst c) \<noteq> elected c)"
    unfolding updtStatesTree_def Let_def g_def[symmetric] c0_def[symmetric] mp
    using d(1) ld by (simp add: ex[unfolded One_nat_def] wr_in h_def h'_def inst_wf_def)
  moreover have "after_election c (d\<lparr>sel_inst := h'\<rparr>)"
    using ld ann' sts by (simp add: after_election_def sel_wf_def inst_wf_def h'_def h_def master_priority_def gm) (simp add: g_def)
  ultimately show ?thesis by simp
qed

section \<open>Runs of the machine\<close>

lemma fill_array:
  assumes "length xs = 5"
  shows "for_each (\<lambda>i r. wr r i v) [0..<N_PORTS + 1] xs = Some (replicate 5 v)"
proof -
  obtain a b c d e where "xs = [a, b, c, d, e]"
    using assms by (auto simp: length_Suc_conv eval_nat_numeral)
  moreover have "[0..<5] = [0, 1, 2, 3, 4::nat]" by (simp add: upt_rec)
  ultimately show ?thesis by (simp add: wr_def eval_nat_numeral)
qed

text \<open>The context the election starts from.\<close>

definition cleared :: "SelCtx \<Rightarrow> SelCtx" where
  "cleared c = c\<lparr>sel := (sel c)\<lparr>systemIdentityChange := False, asymmetryMeasurementModeChange := False\<rparr>,
     sel_inst := (sel_inst c)\<lparr>reselect := replicate 5 False\<rparr>\<rparr>"

lemma cleared_simps [simp]:
  "elected (cleared c) = elected c" "elected_state (cleared c) j = elected_state c j"
  "sel_ports (cleared c) = sel_ports c" "thisClock (sel_inst (cleared c)) = thisClock (sel_inst c)"
  "reselect (sel_inst (cleared c)) = replicate 5 False" "gmPriority (sel_inst (cleared c)) = gmPriority (sel_inst c)"
  by (simp_all add: cleared_def elected_def elected_state_def candidates_def Let_def port_state_def master_priority_def)

lemma cleared_wf: "sel_wf c \<Longrightarrow> sel_wf (cleared c)"
  by (simp add: sel_wf_def inst_wf_def cleared_def)

lemma ok_state_selection_action:
  assumes "sel_wf c"
  shows "ok (state_selection_action c) (\<lambda>(d, changed). \<exists>e. after_election (cleared c) e \<and>
    d = e\<lparr>sel_inst := (sel_inst e)\<lparr>selected := replicate 5 True\<rparr>\<rparr> \<and>
    changed = (gmPriority (sel_inst c) \<noteq> elected c))"
proof -
  have l: "length (reselect (sel_inst c)) = 5" using assms by (simp add: sel_wf_def inst_wf_def)
  have "clearReselectTree (c\<lparr>sel := (sel c)\<lparr>systemIdentityChange := False, asymmetryMeasurementModeChange := False\<rparr>\<rparr>) =
      Some (cleared c)"
    using fill_array[OF l] by (simp add: clearReselectTree_def cleared_def)
  moreover obtain e changed where e: "updtStatesTree (cleared c) = Some (e, changed)" "after_election (cleared c) e"
      "changed = (gmPriority (sel_inst c) \<noteq> elected c)"
    using ok_updtStatesTree[OF cleared_wf[OF assms]] by (auto simp: ok_iff)
  moreover have "length (selected (sel_inst e)) = 5"
    using e(2) unfolding after_election_def sel_wf_def inst_wf_def by auto
  then have "setSelectedTree e = Some (e\<lparr>sel_inst := (sel_inst e)\<lparr>selected := replicate 5 True\<rparr>\<rparr>)"
    using fill_array[of "selected (sel_inst e)" True] by (simp add: setSelectedTree_def)
  ultimately show ?thesis
    by (auto simp: state_selection_action_def Let_def)
qed

lemma ok_updtStateDisabledTree:
  assumes "sel_wf c"
  shows "ok (updtStateDisabledTree c) (\<lambda>d. sel_wf d \<and> sel d = sel c \<and> sel_ports d = sel_ports c)"
proof -
  have l: "length (selectedState (sel_inst c)) = 5" "length (pathTrace (sel_inst c)) = 8"
    using assms by (simp_all add: sel_wf_def inst_wf_def)
  have "[0..<4] = [0, 1, 2, 3::nat]" by (simp add: upt_rec)
  then show ?thesis using assms l by (simp add: updtStateDisabledTree_def wr_def sel_wf_def inst_wf_def)
qed

text \<open>
  The states a run may start in: every state but \<open>PSSEL_REACTION\<close>, which only marks a state as
  left.
\<close>

definition pss_inv :: "SelCtx \<times> bool \<Rightarrow> bool" where
  "pss_inv = (\<lambda>(c, _). sel_wf c \<and> pss_state (sel c) \<noteq> PSSEL_REACTION)"

definition pss_rank :: "SelCtx \<times> bool \<Rightarrow> nat" where
  "pss_rank = (\<lambda>(c, _). case pss_state (sel c) of
     PSSEL_BEFORE_INIT \<Rightarrow> 0 | PSSEL_REACTION \<Rightarrow> 0 | PSSEL_INIT \<Rightarrow> 4 | PSSEL_INIT_BRIDGE \<Rightarrow> 3
   | PSSEL_STATE_SELECTION \<Rightarrow> if pss_last_state (sel c) \<noteq> PSSEL_STATE_SELECTION then 1 else 2)"

text \<open>A run that comes to rest in the selection has cleared every request and selected every port.\<close>

definition pss_rest :: "SelCtx \<times> bool \<Rightarrow> bool" where
  "pss_rest = (\<lambda>(c, changed). changed \<or> pss_last_state (sel c) = pss_state (sel c) \<and>
     (pss_state (sel c) = PSSEL_STATE_SELECTION \<longrightarrow> (\<forall>i\<le>N_PORTS. \<not> reselect (sel_inst c) ! i)))"

interpretation pss: state_machine pss_body pss_inv pss_rank pss_rest
proof
  fix s assume inv: "pss_inv s"
  obtain c retp where s: "s = (c, retp)" by (cases s)
  have wf: "sel_wf c" "pss_state (sel c) \<noteq> PSSEL_REACTION" using inv by (simp_all add: s pss_inv_def)
  let ?c = "c\<lparr>sel := (sel c)\<lparr>pss_last_state := pss_state (sel c)\<rparr>\<rparr>"
  have wf': "sel_wf ?c" using wf by (simp add: sel_wf_def)
  note d = s pss_body_def Let_def pss_goto_def pss_inv_def pss_rank_def pss_rest_def
  show "ok (pss_body s) (\<lambda>(t, changed). pss_inv t \<and> (if changed then pss_rank t < pss_rank s else pss_rest t))"
  proof (cases "pss_state (sel c)")
    case PSSEL_BEFORE_INIT
    then show ?thesis using wf by (simp add: d sel_wf_def)
  next
    case PSSEL_INIT
    then show ?thesis using wf by (simp add: d sel_wf_def)
  next
    case PSSEL_INIT_BRIDGE
    show ?thesis
    proof (cases "pss_last_state (sel c) = PSSEL_INIT_BRIDGE")
      case True
      then show ?thesis using PSSEL_INIT_BRIDGE wf by (simp add: d sel_wf_def)
    next
      case False
      obtain e where "updtStateDisabledTree ?c = Some e" "sel_wf e" "sel e = sel ?c"
        using ok_updtStateDisabledTree[OF wf'] by (auto simp: ok_iff)
      then show ?thesis using PSSEL_INIT_BRIDGE False by (simp add: d sel_wf_def)
    qed
  next
    case PSSEL_STATE_SELECTION
    show ?thesis
    proof (cases "pss_last_state (sel c) = PSSEL_STATE_SELECTION")
      case True
      then show ?thesis using PSSEL_STATE_SELECTION wf by (auto simp: d sel_wf_def state_selection_transition_def)
    next
      case False
      obtain e changed where e: "state_selection_action ?c =
          Some (e\<lparr>sel_inst := (sel_inst e)\<lparr>selected := replicate 5 True\<rparr>\<rparr>, changed)" "after_election (cleared ?c) e"
        using ok_state_selection_action[OF wf'] by (auto simp: ok_iff)
      have "sel_wf e" "sel e = sel (cleared ?c)" "reselect (sel_inst e) = replicate 5 False"
        using e(2) by (simp_all add: after_election_def)
      then show ?thesis using PSSEL_STATE_SELECTION False e(1)
        by (simp add: d sel_wf_def state_selection_transition_def inst_wf_def cleared_def)
    qed
  qed (use wf in simp)
qed

lemma pv_worst_max: "v \<le> pv_worst" for v :: PriorityVector
proof -
  have "pv_key pv_worst = 256 ^ 28 - 1"
    by (simp add: pv_key_def pv_bytes_def pv_worst_def si_bytes_def le16_def be64_def mem_byte_def)
  moreover have "pv_key v < 256 ^ 28" using key_less[of "pv_bytes v"] by (simp add: pv_key_def)
  ultimately show ?thesis using pv_key_inject[of v pv_worst] by (auto simp: less_eq_PriorityVector_ext_def)
qed


section \<open>A run with a request pending\<close>

definition selection_pending :: "SelCtx \<Rightarrow> bool" where
  "selection_pending c \<longleftrightarrow> sel_wf c \<and> \<not> BEGIN (sel_inst c) \<and> instanceEnable (sel_inst c) \<and>
     pss_state (sel c) = PSSEL_STATE_SELECTION \<and> pss_last_state (sel c) = PSSEL_STATE_SELECTION \<and>
     (\<exists>i\<le>N_PORTS. reselect (sel_inst c) ! i)"

lemma selection_run:
  assumes "selection_pending c"
  shows "\<exists>d. port_state_selection_sm_run c =
      Some (d, if gmPriority (sel_inst c) \<noteq> elected c then Some (rootClockIdentity (rootSystemIdentity (elected c))) else None) \<and>
    sel_wf d \<and> gmPriority (sel_inst d) = elected c \<and> masterStepsRemoved (sel_inst d) = stepsRemoved (elected c) \<and>
    selected (sel_inst d) = replicate 5 True \<and> reselect (sel_inst d) = replicate 5 False \<and>
    (\<forall>j<N_PORTS. selectedState (sel_inst d) ! Suc j = fst (elected_state c j) \<and>
       updtInfo (sel_ports d ! j) = snd (elected_state c j)) \<and>
    selectedState (sel_inst d) ! 0 = (if \<exists>j<N_PORTS. fst (elected_state c j) = SLAVE_PORT then MASTER_PORT else SLAVE_PORT)"
proof -
  have wf: "sel_wf c" "pss_state (sel c) = PSSEL_STATE_SELECTION" "pss_last_state (sel c) = PSSEL_STATE_SELECTION"
    "\<exists>i\<in>{0..4}. reselect (sel_inst c) ! i" "pss_all_state_transition c = PSSEL_STATE_SELECTION"
    using assms by (auto simp: selection_pending_def pss_all_state_transition_def)
  let ?c = "c\<lparr>sel := (sel c)\<lparr>pss_last_state := PSSEL_REACTION, pss_state := PSSEL_STATE_SELECTION\<rparr>\<rparr>"
  let ?c2 = "c\<lparr>sel := (sel c)\<lparr>pss_state := PSSEL_STATE_SELECTION, pss_last_state := PSSEL_STATE_SELECTION\<rparr>\<rparr>"
  have t1: "pss_body (pss_goto PSSEL_STATE_SELECTION c, False) = Some ((?c, False), True)"
    using wf by (simp add: pss_body_def Let_def pss_goto_def state_selection_transition_def)
  have wf2: "sel_wf ?c2" using wf(1) by (simp add: sel_wf_def)
  have el: "elected ?c2 = elected c" "\<And>j. elected_state ?c2 j = elected_state c j"
    by (simp_all add: elected_def elected_state_def)
  obtain e where e: "state_selection_action ?c2 =
      Some (e\<lparr>sel_inst := (sel_inst e)\<lparr>selected := replicate 5 True\<rparr>\<rparr>, gmPriority (sel_inst c) \<noteq> elected c)"
    "after_election (cleared ?c2) e"
    using ok_state_selection_action[OF wf2] by (auto simp: ok_iff el)
  let ?d = "e\<lparr>sel_inst := (sel_inst e)\<lparr>selected := replicate 5 True\<rparr>\<rparr>"
  have ae: "sel_wf e" "sel e = sel (cleared ?c2)" "reselect (sel_inst e) = replicate 5 False"
    "gmPriority (sel_inst e) = elected c" "masterStepsRemoved (sel_inst e) = stepsRemoved (elected c)"
    "\<forall>j<4. selectedState (sel_inst e) ! Suc j = fst (elected_state c j) \<and>
       updtInfo (sel_ports e ! j) = snd (elected_state c j)"
    "selectedState (sel_inst e) ! 0 = (if \<exists>j<4. fst (elected_state c j) = SLAVE_PORT then MASTER_PORT else SLAVE_PORT)"
    using e(2) by (simp_all add: after_election_def el)
  have "state_selection_transition ?d = ?d"
    using ae(2,3) by (simp add: state_selection_transition_def cleared_def)
  then have t2: "pss_body (?c, False) = Some ((?d, gmPriority (sel_inst c) \<noteq> elected c), False)"
    using e(1) ae(2) by (simp add: pss_body_def Let_def cleared_def)
  have "sm_loop pss_body (pss_goto PSSEL_STATE_SELECTION c, False) = Some (?d, gmPriority (sel_inst c) \<noteq> elected c)"
    using sm_loop_turn[of pss_body, OF t1] sm_loop_stop[of pss_body, OF t2] by simp
  then have "port_state_selection_sm_run c =
      Some (?d, if gmPriority (sel_inst c) \<noteq> elected c then Some (rootClockIdentity (rootSystemIdentity (elected c))) else None)"
    unfolding port_state_selection_sm_run_def wf(5) using ae(4) by simp
  moreover have "sel_wf ?d" using ae(1) by (simp add: sel_wf_def inst_wf_def)
  ultimately show ?thesis using ae by (intro exI[of _ ?d]) simp
qed

text \<open>A slave port is one whose path leads to the elected grandmaster.\<close>

lemma elected_slave:
  assumes "j < N_PORTS"
  shows "fst (elected_state c j) = SLAVE_PORT \<longleftrightarrow>
    infoIs (sel_ports c ! j) = INFOIS_RECEIVED \<and> \<not> asymmetryMeasurementMode (sel_ports c ! j) \<and>
    path_priority (sel_ports c ! j) = elected c"
  using memcmp_zero[of "elected c" "path_priority (sel_ports c ! j)"]
  by (cases "infoIs (sel_ports c ! j)") (auto simp: elected_state_def port_state_def Let_def master_priority_def)

lemma elected_in: "elected c \<in> insert (systemPriority (sel_inst c)) (candidates (sel_inst c) (sel_ports c))"
proof -
  have "finite (candidates (sel_inst c) (sel_ports c))"
    by (rule finite_subset[of _ "path_priority ` set (sel_ports c)"]) (auto simp: candidates_def)
  then show ?thesis unfolding elected_def by (intro Min_in) simp_all
qed

text \<open>
  What holds between two runs: a port that speaks for itself (\<open>INFOIS_MINE\<close>) has a priority vector
  this clock has sent.
\<close>

definition own_info :: "SelCtx \<Rightarrow> bool" where
  "own_info c \<longleftrightarrow> (\<forall>p\<in>set (sel_ports c). infoIs p = INFOIS_MINE \<longrightarrow>
     sourcePortClockIdentity (portPriority p) = thisClock (sel_inst c) \<and> HAS_PORT_PRIORITY (portPriority p))"

lemma elected_from_port:
  assumes "own_info c" "elected c \<noteq> systemPriority (sel_inst c)" "sel_wf c"
    and "\<forall>p\<in>set (sel_ports c). \<not> asymmetryMeasurementMode p"
  shows "\<exists>j<N_PORTS. fst (elected_state c j) = SLAVE_PORT"
proof -
  have fin: "finite (candidates (sel_inst c) (sel_ports c))"
    by (rule finite_subset[of _ "path_priority ` set (sel_ports c)"]) (auto simp: candidates_def)
  have "elected c \<in> candidates (sel_inst c) (sel_ports c)" using elected_in[of c] assms(2) by simp
  then obtain p where p: "p \<in> set (sel_ports c)" "infoIs p \<noteq> INFOIS_DISABLED"
    "sourcePortClockIdentity (path_priority p) \<noteq> thisClock (sel_inst c)" "elected c = path_priority p"
    by (auto simp: candidates_def)
  have "elected c \<le> systemPriority (sel_inst c)" unfolding elected_def using fin by simp
  then have "path_priority p \<noteq> pv_worst"
    using p(4) assms(2) pv_worst_max[of "systemPriority (sel_inst c)"] by auto
  then have "infoIs p \<noteq> INFOIS_AGED" by (auto simp: path_priority_def)
  moreover have "infoIs p \<noteq> INFOIS_MINE"
    using assms(1) p(1,3) by (auto simp: own_info_def path_priority_def)
  ultimately have r: "infoIs p = INFOIS_RECEIVED" using p(2) by (cases "infoIs p") auto
  obtain j where "j < 4" "p = sel_ports c ! j" using p(1) assms(3) by (auto simp: sel_wf_def in_set_conv_nth)
  then show ?thesis using elected_slave[of j c] r p(1,4) assms(4) by auto
qed

end
