(* ===== verification/TimeSyncInit.thy ===== *)
theory TimeSyncInit
  imports PtpTypes
begin

text \<open>
  The global variables as \<open>TimeSyncMainLoop\<close> sets them up (\<open>time_sync_main_loop.c\<close>), from the
  configuration that \<open>get_config_from_json\<close> has read. The globals are local variables of that
  function: what it does not assign keeps an arbitrary value, here that of the argument \<open>g\<close>, \<open>p\<close>
  or \<open>e\<close>. Only the sizes of the arrays are known of them.
\<close>

definition set_default_config :: "SystemIdentity \<times> bool" where
  "set_default_config =
     (\<lparr>priority1 = 254, clockClass = 248, clockAccuracy = 254, offsetScaledLogVariance = 17258, priority2 = 247,
       rootClockIdentity = 0\<rparr>, False)"

abbreviation zero_ns :: UScaledNs where
  "zero_ns \<equiv> \<lparr>subns = 0, nsec = 0, nsec_msb = 0\<rparr>"

abbreviation one_sec :: UScaledNs where
  "one_sec \<equiv> \<lparr>subns = 0, nsec = ONE_SEC_NS, nsec_msb = 0\<rparr>"

text \<open>The priority vector of the system itself.\<close>

definition own_priority :: "SystemIdentity \<Rightarrow> PriorityVector" where
  "own_priority s = \<lparr>rootSystemIdentity = s, stepsRemoved = 0, sourcePortClockIdentity = rootClockIdentity s,
     sourcePortNumber = 0, pv_portNumber = 0\<rparr>"

text \<open>An unassigned port list ends the process.\<close>

definition init_instance ::
  "SystemIdentity \<Rightarrow> PortState list option \<Rightarrow> bool \<Rightarrow> PerPTPInstanceGlobal \<Rightarrow> PerPTPInstanceGlobal option" where
  "init_instance s ports ext g =
     (case ports of None \<Rightarrow> None | Some ps \<Rightarrow>
        if length ps \<noteq> N_PORTS + 1 then None else Some (g\<lparr>
          BEGIN := False, instanceEnable := True, gmPresent := True, thisClock := rootClockIdentity s,
          selectedState := ps,
          clockSourceTimeBaseIndicatorOld := 0, clockSourceTimeBaseIndicator := 0, clockSourcePhaseOffset := zero_ns,
          clockSourceFreqOffset := 0, clockMasterSyncInterval := one_sec, externalPortConfigurationEnabled := ext,
          leap61 := False, leap59 := False, currentUtcOffsetValid := False, currentUtcOffset := 0,
          ptpTimescale := False, timeTraceable := False, frequencyTraceable := False, timeSource := 0xA0,
          systemPriority := own_priority s, gmPriority := own_priority s, gmStepsRemoved := 0,
          nPathTrace := stepsRemoved (own_priority s) + 1, pathTrace := (pathTrace g)[0 := rootClockIdentity s],
          domainNumber := 0\<rparr>))"

definition init_port :: "PerPTPInstanceGlobal \<Rightarrow> nat \<Rightarrow> PerPortGlobal \<Rightarrow> PerPortGlobal" where
  "init_port g i p =
     (let on = selectedState g ! (i + 1) \<noteq> DISABLED_PORT in
      p\<lparr>asCapable := True, syncReceiptTimeoutTimeInterval := one_sec, syncInterval := one_sec, oldSyncInterval := one_sec,
        asymmetryMeasurementMode := False, computeMeanLinkDelay := True, computeNeighborRateRatio := True,
        meanLinkDelay := zero_ns, neighborRateRatio := 1, portOper := on, ptpPortEnabled := on,
        thisPort := of_nat (i + 1), announceInterval := one_sec, currentLogAnnounceInterval := 0,
        initialLogAnnounceInterval := 0, announceReceiptTimeout := 3, syncReceiptTimeout := 3,
        currentLogSyncInterval := 3, rcvdMsg := False\<rparr>)"

definition init_mdentity :: "MDEntityGlobal \<Rightarrow> MDEntityGlobal" where
  "init_mdentity e = e\<lparr>allowedFaults := 255, allowedLostResponses := 255, asCapableAcrossDomains := False,
     isMeasuringDelay := True, meanLinkDelayThresh := \<lparr>subns = 0, nsec = 0, nsec_msb = 0xFFFF\<rparr>,
     pdelayReqInterval := one_sec\<rparr>"

end
