(* ===== verification/ExampleNode.thy ===== *)
theory ExampleNode
  imports TimeSyncInit
begin

text \<open>
  A node as the start of the daemon leaves it, for the witnesses: the values the code does not
  assign are zero.
\<close>

definition blank_identity :: SystemIdentity where
  "blank_identity = \<lparr>priority1 = 0, clockClass = 0, clockAccuracy = 0, offsetScaledLogVariance = 0, priority2 = 0,
     rootClockIdentity = 0\<rparr>"

definition blank_priority :: PriorityVector where
  "blank_priority = own_priority blank_identity"

definition blank_instance :: PerPTPInstanceGlobal where
  "blank_instance = \<lparr>BEGIN = False, clockMasterSyncInterval = zero_ns, clockMasterLogSyncInterval = 0,
     syncReceiptTime = zero_ns, syncReceiptLocalTime = zero_ns, clockSourceFreqOffset = 0, clockSourcePhaseOffset = zero_ns,
     clockSourceTimeBaseIndicator = 0, clockSourceTimeBaseIndicatorOld = 0, instanceEnable = False, gmPresent = False,
     gmRateRatio = 0, gmTimeBaseIndicator = 0, lastGmPhaseChange = zero_ns, lastGmFreqChange = 0, localTime = zero_ns,
     selectedState = replicate 5 MASTER_PORT, masterTime = zero_ns, thisClock = 0, parentLogSyncInterval = 0,
     syncReceiptTimeoutTime = zero_ns, reselect = replicate 5 False, selected = replicate 5 False, masterStepsRemoved = 0,
     leap61 = False, leap59 = False, currentUtcOffsetValid = False, ptpTimescale = False, timeTraceable = False,
     frequencyTraceable = False, currentUtcOffset = 0, timeSource = 0, sysLeap61 = False, sysLeap59 = False,
     sysCurrentUTCOffsetValid = False, sysPtpTimescale = False, sysTimeTraceable = False, sysFrequencyTraceable = False,
     sysCurrentUtcOffset = 0, sysTimeSource = 0, systemPriority = blank_priority, gmPriority = blank_priority,
     lastGmPriority = blank_priority, gmStepsRemoved = 0, nPathTrace = 0, pathTrace = replicate 8 0,
     externalPortConfigurationEnabled = False, domainNumber = 0, gmIdentity = 0\<rparr>"

definition blank_port :: PerPortGlobal where
  "blank_port = \<lparr>asCapable = False, asymmetryMeasurementMode = False, syncReceiptTimeoutTimeInterval = zero_ns,
     currentLogSyncInterval = 0, syncInterval = zero_ns, neighborRateRatio = 0, meanLinkDelay = zero_ns,
     computeNeighborRateRatio = False, computeMeanLinkDelay = False, portOper = False, ptpPortEnabled = False, thisPort = 0,
     syncLocked = False, syncSlowDown = False, oldSyncInterval = zero_ns, syncReceiptTimeout = 0, announceReceiptTimeout = 0,
     announceReceiptTimeoutTimeInterval = zero_ns, infoIs = INFOIS_DISABLED, masterPriority = blank_priority,
     currentLogAnnounceInterval = 0, initialLogAnnounceInterval = 0, announceInterval = zero_ns, newInfo = False,
     portPriority = blank_priority, portStepsRemoved = 0, rcvdMsg = False, updtInfo = False, annLeap61 = False,
     annLeap59 = False, annCurrentUtcOffsetValid = False, annPtpTimescale = False, annTimeTraceable = False,
     annFrequencyTraceable = False, annCurrentUtcOffset = 0, annTimeSource = 0, annPathSequenceCount = 0,
     annPathSequence = replicate 8 0\<rparr>"

definition blank_mdent :: MDEntityGlobal where
  "blank_mdent = \<lparr>isMeasuringDelay = False, asCapableAcrossDomains = False, allowedLostResponses = 0, pdelayReqInterval = zero_ns,
     meanLinkDelayThresh = zero_ns, allowedFaults = 0, syncSequenceId = 0\<rparr>"

text \<open>A clock of a given quality and identity, its ports all masters.\<close>

definition example_identity :: "byte \<Rightarrow> ClockIdentity \<Rightarrow> SystemIdentity" where
  "example_identity p1 cid = \<lparr>priority1 = p1, clockClass = 248, clockAccuracy = 254, offsetScaledLogVariance = 17258,
     priority2 = 247, rootClockIdentity = cid\<rparr>"

definition example_instance :: "byte \<Rightarrow> ClockIdentity \<Rightarrow> PerPTPInstanceGlobal" where
  "example_instance p1 cid =
     the (init_instance (example_identity p1 cid) (Some (SLAVE_PORT # replicate 4 MASTER_PORT)) False blank_instance)"

definition example_port :: "byte \<Rightarrow> ClockIdentity \<Rightarrow> nat \<Rightarrow> PerPortGlobal" where
  "example_port p1 cid i = init_port (example_instance p1 cid) i blank_port"

lemmas blank_defs = blank_instance_def blank_port_def blank_priority_def blank_identity_def own_priority_def
lemmas example_defs = example_instance_def example_port_def example_identity_def init_instance_def init_port_def blank_defs

end
