(* ===== verification/BestMaster_Props.thy ===== *)
theory BestMaster_Props
  imports PortAnnounceTransmit_Props PortStateSelection_Props ExampleNode
begin

text \<open>
  The best master clock algorithm as a whole: the globals start well formed, the machines return,
  the election is right, every node has one slave role, and the better of two clocks is followed by
  its neighbour after one Announce message.
\<close>

section \<open>Two nodes\<close>

definition clock_vector :: "byte \<Rightarrow> ClockIdentity \<Rightarrow> PriorityVector" where
  "clock_vector p1 cid = \<lparr>rootSystemIdentity = example_identity p1 cid, stepsRemoved = 0, sourcePortClockIdentity = cid,
     sourcePortNumber = 1, pv_portNumber = 1\<rparr>"

text \<open>Clock 1 with priority 100 sends on its port 1; clock 2 with priority 200 receives on its port 1.\<close>

definition sender :: PatCtx where
  "sender = \<lparr>sm = \<lparr>announceSendTime = zero_ns, numberAnnounceTransmission = 0, interval2 = one_sec, pat_sequenceId = 7,
       txAnnouncePtr = Null, pat_newInfo = False, announceSlowdown = False, pat_state = PAT_IDLE, pat_last_state = PAT_IDLE\<rparr>,
     port = (example_port 100 1 0)\<lparr>masterPriority := clock_vector 100 1\<rparr>,
     inst = (example_instance 100 1)\<lparr>selected := replicate 5 True\<rparr>, eth = tx_idle\<rparr>"

definition receiver :: PaiCtx where
  "receiver = \<lparr>sm = \<lparr>announceReceiptTimeoutTime = zero_ns, messagePriorityPAI = blank_priority,
       rcvdInfo = RCVDINFO_OTHER_INFO, rcvdAnnouncePtr = Null, pai_state = PAI_CURRENT, pai_last_state = PAI_CURRENT\<rparr>,
     port = (example_port 200 2 0)\<lparr>infoIs := INFOIS_MINE, portPriority := clock_vector 200 2\<rparr>,
     inst = (example_instance 200 2)\<lparr>syncReceiptTimeoutTime := \<lparr>subns = 0, nsec = 10000000000, nsec_msb = 0\<rparr>\<rparr>\<rparr>"

definition receiver_ports :: SelCtx where
  "receiver_ports = \<lparr>sel = \<lparr>systemIdentityChange = False, asymmetryMeasurementModeChange = False,
       pss_state = PSSEL_STATE_SELECTION, pss_last_state = PSSEL_STATE_SELECTION\<rparr>,
     sel_inst = inst receiver, sel_ports = port receiver # map (example_port 200 2) [1, 2, 3]\<rparr>"

lemma sender_active: "pat_active sender"
  by (simp add: pat_active_def pat_wf_def pat_rest_def pat_globals_def inst_wf_def tx_wf_def tx_idle_def pos_interval_def
    sender_def example_defs Let_def)

text \<open>The priority vector of a message as the receiver counts it, one step further from the grandmaster.\<close>

definition next_step :: "PriorityVector \<Rightarrow> PriorityVector" where
  "next_step v = v\<lparr>stepsRemoved := stepsRemoved v + 1\<rparr>"

section \<open>The start\<close>

lemma init_instance_wf:
  assumes "init_instance s ports ext g = Some g'" "length (selected g) = 5" "length (reselect g) = 5" "length (pathTrace g) = 8"
  shows "inst_wf g'"
  using assms by (auto simp: init_instance_def inst_wf_def split: option.splits if_splits)

lemma init_port_wf: "length (annPathSequence p) = 8 \<Longrightarrow> i < 4 \<Longrightarrow> port_wf (init_port g i p)"
  by (simp add: init_port_def port_wf_def Let_def unat_of_nat take_bit_nat_eq_self del: of_nat_Suc)

text \<open>The selection leaves the ports well formed.\<close>

definition ports_wf :: "SelCtx \<times> bool \<Rightarrow> bool" where
  "ports_wf = (\<lambda>(c, _). \<forall>p \<in> set (sel_ports c). port_wf p \<and> \<not> rcvdMsg p)"

lemma all_ports: "sel_wf c \<Longrightarrow> (\<forall>p \<in> set (sel_ports c). P p) \<longleftrightarrow> (\<forall>j<N_PORTS. P (sel_ports c ! j))"
  by (auto simp: sel_wf_def all_set_conv_all_nth)

lemma pss_body_ports_wf:
  assumes inv: "pss_inv s" and P: "ports_wf s" and run: "pss_body s = Some (t, changed)"
  shows "ports_wf t"
proof -
  obtain c retp where s: "s = (c, retp)" by (cases s)
  have wf: "sel_wf c" using inv by (simp add: s pss_inv_def)
  let ?c = "c\<lparr>sel := (sel c)\<lparr>pss_last_state := pss_state (sel c)\<rparr>\<rparr>"
  have wf': "sel_wf ?c" using wf by (simp add: sel_wf_def)
  have bridge: "sel_ports d = sel_ports c" if "updtStateDisabledTree ?c = Some d" for d
    using okD[OF ok_updtStateDisabledTree[OF wf'] that] by simp
  have action: "\<forall>p \<in> set (sel_ports d). port_wf p \<and> \<not> rcvdMsg p" if "state_selection_action ?c = Some (d, r)" for d r
  proof -
    from okD[OF ok_state_selection_action[OF wf'] that] obtain e where e: "after_election (cleared ?c) e"
      "d = e\<lparr>sel_inst := (sel_inst e)\<lparr>selected := replicate 5 True\<rparr>\<rparr>" by auto
    have "sel_wf e" using e(1) by (simp add: after_election_def)
    then show ?thesis
      using P e wf by (simp add: all_ports s ports_wf_def after_election_def port_wf_def)
  qed
  show ?thesis
    using run P bridge action
    by (cases "pss_state (sel c)")
      (auto simp: s ports_wf_def pss_body_def Let_def pss_goto_def state_selection_transition_def bind_eq_Some_conv split: if_splits)
qed

text \<open>
  The start of the daemon leaves every machine well formed: for an accepted configuration, and
  whatever the variables hold that the code does not assign, the initial run of the
  PortStateSelection machine returns, and so does the initial run of the PortAnnounceInformation
  machine of every port after it, in states from which their further runs return.
\<close>

theorem start_well_formed:
  assumes "init_instance s ports False g = Some g'" "length (selected g) = 5" "length (reselect g) = 5" "length (pathTrace g) = 8"
    and "\<forall>i<N_PORTS. length (annPathSequence (p i)) = 8"
  shows "ok (init_port_state_selection_sm \<lparr>sel = m, sel_inst = g', sel_ports = map (\<lambda>i. init_port g' i (p i)) [0..<N_PORTS]\<rparr>)
      (\<lambda>c. sel_wf c \<and> (\<forall>i<N_PORTS. \<forall>a h. inst_wf h \<longrightarrow> ok (init_port_announce_information_sm
         \<lparr>sm = a, port = sel_ports c ! i, inst = h\<rparr>) (\<lambda>d. pai_wf d \<and> pai_rest d)))"
proof -
  let ?c = "\<lparr>sel = m\<lparr>systemIdentityChange := False, asymmetryMeasurementModeChange := False, pss_state := PSSEL_INIT,
     pss_last_state := PSSEL_BEFORE_INIT\<rparr>, sel_inst = g', sel_ports = map (\<lambda>i. init_port g' i (p i)) [0..<N_PORTS]\<rparr>"
  let ?s = "(pss_goto (pss_all_state_transition ?c) ?c, False)"
  have g: "inst_wf g'" by (rule init_instance_wf[OF assms(1-4)])
  have p: "port_wf (init_port g' i (p i))" "\<not> rcvdMsg (init_port g' i (p i))" "length (annPathSequence (init_port g' i (p i))) = 8"
    if "i < 4" for i
    using that assms(5) by (simp_all add: init_port_wf) (simp_all add: init_port_def Let_def)
  have "pss_inv ?s"
    using g p by (simp add: pss_inv_def sel_wf_def pss_goto_def pss_all_state_transition_def)
  moreover have "ports_wf ?s"
    using p by (simp add: ports_wf_def pss_goto_def)
  ultimately have "ok (sm_loop pss_body ?s) ports_wf" "ok (sm_loop pss_body ?s) pss_inv"
    using pss.loop_keeps[of ?s ports_wf] pss.loop_ok[of ?s] pss_body_ports_wf by (auto elim: ok_weaken)
  from ok_conj[OF this] have run: "ok (sm_loop pss_body ?s) (\<lambda>s. ports_wf s \<and> pss_inv s)" .
  have pai: "ok (init_port_announce_information_sm \<lparr>sm = a, port = q, inst = h\<rparr>) (\<lambda>d. pai_wf d \<and> pai_rest d)"
    if "port_wf q" "\<not> rcvdMsg q" "inst_wf h" for a q h
    unfolding init_port_announce_information_sm_def
    by (rule pai_run_ok) (use that in \<open>simp add: pai_wf_def\<close>)
  show ?thesis
    unfolding init_port_state_selection_sm_def port_state_selection_sm_run_def ok_bind
    using run pai by (auto simp: ports_wf_def pss_inv_def sel_wf_def elim!: ok_weaken)
qed

theorem start_well_formed_witness:
  "ok (init_port_state_selection_sm \<lparr>sel = sel receiver_ports, sel_inst = example_instance 200 2, sel_ports = map (example_port 200 2) [0..<N_PORTS]\<rparr>)
    (\<lambda>c. sel_wf c \<and> (\<forall>a h. inst_wf h \<longrightarrow> ok (init_port_announce_information_sm
       \<lparr>sm = a, port = sel_ports c ! 0, inst = h\<rparr>) (\<lambda>d. pai_wf d \<and> pai_rest d)))"
proof -
  have "init_instance (example_identity 200 2) (Some (SLAVE_PORT # replicate 4 MASTER_PORT)) False blank_instance =
      Some (example_instance 200 2)"
    by (simp add: example_instance_def init_instance_def)
  from start_well_formed[OF this, of "\<lambda>i. blank_port" "sel receiver_ports"] show ?thesis
    by (auto simp: blank_instance_def blank_port_def example_port_def[abs_def] elim!: ok_weaken)
qed

section \<open>Runs of the machines\<close>

text \<open>
  Every call of \<open>port_announce_information_sm_recv_announce\<close> with a well-formed message returns,
  and leaves the machine well formed and at rest, from every well-formed state of the machine.
\<close>

theorem announce_information_returns:
  assumes "pai_wf c" "good_announce a" "rcvdAnnouncePtr (sm c) \<noteq> Dangling"
  shows "ok (port_announce_information_sm_recv_announce t a c) (\<lambda>d. pai_wf d \<and> pai_rest d)"
proof -
  have "\<exists>p. cfree (rcvdAnnouncePtr (sm c)) = Some p" using assms(3) by (cases "rcvdAnnouncePtr (sm c)") auto
  moreover have "pai_wf (c\<lparr>port := (port c)\<lparr>rcvdMsg := True\<rparr>, sm := (sm c)\<lparr>rcvdAnnouncePtr := Live a\<rparr>\<rparr>)"
    using assms(1,2) by (auto simp: pai_wf_def port_wf_def holds_announce_def)
  ultimately show ?thesis
    using pai_run_ok by (auto simp: port_announce_information_sm_recv_announce_def)
qed

theorem announce_information_returns_witness:
  "ok (port_announce_information_sm_recv_announce one_sec
      (example_announce\<lparr>pathTraceTLV := \<lparr>tlvType = 8, lengthField = 16, pathSequence = replicate 8 3\<rparr>\<rparr>) receiver)
    (\<lambda>d. pai_wf d \<and> pai_rest d)"
  by (rule announce_information_returns)
    (simp_all add: receiver_def example_defs Let_def pai_wf_def inst_wf_def port_wf_def good_announce_def example_announce_def
      example_header_def ptp_msg_header_template_def)

text \<open>
  C24. Every call of \<open>port_state_selection_sm_run\<close> returns, in a well-formed state in which no
  reselection is asked for any more unless the grandmaster has just changed.
\<close>

theorem selection_returns:
  assumes "sel_wf c" "pss_state (sel c) \<noteq> PSSEL_REACTION"
  shows "ok (port_state_selection_sm_run c) (\<lambda>(d, gm). sel_wf d \<and>
    (gm = None \<longrightarrow> pss_last_state (sel d) = pss_state (sel d) \<and>
      (pss_state (sel d) = PSSEL_STATE_SELECTION \<longrightarrow> (\<forall>i\<le>N_PORTS. \<not> reselect (sel_inst d) ! i))))"
proof -
  have "pss_inv (pss_goto (pss_all_state_transition c) c, False)"
    using assms by (simp add: pss_inv_def pss_goto_def pss_all_state_transition_def sel_wf_def)
  from pss.loop_ok[OF this] show ?thesis
    unfolding port_state_selection_sm_run_def ok_bind
    by (rule ok_weaken) (auto simp: pss_inv_def pss_rest_def)
qed

theorem selection_returns_witness:
  "ok (port_state_selection_sm_run receiver_ports) (\<lambda>(d, gm). sel_wf d \<and>
    (gm = None \<longrightarrow> pss_last_state (sel d) = pss_state (sel d) \<and>
      (pss_state (sel d) = PSSEL_STATE_SELECTION \<longrightarrow> (\<forall>i\<le>N_PORTS. \<not> reselect (sel_inst d) ! i))))"
  by (rule selection_returns) (auto simp: receiver_ports_def receiver_def example_defs Let_def sel_wf_def inst_wf_def)

section \<open>The election\<close>

text \<open>The receiver after a better announcement on port 1 and a worse one on port 3.\<close>

definition two_masters :: SelCtx where
  "two_masters = receiver_ports\<lparr>sel_inst := (inst receiver)\<lparr>reselect := [False, True, False, True, False]\<rparr>,
     sel_ports := [(example_port 200 2 0)\<lparr>infoIs := INFOIS_RECEIVED, portPriority := clock_vector 100 1\<rparr>, example_port 200 2 1,
       (example_port 200 2 2)\<lparr>infoIs := INFOIS_RECEIVED, portPriority := clock_vector 150 3\<rparr>, example_port 200 2 3]\<rparr>"

lemma two_masters_pending: "selection_pending two_masters"
  by (auto simp: selection_pending_def two_masters_def receiver_ports_def receiver_def example_defs Let_def sel_wf_def inst_wf_def
    intro!: exI[of _ 1])

text \<open>
  C2. A run of the PortStateSelection machine with a reselection pending elects the least priority
  vector among the system's own and those received on the enabled ports (with one step added, and
  not sent by this clock itself), stores it as the grandmaster, returns its identity when it has
  changed, and clears every request.
\<close>

theorem grandmaster_elected:
  assumes "selection_pending c"
  shows "\<exists>d. port_state_selection_sm_run c =
      Some (d, if gmPriority (sel_inst c) \<noteq> gmPriority (sel_inst d) then Some (rootClockIdentity (rootSystemIdentity (gmPriority (sel_inst d)))) else None) \<and>
    gmPriority (sel_inst d) = Min (insert (systemPriority (sel_inst c)) {path_priority p |p. p \<in> set (sel_ports c) \<and>
       infoIs p \<noteq> INFOIS_DISABLED \<and> sourcePortClockIdentity (path_priority p) \<noteq> thisClock (sel_inst c)}) \<and>
    masterStepsRemoved (sel_inst d) = stepsRemoved (gmPriority (sel_inst d)) \<and>
    selected (sel_inst d) = replicate 5 True \<and> reselect (sel_inst d) = replicate 5 False"
proof -
  obtain d where d: "port_state_selection_sm_run c =
      Some (d, if gmPriority (sel_inst c) \<noteq> elected c then Some (rootClockIdentity (rootSystemIdentity (elected c))) else None)"
    "gmPriority (sel_inst d) = elected c" "masterStepsRemoved (sel_inst d) = stepsRemoved (elected c)"
    "selected (sel_inst d) = replicate 5 True" "reselect (sel_inst d) = replicate 5 False"
    using selection_run[OF assms] by blast
  then show ?thesis by (intro exI[of _ d]) (simp add: elected_def candidates_def)
qed

theorem grandmaster_elected_witness:
  "\<exists>d gm. port_state_selection_sm_run two_masters = Some (d, gm) \<and> gmPriority (sel_inst d) \<le> next_step (clock_vector 100 1) \<and>
    selected (sel_inst d) = replicate 5 True"
proof -
  let ?S = "{path_priority p |p. p \<in> set (sel_ports two_masters) \<and> infoIs p \<noteq> INFOIS_DISABLED \<and>
    sourcePortClockIdentity (path_priority p) \<noteq> thisClock (sel_inst two_masters)}"
  have fin: "finite ?S" by (rule finite_subset[of _ "path_priority ` set (sel_ports two_masters)"]) auto
  have "next_step (clock_vector 100 1) \<in> ?S"
    by (rule CollectI, rule exI[of _ "sel_ports two_masters ! 0"])
      (simp add: two_masters_def receiver_ports_def receiver_def path_priority_def next_step_def example_defs Let_def
        HAS_PORT_PRIORITY_def clock_vector_def)
  then have "Min (insert (systemPriority (sel_inst two_masters)) ?S) \<le> next_step (clock_vector 100 1)"
    using fin by (intro Min_le) simp_all
  then show ?thesis using grandmaster_elected[OF two_masters_pending] by auto
qed

text \<open>
  C3. A node follows exactly one master. After an election exactly one of the five ports is in the
  slave role, provided no two ports have received the same priority vector: a port whose path leads
  to the grandmaster, or port 0, the clock of the node itself.
\<close>

theorem one_slave_port:
  assumes "selection_pending c"
    and "\<forall>i<N_PORTS. \<forall>j<N_PORTS. i \<noteq> j \<and> infoIs (sel_ports c ! i) = INFOIS_RECEIVED \<and> infoIs (sel_ports c ! j) = INFOIS_RECEIVED \<longrightarrow>
      path_priority (sel_ports c ! i) \<noteq> path_priority (sel_ports c ! j)"
  shows "\<exists>d gm. port_state_selection_sm_run c = Some (d, gm) \<and>
    (\<exists>!i. i \<le> N_PORTS \<and> selectedState (sel_inst d) ! i = SLAVE_PORT)"
proof -
  obtain d gm where d: "port_state_selection_sm_run c = Some (d, gm)"
    "\<forall>j<N_PORTS. selectedState (sel_inst d) ! Suc j = fst (elected_state c j)"
    "selectedState (sel_inst d) ! 0 = (if \<exists>j<N_PORTS. fst (elected_state c j) = SLAVE_PORT then MASTER_PORT else SLAVE_PORT)"
    using selection_run[OF assms(1)] by blast
  have uniq: "i = j" if "i < 4" "j < 4" "fst (elected_state c i) = SLAVE_PORT" "fst (elected_state c j) = SLAVE_PORT" for i j
    using that elected_slave[of i c] elected_slave[of j c] assms(2)[rule_format, of i j] by auto
  have slave: "selectedState (sel_inst d) ! i = SLAVE_PORT \<longleftrightarrow>
      (if i = 0 then \<not> (\<exists>j<4. fst (elected_state c j) = SLAVE_PORT) else fst (elected_state c (i - 1)) = SLAVE_PORT)"
    if "i \<le> 4" for i
    using that d(2,3) by (cases i) auto
  have "\<exists>!i. i \<le> 4 \<and> selectedState (sel_inst d) ! i = SLAVE_PORT"
  proof (cases "\<exists>j<4. fst (elected_state c j) = SLAVE_PORT")
    case False
    show ?thesis
    proof (rule ex1I[of _ 0])
      show "0 \<le> (4::nat) \<and> selectedState (sel_inst d) ! 0 = SLAVE_PORT" using False slave[of 0] by simp
    next
      fix i assume i: "i \<le> 4 \<and> selectedState (sel_inst d) ! i = SLAVE_PORT"
      show "i = 0"
      proof (rule ccontr)
        assume "i \<noteq> 0"
        then have "fst (elected_state c (i - 1)) = SLAVE_PORT" "i - 1 < 4" using i slave[of i] by auto
        then show False using False by blast
      qed
    qed
  next
    case True
    then obtain j where j: "j < 4" "fst (elected_state c j) = SLAVE_PORT" by blast
    show ?thesis
    proof (rule ex1I[of _ "Suc j"])
      show "Suc j \<le> 4 \<and> selectedState (sel_inst d) ! Suc j = SLAVE_PORT" using j by (simp add: slave)
    next
      fix i assume i: "i \<le> 4 \<and> selectedState (sel_inst d) ! i = SLAVE_PORT"
      then have "i \<noteq> 0" "fst (elected_state c (i - 1)) = SLAVE_PORT" using slave[of i] j by (auto split: if_splits)
      then show "i = Suc j" using uniq[of "i - 1" j] i j by auto
    qed
  qed
  then show ?thesis using d(1) by blast
qed

theorem one_slave_port_witness:
  "\<exists>d gm. port_state_selection_sm_run two_masters = Some (d, gm) \<and>
    (\<exists>!i. i \<le> N_PORTS \<and> selectedState (sel_inst d) ! i = SLAVE_PORT)"
proof (rule one_slave_port[OF two_masters_pending], intro allI impI, elim conjE)
  fix i j :: nat
  assume ij: "i < 4" "j < 4" "i \<noteq> j" and r: "infoIs (sel_ports two_masters ! i) = INFOIS_RECEIVED" "infoIs (sel_ports two_masters ! j) = INFOIS_RECEIVED"
  have idle: "infoIs (sel_ports two_masters ! 1) \<noteq> INFOIS_RECEIVED" "infoIs (sel_ports two_masters ! 3) \<noteq> INFOIS_RECEIVED"
    by (simp_all add: two_masters_def example_port_def init_port_def blank_port_def Let_def)
  have p: "path_priority (sel_ports two_masters ! 0) = next_step (clock_vector 100 1)"
    "path_priority (sel_ports two_masters ! 2) = next_step (clock_vector 150 3)"
    by (simp_all add: two_masters_def path_priority_def HAS_PORT_PRIORITY_def clock_vector_def example_identity_def next_step_def)
  have "k = 0 \<or> k = 2" if "k < 4" "infoIs (sel_ports two_masters ! k) = INFOIS_RECEIVED" for k
  proof -
    have "k = 0 \<or> k = 1 \<or> k = 2 \<or> k = 3" using that(1) by linarith
    then show ?thesis using that(2) idle by metis
  qed
  then have "i = 0 \<and> j = 2 \<or> i = 2 \<and> j = 0" using ij r by blast
  moreover have "next_step (clock_vector 100 1) \<noteq> next_step (clock_vector 150 3)"
    by (simp add: next_step_def clock_vector_def)
  ultimately show "path_priority (sel_ports two_masters ! i) \<noteq> path_priority (sel_ports two_masters ! j)"
    using p by auto
qed

section \<open>From one node to the next\<close>

text \<open>A port that is up and not waiting for anything, at time \<open>t\<close>.\<close>

definition adopting :: "UScaledNs \<Rightarrow> PaiCtx \<Rightarrow> bool" where
  "adopting t c \<longleftrightarrow> pai_wf c \<and> rcvdAnnouncePtr (sm c) \<noteq> Dangling \<and>
     pai_state (sm c) = PAI_CURRENT \<and> pai_last_state (sm c) = PAI_CURRENT \<and>
     portOper (port c) \<and> ptpPortEnabled (port c) \<and> asCapable (port c) \<and> \<not> BEGIN (inst c) \<and> instanceEnable (inst c) \<and>
     \<not> updtInfo (port c) \<and> \<not> asymmetryMeasurementMode (port c) \<and> announceReceiptTimeout (port c) \<noteq> 0 \<and>
     uscaledns_compare t (syncReceiptTimeoutTime (inst c)) < 0 \<and>
     selectedState (inst c) ! pidx c \<noteq> DISABLED_PORT \<and> usval t < 2 ^ 95"

text \<open>The node that receives: port \<open>j + 1\<close> belongs to the machine \<open>c\<close>, the election waits.\<close>

definition follower :: "SelCtx \<Rightarrow> nat \<Rightarrow> PaiCtx \<Rightarrow> bool" where
  "follower s j c \<longleftrightarrow> j < N_PORTS \<and> sel_wf s \<and> sel_inst s = inst c \<and> sel_ports s ! j = port c \<and> thisPort (port c) = of_nat (Suc j) \<and>
     pss_state (sel s) = PSSEL_STATE_SELECTION \<and> pss_last_state (sel s) = PSSEL_STATE_SELECTION"

lemma port_elected:
  assumes s: "selection_pending s" and j: "j < N_PORTS"
    and p: "infoIs (sel_ports s ! j) = INFOIS_RECEIVED" "\<not> asymmetryMeasurementMode (sel_ports s ! j)"
      "portPriority (sel_ports s ! j) = v" "HAS_PORT_PRIORITY v" "sourcePortClockIdentity v \<noteq> thisClock (sel_inst s)"
    and best: "next_step v \<le> systemPriority (sel_inst s)" "\<forall>k<N_PORTS. k \<noteq> j \<longrightarrow> next_step v \<le> path_priority (sel_ports s ! k)"
  shows "\<exists>d gm. port_state_selection_sm_run s = Some (d, gm) \<and> gmPriority (sel_inst d) = next_step v \<and>
    selectedState (sel_inst d) ! Suc j = SLAVE_PORT"
proof -
  have lp: "length (sel_ports s) = 4" using s by (simp add: selection_pending_def sel_wf_def)
  have path: "path_priority (sel_ports s ! j) = next_step v"
    using p by (simp add: path_priority_def next_step_def)
  have fin: "finite (candidates (sel_inst s) (sel_ports s))"
    by (rule finite_subset[of _ "path_priority ` set (sel_ports s)"]) (auto simp: candidates_def)
  have cand: "next_step v \<in> candidates (sel_inst s) (sel_ports s)"
    using path p j lp unfolding candidates_def
    by (intro CollectI exI[of _ "sel_ports s ! j"]) (simp add: next_step_def)
  have "elected s = next_step v"
    unfolding elected_def
  proof (rule Min_eqI)
    fix x assume "x \<in> insert (systemPriority (sel_inst s)) (candidates (sel_inst s) (sel_ports s))"
    then consider "x = systemPriority (sel_inst s)" | k where "k < 4" "x = path_priority (sel_ports s ! k)"
      using lp by (auto simp: candidates_def in_set_conv_nth)
    then show "next_step v \<le> x" using best path by cases (metis order_refl)+
  qed (use fin cand in simp_all)
  then show ?thesis
    using selection_run[OF s] elected_slave[OF j, of s] path p(1,2) j by fastforce
qed

text \<open>The Announce message that a master port sends when its time has come, as the peer receives it.\<close>

lemma announce_reaches_peer:
  assumes send: "pat_active a" "selectedState (inst a) ! tidx a = MASTER_PORT" "usval t < 2 ^ 95"
      "uscaledns_compare t (announceSendTime (sm a)) \<ge> 0" "length junk = 8"
      "0 \<le> sint (currentLogAnnounceInterval (port a))" "sint (currentLogAnnounceInterval (port a)) < 31"
    and wire: "port_announce_transmit_sm_run junk t a = Some a'" "arrives_from (last (dma_sent (eth a'))) c x"
      "queue_wf (rxQueue rx)" "packets (rxQueue rx) = x # xs" "length (rxBufferPtr rx) = MAX_PKT_LEN" "length junk' = 8"
    and msg: "setAnnounce junk a = Some m"
  shows "\<exists>n rx'. recv_ptp_frame t0 junk' pn rx = Some (RcvdAnnounce n, ParseSrcPort x, rx') \<and>
    good_announce n \<and> message_priority n = message_priority m"
proof -
  have ga: "unat (nPathTrace (inst a)) \<le> 8" "length (pathTrace (inst a)) = 8" "tx_wf (eth a)"
    using send(1) by (simp_all add: pat_active_def pat_wf_def pat_globals_def inst_wf_def)
  define k where "k = unat (nPathTrace (inst a))"
  obtain f where f: "announce_frame m = Some f" "header_fits (ann_head m)" "messageType (ann_head m) = msg_code ANNOUNCE"
    "lengthField (pathTraceTLV m) = of_nat (8 * k)" "k \<le> length (pathSequence (pathTraceTLV m))"
    using setAnnounce_returns[OF ga(1,2) send(5), of thesis] msg ga(2) unfolding k_def
    by (metis (no_types, lifting) le_add1 length_append length_take min.absorb2 option.inject ga(1))
  have "send_ptp_frame f (thisPort (port a)) (eth a) = Some (eth a')"
    using announce_due_run[OF send(1,3,4,5)] send(2) msg f(1) wire(1) by auto
  moreover have "length (txBufferPtr (eth a)) = MAX_PKT_LEN" using ga(3) by (simp add: tx_wf_def)
  ultimately obtain rx' where rx': "recv_ptp_frame t0 junk' pn rx = Some (RcvdAnnounce (m\<lparr>pathTraceTLV := (pathTraceTLV m)\<lparr>pathSequence :=
       take k (pathSequence (pathTraceTLV m)) @ drop k junk'\<rparr>\<rparr>), ParseSrcPort x, rx')"
    using announce_arrives[OF f(1) _ _ f(2,3) _ f(5,4) wire(2,4,3,5,6)] ga(1) unfolding k_def by blast
  have "logMessageInterval (ann_head m) = currentLogAnnounceInterval (port a)"
    using msg by (auto simp: setAnnounce_def Let_def bind_eq_Some_conv ptp_msg_ann_header_template_def)
  with f(4,5) ga(1) wire(6) send(6,7) show ?thesis
    by (intro exI[of _ "m\<lparr>pathTraceTLV := (pathTraceTLV m)\<lparr>pathSequence :=
       take k (pathSequence (pathTraceTLV m)) @ drop k junk'\<rparr>\<rparr>"] exI[of _ rx'] conjI rx' ext)
      (simp_all add: message_priority_def good_announce_def k_def unat_of_nat take_bit_nat_eq_self del: of_nat_mult)
qed

text \<open>A better vector is adopted by the port that receives it \<dots>\<close>

lemma better_vector_adopted:
  assumes "adopting t b" "good_announce n" "message_priority n (messagePriorityPAI (sm b)) = v" "v < portPriority (port b)"
  shows "\<exists>b'. port_announce_information_sm_recv_announce t n b = Some b' \<and> portPriority (port b') = v \<and>
    infoIs (port b') = INFOIS_RECEIVED \<and> reselect (inst b') = (reselect (inst b))[pidx b := True] \<and>
    pai_wf b' \<and> same_node b' b"
proof -
  have ad: "pai_wf b" "rcvdAnnouncePtr (sm b) \<noteq> Dangling" "pai_state (sm b) = PAI_CURRENT" "pai_last_state (sm b) = PAI_CURRENT"
     "portOper (port b)" "ptpPortEnabled (port b)" "asCapable (port b)" "\<not> BEGIN (inst b)" "instanceEnable (inst b)"
     "\<not> updtInfo (port b)" "\<not> asymmetryMeasurementMode (port b)" "announceReceiptTimeout (port b) \<noteq> 0"
     "uscaledns_compare t (syncReceiptTimeoutTime (inst b)) < 0" "selectedState (inst b) ! pidx b \<noteq> DISABLED_PORT" "usval t < 2 ^ 95"
    using assms(1) by (simp_all add: adopting_def)
  show ?thesis
    using superior_announce_run[OF ad(1) assms(2) ad(2,3,4,5,6,7,8,9,10,11,13,14) _ ad(12,15)] assms(3,4)
    by (auto simp: ok_iff)
qed

text \<open>\<dots> and the next election takes it up.\<close>

lemma adopted_pending:
  assumes "follower s j b" "adopting t b" "reselect (inst b') = (reselect (inst b))[pidx b := True]"
    and "pai_wf b'" "same_node b' b"
  shows "selection_pending (s\<lparr>sel_inst := inst b', sel_ports := (sel_ports s)[j := port b']\<rparr>)"
proof -
  let ?s = "s\<lparr>sel_inst := inst b', sel_ports := (sel_ports s)[j := port b']\<rparr>"
  have fl: "j < 4" "sel_wf s" "length (sel_ports s) = 4" "sel_inst s = inst b" "unat (thisPort (port b)) = Suc j"
    "pss_state (sel s) = PSSEL_STATE_SELECTION" "pss_last_state (sel s) = PSSEL_STATE_SELECTION"
    using assms(1) unfolding follower_def sel_wf_def
    by (auto simp: unat_of_nat take_bit_nat_eq_self simp del: of_nat_Suc)
  have ad: "pai_wf b" "\<not> BEGIN (inst b)" "instanceEnable (inst b)"
    using assms(2) by (simp_all add: adopting_def)
  have "sel_wf ?s"
    using fl(1-3) assms(4) by (auto simp: sel_wf_def pai_wf_def port_wf_def dest!: set_update_subset_insert[THEN subsetD])
  moreover have "reselect (inst b') ! Suc j"
    using assms(3) fl(5) ad(1) fl(1) by (simp add: pai_wf_def inst_wf_def)
  ultimately show ?thesis
    using fl assms(5) ad(2,3) unfolding selection_pending_def by (auto simp: same_node_def intro!: exI[of _ "Suc j"])
qed

text \<open>
  C1. The better clock is followed. When the time of a master port has come, one run of its
  PortAnnounceTransmit machine sends an Announce message; when the neighbour receives it on a port
  whose own vector is worse, and no other port and not the neighbour itself offers a better one, its
  PortAnnounceInformation machine adopts it and the next election makes that port the slave port,
  with the grandmaster that the sender has announced.
\<close>

theorem best_master_spreads:
  assumes send: "pat_active a" "selectedState (inst a) ! tidx a = MASTER_PORT" "usval t < 2 ^ 95"
      "uscaledns_compare t (announceSendTime (sm a)) \<ge> 0" "length junk = 8"
      "0 \<le> sint (currentLogAnnounceInterval (port a))" "sint (currentLogAnnounceInterval (port a)) < 31"
    and wire: "port_announce_transmit_sm_run junk t a = Some a'" "arrives_from (last (dma_sent (eth a'))) c x"
      "queue_wf (rxQueue rx)" "packets (rxQueue rx) = x # xs" "length (rxBufferPtr rx) = MAX_PKT_LEN" "length junk' = 8"
    and recv: "adopting t' b" "follower s j b" "setAnnounce junk a = Some m" "v = message_priority m (messagePriorityPAI (sm b))"
      "v < portPriority (port b)" "HAS_PORT_PRIORITY v" "thisClock (inst a) \<noteq> thisClock (inst b)"
      "next_step v \<le> systemPriority (inst b)" "\<forall>k<N_PORTS. k \<noteq> j \<longrightarrow> next_step v \<le> path_priority (sel_ports s ! k)"
  shows "\<exists>n p rx' b' d gm. recv_ptp_frame t0 junk' pn rx = Some (RcvdAnnounce n, p, rx') \<and>
    port_announce_information_sm_recv_announce t' n b = Some b' \<and>
    port_state_selection_sm_run (s\<lparr>sel_inst := inst b', sel_ports := (sel_ports s)[j := port b']\<rparr>) = Some (d, gm) \<and>
    selectedState (sel_inst d) ! Suc j = SLAVE_PORT \<and>
    rootSystemIdentity (gmPriority (sel_inst d)) = rootSystemIdentity (masterPriority (port a))"
proof -
  obtain n rx' where n: "recv_ptp_frame t0 junk' pn rx = Some (RcvdAnnounce n, ParseSrcPort x, rx')"
    "good_announce n" "message_priority n = message_priority m"
    using announce_reaches_peer[OF send wire recv(3)] by blast
  obtain b' where b': "port_announce_information_sm_recv_announce t' n b = Some b'" "portPriority (port b') = v"
    "infoIs (port b') = INFOIS_RECEIVED" "reselect (inst b') = (reselect (inst b))[pidx b := True]" "pai_wf b'" "same_node b' b"
    using better_vector_adopted[OF recv(1) n(2) _ recv(5)] recv(4) n(3) by auto
  have m: "rootSystemIdentity v = rootSystemIdentity (masterPriority (port a))" "sourcePortClockIdentity v = thisClock (inst a)"
    using recv(3) unfolding recv(4)
    by (auto simp: setAnnounce_def Let_def bind_eq_Some_conv ptp_msg_ann_header_template_def message_priority_def)
  let ?s = "s\<lparr>sel_inst := inst b', sel_ports := (sel_ports s)[j := port b']\<rparr>"
  have "j < 4" "length (sel_ports s) = 4" "\<not> asymmetryMeasurementMode (port b)"
    using recv(1,2) by (simp_all add: follower_def sel_wf_def adopting_def)
  with adopted_pending[OF recv(2,1) b'(4-6)]
  obtain d gm where d: "port_state_selection_sm_run ?s = Some (d, gm)" "gmPriority (sel_inst d) = next_step v"
    "selectedState (sel_inst d) ! Suc j = SLAVE_PORT"
    using port_elected[of ?s j v] b'(2,3,6) recv(6-9) m(2) by (auto simp: same_node_def)
  have "rootSystemIdentity (gmPriority (sel_inst d)) = rootSystemIdentity (masterPriority (port a))"
    using d(2) m(1) by (simp add: next_step_def)
  then show ?thesis using n(1) b'(1) d(1,3) by blast
qed

lemma receiver_adopts: "adopting one_sec receiver"
  by (simp add: adopting_def receiver_def example_defs Let_def pai_wf_def inst_wf_def port_wf_def uscaledns_compare_def usval_def)

lemma receiver_follows: "follower receiver_ports 0 receiver"
  by (auto simp: follower_def receiver_ports_def receiver_def example_defs Let_def sel_wf_def inst_wf_def)

text \<open>The vector of the message that clock 1 sends.\<close>

definition sent_vector :: PriorityVector where
  "sent_vector = (clock_vector 100 1)\<lparr>sourcePortNumber := 0\<rparr>"

lemma sender_message:
  obtains m where "setAnnounce (replicate 8 0) sender = Some m" "message_priority m (messagePriorityPAI (sm receiver)) = sent_vector"
  by (simp add: setAnnounce_def copy_identities_def sender_def receiver_def example_defs Let_def message_priority_def
    ptp_msg_ann_header_template_def sent_vector_def clock_vector_def)

lemma sent_vector_better:
  "sent_vector < portPriority (port receiver)" "next_step sent_vector < systemPriority (inst receiver)"
  unfolding compare_priority_vectors_order(1)[symmetric]
  by (simp_all add: compare_priority_vectors_def Let_def sent_vector_def next_step_def receiver_def clock_vector_def example_defs
    pv_bytes_def si_bytes_def le16_def be64_def mem_byte_def)

lemma other_ports_worse: "k < 4 \<Longrightarrow> k \<noteq> 0 \<Longrightarrow> path_priority (sel_ports receiver_ports ! k) = pv_worst"
  by (auto simp: receiver_ports_def path_priority_def example_defs Let_def HAS_PORT_PRIORITY_def nth_Cons' )

theorem best_master_spreads_witness:
  "\<exists>a' x n p rx' b' d gm. port_announce_transmit_sm_run (replicate 8 0) one_sec sender = Some a' \<and>
    arrives_from (last (dma_sent (eth a'))) 0x01 x \<and>
    recv_ptp_frame (tsu_timestamp old_stamp) (replicate 8 0) 0 (rx_one x []) = Some (RcvdAnnounce n, p, rx') \<and>
    port_announce_information_sm_recv_announce one_sec n receiver = Some b' \<and>
    port_state_selection_sm_run (receiver_ports\<lparr>sel_inst := inst b', sel_ports := (sel_ports receiver_ports)[0 := port b']\<rparr>) = Some (d, gm) \<and>
    selectedState (sel_inst d) ! 1 = SLAVE_PORT \<and> priority1 (rootSystemIdentity (gmPriority (sel_inst d))) = 100"
proof -
  have due: "usval one_sec < 2 ^ 95" "uscaledns_compare one_sec (announceSendTime (sm sender)) \<ge> 0"
    by (simp_all add: usval_def uscaledns_compare_def sender_def)
  have master: "selectedState (inst sender) ! tidx sender = MASTER_PORT"
    by (simp add: sender_def example_defs Let_def)
  obtain m f e a' where m: "setAnnounce (replicate 8 0) sender = Some m" "announce_frame m = Some f"
    "send_ptp_frame f (thisPort (port sender)) (eth sender) = Some e"
    "port_announce_transmit_sm_run (replicate 8 0) one_sec sender = Some a'" "eth a' = e"
    using announce_due_run[OF sender_active due, of "replicate 8 0"] master by auto
  have lf: "length f \<le> 1554"
    using m(3) by (auto simp: send_ptp_frame_def blit_def wr_def sender_def tx_idle_def bind_eq_Some_conv split: option.splits if_splits)
  have p1: "thisPort (port sender) = 1" "eth sender = tx_idle" by (simp_all add: sender_def example_defs Let_def)
  have x: "arrives_from (last (dma_sent (eth a'))) 0x01 (delivered 0x01 f)"
    using send_idle[OF lf, of "0x01"] m(3,5) p1 by auto
  have "message_priority m (messagePriorityPAI (sm receiver)) = sent_vector"
    using sender_message m(1) by auto
  note rx = rx_one_packet[OF length_delivered[OF lf], of "0x01" "[]"]
  from best_master_spreads[OF sender_active master due _ _ _ m(4) x rx(1,2,3) _ receiver_adopts receiver_follows m(1)
      \<open>message_priority m _ = sent_vector\<close>[symmetric] sent_vector_better(1), of "replicate 8 0" "tsu_timestamp old_stamp" 0]
  have "\<exists>n p rx' b' d gm. recv_ptp_frame (tsu_timestamp old_stamp) (replicate 8 0) 0 (rx_one (delivered 0x01 f) []) = Some (RcvdAnnounce n, p, rx') \<and>
    port_announce_information_sm_recv_announce one_sec n receiver = Some b' \<and>
    port_state_selection_sm_run (receiver_ports\<lparr>sel_inst := inst b', sel_ports := (sel_ports receiver_ports)[0 := port b']\<rparr>) = Some (d, gm) \<and>
    selectedState (sel_inst d) ! Suc 0 = SLAVE_PORT \<and>
    rootSystemIdentity (gmPriority (sel_inst d)) = rootSystemIdentity (masterPriority (port sender))"
    using sent_vector_better(2) other_ports_worse pv_worst_max
    by (simp add: sender_def receiver_def example_defs Let_def sent_vector_def clock_vector_def HAS_PORT_PRIORITY_def order_less_imp_le)
  moreover have "priority1 (rootSystemIdentity (masterPriority (port sender))) = 100"
    by (simp add: sender_def clock_vector_def example_identity_def)
  ultimately show ?thesis using m(4) x by (metis One_nat_def)
qed

theorem announce_transmit_returns_witness:
  "ok (port_announce_transmit_sm_run (replicate 8 0) one_sec sender) (\<lambda>d. pat_wf d \<and> pat_rest d)"
  using announce_transmit_returns[of sender one_sec "replicate 8 0"] sender_active
  by (simp add: pat_active_def usval_def)

theorem announce_sent_when_due_witness:
  "\<exists>m f e d. setAnnounce (replicate 8 0) sender = Some m \<and> announce_frame m = Some f \<and> send_ptp_frame f 1 tx_idle = Some e \<and>
    port_announce_transmit_sm_run (replicate 8 0) one_sec sender = Some d \<and> eth d = e \<and>
    announceSendTime (sm d) = \<lparr>subns = 0, nsec = 2000000000, nsec_msb = 0\<rparr>"
proof -
  have "usval one_sec < 2 ^ 95" "uscaledns_compare one_sec (announceSendTime (sm sender)) \<ge> 0"
    by (simp_all add: usval_def uscaledns_compare_def sender_def)
  from announce_sent_when_due[OF sender_active this, of "replicate 8 0"] show ?thesis
    by (auto simp: sender_def example_defs Let_def uscaledns_add_def check_overflow_def)
qed

end
