(* ===== verification/MdPdelayResp.thy ===== *)
theory MdPdelayResp
  imports TxMachine
begin

text \<open>
  The MDPdelayResp state machine (\<open>time_sync/md_pdelay_resp_sm.c\<close>), the responder of the propagation
  delay measurement: it answers a Pdelay_Req with the time at which it came in, and sends the time at
  which the answer left in a second message.
\<close>

section \<open>State\<close>

datatype MDPdelayRespSMState = PD_RESP_INIT | PD_RESP_NOT_ENABLED | PD_RESP_INITIAL_WAITING_FOR_PDELAY_REQ
  | PD_RESP_SENT_PDELAY_RESP_WAITING_FOR_TIMESTAMP | PD_RESP_WAITING_FOR_PDELAY_REQ | PD_RESP_BEFORE_INIT

record MDPdelayRespSM =
  rcvdPdelayReq :: bool
  rcvdMDTimestampReceiveMDPResp :: bool
  txPdelayRespPtr :: "PTPMsgPdelayResp cptr"
  txPdelayRespFollowUpPtr :: "PTPMsgPdelayRespFollowUp cptr"
  portEnabled1 :: bool
  rcvdPdelayReqPtr :: "PTPMsgPdelayReq cptr"
  resp_t2 :: UScaledNs
  resp_t3 :: UScaledNs
  presp_state :: MDPdelayRespSMState
  presp_last_state :: MDPdelayRespSMState

type_synonym RespCtx = "MDPdelayRespSM MdCtx"

section \<open>The messages\<close>

text \<open>The identity of the clock in both messages is \<open>DEFAULT_CLOCK_IDENTITY\<close>, that is 0.\<close>

definition setPdelayResp :: "RespCtx \<Rightarrow> PTPMsgPdelayResp option" where
  "setPdelayResp c = do {
     q \<leftarrow> deref (rcvdPdelayReqPtr (sm c));
     Some \<lparr>presp_head = ptp_msg_header_template PDELAY_RESP 54 \<lparr>clockIdentity = 0, portNumber = thisPort (port c)\<rparr>
         (sequenceId (preq_head q)) 0 0,
       requestReceiptTimestamp = ptpmsgtimestamp_uscaledns (resp_t2 (sm c)),
       presp_requestingPortIdentity = sourcePortIdentity (preq_head q)\<rparr>
   }"

definition txPdelayResp :: "RespCtx \<Rightarrow> RespCtx option" where
  "txPdelayResp c = do {
     m \<leftarrow> deref (txPdelayRespPtr (sm c));
     e \<leftarrow> send_ptp_frame (pdelay_resp_frame m) (thisPort (port c)) (eth c);
     Some (c\<lparr>eth := e\<rparr>)
   }"

definition setPdelayRespFollowUp :: "RespCtx \<Rightarrow> PTPMsgPdelayRespFollowUp option" where
  "setPdelayRespFollowUp c = do {
     q \<leftarrow> deref (rcvdPdelayReqPtr (sm c));
     Some \<lparr>pfu_head = ptp_msg_header_template PDELAY_RESP_FOLLOW_UP 54 \<lparr>clockIdentity = 0, portNumber = thisPort (port c)\<rparr>
         (sequenceId (preq_head q)) 0 0,
       responseOriginTimestamp = ptpmsgtimestamp_uscaledns (resp_t3 (sm c)),
       pfu_requestingPortIdentity = sourcePortIdentity (preq_head q)\<rparr>
   }"

definition txPdelayRespFollowUp :: "RespCtx \<Rightarrow> RespCtx option" where
  "txPdelayRespFollowUp c = do {
     m \<leftarrow> deref (txPdelayRespFollowUpPtr (sm c));
     e \<leftarrow> send_ptp_frame (pdelay_resp_follow_up_frame m) (thisPort (port c)) (eth c);
     Some (c\<lparr>eth := e\<rparr>)
   }"

section \<open>Actions and transitions\<close>

definition presp_all_state_transition :: "RespCtx \<Rightarrow> MDPdelayRespSMState" where
  "presp_all_state_transition c =
     (if BEGIN (inst c) \<or> \<not> portOper (port c) \<or> \<not> portEnabled1 (sm c) then PD_RESP_NOT_ENABLED else presp_state (sm c))"

definition presp_not_enabled_transition :: "RespCtx \<Rightarrow> MDPdelayRespSMState" where
  "presp_not_enabled_transition c =
     (if portEnabled1 (sm c) then PD_RESP_INITIAL_WAITING_FOR_PDELAY_REQ else PD_RESP_NOT_ENABLED)"

definition presp_initial_action :: "RespCtx \<Rightarrow> RespCtx" where
  "presp_initial_action c = c\<lparr>sm := (sm c)\<lparr>rcvdPdelayReq := False, rcvdMDTimestampReceiveMDPResp := False\<rparr>\<rparr>"

definition presp_initial_transition :: "RespCtx \<Rightarrow> MDPdelayRespSMState" where
  "presp_initial_transition c =
     (if rcvdPdelayReq (sm c) then PD_RESP_SENT_PDELAY_RESP_WAITING_FOR_TIMESTAMP else PD_RESP_INITIAL_WAITING_FOR_PDELAY_REQ)"

definition presp_sent_action :: "RespCtx \<Rightarrow> RespCtx option" where
  "presp_sent_action c = do {
     let c = c\<lparr>sm := (sm c)\<lparr>rcvdPdelayReq := False\<rparr>\<rparr>;
     m \<leftarrow> setPdelayResp c;
     txPdelayResp (c\<lparr>sm := (sm c)\<lparr>txPdelayRespPtr := Live m\<rparr>\<rparr>)
   }"

definition presp_sent_transition :: "RespCtx \<Rightarrow> MDPdelayRespSMState" where
  "presp_sent_transition c =
     (if rcvdMDTimestampReceiveMDPResp (sm c) then PD_RESP_WAITING_FOR_PDELAY_REQ else PD_RESP_SENT_PDELAY_RESP_WAITING_FOR_TIMESTAMP)"

definition presp_waiting_action :: "RespCtx \<Rightarrow> RespCtx option" where
  "presp_waiting_action c = do {
     let c = c\<lparr>sm := (sm c)\<lparr>rcvdMDTimestampReceiveMDPResp := False\<rparr>\<rparr>;
     m \<leftarrow> setPdelayRespFollowUp c;
     c \<leftarrow> txPdelayRespFollowUp (c\<lparr>sm := (sm c)\<lparr>txPdelayRespFollowUpPtr := Live m\<rparr>\<rparr>);
     _ \<leftarrow> cfree (rcvdPdelayReqPtr (sm c));
     _ \<leftarrow> cfree (txPdelayRespPtr (sm c));
     _ \<leftarrow> cfree (txPdelayRespFollowUpPtr (sm c));
     Some (c\<lparr>sm := (sm c)\<lparr>rcvdPdelayReqPtr := Null, txPdelayRespPtr := Null, txPdelayRespFollowUpPtr := Null\<rparr>\<rparr>)
   }"

definition presp_waiting_transition :: "RespCtx \<Rightarrow> MDPdelayRespSMState" where
  "presp_waiting_transition c =
     (if rcvdPdelayReq (sm c) then PD_RESP_SENT_PDELAY_RESP_WAITING_FOR_TIMESTAMP else PD_RESP_WAITING_FOR_PDELAY_REQ)"

section \<open>The machine\<close>

definition presp_goto :: "MDPdelayRespSMState \<Rightarrow> RespCtx \<Rightarrow> RespCtx" where
  "presp_goto st c = c\<lparr>sm := (sm c)\<lparr>presp_state := st\<rparr>\<rparr>"

definition presp_body :: "RespCtx \<Rightarrow> (RespCtx \<times> bool) option" where
  "presp_body c0 = do {
     let state_change = presp_last_state (sm c0) \<noteq> presp_state (sm c0);
     let c = c0\<lparr>sm := (sm c0)\<lparr>presp_last_state := presp_state (sm c0)\<rparr>\<rparr>;
     c \<leftarrow> (case presp_state (sm c) of
         PD_RESP_INIT \<Rightarrow> Some (presp_goto PD_RESP_NOT_ENABLED c)
       | PD_RESP_NOT_ENABLED \<Rightarrow> Some (presp_goto (presp_not_enabled_transition c) c)
       | PD_RESP_INITIAL_WAITING_FOR_PDELAY_REQ \<Rightarrow> do {
           let c = (if state_change then presp_initial_action c else c);
           Some (presp_goto (presp_initial_transition c) c) }
       | PD_RESP_SENT_PDELAY_RESP_WAITING_FOR_TIMESTAMP \<Rightarrow> do {
           c \<leftarrow> (if state_change then presp_sent_action c else Some c);
           Some (presp_goto (presp_sent_transition c) c) }
       | PD_RESP_WAITING_FOR_PDELAY_REQ \<Rightarrow> do {
           c \<leftarrow> (if state_change then presp_waiting_action c else Some c);
           Some (presp_goto (presp_waiting_transition c) c) }
       | PD_RESP_BEFORE_INIT \<Rightarrow> Some c);
     Some (c, presp_last_state (sm c) \<noteq> presp_state (sm c))
   }"

definition md_pdelay_resp_sm_run :: "RespCtx \<Rightarrow> RespCtx option" where
  "md_pdelay_resp_sm_run c = sm_loop presp_body (presp_goto (presp_all_state_transition c) c)"

definition md_pdelay_resp_sm_txts :: "TSUTimestamp \<Rightarrow> RespCtx \<Rightarrow> RespCtx option" where
  "md_pdelay_resp_sm_txts t c =
     (if presp_state (sm c) \<noteq> PD_RESP_SENT_PDELAY_RESP_WAITING_FOR_TIMESTAMP then Some c
      else do {
        q \<leftarrow> deref (rcvdPdelayReqPtr (sm c));
        (if ts_sequenceID t \<noteq> sequenceId (preq_head q) then Some c
         else md_pdelay_resp_sm_run (c\<lparr>sm := (sm c)\<lparr>resp_t3 := ts_ts t, rcvdMDTimestampReceiveMDPResp := True\<rparr>\<rparr>)) })"

text \<open>The request before is not freed.\<close>

definition md_pdelay_resp_sm_recv_req :: "TSUTimestamp \<Rightarrow> PTPMsgPdelayReq \<Rightarrow> RespCtx \<Rightarrow> RespCtx option" where
  "md_pdelay_resp_sm_recv_req t q c =
     md_pdelay_resp_sm_run (c\<lparr>sm := (sm c)\<lparr>rcvdPdelayReq := True, rcvdPdelayReqPtr := Live q, resp_t2 := ts_ts t\<rparr>\<rparr>)"

definition init_md_pdelay_resp_sm :: "RespCtx \<Rightarrow> RespCtx option" where
  "init_md_pdelay_resp_sm c =
     md_pdelay_resp_sm_run (c\<lparr>sm := (sm c)\<lparr>presp_state := PD_RESP_INIT, presp_last_state := PD_RESP_BEFORE_INIT,
       portEnabled1 := True, rcvdPdelayReqPtr := Null\<rparr>\<rparr>)"

end
