(* ===== verification/MdSyncSend.thy ===== *)
theory MdSyncSend
  imports TxMachine
begin

text \<open>
  The MDSyncSend state machine (\<open>time_sync/md_sync_send_sm.c\<close>): a port sends a Sync message, waits for
  the time at which the hardware has sent it, and sends that time on in a Follow_Up message.
\<close>

section \<open>State\<close>

text \<open>What the port-independent machines hand over to be sent (\<open>tsn_drivers/ptp_types.h\<close>).\<close>

record MDSyncSend =
  ss_domainNumber :: byte
  ss_followUpCorrectionField :: UScaledNs
  ss_sourcePortIdentity :: PortIdentity
  ss_logMessageInterval :: byte
  ss_preciseOriginTimestamp :: PTPMsgTimestamp
  ss_upstreamTxTime :: UScaledNs
  ss_rateRatio :: double
  ss_gmTimeBaseIndicator :: "16 word"
  ss_lastGmPhaseChange :: UScaledNs
  ss_lastGmFreqChange :: double

datatype MDSyncSendSMState = MDSS_REACTION | MDSS_BEFORE_INIT | MDSS_INIT | MDSS_INITIALIZING | MDSS_SEND_SYNC | MDSS_SEND_FOLLOW_UP

record MDSyncSendSM =
  rcvdMDSyncMDSS :: bool
  mdss_rcvdMDSyncPtr :: "MDSyncSend cptr"
  txSyncPtr :: "PTPMsgSync cptr"
  rcvdMDTimestampReceiveMDSS :: bool
  rcvdMDTimestampReceivePtr :: "TSUTimestamp cptr"
  txFollowUpPtr :: "PTPMsgFollowUp cptr"
  syncEventEgressTimestamp :: UScaledNs
  mdss_state :: MDSyncSendSMState
  mdss_last_state :: MDSyncSendSMState

type_synonym MdssCtx = "MDSyncSendSM MdCtx"

section \<open>The messages\<close>

definition setSyncTwoStep :: "MdssCtx \<Rightarrow> PTPMsgSync option" where
  "setSyncTwoStep c = do {
     r \<leftarrow> deref (mdss_rcvdMDSyncPtr (sm c));
     Some \<lparr>sync_head = ptp_msg_header_template SYNC 44 (ss_sourcePortIdentity r) (syncSequenceId (mdent c)) (ss_logMessageInterval r) 0\<rparr>
   }"

definition txSync :: "MdssCtx \<Rightarrow> MdssCtx option" where
  "txSync c = do {
     m \<leftarrow> deref (txSyncPtr (sm c));
     e \<leftarrow> send_ptp_frame (sync_frame m) (thisPort (port c)) (eth c);
     Some (c\<lparr>eth := e\<rparr>)
   }"

text \<open>The correction: what came in, and the time since the message came in; the rate ratio is ignored.\<close>

definition setFollowUp :: "MdssCtx \<Rightarrow> PTPMsgFollowUp option" where
  "setFollowUp c = do {
     r \<leftarrow> deref (mdss_rcvdMDSyncPtr (sm c));
     s \<leftarrow> deref (txSyncPtr (sm c));
     let elapsedTime = uscaledns_subtract (syncEventEgressTimestamp (sm c)) (ss_upstreamTxTime r);
     let correction = uint64_uscaledns (uscaledns_add (ss_followUpCorrectionField r) elapsedTime);
     Some \<lparr>fu_head = ptp_msg_header_template FOLLOW_UP 76 (ss_sourcePortIdentity r) (sequenceId (sync_head s))
         (ss_logMessageInterval r) correction,
       preciseOriginTimestamp = ss_preciseOriginTimestamp r,
       followUpInformationTLV = \<lparr>fu_tlvType = 0x3, fu_lengthField = 28, organizationId = [0x00, 0x80, 0xC2],
         organizationSubType = [0x00, 0x00, 0x01], cumulativeScaledRateOffset = 0,
         tlv_gmTimeBaseIndicator = ss_gmTimeBaseIndicator r, tlv_lastGmPhaseChange = ss_lastGmPhaseChange r,
         scaledLastGmFreqChange = 0\<rparr>\<rparr>
   }"

definition txFollowUp :: "MdssCtx \<Rightarrow> MdssCtx option" where
  "txFollowUp c = do {
     m \<leftarrow> deref (txFollowUpPtr (sm c));
     e \<leftarrow> send_ptp_frame (follow_up_frame m) (thisPort (port c)) (eth c);
     Some (c\<lparr>eth := e\<rparr>)
   }"

section \<open>Actions and transitions\<close>

definition mdss_all_state_transition :: "MdssCtx \<Rightarrow> MDSyncSendSMState" where
  "mdss_all_state_transition c =
     (let thirdTerm = rcvdMDSyncMDSS (sm c) \<and> \<not> port_valid (port c) in
      if BEGIN (inst c) \<or> \<not> instanceEnable (inst c) \<or> thirdTerm then MDSS_INITIALIZING else mdss_state (sm c))"

text \<open>The first sequence number is a random number, \<open>r\<close>.\<close>

definition mdss_initializing_action :: "16 word \<Rightarrow> MdssCtx \<Rightarrow> MdssCtx" where
  "mdss_initializing_action r c =
     c\<lparr>sm := (sm c)\<lparr>rcvdMDSyncMDSS := False, rcvdMDTimestampReceiveMDSS := False\<rparr>,
       mdent := (mdent c)\<lparr>syncSequenceId := r\<rparr>\<rparr>"

definition mdss_may_send :: "MdssCtx \<Rightarrow> bool" where
  "mdss_may_send c \<longleftrightarrow> rcvdMDSyncMDSS (sm c) \<and> port_valid (port c) \<and> \<not> asymmetryMeasurementMode (port c)"

definition mdss_initializing_transition :: "MdssCtx \<Rightarrow> MDSyncSendSMState" where
  "mdss_initializing_transition c = (if mdss_may_send c then MDSS_SEND_SYNC else MDSS_INITIALIZING)"

definition mdss_send_sync_action :: "MdssCtx \<Rightarrow> MdssCtx option" where
  "mdss_send_sync_action c = do {
     let c = c\<lparr>sm := (sm c)\<lparr>rcvdMDSyncMDSS := False\<rparr>\<rparr>;
     _ \<leftarrow> cfree (txSyncPtr (sm c));
     m \<leftarrow> setSyncTwoStep c;
     c \<leftarrow> txSync (c\<lparr>sm := (sm c)\<lparr>txSyncPtr := Live m\<rparr>\<rparr>);
     Some (c\<lparr>mdent := (mdent c)\<lparr>syncSequenceId := syncSequenceId (mdent c) + 1\<rparr>\<rparr>)
   }"

definition mdss_send_sync_transition :: "MdssCtx \<Rightarrow> MDSyncSendSMState" where
  "mdss_send_sync_transition c = (if rcvdMDTimestampReceiveMDSS (sm c) then MDSS_SEND_FOLLOW_UP else MDSS_SEND_SYNC)"

definition mdss_send_follow_up_action :: "MdssCtx \<Rightarrow> MdssCtx option" where
  "mdss_send_follow_up_action c = do {
     let c = c\<lparr>sm := (sm c)\<lparr>rcvdMDTimestampReceiveMDSS := False\<rparr>\<rparr>;
     _ \<leftarrow> cfree (txFollowUpPtr (sm c));
     m \<leftarrow> setFollowUp c;
     txFollowUp (c\<lparr>sm := (sm c)\<lparr>txFollowUpPtr := Live m\<rparr>\<rparr>)
   }"

definition mdss_send_follow_up_transition :: "MdssCtx \<Rightarrow> MDSyncSendSMState" where
  "mdss_send_follow_up_transition c = (if mdss_may_send c then MDSS_SEND_SYNC else MDSS_SEND_FOLLOW_UP)"

section \<open>The machine\<close>

definition mdss_goto :: "MDSyncSendSMState \<Rightarrow> MdssCtx \<Rightarrow> MdssCtx" where
  "mdss_goto st c = c\<lparr>sm := (sm c)\<lparr>mdss_state := st\<rparr>\<rparr>"

definition mdss_body :: "16 word \<Rightarrow> MdssCtx \<Rightarrow> (MdssCtx \<times> bool) option" where
  "mdss_body r c0 = do {
     let state_change = mdss_last_state (sm c0) \<noteq> mdss_state (sm c0);
     let c = c0\<lparr>sm := (sm c0)\<lparr>mdss_last_state := mdss_state (sm c0)\<rparr>\<rparr>;
     c \<leftarrow> (case mdss_state (sm c) of
         MDSS_INIT \<Rightarrow> Some (mdss_goto MDSS_INITIALIZING c)
       | MDSS_INITIALIZING \<Rightarrow> do {
           let c = (if state_change then mdss_initializing_action r c else c);
           Some (mdss_goto (mdss_initializing_transition c) c) }
       | MDSS_SEND_SYNC \<Rightarrow> do {
           c \<leftarrow> (if state_change then mdss_send_sync_action c else Some c);
           Some (mdss_goto (mdss_send_sync_transition c) c) }
       | MDSS_SEND_FOLLOW_UP \<Rightarrow> do {
           c \<leftarrow> (if state_change then mdss_send_follow_up_action c else Some c);
           Some (mdss_goto (mdss_send_follow_up_transition c) c) }
       | MDSS_REACTION \<Rightarrow> Some c
       | MDSS_BEFORE_INIT \<Rightarrow> Some c);
     Some (c, mdss_last_state (sm c) \<noteq> mdss_state (sm c))
   }"

definition md_sync_send_sm_run :: "16 word \<Rightarrow> MdssCtx \<Rightarrow> MdssCtx option" where
  "md_sync_send_sm_run r c = sm_loop (mdss_body r) (mdss_goto (mdss_all_state_transition c) c)"

definition init_md_sync_send_sm :: "16 word \<Rightarrow> MdssCtx \<Rightarrow> MdssCtx option" where
  "init_md_sync_send_sm r c =
     md_sync_send_sm_run r (c\<lparr>sm := (sm c)\<lparr>mdss_rcvdMDSyncPtr := Null, rcvdMDTimestampReceivePtr := Null, txSyncPtr := Null,
       txFollowUpPtr := Null, mdss_state := MDSS_INIT, mdss_last_state := MDSS_BEFORE_INIT\<rparr>\<rparr>)"

definition md_sync_send_sm_recv_md_sync :: "16 word \<Rightarrow> MDSyncSend \<Rightarrow> MdssCtx \<Rightarrow> MdssCtx option" where
  "md_sync_send_sm_recv_md_sync r m c = do {
     _ \<leftarrow> cfree (mdss_rcvdMDSyncPtr (sm c));
     md_sync_send_sm_run r (c\<lparr>sm := (sm c)\<lparr>rcvdMDSyncMDSS := True, mdss_rcvdMDSyncPtr := Live m\<rparr>\<rparr>)
   }"

text \<open>
  The time at which a Sync message was sent. \<open>syncSequenceId - 1\<close> is computed as an \<open>int\<close>, so that
  it is -1 after the message with number 65535.
\<close>

definition md_sync_send_sm_txts :: "16 word \<Rightarrow> TSUTimestamp \<Rightarrow> MdssCtx \<Rightarrow> MdssCtx option" where
  "md_sync_send_sm_txts r t c =
     (if mdss_state (sm c) \<noteq> MDSS_SEND_SYNC then Some c
      else if uint (ts_sequenceID t) \<noteq> uint (syncSequenceId (mdent c)) - 1 then Some c
      else do {
        _ \<leftarrow> cfree (rcvdMDTimestampReceivePtr (sm c));
        md_sync_send_sm_run r (c\<lparr>sm := (sm c)\<lparr>rcvdMDTimestampReceiveMDSS := True, rcvdMDTimestampReceivePtr := Live t,
          syncEventEgressTimestamp := ts_ts t\<rparr>\<rparr>) })"

end
