(* ===== verification/MdSyncSend_Props.thy ===== *)
theory MdSyncSend_Props
  imports MdSyncSend TxMachine_Props PtpArith_Props ExampleNode
begin

text \<open>
  The MDSyncSend machine returns from every well-formed state, answers every request with one Sync
  and, once the time stamp is there, one Follow_Up; and stops for good after the Sync message with
  number 65535.
\<close>

section \<open>Every run ends\<close>

definition mdss_ptrs :: "MdssCtx \<Rightarrow> bool" where
  "mdss_ptrs c \<longleftrightarrow> tx_wf (eth c) \<and> txSyncPtr (sm c) \<noteq> Dangling \<and> txFollowUpPtr (sm c) \<noteq> Dangling \<and>
     rcvdMDTimestampReceivePtr (sm c) \<noteq> Dangling \<and> mdss_rcvdMDSyncPtr (sm c) \<noteq> Dangling"

definition mdss_wf :: "MdssCtx \<Rightarrow> bool" where
  "mdss_wf c \<longleftrightarrow> mdss_ptrs c \<and> (rcvdMDSyncMDSS (sm c) \<longrightarrow> mdss_rcvdMDSyncPtr (sm c) \<noteq> Null) \<and>
     (case mdss_state (sm c) of
        MDSS_INIT \<Rightarrow> mdss_last_state (sm c) \<noteq> MDSS_INIT
      | MDSS_INITIALIZING \<Rightarrow> True
      | MDSS_SEND_SYNC \<Rightarrow> mdss_rcvdMDSyncPtr (sm c) \<noteq> Null \<and>
          (if mdss_last_state (sm c) = MDSS_SEND_SYNC then txSyncPtr (sm c) \<noteq> Null else rcvdMDSyncMDSS (sm c))
      | MDSS_SEND_FOLLOW_UP \<Rightarrow> mdss_rcvdMDSyncPtr (sm c) \<noteq> Null \<and> txSyncPtr (sm c) \<noteq> Null \<and>
          (mdss_last_state (sm c) \<noteq> MDSS_SEND_FOLLOW_UP \<longrightarrow> rcvdMDTimestampReceiveMDSS (sm c))
      | _ \<Rightarrow> False)"

definition mdss_rank :: "MdssCtx \<Rightarrow> nat" where
  "mdss_rank c = (if mdss_state (sm c) = MDSS_INIT then 8 else 0) + (if mdss_last_state (sm c) = mdss_state (sm c) then 1 else 0) +
     (if rcvdMDSyncMDSS (sm c) then 2 else 0) + (if rcvdMDTimestampReceiveMDSS (sm c) then 2 else 0)"

definition mdss_rest :: "MdssCtx \<Rightarrow> bool" where
  "mdss_rest c \<longleftrightarrow> mdss_last_state (sm c) = mdss_state (sm c)"

text \<open>The two messages a machine sends for a request \<open>m\<close>.\<close>

definition sync_for :: "MDSyncSend \<Rightarrow> 16 word \<Rightarrow> PTPMsgSync" where
  "sync_for m n = \<lparr>sync_head = ptp_msg_header_template SYNC 44 (ss_sourcePortIdentity m) n (ss_logMessageInterval m) 0\<rparr>"

definition follow_up_for :: "MDSyncSend \<Rightarrow> 16 word \<Rightarrow> UScaledNs \<Rightarrow> PTPMsgFollowUp" where
  "follow_up_for m n t = \<lparr>fu_head = ptp_msg_header_template FOLLOW_UP 76 (ss_sourcePortIdentity m) n (ss_logMessageInterval m)
       (uint64_uscaledns (uscaledns_add (ss_followUpCorrectionField m) (uscaledns_subtract t (ss_upstreamTxTime m)))),
     preciseOriginTimestamp = ss_preciseOriginTimestamp m,
     followUpInformationTLV = \<lparr>fu_tlvType = 0x3, fu_lengthField = 28, organizationId = [0x00, 0x80, 0xC2],
       organizationSubType = [0x00, 0x00, 0x01], cumulativeScaledRateOffset = 0,
       tlv_gmTimeBaseIndicator = ss_gmTimeBaseIndicator m, tlv_lastGmPhaseChange = ss_lastGmPhaseChange m,
       scaledLastGmFreqChange = 0\<rparr>\<rparr>"

lemma frame_lengths: "length (sync_frame m) \<le> 1554" "length (follow_up_frame f) \<le> 1554"
  by (simp_all add: sync_frame_def follow_up_frame_def Let_def set_ptp_frame_header_def le16_def put32_def put64_def be64_def put_timestamp_def)

lemma send_sync_action:
  assumes "mdss_ptrs c" "mdss_rcvdMDSyncPtr (sm c) = Live m"
  obtains e where "mdss_send_sync_action c = Some (c\<lparr>sm := (sm c)\<lparr>rcvdMDSyncMDSS := False, txSyncPtr := Live (sync_for m (syncSequenceId (mdent c)))\<rparr>,
      eth := e, mdent := (mdent c)\<lparr>syncSequenceId := syncSequenceId (mdent c) + 1\<rparr>\<rparr>)"
    "sends [(thisPort (port c), sync_frame (sync_for m (syncSequenceId (mdent c))))] (eth c) e" "tx_wf e"
proof -
  have "tx_wf (eth c)" using assms(1) by (simp add: mdss_ptrs_def)
  from send_sends[OF this frame_lengths(1)] obtain e where
    e: "send_ptp_frame (sync_frame (sync_for m (syncSequenceId (mdent c)))) (thisPort (port c)) (eth c) = Some e"
    "sends [(thisPort (port c), sync_frame (sync_for m (syncSequenceId (mdent c))))] (eth c) e" "tx_wf e" .
  moreover have "cfree (txSyncPtr (sm c)) \<noteq> None"
    using assms(1) by (cases "txSyncPtr (sm c)") (simp_all add: mdss_ptrs_def)
  ultimately show thesis
    using that assms(2) by (auto simp: mdss_send_sync_action_def Let_def setSyncTwoStep_def txSync_def sync_for_def)
qed

lemma send_follow_up_action:
  assumes "mdss_ptrs c" "mdss_rcvdMDSyncPtr (sm c) = Live m" "txSyncPtr (sm c) = Live s"
  obtains e where "mdss_send_follow_up_action c = Some (c\<lparr>sm := (sm c)\<lparr>rcvdMDTimestampReceiveMDSS := False,
      txFollowUpPtr := Live (follow_up_for m (sequenceId (sync_head s)) (syncEventEgressTimestamp (sm c)))\<rparr>, eth := e\<rparr>)"
    "sends [(thisPort (port c), follow_up_frame (follow_up_for m (sequenceId (sync_head s)) (syncEventEgressTimestamp (sm c))))] (eth c) e" "tx_wf e"
proof -
  let ?f = "follow_up_for m (sequenceId (sync_head s)) (syncEventEgressTimestamp (sm c))"
  have "tx_wf (eth c)" using assms(1) by (simp add: mdss_ptrs_def)
  from send_sends[OF this frame_lengths(2)] obtain e where
    e: "send_ptp_frame (follow_up_frame ?f) (thisPort (port c)) (eth c) = Some e" "sends [(thisPort (port c), follow_up_frame ?f)] (eth c) e" "tx_wf e" .
  moreover have "cfree (txFollowUpPtr (sm c)) \<noteq> None"
    using assms(1) by (cases "txFollowUpPtr (sm c)") (simp_all add: mdss_ptrs_def)
  ultimately show thesis
    using that assms(2,3) by (auto simp: mdss_send_follow_up_action_def Let_def setFollowUp_def txFollowUp_def follow_up_for_def)
qed

lemma live_cases: "p \<noteq> Null \<Longrightarrow> p \<noteq> Dangling \<Longrightarrow> \<exists>x. p = Live x"
  by (cases p) simp_all

interpretation mdss: state_machine "mdss_body r" mdss_wf mdss_rank mdss_rest for r
proof
  fix c assume wf: "mdss_wf c"
  then have p: "mdss_ptrs c" by (simp add: mdss_wf_def)
  note d = mdss_body_def Let_def mdss_goto_def mdss_wf_def mdss_rank_def mdss_rest_def mdss_ptrs_def
  show "ok (mdss_body r c) (\<lambda>(d, changed). mdss_wf d \<and> (if changed then mdss_rank d < mdss_rank c else mdss_rest d))"
  proof (cases "mdss_state (sm c)")
    case MDSS_INIT
    then show ?thesis using wf by (simp add: d)
  next
    case MDSS_INITIALIZING
    then show ?thesis using wf
      by (simp add: d mdss_initializing_action_def mdss_initializing_transition_def mdss_may_send_def)
  next
    case MDSS_SEND_SYNC
    show ?thesis
    proof (cases "mdss_last_state (sm c) = MDSS_SEND_SYNC")
      case True
      then show ?thesis using wf MDSS_SEND_SYNC by (simp add: d mdss_send_sync_transition_def)
    next
      case False
      let ?c = "c\<lparr>sm := (sm c)\<lparr>mdss_last_state := MDSS_SEND_SYNC\<rparr>\<rparr>"
      have "mdss_rcvdMDSyncPtr (sm c) \<noteq> Null" "mdss_rcvdMDSyncPtr (sm c) \<noteq> Dangling"
        using wf MDSS_SEND_SYNC by (simp_all add: mdss_wf_def mdss_ptrs_def)
      from live_cases[OF this] obtain m where "mdss_rcvdMDSyncPtr (sm c) = Live m" by blast
      moreover have "mdss_ptrs ?c" using p by (simp add: mdss_ptrs_def)
      ultimately obtain e where "mdss_send_sync_action ?c = Some (?c\<lparr>sm := (sm ?c)\<lparr>rcvdMDSyncMDSS := False,
          txSyncPtr := Live (sync_for m (syncSequenceId (mdent ?c)))\<rparr>, eth := e,
          mdent := (mdent ?c)\<lparr>syncSequenceId := syncSequenceId (mdent ?c) + 1\<rparr>\<rparr>)" "tx_wf e"
        using send_sync_action[of ?c m] by auto
      then show ?thesis using wf MDSS_SEND_SYNC False by (simp add: d mdss_send_sync_transition_def)
    qed
  next
    case MDSS_SEND_FOLLOW_UP
    show ?thesis
    proof (cases "mdss_last_state (sm c) = MDSS_SEND_FOLLOW_UP")
      case True
      then show ?thesis using wf MDSS_SEND_FOLLOW_UP by (simp add: d mdss_send_follow_up_transition_def mdss_may_send_def)
    next
      case False
      let ?c = "c\<lparr>sm := (sm c)\<lparr>mdss_last_state := MDSS_SEND_FOLLOW_UP\<rparr>\<rparr>"
      have "mdss_rcvdMDSyncPtr (sm c) \<noteq> Null" "mdss_rcvdMDSyncPtr (sm c) \<noteq> Dangling" "txSyncPtr (sm c) \<noteq> Null" "txSyncPtr (sm c) \<noteq> Dangling"
        using wf MDSS_SEND_FOLLOW_UP by (simp_all add: mdss_wf_def mdss_ptrs_def)
      then obtain m s where ms: "mdss_rcvdMDSyncPtr (sm c) = Live m" "txSyncPtr (sm c) = Live s" using live_cases by metis
      moreover have "mdss_ptrs ?c" using p by (simp add: mdss_ptrs_def)
      ultimately obtain e where "mdss_send_follow_up_action ?c = Some (?c\<lparr>sm := (sm ?c)\<lparr>rcvdMDTimestampReceiveMDSS := False,
          txFollowUpPtr := Live (follow_up_for m (sequenceId (sync_head s)) (syncEventEgressTimestamp (sm ?c)))\<rparr>, eth := e\<rparr>)" "tx_wf e"
        using send_follow_up_action[of ?c m s] by auto
      then show ?thesis using wf MDSS_SEND_FOLLOW_UP False ms by (simp add: d mdss_send_follow_up_transition_def mdss_may_send_def)
    qed
  qed (use wf in \<open>simp_all add: mdss_wf_def\<close>)
qed

section \<open>One request\<close>

definition mdss_on :: "MdssCtx \<Rightarrow> bool" where
  "mdss_on c \<longleftrightarrow> \<not> BEGIN (inst c) \<and> instanceEnable (inst c) \<and> port_valid (port c) \<and> \<not> asymmetryMeasurementMode (port c)"

definition mdss_ready :: "MdssCtx \<Rightarrow> bool" where
  "mdss_ready c \<longleftrightarrow> mdss_on c \<and> mdss_wf c \<and> mdss_rest c \<and> mdss_state (sm c) \<in> {MDSS_INITIALIZING, MDSS_SEND_FOLLOW_UP} \<and>
     \<not> rcvdMDSyncMDSS (sm c) \<and> \<not> rcvdMDTimestampReceiveMDSS (sm c)"

text \<open>A machine that has sent the Sync message number \<open>n\<close> for \<open>m\<close>.\<close>

definition mdss_waiting :: "MDSyncSend \<Rightarrow> 16 word \<Rightarrow> MdssCtx \<Rightarrow> bool" where
  "mdss_waiting m n c \<longleftrightarrow> mdss_on c \<and> mdss_ptrs c \<and> mdss_rest c \<and> mdss_state (sm c) = MDSS_SEND_SYNC \<and>
     \<not> rcvdMDSyncMDSS (sm c) \<and> \<not> rcvdMDTimestampReceiveMDSS (sm c) \<and> mdss_rcvdMDSyncPtr (sm c) = Live m \<and>
     txSyncPtr (sm c) = Live (sync_for m n) \<and> syncSequenceId (mdent c) = n + 1"

lemma cfree_ok: "p \<noteq> Dangling \<Longrightarrow> cfree p \<noteq> None"
  by (cases p) simp_all

lemma request_run:
  assumes "mdss_ready c"
  obtains d where "md_sync_send_sm_recv_md_sync r m c = Some d" "mdss_waiting m (syncSequenceId (mdent c)) d"
    "sends [(thisPort (port c), sync_frame (sync_for m (syncSequenceId (mdent c))))] (eth c) (eth d)" "port d = port c" "inst d = inst c"
proof -
  have c: "mdss_on c" "mdss_ptrs c" "mdss_last_state (sm c) = mdss_state (sm c)" "mdss_state (sm c) \<in> {MDSS_INITIALIZING, MDSS_SEND_FOLLOW_UP}"
    "\<not> rcvdMDTimestampReceiveMDSS (sm c)"
    using assms by (simp_all add: mdss_ready_def mdss_wf_def mdss_rest_def)
  define c0 where "c0 = c\<lparr>sm := (sm c)\<lparr>rcvdMDSyncMDSS := True, mdss_rcvdMDSyncPtr := Live m\<rparr>\<rparr>"
  define c1 where "c1 = c0\<lparr>sm := (sm c0)\<lparr>mdss_last_state := mdss_state (sm c), mdss_state := MDSS_SEND_SYNC\<rparr>\<rparr>"
  let ?c1 = "c1\<lparr>sm := (sm c1)\<lparr>mdss_last_state := MDSS_SEND_SYNC\<rparr>\<rparr>"
  have "mdss_ptrs ?c1" "mdss_rcvdMDSyncPtr (sm ?c1) = Live m"
    using c(2) by (simp_all add: mdss_ptrs_def c1_def c0_def)
  from send_sync_action[OF this] obtain e where e: "tx_wf e" "sends [(thisPort (port c), sync_frame (sync_for m (syncSequenceId (mdent c))))] (eth c) e"
    "mdss_send_sync_action ?c1 = Some (?c1\<lparr>sm := (sm ?c1)\<lparr>rcvdMDSyncMDSS := False, txSyncPtr := Live (sync_for m (syncSequenceId (mdent ?c1)))\<rparr>,
      eth := e, mdent := (mdent ?c1)\<lparr>syncSequenceId := syncSequenceId (mdent ?c1) + 1\<rparr>\<rparr>)"
    by (auto simp: c1_def c0_def)
  define d where "d = ?c1\<lparr>sm := (sm ?c1)\<lparr>rcvdMDSyncMDSS := False, txSyncPtr := Live (sync_for m (syncSequenceId (mdent ?c1)))\<rparr>,
      eth := e, mdent := (mdent ?c1)\<lparr>syncSequenceId := syncSequenceId (mdent ?c1) + 1\<rparr>\<rparr>"
  have t1: "mdss_body r c0 = Some (c1, True)"
    using c(1,3,4) by (auto simp: mdss_body_def Let_def mdss_goto_def c0_def c1_def mdss_initializing_transition_def
      mdss_send_follow_up_transition_def mdss_may_send_def mdss_on_def)
  have t2: "mdss_body r c1 = Some (d, False)"
    using c(3-5) e(3) by (auto simp: mdss_body_def Let_def mdss_goto_def c0_def c1_def d_def mdss_send_sync_transition_def)
  have "mdss_all_state_transition c0 = mdss_state (sm c0)"
    using c(1) by (simp add: mdss_all_state_transition_def mdss_on_def c0_def)
  moreover have "mdss_goto (mdss_state (sm c0)) c0 = c0" by (simp add: mdss_goto_def)
  ultimately have "md_sync_send_sm_run r c0 = Some d"
    using sm_loop_turn[of "mdss_body r", OF t1] sm_loop_stop[of "mdss_body r", OF t2] by (simp add: md_sync_send_sm_run_def)
  moreover have "cfree (mdss_rcvdMDSyncPtr (sm c)) \<noteq> None" using c(2) cfree_ok by (auto simp: mdss_ptrs_def)
  ultimately have "md_sync_send_sm_recv_md_sync r m c = Some d"
    by (auto simp: md_sync_send_sm_recv_md_sync_def c0_def)
  moreover have "mdss_waiting m (syncSequenceId (mdent c)) d"
    using c e(1) by (simp add: mdss_waiting_def mdss_on_def mdss_ptrs_def mdss_rest_def d_def c1_def c0_def)
  moreover have "eth d = e" "port d = port c" "inst d = inst c" by (simp_all add: d_def c1_def c0_def)
  ultimately show thesis using that e(2) by blast
qed

lemma stamp_run:
  assumes "mdss_waiting m n c" "ts_sequenceID t = n" "n \<noteq> 0xFFFF"
  obtains d where "md_sync_send_sm_txts r t c = Some d" "mdss_ready d" "syncSequenceId (mdent d) = n + 1"
    "sends [(thisPort (port c), follow_up_frame (follow_up_for m n (ts_ts t)))] (eth c) (eth d)" "port d = port c" "inst d = inst c"
proof -
  have c: "mdss_on c" "mdss_ptrs c" "mdss_last_state (sm c) = MDSS_SEND_SYNC" "mdss_state (sm c) = MDSS_SEND_SYNC" "\<not> rcvdMDSyncMDSS (sm c)"
    "mdss_rcvdMDSyncPtr (sm c) = Live m" "txSyncPtr (sm c) = Live (sync_for m n)" "syncSequenceId (mdent c) = n + 1"
    using assms(1) by (simp_all add: mdss_waiting_def mdss_rest_def)
  define c0 where "c0 = c\<lparr>sm := (sm c)\<lparr>rcvdMDTimestampReceiveMDSS := True, rcvdMDTimestampReceivePtr := Live t,
          syncEventEgressTimestamp := ts_ts t\<rparr>\<rparr>"
  define c1 where "c1 = c0\<lparr>sm := (sm c0)\<lparr>mdss_state := MDSS_SEND_FOLLOW_UP\<rparr>\<rparr>"
  let ?c1 = "c1\<lparr>sm := (sm c1)\<lparr>mdss_last_state := MDSS_SEND_FOLLOW_UP\<rparr>\<rparr>"
  have "mdss_ptrs ?c1" "mdss_rcvdMDSyncPtr (sm ?c1) = Live m" "txSyncPtr (sm ?c1) = Live (sync_for m n)"
    using c by (simp_all add: mdss_ptrs_def c1_def c0_def)
  from send_follow_up_action[OF this] obtain e where e: "tx_wf e" "sends [(thisPort (port c), follow_up_frame (follow_up_for m n (ts_ts t)))] (eth c) e"
    "mdss_send_follow_up_action ?c1 = Some (?c1\<lparr>sm := (sm ?c1)\<lparr>rcvdMDTimestampReceiveMDSS := False,
      txFollowUpPtr := Live (follow_up_for m n (ts_ts t))\<rparr>, eth := e\<rparr>)"
    by (auto simp: c1_def c0_def sync_for_def ptp_msg_header_template_def)
  define d where "d = ?c1\<lparr>sm := (sm ?c1)\<lparr>rcvdMDTimestampReceiveMDSS := False, txFollowUpPtr := Live (follow_up_for m n (ts_ts t))\<rparr>, eth := e\<rparr>"
  have t1: "mdss_body r c0 = Some (c1, True)"
    using c(3,4) by (auto simp: mdss_body_def Let_def mdss_goto_def c0_def c1_def mdss_send_sync_transition_def)
  have t2: "mdss_body r c1 = Some (d, False)"
    using c(3-5) e(3) by (auto simp: mdss_body_def Let_def mdss_goto_def c0_def c1_def d_def mdss_send_follow_up_transition_def mdss_may_send_def)
  have "mdss_all_state_transition c0 = mdss_state (sm c0)"
    using c(1) by (simp add: mdss_all_state_transition_def mdss_on_def c0_def)
  moreover have "mdss_goto (mdss_state (sm c0)) c0 = c0" by (simp add: mdss_goto_def)
  ultimately have "md_sync_send_sm_run r c0 = Some d"
    using sm_loop_turn[of "mdss_body r", OF t1] sm_loop_stop[of "mdss_body r", OF t2] by (simp add: md_sync_send_sm_run_def)
  moreover have "cfree (rcvdMDTimestampReceivePtr (sm c)) \<noteq> None" using c(2) cfree_ok by (auto simp: mdss_ptrs_def)
  moreover have "uint n = uint (n + 1) - 1"
  proof -
    have "uint n \<noteq> 65535" using assms(3) by (simp add: word_uint_eq_iff)
    moreover have "0 \<le> uint n" "uint n < 65536" using uint_bounded[of n] by simp_all
    ultimately show ?thesis by (simp add: uint_word_ariths(1) mod_pos_pos_trivial)
  qed
  ultimately have "md_sync_send_sm_txts r t c = Some d"
    using c(4,8) assms(2) by (auto simp: md_sync_send_sm_txts_def c0_def)
  moreover have "mdss_ready d"
    using c e(1) by (simp add: mdss_ready_def mdss_wf_def mdss_on_def mdss_ptrs_def mdss_rest_def d_def c1_def c0_def)
  moreover have "eth d = e" "port d = port c" "inst d = inst c" "syncSequenceId (mdent d) = n + 1" using c(8) by (simp_all add: d_def c1_def c0_def)
  ultimately show thesis using that e(2) by blast
qed

section \<open>What the machine promises\<close>

lemma uint64_usval: "unat (uint64_uscaledns t) = usval t mod 2 ^ 64"
proof -
  have s: "unat (ucast (subns t) :: 64 word) = unat (subns t)"
    using unat_bounds(1)[of t] by (simp add: unat_ucast_mod)
  have "ucast (subns t) AND push_bit 16 (nsec t) = 0"
    by (rule bit_word_eqI) (auto simp: bit_simps dest: bit_imp_le_length)
  then have "uint64_uscaledns t = ucast (subns t) + nsec t * 2 ^ 16"
    unfolding uint64_uscaledns_def push_bit_eq_mult[symmetric] by (metis add_0 word_plus_and_or)
  then have "unat (uint64_uscaledns t) = (unat (subns t) + unat (nsec t) * 65536) mod 2 ^ 64"
    using s by (simp add: unat_word_ariths mod_add_right_eq)
  also have "\<dots> = usval t mod 2 ^ 64"
  proof -
    have "usval t = (unat (subns t) + unat (nsec t) * 65536) + 2 ^ 64 * (65536 * unat (nsec_msb t))" by (simp add: usval_def)
    then show ?thesis by (simp only: mod_mult_self2)
  qed
  finally show ?thesis .
qed

lemma usval_subtract_le:
  assumes "usval b \<le> usval a"
  shows "usval (uscaledns_subtract a b) = usval a - usval b"
proof -
  have "usval a + 2 ^ 96 - usval b = (usval a - usval b) + 2 ^ 96" using assms by simp
  moreover have "usval a - usval b < 2 ^ 96" using usval_less[of a] by simp
  ultimately show ?thesis unfolding usval_subtract by (metis mod_add_self2 mod_less)
qed

text \<open>
  C20. A port sends every Sync message with the time at which it really left, unless its number is 65535. For one
  request a ready machine sends one Sync frame out of its port with the next sequence number; when the hardware
  reports the time stamp of that number, not before the upstream transmission, it sends one Follow_Up frame out of
  its port with the same number and the time of the grandmaster, whose correction is the correction received plus the
  time from the upstream transmission to that time stamp, plus a nanosecond where the two fractions add up to 65535;
  and it is ready again. When the number is 65535 the time stamp changes nothing and no Follow_Up frame is sent.
\<close>

theorem sync_then_follow_up:
  assumes "mdss_ready c" "ts_sequenceID t = syncSequenceId (mdent c)" "usval (ss_upstreamTxTime m) \<le> usval (ts_ts t)"
  shows "\<exists>d. md_sync_send_sm_recv_md_sync r m c = Some d \<and>
    sends [(thisPort (port c), sync_frame (sync_for m (syncSequenceId (mdent c))))] (eth c) (eth d) \<and>
    (if syncSequenceId (mdent c) = 0xFFFF then md_sync_send_sm_txts r' t d = Some d
     else \<exists>e f. md_sync_send_sm_txts r' t d = Some e \<and> sends [(thisPort (port c), follow_up_frame f)] (eth d) (eth e) \<and>
       sequenceId (fu_head f) = syncSequenceId (mdent c) \<and> preciseOriginTimestamp f = ss_preciseOriginTimestamp m \<and>
       unat (correctionField (fu_head f)) =
         (usval (ss_followUpCorrectionField m) + (usval (ts_ts t) - usval (ss_upstreamTxTime m)) +
           carry_error (ss_followUpCorrectionField m) (uscaledns_subtract (ts_ts t) (ss_upstreamTxTime m))) mod 2 ^ 64 \<and>
       mdss_ready e \<and> syncSequenceId (mdent e) = syncSequenceId (mdent c) + 1)"
proof -
  from request_run[OF assms(1)] obtain d where
    d: "md_sync_send_sm_recv_md_sync r m c = Some d" "mdss_waiting m (syncSequenceId (mdent c)) d" "port d = port c"
      "sends [(thisPort (port c), sync_frame (sync_for m (syncSequenceId (mdent c))))] (eth c) (eth d)" by metis
  have last: "md_sync_send_sm_txts r' t d = Some d" if "syncSequenceId (mdent c) = 0xFFFF"
    using d(2) that assms(2) by (simp add: md_sync_send_sm_txts_def mdss_waiting_def)
  have "\<exists>e. md_sync_send_sm_txts r' t d = Some e \<and> mdss_ready e \<and> syncSequenceId (mdent e) = syncSequenceId (mdent c) + 1 \<and>
      sends [(thisPort (port c), follow_up_frame (follow_up_for m (syncSequenceId (mdent c)) (ts_ts t)))] (eth d) (eth e)"
    if "syncSequenceId (mdent c) \<noteq> 0xFFFF"
    by (rule stamp_run[OF d(2) assms(2) that, of r']) (use d(3) in auto)
  moreover let ?f = "follow_up_for m (syncSequenceId (mdent c)) (ts_ts t)"
  have "unat (correctionField (fu_head ?f)) =
      (usval (ss_followUpCorrectionField m) + (usval (ts_ts t) - usval (ss_upstreamTxTime m)) +
        carry_error (ss_followUpCorrectionField m) (uscaledns_subtract (ts_ts t) (ss_upstreamTxTime m))) mod 2 ^ 64"
    using usval_subtract_le[OF assms(3)]
    by (simp add: follow_up_for_def ptp_msg_header_template_def uint64_usval usval_add carry_error_def mod_mod_cancel)
  moreover have "sequenceId (fu_head ?f) = syncSequenceId (mdent c)" "preciseOriginTimestamp ?f = ss_preciseOriginTimestamp m"
    by (simp_all add: follow_up_for_def ptp_msg_header_template_def)
  ultimately show ?thesis using d last by (intro exI[of _ d]) auto
qed

text \<open>A machine of port 2 that has just been started, the sequence number being \<open>n\<close>.\<close>

definition started_mdss :: "16 word \<Rightarrow> MdssCtx" where
  "started_mdss n = \<lparr>sm = \<lparr>rcvdMDSyncMDSS = False, mdss_rcvdMDSyncPtr = Null, txSyncPtr = Null, rcvdMDTimestampReceiveMDSS = False,
       rcvdMDTimestampReceivePtr = Null, txFollowUpPtr = Null, syncEventEgressTimestamp = zero_ns, mdss_state = MDSS_INITIALIZING,
       mdss_last_state = MDSS_INITIALIZING\<rparr>,
     port = example_port 246 1 1, inst = example_instance 246 1, eth = tx_idle, mdent = (init_mdentity blank_mdent)\<lparr>syncSequenceId := n\<rparr>\<rparr>"

definition example_request :: MDSyncSend where
  "example_request = \<lparr>ss_domainNumber = 0, ss_followUpCorrectionField = \<lparr>subns = 0, nsec = 700, nsec_msb = 0\<rparr>,
     ss_sourcePortIdentity = \<lparr>clockIdentity = 1, portNumber = 2\<rparr>, ss_logMessageInterval = 0,
     ss_preciseOriginTimestamp = \<lparr>seconds_msb = 0, seconds_lsb = 5, nanoseconds = 9\<rparr>,
     ss_upstreamTxTime = \<lparr>subns = 0, nsec = 1000, nsec_msb = 0\<rparr>, ss_rateRatio = 1, ss_gmTimeBaseIndicator = 0,
     ss_lastGmPhaseChange = zero_ns, ss_lastGmFreqChange = 0\<rparr>"

lemma started_mdss_ready: "mdss_ready (started_mdss n)"
  by (simp add: mdss_ready_def mdss_on_def mdss_wf_def mdss_ptrs_def mdss_rest_def started_mdss_def example_defs Let_def tx_wf_def tx_idle_def
    port_valid_def)

lemma started_mdss_seq: "syncSequenceId (mdent (started_mdss n)) = n"
  by (simp add: started_mdss_def)

text \<open>700 ns of correction and 250 ns in this node are 950 ns of correction.\<close>

theorem sync_then_follow_up_witness:
  "\<exists>d e f. md_sync_send_sm_recv_md_sync 0 example_request (started_mdss 7) = Some d \<and>
    md_sync_send_sm_txts 0 \<lparr>ts_ts = \<lparr>subns = 0, nsec = 1250, nsec_msb = 0\<rparr>, ts_sequenceID = 7, ts_msgType = 0\<rparr> d = Some e \<and>
    sends [(thisPort (port (started_mdss 7)), follow_up_frame f)] (eth d) (eth e) \<and> unat (correctionField (fu_head f)) = 950 * 65536 \<and> syncSequenceId (mdent e) = 8"
  using sync_then_follow_up[OF started_mdss_ready[of 7],
      of "\<lparr>ts_ts = \<lparr>subns = 0, nsec = 1250, nsec_msb = 0\<rparr>, ts_sequenceID = 7, ts_msgType = 0\<rparr>" example_request 0 0]
  by (auto simp: started_mdss_seq example_request_def usval_def uscaledns_subtract_def carry_error_def)

section \<open>The end of the sequence numbers\<close>

datatype mdss_event = Request MDSyncSend | Stamp TSUTimestamp

primrec mdss_handle :: "16 word \<Rightarrow> mdss_event \<Rightarrow> MdssCtx \<Rightarrow> MdssCtx option" where
  "mdss_handle r (Request m) c = md_sync_send_sm_recv_md_sync r m c"
| "mdss_handle r (Stamp t) c = md_sync_send_sm_txts r t c"

definition mdss_blocked :: "MdssCtx \<Rightarrow> bool" where
  "mdss_blocked c \<longleftrightarrow> mdss_on c \<and> mdss_ptrs c \<and> mdss_rest c \<and> mdss_state (sm c) = MDSS_SEND_SYNC \<and>
     \<not> rcvdMDTimestampReceiveMDSS (sm c) \<and> syncSequenceId (mdent c) = 0"

lemma blocked_stays:
  assumes "mdss_blocked c"
  shows "ok (mdss_handle r ev c) (\<lambda>d. mdss_blocked d \<and> eth d = eth c)"
proof (cases ev)
  case (Stamp t)
  have "uint (ts_sequenceID t) \<noteq> -1" using uint_ge_0[of "ts_sequenceID t"] by linarith
  then show ?thesis using Stamp assms by (simp add: md_sync_send_sm_txts_def mdss_blocked_def)
next
  case (Request m)
  define c0 where "c0 = c\<lparr>sm := (sm c)\<lparr>rcvdMDSyncMDSS := True, mdss_rcvdMDSyncPtr := Live m\<rparr>\<rparr>"
  have c0: "mdss_blocked c0" "eth c0 = eth c" using assms
    by (simp_all add: c0_def mdss_blocked_def mdss_on_def mdss_ptrs_def mdss_rest_def)
  have "mdss_body r c0 = Some (c0, False)"
    using c0(1) by (simp add: mdss_blocked_def mdss_rest_def mdss_body_def Let_def mdss_goto_def mdss_send_sync_transition_def)
  moreover have "mdss_goto (mdss_all_state_transition c0) c0 = c0"
    using c0(1) by (simp add: mdss_blocked_def mdss_on_def mdss_goto_def mdss_all_state_transition_def)
  ultimately have "md_sync_send_sm_run r c0 = Some c0"
    by (simp add: md_sync_send_sm_run_def sm_loop_stop[of "mdss_body r"])
  moreover have "cfree (mdss_rcvdMDSyncPtr (sm c)) \<noteq> None" using assms cfree_ok by (auto simp: mdss_blocked_def mdss_ptrs_def)
  ultimately show ?thesis using Request c0 by (auto simp: md_sync_send_sm_recv_md_sync_def c0_def)
qed

text \<open>
  C21. A port stops sending Sync messages for good after the one with number 65535: its time stamp is
  compared with -1, so that no time stamp is accepted, no Follow_Up follows, and whatever requests and
  time stamps come in later, not one more frame is sent while the port stays enabled.
\<close>

theorem sync_wraparound_stops_port:
  assumes "mdss_ready c" "syncSequenceId (mdent c) = 0xFFFF"
  shows "\<exists>d. md_sync_send_sm_recv_md_sync r m c = Some d \<and> sends [(thisPort (port c), sync_frame (sync_for m 0xFFFF))] (eth c) (eth d) \<and>
    (\<forall>es. \<exists>e. for_each (mdss_handle r') es d = Some e \<and> eth e = eth d)"
proof -
  from request_run[OF assms(1)] obtain d where
    d: "md_sync_send_sm_recv_md_sync r m c = Some d" "mdss_waiting m 0xFFFF d" "sends [(thisPort (port c), sync_frame (sync_for m 0xFFFF))] (eth c) (eth d)"
    using assms(2) by metis
  have "mdss_blocked d" using d(2) by (simp add: mdss_waiting_def mdss_blocked_def)
  have "ok (for_each (mdss_handle r') es d) (\<lambda>e. mdss_blocked e \<and> eth e = eth d)" for es
    by (rule ok_for_each) (use \<open>mdss_blocked d\<close> in \<open>auto intro: ok_weaken[OF blocked_stays]\<close>)
  then show ?thesis using d by (auto simp: ok_iff)
qed

theorem sync_wraparound_stops_port_witness:
  "\<exists>d. md_sync_send_sm_recv_md_sync 0 example_request (started_mdss 0xFFFF) = Some d \<and>
    (\<exists>e. for_each (mdss_handle 0) [Stamp \<lparr>ts_ts = zero_ns, ts_sequenceID = 0xFFFF, ts_msgType = 0\<rparr>, Request example_request] d = Some e \<and>
      eth e = eth d)"
  using sync_wraparound_stops_port[OF started_mdss_ready[of "0xFFFF"] started_mdss_seq, of 0 example_request 0] by blast

end
