(* ===== verification/MdPdelayResp_Props.thy ===== *)
theory MdPdelayResp_Props
  imports MdPdelayResp MdSyncSend_Props
begin

text \<open>
  The MDPdelayResp machine answers a request by two messages that carry the times at which the request
  came in and the answer left. A second request before the time stamp of the first answer is fatal.
\<close>

section \<open>One request\<close>

definition presp_on :: "RespCtx \<Rightarrow> bool" where
  "presp_on c \<longleftrightarrow> \<not> BEGIN (inst c) \<and> portOper (port c) \<and> portEnabled1 (sm c) \<and> tx_wf (eth c)"

text \<open>Waiting for a request, and for the time stamp of the answer to \<open>q\<close>, which came in at \<open>t\<close>.\<close>

definition presp_ready :: "RespCtx \<Rightarrow> bool" where
  "presp_ready c \<longleftrightarrow> presp_on c \<and> presp_last_state (sm c) = presp_state (sm c) \<and>
     presp_state (sm c) \<in> {PD_RESP_INITIAL_WAITING_FOR_PDELAY_REQ, PD_RESP_WAITING_FOR_PDELAY_REQ} \<and>
     \<not> rcvdMDTimestampReceiveMDPResp (sm c)"

definition presp_waiting :: "PTPMsgPdelayReq \<Rightarrow> RespCtx \<Rightarrow> bool" where
  "presp_waiting q c \<longleftrightarrow> presp_on c \<and> presp_last_state (sm c) = presp_state (sm c) \<and>
     presp_state (sm c) = PD_RESP_SENT_PDELAY_RESP_WAITING_FOR_TIMESTAMP \<and> \<not> rcvdMDTimestampReceiveMDPResp (sm c) \<and>
     rcvdPdelayReqPtr (sm c) = Live q \<and> txPdelayRespPtr (sm c) \<notin> {Null, Dangling}"

definition resp_for :: "PTPMsgPdelayReq \<Rightarrow> 16 word \<Rightarrow> UScaledNs \<Rightarrow> PTPMsgPdelayResp" where
  "resp_for q p t = \<lparr>presp_head = ptp_msg_header_template PDELAY_RESP 54 \<lparr>clockIdentity = 0, portNumber = p\<rparr> (sequenceId (preq_head q)) 0 0,
     requestReceiptTimestamp = ptpmsgtimestamp_uscaledns t, presp_requestingPortIdentity = sourcePortIdentity (preq_head q)\<rparr>"

definition resp_follow_up_for :: "PTPMsgPdelayReq \<Rightarrow> 16 word \<Rightarrow> UScaledNs \<Rightarrow> PTPMsgPdelayRespFollowUp" where
  "resp_follow_up_for q p t = \<lparr>pfu_head = ptp_msg_header_template PDELAY_RESP_FOLLOW_UP 54 \<lparr>clockIdentity = 0, portNumber = p\<rparr>
       (sequenceId (preq_head q)) 0 0,
     responseOriginTimestamp = ptpmsgtimestamp_uscaledns t, pfu_requestingPortIdentity = sourcePortIdentity (preq_head q)\<rparr>"

lemma resp_lengths: "length (pdelay_resp_frame m) \<le> 1554" "length (pdelay_resp_follow_up_frame f) \<le> 1554"
  by (simp_all add: pdelay_resp_frame_def pdelay_resp_follow_up_frame_def set_ptp_frame_header_def le16_def put32_def put64_def be64_def
    put_timestamp_def put_port_identity_def)

lemma presp_sent_action_runs:
  assumes "tx_wf (eth c)" "rcvdPdelayReqPtr (sm c) = Live q"
  obtains e where "presp_sent_action c = Some (c\<lparr>sm := (sm c)\<lparr>rcvdPdelayReq := False,
      txPdelayRespPtr := Live (resp_for q (thisPort (port c)) (resp_t2 (sm c)))\<rparr>, eth := e\<rparr>)"
    "sends [(thisPort (port c), pdelay_resp_frame (resp_for q (thisPort (port c)) (resp_t2 (sm c))))] (eth c) e" "tx_wf e"
proof -
  from send_sends[OF assms(1) resp_lengths(1)] obtain e where
    "send_ptp_frame (pdelay_resp_frame (resp_for q (thisPort (port c)) (resp_t2 (sm c)))) (thisPort (port c)) (eth c) = Some e"
    "sends [(thisPort (port c), pdelay_resp_frame (resp_for q (thisPort (port c)) (resp_t2 (sm c))))] (eth c) e" "tx_wf e" .
  then show thesis
    using that assms(2) by (simp add: presp_sent_action_def Let_def setPdelayResp_def txPdelayResp_def resp_for_def)
qed

lemma presp_waiting_action_runs:
  assumes "tx_wf (eth c)" "rcvdPdelayReqPtr (sm c) = Live q" "txPdelayRespPtr (sm c) \<notin> {Null, Dangling}"
  obtains e where "presp_waiting_action c = Some (c\<lparr>sm := (sm c)\<lparr>rcvdMDTimestampReceiveMDPResp := False,
      rcvdPdelayReqPtr := Null, txPdelayRespPtr := Null, txPdelayRespFollowUpPtr := Null\<rparr>, eth := e\<rparr>)"
    "sends [(thisPort (port c), pdelay_resp_follow_up_frame (resp_follow_up_for q (thisPort (port c)) (resp_t3 (sm c))))] (eth c) e" "tx_wf e"
proof -
  let ?f = "pdelay_resp_follow_up_frame (resp_follow_up_for q (thisPort (port c)) (resp_t3 (sm c)))"
  from send_sends[OF assms(1) resp_lengths(2)] obtain e where
    "send_ptp_frame ?f (thisPort (port c)) (eth c) = Some e" "sends [(thisPort (port c), ?f)] (eth c) e" "tx_wf e" .
  moreover obtain m where "txPdelayRespPtr (sm c) = Live m" using assms(3) live_cases by auto
  ultimately show thesis
    by (intro that[of e]) (use assms(2) in
      \<open>simp_all add: presp_waiting_action_def Let_def setPdelayRespFollowUp_def txPdelayRespFollowUp_def resp_follow_up_for_def\<close>)
qed

lemma recv_req_run:
  assumes "presp_ready c"
  obtains d where "md_pdelay_resp_sm_recv_req t q c = Some d" "presp_waiting q d" "\<not> rcvdPdelayReq (sm d)" "port d = port c"
    "sends [(thisPort (port c), pdelay_resp_frame (resp_for q (thisPort (port c)) (ts_ts t)))] (eth c) (eth d)"
proof -
  have c: "presp_on c" "presp_last_state (sm c) = presp_state (sm c)" "\<not> rcvdMDTimestampReceiveMDPResp (sm c)"
    "presp_state (sm c) \<in> {PD_RESP_INITIAL_WAITING_FOR_PDELAY_REQ, PD_RESP_WAITING_FOR_PDELAY_REQ}"
    using assms by (simp_all add: presp_ready_def)
  define c0 where "c0 = c\<lparr>sm := (sm c)\<lparr>rcvdPdelayReq := True, rcvdPdelayReqPtr := Live q, resp_t2 := ts_ts t\<rparr>\<rparr>"
  define c1 where "c1 = c0\<lparr>sm := (sm c0)\<lparr>presp_last_state := presp_state (sm c), presp_state := PD_RESP_SENT_PDELAY_RESP_WAITING_FOR_TIMESTAMP\<rparr>\<rparr>"
  let ?c1 = "c1\<lparr>sm := (sm c1)\<lparr>presp_last_state := PD_RESP_SENT_PDELAY_RESP_WAITING_FOR_TIMESTAMP\<rparr>\<rparr>"
  have "tx_wf (eth ?c1)" "rcvdPdelayReqPtr (sm ?c1) = Live q" using c(1) by (simp_all add: presp_on_def c1_def c0_def)
  from presp_sent_action_runs[OF this] obtain e where e: "tx_wf e" "sends [(thisPort (port c), pdelay_resp_frame (resp_for q (thisPort (port c)) (ts_ts t)))] (eth c) e"
    "presp_sent_action ?c1 = Some (?c1\<lparr>sm := (sm ?c1)\<lparr>rcvdPdelayReq := False, txPdelayRespPtr := Live (resp_for q (thisPort (port c)) (ts_ts t))\<rparr>, eth := e\<rparr>)"
    by (auto simp: c1_def c0_def)
  define d where "d = ?c1\<lparr>sm := (sm ?c1)\<lparr>rcvdPdelayReq := False, txPdelayRespPtr := Live (resp_for q (thisPort (port c)) (ts_ts t))\<rparr>, eth := e\<rparr>"
  have t1: "presp_body c0 = Some (c1, True)"
    using c(2,4) by (auto simp: presp_body_def Let_def presp_goto_def c0_def c1_def presp_initial_transition_def presp_waiting_transition_def)
  have t2: "presp_body c1 = Some (d, False)"
    using c(2-4) e(3) by (auto simp: presp_body_def Let_def presp_goto_def c0_def c1_def d_def presp_sent_transition_def)
  have "presp_goto (presp_all_state_transition c0) c0 = c0"
    using c(1) by (simp add: presp_all_state_transition_def presp_on_def presp_goto_def c0_def)
  then have "md_pdelay_resp_sm_recv_req t q c = Some d"
    using sm_loop_turn[of presp_body, OF t1] sm_loop_stop[of presp_body, OF t2]
    by (simp add: md_pdelay_resp_sm_recv_req_def md_pdelay_resp_sm_run_def c0_def)
  moreover have "presp_waiting q d" "eth d = e" "port d = port c" "\<not> rcvdPdelayReq (sm d)"
    using c e(1) by (simp_all add: presp_waiting_def presp_on_def d_def c1_def c0_def)
  ultimately show thesis using that e(2) by blast
qed

text \<open>The turn at which the time stamp of an answer is known.\<close>

lemma follow_up_turn:
  fixes c t
  assumes "presp_waiting q c"
  defines "c0 \<equiv> c\<lparr>sm := (sm c)\<lparr>resp_t3 := t, rcvdMDTimestampReceiveMDPResp := True\<rparr>\<rparr>"
  obtains d where "md_pdelay_resp_sm_run c0 = (if rcvdPdelayReq (sm c) then sm_loop presp_body d else Some d)"
    "presp_last_state (sm d) = PD_RESP_WAITING_FOR_PDELAY_REQ" "presp_on d" "rcvdPdelayReqPtr (sm d) = Null"
    "presp_state (sm d) = (if rcvdPdelayReq (sm c) then PD_RESP_SENT_PDELAY_RESP_WAITING_FOR_TIMESTAMP else PD_RESP_WAITING_FOR_PDELAY_REQ)"
    "\<not> rcvdMDTimestampReceiveMDPResp (sm d)" "port d = port c"
    "sends [(thisPort (port c), pdelay_resp_follow_up_frame (resp_follow_up_for q (thisPort (port c)) t))] (eth c) (eth d)"
proof -
  have c: "presp_on c" "presp_last_state (sm c) = presp_state (sm c)" "rcvdPdelayReqPtr (sm c) = Live q" "txPdelayRespPtr (sm c) \<notin> {Null, Dangling}"
    "presp_state (sm c) = PD_RESP_SENT_PDELAY_RESP_WAITING_FOR_TIMESTAMP"
    using assms by (simp_all add: presp_waiting_def)
  define c1 where "c1 = c0\<lparr>sm := (sm c0)\<lparr>presp_state := PD_RESP_WAITING_FOR_PDELAY_REQ\<rparr>\<rparr>"
  let ?c1 = "c1\<lparr>sm := (sm c1)\<lparr>presp_last_state := PD_RESP_WAITING_FOR_PDELAY_REQ\<rparr>\<rparr>"
  have "tx_wf (eth ?c1)" "rcvdPdelayReqPtr (sm ?c1) = Live q" "txPdelayRespPtr (sm ?c1) \<notin> {Null, Dangling}"
    using c by (simp_all add: presp_on_def c1_def c0_def)
  from presp_waiting_action_runs[OF this] obtain e where e: "tx_wf e"
    "sends [(thisPort (port c), pdelay_resp_follow_up_frame (resp_follow_up_for q (thisPort (port c)) t))] (eth c) e"
    "presp_waiting_action ?c1 = Some (?c1\<lparr>sm := (sm ?c1)\<lparr>rcvdMDTimestampReceiveMDPResp := False, rcvdPdelayReqPtr := Null,
        txPdelayRespPtr := Null, txPdelayRespFollowUpPtr := Null\<rparr>, eth := e\<rparr>)"
    by (auto simp: c1_def c0_def)
  define d where "d = ?c1\<lparr>sm := (sm ?c1)\<lparr>rcvdMDTimestampReceiveMDPResp := False, rcvdPdelayReqPtr := Null,
        txPdelayRespPtr := Null, txPdelayRespFollowUpPtr := Null,
        presp_state := (if rcvdPdelayReq (sm c) then PD_RESP_SENT_PDELAY_RESP_WAITING_FOR_TIMESTAMP else PD_RESP_WAITING_FOR_PDELAY_REQ)\<rparr>, eth := e\<rparr>"
  have t1: "presp_body c0 = Some (c1, True)"
    using c by (simp add: presp_body_def Let_def presp_goto_def c0_def c1_def presp_sent_transition_def)
  have t2: "presp_body c1 = Some (d, rcvdPdelayReq (sm c))"
    using c e(3) by (simp add: presp_body_def Let_def presp_goto_def c0_def c1_def d_def presp_waiting_transition_def)
  have "presp_goto (presp_all_state_transition c0) c0 = c0"
    using c(1) by (simp add: presp_all_state_transition_def presp_on_def presp_goto_def c0_def)
  then have "md_pdelay_resp_sm_run c0 = sm_loop presp_body c1"
    using sm_loop_turn[of presp_body, OF t1] by (simp add: md_pdelay_resp_sm_run_def)
  also have "\<dots> = (if rcvdPdelayReq (sm c) then sm_loop presp_body d else Some d)"
    using t2 by (cases "rcvdPdelayReq (sm c)") (simp_all add: sm_loop_turn[of presp_body] sm_loop_stop[of presp_body])
  finally show thesis
    by (rule that) (use c e in \<open>simp_all add: presp_on_def d_def c1_def c0_def\<close>)
qed

text \<open>
  C22. A responder answers a request for the propagation delay with the two times the requester needs:
  a Pdelay_Resp frame with the time at which the request came in and, once the hardware has reported it, a
  Pdelay_Resp_Follow_Up frame with the time at which that answer left; both carry the sequence number
  of the request and the identity of the requesting port, and the machine is ready for the next request.
\<close>

theorem pdelay_request_answered:
  assumes "presp_ready c" "ts_sequenceID t3 = sequenceId (preq_head q)"
  shows "\<exists>d e r f. md_pdelay_resp_sm_recv_req t2 q c = Some d \<and> md_pdelay_resp_sm_txts t3 d = Some e \<and>
    sends [(thisPort (port c), pdelay_resp_frame r)] (eth c) (eth d) \<and> sends [(thisPort (port c), pdelay_resp_follow_up_frame f)] (eth d) (eth e) \<and>
    requestReceiptTimestamp r = ptpmsgtimestamp_uscaledns (ts_ts t2) \<and> responseOriginTimestamp f = ptpmsgtimestamp_uscaledns (ts_ts t3) \<and>
    sequenceId (presp_head r) = sequenceId (preq_head q) \<and> sequenceId (pfu_head f) = sequenceId (preq_head q) \<and>
    presp_requestingPortIdentity r = sourcePortIdentity (preq_head q) \<and> pfu_requestingPortIdentity f = sourcePortIdentity (preq_head q) \<and>
    presp_ready e"
proof -
  from recv_req_run[OF assms(1)] obtain d where d: "md_pdelay_resp_sm_recv_req t2 q c = Some d" "presp_waiting q d"
    "\<not> rcvdPdelayReq (sm d)" "port d = port c" "sends [(thisPort (port c), pdelay_resp_frame (resp_for q (thisPort (port c)) (ts_ts t2)))] (eth c) (eth d)"
    by metis
  let ?d = "d\<lparr>sm := (sm d)\<lparr>resp_t3 := ts_ts t3, rcvdMDTimestampReceiveMDPResp := True\<rparr>\<rparr>"
  obtain e where run: "md_pdelay_resp_sm_run ?d = (if rcvdPdelayReq (sm d) then sm_loop presp_body e else Some e)"
    "presp_last_state (sm e) = PD_RESP_WAITING_FOR_PDELAY_REQ" "presp_on e" "rcvdPdelayReqPtr (sm e) = Null"
    "presp_state (sm e) = (if rcvdPdelayReq (sm d) then PD_RESP_SENT_PDELAY_RESP_WAITING_FOR_TIMESTAMP else PD_RESP_WAITING_FOR_PDELAY_REQ)"
    "\<not> rcvdMDTimestampReceiveMDPResp (sm e)" "port e = port d"
    "sends [(thisPort (port d), pdelay_resp_follow_up_frame (resp_follow_up_for q (thisPort (port d)) (ts_ts t3)))] (eth d) (eth e)"
    by (rule follow_up_turn[OF d(2)])
  then have e: "md_pdelay_resp_sm_run ?d = Some e" "presp_ready e"
    "sends [(thisPort (port c), pdelay_resp_follow_up_frame (resp_follow_up_for q (thisPort (port d)) (ts_ts t3)))] (eth d) (eth e)"
    using d(3,4) by (simp_all add: presp_ready_def)
  have "md_pdelay_resp_sm_txts t3 d = Some e"
    using d(2) e(1) assms(2) by (simp add: md_pdelay_resp_sm_txts_def presp_waiting_def)
  then show ?thesis using d e
    by (intro exI[of _ d] exI[of _ e] exI[of _ "resp_for q (thisPort (port c)) (ts_ts t2)"] exI[of _ "resp_follow_up_for q (thisPort (port d)) (ts_ts t3)"])
      (simp add: resp_for_def resp_follow_up_for_def ptp_msg_header_template_def)
qed

text \<open>The responder of port 1 after its start.\<close>

definition started_presp :: RespCtx where
  "started_presp = \<lparr>sm = \<lparr>rcvdPdelayReq = False, rcvdMDTimestampReceiveMDPResp = False, txPdelayRespPtr = Null, txPdelayRespFollowUpPtr = Null,
       portEnabled1 = True, rcvdPdelayReqPtr = Null, resp_t2 = zero_ns, resp_t3 = zero_ns,
       presp_state = PD_RESP_INITIAL_WAITING_FOR_PDELAY_REQ, presp_last_state = PD_RESP_INITIAL_WAITING_FOR_PDELAY_REQ\<rparr>,
     port = example_port 246 1 0, inst = example_instance 246 1, eth = tx_idle, mdent = init_mdentity blank_mdent\<rparr>"

definition example_pdelay_req :: "16 word \<Rightarrow> PTPMsgPdelayReq" where
  "example_pdelay_req n = \<lparr>preq_head = ptp_msg_header_template PDELAY_REQ 54 \<lparr>clockIdentity = 2, portNumber = 3\<rparr> n 0 0\<rparr>"

definition example_stamp :: "64 word \<Rightarrow> 16 word \<Rightarrow> TSUTimestamp" where
  "example_stamp t n = \<lparr>ts_ts = \<lparr>subns = 0, nsec = t, nsec_msb = 0\<rparr>, ts_sequenceID = n, ts_msgType = 0\<rparr>"

lemma example_numbers: "sequenceId (preq_head (example_pdelay_req n)) = n" "ts_sequenceID (example_stamp t n) = n"
  by (simp_all add: example_pdelay_req_def example_stamp_def ptp_msg_header_template_def)

lemma started_presp_ready: "presp_ready started_presp"
  by (simp add: presp_ready_def presp_on_def started_presp_def example_defs Let_def tx_wf_def tx_idle_def)

lemma started_presp_port: "thisPort (port started_presp) = 1"
  by (simp add: started_presp_def example_defs Let_def)

theorem pdelay_request_answered_witness:
  "\<exists>d e r f. md_pdelay_resp_sm_recv_req (example_stamp 100 5) (example_pdelay_req 5) started_presp = Some d \<and>
    md_pdelay_resp_sm_txts (example_stamp 2000000350 5) d = Some e \<and> sends [(1, pdelay_resp_frame r)] (eth started_presp) (eth d) \<and>
    sends [(1, pdelay_resp_follow_up_frame f)] (eth d) (eth e) \<and>
    responseOriginTimestamp f = \<lparr>seconds_msb = 0, seconds_lsb = 2, nanoseconds = 350\<rparr>"
  using pdelay_request_answered[OF started_presp_ready, of "example_stamp 2000000350 5" "example_pdelay_req 5" "example_stamp 100 5"]
  by (auto simp: started_presp_port example_stamp_def example_pdelay_req_def ptp_msg_header_template_def ptpmsgtimestamp_uscaledns_def)

section \<open>A second request\<close>

lemma request_while_waiting:
  assumes "presp_waiting q c"
  shows "ok (md_pdelay_resp_sm_recv_req t q' c) (\<lambda>d. presp_waiting q' d \<and> rcvdPdelayReq (sm d) \<and> eth d = eth c)"
proof -
  define c0 where "c0 = c\<lparr>sm := (sm c)\<lparr>rcvdPdelayReq := True, rcvdPdelayReqPtr := Live q', resp_t2 := ts_ts t\<rparr>\<rparr>"
  have c0: "presp_waiting q' c0" "rcvdPdelayReq (sm c0)" "eth c0 = eth c" using assms
    by (simp_all add: c0_def presp_waiting_def presp_on_def)
  have "presp_body c0 = Some (c0, False)"
    using c0(1) by (simp add: presp_waiting_def presp_body_def Let_def presp_goto_def presp_sent_transition_def)
  moreover have "presp_goto (presp_all_state_transition c0) c0 = c0"
    using c0(1) by (simp add: presp_waiting_def presp_on_def presp_goto_def presp_all_state_transition_def)
  ultimately show ?thesis
    using c0 by (simp add: md_pdelay_resp_sm_recv_req_def md_pdelay_resp_sm_run_def sm_loop_stop[of presp_body] c0_def[symmetric])
qed

text \<open>
  A second request before the time stamp of the first answer breaks the responder. If it has the
  same sequence number, that time stamp makes the daemon read through a null pointer; if not, the time
  stamp is rejected, and no later request is answered by a single frame.
\<close>

theorem second_request_breaks_responder:
  assumes "presp_ready c" "ts_sequenceID t3 = sequenceId (preq_head q)"
  shows "\<exists>d. for_each (\<lambda>(t, q). md_pdelay_resp_sm_recv_req t q) [(t2, q), (t2', q')] c = Some d \<and>
    (if sequenceId (preq_head q') = sequenceId (preq_head q) then md_pdelay_resp_sm_txts t3 d = None
     else md_pdelay_resp_sm_txts t3 d = Some d \<and>
       (\<forall>rs. \<exists>e. for_each (\<lambda>(t, q). md_pdelay_resp_sm_recv_req t q) rs d = Some e \<and> eth e = eth d))"
proof -
  from recv_req_run[OF assms(1)] obtain b where b: "md_pdelay_resp_sm_recv_req t2 q c = Some b" "presp_waiting q b" by metis
  from request_while_waiting[OF b(2), of t2' q'] obtain d where
    d: "md_pdelay_resp_sm_recv_req t2' q' b = Some d" "presp_waiting q' d" "rcvdPdelayReq (sm d)"
    by (auto simp: ok_iff)
  have "for_each (\<lambda>(t, q). md_pdelay_resp_sm_recv_req t q) [(t2, q), (t2', q')] c = Some d" using b(1) d(1) by simp
  moreover have "md_pdelay_resp_sm_txts t3 d = None" if "sequenceId (preq_head q') = sequenceId (preq_head q)"
  proof -
    let ?d = "d\<lparr>sm := (sm d)\<lparr>resp_t3 := ts_ts t3, rcvdMDTimestampReceiveMDPResp := True\<rparr>\<rparr>"
    obtain e where run: "md_pdelay_resp_sm_run ?d = (if rcvdPdelayReq (sm d) then sm_loop presp_body e else Some e)"
      "presp_last_state (sm e) = PD_RESP_WAITING_FOR_PDELAY_REQ" "presp_on e" "rcvdPdelayReqPtr (sm e) = Null"
      "presp_state (sm e) = (if rcvdPdelayReq (sm d) then PD_RESP_SENT_PDELAY_RESP_WAITING_FOR_TIMESTAMP else PD_RESP_WAITING_FOR_PDELAY_REQ)"
      "\<not> rcvdMDTimestampReceiveMDPResp (sm e)" "port e = port d"
      "sends [(thisPort (port d), pdelay_resp_follow_up_frame (resp_follow_up_for q' (thisPort (port d)) (ts_ts t3)))] (eth d) (eth e)"
      by (rule follow_up_turn[OF d(2)])
    then have e: "md_pdelay_resp_sm_run ?d = sm_loop presp_body e"
        "presp_last_state (sm e) = PD_RESP_WAITING_FOR_PDELAY_REQ" "rcvdPdelayReqPtr (sm e) = Null"
        "presp_state (sm e) = PD_RESP_SENT_PDELAY_RESP_WAITING_FOR_TIMESTAMP"
      using d(3) by simp_all
    have "presp_body e = None"
      using e(2-4) by (simp add: presp_body_def Let_def presp_sent_action_def setPdelayResp_def)
    then have "sm_loop presp_body e = None" by (subst sm_loop.simps) simp
    then show ?thesis using e(1) d(2) that assms(2) by (simp add: md_pdelay_resp_sm_txts_def presp_waiting_def)
  qed
  moreover have "md_pdelay_resp_sm_txts t3 d = Some d" if "sequenceId (preq_head q') \<noteq> sequenceId (preq_head q)"
    using that d(2) assms(2) by (simp add: md_pdelay_resp_sm_txts_def presp_waiting_def)
  moreover have "\<exists>e. for_each (\<lambda>(t, q). md_pdelay_resp_sm_recv_req t q) rs d = Some e \<and> eth e = eth d" for rs
  proof -
    have "ok (for_each (\<lambda>(t, q). md_pdelay_resp_sm_recv_req t q) rs d) (\<lambda>e. (\<exists>q. presp_waiting q e) \<and> eth e = eth d)"
      by (rule ok_for_each) (use d(2) in \<open>auto intro: ok_weaken[OF request_while_waiting]\<close>)
    then show ?thesis by (auto simp: ok_iff)
  qed
  ultimately show ?thesis by auto
qed

theorem second_request_breaks_responder_witness:
  "\<exists>d. for_each (\<lambda>(t, q). md_pdelay_resp_sm_recv_req t q)
      [(example_stamp 100 5, example_pdelay_req 5), (example_stamp 120 6, example_pdelay_req 6)] started_presp = Some d \<and>
    md_pdelay_resp_sm_txts (example_stamp 110 5) d = Some d \<and>
    (\<exists>e. for_each (\<lambda>(t, q). md_pdelay_resp_sm_recv_req t q) [(example_stamp 200 7, example_pdelay_req 7)] d = Some e \<and> eth e = eth d)"
proof -
  have "ts_sequenceID (example_stamp 110 5) = sequenceId (preq_head (example_pdelay_req 5))" by (simp add: example_numbers)
  from second_request_breaks_responder[OF started_presp_ready this, of "example_stamp 100 5" "example_stamp 120 6" "example_pdelay_req 6"]
  show ?thesis by (auto simp: example_numbers simp del: for_each.simps)
qed

end
