(* ===== verification/Rtc.thy ===== *)
theory Rtc
  imports PtpArith
begin

text \<open>
  The clock of the board (\<open>tsn_drivers/rtc.c\<close>). Its registers are written in the order of the list
  \<open>rtc_writes\<close>; what the registers return when they are read is an argument.
\<close>

section \<open>Registers\<close>

abbreviation (input) RTC_CTRL :: nat where "RTC_CTRL \<equiv> 0x00"
abbreviation (input) RTC_PERIOD_H :: nat where "RTC_PERIOD_H \<equiv> 0x20"
abbreviation (input) RTC_PERIOD_L :: nat where "RTC_PERIOD_L \<equiv> 0x24"
abbreviation (input) RTC_OFFSET_S_H :: nat where "RTC_OFFSET_S_H \<equiv> 0x34"
abbreviation (input) RTC_OFFSET_S_L :: nat where "RTC_OFFSET_S_L \<equiv> 0x38"
abbreviation (input) RTC_OFFSET_NS :: nat where "RTC_OFFSET_NS \<equiv> 0x3C"
abbreviation (input) RTC_SET_CTRL_0 :: "32 word" where "RTC_SET_CTRL_0 \<equiv> 0"
abbreviation (input) RTC_GET_TIME :: "32 word" where "RTC_GET_TIME \<equiv> 0x01"
abbreviation (input) RTC_SET_PERIOD :: "32 word" where "RTC_SET_PERIOD \<equiv> 0x04"
abbreviation (input) RTC_SET_OFFSET :: "32 word" where "RTC_SET_OFFSET \<equiv> 0x20"
abbreviation (input) RTC_ACCMOD_H :: "64 word" where "RTC_ACCMOD_H \<equiv> 0x3B9ACA00"

type_synonym rtc_log = "(nat \<times> 32 word) list"

record LocalClockTimestamp =
  second_h :: "32 word"
  second_l :: "32 word"
  nanosecond :: "32 word"
  frac_nano :: "32 word"

datatype RTC_OFFSET_SIGN = RTC_OFFSET_ADD | RTC_OFFSET_SUB

section \<open>Reading the time\<close>

text \<open>The two writes that latch the time; the loop that waits for the latch is the hardware's.\<close>

definition rtc_latch :: "rtc_log \<Rightarrow> rtc_log" where
  "rtc_latch w = w @ [(RTC_CTRL, RTC_SET_CTRL_0), (RTC_CTRL, RTC_GET_TIME)]"

text \<open>The upper half of the seconds is left out.\<close>

definition get_current_timestamp :: "LocalClockTimestamp \<Rightarrow> UScaledNs" where
  "get_current_timestamp t = \<lparr>subns = ucast (push_bit 8 (frac_nano t) AND 0xFF00),
     nsec = ucast (second_l t) * 1000000000 + ucast (nanosecond t), nsec_msb = 0\<rparr>"

text \<open>The local and the synchronized time, of which only the first has a fraction.\<close>

definition get_current_local_sync_ts :: "LocalClockTimestamp \<Rightarrow> LocalClockTimestamp \<Rightarrow> UScaledNs \<times> UScaledNs" where
  "get_current_local_sync_ts t sync_t =
     (let sync_t = sync_t\<lparr>frac_nano := 0\<rparr> in
      (\<lparr>subns = ucast (push_bit 8 (frac_nano t) AND 0xFF00), nsec = ucast (second_l t) * 1000000000 + ucast (nanosecond t), nsec_msb = 0\<rparr>,
       \<lparr>subns = ucast (push_bit 8 (frac_nano sync_t) AND 0xFF00), nsec = ucast (second_l sync_t) * 1000000000 + ucast (nanosecond sync_t),
         nsec_msb = 0\<rparr>))"

section \<open>Setting the clock\<close>

definition set_rtc_sync_offset :: "RTC_OFFSET_SIGN \<Rightarrow> UScaledNs \<Rightarrow> rtc_log \<Rightarrow> rtc_log" where
  "set_rtc_sync_offset sign offset w =
     (let sec_l = ucast (nsec offset div RTC_ACCMOD_H) :: 32 word; ns = ucast (nsec offset mod RTC_ACCMOD_H) :: 32 word;
          sec_h = (if sign = RTC_OFFSET_ADD then 0 else 0x8000)
      in w @ [(RTC_OFFSET_S_H, sec_h), (RTC_OFFSET_S_L, sec_l), (RTC_OFFSET_NS, ns),
              (RTC_CTRL, RTC_SET_CTRL_0), (RTC_CTRL, RTC_SET_OFFSET)])"

definition rtc_set_period :: "32 word \<Rightarrow> 32 word \<Rightarrow> rtc_log \<Rightarrow> rtc_log" where
  "rtc_set_period period_h period_l w =
     w @ [(RTC_PERIOD_H, period_h), (RTC_PERIOD_L, period_l), (RTC_CTRL, RTC_SET_CTRL_0), (RTC_CTRL, RTC_SET_PERIOD)]"

section \<open>Arithmetic of time stamps\<close>

definition rtc_check_overflow :: "32 word \<Rightarrow> 32 word \<Rightarrow> 32 word \<Rightarrow> 32 word" where
  "rtc_check_overflow a b carry =
     (let s = a + b + carry in if carry = 0 then (if s < a then 1 else 0) else (if s > a then 0 else 1))"

definition rtc_add :: "LocalClockTimestamp \<Rightarrow> LocalClockTimestamp \<Rightarrow> LocalClockTimestamp" where
  "rtc_add t1 t2 =
     (let temp = frac_nano t1 + frac_nano t2;
          (f, c) = (if temp \<ge> 0x100 then (temp AND 0xFF, 1) else (temp, 0));
          temp = nanosecond t1 + nanosecond t2 + c;
          (n, c) = (if temp \<ge> 1000000000 then (temp - 1000000000, 1) else (temp, 0));
          l = second_l t1 + second_l t2 + c;
          c = rtc_check_overflow (second_l t1) (second_l t2) c;
          temp = second_h t1 + second_h t2 + c
      in \<lparr>second_h = temp AND 0xFFFF, second_l = l, nanosecond = n, frac_nano = f\<rparr>)"

definition rtc_comp :: "LocalClockTimestamp \<Rightarrow> LocalClockTimestamp \<Rightarrow> int" where
  "rtc_comp t1 t2 =
     (if second_h t1 > second_h t2 then 1 else if second_h t1 < second_h t2 then -1
      else if second_l t1 > second_l t2 then 1 else if second_l t1 < second_l t2 then -1
      else if nanosecond t1 > nanosecond t2 then 1 else if nanosecond t1 < nanosecond t2 then -1
      else if frac_nano t1 > frac_nano t2 then 1 else if frac_nano t1 < frac_nano t2 then -1 else 0)"

text \<open>The product of the lower seconds is one of 32 bits.\<close>

definition rtc_to_uint64_ns :: "LocalClockTimestamp \<Rightarrow> 64 word" where
  "rtc_to_uint64_ns t =
     (let ts64 = push_bit 32 (ucast (second_h t)) * 1000000000; ts64 = ts64 + ucast (second_l t * 1000000000 :: 32 word)
      in ts64 + ucast (nanosecond t))"

end
