(* ===== verification/PortSyncSend.thy ===== *)
theory PortSyncSend
  imports MdSyncSend
begin

text \<open>
  The PortSyncSyncSend state machine (\<open>time_sync/port_sync_sync_send_sm.c\<close>): a master port hands the
  time it is given to its MDSyncSend machine, which sends it.
\<close>

section \<open>State\<close>

text \<open>What the machines of a node tell each other about the time (\<open>tsn_drivers/ptp_types.h\<close>).\<close>

record PortSyncSync =
  pss_domainNumber :: byte
  pss_localPortNumber :: "16 word"
  pss_syncReceiptTimeoutTime :: UScaledNs
  pss_followUpCorrectionField :: UScaledNs
  pss_sourcePortIdentity :: PortIdentity
  pss_logMessageInterval :: byte
  pss_preciseOriginTimestamp :: PTPMsgTimestamp
  pss_upstreamTxTime :: UScaledNs
  pss_rateRatio :: double
  pss_gmTimeBaseIndicator :: "16 word"
  pss_lastGmPhaseChange :: UScaledNs
  pss_lastGmFreqChange :: double

datatype PortSyncSyncSendSMState = PSSS_REACTION | PSSS_BEFORE_INIT | PSSS_INIT | PSSS_TRANSMIT_INIT | PSSS_SYNC_RECEIPT_TIMEOUT
  | PSSS_SEND_MD_SYNC

record PortSyncSyncSendSM =
  rcvdPSSyncPSSS :: bool
  rcvdPSSyncPtrPSSS :: "PortSyncSync cptr"
  lastPreciseOriginTimestamp :: PTPMsgTimestamp
  lastFollowUpCorrectionField :: UScaledNs
  lastRateRatio :: double
  lastUpstreamTxTime :: UScaledNs
  lastSyncSentTime :: UScaledNs
  lastRcvdPortNum :: "16 word"
  lastGmTimeBaseIndicator :: "16 word"
  lastGmPhaseChangePSSS :: UScaledNs
  lastGmFreqChangePSSS :: double
  txMDSyncPtr :: "MDSyncSend cptr"
  numberSyncTransmissions :: byte
  interval1 :: UScaledNs
  psss_state :: PortSyncSyncSendSMState
  psss_last_state :: PortSyncSyncSendSMState

text \<open>The context: besides the globals, the MDSyncSend machine of the port.\<close>

record PsssCtx = "PortSyncSyncSendSM MdCtx" +
  mdss :: MDSyncSendSM

section \<open>Actions\<close>

definition setMDSync :: "PsssCtx \<Rightarrow> MDSyncSend" where
  "setMDSync c = \<lparr>ss_domainNumber = 0, ss_followUpCorrectionField = lastFollowUpCorrectionField (sm c),
     ss_sourcePortIdentity = \<lparr>clockIdentity = thisClock (inst c), portNumber = thisPort (port c)\<rparr>,
     ss_logMessageInterval = currentLogSyncInterval (port c), ss_preciseOriginTimestamp = lastPreciseOriginTimestamp (sm c),
     ss_upstreamTxTime = lastUpstreamTxTime (sm c), ss_rateRatio = lastRateRatio (sm c),
     ss_gmTimeBaseIndicator = lastGmTimeBaseIndicator (sm c), ss_lastGmPhaseChange = lastGmPhaseChangePSSS (sm c),
     ss_lastGmFreqChange = lastGmFreqChangePSSS (sm c)\<rparr>"

text \<open>The machine that is called runs on the globals of the same port; \<open>r\<close> is its random number.\<close>

definition mdss_ctx :: "PsssCtx \<Rightarrow> MdssCtx" where
  "mdss_ctx c = \<lparr>sm = mdss c, port = port c, inst = inst c, eth = eth c, mdent = mdent c\<rparr>"

definition txMDSync :: "16 word \<Rightarrow> PsssCtx \<Rightarrow> PsssCtx option" where
  "txMDSync r c = do {
     m \<leftarrow> deref (txMDSyncPtr (sm c));
     d \<leftarrow> md_sync_send_sm_recv_md_sync r m (mdss_ctx c);
     Some (c\<lparr>port := port d, inst := inst d, eth := eth d, mdent := mdent d, mdss := sm d\<rparr>)
   }"

definition psss_all_state_transition :: "PsssCtx \<Rightarrow> PortSyncSyncSendSMState" where
  "psss_all_state_transition c =
     (let third_item = rcvdPSSyncPSSS (sm c) \<and> \<not> port_valid (port c) in
      if BEGIN (inst c) \<or> \<not> instanceEnable (inst c) \<or> third_item then PSSS_TRANSMIT_INIT else psss_state (sm c))"

definition psss_transmit_init_action :: "PsssCtx \<Rightarrow> PsssCtx" where
  "psss_transmit_init_action c = c\<lparr>sm := (sm c)\<lparr>rcvdPSSyncPSSS := False, numberSyncTransmissions := 0\<rparr>,
     port := (port c)\<lparr>syncSlowDown := False\<rparr>\<rparr>"

text \<open>
  The test of a port that is not sending, the same in two states: something has come in, not from
  this very port, and the port is a master. The conditions are evaluated from left to right, and
  \<open>selectedState\<close> is read only if the ones before hold.
\<close>

definition psss_start_sending :: "PsssCtx \<Rightarrow> bool option" where
  "psss_start_sending c = do {
     part1 \<leftarrow> (if rcvdPSSyncPSSS (sm c) then do {
         p \<leftarrow> deref (rcvdPSSyncPtrPSSS (sm c));
         Some (pss_localPortNumber p \<noteq> thisPort (port c)) } else Some False);
     if part1 \<and> port_valid (port c) then map_option (\<lambda>st. st = MASTER_PORT) (rd (selectedState (inst c)) (tidx c)) else Some False
   }"

definition psss_transmit_init_transition :: "PsssCtx \<Rightarrow> PortSyncSyncSendSMState option" where
  "psss_transmit_init_transition c =
     map_option (\<lambda>b. if b then PSSS_SEND_MD_SYNC else PSSS_TRANSMIT_INIT) (psss_start_sending c)"

definition psss_timeout_action :: "PsssCtx \<Rightarrow> PsssCtx" where
  "psss_timeout_action c = c\<lparr>sm := (sm c)\<lparr>rcvdPSSyncPSSS := False\<rparr>\<rparr>"

definition psss_timeout_transition :: "PsssCtx \<Rightarrow> PortSyncSyncSendSMState option" where
  "psss_timeout_transition c =
     map_option (\<lambda>b. if b then PSSS_SEND_MD_SYNC else PSSS_SYNC_RECEIPT_TIMEOUT) (psss_start_sending c)"

text \<open>What is taken over from the message, and the time at which it goes stale.\<close>

definition psss_take_over :: "PortSyncSync \<Rightarrow> PsssCtx \<Rightarrow> PsssCtx" where
  "psss_take_over p c = c\<lparr>sm := (sm c)\<lparr>lastRcvdPortNum := pss_localPortNumber p,
       lastPreciseOriginTimestamp := pss_preciseOriginTimestamp p, lastFollowUpCorrectionField := pss_followUpCorrectionField p,
       lastRateRatio := pss_rateRatio p, lastUpstreamTxTime := pss_upstreamTxTime p,
       lastGmTimeBaseIndicator := pss_gmTimeBaseIndicator p, lastGmPhaseChangePSSS := pss_lastGmPhaseChange p,
       lastGmFreqChangePSSS := pss_lastGmFreqChange p\<rparr>,
     inst := (inst c)\<lparr>syncReceiptTimeoutTime := pss_syncReceiptTimeoutTime p\<rparr>,
     port := (port c)\<lparr>syncLocked := True\<rparr>\<rparr>"

text \<open>The interval after a slow-down: \<open>numberSyncTransmissions\<close> is an octet, \<open>syncReceiptTimeout\<close> has two.\<close>

definition psss_interval :: "PsssCtx \<Rightarrow> PsssCtx" where
  "psss_interval c =
     (if syncSlowDown (port c) then
        if unat (numberSyncTransmissions (sm c)) \<ge> unat (syncReceiptTimeout (port c)) then
          c\<lparr>sm := (sm c)\<lparr>interval1 := syncInterval (port c), numberSyncTransmissions := 0\<rparr>, port := (port c)\<lparr>syncSlowDown := False\<rparr>\<rparr>
        else c\<lparr>sm := (sm c)\<lparr>interval1 := oldSyncInterval (port c), numberSyncTransmissions := numberSyncTransmissions (sm c) + 1\<rparr>\<rparr>
      else c\<lparr>sm := (sm c)\<lparr>numberSyncTransmissions := 0, interval1 := syncInterval (port c)\<rparr>\<rparr>)"

definition psss_send_action :: "16 word \<Rightarrow> UScaledNs \<Rightarrow> PsssCtx \<Rightarrow> PsssCtx option" where
  "psss_send_action r ts c = do {
     c \<leftarrow> (if rcvdPSSyncPSSS (sm c) then do {
         p \<leftarrow> deref (rcvdPSSyncPtrPSSS (sm c));
         Some (psss_take_over p c) } else Some c);
     let c = c\<lparr>sm := (sm c)\<lparr>rcvdPSSyncPSSS := False, lastSyncSentTime := ts\<rparr>\<rparr>;
     _ \<leftarrow> cfree (txMDSyncPtr (sm c));
     c \<leftarrow> txMDSync r (c\<lparr>sm := (sm c)\<lparr>txMDSyncPtr := Live (setMDSync c)\<rparr>\<rparr>);
     Some (psss_interval c)
   }"

text \<open>The second \<open>if\<close> tests the comparison itself, which is true for an earlier time too. The flag says that the state is left and entered again.\<close>

definition psss_send_transition :: "UScaledNs \<Rightarrow> PsssCtx \<Rightarrow> (PortSyncSyncSendSMState \<times> bool) option" where
  "psss_send_transition ts c = do {
     pre_conditions \<leftarrow> (if port_valid (port c) then map_option (\<lambda>st. st = MASTER_PORT) (rd (selectedState (inst c)) (tidx c)) else Some False);
     send_condition1 \<leftarrow> (if rcvdPSSyncPSSS (sm c) \<and> syncLocked (port c) then do {
         p \<leftarrow> deref (rcvdPSSyncPtrPSSS (sm c));
         Some (pss_localPortNumber p \<noteq> thisPort (port c)) } else Some False);
     let elapsedTime = uscaledns_subtract ts (lastSyncSentTime (sm c));
     let send_condition2 = (\<not> syncLocked (port c) \<and> uscaledns_compare elapsedTime (interval1 (sm c)) \<ge> 0 \<and>
       lastRcvdPortNum (sm c) \<noteq> thisPort (port c));
     Some (if (send_condition1 \<or> send_condition2) \<and> pre_conditions then (PSSS_SEND_MD_SYNC, True)
       else if uscaledns_compare ts (syncReceiptTimeoutTime (inst c)) \<noteq> 0 \<and> \<not> syncLocked (port c) then (PSSS_SYNC_RECEIPT_TIMEOUT, False)
       else (PSSS_SEND_MD_SYNC, False))
   }"

section \<open>The machine\<close>

definition psss_goto :: "PortSyncSyncSendSMState \<Rightarrow> PsssCtx \<Rightarrow> PsssCtx" where
  "psss_goto st c = c\<lparr>sm := (sm c)\<lparr>psss_state := st\<rparr>\<rparr>"

definition psss_body :: "16 word \<Rightarrow> UScaledNs \<Rightarrow> PsssCtx \<Rightarrow> (PsssCtx \<times> bool) option" where
  "psss_body r ts c0 = do {
     let state_change = psss_last_state (sm c0) \<noteq> psss_state (sm c0);
     let c = c0\<lparr>sm := (sm c0)\<lparr>psss_last_state := psss_state (sm c0)\<rparr>\<rparr>;
     c \<leftarrow> (case psss_state (sm c) of
         PSSS_INIT \<Rightarrow> Some (psss_goto PSSS_TRANSMIT_INIT c)
       | PSSS_TRANSMIT_INIT \<Rightarrow> do {
           let c = (if state_change then psss_transmit_init_action c else c);
           st \<leftarrow> psss_transmit_init_transition c;
           Some (psss_goto st c) }
       | PSSS_SYNC_RECEIPT_TIMEOUT \<Rightarrow> do {
           let c = (if state_change then psss_timeout_action c else c);
           st \<leftarrow> psss_timeout_transition c;
           Some (psss_goto st c) }
       | PSSS_SEND_MD_SYNC \<Rightarrow> do {
           c \<leftarrow> (if state_change then psss_send_action r ts c else Some c);
           (st, again) \<leftarrow> psss_send_transition ts c;
           let c = (if again then c\<lparr>sm := (sm c)\<lparr>psss_last_state := PSSS_REACTION\<rparr>\<rparr> else c);
           Some (psss_goto st c) }
       | PSSS_REACTION \<Rightarrow> Some c
       | PSSS_BEFORE_INIT \<Rightarrow> Some c);
     Some (c, psss_last_state (sm c) \<noteq> psss_state (sm c))
   }"

definition port_sync_sync_send_sm_run :: "16 word \<Rightarrow> UScaledNs \<Rightarrow> PsssCtx \<Rightarrow> PsssCtx option" where
  "port_sync_sync_send_sm_run r ts c = sm_loop (psss_body r ts) (psss_goto (psss_all_state_transition c) c)"

definition port_sync_sync_send_sm_recv_pss :: "16 word \<Rightarrow> UScaledNs \<Rightarrow> PortSyncSync \<Rightarrow> PsssCtx \<Rightarrow> PsssCtx option" where
  "port_sync_sync_send_sm_recv_pss r ts p c = do {
     _ \<leftarrow> cfree (rcvdPSSyncPtrPSSS (sm c));
     port_sync_sync_send_sm_run r ts (c\<lparr>sm := (sm c)\<lparr>rcvdPSSyncPSSS := True, rcvdPSSyncPtrPSSS := Live p\<rparr>\<rparr>)
   }"

definition init_port_sync_sync_send_sm :: "16 word \<Rightarrow> PsssCtx \<Rightarrow> PsssCtx option" where
  "init_port_sync_sync_send_sm r c =
     port_sync_sync_send_sm_run r \<lparr>subns = 0, nsec = 0, nsec_msb = 0\<rparr>
       (c\<lparr>sm := (sm c)\<lparr>psss_last_state := PSSS_BEFORE_INIT, psss_state := PSSS_INIT, rcvdPSSyncPtrPSSS := Null, txMDSyncPtr := Null\<rparr>\<rparr>)"

end
