(* ===== verification/ClockSlaveSync.thy ===== *)
theory ClockSlaveSync
  imports MdSyncSend Rtc PortSyncSend
begin

text \<open>
  The ClockSlaveSync state machine (\<open>time_sync/clock_slave_sync_sm.c\<close>): it sets the clock of the node to
  the time of the grandmaster, and its rate to that of the grandmaster.
\<close>

section \<open>State\<close>

datatype ClockSlaveSyncSMState = CSS_REACTION | CSS_BEFORE_INIT | CSS_INIT | CSS_INITIALIZING | CSS_SEND_SYNC_INDICATION

text \<open>The last member is the variable \<open>period\<close> of the file.\<close>

record ClockSlaveSyncSM =
  rcvdPSSyncCSS :: bool
  rcvdLocalClockTickCSS :: bool
  rcvdPSSyncPtrCSS :: "PortSyncSync cptr"
  css_state :: ClockSlaveSyncSMState
  css_last_state :: ClockSlaveSyncSMState
  lSyncReceiptTime :: "UScaledNs list"
  lSyncReceiptLocalTime :: "UScaledNs list"
  listHeadPeriod :: nat
  listTailPeriod :: nat
  isEmptyPeriod :: bool
  clk_period :: double

text \<open>What the clock machines share: the globals of the node and of its ports, and the clock.\<close>

record ClockCtx =
  ginst :: PerPTPInstanceGlobal
  gports :: "PerPortGlobal list"
  rtc :: rtc_log
  css :: ClockSlaveSyncSM

section \<open>The rate of the clock\<close>

text \<open>The integer part of the period and 32 bits of its fraction, rounded; a period outside the range of \<open>uint32_t\<close> is undefined.\<close>

definition period_registers :: "double \<Rightarrow> (32 word \<times> 32 word) option" where
  "period_registers p =
     (if \<lfloor>p\<rfloor> < 0 \<or> \<lfloor>p\<rfloor> \<ge> 2 ^ 32 then None
      else let period_h = word_of_int \<lfloor>p\<rfloor>; (period_l, t) = frac_bits 32 0 (p - of_int \<lfloor>p\<rfloor>)
        in Some (if t * 2 > 1 then if period_l = 0xFFFFFFFF then (period_h + 1, 0) else (period_h, period_l + 1)
                 else (period_h, period_l)))"

definition updateSlavePeriod :: "'a ClockCtx_scheme \<Rightarrow> 'a ClockCtx_scheme option" where
  "updateSlavePeriod c =
     (let s = css c in
      if isEmptyPeriod s \<or> listHeadPeriod s = listTailPeriod s then Some c
      else do {
        t1 \<leftarrow> rd (lSyncReceiptTime s) (listTailPeriod s);
        t0 \<leftarrow> rd (lSyncReceiptTime s) (listHeadPeriod s);
        l1 \<leftarrow> rd (lSyncReceiptLocalTime s) (listTailPeriod s);
        l0 \<leftarrow> rd (lSyncReceiptLocalTime s) (listHeadPeriod s);
        r \<leftarrow> uscaledns_div (uscaledns_subtract t1 t0) (uscaledns_subtract l1 l0);
        if \<bar>fl (r - 1)\<bar> < fl (1 / 10 ^ 9) then Some c
        else if \<bar>fl (r - 1)\<bar> > fl (1 / 10 ^ 3) then Some (c\<lparr>css := s\<lparr>listHeadPeriod := listTailPeriod s\<rparr>\<rparr>)
        else do {
          let p = fl (clk_period s * r);
          (period_h, period_l) \<leftarrow> period_registers p;
          Some (c\<lparr>rtc := rtc_set_period period_h period_l (rtc c),
            css := s\<lparr>clk_period := p, listHeadPeriod := listTailPeriod s\<rparr>\<rparr>)
        }
      })"

section \<open>The time of the clock\<close>

text \<open>The time is read back at the end, for the log only.\<close>

definition updateSlaveTime :: "'a ClockCtx_scheme \<Rightarrow> 'a ClockCtx_scheme" where
  "updateSlaveTime c =
     (let t = syncReceiptTime (ginst c); l = syncReceiptLocalTime (ginst c) in
      c\<lparr>rtc := rtc_latch
        (if uscaledns_compare t l \<ge> 0 then set_rtc_sync_offset RTC_OFFSET_ADD (uscaledns_subtract t l) (rtc c)
         else set_rtc_sync_offset RTC_OFFSET_SUB (uscaledns_subtract l t) (rtc c))\<rparr>)"

section \<open>Actions and transitions\<close>

definition css_all_state_transition :: "'a ClockCtx_scheme \<Rightarrow> ClockSlaveSyncSMState" where
  "css_all_state_transition c =
     (if BEGIN (ginst c) \<or> \<not> instanceEnable (ginst c) then CSS_INITIALIZING else css_state (css c))"

definition css_initializing_action :: "'a ClockCtx_scheme \<Rightarrow> 'a ClockCtx_scheme" where
  "css_initializing_action c = c\<lparr>css := (css c)\<lparr>rcvdPSSyncCSS := False, rcvdLocalClockTickCSS := False\<rparr>\<rparr>"

definition css_initializing_transition :: "'a ClockCtx_scheme \<Rightarrow> ClockSlaveSyncSMState" where
  "css_initializing_transition c =
     (if rcvdPSSyncCSS (css c) \<or> rcvdLocalClockTickCSS (css c) then CSS_SEND_SYNC_INDICATION else CSS_INITIALIZING)"

text \<open>The two lists are one circular queue of 64 entries.\<close>

definition add_new_syncReceiptTime_syncReceiptLocalTime :: "'a ClockCtx_scheme \<Rightarrow> 'a ClockCtx_scheme option" where
  "add_new_syncReceiptTime_syncReceiptLocalTime c = do {
     let s = css c;
     let i = (listTailPeriod s + 1) mod MAXLENGTH;
     ts \<leftarrow> wr (lSyncReceiptTime s) i (syncReceiptTime (ginst c));
     ls \<leftarrow> wr (lSyncReceiptLocalTime s) i (syncReceiptLocalTime (ginst c));
     let h = (if \<not> isEmptyPeriod s \<and> listHeadPeriod s = i then (listHeadPeriod s + 1) mod MAXLENGTH else listHeadPeriod s);
     Some (c\<lparr>css := s\<lparr>lSyncReceiptTime := ts, lSyncReceiptLocalTime := ls, isEmptyPeriod := False, listHeadPeriod := h,
       listTailPeriod := i\<rparr>\<rparr>)
   }"

definition css_receive :: "PortSyncSync \<Rightarrow> 'a ClockCtx_scheme \<Rightarrow> 'a ClockCtx_scheme option" where
  "css_receive p c = do {
     let pot_fup = uscaledns_add (uscaledns_ptpmsgtimestamp (pss_preciseOriginTimestamp p)) (pss_followUpCorrectionField p);
     mean_link_delay \<leftarrow> (if pss_localPortNumber p = 0 then Some \<lparr>subns = 0, nsec = 0, nsec_msb = 0\<rparr>
       else map_option meanLinkDelay (rd (gports c) (unat (pss_localPortNumber p) - 1)));
     let c = c\<lparr>ginst := (ginst c)\<lparr>syncReceiptTime := uscaledns_add pot_fup mean_link_delay,
       syncReceiptLocalTime := uscaledns_add (pss_upstreamTxTime p) mean_link_delay\<rparr>\<rparr>;
     c \<leftarrow> add_new_syncReceiptTime_syncReceiptLocalTime c;
     let c = c\<lparr>ginst := (ginst c)\<lparr>gmTimeBaseIndicator := pss_gmTimeBaseIndicator p, lastGmPhaseChange := pss_lastGmPhaseChange p,
       lastGmFreqChange := pss_lastGmFreqChange p\<rparr>\<rparr>;
     updateSlavePeriod (updateSlaveTime c)
   }"

definition css_send_action :: "'a ClockCtx_scheme \<Rightarrow> 'a ClockCtx_scheme option" where
  "css_send_action c = do {
     c \<leftarrow> (if rcvdPSSyncCSS (css c) then do { p \<leftarrow> deref (rcvdPSSyncPtrCSS (css c)); css_receive p c } else Some c);
     Some (c\<lparr>css := (css c)\<lparr>rcvdPSSyncCSS := False, rcvdLocalClockTickCSS := False\<rparr>\<rparr>)
   }"

text \<open>The flag says that the state is left and entered again.\<close>

definition css_send_again :: "'a ClockCtx_scheme \<Rightarrow> bool" where
  "css_send_again c \<longleftrightarrow> rcvdPSSyncCSS (css c) \<or> rcvdLocalClockTickCSS (css c)"

section \<open>The machine\<close>

definition css_goto :: "ClockSlaveSyncSMState \<Rightarrow> 'a ClockCtx_scheme \<Rightarrow> 'a ClockCtx_scheme" where
  "css_goto st c = c\<lparr>css := (css c)\<lparr>css_state := st\<rparr>\<rparr>"

definition css_body :: "'a ClockCtx_scheme \<Rightarrow> ('a ClockCtx_scheme \<times> bool) option" where
  "css_body c0 = do {
     let state_change = css_last_state (css c0) \<noteq> css_state (css c0);
     let c = c0\<lparr>css := (css c0)\<lparr>css_last_state := css_state (css c0)\<rparr>\<rparr>;
     c \<leftarrow> (case css_state (css c) of
         CSS_INIT \<Rightarrow> Some (css_goto CSS_INITIALIZING c)
       | CSS_INITIALIZING \<Rightarrow> do {
           let c = (if state_change then css_initializing_action c else c);
           Some (css_goto (css_initializing_transition c) c) }
       | CSS_SEND_SYNC_INDICATION \<Rightarrow> do {
           c \<leftarrow> (if state_change then css_send_action c else Some c);
           let c = (if css_send_again c then c\<lparr>css := (css c)\<lparr>css_last_state := CSS_REACTION\<rparr>\<rparr> else c);
           Some (css_goto CSS_SEND_SYNC_INDICATION c) }
       | CSS_REACTION \<Rightarrow> Some c
       | CSS_BEFORE_INIT \<Rightarrow> Some c);
     Some (c, css_last_state (css c) \<noteq> css_state (css c))
   }"

definition clock_slave_sync_sm_run :: "'a ClockCtx_scheme \<Rightarrow> 'a ClockCtx_scheme option" where
  "clock_slave_sync_sm_run c = sm_loop css_body (css_goto (css_all_state_transition c) c)"

definition clock_slave_sync_sm_recv_pss :: "PortSyncSync \<Rightarrow> 'a ClockCtx_scheme \<Rightarrow> 'a ClockCtx_scheme option" where
  "clock_slave_sync_sm_recv_pss p c = do {
     _ \<leftarrow> cfree (rcvdPSSyncPtrCSS (css c));
     clock_slave_sync_sm_run (c\<lparr>css := (css c)\<lparr>rcvdPSSyncCSS := True, rcvdPSSyncPtrCSS := Live p\<rparr>\<rparr>)
   }"

text \<open>The queue starts empty: its entries and the period are what the memory and the file hold.\<close>

definition init_clock_slave_sync_sm :: "'a ClockCtx_scheme \<Rightarrow> 'a ClockCtx_scheme option" where
  "init_clock_slave_sync_sm c =
     clock_slave_sync_sm_run (c\<lparr>css := (css c)\<lparr>css_state := CSS_INIT, css_last_state := CSS_BEFORE_INIT, rcvdPSSyncPtrCSS := Null,
       isEmptyPeriod := True, listHeadPeriod := 0, listTailPeriod := MAXLENGTH - 1\<rparr>\<rparr>)"

end
