(* ===== verification/SiteSync.thy ===== *)
theory SiteSync
  imports ClockSlaveSync
begin

text \<open>
  The SiteSyncSync state machine (\<open>time_sync/site_sync_sync_sm.c\<close>): the time that comes in on the slave
  port goes to the clock of the node and to the PortSyncSyncSend machine of every port.
\<close>

section \<open>State\<close>

text \<open>The machines below: those of the four ports and the transmitter.\<close>

record Site = ClockCtx +
  mdents :: "MDEntityGlobal list"
  site_eth :: EthTx
  psss_sms :: "PortSyncSyncSendSM list"
  mdss_sms :: "MDSyncSendSM list"

datatype SiteSyncSyncSMState = SSS_INIT | SSS_INITIALIZING | SSS_RECEIVING_SYNC | SSS_BEFORE_INIT | SSS_REACTION

record SiteSyncSyncSM =
  rcvdPSSyncSSS :: bool
  rcvdPSSyncPtrSSS :: "PortSyncSync cptr"
  txPSSyncPtrSSS :: "PortSyncSync cptr"
  sss_state :: SiteSyncSyncSMState
  sss_last_state :: SiteSyncSyncSMState

record SssSite = Site +
  sss :: SiteSyncSyncSM

section \<open>A machine of one port\<close>

text \<open>The context of the PortSyncSyncSend machine of port \<open>i\<close>, and the site after it has run.\<close>

definition psss_ctx :: "nat \<Rightarrow> 'a Site_scheme \<Rightarrow> PsssCtx option" where
  "psss_ctx i s = do {
     m \<leftarrow> rd (psss_sms s) i;
     p \<leftarrow> rd (gports s) i;
     d \<leftarrow> rd (mdents s) i;
     t \<leftarrow> rd (mdss_sms s) i;
     Some \<lparr>sm = m, port = p, inst = ginst s, eth = site_eth s, mdent = d, mdss = t\<rparr>
   }"

definition psss_put :: "nat \<Rightarrow> PsssCtx \<Rightarrow> 'a Site_scheme \<Rightarrow> 'a Site_scheme" where
  "psss_put i c s = s\<lparr>psss_sms := (psss_sms s)[i := sm c], gports := (gports s)[i := port c], ginst := inst c, site_eth := eth c,
     mdents := (mdents s)[i := mdent c], mdss_sms := (mdss_sms s)[i := mdss c]\<rparr>"

definition site_psss :: "(PsssCtx \<Rightarrow> PsssCtx option) \<Rightarrow> nat \<Rightarrow> 'a Site_scheme \<Rightarrow> 'a Site_scheme option" where
  "site_psss f i s = do {
     c \<leftarrow> psss_ctx i s;
     d \<leftarrow> f c;
     Some (psss_put i d s)
   }"

section \<open>Actions and transitions\<close>

definition setPSSyncSend :: "'a SssSite_scheme \<Rightarrow> PortSyncSync option" where
  "setPSSyncSend s = deref (rcvdPSSyncPtrSSS (sss s))"

text \<open>\<open>rnd i\<close> is the random number of the MDSyncSend machine of port \<open>i\<close>.\<close>

definition txPSSync :: "(nat \<Rightarrow> 16 word) \<Rightarrow> UScaledNs \<Rightarrow> 'a SssSite_scheme \<Rightarrow> 'a SssSite_scheme option" where
  "txPSSync rnd ts s = do {
     p \<leftarrow> deref (txPSSyncPtrSSS (sss s));
     s \<leftarrow> clock_slave_sync_sm_recv_pss p s;
     for_each (\<lambda>i. site_psss (port_sync_sync_send_sm_recv_pss (rnd i) ts p) i) [0..<N_PORTS] s
   }"

definition sss_all_state_transition :: "'a SssSite_scheme \<Rightarrow> SiteSyncSyncSMState" where
  "sss_all_state_transition s =
     (if BEGIN (ginst s) \<or> \<not> instanceEnable (ginst s) then SSS_INITIALIZING else sss_state (sss s))"

definition sss_initializing_action :: "'a SssSite_scheme \<Rightarrow> 'a SssSite_scheme" where
  "sss_initializing_action s = s\<lparr>sss := (sss s)\<lparr>rcvdPSSyncSSS := False\<rparr>\<rparr>"

text \<open>Whether what has come in is from the slave port, the port 0 standing for the clock of the node itself.\<close>

definition sss_initializing_transition :: "'a SssSite_scheme \<Rightarrow> SiteSyncSyncSMState option" where
  "sss_initializing_transition s =
     (if rcvdPSSyncSSS (sss s) then do {
        p \<leftarrow> deref (rcvdPSSyncPtrSSS (sss s));
        st \<leftarrow> rd (selectedState (ginst s)) (unat (pss_localPortNumber p));
        Some (if st = SLAVE_PORT \<and> gmPresent (ginst s) then SSS_RECEIVING_SYNC else SSS_INITIALIZING) }
      else Some SSS_INITIALIZING)"

definition sss_receiving_action :: "(nat \<Rightarrow> 16 word) \<Rightarrow> UScaledNs \<Rightarrow> 'a SssSite_scheme \<Rightarrow> 'a SssSite_scheme option" where
  "sss_receiving_action rnd ts s = do {
     let s = s\<lparr>sss := (sss s)\<lparr>rcvdPSSyncSSS := False\<rparr>\<rparr>;
     _ \<leftarrow> cfree (txPSSyncPtrSSS (sss s));
     p \<leftarrow> setPSSyncSend s;
     s \<leftarrow> txPSSync rnd ts (s\<lparr>sss := (sss s)\<lparr>txPSSyncPtrSSS := Live p\<rparr>\<rparr>);
     p \<leftarrow> deref (rcvdPSSyncPtrSSS (sss s));
     Some (s\<lparr>ginst := (ginst s)\<lparr>parentLogSyncInterval := pss_logMessageInterval p\<rparr>\<rparr>)
   }"

text \<open>The state of the port is read before the flag is tested. The result says whether the state is left and entered again.\<close>

definition sss_receiving_again :: "'a SssSite_scheme \<Rightarrow> bool option" where
  "sss_receiving_again s = do {
     p \<leftarrow> deref (rcvdPSSyncPtrSSS (sss s));
     port_state \<leftarrow> rd (selectedState (ginst s)) (unat (pss_localPortNumber p));
     Some (rcvdPSSyncSSS (sss s) \<and> port_state = SLAVE_PORT \<and> gmPresent (ginst s))
   }"

section \<open>The machine\<close>

definition sss_goto :: "SiteSyncSyncSMState \<Rightarrow> 'a SssSite_scheme \<Rightarrow> 'a SssSite_scheme" where
  "sss_goto st s = s\<lparr>sss := (sss s)\<lparr>sss_state := st\<rparr>\<rparr>"

definition sss_body :: "(nat \<Rightarrow> 16 word) \<Rightarrow> UScaledNs \<Rightarrow> 'a SssSite_scheme \<Rightarrow> ('a SssSite_scheme \<times> bool) option" where
  "sss_body rnd ts s0 = do {
     let state_change = sss_last_state (sss s0) \<noteq> sss_state (sss s0);
     let s = s0\<lparr>sss := (sss s0)\<lparr>sss_last_state := sss_state (sss s0)\<rparr>\<rparr>;
     s \<leftarrow> (case sss_state (sss s) of
         SSS_INIT \<Rightarrow> Some (sss_goto SSS_INITIALIZING s)
       | SSS_INITIALIZING \<Rightarrow> do {
           let s = (if state_change then sss_initializing_action s else s);
           st \<leftarrow> sss_initializing_transition s;
           Some (sss_goto st s) }
       | SSS_RECEIVING_SYNC \<Rightarrow> do {
           s \<leftarrow> (if state_change then sss_receiving_action rnd ts s else Some s);
           again \<leftarrow> sss_receiving_again s;
           let s = (if again then s\<lparr>sss := (sss s)\<lparr>sss_last_state := SSS_REACTION\<rparr>\<rparr> else s);
           Some (sss_goto SSS_RECEIVING_SYNC s) }
       | SSS_BEFORE_INIT \<Rightarrow> Some s
       | SSS_REACTION \<Rightarrow> Some s);
     Some (s, sss_last_state (sss s) \<noteq> sss_state (sss s))
   }"

definition site_sync_sync_sm_run :: "(nat \<Rightarrow> 16 word) \<Rightarrow> UScaledNs \<Rightarrow> 'a SssSite_scheme \<Rightarrow> 'a SssSite_scheme option" where
  "site_sync_sync_sm_run rnd ts s = sm_loop (sss_body rnd ts) (sss_goto (sss_all_state_transition s) s)"

definition site_sync_sync_sm_recv_pss :: "(nat \<Rightarrow> 16 word) \<Rightarrow> UScaledNs \<Rightarrow> PortSyncSync \<Rightarrow> 'a SssSite_scheme \<Rightarrow> 'a SssSite_scheme option" where
  "site_sync_sync_sm_recv_pss rnd ts p s = do {
     _ \<leftarrow> cfree (rcvdPSSyncPtrSSS (sss s));
     site_sync_sync_sm_run rnd ts (s\<lparr>sss := (sss s)\<lparr>rcvdPSSyncSSS := True, rcvdPSSyncPtrSSS := Live p\<rparr>\<rparr>)
   }"

definition init_site_sync_sync_sm :: "(nat \<Rightarrow> 16 word) \<Rightarrow> 'a SssSite_scheme \<Rightarrow> 'a SssSite_scheme option" where
  "init_site_sync_sync_sm rnd s =
     site_sync_sync_sm_run rnd \<lparr>subns = 0, nsec = 0, nsec_msb = 0\<rparr>
       (s\<lparr>sss := (sss s)\<lparr>sss_state := SSS_INIT, sss_last_state := SSS_BEFORE_INIT, rcvdPSSyncPtrSSS := Null, txPSSyncPtrSSS := Null\<rparr>\<rparr>)"

end
