(* ===== verification/SyncReceive.thy ===== *)
theory SyncReceive
  imports SiteSync
begin

text \<open>
  The machines that receive the time: MDSyncReceive (\<open>time_sync/md_sync_receive_sm.c\<close>) waits for a Sync
  message and its Follow_Up, PortSyncSyncReceive (\<open>time_sync/port_sync_sync_receive_sm.c\<close>) hands what
  they say to the SiteSyncSync machine.
\<close>

section \<open>PortSyncSyncReceive\<close>

record MDSyncReceive =
  sr_domainNumber :: byte
  sr_followUpCorrectionField :: UScaledNs
  sr_sourcePortIdentity :: PortIdentity
  sr_logMessageInterval :: byte
  sr_preciseOriginTimestamp :: PTPMsgTimestamp
  sr_upstreamTxTime :: UScaledNs
  sr_rateRatio :: double
  sr_gmTimeBaseIndicator :: "16 word"
  sr_lastGmPhaseChange :: UScaledNs
  sr_lastGmFreqChange :: double

datatype PortSyncSyncReceiveSMState = PSSR_REACTION | PSSR_BEFORE_INIT | PSSR_INIT | PSSR_DISCARD | PSSR_RECEIVED_SYNC

record PortSyncSyncReceiveSM =
  rcvdMDSyncPSSR :: bool
  rcvdMDSyncPtrPSSR :: "MDSyncReceive cptr"
  txPSSyncPtrPSSR :: "PortSyncSync cptr"
  pssr_rateRatio :: double
  pssr_state :: PortSyncSyncReceiveSMState
  pssr_last_state :: PortSyncSyncReceiveSMState

text \<open>
  The context of the machine of one port: the machine, the number \<open>pidx\<close> of its port in the arrays of
  the node, and the machines it calls, which see the globals of the same port.
\<close>

record PssrSite = SssSite +
  pssr_sms :: "PortSyncSyncReceiveSM list"

abbreviation pssr :: "nat \<Rightarrow> 'a PssrSite_scheme \<Rightarrow> PortSyncSyncReceiveSM" where
  "pssr i s \<equiv> pssr_sms s ! i"

abbreviation gport :: "nat \<Rightarrow> 'a ClockCtx_scheme \<Rightarrow> PerPortGlobal" where
  "gport i s \<equiv> gports s ! i"

definition pssr_upd :: "nat \<Rightarrow> (PortSyncSyncReceiveSM \<Rightarrow> PortSyncSyncReceiveSM) \<Rightarrow> 'a PssrSite_scheme \<Rightarrow> 'a PssrSite_scheme" where
  "pssr_upd i f s = s\<lparr>pssr_sms := (pssr_sms s)[i := f (pssr i s)]\<rparr>"

definition gport_upd :: "nat \<Rightarrow> (PerPortGlobal \<Rightarrow> PerPortGlobal) \<Rightarrow> 'a ClockCtx_scheme \<Rightarrow> 'a ClockCtx_scheme" where
  "gport_upd i f s = s\<lparr>gports := (gports s)[i := f (gport i s)]\<rparr>"

text \<open>
  The structure is allocated and filled, but for three members, which keep what the memory held:
  those of \<open>junk\<close>.
\<close>

definition setPSSyncPSSR :: "PortSyncSync \<Rightarrow> nat \<Rightarrow> UScaledNs \<Rightarrow> 'a PssrSite_scheme \<Rightarrow> (PortSyncSync \<times> 'a PssrSite_scheme) option" where
  "setPSSyncPSSR junk i ts s = do {
     sr \<leftarrow> deref (rcvdMDSyncPtrPSSR (pssr i s));
     let p = junk\<lparr>pss_localPortNumber := thisPort (gport i s), pss_domainNumber := sr_domainNumber sr,
       pss_followUpCorrectionField := sr_followUpCorrectionField sr, pss_sourcePortIdentity := sr_sourcePortIdentity sr,
       pss_logMessageInterval := sr_logMessageInterval sr, pss_preciseOriginTimestamp := sr_preciseOriginTimestamp sr,
       pss_upstreamTxTime := sr_upstreamTxTime sr,
       pss_syncReceiptTimeoutTime := uscaledns_add ts (syncReceiptTimeoutTimeInterval (gport i s)),
       pss_rateRatio := pssr_rateRatio (pssr i s)\<rparr>;
     Some (p, s\<lparr>ginst := (ginst s)\<lparr>syncReceiptTimeoutTime := pss_syncReceiptTimeoutTime p\<rparr>\<rparr>)
   }"

definition txPSSyncPSSR :: "(nat \<Rightarrow> 16 word) \<Rightarrow> nat \<Rightarrow> UScaledNs \<Rightarrow> 'a PssrSite_scheme \<Rightarrow> 'a PssrSite_scheme option" where
  "txPSSyncPSSR rnd i ts s = do {
     p \<leftarrow> deref (txPSSyncPtrPSSR (pssr i s));
     site_sync_sync_sm_recv_pss rnd ts p s
   }"

definition pssr_all_state_transition :: "nat \<Rightarrow> 'a PssrSite_scheme \<Rightarrow> PortSyncSyncReceiveSMState" where
  "pssr_all_state_transition i s =
     (let third_term = rcvdMDSyncPSSR (pssr i s) \<and> \<not> port_valid (gport i s) in
      if BEGIN (ginst s) \<or> \<not> instanceEnable (ginst s) \<or> third_term then PSSR_DISCARD else pssr_state (pssr i s))"

definition pssr_discard_action :: "nat \<Rightarrow> 'a PssrSite_scheme \<Rightarrow> 'a PssrSite_scheme" where
  "pssr_discard_action i s = pssr_upd i (\<lambda>m. m\<lparr>rcvdMDSyncPSSR := False\<rparr>) s"

definition pssr_discard_transition :: "nat \<Rightarrow> 'a PssrSite_scheme \<Rightarrow> PortSyncSyncReceiveSMState" where
  "pssr_discard_transition i s =
     (if rcvdMDSyncPSSR (pssr i s) \<and> port_valid (gport i s) then PSSR_RECEIVED_SYNC else PSSR_DISCARD)"

text \<open>The shift \<open>1 << TEMP\<close> of an \<open>int\<close> is converted for the product of 64 bits.\<close>

definition pssr_received_action :: "(nat \<Rightarrow> 16 word) \<Rightarrow> PortSyncSync \<Rightarrow> nat \<Rightarrow> UScaledNs \<Rightarrow> 'a PssrSite_scheme \<Rightarrow> 'a PssrSite_scheme option" where
  "pssr_received_action rnd junk i ts s = do {
     let s = pssr_upd i (\<lambda>m. m\<lparr>rcvdMDSyncPSSR := False, pssr_rateRatio := 1\<rparr>) s;
     sr \<leftarrow> deref (rcvdMDSyncPtrPSSR (pssr i s));
     k \<leftarrow> shl1 (sr_logMessageInterval sr);
     let s = gport_upd i (\<lambda>p. p\<lparr>syncReceiptTimeoutTimeInterval :=
       \<lparr>subns = 0, nsec = ucast (syncReceiptTimeout p) * ONE_SEC_NS * k, nsec_msb = 0\<rparr>\<rparr>) s;
     (p, s) \<leftarrow> setPSSyncPSSR junk i ts s;
     txPSSyncPSSR rnd i ts (pssr_upd i (\<lambda>m. m\<lparr>txPSSyncPtrPSSR := Live p\<rparr>) s)
   }"

definition pssr_received_again :: "nat \<Rightarrow> 'a PssrSite_scheme \<Rightarrow> bool" where
  "pssr_received_again i s \<longleftrightarrow>
     rcvdMDSyncPSSR (pssr i s) \<and> port_valid (gport i s) \<and> \<not> asymmetryMeasurementMode (gport i s)"

definition pssr_goto :: "nat \<Rightarrow> PortSyncSyncReceiveSMState \<Rightarrow> 'a PssrSite_scheme \<Rightarrow> 'a PssrSite_scheme" where
  "pssr_goto i st s = pssr_upd i (\<lambda>m. m\<lparr>pssr_state := st\<rparr>) s"

definition pssr_body :: "(nat \<Rightarrow> 16 word) \<Rightarrow> PortSyncSync \<Rightarrow> nat \<Rightarrow> UScaledNs \<Rightarrow> 'a PssrSite_scheme \<Rightarrow> ('a PssrSite_scheme \<times> bool) option" where
  "pssr_body rnd junk i ts s0 = do {
     let state_change = pssr_last_state (pssr i s0) \<noteq> pssr_state (pssr i s0);
     let s = pssr_upd i (\<lambda>m. m\<lparr>pssr_last_state := pssr_state m\<rparr>) s0;
     s \<leftarrow> (case pssr_state (pssr i s) of
         PSSR_INIT \<Rightarrow> Some (pssr_goto i PSSR_DISCARD s)
       | PSSR_DISCARD \<Rightarrow> do {
           let s = (if state_change then pssr_discard_action i s else s);
           Some (pssr_goto i (pssr_discard_transition i s) s) }
       | PSSR_RECEIVED_SYNC \<Rightarrow> do {
           s \<leftarrow> (if state_change then pssr_received_action rnd junk i ts s else Some s);
           let s = (if pssr_received_again i s then pssr_upd i (\<lambda>m. m\<lparr>pssr_last_state := PSSR_REACTION\<rparr>) s else s);
           Some (pssr_goto i PSSR_RECEIVED_SYNC s) }
       | PSSR_REACTION \<Rightarrow> Some s
       | PSSR_BEFORE_INIT \<Rightarrow> Some s);
     Some (s, pssr_last_state (pssr i s) \<noteq> pssr_state (pssr i s))
   }"

definition port_sync_sync_receive_sm_run :: "(nat \<Rightarrow> 16 word) \<Rightarrow> PortSyncSync \<Rightarrow> nat \<Rightarrow> UScaledNs \<Rightarrow> 'a PssrSite_scheme \<Rightarrow> 'a PssrSite_scheme option" where
  "port_sync_sync_receive_sm_run rnd junk i ts s = sm_loop (pssr_body rnd junk i ts) (pssr_goto i (pssr_all_state_transition i s) s)"

definition port_sync_sync_receive_sm_recv_md_sync ::
  "(nat \<Rightarrow> 16 word) \<Rightarrow> PortSyncSync \<Rightarrow> nat \<Rightarrow> UScaledNs \<Rightarrow> MDSyncReceive \<Rightarrow> 'a PssrSite_scheme \<Rightarrow> 'a PssrSite_scheme option" where
  "port_sync_sync_receive_sm_recv_md_sync rnd junk i ts m s = do {
     _ \<leftarrow> cfree (rcvdMDSyncPtrPSSR (pssr i s));
     port_sync_sync_receive_sm_run rnd junk i ts (pssr_upd i (\<lambda>n. n\<lparr>rcvdMDSyncPSSR := True, rcvdMDSyncPtrPSSR := Live m\<rparr>) s)
   }"

definition init_port_sync_sync_receive_sm :: "(nat \<Rightarrow> 16 word) \<Rightarrow> PortSyncSync \<Rightarrow> nat \<Rightarrow> 'a PssrSite_scheme \<Rightarrow> 'a PssrSite_scheme option" where
  "init_port_sync_sync_receive_sm rnd junk i s =
     port_sync_sync_receive_sm_run rnd junk i \<lparr>subns = 0, nsec = 0, nsec_msb = 0\<rparr>
       (pssr_upd i (\<lambda>m. m\<lparr>pssr_last_state := PSSR_BEFORE_INIT, pssr_state := PSSR_INIT, pssr_rateRatio := 1, rcvdMDSyncPtrPSSR := Null,
         txPSSyncPtrPSSR := Null\<rparr>) s)"

section \<open>MDSyncReceive\<close>

datatype MDSyncReceiveSMState = MDSR_REACTION | MDSR_BEFORE_INIT | MDSR_INIT | MDSR_DISCARD | MDSR_WAITING_FOR_FOLLOW_UP | MDSR_WAITING_FOR_SYNC

record MDSyncReceiveSM =
  followUpReceiptTimeoutTime :: UScaledNs
  rcvdSync :: bool
  rcvdFollowUp :: bool
  rcvdSyncPtr :: "PTPMsgSync cptr"
  rcvdFollowUpPtr :: "PTPMsgFollowUp cptr"
  upstreamSyncInterval :: UScaledNs
  syncEventIngressTimestamp :: UScaledNs
  mdsr_state :: MDSyncReceiveSMState
  mdsr_last_state :: MDSyncReceiveSMState

record MdsrSite = PssrSite +
  mdsr_sms :: "MDSyncReceiveSM list"

abbreviation mdsr :: "nat \<Rightarrow> 'a MdsrSite_scheme \<Rightarrow> MDSyncReceiveSM" where
  "mdsr i s \<equiv> mdsr_sms s ! i"

definition mdsr_upd :: "nat \<Rightarrow> (MDSyncReceiveSM \<Rightarrow> MDSyncReceiveSM) \<Rightarrow> 'a MdsrSite_scheme \<Rightarrow> 'a MdsrSite_scheme" where
  "mdsr_upd i f s = s\<lparr>mdsr_sms := (mdsr_sms s)[i := f (mdsr i s)]\<rparr>"

text \<open>What a Sync message and its Follow_Up say; the time of arrival less the propagation delay is the time it left.\<close>

definition setMDSyncReceiveMDSR :: "nat \<Rightarrow> 'a MdsrSite_scheme \<Rightarrow> MDSyncReceive option" where
  "setMDSyncReceiveMDSR i s = do {
     y \<leftarrow> deref (rcvdSyncPtr (mdsr i s));
     f \<leftarrow> deref (rcvdFollowUpPtr (mdsr i s));
     Some \<lparr>sr_domainNumber = headDomainNumber (sync_head y),
       sr_followUpCorrectionField = uscaledns_add (uscaledns_uint64 (correctionField (sync_head y))) (uscaledns_uint64 (correctionField (fu_head f))),
       sr_sourcePortIdentity = sourcePortIdentity (sync_head y), sr_logMessageInterval = logMessageInterval (sync_head y),
       sr_preciseOriginTimestamp = preciseOriginTimestamp f,
       sr_upstreamTxTime = uscaledns_subtract (syncEventIngressTimestamp (mdsr i s)) (meanLinkDelay (gport i s)),
       sr_rateRatio = 1, sr_gmTimeBaseIndicator = tlv_gmTimeBaseIndicator (followUpInformationTLV f),
       sr_lastGmPhaseChange = tlv_lastGmPhaseChange (followUpInformationTLV f), sr_lastGmFreqChange = 0\<rparr>
   }"

definition mdsr_all_state_transition :: "nat \<Rightarrow> 'a MdsrSite_scheme \<Rightarrow> MDSyncReceiveSMState" where
  "mdsr_all_state_transition i s =
     (let thirdTerm = rcvdSync (mdsr i s) \<and> \<not> port_valid (gport i s) in
      if BEGIN (ginst s) \<or> \<not> instanceEnable (ginst s) \<or> thirdTerm then MDSR_DISCARD else mdsr_state (mdsr i s))"

definition mdsr_discard_action :: "nat \<Rightarrow> 'a MdsrSite_scheme \<Rightarrow> 'a MdsrSite_scheme" where
  "mdsr_discard_action i s = mdsr_upd i (\<lambda>m. m\<lparr>rcvdSync := False, rcvdFollowUp := False\<rparr>) s"

definition mdsr_discard_transition :: "nat \<Rightarrow> 'a MdsrSite_scheme \<Rightarrow> MDSyncReceiveSMState" where
  "mdsr_discard_transition i s =
     (if rcvdSync (mdsr i s) \<and> port_valid (gport i s) \<and> \<not> asymmetryMeasurementMode (gport i s)
      then MDSR_WAITING_FOR_FOLLOW_UP else MDSR_DISCARD)"

definition mdsr_follow_up_action :: "nat \<Rightarrow> UScaledNs \<Rightarrow> 'a MdsrSite_scheme \<Rightarrow> 'a MdsrSite_scheme" where
  "mdsr_follow_up_action i ts s = mdsr_upd i (\<lambda>m.
     let v = \<lparr>subns = 0, nsec = ONE_SEC_NS, nsec_msb = 0\<rparr> in
     m\<lparr>rcvdSync := False, upstreamSyncInterval := v, followUpReceiptTimeoutTime := uscaledns_add ts v\<rparr>) s"

text \<open>The flag says that the state is left and entered again.\<close>

definition mdsr_follow_up_transition :: "nat \<Rightarrow> UScaledNs \<Rightarrow> 'a MdsrSite_scheme \<Rightarrow> (MDSyncReceiveSMState \<times> bool) option" where
  "mdsr_follow_up_transition i ts s =
     (if rcvdSync (mdsr i s) \<and> port_valid (gport i s) then Some (MDSR_WAITING_FOR_FOLLOW_UP, True)
      else do {
        complete \<leftarrow> (if rcvdFollowUp (mdsr i s) then do {
            f \<leftarrow> deref (rcvdFollowUpPtr (mdsr i s));
            y \<leftarrow> deref (rcvdSyncPtr (mdsr i s));
            Some (sequenceId (fu_head f) = sequenceId (sync_head y)) } else Some False);
        Some (if complete then MDSR_WAITING_FOR_SYNC
          else if uscaledns_compare ts (followUpReceiptTimeoutTime (mdsr i s)) \<ge> 0 \<and> \<not> asymmetryMeasurementMode (gport i s) then MDSR_DISCARD
          else MDSR_WAITING_FOR_FOLLOW_UP, False) })"

definition mdsr_sync_action :: "(nat \<Rightarrow> 16 word) \<Rightarrow> PortSyncSync \<Rightarrow> nat \<Rightarrow> UScaledNs \<Rightarrow> 'a MdsrSite_scheme \<Rightarrow> 'a MdsrSite_scheme option" where
  "mdsr_sync_action rnd junk i ts s = do {
     let s = mdsr_upd i (\<lambda>m. m\<lparr>rcvdSync := False, rcvdFollowUp := False\<rparr>) s;
     m \<leftarrow> setMDSyncReceiveMDSR i s;
     port_sync_sync_receive_sm_recv_md_sync rnd junk i ts m s
   }"

definition mdsr_sync_transition :: "nat \<Rightarrow> 'a MdsrSite_scheme \<Rightarrow> MDSyncReceiveSMState" where
  "mdsr_sync_transition i s =
     (if rcvdSync (mdsr i s) \<and> port_valid (gport i s) \<and> \<not> asymmetryMeasurementMode (gport i s)
      then MDSR_WAITING_FOR_FOLLOW_UP else MDSR_WAITING_FOR_SYNC)"

definition mdsr_goto :: "nat \<Rightarrow> MDSyncReceiveSMState \<Rightarrow> 'a MdsrSite_scheme \<Rightarrow> 'a MdsrSite_scheme" where
  "mdsr_goto i st s = mdsr_upd i (\<lambda>m. m\<lparr>mdsr_state := st\<rparr>) s"

definition mdsr_body :: "(nat \<Rightarrow> 16 word) \<Rightarrow> PortSyncSync \<Rightarrow> nat \<Rightarrow> UScaledNs \<Rightarrow> 'a MdsrSite_scheme \<Rightarrow> ('a MdsrSite_scheme \<times> bool) option" where
  "mdsr_body rnd junk i ts s0 = do {
     let state_change = mdsr_last_state (mdsr i s0) \<noteq> mdsr_state (mdsr i s0);
     let s = mdsr_upd i (\<lambda>m. m\<lparr>mdsr_last_state := mdsr_state m\<rparr>) s0;
     s \<leftarrow> (case mdsr_state (mdsr i s) of
         MDSR_INIT \<Rightarrow> Some (mdsr_goto i MDSR_DISCARD s)
       | MDSR_DISCARD \<Rightarrow> do {
           let s = (if state_change then mdsr_discard_action i s else s);
           Some (mdsr_goto i (mdsr_discard_transition i s) s) }
       | MDSR_WAITING_FOR_FOLLOW_UP \<Rightarrow> do {
           let s = (if state_change then mdsr_follow_up_action i ts s else s);
           (st, again) \<leftarrow> mdsr_follow_up_transition i ts s;
           let s = (if again then mdsr_upd i (\<lambda>m. m\<lparr>mdsr_last_state := MDSR_REACTION\<rparr>) s else s);
           Some (mdsr_goto i st s) }
       | MDSR_WAITING_FOR_SYNC \<Rightarrow> do {
           s \<leftarrow> (if state_change then mdsr_sync_action rnd junk i ts s else Some s);
           Some (mdsr_goto i (mdsr_sync_transition i s) s) }
       | MDSR_REACTION \<Rightarrow> Some s
       | MDSR_BEFORE_INIT \<Rightarrow> Some s);
     Some (s, mdsr_last_state (mdsr i s) \<noteq> mdsr_state (mdsr i s))
   }"

definition md_sync_receive_sm_run :: "(nat \<Rightarrow> 16 word) \<Rightarrow> PortSyncSync \<Rightarrow> nat \<Rightarrow> UScaledNs \<Rightarrow> 'a MdsrSite_scheme \<Rightarrow> 'a MdsrSite_scheme option" where
  "md_sync_receive_sm_run rnd junk i ts s = sm_loop (mdsr_body rnd junk i ts) (mdsr_goto i (mdsr_all_state_transition i s) s)"

definition init_md_sync_receive_sm :: "(nat \<Rightarrow> 16 word) \<Rightarrow> PortSyncSync \<Rightarrow> nat \<Rightarrow> 'a MdsrSite_scheme \<Rightarrow> 'a MdsrSite_scheme option" where
  "init_md_sync_receive_sm rnd junk i s =
     md_sync_receive_sm_run rnd junk i \<lparr>subns = 0, nsec = 0, nsec_msb = 0\<rparr>
       (mdsr_upd i (\<lambda>m. m\<lparr>rcvdSyncPtr := Null, rcvdFollowUpPtr := Null, mdsr_state := MDSR_INIT, mdsr_last_state := MDSR_BEFORE_INIT\<rparr>) s)"

definition md_sync_receive_sm_recv_sync ::
  "(nat \<Rightarrow> 16 word) \<Rightarrow> PortSyncSync \<Rightarrow> nat \<Rightarrow> UScaledNs \<Rightarrow> TSUTimestamp \<Rightarrow> PTPMsgSync \<Rightarrow> 'a MdsrSite_scheme \<Rightarrow> 'a MdsrSite_scheme option" where
  "md_sync_receive_sm_recv_sync rnd junk i ts t y s = do {
     _ \<leftarrow> cfree (rcvdSyncPtr (mdsr i s));
     md_sync_receive_sm_run rnd junk i ts
       (mdsr_upd i (\<lambda>m. m\<lparr>rcvdSync := True, rcvdSyncPtr := Live y, syncEventIngressTimestamp := ts_ts t\<rparr>) s)
   }"

definition md_sync_receive_sm_recv_follow_up ::
  "(nat \<Rightarrow> 16 word) \<Rightarrow> PortSyncSync \<Rightarrow> nat \<Rightarrow> UScaledNs \<Rightarrow> PTPMsgFollowUp \<Rightarrow> 'a MdsrSite_scheme \<Rightarrow> 'a MdsrSite_scheme option" where
  "md_sync_receive_sm_recv_follow_up rnd junk i ts f s = do {
     _ \<leftarrow> cfree (rcvdFollowUpPtr (mdsr i s));
     md_sync_receive_sm_run rnd junk i ts (mdsr_upd i (\<lambda>m. m\<lparr>rcvdFollowUp := True, rcvdFollowUpPtr := Live f\<rparr>) s)
   }"

end
