(* ===== verification/PortSyncSend_Props.thy ===== *)
theory PortSyncSend_Props
  imports PortSyncSend MdSyncSend_Props
begin

text \<open>
  The PortSyncSyncSend machine of a master port forwards what comes from another port; the one of any
  other port, or of the port it came from, sends nothing.
\<close>

section \<open>A machine at rest\<close>

definition psss_ready :: "PsssCtx \<Rightarrow> bool" where
  "psss_ready c \<longleftrightarrow> \<not> BEGIN (inst c) \<and> instanceEnable (inst c) \<and> tidx c < length (selectedState (inst c)) \<and>
     psss_state (sm c) \<in> {PSSS_TRANSMIT_INIT, PSSS_SEND_MD_SYNC} \<and> psss_last_state (sm c) = psss_state (sm c) \<and>
     (psss_state (sm c) = PSSS_SEND_MD_SYNC \<longrightarrow> syncLocked (port c)) \<and>
     rcvdPSSyncPtrPSSS (sm c) \<noteq> Dangling \<and> txMDSyncPtr (sm c) \<noteq> Dangling"

text \<open>Whether a message of port \<open>n\<close> is to be forwarded on this port.\<close>

definition psss_forwards :: "16 word \<Rightarrow> PsssCtx \<Rightarrow> bool" where
  "psss_forwards n c \<longleftrightarrow> port_valid (port c) \<and> selectedState (inst c) ! tidx c = MASTER_PORT \<and> n \<noteq> thisPort (port c)"

text \<open>What is asked of the MDSyncSend machine of a port for the message \<open>p\<close>.\<close>

definition request_for :: "PortSyncSync \<Rightarrow> PerPortGlobal \<Rightarrow> ClockIdentity \<Rightarrow> MDSyncSend" where
  "request_for p q cid = \<lparr>ss_domainNumber = 0, ss_followUpCorrectionField = pss_followUpCorrectionField p,
     ss_sourcePortIdentity = \<lparr>clockIdentity = cid, portNumber = thisPort q\<rparr>, ss_logMessageInterval = currentLogSyncInterval q,
     ss_preciseOriginTimestamp = pss_preciseOriginTimestamp p, ss_upstreamTxTime = pss_upstreamTxTime p,
     ss_rateRatio = pss_rateRatio p, ss_gmTimeBaseIndicator = pss_gmTimeBaseIndicator p,
     ss_lastGmPhaseChange = pss_lastGmPhaseChange p, ss_lastGmFreqChange = pss_lastGmFreqChange p\<rparr>"

text \<open>The globals of a port after a run: only three of its variables may differ.\<close>

definition psss_port :: "PerPortGlobal \<Rightarrow> PerPortGlobal \<Rightarrow> bool" where
  "psss_port p q \<longleftrightarrow> (\<exists>l d v. q = p\<lparr>syncReceiptTimeoutTimeInterval := v, syncLocked := l, syncSlowDown := d\<rparr>)"

lemma psss_portI [intro]: "psss_port p p" "psss_port p (p\<lparr>syncLocked := l\<rparr>)" "psss_port p (p\<lparr>syncSlowDown := d\<rparr>)"
    "psss_port p (p\<lparr>syncLocked := l, syncSlowDown := d\<rparr>)" "psss_port p (p\<lparr>syncReceiptTimeoutTimeInterval := v\<rparr>)"
  unfolding psss_port_def
  by (rule exI[of _ "syncLocked p"], rule exI[of _ "syncSlowDown p"], rule exI[of _ "syncReceiptTimeoutTimeInterval p"], simp)
    (rule exI[of _ l], rule exI[of _ "syncSlowDown p"], rule exI[of _ "syncReceiptTimeoutTimeInterval p"], simp,
     rule exI[of _ "syncLocked p"], rule exI[of _ d], rule exI[of _ "syncReceiptTimeoutTimeInterval p"], simp,
     rule exI[of _ l], rule exI[of _ d], rule exI[of _ "syncReceiptTimeoutTimeInterval p"], simp,
     rule exI[of _ "syncLocked p"], rule exI[of _ "syncSlowDown p"], rule exI[of _ v], simp)

lemma psss_portD:
  assumes "psss_port p q"
  shows "thisPort q = thisPort p" "port_valid q = port_valid p" "asymmetryMeasurementMode q = asymmetryMeasurementMode p"
    "currentLogSyncInterval q = currentLogSyncInterval p" "meanLinkDelay q = meanLinkDelay p"
  using assms by (auto simp: psss_port_def port_valid_def)

section \<open>Forwarding\<close>

lemma mdss_globals:
  assumes "port_valid p = port_valid (port c)" "asymmetryMeasurementMode p = asymmetryMeasurementMode (port c)"
    and "BEGIN g = BEGIN (inst c)" "instanceEnable g = instanceEnable (inst c)"
  shows "mdss_ready (c\<lparr>port := p, inst := g\<rparr>) = mdss_ready c" "mdss_waiting m n (c\<lparr>port := p, inst := g\<rparr>) = mdss_waiting m n c"
  using assms by (simp_all add: mdss_ready_def mdss_waiting_def mdss_on_def mdss_wf_def mdss_ptrs_def mdss_rest_def
    cong: MDSyncSendSMState.case_cong)

lemma psss_interval_keeps:
  "rcvdPSSyncPSSS (sm (psss_interval d)) = rcvdPSSyncPSSS (sm d)" "psss_state (sm (psss_interval d)) = psss_state (sm d)"
  "psss_last_state (sm (psss_interval d)) = psss_last_state (sm d)" "rcvdPSSyncPtrPSSS (sm (psss_interval d)) = rcvdPSSyncPtrPSSS (sm d)"
  "txMDSyncPtr (sm (psss_interval d)) = txMDSyncPtr (sm d)" "inst (psss_interval d) = inst d" "eth (psss_interval d) = eth d"
  "mdent (psss_interval d) = mdent d" "mdss (psss_interval d) = mdss d"
  "\<exists>x. port (psss_interval d) = (port d)\<lparr>syncSlowDown := x\<rparr>"
  by (auto simp: psss_interval_def intro: exI[of _ "syncSlowDown (port d)"])

lemma psss_send_action_run:
  assumes "rcvdPSSyncPSSS (sm c)" "rcvdPSSyncPtrPSSS (sm c) = Live p" "txMDSyncPtr (sm c) \<noteq> Dangling"
    and "mdss_ready (mdss_ctx c)"
  obtains d where "psss_send_action r ts c = Some d" "rcvdPSSyncPSSS (sm d) = False" "psss_state (sm d) = psss_state (sm c)"
    "psss_last_state (sm d) = psss_last_state (sm c)" "rcvdPSSyncPtrPSSS (sm d) = Live p" "txMDSyncPtr (sm d) \<noteq> Dangling"
    "syncLocked (port d)" "psss_port (port c) (port d)" "inst d = (inst c)\<lparr>syncReceiptTimeoutTime := pss_syncReceiptTimeoutTime p\<rparr>"
    "mdss_waiting (request_for p (port c) (thisClock (inst c))) (syncSequenceId (mdent c)) (mdss_ctx d)"
    "sends [(thisPort (port c), sync_frame (sync_for (request_for p (port c) (thisClock (inst c))) (syncSequenceId (mdent c))))] (eth c) (eth d)"
proof -
  let ?c = "psss_take_over p c"
  let ?c1 = "?c\<lparr>sm := (sm ?c)\<lparr>rcvdPSSyncPSSS := False, lastSyncSentTime := ts\<rparr>\<rparr>"
  have m: "setMDSync ?c1 = request_for p (port c) (thisClock (inst c))"
    by (simp add: setMDSync_def psss_take_over_def request_for_def)
  let ?m = "request_for p (port c) (thisClock (inst c))"
  let ?c2 = "?c1\<lparr>sm := (sm ?c1)\<lparr>txMDSyncPtr := Live ?m\<rparr>\<rparr>"
  have "mdss_ctx ?c2 = (mdss_ctx c)\<lparr>port := port ?c2, inst := inst ?c2\<rparr>"
    by (simp add: mdss_ctx_def psss_take_over_def)
  then have "mdss_ready (mdss_ctx ?c2)"
    using assms(4) mdss_globals(1)[of "port ?c2" "mdss_ctx c" "inst ?c2"]
    by (simp add: psss_take_over_def port_valid_def) (simp add: mdss_ctx_def)
  from request_run[OF this, of r ?m] obtain e where e: "md_sync_send_sm_recv_md_sync r ?m (mdss_ctx ?c2) = Some e"
    "mdss_waiting ?m (syncSequenceId (mdent c)) e" "sends [(thisPort (port c), sync_frame (sync_for ?m (syncSequenceId (mdent c))))] (eth c) (eth e)"
    "port e = port ?c2" "inst e = inst ?c2"
    by (auto simp: mdss_ctx_def psss_take_over_def)
  let ?d = "?c2\<lparr>port := port e, inst := inst e, eth := eth e, mdent := mdent e, mdss := sm e\<rparr>"
  have "cfree (txMDSyncPtr (sm c)) \<noteq> None" using assms(3) cfree_ok by blast
  then have *: "psss_send_action r ts c = Some (psss_interval ?d)"
    using assms(1,2) e(1) m by (auto simp: psss_send_action_def Let_def txMDSync_def psss_take_over_def)
  obtain x where x: "port (psss_interval ?d) = (port c)\<lparr>syncLocked := True, syncSlowDown := x\<rparr>"
    using psss_interval_keeps(10)[of ?d] e(4) by (auto simp: psss_take_over_def)
  have "mdss_ctx (psss_interval ?d) = e\<lparr>port := port (psss_interval ?d), inst := inst e\<rparr>"
    by (simp add: psss_interval_keeps mdss_ctx_def)
  then have w: "mdss_waiting m n (mdss_ctx (psss_interval ?d)) = mdss_waiting m n e" for m n
    using mdss_globals(2)[of "port (psss_interval ?d)" e "inst e"] x e(4) by (simp add: port_valid_def psss_take_over_def)
  show thesis
    by (rule that[OF *]; unfold w psss_interval_keeps x)
      (use e assms(2) in \<open>auto simp: psss_take_over_def\<close>)
qed

lemma psss_forward:
  assumes c: "psss_ready c" and f: "psss_forwards (pss_localPortNumber p) c" and m: "mdss_ready (mdss_ctx c)"
  obtains d where "port_sync_sync_send_sm_recv_pss r ts p c = Some d" "psss_ready d" "psss_port (port c) (port d)"
    "inst d = (inst c)\<lparr>syncReceiptTimeoutTime := pss_syncReceiptTimeoutTime p\<rparr>"
    "mdss_waiting (request_for p (port c) (thisClock (inst c))) (syncSequenceId (mdent c)) (mdss_ctx d)"
    "sends [(thisPort (port c), sync_frame (sync_for (request_for p (port c) (thisClock (inst c))) (syncSequenceId (mdent c))))] (eth c) (eth d)"
proof -
  define c0 where "c0 = c\<lparr>sm := (sm c)\<lparr>rcvdPSSyncPSSS := True, rcvdPSSyncPtrPSSS := Live p\<rparr>\<rparr>"
  define l where "l = (if psss_state (sm c) = PSSS_SEND_MD_SYNC then PSSS_REACTION else PSSS_TRANSMIT_INIT)"
  define c1 where "c1 = c0\<lparr>sm := (sm c0)\<lparr>psss_last_state := l, psss_state := PSSS_SEND_MD_SYNC\<rparr>\<rparr>"
  define c2 where "c2 = c1\<lparr>sm := (sm c1)\<lparr>psss_last_state := PSSS_SEND_MD_SYNC\<rparr>\<rparr>"
  have i: "\<not> BEGIN (inst c)" "instanceEnable (inst c)" "tidx c < length (selectedState (inst c))"
    "psss_state (sm c) \<in> {PSSS_TRANSMIT_INIT, PSSS_SEND_MD_SYNC}" "psss_last_state (sm c) = psss_state (sm c)"
    "psss_state (sm c) = PSSS_SEND_MD_SYNC \<Longrightarrow> syncLocked (port c)" "rcvdPSSyncPtrPSSS (sm c) \<noteq> Dangling" "txMDSyncPtr (sm c) \<noteq> Dangling"
    and v: "port_valid (port c)" "selectedState (inst c) ! tidx c = MASTER_PORT" "pss_localPortNumber p \<noteq> thisPort (port c)"
    using c f by (simp_all add: psss_ready_def psss_forwards_def)
  have c2: "rcvdPSSyncPSSS (sm c2)" "rcvdPSSyncPtrPSSS (sm c2) = Live p" "txMDSyncPtr (sm c2) \<noteq> Dangling" "mdss_ctx c2 = mdss_ctx c"
    "port c2 = port c" "inst c2 = inst c" "eth c2 = eth c" "mdent c2 = mdent c" "psss_state (sm c2) = PSSS_SEND_MD_SYNC"
    "psss_last_state (sm c2) = PSSS_SEND_MD_SYNC"
    using i(8) by (simp_all add: c2_def c1_def c0_def mdss_ctx_def)
  from psss_send_action_run[of c2 p r ts, OF c2(1-3)] m obtain d where
    d: "psss_send_action r ts c2 = Some d" "rcvdPSSyncPSSS (sm d) = False" "psss_state (sm d) = PSSS_SEND_MD_SYNC"
    "psss_last_state (sm d) = PSSS_SEND_MD_SYNC" "rcvdPSSyncPtrPSSS (sm d) = Live p" "txMDSyncPtr (sm d) \<noteq> Dangling"
    "syncLocked (port d)" "psss_port (port c) (port d)" "inst d = (inst c)\<lparr>syncReceiptTimeoutTime := pss_syncReceiptTimeoutTime p\<rparr>"
    "mdss_waiting (request_for p (port c) (thisClock (inst c))) (syncSequenceId (mdent c)) (mdss_ctx d)"
    "sends [(thisPort (port c), sync_frame (sync_for (request_for p (port c) (thisClock (inst c))) (syncSequenceId (mdent c))))] (eth c) (eth d)"
    unfolding c2(4-) by metis
  have t1: "psss_body r ts c0 = Some (c1, True)"
    using i v by (auto simp: psss_body_def Let_def psss_goto_def c0_def c1_def l_def psss_transmit_init_transition_def
      psss_start_sending_def psss_send_transition_def rd_in)
  have "psss_send_transition ts d = Some (PSSS_SEND_MD_SYNC, False)"
    using d(2,7) i(3) d(9) psss_portD[OF d(8)] by (simp add: psss_send_transition_def rd_in Let_def)
  moreover have "psss_goto PSSS_SEND_MD_SYNC d = d" using d(3) by (simp add: psss_goto_def)
  moreover have "l \<noteq> PSSS_SEND_MD_SYNC" by (simp add: l_def)
  ultimately have t2: "psss_body r ts c1 = Some (d, False)"
    using d(1,3,4) by (simp add: psss_body_def Let_def c1_def c2_def)
  have "psss_all_state_transition c0 = psss_state (sm c0)" using i v by (simp add: psss_all_state_transition_def c0_def)
  then have "port_sync_sync_send_sm_run r ts c0 = Some d"
    using sm_loop_turn[of "psss_body r ts", OF t1] sm_loop_stop[of "psss_body r ts", OF t2]
    by (simp add: port_sync_sync_send_sm_run_def psss_goto_def)
  moreover have "cfree (rcvdPSSyncPtrPSSS (sm c)) \<noteq> None" using i(7) cfree_ok by blast
  ultimately have "port_sync_sync_send_sm_recv_pss r ts p c = Some d"
    by (auto simp: port_sync_sync_send_sm_recv_pss_def c0_def)
  moreover have "psss_ready d" using i(1-3) d psss_portD[OF d(8)] by (simp add: psss_ready_def)
  ultimately show thesis using that d by blast
qed

section \<open>Silence\<close>

lemma psss_silent:
  assumes c: "psss_ready c" and f: "\<not> psss_forwards (pss_localPortNumber p) c"
  obtains d where "port_sync_sync_send_sm_recv_pss r ts p c = Some d" "psss_ready d" "psss_port (port c) (port d)" "inst d = inst c"
    "eth d = eth c" "mdent d = mdent c" "mdss d = mdss c"
proof -
  define c0 where "c0 = c\<lparr>sm := (sm c)\<lparr>rcvdPSSyncPSSS := True, rcvdPSSyncPtrPSSS := Live p\<rparr>\<rparr>"
  have i: "\<not> BEGIN (inst c)" "instanceEnable (inst c)" "tidx c < length (selectedState (inst c))"
    "psss_state (sm c) \<in> {PSSS_TRANSMIT_INIT, PSSS_SEND_MD_SYNC}" "psss_last_state (sm c) = psss_state (sm c)"
    "psss_state (sm c) = PSSS_SEND_MD_SYNC \<Longrightarrow> syncLocked (port c)" "rcvdPSSyncPtrPSSS (sm c) \<noteq> Dangling" "txMDSyncPtr (sm c) \<noteq> Dangling"
    using c by (simp_all add: psss_ready_def)
  have s: "port_sync_sync_send_sm_recv_pss r ts p c = port_sync_sync_send_sm_run r ts c0"
    using i(7) cfree_ok[of "rcvdPSSyncPtrPSSS (sm c)"] by (auto simp: port_sync_sync_send_sm_recv_pss_def c0_def)
  show thesis
  proof (cases "\<not> port_valid (port c) \<and> psss_state (sm c) = PSSS_SEND_MD_SYNC")
    case True
    define c1 where "c1 = c0\<lparr>sm := (sm c0)\<lparr>psss_state := PSSS_TRANSMIT_INIT\<rparr>\<rparr>"
    define d where "d = c1\<lparr>sm := (sm c1)\<lparr>psss_last_state := PSSS_TRANSMIT_INIT, rcvdPSSyncPSSS := False, numberSyncTransmissions := 0\<rparr>,
      port := (port c)\<lparr>syncSlowDown := False\<rparr>\<rparr>"
    have "psss_body r ts c1 = Some (d, False)" using True i(5)
      by (simp add: psss_body_def Let_def psss_goto_def c0_def c1_def d_def psss_transmit_init_action_def psss_transmit_init_transition_def psss_start_sending_def)
    moreover have "psss_goto (psss_all_state_transition c0) c0 = c1"
      using True by (simp add: psss_all_state_transition_def psss_goto_def c0_def c1_def)
    ultimately have "port_sync_sync_send_sm_run r ts c0 = Some d"
      by (simp add: port_sync_sync_send_sm_run_def sm_loop_stop[of "psss_body r ts"])
    then show thesis using that[of d] i s by (auto simp: d_def c1_def c0_def psss_ready_def)
  next
    case False
    have "psss_body r ts c0 = Some (c0, False)"
      using i False f by (auto simp: psss_body_def Let_def psss_goto_def c0_def psss_transmit_init_transition_def psss_start_sending_def
        psss_send_transition_def psss_forwards_def rd_in)
    moreover have "psss_goto (psss_all_state_transition c0) c0 = c0"
      using False i(1,2,4) by (auto simp: psss_all_state_transition_def psss_goto_def c0_def)
    ultimately have "port_sync_sync_send_sm_run r ts c0 = Some c0"
      by (simp add: port_sync_sync_send_sm_run_def sm_loop_stop[of "psss_body r ts"])
    then show thesis using that[of c0] i s by (auto simp: c0_def psss_ready_def)
  qed
qed

end
