(* ===== verification/ClockSlaveSync_Props.thy ===== *)
theory ClockSlaveSync_Props
  imports ClockSlaveSync MdSyncSend_Props
begin

text \<open>
  The ClockSlaveSync machine sets the clock to the time of the grandmaster; it returns whenever the
  local time of the message is a new one.
\<close>

section \<open>Bounds of rounding\<close>

lemma round_even_bounds:
  assumes "0 \<le> y"
  shows "0 \<le> round_even y" "of_int (round_even y) \<le> 2 * y" "1 \<le> y \<Longrightarrow> y / 2 \<le> of_int (round_even y)"
proof -
  define f where "f = \<lfloor>y\<rfloor>"
  have f: "0 \<le> f" "of_int f \<le> y" "y < of_int f + 1" using assms by (simp_all add: f_def floor_less_cancel)
  have r: "round_even y = (if y - of_int f < 1 / 2 then f else if 1 / 2 < y - of_int f then f + 1 else if even f then f else f + 1)"
    by (simp add: round_even_def f_def Let_def)
  show "0 \<le> round_even y" using f(1) by (simp add: r)
  show "of_int (round_even y) \<le> 2 * y"
  proof (cases "f = 0")
    case True
    then show ?thesis using f by (simp add: r)
  next
    case False
    then have "(1::rat) \<le> of_int f" using f(1) by (simp only: of_int_1_le_iff)
    moreover have "of_int (round_even y) \<le> (of_int f + 1 :: rat)" by (simp add: r)
    ultimately show ?thesis using f(2) by linarith
  qed
  show "y / 2 \<le> of_int (round_even y)" if "1 \<le> y"
  proof -
    have "1 \<le> f" using that by (simp add: f_def le_floor_iff)
    then have "(1::rat) \<le> of_int f" by simp
    moreover have "(of_int f :: rat) \<le> of_int (round_even y)" by (simp add: r)
    ultimately show ?thesis using f(3) by linarith
  qed
qed

lemma fl_bounds:
  assumes "0 \<le> x"
  shows "0 \<le> fl x" "fl x \<le> 2 * x" "1 \<le> x \<Longrightarrow> x / 2 \<le> fl x"
proof -
  define s where "s = 52 - fl_exp x"
  define u where "u = (2::rat) powi s"
  have u: "0 < u" "2 powi (- s) = 1 / u" by (simp_all add: u_def power_int_minus divide_inverse)
  have e: "fl x = of_int (round_even (x * u)) / u" if "x \<noteq> 0"
    using that assms u(2) by (simp add: fl_def Let_def s_def u_def sgn_if)
  have y: "0 \<le> x * u" using assms u by simp
  show "0 \<le> fl x"
  proof (cases "x = 0")
    case False
    then show ?thesis using e round_even_bounds(1)[OF y] u by simp
  qed (simp add: fl_def)
  show "fl x \<le> 2 * x"
  proof (cases "x = 0")
    case False
    have "of_int (round_even (x * u)) / u \<le> 2 * (x * u) / u"
      using round_even_bounds(2)[OF y] u(1) by (intro divide_right_mono) simp_all
    then show ?thesis using e[OF False] u(1) by simp
  qed (simp add: fl_def)
  show "x / 2 \<le> fl x" if "1 \<le> x"
  proof -
    have p: "0 < \<lfloor>x\<rfloor>" using that by (simp add: zero_less_floor)
    define k where "k = nat (bitlen \<lfloor>x\<rfloor> - 1)"
    have "0 < bitlen \<lfloor>x\<rfloor>" using p bitlen_nonneg[of "\<lfloor>x\<rfloor>"] bitlen_eq_zero_iff[of "\<lfloor>x\<rfloor>"] by linarith
    then have k: "fl_exp x = int k" using that by (simp add: fl_exp_def k_def)
    have "(2::int) ^ k \<le> \<lfloor>x\<rfloor>" using bitlen_bounds[OF p] by (simp add: k_def)
    then have "(2::rat) ^ k \<le> x" by (metis le_floor_iff of_int_numeral of_int_power)
    moreover have "2 ^ k * u = 2 ^ 52"
      unfolding u_def s_def k power_int_diff[of "2::rat" 52 "int k", simplified] by simp
    ultimately have "2 ^ 52 \<le> x * u" using u(1) mult_right_mono[of "2 ^ k" x u] by simp
    then have "1 \<le> x * u" by simp
    from round_even_bounds(3)[OF y this] have "x * u / 2 / u \<le> of_int (round_even (x * u)) / u"
      using u(1) by (intro divide_right_mono) simp_all
    then show ?thesis using e that u(1) by simp
  qed
qed

section \<open>The quotient of two times\<close>

lemma div_bits_nonneg: "div_bits i a b r = Some q \<Longrightarrow> 0 \<le> r \<Longrightarrow> 0 \<le> q"
proof (induction i a b r rule: div_bits.induct)
  case (2 i a b r)
  obtain a' c where a': "shift_limbs a 0 = (a', c)" by (metis surj_pair)
  obtain a'' d where a'': "sub_limbs a' b 0 = (a'', d)" by (metis surj_pair)
  have f: "0 \<le> fl (r + 2 powi (int i - 32))" using 2(4) by (intro fl_bounds(1)) simp
  show ?case
    using 2(1)[OF a'[symmetric] refl] 2(2)[OF a'[symmetric] refl] 2(3,4) a' a'' f
    by (auto simp: Let_def split: if_splits)
qed simp

lemma uscaledns_div_some:
  assumes "usval t2 \<noteq> 0"
  obtains r where "uscaledns_div t1 t2 = Some r" "0 \<le> r"
proof -
  let ?a = "[limb0 t1, limb1 t1, limb2 t1, 0]" and ?b = "[limb0 t2, limb1 t2, limb2 t2, 0]"
  obtain b k where b: "scale_up ?a ?b 0 = Some (b, k)" "limbs b" "length b = 4" "usval t1 \<le> lval b" "lval b < 2 ^ 97"
    using scale_up_val[of ?a ?b 0] usval_less[of t1] usval_less[of t2] assms by (auto simp only: div_limbs) (auto)
  have cmp: "compare_array ?a b 4 = sgn (int (usval t1) - int (lval b))"
    using compare_array_val[OF div_limbs(1) b(2) _ b(3)] by (simp only: div_limbs) simp
  show thesis
  proof (cases "usval t1 = lval b")
    case True
    then have "uscaledns_div t1 t2 = Some (2 ^ k)" unfolding uscaledns_div_def Let_def b(1) using cmp by simp
    then show thesis using that by simp
  next
    case False
    then have "div_bits (k + 32) ?a b 0 \<noteq> None"
      using div_bits_total[OF div_limbs(1) b(2) _ b(3), of t1] b(4,5) by (simp only: div_limbs) simp
    then obtain q where q: "div_bits (k + 32) ?a b 0 = Some q" by blast
    then have "uscaledns_div t1 t2 = Some q"
      unfolding uscaledns_div_def Let_def b(1) using cmp False by (simp add: sgn_if)
    then show thesis using that div_bits_nonneg[OF q] by blast
  qed
qed

section \<open>One message\<close>

definition css_wf :: "'a ClockCtx_scheme \<Rightarrow> bool" where
  "css_wf c \<longleftrightarrow> length (lSyncReceiptTime (css c)) = MAXLENGTH \<and> length (lSyncReceiptLocalTime (css c)) = MAXLENGTH \<and>
     listHeadPeriod (css c) < MAXLENGTH \<and> listTailPeriod (css c) < MAXLENGTH \<and> rcvdPSSyncPtrCSS (css c) \<noteq> Dangling"

definition css_ready :: "'a ClockCtx_scheme \<Rightarrow> bool" where
  "css_ready c \<longleftrightarrow> \<not> BEGIN (ginst c) \<and> instanceEnable (ginst c) \<and> css_wf c \<and>
     css_state (css c) \<in> {CSS_INITIALIZING, CSS_SEND_SYNC_INDICATION} \<and> css_last_state (css c) = css_state (css c) \<and>
     \<not> rcvdPSSyncCSS (css c) \<and> \<not> rcvdLocalClockTickCSS (css c)"

text \<open>The propagation delay to the port a message came in on; none for the clock of the node itself.\<close>

definition link_delay :: "PerPortGlobal list \<Rightarrow> PortSyncSync \<Rightarrow> UScaledNs" where
  "link_delay ports p = (if pss_localPortNumber p = 0 then \<lparr>subns = 0, nsec = 0, nsec_msb = 0\<rparr>
     else meanLinkDelay (ports ! (unat (pss_localPortNumber p) - 1)))"

text \<open>The time of the grandmaster when a message came in, and the time of the node then.\<close>

definition master_time :: "PerPortGlobal list \<Rightarrow> PortSyncSync \<Rightarrow> UScaledNs" where
  "master_time ports p = uscaledns_add (uscaledns_add (uscaledns_ptpmsgtimestamp (pss_preciseOriginTimestamp p)) (pss_followUpCorrectionField p))
     (link_delay ports p)"

definition node_time :: "PerPortGlobal list \<Rightarrow> PortSyncSync \<Rightarrow> UScaledNs" where
  "node_time ports p = uscaledns_add (pss_upstreamTxTime p) (link_delay ports p)"

text \<open>A message the clock can be set to: of one of the ports, with a local time not seen before.\<close>

definition css_takes :: "PortSyncSync \<Rightarrow> 'a ClockCtx_scheme \<Rightarrow> bool" where
  "css_takes p c \<longleftrightarrow> unat (pss_localPortNumber p) \<le> length (gports c) \<and>
     node_time (gports c) p \<notin> set (lSyncReceiptLocalTime (css c)) \<and> 0 \<le> clk_period (css c) \<and> clk_period (css c) \<le> 1000"

text \<open>What a message writes to the offset registers.\<close>

definition offset_write :: "UScaledNs \<Rightarrow> UScaledNs \<Rightarrow> rtc_log \<Rightarrow> rtc_log" where
  "offset_write t l w = (if usval l \<le> usval t then set_rtc_sync_offset RTC_OFFSET_ADD (uscaledns_subtract t l) w
     else set_rtc_sync_offset RTC_OFFSET_SUB (uscaledns_subtract l t) w)"

lemma updateSlaveTime_eq:
  "updateSlaveTime c = c\<lparr>rtc := rtc_latch (offset_write (syncReceiptTime (ginst c)) (syncReceiptLocalTime (ginst c)) (rtc c))\<rparr>"
  by (simp add: updateSlaveTime_def offset_write_def Let_def uscaledns_compare_usval sgn_if)

lemma usval_subtract_nonzero:
  assumes "usval a \<noteq> usval b"
  shows "usval (uscaledns_subtract a b) \<noteq> 0"
proof (cases "usval b \<le> usval a")
  case True
  then show ?thesis using usval_subtract_le[OF True] assms by simp
next
  case False
  then have "(usval a + 2 ^ 96 - usval b) mod 2 ^ 96 = usval a + 2 ^ 96 - usval b" by simp
  then show ?thesis using False usval_less[of b] unfolding usval_subtract by simp
qed

lemma period_registers_total: "0 \<le> p \<Longrightarrow> p \<le> 4000 \<Longrightarrow> period_registers p \<noteq> None"
proof -
  assume p: "0 \<le> p" "p \<le> 4000"
  then have "\<not> (\<lfloor>p\<rfloor> < 0 \<or> \<lfloor>p\<rfloor> \<ge> 2 ^ 32)" by (simp add: floor_less_zero le_floor_iff)
  then show ?thesis unfolding period_registers_def Let_def by (simp split: prod.split)
qed

lemma updateSlavePeriod_ok:
  assumes "css_wf c" "0 \<le> clk_period (css c)" "clk_period (css c) \<le> 1000"
    and "isEmptyPeriod (css c) \<or> listHeadPeriod (css c) = listTailPeriod (css c) \<or>
      lSyncReceiptLocalTime (css c) ! listTailPeriod (css c) \<noteq> lSyncReceiptLocalTime (css c) ! listHeadPeriod (css c)"
  shows "\<exists>p h v. updateSlavePeriod c = Some (c\<lparr>rtc := rtc c @ v, css := (css c)\<lparr>clk_period := p, listHeadPeriod := h\<rparr>\<rparr>) \<and> h < MAXLENGTH"
proof (cases "isEmptyPeriod (css c) \<or> listHeadPeriod (css c) = listTailPeriod (css c)")
  case True
  then show ?thesis using assms(1)
    by (intro exI[of _ "clk_period (css c)"] exI[of _ "listHeadPeriod (css c)"] exI[of _ "[]"]) (auto simp: updateSlavePeriod_def css_wf_def)
next
  case False
  let ?s = "css c"
  let ?l = "uscaledns_subtract (lSyncReceiptLocalTime ?s ! listTailPeriod ?s) (lSyncReceiptLocalTime ?s ! listHeadPeriod ?s)"
  let ?t = "uscaledns_subtract (lSyncReceiptTime ?s ! listTailPeriod ?s) (lSyncReceiptTime ?s ! listHeadPeriod ?s)"
  have "usval (lSyncReceiptLocalTime ?s ! listTailPeriod ?s) \<noteq> usval (lSyncReceiptLocalTime ?s ! listHeadPeriod ?s)"
    using False assms(4) by (simp add: usval_inject)
  then have "usval ?l \<noteq> 0" by (rule usval_subtract_nonzero)
  then obtain r where r: "uscaledns_div ?t ?l = Some r" "0 \<le> r" by (rule uscaledns_div_some)
  have i: "listTailPeriod ?s < length (lSyncReceiptTime ?s)" "listHeadPeriod ?s < length (lSyncReceiptTime ?s)"
    "listTailPeriod ?s < length (lSyncReceiptLocalTime ?s)" "listHeadPeriod ?s < length (lSyncReceiptLocalTime ?s)"
    "listHeadPeriod ?s < 64" "listTailPeriod ?s < 64"
    using assms(1) by (simp_all add: css_wf_def)
  consider "\<bar>fl (r - 1)\<bar> < fl (1 / 10 ^ 9)" | "\<not> \<bar>fl (r - 1)\<bar> < fl (1 / 10 ^ 9)" "\<bar>fl (r - 1)\<bar> > fl (1 / 10 ^ 3)"
    | "\<not> \<bar>fl (r - 1)\<bar> < fl (1 / 10 ^ 9)" "\<not> \<bar>fl (r - 1)\<bar> > fl (1 / 10 ^ 3)" by blast
  then show ?thesis
  proof cases
    case 1
    then show ?thesis using i r False
      by (intro exI[of _ "clk_period ?s"] exI[of _ "listHeadPeriod ?s"] exI[of _ "[]"]) (simp add: updateSlavePeriod_def rd_in Let_def)
  next
    case 2
    then show ?thesis using i r False
      by (intro exI[of _ "clk_period ?s"] exI[of _ "listTailPeriod ?s"] exI[of _ "[]"]) (simp add: updateSlavePeriod_def rd_in Let_def)
  next
    case 3
    have "r < 2"
    proof (rule ccontr)
      assume "\<not> r < 2"
      then have "1 / 2 \<le> fl (r - 1)" using fl_bounds(3)[of "r - 1"] by simp
      then show False using 3(2) fl_bounds(2)[of "1 / 10 ^ 3"] by simp
    qed
    then have m: "0 \<le> clk_period ?s * r" "clk_period ?s * r \<le> 1000 * 2"
      using assms(2,3) r(2) by (simp, intro mult_mono) simp_all
    then have "period_registers (fl (clk_period ?s * r)) \<noteq> None"
      using fl_bounds(1,2)[OF m(1)] by (intro period_registers_total) linarith+
    then obtain h l where "period_registers (fl (clk_period ?s * r)) = Some (h, l)" by auto
    then show ?thesis using i r False 3
      by (intro exI[of _ "fl (clk_period ?s * r)"] exI[of _ "listTailPeriod ?s"]
        exI[of _ "[(RTC_PERIOD_H, h), (RTC_PERIOD_L, l), (RTC_CTRL, RTC_SET_CTRL_0), (RTC_CTRL, RTC_SET_PERIOD)]"])
        (simp add: updateSlavePeriod_def rd_in Let_def rtc_set_period_def)
  qed
qed

text \<open>The globals of the node after a message.\<close>

definition css_inst :: "PerPortGlobal list \<Rightarrow> PortSyncSync \<Rightarrow> PerPTPInstanceGlobal \<Rightarrow> PerPTPInstanceGlobal" where
  "css_inst ports p g = g\<lparr>syncReceiptTime := master_time ports p, syncReceiptLocalTime := node_time ports p,
     gmTimeBaseIndicator := pss_gmTimeBaseIndicator p, lastGmPhaseChange := pss_lastGmPhaseChange p,
     lastGmFreqChange := pss_lastGmFreqChange p\<rparr>"

lemma css_inst_keeps:
  "BEGIN (css_inst q p g) = BEGIN g" "instanceEnable (css_inst q p g) = instanceEnable g"
  "selectedState (css_inst q p g) = selectedState g" "gmPresent (css_inst q p g) = gmPresent g" "thisClock (css_inst q p g) = thisClock g"
  by (simp_all add: css_inst_def)

lemma css_receive_ok:
  assumes w: "css_wf c" and t: "css_takes p c"
  shows "\<exists>m v. css_receive p c = Some (c\<lparr>ginst := css_inst (gports c) p (ginst c),
      rtc := rtc_latch (offset_write (master_time (gports c) p) (node_time (gports c) p) (rtc c)) @ v, css := m\<rparr>) \<and>
    length (lSyncReceiptTime m) = MAXLENGTH \<and> length (lSyncReceiptLocalTime m) = MAXLENGTH \<and> listHeadPeriod m < MAXLENGTH \<and>
    listTailPeriod m < MAXLENGTH \<and> rcvdPSSyncPtrCSS m = rcvdPSSyncPtrCSS (css c) \<and> css_state m = css_state (css c) \<and>
    css_last_state m = css_last_state (css c)"
proof -
  let ?s = "css c" and ?T = "master_time (gports c) p" and ?L = "node_time (gports c) p"
  let ?i = "(listTailPeriod ?s + 1) mod MAXLENGTH"
  define h where "h = (if \<not> isEmptyPeriod ?s \<and> listHeadPeriod ?s = ?i then (listHeadPeriod ?s + 1) mod MAXLENGTH else listHeadPeriod ?s)"
  define m where "m = ?s\<lparr>lSyncReceiptTime := (lSyncReceiptTime ?s)[?i := ?T], lSyncReceiptLocalTime := (lSyncReceiptLocalTime ?s)[?i := ?L],
    isEmptyPeriod := False, listHeadPeriod := h, listTailPeriod := ?i\<rparr>"
  have i: "?i < MAXLENGTH" "h < MAXLENGTH" "length (lSyncReceiptTime ?s) = 64" "length (lSyncReceiptLocalTime ?s) = 64"
    using w by (simp_all add: h_def css_wf_def)
  have delay: "(if pss_localPortNumber p = 0 then Some \<lparr>subns = 0, nsec = 0, nsec_msb = 0\<rparr>
      else map_option meanLinkDelay (rd (gports c) (unat (pss_localPortNumber p) - 1))) = Some (link_delay (gports c) p)"
  proof (cases "pss_localPortNumber p = 0")
    case False
    then have "0 < unat (pss_localPortNumber p)" by (simp add: unat_gt_0)
    moreover have "unat (pss_localPortNumber p) \<le> length (gports c)" using t by (simp add: css_takes_def)
    ultimately have "unat (pss_localPortNumber p) - 1 < length (gports c)" by linarith
    then show ?thesis using False by (simp add: link_delay_def rd_in)
  qed (simp add: link_delay_def)
  define d where "d = c\<lparr>ginst := css_inst (gports c) p (ginst c), rtc := rtc_latch (offset_write ?T ?L (rtc c)), css := m\<rparr>"
  let ?g = "(ginst c)\<lparr>syncReceiptTime := ?T, syncReceiptLocalTime := ?L\<rparr>"
  have "add_new_syncReceiptTime_syncReceiptLocalTime (c\<lparr>ginst := ?g\<rparr>) = Some (c\<lparr>ginst := ?g, css := m\<rparr>)"
    using i(1,3,4) by (simp add: add_new_syncReceiptTime_syncReceiptLocalTime_def Let_def wr_in m_def h_def)
  then have "css_receive p c = updateSlavePeriod (updateSlaveTime (c\<lparr>ginst := ?g, css := m,
      ginst := css_inst (gports c) p (ginst c)\<rparr>))"
    unfolding css_receive_def Let_def delay by (simp add: master_time_def node_time_def css_inst_def)
  moreover have "updateSlaveTime (c\<lparr>ginst := ?g, css := m, ginst := css_inst (gports c) p (ginst c)\<rparr>) = d"
    by (rule ClockCtx.equality) (simp_all add: updateSlaveTime_eq d_def css_inst_def)
  ultimately have "css_receive p c = updateSlavePeriod d" by simp
  moreover have "css_wf d" using i w by (simp add: d_def m_def css_wf_def)
  moreover have "h = ?i \<or> lSyncReceiptLocalTime m ! ?i \<noteq> lSyncReceiptLocalTime m ! h"
  proof (cases "h = ?i")
    case False
    then have "lSyncReceiptLocalTime m ! h \<in> set (lSyncReceiptLocalTime ?s)" using i by (simp add: m_def)
    then show ?thesis using t i by (auto simp: m_def css_takes_def)
  qed simp
  ultimately obtain q k v where u: "css_receive p c = Some (d\<lparr>rtc := rtc d @ v, css := (css d)\<lparr>clk_period := q, listHeadPeriod := k\<rparr>\<rparr>)" "k < MAXLENGTH"
    using updateSlavePeriod_ok[of d] t by (auto simp: css_takes_def d_def m_def)
  show ?thesis
    by (rule exI[of _ "m\<lparr>clk_period := q, listHeadPeriod := k\<rparr>"], rule exI[of _ v])
      (use u i in \<open>simp add: d_def m_def\<close>)
qed

lemma css_run:
  assumes c: "css_ready c" and t: "css_takes p c"
  obtains m v where "clock_slave_sync_sm_recv_pss p c = Some (c\<lparr>ginst := css_inst (gports c) p (ginst c),
      rtc := rtc_latch (offset_write (master_time (gports c) p) (node_time (gports c) p) (rtc c)) @ v, css := m\<rparr>)"
    "css_ready (c\<lparr>ginst := css_inst (gports c) p (ginst c), css := m\<rparr>)"
proof -
  define c0 where "c0 = c\<lparr>css := (css c)\<lparr>rcvdPSSyncCSS := True, rcvdPSSyncPtrCSS := Live p\<rparr>\<rparr>"
  define l where "l = (if css_state (css c) = CSS_INITIALIZING then CSS_INITIALIZING else CSS_REACTION)"
  define c1 where "c1 = c0\<lparr>css := (css c0)\<lparr>css_last_state := l, css_state := CSS_SEND_SYNC_INDICATION\<rparr>\<rparr>"
  define c2 where "c2 = c1\<lparr>css := (css c1)\<lparr>css_last_state := CSS_SEND_SYNC_INDICATION\<rparr>\<rparr>"
  have i: "\<not> BEGIN (ginst c)" "instanceEnable (ginst c)" "css_wf c" "css_state (css c) \<in> {CSS_INITIALIZING, CSS_SEND_SYNC_INDICATION}"
    "css_last_state (css c) = css_state (css c)" "\<not> rcvdLocalClockTickCSS (css c)"
    using c by (simp_all add: css_ready_def)
  have "css_wf c2" "css_takes p c2" using i(3) t by (simp_all add: c2_def c1_def c0_def css_wf_def css_takes_def)
  from css_receive_ok[OF this] obtain m v where m: "css_receive p c2 = Some (c2\<lparr>ginst := css_inst (gports c) p (ginst c),
      rtc := rtc_latch (offset_write (master_time (gports c) p) (node_time (gports c) p) (rtc c)) @ v, css := m\<rparr>)"
    "length (lSyncReceiptTime m) = MAXLENGTH" "length (lSyncReceiptLocalTime m) = MAXLENGTH" "listHeadPeriod m < MAXLENGTH"
    "listTailPeriod m < MAXLENGTH" "rcvdPSSyncPtrCSS m = Live p" "css_state m = CSS_SEND_SYNC_INDICATION" "css_last_state m = CSS_SEND_SYNC_INDICATION"
    by (auto simp: c2_def c1_def c0_def)
  define d where "d = c2\<lparr>ginst := css_inst (gports c) p (ginst c),
      rtc := rtc_latch (offset_write (master_time (gports c) p) (node_time (gports c) p) (rtc c)) @ v,
      css := m\<lparr>rcvdPSSyncCSS := False, rcvdLocalClockTickCSS := False\<rparr>\<rparr>"
  have "css_send_action c2 = Some d" using m(1) by (simp add: css_send_action_def d_def) (simp add: c2_def c1_def c0_def)
  moreover have "css_goto CSS_SEND_SYNC_INDICATION d = d" using m(7) by (simp add: css_goto_def d_def)
  moreover have "l \<noteq> CSS_SEND_SYNC_INDICATION" by (simp add: l_def)
  ultimately have t2: "css_body c1 = Some (d, False)"
    using m(7,8) by (simp add: css_body_def Let_def css_send_again_def c1_def c2_def) (simp add: d_def)
  have t1: "css_body c0 = Some (c1, True)"
    using i by (auto simp: css_body_def Let_def css_goto_def c0_def c1_def l_def css_initializing_transition_def css_send_again_def)
  have "css_goto (css_all_state_transition c0) c0 = c0"
    using i by (simp add: css_all_state_transition_def css_goto_def c0_def)
  then have "clock_slave_sync_sm_run c0 = Some d"
    using sm_loop_turn[of css_body, OF t1] sm_loop_stop[of css_body, OF t2] by (simp add: clock_slave_sync_sm_run_def)
  moreover have "cfree (rcvdPSSyncPtrCSS (css c)) \<noteq> None" using i(3) cfree_ok by (auto simp: css_wf_def)
  ultimately have "clock_slave_sync_sm_recv_pss p c = Some d"
    by (auto simp: clock_slave_sync_sm_recv_pss_def c0_def)
  moreover have "d = c\<lparr>ginst := ginst d, rtc := rtc d, css := css d\<rparr>" by (simp add: d_def c2_def c1_def c0_def)
  moreover have "css_ready (c\<lparr>ginst := ginst d, css := css d\<rparr>)"
    using i m by (simp add: css_ready_def css_wf_def d_def css_inst_keeps)
  ultimately show thesis using that[of "css d" v] by (simp add: d_def)
qed

section \<open>What the machine promises\<close>

text \<open>Two times whose sum the code computes exactly.\<close>

definition exact_sum :: "UScaledNs \<Rightarrow> UScaledNs \<Rightarrow> bool" where
  "exact_sum a b \<longleftrightarrow> unat (subns a) + unat (subns b) \<noteq> 65535 \<and> usval a + usval b < 2 ^ 96"

lemma usval_exact_sum: "exact_sum a b \<Longrightarrow> usval (uscaledns_add a b) = usval a + usval b"
  by (simp add: exact_sum_def usval_add)

lemma offset_registers:
  assumes "\<bar>int (usval t) - int (usval l)\<bar> < 65536 * (4294967296 * 1000000000)"
  shows "\<exists>h s n. offset_write t l w = w @ [(RTC_OFFSET_S_H, h), (RTC_OFFSET_S_L, s), (RTC_OFFSET_NS, n), (RTC_CTRL, RTC_SET_CTRL_0), (RTC_CTRL, RTC_SET_OFFSET)] \<and>
    (h = (if usval l \<le> usval t then 0 else 0x8000)) \<and> unat n < 1000000000 \<and>
    int (unat s * 1000000000 + unat n) = \<bar>int (usval t) - int (usval l)\<bar> div 65536"
proof -
  have reg: "int (unat (ucast (nsec d div RTC_ACCMOD_H) :: 32 word) * 1000000000 + unat (ucast (nsec d mod RTC_ACCMOD_H) :: 32 word)) = int (usval d) div 65536 \<and>
      unat (ucast (nsec d mod RTC_ACCMOD_H) :: 32 word) < 1000000000"
    if d: "usval d < 65536 * (4294967296 * 1000000000)" for d
  proof -
    have "nsec_msb d = 0"
    proof (rule ccontr)
      assume "nsec_msb d \<noteq> 0"
      then have "1 \<le> unat (nsec_msb d)" by (simp add: unat_gt_0 Suc_le_eq)
      then have "2 ^ 80 * 1 \<le> usval d" unfolding usval_def by (intro trans_le_add2 mult_le_mono2)
      then show False using d by simp
    qed
    then have u: "usval d = unat (subns d) + 65536 * unat (nsec d)" by (simp add: usval_def)
    then have v: "usval d div 65536 = unat (nsec d)" using unat_bounds(1)[of d] by simp
    have "unat (nsec d) < 4294967296 * 1000000000" using d u by simp
    then have "unat (nsec d) div 1000000000 < 4294967296" by (simp add: less_mult_imp_div_less)
    moreover have "unat (nsec d) mod 1000000000 < 1000000000" by simp
    ultimately have "unat (ucast (nsec d div RTC_ACCMOD_H) :: 32 word) = unat (nsec d) div 1000000000"
      "unat (ucast (nsec d mod RTC_ACCMOD_H) :: 32 word) = unat (nsec d) mod 1000000000"
      by (simp_all add: unat_ucast_mod unat_div unat_mod)
    moreover have "int (usval d) div 65536 = int (unat (nsec d))" using v by (metis of_nat_numeral zdiv_int)
    ultimately show ?thesis by simp
  qed
  show ?thesis
  proof (cases "usval l \<le> usval t")
    case True
    have u: "usval (uscaledns_subtract t l) = usval t - usval l" by (rule usval_subtract_le[OF True])
    have "usval (uscaledns_subtract t l) < 65536 * (4294967296 * 1000000000)" using assms True unfolding u by linarith
    note reg[OF this, unfolded u]
    moreover have "\<bar>int (usval t) - int (usval l)\<bar> = int (usval t - usval l)" using True by simp
    ultimately show ?thesis using True by (simp add: offset_write_def set_rtc_sync_offset_def Let_def)
  next
    case False
    then have le: "usval t \<le> usval l" by simp
    have u: "usval (uscaledns_subtract l t) = usval l - usval t" by (rule usval_subtract_le[OF le])
    have "usval (uscaledns_subtract l t) < 65536 * (4294967296 * 1000000000)" using assms False unfolding u by linarith
    note reg[OF this, unfolded u]
    moreover have "\<bar>int (usval t) - int (usval l)\<bar> = int (usval l - usval t)" using False by simp
    ultimately show ?thesis using False by (simp add: offset_write_def set_rtc_sync_offset_def Let_def)
  qed
qed

text \<open>
  C11. The clock of the node is set to the time of the grandmaster. When the machine is given the time of
  the grandmaster with a local time it has not seen before, it returns and writes to the offset
  registers, first of all and as sign, seconds and nanoseconds, the origin of the Sync message plus the
  correction less the time the message left the neighbour, cut to whole nanoseconds: the propagation
  delay, which is added to both sides, cancels out. This holds while the fractions of the sums are
  computed exactly and the difference is below 2 to the 32 seconds.
\<close>

theorem clock_set:
  assumes "css_ready c" "css_takes p c"
    and "exact_sum (uscaledns_ptpmsgtimestamp (pss_preciseOriginTimestamp p)) (pss_followUpCorrectionField p)"
    and "exact_sum (uscaledns_add (uscaledns_ptpmsgtimestamp (pss_preciseOriginTimestamp p)) (pss_followUpCorrectionField p)) (link_delay (gports c) p)"
    and "exact_sum (pss_upstreamTxTime p) (link_delay (gports c) p)"
    and "D = int (usval (uscaledns_ptpmsgtimestamp (pss_preciseOriginTimestamp p)) + usval (pss_followUpCorrectionField p)) - int (usval (pss_upstreamTxTime p))"
    and "\<bar>D\<bar> < 65536 * (2 ^ 32 * 1000000000)"
  shows "\<exists>d h s n v. clock_slave_sync_sm_recv_pss p c = Some d \<and> css_ready d \<and>
    rtc d = rtc c @ [(RTC_OFFSET_S_H, h), (RTC_OFFSET_S_L, s), (RTC_OFFSET_NS, n), (RTC_CTRL, RTC_SET_CTRL_0), (RTC_CTRL, RTC_SET_OFFSET)] @ v \<and>
    h = (if 0 \<le> D then 0 else 0x8000) \<and> unat n < 1000000000 \<and> int (unat s * 1000000000 + unat n) = \<bar>D\<bar> div 65536"
proof -
  let ?T = "master_time (gports c) p" and ?L = "node_time (gports c) p"
  have D: "int (usval ?T) - int (usval ?L) = D"
    using assms(3-6) by (simp add: master_time_def node_time_def usval_exact_sum)
  then have "\<bar>int (usval ?T) - int (usval ?L)\<bar> < 65536 * (4294967296 * 1000000000)" using assms(7) by simp
  from offset_registers[OF this, of "rtc c"] obtain h s n where
    o: "offset_write ?T ?L (rtc c) = rtc c @ [(RTC_OFFSET_S_H, h), (RTC_OFFSET_S_L, s), (RTC_OFFSET_NS, n), (RTC_CTRL, RTC_SET_CTRL_0), (RTC_CTRL, RTC_SET_OFFSET)]"
    "h = (if usval ?L \<le> usval ?T then 0 else 0x8000)" "unat n < 1000000000" "int (unat s * 1000000000 + unat n) = \<bar>D\<bar> div 65536"
    unfolding D by blast
  obtain m v where r: "clock_slave_sync_sm_recv_pss p c = Some (c\<lparr>ginst := css_inst (gports c) p (ginst c),
      rtc := rtc_latch (offset_write ?T ?L (rtc c)) @ v, css := m\<rparr>)"
    "css_ready (c\<lparr>ginst := css_inst (gports c) p (ginst c), css := m\<rparr>)"
    by (rule css_run[OF assms(1,2)])
  have "css_ready (c\<lparr>ginst := css_inst (gports c) p (ginst c), rtc := w, css := m\<rparr>)" for w
    using r(2) by (simp add: css_ready_def css_wf_def)
  then show ?thesis using r(1) o D unfolding rtc_latch_def by (auto intro!: exI[of _ h] exI[of _ s] exI[of _ n])
qed

definition started_clock :: "unit ClockCtx_scheme" where
  "started_clock = \<lparr>ginst = example_instance 246 1, gports = map (example_port 246 1) [0..<4], rtc = [],
     css = \<lparr>rcvdPSSyncCSS = False, rcvdLocalClockTickCSS = False, rcvdPSSyncPtrCSS = Null, css_state = CSS_INITIALIZING,
       css_last_state = CSS_INITIALIZING, lSyncReceiptTime = replicate 64 zero_ns, lSyncReceiptLocalTime = replicate 64 zero_ns,
       listHeadPeriod = 0, listTailPeriod = 63, isEmptyPeriod = True, clk_period = 8\<rparr>\<rparr>"

text \<open>A grandmaster whose time was 5 s and 9 ns, and 700 ns later still at the upstream node, when the local time was 1000 ns.\<close>

definition example_pss :: PortSyncSync where
  "example_pss = \<lparr>pss_domainNumber = 0, pss_localPortNumber = 2, pss_syncReceiptTimeoutTime = zero_ns,
     pss_followUpCorrectionField = \<lparr>subns = 0, nsec = 700, nsec_msb = 0\<rparr>, pss_sourcePortIdentity = \<lparr>clockIdentity = 7, portNumber = 1\<rparr>,
     pss_logMessageInterval = 0, pss_preciseOriginTimestamp = \<lparr>seconds_msb = 0, seconds_lsb = 5, nanoseconds = 9\<rparr>,
     pss_upstreamTxTime = \<lparr>subns = 0, nsec = 1000, nsec_msb = 0\<rparr>, pss_rateRatio = 1, pss_gmTimeBaseIndicator = 0,
     pss_lastGmPhaseChange = zero_ns, pss_lastGmFreqChange = 0\<rparr>"

lemma started_clock_delay: "link_delay (gports started_clock) example_pss = zero_ns"
proof -
  have "map (example_port 246 1) [0..<4] ! 1 = example_port 246 1 1" by (simp add: nth_map)
  moreover have "meanLinkDelay (example_port 246 1 1) = zero_ns" by (simp add: example_defs Let_def)
  ultimately show ?thesis by (simp add: link_delay_def example_pss_def started_clock_def)
qed

lemma started_clock_ready: "css_ready started_clock" "css_takes example_pss started_clock"
proof -
  show "css_ready started_clock"
    by (simp add: css_ready_def css_wf_def started_clock_def example_defs Let_def)
  show "css_takes example_pss started_clock"
    unfolding css_takes_def node_time_def started_clock_delay
    by (simp add: started_clock_def example_pss_def uscaledns_add_def check_overflow_def Let_def)
qed

theorem clock_set_witness:
  "\<exists>d h s n v. clock_slave_sync_sm_recv_pss example_pss started_clock = Some d \<and>
    rtc d = [(RTC_OFFSET_S_H, h), (RTC_OFFSET_S_L, s), (RTC_OFFSET_NS, n), (RTC_CTRL, RTC_SET_CTRL_0), (RTC_CTRL, RTC_SET_OFFSET)] @ v \<and>
    h = 0 \<and> int (unat s * 1000000000 + unat n) = 4999999709"
proof -
  have r: "rtc started_clock = []" by (simp add: started_clock_def)
  have u: "uscaledns_ptpmsgtimestamp (pss_preciseOriginTimestamp example_pss) = \<lparr>subns = 0, nsec = 5000000009, nsec_msb = 0\<rparr>"
    "pss_followUpCorrectionField example_pss = \<lparr>subns = 0, nsec = 700, nsec_msb = 0\<rparr>"
    "pss_upstreamTxTime example_pss = \<lparr>subns = 0, nsec = 1000, nsec_msb = 0\<rparr>"
    by (simp_all add: example_pss_def uscaledns_ptpmsgtimestamp_def)
  have a: "uscaledns_add \<lparr>subns = 0, nsec = 5000000009, nsec_msb = 0\<rparr> \<lparr>subns = 0, nsec = 700, nsec_msb = 0\<rparr> =
    \<lparr>subns = 0, nsec = 5000000709, nsec_msb = 0\<rparr>"
    by (simp add: uscaledns_add_def check_overflow_def Let_def)
  let ?D = "int (usval (uscaledns_ptpmsgtimestamp (pss_preciseOriginTimestamp example_pss)) + usval (pss_followUpCorrectionField example_pss)) -
    int (usval (pss_upstreamTxTime example_pss))"
  have x: "exact_sum (uscaledns_ptpmsgtimestamp (pss_preciseOriginTimestamp example_pss)) (pss_followUpCorrectionField example_pss)"
    "exact_sum (uscaledns_add (uscaledns_ptpmsgtimestamp (pss_preciseOriginTimestamp example_pss)) (pss_followUpCorrectionField example_pss))
      (link_delay (gports started_clock) example_pss)"
    "exact_sum (pss_upstreamTxTime example_pss) (link_delay (gports started_clock) example_pss)"
    "\<bar>?D\<bar> < 65536 * (2 ^ 32 * 1000000000)" "?D = 4999999709 * 65536"
    unfolding u a started_clock_delay by (simp_all add: exact_sum_def usval_def)
  show ?thesis
    using clock_set[OF started_clock_ready x(1,2,3) refl] x(4) unfolding r x(5) by auto
qed

end
