(* ===== verification/SiteSync_Props.thy ===== *)
theory SiteSync_Props
  imports SiteSync PortSyncSend_Props ClockSlaveSync_Props
begin

text \<open>
  What the SiteSyncSync machine does with the time: that of the slave port reaches the clock and every
  other master port, that of any other port nothing.
\<close>

section \<open>The machine of one port within the node\<close>

abbreviation (input) at_port :: "nat \<Rightarrow> 'a Site_scheme \<Rightarrow> PsssCtx" where
  "at_port i s \<equiv> \<lparr>sm = psss_sms s ! i, port = gports s ! i, inst = ginst s, eth = site_eth s, mdent = mdents s ! i, mdss = mdss_sms s ! i\<rparr>"

lemma ctx_eta [simp]: "\<lparr>sm = sm d, port = port d, inst = inst d, eth = eth d, mdent = mdent d, mdss = mdss d\<rparr> = (d :: PsssCtx)"
  by simp

definition site_arrays :: "'a Site_scheme \<Rightarrow> bool" where
  "site_arrays s \<longleftrightarrow> length (gports s) = N_PORTS \<and> length (mdents s) = N_PORTS \<and> length (psss_sms s) = N_PORTS \<and> length (mdss_sms s) = N_PORTS"

lemma psss_ctx_at: "site_arrays s \<Longrightarrow> i < N_PORTS \<Longrightarrow> psss_ctx i s = Some (at_port i s)"
  by (simp add: psss_ctx_def site_arrays_def rd_in)

lemma site_psss_at: "site_arrays s \<Longrightarrow> i < N_PORTS \<Longrightarrow> f (at_port i s) = Some d \<Longrightarrow> site_psss f i s = Some (psss_put i d s)"
  by (simp add: site_psss_def psss_ctx_at)

lemma psss_put_arrays [simp]: "site_arrays (psss_put i d s) = site_arrays s"
  by (simp add: psss_put_def site_arrays_def)

text \<open>What a port depends on besides its own variables.\<close>

definition same_relay_node :: "PerPTPInstanceGlobal \<Rightarrow> PerPTPInstanceGlobal \<Rightarrow> bool" where
  "same_relay_node g h \<longleftrightarrow> BEGIN h = BEGIN g \<and> instanceEnable h = instanceEnable g \<and> selectedState h = selectedState g \<and> thisClock h = thisClock g"

lemma psss_ready_node:
  assumes "psss_ready \<lparr>sm = m, port = q, inst = g, eth = e, mdent = d, mdss = t\<rparr>" "same_relay_node g h"
  shows "psss_ready \<lparr>sm = m, port = q, inst = h, eth = e', mdent = d', mdss = t'\<rparr>"
  using assms by (simp add: psss_ready_def same_relay_node_def)

lemma psss_forwards_node:
  assumes "same_relay_node g h" "psss_port q q'"
  shows "psss_forwards n \<lparr>sm = m', port = q', inst = h, eth = e', mdent = d', mdss = t'\<rparr> =
    psss_forwards n \<lparr>sm = m, port = q, inst = g, eth = e, mdent = d, mdss = t\<rparr>"
  using assms(1) psss_portD(1,2)[OF assms(2)] by (simp add: psss_forwards_def same_relay_node_def)

lemma mdss_node:
  assumes "same_relay_node g h" "psss_port q q'" "tx_wf e" "tx_wf e'"
  shows "mdss_ready (mdss_ctx \<lparr>sm = m', port = q', inst = h, eth = e', mdent = d, mdss = t\<rparr>) =
      mdss_ready (mdss_ctx \<lparr>sm = m, port = q, inst = g, eth = e, mdent = d, mdss = t\<rparr>)"
    "mdss_waiting r k (mdss_ctx \<lparr>sm = m', port = q', inst = h, eth = e', mdent = d, mdss = t\<rparr>) =
      mdss_waiting r k (mdss_ctx \<lparr>sm = m, port = q, inst = g, eth = e, mdent = d, mdss = t\<rparr>)"
  using assms(1,3,4) psss_portD(2,3)[OF assms(2)]
  by (simp_all add: mdss_ctx_def same_relay_node_def mdss_ready_def mdss_waiting_def mdss_on_def mdss_wf_def mdss_ptrs_def mdss_rest_def
    cong: MDSyncSendSMState.case_cong)

lemma request_for_port: "psss_port q q' \<Longrightarrow> request_for p q' cid = request_for p q cid"
  by (simp add: request_for_def psss_portD)

lemma psss_port_trans: "psss_port p q \<Longrightarrow> psss_port q r \<Longrightarrow> psss_port p r"
  unfolding psss_port_def by (elim exE) (rule exI, rule exI, rule exI, simp)

section \<open>All four ports\<close>

text \<open>Whether port \<open>i\<close> forwards the message \<open>p\<close>, and the port and the Sync frame it then sends.\<close>

definition forwards :: "PortSyncSync \<Rightarrow> 'a Site_scheme \<Rightarrow> nat \<Rightarrow> bool" where
  "forwards p s i \<longleftrightarrow> psss_forwards (pss_localPortNumber p) (at_port i s)"

definition request_at :: "PortSyncSync \<Rightarrow> 'a Site_scheme \<Rightarrow> nat \<Rightarrow> MDSyncSend" where
  "request_at p s i = request_for p (gports s ! i) (thisClock (ginst s))"

definition sync_at :: "PortSyncSync \<Rightarrow> 'a Site_scheme \<Rightarrow> nat \<Rightarrow> 16 word \<times> byte list" where
  "sync_at p s i = (thisPort (gports s ! i), sync_frame (sync_for (request_at p s i) (syncSequenceId (mdents s ! i))))"

text \<open>Every port is at rest, and those that forward \<open>p\<close> can send.\<close>

definition ports_ready :: "PortSyncSync \<Rightarrow> 'a Site_scheme \<Rightarrow> bool" where
  "ports_ready p s \<longleftrightarrow> site_arrays s \<and> tx_wf (site_eth s) \<and>
     (\<forall>i < N_PORTS. psss_ready (at_port i s) \<and> (forwards p s i \<longrightarrow> mdss_ready (mdss_ctx (at_port i s))))"

text \<open>The node \<open>t\<close> after the first \<open>k\<close> ports of the node \<open>s\<close> have run.\<close>

definition ports_forwarded :: "PortSyncSync \<Rightarrow> 'a Site_scheme \<Rightarrow> nat \<Rightarrow> 'a Site_scheme \<Rightarrow> bool" where
  "ports_forwarded p s k t \<longleftrightarrow> site_arrays t \<and> tx_wf (site_eth t) \<and> css t = css s \<and> rtc t = rtc s \<and> Site.more t = Site.more s \<and>
     (\<exists>x. ginst t = (ginst s)\<lparr>syncReceiptTimeoutTime := x\<rparr>) \<and>
     sends (map (sync_at p s) (filter (forwards p s) [0..<k])) (site_eth s) (site_eth t) \<and>
     (\<forall>j < N_PORTS. psss_ready (at_port j t) \<and> psss_port (gports s ! j) (gports t ! j) \<and>
       (if j < k \<and> forwards p s j then mdss_waiting (request_at p s j) (syncSequenceId (mdents s ! j)) (mdss_ctx (at_port j t))
        else mdss_sms t ! j = mdss_sms s ! j \<and> mdents t ! j = mdents s ! j))"

lemma ports_forwardedD:
  assumes "ports_forwarded p s k t"
  shows "site_arrays t" "tx_wf (site_eth t)" "css t = css s" "rtc t = rtc s" "Site.more t = Site.more s"
    "\<exists>x. ginst t = (ginst s)\<lparr>syncReceiptTimeoutTime := x\<rparr>"
    "sends (map (sync_at p s) (filter (forwards p s) [0..<k])) (site_eth s) (site_eth t)"
    "j < N_PORTS \<Longrightarrow> psss_ready (at_port j t)" "j < N_PORTS \<Longrightarrow> psss_port (gports s ! j) (gports t ! j)"
    "j < N_PORTS \<Longrightarrow> if j < k \<and> forwards p s j then mdss_waiting (request_at p s j) (syncSequenceId (mdents s ! j)) (mdss_ctx (at_port j t))
        else mdss_sms t ! j = mdss_sms s ! j \<and> mdents t ! j = mdents s ! j"
  using assms unfolding ports_forwarded_def by simp_all

lemma ports_done_node: "ports_forwarded p s k t \<Longrightarrow> same_relay_node (ginst s) (ginst t)"
  by (auto simp: ports_forwarded_def same_relay_node_def)

lemma ports_done_start: "ports_ready p s \<Longrightarrow> ports_forwarded p s 0 s"
  unfolding ports_ready_def ports_forwarded_def
  by (auto simp: sends_nil intro: exI[of _ "syncReceiptTimeoutTime (ginst s)"])

lemma psss_put_at:
  assumes "site_arrays s" "i < N_PORTS" "j < N_PORTS"
  shows "psss_sms (psss_put i d s) ! j = (if j = i then sm d else psss_sms s ! j)"
    "gports (psss_put i d s) ! j = (if j = i then port d else gports s ! j)"
    "mdents (psss_put i d s) ! j = (if j = i then mdent d else mdents s ! j)"
    "mdss_sms (psss_put i d s) ! j = (if j = i then mdss d else mdss_sms s ! j)"
    "ginst (psss_put i d s) = inst d" "site_eth (psss_put i d s) = eth d"
  using assms by (simp_all add: psss_put_def site_arrays_def nth_list_update)

lemma psss_put_keeps: "css (psss_put i d s) = css s" "rtc (psss_put i d s) = rtc s" "Site.more (psss_put i d s) = Site.more s"
  by (simp_all add: psss_put_def)

lemma ports_done_step:
  assumes r: "ports_ready p s" and t: "ports_forwarded p s k t" and k: "k < N_PORTS"
  shows "ok (site_psss (port_sync_sync_send_sm_recv_pss rnd ts p) k t) (ports_forwarded p s (Suc k))"
proof -
  have a: "site_arrays t" "site_arrays s" using t r by (simp_all add: ports_forwarded_def ports_ready_def)
  have n: "same_relay_node (ginst s) (ginst t)" by (rule ports_done_node[OF t])
  have tk: "psss_ready (at_port k t)" "psss_port (gports s ! k) (gports t ! k)" "mdss_sms t ! k = mdss_sms s ! k" "mdents t ! k = mdents s ! k"
    "tx_wf (site_eth t)" "tx_wf (site_eth s)"
    using t r k unfolding ports_forwarded_def ports_ready_def by auto
  have f: "psss_forwards (pss_localPortNumber p) (at_port k t) = forwards p s k"
    unfolding forwards_def by (rule psss_forwards_node[OF n tk(2)])
  have "\<exists>d x. port_sync_sync_send_sm_recv_pss rnd ts p (at_port k t) = Some d \<and> psss_ready d \<and> psss_port (gports t ! k) (port d) \<and>
      inst d = (ginst t)\<lparr>syncReceiptTimeoutTime := x\<rparr> \<and> tx_wf (eth d) \<and>
      sends (if forwards p s k then [sync_at p s k] else []) (site_eth t) (eth d) \<and>
      (if forwards p s k then mdss_waiting (request_at p s k) (syncSequenceId (mdents s ! k)) (mdss_ctx d)
       else mdss d = mdss_sms s ! k \<and> mdent d = mdents s ! k)"
  proof (cases "forwards p s k")
    case True
    then have "mdss_ready (mdss_ctx (at_port k s))" using r k by (simp add: ports_ready_def)
    then have "mdss_ready (mdss_ctx (at_port k t))"
      unfolding tk(3,4) by (rule iffD2[OF mdss_node(1)[OF n tk(2) tk(6,5)]])
    moreover have q: "request_for p (gports t ! k) (thisClock (ginst t)) = request_at p s k"
      using request_for_port[OF tk(2)] n by (simp add: request_at_def same_relay_node_def)
    ultimately obtain d where d: "port_sync_sync_send_sm_recv_pss rnd ts p (at_port k t) = Some d" "psss_ready d"
      "psss_port (port (at_port k t)) (port d)" "inst d = (inst (at_port k t))\<lparr>syncReceiptTimeoutTime := pss_syncReceiptTimeoutTime p\<rparr>"
      "mdss_waiting (request_for p (port (at_port k t)) (thisClock (inst (at_port k t)))) (syncSequenceId (mdent (at_port k t))) (mdss_ctx d)"
      "sends [(thisPort (port (at_port k t)), sync_frame (sync_for (request_for p (port (at_port k t)) (thisClock (inst (at_port k t)))) (syncSequenceId (mdent (at_port k t)))))]
        (eth (at_port k t)) (eth d)"
      using f True by (elim psss_forward[OF tk(1), rotated]) simp_all
    have "tx_wf (eth d)" using d(6) by (auto simp: sends_def)
    then show ?thesis using d True q tk(4)
      by (intro exI[of _ d] exI[of _ "pss_syncReceiptTimeoutTime p"]) (simp add: sync_at_def psss_portD(1)[OF tk(2)])
  next
    case False
    then have "\<not> psss_forwards (pss_localPortNumber p) (at_port k t)" using f by simp
    then obtain d where d: "port_sync_sync_send_sm_recv_pss rnd ts p (at_port k t) = Some d" "psss_ready d"
      "psss_port (port (at_port k t)) (port d)" "inst d = inst (at_port k t)" "eth d = eth (at_port k t)" "mdent d = mdent (at_port k t)"
      "mdss d = mdss (at_port k t)"
      by (rule psss_silent[OF tk(1)])
    then show ?thesis using False tk(3-5)
      by (intro exI[of _ d] exI[of _ "syncReceiptTimeoutTime (ginst t)"]) (simp add: sends_nil)
  qed
  then obtain d x where d: "port_sync_sync_send_sm_recv_pss rnd ts p (at_port k t) = Some d" "psss_ready d" "psss_port (gports t ! k) (port d)"
      "inst d = (ginst t)\<lparr>syncReceiptTimeoutTime := x\<rparr>" "tx_wf (eth d)"
      "sends (if forwards p s k then [sync_at p s k] else []) (site_eth t) (eth d)"
      "if forwards p s k then mdss_waiting (request_at p s k) (syncSequenceId (mdents s ! k)) (mdss_ctx d)
       else mdss d = mdss_sms s ! k \<and> mdent d = mdents s ! k"
    by blast
  have nd: "same_relay_node (ginst t) (inst d)" using d(4) by (simp add: same_relay_node_def)
  have "ports_forwarded p s (Suc k) (psss_put k d t)"
    unfolding ports_forwarded_def
  proof (intro conjI allI impI)
    show "\<exists>x. ginst (psss_put k d t) = (ginst s)\<lparr>syncReceiptTimeoutTime := x\<rparr>"
      using d(4) t unfolding ports_forwarded_def by (auto simp: psss_put_def)
    show "sends (map (sync_at p s) (filter (forwards p s) [0..<Suc k])) (site_eth s) (site_eth (psss_put k d t))"
      using sends_append[of _ "site_eth s" "site_eth t", OF _ d(6)] t unfolding ports_forwarded_def by (auto simp: psss_put_def split: if_splits)
  next
    fix j :: nat assume j: "j < N_PORTS"
    have tj: "psss_ready (at_port j t)" "psss_port (gports s ! j) (gports t ! j)"
      "if j < k \<and> forwards p s j then mdss_waiting (request_at p s j) (syncSequenceId (mdents s ! j)) (mdss_ctx (at_port j t))
        else mdss_sms t ! j = mdss_sms s ! j \<and> mdents t ! j = mdents s ! j"
      using t j unfolding ports_forwarded_def by auto
    show "psss_ready (at_port j (psss_put k d t))"
      using d(2) psss_ready_node[OF tj(1) nd] by (cases "j = k") (simp_all add: psss_put_at[OF a(1) k j] psss_put_at[OF a(1) k k])
    show "psss_port (gports s ! j) (gports (psss_put k d t) ! j)"
      using psss_port_trans[OF tk(2) d(3)] tj(2) by (simp add: psss_put_at[OF a(1) k j])
    show "if j < Suc k \<and> forwards p s j then mdss_waiting (request_at p s j) (syncSequenceId (mdents s ! j)) (mdss_ctx (at_port j (psss_put k d t)))
        else mdss_sms (psss_put k d t) ! j = mdss_sms s ! j \<and> mdents (psss_put k d t) ! j = mdents s ! j"
    proof (cases "j = k")
      case True
      then show ?thesis using d(7) by (simp add: psss_put_at[OF a(1) k k])
    next
      case False
      have "psss_port (gports t ! j) (gports t ! j)" by blast
      from tj(3) False iffD2[OF mdss_node(2)[OF nd this tk(5) d(5)]] show ?thesis
        by (auto simp: psss_put_at[OF a(1) k j] less_Suc_eq split: if_splits)
    qed
  qed (use a d(5) t in \<open>simp_all add: psss_put_keeps psss_put_at[OF a(1) k k] ports_forwarded_def\<close>)
  then show ?thesis using site_psss_at[OF a(1) k, of "port_sync_sync_send_sm_recv_pss rnd ts p", OF d(1)] by simp
qed

lemma ports_run:
  assumes "ports_ready p s"
  shows "ok (for_each (\<lambda>i. site_psss (port_sync_sync_send_sm_recv_pss (rnd i) ts p) i) [0..<N_PORTS] s) (ports_forwarded p s N_PORTS)"
  by (rule ok_for_range[where I = "ports_forwarded p s"]) (use assms in \<open>auto intro: ports_done_start ports_done_step\<close>)

section \<open>The machine of the node\<close>

definition sss_ready :: "'a SssSite_scheme \<Rightarrow> bool" where
  "sss_ready s \<longleftrightarrow> \<not> BEGIN (ginst s) \<and> instanceEnable (ginst s) \<and> sss_last_state (sss s) = sss_state (sss s) \<and>
     sss_state (sss s) \<in> {SSS_INITIALIZING, SSS_RECEIVING_SYNC} \<and> rcvdPSSyncPtrSSS (sss s) \<noteq> Dangling \<and> txPSSyncPtrSSS (sss s) \<noteq> Dangling"

text \<open>Whether the message is from the slave port, 0 standing for the clock of the node itself.\<close>

definition from_slave :: "PortSyncSync \<Rightarrow> PerPTPInstanceGlobal \<Rightarrow> bool" where
  "from_slave p g \<longleftrightarrow> selectedState g ! unat (pss_localPortNumber p) = SLAVE_PORT \<and> gmPresent g"

text \<open>The node after the message \<open>p\<close> from the slave port.\<close>

definition site_done :: "PortSyncSync \<Rightarrow> 'a SssSite_scheme \<Rightarrow> 'a SssSite_scheme \<Rightarrow> bool" where
  "site_done p s t \<longleftrightarrow> site_arrays t \<and> tx_wf (site_eth t) \<and> css_ready t \<and> sss_ready t \<and> SssSite.more t = SssSite.more s \<and>
     (\<exists>v. rtc t = rtc_latch (offset_write (master_time (gports s) p) (node_time (gports s) p) (rtc s)) @ v) \<and>
     (\<exists>x. ginst t = (css_inst (gports s) p (ginst s))\<lparr>syncReceiptTimeoutTime := x, parentLogSyncInterval := pss_logMessageInterval p\<rparr>) \<and>
     sends (map (sync_at p s) (filter (forwards p s) [0..<N_PORTS])) (site_eth s) (site_eth t) \<and>
     (\<forall>j < N_PORTS. psss_ready (at_port j t) \<and> psss_port (gports s ! j) (gports t ! j) \<and>
       (if forwards p s j then mdss_waiting (request_at p s j) (syncSequenceId (mdents s ! j)) (mdss_ctx (at_port j t))
        else mdss_sms t ! j = mdss_sms s ! j \<and> mdents t ! j = mdents s ! j))"

lemma sss_more:
  fixes s t :: "'a SssSite_scheme"
  assumes "Site.more t = Site.more s"
  shows "sss t = sss s" "SssSite.more t = SssSite.more s"
  using assms by (cases s; cases t; simp)+

lemma sss_message:
  assumes s: "sss_ready s" and l: "unat (pss_localPortNumber p) < length (selectedState (ginst s))"
  shows "site_sync_sync_sm_recv_pss rnd ts p s =
    (let s0 = s\<lparr>sss := (sss s)\<lparr>rcvdPSSyncSSS := True, rcvdPSSyncPtrSSS := Live p\<rparr>\<rparr> in
     if from_slave p (ginst s) then
       sm_loop (sss_body rnd ts) (s0\<lparr>sss := (sss s0)\<lparr>sss_state := SSS_RECEIVING_SYNC,
         sss_last_state := (if sss_state (sss s) = SSS_INITIALIZING then SSS_INITIALIZING else SSS_REACTION)\<rparr>\<rparr>)
     else Some s0)"
proof -
  define s0 where "s0 = s\<lparr>sss := (sss s)\<lparr>rcvdPSSyncSSS := True, rcvdPSSyncPtrSSS := Live p\<rparr>\<rparr>"
  define s1 where "s1 = s0\<lparr>sss := (sss s0)\<lparr>sss_state := SSS_RECEIVING_SYNC,
    sss_last_state := (if sss_state (sss s) = SSS_INITIALIZING then SSS_INITIALIZING else SSS_REACTION)\<rparr>\<rparr>"
  have r: "site_sync_sync_sm_recv_pss rnd ts p s = sm_loop (sss_body rnd ts) s0"
    using s cfree_ok[of "rcvdPSSyncPtrSSS (sss s)"]
    by (auto simp: site_sync_sync_sm_recv_pss_def site_sync_sync_sm_run_def sss_goto_def sss_all_state_transition_def s0_def sss_ready_def)
  have "sss_body rnd ts s0 = (if from_slave p (ginst s) then Some (s1, True) else Some (s0, False))"
    using s l by (auto simp: sss_body_def Let_def sss_goto_def s0_def s1_def sss_ready_def sss_initializing_transition_def
      sss_receiving_again_def from_slave_def rd_in)
  then have "sm_loop (sss_body rnd ts) s0 = (if from_slave p (ginst s) then sm_loop (sss_body rnd ts) s1 else Some s0)"
    using sm_loop_turn[of "sss_body rnd ts" s0 s1] sm_loop_stop[of "sss_body rnd ts" s0 s0] by simp
  then show ?thesis unfolding r s1_def s0_def Let_def by simp
qed

lemma site_run:
  assumes s: "sss_ready s" and c: "css_ready s" "css_takes p s" and q: "ports_ready p s"
    and l: "unat (pss_localPortNumber p) < length (selectedState (ginst s))" and f: "from_slave p (ginst s)"
  obtains t where "site_sync_sync_sm_recv_pss rnd ts p s = Some t" "site_done p s t"
proof -
  define m where "m = (sss s)\<lparr>rcvdPSSyncPtrSSS := Live p, sss_state := SSS_RECEIVING_SYNC, sss_last_state := SSS_RECEIVING_SYNC,
    rcvdPSSyncSSS := False, txPSSyncPtrSSS := Live p\<rparr>"
  define s1 where "s1 = s\<lparr>sss := (sss s)\<lparr>rcvdPSSyncSSS := True, rcvdPSSyncPtrSSS := Live p, sss_state := SSS_RECEIVING_SYNC,
    sss_last_state := (if sss_state (sss s) = SSS_INITIALIZING then SSS_INITIALIZING else SSS_REACTION)\<rparr>\<rparr>"
  let ?s2 = "s\<lparr>sss := m\<rparr>"
  have c2: "css_ready ?s2" "css_takes p ?s2" using c by (simp_all add: css_ready_def css_wf_def css_takes_def)
  obtain n v where n: "clock_slave_sync_sm_recv_pss p ?s2 = Some (?s2\<lparr>ginst := css_inst (gports ?s2) p (ginst ?s2),
      rtc := rtc_latch (offset_write (master_time (gports ?s2) p) (node_time (gports ?s2) p) (rtc ?s2)) @ v, css := n\<rparr>)"
    "css_ready (?s2\<lparr>ginst := css_inst (gports ?s2) p (ginst ?s2), css := n\<rparr>)"
    by (rule css_run[OF c2])
  let ?s3 = "?s2\<lparr>ginst := css_inst (gports s) p (ginst s),
      rtc := rtc_latch (offset_write (master_time (gports s) p) (node_time (gports s) p) (rtc s)) @ v, css := n\<rparr>"
  have g: "same_relay_node (ginst s) (css_inst (gports s) p (ginst s))" by (simp add: same_relay_node_def css_inst_keeps)
  have fw: "forwards p ?s3 i = forwards p s i" for i
    unfolding forwards_def by simp (rule psss_forwards_node[OF g psss_portI(1)])
  have "ports_ready p ?s3"
    unfolding ports_ready_def
  proof (intro conjI allI impI)
    fix i :: nat assume i: "i < N_PORTS"
    have "psss_ready (at_port i s)" using q i by (simp add: ports_ready_def)
    from psss_ready_node[OF this g] show "psss_ready (at_port i ?s3)" by simp
    assume "forwards p ?s3 i"
    then have "mdss_ready (mdss_ctx (at_port i s))" using q i fw by (simp add: ports_ready_def)
    moreover have "psss_port (gports s ! i) (gports s ! i)" "tx_wf (site_eth s)" using q by (auto simp: ports_ready_def)
    ultimately show "mdss_ready (mdss_ctx (at_port i ?s3))"
      using iffD2[OF mdss_node(1)[OF g]] by simp
  qed (use q in \<open>simp_all add: ports_ready_def site_arrays_def\<close>)
  then obtain t where t: "for_each (\<lambda>i. site_psss (port_sync_sync_send_sm_recv_pss (rnd i) ts p) i) [0..<N_PORTS] ?s3 = Some t"
    "ports_forwarded p ?s3 N_PORTS t"
    using ports_run[of p ?s3 rnd ts] by (auto simp: ok_iff)
  note d = ports_forwardedD[OF t(2)]
  have mt: "sss t = m" "SssSite.more t = SssSite.more s" using sss_more[OF d(5)] by simp_all
  have rq: "request_at p ?s3 j = request_at p s j" "sync_at p ?s3 j = sync_at p s j" for j
    by (simp_all add: request_at_def sync_at_def css_inst_keeps)
  define u where "u = t\<lparr>ginst := (ginst t)\<lparr>parentLogSyncInterval := pss_logMessageInterval p\<rparr>\<rparr>"
  have gu: "same_relay_node (ginst t) (ginst u)" "same_relay_node (ginst s) (ginst u)"
    using d(6) by (auto simp: u_def same_relay_node_def css_inst_keeps)
  have su: "css_ready u" "sss_ready u"
    using n(2) s gu(2) mt(1) d(3) by (auto simp: u_def css_ready_def css_wf_def sss_ready_def m_def same_relay_node_def)
  have "txPSSync rnd ts ?s2 = Some t" using n(1) t(1) by (simp add: txPSSync_def m_def)
  moreover have "cfree (txPSSyncPtrSSS (sss s)) \<noteq> None" using s cfree_ok by (auto simp: sss_ready_def)
  moreover have "rcvdPSSyncPtrSSS (sss t) = Live p" using mt(1) by (simp add: m_def)
  ultimately have ru: "sss_receiving_action rnd ts (s1\<lparr>sss := (sss s1)\<lparr>sss_last_state := SSS_RECEIVING_SYNC\<rparr>\<rparr>) = Some u"
    by (auto simp: sss_receiving_action_def setPSSyncSend_def u_def m_def s1_def)
  have "sss_receiving_again u = Some False"
    using mt(1) l gu(2) by (simp add: sss_receiving_again_def u_def m_def same_relay_node_def rd_in)
  moreover have "sss_goto SSS_RECEIVING_SYNC u = u" using mt(1) by (simp add: sss_goto_def u_def m_def)
  moreover have "sss_state (sss u) = SSS_RECEIVING_SYNC" "sss_last_state (sss u) = SSS_RECEIVING_SYNC" using mt(1) by (simp_all add: u_def m_def)
  moreover have "sss_state (sss s1) = SSS_RECEIVING_SYNC" "sss_last_state (sss s1) \<noteq> SSS_RECEIVING_SYNC" by (simp_all add: s1_def)
  ultimately have "sss_body rnd ts s1 = Some (u, False)"
    using ru by (simp add: sss_body_def)
  then have "site_sync_sync_sm_recv_pss rnd ts p s = Some u"
    unfolding sss_message[OF s l] using f by (simp add: s1_def Let_def sm_loop_stop[of "sss_body rnd ts"])
  moreover have "site_done p s u"
    unfolding site_done_def
  proof (intro conjI allI impI)
    have eu: "psss_sms u = psss_sms t" "gports u = gports t" "mdents u = mdents t" "mdss_sms u = mdss_sms t" "site_eth u = site_eth t"
      by (simp_all add: u_def)
    show "\<exists>x. ginst u = (css_inst (gports s) p (ginst s))\<lparr>syncReceiptTimeoutTime := x, parentLogSyncInterval := pss_logMessageInterval p\<rparr>"
      using d(6) by (auto simp: u_def)
    have "forwards p ?s3 = forwards p s" "sync_at p ?s3 = sync_at p s" by (rule ext, rule fw) (rule ext, rule rq(2))
    then show "sends (map (sync_at p s) (filter (forwards p s) [0..<N_PORTS])) (site_eth s) (site_eth u)"
      using d(7) by (simp add: eu)
    show "\<exists>v. rtc u = rtc_latch (offset_write (master_time (gports s) p) (node_time (gports s) p) (rtc s)) @ v"
      using d(4) by (simp add: u_def)
    fix j :: nat assume j: "j < N_PORTS"
    have w: "mdss_waiting r k (mdss_ctx (at_port j u))" if "mdss_waiting r k (mdss_ctx (at_port j t))" for r k
      using that unfolding eu by (rule iffD2[OF mdss_node(2)[OF gu(1) psss_portI(1) d(2,2)]])
    show "if forwards p s j then mdss_waiting (request_at p s j) (syncSequenceId (mdents s ! j)) (mdss_ctx (at_port j u))
        else mdss_sms u ! j = mdss_sms s ! j \<and> mdents u ! j = mdents s ! j"
      using d(10)[OF j] w j unfolding fw rq by (auto simp: eu split: if_splits)
    show "psss_ready (at_port j u)" using psss_ready_node[OF d(8)[OF j] gu(1)] by (simp add: u_def)
    show "psss_port (gports s ! j) (gports u ! j)" using d(9)[OF j] by (simp add: u_def)
  qed (use su d(1,2) mt(2) in \<open>simp_all add: u_def site_arrays_def\<close>)
  ultimately show thesis by (rule that)
qed

end
