(* ===== verification/SyncReceive_Props.thy ===== *)
theory SyncReceive_Props
  imports SyncReceive SiteSync_Props
begin

text \<open>
  The relay of the time through a node: a Sync message and its Follow_Up on the slave port set the
  clock and leave on every other master port.
\<close>

section \<open>What is passed up\<close>

definition timeout_interval :: "PerPortGlobal \<Rightarrow> 64 word \<Rightarrow> UScaledNs" where
  "timeout_interval q k = \<lparr>subns = 0, nsec = ucast (syncReceiptTimeout q) * ONE_SEC_NS * k, nsec_msb = 0\<rparr>"

definition pss_of :: "PortSyncSync \<Rightarrow> PerPortGlobal \<Rightarrow> MDSyncReceive \<Rightarrow> UScaledNs \<Rightarrow> 64 word \<Rightarrow> PortSyncSync" where
  "pss_of junk q m ts k = junk\<lparr>pss_localPortNumber := thisPort q, pss_domainNumber := sr_domainNumber m,
     pss_followUpCorrectionField := sr_followUpCorrectionField m, pss_sourcePortIdentity := sr_sourcePortIdentity m,
     pss_logMessageInterval := sr_logMessageInterval m, pss_preciseOriginTimestamp := sr_preciseOriginTimestamp m,
     pss_upstreamTxTime := sr_upstreamTxTime m, pss_syncReceiptTimeoutTime := uscaledns_add ts (timeout_interval q k), pss_rateRatio := 1\<rparr>"

text \<open>What the node \<open>t\<close> has done with the message \<open>p\<close> that came into the node \<open>s\<close>.\<close>

definition relayed :: "PortSyncSync \<Rightarrow> 'a SssSite_scheme \<Rightarrow> 'b SssSite_scheme \<Rightarrow> bool" where
  "relayed p s t \<longleftrightarrow> site_arrays t \<and> tx_wf (site_eth t) \<and> css_ready t \<and> sss_ready t \<and> same_relay_node (ginst s) (ginst t) \<and>
     (\<exists>v. rtc t = rtc_latch (offset_write (master_time (gports s) p) (node_time (gports s) p) (rtc s)) @ v) \<and>
     sends (map (sync_at p s) (filter (forwards p s) [0..<N_PORTS])) (site_eth s) (site_eth t) \<and>
     (\<forall>j < N_PORTS. psss_ready (at_port j t) \<and> psss_port (gports s ! j) (gports t ! j) \<and>
       (if forwards p s j then mdss_waiting (request_at p s j) (syncSequenceId (mdents s ! j)) (mdss_ctx (at_port j t))
        else mdss_sms t ! j = mdss_sms s ! j \<and> mdents t ! j = mdents s ! j))"

text \<open>Two nodes that differ in what does not matter to the relay.\<close>

definition same_site :: "'a SssSite_scheme \<Rightarrow> 'b SssSite_scheme \<Rightarrow> bool" where
  "same_site s t \<longleftrightarrow> same_relay_node (ginst s) (ginst t) \<and> gmPresent (ginst t) = gmPresent (ginst s) \<and> length (gports t) = length (gports s) \<and>
     (\<forall>j < length (gports s). psss_port (gports s ! j) (gports t ! j) \<and> syncLocked (gports t ! j) = syncLocked (gports s ! j)) \<and>
     mdents t = mdents s \<and> site_eth t = site_eth s \<and> psss_sms t = psss_sms s \<and> mdss_sms t = mdss_sms s \<and> css t = css s \<and> rtc t = rtc s \<and> sss t = sss s"

lemma same_siteD:
  assumes "same_site s t"
  shows "same_relay_node (ginst s) (ginst t)" "length (gports t) = length (gports s)" "mdents t = mdents s" "site_eth t = site_eth s"
  "psss_sms t = psss_sms s" "mdss_sms t = mdss_sms s" "css t = css s" "rtc t = rtc s" "sss t = sss s"
  using assms by (simp_all add: same_site_def)

lemma same_port: "same_site s t \<Longrightarrow> site_arrays s \<Longrightarrow> j < N_PORTS \<Longrightarrow> psss_port (gports s ! j) (gports t ! j)"
  by (simp add: same_site_def site_arrays_def)

lemma same_link_delay:
  assumes "same_site s t" "unat (pss_localPortNumber p) \<le> length (gports s)"
  shows "link_delay (gports t) p = link_delay (gports s) p"
proof -
  have "pss_localPortNumber p \<noteq> 0 \<Longrightarrow> unat (pss_localPortNumber p) - 1 < length (gports s)"
    using assms(2) by (metis One_nat_def Suc_pred' le_eq_less_or_eq less_Suc_eq_le not_less_eq unat_gt_0)
  then show ?thesis using assms(1) psss_portD(5) by (auto simp: link_delay_def same_site_def)
qed

lemma same_forwards: "same_site s t \<Longrightarrow> site_arrays s \<Longrightarrow> j < N_PORTS \<Longrightarrow> forwards p t j = forwards p s j"
  unfolding forwards_def same_siteD by (rule psss_forwards_node[OF same_siteD(1) same_port])

lemma same_request: "same_site s t \<Longrightarrow> site_arrays s \<Longrightarrow> j < N_PORTS \<Longrightarrow> request_at p t j = request_at p s j"
  using request_for_port[OF same_port[of s t j]] same_siteD(1)[of s t] by (simp add: request_at_def same_relay_node_def)

lemma same_css:
  assumes "same_site s t"
  shows "css_ready s \<Longrightarrow> css_ready t" "css_takes p s \<Longrightarrow> css_takes p t"
  using same_siteD[OF assms] same_link_delay[OF assms, of p] by (auto simp: css_ready_def css_wf_def css_takes_def same_relay_node_def node_time_def)

lemma same_sss: "same_site s t \<Longrightarrow> sss_ready s \<Longrightarrow> sss_ready t"
  using same_siteD[of s t] by (simp add: sss_ready_def same_relay_node_def)

lemma same_ports_ready:
  assumes same: "same_site s t" and r: "ports_ready p s"
  shows "ports_ready p t"
  unfolding ports_ready_def
proof (intro conjI allI impI)
  note parts = same_siteD[OF same]
  have a: "site_arrays s" using r by (simp add: ports_ready_def)
  then show "site_arrays t" using parts by (simp add: site_arrays_def)
  show "tx_wf (site_eth t)" using r parts by (simp add: ports_ready_def)
  fix j :: nat assume j: "j < N_PORTS"
  have q: "psss_port (gports s ! j) (gports t ! j)" by (rule same_port[OF same a j])
  have l: "syncLocked (gports t ! j) = syncLocked (gports s ! j)" using same a j by (simp add: same_site_def site_arrays_def)
  have "psss_ready (at_port j s)" using r j by (simp add: ports_ready_def)
  then show "psss_ready (at_port j t)"
    using psss_portD(1)[OF q] l parts(1) unfolding parts by (simp add: psss_ready_def same_relay_node_def)
  assume "forwards p t j"
  then have "mdss_ready (mdss_ctx (at_port j s))" using r j same_forwards[OF same a j] by (simp add: ports_ready_def)
  moreover have "tx_wf (site_eth s)" using r by (simp add: ports_ready_def)
  ultimately show "mdss_ready (mdss_ctx (at_port j t))"
    unfolding parts using iffD2[OF mdss_node(1)[OF parts(1) q]] by blast
qed

lemma site_done_port:
  assumes "site_done p s t" "j < N_PORTS"
  shows "if forwards p s j then mdss_waiting (request_at p s j) (syncSequenceId (mdents s ! j)) (mdss_ctx (at_port j t))
        else mdss_sms t ! j = mdss_sms s ! j \<and> mdents t ! j = mdents s ! j"
  using assms unfolding site_done_def by simp

lemma relayed_port:
  assumes "relayed p s t" "j < N_PORTS"
  shows "psss_ready (at_port j t)" "psss_port (gports s ! j) (gports t ! j)"
    "if forwards p s j then mdss_waiting (request_at p s j) (syncSequenceId (mdents s ! j)) (mdss_ctx (at_port j t))
     else mdss_sms t ! j = mdss_sms s ! j \<and> mdents t ! j = mdents s ! j"
  using assms unfolding relayed_def by auto

lemma site_relayed:
  assumes d: "site_done p s t"
  shows "relayed p s t"
  unfolding relayed_def
proof (intro conjI allI impI)
  show "same_relay_node (ginst s) (ginst t)" using d by (auto simp: site_done_def same_relay_node_def css_inst_keeps)
  fix j :: nat assume j: "j < N_PORTS"
  show "if forwards p s j then mdss_waiting (request_at p s j) (syncSequenceId (mdents s ! j)) (mdss_ctx (at_port j t))
      else mdss_sms t ! j = mdss_sms s ! j \<and> mdents t ! j = mdents s ! j"
    by (rule site_done_port[OF d j])
qed (use d in \<open>simp_all add: site_done_def\<close>)

lemma relayed_same:
  assumes same: "same_site s t" and a: "site_arrays s" "unat (pss_localPortNumber p) \<le> length (gports s)" and d: "relayed p t u"
  shows "relayed p s u"
  unfolding relayed_def
proof (intro conjI allI impI)
  note parts = same_siteD[OF same]
  have ld: "link_delay (gports t) p = link_delay (gports s) p" by (rule same_link_delay[OF same a(2)])
  have f: "filter (forwards p t) [0..<N_PORTS] = filter (forwards p s) [0..<N_PORTS]"
    using same_forwards[OF same a(1)] by (intro filter_cong) simp_all
  have q: "sync_at p t j = sync_at p s j" if "j < N_PORTS" for j
    using same_request[OF same a(1) that] parts(3) psss_portD(1)[OF same_port[OF same a(1) that]] by (simp add: sync_at_def)
  have m: "map (sync_at p t) (filter (forwards p t) [0..<N_PORTS]) = map (sync_at p s) (filter (forwards p s) [0..<N_PORTS])"
    unfolding f using q by (intro map_cong) auto
  show "sends (map (sync_at p s) (filter (forwards p s) [0..<N_PORTS])) (site_eth s) (site_eth u)"
    using d parts(4) unfolding relayed_def m by simp
  show "\<exists>v. rtc u = rtc_latch (offset_write (master_time (gports s) p) (node_time (gports s) p) (rtc s)) @ v"
    using d parts(8) ld unfolding relayed_def master_time_def node_time_def by simp
  show "same_relay_node (ginst s) (ginst u)"
    using d parts(1) by (simp add: relayed_def same_relay_node_def)
  fix j :: nat assume j: "j < N_PORTS"
  note dj = relayed_port[OF d j]
  show "psss_ready (at_port j u)" by (rule dj(1))
  show "psss_port (gports s ! j) (gports u ! j)" by (rule psss_port_trans[OF same_port[OF same a(1) j] dj(2)])
  show "if forwards p s j then mdss_waiting (request_at p s j) (syncSequenceId (mdents s ! j)) (mdss_ctx (at_port j u))
      else mdss_sms u ! j = mdss_sms s ! j \<and> mdents u ! j = mdents s ! j"
    using dj(3) parts(3,6) unfolding same_forwards[OF same a(1) j] same_request[OF same a(1) j]
    by (auto split: if_splits)
qed (use d in \<open>simp_all add: relayed_def\<close>)

lemma same_relayed:
  assumes "same_site s t" "site_arrays s" "unat (pss_localPortNumber p) \<le> length (gports s)" "site_done p t u"
  shows "relayed p s u"
  by (rule relayed_same[OF assms(1-3) site_relayed[OF assms(4)]])

lemma relayed_node:
  assumes r: "relayed p s t" and n: "same_relay_node (ginst t) (ginst u)" and e: "sss u = sss t" "css u = css t" "gports u = gports t" "mdents u = mdents t"
    "site_eth u = site_eth t" "psss_sms u = psss_sms t" "mdss_sms u = mdss_sms t" "rtc u = rtc t"
  shows "relayed p s u"
  unfolding relayed_def
proof (intro conjI allI impI)
  have "tx_wf (site_eth t)" "tx_wf (site_eth u)" using r e by (simp_all add: relayed_def)
  note node = mdss_node(2)[OF n psss_portI(1) this]
  fix j :: nat assume j: "j < N_PORTS"
  note rj = relayed_port[OF r j]
  show "psss_ready (at_port j u)" using psss_ready_node[OF rj(1) n] e by simp
  show "psss_port (gports s ! j) (gports u ! j)" using rj(2) e by simp
  show "if forwards p s j then mdss_waiting (request_at p s j) (syncSequenceId (mdents s ! j)) (mdss_ctx (at_port j u))
     else mdss_sms u ! j = mdss_sms s ! j \<and> mdents u ! j = mdents s ! j"
    using rj(3) iffD2[OF node] e by (auto split: if_splits)
next
  show "same_relay_node (ginst s) (ginst u)" using r n by (auto simp: relayed_def same_relay_node_def)
qed (use r n e in \<open>simp_all add: relayed_def site_arrays_def css_ready_def css_wf_def sss_ready_def same_relay_node_def\<close>)

section \<open>PortSyncSyncReceive\<close>

definition pssr_ready :: "nat \<Rightarrow> 'a PssrSite_scheme \<Rightarrow> bool" where
  "pssr_ready i s \<longleftrightarrow> \<not> BEGIN (ginst s) \<and> instanceEnable (ginst s) \<and> i < N_PORTS \<and> site_arrays s \<and> length (pssr_sms s) = N_PORTS \<and>
     pssr_state (pssr i s) \<in> {PSSR_DISCARD, PSSR_RECEIVED_SYNC} \<and> pssr_last_state (pssr i s) = pssr_state (pssr i s) \<and>
     rcvdMDSyncPtrPSSR (pssr i s) \<noteq> Dangling \<and> port_valid (gport i s) \<and> \<not> asymmetryMeasurementMode (gport i s)"

text \<open>The node can relay the message \<open>p\<close>.\<close>

definition relay_ready :: "PortSyncSync \<Rightarrow> 'a SssSite_scheme \<Rightarrow> bool" where
  "relay_ready p s \<longleftrightarrow> sss_ready s \<and> css_ready s \<and> css_takes p s \<and> ports_ready p s \<and> from_slave p (ginst s) \<and>
     unat (pss_localPortNumber p) < length (selectedState (ginst s))"

lemma same_relay_ready:
  assumes same: "same_site s t" and r: "relay_ready p s"
  shows "relay_ready p t"
proof -
  have "selectedState (ginst t) = selectedState (ginst s)" "gmPresent (ginst t) = gmPresent (ginst s)"
    using same by (simp_all add: same_site_def same_relay_node_def)
  then show ?thesis using r same_css[OF same] same_sss[OF same] same_ports_ready[OF same]
    by (simp add: relay_ready_def from_slave_def)
qed

lemma pssr_more:
  fixes s t :: "'a PssrSite_scheme"
  assumes "SssSite.more t = SssSite.more s"
  shows "pssr_sms t = pssr_sms s" "PssrSite.more t = PssrSite.more s"
  using assms by (cases s; cases t; simp)+

lemma pssr_upd_simps:
  "i < length (pssr_sms s) \<Longrightarrow> pssr i (pssr_upd i f s) = f (pssr i s)"
  "i < length (pssr_sms s) \<Longrightarrow> pssr_upd i f (pssr_upd i g s) = pssr_upd i (\<lambda>m. f (g m)) s"
  "length (pssr_sms (pssr_upd i f s)) = length (pssr_sms s)" "gports (pssr_upd i f s) = gports s" "ginst (pssr_upd i f s) = ginst s"
  by (simp_all add: pssr_upd_def)

lemma pssr_upd_cong: "f (pssr i s) = g (pssr i s) \<Longrightarrow> pssr_upd i f s = pssr_upd i g s"
  by (simp add: pssr_upd_def)

lemma pssr_turns:
  assumes r: "pssr_ready i s" and k: "shl1 (sr_logMessageInterval m) = Some k" and p: "p = pss_of junk (gport i s) m ts k"
  obtains n x where "same_site s (s\<lparr>gports := x, ginst := (ginst s)\<lparr>syncReceiptTimeoutTime := pss_syncReceiptTimeoutTime p\<rparr>, pssr_sms := (pssr_sms s)[i := n]\<rparr>)"
    "pssr_state n = PSSR_RECEIVED_SYNC" "pssr_last_state n = PSSR_RECEIVED_SYNC" "\<not> rcvdMDSyncPSSR n" "rcvdMDSyncPtrPSSR n = Live m"
    "port_sync_sync_receive_sm_recv_md_sync rnd junk i ts m s = do {
       t \<leftarrow> site_sync_sync_sm_recv_pss rnd ts p
         (s\<lparr>gports := x, ginst := (ginst s)\<lparr>syncReceiptTimeoutTime := pss_syncReceiptTimeoutTime p\<rparr>, pssr_sms := (pssr_sms s)[i := n]\<rparr>);
       let t = (if pssr_received_again i t then pssr_upd i (\<lambda>m. m\<lparr>pssr_last_state := PSSR_REACTION\<rparr>) t else t);
       let t = pssr_goto i PSSR_RECEIVED_SYNC t;
       if pssr_last_state (pssr i t) \<noteq> pssr_state (pssr i t) then sm_loop (pssr_body rnd junk i ts) t else Some t }"
proof -
  have i: "i < length (pssr_sms s)" "i < length (gports s)" "\<not> BEGIN (ginst s)" "instanceEnable (ginst s)"
    "pssr_state (pssr i s) \<in> {PSSR_DISCARD, PSSR_RECEIVED_SYNC}" "pssr_last_state (pssr i s) = pssr_state (pssr i s)"
    "rcvdMDSyncPtrPSSR (pssr i s) \<noteq> Dangling" "port_valid (gport i s)" "\<not> asymmetryMeasurementMode (gport i s)"
    using r by (simp_all add: pssr_ready_def site_arrays_def)
  define l where "l = (if pssr_state (pssr i s) = PSSR_DISCARD then PSSR_DISCARD else PSSR_REACTION)"
  define s0 where "s0 = pssr_upd i (\<lambda>n. n\<lparr>rcvdMDSyncPSSR := True, rcvdMDSyncPtrPSSR := Live m\<rparr>) s"
  define s1 where "s1 = pssr_upd i (\<lambda>n. n\<lparr>pssr_last_state := l, pssr_state := PSSR_RECEIVED_SYNC\<rparr>) s0"
  have s0: "i < length (pssr_sms s0)" "gports s0 = gports s" "ginst s0 = ginst s"
    "pssr i s0 = (pssr i s)\<lparr>rcvdMDSyncPSSR := True, rcvdMDSyncPtrPSSR := Live m\<rparr>"
    using i by (simp_all add: s0_def pssr_upd_simps)
  have t1: "pssr_body rnd junk i ts s0 = Some (s1, True)"
    using i s0 by (auto simp: pssr_body_def Let_def pssr_goto_def pssr_upd_simps l_def s1_def pssr_discard_transition_def pssr_received_again_def
      intro!: pssr_upd_cong)
  have a: "pssr_goto i (pssr_all_state_transition i s0) s0 = s0"
  proof -
    have "pssr_goto i (pssr_state (pssr i s0)) s0 = s0" using s0(1) by (simp add: pssr_goto_def pssr_upd_def)
    then show ?thesis using i s0 by (simp add: pssr_all_state_transition_def)
  qed
  define x where "x = (gports s)[i := (gport i s)\<lparr>syncReceiptTimeoutTimeInterval := timeout_interval (gport i s) k\<rparr>]"
  define n where "n = (pssr i s)\<lparr>rcvdMDSyncPtrPSSR := Live m, pssr_state := PSSR_RECEIVED_SYNC, pssr_last_state := PSSR_RECEIVED_SYNC,
    rcvdMDSyncPSSR := False, pssr_rateRatio := 1, txPSSyncPtrPSSR := Live p\<rparr>"
  define s2 where "s2 = s\<lparr>gports := x, ginst := (ginst s)\<lparr>syncReceiptTimeoutTime := pss_syncReceiptTimeoutTime p\<rparr>, pssr_sms := (pssr_sms s)[i := n]\<rparr>"
  have act: "pssr_received_action rnd junk i ts (pssr_upd i (\<lambda>m. m\<lparr>pssr_last_state := pssr_state m\<rparr>) s1) = site_sync_sync_sm_recv_pss rnd ts p s2"
    using i k unfolding p
    by (simp add: pssr_received_action_def s1_def s0_def pssr_upd_def gport_upd_def setPSSyncPSSR_def txPSSyncPSSR_def s2_def x_def n_def
      timeout_interval_def pss_of_def p)
  have st: "pssr_state (pssr i s1) = PSSR_RECEIVED_SYNC" "pssr_last_state (pssr i s1) \<noteq> PSSR_RECEIVED_SYNC"
    using s0(1) by (simp_all add: s1_def pssr_upd_simps l_def)
  have i1: "i < length (pssr_sms s1)" using s0(1) by (simp add: s1_def pssr_upd_simps)
  have "port_sync_sync_receive_sm_recv_md_sync rnd junk i ts m s = sm_loop (pssr_body rnd junk i ts) s1"
    using cfree_ok[OF i(7)] a sm_loop_turn[of "pssr_body rnd junk i ts", OF t1]
    by (auto simp: port_sync_sync_receive_sm_recv_md_sync_def port_sync_sync_receive_sm_run_def s0_def)
  also have "\<dots> = do {
       t \<leftarrow> site_sync_sync_sm_recv_pss rnd ts p s2;
       let t = (if pssr_received_again i t then pssr_upd i (\<lambda>m. m\<lparr>pssr_last_state := PSSR_REACTION\<rparr>) t else t);
       let t = pssr_goto i PSSR_RECEIVED_SYNC t;
       if pssr_last_state (pssr i t) \<noteq> pssr_state (pssr i t) then sm_loop (pssr_body rnd junk i ts) t else Some t }"
    by (subst sm_loop.simps) (simp add: pssr_body_def pssr_upd_simps i1 st act Let_def split: Option.bind_split)
  finally have e: "port_sync_sync_receive_sm_recv_md_sync rnd junk i ts m s = \<dots>" .
  have "same_site s s2"
    using i(2) by (auto simp: same_site_def same_relay_node_def s2_def x_def nth_list_update)
  then show thesis by (rule that[of n x, folded s2_def]) (simp_all add: n_def e s2_def)
qed

text \<open>The whole run: the message goes through the node, and the machine is ready for the next one.\<close>

lemma pssr_run:
  assumes r: "pssr_ready i s" and k: "shl1 (sr_logMessageInterval m) = Some k" and p: "p = pss_of junk (gport i s) m ts k"
    and y: "relay_ready p s"
  obtains t where "port_sync_sync_receive_sm_recv_md_sync rnd junk i ts m s = Some t" "relayed p s t" "pssr_ready i t"
    "PssrSite.more t = PssrSite.more s"
proof -
  obtain n x where n: "same_site s (s\<lparr>gports := x, ginst := (ginst s)\<lparr>syncReceiptTimeoutTime := pss_syncReceiptTimeoutTime p\<rparr>, pssr_sms := (pssr_sms s)[i := n]\<rparr>)"
    "pssr_state n = PSSR_RECEIVED_SYNC" "pssr_last_state n = PSSR_RECEIVED_SYNC" "\<not> rcvdMDSyncPSSR n" "rcvdMDSyncPtrPSSR n = Live m"
    "port_sync_sync_receive_sm_recv_md_sync rnd junk i ts m s = do {
       t \<leftarrow> site_sync_sync_sm_recv_pss rnd ts p
         (s\<lparr>gports := x, ginst := (ginst s)\<lparr>syncReceiptTimeoutTime := pss_syncReceiptTimeoutTime p\<rparr>, pssr_sms := (pssr_sms s)[i := n]\<rparr>);
       let t = (if pssr_received_again i t then pssr_upd i (\<lambda>m. m\<lparr>pssr_last_state := PSSR_REACTION\<rparr>) t else t);
       let t = pssr_goto i PSSR_RECEIVED_SYNC t;
       if pssr_last_state (pssr i t) \<noteq> pssr_state (pssr i t) then sm_loop (pssr_body rnd junk i ts) t else Some t }"
    by (rule pssr_turns[OF r k p])
  define s2 where "s2 = s\<lparr>gports := x, ginst := (ginst s)\<lparr>syncReceiptTimeoutTime := pss_syncReceiptTimeoutTime p\<rparr>, pssr_sms := (pssr_sms s)[i := n]\<rparr>"
  note n = n[folded s2_def]
  have "relay_ready p s2" by (rule same_relay_ready[OF n(1) y])
  then obtain t where t: "site_sync_sync_sm_recv_pss rnd ts p s2 = Some t" "site_done p s2 t"
    using site_run[of s2 p rnd ts] by (auto simp: relay_ready_def)
  have i: "i < N_PORTS" "site_arrays s" "length (pssr_sms s) = N_PORTS" using r by (simp_all add: pssr_ready_def)
  have "unat (pss_localPortNumber p) \<le> length (gports s)" using y by (simp add: relay_ready_def css_takes_def)
  then have rl: "relayed p s t" by (rule same_relayed[OF n(1) i(2) _ t(2)])
  have "SssSite.more t = SssSite.more s2" using t(2) by (simp add: site_done_def)
  note m = pssr_more[OF this]
  have pt: "pssr i t = n" "length (pssr_sms t) = N_PORTS" using m(1) i by (simp_all add: s2_def)
  have "n\<lparr>pssr_state := PSSR_RECEIVED_SYNC\<rparr> = n" using n(2) by simp
  then have g: "pssr_goto i PSSR_RECEIVED_SYNC t = t"
    unfolding pssr_goto_def pssr_upd_def pt(1) by (simp add: pt(1)[symmetric])
  have q: "psss_port (gport i s) (gport i t)" "same_relay_node (ginst s) (ginst t)" "site_arrays t"
    using rl i(1) unfolding relayed_def by blast+
  have rd: "pssr_ready i t"
    using r n(2-5) pt psss_portD[OF q(1)] q(2,3) i(1) by (simp add: pssr_ready_def same_relay_node_def)
  have "\<not> pssr_received_again i t" using pt(1) n(4) by (simp add: pssr_received_again_def)
  then have "port_sync_sync_receive_sm_recv_md_sync rnd junk i ts m s = Some t"
    unfolding n(6) t(1) by (simp add: g pt(1) n(2,3))
  then show thesis using that rl rd m(2) by (simp add: s2_def)
qed

section \<open>MDSyncReceive\<close>

definition mdsr_ready :: "nat \<Rightarrow> 'a MdsrSite_scheme \<Rightarrow> bool" where
  "mdsr_ready i s \<longleftrightarrow> \<not> BEGIN (ginst s) \<and> instanceEnable (ginst s) \<and> i < N_PORTS \<and> length (mdsr_sms s) = N_PORTS \<and>
     mdsr_state (mdsr i s) \<in> {MDSR_DISCARD, MDSR_WAITING_FOR_SYNC} \<and> mdsr_last_state (mdsr i s) = mdsr_state (mdsr i s) \<and>
     \<not> rcvdFollowUp (mdsr i s) \<and> rcvdSyncPtr (mdsr i s) \<noteq> Dangling \<and> rcvdFollowUpPtr (mdsr i s) \<noteq> Dangling \<and>
     port_valid (gport i s) \<and> \<not> asymmetryMeasurementMode (gport i s)"

text \<open>What a Sync message that came in at \<open>t\<close> over a link of delay \<open>d\<close>, and its Follow_Up, say.\<close>

definition sync_report :: "PTPMsgSync \<Rightarrow> PTPMsgFollowUp \<Rightarrow> UScaledNs \<Rightarrow> UScaledNs \<Rightarrow> MDSyncReceive" where
  "sync_report y f t d = \<lparr>sr_domainNumber = headDomainNumber (sync_head y),
     sr_followUpCorrectionField = uscaledns_add (uscaledns_uint64 (correctionField (sync_head y))) (uscaledns_uint64 (correctionField (fu_head f))),
     sr_sourcePortIdentity = sourcePortIdentity (sync_head y), sr_logMessageInterval = logMessageInterval (sync_head y),
     sr_preciseOriginTimestamp = preciseOriginTimestamp f, sr_upstreamTxTime = uscaledns_subtract t d, sr_rateRatio = 1,
     sr_gmTimeBaseIndicator = tlv_gmTimeBaseIndicator (followUpInformationTLV f),
     sr_lastGmPhaseChange = tlv_lastGmPhaseChange (followUpInformationTLV f), sr_lastGmFreqChange = 0\<rparr>"

lemma mdsr_upd_simps:
  "i < length (mdsr_sms s) \<Longrightarrow> mdsr i (mdsr_upd i f s) = f (mdsr i s)"
  "i < length (mdsr_sms s) \<Longrightarrow> mdsr_upd i f (mdsr_upd i g s) = mdsr_upd i (\<lambda>m. f (g m)) s"
  "length (mdsr_sms (mdsr_upd i f s)) = length (mdsr_sms s)" "gports (mdsr_upd i f s) = gports s" "ginst (mdsr_upd i f s) = ginst s"
  by (simp_all add: mdsr_upd_def)

lemma mdsr_upd_cong: "f (mdsr i s) = g (mdsr i s) \<Longrightarrow> mdsr_upd i f s = mdsr_upd i g s"
  by (simp add: mdsr_upd_def)

lemma mdsr_upd_same: "i < length (mdsr_sms s) \<Longrightarrow> f (mdsr i s) = mdsr i s \<Longrightarrow> mdsr_upd i f s = s"
  by (simp add: mdsr_upd_def)

text \<open>A machine that waits for the Follow_Up of the Sync message \<open>y\<close> that came in at \<open>t\<close>.\<close>

definition mdsr_waiting :: "PTPMsgSync \<Rightarrow> UScaledNs \<Rightarrow> MDSyncReceiveSM \<Rightarrow> bool" where
  "mdsr_waiting y t m \<longleftrightarrow> mdsr_state m = MDSR_WAITING_FOR_FOLLOW_UP \<and> mdsr_last_state m = MDSR_WAITING_FOR_FOLLOW_UP \<and>
     \<not> rcvdSync m \<and> rcvdSyncPtr m = Live y \<and> syncEventIngressTimestamp m = t \<and> rcvdFollowUpPtr m \<noteq> Dangling"

lemma later_by_a_second: "usval ts < 2 ^ 95 \<Longrightarrow> uscaledns_compare ts (uscaledns_add ts \<lparr>subns = 0, nsec = ONE_SEC_NS, nsec_msb = 0\<rparr>) < 0"
proof -
  assume "usval ts < 2 ^ 95"
  moreover have "usval \<lparr>subns = 0, nsec = ONE_SEC_NS, nsec_msb = 0\<rparr> = 65536 * 1000000000" by (simp add: usval_def)
  ultimately show ?thesis by (simp add: uscaledns_compare_usval usval_add sgn_if)
qed

lemma sync_run:
  assumes r: "mdsr_ready i s" and ts: "usval ts < 2 ^ 95"
  obtains m where "md_sync_receive_sm_recv_sync rnd junk i ts t y s = Some (s\<lparr>mdsr_sms := (mdsr_sms s)[i := m]\<rparr>)" "mdsr_waiting y (ts_ts t) m"
proof -
  have i: "i < length (mdsr_sms s)" "\<not> BEGIN (ginst s)" "instanceEnable (ginst s)"
    "mdsr_state (mdsr i s) \<in> {MDSR_DISCARD, MDSR_WAITING_FOR_SYNC}" "mdsr_last_state (mdsr i s) = mdsr_state (mdsr i s)"
    "\<not> rcvdFollowUp (mdsr i s)" "rcvdSyncPtr (mdsr i s) \<noteq> Dangling" "rcvdFollowUpPtr (mdsr i s) \<noteq> Dangling"
    "port_valid (gport i s)" "\<not> asymmetryMeasurementMode (gport i s)"
    using r by (simp_all add: mdsr_ready_def)
  define s0 where "s0 = mdsr_upd i (\<lambda>m. m\<lparr>rcvdSync := True, rcvdSyncPtr := Live y, syncEventIngressTimestamp := ts_ts t\<rparr>) s"
  define s1 where "s1 = mdsr_upd i (\<lambda>m. m\<lparr>mdsr_last_state := mdsr_state m, mdsr_state := MDSR_WAITING_FOR_FOLLOW_UP\<rparr>) s0"
  have s0: "i < length (mdsr_sms s0)" "gports s0 = gports s" "ginst s0 = ginst s"
    "mdsr i s0 = (mdsr i s)\<lparr>rcvdSync := True, rcvdSyncPtr := Live y, syncEventIngressTimestamp := ts_ts t\<rparr>"
    using i by (simp_all add: s0_def mdsr_upd_simps)
  have s1: "i < length (mdsr_sms s1)" "gports s1 = gports s" "ginst s1 = ginst s"
    "mdsr i s1 = (mdsr i s0)\<lparr>mdsr_last_state := mdsr_state (mdsr i s), mdsr_state := MDSR_WAITING_FOR_FOLLOW_UP\<rparr>"
    using i s0 by (simp_all add: s1_def mdsr_upd_simps)
  have t1: "mdsr_body rnd junk i ts s0 = Some (s1, True)"
    using i s0 by (auto simp: mdsr_body_def Let_def mdsr_goto_def mdsr_upd_simps s1_def mdsr_discard_transition_def mdsr_sync_transition_def
      intro!: mdsr_upd_cong)
  have a: "mdsr_goto i (mdsr_all_state_transition i s0) s0 = s0"
    using i s0 by (auto simp: mdsr_all_state_transition_def mdsr_goto_def intro!: mdsr_upd_same)
  define m where "m = (mdsr i s1)\<lparr>mdsr_last_state := MDSR_WAITING_FOR_FOLLOW_UP, rcvdSync := False,
    upstreamSyncInterval := \<lparr>subns = 0, nsec = ONE_SEC_NS, nsec_msb = 0\<rparr>,
    followUpReceiptTimeoutTime := uscaledns_add ts \<lparr>subns = 0, nsec = ONE_SEC_NS, nsec_msb = 0\<rparr>\<rparr>"
  define s2 where "s2 = mdsr_upd i (\<lambda>_. m) s1"
  have s2: "i < length (mdsr_sms s2)" "gports s2 = gports s" "ginst s2 = ginst s" "mdsr i s2 = m"
    using s1 by (simp_all add: s2_def mdsr_upd_simps)
  have "mdsr_follow_up_action i ts (mdsr_upd i (\<lambda>m. m\<lparr>mdsr_last_state := mdsr_state m\<rparr>) s1) = s2"
    unfolding mdsr_follow_up_action_def mdsr_upd_simps(2)[OF s1(1)] s2_def
    by (rule mdsr_upd_cong) (simp add: m_def Let_def s1(4))
  moreover have "mdsr_follow_up_transition i ts s2 = Some (MDSR_WAITING_FOR_FOLLOW_UP, False)"
    using i later_by_a_second[OF ts] by (simp add: mdsr_follow_up_transition_def s2 m_def s1(4) s0(4))
  moreover have "mdsr_goto i MDSR_WAITING_FOR_FOLLOW_UP s2 = s2"
    using s2 by (auto simp: mdsr_goto_def m_def s1(4) intro!: mdsr_upd_same)
  ultimately have t2: "mdsr_body rnd junk i ts s1 = Some (s2, False)"
    using i(4) s1 s0 s2 by (auto simp: mdsr_body_def Let_def mdsr_upd_simps m_def)
  have "md_sync_receive_sm_recv_sync rnd junk i ts t y s = Some s2"
    using cfree_ok[OF i(7)] a sm_loop_turn[of "mdsr_body rnd junk i ts", OF t1] sm_loop_stop[of "mdsr_body rnd junk i ts", OF t2]
    by (auto simp: md_sync_receive_sm_recv_sync_def md_sync_receive_sm_run_def s0_def)
  moreover have "s2 = s\<lparr>mdsr_sms := (mdsr_sms s)[i := m]\<rparr>" by (simp add: s2_def s1_def s0_def mdsr_upd_def)
  moreover have "mdsr_waiting y (ts_ts t) m" using i by (simp add: mdsr_waiting_def m_def s1(4) s0(4))
  ultimately show thesis using that by simp
qed

text \<open>The machines of MDSyncReceive are not seen by those they call.\<close>

lemma mdsr_frame:
  fixes s :: "'a MdsrSite_scheme"
  shows "relayed p (s\<lparr>mdsr_sms := x\<rparr>) u = relayed p s u" "relay_ready p (s\<lparr>mdsr_sms := x\<rparr>) = relay_ready p s"
    "pssr_ready i (s\<lparr>mdsr_sms := x\<rparr>) = pssr_ready i s"
proof -
  have f: "forwards p (s\<lparr>mdsr_sms := x\<rparr>) = forwards p s" "sync_at p (s\<lparr>mdsr_sms := x\<rparr>) = sync_at p s"
    "request_at p (s\<lparr>mdsr_sms := x\<rparr>) = request_at p s"
    by (rule ext, simp add: forwards_def sync_at_def request_at_def)+
  show "relayed p (s\<lparr>mdsr_sms := x\<rparr>) u = relayed p s u" by (simp add: relayed_def f)
  show "relay_ready p (s\<lparr>mdsr_sms := x\<rparr>) = relay_ready p s"
    by (simp add: relay_ready_def ports_ready_def f sss_ready_def css_ready_def css_wf_def css_takes_def site_arrays_def)
  show "pssr_ready i (s\<lparr>mdsr_sms := x\<rparr>) = pssr_ready i s" by (simp add: pssr_ready_def site_arrays_def)
qed

lemma mdsr_more:
  fixes s t :: "'a MdsrSite_scheme"
  assumes "PssrSite.more t = PssrSite.more s"
  shows "mdsr_sms t = mdsr_sms s"
  using assms by (cases s; cases t; simp)

lemma follow_up_run:
  assumes w: "mdsr_waiting y t (mdsr i s)" "length (mdsr_sms s) = N_PORTS" and q: "sequenceId (fu_head f) = sequenceId (sync_head y)"
    and r: "pssr_ready i s" and k: "shl1 (logMessageInterval (sync_head y)) = Some k"
    and p: "p = pss_of junk (gport i s) (sync_report y f t (meanLinkDelay (gport i s))) ts k" and l: "relay_ready p s"
  obtains u where "md_sync_receive_sm_recv_follow_up rnd junk i ts f s = Some u" "relayed p s u" "mdsr_ready i u" "pssr_ready i u"
proof -
  have i: "i < length (mdsr_sms s)" "\<not> BEGIN (ginst s)" "instanceEnable (ginst s)" "i < N_PORTS"
    "port_valid (gport i s)" "\<not> asymmetryMeasurementMode (gport i s)"
    using r w(2) by (simp_all add: pssr_ready_def)
  note w = w[unfolded mdsr_waiting_def]
  define s0 where "s0 = mdsr_upd i (\<lambda>m. m\<lparr>rcvdFollowUp := True, rcvdFollowUpPtr := Live f\<rparr>) s"
  define s1 where "s1 = mdsr_upd i (\<lambda>m. m\<lparr>mdsr_last_state := mdsr_state m, mdsr_state := MDSR_WAITING_FOR_SYNC\<rparr>) s0"
  define m where "m = (mdsr i s)\<lparr>rcvdFollowUpPtr := Live f, mdsr_state := MDSR_WAITING_FOR_SYNC, mdsr_last_state := MDSR_WAITING_FOR_SYNC,
    rcvdSync := False, rcvdFollowUp := False\<rparr>"
  define s2 where "s2 = s\<lparr>mdsr_sms := (mdsr_sms s)[i := m]\<rparr>"
  have s0: "i < length (mdsr_sms s0)" "gports s0 = gports s" "ginst s0 = ginst s"
    "mdsr i s0 = (mdsr i s)\<lparr>rcvdFollowUp := True, rcvdFollowUpPtr := Live f\<rparr>"
    using i by (simp_all add: s0_def mdsr_upd_simps)
  have s1: "i < length (mdsr_sms s1)" "gports s1 = gports s" "ginst s1 = ginst s"
    "mdsr i s1 = (mdsr i s0)\<lparr>mdsr_last_state := MDSR_WAITING_FOR_FOLLOW_UP, mdsr_state := MDSR_WAITING_FOR_SYNC\<rparr>"
    using s0 w by (simp_all add: s1_def mdsr_upd_simps)
  have t1: "mdsr_body rnd junk i ts s0 = Some (s1, True)"
    using s0 w q by (simp add: mdsr_body_def Let_def mdsr_goto_def mdsr_upd_simps s1_def mdsr_follow_up_transition_def)
  have a: "mdsr_goto i (mdsr_all_state_transition i s0) s0 = s0"
    using i s0 w by (auto simp: mdsr_all_state_transition_def mdsr_goto_def intro!: mdsr_upd_same)
  have g: "gports s2 = gports s" "mdsr i s2 = m" "i < length (mdsr_sms s2)" using i by (simp_all add: s2_def)
  have "mdsr_upd i (\<lambda>m. m\<lparr>rcvdSync := False, rcvdFollowUp := False\<rparr>) (mdsr_upd i (\<lambda>m. m\<lparr>mdsr_last_state := mdsr_state m\<rparr>) s1) = s2"
    using i(1) w unfolding s1_def s0_def by (simp add: mdsr_upd_simps) (simp add: mdsr_upd_def s2_def m_def)
  moreover have "setMDSyncReceiveMDSR i s2 = Some (sync_report y f t (meanLinkDelay (gport i s)))"
    using w by (simp add: setMDSyncReceiveMDSR_def g m_def sync_report_def)
  ultimately have act: "mdsr_sync_action rnd junk i ts (mdsr_upd i (\<lambda>m. m\<lparr>mdsr_last_state := mdsr_state m\<rparr>) s1) =
      port_sync_sync_receive_sm_recv_md_sync rnd junk i ts (sync_report y f t (meanLinkDelay (gport i s))) s2"
    by (simp add: mdsr_sync_action_def Let_def)
  have "pssr_ready i s2" "relay_ready p s2" using r l by (simp_all add: s2_def mdsr_frame)
  then obtain u where u: "port_sync_sync_receive_sm_recv_md_sync rnd junk i ts (sync_report y f t (meanLinkDelay (gport i s))) s2 = Some u"
    "relayed p s2 u" "pssr_ready i u" "PssrSite.more u = PssrSite.more s2"
    using pssr_run[of i s2 "sync_report y f t (meanLinkDelay (gport i s))" k p junk ts rnd] k p by (auto simp: g sync_report_def)
  have mu: "mdsr i u = m" "length (mdsr_sms u) = N_PORTS" using mdsr_more[OF u(4)] i w by (simp_all add: s2_def)
  have "mdsr_goto i (mdsr_sync_transition i u) u = u"
    using mu i by (auto simp: mdsr_goto_def mdsr_sync_transition_def m_def intro!: mdsr_upd_same)
  then have t2: "mdsr_body rnd junk i ts s1 = Some (u, False)"
    using s1(1,4) act u(1) mu(1) by (simp add: mdsr_body_def Let_def mdsr_upd_simps m_def)
  have "md_sync_receive_sm_recv_follow_up rnd junk i ts f s = Some u"
    using w cfree_ok[of "rcvdFollowUpPtr (mdsr i s)"] a sm_loop_turn[of "mdsr_body rnd junk i ts", OF t1] sm_loop_stop[of "mdsr_body rnd junk i ts", OF t2]
    by (auto simp: md_sync_receive_sm_recv_follow_up_def md_sync_receive_sm_run_def s0_def)
  moreover have "relayed p s u" using u(2) by (simp add: s2_def mdsr_frame)
  moreover have "mdsr_ready i u" using u(3) mu i w by (simp add: mdsr_ready_def pssr_ready_def m_def)
  ultimately show thesis using that u(3) by blast
qed

section \<open>What the node promises\<close>

lemma relay_runs:
  assumes "mdsr_ready i s" "pssr_ready i s" "usval ts < 2 ^ 95"
    and "sequenceId (fu_head f) = sequenceId (sync_head y)" "shl1 (logMessageInterval (sync_head y)) = Some k"
    and "p = pss_of junk (gport i s) (sync_report y f (ts_ts t) (meanLinkDelay (gport i s))) ts' k" "relay_ready p s"
  shows "\<exists>v u. md_sync_receive_sm_recv_sync rnd junk i ts t y s = Some v \<and> md_sync_receive_sm_recv_follow_up rnd junk i ts' f v = Some u \<and>
    site_eth v = site_eth s \<and>
    sends (map (sync_at p s) (filter (\<lambda>j. port_valid (gport j s) \<and> selectedState (ginst s) ! unat (thisPort (gport j s)) = MASTER_PORT \<and>
      thisPort (gport i s) \<noteq> thisPort (gport j s)) [0..<N_PORTS])) (site_eth s) (site_eth u) \<and>
    (\<exists>w. rtc u = rtc_latch (offset_write (master_time (gports s) p) (node_time (gports s) p) (rtc s)) @ w) \<and> mdsr_ready i u \<and> pssr_ready i u"
proof -
  obtain m where m: "md_sync_receive_sm_recv_sync rnd junk i ts t y s = Some (s\<lparr>mdsr_sms := (mdsr_sms s)[i := m]\<rparr>)" "mdsr_waiting y (ts_ts t) m"
    by (rule sync_run[OF assms(1,3)])
  let ?v = "s\<lparr>mdsr_sms := (mdsr_sms s)[i := m]\<rparr>"
  have v: "mdsr_waiting y (ts_ts t) (mdsr i ?v)" "length (mdsr_sms ?v) = N_PORTS" "pssr_ready i ?v" "relay_ready p ?v"
    using m(2) assms(1,2,7) by (simp_all add: mdsr_ready_def mdsr_frame)
  have p: "p = pss_of junk (gport i ?v) (sync_report y f (ts_ts t) (meanLinkDelay (gport i ?v))) ts' k" using assms(6) by simp
  obtain u where u: "md_sync_receive_sm_recv_follow_up rnd junk i ts' f ?v = Some u" "relayed p ?v u" "mdsr_ready i u" "pssr_ready i u"
    by (rule follow_up_run[OF v(1,2) assms(4) v(3) assms(5) p v(4)])
  have "pss_localPortNumber p = thisPort (gport i s)" using assms(6) by (simp add: pss_of_def)
  then have "forwards p s = (\<lambda>j. port_valid (gport j s) \<and> selectedState (ginst s) ! unat (thisPort (gport j s)) = MASTER_PORT \<and>
      thisPort (gport i s) \<noteq> thisPort (gport j s))"
    by (intro ext) (simp add: forwards_def psss_forwards_def)
  then show ?thesis using m(1) u unfolding mdsr_frame(1) by (auto simp: relayed_def)
qed

text \<open>
  C9. The time is relayed. A Sync message on a port and then its Follow_Up, when the port is the slave
  port and every machine of the node at rest, set the clock of the node, and a Sync message leaves by
  every valid master port but the one it came in on, and by no other port: each packet handed to the DMA engine
  names the number of its own port. The receiving machines are ready for the next message. The messages carry the
  same sequence number and a log interval that \<open>shl1\<close> admits, 0 to 30, the time of the node is below \<open>2 ^ 95\<close>, and
  \<open>relay_ready\<close> holds: the clock has not seen the time of the message before, and its period is 0 to 1000.
\<close>

theorem relay:
  assumes "mdsr_ready i s" "pssr_ready i s" "usval ts < 2 ^ 95"
    and "sequenceId (fu_head f) = sequenceId (sync_head y)" "shl1 (logMessageInterval (sync_head y)) = Some k"
    and "p = pss_of junk (gport i s) (sync_report y f (ts_ts t) (meanLinkDelay (gport i s))) ts' k" "relay_ready p s"
  shows "\<exists>v u. md_sync_receive_sm_recv_sync rnd junk i ts t y s = Some v \<and> md_sync_receive_sm_recv_follow_up rnd junk i ts' f v = Some u \<and>
    site_eth v = site_eth s \<and>
    sends (map (sync_at p s) (filter (\<lambda>j. port_valid (gport j s) \<and> selectedState (ginst s) ! unat (thisPort (gport j s)) = MASTER_PORT \<and>
      thisPort (gport i s) \<noteq> thisPort (gport j s)) [0..<N_PORTS])) (site_eth s) (site_eth u) \<and>
    (\<exists>w. rtc u = rtc_latch (offset_write (master_time (gports s) p) (node_time (gports s) p) (rtc s)) @ w) \<and> mdsr_ready i u \<and> pssr_ready i u"
  by (rule relay_runs[OF assms])

lemma usval_uint64: "usval (uscaledns_uint64 c) = unat c"
proof -
  have "usval (uscaledns_uint64 c) mod 2 ^ 64 = unat c" using uint64_usval[of "uscaledns_uint64 c"] by (simp add: uint64_uscaledns_uint64)
  moreover have "usval (uscaledns_uint64 c) < 2 ^ 64"
  proof -
    have "unat (drop_bit 16 c) = unat c div 65536" using unat_drop_bit_eq[of 16 c] unfolding drop_bit_eq_div[of 16 "unat c"] by simp
    then have "unat (drop_bit 16 c) < 2 ^ 48" using unsigned_less[of c, where 'a = nat] by (simp add: less_mult_imp_div_less)
    moreover have "unat (ucast (c AND 0xFFFF) :: 16 word) < 65536" using unsigned_less[of "ucast (c AND 0xFFFF) :: 16 word", where 'a = nat] by simp
    ultimately show ?thesis by (simp add: usval_def uscaledns_uint64_def)
  qed
  ultimately show ?thesis by simp
qed

text \<open>The correction of the Follow_Up that answers the relayed message.\<close>

lemma relayed_correction:
  assumes "p = pss_of junk (gport i s) (sync_report y f (ts_ts t) (meanLinkDelay (gport i s))) ts' k"
    and time: "usval (meanLinkDelay (gport i s)) \<le> usval (ts_ts t)" "usval (ts_ts t) \<le> usval t2"
  shows "unat (correctionField (fu_head (follow_up_for (request_at p s j) n t2))) =
    (unat (correctionField (sync_head y)) + unat (correctionField (fu_head f)) +
      usval (meanLinkDelay (gport i s)) + (usval t2 - usval (ts_ts t)) +
      (carry_error (uscaledns_uint64 (correctionField (sync_head y))) (uscaledns_uint64 (correctionField (fu_head f))) +
       carry_error (pss_followUpCorrectionField p) (uscaledns_subtract t2 (pss_upstreamTxTime p)))) mod 2 ^ 64"
proof -
  have q: "ss_followUpCorrectionField (request_at p s j) = pss_followUpCorrectionField p"
    "ss_upstreamTxTime (request_at p s j) = pss_upstreamTxTime p"
    by (simp_all add: request_at_def request_for_def)
  have pu: "pss_upstreamTxTime p = uscaledns_subtract (ts_ts t) (meanLinkDelay (gport i s))"
    "pss_followUpCorrectionField p = uscaledns_add (uscaledns_uint64 (correctionField (sync_head y))) (uscaledns_uint64 (correctionField (fu_head f)))"
    by (simp_all add: assms(1) pss_of_def sync_report_def)
  have ut: "usval (pss_upstreamTxTime p) = usval (ts_ts t) - usval (meanLinkDelay (gport i s))" unfolding pu by (rule usval_subtract_le[OF time(1)])
  then have us: "usval (uscaledns_subtract (t2) (pss_upstreamTxTime p)) = usval (t2) - usval (ts_ts t) + usval (meanLinkDelay (gport i s))"
    using usval_subtract_le[of "pss_upstreamTxTime p" "t2"] time by simp
  let ?c = "carry_error (uscaledns_uint64 (correctionField (sync_head y))) (uscaledns_uint64 (correctionField (fu_head f)))"
    and ?d = "carry_error (pss_followUpCorrectionField p) (uscaledns_subtract t2 (pss_upstreamTxTime p))"
  have uf: "usval (pss_followUpCorrectionField p) = (unat (correctionField (sync_head y)) + unat (correctionField (fu_head f)) + ?c) mod 2 ^ 96"
    unfolding pu(2) usval_add carry_error_def by (simp add: usval_uint64)
  have "unat (correctionField (fu_head (follow_up_for (request_at p s j) n t2))) = usval (uscaledns_add (pss_followUpCorrectionField p) (uscaledns_subtract (t2) (pss_upstreamTxTime p))) mod 2 ^ 64"
    by (simp add: follow_up_for_def ptp_msg_header_template_def uint64_usval q)
  also have "\<dots> = (usval (pss_followUpCorrectionField p) + (usval (uscaledns_subtract (t2) (pss_upstreamTxTime p)) + ?d)) mod 2 ^ 64"
    unfolding usval_add carry_error_def by (simp add: mod_mod_cancel add.assoc)
  also have "\<dots> = (unat (correctionField (sync_head y)) + unat (correctionField (fu_head f)) +
      usval (meanLinkDelay (gport i s)) + (usval (t2) - usval (ts_ts t)) + (?c + ?d)) mod 2 ^ 64"
  proof -
    have mm: "(a mod 2 ^ 96 + b) mod 2 ^ 64 = (a + b) mod 2 ^ 64" for a b :: nat
      using mod_add_left_eq[of "a mod 2 ^ 96" "2 ^ 64" b] mod_add_left_eq[of a "2 ^ 64" b] mod_mod_cancel[of "2 ^ 64 :: nat" "2 ^ 96" a] by simp
    show ?thesis unfolding uf us mm by (simp only: ac_simps)
  qed
  finally show ?thesis .
qed

text \<open>
  C10. The node adds its share to the correction. When the hardware reports that the relayed Sync message
  has left a master port, and the number of the message is not 65535, a Follow_Up leaves that port with the time of
  the grandmaster unchanged, and with the corrections that came in plus the propagation delay of the link plus the
  time between arrival and departure, the time the message spent in the node, plus a nanosecond for each of the two
  sums whose fractions add up to 65535. The message came in after the delay of the link, and left after it came in;
  the log interval of the Sync message is one that \<open>shl1\<close> admits, 0 to 30.
\<close>

theorem relay_correction:
  assumes "mdsr_ready i s" "pssr_ready i s" "usval ts < 2 ^ 95"
    and "sequenceId (fu_head f) = sequenceId (sync_head y)" "shl1 (logMessageInterval (sync_head y)) = Some k"
    and "p = pss_of junk (gport i s) (sync_report y f (ts_ts t) (meanLinkDelay (gport i s))) ts' k" "relay_ready p s"
    and j: "j < N_PORTS" "forwards p s j" "ts_sequenceID t2 = syncSequenceId (mdents s ! j)" "syncSequenceId (mdents s ! j) \<noteq> 0xFFFF"
    and time: "usval (meanLinkDelay (gport i s)) \<le> usval (ts_ts t)" "usval (ts_ts t) \<le> usval (ts_ts t2)"
  shows "\<exists>v u e g. md_sync_receive_sm_recv_sync rnd junk i ts t y s = Some v \<and> md_sync_receive_sm_recv_follow_up rnd junk i ts' f v = Some u \<and>
    md_sync_send_sm_txts r t2 (mdss_ctx (at_port j u)) = Some e \<and> sends [(thisPort (gport j s), follow_up_frame g)] (site_eth u) (eth e) \<and>
    sequenceId (fu_head g) = syncSequenceId (mdents s ! j) \<and> preciseOriginTimestamp g = preciseOriginTimestamp f \<and>
    unat (correctionField (fu_head g)) = (unat (correctionField (sync_head y)) + unat (correctionField (fu_head f)) +
      usval (meanLinkDelay (gport i s)) + (usval (ts_ts t2) - usval (ts_ts t)) +
      (carry_error (uscaledns_uint64 (correctionField (sync_head y))) (uscaledns_uint64 (correctionField (fu_head f))) +
       carry_error (pss_followUpCorrectionField p) (uscaledns_subtract (ts_ts t2) (pss_upstreamTxTime p)))) mod 2 ^ 64"
proof -
  obtain m where m: "md_sync_receive_sm_recv_sync rnd junk i ts t y s = Some (s\<lparr>mdsr_sms := (mdsr_sms s)[i := m]\<rparr>)" "mdsr_waiting y (ts_ts t) m"
    by (rule sync_run[OF assms(1,3)])
  let ?v = "s\<lparr>mdsr_sms := (mdsr_sms s)[i := m]\<rparr>"
  have v: "mdsr_waiting y (ts_ts t) (mdsr i ?v)" "length (mdsr_sms ?v) = N_PORTS" "pssr_ready i ?v" "relay_ready p ?v"
    using m(2) assms(1,2,7) by (simp_all add: mdsr_ready_def mdsr_frame)
  have pv: "p = pss_of junk (gport i ?v) (sync_report y f (ts_ts t) (meanLinkDelay (gport i ?v))) ts' k" using assms(6) by simp
  obtain u where u: "md_sync_receive_sm_recv_follow_up rnd junk i ts' f ?v = Some u" "relayed p ?v u"
    by (rule follow_up_run[OF v(1,2) assms(4) v(3) assms(5) pv v(4)])
  have ru: "relayed p s u" using u(2) by (simp only: mdsr_frame)
  let ?q = "request_at p s j" and ?n = "syncSequenceId (mdents s ! j)"
  have w: "mdss_waiting ?q ?n (mdss_ctx (at_port j u))" using ru j(1,2) unfolding relayed_def by simp
  obtain e where e: "md_sync_send_sm_txts r t2 (mdss_ctx (at_port j u)) = Some e"
    "sends [(thisPort (gport j u), follow_up_frame (follow_up_for ?q ?n (ts_ts t2)))] (eth (mdss_ctx (at_port j u))) (eth e)"
    using stamp_run[OF w j(3,4), of r] by (simp add: mdss_ctx_def) blast
  have pj: "thisPort (gport j u) = thisPort (gport j s)" using relayed_port(2)[OF ru j(1)] by (simp add: psss_portD)
  let ?g = "follow_up_for ?q ?n (ts_ts t2)"
  have "ss_preciseOriginTimestamp ?q = preciseOriginTimestamp f"
    by (simp add: request_at_def request_for_def assms(6) pss_of_def sync_report_def)
  with m(1) u(1) e relayed_correction[OF assms(6) time, of j ?n] pj show ?thesis
    by (intro exI[of _ ?v] exI[of _ u] exI[of _ e] exI[of _ ?g]) (simp add: mdss_ctx_def follow_up_for_def ptp_msg_header_template_def)
qed

section \<open>An example\<close>

text \<open>A node whose second port is the slave port, and whose other ports are master ports.\<close>

definition relay_node :: "unit MdsrSite_scheme" where
  "relay_node = \<lparr>ginst = (example_instance 246 1)\<lparr>selectedState := [PASSIVE_PORT, MASTER_PORT, SLAVE_PORT, MASTER_PORT, MASTER_PORT], gmPresent := True\<rparr>,
     gports = map (example_port 246 1) [0..<4], rtc = [], css = css started_clock,
     mdents = replicate 4 (init_mdentity blank_mdent), site_eth = tx_idle,
     psss_sms = replicate 4 \<lparr>rcvdPSSyncPSSS = False, rcvdPSSyncPtrPSSS = Null, lastPreciseOriginTimestamp = \<lparr>seconds_msb = 0, seconds_lsb = 0, nanoseconds = 0\<rparr>,
       lastFollowUpCorrectionField = zero_ns, lastRateRatio = 0, lastUpstreamTxTime = zero_ns, lastSyncSentTime = zero_ns, lastRcvdPortNum = 0,
       lastGmTimeBaseIndicator = 0, lastGmPhaseChangePSSS = zero_ns, lastGmFreqChangePSSS = 0, txMDSyncPtr = Null, numberSyncTransmissions = 0,
       interval1 = zero_ns, psss_state = PSSS_TRANSMIT_INIT, psss_last_state = PSSS_TRANSMIT_INIT\<rparr>,
     mdss_sms = replicate 4 (sm (started_mdss 0)),
     sss = \<lparr>rcvdPSSyncSSS = False, rcvdPSSyncPtrSSS = Null, txPSSyncPtrSSS = Null, sss_state = SSS_INITIALIZING, sss_last_state = SSS_INITIALIZING\<rparr>,
     pssr_sms = replicate 4 \<lparr>rcvdMDSyncPSSR = False, rcvdMDSyncPtrPSSR = Null, txPSSyncPtrPSSR = Null, pssr_rateRatio = 1, pssr_state = PSSR_DISCARD,
       pssr_last_state = PSSR_DISCARD\<rparr>,
     mdsr_sms = replicate 4 \<lparr>followUpReceiptTimeoutTime = zero_ns, rcvdSync = False, rcvdFollowUp = False, rcvdSyncPtr = Null, rcvdFollowUpPtr = Null,
       upstreamSyncInterval = zero_ns, syncEventIngressTimestamp = zero_ns, mdsr_state = MDSR_DISCARD, mdsr_last_state = MDSR_DISCARD\<rparr>\<rparr>"

definition relay_sync :: PTPMsgSync where
  "relay_sync = \<lparr>sync_head = ptp_msg_header_template SYNC 44 \<lparr>clockIdentity = 7, portNumber = 1\<rparr> 9 0 0\<rparr>"

definition relay_follow_up :: PTPMsgFollowUp where
  "relay_follow_up = \<lparr>fu_head = ptp_msg_header_template FOLLOW_UP 76 \<lparr>clockIdentity = 7, portNumber = 1\<rparr> 9 0 (700 * 65536),
     preciseOriginTimestamp = \<lparr>seconds_msb = 0, seconds_lsb = 5, nanoseconds = 9\<rparr>,
     followUpInformationTLV = \<lparr>fu_tlvType = 3, fu_lengthField = 28, organizationId = [], organizationSubType = [], cumulativeScaledRateOffset = 0,
       tlv_gmTimeBaseIndicator = 0, tlv_lastGmPhaseChange = zero_ns, scaledLastGmFreqChange = 0\<rparr>\<rparr>"

definition relay_stamp :: "64 word \<Rightarrow> 16 word \<Rightarrow> TSUTimestamp" where
  "relay_stamp n q = \<lparr>ts_ts = \<lparr>subns = 0, nsec = n, nsec_msb = 0\<rparr>, ts_sequenceID = q, ts_msgType = 0\<rparr>"

definition relay_pss :: PortSyncSync where
  "relay_pss = pss_of example_pss (example_port 246 1 1) (sync_report relay_sync relay_follow_up \<lparr>subns = 0, nsec = 1000, nsec_msb = 0\<rparr> zero_ns)
     \<lparr>subns = 0, nsec = 2000, nsec_msb = 0\<rparr> 1"

lemma example_port_facts:
  "thisPort (example_port 246 1 i) = of_nat (i + 1)" "i < 4 \<Longrightarrow> port_valid (example_port 246 1 i)" "\<not> asymmetryMeasurementMode (example_port 246 1 i)"
  "meanLinkDelay (example_port 246 1 i) = zero_ns"
  by (simp_all add: example_defs Let_def port_valid_def)

lemma example_instance_facts: "\<not> BEGIN (example_instance 246 1)" "instanceEnable (example_instance 246 1)"
  by (simp_all add: example_defs Let_def)

lemma relay_node_gport: "i < 4 \<Longrightarrow> gport i relay_node = example_port 246 1 i"
  by (simp add: relay_node_def)

lemma relay_node_ready: "mdsr_ready 1 relay_node" "pssr_ready 1 relay_node" "sss_ready relay_node" "css_ready relay_node"
proof -
  have g: "gport 1 relay_node = example_port 246 1 1" by (rule relay_node_gport) simp
  show "mdsr_ready 1 relay_node" "pssr_ready 1 relay_node"
    unfolding mdsr_ready_def pssr_ready_def g
    by (simp_all add: relay_node_def site_arrays_def example_port_facts example_instance_facts)
  show "sss_ready relay_node" by (simp add: sss_ready_def relay_node_def example_instance_facts)
  show "css_ready relay_node" using started_clock_ready(1)
    by (simp add: css_ready_def css_wf_def relay_node_def started_clock_def example_instance_facts)
qed

lemma relay_node_mdss:
  assumes i: "i < N_PORTS"
  shows "mdss_ready (mdss_ctx (at_port i relay_node))"
proof -
  have "thisPort (gport i relay_node) = of_nat (i + 1)" "port_valid (gport i relay_node)" "\<not> asymmetryMeasurementMode (gport i relay_node)"
    using i by (simp_all add: relay_node_gport example_port_facts)
  moreover have "i = 0 \<or> i = 1 \<or> i = 2 \<or> i = 3" using i by auto
  then have "unat (1 + of_nat i :: 16 word) = Suc i" by auto
  ultimately show ?thesis
    using i by (simp add: mdss_ctx_def mdss_ready_def mdss_on_def mdss_wf_def mdss_ptrs_def mdss_rest_def)
      (simp add: relay_node_def started_mdss_def example_instance_facts tx_wf_def tx_idle_def)
qed

lemma relay_node_relays: "relay_ready relay_pss relay_node"
proof -
  have g: "gport 1 relay_node = example_port 246 1 1" by (rule relay_node_gport) simp
  have lp: "pss_localPortNumber relay_pss = 2" "pss_upstreamTxTime relay_pss = \<lparr>subns = 0, nsec = 1000, nsec_msb = 0\<rparr>"
    by (simp_all add: relay_pss_def pss_of_def sync_report_def example_port_facts uscaledns_subtract_def)
  have l: "link_delay (gports relay_node) relay_pss = zero_ns"
    using g by (simp add: link_delay_def lp example_port_facts)
  have "node_time (gports relay_node) relay_pss = \<lparr>subns = 0, nsec = 1000, nsec_msb = 0\<rparr>"
    unfolding node_time_def l lp by (simp add: uscaledns_add_def check_overflow_def Let_def)
  then have "css_takes relay_pss relay_node" by (simp add: css_takes_def lp) (simp add: relay_node_def started_clock_def)
  moreover have "ports_ready relay_pss relay_node"
    unfolding ports_ready_def
  proof (intro conjI allI impI)
    fix i :: nat assume i: "i < N_PORTS"
    have p: "thisPort (gport i relay_node) = of_nat (i + 1)" "port_valid (gport i relay_node)" "\<not> asymmetryMeasurementMode (gport i relay_node)"
      using i by (simp_all add: relay_node_gport example_port_facts)
    have "i = 0 \<or> i = 1 \<or> i = 2 \<or> i = 3" using i by auto
    then have u: "unat (1 + of_nat i :: 16 word) = Suc i" by auto
    show "psss_ready (at_port i relay_node)"
      unfolding psss_ready_def using p u i by (simp add: relay_node_def example_instance_facts)
    show "mdss_ready (mdss_ctx (at_port i relay_node))" using i by (rule relay_node_mdss)
  qed (simp_all add: relay_node_def site_arrays_def tx_wf_def tx_idle_def)
  moreover have "from_slave relay_pss (ginst relay_node)" "unat (pss_localPortNumber relay_pss) < length (selectedState (ginst relay_node))"
    by (simp_all add: from_slave_def lp relay_node_def)
  ultimately show ?thesis using relay_node_ready by (simp add: relay_ready_def)
qed

lemma relay_example:
  "usval \<lparr>subns = 0, nsec = 1500, nsec_msb = 0\<rparr> < 2 ^ 95"
  "sequenceId (fu_head relay_follow_up) = sequenceId (sync_head relay_sync)" "shl1 (logMessageInterval (sync_head relay_sync)) = Some 1"
  "relay_pss = pss_of example_pss (gport 1 relay_node) (sync_report relay_sync relay_follow_up (ts_ts (relay_stamp 1000 9)) (meanLinkDelay (gport 1 relay_node)))
     \<lparr>subns = 0, nsec = 2000, nsec_msb = 0\<rparr> 1"
proof -
  have g: "gport 1 relay_node = example_port 246 1 1" by (rule relay_node_gport) simp
  show "relay_pss = pss_of example_pss (gport 1 relay_node) (sync_report relay_sync relay_follow_up (ts_ts (relay_stamp 1000 9)) (meanLinkDelay (gport 1 relay_node)))
     \<lparr>subns = 0, nsec = 2000, nsec_msb = 0\<rparr> 1"
    unfolding g relay_pss_def by (simp add: relay_stamp_def example_port_facts)
qed (simp_all add: usval_def relay_follow_up_def relay_sync_def ptp_msg_header_template_def shl1_def)

text \<open>The Sync message goes on at the ports 1, 3 and 4.\<close>

theorem relay_witness:
  "\<exists>v u. md_sync_receive_sm_recv_sync (\<lambda>_. 0) example_pss 1 \<lparr>subns = 0, nsec = 1500, nsec_msb = 0\<rparr> (relay_stamp 1000 9) relay_sync relay_node = Some v \<and>
    md_sync_receive_sm_recv_follow_up (\<lambda>_. 0) example_pss 1 \<lparr>subns = 0, nsec = 2000, nsec_msb = 0\<rparr> relay_follow_up v = Some u \<and>
    sends (map (sync_at relay_pss relay_node) (filter (\<lambda>j. port_valid (gport j relay_node) \<and>
      selectedState (ginst relay_node) ! unat (thisPort (gport j relay_node)) = MASTER_PORT \<and>
      thisPort (gport 1 relay_node) \<noteq> thisPort (gport j relay_node)) [0..<4])) (site_eth relay_node) (site_eth u)"
  using relay[OF relay_node_ready(1,2) relay_example relay_node_relays] by blast

text \<open>It leaves port 3, the index of which is 2, at 1300: 700 ns of correction and 300 ns in this node.\<close>

theorem relay_correction_witness:
  "\<exists>v u e g. md_sync_receive_sm_recv_sync (\<lambda>_. 0) example_pss 1 \<lparr>subns = 0, nsec = 1500, nsec_msb = 0\<rparr> (relay_stamp 1000 9) relay_sync relay_node = Some v \<and>
    md_sync_receive_sm_recv_follow_up (\<lambda>_. 0) example_pss 1 \<lparr>subns = 0, nsec = 2000, nsec_msb = 0\<rparr> relay_follow_up v = Some u \<and>
    md_sync_send_sm_txts 0 (relay_stamp 1300 0) (mdss_ctx (at_port 2 u)) = Some e \<and> sends [(thisPort (gport 2 relay_node), follow_up_frame g)] (site_eth u) (eth e) \<and>
    unat (correctionField (fu_head g)) = 1000 * 65536"
proof -
  have g: "gport 1 relay_node = example_port 246 1 1" "gport 2 relay_node = example_port 246 1 2" by (simp_all add: relay_node_gport)
  have d: "meanLinkDelay (gport 1 relay_node) = zero_ns" unfolding g by (rule example_port_facts)
  have j: "forwards relay_pss relay_node 2" "ts_sequenceID (relay_stamp 1300 0) = syncSequenceId (mdents relay_node ! 2)"
    "syncSequenceId (mdents relay_node ! 2) \<noteq> 0xFFFF"
    by (simp_all add: forwards_def psss_forwards_def relay_pss_def pss_of_def g example_port_facts)
      (simp_all add: relay_node_def relay_stamp_def init_mdentity_def blank_mdent_def)
  have n: "usval (meanLinkDelay (gport 1 relay_node)) \<le> usval (ts_ts (relay_stamp 1000 9))" "usval (ts_ts (relay_stamp 1000 9)) \<le> usval (ts_ts (relay_stamp 1300 0))"
    unfolding d by (simp_all add: relay_stamp_def usval_def)
  have f: "carry_error (uscaledns_uint64 (correctionField (sync_head relay_sync))) (uscaledns_uint64 (correctionField (fu_head relay_follow_up))) = 0"
    "carry_error (pss_followUpCorrectionField relay_pss) (uscaledns_subtract (ts_ts (relay_stamp 1300 0)) (pss_upstreamTxTime relay_pss)) = 0"
    by (simp_all add: carry_error_def relay_sync_def relay_follow_up_def ptp_msg_header_template_def uscaledns_uint64_def relay_pss_def pss_of_def sync_report_def
      uscaledns_add_def uscaledns_subtract_def check_overflow_def Let_def relay_stamp_def)
  have c: "unat (correctionField (sync_head relay_sync)) + unat (correctionField (fu_head relay_follow_up)) + usval (meanLinkDelay (gport 1 relay_node)) +
      (usval (ts_ts (relay_stamp 1300 0)) - usval (ts_ts (relay_stamp 1000 9))) = 1000 * 65536"
    unfolding d by (simp add: relay_sync_def relay_follow_up_def ptp_msg_header_template_def relay_stamp_def usval_def)
  show ?thesis
    using relay_correction[OF relay_node_ready(1,2) relay_example relay_node_relays _ j n] unfolding f c by simp blast
qed

end
