(* ===== verification/ClockMaster.thy ===== *)
theory ClockMaster
  imports SyncReceive
begin

text \<open>
  The machines of the clock of the node itself: ClockMasterSyncReceive
  (\<open>time_sync/clock_master_sync_receive_sm.c\<close>) takes over the time of the clock, ClockMasterSyncSend
  (\<open>time_sync/clock_master_sync_send_sm.c\<close>) hands it to the SiteSyncSync machine once a second.
\<close>

section \<open>State\<close>

record ClockSourceTimeInvoke =
  cs_domainNumber :: byte
  sourceTime :: UScaledNs
  timeBaseIndicator :: "16 word"
  cs_lastGmPhaseChange :: UScaledNs
  cs_lastGmFreqChange :: double

datatype ClockMasterSyncReceiveSMState = CMSR_REACTION | CMSR_BEFORE_INIT | CMSR_INIT | CMSR_INITIALIZING | CMSR_RECEIVE_SOURCE_TIME

record ClockMasterSyncReceiveSM =
  rcvdClockSourceReq :: bool
  rcvdClockSourceReqPtr :: "ClockSourceTimeInvoke cptr"
  rcvdLocalClockTickCMSR :: bool
  cmsr_state :: ClockMasterSyncReceiveSMState
  cmsr_last_state :: ClockMasterSyncReceiveSMState

datatype ClockMasterSyncSendSMState = CMSS_REACTION | CMSS_BEFORE_INIT | CMSS_INIT | CMSS_INITIALIZING | CMSS_SEND_SYNC_INDICATION

record ClockMasterSyncSendSM =
  syncSendTime :: UScaledNs
  txPSSyncPtrCMSS :: "PortSyncSync cptr"
  cmss_state :: ClockMasterSyncSendSMState
  cmss_last_state :: ClockMasterSyncSendSMState

record ClockMaster = MdsrSite +
  cmsr :: ClockMasterSyncReceiveSM
  cmss :: ClockMasterSyncSendSM

section \<open>ClockMasterSyncReceive\<close>

definition computeGmRateRatio :: "'a ClockMaster_scheme \<Rightarrow> 'a ClockMaster_scheme" where
  "computeGmRateRatio s = s\<lparr>ginst := (ginst s)\<lparr>gmRateRatio := 1\<rparr>\<rparr>"

definition updateMasterTime :: "'a ClockMaster_scheme \<Rightarrow> (UScaledNs \<times> 'a ClockMaster_scheme) option" where
  "updateMasterTime s = do {
     r \<leftarrow> deref (rcvdClockSourceReqPtr (cmsr s));
     Some (sourceTime r, s\<lparr>ginst := (ginst s)\<lparr>masterTime := sourceTime r\<rparr>\<rparr>)
   }"

definition cmsr_all_state_transition :: "'a ClockMaster_scheme \<Rightarrow> ClockMasterSyncReceiveSMState" where
  "cmsr_all_state_transition s =
     (if BEGIN (ginst s) \<or> \<not> instanceEnable (ginst s) then CMSR_INITIALIZING else cmsr_state (cmsr s))"

definition cmsr_initializing_action :: "'a ClockMaster_scheme \<Rightarrow> 'a ClockMaster_scheme" where
  "cmsr_initializing_action s = s\<lparr>ginst := (ginst s)\<lparr>masterTime := \<lparr>subns = 0, nsec = 0, nsec_msb = 0\<rparr>,
       localTime := \<lparr>subns = 0, nsec = 0, nsec_msb = 0\<rparr>, clockSourceTimeBaseIndicatorOld := 0\<rparr>,
     cmsr := (cmsr s)\<lparr>rcvdClockSourceReq := False, rcvdLocalClockTickCMSR := False\<rparr>\<rparr>"

definition cmsr_initializing_transition :: "'a ClockMaster_scheme \<Rightarrow> ClockMasterSyncReceiveSMState" where
  "cmsr_initializing_transition s =
     (if rcvdClockSourceReq (cmsr s) \<or> rcvdLocalClockTickCMSR (cmsr s) then CMSR_RECEIVE_SOURCE_TIME else CMSR_INITIALIZING)"

text \<open>The phase and the frequency change of the request are assigned to themselves.\<close>

definition cmsr_receive_action :: "'a ClockMaster_scheme \<Rightarrow> 'a ClockMaster_scheme option" where
  "cmsr_receive_action s = do {
     (current_ts, s) \<leftarrow> updateMasterTime s;
     let s = s\<lparr>ginst := (ginst s)\<lparr>localTime := current_ts\<rparr>\<rparr>;
     s \<leftarrow> (if rcvdClockSourceReq (cmsr s) then do {
         let s = computeGmRateRatio s;
         r \<leftarrow> deref (rcvdClockSourceReqPtr (cmsr s));
         Some (s\<lparr>ginst := (ginst s)\<lparr>clockSourceTimeBaseIndicatorOld := clockSourceTimeBaseIndicator (ginst s),
           clockSourceTimeBaseIndicator := timeBaseIndicator r\<rparr>\<rparr>) }
       else Some s);
     Some (s\<lparr>cmsr := (cmsr s)\<lparr>rcvdClockSourceReq := False, rcvdLocalClockTickCMSR := False\<rparr>\<rparr>)
   }"

text \<open>Whether the state is left and entered again.\<close>

definition cmsr_receive_again :: "'a ClockMaster_scheme \<Rightarrow> bool" where
  "cmsr_receive_again s \<longleftrightarrow> rcvdClockSourceReq (cmsr s) \<or> rcvdLocalClockTickCMSR (cmsr s)"

definition cmsr_goto :: "ClockMasterSyncReceiveSMState \<Rightarrow> 'a ClockMaster_scheme \<Rightarrow> 'a ClockMaster_scheme" where
  "cmsr_goto st s = s\<lparr>cmsr := (cmsr s)\<lparr>cmsr_state := st\<rparr>\<rparr>"

definition cmsr_body :: "'a ClockMaster_scheme \<Rightarrow> ('a ClockMaster_scheme \<times> bool) option" where
  "cmsr_body s0 = do {
     let state_change = cmsr_last_state (cmsr s0) \<noteq> cmsr_state (cmsr s0);
     let s = s0\<lparr>cmsr := (cmsr s0)\<lparr>cmsr_last_state := cmsr_state (cmsr s0)\<rparr>\<rparr>;
     s \<leftarrow> (case cmsr_state (cmsr s) of
         CMSR_INIT \<Rightarrow> Some (cmsr_goto CMSR_INITIALIZING s)
       | CMSR_INITIALIZING \<Rightarrow> do {
           let s = (if state_change then cmsr_initializing_action s else s);
           Some (cmsr_goto (cmsr_initializing_transition s) s) }
       | CMSR_RECEIVE_SOURCE_TIME \<Rightarrow> do {
           s \<leftarrow> (if state_change then cmsr_receive_action s else Some s);
           let s = (if cmsr_receive_again s then s\<lparr>cmsr := (cmsr s)\<lparr>cmsr_last_state := CMSR_REACTION\<rparr>\<rparr> else s);
           Some (cmsr_goto CMSR_RECEIVE_SOURCE_TIME s) }
       | CMSR_REACTION \<Rightarrow> Some s
       | CMSR_BEFORE_INIT \<Rightarrow> Some s);
     Some (s, cmsr_last_state (cmsr s) \<noteq> cmsr_state (cmsr s))
   }"

definition clock_master_sync_receive_sm_run :: "'a ClockMaster_scheme \<Rightarrow> 'a ClockMaster_scheme option" where
  "clock_master_sync_receive_sm_run s = sm_loop cmsr_body (cmsr_goto (cmsr_all_state_transition s) s)"

definition init_clock_master_sync_receive_sm :: "'a ClockMaster_scheme \<Rightarrow> 'a ClockMaster_scheme option" where
  "init_clock_master_sync_receive_sm s =
     clock_master_sync_receive_sm_run (s\<lparr>cmsr := (cmsr s)\<lparr>cmsr_last_state := CMSR_BEFORE_INIT, cmsr_state := CMSR_INIT, rcvdClockSourceReqPtr := Null\<rparr>\<rparr>)"

definition clock_master_sync_receive_sm_recv_source_time :: "ClockSourceTimeInvoke \<Rightarrow> 'a ClockMaster_scheme \<Rightarrow> 'a ClockMaster_scheme option" where
  "clock_master_sync_receive_sm_recv_source_time r s = do {
     _ \<leftarrow> cfree (rcvdClockSourceReqPtr (cmsr s));
     clock_master_sync_receive_sm_run (s\<lparr>cmsr := (cmsr s)\<lparr>rcvdClockSourceReq := True, rcvdClockSourceReqPtr := Live r\<rparr>\<rparr>)
   }"

text \<open>The request itself is not looked at.\<close>

definition clock_master_sync_receive_sm_ClockSourceReq :: "ClockSourceTimeInvoke \<Rightarrow> 'a ClockMaster_scheme \<Rightarrow> 'a ClockMaster_scheme option" where
  "clock_master_sync_receive_sm_ClockSourceReq r s =
     clock_master_sync_receive_sm_run (s\<lparr>cmsr := (cmsr s)\<lparr>rcvdClockSourceReq := True\<rparr>\<rparr>)"

section \<open>ClockMasterSyncSend\<close>

text \<open>\<open>now\<close> is what the registers of the clock hold when it is read. The structure is filled completely.\<close>

definition setPSSyncCMSS :: "LocalClockTimestamp \<Rightarrow> 'a ClockMaster_scheme \<Rightarrow> PortSyncSync \<times> 'a ClockMaster_scheme" where
  "setPSSyncCMSS now s =
     (let currentTime = get_current_timestamp now in
      (\<lparr>pss_domainNumber = 0, pss_localPortNumber = 0,
        pss_syncReceiptTimeoutTime = \<lparr>subns = 0xFFFF, nsec = 0xFFFFFFFFFFFFFFFF, nsec_msb = 0xFFFF\<rparr>,
        pss_followUpCorrectionField = uscaledns_subtract currentTime (localTime (ginst s)),
        pss_sourcePortIdentity = \<lparr>clockIdentity = thisClock (ginst s), portNumber = 0\<rparr>,
        pss_logMessageInterval = clockMasterLogSyncInterval (ginst s),
        pss_preciseOriginTimestamp = ptpmsgtimestamp_uscaledns (masterTime (ginst s)),
        pss_upstreamTxTime = currentTime, pss_rateRatio = gmRateRatio (ginst s),
        pss_gmTimeBaseIndicator = clockSourceTimeBaseIndicator (ginst s), pss_lastGmPhaseChange = clockSourcePhaseOffset (ginst s),
        pss_lastGmFreqChange = clockSourceFreqOffset (ginst s)\<rparr>,
       s\<lparr>rtc := rtc_latch (rtc s)\<rparr>))"

definition txPSSyncCMSS :: "(nat \<Rightarrow> 16 word) \<Rightarrow> UScaledNs \<Rightarrow> 'a ClockMaster_scheme \<Rightarrow> 'a ClockMaster_scheme option" where
  "txPSSyncCMSS rnd ts s = do {
     p \<leftarrow> deref (txPSSyncPtrCMSS (cmss s));
     site_sync_sync_sm_recv_pss rnd ts p s
   }"

definition computeClockMasterSyncInterval :: UScaledNs where
  "computeClockMasterSyncInterval = \<lparr>subns = 0, nsec = ONE_SEC_NS, nsec_msb = 0\<rparr>"

definition cmss_all_state_transition :: "'a ClockMaster_scheme \<Rightarrow> ClockMasterSyncSendSMState" where
  "cmss_all_state_transition s =
     (if BEGIN (ginst s) \<or> \<not> instanceEnable (ginst s) then CMSS_INITIALIZING else cmss_state (cmss s))"

definition cmss_initializing_action :: "UScaledNs \<Rightarrow> 'a ClockMaster_scheme \<Rightarrow> 'a ClockMaster_scheme" where
  "cmss_initializing_action ts s = s\<lparr>ginst := (ginst s)\<lparr>clockMasterSyncInterval := computeClockMasterSyncInterval\<rparr>,
     cmss := (cmss s)\<lparr>syncSendTime := uscaledns_add ts computeClockMasterSyncInterval\<rparr>\<rparr>"

definition cmss_initializing_transition :: "UScaledNs \<Rightarrow> 'a ClockMaster_scheme \<Rightarrow> ClockMasterSyncSendSMState" where
  "cmss_initializing_transition ts s =
     (if uscaledns_compare ts (syncSendTime (cmss s)) \<ge> 0 then CMSS_SEND_SYNC_INDICATION else CMSS_INITIALIZING)"

definition cmss_send_action :: "(nat \<Rightarrow> 16 word) \<Rightarrow> LocalClockTimestamp \<Rightarrow> UScaledNs \<Rightarrow> 'a ClockMaster_scheme \<Rightarrow> 'a ClockMaster_scheme option" where
  "cmss_send_action rnd now ts s = do {
     _ \<leftarrow> cfree (txPSSyncPtrCMSS (cmss s));
     let (p, s) = setPSSyncCMSS now s;
     s \<leftarrow> txPSSyncCMSS rnd ts (s\<lparr>cmss := (cmss s)\<lparr>txPSSyncPtrCMSS := Live p\<rparr>\<rparr>);
     Some (s\<lparr>ginst := (ginst s)\<lparr>clockMasterSyncInterval := computeClockMasterSyncInterval\<rparr>,
       cmss := (cmss s)\<lparr>syncSendTime := uscaledns_add ts computeClockMasterSyncInterval\<rparr>\<rparr>)
   }"

definition cmss_send_again :: "UScaledNs \<Rightarrow> 'a ClockMaster_scheme \<Rightarrow> bool" where
  "cmss_send_again ts s \<longleftrightarrow> uscaledns_compare ts (syncSendTime (cmss s)) \<ge> 0"

definition cmss_goto :: "ClockMasterSyncSendSMState \<Rightarrow> 'a ClockMaster_scheme \<Rightarrow> 'a ClockMaster_scheme" where
  "cmss_goto st s = s\<lparr>cmss := (cmss s)\<lparr>cmss_state := st\<rparr>\<rparr>"

definition cmss_body :: "(nat \<Rightarrow> 16 word) \<Rightarrow> LocalClockTimestamp \<Rightarrow> UScaledNs \<Rightarrow> 'a ClockMaster_scheme \<Rightarrow> ('a ClockMaster_scheme \<times> bool) option" where
  "cmss_body rnd now ts s0 = do {
     let state_change = cmss_last_state (cmss s0) \<noteq> cmss_state (cmss s0);
     let s = s0\<lparr>cmss := (cmss s0)\<lparr>cmss_last_state := cmss_state (cmss s0)\<rparr>\<rparr>;
     s \<leftarrow> (case cmss_state (cmss s) of
         CMSS_INIT \<Rightarrow> Some (cmss_goto CMSS_INITIALIZING s)
       | CMSS_INITIALIZING \<Rightarrow> do {
           let s = (if state_change then cmss_initializing_action ts s else s);
           Some (cmss_goto (cmss_initializing_transition ts s) s) }
       | CMSS_SEND_SYNC_INDICATION \<Rightarrow> do {
           s \<leftarrow> (if state_change then cmss_send_action rnd now ts s else Some s);
           let s = (if cmss_send_again ts s then s\<lparr>cmss := (cmss s)\<lparr>cmss_last_state := CMSS_REACTION\<rparr>\<rparr> else s);
           Some (cmss_goto CMSS_SEND_SYNC_INDICATION s) }
       | CMSS_REACTION \<Rightarrow> Some s
       | CMSS_BEFORE_INIT \<Rightarrow> Some s);
     Some (s, cmss_last_state (cmss s) \<noteq> cmss_state (cmss s))
   }"

definition clock_master_sync_send_sm_run :: "(nat \<Rightarrow> 16 word) \<Rightarrow> LocalClockTimestamp \<Rightarrow> UScaledNs \<Rightarrow> 'a ClockMaster_scheme \<Rightarrow> 'a ClockMaster_scheme option" where
  "clock_master_sync_send_sm_run rnd now ts s = sm_loop (cmss_body rnd now ts) (cmss_goto (cmss_all_state_transition s) s)"

definition init_clock_master_sync_send_sm :: "(nat \<Rightarrow> 16 word) \<Rightarrow> LocalClockTimestamp \<Rightarrow> 'a ClockMaster_scheme \<Rightarrow> 'a ClockMaster_scheme option" where
  "init_clock_master_sync_send_sm rnd now s =
     clock_master_sync_send_sm_run rnd now \<lparr>subns = 0, nsec = 0, nsec_msb = 0\<rparr>
       (s\<lparr>cmss := (cmss s)\<lparr>cmss_state := CMSS_INIT, cmss_last_state := CMSS_BEFORE_INIT, txPSSyncPtrCMSS := Null\<rparr>\<rparr>)"

end
