(* ===== verification/ClockMaster_Props.thy ===== *)
theory ClockMaster_Props
  imports ClockMaster SyncReceive_Props
begin

text \<open>
  The time of the grandmaster: what it sends is its own time, exact to a nanosecond, and its clock stays
  as it is.
\<close>

section \<open>The time that is taken over\<close>

definition cmsr_ready :: "'a ClockMaster_scheme \<Rightarrow> bool" where
  "cmsr_ready s \<longleftrightarrow> \<not> BEGIN (ginst s) \<and> instanceEnable (ginst s) \<and> cmsr_last_state (cmsr s) = cmsr_state (cmsr s) \<and>
     cmsr_state (cmsr s) \<in> {CMSR_INITIALIZING, CMSR_RECEIVE_SOURCE_TIME} \<and> rcvdClockSourceReqPtr (cmsr s) \<noteq> Dangling"

definition source_inst :: "ClockSourceTimeInvoke \<Rightarrow> PerPTPInstanceGlobal \<Rightarrow> PerPTPInstanceGlobal" where
  "source_inst r g = g\<lparr>masterTime := sourceTime r, localTime := sourceTime r, gmRateRatio := 1,
     clockSourceTimeBaseIndicatorOld := clockSourceTimeBaseIndicator g, clockSourceTimeBaseIndicator := timeBaseIndicator r\<rparr>"

definition source_sm :: "ClockSourceTimeInvoke \<Rightarrow> ClockMasterSyncReceiveSM" where
  "source_sm r = \<lparr>rcvdClockSourceReq = False, rcvdClockSourceReqPtr = Live r, rcvdLocalClockTickCMSR = False,
     cmsr_state = CMSR_RECEIVE_SOURCE_TIME, cmsr_last_state = CMSR_RECEIVE_SOURCE_TIME\<rparr>"

lemma cmsr_run:
  assumes "cmsr_ready s"
  shows "clock_master_sync_receive_sm_recv_source_time r s = Some (s\<lparr>ginst := source_inst r (ginst s), cmsr := source_sm r\<rparr>)"
proof -
  define s0 where "s0 = s\<lparr>cmsr := (cmsr s)\<lparr>rcvdClockSourceReq := True, rcvdClockSourceReqPtr := Live r\<rparr>\<rparr>"
  define s1 where "s1 = s0\<lparr>cmsr := (cmsr s0)\<lparr>cmsr_state := CMSR_RECEIVE_SOURCE_TIME,
    cmsr_last_state := (if cmsr_state (cmsr s) = CMSR_INITIALIZING then CMSR_INITIALIZING else CMSR_REACTION)\<rparr>\<rparr>"
  have "clock_master_sync_receive_sm_recv_source_time r s = sm_loop cmsr_body s0"
    using assms cfree_ok[of "rcvdClockSourceReqPtr (cmsr s)"]
    by (auto simp: clock_master_sync_receive_sm_recv_source_time_def clock_master_sync_receive_sm_run_def cmsr_goto_def
      cmsr_all_state_transition_def s0_def cmsr_ready_def)
  also have "cmsr_body s0 = Some (s1, True)"
    using assms by (auto simp: cmsr_body_def Let_def cmsr_goto_def s0_def s1_def cmsr_ready_def cmsr_initializing_transition_def cmsr_receive_again_def)
  then have "sm_loop cmsr_body s0 = sm_loop cmsr_body s1" by (rule sm_loop_turn)
  also have "cmsr_body s1 = Some (s\<lparr>ginst := source_inst r (ginst s), cmsr := source_sm r\<rparr>, False)"
    by (auto simp: cmsr_body_def Let_def cmsr_goto_def s0_def s1_def cmsr_receive_action_def updateMasterTime_def computeGmRateRatio_def
      cmsr_receive_again_def source_inst_def source_sm_def)
  then have "sm_loop cmsr_body s1 = Some (s\<lparr>ginst := source_inst r (ginst s), cmsr := source_sm r\<rparr>)" by (rule sm_loop_stop)
  finally show ?thesis .
qed

section \<open>The message of the clock\<close>

definition cmss_ready :: "'a ClockMaster_scheme \<Rightarrow> bool" where
  "cmss_ready s \<longleftrightarrow> \<not> BEGIN (ginst s) \<and> instanceEnable (ginst s) \<and> cmss_last_state (cmss s) = cmss_state (cmss s) \<and>
     cmss_state (cmss s) \<in> {CMSS_INITIALIZING, CMSS_SEND_SYNC_INDICATION} \<and> txPSSyncPtrCMSS (cmss s) \<noteq> Dangling"

definition clock_pss :: "LocalClockTimestamp \<Rightarrow> PerPTPInstanceGlobal \<Rightarrow> PortSyncSync" where
  "clock_pss now g = \<lparr>pss_domainNumber = 0, pss_localPortNumber = 0,
     pss_syncReceiptTimeoutTime = \<lparr>subns = 0xFFFF, nsec = 0xFFFFFFFFFFFFFFFF, nsec_msb = 0xFFFF\<rparr>,
     pss_followUpCorrectionField = uscaledns_subtract (get_current_timestamp now) (localTime g),
     pss_sourcePortIdentity = \<lparr>clockIdentity = thisClock g, portNumber = 0\<rparr>,
     pss_logMessageInterval = clockMasterLogSyncInterval g,
     pss_preciseOriginTimestamp = ptpmsgtimestamp_uscaledns (masterTime g),
     pss_upstreamTxTime = get_current_timestamp now, pss_rateRatio = gmRateRatio g,
     pss_gmTimeBaseIndicator = clockSourceTimeBaseIndicator g, pss_lastGmPhaseChange = clockSourcePhaseOffset g,
     pss_lastGmFreqChange = clockSourceFreqOffset g\<rparr>"

lemma setPSSyncCMSS_eq: "setPSSyncCMSS now s = (clock_pss now (ginst s), s\<lparr>rtc := rtc_latch (rtc s)\<rparr>)"
  by (simp add: setPSSyncCMSS_def clock_pss_def Let_def)

text \<open>The clock log does not matter to what the machines do.\<close>

lemma relay_ready_cong:
  assumes "relay_ready p s" "sss t = sss s" "css t = css s" "ginst t = ginst s" "gports t = gports s" "mdents t = mdents s"
    "site_eth t = site_eth s" "psss_sms t = psss_sms s" "mdss_sms t = mdss_sms s"
  shows "relay_ready p t" "forwards p t = forwards p s" "sync_at p t = sync_at p s" "request_at p t = request_at p s"
  using assms
  by (simp_all add: relay_ready_def sss_ready_def css_ready_def css_wf_def css_takes_def ports_ready_def site_arrays_def forwards_def sync_at_def
    request_at_def fun_eq_iff)

lemma cmss_due:
  assumes c: "cmss_ready s" and due: "uscaledns_compare ts (syncSendTime (cmss s)) \<ge> 0" and ts: "usval ts < 2 ^ 95"
    and p: "p = clock_pss now (ginst s)" and r: "relay_ready p s"
  obtains t where "clock_master_sync_send_sm_run rnd now ts s = Some t" "cmss_ready t"
    "syncSendTime (cmss t) = uscaledns_add ts computeClockMasterSyncInterval"
    "relayed p (s\<lparr>rtc := rtc_latch (rtc s)\<rparr>) t" "cmsr t = cmsr s" "mdsr_sms t = mdsr_sms s" "pssr_sms t = pssr_sms s"
proof -
  define s1 where "s1 = s\<lparr>cmss := (cmss s)\<lparr>cmss_state := CMSS_SEND_SYNC_INDICATION,
    cmss_last_state := (if cmss_state (cmss s) = CMSS_INITIALIZING then CMSS_INITIALIZING else CMSS_REACTION)\<rparr>\<rparr>"
  have "clock_master_sync_send_sm_run rnd now ts s = sm_loop (cmss_body rnd now ts) s"
    using c by (simp add: clock_master_sync_send_sm_run_def cmss_goto_def cmss_all_state_transition_def cmss_ready_def)
  moreover have "cmss_body rnd now ts s = Some (s1, True)"
    using c due by (auto simp: cmss_body_def Let_def cmss_goto_def s1_def cmss_ready_def cmss_initializing_transition_def cmss_send_again_def)
  ultimately have run: "clock_master_sync_send_sm_run rnd now ts s = sm_loop (cmss_body rnd now ts) s1"
    by (simp add: sm_loop_turn)
  let ?s1 = "s1\<lparr>cmss := (cmss s1)\<lparr>cmss_last_state := CMSS_SEND_SYNC_INDICATION\<rparr>\<rparr>"
  define s2 where "s2 = ?s1\<lparr>rtc := rtc_latch (rtc s), cmss := (cmss ?s1)\<lparr>txPSSyncPtrCMSS := Live p\<rparr>\<rparr>"
  let ?s0 = "s\<lparr>rtc := rtc_latch (rtc s)\<rparr>"
  have r2: "relay_ready p s2" by (rule relay_ready_cong(1)[OF r]) (simp_all add: s2_def s1_def)
  then obtain t where t: "site_sync_sync_sm_recv_pss rnd ts p s2 = Some t" "site_done p s2 t"
    by (auto simp: relay_ready_def intro: site_run)
  have "same_site ?s0 s2" by (auto simp: same_site_def same_relay_node_def s2_def s1_def)
  then have rel: "relayed p ?s0 t"
    by (rule same_relayed[OF _ _ _ t(2)]) (use r in \<open>simp_all add: relay_ready_def ports_ready_def css_takes_def site_arrays_def\<close>)
  have mt: "cmss t = cmss s2" "cmsr t = cmsr s2" "mdsr_sms t = mdsr_sms s2" "pssr_sms t = pssr_sms s2"
    using t(2) by (cases t; cases s2; simp add: site_done_def)+
  define u where "u = t\<lparr>ginst := (ginst t)\<lparr>clockMasterSyncInterval := computeClockMasterSyncInterval\<rparr>,
    cmss := (cmss t)\<lparr>syncSendTime := uscaledns_add ts computeClockMasterSyncInterval\<rparr>\<rparr>"
  have "cfree (txPSSyncPtrCMSS (cmss s)) \<noteq> None" using c cfree_ok by (auto simp: cmss_ready_def)
  moreover have "setPSSyncCMSS now ?s1 = (p, ?s1\<lparr>rtc := rtc_latch (rtc s)\<rparr>)" by (simp add: setPSSyncCMSS_eq s1_def p)
  moreover have "txPSSyncPtrCMSS (cmss s2) = Live p" by (simp add: s2_def)
  ultimately have act: "cmss_send_action rnd now ts ?s1 = Some u"
    using t(1) by (auto simp: cmss_send_action_def txPSSyncCMSS_def u_def s1_def s2_def)
  have "\<not> cmss_send_again ts u"
    using later_by_a_second[OF ts] by (simp add: cmss_send_again_def u_def computeClockMasterSyncInterval_def)
  moreover have "cmss_goto CMSS_SEND_SYNC_INDICATION u = u" "cmss_state (cmss u) = CMSS_SEND_SYNC_INDICATION" "cmss_last_state (cmss u) = CMSS_SEND_SYNC_INDICATION"
    by (simp_all add: cmss_goto_def u_def mt s2_def s1_def)
  moreover have "cmss_state (cmss s1) = CMSS_SEND_SYNC_INDICATION" "cmss_last_state (cmss s1) \<noteq> CMSS_SEND_SYNC_INDICATION"
    by (simp_all add: s1_def)
  ultimately have "cmss_body rnd now ts s1 = Some (u, False)" using act by (simp add: cmss_body_def)
  then have "clock_master_sync_send_sm_run rnd now ts s = Some u" unfolding run by (rule sm_loop_stop)
  moreover have "relayed p ?s0 u"
    by (rule relayed_node[OF rel]) (simp_all add: u_def same_relay_node_def)
  moreover have "cmss_ready u"
    using rel c by (simp add: cmss_ready_def relayed_def same_relay_node_def u_def mt s2_def s1_def)
  ultimately show thesis by (intro that[of u]) (simp_all add: u_def mt s2_def s1_def)
qed

section \<open>The arithmetic of the readings\<close>

lemma unat_bound: "unat (w :: 'w::len word) < 2 ^ LENGTH('w)"
  by (rule unsigned_less)

text \<open>Seconds and nanoseconds, put together in 64 bits.\<close>

lemma unat_seconds:
  fixes s n :: "32 word"
  assumes "unat n < 1000000000"
  shows "unat (ucast s * 1000000000 + ucast n :: 64 word) = unat s * 1000000000 + unat n"
proof -
  have s: "unat s < 4294967296" using unat_bound[of s] by simp
  have u: "unat (ucast w :: 64 word) = unat w" for w :: "32 word"
    using unat_bound[of w] by (simp add: unsigned_ucast_eq take_bit_nat_eq_self)
  have "unat (ucast s * 1000000000 :: 64 word) = unat s * 1000000000"
    using s by (simp add: unat_word_ariths u)
  then show ?thesis using s assms by (simp add: unat_word_ariths u)
qed

text \<open>The clock counts 256ths of a nanosecond.\<close>

definition proper_reading :: "LocalClockTimestamp \<Rightarrow> bool" where
  "proper_reading n \<longleftrightarrow> nanosecond n < 1000000000"

lemma nsec_reading:
  assumes "proper_reading n"
  shows "unat (nsec (get_current_timestamp n)) = unat (second_l n) * 1000000000 + unat (nanosecond n)"
  using assms unat_seconds[of "nanosecond n" "second_l n"]
  by (simp add: get_current_timestamp_def proper_reading_def word_less_nat_alt)

lemma usval_reading:
  assumes "proper_reading n"
  shows "256 dvd usval (get_current_timestamp n)" "usval (get_current_timestamp n) < 2 ^ 79"
    "unat (nsec (get_current_timestamp n)) = usval (get_current_timestamp n) div 65536" "nsec_msb (get_current_timestamp n) = 0"
    "unat (nsec (get_current_timestamp n)) < 4294967296 * 1000000000"
proof -
  let ?t = "get_current_timestamp n"
  have "unat (nanosecond n) < 1000000000" using assms by (simp add: proper_reading_def word_less_nat_alt)
  moreover have "unat (second_l n) < 4294967296" using unat_bound[of "second_l n"] by simp
  ultimately show b: "unat (nsec ?t) < 4294967296 * 1000000000" unfolding nsec_reading[OF assms] by simp
  show m: "nsec_msb ?t = 0" by (simp add: get_current_timestamp_def)
  have u: "usval ?t = unat (subns ?t) + 65536 * unat (nsec ?t)" by (simp add: usval_def m)
  have s: "unat (subns ?t) < 65536" using unat_bound[of "subns ?t"] by simp
  show "unat (nsec ?t) = usval ?t div 65536" unfolding u using s by simp
  show "usval ?t < 2 ^ 79" unfolding u using s b by simp
  have "take_bit 8 (subns ?t) = 0"
    by (rule bit_eqI) (auto simp: get_current_timestamp_def bit_simps bit_ucast_iff)
  then have "take_bit 8 (unat (subns ?t)) = 0" by (metis unsigned_0 unsigned_take_bit_eq)
  then have "unat (subns ?t) mod 256 = 0" by (simp add: take_bit_eq_mod)
  then show "256 dvd usval ?t" unfolding u by (simp add: dvd_add dvd_mult2 mod_eq_0_iff_dvd)
qed

lemma coarse_sum:
  assumes "256 dvd usval a" "256 dvd usval b" "usval a + usval b < 2 ^ 96"
  shows "exact_sum a b" "256 dvd usval (uscaledns_add a b)" "usval (uscaledns_add a b) = usval a + usval b"
proof -
  have s: "unat (subns t) = usval t mod 65536" for t
    using unat_bound[of "subns t"] by (subst usval_nested) (simp only: mod_mult_self2, simp)
  have d: "256 dvd usval t mod 65536" if "256 dvd usval t" for t using that by (simp add: dvd_mod_iff)
  have "\<not> (256 dvd (65535 :: nat))" by simp
  then have "unat (subns a) + unat (subns b) \<noteq> 65535" unfolding s using dvd_add[OF d[OF assms(1)] d[OF assms(2)]] by metis
  then show "exact_sum a b" using assms(3) by (simp add: exact_sum_def)
  then show "usval (uscaledns_add a b) = usval a + usval b" by (rule usval_exact_sum)
  then show "256 dvd usval (uscaledns_add a b)" using assms(1,2) by simp
qed

text \<open>The time as it is sent loses its fraction.\<close>

lemma origin_reading:
  assumes "proper_reading n"
  shows "usval (uscaledns_ptpmsgtimestamp (ptpmsgtimestamp_uscaledns (get_current_timestamp n))) =
    usval (get_current_timestamp n) - unat (subns (get_current_timestamp n))"
proof -
  let ?t = "get_current_timestamp n"
  note r = usval_reading[OF assms]
  have d: "unat (nsec ?t) div 1000000000 < 2 ^ 32" using r(5) by (simp add: div_less_iff_less_mult)
  have m: "unat (nsec ?t) mod 1000000000 < 1000000000" by simp
  have h: "unat (ucast (nsec ?t div 1000000000) :: 32 word) = unat (nsec ?t) div 1000000000"
    using d by (simp add: unsigned_ucast_eq unat_div take_bit_nat_eq_self)
  have l: "unat (ucast (nsec ?t mod 1000000000) :: 32 word) = unat (nsec ?t) mod 1000000000"
    using m by (simp add: unsigned_ucast_eq unat_mod take_bit_nat_eq_self)
  have "unat (nsec (uscaledns_ptpmsgtimestamp (ptpmsgtimestamp_uscaledns ?t))) = unat (nsec ?t)"
    using unat_seconds[of "ucast (nsec ?t mod 1000000000)" "ucast (nsec ?t div 1000000000)"] m unfolding h l
    by (simp add: uscaledns_ptpmsgtimestamp_def ptpmsgtimestamp_uscaledns_def)
  then show ?thesis using r(4) by (simp add: usval_def uscaledns_ptpmsgtimestamp_def)
qed


section \<open>The grandmaster\<close>

text \<open>The node at the moment its own time, read twice, is handed to the SiteSyncSync machine.\<close>

lemma clock_pss_times:
  assumes "proper_reading n" "proper_reading n'" "usval (get_current_timestamp n) \<le> usval (get_current_timestamp n')"
    and "masterTime g = get_current_timestamp n" "localTime g = get_current_timestamp n"
  shows "usval (node_time q (clock_pss n' g)) = usval (get_current_timestamp n')"
    and "usval (master_time q (clock_pss n' g)) + unat (subns (get_current_timestamp n)) = usval (get_current_timestamp n')"
proof -
  note r = usval_reading[OF assms(1)] and r' = usval_reading[OF assms(2)]
  let ?t = "get_current_timestamp n" and ?t' = "get_current_timestamp n'" and ?p = "clock_pss n' g"
  let ?o = "uscaledns_ptpmsgtimestamp (ptpmsgtimestamp_uscaledns ?t)" and ?c = "uscaledns_subtract ?t' ?t"
  have z: "usval zero_ns = 0" by (simp add: usval_def)
  have ld: "link_delay q ?p = zero_ns" by (simp add: link_delay_def clock_pss_def)
  have s: "unat (subns ?t) \<le> usval ?t" by (simp add: usval_def)
  have so: "unat (subns ?t) = usval ?t mod 65536"
    using unat_bound[of "subns ?t"] by (subst usval_nested) (simp only: mod_mult_self2, simp)
  have ho: "usval ?o = usval ?t - usval ?t mod 65536" using origin_reading[OF assms(1)] so by simp
  have "256 dvd usval ?t mod 65536" using r(1) by (simp add: dvd_mod_iff)
  then have o: "256 dvd usval ?o" unfolding ho using r(1) by (simp add: dvd_diff_nat)
  have c: "usval ?c = usval ?t' - usval ?t" by (rule usval_subtract_le[OF assms(3)])
  then have c': "256 dvd usval ?c" using r(1) r'(1) by (simp add: dvd_diff_nat)
  have oc: "usval ?o + usval ?c + usval ?t mod 65536 = usval ?t'" using assms(3) mod_less_eq_dividend[of "usval ?t" 65536] unfolding ho c by linarith
  have b: "usval ?o + usval ?c < 2 ^ 96" "usval ?t' < 2 ^ 96" using oc r'(2) by simp_all
  note oc_sum = coarse_sum[OF o c' b(1)]
  show "usval (node_time q ?p) = usval ?t'"
    using coarse_sum(3)[of ?t' zero_ns] r'(1) b(2) unfolding node_time_def ld z by (simp add: clock_pss_def z)
  have "master_time q ?p = uscaledns_add (uscaledns_add ?o ?c) zero_ns"
    unfolding master_time_def ld by (simp add: clock_pss_def assms(4,5))
  then have "usval (master_time q ?p) = usval ?o + usval ?c"
    using coarse_sum(3)[of "uscaledns_add ?o ?c" zero_ns] oc_sum(2,3) b(1) by (simp add: z)
  then show "usval (master_time q ?p) + unat (subns ?t) = usval ?t'" using oc so by simp
qed

lemma source_then_send:
  assumes s: "cmsr_ready s" "cmss_ready s" and due: "uscaledns_compare ts (syncSendTime (cmss s)) \<ge> 0" "usval ts < 2 ^ 95"
    and p: "p = clock_pss now (source_inst r (ginst s))" "relay_ready p s"
  obtains u v where "clock_master_sync_receive_sm_recv_source_time r s = Some u" "clock_master_sync_send_sm_run rnd now ts u = Some v"
    "cmsr_ready v" "cmss_ready v" "syncSendTime (cmss v) = uscaledns_add ts computeClockMasterSyncInterval"
    "relayed p (s\<lparr>rtc := rtc_latch (rtc s)\<rparr>) v" "mdsr_sms v = mdsr_sms s" "pssr_sms v = pssr_sms s"
proof -
  let ?u = "s\<lparr>ginst := source_inst r (ginst s), cmsr := source_sm r\<rparr>" and ?s = "s\<lparr>rtc := rtc_latch (rtc s)\<rparr>"
  have same: "same_site ?s (?u\<lparr>rtc := rtc_latch (rtc s)\<rparr>)" "same_site s ?u"
    by (auto simp: same_site_def same_relay_node_def source_inst_def)
  have "cmss_ready ?u" using s(2) by (simp add: cmss_ready_def source_inst_def)
  moreover have "relay_ready p ?u" by (rule same_relay_ready[OF same(2) p(2)])
  ultimately obtain v where v: "clock_master_sync_send_sm_run rnd now ts ?u = Some v" "cmss_ready v"
    "syncSendTime (cmss v) = uscaledns_add ts computeClockMasterSyncInterval"
    "relayed p (?u\<lparr>rtc := rtc_latch (rtc s)\<rparr>) v" "cmsr v = source_sm r" "mdsr_sms v = mdsr_sms s" "pssr_sms v = pssr_sms s"
    using cmss_due[of ?u ts p now rnd] due p(1) by auto
  have a: "site_arrays ?s" "unat (pss_localPortNumber p) \<le> length (gports ?s)"
    using p(2) by (simp_all add: relay_ready_def ports_ready_def css_takes_def site_arrays_def)
  have "relayed p ?s v" using v(4) by (rule relayed_same[OF same(1) a])
  moreover have "cmsr_ready v"
    using v(4,5) s(1) by (simp add: cmsr_ready_def relayed_def same_relay_node_def source_sm_def source_inst_def)
  ultimately show thesis using cmsr_run[OF s(1), of r] v by (intro that[of ?u v]) simp_all
qed

text \<open>
  The grandmaster sends its own time. When the port 0, the clock of the node itself, is the slave port
  and a second has passed, one turn of the two clock machines with a time of the clock sends a Sync message
  on every valid master port and on no other, sets the next time one second later and leaves the clock
  alone: the offset it writes to the registers is 0 seconds and 0 nanoseconds.
\<close>

theorem own_time_sent:
  assumes "cmsr_ready s" "cmss_ready s" "uscaledns_compare ts (syncSendTime (cmss s)) \<ge> 0" "usval ts < 2 ^ 95"
    and n: "proper_reading n" "proper_reading n'" "sourceTime r = get_current_timestamp n"
    and le: "usval (get_current_timestamp n) \<le> usval (get_current_timestamp n')"
    and p: "p = clock_pss n' (source_inst r (ginst s))" "relay_ready p s"
  shows "\<exists>u v h w. clock_master_sync_receive_sm_recv_source_time r s = Some u \<and> clock_master_sync_send_sm_run rnd n' ts u = Some v \<and>
    sends (map (sync_at p s) (filter (\<lambda>j. port_valid (gport j s) \<and> selectedState (ginst s) ! unat (thisPort (gport j s)) = MASTER_PORT \<and>
      thisPort (gport j s) \<noteq> 0) [0..<N_PORTS])) (site_eth s) (site_eth v) \<and>
    rtc v = rtc_latch (rtc s) @ [(RTC_OFFSET_S_H, h), (RTC_OFFSET_S_L, 0), (RTC_OFFSET_NS, 0), (RTC_CTRL, RTC_SET_CTRL_0), (RTC_CTRL, RTC_SET_OFFSET)] @ w \<and>
    cmsr_ready v \<and> cmss_ready v \<and> syncSendTime (cmss v) = uscaledns_add ts \<lparr>subns = 0, nsec = ONE_SEC_NS, nsec_msb = 0\<rparr>"
proof -
  obtain u v where v: "clock_master_sync_receive_sm_recv_source_time r s = Some u" "clock_master_sync_send_sm_run rnd n' ts u = Some v"
    "cmsr_ready v" "cmss_ready v" "syncSendTime (cmss v) = uscaledns_add ts computeClockMasterSyncInterval"
    "relayed p (s\<lparr>rtc := rtc_latch (rtc s)\<rparr>) v"
    by (rule source_then_send[OF assms(1-4) p])
  let ?T = "master_time (gports s) p" and ?L = "node_time (gports s) p"
  have times: "usval ?L = usval (get_current_timestamp n')" "usval ?T + unat (subns (get_current_timestamp n)) = usval (get_current_timestamp n')"
    using clock_pss_times[OF n(1,2) le, of "source_inst r (ginst s)" "gports s"] n(3) p(1) by (simp_all add: source_inst_def)
  then have d: "\<bar>int (usval ?T) - int (usval ?L)\<bar> < 65536" using unat_bound[of "subns (get_current_timestamp n)"] by simp
  then have "\<bar>int (usval ?T) - int (usval ?L)\<bar> < 65536 * (4294967296 * 1000000000)" by linarith
  from offset_registers[OF this, of "rtc_latch (rtc s)"] obtain h k l where o: "offset_write ?T ?L (rtc_latch (rtc s)) = rtc_latch (rtc s) @
      [(RTC_OFFSET_S_H, h), (RTC_OFFSET_S_L, k), (RTC_OFFSET_NS, l), (RTC_CTRL, RTC_SET_CTRL_0), (RTC_CTRL, RTC_SET_OFFSET)]"
    "int (unat k * 1000000000 + unat l) = \<bar>int (usval ?T) - int (usval ?L)\<bar> div 65536"
    by blast
  have "int (unat k * 1000000000 + unat l) = 0" unfolding o(2) using d by (simp add: div_pos_pos_trivial)
  then have "unat k * 1000000000 + unat l = 0" by (simp only: of_nat_eq_0_iff)
  then have kl: "k = 0" "l = 0" by (simp_all add: unat_eq_zero)
  obtain w where "rtc v = rtc_latch (offset_write ?T ?L (rtc_latch (rtc s))) @ w" using v(6) by (auto simp: relayed_def)
  then have "\<exists>w. rtc v = rtc_latch (rtc s) @ [(RTC_OFFSET_S_H, h), (RTC_OFFSET_S_L, 0), (RTC_OFFSET_NS, 0), (RTC_CTRL, RTC_SET_CTRL_0), (RTC_CTRL, RTC_SET_OFFSET)] @ w"
    unfolding o(1) kl by (auto simp: rtc_latch_def)
  moreover have "forwards p s j \<longleftrightarrow> port_valid (gport j s) \<and> selectedState (ginst s) ! unat (thisPort (gport j s)) = MASTER_PORT \<and> thisPort (gport j s) \<noteq> 0" for j
    by (auto simp: forwards_def psss_forwards_def p(1) clock_pss_def)
  then have "forwards p s = (\<lambda>j. port_valid (gport j s) \<and> selectedState (ginst s) ! unat (thisPort (gport j s)) = MASTER_PORT \<and> thisPort (gport j s) \<noteq> 0)"
    by (rule ext)
  moreover have "sends (map (sync_at p s) (filter (forwards p s) [0..<N_PORTS])) (site_eth s) (site_eth v)"
    using v(6) relay_ready_cong[OF p(2), of "s\<lparr>rtc := rtc_latch (rtc s)\<rparr>"] by (simp add: relayed_def)
  ultimately show ?thesis using v(1-5) by (auto simp: computeClockMasterSyncInterval_def)
qed

text \<open>
  C12. The time of the grandmaster is exact. When the hardware reports that the Sync message of the clock has
  left a port, at a time the hardware gives in steps of 1/256 ns and within \<open>2 ^ 48\<close> ns of the first reading, and the
  number of the message is not 65535, the origin and the correction of the Follow_Up that leaves then add up to the time of departure,
  but for the fraction of a nanosecond of the first reading: what a receiver computes is the time of the
  grandmaster when the message left it, however long the node took.
\<close>

theorem own_time_exact:
  assumes "cmsr_ready s" "cmss_ready s" "uscaledns_compare ts (syncSendTime (cmss s)) \<ge> 0" "usval ts < 2 ^ 95"
    and n: "proper_reading n" "proper_reading n'" "sourceTime r = get_current_timestamp n"
    and le: "usval (get_current_timestamp n) \<le> usval (get_current_timestamp n')" "usval (get_current_timestamp n') \<le> usval (ts_ts t)"
    and p: "p = clock_pss n' (source_inst r (ginst s))" "relay_ready p s"
    and j: "j < N_PORTS" "forwards p s j" "ts_sequenceID t = syncSequenceId (mdents s ! j)" "syncSequenceId (mdents s ! j) \<noteq> 0xFFFF"
    and t: "256 dvd usval (ts_ts t)" "usval (ts_ts t) < usval (get_current_timestamp n) + 2 ^ 64"
  shows "\<exists>u v e g. clock_master_sync_receive_sm_recv_source_time r s = Some u \<and> clock_master_sync_send_sm_run rnd n' ts u = Some v \<and>
    md_sync_send_sm_txts k t (mdss_ctx (at_port j v)) = Some e \<and> sends [(thisPort (gport j s), follow_up_frame g)] (site_eth v) (eth e) \<and>
    sequenceId (fu_head g) = syncSequenceId (mdents s ! j) \<and>
    usval (uscaledns_ptpmsgtimestamp (preciseOriginTimestamp g)) + unat (correctionField (fu_head g)) + unat (subns (get_current_timestamp n)) = usval (ts_ts t)"
proof -
  let ?s = "s\<lparr>rtc := rtc_latch (rtc s)\<rparr>"
  obtain u v where v: "clock_master_sync_receive_sm_recv_source_time r s = Some u" "clock_master_sync_send_sm_run rnd n' ts u = Some v"
    "relayed p ?s v"
    by (rule source_then_send[OF assms(1-4) p])
  have e: "forwards p ?s = forwards p s" "request_at p ?s = request_at p s"
    using relay_ready_cong[OF p(2), of ?s] by simp_all
  let ?q = "request_at p s j" and ?i = "syncSequenceId (mdents s ! j)" and ?n = "get_current_timestamp n" and ?n' = "get_current_timestamp n'"
  have "mdss_waiting ?q ?i (mdss_ctx (at_port j v))" using relayed_port(3)[OF v(3) j(1)] j(2) unfolding e by simp
  from stamp_run[OF this j(3,4), of k] obtain d where d: "md_sync_send_sm_txts k t (mdss_ctx (at_port j v)) = Some d"
    "sends [(thisPort (gport j v), follow_up_frame (follow_up_for ?q ?i (ts_ts t)))] (eth (mdss_ctx (at_port j v))) (eth d)"
    by (simp add: mdss_ctx_def) blast
  have pj: "thisPort (gport j v) = thisPort (gport j s)" using relayed_port(2)[OF v(3) j(1)] by (simp add: psss_portD)
  let ?g = "follow_up_for ?q ?i (ts_ts t)"
  have q: "ss_followUpCorrectionField ?q = uscaledns_subtract ?n' ?n" "ss_upstreamTxTime ?q = ?n'" "ss_preciseOriginTimestamp ?q = ptpmsgtimestamp_uscaledns ?n"
    by (simp_all add: request_at_def request_for_def p(1) clock_pss_def source_inst_def n(3))
  note r = usval_reading[OF n(1)] and r' = usval_reading[OF n(2)]
  have c: "usval (uscaledns_subtract ?n' ?n) = usval ?n' - usval ?n" "usval (uscaledns_subtract (ts_ts t) ?n') = usval (ts_ts t) - usval ?n'"
    by (rule usval_subtract_le[OF le(1)], rule usval_subtract_le[OF le(2)])
  have "usval (uscaledns_add (uscaledns_subtract ?n' ?n) (uscaledns_subtract (ts_ts t) ?n')) = (usval ?n' - usval ?n) + (usval (ts_ts t) - usval ?n')"
    unfolding c[symmetric]
    by (rule coarse_sum) (use r(1) r'(1) t c le usval_less[of "ts_ts t"] in \<open>simp_all add: dvd_diff_nat\<close>)
  then have "unat (correctionField (fu_head ?g)) = usval (ts_ts t) - usval ?n"
    using t(2) le by (simp add: follow_up_for_def ptp_msg_header_template_def uint64_usval q)
  moreover have "unat (subns ?n) \<le> usval ?n" by (simp add: usval_def)
  ultimately have "usval (uscaledns_ptpmsgtimestamp (preciseOriginTimestamp ?g)) + unat (correctionField (fu_head ?g)) + unat (subns ?n) = usval (ts_ts t)"
    using le origin_reading[OF n(1)] by (simp add: follow_up_for_def q)
  then show ?thesis using v(1,2) d pj
    by (intro exI[of _ u] exI[of _ v] exI[of _ d] exI[of _ ?g]) (simp add: mdss_ctx_def follow_up_for_def ptp_msg_header_template_def)
qed

section \<open>An example\<close>


text \<open>A node whose own clock is the best: its port 0 is the slave port, and its other ports are master ports.\<close>

definition clock_node :: "unit ClockMaster_scheme" where
  "clock_node = MdsrSite.extend
     (relay_node\<lparr>ginst := (ginst relay_node)\<lparr>selectedState := [SLAVE_PORT, MASTER_PORT, MASTER_PORT, MASTER_PORT, MASTER_PORT]\<rparr>\<rparr>)
     (ClockMaster.fields
       \<lparr>rcvdClockSourceReq = False, rcvdClockSourceReqPtr = Null, rcvdLocalClockTickCMSR = False, cmsr_state = CMSR_INITIALIZING,
         cmsr_last_state = CMSR_INITIALIZING\<rparr>
       \<lparr>syncSendTime = one_sec, txPSSyncPtrCMSS = Null, cmss_state = CMSS_INITIALIZING, cmss_last_state = CMSS_INITIALIZING\<rparr>)"

definition clock_reading :: "32 word \<Rightarrow> LocalClockTimestamp" where
  "clock_reading n = \<lparr>second_h = 0, second_l = 5, nanosecond = n, frac_nano = 0\<rparr>"

definition clock_request :: ClockSourceTimeInvoke where
  "clock_request = \<lparr>cs_domainNumber = 0, sourceTime = get_current_timestamp (clock_reading 100), timeBaseIndicator = 0,
     cs_lastGmPhaseChange = zero_ns, cs_lastGmFreqChange = 0\<rparr>"

definition clock_message :: PortSyncSync where
  "clock_message = clock_pss (clock_reading 300) (source_inst clock_request (ginst clock_node))"

lemma clock_node_fields:
  "ginst clock_node = (ginst relay_node)\<lparr>selectedState := [SLAVE_PORT, MASTER_PORT, MASTER_PORT, MASTER_PORT, MASTER_PORT]\<rparr>"
  "gports clock_node = gports relay_node" "rtc clock_node = rtc relay_node" "css clock_node = css relay_node" "mdents clock_node = mdents relay_node"
  "site_eth clock_node = site_eth relay_node" "psss_sms clock_node = psss_sms relay_node" "mdss_sms clock_node = mdss_sms relay_node" "sss clock_node = sss relay_node"
  by (simp_all add: clock_node_def MdsrSite.defs ClockMaster.defs)

lemma reading_time: "get_current_timestamp (clock_reading n) = \<lparr>subns = 0, nsec = 5000000000 + ucast n, nsec_msb = 0\<rparr>"
  by (simp add: get_current_timestamp_def clock_reading_def)

lemma clock_node_ready: "cmsr_ready clock_node" "cmss_ready clock_node"
proof -
  have c: "cmsr clock_node = \<lparr>rcvdClockSourceReq = False, rcvdClockSourceReqPtr = Null, rcvdLocalClockTickCMSR = False, cmsr_state = CMSR_INITIALIZING,
         cmsr_last_state = CMSR_INITIALIZING\<rparr>"
    "cmss clock_node = \<lparr>syncSendTime = one_sec, txPSSyncPtrCMSS = Null, cmss_state = CMSS_INITIALIZING, cmss_last_state = CMSS_INITIALIZING\<rparr>"
    by (simp_all add: clock_node_def MdsrSite.defs ClockMaster.defs)
  show "cmsr_ready clock_node" "cmss_ready clock_node"
    unfolding cmsr_ready_def cmss_ready_def c clock_node_fields by (simp_all add: relay_node_def example_instance_facts)
qed

lemma clock_node_time: "uscaledns_compare \<lparr>subns = 0, nsec = 5000000100, nsec_msb = 0\<rparr> (syncSendTime (cmss clock_node)) \<ge> 0"
  by (simp add: clock_node_def MdsrSite.defs ClockMaster.defs uscaledns_compare_def)

lemma clock_node_relays: "relay_ready clock_message clock_node"
proof -
  have m: "pss_localPortNumber clock_message = 0" "pss_upstreamTxTime clock_message = \<lparr>subns = 0, nsec = 5000000300, nsec_msb = 0\<rparr>"
    by (simp_all add: clock_message_def clock_pss_def reading_time)
  have "node_time (gports clock_node) clock_message = \<lparr>subns = 0, nsec = 5000000300, nsec_msb = 0\<rparr>"
    unfolding node_time_def link_delay_def m by (simp add: uscaledns_add_def check_overflow_def Let_def)
  then have "css_takes clock_message clock_node" by (simp add: css_takes_def m clock_node_fields) (simp add: relay_node_def started_clock_def)
  moreover have "ports_ready clock_message clock_node"
    unfolding ports_ready_def
  proof (intro conjI allI impI)
    have r: "ports_ready relay_pss relay_node" using relay_node_relays by (simp add: relay_ready_def)
    then show "site_arrays clock_node" "tx_wf (site_eth clock_node)" by (simp_all add: ports_ready_def site_arrays_def clock_node_fields)
    fix i :: nat assume i: "i < N_PORTS"
    have "psss_ready (at_port i relay_node)" using r i by (simp add: ports_ready_def)
    then show "psss_ready (at_port i clock_node)" unfolding clock_node_fields by (simp add: psss_ready_def relay_node_def)
    have "mdss_ready (mdss_ctx (at_port i relay_node))" using i by (rule relay_node_mdss)
    then show "mdss_ready (mdss_ctx (at_port i clock_node))" unfolding clock_node_fields
      by (simp add: mdss_ctx_def mdss_ready_def mdss_on_def mdss_wf_def mdss_ptrs_def mdss_rest_def split: MDSyncSendSMState.splits)
  qed
  moreover have "from_slave clock_message (ginst clock_node)" "unat (pss_localPortNumber clock_message) < length (selectedState (ginst clock_node))"
    by (simp_all add: from_slave_def m clock_node_fields) (simp add: relay_node_def)
  moreover have "sss_ready clock_node" "css_ready clock_node"
    using relay_node_ready(3,4) by (simp_all add: sss_ready_def css_ready_def css_wf_def clock_node_fields)
  ultimately show ?thesis by (simp add: relay_ready_def)
qed

lemma clock_example:
  "usval \<lparr>subns = 0, nsec = 5000000100, nsec_msb = 0\<rparr> < 2 ^ 95" "proper_reading (clock_reading 100)" "proper_reading (clock_reading 300)"
  "sourceTime clock_request = get_current_timestamp (clock_reading 100)"
  "usval (get_current_timestamp (clock_reading 100)) \<le> usval (get_current_timestamp (clock_reading 300))"
  by (simp_all add: usval_def proper_reading_def clock_request_def reading_time) (simp_all add: clock_reading_def)

text \<open>The clock is read at 5 s and 100 ns and again at 300 ns.\<close>

theorem own_time_sent_witness:
  "\<exists>u v h w. clock_master_sync_receive_sm_recv_source_time clock_request clock_node = Some u \<and>
    clock_master_sync_send_sm_run (\<lambda>_. 0) (clock_reading 300) \<lparr>subns = 0, nsec = 5000000100, nsec_msb = 0\<rparr> u = Some v \<and>
    rtc v = rtc_latch (rtc clock_node) @ [(RTC_OFFSET_S_H, h), (RTC_OFFSET_S_L, 0), (RTC_OFFSET_NS, 0), (RTC_CTRL, RTC_SET_CTRL_0), (RTC_CTRL, RTC_SET_OFFSET)] @ w"
  using own_time_sent[OF clock_node_ready clock_node_time clock_example clock_message_def clock_node_relays, of "\<lambda>_. 0"] by blast

text \<open>The message leaves the third port at 5 s and 1000 ns.\<close>

theorem own_time_exact_witness:
  "\<exists>u v e g. clock_master_sync_receive_sm_recv_source_time clock_request clock_node = Some u \<and>
    clock_master_sync_send_sm_run (\<lambda>_. 0) (clock_reading 300) \<lparr>subns = 0, nsec = 5000000100, nsec_msb = 0\<rparr> u = Some v \<and>
    md_sync_send_sm_txts 0 (relay_stamp 5000001000 0) (mdss_ctx (at_port 2 v)) = Some e \<and> sends [(thisPort (gport 2 clock_node), follow_up_frame g)] (site_eth v) (eth e) \<and>
    usval (uscaledns_ptpmsgtimestamp (preciseOriginTimestamp g)) + unat (correctionField (fu_head g)) = 5000001000 * 65536"
proof -
  have g: "gport 2 relay_node = example_port 246 1 2" by (simp add: relay_node_gport)
  have j: "(2::nat) < N_PORTS" "forwards clock_message clock_node 2" "ts_sequenceID (relay_stamp 5000001000 0) = syncSequenceId (mdents clock_node ! 2)"
    "syncSequenceId (mdents clock_node ! 2) \<noteq> 0xFFFF"
    by (simp_all add: forwards_def psss_forwards_def clock_message_def clock_pss_def clock_node_fields g example_port_facts)
      (simp_all add: relay_node_def relay_stamp_def init_mdentity_def blank_mdent_def)
  have t: "usval (get_current_timestamp (clock_reading 300)) \<le> usval (ts_ts (relay_stamp 5000001000 0))"
    "256 dvd usval (ts_ts (relay_stamp 5000001000 0))"
    "usval (ts_ts (relay_stamp 5000001000 0)) < usval (get_current_timestamp (clock_reading 100)) + 2 ^ 64"
    by (simp_all add: reading_time relay_stamp_def usval_def)
  have u: "usval (ts_ts (relay_stamp 5000001000 0)) = 5000001000 * 65536" "unat (subns (get_current_timestamp (clock_reading 100))) = 0"
    by (simp_all add: reading_time relay_stamp_def usval_def)
  from own_time_exact[OF clock_node_ready clock_node_time clock_example t(1) clock_message_def clock_node_relays j t(2,3), of "\<lambda>_. 0" 0]
  show ?thesis unfolding u add_0_right by blast
qed

end
