(* ===== verification/MdPdelayReq.thy ===== *)
theory MdPdelayReq
  imports TxMachine
begin

text \<open>
  The MDPdelayReq state machine (\<open>time_sync/md_pdelay_req_sm.c\<close>), the initiator of the propagation delay
  measurement: it sends a Pdelay_Req, takes the times of both answers, and computes the delay of the
  link and the ratio of the two clocks.
\<close>

section \<open>State\<close>

datatype MDPdelayReqSMState = PD_REQ_INIT | PD_REQ_NOT_ENABLED | PD_REQ_INITIAL_SEND_PDELAY_REQ | PD_REQ_WAITING_FOR_PDELAY_RESP
  | PD_REQ_WAITING_FOR_PDELAY_RESP_FOLLOW_UP | PD_REQ_WAITING_FOR_PDELAY_INTERVAL_TIMER | PD_REQ_RESET | PD_REQ_SEND_PDELAY_REQ
  | PD_REQ_BEFORE_INIT

record MDPdelayReqSM =
  pdelayIntervalTimer :: UScaledNs
  rcvdPdelayResp :: bool
  rcvdPdelayRespPtr :: "PTPMsgPdelayResp cptr"
  rcvdPdelayRespFollowUp :: bool
  rcvdPdelayRespFollowUpPtr :: "PTPMsgPdelayRespFollowUp cptr"
  txPdelayReqPtr :: "PTPMsgPdelayReq cptr"
  rcvdMDTimestampReceiveMDPReq :: bool
  pdelayReqSequenceId :: "16 word"
  lostResponses :: "16 word"
  neighborRateRatioValid :: bool
  detectedFaults :: "16 word"
  portEnabled0 :: bool
  req_t1 :: UScaledNs
  req_t2 :: UScaledNs
  req_t3 :: UScaledNs
  req_t4 :: UScaledNs
  lPdelayRespEventIngressTimestamp :: "UScaledNs list"
  lCorrectedResponderEventTimestamp :: "UScaledNs list"
  listHeadPropTime :: nat
  listTailPropTime :: nat
  isEmptyPropTime :: bool
  preq_state :: MDPdelayReqSMState
  preq_last_state :: MDPdelayReqSMState

type_synonym ReqCtx = "MDPdelayReqSM MdCtx"

section \<open>The request\<close>

definition setPdelayReq :: "ReqCtx \<Rightarrow> PTPMsgPdelayReq" where
  "setPdelayReq c = \<lparr>preq_head = ptp_msg_header_template PDELAY_REQ 54 \<lparr>clockIdentity = thisClock (inst c), portNumber = thisPort (port c)\<rparr>
     (pdelayReqSequenceId (sm c)) 0 0\<rparr>"

definition txPdelayReq :: "ReqCtx \<Rightarrow> ReqCtx option" where
  "txPdelayReq c = do {
     m \<leftarrow> deref (txPdelayReqPtr (sm c));
     e \<leftarrow> send_ptp_frame (pdelay_req_frame m) (thisPort (port c)) (eth c);
     Some (c\<lparr>eth := e\<rparr>)
   }"

definition test_md_pdelay_req_sm_send :: "ReqCtx \<Rightarrow> ReqCtx option" where
  "test_md_pdelay_req_sm_send c = txPdelayReq (c\<lparr>sm := (sm c)\<lparr>txPdelayReqPtr := Live (setPdelayReq c)\<rparr>\<rparr>)"

section \<open>What is computed\<close>

definition md_pdelay_add_resp_and_resp_follow_up_timestamp :: "ReqCtx \<Rightarrow> ReqCtx option" where
  "md_pdelay_add_resp_and_resp_follow_up_timestamp c = do {
     let m = sm c;
     let i = (listTailPropTime m + 1) mod MAXLENGTH;
     ls \<leftarrow> wr (lPdelayRespEventIngressTimestamp m) i (req_t4 m);
     rs \<leftarrow> wr (lCorrectedResponderEventTimestamp m) i (req_t3 m);
     let h = (if \<not> isEmptyPropTime m \<and> listHeadPropTime m = i then (listHeadPropTime m + 1) mod MAXLENGTH else listHeadPropTime m);
     Some (c\<lparr>sm := m\<lparr>lPdelayRespEventIngressTimestamp := ls, lCorrectedResponderEventTimestamp := rs, isEmptyPropTime := False,
       listHeadPropTime := h, listTailPropTime := i\<rparr>\<rparr>)
   }"

text \<open>The ratio of the clocks over all the measurements in the queue; a ratio that is off by a thousandth empties it.\<close>

definition computePdelayRateRatio :: "ReqCtx \<Rightarrow> (double \<times> ReqCtx) option" where
  "computePdelayRateRatio c =
     (let m = sm c in
      if isEmptyPropTime m \<or> listTailPropTime m = listHeadPropTime m then Some (1, c)
      else do {
        r1 \<leftarrow> rd (lCorrectedResponderEventTimestamp m) (listTailPropTime m);
        r0 \<leftarrow> rd (lCorrectedResponderEventTimestamp m) (listHeadPropTime m);
        l1 \<leftarrow> rd (lPdelayRespEventIngressTimestamp m) (listTailPropTime m);
        l0 \<leftarrow> rd (lPdelayRespEventIngressTimestamp m) (listHeadPropTime m);
        r \<leftarrow> uscaledns_div (uscaledns_subtract r1 r0) (uscaledns_subtract l1 l0);
        Some (if \<bar>fl (r - 1)\<bar> > fl (1 / 10 ^ 3) then (1, c\<lparr>sm := m\<lparr>listHeadPropTime := listTailPropTime m\<rparr>\<rparr>) else (r, c))
      })"

text \<open>A negative round trip or delay ends the process.\<close>

definition computePropTime :: "ReqCtx \<Rightarrow> UScaledNs option" where
  "computePropTime c =
     (let t4_1 = uscaledns_subtract (req_t4 (sm c)) (req_t1 (sm c)); t3_2 = uscaledns_subtract (req_t3 (sm c)) (req_t2 (sm c)) in
      if uscaledns_compare (req_t4 (sm c)) (req_t1 (sm c)) < 0 then None
      else do {
        r_t4_1 \<leftarrow> uscaledns_mul_double t4_1 (neighborRateRatio (port c));
        let propTime = uscaledns_divide_by_2 (uscaledns_subtract r_t4_1 t3_2);
        (if uscaledns_compare r_t4_1 t3_2 < 0 then None else Some propTime)
      })"

section \<open>Actions and transitions\<close>

definition preq_all_state_transition :: "ReqCtx \<Rightarrow> MDPdelayReqSMState" where
  "preq_all_state_transition c =
     (if BEGIN (inst c) \<or> \<not> portOper (port c) \<or> \<not> portEnabled0 (sm c) then PD_REQ_NOT_ENABLED else preq_state (sm c))"

definition preq_not_enabled_transition :: "ReqCtx \<Rightarrow> MDPdelayReqSMState" where
  "preq_not_enabled_transition c =
     (if portOper (port c) \<and> portEnabled0 (sm c) then PD_REQ_INITIAL_SEND_PDELAY_REQ else PD_REQ_NOT_ENABLED)"

text \<open>\<open>rnd\<close> is the first sequence number, from \<open>rand\<close>.\<close>

definition preq_initial_action :: "16 word \<Rightarrow> UScaledNs \<Rightarrow> ReqCtx \<Rightarrow> ReqCtx option" where
  "preq_initial_action rnd ts c = do {
     let c = c\<lparr>sm := (sm c)\<lparr>rcvdPdelayResp := False, rcvdPdelayRespFollowUp := False, rcvdMDTimestampReceiveMDPReq := False,
       pdelayReqSequenceId := rnd\<rparr>, port := (port c)\<lparr>neighborRateRatio := 1\<rparr>\<rparr>;
     c \<leftarrow> txPdelayReq (c\<lparr>sm := (sm c)\<lparr>txPdelayReqPtr := Live (setPdelayReq c)\<rparr>\<rparr>);
     Some (c\<lparr>sm := (sm c)\<lparr>pdelayIntervalTimer := ts, lostResponses := 0, detectedFaults := 0\<rparr>,
       mdent := (mdent c)\<lparr>isMeasuringDelay := False, asCapableAcrossDomains := False\<rparr>\<rparr>)
   }"

definition preq_initial_transition :: "ReqCtx \<Rightarrow> MDPdelayReqSMState" where
  "preq_initial_transition c =
     (if rcvdMDTimestampReceiveMDPReq (sm c) then PD_REQ_WAITING_FOR_PDELAY_RESP else PD_REQ_INITIAL_SEND_PDELAY_REQ)"

definition preq_reset_action :: "ReqCtx \<Rightarrow> ReqCtx" where
  "preq_reset_action c =
     (let c = c\<lparr>sm := (sm c)\<lparr>rcvdPdelayResp := False\<rparr>\<rparr> in
      if lostResponses (sm c) \<le> ucast (allowedLostResponses (mdent c)) then c\<lparr>sm := (sm c)\<lparr>lostResponses := lostResponses (sm c) + 1\<rparr>\<rparr>
      else c\<lparr>mdent := (mdent c)\<lparr>isMeasuringDelay := False, asCapableAcrossDomains := False\<rparr>\<rparr>)"

text \<open>Whether an interval has passed since the request.\<close>

definition preq_elapsed :: "UScaledNs \<Rightarrow> ReqCtx \<Rightarrow> bool" where
  "preq_elapsed ts c \<longleftrightarrow> uscaledns_compare (uscaledns_subtract ts (pdelayIntervalTimer (sm c))) (pdelayReqInterval (mdent c)) \<ge> 0"

definition preq_reset_transition :: "UScaledNs \<Rightarrow> ReqCtx \<Rightarrow> MDPdelayReqSMState" where
  "preq_reset_transition ts c = (if preq_elapsed ts c then PD_REQ_SEND_PDELAY_REQ else PD_REQ_RESET)"

definition preq_send_action :: "UScaledNs \<Rightarrow> ReqCtx \<Rightarrow> ReqCtx option" where
  "preq_send_action ts c = do {
     let c = c\<lparr>sm := (sm c)\<lparr>pdelayReqSequenceId := pdelayReqSequenceId (sm c) + 1\<rparr>\<rparr>;
     c \<leftarrow> txPdelayReq (c\<lparr>sm := (sm c)\<lparr>txPdelayReqPtr := Live (setPdelayReq c)\<rparr>\<rparr>);
     Some (c\<lparr>sm := (sm c)\<lparr>pdelayIntervalTimer := ts\<rparr>\<rparr>)
   }"

definition preq_send_transition :: "ReqCtx \<Rightarrow> MDPdelayReqSMState" where
  "preq_send_transition c =
     (if rcvdMDTimestampReceiveMDPReq (sm c) then PD_REQ_WAITING_FOR_PDELAY_RESP else PD_REQ_SEND_PDELAY_REQ)"

definition preq_resp_action :: "ReqCtx \<Rightarrow> ReqCtx" where
  "preq_resp_action c = c\<lparr>sm := (sm c)\<lparr>rcvdMDTimestampReceiveMDPReq := False\<rparr>\<rparr>"

definition preq_resp_transition :: "UScaledNs \<Rightarrow> ReqCtx \<Rightarrow> MDPdelayReqSMState option" where
  "preq_resp_transition ts c =
     (if preq_elapsed ts c then Some PD_REQ_RESET
      else if rcvdPdelayResp (sm c) then do {
        p \<leftarrow> deref (rcvdPdelayRespPtr (sm c));
        q \<leftarrow> deref (txPdelayReqPtr (sm c));
        Some (if sequenceId (presp_head p) = sequenceId (preq_head q) \<and> clockIdentity (presp_requestingPortIdentity p) = thisClock (inst c) \<and>
            portNumber (presp_requestingPortIdentity p) = thisPort (port c)
          then PD_REQ_WAITING_FOR_PDELAY_RESP_FOLLOW_UP else PD_REQ_RESET) }
      else Some PD_REQ_WAITING_FOR_PDELAY_RESP)"

definition preq_follow_up_action :: "ReqCtx \<Rightarrow> ReqCtx" where
  "preq_follow_up_action c = c\<lparr>sm := (sm c)\<lparr>rcvdPdelayResp := False\<rparr>\<rparr>"

text \<open>The follow up belongs to the response if the responder is the same, or if the response is to this port.\<close>

definition preq_follow_up_fits :: "ReqCtx \<Rightarrow> bool option" where
  "preq_follow_up_fits c =
     (if rcvdPdelayRespFollowUp (sm c) then do {
        f \<leftarrow> deref (rcvdPdelayRespFollowUpPtr (sm c));
        q \<leftarrow> deref (txPdelayReqPtr (sm c));
        if sequenceId (pfu_head f) = sequenceId (preq_head q) then do {
          p \<leftarrow> deref (rcvdPdelayRespPtr (sm c));
          Some (portIdentityEqual (sourcePortIdentity (pfu_head f)) (sourcePortIdentity (presp_head p)) \<or>
            clockIdentity (presp_requestingPortIdentity p) = thisClock (inst c) \<and> portNumber (presp_requestingPortIdentity p) = thisPort (port c)) }
        else Some False }
      else Some False)"

definition preq_follow_up_transition :: "UScaledNs \<Rightarrow> ReqCtx \<Rightarrow> MDPdelayReqSMState option" where
  "preq_follow_up_transition ts c = do {
     again \<leftarrow> (if preq_elapsed ts c then Some True
       else if rcvdPdelayResp (sm c) then do {
         p \<leftarrow> deref (rcvdPdelayRespPtr (sm c));
         q \<leftarrow> deref (txPdelayReqPtr (sm c));
         Some (sequenceId (presp_head p) = sequenceId (preq_head q)) }
       else Some False);
     if again then Some PD_REQ_RESET
     else do {
       fits \<leftarrow> preq_follow_up_fits c;
       Some (if fits then PD_REQ_WAITING_FOR_PDELAY_INTERVAL_TIMER else PD_REQ_WAITING_FOR_PDELAY_RESP_FOLLOW_UP) }
   }"

text \<open>Whether the neighbour is capable, and how often it has turned out to be the node itself.\<close>

definition preq_capable :: "ReqCtx \<Rightarrow> ReqCtx option" where
  "preq_capable c = do {
     p \<leftarrow> deref (rcvdPdelayRespPtr (sm c));
     let other = (clockIdentity (sourcePortIdentity (presp_head p)) \<noteq> thisClock (inst c));
     Some (if uscaledns_compare (meanLinkDelay (port c)) (meanLinkDelayThresh (mdent c)) \<le> 0 \<and> other \<and> neighborRateRatioValid (sm c)
       then c\<lparr>sm := (sm c)\<lparr>detectedFaults := 0\<rparr>, mdent := (mdent c)\<lparr>asCapableAcrossDomains := True\<rparr>\<rparr>
       else if other
       then c\<lparr>sm := (sm c)\<lparr>detectedFaults := 0\<rparr>, mdent := (mdent c)\<lparr>asCapableAcrossDomains := False\<rparr>\<rparr>
       else if detectedFaults (sm c) \<le> ucast (allowedFaults (mdent c)) then c\<lparr>sm := (sm c)\<lparr>detectedFaults := detectedFaults (sm c) + 1\<rparr>\<rparr>
       else c\<lparr>sm := (sm c)\<lparr>detectedFaults := 0\<rparr>, mdent := (mdent c)\<lparr>asCapableAcrossDomains := False, isMeasuringDelay := False\<rparr>\<rparr>)
   }"

definition preq_measure :: "ReqCtx \<Rightarrow> ReqCtx option" where
  "preq_measure c = do {
     c \<leftarrow> md_pdelay_add_resp_and_resp_follow_up_timestamp c;
     c \<leftarrow> (if computeNeighborRateRatio (port c) then do {
         (r, c) \<leftarrow> computePdelayRateRatio c;
         Some (c\<lparr>port := (port c)\<lparr>neighborRateRatio := r\<rparr>\<rparr>) } else Some c);
     c \<leftarrow> (if computeMeanLinkDelay (port c) then do {
         d \<leftarrow> computePropTime c;
         Some (c\<lparr>port := (port c)\<lparr>meanLinkDelay := d\<rparr>\<rparr>) } else Some c);
     preq_capable (c\<lparr>mdent := (mdent c)\<lparr>isMeasuringDelay := True\<rparr>\<rparr>)
   }"

text \<open>The messages are freed, but the pointers to them are kept.\<close>

definition preq_interval_action :: "ReqCtx \<Rightarrow> ReqCtx option" where
  "preq_interval_action c = do {
     let c = c\<lparr>sm := (sm c)\<lparr>rcvdPdelayRespFollowUp := False, lostResponses := 0\<rparr>\<rparr>;
     c \<leftarrow> (if asymmetryMeasurementMode (port c) then Some c else preq_measure c);
     q \<leftarrow> cfree (txPdelayReqPtr (sm c));
     p \<leftarrow> cfree (rcvdPdelayRespPtr (sm c));
     f \<leftarrow> cfree (rcvdPdelayRespFollowUpPtr (sm c));
     Some (c\<lparr>sm := (sm c)\<lparr>txPdelayReqPtr := q, rcvdPdelayRespPtr := p, rcvdPdelayRespFollowUpPtr := f\<rparr>\<rparr>)
   }"

definition preq_interval_transition :: "UScaledNs \<Rightarrow> ReqCtx \<Rightarrow> MDPdelayReqSMState" where
  "preq_interval_transition ts c = (if preq_elapsed ts c then PD_REQ_SEND_PDELAY_REQ else PD_REQ_WAITING_FOR_PDELAY_INTERVAL_TIMER)"

section \<open>The machine\<close>

definition preq_goto :: "MDPdelayReqSMState \<Rightarrow> ReqCtx \<Rightarrow> ReqCtx" where
  "preq_goto st c = c\<lparr>sm := (sm c)\<lparr>preq_state := st\<rparr>\<rparr>"

definition preq_body :: "16 word \<Rightarrow> UScaledNs \<Rightarrow> ReqCtx \<Rightarrow> (ReqCtx \<times> bool) option" where
  "preq_body rnd ts c0 = do {
     let state_change = preq_last_state (sm c0) \<noteq> preq_state (sm c0);
     let c = c0\<lparr>sm := (sm c0)\<lparr>preq_last_state := preq_state (sm c0)\<rparr>\<rparr>;
     c \<leftarrow> (case preq_state (sm c) of
         PD_REQ_INIT \<Rightarrow> Some (preq_goto PD_REQ_NOT_ENABLED c)
       | PD_REQ_NOT_ENABLED \<Rightarrow> Some (preq_goto (preq_not_enabled_transition c) c)
       | PD_REQ_INITIAL_SEND_PDELAY_REQ \<Rightarrow> do {
           c \<leftarrow> (if state_change then preq_initial_action rnd ts c else Some c);
           Some (preq_goto (preq_initial_transition c) c) }
       | PD_REQ_RESET \<Rightarrow> do {
           let c = (if state_change then preq_reset_action c else c);
           Some (preq_goto (preq_reset_transition ts c) c) }
       | PD_REQ_SEND_PDELAY_REQ \<Rightarrow> do {
           c \<leftarrow> (if state_change then preq_send_action ts c else Some c);
           Some (preq_goto (preq_send_transition c) c) }
       | PD_REQ_WAITING_FOR_PDELAY_RESP \<Rightarrow> do {
           let c = (if state_change then preq_resp_action c else c);
           st \<leftarrow> preq_resp_transition ts c;
           Some (preq_goto st c) }
       | PD_REQ_WAITING_FOR_PDELAY_RESP_FOLLOW_UP \<Rightarrow> do {
           let c = (if state_change then preq_follow_up_action c else c);
           st \<leftarrow> preq_follow_up_transition ts c;
           Some (preq_goto st c) }
       | PD_REQ_WAITING_FOR_PDELAY_INTERVAL_TIMER \<Rightarrow> do {
           c \<leftarrow> (if state_change then preq_interval_action c else Some c);
           Some (preq_goto (preq_interval_transition ts c) c) }
       | PD_REQ_BEFORE_INIT \<Rightarrow> Some c);
     Some (c, preq_last_state (sm c) \<noteq> preq_state (sm c))
   }"

definition md_pdelay_req_sm_run :: "16 word \<Rightarrow> UScaledNs \<Rightarrow> ReqCtx \<Rightarrow> ReqCtx option" where
  "md_pdelay_req_sm_run rnd ts c = sm_loop (preq_body rnd ts) (preq_goto (preq_all_state_transition c) c)"

definition md_pdelay_req_sm_txts :: "16 word \<Rightarrow> UScaledNs \<Rightarrow> TSUTimestamp \<Rightarrow> ReqCtx \<Rightarrow> ReqCtx option" where
  "md_pdelay_req_sm_txts rnd ts t c =
     (if preq_state (sm c) \<noteq> PD_REQ_SEND_PDELAY_REQ \<and> preq_state (sm c) \<noteq> PD_REQ_INITIAL_SEND_PDELAY_REQ then Some c
      else if ts_sequenceID t \<noteq> pdelayReqSequenceId (sm c) then Some c
      else md_pdelay_req_sm_run rnd ts (c\<lparr>sm := (sm c)\<lparr>req_t1 := ts_ts t, rcvdMDTimestampReceiveMDPReq := True\<rparr>\<rparr>))"

text \<open>The time stamp of the response is stored after the machine has run.\<close>

definition md_pdelay_req_sm_recv_resp :: "16 word \<Rightarrow> UScaledNs \<Rightarrow> TSUTimestamp \<Rightarrow> PTPMsgPdelayResp \<Rightarrow> ReqCtx \<Rightarrow> ReqCtx option" where
  "md_pdelay_req_sm_recv_resp rnd ts t p c = do {
     c \<leftarrow> md_pdelay_req_sm_run rnd ts (c\<lparr>sm := (sm c)\<lparr>rcvdPdelayResp := True, rcvdPdelayRespPtr := Live p,
       req_t2 := uscaledns_ptpmsgtimestamp (requestReceiptTimestamp p)\<rparr>\<rparr>);
     Some (c\<lparr>sm := (sm c)\<lparr>req_t4 := ts_ts t\<rparr>\<rparr>)
   }"

definition md_pdelay_req_sm_recv_resp_follow_up :: "16 word \<Rightarrow> UScaledNs \<Rightarrow> PTPMsgPdelayRespFollowUp \<Rightarrow> ReqCtx \<Rightarrow> ReqCtx option" where
  "md_pdelay_req_sm_recv_resp_follow_up rnd ts f c =
     md_pdelay_req_sm_run rnd ts (c\<lparr>sm := (sm c)\<lparr>rcvdPdelayRespFollowUp := True, rcvdPdelayRespFollowUpPtr := Live f,
       req_t3 := uscaledns_ptpmsgtimestamp (responseOriginTimestamp f)\<rparr>\<rparr>)"

definition init_md_pdelay_req_sm :: "16 word \<Rightarrow> ReqCtx \<Rightarrow> ReqCtx option" where
  "init_md_pdelay_req_sm rnd c =
     md_pdelay_req_sm_run rnd \<lparr>subns = 0, nsec = 0, nsec_msb = 0\<rparr>
       (c\<lparr>sm := (sm c)\<lparr>portEnabled0 := True, preq_state := PD_REQ_INIT, preq_last_state := PD_REQ_BEFORE_INIT,
         listHeadPropTime := 0, listTailPropTime := MAXLENGTH - 1, isEmptyPropTime := True\<rparr>\<rparr>)"

end
