(* ===== verification/MdPdelayReq_Props.thy ===== *)
theory MdPdelayReq_Props
  imports MdPdelayReq MdPdelayResp_Props SyncReceive_Props
begin

text \<open>
  The MDPdelayReq machine measures the delay of a symmetric link exactly. A neighbour whose answers do not
  fit ends the process.
\<close>

section \<open>One measurement\<close>

definition preq_on :: "ReqCtx \<Rightarrow> bool" where
  "preq_on c \<longleftrightarrow> \<not> BEGIN (inst c) \<and> portOper (port c) \<and> portEnabled0 (sm c)"

lemma preq_run_loop: "preq_on c \<Longrightarrow> md_pdelay_req_sm_run rnd ts c = sm_loop (preq_body rnd ts) c"
  by (simp add: md_pdelay_req_sm_run_def preq_goto_def preq_all_state_transition_def preq_on_def)

lemma preq_frame_length: "length (pdelay_req_frame m) \<le> 1554"
  by (simp add: pdelay_req_frame_def set_ptp_frame_header_def le16_def put32_def put64_def be64_def)

text \<open>A request of which the time stamp has not come in; after the time stamp; after the response.\<close>

definition preq_sent :: "PTPMsgPdelayReq \<Rightarrow> ReqCtx \<Rightarrow> bool" where
  "preq_sent q c \<longleftrightarrow> preq_on c \<and> preq_state (sm c) \<in> {PD_REQ_INITIAL_SEND_PDELAY_REQ, PD_REQ_SEND_PDELAY_REQ} \<and>
     preq_last_state (sm c) = preq_state (sm c) \<and> txPdelayReqPtr (sm c) = Live q \<and> sequenceId (preq_head q) = pdelayReqSequenceId (sm c) \<and>
     \<not> rcvdPdelayResp (sm c) \<and> \<not> rcvdPdelayRespFollowUp (sm c)"

lemma preq_txts_run:
  assumes c: "preq_sent q c" and t: "ts_sequenceID t = sequenceId (preq_head q)" and e: "\<not> preq_elapsed ts c"
  shows "md_pdelay_req_sm_txts rnd ts t c = Some (c\<lparr>sm := (sm c)\<lparr>req_t1 := ts_ts t, rcvdMDTimestampReceiveMDPReq := False,
    preq_state := PD_REQ_WAITING_FOR_PDELAY_RESP, preq_last_state := PD_REQ_WAITING_FOR_PDELAY_RESP\<rparr>\<rparr>)"
proof -
  define c0 where "c0 = c\<lparr>sm := (sm c)\<lparr>req_t1 := ts_ts t, rcvdMDTimestampReceiveMDPReq := True\<rparr>\<rparr>"
  define c1 where "c1 = c0\<lparr>sm := (sm c0)\<lparr>preq_state := PD_REQ_WAITING_FOR_PDELAY_RESP\<rparr>\<rparr>"
  define c2 where "c2 = c1\<lparr>sm := (sm c1)\<lparr>rcvdMDTimestampReceiveMDPReq := False, preq_last_state := PD_REQ_WAITING_FOR_PDELAY_RESP\<rparr>\<rparr>"
  have e2: "\<not> preq_elapsed ts c2" using e by (simp add: preq_elapsed_def c2_def c1_def c0_def)
  have "preq_on c0" using c by (simp add: preq_sent_def preq_on_def c0_def)
  moreover have "preq_body rnd ts c0 = Some (c1, True)"
    using c by (auto simp: preq_body_def Let_def preq_goto_def preq_sent_def preq_initial_transition_def preq_send_transition_def c0_def c1_def)
  moreover have "preq_body rnd ts c1 = Some (c2, False)"
    using c e2 by (auto simp: preq_body_def Let_def preq_goto_def preq_sent_def preq_resp_action_def preq_resp_transition_def preq_elapsed_def
      c0_def c1_def c2_def)
  ultimately have "md_pdelay_req_sm_run rnd ts c0 = Some c2"
    by (simp add: preq_run_loop sm_loop_turn[of "preq_body rnd ts" c0] sm_loop_stop[of "preq_body rnd ts" c1])
  moreover have "md_pdelay_req_sm_txts rnd ts t c = md_pdelay_req_sm_run rnd ts c0"
    using c t by (auto simp: md_pdelay_req_sm_txts_def preq_sent_def c0_def)
  ultimately show ?thesis by (simp add: c2_def c1_def c0_def)
qed

definition for_port :: "PortIdentity \<Rightarrow> ReqCtx \<Rightarrow> bool" where
  "for_port i c \<longleftrightarrow> clockIdentity i = thisClock (inst c) \<and> portNumber i = thisPort (port c)"

lemma preq_resp_run:
  assumes c: "preq_on c" "preq_state (sm c) = PD_REQ_WAITING_FOR_PDELAY_RESP" "preq_last_state (sm c) = PD_REQ_WAITING_FOR_PDELAY_RESP"
      "txPdelayReqPtr (sm c) = Live q" "\<not> rcvdPdelayRespFollowUp (sm c)"
    and p: "sequenceId (presp_head p) = sequenceId (preq_head q)" "for_port (presp_requestingPortIdentity p) c" and e: "\<not> preq_elapsed ts c"
  shows "md_pdelay_req_sm_recv_resp rnd ts t p c = Some (c\<lparr>sm := (sm c)\<lparr>rcvdPdelayResp := False, rcvdPdelayRespPtr := Live p,
    req_t2 := uscaledns_ptpmsgtimestamp (requestReceiptTimestamp p), req_t4 := ts_ts t,
    preq_state := PD_REQ_WAITING_FOR_PDELAY_RESP_FOLLOW_UP, preq_last_state := PD_REQ_WAITING_FOR_PDELAY_RESP_FOLLOW_UP\<rparr>\<rparr>)"
proof -
  define c0 where "c0 = c\<lparr>sm := (sm c)\<lparr>rcvdPdelayResp := True, rcvdPdelayRespPtr := Live p, req_t2 := uscaledns_ptpmsgtimestamp (requestReceiptTimestamp p)\<rparr>\<rparr>"
  define c1 where "c1 = c0\<lparr>sm := (sm c0)\<lparr>preq_state := PD_REQ_WAITING_FOR_PDELAY_RESP_FOLLOW_UP\<rparr>\<rparr>"
  define c2 where "c2 = c1\<lparr>sm := (sm c1)\<lparr>rcvdPdelayResp := False, preq_last_state := PD_REQ_WAITING_FOR_PDELAY_RESP_FOLLOW_UP\<rparr>\<rparr>"
  have e0: "\<not> preq_elapsed ts c0" "\<not> preq_elapsed ts c2" using e by (simp_all add: preq_elapsed_def c2_def c1_def c0_def)
  have "preq_on c0" using c(1) by (simp add: preq_on_def c0_def)
  moreover have "preq_body rnd ts c0 = Some (c1, True)"
    using c(2-) p e0(1) by (simp add: preq_body_def Let_def preq_goto_def preq_resp_transition_def for_port_def preq_elapsed_def c0_def c1_def)
  moreover have "preq_body rnd ts c1 = Some (c2, False)"
    using c(2-) p e0(2) by (simp add: preq_body_def Let_def preq_goto_def preq_follow_up_action_def preq_follow_up_transition_def preq_follow_up_fits_def
      preq_elapsed_def c0_def c1_def c2_def)
  ultimately have "md_pdelay_req_sm_run rnd ts c0 = Some c2"
    by (simp add: preq_run_loop sm_loop_turn[of "preq_body rnd ts" c0] sm_loop_stop[of "preq_body rnd ts" c1])
  then show ?thesis by (simp add: md_pdelay_req_sm_recv_resp_def c0_def[symmetric]) (simp add: c2_def c1_def c0_def)
qed

lemma preq_capable_keeps:
  assumes "preq_capable c = Some d"
  shows "preq_state (sm d) = preq_state (sm c)" "preq_last_state (sm d) = preq_last_state (sm c)" "port d = port c"
  using assms by (auto simp: preq_capable_def bind_eq_Some_conv Let_def split: if_splits)

lemma preq_add_keeps:
  assumes "md_pdelay_add_resp_and_resp_follow_up_timestamp c = Some d"
  shows "preq_state (sm d) = preq_state (sm c)" "preq_last_state (sm d) = preq_last_state (sm c)"
  using assms by (auto simp: md_pdelay_add_resp_and_resp_follow_up_timestamp_def bind_eq_Some_conv Let_def)

lemma preq_ratio_keeps:
  assumes "computePdelayRateRatio c = Some (r, d)"
  shows "preq_state (sm d) = preq_state (sm c)" "preq_last_state (sm d) = preq_last_state (sm c)"
  using assms by (auto simp: computePdelayRateRatio_def bind_eq_Some_conv Let_def split: if_splits)

lemma preq_measure_keeps:
  assumes "preq_measure c = Some d"
  shows "preq_state (sm d) = preq_state (sm c) \<and> preq_last_state (sm d) = preq_last_state (sm c)"
proof -
  obtain c1 c2 c3 where c: "md_pdelay_add_resp_and_resp_follow_up_timestamp c = Some c1"
    "(if computeNeighborRateRatio (port c1) then do {
         (r, c) \<leftarrow> computePdelayRateRatio c1;
         Some (c\<lparr>port := (port c)\<lparr>neighborRateRatio := r\<rparr>\<rparr>) } else Some c1) = Some c2"
    "(if computeMeanLinkDelay (port c2) then do {
         d \<leftarrow> computePropTime c2;
         Some (c2\<lparr>port := (port c2)\<lparr>meanLinkDelay := d\<rparr>\<rparr>) } else Some c2) = Some c3"
    "preq_capable (c3\<lparr>mdent := (mdent c3)\<lparr>isMeasuringDelay := True\<rparr>\<rparr>) = Some d"
    using assms unfolding preq_measure_def bind_eq_Some_conv Let_def by blast
  have "preq_state (sm c2) = preq_state (sm c1) \<and> preq_last_state (sm c2) = preq_last_state (sm c1)"
    using c(2) preq_ratio_keeps by (auto simp: bind_eq_Some_conv split: if_splits)
  moreover have "sm c3 = sm c2" using c(3) by (auto simp: bind_eq_Some_conv split: if_splits)
  ultimately show ?thesis using preq_add_keeps[OF c(1)] preq_capable_keeps(1,2)[OF c(4)] by simp
qed

lemma preq_interval_keeps:
  assumes "preq_interval_action c = Some d"
  shows "preq_state (sm d) = preq_state (sm c)" "preq_last_state (sm d) = preq_last_state (sm c)"
  using assms preq_measure_keeps[of "c\<lparr>sm := (sm c)\<lparr>rcvdPdelayRespFollowUp := False, lostResponses := 0\<rparr>\<rparr>"]
  unfolding preq_interval_action_def bind_eq_Some_conv Let_def by (auto split: if_splits)

lemma preq_follow_up_run:
  assumes c: "preq_on c" "preq_state (sm c) = PD_REQ_WAITING_FOR_PDELAY_RESP_FOLLOW_UP" "preq_last_state (sm c) = PD_REQ_WAITING_FOR_PDELAY_RESP_FOLLOW_UP"
      "txPdelayReqPtr (sm c) = Live q" "rcvdPdelayRespPtr (sm c) = Live p" "\<not> rcvdPdelayResp (sm c)"
    and p: "for_port (presp_requestingPortIdentity p) c" and f: "sequenceId (pfu_head f) = sequenceId (preq_head q)" and e: "\<not> preq_elapsed ts c"
    and c2: "c2 = c\<lparr>sm := (sm c)\<lparr>rcvdPdelayRespFollowUp := True, rcvdPdelayRespFollowUpPtr := Live f,
      req_t3 := uscaledns_ptpmsgtimestamp (responseOriginTimestamp f), preq_state := PD_REQ_WAITING_FOR_PDELAY_INTERVAL_TIMER,
      preq_last_state := PD_REQ_WAITING_FOR_PDELAY_INTERVAL_TIMER\<rparr>\<rparr>"
  shows "md_pdelay_req_sm_recv_resp_follow_up rnd ts f c = do {
     d \<leftarrow> preq_interval_action c2;
     (if preq_elapsed ts d then sm_loop (preq_body rnd ts) (preq_goto PD_REQ_SEND_PDELAY_REQ d) else Some d)
   }"
proof -
  define c0 where "c0 = c\<lparr>sm := (sm c)\<lparr>rcvdPdelayRespFollowUp := True, rcvdPdelayRespFollowUpPtr := Live f,
    req_t3 := uscaledns_ptpmsgtimestamp (responseOriginTimestamp f)\<rparr>\<rparr>"
  define c1 where "c1 = c0\<lparr>sm := (sm c0)\<lparr>preq_state := PD_REQ_WAITING_FOR_PDELAY_INTERVAL_TIMER\<rparr>\<rparr>"
  have e0: "\<not> preq_elapsed ts c0" using e by (simp_all add: preq_elapsed_def c0_def)
  have "preq_on c0" using c(1) by (simp add: preq_on_def c0_def)
  moreover have "preq_body rnd ts c0 = Some (c1, True)"
    using c(2-) p f e0 by (simp add: preq_body_def Let_def preq_goto_def preq_follow_up_transition_def preq_follow_up_fits_def for_port_def preq_elapsed_def c0_def c1_def)
  ultimately have r: "md_pdelay_req_sm_recv_resp_follow_up rnd ts f c = sm_loop (preq_body rnd ts) c1"
    by (simp add: md_pdelay_req_sm_recv_resp_follow_up_def preq_run_loop sm_loop_turn[of "preq_body rnd ts" c0] c0_def[symmetric])
  have c2': "c1\<lparr>sm := (sm c1)\<lparr>preq_last_state := PD_REQ_WAITING_FOR_PDELAY_INTERVAL_TIMER\<rparr>\<rparr> = c2" by (simp add: c2 c1_def c0_def)
  have c1: "preq_state (sm c1) = PD_REQ_WAITING_FOR_PDELAY_INTERVAL_TIMER" "preq_last_state (sm c1) \<noteq> PD_REQ_WAITING_FOR_PDELAY_INTERVAL_TIMER"
    "preq_state (sm c2) = PD_REQ_WAITING_FOR_PDELAY_INTERVAL_TIMER" "preq_last_state (sm c2) = PD_REQ_WAITING_FOR_PDELAY_INTERVAL_TIMER"
    using c by (simp_all add: c1_def c0_def c2)
  show ?thesis
  proof (cases "preq_interval_action c2")
    case None
    then have "preq_body rnd ts c1 = None" using c1 by (simp add: preq_body_def c2')
    then show ?thesis using None unfolding r by (subst sm_loop.simps) simp
  next
    case (Some d)
    have d: "preq_state (sm d) = PD_REQ_WAITING_FOR_PDELAY_INTERVAL_TIMER" "preq_last_state (sm d) = PD_REQ_WAITING_FOR_PDELAY_INTERVAL_TIMER"
      using preq_interval_keeps[OF Some] c1(3,4) by simp_all
    then have "preq_body rnd ts c1 = Some (preq_goto (preq_interval_transition ts d) d, preq_elapsed ts d)"
      using c1 Some by (simp add: preq_body_def c2' preq_interval_transition_def preq_goto_def)
    then show ?thesis unfolding r Some
      by (subst sm_loop.simps) (simp add: preq_interval_transition_def, simp add: preq_goto_def d)
  qed
qed

section \<open>The queue of measurements\<close>

text \<open>The slot of a new measurement, and that of the oldest one that is left when it has been stored.\<close>

definition new_slot :: "MDPdelayReqSM \<Rightarrow> nat" where
  "new_slot m = (listTailPropTime m + 1) mod MAXLENGTH"

definition old_slot :: "MDPdelayReqSM \<Rightarrow> nat" where
  "old_slot m = (if listHeadPropTime m = new_slot m then (listHeadPropTime m + 1) mod MAXLENGTH else listHeadPropTime m)"

definition time_ring :: "MDPdelayReqSM \<Rightarrow> bool" where
  "time_ring m \<longleftrightarrow> length (lPdelayRespEventIngressTimestamp m) = MAXLENGTH \<and> length (lCorrectedResponderEventTimestamp m) = MAXLENGTH \<and>
     listHeadPropTime m < MAXLENGTH \<and> listTailPropTime m < MAXLENGTH \<and>
     (isEmptyPropTime m \<longrightarrow> listHeadPropTime m = 0 \<and> listTailPropTime m = MAXLENGTH - 1)"

definition ring_slots :: "MDPdelayReqSM \<Rightarrow> nat set" where
  "ring_slots m = (if isEmptyPropTime m then {}
     else if listHeadPropTime m \<le> listTailPropTime m then {listHeadPropTime m..listTailPropTime m}
     else {listHeadPropTime m..<MAXLENGTH} \<union> {..listTailPropTime m})"

text \<open>The times of the oldest measurement by the clock of the neighbour and by the own clock.\<close>

definition oldest :: "MDPdelayReqSM \<Rightarrow> (nat \<times> nat) option" where
  "oldest m = (if isEmptyPropTime m then None
     else Some (usval (lCorrectedResponderEventTimestamp m ! old_slot m), usval (lPdelayRespEventIngressTimestamp m ! old_slot m)))"

definition stored :: "MDPdelayReqSM \<Rightarrow> MDPdelayReqSM" where
  "stored m = m\<lparr>lPdelayRespEventIngressTimestamp := (lPdelayRespEventIngressTimestamp m)[new_slot m := req_t4 m],
     lCorrectedResponderEventTimestamp := (lCorrectedResponderEventTimestamp m)[new_slot m := req_t3 m], isEmptyPropTime := False,
     listHeadPropTime := if isEmptyPropTime m then listHeadPropTime m else old_slot m, listTailPropTime := new_slot m\<rparr>"

lemma slots_less: "time_ring m \<Longrightarrow> new_slot m < MAXLENGTH" "time_ring m \<Longrightarrow> old_slot m < MAXLENGTH"
  by (simp_all add: new_slot_def old_slot_def time_ring_def)

lemma next_slot: "(i + 1) mod MAXLENGTH = (if i = MAXLENGTH - 1 then 0 else i + 1)" if "i < MAXLENGTH" for i :: nat
  using that by (cases "i = MAXLENGTH - 1") simp_all

lemma old_new: "time_ring m \<Longrightarrow> old_slot m \<noteq> new_slot m"
  unfolding old_slot_def new_slot_def time_ring_def by (simp only: next_slot) (auto split: if_splits)

lemma old_in_ring: "time_ring m \<Longrightarrow> \<not> isEmptyPropTime m \<Longrightarrow> old_slot m \<in> ring_slots m"
  unfolding old_slot_def new_slot_def time_ring_def ring_slots_def by (simp only: next_slot) (auto split: if_splits)

lemma add_stores: "time_ring (sm c) \<Longrightarrow> md_pdelay_add_resp_and_resp_follow_up_timestamp c = Some (c\<lparr>sm := stored (sm c)\<rparr>)"
  using slots_less[of "sm c"]
  by (simp add: md_pdelay_add_resp_and_resp_follow_up_timestamp_def stored_def new_slot_def old_slot_def time_ring_def wr_in Let_def)

lemma stored_ring: "time_ring m \<Longrightarrow> time_ring (stored m)"
  using slots_less[of m] by (simp add: time_ring_def stored_def)

lemma stored_slots:
  assumes "time_ring m"
  shows "ring_slots (stored m) \<subseteq> insert (new_slot m) (ring_slots m)"
proof -
  let ?h = "listHeadPropTime m" and ?t = "listTailPropTime m"
  have b: "?h < MAXLENGTH" "?t < MAXLENGTH" using assms by (simp_all add: time_ring_def)
  have n: "new_slot m = (if ?t = MAXLENGTH - 1 then 0 else ?t + 1)" unfolding new_slot_def by (rule next_slot[OF b(2)])
  have o: "old_slot m = (if ?h = new_slot m then if ?h = MAXLENGTH - 1 then 0 else ?h + 1 else ?h)"
    unfolding old_slot_def by (simp only: next_slot[OF b(1)])
  show ?thesis
  proof (cases "isEmptyPropTime m")
    case True
    then have "ring_slots (stored m) = {new_slot m}" using assms n by (simp add: ring_slots_def stored_def time_ring_def)
    then show ?thesis by simp
  next
    case False
    have s: "ring_slots (stored m) = (if old_slot m \<le> new_slot m then {old_slot m..new_slot m} else {old_slot m..<MAXLENGTH} \<union> {..new_slot m})"
      using False by (simp add: ring_slots_def stored_def)
    have r: "ring_slots m = (if ?h \<le> ?t then {?h..?t} else {?h..<MAXLENGTH} \<union> {..?t})" using False by (simp add: ring_slots_def)
    show ?thesis unfolding s r o n using b by (auto split: if_splits)
  qed
qed

text \<open>All the measurements were taken with the clock of the neighbour ahead by \<open>d\<close> of the own.\<close>

definition in_step :: "int \<Rightarrow> MDPdelayReqSM \<Rightarrow> bool" where
  "in_step d m \<longleftrightarrow> (\<forall>i \<in> ring_slots m.
     int (usval (lCorrectedResponderEventTimestamp m ! i)) = int (usval (lPdelayRespEventIngressTimestamp m ! i)) + d)"

lemma in_step_stored:
  assumes "time_ring m" "in_step d m" "int (usval (req_t3 m)) = int (usval (req_t4 m)) + d"
  shows "in_step d (stored m)"
  unfolding in_step_def
proof
  fix i assume i: "i \<in> ring_slots (stored m)"
  then have "i = new_slot m \<or> i \<in> ring_slots m" using stored_slots[OF assms(1)] by blast
  then show "int (usval (lCorrectedResponderEventTimestamp (stored m) ! i)) = int (usval (lPdelayRespEventIngressTimestamp (stored m) ! i)) + d"
    using assms slots_less(1)[OF assms(1)] by (cases "i = new_slot m") (simp_all add: stored_def in_step_def time_ring_def)
qed

lemma in_step_oldest: "time_ring m \<Longrightarrow> in_step d m \<Longrightarrow> oldest m = Some (r, l) \<Longrightarrow> int r = int l + d"
  using old_in_ring[of m] by (auto simp: oldest_def in_step_def split: if_splits)

section \<open>The ratio of the clocks\<close>

text \<open>
  The neighbour's time over the own time since the oldest measurement, cut off behind 32 binary places; a ratio that is
  off by more than a thousandth counts as 1.
\<close>

definition measured_ratio :: "MDPdelayReqSM \<Rightarrow> nat \<Rightarrow> nat \<Rightarrow> double" where
  "measured_ratio m t3 t4 = (case oldest m of None \<Rightarrow> 1
     | Some (r, l) \<Rightarrow> let q = of_nat ((t3 - r) * 2 ^ 32 div (t4 - l)) / 2 ^ 32 in if \<bar>fl (q - 1)\<bar> > fl (1 / 10 ^ 3) then 1 else q)"

text \<open>Both clocks went on since the oldest measurement, and the quotient has no more than 21 binary places before the point.\<close>

definition went_on :: "MDPdelayReqSM \<Rightarrow> nat \<Rightarrow> nat \<Rightarrow> bool" where
  "went_on m t3 t4 \<longleftrightarrow> (case oldest m of None \<Rightarrow> True | Some (r, l) \<Rightarrow> r \<le> t3 \<and> l < t4 \<and> t3 - r < 2 ^ 21 * (t4 - l))"

lemma ratio_in_step:
  assumes "time_ring m" "in_step d m" "int t3 = int t4 + d" "went_on m t3 t4"
  shows "measured_ratio m t3 t4 = 1"
proof (cases "oldest m")
  case (Some x)
  then obtain r l where o: "oldest m = Some (r, l)" by (cases x) auto
  have "int r = int l + d" by (rule in_step_oldest[OF assms(1,2) o])
  moreover have "r \<le> t3" "l < t4" using assms(4) o by (simp_all add: went_on_def)
  ultimately have "t3 - r = t4 - l" "0 < t4 - l" using assms(3) by linarith+
  then show ?thesis by (simp add: measured_ratio_def o)
qed (simp add: measured_ratio_def)

lemma ratio_bounds: "went_on m t3 t4 \<Longrightarrow> 0 \<le> measured_ratio m t3 t4 \<and> measured_ratio m t3 t4 \<le> 2 ^ 21"
proof (cases "oldest m")
  case (Some x)
  assume w: "went_on m t3 t4"
  obtain r l where o: "oldest m = Some (r, l)" using Some by (cases x) auto
  let ?n = "(t3 - r) * 2 ^ 32 div (t4 - l)"
  have l: "0 < t4 - l" "(t3 - r) * 2 ^ 32 \<le> 2 ^ 53 * (t4 - l)" using w by (simp_all add: went_on_def o)
  have "?n \<le> 2 ^ 53 * (t4 - l) div (t4 - l)" by (rule div_le_mono[OF l(2)])
  then have "?n \<le> 2 ^ 53" using l(1) by (subst (asm) nonzero_mult_div_cancel_right) simp_all
  then have "(of_nat ?n :: rat) \<le> of_nat (2 ^ 53)" by (rule of_nat_mono)
  then have q: "0 \<le> (of_nat ?n :: rat) / 2 ^ 32" "(of_nat ?n :: rat) / 2 ^ 32 \<le> 2 ^ 21" by (simp_all add: divide_le_eq del: of_nat_mult)
  define q where "q = (of_nat ?n :: rat) / 2 ^ 32"
  have "measured_ratio m t3 t4 = (if \<bar>fl (q - 1)\<bar> > fl (1 / 10 ^ 3) then 1 else q)" by (simp only: measured_ratio_def o Let_def option.case prod.case q_def)
  then show ?thesis using q unfolding q_def[symmetric] by simp
qed (simp add: measured_ratio_def)

lemma ratio_computed:
  assumes m: "time_ring (sm c)" and w: "went_on (sm c) (usval (req_t3 (sm c))) (usval (req_t4 (sm c)))"
  obtains h where "h < MAXLENGTH" "h = listHeadPropTime (stored (sm c)) \<or> h = new_slot (sm c)"
    "computePdelayRateRatio (c\<lparr>sm := stored (sm c)\<rparr>) =
      Some (measured_ratio (sm c) (usval (req_t3 (sm c))) (usval (req_t4 (sm c))), c\<lparr>sm := (stored (sm c))\<lparr>listHeadPropTime := h\<rparr>\<rparr>)"
proof (cases "isEmptyPropTime (sm c)")
  case True
  then have "listHeadPropTime (stored (sm c)) = new_slot (sm c)" using m by (simp add: stored_def new_slot_def time_ring_def)
  then show thesis
    using True slots_less[OF m] by (intro that[of "new_slot (sm c)"]) (simp_all add: computePdelayRateRatio_def measured_ratio_def oldest_def stored_def)
next
  case False
  let ?m = "sm c" and ?s = "stored (sm c)"
  let ?r = "lCorrectedResponderEventTimestamp ?m ! old_slot ?m" and ?l = "lPdelayRespEventIngressTimestamp ?m ! old_slot ?m"
  have o: "oldest ?m = Some (usval ?r, usval ?l)" using False by (simp add: oldest_def)
  have w': "usval ?r \<le> usval (req_t3 ?m)" "usval ?l < usval (req_t4 ?m)"
    "usval (req_t3 ?m) - usval ?r < 2 ^ 21 * (usval (req_t4 ?m) - usval ?l)" using w by (simp_all add: went_on_def o)
  have s: "listHeadPropTime ?s = old_slot ?m" "listTailPropTime ?s = new_slot ?m" "\<not> isEmptyPropTime ?s" using False by (simp_all add: stored_def)
  have rds: "rd (lCorrectedResponderEventTimestamp ?s) (new_slot ?m) = Some (req_t3 ?m)" "rd (lCorrectedResponderEventTimestamp ?s) (old_slot ?m) = Some ?r"
    "rd (lPdelayRespEventIngressTimestamp ?s) (new_slot ?m) = Some (req_t4 ?m)" "rd (lPdelayRespEventIngressTimestamp ?s) (old_slot ?m) = Some ?l"
    using m slots_less[OF m] old_new[OF m] by (simp_all add: stored_def time_ring_def rd_in)
  have q: "uscaledns_div (uscaledns_subtract (req_t3 ?m) ?r) (uscaledns_subtract (req_t4 ?m) ?l) =
      Some (of_nat ((usval (req_t3 ?m) - usval ?r) * 2 ^ 32 div (usval (req_t4 ?m) - usval ?l)) / 2 ^ 32)"
    using w' by (subst uscaledns_div_runs) (simp_all add: usval_subtract_le)
  let ?q = "of_nat ((usval (req_t3 ?m) - usval ?r) * 2 ^ 32 div (usval (req_t4 ?m) - usval ?l)) / 2 ^ 32 :: double"
  have e: "computePdelayRateRatio (c\<lparr>sm := ?s\<rparr>) = Some (if \<bar>fl (?q - 1)\<bar> > fl (1 / 10 ^ 3) then (1, c\<lparr>sm := ?s\<lparr>listHeadPropTime := new_slot ?m\<rparr>\<rparr>)
      else (?q, c\<lparr>sm := ?s\<rparr>))"
    using old_new[OF m] by (simp add: computePdelayRateRatio_def Let_def s rds q)
  have ratio: "measured_ratio ?m (usval (req_t3 ?m)) (usval (req_t4 ?m)) = (if \<bar>fl (?q - 1)\<bar> > fl (1 / 10 ^ 3) then 1 else ?q)"
    by (simp add: measured_ratio_def o Let_def)
  have h: "?s\<lparr>listHeadPropTime := old_slot ?m\<rparr> = ?s" using s(1) by simp
  show thesis
  proof (cases "\<bar>fl (?q - 1)\<bar> > fl (1 / 10 ^ 3)")
    case True
    show thesis by (rule that[of "new_slot ?m"]) (use slots_less[OF m] in simp, simp, simp only: e ratio if_P[OF True])
  next
    case False
    show thesis by (rule that[of "old_slot ?m"]) (use slots_less[OF m] s in simp, use s in simp, simp only: e ratio if_not_P[OF False] h)
  qed
qed

section \<open>The delay\<close>

text \<open>The multiplication takes the ratio to 16 binary places.\<close>

definition ratio_steps :: "double \<Rightarrow> nat" where
  "ratio_steps r = nat \<lceil>r * 2 ^ 16 - 1 / 2\<rceil>"

lemma ratio_steps_one: "ratio_steps 1 = 65536"
proof -
  have "\<lceil>1 * 2 ^ 16 - 1 / 2 :: rat\<rceil> = 65536" by (simp add: ceiling_eq_iff)
  then show ?thesis by (simp add: ratio_steps_def)
qed

lemma prop_time:
  fixes c :: ReqCtx
  defines "trip \<equiv> usval (req_t4 (sm c)) - usval (req_t1 (sm c))" and "turn \<equiv> usval (req_t3 (sm c)) - usval (req_t2 (sm c))"
    and "k \<equiv> ratio_steps (neighborRateRatio (port c))"
  assumes le: "usval (req_t1 (sm c)) \<le> usval (req_t4 (sm c))" "usval (req_t2 (sm c)) \<le> usval (req_t3 (sm c))"
    and r: "0 \<le> neighborRateRatio (port c)" "neighborRateRatio (port c) < 2 ^ 64 - 1" and fit: "trip * k < 2 ^ 64"
  shows "trip * k div 2 ^ 16 < turn \<Longrightarrow> computePropTime c = None"
    and "turn \<le> trip * k div 2 ^ 16 \<Longrightarrow> \<exists>d. computePropTime c = Some d \<and> usval d = (trip * k div 2 ^ 16 - turn) div 2"
proof -
  let ?a = "uscaledns_subtract (req_t4 (sm c)) (req_t1 (sm c))" and ?b = "uscaledns_subtract (req_t3 (sm c)) (req_t2 (sm c))"
  have ab: "usval ?a = trip" "usval ?b = turn" unfolding trip_def turn_def by (rule usval_subtract_le[OF le(1)], rule usval_subtract_le[OF le(2)])
  obtain e where e: "uscaledns_double (neighborRateRatio (port c)) = Some e" "usval e = k"
    using usval_uscaledns_double[OF r] by (auto simp: k_def ratio_steps_def)
  then have m: "usval (uscaledns_mul ?a e) = trip * k div 2 ^ 16" using usval_mul[of ?a e] fit by (simp add: ab)
  have p: "computePropTime c = (if trip * k div 2 ^ 16 < turn then None
      else Some (uscaledns_divide_by_2 (uscaledns_subtract (uscaledns_mul ?a e) ?b)))"
    using le(1) m ab by (simp add: computePropTime_def uscaledns_mul_double_def e(1) Let_def uscaledns_compare_usval sgn_if)
  show "trip * k div 2 ^ 16 < turn \<Longrightarrow> computePropTime c = None" using p by simp
  assume t: "turn \<le> trip * k div 2 ^ 16"
  then have "usval (uscaledns_subtract (uscaledns_mul ?a e) ?b) = trip * k div 2 ^ 16 - turn"
    using usval_subtract_le[of ?b "uscaledns_mul ?a e"] m ab by simp
  then show "\<exists>d. computePropTime c = Some d \<and> usval d = (trip * k div 2 ^ 16 - turn) div 2"
    using p t by (simp add: usval_divide_by_2)
qed

text \<open>A port that measures the delay of its link and the ratio of the clocks.\<close>

definition measuring :: "ReqCtx \<Rightarrow> bool" where
  "measuring c \<longleftrightarrow> time_ring (sm c) \<and> computeNeighborRateRatio (port c) \<and> computeMeanLinkDelay (port c) \<and> \<not> asymmetryMeasurementMode (port c)"

text \<open>What one measurement leaves: \<open>d\<close> after \<open>c\<close>.\<close>

definition measured :: "ReqCtx \<Rightarrow> PTPMsgPdelayResp \<Rightarrow> ReqCtx \<Rightarrow> bool" where
  "measured c p d \<longleftrightarrow> measuring d \<and>
     neighborRateRatio (port d) = measured_ratio (sm c) (usval (req_t3 (sm c))) (usval (req_t4 (sm c))) \<and>
     (isMeasuringDelay (mdent d) \<longleftrightarrow> clockIdentity (sourcePortIdentity (presp_head p)) \<noteq> thisClock (inst c) \<or>
       detectedFaults (sm c) \<le> ucast (allowedFaults (mdent c))) \<and>
     (\<forall>x. in_step x (sm c) \<and> int (usval (req_t3 (sm c))) = int (usval (req_t4 (sm c))) + x \<longrightarrow> in_step x (sm d)) \<and>
     pdelayIntervalTimer (sm d) = pdelayIntervalTimer (sm c) \<and> pdelayReqInterval (mdent d) = pdelayReqInterval (mdent c) \<and>
     preq_state (sm d) = preq_state (sm c) \<and> preq_last_state (sm d) = preq_last_state (sm c) \<and> eth d = eth c \<and>
     txPdelayReqPtr (sm d) = txPdelayReqPtr (sm c) \<and> rcvdPdelayRespPtr (sm d) = rcvdPdelayRespPtr (sm c) \<and>
     rcvdPdelayRespFollowUpPtr (sm d) = rcvdPdelayRespFollowUpPtr (sm c)"

lemma in_step_head: "time_ring m \<Longrightarrow> in_step x m \<Longrightarrow> h = listHeadPropTime m \<or> h = listTailPropTime m \<Longrightarrow> in_step x (m\<lparr>listHeadPropTime := h\<rparr>)"
  by (auto simp: in_step_def ring_slots_def time_ring_def split: if_splits)

lemma preq_capable_runs:
  assumes "rcvdPdelayRespPtr (sm c) = Live p"
  obtains n b y where "preq_capable c = Some (c\<lparr>sm := (sm c)\<lparr>detectedFaults := n\<rparr>, mdent := (mdent c)\<lparr>isMeasuringDelay := b, asCapableAcrossDomains := y\<rparr>\<rparr>)"
    "b \<longleftrightarrow> isMeasuringDelay (mdent c) \<and> (clockIdentity (sourcePortIdentity (presp_head p)) \<noteq> thisClock (inst c) \<or> detectedFaults (sm c) \<le> ucast (allowedFaults (mdent c)))"
proof -
  let ?o = "clockIdentity (sourcePortIdentity (presp_head p)) \<noteq> thisClock (inst c)" and ?f = "detectedFaults (sm c) \<le> ucast (allowedFaults (mdent c))"
  have eta: "(mdent c)\<lparr>isMeasuringDelay := isMeasuringDelay (mdent c)\<rparr> = mdent c" "(mdent c)\<lparr>asCapableAcrossDomains := asCapableAcrossDomains (mdent c)\<rparr> = mdent c"
    by simp_all
  show thesis
  proof (cases "?o \<or> ?f")
    case True
    then have "\<exists>n y. preq_capable c = Some (c\<lparr>sm := (sm c)\<lparr>detectedFaults := n\<rparr>, mdent := (mdent c)\<lparr>isMeasuringDelay := isMeasuringDelay (mdent c),
        asCapableAcrossDomains := y\<rparr>\<rparr>)"
    proof (cases ?o)
      case True
      then show ?thesis unfolding eta using assms
        by (cases "uscaledns_compare (meanLinkDelay (port c)) (meanLinkDelayThresh (mdent c)) \<le> 0 \<and> neighborRateRatioValid (sm c)")
          (auto simp: preq_capable_def Let_def)
    next
      case False
      with True show ?thesis using assms
        by (intro exI[of _ "detectedFaults (sm c) + 1"] exI[of _ "asCapableAcrossDomains (mdent c)"]) (simp add: preq_capable_def Let_def)
    qed
    then show thesis using that True by blast
  next
    case False
    then show thesis using assms by (intro that[of False False 0]) (simp_all add: preq_capable_def Let_def)
  qed
qed

lemma measure_runs:
  fixes c :: ReqCtx
  defines "trip \<equiv> usval (req_t4 (sm c)) - usval (req_t1 (sm c))" and "turn \<equiv> usval (req_t3 (sm c)) - usval (req_t2 (sm c))"
    and "k \<equiv> ratio_steps (measured_ratio (sm c) (usval (req_t3 (sm c))) (usval (req_t4 (sm c))))"
  assumes c: "measuring c" "rcvdPdelayRespPtr (sm c) = Live p"
    and le: "usval (req_t1 (sm c)) \<le> usval (req_t4 (sm c))" "usval (req_t2 (sm c)) \<le> usval (req_t3 (sm c))"
    and w: "went_on (sm c) (usval (req_t3 (sm c))) (usval (req_t4 (sm c)))" and fit: "trip * k < 2 ^ 64"
  shows "if trip * k div 2 ^ 16 < turn then preq_measure c = None
    else \<exists>d. preq_measure c = Some d \<and> usval (meanLinkDelay (port d)) = (trip * k div 2 ^ 16 - turn) div 2 \<and> measured c p d"
proof -
  let ?r = "measured_ratio (sm c) (usval (req_t3 (sm c))) (usval (req_t4 (sm c)))"
  have ring: "time_ring (sm c)" using c(1) by (simp add: measuring_def)
  obtain h where h: "h < MAXLENGTH" "h = listHeadPropTime (stored (sm c)) \<or> h = new_slot (sm c)"
    "computePdelayRateRatio (c\<lparr>sm := stored (sm c)\<rparr>) = Some (?r, c\<lparr>sm := (stored (sm c))\<lparr>listHeadPropTime := h\<rparr>\<rparr>)"
    by (rule ratio_computed[OF ring w])
  define m where "m = (stored (sm c))\<lparr>listHeadPropTime := h\<rparr>"
  define q where "q = (port c)\<lparr>neighborRateRatio := ?r\<rparr>"
  have m: "req_t1 m = req_t1 (sm c)" "req_t2 m = req_t2 (sm c)" "req_t3 m = req_t3 (sm c)" "req_t4 m = req_t4 (sm c)" "rcvdPdelayRespPtr m = Live p"
    "detectedFaults m = detectedFaults (sm c)" "time_ring m"
    using c(2) stored_ring[OF ring] h(1) by (auto simp: m_def stored_def time_ring_def)
  have step: "in_step x m" if "in_step x (sm c)" "int (usval (req_t3 (sm c))) = int (usval (req_t4 (sm c))) + x" for x
    unfolding m_def
    by (rule in_step_head[OF stored_ring[OF ring] in_step_stored[OF ring that]]) (use h(2) in \<open>simp add: stored_def\<close>)
  have e: "preq_measure c = do {
      d \<leftarrow> computePropTime (c\<lparr>sm := m, port := q\<rparr>);
      preq_capable (c\<lparr>sm := m, port := q\<lparr>meanLinkDelay := d\<rparr>, mdent := (mdent c)\<lparr>isMeasuringDelay := True\<rparr>\<rparr>) }"
    using c(1) add_stores[OF ring] h(3) by (simp add: preq_measure_def measuring_def m_def q_def)
  have b: "0 \<le> ?r" "?r < 2 ^ 64 - 1" using ratio_bounds[OF w] by simp_all
  have n: "neighborRateRatio q = ?r" by (simp add: q_def)
  note pt' = prop_time[of "c\<lparr>sm := m, port := q\<rparr>"]
  have none: "trip * k div 2 ^ 16 < turn \<Longrightarrow> computePropTime (c\<lparr>sm := m, port := q\<rparr>) = None"
    and some: "turn \<le> trip * k div 2 ^ 16 \<Longrightarrow> \<exists>d. computePropTime (c\<lparr>sm := m, port := q\<rparr>) = Some d \<and> usval d = (trip * k div 2 ^ 16 - turn) div 2"
    using pt' le b fit by (simp_all add: m n trip_def turn_def k_def)
  show ?thesis
  proof (cases "trip * k div 2 ^ 16 < turn")
    case True
    then show ?thesis using none e by simp
  next
    case False
    then obtain d where d: "computePropTime (c\<lparr>sm := m, port := q\<rparr>) = Some d" "usval d = (trip * k div 2 ^ 16 - turn) div 2"
      using some by (meson not_le)
    let ?c = "c\<lparr>sm := m, port := q\<lparr>meanLinkDelay := d\<rparr>, mdent := (mdent c)\<lparr>isMeasuringDelay := True\<rparr>\<rparr>"
    have "rcvdPdelayRespPtr (sm ?c) = Live p" using m(5) by simp
    then obtain n b y where g: "preq_capable ?c = Some (?c\<lparr>sm := m\<lparr>detectedFaults := n\<rparr>, mdent := (mdent c)\<lparr>isMeasuringDelay := b, asCapableAcrossDomains := y\<rparr>\<rparr>)"
      "b \<longleftrightarrow> clockIdentity (sourcePortIdentity (presp_head p)) \<noteq> thisClock (inst c) \<or> detectedFaults (sm c) \<le> ucast (allowedFaults (mdent c))"
      using m(6) by (elim preq_capable_runs) simp
    let ?g = "?c\<lparr>sm := m\<lparr>detectedFaults := n\<rparr>, mdent := (mdent c)\<lparr>isMeasuringDelay := b, asCapableAcrossDomains := y\<rparr>\<rparr>"
    have "time_ring (sm ?g)" "in_step x (sm ?g) = in_step x m" for x using m(7) by (simp_all add: time_ring_def in_step_def ring_slots_def)
    then have "measured c p ?g"
      using c(1) g(2) step m(5) c(2) by (simp add: measured_def measuring_def q_def) (simp add: m_def stored_def)
    then show ?thesis using False e d g(1) by simp
  qed
qed

text \<open>A port that has not measured yet.\<close>

definition preq_fresh :: "ReqCtx \<Rightarrow> bool" where
  "preq_fresh c \<longleftrightarrow> isEmptyPropTime (sm c) \<and> listHeadPropTime (sm c) = 0 \<and> listTailPropTime (sm c) = MAXLENGTH - 1 \<and>
     length (lPdelayRespEventIngressTimestamp (sm c)) = MAXLENGTH \<and> length (lCorrectedResponderEventTimestamp (sm c)) = MAXLENGTH \<and>
     detectedFaults (sm c) = 0 \<and> neighborRateRatio (port c) = 1 \<and> computeMeanLinkDelay (port c) \<and> \<not> asymmetryMeasurementMode (port c)"

lemma fresh_measuring: "preq_fresh c \<Longrightarrow> computeNeighborRateRatio (port c) \<Longrightarrow> measuring c \<and> in_step d (sm c)"
  by (simp add: preq_fresh_def measuring_def time_ring_def in_step_def ring_slots_def)

text \<open>What the three events of a measurement leave behind, before it is evaluated.\<close>

definition answered :: "UScaledNs \<Rightarrow> PTPMsgPdelayResp \<Rightarrow> UScaledNs \<Rightarrow> PTPMsgPdelayRespFollowUp \<Rightarrow> ReqCtx \<Rightarrow> ReqCtx" where
  "answered t1 p t4 f c = c\<lparr>sm := (sm c)\<lparr>req_t1 := t1, rcvdMDTimestampReceiveMDPReq := False, rcvdPdelayResp := False, rcvdPdelayRespPtr := Live p,
     req_t2 := uscaledns_ptpmsgtimestamp (requestReceiptTimestamp p), req_t4 := t4,
     rcvdPdelayRespFollowUp := True, rcvdPdelayRespFollowUpPtr := Live f,
     req_t3 := uscaledns_ptpmsgtimestamp (responseOriginTimestamp f),
     preq_state := PD_REQ_WAITING_FOR_PDELAY_INTERVAL_TIMER, preq_last_state := PD_REQ_WAITING_FOR_PDELAY_INTERVAL_TIMER\<rparr>\<rparr>"

definition evaluated :: "ReqCtx \<Rightarrow> ReqCtx" where
  "evaluated c = c\<lparr>sm := (sm c)\<lparr>rcvdPdelayRespFollowUp := False, lostResponses := 0\<rparr>\<rparr>"

text \<open>The three events, all of them within the interval, the answers belonging to the request \<open>q\<close>.\<close>

definition answers :: "PTPMsgPdelayReq \<Rightarrow> TSUTimestamp \<Rightarrow> PTPMsgPdelayResp \<Rightarrow> PTPMsgPdelayRespFollowUp \<Rightarrow> UScaledNs list \<Rightarrow> ReqCtx \<Rightarrow> bool" where
  "answers q s1 p f ts c \<longleftrightarrow> ts_sequenceID s1 = sequenceId (preq_head q) \<and> sequenceId (presp_head p) = sequenceId (preq_head q) \<and>
     sequenceId (pfu_head f) = sequenceId (preq_head q) \<and> for_port (presp_requestingPortIdentity p) c \<and> (\<forall>t \<in> set ts. \<not> preq_elapsed t c)"

lemma three_events:
  assumes c: "preq_sent q c" and a: "answers q s1 p f [ts1, ts2, ts3] c"
  obtains d e where "md_pdelay_req_sm_txts rnd ts1 s1 c = Some d" "md_pdelay_req_sm_recv_resp rnd ts2 s4 p d = Some e"
    "md_pdelay_req_sm_recv_resp_follow_up rnd ts3 f e = do {
       g \<leftarrow> preq_interval_action (answered (ts_ts s1) p (ts_ts s4) f c);
       (if preq_elapsed ts3 g then sm_loop (preq_body rnd ts3) (preq_goto PD_REQ_SEND_PDELAY_REQ g) else Some g)
     }"
proof -
  define d where "d = c\<lparr>sm := (sm c)\<lparr>req_t1 := ts_ts s1, rcvdMDTimestampReceiveMDPReq := False,
    preq_state := PD_REQ_WAITING_FOR_PDELAY_RESP, preq_last_state := PD_REQ_WAITING_FOR_PDELAY_RESP\<rparr>\<rparr>"
  define e where "e = d\<lparr>sm := (sm d)\<lparr>rcvdPdelayResp := False, rcvdPdelayRespPtr := Live p,
    req_t2 := uscaledns_ptpmsgtimestamp (requestReceiptTimestamp p), req_t4 := ts_ts s4,
    preq_state := PD_REQ_WAITING_FOR_PDELAY_RESP_FOLLOW_UP, preq_last_state := PD_REQ_WAITING_FOR_PDELAY_RESP_FOLLOW_UP\<rparr>\<rparr>"
  have el: "preq_elapsed t d = preq_elapsed t c" "preq_elapsed t e = preq_elapsed t c" for t by (simp_all add: preq_elapsed_def d_def e_def)
  have fp: "for_port i d = for_port i c" "for_port i e = for_port i c" for i by (simp_all add: for_port_def d_def e_def)
  have d: "preq_on d" "preq_state (sm d) = PD_REQ_WAITING_FOR_PDELAY_RESP" "preq_last_state (sm d) = PD_REQ_WAITING_FOR_PDELAY_RESP"
    "txPdelayReqPtr (sm d) = Live q" "\<not> rcvdPdelayRespFollowUp (sm d)"
    using c by (simp_all add: d_def preq_sent_def preq_on_def)
  have e: "preq_on e" "preq_state (sm e) = PD_REQ_WAITING_FOR_PDELAY_RESP_FOLLOW_UP" "preq_last_state (sm e) = PD_REQ_WAITING_FOR_PDELAY_RESP_FOLLOW_UP"
    "txPdelayReqPtr (sm e) = Live q" "rcvdPdelayRespPtr (sm e) = Live p" "\<not> rcvdPdelayResp (sm e)"
    using d by (simp_all add: e_def preq_on_def)
  have 1: "md_pdelay_req_sm_txts rnd ts1 s1 c = Some d"
    unfolding d_def by (rule preq_txts_run[OF c]) (use a in \<open>simp_all add: answers_def\<close>)
  have 2: "md_pdelay_req_sm_recv_resp rnd ts2 s4 p d = Some e"
    unfolding e_def by (rule preq_resp_run[OF d]) (use a in \<open>simp_all add: answers_def el fp\<close>)
  have 3: "for_port (presp_requestingPortIdentity p) e" "sequenceId (pfu_head f) = sequenceId (preq_head q)" "\<not> preq_elapsed ts3 e"
    using a by (simp_all add: answers_def el fp)
  show thesis
    by (rule that[OF 1 2]) (subst preq_follow_up_run[OF e 3 refl], simp add: answered_def d_def e_def)
qed

lemma evaluated_fields:
  fixes t1 p t4 f c
  defines "h \<equiv> evaluated (answered t1 p t4 f c)"
  shows "req_t1 (sm h) = t1" "req_t2 (sm h) = uscaledns_ptpmsgtimestamp (requestReceiptTimestamp p)"
    "req_t3 (sm h) = uscaledns_ptpmsgtimestamp (responseOriginTimestamp f)" "req_t4 (sm h) = t4"
    "rcvdPdelayRespPtr (sm h) = Live p" "txPdelayReqPtr (sm h) = txPdelayReqPtr (sm c)" "rcvdPdelayRespFollowUpPtr (sm h) = Live f"
    "pdelayIntervalTimer (sm h) = pdelayIntervalTimer (sm c)" "pdelayReqInterval (mdent h) = pdelayReqInterval (mdent c)"
    "preq_state (sm h) = PD_REQ_WAITING_FOR_PDELAY_INTERVAL_TIMER" "eth h = eth c" "measuring h = measuring c" "in_step d (sm h) = in_step d (sm c)"
    "measured_ratio (sm h) = measured_ratio (sm c)" "went_on (sm h) = went_on (sm c)" "detectedFaults (sm h) = detectedFaults (sm c)"
    "mdent h = mdent c" "inst h = inst c"
  by (simp_all add: h_def answered_def evaluated_def measuring_def time_ring_def in_step_def ring_slots_def measured_ratio_def[abs_def] went_on_def[abs_def]
    oldest_def old_slot_def new_slot_def)

lemma interval_action_measures:
  assumes "\<not> asymmetryMeasurementMode (port c)"
  shows "preq_interval_action (answered t1 p t4 f c) = do {
     d \<leftarrow> preq_measure (evaluated (answered t1 p t4 f c));
     q \<leftarrow> cfree (txPdelayReqPtr (sm d));
     p \<leftarrow> cfree (rcvdPdelayRespPtr (sm d));
     f \<leftarrow> cfree (rcvdPdelayRespFollowUpPtr (sm d));
     Some (d\<lparr>sm := (sm d)\<lparr>txPdelayReqPtr := q, rcvdPdelayRespPtr := p, rcvdPdelayRespFollowUpPtr := f\<rparr>\<rparr>) }"
  using assms by (simp add: preq_interval_action_def answered_def evaluated_def)

text \<open>
  C14. The delay of the link is measured, by the first measurement of a port and by every later one. When the port has
  sent its request and then takes the time stamp of the request and both answers within the interval, the delay is
  half of what the time stamps leave of the round trip after it has been multiplied by the ratio of the clocks, to 16
  binary places; the ratio is that of the times since the oldest measurement in the queue of 64, and 1 for the first
  measurement and for a ratio that is off by more than a thousandth. A round trip that comes out negative ends the
  process. On a symmetric link with a delay \<open>D\<close>, with clocks that run at one rate with any offset, and have done so in
  the measurements of the queue, the result is exactly \<open>D\<close>, and the queue stays so. The port is then ready for the next
  measurement. Assumed is that no time stamp lies before an earlier one by the same clock, that the round trip times the
  ratio is below \<open>2 ^ 64\<close>, which is 4.29 s at equal rates, and that the quotient of the times is below \<open>2 ^ 21\<close>.
\<close>

theorem link_delay_measured:
  fixes c p f s1 s4
  defines "t1 \<equiv> usval (ts_ts s1)" and "t2 \<equiv> usval (uscaledns_ptpmsgtimestamp (requestReceiptTimestamp p))"
    and "t3 \<equiv> usval (uscaledns_ptpmsgtimestamp (responseOriginTimestamp f))" and "t4 \<equiv> usval (ts_ts s4)"
  defines "scaled \<equiv> (t4 - t1) * ratio_steps (measured_ratio (sm c) t3 t4)"
  assumes c: "preq_sent q c" "measuring c" and a: "answers q s1 p f [ts1, ts2, ts3] c"
    and order: "t1 \<le> t4" "t2 \<le> t3" "went_on (sm c) t3 t4" "scaled < 2 ^ 64"
  shows "\<exists>d e. md_pdelay_req_sm_txts rnd ts1 s1 c = Some d \<and> md_pdelay_req_sm_recv_resp rnd ts2 s4 p d = Some e \<and>
    (if scaled div 2 ^ 16 < t3 - t2 then md_pdelay_req_sm_recv_resp_follow_up rnd ts3 f e = None
     else \<exists>g. md_pdelay_req_sm_recv_resp_follow_up rnd ts3 f e = Some g \<and>
       usval (meanLinkDelay (port g)) = (scaled div 2 ^ 16 - (t3 - t2)) div 2 \<and> neighborRateRatio (port g) = measured_ratio (sm c) t3 t4 \<and>
       (isMeasuringDelay (mdent g) \<longleftrightarrow> clockIdentity (sourcePortIdentity (presp_head p)) \<noteq> thisClock (inst c) \<or>
         detectedFaults (sm c) \<le> ucast (allowedFaults (mdent c))) \<and>
       preq_state (sm g) = PD_REQ_WAITING_FOR_PDELAY_INTERVAL_TIMER \<and> eth g = eth c \<and> measuring g) \<and>
    (\<forall>offset D. int t2 = int t1 + offset + int D \<and> int t4 = int t3 - offset + int D \<and> in_step (offset - int D) (sm c) \<longrightarrow>
      (\<exists>g. md_pdelay_req_sm_recv_resp_follow_up rnd ts3 f e = Some g \<and> usval (meanLinkDelay (port g)) = D \<and> in_step (offset - int D) (sm g)))"
proof -
  let ?a = "evaluated (answered (ts_ts s1) p (ts_ts s4) f c)"
  obtain d e where de: "md_pdelay_req_sm_txts rnd ts1 s1 c = Some d" "md_pdelay_req_sm_recv_resp rnd ts2 s4 p d = Some e"
    "md_pdelay_req_sm_recv_resp_follow_up rnd ts3 f e = do {
       g \<leftarrow> preq_interval_action (answered (ts_ts s1) p (ts_ts s4) f c);
       (if preq_elapsed ts3 g then sm_loop (preq_body rnd ts3) (preq_goto PD_REQ_SEND_PDELAY_REQ g) else Some g)
     }"
    by (rule three_events[OF c(1) a])
  have m: "\<not> asymmetryMeasurementMode (port c)" using c(2) by (simp add: measuring_def)
  have run: "if scaled div 2 ^ 16 < t3 - t2 then preq_measure ?a = None
    else \<exists>h. preq_measure ?a = Some h \<and> usval (meanLinkDelay (port h)) = (scaled div 2 ^ 16 - (t3 - t2)) div 2 \<and> measured ?a p h"
    using measure_runs[of ?a p, unfolded evaluated_fields, OF c(2) refl order[unfolded scaled_def t1_def t2_def t3_def t4_def]]
    unfolding scaled_def t1_def t2_def t3_def t4_def .
  let ?free = "\<lambda>h. h\<lparr>sm := (sm h)\<lparr>txPdelayReqPtr := Dangling, rcvdPdelayRespPtr := Dangling, rcvdPdelayRespFollowUpPtr := Dangling\<rparr>\<rparr>"
  have none: "md_pdelay_req_sm_recv_resp_follow_up rnd ts3 f e = None" if "scaled div 2 ^ 16 < t3 - t2"
    unfolding de(3) interval_action_measures[OF m] using run that by simp
  have some: "\<exists>g. md_pdelay_req_sm_recv_resp_follow_up rnd ts3 f e = Some g \<and>
       usval (meanLinkDelay (port g)) = (scaled div 2 ^ 16 - (t3 - t2)) div 2 \<and> neighborRateRatio (port g) = measured_ratio (sm c) t3 t4 \<and>
       (isMeasuringDelay (mdent g) \<longleftrightarrow> clockIdentity (sourcePortIdentity (presp_head p)) \<noteq> thisClock (inst c) \<or>
         detectedFaults (sm c) \<le> ucast (allowedFaults (mdent c))) \<and>
       preq_state (sm g) = PD_REQ_WAITING_FOR_PDELAY_INTERVAL_TIMER \<and> eth g = eth c \<and> measuring g \<and>
       (\<forall>x. in_step x (sm c) \<and> int t3 = int t4 + x \<longrightarrow> in_step x (sm g))" if ge: "\<not> scaled div 2 ^ 16 < t3 - t2"
  proof -
    obtain h where h: "preq_measure ?a = Some h" "usval (meanLinkDelay (port h)) = (scaled div 2 ^ 16 - (t3 - t2)) div 2" "measured ?a p h"
      using run[unfolded if_not_P[OF ge]] by blast
    note mh = h(3)[unfolded measured_def evaluated_fields, folded t3_def t4_def]
    have "txPdelayReqPtr (sm h) = Live q" using mh c(1) by (simp add: preq_sent_def)
    moreover have "\<not> preq_elapsed ts3 (?free h)" using a mh by (simp add: answers_def preq_elapsed_def)
    ultimately have "md_pdelay_req_sm_recv_resp_follow_up rnd ts3 f e = Some (?free h)"
      unfolding de(3) interval_action_measures[OF m] using h(1) mh by simp
    moreover have "measuring (?free h)" "in_step x (sm (?free h)) = in_step x (sm h)" for x
      using mh by (simp_all add: measuring_def time_ring_def in_step_def ring_slots_def)
    ultimately show ?thesis using h(2) mh by (intro exI[of _ "?free h"]) simp
  qed
  have exact: "\<exists>g. md_pdelay_req_sm_recv_resp_follow_up rnd ts3 f e = Some g \<and> usval (meanLinkDelay (port g)) = D \<and> in_step (offset - int D) (sm g)"
    if times: "int t2 = int t1 + offset + int D" "int t4 = int t3 - offset + int D" "in_step (offset - int D) (sm c)" for offset D
  proof -
    have s: "int t3 = int t4 + (offset - int D)" using times(2) by simp
    have "time_ring (sm c)" using c(2) by (simp add: measuring_def)
    then have "measured_ratio (sm c) t3 t4 = 1" by (rule ratio_in_step[OF _ times(3) s order(3)])
    then have sc: "scaled div 2 ^ 16 = t4 - t1" by (simp add: scaled_def ratio_steps_one)
    have D: "t4 - t1 = t3 - t2 + 2 * D" using times(1,2) order(1,2) by linarith
    then obtain g where "md_pdelay_req_sm_recv_resp_follow_up rnd ts3 f e = Some g" "usval (meanLinkDelay (port g)) = (t4 - t1 - (t3 - t2)) div 2"
      "in_step (offset - int D) (sm g)"
      using some times(3) s unfolding sc by auto
    then show ?thesis using D by simp
  qed
  show ?thesis
    by (intro exI[of _ d] exI[of _ e] conjI de(1,2)) (use none some in \<open>auto\<close>, use exact in blast)
qed

section \<open>An example\<close>

text \<open>The first request of a port, with the number 5.\<close>

definition requesting_port :: ReqCtx where
  "requesting_port = \<lparr>sm = \<lparr>pdelayIntervalTimer = zero_ns, rcvdPdelayResp = False, rcvdPdelayRespPtr = Null, rcvdPdelayRespFollowUp = False,
       rcvdPdelayRespFollowUpPtr = Null, txPdelayReqPtr = Live (example_pdelay_req 5), rcvdMDTimestampReceiveMDPReq = False, pdelayReqSequenceId = 5,
       lostResponses = 0, neighborRateRatioValid = False, detectedFaults = 0, portEnabled0 = True, req_t1 = zero_ns, req_t2 = zero_ns, req_t3 = zero_ns,
       req_t4 = zero_ns, lPdelayRespEventIngressTimestamp = replicate 64 zero_ns, lCorrectedResponderEventTimestamp = replicate 64 zero_ns,
       listHeadPropTime = 0, listTailPropTime = 63, isEmptyPropTime = True, preq_state = PD_REQ_INITIAL_SEND_PDELAY_REQ,
       preq_last_state = PD_REQ_INITIAL_SEND_PDELAY_REQ\<rparr>,
     port = example_port 246 1 0, inst = example_instance 246 1, eth = tx_idle, mdent = init_mdentity blank_mdent\<rparr>"

definition delay_answer :: "32 word \<Rightarrow> PTPMsgPdelayResp" where
  "delay_answer n = \<lparr>presp_head = ptp_msg_header_template PDELAY_RESP 54 \<lparr>clockIdentity = 7, portNumber = 3\<rparr> 5 0 0,
     requestReceiptTimestamp = \<lparr>seconds_msb = 0, seconds_lsb = 40, nanoseconds = n\<rparr>,
     presp_requestingPortIdentity = \<lparr>clockIdentity = 1, portNumber = 1\<rparr>\<rparr>"

definition delay_follow_up :: "32 word \<Rightarrow> PTPMsgPdelayRespFollowUp" where
  "delay_follow_up n = \<lparr>pfu_head = ptp_msg_header_template PDELAY_RESP_FOLLOW_UP 54 \<lparr>clockIdentity = 7, portNumber = 3\<rparr> 5 0 0,
     responseOriginTimestamp = \<lparr>seconds_msb = 0, seconds_lsb = 40, nanoseconds = n\<rparr>,
     pfu_requestingPortIdentity = \<lparr>clockIdentity = 1, portNumber = 1\<rparr>\<rparr>"

definition early :: UScaledNs where
  "early = \<lparr>subns = 0, nsec = 5000, nsec_msb = 0\<rparr>"

lemma requesting_port_sent: "preq_sent (example_pdelay_req 5) requesting_port" "preq_fresh requesting_port" "measuring requesting_port"
    "in_step x (sm requesting_port)" "oldest (sm requesting_port) = None"
  by (simp_all add: preq_sent_def preq_fresh_def preq_on_def requesting_port_def example_instance_facts example_pdelay_req_def ptp_msg_header_template_def
      measuring_def time_ring_def in_step_def ring_slots_def oldest_def)
    (simp_all add: example_defs Let_def)

lemma requesting_port_answers:
  "answers (example_pdelay_req 5) (example_stamp n 5) (delay_answer a) (delay_follow_up b) [early, early, early] requesting_port"
  by (simp add: answers_def example_stamp_def example_pdelay_req_def delay_answer_def delay_follow_up_def ptp_msg_header_template_def for_port_def
      preq_elapsed_def requesting_port_def init_mdentity_def early_def uscaledns_subtract_def uscaledns_compare_def)
    (simp add: example_defs Let_def)

text \<open>The request leaves at 1000, arrives at 40 s and 1300 by a clock 40 s ahead, the answer leaves at 40 s and 1900 and arrives at 2200.\<close>

theorem link_delay_measured_witness:
  "\<exists>d e g. md_pdelay_req_sm_txts 0 early (example_stamp 1000 5) requesting_port = Some d \<and>
    md_pdelay_req_sm_recv_resp 0 early (example_stamp 2200 5) (delay_answer 1300) d = Some e \<and>
    md_pdelay_req_sm_recv_resp_follow_up 0 early (delay_follow_up 1900) e = Some g \<and> usval (meanLinkDelay (port g)) = 300 * 65536"
proof -
  have u: "usval (ts_ts (example_stamp 1000 5)) = 1000 * 65536" "usval (ts_ts (example_stamp 2200 5)) = 2200 * 65536"
    "usval (uscaledns_ptpmsgtimestamp (requestReceiptTimestamp (delay_answer 1300))) = 40000001300 * 65536"
    "usval (uscaledns_ptpmsgtimestamp (responseOriginTimestamp (delay_follow_up 1900))) = 40000001900 * 65536"
    by (simp_all add: delay_answer_def delay_follow_up_def example_stamp_def usval_def uscaledns_ptpmsgtimestamp_def)
  have r: "measured_ratio (sm requesting_port) t3 t4 = 1" "went_on (sm requesting_port) t3 t4" for t3 t4
    by (simp_all add: measured_ratio_def went_on_def requesting_port_sent)
  from link_delay_measured[where ?s1.0 = "example_stamp 1000 5" and ?s4.0 = "example_stamp 2200 5" and p = "delay_answer 1300" and f = "delay_follow_up 1900"
      and rnd = 0, OF requesting_port_sent(1,3) requesting_port_answers, unfolded u r ratio_steps_one]
  obtain d e where "md_pdelay_req_sm_txts 0 early (example_stamp 1000 5) requesting_port = Some d"
    "md_pdelay_req_sm_recv_resp 0 early (example_stamp 2200 5) (delay_answer 1300) d = Some e"
    "\<forall>offset D. int (40000001300 * 65536) = int (1000 * 65536) + offset + int D \<and> int (2200 * 65536) = int (40000001900 * 65536) - offset + int D \<and>
      in_step (offset - int D) (sm requesting_port) \<longrightarrow>
      (\<exists>g. md_pdelay_req_sm_recv_resp_follow_up 0 early (delay_follow_up 1900) e = Some g \<and> usval (meanLinkDelay (port g)) = D \<and>
        in_step (offset - int D) (sm g))"
    by (auto simp: r)
  moreover from this(3)[rule_format, of "40000000000 * 65536" "300 * 65536"] requesting_port_sent(4)
  obtain g where "md_pdelay_req_sm_recv_resp_follow_up 0 early (delay_follow_up 1900) e = Some g" "usval (meanLinkDelay (port g)) = 300 * 65536"
    by auto
  ultimately show ?thesis by blast
qed

end
