(* ===== verification/PortAnnounceInfoExt.thy ===== *)
theory PortAnnounceInfoExt
  imports PortAnnounceInfo TxMachine
begin

text \<open>
  The PortAnnounceInformationExt state machine (\<open>time_sync/port_announce_information_ext_sm.c\<close>): what a
  port makes of Announce messages when the roles of the ports are configured and not elected.
\<close>

section \<open>State\<close>

datatype PortAnnounceInformationExtSMState = PAIE_REACTION | PAIE_BEFORE_INIT | PAIE_INIT | PAIE_INITIALIZE | PAIE_RECEIVE

record PortAnnounceInformationExtSM =
  rcvdAnnouncePAIE :: bool
  messagePriorityPAIE :: PriorityVector
  paie_rcvdAnnouncePtr :: "PTPMsgAnnounce cptr"
  paie_state :: PortAnnounceInformationExtSMState
  paie_last_state :: PortAnnounceInformationExtSMState

type_synonym PaieCtx = "PortAnnounceInformationExtSM Ctx"

section \<open>What an Announce message says\<close>

text \<open>The priority vector of the grandmaster; its member \<open>sourcePortNumber\<close> is not assigned.\<close>

definition ext_priority :: "PTPMsgAnnounce \<Rightarrow> PriorityVector \<Rightarrow> PriorityVector" where
  "ext_priority a v = v\<lparr>
     rootSystemIdentity := \<lparr>priority1 = grandmasterPriority1 a, clockClass = gmClockClass a,
       clockAccuracy = gmClockAccuracy a, offsetScaledLogVariance = gmOffsetScaledLogVariance a,
       priority2 = grandmasterPriority2 a, rootClockIdentity = grandmasterIdentity a\<rparr>,
     stepsRemoved := ann_stepsRemoved a + 1,
     sourcePortClockIdentity := clockIdentity (sourcePortIdentity (ann_head a)),
     pv_portNumber := portNumber (sourcePortIdentity (ann_head a))\<rparr>"

text \<open>The path is copied identity by identity, and that of the node appended, into an array of eight.\<close>

definition copy_path_step :: "ClockIdentity list \<Rightarrow> nat \<Rightarrow> ClockIdentity list \<Rightarrow> ClockIdentity list option" where
  "copy_path_step src i dst = do {
     x \<leftarrow> rd src i;
     wr dst i x
   }"

definition rcvInfoExt :: "PaieCtx \<Rightarrow> PaieCtx option" where
  "rcvInfoExt c = do {
     st \<leftarrow> rd (selectedState (inst c)) (pidx c);
     if st = SLAVE_PORT then do {
       a \<leftarrow> deref (paie_rcvdAnnouncePtr (sm c));
       let n = lengthField (pathTraceTLV a) div 8;
       let c = c\<lparr>inst := (inst c)\<lparr>gmStepsRemoved := ann_stepsRemoved a + 1, gmPriority := ext_priority a (gmPriority (inst c)), nPathTrace := n\<rparr>\<rparr>;
       path \<leftarrow> for_each (copy_path_step (pathSequence (pathTraceTLV a))) [0..<unat n] (pathTrace (inst c));
       path \<leftarrow> wr path (unat n) (thisClock (inst c));
       Some (c\<lparr>inst := (inst c)\<lparr>pathTrace := path, nPathTrace := n + 1\<rparr>\<rparr>) }
     else Some c
   }"

definition recordOtherAnnounceInfoExt :: "PaieCtx \<Rightarrow> PaieCtx option" where
  "recordOtherAnnounceInfoExt c = do {
     st \<leftarrow> rd (selectedState (inst c)) (pidx c);
     if st = SLAVE_PORT then do {
       a \<leftarrow> deref (paie_rcvdAnnouncePtr (sm c));
       let f = flags1 (ann_head a);
       Some (c\<lparr>inst := (inst c)\<lparr>leap61 := (f AND 0x1 = 0x1), leap59 := (f AND 0x2 = 0x2), currentUtcOffsetValid := (f AND 0x4 = 0x4),
         ptpTimescale := (f AND 0x8 = 0x8), timeTraceable := (f AND 0x10 = 0x10), frequencyTraceable := (f AND 0x20 = 0x20),
         currentUtcOffset := ann_currentUtcOffset a, timeSource := ann_timeSource a\<rparr>\<rparr>) }
     else Some c
   }"

section \<open>Actions and transitions\<close>

definition paie_all_state_transition :: "PaieCtx \<Rightarrow> PortAnnounceInformationExtSMState" where
  "paie_all_state_transition c =
     (let tricon = \<not> port_valid (port c) in
      if (tricon \<or> BEGIN (inst c) \<or> \<not> instanceEnable (inst c)) \<and> externalPortConfigurationEnabled (inst c) then PAIE_INITIALIZE
      else paie_state (sm c))"

definition paie_initialize_action :: "PaieCtx \<Rightarrow> PaieCtx" where
  "paie_initialize_action c = c\<lparr>sm := (sm c)\<lparr>rcvdAnnouncePAIE := False\<rparr>\<rparr>"

definition paie_initialize_transition :: "PaieCtx \<Rightarrow> PortAnnounceInformationExtSMState" where
  "paie_initialize_transition c = (if port_valid (port c) \<and> rcvdAnnouncePAIE (sm c) then PAIE_RECEIVE else PAIE_INITIALIZE)"

definition paie_receive_action :: "PaieCtx \<Rightarrow> PaieCtx option" where
  "paie_receive_action c = do {
     st \<leftarrow> rd (selectedState (inst c)) (pidx c);
     c \<leftarrow> (if st = SLAVE_PORT then do { c \<leftarrow> rcvInfoExt c; recordOtherAnnounceInfoExt c } else Some c);
     Some (c\<lparr>sm := (sm c)\<lparr>rcvdAnnouncePAIE := False\<rparr>\<rparr>)
   }"

text \<open>Whether the state is left and entered again.\<close>

definition paie_receive_again :: "PaieCtx \<Rightarrow> bool" where
  "paie_receive_again c \<longleftrightarrow> port_valid (port c) \<and> rcvdAnnouncePAIE (sm c)"

section \<open>The machine\<close>

definition paie_goto :: "PortAnnounceInformationExtSMState \<Rightarrow> PaieCtx \<Rightarrow> PaieCtx" where
  "paie_goto st c = c\<lparr>sm := (sm c)\<lparr>paie_state := st\<rparr>\<rparr>"

definition paie_body :: "PaieCtx \<Rightarrow> (PaieCtx \<times> bool) option" where
  "paie_body c0 = do {
     let state_change = paie_last_state (sm c0) \<noteq> paie_state (sm c0);
     let c = c0\<lparr>sm := (sm c0)\<lparr>paie_last_state := paie_state (sm c0)\<rparr>\<rparr>;
     c \<leftarrow> (case paie_state (sm c) of
         PAIE_INIT \<Rightarrow> Some (paie_goto PAIE_INITIALIZE c)
       | PAIE_INITIALIZE \<Rightarrow> do {
           let c = (if state_change then paie_initialize_action c else c);
           Some (paie_goto (paie_initialize_transition c) c) }
       | PAIE_RECEIVE \<Rightarrow> do {
           c \<leftarrow> (if state_change then paie_receive_action c else Some c);
           let c = (if paie_receive_again c then c\<lparr>sm := (sm c)\<lparr>paie_last_state := PAIE_REACTION\<rparr>\<rparr> else c);
           Some (paie_goto PAIE_RECEIVE c) }
       | PAIE_REACTION \<Rightarrow> Some c
       | PAIE_BEFORE_INIT \<Rightarrow> Some c);
     Some (c, paie_last_state (sm c) \<noteq> paie_state (sm c))
   }"

definition port_announce_information_ext_sm_run :: "PaieCtx \<Rightarrow> PaieCtx option" where
  "port_announce_information_ext_sm_run c = sm_loop paie_body (paie_goto (paie_all_state_transition c) c)"

definition init_port_announce_information_ext_sm :: "PaieCtx \<Rightarrow> PaieCtx option" where
  "init_port_announce_information_ext_sm c =
     port_announce_information_ext_sm_run (c\<lparr>sm := (sm c)\<lparr>rcvdAnnouncePAIE := False, paie_rcvdAnnouncePtr := Null, paie_state := PAIE_INIT,
       paie_last_state := PAIE_BEFORE_INIT\<rparr>\<rparr>)"

definition port_announce_information_ext_sm_recv_announce :: "PTPMsgAnnounce \<Rightarrow> PaieCtx \<Rightarrow> PaieCtx option" where
  "port_announce_information_ext_sm_recv_announce a c = do {
     _ \<leftarrow> cfree (paie_rcvdAnnouncePtr (sm c));
     port_announce_information_ext_sm_run (c\<lparr>sm := (sm c)\<lparr>rcvdAnnouncePAIE := True, paie_rcvdAnnouncePtr := Live a\<rparr>\<rparr>)
   }"

end
