(* ===== verification/PortAnnounceInfoExt_Props.thy ===== *)
theory PortAnnounceInfoExt_Props
  imports PortAnnounceInfoExt BestMaster_Props SyncReceive_Props
begin

text \<open>
  The PortAnnounceInformationExt machine of the slave port makes the grandmaster of an Announce message that of
  the node. A message with a full path is fatal.
\<close>

section \<open>The path\<close>

lemma copy_path:
  assumes "n \<le> length src" "n \<le> length dst"
  shows "for_each (copy_path_step src) [0..<n] dst = Some (take n src @ drop n dst)"
  using assms
proof (induction n)
  case (Suc n)
  have "(take n src @ drop n dst)[n := src ! n] = take (Suc n) src @ drop (Suc n) dst"
    using Suc.prems by (simp add: take_Suc_conv_app_nth list_update_append Cons_nth_drop_Suc[symmetric])
  then show ?case using Suc by (simp add: for_each_append copy_path_step_def rd_in wr_in)
qed simp

lemma copy_path_overflow:
  assumes "length dst = 8" "8 \<le> n"
  shows "Option.bind (for_each (copy_path_step src) [0..<n] dst) (\<lambda>p. wr p n x) = None"
proof -
  have "length p = length dst" if "for_each (copy_path_step src) is dst = Some p" for "is" p
    using that by (induction "is" arbitrary: dst) (auto simp: copy_path_step_def bind_eq_Some_conv wr_def split: if_splits)
  then show ?thesis using assms by (cases "for_each (copy_path_step src) [0..<n] dst") (auto simp: wr_def)
qed

section \<open>One message\<close>

lemma and_bit: "(w :: byte) AND 2 ^ n = (if bit w n then 2 ^ n else 0)"
  by (rule bit_eqI) (auto simp: bit_simps)

definition paie_ready :: "PaieCtx \<Rightarrow> bool" where
  "paie_ready c \<longleftrightarrow> \<not> BEGIN (inst c) \<and> instanceEnable (inst c) \<and> port_valid (port c) \<and> paie_last_state (sm c) = paie_state (sm c) \<and>
     paie_state (sm c) \<in> {PAIE_INITIALIZE, PAIE_RECEIVE} \<and> paie_rcvdAnnouncePtr (sm c) \<noteq> Dangling \<and>
     pidx c < length (selectedState (inst c)) \<and> length (pathTrace (inst c)) = 8"

lemma ext_info_keeps:
  "rcvInfoExt c = Some d \<Longrightarrow> sm d = sm c" "recordOtherAnnounceInfoExt c = Some d \<Longrightarrow> sm d = sm c"
  by (auto simp: rcvInfoExt_def recordOtherAnnounceInfoExt_def bind_eq_Some_conv Let_def split: if_splits)

lemma paie_receive_keeps:
  assumes "paie_receive_action c = Some d"
  shows "paie_state (sm d) = paie_state (sm c)" "paie_last_state (sm d) = paie_last_state (sm c)" "\<not> rcvdAnnouncePAIE (sm d)"
  using assms by (auto simp: paie_receive_action_def bind_eq_Some_conv dest!: ext_info_keeps split: if_splits)

lemma paie_message:
  assumes c: "paie_ready c"
  shows "port_announce_information_ext_sm_recv_announce a c = do {
     d \<leftarrow> paie_receive_action (c\<lparr>sm := (sm c)\<lparr>rcvdAnnouncePAIE := True, paie_rcvdAnnouncePtr := Live a, paie_state := PAIE_RECEIVE,
       paie_last_state := PAIE_RECEIVE\<rparr>\<rparr>);
     Some d
   }"
proof -
  define c0 where "c0 = c\<lparr>sm := (sm c)\<lparr>rcvdAnnouncePAIE := True, paie_rcvdAnnouncePtr := Live a\<rparr>\<rparr>"
  define c1 where "c1 = c0\<lparr>sm := (sm c0)\<lparr>paie_state := PAIE_RECEIVE, paie_last_state := (if paie_state (sm c) = PAIE_INITIALIZE then PAIE_INITIALIZE else PAIE_REACTION)\<rparr>\<rparr>"
  define c2 where "c2 = c1\<lparr>sm := (sm c1)\<lparr>paie_last_state := PAIE_RECEIVE\<rparr>\<rparr>"
  have "port_announce_information_ext_sm_recv_announce a c = sm_loop paie_body c0"
    using c cfree_ok[of "paie_rcvdAnnouncePtr (sm c)"]
    by (auto simp: port_announce_information_ext_sm_recv_announce_def port_announce_information_ext_sm_run_def paie_goto_def paie_all_state_transition_def
      c0_def paie_ready_def)
  also have "paie_body c0 = Some (c1, True)"
    using c by (auto simp: paie_body_def Let_def paie_goto_def paie_initialize_transition_def paie_receive_again_def c0_def c1_def paie_ready_def)
  then have "sm_loop paie_body c0 = sm_loop paie_body c1" by (rule sm_loop_turn)
  also have "paie_body c1 = Option.bind (paie_receive_action c2) (\<lambda>d. Some (d, False))"
  proof (cases "paie_receive_action c2")
    case None
    have "paie_state (sm c1) = PAIE_RECEIVE" "paie_last_state (sm c1) \<noteq> PAIE_RECEIVE" by (simp_all add: c1_def)
    then show ?thesis using None by (simp add: paie_body_def c2_def)
  next
    case (Some d)
    have "paie_state (sm d) = PAIE_RECEIVE \<and> paie_last_state (sm d) = PAIE_RECEIVE \<and> \<not> rcvdAnnouncePAIE (sm d)"
      using paie_receive_keeps[OF Some] by (simp add: c2_def c1_def)
    then have "\<not> paie_receive_again d" "paie_goto PAIE_RECEIVE d = d" "paie_state (sm d) = PAIE_RECEIVE" "paie_last_state (sm d) = PAIE_RECEIVE"
      by (simp_all add: paie_receive_again_def paie_goto_def)
    moreover have "paie_state (sm c1) = PAIE_RECEIVE" "paie_last_state (sm c1) \<noteq> PAIE_RECEIVE" by (simp_all add: c1_def)
    ultimately show ?thesis using Some by (simp add: paie_body_def c2_def)
  qed
  then have "sm_loop paie_body c1 = Option.bind (paie_receive_action c2) Some"
    by (subst sm_loop.simps) (cases "paie_receive_action c2"; simp)
  finally show ?thesis by (simp add: c2_def c1_def c0_def)
qed

text \<open>
  With configured roles the node follows the Announce messages of its slave port: the grandmaster, the steps
  removed, the flags and the time source of the message become those of the node, one step further away, and its
  path with the node itself at the end becomes the path of the node.
\<close>

theorem ext_announce_adopted:
  assumes c: "paie_ready c" "selectedState (inst c) ! pidx c = SLAVE_PORT"
    and n: "n = unat (lengthField (pathTraceTLV a)) div 8" "n < 8" "length (pathSequence (pathTraceTLV a)) = 8"
  shows "\<exists>d. port_announce_information_ext_sm_recv_announce a c = Some d \<and> paie_ready d \<and> port d = port c \<and>
    rootClockIdentity (rootSystemIdentity (gmPriority (inst d))) = grandmasterIdentity a \<and>
    gmStepsRemoved (inst d) = ann_stepsRemoved a + 1 \<and> stepsRemoved (gmPriority (inst d)) = ann_stepsRemoved a + 1 \<and>
    sourcePortClockIdentity (gmPriority (inst d)) = clockIdentity (sourcePortIdentity (ann_head a)) \<and>
    unat (nPathTrace (inst d)) = n + 1 \<and> take (n + 1) (pathTrace (inst d)) = take n (pathSequence (pathTraceTLV a)) @ [thisClock (inst c)] \<and>
    timeTraceable (inst d) = bit (flags1 (ann_head a)) 4 \<and> leap61 (inst d) = bit (flags1 (ann_head a)) 0 \<and>
    currentUtcOffset (inst d) = ann_currentUtcOffset a \<and> timeSource (inst d) = ann_timeSource a"
proof -
  let ?c = "c\<lparr>sm := (sm c)\<lparr>rcvdAnnouncePAIE := True, paie_rcvdAnnouncePtr := Live a, paie_state := PAIE_RECEIVE, paie_last_state := PAIE_RECEIVE\<rparr>\<rparr>"
  let ?n = "lengthField (pathTraceTLV a) div 8" and ?path = "pathSequence (pathTraceTLV a)" and ?f = "flags1 (ann_head a)"
  have un: "unat ?n = n" "unat (?n + 1) = n + 1" using n(1,2) by (simp_all add: unat_div unat_plus_if')
  let ?i = "(inst c)\<lparr>gmStepsRemoved := ann_stepsRemoved a + 1, gmPriority := ext_priority a (gmPriority (inst c)), nPathTrace := ?n\<rparr>"
  define t where "t = take n ?path @ thisClock (inst c) # drop (Suc n) (pathTrace (inst c))"
  have "for_each (copy_path_step ?path) [0..<n] (pathTrace (inst c)) = Some (take n ?path @ drop n (pathTrace (inst c)))"
    by (rule copy_path) (use c n in \<open>simp_all add: paie_ready_def\<close>)
  moreover have "wr (take n ?path @ drop n (pathTrace (inst c))) n (thisClock (inst c)) = Some t"
    using c n by (simp add: paie_ready_def wr_in list_update_append t_def Cons_nth_drop_Suc[symmetric])
  ultimately have "rcvInfoExt ?c = Some (?c\<lparr>inst := ?i\<lparr>pathTrace := t, nPathTrace := ?n + 1\<rparr>\<rparr>)"
    using c by (simp add: rcvInfoExt_def rd_in paie_ready_def Let_def un)
  moreover have "length t = 8" using c(1) n(2,3) by (simp add: t_def paie_ready_def)
  ultimately have "\<exists>d. paie_receive_action ?c = Some d \<and> paie_ready d \<and> port d = port c \<and>
    gmPriority (inst d) = ext_priority a (gmPriority (inst c)) \<and> gmStepsRemoved (inst d) = ann_stepsRemoved a + 1 \<and>
    nPathTrace (inst d) = ?n + 1 \<and> pathTrace (inst d) = t \<and> timeTraceable (inst d) = (?f AND 0x10 = 0x10) \<and> leap61 (inst d) = (?f AND 0x1 = 0x1) \<and>
    currentUtcOffset (inst d) = ann_currentUtcOffset a \<and> timeSource (inst d) = ann_timeSource a"
    using c by (simp add: paie_receive_action_def recordOtherAnnounceInfoExt_def rd_in paie_ready_def Let_def)
  moreover have "take (n + 1) t = take n ?path @ [thisClock (inst c)]" using n(2,3) by (simp add: t_def)
  moreover have "(?f AND 0x10 = 0x10) = bit ?f 4" "(?f AND 0x1 = 0x1) = bit ?f 0"
    using and_bit[of ?f 4] and_bit[of ?f 0] by simp_all
  ultimately show ?thesis unfolding paie_message[OF c(1)] using un by (auto simp: ext_priority_def)
qed

text \<open>
  A path of eight or more identities in an Announce message on the slave port is fatal: the daemon writes past
  the array of the path.
\<close>

theorem ext_full_path_overflows:
  assumes "paie_ready c" "selectedState (inst c) ! pidx c = SLAVE_PORT" "64 \<le> unat (lengthField (pathTraceTLV a))"
  shows "port_announce_information_ext_sm_recv_announce a c = None"
proof -
  have "8 \<le> unat (lengthField (pathTraceTLV a) div 8)" using assms(3) by (simp add: unat_div)
  note over = copy_path_overflow[OF _ this, of "pathTrace (inst c)" "pathSequence (pathTraceTLV a)" "thisClock (inst c)"]
  let ?p = "for_each (copy_path_step (pathSequence (pathTraceTLV a))) [0..<unat (lengthField (pathTraceTLV a) div 8)] (pathTrace (inst c))"
  have "rcvInfoExt (c\<lparr>sm := (sm c)\<lparr>rcvdAnnouncePAIE := True, paie_rcvdAnnouncePtr := Live a, paie_state := PAIE_RECEIVE,
       paie_last_state := PAIE_RECEIVE\<rparr>\<rparr>) = None"
    using assms(1,2) over by (cases ?p) (simp_all add: rcvInfoExt_def rd_in paie_ready_def Let_def)
  then show ?thesis
    unfolding paie_message[OF assms(1)] using assms(1,2) by (simp add: paie_receive_action_def rd_in paie_ready_def)
qed

section \<open>An example\<close>

text \<open>The second port of a node with configured roles is the slave port.\<close>

definition ext_port :: PaieCtx where
  "ext_port = \<lparr>sm = \<lparr>rcvdAnnouncePAIE = False, messagePriorityPAIE = blank_priority, paie_rcvdAnnouncePtr = Null, paie_state = PAIE_INITIALIZE,
       paie_last_state = PAIE_INITIALIZE\<rparr>,
     port = example_port 246 1 1, inst = ginst relay_node\<rparr>"

lemma ext_port_ready: "paie_ready ext_port" "selectedState (inst ext_port) ! pidx ext_port = SLAVE_PORT"
  by (simp_all add: paie_ready_def ext_port_def relay_node_def example_instance_facts example_port_facts)
    (simp add: example_defs Let_def)

text \<open>A path of one identity and one of eight.\<close>

definition full_path_announce :: PTPMsgAnnounce where
  "full_path_announce = example_announce\<lparr>pathTraceTLV := \<lparr>tlvType = 8, lengthField = 64, pathSequence = replicate 8 7\<rparr>\<rparr>"

theorem ext_announce_adopted_witness:
  "\<exists>d. port_announce_information_ext_sm_recv_announce example_announce ext_port = Some d \<and>
    rootClockIdentity (rootSystemIdentity (gmPriority (inst d))) = 0x000A35FFFECCF973 \<and> gmStepsRemoved (inst d) = 1 \<and>
    take 2 (pathTrace (inst d)) = [0x000A35FFFECCF973, 1]"
proof -
  have n: "1 = unat (lengthField (pathTraceTLV example_announce)) div 8" "(1::nat) < 8" "length (pathSequence (pathTraceTLV example_announce)) = 8"
    by (simp_all add: example_announce_def)
  have "thisClock (inst ext_port) = 1" by (simp add: ext_port_def relay_node_def example_defs)
  then show ?thesis
    using ext_announce_adopted[OF ext_port_ready n] by (auto simp: example_announce_def numeral_2_eq_2)
qed

theorem ext_full_path_overflows_witness:
  "port_announce_information_ext_sm_recv_announce full_path_announce ext_port = None"
  by (rule ext_full_path_overflows[OF ext_port_ready]) (simp add: full_path_announce_def)

end
