(* ===== verification/MainLoop.thy ===== *)
theory MainLoop
  imports ClockMaster MdPdelayReq MdPdelayResp PortAnnounceInfo PortAnnounceInfoExt PortAnnounceTransmit PortStateSelection TimeSyncInit
begin

text \<open>
  The main loop of the daemon (\<open>TimeSyncMainLoop\<close> in \<open>time_sync_main_loop.c\<close>): the machines of the node,
  their start in the order of the code, and one iteration of the loop.
\<close>

section \<open>The node\<close>

text \<open>Besides the clock machines: those of each port, what is received, and the time stamps of sent frames.\<close>

record Node = ClockMaster +
  preq_sms :: "MDPdelayReqSM list"
  presp_sms :: "MDPdelayRespSM list"
  pai_sms :: "PortAnnounceInformationSM list"
  paie_sms :: "PortAnnounceInformationExtSM list"
  pat_sms :: "PortAnnounceTransmitSM list"
  psel_sm :: PortStateSelectionSM
  node_rx :: EthRx
  node_tx_stamps :: "TSUTimestamp \<times> tsu_entry list list"
  node_port_number :: "16 word"

text \<open>
  What an iteration takes from outside: the clock read at its start and when a Sync message is sent, random
  numbers, and what memory that is not initialised holds.
\<close>

record LoopInput =
  in_now :: LocalClockTimestamp
  in_sync_now :: LocalClockTimestamp
  in_sync_rand :: "nat \<Rightarrow> 16 word"
  in_pdelay_rand :: "nat \<Rightarrow> 16 word"
  in_pss_junk :: PortSyncSync
  in_path_junk :: "ClockIdentity list"
  in_stamp_junk :: TSUTimestamp

section \<open>A machine of one port\<close>

text \<open>The pointers of a machine of port \<open>i\<close> lead to the variables of the node, of the port and to its transmitter.\<close>

definition node_md :: "(Node \<Rightarrow> 'm list) \<Rightarrow> ('m list \<Rightarrow> Node \<Rightarrow> Node) \<Rightarrow> ('m MdCtx \<Rightarrow> 'm MdCtx option) \<Rightarrow> nat \<Rightarrow> Node \<Rightarrow> Node option" where
  "node_md get put f i s = do {
     m \<leftarrow> rd (get s) i;
     p \<leftarrow> rd (gports s) i;
     d \<leftarrow> rd (mdents s) i;
     c \<leftarrow> f \<lparr>sm = m, port = p, inst = ginst s, eth = site_eth s, mdent = d\<rparr>;
     Some (put ((get s)[i := sm c]) (s\<lparr>gports := (gports s)[i := port c], ginst := inst c, site_eth := eth c, mdents := (mdents s)[i := mdent c]\<rparr>))
   }"

definition node_tx :: "(Node \<Rightarrow> 'm list) \<Rightarrow> ('m list \<Rightarrow> Node \<Rightarrow> Node) \<Rightarrow> ('m TxCtx \<Rightarrow> 'm TxCtx option) \<Rightarrow> nat \<Rightarrow> Node \<Rightarrow> Node option" where
  "node_tx get put f i s = do {
     m \<leftarrow> rd (get s) i;
     p \<leftarrow> rd (gports s) i;
     c \<leftarrow> f \<lparr>sm = m, port = p, inst = ginst s, eth = site_eth s\<rparr>;
     Some (put ((get s)[i := sm c]) (s\<lparr>gports := (gports s)[i := port c], ginst := inst c, site_eth := eth c\<rparr>))
   }"

definition node_ctx :: "(Node \<Rightarrow> 'm list) \<Rightarrow> ('m list \<Rightarrow> Node \<Rightarrow> Node) \<Rightarrow> ('m Ctx \<Rightarrow> 'm Ctx option) \<Rightarrow> nat \<Rightarrow> Node \<Rightarrow> Node option" where
  "node_ctx get put f i s = do {
     m \<leftarrow> rd (get s) i;
     p \<leftarrow> rd (gports s) i;
     c \<leftarrow> f \<lparr>sm = m, port = p, inst = ginst s\<rparr>;
     Some (put ((get s)[i := sm c]) (s\<lparr>gports := (gports s)[i := port c], ginst := inst c\<rparr>))
   }"

abbreviation on_preq :: "(MDPdelayReqSM MdCtx \<Rightarrow> MDPdelayReqSM MdCtx option) \<Rightarrow> nat \<Rightarrow> Node \<Rightarrow> Node option" where
  "on_preq \<equiv> node_md preq_sms (\<lambda>x. preq_sms_update (\<lambda>_. x))"
abbreviation on_presp :: "(MDPdelayRespSM MdCtx \<Rightarrow> MDPdelayRespSM MdCtx option) \<Rightarrow> nat \<Rightarrow> Node \<Rightarrow> Node option" where
  "on_presp \<equiv> node_md presp_sms (\<lambda>x. presp_sms_update (\<lambda>_. x))"
abbreviation on_mdss :: "(MDSyncSendSM MdCtx \<Rightarrow> MDSyncSendSM MdCtx option) \<Rightarrow> nat \<Rightarrow> Node \<Rightarrow> Node option" where
  "on_mdss \<equiv> node_md mdss_sms (\<lambda>x. mdss_sms_update (\<lambda>_. x))"
abbreviation on_pat :: "(PortAnnounceTransmitSM TxCtx \<Rightarrow> PortAnnounceTransmitSM TxCtx option) \<Rightarrow> nat \<Rightarrow> Node \<Rightarrow> Node option" where
  "on_pat \<equiv> node_tx pat_sms (\<lambda>x. pat_sms_update (\<lambda>_. x))"
abbreviation on_pai :: "(PortAnnounceInformationSM Ctx \<Rightarrow> PortAnnounceInformationSM Ctx option) \<Rightarrow> nat \<Rightarrow> Node \<Rightarrow> Node option" where
  "on_pai \<equiv> node_ctx pai_sms (\<lambda>x. pai_sms_update (\<lambda>_. x))"
abbreviation on_paie :: "(PortAnnounceInformationExtSM Ctx \<Rightarrow> PortAnnounceInformationExtSM Ctx option) \<Rightarrow> nat \<Rightarrow> Node \<Rightarrow> Node option" where
  "on_paie \<equiv> node_ctx paie_sms (\<lambda>x. paie_sms_update (\<lambda>_. x))"

text \<open>The machine that selects the roles; what it reports is not used.\<close>

definition on_psel :: "(SelCtx \<Rightarrow> SelCtx option) \<Rightarrow> Node \<Rightarrow> Node option" where
  "on_psel f s = do {
     c \<leftarrow> f \<lparr>sel = psel_sm s, sel_inst = ginst s, sel_ports = gports s\<rparr>;
     Some (s\<lparr>psel_sm := sel c, ginst := sel_inst c, gports := sel_ports c\<rparr>)
   }"

definition psel_run :: "SelCtx \<Rightarrow> SelCtx option" where
  "psel_run c = map_option fst (port_state_selection_sm_run c)"

section \<open>The start\<close>

text \<open>The machines are started in the order of the code; those that are not used stay as they are.\<close>

definition init_port_machines :: "LoopInput \<Rightarrow> (nat \<Rightarrow> 16 word) \<Rightarrow> nat \<Rightarrow> Node \<Rightarrow> Node option" where
  "init_port_machines x announce_rand i s = do {
     s \<leftarrow> init_port_sync_sync_receive_sm (in_sync_rand x) (in_pss_junk x) i s;
     s \<leftarrow> site_psss (init_port_sync_sync_send_sm (in_sync_rand x i)) i s;
     s \<leftarrow> on_preq (init_md_pdelay_req_sm (in_pdelay_rand x i)) i s;
     s \<leftarrow> on_presp init_md_pdelay_resp_sm i s;
     s \<leftarrow> on_mdss (init_md_sync_send_sm (in_sync_rand x i)) i s;
     s \<leftarrow> init_md_sync_receive_sm (in_sync_rand x) (in_pss_junk x) i s;
     s \<leftarrow> (if externalPortConfigurationEnabled (ginst s) then on_paie init_port_announce_information_ext_sm i s
       else on_pai init_port_announce_information_sm i s);
     on_pat (init_port_announce_transmit_sm (announce_rand i) (in_path_junk x)) i s
   }"

definition init_machines :: "LoopInput \<Rightarrow> (nat \<Rightarrow> 16 word) \<Rightarrow> Node \<Rightarrow> Node option" where
  "init_machines x announce_rand s = do {
     s \<leftarrow> init_clock_master_sync_receive_sm s;
     s \<leftarrow> init_clock_master_sync_send_sm (in_sync_rand x) (in_sync_now x) s;
     s \<leftarrow> init_site_sync_sync_sm (in_sync_rand x) s;
     s \<leftarrow> init_clock_slave_sync_sm s;
     s \<leftarrow> (if externalPortConfigurationEnabled (ginst s) then Some s else on_psel init_port_state_selection_sm s);
     for_each (init_port_machines x announce_rand) [0..<N_PORTS] s
   }"

text \<open>The globals from the configuration, then the machines.\<close>

definition start_node ::
  "LoopInput \<Rightarrow> (nat \<Rightarrow> 16 word) \<Rightarrow> SystemIdentity \<Rightarrow> PortState list option \<Rightarrow> bool \<Rightarrow> Node \<Rightarrow> Node option" where
  "start_node x announce_rand sid ports ext s = do {
     g \<leftarrow> init_instance sid ports ext (ginst s);
     init_machines x announce_rand (s\<lparr>ginst := g, gports := map (\<lambda>i. init_port g i (gports s ! i)) [0..<N_PORTS],
       mdents := map (\<lambda>i. init_mdentity (mdents s ! i)) [0..<N_PORTS]\<rparr>)
   }"

section \<open>One iteration\<close>

definition source_time_request :: "UScaledNs \<Rightarrow> ClockSourceTimeInvoke" where
  "source_time_request ts = \<lparr>cs_domainNumber = 0, sourceTime = ts, timeBaseIndicator = 0,
     cs_lastGmPhaseChange = \<lparr>subns = 0, nsec = 0, nsec_msb = 0\<rparr>, cs_lastGmFreqChange = 0\<rparr>"

definition port_timeouts :: "LoopInput \<Rightarrow> UScaledNs \<Rightarrow> nat \<Rightarrow> Node \<Rightarrow> Node option" where
  "port_timeouts x ts i s = do {
     s \<leftarrow> on_preq (md_pdelay_req_sm_run (in_pdelay_rand x i) ts) i s;
     s \<leftarrow> md_sync_receive_sm_run (in_sync_rand x) (in_pss_junk x) i ts s;
     s \<leftarrow> (if externalPortConfigurationEnabled (ginst s) then Some s else on_pai (port_announce_information_sm_run ts) i s);
     on_pat (port_announce_transmit_sm_run (in_path_junk x) ts) i s
   }"

text \<open>The index \<open>port_number - 1\<close>, computed as an \<open>int\<close>: outside the arrays for 0 and for more than four.\<close>

definition port_index :: "16 word \<Rightarrow> nat option" where
  "port_index p = (if p = 0 \<or> unat p > N_PORTS then None else Some (unat p - 1))"

text \<open>The machine a message is for.\<close>

definition dispatch :: "LoopInput \<Rightarrow> UScaledNs \<Rightarrow> RcvdMsg \<Rightarrow> 16 word \<Rightarrow> Node \<Rightarrow> Node option" where
  "dispatch x ts m p s =
     (case m of
       RcvdNothing \<Rightarrow> Some s
     | RcvdPdelayReq q t \<Rightarrow> do {
         i \<leftarrow> port_index p;
         on_presp (md_pdelay_resp_sm_recv_req t q) i s }
     | RcvdPdelayResp r t \<Rightarrow> do {
         i \<leftarrow> port_index p;
         on_preq (md_pdelay_req_sm_recv_resp (in_pdelay_rand x i) ts t r) i s }
     | RcvdPdelayRespFollowUp f \<Rightarrow> do {
         i \<leftarrow> port_index p;
         on_preq (md_pdelay_req_sm_recv_resp_follow_up (in_pdelay_rand x i) ts f) i s }
     | RcvdSync y t \<Rightarrow> do {
         i \<leftarrow> port_index p;
         md_sync_receive_sm_recv_sync (in_sync_rand x) (in_pss_junk x) i ts t y s }
     | RcvdFollowUp f \<Rightarrow> do {
         i \<leftarrow> port_index p;
         md_sync_receive_sm_recv_follow_up (in_sync_rand x) (in_pss_junk x) i ts f s }
     | RcvdAnnounce a \<Rightarrow> do {
         i \<leftarrow> port_index p;
         (if externalPortConfigurationEnabled (ginst s) then on_paie (port_announce_information_ext_sm_recv_announce a) i s
          else do {
            s \<leftarrow> on_pai (port_announce_information_sm_recv_announce ts a) i s;
            (if externalPortConfigurationEnabled (ginst s) then Some s else on_psel psel_run s) }) })"

text \<open>When anything has come in, the last request of port 1 is printed.\<close>

definition print_request :: "RcvdMsg \<Rightarrow> Node \<Rightarrow> Node option" where
  "print_request m s =
     (if m = RcvdNothing then Some s
      else do {
        r \<leftarrow> rd (presp_sms s) 0;
        (if rcvdPdelayReqPtr r = Null then Some s else map_option (\<lambda>_. s) (deref (rcvdPdelayReqPtr r))) })"

definition receive_frame :: "LoopInput \<Rightarrow> UScaledNs \<Rightarrow> Node \<Rightarrow> Node option" where
  "receive_frame x ts s = do {
     (m, p, e) \<leftarrow> recv_ptp_frame (in_stamp_junk x) (in_path_junk x) (node_port_number s) (node_rx s);
     let s = s\<lparr>node_rx := e, node_port_number := p\<rparr>;
     s \<leftarrow> print_request m s;
     dispatch x ts m p s
   }"

text \<open>The time stamp of a frame that has left port \<open>i + 1\<close>.\<close>

definition sent_stamp :: "LoopInput \<Rightarrow> UScaledNs \<Rightarrow> nat \<Rightarrow> Node \<Rightarrow> Node option" where
  "sent_stamp x ts i s = do {
     let (status, t, qs) = tsu_tx_get_timestamp (of_nat (i + 1)) (node_tx_stamps s);
     let s = s\<lparr>node_tx_stamps := (t, qs)\<rparr>;
     (if status = 0 then Some s
      else if ts_msgType t = msg_code PDELAY_REQ then on_preq (md_pdelay_req_sm_txts (in_pdelay_rand x i) ts t) i s
      else if ts_msgType t = msg_code PDELAY_RESP then on_presp (md_pdelay_resp_sm_txts t) i s
      else if ts_msgType t = msg_code SYNC then on_mdss (md_sync_send_sm_txts (in_sync_rand x i) t) i s
      else Some s)
   }"

definition iteration :: "LoopInput \<Rightarrow> Node \<Rightarrow> Node option" where
  "iteration x s = do {
     let ts = get_current_timestamp (in_now x);
     let s = s\<lparr>rtc := rtc_latch (rtc s)\<rparr>;
     s \<leftarrow> clock_master_sync_receive_sm_recv_source_time (source_time_request ts) s;
     s \<leftarrow> clock_master_sync_send_sm_run (in_sync_rand x) (in_sync_now x) ts s;
     s \<leftarrow> for_each (port_timeouts x ts) [0..<N_PORTS] s;
     s \<leftarrow> receive_frame x ts s;
     s \<leftarrow> (if externalPortConfigurationEnabled (ginst s) then Some s else on_psel psel_run s);
     for_each (sent_stamp x ts) [0..<N_PORTS] s
   }"

section \<open>The loop and the hardware\<close>

text \<open>
  The loop runs forever, one iteration after the other; in between the receiving thread stores a packet, and the
  hardware the time stamp of a frame that came in or left.
\<close>

inductive node_step :: "Node \<Rightarrow> Node \<Rightarrow> bool" where
  node_iteration: "iteration x s = Some t \<Longrightarrow> node_step s t"
| node_packet: "process_packet buf (rxQueue (node_rx s)) = Some q \<Longrightarrow> node_step s (s\<lparr>node_rx := (node_rx s)\<lparr>rxQueue := q\<rparr>\<rparr>)"
| node_rx_stamp: "i < N_PORTS \<Longrightarrow> length (tsuRx (node_rx s)) = N_PORTS \<Longrightarrow>
    node_step s (s\<lparr>node_rx := (node_rx s)\<lparr>tsuRx := (tsuRx (node_rx s))[i := tsuRx (node_rx s) ! i @ [e]]\<rparr>\<rparr>)"
| node_tx_stamp: "i < N_PORTS \<Longrightarrow> length (snd (node_tx_stamps s)) = N_PORTS \<Longrightarrow>
    node_step s (s\<lparr>node_tx_stamps := (fst (node_tx_stamps s), (snd (node_tx_stamps s))[i := snd (node_tx_stamps s) ! i @ [e]])\<rparr>)"

end
