(* ===== verification/MainLoop_Props.thy ===== *)
theory MainLoop_Props
  imports MainLoop PortAnnounceInfoExt_Props ClockMaster_Props MdPdelayReq_Props
begin

text \<open>
  What the main loop does with the frames that come in.
\<close>

section \<open>Frames from unknown ports\<close>

definition known_type :: "byte \<Rightarrow> bool" where
  "known_type b \<longleftrightarrow> b \<in> {msg_code PDELAY_REQ, msg_code PDELAY_RESP, msg_code PDELAY_RESP_FOLLOW_UP, msg_code SYNC, msg_code FOLLOW_UP, msg_code ANNOUNCE}"

lemma received_message:
  assumes "recv_ptp_frame t0 junk n e = Some (m, p, e')" "q_size (rxQueue e) > 0" "pop_queue (rxQueue e) (rxBufferPtr e) = Some (q, f, l)"
    "known_type (messageType (get_ptp_msg_header f PAY_LOAD_OFFSET))"
  shows "m \<noteq> RcvdNothing \<and> p = ParseSrcPort f"
  using assms by (auto simp: recv_ptp_frame_def known_type_def Let_def bind_eq_Some_conv split: if_splits)

lemma dispatch_unknown_port: "m \<noteq> RcvdNothing \<Longrightarrow> dispatch x ts m 0xFFFF s = None"
  by (cases m) (simp_all add: dispatch_def port_index_def)

lemma parsed_fatal:
  assumes "queue_wf (rxQueue (node_rx s))" "packets (rxQueue (node_rx s)) = f # fs" "length f = MAX_PKT_LEN" "length (rxBufferPtr (node_rx s)) = MAX_PKT_LEN"
    and "f ! 2 \<notin> {0x01, 0x04, 0x10, 0x40}" "known_type (messageType (get_ptp_msg_header f PAY_LOAD_OFFSET))"
  shows "receive_frame x ts s = None"
proof (cases "recv_ptp_frame (in_stamp_junk x) (in_path_junk x) (node_port_number s) (node_rx s)")
  case (Some r)
  obtain m p e where r: "r = (m, p, e)" by (cases r)
  obtain q n where "pop_queue (rxQueue (node_rx s)) (rxBufferPtr (node_rx s)) = Some (q, f, n)" "0 < q_size (rxQueue (node_rx s))"
    using pop_received[OF assms(1-4)] by blast
  then have m: "m \<noteq> RcvdNothing" "p = 0xFFFF"
    using received_message[OF Some[unfolded r]] assms(5,6) by (auto simp: ParseSrcPort_def)
  then show ?thesis using Some unfolding r
    by (simp add: receive_frame_def dispatch_unknown_port bind_eq_None_conv)
qed (simp add: receive_frame_def)


text \<open>A node with one packet in the queue.\<close>

definition example_node :: "EthRx \<Rightarrow> Node" where
  "example_node rx = ClockMaster.extend clock_node
     (Node.fields (replicate 4 (sm requesting_port)) (replicate 4 (sm started_presp)) [] (replicate 4 (sm ext_port)) []
       \<lparr>systemIdentityChange = False, asymmetryMeasurementModeChange = False, pss_state = PSSEL_INIT, pss_last_state = PSSEL_BEFORE_INIT\<rparr>
       rx (example_stamp 0 0, replicate 4 []) 0)"

definition example_input :: LoopInput where
  "example_input = \<lparr>in_now = clock_reading 100, in_sync_now = clock_reading 300, in_sync_rand = \<lambda>_. 0, in_pdelay_rand = \<lambda>_. 0,
     in_pss_junk = example_pss, in_path_junk = replicate 8 0, in_stamp_junk = example_stamp 0 0\<rparr>"


end
