(* ===== verification/PortStart_Props.thy ===== *)
theory PortStart_Props
  imports MainLoop_Props
begin

text \<open>
  What the start of each machine does, of the clock machines and those of a port, and the start of one port of a
  node with configured roles.
\<close>

section \<open>The machines of one port\<close>

abbreviation (input) running :: "PerPTPInstanceGlobal \<Rightarrow> bool" where
  "running g \<equiv> \<not> BEGIN g \<and> instanceEnable g"

lemma start_pssr:
  assumes "running (ginst s)" "i < length (pssr_sms s)"
  obtains m where "init_port_sync_sync_receive_sm rnd junk i s = Some (pssr_upd i (\<lambda>_. m) s)"
    "pssr_state m = PSSR_DISCARD" "pssr_last_state m = PSSR_DISCARD" "rcvdMDSyncPtrPSSR m = Null"
  using assms by (atomize_elim, subst init_port_sync_sync_receive_sm_def, subst port_sync_sync_receive_sm_run_def, subst sm_loop.simps)
    (auto simp: pssr_body_def Let_def pssr_goto_def pssr_all_state_transition_def pssr_discard_action_def pssr_discard_transition_def pssr_upd_def
      sm_loop.simps[of "pssr_body a b c d" for a b c d])

lemma start_psss:
  assumes "running (inst c)"
  obtains m where "init_port_sync_sync_send_sm r c = Some (c\<lparr>sm := m, port := (port c)\<lparr>syncSlowDown := False\<rparr>\<rparr>)"
    "psss_state m = PSSS_TRANSMIT_INIT" "psss_last_state m = PSSS_TRANSMIT_INIT" "rcvdPSSyncPtrPSSS m = Null" "txMDSyncPtr m = Null"
proof -
  define m where "m = (sm c)\<lparr>psss_last_state := PSSS_TRANSMIT_INIT, psss_state := PSSS_TRANSMIT_INIT, rcvdPSSyncPtrPSSS := Null, txMDSyncPtr := Null,
    rcvdPSSyncPSSS := False, numberSyncTransmissions := 0\<rparr>"
  have "init_port_sync_sync_send_sm r c = Some (c\<lparr>sm := m, port := (port c)\<lparr>syncSlowDown := False\<rparr>\<rparr>)"
    using assms unfolding init_port_sync_sync_send_sm_def port_sync_sync_send_sm_run_def m_def
    by (subst sm_loop.simps, simp add: psss_body_def Let_def psss_goto_def psss_all_state_transition_def psss_transmit_init_action_def
      psss_transmit_init_transition_def psss_start_sending_def, subst sm_loop.simps, simp add: psss_body_def Let_def psss_goto_def psss_transmit_init_action_def
      psss_transmit_init_transition_def psss_start_sending_def)
  then show thesis by (rule that) (simp_all add: m_def)
qed

lemma start_preq_off:
  assumes "running (inst c)" "\<not> portOper (port c)"
  obtains m where "init_md_pdelay_req_sm r c = Some (c\<lparr>sm := m\<rparr>)"
  using assms by (atomize_elim, subst init_md_pdelay_req_sm_def, subst md_pdelay_req_sm_run_def, subst sm_loop.simps)
    (auto simp: preq_body_def Let_def preq_goto_def preq_all_state_transition_def preq_not_enabled_transition_def)

definition pdelay_req_for :: "ClockIdentity \<Rightarrow> 16 word \<Rightarrow> 16 word \<Rightarrow> PTPMsgPdelayReq" where
  "pdelay_req_for cid p n = \<lparr>preq_head = ptp_msg_header_template PDELAY_REQ 54 \<lparr>clockIdentity = cid, portNumber = p\<rparr> n 0 0\<rparr>"

lemma start_preq_on:
  assumes c: "running (inst c)" "portOper (port c)" "tx_wf (eth c)"
    and l: "length (lPdelayRespEventIngressTimestamp (sm c)) = MAXLENGTH" "length (lCorrectedResponderEventTimestamp (sm c)) = MAXLENGTH"
    and p: "computeMeanLinkDelay (port c)" "\<not> asymmetryMeasurementMode (port c)"
  obtains m e where "init_md_pdelay_req_sm r c = Some (c\<lparr>sm := m, port := (port c)\<lparr>neighborRateRatio := 1\<rparr>, eth := e,
      mdent := (mdent c)\<lparr>isMeasuringDelay := False, asCapableAcrossDomains := False\<rparr>\<rparr>)" "tx_wf e"
    "sends [(thisPort (port c), pdelay_req_frame (pdelay_req_for (thisClock (inst c)) (thisPort (port c)) r))] (eth c) e"
    "\<And>p d g f. p = (port c)\<lparr>neighborRateRatio := 1\<rparr> \<Longrightarrow> running g \<Longrightarrow>
      preq_sent (pdelay_req_for (thisClock (inst c)) (thisPort (port c)) r) \<lparr>sm = m, port = p, inst = g, eth = f, mdent = d\<rparr> \<and>
      preq_fresh \<lparr>sm = m, port = p, inst = g, eth = f, mdent = d\<rparr>"
proof -
  let ?q = "pdelay_req_for (thisClock (inst c)) (thisPort (port c)) r"
  obtain e where e: "send_ptp_frame (pdelay_req_frame ?q) (thisPort (port c)) (eth c) = Some e" "sends [(thisPort (port c), pdelay_req_frame ?q)] (eth c) e" "tx_wf e"
    using send_sends[OF c(3) preq_frame_length] by metis
  define m where "m = (sm c)\<lparr>portEnabled0 := True, preq_state := PD_REQ_INITIAL_SEND_PDELAY_REQ, preq_last_state := PD_REQ_INITIAL_SEND_PDELAY_REQ,
         listHeadPropTime := 0, listTailPropTime := MAXLENGTH - 1, isEmptyPropTime := True, rcvdPdelayResp := False, rcvdPdelayRespFollowUp := False,
         rcvdMDTimestampReceiveMDPReq := False, pdelayReqSequenceId := r, txPdelayReqPtr := Live ?q, pdelayIntervalTimer := zero_ns, lostResponses := 0, detectedFaults := 0\<rparr>"
  have "init_md_pdelay_req_sm r c = Some (c\<lparr>sm := m, port := (port c)\<lparr>neighborRateRatio := 1\<rparr>, eth := e,
      mdent := (mdent c)\<lparr>isMeasuringDelay := False, asCapableAcrossDomains := False\<rparr>\<rparr>)"
    using c e(1)
    by (simp add: init_md_pdelay_req_sm_def md_pdelay_req_sm_run_def preq_goto_def preq_all_state_transition_def sm_loop.simps[of "preq_body r t" for t]
      preq_body_def Let_def preq_not_enabled_transition_def preq_initial_action_def preq_initial_transition_def txPdelayReq_def setPdelayReq_def
      pdelay_req_for_def m_def)
  then show thesis
    by (rule that) (use e c l p in \<open>simp_all add: preq_sent_def preq_on_def preq_fresh_def m_def pdelay_req_for_def ptp_msg_header_template_def\<close>)
qed

lemma start_presp:
  assumes "running (inst c)" "portOper (port c)"
  obtains m where "init_md_pdelay_resp_sm c = Some (c\<lparr>sm := m\<rparr>)"
    "\<And>p d g f. portOper p \<Longrightarrow> running g \<Longrightarrow> tx_wf f \<Longrightarrow> presp_ready \<lparr>sm = m, port = p, inst = g, eth = f, mdent = d\<rparr>"
proof -
  define m where "m = (sm c)\<lparr>presp_state := PD_RESP_INITIAL_WAITING_FOR_PDELAY_REQ, presp_last_state := PD_RESP_INITIAL_WAITING_FOR_PDELAY_REQ,
       portEnabled1 := True, rcvdPdelayReqPtr := Null, rcvdPdelayReq := False, rcvdMDTimestampReceiveMDPResp := False\<rparr>"
  have "init_md_pdelay_resp_sm c = Some (c\<lparr>sm := m\<rparr>)"
    using assms by (simp add: init_md_pdelay_resp_sm_def md_pdelay_resp_sm_run_def presp_goto_def presp_all_state_transition_def sm_loop.simps[of presp_body]
      presp_body_def Let_def presp_not_enabled_transition_def presp_initial_action_def presp_initial_transition_def m_def)
  then show thesis by (rule that) (simp add: presp_ready_def presp_on_def m_def)
qed

lemma start_presp_off:
  assumes "\<not> portOper (port c)"
  obtains m where "init_md_pdelay_resp_sm c = Some (c\<lparr>sm := m\<rparr>)"
  using assms by (atomize_elim, simp add: init_md_pdelay_resp_sm_def md_pdelay_resp_sm_run_def presp_goto_def presp_all_state_transition_def
    sm_loop.simps[of presp_body] presp_body_def Let_def presp_not_enabled_transition_def presp_initial_action_def presp_initial_transition_def) auto

lemma start_mdss:
  assumes "running (inst c)"
  obtains m where "init_md_sync_send_sm r c = Some (c\<lparr>sm := m, mdent := (mdent c)\<lparr>syncSequenceId := r\<rparr>\<rparr>)"
    "\<And>p d g f. port_valid p \<Longrightarrow> \<not> asymmetryMeasurementMode p \<Longrightarrow> running g \<Longrightarrow> tx_wf f \<Longrightarrow> mdss_ready \<lparr>sm = m, port = p, inst = g, eth = f, mdent = d\<rparr>"
proof -
  define m where "m = (sm c)\<lparr>mdss_rcvdMDSyncPtr := Null, rcvdMDTimestampReceivePtr := Null, txSyncPtr := Null,
       txFollowUpPtr := Null, mdss_state := MDSS_INITIALIZING, mdss_last_state := MDSS_INITIALIZING, rcvdMDSyncMDSS := False, rcvdMDTimestampReceiveMDSS := False\<rparr>"
  have "init_md_sync_send_sm r c = Some (c\<lparr>sm := m, mdent := (mdent c)\<lparr>syncSequenceId := r\<rparr>\<rparr>)"
    using assms by (simp add: init_md_sync_send_sm_def md_sync_send_sm_run_def mdss_goto_def mdss_all_state_transition_def sm_loop.simps[of "mdss_body r"]
      mdss_body_def Let_def mdss_initializing_action_def mdss_initializing_transition_def mdss_may_send_def m_def)
  then show thesis by (rule that) (simp add: mdss_ready_def mdss_on_def mdss_wf_def mdss_rest_def mdss_ptrs_def m_def)
qed

lemma start_mdsr:
  assumes "running (ginst s)" "i < length (mdsr_sms s)"
  obtains m where "init_md_sync_receive_sm rnd junk i s = Some (mdsr_upd i (\<lambda>_. m) s)"
    "mdsr_state m = MDSR_DISCARD" "mdsr_last_state m = MDSR_DISCARD" "\<not> rcvdFollowUp m" "rcvdSyncPtr m = Null" "rcvdFollowUpPtr m = Null"
  using assms by (atomize_elim, subst init_md_sync_receive_sm_def, subst md_sync_receive_sm_run_def, subst sm_loop.simps)
    (auto simp: mdsr_body_def Let_def mdsr_goto_def mdsr_all_state_transition_def mdsr_discard_action_def mdsr_discard_transition_def mdsr_upd_def
      sm_loop.simps[of "mdsr_body a b c d" for a b c d])

lemma start_paie:
  assumes "running (inst c)" "externalPortConfigurationEnabled (inst c)"
  obtains m where "init_port_announce_information_ext_sm c = Some (c\<lparr>sm := m\<rparr>)"
    "\<And>p g. port_valid p \<Longrightarrow> running g \<Longrightarrow> unat (thisPort p) < length (selectedState g) \<Longrightarrow> length (pathTrace g) = 8 \<Longrightarrow>
      paie_ready \<lparr>sm = m, port = p, inst = g\<rparr>"
proof -
  define m where "m = (sm c)\<lparr>rcvdAnnouncePAIE := False, paie_rcvdAnnouncePtr := Null, paie_state := PAIE_INITIALIZE, paie_last_state := PAIE_INITIALIZE\<rparr>"
  have "init_port_announce_information_ext_sm c = Some (c\<lparr>sm := m\<rparr>)"
    using assms by (simp add: init_port_announce_information_ext_sm_def port_announce_information_ext_sm_run_def paie_goto_def paie_all_state_transition_def
      sm_loop.simps[of paie_body] paie_body_def Let_def paie_initialize_action_def paie_initialize_transition_def m_def)
  then show thesis by (rule that) (simp add: paie_ready_def m_def)
qed

text \<open>What an Announce message of a port says of the grandmaster.\<close>

definition announces :: "PerPortGlobal \<Rightarrow> PerPTPInstanceGlobal \<Rightarrow> PTPMsgAnnounce \<Rightarrow> bool" where
  "announces p g a \<longleftrightarrow> (let r = rootSystemIdentity (masterPriority p) in
     grandmasterIdentity a = rootClockIdentity r \<and> grandmasterPriority1 a = priority1 r \<and> gmClockClass a = clockClass r \<and>
     gmClockAccuracy a = clockAccuracy r \<and> gmOffsetScaledLogVariance a = offsetScaledLogVariance r \<and> grandmasterPriority2 a = priority2 r \<and>
     ann_stepsRemoved a = masterStepsRemoved g)"

lemma setAnnounce_announces: "setAnnounce junk c = Some a \<Longrightarrow> announces (port c) (inst c) a"
  by (auto simp: setAnnounce_def announces_def Let_def bind_eq_Some_conv)

text \<open>What a master port announces at once.\<close>

lemma start_pat:
  assumes g: "inst_wf (inst c)" "running (inst c)" "externalPortConfigurationEnabled (inst c)" "unat (nPathTrace (inst c)) \<le> 8"
    and p: "tidx c \<le> N_PORTS" "pos_interval (announceInterval (port c))" "\<not> asymmetryMeasurementMode (port c)"
    and t: "tx_wf (eth c)" "length junk = 8"
  obtains m e where "init_port_announce_transmit_sm r junk c = Some (c\<lparr>sm := m, eth := e\<rparr>)" "pat_state m = PAT_IDLE" "pat_last_state m = PAT_IDLE"
    "announceSendTime m = uscaledns_add zero_ts (announceInterval (port c))" "interval2 m = announceInterval (port c)" "tx_wf e"
    "selectedState (inst c) ! tidx c = MASTER_PORT \<Longrightarrow> \<exists>a f. announces (port c) (inst c) a \<and> announce_frame a = Some f \<and> sends [(thisPort (port c), f)] (eth c) e"
    "selectedState (inst c) ! tidx c \<noteq> MASTER_PORT \<Longrightarrow> e = eth c"
proof -
  define due where "due = uscaledns_add zero_ts (announceInterval (port c))"
  have lens: "length (selected (inst c)) = 5" "length (selectedState (inst c)) = 5" "tidx c < 5" using g p by (simp_all add: inst_wf_def)
  have later: "uscaledns_compare zero_ts due < 0" unfolding due_def by (rule later_by_interval[OF _ p(2)]) (simp add: usval_def zero_ts_def)
  note body = pat_body_def Let_def pat_goto_def
  define c0 where "c0 = c\<lparr>sm := (sm c)\<lparr>interval2 := announceInterval (port c), pat_sequenceId := r, txAnnouncePtr := Null,
         pat_newInfo := False, announceSlowdown := False, pat_last_state := PAT_BEFORE_INIT, pat_state := PAT_INIT\<rparr>\<rparr>"
  have run: "init_port_announce_transmit_sm r junk c = sm_loop (pat_body junk zero_ts) c0"
    using g(2) by (simp add: init_port_announce_transmit_sm_def port_announce_transmit_sm_run_def pat_goto_def pat_all_state_transition_def c0_def)
  define c1 where "c1 = c0\<lparr>sm := (sm c0)\<lparr>pat_last_state := PAT_INIT, pat_state := PAT_TRANSMIT_INIT\<rparr>\<rparr>"
  define c2 where "c2 = c1\<lparr>sm := (sm c1)\<lparr>pat_last_state := PAT_TRANSMIT_INIT, pat_newInfo := True, announceSlowdown := False,
    numberAnnounceTransmission := 0, pat_state := PAT_IDLE\<rparr>\<rparr>"
  have t1: "pat_body junk zero_ts c0 = Some (c1, True)" by (simp add: body c1_def c0_def)
  have t2: "pat_body junk zero_ts c1 = Some (c2, True)" by (simp add: body pat_transmit_init_action_def c2_def c1_def c0_def)
  have run2: "init_port_announce_transmit_sm r junk c = sm_loop (pat_body junk zero_ts) c2"
    unfolding run using sm_loop_turn[of "pat_body junk zero_ts", OF t1] sm_loop_turn[of "pat_body junk zero_ts", OF t2] by simp
  show thesis
  proof (cases "selectedState (inst c) ! tidx c = MASTER_PORT")
    case False
    define c3 where "c3 = c2\<lparr>sm := (sm c2)\<lparr>pat_last_state := PAT_IDLE, announceSendTime := due\<rparr>\<rparr>"
    have "pat_body junk zero_ts c2 = Some (c3, False)"
      using lens later g False by (simp add: body pat_idle_action_def pat_idle_transition_def rd_in due_def c0_def c1_def c2_def c3_def)
    then have "init_port_announce_transmit_sm r junk c = Some c3" unfolding run2 by (rule sm_loop_stop)
    moreover have "c3 = c\<lparr>sm := sm c3, eth := eth c\<rparr>" by (simp add: c0_def c1_def c2_def c3_def)
    ultimately show thesis using t(1) False by (intro that[where m = "sm c3" and e = "eth c"]) (simp_all add: due_def c0_def c1_def c2_def c3_def)
  next
    case True
    define c3 where "c3 = c2\<lparr>sm := (sm c2)\<lparr>pat_last_state := PAT_IDLE, announceSendTime := due, pat_state := PAT_TRANSMIT_ANNOUNCE\<rparr>\<rparr>"
    have t3: "pat_body junk zero_ts c2 = Some (c3, True)"
      using lens later g p(3) True by (simp add: body pat_idle_action_def pat_idle_transition_def rd_in due_def c0_def c1_def c2_def c3_def)
    let ?c3 = "c3\<lparr>sm := (sm c3)\<lparr>pat_last_state := PAT_TRANSMIT_ANNOUNCE, pat_newInfo := False\<rparr>\<rparr>"
    obtain a f where a: "setAnnounce junk ?c3 = Some a" "announce_frame a = Some f" "length f = 68 + 8 * unat (nPathTrace (inst ?c3))"
      by (rule setAnnounce_returns[of ?c3 junk]) (use g t(2) in \<open>auto simp: inst_wf_def c0_def c1_def c2_def c3_def\<close>)
    have "length f \<le> 1554" using a(3) g(4) by (simp add: c0_def c1_def c2_def c3_def)
    from send_sends[OF t(1) this] obtain e where e: "send_ptp_frame f (thisPort (port c)) (eth c) = Some e" "sends [(thisPort (port c), f)] (eth c) e" "tx_wf e" .
    define c4 where "c4 = c3\<lparr>sm := (sm c3)\<lparr>pat_last_state := PAT_TRANSMIT_ANNOUNCE, pat_newInfo := False, txAnnouncePtr := Live a,
         interval2 := announceInterval (port c), pat_state := PAT_IDLE\<rparr>, eth := e\<rparr>"
    have t4: "pat_body junk zero_ts c3 = Some (c4, True)"
      using a(1,2) e(1) by (simp add: body pat_transmit_announce_action_def txAnnounce_def c0_def c1_def c2_def c3_def c4_def)
    define c5 where "c5 = c4\<lparr>sm := (sm c4)\<lparr>pat_last_state := PAT_IDLE, announceSendTime := due\<rparr>\<rparr>"
    have "pat_body junk zero_ts c4 = Some (c5, False)"
      using lens later g by (simp add: body pat_idle_action_def pat_idle_transition_def rd_in due_def c0_def c1_def c2_def c3_def c4_def c5_def)
    then have "init_port_announce_transmit_sm r junk c = Some c5"
      unfolding run2 using sm_loop_turn[of "pat_body junk zero_ts", OF t3] sm_loop_turn[of "pat_body junk zero_ts", OF t4]
        sm_loop_stop[of "pat_body junk zero_ts" c4] by simp
    moreover have "c5 = c\<lparr>sm := sm c5, eth := e\<rparr>" by (simp add: c0_def c1_def c2_def c3_def c4_def c5_def)
    moreover have "announces (port c) (inst c) a"
      using setAnnounce_announces[OF a(1)] by (simp add: c0_def c1_def c2_def c3_def)
    ultimately show thesis using e True a(2)
      by (intro that[where m = "sm c5" and e = e]) (auto simp: due_def c0_def c1_def c2_def c3_def c4_def c5_def)
  qed
qed

section \<open>The machines of the node\<close>

lemma start_cmsr:
  assumes "running (ginst s)"
  obtains m where "init_clock_master_sync_receive_sm s = Some (s\<lparr>cmsr := m, ginst := (ginst s)\<lparr>masterTime := zero_ns, localTime := zero_ns,
      clockSourceTimeBaseIndicatorOld := 0\<rparr>\<rparr>)"
    "cmsr_state m = CMSR_INITIALIZING" "cmsr_last_state m = CMSR_INITIALIZING" "rcvdClockSourceReqPtr m = Null"
proof -
  define m where "m = (cmsr s)\<lparr>cmsr_last_state := CMSR_INITIALIZING, cmsr_state := CMSR_INITIALIZING, rcvdClockSourceReqPtr := Null,
    rcvdClockSourceReq := False, rcvdLocalClockTickCMSR := False\<rparr>"
  have "init_clock_master_sync_receive_sm s = Some (s\<lparr>cmsr := m, ginst := (ginst s)\<lparr>masterTime := zero_ns, localTime := zero_ns,
      clockSourceTimeBaseIndicatorOld := 0\<rparr>\<rparr>)"
    using assms by (simp add: init_clock_master_sync_receive_sm_def clock_master_sync_receive_sm_run_def cmsr_goto_def cmsr_all_state_transition_def
      sm_loop.simps[of cmsr_body] cmsr_body_def Let_def cmsr_initializing_action_def cmsr_initializing_transition_def m_def)
  then show thesis by (rule that) (simp_all add: m_def)
qed

lemma start_cmss:
  assumes "running (ginst s)"
  obtains m where "init_clock_master_sync_send_sm rnd n s = Some (s\<lparr>cmss := m, ginst := (ginst s)\<lparr>clockMasterSyncInterval := one_sec\<rparr>\<rparr>)"
    "cmss_state m = CMSS_INITIALIZING" "cmss_last_state m = CMSS_INITIALIZING" "txPSSyncPtrCMSS m = Null" "syncSendTime m = one_sec"
proof -
  have at: "uscaledns_add zero_ns one_sec = one_sec" by (simp add: uscaledns_add_def check_overflow_def Let_def)
  have later: "uscaledns_compare zero_ns one_sec < 0" by (simp add: uscaledns_compare_def Let_def)
  define m where "m = (cmss s)\<lparr>cmss_last_state := CMSS_INITIALIZING, cmss_state := CMSS_INITIALIZING, txPSSyncPtrCMSS := Null, syncSendTime := one_sec\<rparr>"
  have "init_clock_master_sync_send_sm rnd n s = Some (s\<lparr>cmss := m, ginst := (ginst s)\<lparr>clockMasterSyncInterval := one_sec\<rparr>\<rparr>)"
    using assms later by (simp add: init_clock_master_sync_send_sm_def clock_master_sync_send_sm_run_def cmss_goto_def cmss_all_state_transition_def
      sm_loop.simps[of "cmss_body a b d" for a b d] cmss_body_def Let_def cmss_initializing_action_def cmss_initializing_transition_def
      computeClockMasterSyncInterval_def at m_def)
  then show thesis by (rule that) (simp_all add: m_def)
qed

lemma start_sss:
  assumes "running (ginst s)"
  obtains m where "init_site_sync_sync_sm rnd s = Some (s\<lparr>sss := m\<rparr>)"
    "sss_state m = SSS_INITIALIZING" "sss_last_state m = SSS_INITIALIZING" "rcvdPSSyncPtrSSS m = Null" "txPSSyncPtrSSS m = Null"
proof -
  define m where "m = (sss s)\<lparr>sss_last_state := SSS_INITIALIZING, sss_state := SSS_INITIALIZING, rcvdPSSyncPtrSSS := Null, txPSSyncPtrSSS := Null,
    rcvdPSSyncSSS := False\<rparr>"
  have "init_site_sync_sync_sm rnd s = Some (s\<lparr>sss := m\<rparr>)"
    using assms by (simp add: init_site_sync_sync_sm_def site_sync_sync_sm_run_def sss_goto_def sss_all_state_transition_def
      sm_loop.simps[of "sss_body a b" for a b] sss_body_def Let_def sss_initializing_action_def sss_initializing_transition_def m_def)
  then show thesis by (rule that) (simp_all add: m_def)
qed

lemma start_css:
  assumes "running (ginst s)"
  obtains m where "init_clock_slave_sync_sm s = Some (s\<lparr>css := m\<rparr>)"
    "css_state m = CSS_INITIALIZING" "css_last_state m = CSS_INITIALIZING" "rcvdPSSyncPtrCSS m = Null" "\<not> rcvdPSSyncCSS m" "\<not> rcvdLocalClockTickCSS m"
    "isEmptyPeriod m" "listHeadPeriod m = 0" "listTailPeriod m = MAXLENGTH - 1" "lSyncReceiptTime m = lSyncReceiptTime (css s)"
    "lSyncReceiptLocalTime m = lSyncReceiptLocalTime (css s)" "clk_period m = clk_period (css s)"
proof -
  define m where "m = (css s)\<lparr>css_last_state := CSS_INITIALIZING, css_state := CSS_INITIALIZING, rcvdPSSyncPtrCSS := Null, isEmptyPeriod := True,
    listHeadPeriod := 0, listTailPeriod := MAXLENGTH - 1, rcvdPSSyncCSS := False, rcvdLocalClockTickCSS := False\<rparr>"
  have "init_clock_slave_sync_sm s = Some (s\<lparr>css := m\<rparr>)"
    using assms by (simp add: init_clock_slave_sync_sm_def clock_slave_sync_sm_run_def css_goto_def css_all_state_transition_def
      sm_loop.simps[of css_body] css_body_def Let_def css_initializing_action_def css_initializing_transition_def m_def)
  then show thesis by (rule that) (simp_all add: m_def)
qed

section \<open>A port within the node\<close>

lemma node_md_at:
  "i < length (get s) \<Longrightarrow> i < length (gports s) \<Longrightarrow> i < length (mdents s) \<Longrightarrow>
    f \<lparr>sm = get s ! i, port = gports s ! i, inst = ginst s, eth = site_eth s, mdent = mdents s ! i\<rparr> = Some \<lparr>sm = m, port = p, inst = g, eth = e, mdent = d\<rparr> \<Longrightarrow>
    node_md get put f i s = Some (put ((get s)[i := m]) (s\<lparr>gports := (gports s)[i := p], ginst := g, site_eth := e, mdents := (mdents s)[i := d]\<rparr>))"
  by (simp add: node_md_def rd_in)

lemma node_tx_at:
  "i < length (get s) \<Longrightarrow> i < length (gports s) \<Longrightarrow>
    f \<lparr>sm = get s ! i, port = gports s ! i, inst = ginst s, eth = site_eth s\<rparr> = Some \<lparr>sm = m, port = p, inst = g, eth = e\<rparr> \<Longrightarrow>
    node_tx get put f i s = Some (put ((get s)[i := m]) (s\<lparr>gports := (gports s)[i := p], ginst := g, site_eth := e\<rparr>))"
  by (simp add: node_tx_def rd_in)

lemma node_ctx_at:
  "i < length (get s) \<Longrightarrow> i < length (gports s) \<Longrightarrow>
    f \<lparr>sm = get s ! i, port = gports s ! i, inst = ginst s\<rparr> = Some \<lparr>sm = m, port = p, inst = g\<rparr> \<Longrightarrow>
    node_ctx get put f i s = Some (put ((get s)[i := m]) (s\<lparr>gports := (gports s)[i := p], ginst := g\<rparr>))"
  by (simp add: node_ctx_def rd_in)

text \<open>The arrays of the node, of which only the sizes are known at the start.\<close>

definition node_arrays :: "Node \<Rightarrow> bool" where
  "node_arrays s \<longleftrightarrow> site_arrays s \<and> length (pssr_sms s) = N_PORTS \<and> length (mdsr_sms s) = N_PORTS \<and> length (preq_sms s) = N_PORTS \<and>
     length (presp_sms s) = N_PORTS \<and> length (paie_sms s) = N_PORTS \<and> length (pat_sms s) = N_PORTS \<and> tx_wf (site_eth s)"

definition queue_arrays :: "nat \<Rightarrow> Node \<Rightarrow> bool" where
  "queue_arrays i s \<longleftrightarrow> length (lPdelayRespEventIngressTimestamp (preq_sms s ! i)) = MAXLENGTH \<and>
     length (lCorrectedResponderEventTimestamp (preq_sms s ! i)) = MAXLENGTH"

text \<open>What the start has set before the machines are started.\<close>

definition start_inst :: "PerPTPInstanceGlobal \<Rightarrow> bool" where
  "start_inst g \<longleftrightarrow> running g \<and> inst_wf g \<and> externalPortConfigurationEnabled g \<and> unat (nPathTrace g) \<le> MAX_PATH_TRACE_N"

definition start_vars :: "nat \<Rightarrow> PerPortGlobal \<Rightarrow> bool" where
  "start_vars i p \<longleftrightarrow> thisPort p = of_nat (i + 1) \<and> asCapable p \<and> ptpPortEnabled p = portOper p \<and> computeMeanLinkDelay p \<and>
     \<not> asymmetryMeasurementMode p \<and> pos_interval (announceInterval p)"

text \<open>The machines of a port are at rest, and those of a port that is on ready.\<close>

definition preq_ctx :: "nat \<Rightarrow> Node \<Rightarrow> ReqCtx" where
  "preq_ctx i s = \<lparr>sm = preq_sms s ! i, port = gport i s, inst = ginst s, eth = site_eth s, mdent = mdents s ! i\<rparr>"

definition presp_ctx :: "nat \<Rightarrow> Node \<Rightarrow> RespCtx" where
  "presp_ctx i s = \<lparr>sm = presp_sms s ! i, port = gport i s, inst = ginst s, eth = site_eth s, mdent = mdents s ! i\<rparr>"

definition paie_ctx :: "nat \<Rightarrow> Node \<Rightarrow> PaieCtx" where
  "paie_ctx i s = \<lparr>sm = paie_sms s ! i, port = gport i s, inst = ginst s\<rparr>"

definition pat_ctx :: "nat \<Rightarrow> Node \<Rightarrow> PatCtx" where
  "pat_ctx i s = \<lparr>sm = pat_sms s ! i, port = gport i s, inst = ginst s, eth = site_eth s\<rparr>"

definition port_started :: "LoopInput \<Rightarrow> nat \<Rightarrow> Node \<Rightarrow> bool" where
  "port_started x i s \<longleftrightarrow> psss_ready (at_port i s) \<and> pat_wf (pat_ctx i s) \<and> pat_rest (pat_ctx i s) \<and> syncSequenceId (mdents s ! i) = in_sync_rand x i \<and>
     (portOper (gport i s) \<longrightarrow> pssr_ready i s \<and> mdsr_ready i s \<and> mdss_ready (mdss_ctx (at_port i s)) \<and> presp_ready (presp_ctx i s) \<and>
       paie_ready (paie_ctx i s) \<and> preq_fresh (preq_ctx i s) \<and>
       preq_sent (pdelay_req_for (thisClock (ginst s)) (thisPort (gport i s)) (in_pdelay_rand x i)) (preq_ctx i s))"

text \<open>What the start of port \<open>i\<close> leaves alone.\<close>

definition others_same :: "nat \<Rightarrow> Node \<Rightarrow> Node \<Rightarrow> bool" where
  "others_same i s t \<longleftrightarrow> node_arrays t \<and> ginst t = ginst s \<and> cmsr t = cmsr s \<and> cmss t = cmss s \<and> sss t = sss s \<and> css t = css s \<and> rtc t = rtc s \<and>
     (\<exists>b r. gport i t = (gport i s)\<lparr>syncSlowDown := b, neighborRateRatio := r\<rparr>) \<and>
     (\<forall>j. j \<noteq> i \<longrightarrow> gport j t = gport j s \<and> mdents t ! j = mdents s ! j \<and> psss_sms t ! j = psss_sms s ! j \<and> mdss_sms t ! j = mdss_sms s ! j \<and>
       pssr_sms t ! j = pssr_sms s ! j \<and> mdsr_sms t ! j = mdsr_sms s ! j \<and> preq_sms t ! j = preq_sms s ! j \<and> presp_sms t ! j = presp_sms s ! j \<and>
       paie_sms t ! j = paie_sms s ! j \<and> pat_sms t ! j = pat_sms s ! j)"

lemma port_started_frame:
  assumes "port_started x j s" "others_same i s t" "j \<noteq> i"
  shows "port_started x j t"
proof -
  have same: "node_arrays t" "ginst t = ginst s" "gport j t = gport j s" "mdents t ! j = mdents s ! j" "psss_sms t ! j = psss_sms s ! j" "mdss_sms t ! j = mdss_sms s ! j"
       "pssr_sms t ! j = pssr_sms s ! j" "mdsr_sms t ! j = mdsr_sms s ! j" "preq_sms t ! j = preq_sms s ! j" "presp_sms t ! j = presp_sms s ! j"
       "paie_sms t ! j = paie_sms s ! j" "pat_sms t ! j = pat_sms s ! j"
    using assms(2,3) by (simp_all add: others_same_def)
  have tx: "tx_wf (site_eth t)" "site_arrays t" "length (pssr_sms t) = N_PORTS" "length (mdsr_sms t) = N_PORTS" using same(1) by (simp_all add: node_arrays_def)
  note s = assms(1)[unfolded port_started_def]
  have "psss_ready (at_port j t)" using s by (simp add: same(2-) psss_ready_def)
  moreover have "pat_wf (pat_ctx j t)" "pat_rest (pat_ctx j t)" using s tx by (simp_all add: same(2-) pat_ctx_def pat_wf_def pat_globals_def pat_rest_def)
  moreover have "mdss_ready (mdss_ctx (at_port j t))" if "mdss_ready (mdss_ctx (at_port j s))"
  proof -
    have e: "tx_wf (site_eth s)" using s by (simp add: pat_wf_def pat_globals_def pat_ctx_def)
    have "same_relay_node (ginst s) (ginst s)" by (simp add: same_relay_node_def)
    from mdss_node(1)[OF this psss_portI(1) e tx(1), of "psss_sms s ! j" "gport j s" "mdents s ! j" "mdss_sms s ! j" "psss_sms s ! j"] that
    show ?thesis by (simp add: same(2-))
  qed
  moreover have "presp_ready (presp_ctx j t)" if "presp_ready (presp_ctx j s)" using that tx by (simp add: same(2-) presp_ctx_def presp_ready_def presp_on_def)
  ultimately show ?thesis using s tx
    by (simp add: port_started_def same(2-) pssr_ready_def mdsr_ready_def preq_ctx_def paie_ctx_def preq_fresh_def preq_sent_def preq_on_def)
qed

lemma start_preq:
  assumes c: "running (inst c)" "tx_wf (eth c)"
    and l: "length (lPdelayRespEventIngressTimestamp (sm c)) = MAXLENGTH" "length (lCorrectedResponderEventTimestamp (sm c)) = MAXLENGTH"
    and p: "computeMeanLinkDelay (port c)" "\<not> asymmetryMeasurementMode (port c)"
  obtains m n e b b' where "init_md_pdelay_req_sm r c = Some (c\<lparr>sm := m, port := (port c)\<lparr>neighborRateRatio := n\<rparr>, eth := e,
      mdent := (mdent c)\<lparr>isMeasuringDelay := b, asCapableAcrossDomains := b'\<rparr>\<rparr>)" "tx_wf e"
    "sends (if portOper (port c) then [(thisPort (port c), pdelay_req_frame (pdelay_req_for (thisClock (inst c)) (thisPort (port c)) r))] else []) (eth c) e"
    "portOper (port c) \<Longrightarrow> n = 1"
    "\<And>p d g f. portOper (port c) \<Longrightarrow> p = (port c)\<lparr>neighborRateRatio := n\<rparr> \<Longrightarrow> running g \<Longrightarrow>
      preq_sent (pdelay_req_for (thisClock (inst c)) (thisPort (port c)) r) \<lparr>sm = m, port = p, inst = g, eth = f, mdent = d\<rparr> \<and>
      preq_fresh \<lparr>sm = m, port = p, inst = g, eth = f, mdent = d\<rparr>"
proof (cases "portOper (port c)")
  case True
  from start_preq_on[OF c(1) True c(2) l p, of r thesis] show thesis using that True by fastforce
next
  case False
  obtain m where "init_md_pdelay_req_sm r c = Some (c\<lparr>sm := m\<rparr>)" by (rule start_preq_off[OF c(1) False])
  then show thesis
    by (intro that[where m = m and n = "neighborRateRatio (port c)" and e = "eth c" and b = "isMeasuringDelay (mdent c)"
        and b' = "asCapableAcrossDomains (mdent c)"]) (use False c(2) sends_nil in simp_all)
qed

lemma start_presp_any:
  assumes "running (inst c)"
  obtains m where "init_md_pdelay_resp_sm c = Some (c\<lparr>sm := m\<rparr>)"
    "\<And>p d g f. portOper (port c) \<Longrightarrow> portOper p \<Longrightarrow> running g \<Longrightarrow> tx_wf f \<Longrightarrow> presp_ready \<lparr>sm = m, port = p, inst = g, eth = f, mdent = d\<rparr>"
proof (cases "portOper (port c)")
  case True
  from start_presp[OF assms True] show thesis using that by metis
next
  case False
  from start_presp_off[OF False] show thesis using that False by metis
qed

definition own_frames :: "LoopInput \<Rightarrow> Node \<Rightarrow> (nat \<Rightarrow> byte list) \<Rightarrow> nat \<Rightarrow> (16 word \<times> byte list) list" where
  "own_frames x s f i =
     (if portOper (gport i s) then [(thisPort (gport i s), pdelay_req_frame (pdelay_req_for (thisClock (ginst s)) (thisPort (gport i s)) (in_pdelay_rand x i)))] else []) @
     (if selectedState (ginst s) ! (i + 1) = MASTER_PORT then [(thisPort (gport i s), f i)] else [])"

lemma start_port:
  assumes arr: "node_arrays s" "queue_arrays i s" and i: "i < N_PORTS" and g: "start_inst (ginst s)" and p: "start_vars i (gport i s)"
    and junk: "length (in_path_junk x) = 8"
  obtains t f where "init_port_machines x ar i s = Some t" "others_same i s t" "port_started x i t"
    "sends (own_frames x s (\<lambda>_. f) i) (site_eth s) (site_eth t)"
    "selectedState (ginst s) ! (i + 1) = MASTER_PORT \<Longrightarrow> \<exists>a. announce_frame a = Some f \<and> announces (gport i s) (ginst s) a"
proof -
  have run: "running (ginst s)" "externalPortConfigurationEnabled (ginst s)" "inst_wf (ginst s)" "unat (nPathTrace (ginst s)) \<le> 8"
    using g by (simp_all add: start_inst_def)
  have lens: "site_arrays s" "length (pssr_sms s) = 4" "length (mdsr_sms s) = 4" "length (preq_sms s) = 4" "length (presp_sms s) = 4"
    "length (paie_sms s) = 4" "length (pat_sms s) = 4" "length (gports s) = 4" "length (mdents s) = 4" "length (psss_sms s) = 4" "length (mdss_sms s) = 4"
    "tx_wf (site_eth s)"
    using arr(1) by (simp_all add: node_arrays_def site_arrays_def)
  have tp: "thisPort (gport i s) = of_nat (i + 1)" "unat (thisPort (gport i s)) = i + 1"
    using p i by (simp_all add: start_vars_def unat_of_nat take_bit_nat_eq_self del: of_nat_add of_nat_Suc)
  obtain m1 where m1: "init_port_sync_sync_receive_sm (in_sync_rand x) (in_pss_junk x) i s = Some (pssr_upd i (\<lambda>_. m1) s)"
    "pssr_state m1 = PSSR_DISCARD" "pssr_last_state m1 = PSSR_DISCARD" "rcvdMDSyncPtrPSSR m1 = Null"
    using start_pssr[of s i "in_sync_rand x" "in_pss_junk x"] run lens i by auto
  define s1 where "s1 = pssr_upd i (\<lambda>_. m1) s"
  let ?c2 = "at_port i s1"
  obtain m2 where m2: "init_port_sync_sync_send_sm (in_sync_rand x i) ?c2 = Some (?c2\<lparr>sm := m2, port := (port ?c2)\<lparr>syncSlowDown := False\<rparr>\<rparr>)"
    "psss_state m2 = PSSS_TRANSMIT_INIT" "psss_last_state m2 = PSSS_TRANSMIT_INIT" "rcvdPSSyncPtrPSSS m2 = Null" "txMDSyncPtr m2 = Null"
    using start_psss[of ?c2 "in_sync_rand x i"] run by (auto simp: s1_def pssr_upd_def)
  define p2 where "p2 = (gport i s)\<lparr>syncSlowDown := False\<rparr>"
  define s2 where "s2 = psss_put i (?c2\<lparr>sm := m2, port := p2\<rparr>) s1"
  have e2: "site_psss (init_port_sync_sync_send_sm (in_sync_rand x i)) i s1 = Some s2"
    using site_psss_at[of s1 i "init_port_sync_sync_send_sm (in_sync_rand x i)", OF _ _ m2(1)] lens i
    by (simp add: s2_def p2_def s1_def pssr_upd_def site_arrays_def)
  have f2: "gports s2 = (gports s)[i := p2]" "ginst s2 = ginst s" "site_eth s2 = site_eth s" "mdents s2 = mdents s" "mdss_sms s2 = mdss_sms s"
    "psss_sms s2 = (psss_sms s)[i := m2]" "pssr_sms s2 = (pssr_sms s)[i := m1]" "mdsr_sms s2 = mdsr_sms s" "preq_sms s2 = preq_sms s"
    "presp_sms s2 = presp_sms s" "paie_sms s2 = paie_sms s" "pat_sms s2 = pat_sms s" "cmsr s2 = cmsr s" "cmss s2 = cmss s" "sss s2 = sss s" "css s2 = css s" "rtc s2 = rtc s"
    by (simp_all add: s2_def s1_def psss_put_def pssr_upd_def)
  let ?c3 = "\<lparr>sm = preq_sms s ! i, port = p2, inst = ginst s, eth = site_eth s, mdent = mdents s ! i\<rparr>"
  obtain m3 n3 e3 b3 b3' where m3: "init_md_pdelay_req_sm (in_pdelay_rand x i) ?c3 = Some (?c3\<lparr>sm := m3, port := (port ?c3)\<lparr>neighborRateRatio := n3\<rparr>, eth := e3,
      mdent := (mdent ?c3)\<lparr>isMeasuringDelay := b3, asCapableAcrossDomains := b3'\<rparr>\<rparr>)" "tx_wf e3"
    "sends (if portOper p2 then [(thisPort p2, pdelay_req_frame (pdelay_req_for (thisClock (ginst s)) (thisPort p2) (in_pdelay_rand x i)))] else []) (site_eth s) e3"
    "\<And>p d g f. portOper p2 \<Longrightarrow> p = p2\<lparr>neighborRateRatio := n3\<rparr> \<Longrightarrow> running g \<Longrightarrow>
      preq_sent (pdelay_req_for (thisClock (ginst s)) (thisPort p2) (in_pdelay_rand x i)) \<lparr>sm = m3, port = p, inst = g, eth = f, mdent = d\<rparr> \<and>
      preq_fresh \<lparr>sm = m3, port = p, inst = g, eth = f, mdent = d\<rparr>"
    by (rule start_preq[of ?c3 "in_pdelay_rand x i"]) (use run lens arr(2) p in \<open>auto simp: queue_arrays_def start_vars_def p2_def\<close>)
  define p3 where "p3 = p2\<lparr>neighborRateRatio := n3\<rparr>"
  define d3 where "d3 = (mdents s ! i)\<lparr>isMeasuringDelay := b3, asCapableAcrossDomains := b3'\<rparr>"
  define s3 where "s3 = s2\<lparr>gports := (gports s2)[i := p3], ginst := ginst s, site_eth := e3, mdents := (mdents s2)[i := d3], preq_sms := (preq_sms s2)[i := m3]\<rparr>"
  have e3: "on_preq (init_md_pdelay_req_sm (in_pdelay_rand x i)) i s2 = Some s3"
    unfolding s3_def by (rule node_md_at) (use m3(1) lens i in \<open>simp_all add: f2 p3_def d3_def\<close>)
  have f3: "gports s3 = (gports s)[i := p3]" "ginst s3 = ginst s" "site_eth s3 = e3" "mdents s3 = (mdents s)[i := d3]" "presp_sms s3 = presp_sms s" "mdss_sms s3 = mdss_sms s"
    by (simp_all add: s3_def f2)
  let ?c4 = "\<lparr>sm = presp_sms s ! i, port = p3, inst = ginst s, eth = e3, mdent = d3\<rparr>"
  obtain m4 where m4: "init_md_pdelay_resp_sm ?c4 = Some (?c4\<lparr>sm := m4\<rparr>)"
    "\<And>p d g f. portOper p3 \<Longrightarrow> portOper p \<Longrightarrow> running g \<Longrightarrow> tx_wf f \<Longrightarrow> presp_ready \<lparr>sm = m4, port = p, inst = g, eth = f, mdent = d\<rparr>"
    using start_presp_any[of ?c4 thesis] run by auto
  define s4 where "s4 = s3\<lparr>gports := (gports s3)[i := p3], ginst := ginst s, site_eth := e3, mdents := (mdents s3)[i := d3], presp_sms := (presp_sms s3)[i := m4]\<rparr>"
  have e4: "on_presp init_md_pdelay_resp_sm i s3 = Some s4"
    unfolding s4_def by (rule node_md_at) (use m4(1) lens i in \<open>simp_all add: f3\<close>)
  have f4: "gports s4 = (gports s)[i := p3]" "ginst s4 = ginst s" "site_eth s4 = e3" "mdents s4 = (mdents s)[i := d3]" "mdss_sms s4 = mdss_sms s"
    by (simp_all add: s4_def f3)
  let ?c5 = "\<lparr>sm = mdss_sms s ! i, port = p3, inst = ginst s, eth = e3, mdent = d3\<rparr>"
  obtain m5 where m5: "init_md_sync_send_sm (in_sync_rand x i) ?c5 = Some (?c5\<lparr>sm := m5, mdent := (mdent ?c5)\<lparr>syncSequenceId := in_sync_rand x i\<rparr>\<rparr>)"
    "\<And>p d g f. port_valid p \<Longrightarrow> \<not> asymmetryMeasurementMode p \<Longrightarrow> running g \<Longrightarrow> tx_wf f \<Longrightarrow> mdss_ready \<lparr>sm = m5, port = p, inst = g, eth = f, mdent = d\<rparr>"
    using start_mdss[of ?c5 "in_sync_rand x i" thesis] run by auto
  define d5 where "d5 = d3\<lparr>syncSequenceId := in_sync_rand x i\<rparr>"
  define s5 where "s5 = s4\<lparr>gports := (gports s4)[i := p3], ginst := ginst s, site_eth := e3, mdents := (mdents s4)[i := d5], mdss_sms := (mdss_sms s4)[i := m5]\<rparr>"
  have e5: "on_mdss (init_md_sync_send_sm (in_sync_rand x i)) i s4 = Some s5"
    unfolding s5_def by (rule node_md_at) (use m5(1) lens i in \<open>simp_all add: f4 d5_def\<close>)
  have f5: "mdsr_sms s5 = mdsr_sms s" "ginst s5 = ginst s" "gports s5 = (gports s)[i := p3]" "paie_sms s5 = paie_sms s" "pat_sms s5 = pat_sms s" "site_eth s5 = e3"
    by (simp_all add: s5_def s4_def s3_def f2)
  obtain m6 where m6: "init_md_sync_receive_sm (in_sync_rand x) (in_pss_junk x) i s5 = Some (mdsr_upd i (\<lambda>_. m6) s5)"
    "mdsr_state m6 = MDSR_DISCARD" "mdsr_last_state m6 = MDSR_DISCARD" "\<not> rcvdFollowUp m6" "rcvdSyncPtr m6 = Null" "rcvdFollowUpPtr m6 = Null"
    using start_mdsr[of s5 i "in_sync_rand x" "in_pss_junk x" thesis] run lens i by (auto simp: f5)
  define s6 where "s6 = mdsr_upd i (\<lambda>_. m6) s5"
  have f6: "ginst s6 = ginst s" "gports s6 = (gports s)[i := p3]" "paie_sms s6 = paie_sms s" "pat_sms s6 = pat_sms s" "site_eth s6 = e3"
    by (simp_all add: s6_def mdsr_upd_def f5)
  let ?c7 = "\<lparr>sm = paie_sms s ! i, port = p3, inst = ginst s\<rparr>"
  obtain m7 where m7: "init_port_announce_information_ext_sm ?c7 = Some (?c7\<lparr>sm := m7\<rparr>)"
    "\<And>p g. port_valid p \<Longrightarrow> running g \<Longrightarrow> unat (thisPort p) < length (selectedState g) \<Longrightarrow> length (pathTrace g) = 8 \<Longrightarrow>
      paie_ready \<lparr>sm = m7, port = p, inst = g\<rparr>"
    using start_paie[of ?c7 thesis] run by auto
  define s7 where "s7 = s6\<lparr>gports := (gports s6)[i := p3], ginst := ginst s, paie_sms := (paie_sms s6)[i := m7]\<rparr>"
  have e7: "on_paie init_port_announce_information_ext_sm i s6 = Some s7"
    unfolding s7_def by (rule node_ctx_at) (use m7(1) lens i in \<open>simp_all add: f6\<close>)
  have f7: "ginst s7 = ginst s" "gports s7 = (gports s)[i := p3]" "pat_sms s7 = pat_sms s" "site_eth s7 = e3"
    by (simp_all add: s7_def f6)
  let ?c8 = "\<lparr>sm = pat_sms s ! i, port = p3, inst = ginst s, eth = e3\<rparr>"
  have q3: "thisPort p3 = of_nat (i + 1)" "tidx ?c8 = i + 1" "pos_interval (announceInterval p3)" "\<not> asymmetryMeasurementMode p3"
    "portOper p3 = portOper (gport i s)" "portOper p2 = portOper (gport i s)" "thisPort p2 = thisPort (gport i s)" "masterPriority p3 = masterPriority (gport i s)"
    "port_valid p3 = portOper (gport i s)"
    using p tp by (auto simp: start_vars_def p3_def p2_def port_valid_def)
  obtain m8 e8 where m8: "init_port_announce_transmit_sm (ar i) (in_path_junk x) ?c8 = Some (?c8\<lparr>sm := m8, eth := e8\<rparr>)" "pat_state m8 = PAT_IDLE" "pat_last_state m8 = PAT_IDLE"
    "announceSendTime m8 = uscaledns_add zero_ts (announceInterval p3)" "interval2 m8 = announceInterval p3" "tx_wf e8"
    "selectedState (ginst s) ! (i + 1) = MASTER_PORT \<Longrightarrow> \<exists>a f. announces p3 (ginst s) a \<and> announce_frame a = Some f \<and> sends [(thisPort p3, f)] e3 e8"
    "selectedState (ginst s) ! (i + 1) \<noteq> MASTER_PORT \<Longrightarrow> e8 = e3"
    by (rule start_pat[of ?c8 "in_path_junk x" "ar i"]) (use run q3 i m3(2) junk in simp_all)
  define s8 where "s8 = s7\<lparr>gports := (gports s7)[i := p3], ginst := ginst s, site_eth := e8, pat_sms := (pat_sms s7)[i := m8]\<rparr>"
  have e8: "on_pat (init_port_announce_transmit_sm (ar i) (in_path_junk x)) i s7 = Some s8"
    unfolding s8_def by (rule node_tx_at) (use m8(1) lens i in \<open>simp_all add: f7\<close>)
  have start: "init_port_machines x ar i s = Some s8"
    unfolding init_port_machines_def using m1(1) e2 e3 e4 e5 m6(1) e7 e8 run(2) by (simp add: s1_def[symmetric] s6_def[symmetric] f6(1))
  have f8: "ginst s8 = ginst s" "gports s8 = (gports s)[i := p3]" "site_eth s8 = e8" "mdents s8 = (mdents s)[i := d5]" "mdss_sms s8 = (mdss_sms s)[i := m5]"
    "psss_sms s8 = (psss_sms s)[i := m2]" "pssr_sms s8 = (pssr_sms s)[i := m1]" "mdsr_sms s8 = (mdsr_sms s)[i := m6]" "preq_sms s8 = (preq_sms s)[i := m3]"
    "presp_sms s8 = (presp_sms s)[i := m4]" "paie_sms s8 = (paie_sms s)[i := m7]" "pat_sms s8 = (pat_sms s)[i := m8]"
    "cmsr s8 = cmsr s" "cmss s8 = cmss s" "sss s8 = sss s" "css s8 = css s" "rtc s8 = rtc s"
    by (simp_all add: s8_def s7_def s6_def mdsr_upd_def s5_def s4_def s3_def f2)
  have arr8: "node_arrays s8" using lens m8(6) by (simp add: node_arrays_def site_arrays_def f8)
  have on8: "portOper p3 \<Longrightarrow> port_valid p3" using q3 by simp
  have others: "others_same i s s8"
    unfolding others_same_def using arr8 lens i by (auto simp: f8 p3_def p2_def)
  have at8: "psss_sms s8 ! i = m2" "gport i s8 = p3" "mdents s8 ! i = d5" "mdss_sms s8 ! i = m5" "pssr i s8 = m1" "mdsr i s8 = m6" "preq_sms s8 ! i = m3"
    "presp_sms s8 ! i = m4" "paie_sms s8 ! i = m7" "pat_sms s8 ! i = m8"
    using lens i by (simp_all add: f8)
  have l8: "length (pssr_sms s8) = 4" "length (mdsr_sms s8) = 4" "site_arrays s8" using arr8 by (simp_all add: node_arrays_def)
  have "psss_ready (at_port i s8)"
    using run q3(2) m2 i by (simp add: psss_ready_def at8 f8(1) inst_wf_def)
  moreover have "pat_wf (pat_ctx i s8)" "pat_rest (pat_ctx i s8)"
    using run q3 m8 i by (simp_all add: pat_ctx_def pat_wf_def pat_globals_def pat_rest_def at8 f8(1,3))
  moreover have "pssr_ready i s8" if "portOper p3"
    using run m1 i l8 q3(4) on8[OF that] by (simp add: pssr_ready_def at8 f8(1))
  moreover have "mdsr_ready i s8" if "portOper p3"
    using run m6 i l8 q3(4) on8[OF that] by (simp add: mdsr_ready_def at8 f8(1))
  moreover have "mdss_ready (mdss_ctx (at_port i s8))" if "portOper p3"
    unfolding mdss_ctx_def using m5(2)[of p3 "ginst s8" "site_eth s8"] run q3(4) on8[OF that] m8(6) by (simp add: at8 f8(1,3))
  moreover have "presp_ready (presp_ctx i s8)" if "portOper p3"
    unfolding presp_ctx_def at8 by (rule m4(2)) (use that run m8(6) in \<open>simp_all add: f8(1,3)\<close>)
  moreover have "paie_ready (paie_ctx i s8)" if "portOper p3"
    unfolding paie_ctx_def at8 by (rule m7(2)) (use run q3(2) i on8[OF that] in \<open>simp_all add: f8(1) inst_wf_def\<close>)
  moreover have "preq_fresh (preq_ctx i s8)"
    "preq_sent (pdelay_req_for (thisClock (ginst s8)) (thisPort p3) (in_pdelay_rand x i)) (preq_ctx i s8)" if "portOper p3"
    unfolding preq_ctx_def at8 using m3(4)[of p3 "ginst s8" "site_eth s8" d5] that run q3(1,5-7) tp by (simp_all add: p3_def f8(1))
  moreover have "syncSequenceId d5 = in_sync_rand x i" by (simp add: d5_def)
  ultimately have started: "port_started x i s8" by (simp add: port_started_def at8)
  note req = m3(3)[unfolded q3(6,7)]
  show thesis
  proof (cases "selectedState (ginst s) ! (i + 1) = MASTER_PORT")
    case True
    from m8(7)[OF True] obtain a f where a: "announces p3 (ginst s) a" "announce_frame a = Some f" "sends [(thisPort p3, f)] e3 e8" by blast
    have p3_port: "thisPort p3 = thisPort (gport i s)" using q3(1) tp(1) by simp
    have "announces (gport i s) (ginst s) a" using a(1) q3(8) by (simp add: announces_def)
    moreover have "sends (own_frames x s (\<lambda>_. f) i) (site_eth s) (site_eth s8)"
      using sends_append[OF req a(3)] True by (simp add: own_frames_def f8(3) p3_port)
    ultimately show thesis using that[of s8 f] start others started a(2) by blast
  next
    case False
    have "sends (own_frames x s (\<lambda>_. []) i) (site_eth s) (site_eth s8)" using req False m8(8) by (simp add: own_frames_def f8(3))
    then show thesis using that[of s8 "[]"] start others started False by blast
  qed
qed

end
