(* ===== verification/NodeStart_Props.thy ===== *)
theory NodeStart_Props
  imports PortStart_Props
begin

text \<open>
  The start of the whole node with configured roles, what it sends, and the relaying of the time by a node that has
  been started.
\<close>

section \<open>The start of the node\<close>

text \<open>The sizes of the arrays of the node; what they hold does not matter.\<close>

definition blank_arrays :: "Node \<Rightarrow> bool" where
  "blank_arrays s \<longleftrightarrow> length (psss_sms s) = N_PORTS \<and> length (mdss_sms s) = N_PORTS \<and> length (pssr_sms s) = N_PORTS \<and>
     length (mdsr_sms s) = N_PORTS \<and> length (preq_sms s) = N_PORTS \<and> length (presp_sms s) = N_PORTS \<and> length (paie_sms s) = N_PORTS \<and>
     length (pat_sms s) = N_PORTS \<and> tx_wf (site_eth s) \<and> (\<forall>i < N_PORTS. queue_arrays i s) \<and>
     length (selected (ginst s)) = N_PORTS + 1 \<and> length (reselect (ginst s)) = N_PORTS + 1 \<and> length (pathTrace (ginst s)) = MAX_PATH_TRACE_N \<and>
     length (lSyncReceiptTime (css s)) = MAXLENGTH \<and> length (lSyncReceiptLocalTime (css s)) = MAXLENGTH"

text \<open>What the start keeps of the clock machine.\<close>

definition same_period :: "ClockSlaveSyncSM \<Rightarrow> ClockSlaveSyncSM \<Rightarrow> bool" where
  "same_period m n \<longleftrightarrow> lSyncReceiptLocalTime n = lSyncReceiptLocalTime m \<and> clk_period n = clk_period m"

text \<open>After the clock machines: the node is ready to start the machines of its ports.\<close>

definition clocks_started :: "Node \<Rightarrow> Node \<Rightarrow> bool" where
  "clocks_started s t \<longleftrightarrow> cmsr_ready t \<and> cmss_ready t \<and> sss_ready t \<and> css_ready t \<and> isEmptyPeriod (css t) \<and> site_eth t = site_eth s \<and>
     node_arrays t \<and> start_inst (ginst t) \<and> (\<forall>i < N_PORTS. queue_arrays i t) \<and> same_period (css s) (css t)"

lemma start_clocks:
  assumes "running (ginst s)" "start_inst (ginst s)" "node_arrays s" "\<forall>i < N_PORTS. queue_arrays i s"
    "length (lSyncReceiptTime (css s)) = MAXLENGTH" "length (lSyncReceiptLocalTime (css s)) = MAXLENGTH"
  obtains t where "init_machines x ar s = for_each (init_port_machines x ar) [0..<N_PORTS] t" "clocks_started s t" "gports t = gports s"
    "selectedState (ginst t) = selectedState (ginst s)" "thisClock (ginst t) = thisClock (ginst s)" "gmPresent (ginst t) = gmPresent (ginst s)"
    "masterStepsRemoved (ginst t) = masterStepsRemoved (ginst s)"
proof -
  obtain m1 where m1: "init_clock_master_sync_receive_sm s = Some (s\<lparr>cmsr := m1, ginst := (ginst s)\<lparr>masterTime := zero_ns, localTime := zero_ns,
      clockSourceTimeBaseIndicatorOld := 0\<rparr>\<rparr>)"
    "cmsr_state m1 = CMSR_INITIALIZING" "cmsr_last_state m1 = CMSR_INITIALIZING" "rcvdClockSourceReqPtr m1 = Null"
    by (rule start_cmsr[OF assms(1)])
  define s1 where "s1 = s\<lparr>cmsr := m1, ginst := (ginst s)\<lparr>masterTime := zero_ns, localTime := zero_ns, clockSourceTimeBaseIndicatorOld := 0\<rparr>\<rparr>"
  have "running (ginst s1)" using assms(1) by (simp add: s1_def)
  then obtain m2 where m2: "init_clock_master_sync_send_sm (in_sync_rand x) (in_sync_now x) s1 = Some (s1\<lparr>cmss := m2, ginst := (ginst s1)\<lparr>clockMasterSyncInterval := one_sec\<rparr>\<rparr>)"
    "cmss_state m2 = CMSS_INITIALIZING" "cmss_last_state m2 = CMSS_INITIALIZING" "txPSSyncPtrCMSS m2 = Null"
    by (rule start_cmss)
  define s2 where "s2 = s1\<lparr>cmss := m2, ginst := (ginst s1)\<lparr>clockMasterSyncInterval := one_sec\<rparr>\<rparr>"
  have r2: "running (ginst s2)" using assms(1) by (simp add: s2_def s1_def)
  then obtain m3 where m3: "init_site_sync_sync_sm (in_sync_rand x) s2 = Some (s2\<lparr>sss := m3\<rparr>)"
    "sss_state m3 = SSS_INITIALIZING" "sss_last_state m3 = SSS_INITIALIZING" "rcvdPSSyncPtrSSS m3 = Null" "txPSSyncPtrSSS m3 = Null"
    by (rule start_sss)
  have "running (ginst (s2\<lparr>sss := m3\<rparr>))" using r2 by simp
  from start_css[OF this] obtain m4 where m4: "init_clock_slave_sync_sm (s2\<lparr>sss := m3\<rparr>) = Some (s2\<lparr>sss := m3, css := m4\<rparr>)"
    "css_state m4 = CSS_INITIALIZING" "css_last_state m4 = CSS_INITIALIZING" "rcvdPSSyncPtrCSS m4 = Null" "\<not> rcvdPSSyncCSS m4" "\<not> rcvdLocalClockTickCSS m4"
    "isEmptyPeriod m4" "listHeadPeriod m4 = 0" "listTailPeriod m4 = MAXLENGTH - 1" "lSyncReceiptTime m4 = lSyncReceiptTime (css (s2\<lparr>sss := m3\<rparr>))"
    "lSyncReceiptLocalTime m4 = lSyncReceiptLocalTime (css (s2\<lparr>sss := m3\<rparr>))" "clk_period m4 = clk_period (css (s2\<lparr>sss := m3\<rparr>))" .
  define t where "t = s2\<lparr>sss := m3, css := m4\<rparr>"
  have ext: "externalPortConfigurationEnabled (ginst t)" using assms(2) by (simp add: t_def s2_def s1_def start_inst_def)
  have "init_machines x ar s = for_each (init_port_machines x ar) [0..<N_PORTS] t"
    unfolding init_machines_def using m1(1) m2(1) m3(1) m4(1) ext by (simp add: s1_def[symmetric] s2_def[symmetric] t_def[symmetric])
  moreover have "clocks_started s t"
    using assms m1 m2 m3 m4
    by (simp add: clocks_started_def cmsr_ready_def cmss_ready_def sss_ready_def css_ready_def css_wf_def node_arrays_def site_arrays_def start_inst_def
      inst_wf_def queue_arrays_def same_period_def t_def s2_def s1_def)
  ultimately show thesis by (rule that) (simp_all add: t_def s2_def s1_def)
qed

text \<open>The first \<open>k\<close> ports of the node \<open>s\<close> have been started and have sent their frames.\<close>

definition ports_started :: "LoopInput \<Rightarrow> Node \<Rightarrow> (nat \<Rightarrow> byte list) \<Rightarrow> nat \<Rightarrow> Node \<Rightarrow> bool" where
  "ports_started x s f k t \<longleftrightarrow> node_arrays t \<and> ginst t = ginst s \<and> cmsr t = cmsr s \<and> cmss t = cmss s \<and> sss t = sss s \<and> css t = css s \<and>
     sends (concat (map (own_frames x s f) [0..<k])) (site_eth s) (site_eth t) \<and>
     (\<forall>i < k. port_started x i t \<and> (\<exists>b r. gport i t = (gport i s)\<lparr>syncSlowDown := b, neighborRateRatio := r\<rparr>) \<and>
       (selectedState (ginst s) ! (i + 1) = MASTER_PORT \<longrightarrow> (\<exists>a. announce_frame a = Some (f i) \<and> announces (gport i s) (ginst s) a))) \<and>
     (\<forall>i. k \<le> i \<longrightarrow> gport i t = gport i s \<and> preq_sms t ! i = preq_sms s ! i)"

lemma ports_started_step:
  assumes t: "ports_started x s f k t" and k: "k < N_PORTS" and s: "start_inst (ginst s)" "start_vars k (gport k s)" "queue_arrays k s" "length (in_path_junk x) = 8"
  obtains g u where "init_port_machines x ar k t = Some u" "ports_started x s (f(k := g)) (Suc k) u"
proof -
  have tk: "node_arrays t" "queue_arrays k t" "start_inst (ginst t)" "start_vars k (gport k t)" "ginst t = ginst s" "gport k t = gport k s"
    using t s by (simp_all add: ports_started_def queue_arrays_def)
  obtain u g where u: "init_port_machines x ar k t = Some u" "others_same k t u" "port_started x k u"
    "sends (own_frames x t (\<lambda>_. g) k) (site_eth t) (site_eth u)"
    "selectedState (ginst t) ! (k + 1) = MASTER_PORT \<Longrightarrow> \<exists>a. announce_frame a = Some g \<and> announces (gport k t) (ginst t) a"
    by (rule start_port[OF tk(1,2) k tk(3,4) s(4)]) blast
  have "own_frames x t (\<lambda>_. g) k = own_frames x s (f(k := g)) k" using tk by (simp add: own_frames_def)
  moreover have "map (own_frames x s (f(k := g))) [0..<k] = map (own_frames x s f) [0..<k]" by (simp add: own_frames_def)
  moreover have "sends (concat (map (own_frames x s f) [0..<k])) (site_eth s) (site_eth t)" using t by (simp add: ports_started_def)
  ultimately have "sends (concat (map (own_frames x s (f(k := g))) [0..<k]) @ own_frames x s (f(k := g)) k) (site_eth s) (site_eth u)"
    using sends_append[OF _ u(4), of "concat (map (own_frames x s f) [0..<k])" "site_eth s"] by metis
  then have "sends (concat (map (own_frames x s (f(k := g))) [0..<Suc k])) (site_eth s) (site_eth u)" by simp
  moreover have "port_started x i u \<and> (\<exists>b r. gport i u = (gport i s)\<lparr>syncSlowDown := b, neighborRateRatio := r\<rparr>) \<and>
       (selectedState (ginst s) ! (i + 1) = MASTER_PORT \<longrightarrow> (\<exists>a. announce_frame a = Some ((f(k := g)) i) \<and> announces (gport i s) (ginst s) a))"
    if "i < Suc k" for i
  proof (cases "i = k")
    case True
    then show ?thesis using u(2,3,5) tk by (auto simp: others_same_def)
  next
    case False
    then have "i < k" "port_started x i t" using that t by (simp_all add: ports_started_def)
    moreover have "gport i u = gport i t" using u(2) False by (simp add: others_same_def)
    ultimately show ?thesis using t port_started_frame[OF _ u(2) False] False by (auto simp: ports_started_def)
  qed
  ultimately have "ports_started x s (f(k := g)) (Suc k) u"
    using t u(2) tk(5) by (simp add: ports_started_def others_same_def)
  then show thesis using that u(1) by blast
qed

lemma start_all_ports:
  assumes s: "start_inst (ginst s)" "node_arrays s" "length (in_path_junk x) = 8"
    and p: "\<And>i. i < N_PORTS \<Longrightarrow> start_vars i (gport i s) \<and> queue_arrays i s"
  obtains f t where "for_each (init_port_machines x ar) [0..<N_PORTS] s = Some t" "ports_started x s f N_PORTS t"
proof -
  have "ports_started x s f 0 s" for f using s(2) by (simp add: ports_started_def node_arrays_def sends_nil)
  then have "ok (for_each (init_port_machines x ar) [0..<N_PORTS] s) (\<lambda>t. \<exists>f. ports_started x s f N_PORTS t)"
  proof (intro ok_for_range[where I = "\<lambda>k t. \<exists>f. ports_started x s f k t"])
    fix k t assume "k < N_PORTS" "\<exists>f. ports_started x s f k t"
    then obtain f where f: "k < N_PORTS" "ports_started x s f k t" by blast
    obtain g u where "init_port_machines x ar k t = Some u" "ports_started x s (f(k := g)) (Suc k) u"
      by (rule ports_started_step[OF f(2,1) s(1) _ _ s(3)]) (use p[OF f(1)] in auto)
    then show "ok (init_port_machines x ar k t) (\<lambda>t. \<exists>f. ports_started x s f (Suc k) t)" by auto
  qed auto
  then show thesis using that by (auto simp: ok_iff)
qed

text \<open>What holds of a node that has just been started with configured roles.\<close>

definition node_started :: "LoopInput \<Rightarrow> SystemIdentity \<Rightarrow> PortState list \<Rightarrow> Node \<Rightarrow> bool" where
  "node_started x sid ps s \<longleftrightarrow> cmsr_ready s \<and> cmss_ready s \<and> sss_ready s \<and> css_ready s \<and> isEmptyPeriod (css s) \<and> node_arrays s \<and>
     start_inst (ginst s) \<and> selectedState (ginst s) = ps \<and> thisClock (ginst s) = rootClockIdentity sid \<and> gmPresent (ginst s) \<and>
     (\<forall>i < N_PORTS. port_started x i s \<and> thisPort (gport i s) = of_nat (i + 1) \<and> (portOper (gport i s) \<longleftrightarrow> ps ! (i + 1) \<noteq> DISABLED_PORT) \<and>
       meanLinkDelay (gport i s) = zero_ns)"

text \<open>What the node \<open>s\<close> sends when it is started; \<open>f\<close> are the Announce frames.\<close>

definition first_frames :: "LoopInput \<Rightarrow> SystemIdentity \<Rightarrow> PortState list \<Rightarrow> (nat \<Rightarrow> byte list) \<Rightarrow> nat \<Rightarrow> (16 word \<times> byte list) list" where
  "first_frames x sid ps f i =
     (if ps ! (i + 1) = DISABLED_PORT then [] else [(of_nat (i + 1), pdelay_req_frame (pdelay_req_for (rootClockIdentity sid) (of_nat (i + 1)) (in_pdelay_rand x i)))]) @
     (if ps ! (i + 1) = MASTER_PORT then [(of_nat (i + 1), f i)] else [])"

lemma node_start_run:
  assumes "length ps = N_PORTS + 1" "blank_arrays s" "length (in_path_junk x) = MAX_PATH_TRACE_N"
  obtains t f where "start_node x ar sid (Some ps) True s = Some t" "node_started x sid ps t"
    "sends (concat (map (first_frames x sid ps f) [0..<N_PORTS])) (site_eth s) (site_eth t)"
    "\<And>i. i < N_PORTS \<Longrightarrow> ps ! (i + 1) = MASTER_PORT \<Longrightarrow> \<exists>a. announce_frame a = Some (f i) \<and> announces (gport i s) (ginst s) a"
    "same_period (css s) (css t)"
proof -
  obtain g where g: "init_instance sid (Some ps) True (ginst s) = Some g" using assms(1) by (simp add: init_instance_def)
  then have gf: "running g" "start_inst g" "selectedState g = ps" "thisClock g = rootClockIdentity sid" "gmPresent g"
    "masterStepsRemoved g = masterStepsRemoved (ginst s)"
    using assms by (auto simp: init_instance_def start_inst_def inst_wf_def blank_arrays_def own_priority_def)
  define s1 where "s1 = s\<lparr>ginst := g, gports := map (\<lambda>i. init_port g i (gports s ! i)) [0..<N_PORTS],
       mdents := map (\<lambda>i. init_mdentity (mdents s ! i)) [0..<N_PORTS]\<rparr>"
  have start: "start_node x ar sid (Some ps) True s = init_machines x ar s1" using g by (simp add: start_node_def s1_def)
  have port: "gport i s1 = init_port g i (gports s ! i)" if "i < N_PORTS" for i using that by (simp add: s1_def)
  have vars: "start_vars i (gport i s1)" "portOper (gport i s1) \<longleftrightarrow> ps ! (i + 1) \<noteq> DISABLED_PORT" "meanLinkDelay (gport i s1) = zero_ns"
    "masterPriority (gport i s1) = masterPriority (gport i s)" "thisPort (gport i s1) = of_nat (i + 1)" if "i < N_PORTS" for i
    using gf(3) by (simp_all add: port[OF that] init_port_def Let_def start_vars_def pos_interval_def)
  have "running (ginst s1)" "start_inst (ginst s1)" "node_arrays s1" "\<forall>i < N_PORTS. queue_arrays i s1"
    "length (lSyncReceiptTime (css s1)) = MAXLENGTH" "length (lSyncReceiptLocalTime (css s1)) = MAXLENGTH"
    using gf assms(2) by (simp_all add: s1_def node_arrays_def site_arrays_def blank_arrays_def queue_arrays_def)
  from start_clocks[OF this, of x ar] obtain s2 where s2: "init_machines x ar s1 = for_each (init_port_machines x ar) [0..<N_PORTS] s2"
    "clocks_started s1 s2" "gports s2 = gports s1"
    "selectedState (ginst s2) = selectedState (ginst s1)" "thisClock (ginst s2) = thisClock (ginst s1)" "gmPresent (ginst s2) = gmPresent (ginst s1)"
    "masterStepsRemoved (ginst s2) = masterStepsRemoved (ginst s1)" .
  have c: "start_inst (ginst s2)" "node_arrays s2" "site_eth s2 = site_eth s" using s2(2) by (simp_all add: clocks_started_def s1_def)
  have p2: "start_vars i (gport i s2) \<and> queue_arrays i s2" if "i < N_PORTS" for i
    using vars(1)[OF that] s2(2,3) that by (simp add: clocks_started_def)
  obtain f t where t: "for_each (init_port_machines x ar) [0..<N_PORTS] s2 = Some t" "ports_started x s2 f N_PORTS t"
    by (rule start_all_ports[OF c(1,2) assms(3) p2])
  have i2: "selectedState (ginst s2) = ps" "thisClock (ginst s2) = rootClockIdentity sid" "gmPresent (ginst s2)"
    "masterStepsRemoved (ginst s2) = masterStepsRemoved (ginst s)"
    using s2(4-7) gf by (simp_all add: s1_def)
  have run: "start_node x ar sid (Some ps) True s = Some t" using start s2(1) t(1) by simp
  have fr: "map (own_frames x s2 f) [0..<N_PORTS] = map (first_frames x sid ps f) [0..<N_PORTS]"
    using vars(2,5) by (auto simp: own_frames_def first_frames_def s2(3) i2)
  have "sends (concat (map (own_frames x s2 f) [0..<N_PORTS])) (site_eth s2) (site_eth t)" using t(2) unfolding ports_started_def by blast
  then have frames: "sends (concat (map (first_frames x sid ps f) [0..<N_PORTS])) (site_eth s) (site_eth t)" unfolding fr c(3) .
  have ann: "\<exists>a. announce_frame a = Some (f i) \<and> announces (gport i s) (ginst s) a" if "i < N_PORTS" "ps ! (i + 1) = MASTER_PORT" for i
  proof -
    note m = that
    obtain a where "announce_frame a = Some (f i)" "announces (gport i s2) (ginst s2) a"
      using t(2) m by (auto simp: ports_started_def i2(1))
    then show ?thesis using vars(4)[OF m(1)] by (auto simp: announces_def s2(3) i2(4))
  qed
  have ready: "cmsr_ready t" "cmss_ready t" "sss_ready t" "css_ready t" "isEmptyPeriod (css t)"
    using s2(2) t(2) by (simp_all add: ports_started_def clocks_started_def cmsr_ready_def cmss_ready_def sss_ready_def css_ready_def css_wf_def)
  have "port_started x i t \<and> thisPort (gport i t) = of_nat (i + 1) \<and> (portOper (gport i t) \<longleftrightarrow> ps ! (i + 1) \<noteq> DISABLED_PORT) \<and> meanLinkDelay (gport i t) = zero_ns"
    if "i < N_PORTS" for i
  proof -
    note i = that
    obtain b r where "gport i t = (gport i s2)\<lparr>syncSlowDown := b, neighborRateRatio := r\<rparr>" "port_started x i t"
      using t(2) i unfolding ports_started_def by blast
    then show ?thesis using vars[OF i] by (simp add: s2(3))
  qed
  then have "node_started x sid ps t"
    using ready t(2) c(1) i2 by (simp add: node_started_def ports_started_def)
  then moreover have "same_period (css s) (css t)" using s2(2) t(2) by (simp add: clocks_started_def ports_started_def s1_def)
  ultimately show thesis by (intro that[OF run _ frames ann])
qed

section \<open>The start as a whole\<close>


text \<open>
  C18. What a master port with a configured role announces at the start are the quality and the steps that its
  memory held before the daemon ran: neither is ever set with configured roles, and the clock of the node itself
  is not announced.
\<close>

theorem configured_masters_announce_memory:
  assumes "length ps = N_PORTS + 1" "blank_arrays s" "length (in_path_junk x) = MAX_PATH_TRACE_N"
    and "i < N_PORTS" "ps ! (i + 1) = MASTER_PORT"
  shows "\<exists>t f a. start_node x ar sid (Some ps) True s = Some t \<and>
    sends (concat (map (first_frames x sid ps f) [0..<N_PORTS])) (site_eth s) (site_eth t) \<and>
    announce_frame a = Some (f i) \<and> announces (gport i s) (ginst s) a"
proof -
  obtain t f where r: "start_node x ar sid (Some ps) True s = Some t" "sends (concat (map (first_frames x sid ps f) [0..<N_PORTS])) (site_eth s) (site_eth t)"
    "\<And>i. i < N_PORTS \<Longrightarrow> ps ! (i + 1) = MASTER_PORT \<Longrightarrow> \<exists>a. announce_frame a = Some (f i) \<and> announces (gport i s) (ginst s) a"
    by (rule node_start_run[OF assms(1-3)]) blast
  then show ?thesis using assms(4,5) by blast
qed

text \<open>A node with a slave port, a master port and two ports that are off, before its start.\<close>

definition example_pat :: PortAnnounceTransmitSM where
  "example_pat = \<lparr>announceSendTime = zero_ns, numberAnnounceTransmission = 0, interval2 = zero_ns, pat_sequenceId = 0, txAnnouncePtr = Null, pat_newInfo = False,
     announceSlowdown = False, pat_state = PAT_BEFORE_INIT, pat_last_state = PAT_BEFORE_INIT\<rparr>"

definition idle_node :: Node where
  "idle_node = (example_node (rx_one [] []))\<lparr>pat_sms := replicate 4 example_pat\<rparr>"

definition example_roles :: "PortState list" where
  "example_roles = [PASSIVE_PORT, SLAVE_PORT, MASTER_PORT, DISABLED_PORT, DISABLED_PORT]"

lemma idle_node_arrays: "blank_arrays idle_node" "length (in_path_junk example_input) = MAX_PATH_TRACE_N" "length example_roles = N_PORTS + 1"
proof -
  have f: "psss_sms idle_node = psss_sms relay_node" "mdss_sms idle_node = mdss_sms relay_node" "pssr_sms idle_node = pssr_sms relay_node"
    "mdsr_sms idle_node = mdsr_sms relay_node" "preq_sms idle_node = replicate 4 (sm requesting_port)" "presp_sms idle_node = replicate 4 (sm started_presp)"
    "paie_sms idle_node = replicate 4 (sm ext_port)" "pat_sms idle_node = replicate 4 example_pat" "site_eth idle_node = tx_idle"
    "ginst idle_node = (ginst relay_node)\<lparr>selectedState := [SLAVE_PORT, MASTER_PORT, MASTER_PORT, MASTER_PORT, MASTER_PORT]\<rparr>"
    "css idle_node = css started_clock"
    by (simp_all add: idle_node_def example_node_def clock_node_def ClockMaster.defs Node.defs MdsrSite.defs) (simp_all add: relay_node_def)
  show "blank_arrays idle_node"
    unfolding blank_arrays_def queue_arrays_def f
    by (simp add: relay_node_def example_defs tx_wf_def tx_idle_def requesting_port_def started_clock_def)
qed (simp_all add: example_input_def example_roles_def)


theorem configured_masters_announce_memory_witness:
  "\<exists>t f a. start_node example_input (\<lambda>_. 0) (example_identity 246 1) (Some example_roles) True idle_node = Some t \<and>
    sends (concat (map (first_frames example_input (example_identity 246 1) example_roles f) [0..<N_PORTS])) (site_eth idle_node) (site_eth t) \<and>
    announce_frame a = Some (f 1) \<and> announces (gport 1 idle_node) (ginst idle_node) a"
  using idle_node_arrays by (intro configured_masters_announce_memory) (simp_all add: example_roles_def)

lemma port_number: "i < N_PORTS \<Longrightarrow> unat (of_nat (i + 1) :: 16 word) = i + 1"
  by (simp add: unat_of_nat del: of_nat_add of_nat_Suc)

lemma started_relays:
  assumes "node_started x sid ps t" "i < N_PORTS" "ps ! (i + 1) = SLAVE_PORT" "css_takes p t" "pss_localPortNumber p = of_nat (i + 1)"
  shows "mdsr_ready i t" "pssr_ready i t" "relay_ready p t"
proof -
  note s = assms(1)[unfolded node_started_def]
  have port: "port_started x j t" "thisPort (gport j t) = of_nat (j + 1)" if "j < N_PORTS" for j using s that by blast+
  have "portOper (gport i t)" using s assms(2,3) by auto
  then show "mdsr_ready i t" "pssr_ready i t" using port(1)[OF assms(2)] by (simp_all add: port_started_def)
  have "ps = selectedState (ginst t)" using s by simp
  have "psss_ready (at_port j t)" "forwards p t j \<Longrightarrow> mdss_ready (mdss_ctx (at_port j t))" if "j < N_PORTS" for j
    using port(1)[OF that] by (auto simp: port_started_def forwards_def psss_forwards_def port_valid_def)
  then have "ports_ready p t" using s by (simp add: ports_ready_def node_arrays_def)
  moreover have "unat (pss_localPortNumber p) = i + 1" unfolding assms(5) by (rule port_number[OF assms(2)])
  then have "from_slave p (ginst t)" "unat (pss_localPortNumber p) < length (selectedState (ginst t))"
    using s assms(2,3) by (auto simp: from_slave_def start_inst_def inst_wf_def)
  ultimately show "relay_ready p t" using s assms(4) by (simp add: relay_ready_def)
qed

lemma started_masters:
  assumes "node_started x sid ps t" "i < N_PORTS" "ps ! (i + 1) = SLAVE_PORT"
  shows "filter (\<lambda>j. port_valid (gport j t) \<and> selectedState (ginst t) ! unat (thisPort (gport j t)) = MASTER_PORT \<and> thisPort (gport i t) \<noteq> thisPort (gport j t)) [0..<N_PORTS]
    = filter (\<lambda>j. ps ! (j + 1) = MASTER_PORT) [0..<N_PORTS]"
proof (rule filter_cong[OF refl])
  fix j assume "j \<in> set [0..<N_PORTS]"
  then have j: "j < N_PORTS" by simp
  note s = assms(1)[unfolded node_started_def]
  have u: "unat (of_nat (j + 1) :: 16 word) = j + 1" "unat (of_nat (i + 1) :: 16 word) = i + 1" using j assms(2) by (simp_all only: port_number)
  have "thisPort (gport j t) = of_nat (j + 1)" "thisPort (gport i t) = of_nat (i + 1)" "selectedState (ginst t) = ps" "portOper (gport j t) \<longleftrightarrow> ps ! (j + 1) \<noteq> DISABLED_PORT"
    "port_started x j t" using s j assms(2) by blast+
  moreover have "port_valid (gport j t)" if "portOper (gport j t)" using calculation(5) that by (simp add: port_started_def pssr_ready_def)
  moreover have "\<not> port_valid (gport j t)" if "\<not> portOper (gport j t)" using that by (simp add: port_valid_def)
  ultimately show "(port_valid (gport j t) \<and> selectedState (ginst t) ! unat (thisPort (gport j t)) = MASTER_PORT \<and> thisPort (gport i t) \<noteq> thisPort (gport j t)) = (ps ! (j + 1) = MASTER_PORT)"
    using assms(3) u by (metis PortState.distinct)
qed

text \<open>
  C15. A node that has been started with configured roles relays the time: a Sync message on its slave port and then
  its Follow_Up set the clock, and one Sync message leaves by each port that is configured as a master port, in the
  order of the ports, and by no other: the packet names the number of the port, which is its index plus one. The two
  messages carry the same sequence number and a log interval that \<open>shl1\<close> admits, 0 to 30; the time of the node is below
  \<open>2 ^ 95\<close>, the clock has not seen the time of the message before, and its period is 0 to 1000.
\<close>

theorem started_node_relays:
  assumes start: "length ps = N_PORTS + 1" "blank_arrays s" "length (in_path_junk x) = MAX_PATH_TRACE_N" "start_node x ar sid (Some ps) True s = Some t"
    and i: "i < N_PORTS" "ps ! (i + 1) = SLAVE_PORT"
    and m: "usval ts < 2 ^ 95" "sequenceId (fu_head f) = sequenceId (sync_head y)" "shl1 (logMessageInterval (sync_head y)) = Some k"
    and p: "p = pss_of junk (gport i t) (sync_report y f (ts_ts st) zero_ns) ts' k"
    and c: "uscaledns_add (pss_upstreamTxTime p) zero_ns \<notin> set (lSyncReceiptLocalTime (css s))" "0 \<le> clk_period (css s)" "clk_period (css s) \<le> 1000"
  shows "\<exists>v u. md_sync_receive_sm_recv_sync rnd junk i ts st y t = Some v \<and> md_sync_receive_sm_recv_follow_up rnd junk i ts' f v = Some u \<and>
    (\<exists>w. rtc u = rtc_latch (offset_write (master_time (gports t) p) (node_time (gports t) p) (rtc t)) @ w) \<and>
    sends (map (\<lambda>j. (of_nat (j + 1), sync_frame (sync_for (request_at p t j) (syncSequenceId (mdents t ! j)))))
      (filter (\<lambda>j. ps ! (j + 1) = MASTER_PORT) [0..<N_PORTS])) (site_eth t) (site_eth u)"
proof -
  have t: "node_started x sid ps t" "same_period (css s) (css t)" by (rule node_start_run[OF start(1-3), of ar sid], use start(4) in simp)+
  have g: "meanLinkDelay (gport i t) = zero_ns" "thisPort (gport i t) = of_nat (i + 1)" using t(1) i(1) by (auto simp: node_started_def)
  have n: "pss_localPortNumber p = of_nat (i + 1)" unfolding p by (simp add: pss_of_def g)
  have u: "unat (pss_localPortNumber p) = i + 1" unfolding n by (rule port_number[OF i(1)])
  have "node_time (gports t) p = uscaledns_add (pss_upstreamTxTime p) zero_ns" unfolding node_time_def link_delay_def u using g u by auto
  then have "css_takes p t" using t(1) c t(2) i(1) u
    by (simp add: css_takes_def same_period_def node_started_def node_arrays_def site_arrays_def)
  note r = started_relays[OF t(1) i this n]
  have pg: "p = pss_of junk (gport i t) (sync_report y f (ts_ts st) (meanLinkDelay (gport i t))) ts' k" using p by (simp add: g)
  obtain v u where vu: "md_sync_receive_sm_recv_sync rnd junk i ts st y t = Some v" "md_sync_receive_sm_recv_follow_up rnd junk i ts' f v = Some u"
    "\<exists>w. rtc u = rtc_latch (offset_write (master_time (gports t) p) (node_time (gports t) p) (rtc t)) @ w"
    "sends (map (sync_at p t) (filter (\<lambda>j. ps ! (j + 1) = MASTER_PORT) [0..<N_PORTS])) (site_eth t) (site_eth u)"
    using relay_runs[OF r(1,2) m pg r(3), of rnd] unfolding started_masters[OF t(1) i] by blast
  have e: "map (sync_at p t) (filter (\<lambda>j. ps ! (j + 1) = MASTER_PORT) [0..<N_PORTS]) =
      map (\<lambda>j. (of_nat (j + 1), sync_frame (sync_for (request_at p t j) (syncSequenceId (mdents t ! j)))))
        (filter (\<lambda>j. ps ! (j + 1) = MASTER_PORT) [0..<N_PORTS])"
    by (rule map_cong[OF refl]) (use t(1) in \<open>simp add: sync_at_def node_started_def\<close>)
  show ?thesis using vu(1-3) vu(4)[unfolded e] by blast
qed

text \<open>The Sync message on the first port, the only slave port, leaves on the second, the only master port.\<close>

theorem started_node_relays_witness:
  "\<exists>t p v u. start_node example_input (\<lambda>_. 0) (example_identity 246 1) (Some example_roles) True idle_node = Some t \<and>
    md_sync_receive_sm_recv_sync (\<lambda>_. 0) example_pss 0 \<lparr>subns = 0, nsec = 1500, nsec_msb = 0\<rparr> (relay_stamp 1000 9) relay_sync t = Some v \<and>
    md_sync_receive_sm_recv_follow_up (\<lambda>_. 0) example_pss 0 \<lparr>subns = 0, nsec = 2000, nsec_msb = 0\<rparr> relay_follow_up v = Some u \<and>
    sends [(2, sync_frame (sync_for (request_at p t 1) (syncSequenceId (mdents t ! 1))))] (site_eth t) (site_eth u)"
proof -
  obtain t where t: "start_node example_input (\<lambda>_. 0) (example_identity 246 1) (Some example_roles) True idle_node = Some t"
    by (rule node_start_run[OF idle_node_arrays(3,1,2)])
  have css: "css idle_node = css started_clock"
    by (simp add: idle_node_def example_node_def clock_node_def ClockMaster.defs Node.defs MdsrSite.defs) (simp add: relay_node_def)
  define p where "p = pss_of example_pss (gport 0 t) (sync_report relay_sync relay_follow_up (ts_ts (relay_stamp 1000 9)) zero_ns) \<lparr>subns = 0, nsec = 2000, nsec_msb = 0\<rparr> 1"
  have x: "uscaledns_add (pss_upstreamTxTime p) zero_ns = \<lparr>subns = 0, nsec = 1000, nsec_msb = 0\<rparr>"
    by (simp add: p_def pss_of_def sync_report_def relay_stamp_def uscaledns_subtract_def uscaledns_add_def check_overflow_def Let_def)
  have f: "filter (\<lambda>j. example_roles ! (j + 1) = MASTER_PORT) [0..<N_PORTS] = [1]"
    by (simp add: example_roles_def upt_rec)
  have "\<exists>v u. md_sync_receive_sm_recv_sync (\<lambda>_. 0) example_pss 0 \<lparr>subns = 0, nsec = 1500, nsec_msb = 0\<rparr> (relay_stamp 1000 9) relay_sync t = Some v \<and>
    md_sync_receive_sm_recv_follow_up (\<lambda>_. 0) example_pss 0 \<lparr>subns = 0, nsec = 2000, nsec_msb = 0\<rparr> relay_follow_up v = Some u \<and>
    (\<exists>w. rtc u = rtc_latch (offset_write (master_time (gports t) p) (node_time (gports t) p) (rtc t)) @ w) \<and>
    sends (map (\<lambda>j. (of_nat (j + 1), sync_frame (sync_for (request_at p t j) (syncSequenceId (mdents t ! j)))))
      (filter (\<lambda>j. example_roles ! (j + 1) = MASTER_PORT) [0..<N_PORTS])) (site_eth t) (site_eth u)"
    by (rule started_node_relays[OF idle_node_arrays(3,1,2) t _ _ relay_example(1,2,3) p_def])
      (simp_all add: x css, simp_all add: example_roles_def started_clock_def)
  then show ?thesis using t unfolding f list.map by simp blast
qed

end
