(* ===== verification/CStrings.thy ===== *)
theory CStrings
  imports NetState
begin

text \<open>
  Strings of the C standard library, in arrays of characters: comparison of a prefix, \<open>atoi\<close>, \<open>sprintf\<close> into an array,
  and the loops by which the code cuts a line.
\<close>

abbreviation NUL :: char where "NUL \<equiv> CHR 0x00"

text \<open>\<open>strncmp(b, lit, strlen(lit)) == 0\<close>.\<close>

definition begins :: "string \<Rightarrow> char list \<Rightarrow> bool" where
  "begins lit b \<longleftrightarrow> take (length lit) b = lit"

text \<open>
  \<open>atoi\<close>. A string without an end is read past its array, and a number that does not fit an \<open>int\<close> is undefined.
\<close>

definition is_digit :: "char \<Rightarrow> bool" where
  "is_digit c \<longleftrightarrow> 48 \<le> (of_char c :: nat) \<and> (of_char c :: nat) \<le> 57"

definition is_blank :: "char \<Rightarrow> bool" where
  "is_blank c \<longleftrightarrow> (of_char c :: nat) \<in> {9, 10, 11, 12, 13, 32}"

fun atoi_digits :: "nat \<Rightarrow> char list \<Rightarrow> nat option" where
  "atoi_digits n [] = None"
| "atoi_digits n (c # cs) = (if is_digit c then atoi_digits (10 * n + (of_char c - 48)) cs else Some n)"

definition to_int32 :: "int \<Rightarrow> int option" where
  "to_int32 k = (if - (2 ^ 31) \<le> k \<and> k < 2 ^ 31 then Some k else None)"

fun atoi :: "char list \<Rightarrow> int option" where
  "atoi [] = None"
| "atoi (c # cs) =
     (if is_blank c then atoi cs
      else if c = CHR ''-'' then Option.bind (atoi_digits 0 cs) (\<lambda>n. to_int32 (- int n))
      else if c = CHR ''+'' then Option.bind (atoi_digits 0 cs) (\<lambda>n. to_int32 (int n))
      else Option.bind (atoi_digits 0 (c # cs)) (\<lambda>n. to_int32 (int n)))"

text \<open>\<open>sprintf\<close> of the text \<open>t\<close> into the array \<open>b\<close>.\<close>

definition sprint :: "string \<Rightarrow> char list \<Rightarrow> char list option" where
  "sprint t b = (if length t < length b then Some (t @ NUL # drop (length t + 1) b) else None)"

text \<open>\<open>while (cond(s[i])) i++\<close>, and the same while the characters are copied: reading past the array is a fault.\<close>

fun skip_while :: "(char \<Rightarrow> bool) \<Rightarrow> char list \<Rightarrow> char list option" where
  "skip_while f [] = None"
| "skip_while f (c # cs) = (if f c then skip_while f cs else Some (c # cs))"

fun copy_while :: "(char \<Rightarrow> bool) \<Rightarrow> char list \<Rightarrow> string option" where
  "copy_while f [] = None"
| "copy_while f (c # cs) = (if f c then map_option ((#) c) (copy_while f cs) else Some [])"

lemma skip_while_append: "\<forall>c \<in> set as. f c \<Longrightarrow> \<not> f b \<Longrightarrow> skip_while f (as @ b # cs) = Some (b # cs)"
  by (induction as) auto

lemma copy_while_append: "\<forall>c \<in> set as. f c \<Longrightarrow> \<not> f b \<Longrightarrow> copy_while f (as @ b # cs) = Some as"
  by (induction as) auto

lemma digit_char_digit: "d < 10 \<Longrightarrow> is_digit (digit_char d) \<and> of_char (digit_char d) = 48 + d"
  by (simp add: is_digit_def digit_char_def of_char_of)

lemma atoi_digits_show: "atoi_digits m (show_nat n @ cs) = atoi_digits (m * 10 ^ length (show_nat n) + n) cs"
proof (induction n arbitrary: m cs rule: show_nat.induct)
  case (1 n)
  show ?case
  proof (cases "n < 10")
    case True
    then have "show_nat n = [digit_char n]" by (subst show_nat.simps) simp
    then show ?thesis using True digit_char_digit[of n] by (simp add: ac_simps)
  next
    case False
    then have n: "show_nat n = show_nat (n div 10) @ [digit_char (n mod 10)]" by (subst show_nat.simps) simp
    show ?thesis using 1[OF False] digit_char_digit[of "n mod 10"] by (simp add: n algebra_simps)
  qed
qed

lemma show_nat_digits: "show_nat n \<noteq> [] \<and> (\<forall>c \<in> set (show_nat n). is_digit c)"
proof (induction n rule: show_nat.induct)
  case (1 n)
  then show ?case using digit_char_digit[of n] digit_char_digit[of "n mod 10"]
    by (cases "n < 10") (subst (1 2) show_nat.simps, simp)+
qed

lemma digit_not:
  assumes "is_digit c"
  shows "\<not> is_blank c" "c \<noteq> CHR ''-''" "c \<noteq> CHR ''+''" "c \<noteq> CHR '')''" "c \<noteq> NUL"
  using assms by (auto simp: is_digit_def is_blank_def)

lemma atoi_show:
  assumes "n < 2 ^ 31" "\<not> is_digit c"
  shows "atoi (show_nat n @ c # cs) = Some (int n)"
proof -
  obtain d ds where d: "show_nat n = d # ds" "is_digit d" using show_nat_digits[of n] by (cases "show_nat n") auto
  have "atoi_digits 0 (show_nat n @ c # cs) = Some n" using assms(2) by (simp add: atoi_digits_show)
  then show ?thesis using assms(1) digit_not[OF d(2)] d by (simp add: to_int32_def)
qed

end
