(* ===== verification/Interactive.thy ===== *)
theory Interactive
  imports Server CStrings
begin

text \<open>
  The interactive server (Packetized-PLC-IO/interactive_server.cpp): the text commands by which the editor starts and
  stops the other servers. Its four services have each a run flag, a number (the port, or the polling interval of the
  persistent storage) and the handle of the thread that was created last. Threads that have been created and not yet
  joined are listed; a join of any other thread is undefined. Characters are the bytes of \<open>server_command\<close>.
\<close>

section \<open>State\<close>

datatype service = Modbus_Service | Dnp3_Service | Enip_Service | Pstorage_Service

record svc =
  srv_run :: bool
  srv_number :: "16 word"
  srv_thread :: "nat option"

record iserver =
  services :: "service \<Rightarrow> svc"
  server_command :: "char list"
  command_index :: nat
  processing_command :: bool
  run_openplc :: bool
  start_time :: nat
  ilog :: rlog
  threads :: "(nat \<times> service) list"
  next_thread :: nat
  replies :: "(int \<times> string) list"

definition set_svc :: "service \<Rightarrow> (svc \<Rightarrow> svc) \<Rightarrow> iserver \<Rightarrow> iserver" where
  "set_svc v f s = s\<lparr>services := (services s)(v := f (services s v))\<rparr>"

definition set_run :: "service \<Rightarrow> bool \<Rightarrow> iserver \<Rightarrow> iserver" where
  "set_run v b = set_svc v (srv_run_update (\<lambda>_. b))"

definition set_number :: "service \<Rightarrow> 16 word \<Rightarrow> iserver \<Rightarrow> iserver" where
  "set_number v n = set_svc v (srv_number_update (\<lambda>_. n))"

text \<open>The globals as they are initialised; \<open>main\<close> takes the time of the start.\<close>

definition interactive_init :: "nat \<Rightarrow> rlog \<Rightarrow> iserver" where
  "interactive_init start l =
     \<lparr>services = (\<lambda>v. case v of Modbus_Service \<Rightarrow> \<lparr>srv_run = False, srv_number = 502, srv_thread = None\<rparr>
        | Dnp3_Service \<Rightarrow> \<lparr>srv_run = False, srv_number = 20000, srv_thread = None\<rparr>
        | Enip_Service \<Rightarrow> \<lparr>srv_run = False, srv_number = 44818, srv_thread = None\<rparr>
        | Pstorage_Service \<Rightarrow> \<lparr>srv_run = False, srv_number = 10, srv_thread = None\<rparr>),
      server_command = replicate 1024 NUL, command_index = 0, processing_command = False, run_openplc = True,
      start_time = start, ilog = l, threads = [], next_thread = 0, replies = []\<rparr>"

text \<open>What a command takes from outside: uninitialised stack memory and the time.\<close>

record ienv =
  arg_junk :: "char list"
  end_time :: nat

section \<open>Threads and output\<close>

definition pthread_create :: "service \<Rightarrow> iserver \<Rightarrow> iserver" where
  "pthread_create v s =
     set_svc v (srv_thread_update (\<lambda>_. Some (next_thread s)))
       (s\<lparr>threads := threads s @ [(next_thread s, v)], next_thread := next_thread s + 1\<rparr>)"

text \<open>\<open>pthread_join\<close> of the handle of a service; it returns when the thread has seen its run flag.\<close>

definition pthread_join :: "service \<Rightarrow> iserver \<Rightarrow> iserver option" where
  "pthread_join v s =
     (case srv_thread (services s v) of
        None \<Rightarrow> None
      | Some t \<Rightarrow> if t \<in> fst ` set (threads s) then Some (s\<lparr>threads := filter (\<lambda>x. fst x \<noteq> t) (threads s)\<rparr>) else None)"

definition ilog_line :: "string \<Rightarrow> iserver \<Rightarrow> iserver option" where
  "ilog_line m s = (if length m < 1000 then map_option (\<lambda>l. s\<lparr>ilog := l\<rparr>) (runtime_log m (ilog s)) else None)"

definition reply_raw :: "int \<Rightarrow> string \<Rightarrow> iserver \<Rightarrow> iserver" where
  "reply_raw fd t s = s\<lparr>replies := replies s @ [(fd, t)]\<rparr>"

text \<open>\<open>count_char = sprintf(buffer, ...); write(client_fd, buffer, count_char)\<close>, the buffer being the command itself.\<close>

definition reply :: "int \<Rightarrow> string \<Rightarrow> iserver \<Rightarrow> iserver option" where
  "reply fd t s = map_option (\<lambda>b. reply_raw fd t (s\<lparr>server_command := b\<rparr>)) (sprint t (server_command s))"

section \<open>Commands\<close>

text \<open>\<open>junk\<close> is what the uninitialised array \<open>argument\<close> holds: without an argument, that is what is read.\<close>

definition readCommandArgument :: "char list \<Rightarrow> char list \<Rightarrow> int option" where
  "readCommandArgument junk command = do {
     cs \<leftarrow> skip_while (\<lambda>c. c \<noteq> CHR ''('' \<and> c \<noteq> NUL) command;
     let cs = (case cs of [] \<Rightarrow> [] | c # cs' \<Rightarrow> if c = CHR ''('' then cs' else cs);
     a \<leftarrow> copy_while (\<lambda>c. c \<noteq> CHR '')'' \<and> c \<noteq> NUL) cs;
     (if a = [] then atoi junk else Option.bind (sprint a junk) atoi)
   }"

definition title :: "service \<Rightarrow> string" where
  "title v = (case v of Modbus_Service \<Rightarrow> ''Modbus server'' | Dnp3_Service \<Rightarrow> ''DNP3 server''
     | Enip_Service \<Rightarrow> ''EtherNet/IP server'' | Pstorage_Service \<Rightarrow> ''Persistent Storage server'')"

definition short_name :: "service \<Rightarrow> string" where
  "short_name v = (case v of Modbus_Service \<Rightarrow> ''modbus'' | Dnp3_Service \<Rightarrow> ''dnp3'' | Enip_Service \<Rightarrow> ''enip''
     | Pstorage_Service \<Rightarrow> ''pstorage'')"

text \<open>The block that stops a server when it runs, which \<open>quit\<close>, \<open>start\<close> and \<open>stop\<close> share.\<close>

definition stop_server :: "service \<Rightarrow> iserver \<Rightarrow> iserver option" where
  "stop_server v s =
     (if srv_run (services s v)
      then do {
        s \<leftarrow> pthread_join v (set_run v False s);
        ilog_line (title v @ '' was stopped'' @ nl) s
      }
      else Some s)"

definition quit_cmd :: "iserver \<Rightarrow> iserver option" where
  "quit_cmd s = do {
     s \<leftarrow> ilog_line (''Issued quit() command'' @ nl) s;
     s \<leftarrow> stop_server Modbus_Service s;
     s \<leftarrow> stop_server Dnp3_Service s;
     Some (s\<lparr>run_openplc := False\<rparr>)
   }"

definition start_cmd :: "service \<Rightarrow> char list \<Rightarrow> iserver \<Rightarrow> iserver option" where
  "start_cmd v junk s = do {
     k \<leftarrow> readCommandArgument junk (server_command s);
     let n = (word_of_int k :: 16 word);
     let s = set_number v n s;
     s \<leftarrow> ilog_line (''Issued start_'' @ short_name v @ ''() command to start on port: '' @ show_nat (unat n) @ nl) s;
     s \<leftarrow> (if srv_run (services s v)
       then Option.bind (ilog_line (title v @ '' already active. Restarting on port: '' @ show_nat (unat n) @ nl) s) (stop_server v)
       else Some s);
     Some (pthread_create v (set_run v True s))
   }"

definition stop_cmd :: "service \<Rightarrow> iserver \<Rightarrow> iserver option" where
  "stop_cmd v s = do {
     s \<leftarrow> ilog_line (''Issued stop_'' @ short_name v @ ''() command'' @ nl) s;
     stop_server v s
   }"

definition start_pstorage_cmd :: "char list \<Rightarrow> iserver \<Rightarrow> iserver option" where
  "start_pstorage_cmd junk s = do {
     k \<leftarrow> readCommandArgument junk (server_command s);
     let n = (word_of_int k :: 16 word);
     let s = set_number Pstorage_Service n s;
     s \<leftarrow> ilog_line (''Issued start_pstorage() command with polling rate of '' @ show_nat (unat n) @ '' seconds'' @ nl) s;
     s \<leftarrow> (if srv_run (services s Pstorage_Service)
       then ilog_line (title Pstorage_Service @ '' already active. Changing polling rate to: '' @ show_nat (unat n) @ nl) s
       else Some s);
     Some (pthread_create Pstorage_Service (set_run Pstorage_Service True s))
   }"

definition stop_pstorage_cmd :: "iserver \<Rightarrow> iserver option" where
  "stop_pstorage_cmd s = do {
     s \<leftarrow> ilog_line (''Issued stop_pstorage() command'' @ nl) s;
     (if srv_run (services s Pstorage_Service)
      then ilog_line (''Persistent Storage thread was stopped'' @ nl) (set_run Pstorage_Service False s)
      else Some s)
   }"

definition exec_time_text :: "nat \<Rightarrow> nat \<Rightarrow> string option" where
  "exec_time_text end start = (if start \<le> end \<and> end - start < 2 ^ 64 then Some (show_nat (end - start) @ nl) else None)"

text \<open>
  The commands in the order in which the code compares them. The last component says whether the answer \<open>OK\<close> follows.
\<close>

definition run_command :: "ienv \<Rightarrow> int \<Rightarrow> iserver \<Rightarrow> (iserver \<times> bool) option" where
  "run_command e fd s =
     (let c = server_command s; ack = map_option (\<lambda>s. (s, True)); no_ack = map_option (\<lambda>s. (s, False)) in
      if begins ''quit()'' c then ack (quit_cmd s)
      else if begins ''start_modbus('' c then ack (start_cmd Modbus_Service (arg_junk e) s)
      else if begins ''stop_modbus()'' c then ack (stop_cmd Modbus_Service s)
      else if begins ''start_dnp3('' c then ack (start_cmd Dnp3_Service (arg_junk e) s)
      else if begins ''stop_dnp3()'' c then ack (stop_cmd Dnp3_Service s)
      else if begins ''start_enip('' c then ack (start_cmd Enip_Service (arg_junk e) s)
      else if begins ''stop_enip()'' c then ack (stop_cmd Enip_Service s)
      else if begins ''start_pstorage('' c then ack (start_pstorage_cmd (arg_junk e) s)
      else if begins ''stop_pstorage()'' c then ack (stop_pstorage_cmd s)
      else if begins ''runtime_logs()'' c then Some (reply_raw fd (log_text (ilog s)) s, False)
      else if begins ''exec_time()'' c
      then no_ack (Option.bind (exec_time_text (end_time e) (start_time s)) (\<lambda>t. reply fd t s))
      else no_ack (reply fd (''Error: unrecognized command'' @ nl) s))"

definition processCommand :: "ienv \<Rightarrow> int \<Rightarrow> iserver \<Rightarrow> iserver option" where
  "processCommand e fd s =
     (if processing_command s then reply fd (''Processing command...'' @ nl) s
      else do {
        (s, okay) \<leftarrow> run_command e fd (s\<lparr>processing_command := True\<rparr>);
        let s = s\<lparr>processing_command := False\<rparr>;
        (if okay then reply fd (''OK'' @ nl) s else Some s)
      })"

section \<open>Messages and connections\<close>

definition put_char :: "char \<Rightarrow> iserver \<Rightarrow> iserver option" where
  "put_char b s = do {
     c \<leftarrow> wr (server_command s) (command_index s) b;
     c \<leftarrow> wr c (command_index s + 1) NUL;
     Some (s\<lparr>server_command := c, command_index := command_index s + 1\<rparr>)
   }"

text \<open>What follows the end of a command in a message is dropped.\<close>

fun processMessage_interactive :: "ienv \<Rightarrow> int \<Rightarrow> char list \<Rightarrow> iserver \<Rightarrow> iserver option" where
  "processMessage_interactive e fd [] s = Some s"
| "processMessage_interactive e fd (b # bs) s =
     (if b = CHR 0x0D \<or> b = CHR 0x0A \<or> command_index s \<ge> 1024
      then map_option (command_index_update (\<lambda>_. 0)) (processCommand e fd s)
      else Option.bind (put_char b s) (processMessage_interactive e fd bs))"

text \<open>What \<open>read(client_fd, buffer, 1024)\<close> gives: characters, or a number that is not positive.\<close>

datatype text_read = Text "char list" | No_Text int

definition listenToClient_interactive :: "text_read \<Rightarrow> int \<times> char list" where
  "listenToClient_interactive r =
     (case r of Text t \<Rightarrow> (int (length t), t @ replicate (1024 - length t) NUL) | No_Text n \<Rightarrow> (n, replicate 1024 NUL))"

fun handleConnections_interactive :: "int \<Rightarrow> (text_read \<times> ienv) list \<Rightarrow> iserver \<Rightarrow> iserver option" where
  "handleConnections_interactive fd [] s = Some s"
| "handleConnections_interactive fd ((r, e) # rs) s =
     (if \<not> run_openplc s then Some s
      else let (messageSize, buffer) = listenToClient_interactive r in
        if messageSize \<le> 0 \<or> messageSize > 1024 then Some s
        else do {
          s \<leftarrow> processMessage_interactive e fd (take (nat messageSize) buffer) s;
          handleConnections_interactive fd rs s
        })"

section \<open>The server\<close>

text \<open>An error of the socket ends the process.\<close>

definition createSocket_interactive :: "sock_env \<Rightarrow> nat \<Rightarrow> iserver \<Rightarrow> (int \<times> iserver) option" where
  "createSocket_interactive e port s =
     (if sk_socket e < 0 then None
      else if sk_bind e < 0 then None
      else do {
        s \<leftarrow> ilog_line (''Interactive Server: Listening on port '' @ show_nat port @ nl) s;
        Some (sk_socket e, s)
      })"

definition waitForClient_interactive :: "(bool \<times> int) list \<Rightarrow> int option \<times> (bool \<times> int) list" where
  "waitForClient_interactive es = accept_loop es None"

text \<open>
  The loop that accepts clients: the clients for which a thread was started, and the last value of \<open>client_fd\<close>, which
  is not initialised when the loop ends before the first client.
\<close>

fun accept_clients :: "nat \<Rightarrow> (bool \<times> int) list \<Rightarrow> int list \<Rightarrow> int option \<Rightarrow> iserver \<Rightarrow> (int list \<times> int option \<times> iserver) option" where
  "accept_clients 0 es clients fd s = Some (clients, fd, s)"
| "accept_clients (Suc fuel) es clients fd s =
     (case es of
        [] \<Rightarrow> Some (clients, fd, s)
      | e # es' \<Rightarrow>
          if \<not> fst e then Some (clients, fd, s)
          else (case waitForClient_interactive es of
              (None, rest) \<Rightarrow> None
            | (Some n, rest) \<Rightarrow>
                if n < 0
                then Option.bind (ilog_line (''Interactive Server: Error accepting client!'' @ nl) s)
                  (accept_clients fuel rest clients (Some n))
                else accept_clients fuel rest (clients @ [n]) (Some n) s))"

text \<open>When the runtime stops: the flags first, then the threads one after the other.\<close>

definition shutdown_servers :: "iserver \<Rightarrow> iserver option" where
  "shutdown_servers s = do {
     let s = set_run Pstorage_Service False (set_run Enip_Service False (set_run Dnp3_Service False (set_run Modbus_Service False s)));
     s \<leftarrow> pthread_join Modbus_Service s;
     s \<leftarrow> pthread_join Dnp3_Service s;
     pthread_join Enip_Service s
   }"

text \<open>\<open>clients_act\<close> is what the threads of the clients do while the server accepts.\<close>

definition startInteractiveServer ::
  "nat \<Rightarrow> sock_env \<Rightarrow> nat \<Rightarrow> (bool \<times> int) list \<Rightarrow> (int list \<Rightarrow> iserver \<Rightarrow> iserver option) \<Rightarrow> iserver \<Rightarrow> iserver option" where
  "startInteractiveServer fuel e port es clients_act s = do {
     (socket_fd, s) \<leftarrow> createSocket_interactive e port s;
     (clients, client_fd, s) \<leftarrow> accept_clients fuel es [] None s;
     s \<leftarrow> clients_act clients s;
     shutdown_servers s
   }"

end
