(* ===== verification/Interactive_Props.thy ===== *)
theory Interactive_Props
  imports Interactive
begin

text \<open>
  The interactive server keeps one thread for each server that runs, assembles a command from any number of reads, and
  sets the port it is given; where a command overflows its array, and why the runtime never stops cleanly.
\<close>

section \<open>Output\<close>

lemma ok_ilog_line:
  assumes "length m < 1000" "log_inv (ilog s)"
  shows "ok (ilog_line m s) (\<lambda>t. \<exists>l. t = s\<lparr>ilog := l\<rparr> \<and> log_inv l)"
proof -
  have "ok (runtime_log m (ilog s)) log_inv" using assms by (intro ok_runtime_log) simp_all
  then show ?thesis using assms by (auto simp: ilog_line_def ok_iff)
qed

lemma ilog_lineE:
  assumes "log_inv (ilog s)" "length m < 1000"
  obtains l where "ilog_line m s = Some (s\<lparr>ilog := l\<rparr>)" "log_inv l"
  using ok_ilog_line[OF assms(2,1)] by (auto simp: ok_iff)

lemma show_u16: "length (show_nat (unat (w :: 16 word))) \<le> 5"
  using unsigned_less[of w, where 'a = nat] by (intro length_show_nat) simp_all

lemma names_short: "length (title v) \<le> 25" "length (short_name v) \<le> 8"
  by (cases v; simp add: title_def short_name_def)+

text \<open>The array of the command, and what a reply leaves in it.\<close>

definition ended :: "char list \<Rightarrow> bool" where
  "ended b \<longleftrightarrow> length b = 1024 \<and> NUL \<in> set b"

lemma sprint_ended: "length b = 1024 \<Longrightarrow> length t < 1024 \<Longrightarrow> \<exists>c. sprint t b = Some c \<and> ended c"
  by (auto simp: sprint_def ended_def)

section \<open>The services\<close>

definition joined_service :: "service \<Rightarrow> bool" where
  "joined_service v \<longleftrightarrow> v \<noteq> Pstorage_Service"

lemma joined_services [simp]: "joined_service Modbus_Service" "joined_service Dnp3_Service" "joined_service Enip_Service" "\<not> joined_service Pstorage_Service"
  by (simp_all add: joined_service_def)

definition of_service :: "service \<Rightarrow> iserver \<Rightarrow> nat list" where
  "of_service v s = map fst (filter (\<lambda>x. snd x = v) (threads s))"

text \<open>A server that runs has exactly one thread, to which its handle points, and one that does not run has none. A handle never points to the thread of another
  server.\<close>

definition services_ok :: "iserver \<Rightarrow> bool" where
  "services_ok s \<longleftrightarrow> distinct (map fst (threads s)) \<and> (\<forall>x \<in> set (threads s). fst x < next_thread s) \<and>
     (\<forall>v. joined_service v \<longrightarrow> of_service v s = (if srv_run (services s v) then [the (srv_thread (services s v))] else []) \<and>
       (srv_run (services s v) \<longrightarrow> srv_thread (services s v) \<noteq> None)) \<and>
     (\<forall>v h. srv_thread (services s v) = Some h \<longrightarrow> h < next_thread s \<and> (\<forall>w. (h, w) \<in> set (threads s) \<longrightarrow> w = v))"

definition iserver_wf :: "iserver \<Rightarrow> bool" where
  "iserver_wf s \<longleftrightarrow> services_ok s \<and> ended (server_command s) \<and> command_index s < 1024 \<and> \<not> processing_command s \<and> log_inv (ilog s)"

lemma services_ok_cong:
  "threads t = threads s \<Longrightarrow> next_thread t = next_thread s \<Longrightarrow> services t = services s \<Longrightarrow> services_ok t = services_ok s"
  by (simp add: services_ok_def of_service_def)

lemma services_ok_simps [simp]:
  "services_ok (s\<lparr>ilog := l\<rparr>) = services_ok s" "services_ok (s\<lparr>server_command := c\<rparr>) = services_ok s"
  "services_ok (s\<lparr>command_index := i\<rparr>) = services_ok s" "services_ok (s\<lparr>processing_command := b\<rparr>) = services_ok s"
  "services_ok (s\<lparr>replies := r\<rparr>) = services_ok s" "services_ok (s\<lparr>run_openplc := b\<rparr>) = services_ok s"
  by (simp_all cong: services_ok_cong add: services_ok_def of_service_def)

lemma services_upd [simp]:
  "services (set_svc v f s) = (services s)(v := f (services s v))" "threads (set_svc v f s) = threads s" "next_thread (set_svc v f s) = next_thread s"
  "server_command (set_svc v f s) = server_command s" "command_index (set_svc v f s) = command_index s" "ilog (set_svc v f s) = ilog s"
  "processing_command (set_svc v f s) = processing_command s" "run_openplc (set_svc v f s) = run_openplc s" "replies (set_svc v f s) = replies s"
  by (simp_all add: set_svc_def)

lemma services_ok_same:
  assumes "threads t = threads s" "next_thread t = next_thread s"
    "\<And>v. srv_run (services t v) = srv_run (services s v)" "\<And>v. srv_thread (services t v) = srv_thread (services s v)"
  shows "services_ok t = services_ok s"
  using assms by (simp add: services_ok_def of_service_def)

lemma number_ok [simp]: "services_ok (set_number v n s) = services_ok s"
  by (rule services_ok_same) (simp_all add: set_number_def)

text \<open>What a step leaves alone apart from the services and the log.\<close>

definition same_command :: "iserver \<Rightarrow> iserver \<Rightarrow> bool" where
  "same_command s t \<longleftrightarrow> server_command t = server_command s \<and> command_index t = command_index s \<and>
     processing_command t = processing_command s \<and> replies t = replies s \<and> start_time t = start_time s"

lemma same_command_refl [simp]: "same_command s s" by (simp add: same_command_def)

lemma same_command_trans: "same_command s t \<Longrightarrow> same_command t u \<Longrightarrow> same_command s u" by (simp add: same_command_def)

text \<open>Stopping a server: its thread is joined and its flag is off; nothing else changes.\<close>

lemma stop_server_ok:
  assumes "services_ok s" "joined_service v" "log_inv (ilog s)"
  shows "ok (stop_server v s) (\<lambda>t. services_ok t \<and> log_inv (ilog t) \<and> \<not> srv_run (services t v) \<and>
    (\<forall>w. w \<noteq> v \<longrightarrow> services t w = services s w \<and> of_service w t = of_service w s) \<and> srv_number (services t v) = srv_number (services s v) \<and>
    run_openplc t = run_openplc s \<and> same_command s t)"
proof (cases "srv_run (services s v)")
  case False
  then show ?thesis using assms by (simp add: stop_server_def)
next
  case True
  let ?s = "set_run v False s"
  obtain h where h: "srv_thread (services s v) = Some h" "of_service v s = [h]"
    using assms True by (force simp: services_ok_def)
  have "h \<in> set (of_service v s)" using h(2) by simp
  then have hv: "(h, v) \<in> set (threads s)" by (auto simp: of_service_def)
  define t where "t = ?s\<lparr>threads := filter (\<lambda>x. fst x \<noteq> h) (threads s)\<rparr>"
  have "h \<in> fst ` set (threads ?s)" using hv by (force simp: set_run_def)
  then have join: "pthread_join v ?s = Some t" using h(1) by (simp add: pthread_join_def t_def set_run_def)
  have only: "x = (h, v)" if "x \<in> set (threads s)" "fst x = h" for x
    using assms(1) that hv by (auto simp: services_ok_def distinct_map inj_on_def)
  have v: "of_service v t = []"
  proof -
    have "snd x \<noteq> v" if "x \<in> set (threads s)" "fst x \<noteq> h" for x
    proof
      assume "snd x = v"
      then have "fst x \<in> set (of_service v s)" using that(1) by (auto simp: of_service_def)
      then show False using h(2) that(2) by simp
    qed
    then show ?thesis by (auto simp: of_service_def t_def filter_empty_conv)
  qed
  have w: "of_service w t = of_service w s" if "w \<noteq> v" for w
  proof -
    have "filter (\<lambda>x. snd x = w) (filter (\<lambda>x. fst x \<noteq> h) (threads s)) = filter (\<lambda>x. snd x = w) (threads s)"
      using only that by (auto simp: intro!: filter_cong)
    then show ?thesis by (simp add: of_service_def t_def)
  qed
  have d: "distinct (map fst (threads t))" "\<forall>x \<in> set (threads t). fst x < next_thread t"
    using assms(1) by (auto simp: services_ok_def t_def set_run_def distinct_map_filter)
  have sv: "services t = (services s)(v := (services s v)\<lparr>srv_run := False\<rparr>)" by (simp add: t_def set_run_def)
  have "srv_thread (services t u) = srv_thread (services s u)" "next_thread t = next_thread s" "set (threads t) \<subseteq> set (threads s)" for u
    by (auto simp: sv t_def set_run_def)
  then have e: "h < next_thread t \<and> (\<forall>w. (h, w) \<in> set (threads t) \<longrightarrow> w = u)" if "srv_thread (services t u) = Some h" for u h
    using assms(1) that unfolding services_ok_def by (metis subsetD)
  have j: "of_service u t = (if srv_run (services t u) then [the (srv_thread (services t u))] else []) \<and>
      (srv_run (services t u) \<longrightarrow> srv_thread (services t u) \<noteq> None)" if "joined_service u" for u
    using v w[of u] that assms(1) by (cases "u = v"; simp add: sv services_ok_def)
  have ok: "services_ok t" unfolding services_ok_def using d j e by blast
  have "log_inv (ilog t)" using assms(3) by (simp add: t_def set_run_def)
  moreover have "length (title v @ '' was stopped'' @ nl) < 1000" using names_short(1)[of v] by (simp add: nl_def)
  ultimately obtain l where l: "ilog_line (title v @ '' was stopped'' @ nl) t = Some (t\<lparr>ilog := l\<rparr>)" "log_inv l" by (rule ilog_lineE)
  have run: "stop_server v s = Some (t\<lparr>ilog := l\<rparr>)" using True join l(1) by (simp add: stop_server_def)
  have same: "same_command s t" "run_openplc t = run_openplc s" by (simp_all add: t_def same_command_def set_run_def set_svc_def)
  have "of_service u (t\<lparr>ilog := l\<rparr>) = of_service u t" "same_command s (t\<lparr>ilog := l\<rparr>) = same_command s t" for u
    by (simp_all add: of_service_def same_command_def)
  then show ?thesis unfolding run using ok w l(2) same by (simp add: sv)
qed

text \<open>Creating a thread for a service that has none.\<close>

lemma create_ok:
  assumes "services_ok s" "joined_service v \<Longrightarrow> of_service v s = []"
  shows "services_ok (pthread_create v (set_run v True s))"
proof -
  let ?t = "pthread_create v (set_run v True s)"
  have th: "threads ?t = threads s @ [(next_thread s, v)]" "next_thread ?t = next_thread s + 1"
    by (simp_all add: pthread_create_def set_run_def)
  have sv: "services ?t = (services s)(v := (services s v)\<lparr>srv_run := True, srv_thread := Some (next_thread s)\<rparr>)"
    by (simp add: pthread_create_def set_run_def)
  have fresh: "next_thread s \<notin> fst ` set (threads s)" using assms(1) by (auto simp: services_ok_def)
  have "distinct (map fst (threads ?t))" "\<forall>x \<in> set (threads ?t). fst x < next_thread ?t"
    unfolding th using assms(1) fresh by (auto simp: services_ok_def)
  moreover have "of_service u ?t = of_service u s @ (if u = v then [next_thread s] else [])" for u by (simp add: of_service_def th)
  moreover have "h < next_thread ?t \<and> (\<forall>w. (h, w) \<in> set (threads ?t) \<longrightarrow> w = u)" if "srv_thread (services ?t u) = Some h" for u h
  proof (cases "u = v")
    case True
    then show ?thesis using that fresh unfolding sv th by (auto simp: image_iff)
  next
    case False
    then have "h < next_thread s \<and> (\<forall>w. (h, w) \<in> set (threads s) \<longrightarrow> w = u)" using that assms(1) by (simp add: sv services_ok_def)
    then show ?thesis unfolding th by auto
  qed
  ultimately show ?thesis
    using assms unfolding services_ok_def[of ?t] by (auto simp: sv services_ok_def)
qed

section \<open>Commands\<close>

lemma number_simps [simp]:
  "services (set_number v n s) w = (if w = v then (services s v)\<lparr>srv_number := n\<rparr> else services s w)" "threads (set_number v n s) = threads s"
  "of_service w (set_number v n s) = of_service w s" "same_command r (set_number v n s) = same_command r s" "ilog (set_number v n s) = ilog s"
  "run_openplc (set_number v n s) = run_openplc s"
  by (simp_all add: set_number_def of_service_def same_command_def set_svc_def)

lemma same_command_from [simp]:
  "same_command (s\<lparr>ilog := l\<rparr>) t = same_command s t" "same_command (set_number v n s) t = same_command s t"
  by (simp_all add: same_command_def set_number_def set_svc_def)

lemma ilog_simps [simp]:
  "of_service w (s\<lparr>ilog := l\<rparr>) = of_service w s" "same_command r (s\<lparr>ilog := l\<rparr>) = same_command r s"
  by (simp_all add: of_service_def same_command_def)

lemma create_simps [simp]:
  "services (pthread_create v s) = (services s)(v := (services s v)\<lparr>srv_thread := Some (next_thread s)\<rparr>)"
  "of_service w (pthread_create v s) = of_service w s @ (if w = v then [next_thread s] else [])"
  "same_command r (pthread_create v s) = same_command r s" "ilog (pthread_create v s) = ilog s" "run_openplc (pthread_create v s) = run_openplc s"
  by (simp_all add: pthread_create_def of_service_def same_command_def set_svc_def)

lemma run_simps [simp]:
  "services (set_run v b s) = (services s)(v := (services s v)\<lparr>srv_run := b\<rparr>)" "threads (set_run v b s) = threads s"
  "of_service w (set_run v b s) = of_service w s" "same_command r (set_run v b s) = same_command r s" "ilog (set_run v b s) = ilog s"
  "run_openplc (set_run v b s) = run_openplc s" "next_thread (set_run v b s) = next_thread s"
  by (simp_all add: set_run_def of_service_def same_command_def set_svc_def)

text \<open>What a command leaves alone: the other services and the state of the protocol.\<close>

definition command_done :: "service \<Rightarrow> iserver \<Rightarrow> iserver \<Rightarrow> bool" where
  "command_done v s t \<longleftrightarrow> services_ok t \<and> log_inv (ilog t) \<and> same_command s t \<and> run_openplc t = run_openplc s \<and>
     (\<forall>w. w \<noteq> v \<longrightarrow> services t w = services s w \<and> of_service w t = of_service w s)"

lemma stop_done:
  assumes "services_ok s" "joined_service v" "log_inv (ilog s)"
  obtains t where "stop_server v s = Some t" "command_done v s t" "\<not> srv_run (services t v)" "srv_number (services t v) = srv_number (services s v)"
    "of_service v t = []"
proof -
  obtain t where t: "stop_server v s = Some t" "command_done v s t" "\<not> srv_run (services t v)" "srv_number (services t v) = srv_number (services s v)"
    using stop_server_ok[OF assms] by (auto simp: ok_iff command_done_def)
  then show thesis using that assms(2) by (auto simp: command_done_def services_ok_def)
qed

lemma start_done:
  assumes s: "services_ok s" "joined_service v" "log_inv (ilog s)" and k: "readCommandArgument junk (server_command s) = Some k"
  obtains t where "start_cmd v junk s = Some t" "command_done v s t" "srv_run (services t v)" "srv_number (services t v) = word_of_int k"
    "\<exists>h. of_service v t = [h]"
proof -
  let ?n = "word_of_int k :: 16 word"
  let ?m = "''Issued start_'' @ short_name v @ ''() command to start on port: '' @ show_nat (unat ?n) @ nl"
  let ?a = "title v @ '' already active. Restarting on port: '' @ show_nat (unat ?n) @ nl"
  have m: "length ?m < 1000" "length ?a < 1000" using names_short[of v] show_u16[of ?n] by (simp_all add: nl_def)
  let ?s = "set_number v ?n s"
  have "log_inv (ilog ?s)" using s(3) by simp
  from ilog_lineE[OF this m(1)] obtain l where l: "ilog_line ?m ?s = Some (?s\<lparr>ilog := l\<rparr>)" "log_inv l" .
  let ?s1 = "?s\<lparr>ilog := l\<rparr>"
  have s1: "services_ok ?s1" using s(1) by simp
  show thesis
  proof (cases "srv_run (services s v)")
    case False
    then have none: "of_service v ?s1 = []" using s(1,2) by (auto simp: services_ok_def)
    let ?t = "pthread_create v (set_run v True ?s1)"
    have "start_cmd v junk s = Some ?t" using False l(1) by (simp add: start_cmd_def k Let_def)
    moreover have "services_ok ?t" by (rule create_ok[OF s1]) (rule none)
    then have "command_done v s ?t" using l(2) by (simp add: command_done_def)
    ultimately show thesis using none by (intro that[of ?t]) simp_all
  next
    case True
    have "log_inv (ilog ?s1)" using l(2) by simp
    from ilog_lineE[OF this m(2)] obtain l2 where l2: "ilog_line ?a ?s1 = Some (?s1\<lparr>ilog := l2\<rparr>)" "log_inv l2" .
    let ?s2 = "?s1\<lparr>ilog := l2\<rparr>"
    obtain u where u: "stop_server v ?s2 = Some u" "command_done v ?s2 u" "srv_number (services u v) = ?n" "of_service v u = []"
      by (rule stop_done[of ?s2 v]) (use s l2(2) in auto)
    let ?t = "pthread_create v (set_run v True u)"
    have "start_cmd v junk s = Some ?t" using True l(1) l2(1) u(1) by (simp add: start_cmd_def k Let_def)
    moreover have "services_ok ?t" using u(2,4) by (intro create_ok) (simp_all add: command_done_def)
    then have "command_done v s ?t" using u(2) by (simp add: command_done_def)
    ultimately show thesis using u(3,4) by (intro that[of ?t]) simp_all
  qed
qed

lemma stop_cmd_done:
  assumes "services_ok s" "joined_service v" "log_inv (ilog s)"
  obtains t where "stop_cmd v s = Some t" "command_done v s t" "\<not> srv_run (services t v)" "of_service v t = []"
proof -
  have "length (''Issued stop_'' @ short_name v @ ''() command'' @ nl) < 1000" using names_short[of v] by (simp add: nl_def)
  from ilog_lineE[OF assms(3) this] obtain l where l: "ilog_line (''Issued stop_'' @ short_name v @ ''() command'' @ nl) s = Some (s\<lparr>ilog := l\<rparr>)" "log_inv l" .
  obtain t where "stop_server v (s\<lparr>ilog := l\<rparr>) = Some t" "command_done v (s\<lparr>ilog := l\<rparr>) t" "\<not> srv_run (services t v)" "of_service v t = []"
    by (rule stop_done[of "s\<lparr>ilog := l\<rparr>" v]) (use assms l(2) in auto)
  then show thesis using l(1) by (intro that[of t]) (auto simp: stop_cmd_def command_done_def)
qed

lemma quit_done:
  assumes "services_ok s" "log_inv (ilog s)"
  obtains t where "quit_cmd s = Some t" "services_ok t" "log_inv (ilog t)" "same_command s t" "\<not> run_openplc t" "\<not> srv_run (services t Modbus_Service)"
    "\<not> srv_run (services t Dnp3_Service)"
proof -
  have "length (''Issued quit() command'' @ nl) < 1000" by (simp add: nl_def)
  from ilog_lineE[OF assms(2) this] obtain l where l: "ilog_line (''Issued quit() command'' @ nl) s = Some (s\<lparr>ilog := l\<rparr>)" "log_inv l" .
  obtain t where t: "stop_server Modbus_Service (s\<lparr>ilog := l\<rparr>) = Some t" "command_done Modbus_Service (s\<lparr>ilog := l\<rparr>) t" "\<not> srv_run (services t Modbus_Service)"
    by (rule stop_done[of "s\<lparr>ilog := l\<rparr>" Modbus_Service]) (use assms l(2) in auto)
  obtain u where u: "stop_server Dnp3_Service t = Some u" "command_done Dnp3_Service t u" "\<not> srv_run (services u Dnp3_Service)"
    by (rule stop_done[of t Dnp3_Service]) (use t(2) in \<open>auto simp: command_done_def\<close>)
  have "quit_cmd s = Some (u\<lparr>run_openplc := False\<rparr>)" unfolding quit_cmd_def l(1) by (simp add: t(1) u(1))
  then show thesis
    using u(2,3) t(2,3) same_command_trans[of s t u] by (intro that[of "u\<lparr>run_openplc := False\<rparr>"]) (auto simp: command_done_def same_command_def)
qed

lemma start_pstorage_done:
  assumes s: "services_ok s" "log_inv (ilog s)" and k: "readCommandArgument junk (server_command s) = Some k"
  obtains t where "start_pstorage_cmd junk s = Some t" "command_done Pstorage_Service s t" "srv_number (services t Pstorage_Service) = word_of_int k"
    "of_service Pstorage_Service t = of_service Pstorage_Service s @ [next_thread s]"
proof -
  let ?n = "word_of_int k :: 16 word"
  let ?m = "''Issued start_pstorage() command with polling rate of '' @ show_nat (unat ?n) @ '' seconds'' @ nl"
  let ?a = "title Pstorage_Service @ '' already active. Changing polling rate to: '' @ show_nat (unat ?n) @ nl"
  have m: "length ?m < 1000" "length ?a < 1000" using names_short[of Pstorage_Service] show_u16[of ?n] by (simp_all add: nl_def)
  let ?s = "set_number Pstorage_Service ?n s"
  have "log_inv (ilog ?s)" using s(2) by simp
  from ilog_lineE[OF this m(1)] obtain l where l: "ilog_line ?m ?s = Some (?s\<lparr>ilog := l\<rparr>)" "log_inv l" .
  have "log_inv (ilog (?s\<lparr>ilog := l\<rparr>))" using l(2) by simp
  from ilog_lineE[OF this m(2)] obtain l2 where l2: "ilog_line ?a (?s\<lparr>ilog := l\<rparr>) = Some (?s\<lparr>ilog := l2\<rparr>)" "log_inv l2" by (auto)
  define l3 where "l3 = (if srv_run (services s Pstorage_Service) then l2 else l)"
  let ?u = "?s\<lparr>ilog := l3\<rparr>"
  let ?t = "pthread_create Pstorage_Service (set_run Pstorage_Service True ?u)"
  have l3: "log_inv l3" using l(2) l2(2) by (simp add: l3_def)
  have "start_pstorage_cmd junk s = Some ?t" using l(1) l2(1) by (simp add: start_pstorage_cmd_def k Let_def l3_def)
  moreover have "services_ok ?t" using s(1) by (intro create_ok) simp_all
  then have "command_done Pstorage_Service s ?t" using l3 by (simp add: command_done_def)
  moreover have "next_thread ?u = next_thread s" by (simp add: set_number_def)
  ultimately show thesis by (intro that[of ?t]) simp_all
qed

lemma stop_pstorage_done:
  assumes "services_ok s" "log_inv (ilog s)"
  obtains t where "stop_pstorage_cmd s = Some t" "command_done Pstorage_Service s t"
proof -
  have m: "length (''Issued stop_pstorage() command'' @ nl) < 1000" "length (''Persistent Storage thread was stopped'' @ nl) < 1000" by (simp_all add: nl_def)
  from ilog_lineE[OF assms(2) m(1)] obtain l where l: "ilog_line (''Issued stop_pstorage() command'' @ nl) s = Some (s\<lparr>ilog := l\<rparr>)" "log_inv l" .
  let ?r = "set_run Pstorage_Service False (s\<lparr>ilog := l\<rparr>)"
  have "log_inv (ilog ?r)" using l(2) by simp
  from ilog_lineE[OF this m(2)] obtain l2 where l2: "ilog_line (''Persistent Storage thread was stopped'' @ nl) ?r = Some (?r\<lparr>ilog := l2\<rparr>)" "log_inv l2" .
  have "services_ok (?r\<lparr>ilog := l2\<rparr>)" using assms(1) by (auto simp: services_ok_def joined_service_def of_service_def)
  then have "command_done Pstorage_Service s (?r\<lparr>ilog := l2\<rparr>)" "command_done Pstorage_Service s (s\<lparr>ilog := l\<rparr>)"
    using assms l(2) l2(2) by (simp_all add: command_done_def)
  moreover have "stop_pstorage_cmd s = Some (if srv_run (services s Pstorage_Service) then ?r\<lparr>ilog := l2\<rparr> else s\<lparr>ilog := l\<rparr>)"
    unfolding stop_pstorage_cmd_def l(1) by (simp only: bind.bind_lunit l2(1)) simp
  ultimately show thesis by (cases "srv_run (services s Pstorage_Service)") (auto intro: that)
qed

text \<open>
  What a command needs to have a result: the commands that start a server a number of \<open>int\<close> as their argument, and
  \<open>exec_time\<close> a clock that does not run back.
\<close>

definition has_argument :: "ienv \<Rightarrow> iserver \<Rightarrow> bool" where
  "has_argument e s \<longleftrightarrow> readCommandArgument (arg_junk e) (server_command s) \<noteq> None"

definition command_defined :: "ienv \<Rightarrow> iserver \<Rightarrow> bool" where
  "command_defined e s \<longleftrightarrow>
     ((\<exists>v. begins (''start_'' @ short_name v @ ''('') (server_command s)) \<longrightarrow> has_argument e s) \<and>
     (begins ''exec_time()'' (server_command s) \<longrightarrow> start_time s \<le> end_time e \<and> end_time e - start_time s < 2 ^ 64)"

lemma command_kept [simp]:
  "services_ok (reply_raw fd t s) = services_ok s" "log_inv (ilog (reply_raw fd t s)) = log_inv (ilog s)"
  "command_index (reply_raw fd t s) = command_index s" "processing_command (reply_raw fd t s) = processing_command s"
  "server_command (reply_raw fd t s) = server_command s" "run_openplc (reply_raw fd t s) = run_openplc s"
  by (simp_all add: reply_raw_def)

lemma reply_ok:
  assumes "length (server_command s) = 1024" "length t < 1024"
  shows "ok (reply fd t s) (\<lambda>u. ended (server_command u) \<and> services u = services s \<and> services_ok u = services_ok s \<and> ilog u = ilog s \<and>
    command_index u = command_index s \<and> processing_command u = processing_command s \<and> run_openplc u = run_openplc s \<and>
    replies u = replies s @ [(fd, t)] \<and> (\<forall>v. of_service v u = of_service v s) \<and> threads u = threads s)"
  using sprint_ended[OF assms] by (auto simp: reply_def ok_iff reply_raw_def of_service_def)

text \<open>What holds after a command has run, before the answer.\<close>

definition ran :: "iserver \<Rightarrow> iserver \<Rightarrow> bool" where
  "ran s t \<longleftrightarrow> services_ok t \<and> log_inv (ilog t) \<and> command_index t = command_index s \<and> processing_command t = processing_command s \<and>
     ended (server_command t) \<and> (\<not> begins ''quit()'' (server_command s) \<longrightarrow> run_openplc t = run_openplc s)"

lemma ran_done: "command_done v s t \<Longrightarrow> ended (server_command s) \<Longrightarrow> ran s t"
  by (simp add: ran_def command_done_def same_command_def)

lemma start_names:
  "''start_'' @ short_name Modbus_Service @ ''('' = ''start_modbus(''" "''start_'' @ short_name Dnp3_Service @ ''('' = ''start_dnp3(''"
  "''start_'' @ short_name Enip_Service @ ''('' = ''start_enip(''" "''start_'' @ short_name Pstorage_Service @ ''('' = ''start_pstorage(''"
  by (simp_all add: short_name_def)

lemma run_command_ok:
  assumes s: "services_ok s" "log_inv (ilog s)" "ended (server_command s)" and d: "command_defined e s"
  shows "ok (run_command e fd s) (\<lambda>(t, b). ran s t)"
proof -
  have arg: "ok (readCommandArgument (arg_junk e) (server_command s)) (\<lambda>k. True)"
    if "begins (''start_'' @ short_name v @ ''('') (server_command s)" for v
    using d that unfolding command_defined_def has_argument_def ok_True by blast
  have start: "ok (start_cmd v (arg_junk e) s) (ran s)" if "begins (''start_'' @ short_name v @ ''('') (server_command s)" "joined_service v" for v
  proof -
    note b = that
    obtain k where "readCommandArgument (arg_junk e) (server_command s) = Some k" using arg[OF b(1)] by (auto simp: ok_iff)
    from start_done[OF s(1) b(2) s(2) this] show ?thesis using ran_done[OF _ s(3)] by (metis ok_Some)
  qed
  have pst: "ok (start_pstorage_cmd (arg_junk e) s) (ran s)" if "begins (''start_'' @ short_name Pstorage_Service @ ''('') (server_command s)"
  proof -
    note b = that
    obtain k where "readCommandArgument (arg_junk e) (server_command s) = Some k" using arg[OF b] by (auto simp: ok_iff)
    from start_pstorage_done[OF s(1,2) this] show ?thesis using ran_done[OF _ s(3)] by (metis ok_Some)
  qed
  have stop: "ok (stop_cmd v s) (ran s)" if "joined_service v" for v
    using stop_cmd_done[OF s(1) that s(2)] ran_done[OF _ s(3)] by (metis ok_Some)
  have psto: "ok (stop_pstorage_cmd s) (ran s)"
    using stop_pstorage_done[OF s(1,2)] ran_done[OF _ s(3)] by (metis ok_Some)
  obtain q where "quit_cmd s = Some q" "services_ok q" "log_inv (ilog q)" "same_command s q" using quit_done[OF s(1,2)] .
  then have quit: "ok (quit_cmd s) (ran s)" if "begins ''quit()'' (server_command s)" using s(3) that by (simp add: ran_def same_command_def)
  have len: "length (server_command s) = 1024" using s(3) by (simp add: ended_def)
  have answer: "ok (reply fd m s) (ran s)" if "length m < 1024" for m
    using reply_ok[OF len that, of fd] s by (auto simp: ran_def ok_iff)
  let ?t = "show_nat (end_time e - start_time s) @ nl"
  have time: "ok (Option.bind (exec_time_text (end_time e) (start_time s)) (\<lambda>t. reply fd t s)) (ran s)" if "begins ''exec_time()'' (server_command s)"
  proof -
    have t: "start_time s \<le> end_time e" "end_time e - start_time s < 2 ^ 64" using d that by (simp_all add: command_defined_def)
    have "length (show_nat (end_time e - start_time s)) \<le> 20" using t(2) by (intro length_show_nat) simp_all
    then have "length ?t < 1024" by (simp add: nl_def)
    then show ?thesis using t answer[of ?t] by (simp add: exec_time_text_def)
  qed
  have err: "ok (reply fd (''Error: unrecognized command'' @ nl) s) (ran s)" by (rule answer) (simp add: nl_def)
  have logs: "ran s (reply_raw fd (log_text (ilog s)) s)" using s by (simp add: ran_def)
  note starts = start[OF _ joined_services(1), unfolded start_names] start[OF _ joined_services(2), unfolded start_names]
    start[OF _ joined_services(3), unfolded start_names] pst[unfolded start_names]
  show ?thesis
    unfolding run_command_def Let_def
    using starts stop[OF joined_services(1)] stop[OF joined_services(2)] stop[OF joined_services(3)] psto quit time err logs
    by (simp only: ok_if ok_map ok_Some prod.case split: if_split) blast
qed

lemma processCommand_ok:
  assumes s: "iserver_wf s" and d: "command_defined e s"
  shows "ok (processCommand e fd s) (\<lambda>t. iserver_wf t \<and> command_index t = command_index s)"
proof -
  let ?p = "s\<lparr>processing_command := True\<rparr>"
  have "ok (run_command e fd ?p) (\<lambda>(t, b). ran ?p t)"
    by (rule run_command_ok) (use s d in \<open>simp_all add: iserver_wf_def command_defined_def has_argument_def\<close>)
  then obtain t b where t: "run_command e fd ?p = Some (t, b)" "ran ?p t" by (auto simp: ok_iff)
  let ?t = "t\<lparr>processing_command := False\<rparr>"
  have r: "processCommand e fd s = (if b then reply fd (''OK'' @ nl) ?t else Some ?t)"
    using s t(1) by (simp add: processCommand_def iserver_wf_def Let_def)
  have "length (server_command ?t) = 1024" "length (''OK'' @ nl) < 1024" using t(2) by (simp_all add: ran_def ended_def nl_def)
  from reply_ok[OF this, of fd] have "ok (reply fd (''OK'' @ nl) ?t) (\<lambda>u. iserver_wf u \<and> command_index u = command_index s)"
    using t(2) s by (elim ok_weaken) (simp add: ran_def iserver_wf_def)
  moreover have "iserver_wf ?t \<and> command_index ?t = command_index s" using t(2) s by (simp add: ran_def iserver_wf_def)
  ultimately show ?thesis by (simp add: r)
qed

text \<open>A command that returns at all keeps what holds of the server.\<close>

lemma run_command_returned:
  assumes s: "services_ok s" "log_inv (ilog s)" "ended (server_command s)" and r: "run_command e fd s = Some (t, b)"
  shows "ran s t"
proof -
  have start: "ran s t" if "start_cmd v (arg_junk e) s = Some t" "joined_service v" for v
  proof -
    note b = that
    obtain k where "readCommandArgument (arg_junk e) (server_command s) = Some k" using b(1) by (auto simp: start_cmd_def bind_eq_Some_conv)
    from start_done[OF s(1) b(2) s(2) this] show ?thesis using ran_done[OF _ s(3)] b(1) by (metis option.inject)
  qed
  have pst: "ran s t" if "start_pstorage_cmd (arg_junk e) s = Some t"
  proof -
    note b = that
    obtain k where "readCommandArgument (arg_junk e) (server_command s) = Some k" using b by (auto simp: start_pstorage_cmd_def bind_eq_Some_conv)
    from start_pstorage_done[OF s(1,2) this] show ?thesis using ran_done[OF _ s(3)] b by (metis option.inject)
  qed
  have stop: "ran s t" if "stop_cmd v s = Some t" "joined_service v" for v
    using stop_cmd_done[OF s(1) that(2) s(2)] ran_done[OF _ s(3)] that(1) by (metis option.inject)
  have psto: "ran s t" if "stop_pstorage_cmd s = Some t"
    using stop_pstorage_done[OF s(1,2)] ran_done[OF _ s(3)] that by (metis option.inject)
  obtain q where "quit_cmd s = Some q" "services_ok q" "log_inv (ilog q)" "same_command s q" using quit_done[OF s(1,2)] .
  then have quit: "ran s t" if "quit_cmd s = Some t" "begins ''quit()'' (server_command s)" using s(3) that by (simp add: ran_def same_command_def)
  have len: "length (server_command s) = 1024" using s(3) by (simp add: ended_def)
  have answer: "ran s t" if "reply fd m s = Some t" "length m < 1024" for m
    using reply_ok[OF len that(2), of fd] that(1) s by (auto simp: ran_def ok_iff)
  have time: "ran s t" if "Option.bind (exec_time_text (end_time e) (start_time s)) (\<lambda>t. reply fd t s) = Some t"
  proof -
    note b = that
    obtain m where m: "exec_time_text (end_time e) (start_time s) = Some m" "reply fd m s = Some t" using b by (auto simp: bind_eq_Some_conv)
    then have "end_time e - start_time s < 10 ^ 20" "m = show_nat (end_time e - start_time s) @ nl" by (auto simp: exec_time_text_def split: if_splits)
    then have "length m < 1024" using length_show_nat[of "end_time e - start_time s" 20] by (simp add: nl_def)
    then show ?thesis by (rule answer[OF m(2)])
  qed
  have err: "ran s t" if "reply fd (''Error: unrecognized command'' @ nl) s = Some t" by (rule answer[OF that]) (simp add: nl_def)
  have logs: "ran s (reply_raw fd (log_text (ilog s)) s)" using s by (simp add: ran_def)
  show ?thesis
    using r unfolding run_command_def Let_def
    using start[OF _ joined_services(1)] start[OF _ joined_services(2)] start[OF _ joined_services(3)] pst
      stop[OF _ joined_services(1)] stop[OF _ joined_services(2)] stop[OF _ joined_services(3)] psto quit time err logs
    by (simp only: map_option_eq_Some prod.inject option.inject split: if_split_asm) blast+
qed

lemma processCommand_returned:
  assumes s: "iserver_wf s" and r: "processCommand e fd s = Some t"
  shows "iserver_wf t \<and> command_index t = command_index s \<and> (\<not> begins ''quit()'' (server_command s) \<longrightarrow> run_openplc t = run_openplc s)"
proof -
  let ?p = "s\<lparr>processing_command := True\<rparr>"
  obtain u b where u: "run_command e fd ?p = Some (u, b)" using s r by (auto simp: processCommand_def iserver_wf_def bind_eq_Some_conv)
  have "ran ?p u" by (rule run_command_returned[OF _ _ _ u]) (use s in \<open>simp_all add: iserver_wf_def\<close>)
  let ?t = "u\<lparr>processing_command := False\<rparr>"
  have q: "processCommand e fd s = (if b then reply fd (''OK'' @ nl) ?t else Some ?t)"
    using s u by (simp add: processCommand_def iserver_wf_def Let_def)
  have "length (server_command ?t) = 1024" "length (''OK'' @ nl) < 1024" using \<open>ran ?p u\<close> by (simp_all add: ran_def ended_def nl_def)
  from reply_ok[OF this, of fd] have "ok (reply fd (''OK'' @ nl) ?t) (\<lambda>u. iserver_wf u \<and> command_index u = command_index s \<and>
      (\<not> begins ''quit()'' (server_command s) \<longrightarrow> run_openplc u = run_openplc s))"
    using \<open>ran ?p u\<close> s by (elim ok_weaken) (simp add: ran_def iserver_wf_def)
  moreover have "iserver_wf ?t \<and> command_index ?t = command_index s \<and> (\<not> begins ''quit()'' (server_command s) \<longrightarrow> run_openplc ?t = run_openplc s)"
    using \<open>ran ?p u\<close> s by (simp add: ran_def iserver_wf_def)
  ultimately show ?thesis using r unfolding q by (auto simp: ok_iff split: if_splits)
qed

section \<open>Messages\<close>

lemma put_char_returned:
  assumes "iserver_wf s" "put_char b s = Some t"
  shows "iserver_wf t"
proof -
  let ?i = "command_index s"
  have l: "length (server_command s) = 1024" "?i + 1 < 1024"
    using assms by (auto simp: iserver_wf_def ended_def put_char_def wr_def bind_eq_Some_conv split: if_splits)
  then have t: "t = s\<lparr>server_command := (server_command s)[?i := b, ?i + 1 := NUL], command_index := ?i + 1\<rparr>"
    using assms(2) by (auto simp: put_char_def wr_def split: if_splits)
  have "(server_command s)[?i := b, ?i + 1 := NUL] ! (?i + 1) = NUL" using l by simp
  then have "NUL \<in> set ((server_command s)[?i := b, ?i + 1 := NUL])" using l by (metis length_list_update nth_mem)
  then show ?thesis using assms(1) l unfolding t by (simp add: iserver_wf_def ended_def)
qed

lemma message_returned: "iserver_wf s \<Longrightarrow> processMessage_interactive e fd bs s = Some t \<Longrightarrow> iserver_wf t"
proof (induction bs arbitrary: s)
  case Nil
  then show ?case by simp
next
  case (Cons b bs)
  show ?case
  proof (cases "b = CHR 0x0D \<or> b = CHR 0x0A \<or> command_index s \<ge> 1024")
    case True
    then obtain u where u: "processCommand e fd s = Some u" "t = u\<lparr>command_index := 0\<rparr>" using Cons.prems(2) by auto
    then show ?thesis using processCommand_returned[OF Cons.prems(1) u(1)] by (simp add: iserver_wf_def)
  next
    case False
    then show ?thesis using Cons put_char_returned by (auto simp: bind_eq_Some_conv)
  qed
qed

text \<open>The characters of a line, stored one by one.\<close>

definition stored :: "char list \<Rightarrow> iserver \<Rightarrow> iserver" where
  "stored cs s = s\<lparr>server_command := (if cs = [] then server_command s
     else take (command_index s) (server_command s) @ cs @ NUL # drop (command_index s + length cs + 1) (server_command s)),
     command_index := command_index s + length cs\<rparr>"

definition plain :: "char list \<Rightarrow> bool" where
  "plain cs \<longleftrightarrow> CHR 0x0D \<notin> set cs \<and> CHR 0x0A \<notin> set cs"

lemma put_char_stored:
  assumes "command_index s + 1 < length (server_command s)"
  shows "put_char b s = Some (stored [b] s)"
proof -
  let ?i = "command_index s" and ?c = "server_command s"
  have "?c[?i := b, ?i + 1 := NUL] = take ?i ?c @ [b, NUL] @ drop (?i + 2) ?c"
    using assms by (simp add: upd_conv_take_nth_drop take_Suc_conv_app_nth[symmetric] Cons_nth_drop_Suc[symmetric])
  then show ?thesis using assms by (simp add: put_char_def wr_def stored_def)
qed

lemma stored_stored:
  assumes "command_index s + length as + length bs < length (server_command s)" "as \<noteq> []"
  shows "stored bs (stored as s) = stored (as @ bs) s"
  using assms by (auto simp: stored_def min_def ac_simps)

lemma stored_bounds:
  "command_index s + length as < length (server_command s) \<Longrightarrow> length (server_command (stored as s)) = length (server_command s)"
  "command_index (stored as s) = command_index s + length as"
  by (auto simp: stored_def min_def)

lemma message_stored:
  assumes "plain cs" "length (server_command s) = 1024" "command_index s + length cs < 1024"
  shows "processMessage_interactive e fd (cs @ rest) s = processMessage_interactive e fd rest (stored cs s)"
  using assms
proof (induction cs arbitrary: s)
  case Nil
  then show ?case by (simp add: stored_def)
next
  case (Cons b cs)
  have p: "put_char b s = Some (stored [b] s)" using Cons.prems by (intro put_char_stored) simp
  have "stored cs (stored [b] s) = stored (b # cs) s" using stored_stored[of s "[b]" cs] Cons.prems by simp
  moreover have "processMessage_interactive e fd (cs @ rest) (stored [b] s) = processMessage_interactive e fd rest (stored cs (stored [b] s))"
    using Cons.prems by (intro Cons.IH) (auto simp: plain_def stored_bounds)
  ultimately show ?case using Cons.prems p by (auto simp: plain_def)
qed

lemma read_text: "length t \<le> 1024 \<Longrightarrow> listenToClient_interactive (Text t) = (int (length t), t @ replicate (1024 - length t) NUL)"
  by (simp add: listenToClient_interactive_def)

lemma connection_read:
  assumes "run_openplc s" "t \<noteq> []" "length t \<le> 1024"
  shows "handleConnections_interactive fd ((Text t, e) # rs) s = Option.bind (processMessage_interactive e fd t s) (handleConnections_interactive fd rs)"
  using assms by (simp add: read_text Let_def not_le)

lemma run_stored [simp]: "run_openplc (stored as s) = run_openplc s"
  by (simp add: stored_def)

text \<open>A line that comes in pieces, each of them in a read of its own.\<close>

lemma connection_pieces:
  assumes "\<forall>p \<in> set ps. p \<noteq> [] \<and> plain p" "length (server_command s) = 1024" "command_index s + length (concat ps) < 1024" "run_openplc s"
  shows "handleConnections_interactive fd (map (\<lambda>p. (Text p, e)) ps @ rs) s = handleConnections_interactive fd rs (if ps = [] then s else stored (concat ps) s)"
  using assms
proof (induction ps arbitrary: s)
  case Nil
  then show ?case by simp
next
  case (Cons p ps)
  have m: "processMessage_interactive e fd p s = Some (stored p s)"
    using message_stored[of p s e fd "[]"] Cons.prems by simp
  have "handleConnections_interactive fd (map (\<lambda>p. (Text p, e)) (p # ps) @ rs) s = handleConnections_interactive fd (map (\<lambda>p. (Text p, e)) ps @ rs) (stored p s)"
    using connection_read[of s p fd e "map (\<lambda>p. (Text p, e)) ps @ rs"] m Cons.prems by simp
  also have "\<dots> = handleConnections_interactive fd rs (if ps = [] then stored p s else stored (concat ps) (stored p s))"
    using Cons.prems by (intro Cons.IH) (simp_all add: stored_bounds)
  finally show ?case using Cons.prems stored_stored[of s p "concat ps"] by simp
qed

text \<open>The state in which a line is executed: the line, its end, and what the array held behind.\<close>

definition with_line :: "char list \<Rightarrow> iserver \<Rightarrow> iserver" where
  "with_line l s = s\<lparr>server_command := l @ NUL # drop (length l + 1) (server_command s), command_index := length l\<rparr>"

lemma line_runs:
  assumes "length (server_command s) = 1024" "command_index s = 0" "run_openplc s"
    and "\<forall>p \<in> set ps. p \<noteq> [] \<and> plain p" "plain q" "concat ps @ q = l" "l \<noteq> []" "length l < 1024"
    and "z = CHR 0x0D \<or> z = CHR 0x0A" "length (q @ z # rest) \<le> 1024"
  shows "handleConnections_interactive fd (map (\<lambda>p. (Text p, e)) ps @ (Text (q @ z # rest), e) # rs) s =
    Option.bind (processCommand e fd (with_line l s)) (\<lambda>t. handleConnections_interactive fd rs (t\<lparr>command_index := 0\<rparr>))"
proof -
  let ?s = "if ps = [] then s else stored (concat ps) s"
  have s: "length (server_command ?s) = 1024" "command_index ?s = length (concat ps)" "run_openplc ?s"
    using assms(1-3,6,8) by (auto simp: stored_bounds)
  have c: "concat ps \<noteq> [] \<or> ps = []" using assms(4) by (cases ps) auto
  have "stored q ?s = stored l s"
  proof (cases "ps = []")
    case False
    then show ?thesis using c stored_stored[of s "concat ps" q] assms(1,2,6,8) by auto
  qed (use assms(6) in simp)
  also have "\<dots> = with_line l s" using assms(2,7) by (simp add: stored_def with_line_def)
  finally have l: "stored q ?s = with_line l s" .
  have len: "command_index ?s + length q < 1024" using s(2) assms(6,8) by auto
  have "processMessage_interactive e fd (q @ z # rest) ?s = map_option (command_index_update (\<lambda>_. 0)) (processCommand e fd (with_line l s))"
    using message_stored[OF assms(5) s(1) len, of e fd "z # rest"] assms(9) by (auto simp: l)
  then have "handleConnections_interactive fd ((Text (q @ z # rest), e) # rs) ?s =
      Option.bind (processCommand e fd (with_line l s)) (\<lambda>t. handleConnections_interactive fd rs (t\<lparr>command_index := 0\<rparr>))"
    using connection_read[OF s(3) _ assms(10), of fd e rs] by (cases "processCommand e fd (with_line l s)") simp_all
  moreover have "length (concat ps) < 1024" using assms(6,8) by auto
  ultimately show ?thesis
    using connection_pieces[OF assms(4,1) _ assms(3), of fd e] assms(2) by simp
qed

text \<open>
  C29. However the network cuts a line of at most 1023 characters, the server runs exactly the command of that line, once;
  what follows the end of the line in the same read is lost.
\<close>

theorem line_assembled:
  assumes "length (server_command s) = 1024" "command_index s = 0" "run_openplc s"
    and "\<forall>p \<in> set ps. p \<noteq> [] \<and> plain p" "plain q" "concat ps @ q = l" "l \<noteq> []" "length l < 1024"
    and "z = CHR 0x0D \<or> z = CHR 0x0A" "length (q @ z # rest) \<le> 1024"
  shows "handleConnections_interactive fd (map (\<lambda>p. (Text p, e)) ps @ (Text (q @ z # rest), e) # rs) s =
    Option.bind (processCommand e fd (with_line l s)) (\<lambda>t. handleConnections_interactive fd rs (t\<lparr>command_index := 0\<rparr>))"
  by (rule line_runs[OF assms])

section \<open>What clients may send\<close>

lemma begins_split: "begins p c \<Longrightarrow> \<exists>d. c = p @ d"
  unfolding begins_def by (metis append_take_drop_id)

text \<open>A command without what it needs has no result.\<close>

lemma command_undefined:
  assumes s: "iserver_wf s" and d: "\<not> command_defined e s"
  shows "processCommand e fd s = None"
proof -
  let ?p = "s\<lparr>processing_command := True\<rparr>"
  have "run_command e fd ?p = None"
  proof (cases "\<exists>v. begins (''start_'' @ short_name v @ ''('') (server_command s) \<and> \<not> has_argument e s")
    case True
    then obtain v c where c: "server_command s = ''start_'' @ short_name v @ ''('' @ c" "readCommandArgument (arg_junk e) (server_command s) = None"
      by (auto simp: has_argument_def dest!: begins_split)
    then show ?thesis
      by (cases v) (simp_all add: run_command_def begins_def short_name_def Let_def start_cmd_def start_pstorage_cmd_def)
  next
    case False
    then obtain c where "server_command s = ''exec_time()'' @ c" "exec_time_text (end_time e) (start_time s) = None"
      using d by (auto simp: command_defined_def exec_time_text_def dest: begins_split)
    then show ?thesis by (simp add: run_command_def begins_def Let_def)
  qed
  then show ?thesis using s by (simp add: processCommand_def iserver_wf_def Let_def)
qed

text \<open>The characters of a read before the end of a line.\<close>

definition before_end :: "char list \<Rightarrow> char list" where
  "before_end cs = takeWhile (\<lambda>b. b \<noteq> CHR 0x0D \<and> b \<noteq> CHR 0x0A) cs"

definition read_fits :: "ienv \<Rightarrow> char list \<Rightarrow> iserver \<Rightarrow> bool" where
  "read_fits e cs s \<longleftrightarrow> command_index s + length (before_end cs) \<le> 1023 \<and>
     (before_end cs \<noteq> cs \<longrightarrow> command_defined e (stored (before_end cs) s))"

lemma plain_before: "plain (before_end cs)"
  by (auto simp: plain_def before_end_def dest: set_takeWhileD)

lemma before_split: "before_end cs = cs \<or> (\<exists>z d. cs = before_end cs @ z # d \<and> (z = CHR 0x0D \<or> z = CHR 0x0A))"
proof (induction cs)
  case (Cons b cs)
  then show ?case by (cases "b = CHR 0x0D \<or> b = CHR 0x0A") (auto simp: before_end_def)
qed (simp add: before_end_def)

lemma stored_wf: "iserver_wf s \<Longrightarrow> plain cs \<Longrightarrow> command_index s + length cs \<le> 1023 \<Longrightarrow> iserver_wf (stored cs s)"
  using message_stored[of cs s undefined undefined "[]"] message_returned[of s undefined undefined cs]
  by (simp add: iserver_wf_def ended_def)

text \<open>A line of more than 1023 characters is written behind the array.\<close>

lemma long_line_overflows:
  assumes "plain cs" "length (server_command s) = 1024" "command_index s \<le> 1023" "1024 \<le> command_index s + length cs"
  shows "processMessage_interactive e fd (cs @ rest) s = None"
proof -
  have n: "1023 - command_index s < length cs" using assms(3,4) by simp
  obtain as b ds where cs: "cs = as @ b # ds" "length as = 1023 - command_index s"
    using id_take_nth_drop[OF n] n by (metis length_take min.absorb4)
  have p: "plain as" "b \<noteq> CHR 0x0D" "b \<noteq> CHR 0x0A" using assms(1) by (auto simp: plain_def cs(1))
  have l: "command_index s + length as = 1023" using assms(3) cs(2) by simp
  have "processMessage_interactive e fd (cs @ rest) s = processMessage_interactive e fd (b # ds @ rest) (stored as s)"
    using message_stored[OF p(1) assms(2), of e fd "b # ds @ rest"] l unfolding cs(1) by simp
  moreover have "put_char b (stored as s) = None" "command_index (stored as s) = 1023"
    using assms(2) l by (simp_all add: put_char_def stored_bounds wr_def)
  ultimately show ?thesis using p(2,3) by simp
qed

lemma message_exact:
  assumes s: "iserver_wf s"
  shows "if read_fits e cs s then \<exists>t. processMessage_interactive e fd cs s = Some t \<and> iserver_wf t else processMessage_interactive e fd cs s = None"
proof -
  let ?l = "before_end cs"
  have c: "length (server_command s) = 1024" "command_index s \<le> 1023" using s by (simp_all add: iserver_wf_def ended_def)
  show ?thesis
  proof (cases "command_index s + length ?l \<le> 1023")
    case False
    obtain d where "cs = ?l @ d" using before_split[of cs] by (metis append_Nil2)
    then have "processMessage_interactive e fd cs s = None"
      using long_line_overflows[OF plain_before c, of cs e fd d] False by simp
    then show ?thesis using False by (simp add: read_fits_def)
  next
    case True
    have w: "iserver_wf (stored ?l s)" by (rule stored_wf[OF s plain_before True])
    have m: "processMessage_interactive e fd (?l @ d) s = processMessage_interactive e fd d (stored ?l s)" for d
      by (rule message_stored[OF plain_before c(1)]) (use True in simp)
    show ?thesis
    proof (cases "?l = cs")
      case same: True
      then have "processMessage_interactive e fd cs s = Some (stored ?l s)" using m[of "[]"] by simp
      then show ?thesis using w True same by (simp add: read_fits_def)
    next
      case False
      then obtain z d where z: "cs = ?l @ z # d" "z = CHR 0x0D \<or> z = CHR 0x0A" using before_split[of cs] by blast
      have r: "processMessage_interactive e fd cs s = map_option (command_index_update (\<lambda>_. 0)) (processCommand e fd (stored ?l s))"
        using m[of "z # d"] z by auto
      show ?thesis
      proof (cases "command_defined e (stored ?l s)")
        case defd: True
        obtain u where u: "processCommand e fd (stored ?l s) = Some u" "iserver_wf u"
          using processCommand_ok[OF w defd, of fd] by (auto simp: ok_iff)
        then have "iserver_wf (u\<lparr>command_index := 0\<rparr>)" by (simp add: iserver_wf_def)
        then show ?thesis using r u(1) True defd by (simp add: read_fits_def)
      next
        case undefd: False
        then show ?thesis using r command_undefined[OF w undefd] False by (simp add: read_fits_def)
      qed
    qed
  qed
qed

text \<open>All the reads of a connection, until it ends or the runtime does.\<close>

fun reads_fit :: "int \<Rightarrow> (text_read \<times> ienv) list \<Rightarrow> iserver \<Rightarrow> bool" where
  "reads_fit fd [] s = True"
| "reads_fit fd ((r, e) # rs) s =
     (let (n, b) = listenToClient_interactive r; cs = take (nat n) b in
      \<not> run_openplc s \<or> n \<le> 0 \<or> n > 1024 \<or>
      read_fits e cs s \<and> (case processMessage_interactive e fd cs s of None \<Rightarrow> False | Some t \<Rightarrow> reads_fit fd rs t))"

lemma connection_exact:
  "iserver_wf s \<Longrightarrow> if reads_fit fd rs s then \<exists>t. handleConnections_interactive fd rs s = Some t \<and> iserver_wf t
    else handleConnections_interactive fd rs s = None"
proof (induction rs arbitrary: s)
  case (Cons x rs)
  obtain r e where x: "x = (r, e)" by (cases x)
  obtain n b where l: "listenToClient_interactive r = (n, b)" by (cases "listenToClient_interactive r")
  show ?case
  proof (cases "run_openplc s \<and> 0 < n \<and> n \<le> 1024")
    case True
    note m = message_exact[OF Cons.prems, of e "take (nat n) b" fd]
    show ?thesis
    proof (cases "read_fits e (take (nat n) b) s")
      case fits: True
      then obtain t where t: "processMessage_interactive e fd (take (nat n) b) s = Some t" "iserver_wf t" using m by auto
      show ?thesis using True fits t(1) Cons.IH[OF t(2)] by (simp add: x l)
    next
      case False
      then show ?thesis using True m by (simp add: x l)
    qed
  next
    case False
    then show ?thesis using Cons.prems by (auto simp: x l)
  qed
qed simp


section \<open>The end of the runtime\<close>

lemma join_stopped:
  assumes "services_ok s" "joined_service v" "\<not> srv_run (services s v)"
  shows "pthread_join v s = None"
proof (cases "srv_thread (services s v)")
  case None
  then show ?thesis by (simp add: pthread_join_def)
next
  case (Some h)
  have "of_service v s = []" using assms by (auto simp: services_ok_def)
  then have "h \<notin> fst ` set (threads s)"
    using assms(1) Some unfolding services_ok_def of_service_def by (force simp: filter_empty_conv)
  then show ?thesis using Some by (simp add: pthread_join_def)
qed

text \<open>
  C32. The runtime never stops cleanly. The command \<open>quit()\<close>, the only one that ends it, stops the Modbus and the DNP3
  server: no thread of either is left. The shutdown then joins the thread of the Modbus server, which either was never
  created or has been joined by the command already: the join is undefined, and the shutdown with it.
\<close>

theorem quit_shutdown_undefined:
  assumes "iserver_wf s" "run_openplc s"
  shows "if begins ''quit()'' (server_command s)
    then \<exists>t. processCommand e fd s = Some t \<and> \<not> run_openplc t \<and> of_service Modbus_Service t = [] \<and> of_service Dnp3_Service t = [] \<and>
      pthread_join Modbus_Service t = None \<and> shutdown_servers t = None
    else \<forall>t. processCommand e fd s = Some t \<longrightarrow> run_openplc t"
proof (cases "begins ''quit()'' (server_command s)")
  case False
  then show ?thesis using processCommand_returned[OF assms(1)] assms(2) by auto
next
  case True
  let ?p = "s\<lparr>processing_command := True\<rparr>"
  obtain q where q: "quit_cmd ?p = Some q" "services_ok q" "log_inv (ilog q)" "same_command ?p q" "\<not> run_openplc q" "\<not> srv_run (services q Modbus_Service)"
    "\<not> srv_run (services q Dnp3_Service)"
    by (rule quit_done[of ?p]) (use assms(1) in \<open>simp_all add: iserver_wf_def\<close>)
  let ?q = "q\<lparr>processing_command := False\<rparr>"
  have "length (server_command ?q) = 1024" "length (''OK'' @ nl) < 1024" using q(4) assms(1) by (simp_all add: same_command_def iserver_wf_def ended_def nl_def)
  from reply_ok[OF this, of fd] obtain t where t: "reply fd (''OK'' @ nl) ?q = Some t" "services t = services q" "threads t = threads q"
    "services_ok t" "\<not> run_openplc t"
    using q(2,5) by (auto simp: ok_iff)
  have "processCommand e fd s = Some t"
    using assms True q(1) t(1) unfolding processCommand_def run_command_def by (simp add: Let_def iserver_wf_def)
  moreover have "of_service Modbus_Service t = []" "of_service Dnp3_Service t = []"
    using t(2,4) q(6,7) by (auto simp: services_ok_def)
  moreover have j: "pthread_join Modbus_Service t = None"
    by (rule join_stopped[OF t(4)]) (use q(6) t(2) in simp_all)
  moreover have "shutdown_servers t = None"
  proof -
    let ?t = "set_run Pstorage_Service False (set_run Enip_Service False (set_run Dnp3_Service False (set_run Modbus_Service False t)))"
    have "srv_thread (services ?t Modbus_Service) = srv_thread (services t Modbus_Service)" "threads ?t = threads t" by simp_all
    then have "pthread_join Modbus_Service ?t = None" using j by (auto simp: pthread_join_def split: option.splits if_splits)
    then show ?thesis by (simp add: shutdown_servers_def Let_def)
  qed
  ultimately show ?thesis using t(5) True by simp
qed

section \<open>Numbers in commands\<close>

lemma start_argument:
  assumes "n < 2 ^ 31" "length junk = 1024"
  shows "readCommandArgument junk (''start_'' @ short_name v @ ''('' @ show_nat n @ '')'' @ cs) = Some (int n)"
proof -
  have "skip_while (\<lambda>c. c \<noteq> CHR ''('' \<and> c \<noteq> NUL) (''start_'' @ short_name v @ ''('' @ show_nat n @ '')'' @ cs) = Some (''('' @ show_nat n @ '')'' @ cs)"
    by (cases v) (simp_all add: short_name_def)
  moreover have "copy_while (\<lambda>c. c \<noteq> CHR '')'' \<and> c \<noteq> NUL) (show_nat n @ '')'' @ cs) = Some (show_nat n)"
    using copy_while_append[of "show_nat n" _ "CHR '')''" cs] show_nat_digits[of n] digit_not(4,5) by auto
  moreover have "length (show_nat n) \<le> 10" using assms(1) by (intro length_show_nat) simp_all
  then have "sprint (show_nat n) junk = Some (show_nat n @ NUL # drop (length (show_nat n) + 1) junk)" using assms(2) by (simp add: sprint_def)
  moreover have "\<not> is_digit NUL" by (simp add: is_digit_def)
  ultimately show ?thesis using show_nat_digits[of n] atoi_show[OF assms(1)]
    by (simp add: readCommandArgument_def Let_def)
qed

lemma start_dispatch:
  assumes "server_command s = ''start_'' @ short_name v @ ''('' @ cs" "joined_service v"
  shows "run_command e fd s = map_option (\<lambda>s. (s, True)) (start_cmd v (arg_junk e) s)"
  using assms by (cases v) (simp_all add: run_command_def begins_def short_name_def Let_def)

text \<open>
  C30. The command that starts a server sets its port to the number it was given, of which only the lower 16 bits count,
  leaves it running with exactly one thread, whether it ran before or not, leaves the other services alone and answers.
\<close>

theorem start_command_effect:
  assumes s: "iserver_wf s" and v: "v \<noteq> Pstorage_Service" and n: "n < 2 ^ 31" "length (arg_junk e) = 1024"
    and c: "server_command s = ''start_'' @ short_name v @ ''('' @ show_nat n @ '')'' @ NUL # cs"
  shows "\<exists>t. processCommand e fd s = Some t \<and> iserver_wf t \<and> srv_run (services t v) \<and> srv_number (services t v) = of_nat n \<and>
    (\<exists>h. of_service v t = [h]) \<and> (\<forall>w. w \<noteq> v \<longrightarrow> services t w = services s w \<and> of_service w t = of_service w s) \<and>
    replies t = replies s @ [(fd, ''OK'' @ nl)]"
proof -
  let ?p = "s\<lparr>processing_command := True\<rparr>"
  have j: "joined_service v" using v by (simp add: joined_service_def)
  have p: "services_ok ?p" "log_inv (ilog ?p)" "readCommandArgument (arg_junk e) (server_command ?p) = Some (int n)"
    using s start_argument[OF n, of v "NUL # cs"] by (simp_all add: iserver_wf_def c)
  obtain u where u: "start_cmd v (arg_junk e) ?p = Some u" "command_done v ?p u" "srv_run (services u v)" "srv_number (services u v) = word_of_int (int n)"
    "\<exists>h. of_service v u = [h]" by (rule start_done[OF p(1) j p(2,3)])
  have r: "run_command e fd ?p = Some (u, True)" using start_dispatch[of ?p v _ e fd] u(1) c j by simp
  let ?u = "u\<lparr>processing_command := False\<rparr>"
  have "length (server_command ?u) = 1024" "length (''OK'' @ nl) < 1024"
    using u(2) s by (simp_all add: command_done_def same_command_def iserver_wf_def ended_def nl_def)
  from reply_ok[OF this, of fd] obtain t where t: "reply fd (''OK'' @ nl) ?u = Some t" "services t = services u" "\<And>w. of_service w t = of_service w ?u"
    "replies t = replies u @ [(fd, ''OK'' @ nl)]" by (auto simp: ok_iff)
  have run: "processCommand e fd s = Some t" using r t(1) s by (simp add: processCommand_def iserver_wf_def Let_def)
  have o: "of_service w ?u = of_service w u" "of_service w ?p = of_service w s" for w by (simp_all add: of_service_def)
  have w: "services u w = services s w \<and> of_service w u = of_service w ?p" if "w \<noteq> v" for w using u(2) that by (simp add: command_done_def)
  have "replies u = replies s" using u(2) by (simp add: command_done_def same_command_def)
  then show ?thesis using run processCommand_returned[OF s run] u(3-5) w t by (simp add: o)
qed

text \<open>The persistent storage is not stopped when it is started again: each command adds a thread.\<close>

lemma pstorage_threads_pile_up:
  assumes "services_ok s" "log_inv (ilog s)" "readCommandArgument junk (server_command s) = Some k"
  shows "\<exists>t. start_pstorage_cmd junk s = Some t \<and> length (of_service Pstorage_Service t) = length (of_service Pstorage_Service s) + 1"
  by (rule start_pstorage_done[OF assms]) simp

section \<open>Examples\<close>

definition idle_server :: iserver where
  "idle_server = interactive_init 0 \<lparr>log_text = [], log_counter = 0\<rparr>"

definition example_env :: ienv where
  "example_env = \<lparr>arg_junk = replicate 1024 NUL, end_time = 7\<rparr>"

lemma idle_server_wf: "iserver_wf idle_server"
  by (auto simp: iserver_wf_def idle_server_def interactive_init_def services_ok_def of_service_def ended_def log_inv_def split: service.splits)

lemma idle_server_line: "length l < 1024 \<Longrightarrow> iserver_wf (with_line l idle_server)"
  by (auto simp: iserver_wf_def with_line_def idle_server_def interactive_init_def services_ok_def of_service_def ended_def log_inv_def split: service.splits)

lemma time_line: "command_defined example_env (with_line ''exec_time()'' idle_server)"
  by (simp add: command_defined_def with_line_def idle_server_def interactive_init_def example_env_def begins_def)

lemma idle_fields: "length (server_command idle_server) = 1024" "command_index idle_server = 0" "run_openplc idle_server"
  by (simp_all add: idle_server_def interactive_init_def)

lemma time_request:
  "\<exists>u. processCommand example_env 5 (with_line ''exec_time()'' idle_server) = Some u \<and>
    handleConnections_interactive 5 [(Text ''exec_'', example_env), (Text (''time()'' @ nl), example_env)] idle_server = Some (u\<lparr>command_index := 0\<rparr>)"
proof -
  have "iserver_wf (with_line ''exec_time()'' idle_server)" by (rule idle_server_line) simp
  from processCommand_ok[OF this time_line, of 5] obtain u where u: "processCommand example_env 5 (with_line ''exec_time()'' idle_server) = Some u" by (auto simp: ok_iff)
  show ?thesis
    using line_runs[OF idle_fields, of "[''exec_'']" "''time()''" "''exec_time()''" "CHR 0x0A" "[]" 5 example_env "[]"] u by (simp add: plain_def nl_def)
qed

lemma time_reads_fit: "reads_fit 5 [(Text ''exec_'', example_env), (Text (''time()'' @ nl), example_env)] idle_server"
proof -
  let ?s = "stored ''exec_'' idle_server"
  have p: "before_end ''exec_'' = ''exec_''" "before_end (''time()'' @ nl) = ''time()''" by (simp_all add: before_end_def nl_def)
  have m: "processMessage_interactive example_env 5 ''exec_'' idle_server = Some ?s"
    using message_stored[of "''exec_''" idle_server example_env 5 "[]"] by (simp add: plain_def idle_fields)
  have i: "command_index ?s = 5" "run_openplc ?s" by (simp_all add: stored_bounds idle_fields)
  have c: "command_defined example_env (stored ''time()'' ?s)"
    by (simp add: stored_def idle_fields command_defined_def begins_def idle_server_def interactive_init_def example_env_def)
  have f: "read_fits example_env ''exec_'' idle_server" "read_fits example_env (''time()'' @ nl) ?s"
    unfolding read_fits_def p using c by (simp_all add: idle_fields i)
  have w: "iserver_wf ?s" by (rule stored_wf[OF idle_server_wf]) (simp_all add: plain_def idle_fields)
  obtain t where t: "processMessage_interactive example_env 5 (''time()'' @ nl) ?s = Some t"
    using message_exact[OF w, of example_env "''time()'' @ nl" 5] f(2) by auto
  show ?thesis using f m t i by (simp add: listenToClient_interactive_def idle_fields nl_def)
qed


text \<open>The line comes in two reads.\<close>

theorem line_assembled_witness:
  "handleConnections_interactive 5 [(Text ''exec_'', example_env), (Text (''time()'' @ nl), example_env)] idle_server =
    Option.bind (processCommand example_env 5 (with_line ''exec_time()'' idle_server)) (\<lambda>t. Some (t\<lparr>command_index := 0\<rparr>))"
  using line_assembled[OF idle_fields, of "[''exec_'']" "''time()''" "''exec_time()''" "CHR 0x0A" "[]" 5 example_env "[]"] by (simp add: plain_def nl_def)

theorem quit_shutdown_undefined_witness:
  "\<exists>t. processCommand example_env 5 (with_line ''quit()'' idle_server) = Some t \<and> \<not> run_openplc t \<and> pthread_join Modbus_Service t = None \<and>
    shutdown_servers t = None"
proof -
  have "run_openplc (with_line ''quit()'' idle_server)" "begins ''quit()'' (server_command (with_line ''quit()'' idle_server))"
    by (simp_all add: with_line_def begins_def idle_fields)
  then show ?thesis using quit_shutdown_undefined[OF idle_server_line, of "''quit()''" example_env 5] by auto
qed

text \<open>Port 65538 is port 2.\<close>

theorem start_command_effect_witness:
  "\<exists>t. processCommand example_env 5 (with_line (''start_modbus('' @ show_nat 65538 @ '')'') idle_server) = Some t \<and>
    srv_run (services t Modbus_Service) \<and> srv_number (services t Modbus_Service) = 2"
proof -
  let ?l = "''start_modbus('' @ show_nat 65538 @ '')''"
  have "length (show_nat 65538) \<le> 5" by (rule length_show_nat) simp_all
  then have w: "iserver_wf (with_line ?l idle_server)" by (intro idle_server_line) simp
  have c: "server_command (with_line ?l idle_server) = ''start_'' @ short_name Modbus_Service @ ''('' @ show_nat 65538 @ '')'' @ NUL #
      drop (length ?l + 1) (server_command idle_server)" by (simp add: with_line_def short_name_def)
  have "word_of_nat 65538 = (2 :: 16 word)" by simp
  then show ?thesis using start_command_effect[OF w _ _ _ c, of example_env 5] by (auto simp: example_env_def)
qed

end
