(* ===== verification/Pstorage.thy ===== *)
theory Pstorage
  imports NetState
begin

text \<open>
  The persistent storage (Packetized-PLC-IO/persistent_storage.cpp): a thread that keeps a copy of the memory words of
  the process image in the file \<open>persistent.file\<close>, and the function that reads it back when the runtime starts. The file
  is a list of bytes, or none; what the system calls do is an argument.
\<close>

section \<open>State\<close>

record pst =
  ps_img :: plc
  ps_lg :: rlog
  ps_file :: "byte list option"
  persistentBuffer :: "16 word list"

text \<open>Whether \<open>fopen\<close> succeeds, and how many items \<open>fwrite\<close> writes.\<close>

record disk =
  can_open :: bool
  items_written :: nat

definition ps_log :: "string \<Rightarrow> pst \<Rightarrow> pst option" where
  "ps_log m s = (if length m < 1000 then map_option (\<lambda>l. s\<lparr>ps_lg := l\<rparr>) (runtime_log m (ps_lg s)) else None)"

text \<open>The words of an array in memory, the lower byte first.\<close>

definition word_bytes :: "16 word list \<Rightarrow> byte list" where
  "word_bytes ws = concat (map (\<lambda>w. [mem_byte w 0, mem_byte w 1]) ws)"

fun bytes_words :: "byte list \<Rightarrow> 16 word list" where
  "bytes_words (l # h # bs) = (push_bit 8 (ucast h) OR ucast l) # bytes_words bs"
| "bytes_words bs = []"

section \<open>The thread\<close>

text \<open>One element: a word of the image that differs is copied, and the buffer is then outdated.\<close>

definition first_copy :: "plc \<Rightarrow> nat \<Rightarrow> 16 word list \<Rightarrow> 16 word list option" where
  "first_copy p i b = do {
     q \<leftarrow> tab_at (int_memory p) i;
     (case q of None \<Rightarrow> Some b | Some a \<Rightarrow> wr b i (uints p a))
   }"

definition compare_word :: "plc \<Rightarrow> nat \<Rightarrow> 16 word list \<times> bool \<Rightarrow> (16 word list \<times> bool) option" where
  "compare_word p i = (\<lambda>(b, bufferOutdated). do {
     q \<leftarrow> tab_at (int_memory p) i;
     (case q of
        None \<Rightarrow> Some (b, bufferOutdated)
      | Some a \<Rightarrow> do {
          v \<leftarrow> rd b i;
          (if v \<noteq> uints p a then map_option (\<lambda>b. (b, True)) (wr b i (uints p a)) else Some (b, bufferOutdated))
        })
   })"

text \<open>The file is truncated when it is opened. The second component says whether the thread goes on.\<close>

definition write_file :: "disk \<Rightarrow> pst \<Rightarrow> (pst \<times> bool) option" where
  "write_file d s =
     (if \<not> can_open d
      then map_option (\<lambda>s. (s, False)) (ps_log (''Persistent Storage: Error creating persistent memory file!'' @ nl) s)
      else
        let s = s\<lparr>ps_file := Some (word_bytes (take (items_written d) (persistentBuffer s)))\<rparr> in
        if items_written d < BUFFER_SIZE
        then map_option (\<lambda>s. (s, False)) (ps_log (''Persistent Storage: Error writing to persistent memory file!'' @ nl) s)
        else Some (s, True))"

text \<open>Reading the image under its lock; the lock is free again afterwards.\<close>

definition start_copy :: "pst \<Rightarrow> pst option" where
  "start_copy s = do {
     p \<leftarrow> lock (ps_img s);
     b \<leftarrow> for_each (first_copy p) [0..<BUFFER_SIZE] (persistentBuffer s);
     p \<leftarrow> unlock p;
     Some (s\<lparr>ps_img := p, persistentBuffer := b\<rparr>)
   }"

definition compare_image :: "pst \<Rightarrow> (pst \<times> bool) option" where
  "compare_image s = do {
     p \<leftarrow> lock (ps_img s);
     (b, bufferOutdated) \<leftarrow> for_each (compare_word p) [0..<BUFFER_SIZE] (persistentBuffer s, False);
     p \<leftarrow> unlock p;
     Some (s\<lparr>ps_img := p, persistentBuffer := b\<rparr>, bufferOutdated)
   }"

definition pstorage_round :: "disk \<Rightarrow> pst \<Rightarrow> (pst \<times> bool) option" where
  "pstorage_round d s = do {
     (s, bufferOutdated) \<leftarrow> compare_image s;
     (if bufferOutdated then write_file d s else Some (s, True))
   }"

text \<open>
  The rounds of the thread: the run flag, the process image as the other threads have left it, and the file system. The
  sleep between rounds has no effect on the state.
\<close>

fun pstorage_loop :: "(bool \<times> plc \<times> disk) list \<Rightarrow> pst \<Rightarrow> pst option" where
  "pstorage_loop [] s = Some s"
| "pstorage_loop ((run_pstorage, p, d) # rs) s =
     (if \<not> run_pstorage then Some s
      else do {
        (s, go_on) \<leftarrow> pstorage_round d (s\<lparr>ps_img := p\<rparr>);
        (if go_on then pstorage_loop rs s else Some s)
      })"

text \<open>\<open>junk\<close> is what the array on the stack holds.\<close>

definition startPstorage :: "16 word list \<Rightarrow> disk \<Rightarrow> (bool \<times> plc \<times> disk) list \<Rightarrow> pst \<Rightarrow> pst option" where
  "startPstorage junk d rs s = do {
     s \<leftarrow> start_copy (s\<lparr>persistentBuffer := junk\<rparr>);
     s \<leftarrow> (if ps_file s = None then ps_log (''Creating Persistent Storage file'' @ nl) s else Some s);
     (s, go_on) \<leftarrow> write_file d s;
     (if go_on then pstorage_loop rs s else Some s)
   }"

section \<open>Reading the file\<close>

definition restore_word :: "16 word list \<Rightarrow> nat \<Rightarrow> plc \<Rightarrow> plc option" where
  "restore_word b i p = do {
     q \<leftarrow> tab_at (int_memory p) i;
     v \<leftarrow> rd b i;
     Some (store_uint q v p)
   }"

definition readPersistentStorage :: "pst \<Rightarrow> pst option" where
  "readPersistentStorage s =
     (case ps_file s of
        None \<Rightarrow> ps_log (''Warning: Persistent Storage file not found'' @ nl) s
      | Some bs \<Rightarrow>
          if length bs div 2 < BUFFER_SIZE
          then ps_log (''Persistent Storage: Error while trying to read persistent.file!'' @ nl) s
          else do {
            s \<leftarrow> ps_log (''Persistent Storage: Reading persistent.file into local buffers'' @ nl) s;
            p \<leftarrow> lock (ps_img s);
            p \<leftarrow> for_each (restore_word (bytes_words bs)) [0..<BUFFER_SIZE] p;
            p \<leftarrow> unlock p;
            Some (s\<lparr>ps_img := p\<rparr>)
          })"

end
