(* ===== verification/Pstorage_Props.thy ===== *)
theory Pstorage_Props
  imports Pstorage
begin

text \<open>
  What is stored comes back after a restart, and when it does not.
\<close>

section \<open>Words and bytes\<close>

lemma two_bytes: "push_bit 8 (ucast (mem_byte w 1)) OR ucast (mem_byte w 0) = (w :: 16 word)"
proof (rule bit_word_eqI)
  fix n assume "n < LENGTH(16)"
  then consider "n < 8" | "8 \<le> n" "n < 16" by (simp, linarith)
  then show "bit (push_bit 8 (ucast (mem_byte w 1)) OR ucast (mem_byte w 0) :: 16 word) n = bit w n"
    by cases (simp_all add: bit_or_iff bit_push_bit_iff bit_mem_byte less_diff_conv2)
qed

lemma words_of_bytes: "bytes_words (word_bytes ws) = ws"
  by (induction ws) (simp_all add: word_bytes_def two_bytes[unfolded One_nat_def])

lemma word_bytes_length: "length (word_bytes ws) = 2 * length ws"
  by (induction ws) (simp_all add: word_bytes_def)

section \<open>The loops\<close>

text \<open>The buffer agrees with the image in its first \<open>n\<close> elements.\<close>

definition agrees :: "nat \<Rightarrow> plc \<Rightarrow> 16 word list \<Rightarrow> bool" where
  "agrees n p b \<longleftrightarrow> length b = BUFFER_SIZE \<and> (\<forall>i < n. \<forall>a. int_memory p i = Some a \<longrightarrow> b ! i = uints p a)"

lemma agrees_write: "agrees i p b \<Longrightarrow> i < 1024 \<Longrightarrow> int_memory p i = Some a \<Longrightarrow> agrees (Suc i) p (b[i := uints p a])"
  by (auto simp: agrees_def less_Suc_eq nth_list_update BUFFER_SIZE_def)

lemma agrees_skip: "agrees i p b \<Longrightarrow> int_memory p i = None \<or> (\<exists>a. int_memory p i = Some a \<and> b ! i = uints p a) \<Longrightarrow> agrees (Suc i) p b"
  by (auto simp: agrees_def less_Suc_eq)

lemma agrees_lock [simp]: "agrees n (p\<lparr>bufferLock := l\<rparr>) b = agrees n p b"
  by (simp add: agrees_def)

lemma first_copies: "length b = BUFFER_SIZE \<Longrightarrow> ok (for_each (first_copy p) [0..<BUFFER_SIZE] b) (agrees BUFFER_SIZE p)"
  by (rule ok_for_upt) (auto simp: agrees_def BUFFER_SIZE_def first_copy_def ok_wr less_Suc_eq nth_list_update split: option.splits)

text \<open>The comparison also says whether anything has changed.\<close>

lemma compared:
  assumes "length b = BUFFER_SIZE"
  shows "ok (for_each (compare_word p) [0..<BUFFER_SIZE] (b, False)) (\<lambda>(c, outdated). agrees BUFFER_SIZE p c \<and> (\<not> outdated \<longrightarrow> c = b))"
proof -
  have "ok (for_each (compare_word p) [0..<BUFFER_SIZE] (b, False)) (\<lambda>x. agrees BUFFER_SIZE p (fst x) \<and> (\<not> snd x \<longrightarrow> fst x = b))"
  proof (rule ok_for_upt[where I = "\<lambda>n x. agrees n p (fst x) \<and> (\<not> snd x \<longrightarrow> fst x = b)"])
    fix i x assume i: "i < BUFFER_SIZE" and x: "agrees i p (fst x) \<and> (\<not> snd x \<longrightarrow> fst x = b)"
    have l: "i < 1024" "length (fst x) = 1024" using i x by (simp_all add: agrees_def BUFFER_SIZE_def)
    show "ok (compare_word p i x) (\<lambda>x. agrees (Suc i) p (fst x) \<and> (\<not> snd x \<longrightarrow> fst x = b))"
    proof (cases "int_memory p i")
      case None
      then have "agrees (Suc i) p (fst x)" using agrees_skip x by blast
      then show ?thesis using l x None by (auto simp: compare_word_def split: prod.splits)
    next
      case (Some a)
      then have "fst x ! i = uints p a \<Longrightarrow> agrees (Suc i) p (fst x)" "agrees (Suc i) p ((fst x)[i := uints p a])"
        using agrees_skip agrees_write x l(1) by blast+
      then show ?thesis using l x Some
        by (cases "fst x ! i = uints p a") (auto simp: compare_word_def rd_in wr_in split: prod.splits)
    qed
  qed (use assms in \<open>simp add: agrees_def\<close>)
  then show ?thesis by (elim ok_weaken) auto
qed

section \<open>What the file holds\<close>

text \<open>The file is the buffer, and the buffer the image as the thread has last seen it.\<close>

definition file_current :: "pst \<Rightarrow> bool" where
  "file_current s \<longleftrightarrow> ps_file s = Some (word_bytes (persistentBuffer s)) \<and> agrees BUFFER_SIZE (ps_img s) (persistentBuffer s)"

lemma ps_log_ok: "length m < 1000 \<Longrightarrow> log_inv (ps_lg s) \<Longrightarrow> ok (ps_log m s) (\<lambda>t. \<exists>l. t = s\<lparr>ps_lg := l\<rparr> \<and> log_inv l)"
  using ok_runtime_log[of "ps_lg s" m] by (auto simp: ps_log_def ok_iff)

lemma write_done: "can_open d \<Longrightarrow> items_written d = BUFFER_SIZE \<Longrightarrow> length (persistentBuffer s) = BUFFER_SIZE \<Longrightarrow>
    write_file d s = Some (s\<lparr>ps_file := Some (word_bytes (persistentBuffer s))\<rparr>, True)"
  by (simp add: write_file_def)

text \<open>A file system that works, and an image whose lock is free.\<close>

definition disk_works :: "disk \<Rightarrow> bool" where
  "disk_works d \<longleftrightarrow> can_open d \<and> items_written d = BUFFER_SIZE"

lemma round_stored:
  assumes "length (persistentBuffer s) = BUFFER_SIZE" "ps_file s = Some (word_bytes (persistentBuffer s))" "\<not> bufferLock (ps_img s)" "disk_works d"
  shows "ok (pstorage_round d s) (\<lambda>(t, go_on). go_on \<and> file_current t \<and> ps_img t = ps_img s \<and> ps_lg t = ps_lg s)"
proof -
  let ?p = "(ps_img s)\<lparr>bufferLock := True\<rparr>"
  obtain c f where c: "for_each (compare_word ?p) [0..<BUFFER_SIZE] (persistentBuffer s, False) = Some (c, f)"
    "agrees BUFFER_SIZE (ps_img s) c" "\<not> f \<Longrightarrow> c = persistentBuffer s"
    using compared[OF assms(1), of ?p] by (auto simp: ok_iff)
  have i: "(ps_img s)\<lparr>bufferLock := False\<rparr> = ps_img s" using assms(3) by (simp add: plc.equality)
  have "compare_image s = Some (s\<lparr>persistentBuffer := c\<rparr>, f)"
    using assms(3) c(1) by (simp add: compare_image_def lock_def unlock_def i)
  moreover have "length c = BUFFER_SIZE" using c(2) by (simp add: agrees_def)
  ultimately show ?thesis
    using assms(2,4) c(2,3) by (cases f) (simp_all add: pstorage_round_def write_done disk_works_def file_current_def)
qed

lemma loop_stored:
  assumes "file_current s" "\<forall>(r, p, d) \<in> set rs. r \<and> \<not> bufferLock p \<and> disk_works d"
  shows "ok (pstorage_loop rs s) (\<lambda>t. file_current t \<and> ps_img t = last (ps_img s # map (\<lambda>r. fst (snd r)) rs) \<and> ps_lg t = ps_lg s)"
  using assms
proof (induction rs arbitrary: s)
  case Nil
  then show ?case by simp
next
  case (Cons x rs)
  obtain r p d where x: "x = (r, p, d)" by (cases x)
  have r: "r" "\<not> bufferLock p" "disk_works d" using Cons.prems(2) x by auto
  obtain t where t: "pstorage_round d (s\<lparr>ps_img := p\<rparr>) = Some (t, True)" "file_current t" "ps_img t = p" "ps_lg t = ps_lg s"
  proof -
    have "ok (pstorage_round d (s\<lparr>ps_img := p\<rparr>)) (\<lambda>(t, go_on). go_on \<and> file_current t \<and> ps_img t = ps_img (s\<lparr>ps_img := p\<rparr>) \<and> ps_lg t = ps_lg (s\<lparr>ps_img := p\<rparr>))"
      by (rule round_stored) (use Cons.prems(1) r in \<open>simp_all add: file_current_def agrees_def\<close>)
    then show thesis using that by (auto simp: ok_iff)
  qed
  have run: "pstorage_loop (x # rs) s = pstorage_loop rs t" using t(1) r(1) by (simp add: x)
  have img: "last (ps_img s # map (\<lambda>r. fst (snd r)) (x # rs)) = last (ps_img t # map (\<lambda>r. fst (snd r)) rs)" using t(3) by (simp add: x)
  have "ok (pstorage_loop rs t) (\<lambda>u. file_current u \<and> ps_img u = last (ps_img t # map (\<lambda>r. fst (snd r)) rs) \<and> ps_lg u = ps_lg t)"
    by (rule Cons.IH[OF t(2)]) (use Cons.prems(2) in simp)
  then show ?case unfolding run img t(4) .
qed

lemma start_stored:
  assumes "length junk = BUFFER_SIZE" "\<not> bufferLock (ps_img s)" "disk_works d" "log_inv (ps_lg s)"
    and "\<forall>(r, p, d) \<in> set rs. r \<and> \<not> bufferLock p \<and> disk_works d"
  shows "ok (startPstorage junk d rs s) (\<lambda>t. file_current t \<and> ps_img t = last (ps_img s # map (\<lambda>r. fst (snd r)) rs) \<and> log_inv (ps_lg t))"
proof -
  let ?p = "(ps_img s)\<lparr>bufferLock := True\<rparr>"
  obtain b where b: "for_each (first_copy ?p) [0..<BUFFER_SIZE] junk = Some b" "agrees BUFFER_SIZE (ps_img s) b"
    using first_copies[OF assms(1), of ?p] by (auto simp: ok_iff)
  have i: "(ps_img s)\<lparr>bufferLock := False\<rparr> = ps_img s" using assms(2) by (simp add: plc.equality)
  let ?s = "s\<lparr>persistentBuffer := b\<rparr>"
  have c: "start_copy (s\<lparr>persistentBuffer := junk\<rparr>) = Some ?s"
    using assms(2) b(1) by (simp add: start_copy_def lock_def unlock_def i)
  have lb: "length b = BUFFER_SIZE" using b(2) by (simp add: agrees_def)
  have "ok (ps_log (''Creating Persistent Storage file'' @ nl) ?s) (\<lambda>t. \<exists>l. t = ?s\<lparr>ps_lg := l\<rparr> \<and> log_inv l)"
    using assms(4) by (intro ps_log_ok) (simp_all add: nl_def)
  then have "\<exists>l. (if ps_file ?s = None then ps_log (''Creating Persistent Storage file'' @ nl) ?s else Some ?s) = Some (?s\<lparr>ps_lg := l\<rparr>) \<and> log_inv l"
    using assms(4) by (cases "ps_file ?s = None") (auto simp: ok_iff intro: exI[of _ "ps_lg s"])
  then obtain l where l: "(if ps_file ?s = None then ps_log (''Creating Persistent Storage file'' @ nl) ?s else Some ?s) = Some (?s\<lparr>ps_lg := l\<rparr>)" "log_inv l"
    by blast
  let ?t = "?s\<lparr>ps_lg := l, ps_file := Some (word_bytes b)\<rparr>"
  have w: "write_file d (?s\<lparr>ps_lg := l\<rparr>) = Some (?t, True)" using assms(3) lb by (simp add: disk_works_def write_done)
  have "file_current ?t" using b(2) by (simp add: file_current_def)
  have "ok (pstorage_loop rs ?t) (\<lambda>u. file_current u \<and> ps_img u = last (ps_img ?t # map (\<lambda>r. fst (snd r)) rs) \<and> ps_lg u = ps_lg ?t)"
    by (rule loop_stored[OF \<open>file_current ?t\<close> assms(5)])
  then have "ok (pstorage_loop rs ?t) (\<lambda>u. file_current u \<and> ps_img u = last (ps_img s # map (\<lambda>r. fst (snd r)) rs) \<and> log_inv (ps_lg u))"
    by (rule ok_weaken) (use l(2) in auto)
  moreover have "startPstorage junk d rs s = pstorage_loop rs ?t"
    unfolding startPstorage_def c bind.bind_lunit l(1) w by simp
  ultimately show ?thesis by simp
qed

section \<open>The restart\<close>

text \<open>Every mapped word has the value of the file; entries that share a cell hold the same value there.\<close>

lemma restored_values:
  assumes "agrees BUFFER_SIZE r b" "int_memory p = int_memory r"
  shows "ok (for_each (restore_word b) [0..<BUFFER_SIZE] p)
    (\<lambda>q. same_tables p q \<and> bufferLock q = bufferLock p \<and> (\<forall>i < BUFFER_SIZE. \<forall>a. int_memory r i = Some a \<longrightarrow> uints q a = uints r a))"
proof (rule ok_for_upt[where I = "\<lambda>n q. same_tables p q \<and> bufferLock q = bufferLock p \<and> (\<forall>j < n. \<forall>a. int_memory r j = Some a \<longrightarrow> uints q a = uints r a)"])
  fix i q assume i: "i < BUFFER_SIZE" and q: "same_tables p q \<and> bufferLock q = bufferLock p \<and> (\<forall>j < i. \<forall>a. int_memory r j = Some a \<longrightarrow> uints q a = uints r a)"
  have l: "i < 1024" "length b = 1024" using i assms(1) by (simp_all add: agrees_def BUFFER_SIZE_def)
  have m: "int_memory q = int_memory r" using q assms(2) by (simp add: same_tables_def)
  have v: "b ! i = uints r a" if "int_memory r i = Some a" for a using assms(1) i that by (simp add: agrees_def)
  show "ok (restore_word b i q) (\<lambda>q. same_tables p q \<and> bufferLock q = bufferLock p \<and> (\<forall>j < Suc i. \<forall>a. int_memory r j = Some a \<longrightarrow> uints q a = uints r a))"
    using q l m v by (auto simp: restore_word_def rd_in uints_store_uint less_Suc_eq split: option.splits)
qed simp

text \<open>
  C34. What the persistent storage has stored comes back: after any number of rounds of its thread, a restarted runtime
  with the same memory table has in every mapped memory word the value that the image had when the thread last ran.
\<close>

theorem storage_survives_restart:
  assumes "length junk = BUFFER_SIZE" "\<not> bufferLock (ps_img s)" "disk_works d" "log_inv (ps_lg s)"
    and "\<forall>(r, p, d) \<in> set rs. r \<and> \<not> bufferLock p \<and> disk_works d"
    and "p = last (ps_img s # map (\<lambda>r. fst (snd r)) rs)" "int_memory q = int_memory p" "\<not> bufferLock q" "log_inv l"
  shows "\<exists>t u. startPstorage junk d rs s = Some t \<and>
    readPersistentStorage \<lparr>ps_img = q, ps_lg = l, ps_file = ps_file t, persistentBuffer = []\<rparr> = Some u \<and>
    same_tables q (ps_img u) \<and> \<not> bufferLock (ps_img u) \<and>
    (\<forall>i < BUFFER_SIZE. \<forall>a. int_memory p i = Some a \<longrightarrow> uints (ps_img u) a = uints p a)"
proof -
  obtain t where t: "startPstorage junk d rs s = Some t" "file_current t" "ps_img t = p"
    using start_stored[OF assms(1-5)] assms(6) by (auto simp: ok_iff)
  let ?b = "persistentBuffer t"
  let ?s = "\<lparr>ps_img = q, ps_lg = l, ps_file = ps_file t, persistentBuffer = []\<rparr>"
  have b: "agrees BUFFER_SIZE p ?b" "ps_file t = Some (word_bytes ?b)" "length ?b = BUFFER_SIZE"
    using t(2,3) by (auto simp: file_current_def agrees_def)
  have "ok (ps_log (''Persistent Storage: Reading persistent.file into local buffers'' @ nl) ?s) (\<lambda>t. \<exists>l. t = ?s\<lparr>ps_lg := l\<rparr> \<and> log_inv l)"
    using assms(9) by (intro ps_log_ok) (simp_all add: nl_def)
  then obtain m where m: "ps_log (''Persistent Storage: Reading persistent.file into local buffers'' @ nl) ?s = Some (?s\<lparr>ps_lg := m\<rparr>)" by (auto simp: ok_iff)
  let ?q = "q\<lparr>bufferLock := True\<rparr>"
  have "int_memory ?q = int_memory p" using assms(7) by simp
  from restored_values[OF b(1) this] obtain r where r: "for_each (restore_word ?b) [0..<BUFFER_SIZE] ?q = Some r" "same_tables ?q r" "bufferLock r"
    "\<forall>i < BUFFER_SIZE. \<forall>a. int_memory p i = Some a \<longrightarrow> uints r a = uints p a"
    by (auto simp: ok_iff)
  have f: "ps_file ?s = Some (word_bytes ?b)" "\<not> length (word_bytes ?b) div 2 < BUFFER_SIZE" using b by (simp_all add: word_bytes_length)
  have lk: "lock q = Some ?q" using assms(8) by (simp add: lock_def)
  have "readPersistentStorage ?s = Some (?s\<lparr>ps_lg := m, ps_img := r\<lparr>bufferLock := False\<rparr>\<rparr>)"
    unfolding readPersistentStorage_def f(1) option.case if_not_P[OF f(2)] m bind.bind_lunit words_of_bytes
    using r(1,3) lk by (simp add: unlock_def)
  moreover have "same_tables q r" using r(2) by (simp add: same_tables_def)
  ultimately show ?thesis using t(1) r(4) by auto
qed

text \<open>The file is emptied before it is written: when the disk is full nothing is left to read.\<close>

lemma failed_write_loses_all:
  assumes "can_open d" "items_written d < BUFFER_SIZE" "length (persistentBuffer s) = BUFFER_SIZE" "log_inv (ps_lg s)"
  shows "\<exists>t. write_file d s = Some (t, False) \<and> (\<forall>q l. log_inv l \<longrightarrow>
    (\<exists>u. readPersistentStorage \<lparr>ps_img = q, ps_lg = l, ps_file = ps_file t, persistentBuffer = []\<rparr> = Some u \<and> ps_img u = q))"
proof -
  let ?s = "s\<lparr>ps_file := Some (word_bytes (take (items_written d) (persistentBuffer s)))\<rparr>"
  have "ok (ps_log (''Persistent Storage: Error writing to persistent memory file!'' @ nl) ?s) (\<lambda>t. \<exists>l. t = ?s\<lparr>ps_lg := l\<rparr> \<and> log_inv l)"
    using assms(4) by (intro ps_log_ok) (simp_all add: nl_def)
  then obtain l where l: "ps_log (''Persistent Storage: Error writing to persistent memory file!'' @ nl) ?s = Some (?s\<lparr>ps_lg := l\<rparr>)" by (auto simp: ok_iff)
  have w: "write_file d s = Some (?s\<lparr>ps_lg := l\<rparr>, False)"
    unfolding write_file_def Let_def l using assms(1,2) by simp
  have n: "length (word_bytes (take (items_written d) (persistentBuffer s))) div 2 < BUFFER_SIZE" using assms(2,3) by (simp add: word_bytes_length)
  have "\<exists>u. readPersistentStorage \<lparr>ps_img = q, ps_lg = l', ps_file = ps_file ?s, persistentBuffer = []\<rparr> = Some u \<and> ps_img u = q" if "log_inv l'" for q l'
  proof -
    let ?r = "\<lparr>ps_img = q, ps_lg = l', ps_file = ps_file ?s, persistentBuffer = []\<rparr>"
    have "ok (ps_log (''Persistent Storage: Error while trying to read persistent.file!'' @ nl) ?r) (\<lambda>t. \<exists>l. t = ?r\<lparr>ps_lg := l\<rparr> \<and> log_inv l)"
      using that by (intro ps_log_ok) (simp_all add: nl_def)
    then show ?thesis using n unfolding readPersistentStorage_def by (auto simp: ok_iff)
  qed
  then show ?thesis using w by (intro exI[of _ "?s\<lparr>ps_lg := l\<rparr>"]) auto
qed

text \<open>A counter in the first memory word, seen at 5 by the last round.\<close>

definition counting_image :: "16 word \<Rightarrow> plc" where
  "counting_image v = null_image\<lparr>int_memory := (\<lambda>i. None)(0 := Some (UVar 3)), uints := (\<lambda>a. 0)(UVar 3 := v)\<rparr>"

theorem storage_survives_restart_witness:
  "\<exists>t u. startPstorage (replicate 1024 7) \<lparr>can_open = True, items_written = 1024\<rparr> [(True, counting_image 5, \<lparr>can_open = True, items_written = 1024\<rparr>)]
      \<lparr>ps_img = counting_image 4, ps_lg = \<lparr>log_text = [], log_counter = 0\<rparr>, ps_file = None, persistentBuffer = []\<rparr> = Some t \<and>
    readPersistentStorage \<lparr>ps_img = counting_image 0, ps_lg = \<lparr>log_text = [], log_counter = 0\<rparr>, ps_file = ps_file t, persistentBuffer = []\<rparr> = Some u \<and>
    uints (ps_img u) (UVar 3) = 5"
proof -
  let ?d = "\<lparr>can_open = True, items_written = 1024\<rparr>" and ?l = "\<lparr>log_text = [], log_counter = 0\<rparr>"
  have "\<exists>t u. startPstorage (replicate 1024 7) ?d [(True, counting_image 5, ?d)] \<lparr>ps_img = counting_image 4, ps_lg = ?l, ps_file = None, persistentBuffer = []\<rparr> = Some t \<and>
    readPersistentStorage \<lparr>ps_img = counting_image 0, ps_lg = ?l, ps_file = ps_file t, persistentBuffer = []\<rparr> = Some u \<and>
    same_tables (counting_image 0) (ps_img u) \<and> \<not> bufferLock (ps_img u) \<and>
    (\<forall>i < BUFFER_SIZE. \<forall>a. int_memory (counting_image 5) i = Some a \<longrightarrow> uints (ps_img u) a = uints (counting_image 5) a)"
    by (rule storage_survives_restart) (simp_all add: counting_image_def disk_works_def BUFFER_SIZE_def log_inv_def)
  moreover have "0 < BUFFER_SIZE" "int_memory (counting_image 5) 0 = Some (UVar 3)" "uints (counting_image 5) (UVar 3) = 5"
    by (simp_all add: counting_image_def BUFFER_SIZE_def)
  ultimately show ?thesis by metis
qed

end
