(* ===== verification/Dnp3.thy ===== *)
theory Dnp3
  imports CStrings Modbus Complex_Main
begin

text \<open>
  The DNP3 outstation (Packetized-PLC-IO/dnp3.cpp). The protocol itself is the opendnp3 library, which is not part of the
  repository: it calls the handlers below with the index and the value that a master sends, and it takes the points that
  the update loop builds.
\<close>

section \<open>Offsets\<close>

text \<open>The offsets of the configuration.\<close>

record offsets =
  offset_di :: int
  offset_do :: int
  offset_ai :: int
  offset_ao :: int

section \<open>Commands of the master\<close>

datatype command_status = SUCCESS | NOT_SUPPORTED | OUT_OF_RANGE

datatype control_code = LATCH_ON | LATCH_OFF | OTHER_CODE

text \<open>Every \<open>Select\<close> accepts every index.\<close>

definition select :: "16 word \<Rightarrow> command_status" where
  "select index = SUCCESS"

text \<open>\<open>index = index + offset\<close> in 16 bits.\<close>

definition shift_index :: "int \<Rightarrow> 16 word \<Rightarrow> 16 word" where
  "shift_index offset index = index + word_of_int offset"

definition operate_crob :: "offsets \<Rightarrow> control_code \<Rightarrow> 16 word \<Rightarrow> plc \<Rightarrow> (command_status \<times> plc) option" where
  "operate_crob off code index p =
     (let i = unat (shift_index (offset_di off) index) in
      if code = LATCH_ON \<or> code = LATCH_OFF
      then do {
        p \<leftarrow> lock p;
        q \<leftarrow> bool_at (bool_output p) (i div 8) (i mod 8);
        let p = store_bool q (if code = LATCH_ON then 1 else 0) p;
        p \<leftarrow> unlock p;
        Some (SUCCESS, p)
      }
      else Some (NOT_SUPPORTED, p))"

text \<open>An index \<open>i\<close> computed as an \<open>int\<close>: below zero there is no element.\<close>

definition tab_below :: "(nat \<Rightarrow> 'p option) \<Rightarrow> nat \<Rightarrow> nat \<Rightarrow> 'p option option" where
  "tab_below t i base = (if base \<le> i then tab_at t (i - base) else None)"

definition operate_int16 :: "offsets \<Rightarrow> 16 word \<Rightarrow> 16 word \<Rightarrow> plc \<Rightarrow> (command_status \<times> plc) option" where
  "operate_int16 off value index p =
     (let i = unat (shift_index (offset_ao off) index) in do {
       p \<leftarrow> lock p;
       a \<leftarrow> (if i < MIN_16B_RANGE then tab_at (int_output p) i else Some None);
       (if a \<noteq> None then Option.bind (unlock (store_uint a value p)) (\<lambda>p. Some (SUCCESS, p))
        else do {
          b \<leftarrow> (if i < MAX_16B_RANGE then tab_below (int_memory p) i MIN_16B_RANGE else Some None);
          (if b \<noteq> None then Option.bind (unlock (store_uint b value p)) (\<lambda>p. Some (SUCCESS, p))
           else if i > MAX_16B_RANGE then Some (OUT_OF_RANGE, p)
           else Option.bind (unlock p) (\<lambda>p. Some (SUCCESS, p)))
        })
     })"

definition store_dint :: "nat option \<Rightarrow> 32 word \<Rightarrow> plc \<Rightarrow> plc" where
  "store_dint q v p = (case q of None \<Rightarrow> p | Some a \<Rightarrow> set_dint a v p)"

definition operate_dint :: "32 word option \<Rightarrow> 16 word \<Rightarrow> plc \<Rightarrow> (command_status \<times> plc) option" where
  "operate_dint value index p =
     (let i = unat index in
      if i < MIN_32B_RANGE \<or> i \<ge> MAX_32B_RANGE then Some (OUT_OF_RANGE, p)
      else do {
        p \<leftarrow> lock p;
        q \<leftarrow> tab_at (dint_memory p) (i - MIN_32B_RANGE);
        p \<leftarrow> (if q = None then Some p else map_option (\<lambda>v. store_dint q v p) value);
        p \<leftarrow> unlock p;
        Some (SUCCESS, p)
      })"

definition operate_int32 :: "32 word \<Rightarrow> 16 word \<Rightarrow> plc \<Rightarrow> (command_status \<times> plc) option" where
  "operate_int32 value = operate_dint (Some value)"

text \<open>
  A floating point value, none for an infinity or a NaN. Its conversion to an integer of \<open>n\<close> bits drops the fraction; it
  is undefined when the result does not fit.
\<close>

definition truncated :: "rat \<Rightarrow> int" where
  "truncated x = (if 0 \<le> x then \<lfloor>x\<rfloor> else \<lceil>x\<rceil>)"

definition to_signed :: "nat \<Rightarrow> rat option \<Rightarrow> int option" where
  "to_signed n v = Option.bind v (\<lambda>x. if - (2 ^ (n - 1)) \<le> truncated x \<and> truncated x < 2 ^ (n - 1) then Some (truncated x) else None)"

definition operate_float32 :: "rat option \<Rightarrow> 16 word \<Rightarrow> plc \<Rightarrow> (command_status \<times> plc) option" where
  "operate_float32 value = operate_dint (map_option word_of_int (to_signed 32 value))"

definition operate_double64 :: "rat option \<Rightarrow> 16 word \<Rightarrow> plc \<Rightarrow> (command_status \<times> plc) option" where
  "operate_double64 value index p =
     (let i = unat index in
      if i < MIN_64B_RANGE \<or> i \<ge> MAX_64B_RANGE then Some (OUT_OF_RANGE, p)
      else do {
        p \<leftarrow> lock p;
        q \<leftarrow> tab_at (lint_memory p) (i - MIN_64B_RANGE);
        p \<leftarrow> (if q = None then Some p else map_option (\<lambda>v. store_lint q (word_of_int v) p) (to_signed 64 value));
        p \<leftarrow> unlock p;
        Some (SUCCESS, p)
      })"

section \<open>The points of the outstation\<close>

datatype point = Binary bool int | BinaryOutputStatus bool int | Analog int int | AnalogOutputStatus int int

text \<open>\<open>i\<close> counts from an offset that may be negative, and the pointer is followed without a test.\<close>

definition bool_point :: "(nat \<Rightarrow> nat \<Rightarrow> bool_ptr option) \<Rightarrow> (bool \<Rightarrow> int \<Rightarrow> point) \<Rightarrow> int \<Rightarrow> plc \<Rightarrow> int \<Rightarrow> point list \<Rightarrow> point list option" where
  "bool_point t c offset p i b =
     (if i < 0 then None
      else do {
        q \<leftarrow> bool_at t (nat i div 8) (nat i mod 8);
        a \<leftarrow> q;
        Some (b @ [c (bools p a \<noteq> 0) (i - offset)])
      })"

definition int_point :: "(nat \<Rightarrow> uint_ptr option) \<Rightarrow> (int \<Rightarrow> int \<Rightarrow> point) \<Rightarrow> int \<Rightarrow> plc \<Rightarrow> int \<Rightarrow> point list \<Rightarrow> point list option" where
  "int_point t c offset p i b =
     (if i < 0 then None
      else do {
        q \<leftarrow> tab_at t (nat i);
        a \<leftarrow> q;
        Some (b @ [c (uint (uints p a)) (i - offset)])
      })"

text \<open>The memory words, where an entry may be NULL.\<close>

definition memory_point :: "(nat \<Rightarrow> 'a option) \<Rightarrow> ('a \<Rightarrow> int) \<Rightarrow> nat \<Rightarrow> nat \<Rightarrow> point list \<Rightarrow> point list option" where
  "memory_point t v base i b = do {
     q \<leftarrow> tab_at t (i - base);
     Some (case q of None \<Rightarrow> b | Some a \<Rightarrow> b @ [AnalogOutputStatus (v a) (int i)])
   }"

text \<open>\<open>sizeof(lint_memory) / sizeof(lint_memory[0])\<close> bounds the last loop only.\<close>

definition update_vals :: "offsets \<Rightarrow> plc \<Rightarrow> point list option" where
  "update_vals off p = do {
     b \<leftarrow> for_each (bool_point (bool_input p) Binary (offset_di off) p) [offset_di off..int MAX_DISCRETE_INPUT - 1] [];
     b \<leftarrow> for_each (bool_point (bool_output p) BinaryOutputStatus (offset_do off) p) [offset_do off..int MAX_COILS - 1] b;
     b \<leftarrow> for_each (int_point (int_input p) Analog (offset_ai off) p) [offset_ai off..int MAX_INP_REGS - 1] b;
     b \<leftarrow> for_each (int_point (int_output p) AnalogOutputStatus (offset_ao off) p) [offset_ao off..int MIN_16B_RANGE - 1] b;
     b \<leftarrow> for_each (memory_point (int_memory p) (\<lambda>a. uint (uints p a)) MIN_16B_RANGE) [MIN_16B_RANGE..<MAX_16B_RANGE] b;
     b \<leftarrow> for_each (memory_point (dint_memory p) (\<lambda>a. sint (dints p a)) MIN_32B_RANGE) [MIN_32B_RANGE..<MAX_32B_RANGE] b;
     for_each (memory_point (lint_memory p) (\<lambda>a. sint (ucast (lints p a) :: 32 word)) MIN_64B_RANGE)
       (filter (\<lambda>i. i - MIN_64B_RANGE < BUFFER_SIZE) [MIN_64B_RANGE..<MAX_64B_RANGE]) b
   }"

section \<open>The configuration file\<close>

text \<open>The settings of the library that the file can change; a time that is not limited is none.\<close>

record dnp3_config =
  database_size :: int
  LocalAddr :: int
  RemoteAddr :: int
  KeepAliveTimeout :: "int option"
  allowUnsolicited :: bool
  selectTimeout :: int
  maxControlsPerRequest :: int
  maxRxFragSize :: int
  maxTxFragSize :: int
  eventBufferConfig :: int
  solConfirmTimeout :: int
  unsolConfirmTimeout :: int
  unsolRetryTimeout :: int

definition ltrim :: "string \<Rightarrow> string" where "ltrim s = dropWhile is_blank s"
definition rtrim :: "string \<Rightarrow> string" where "rtrim s = rev (dropWhile is_blank (rev s))"
definition trim :: "string \<Rightarrow> string" where "trim s = ltrim (rtrim s)"

text \<open>
  The two calls of \<open>getline(iss, token, '=')\<close>: what is before the first \<open>=\<close>, and what is between it and the next. Without
  an \<open>=\<close> the second call fails and leaves the token as it is.
\<close>

definition key_of :: "string \<Rightarrow> string" where
  "key_of line = trim (takeWhile (\<lambda>c. c \<noteq> CHR ''='') line)"

definition value_of :: "string \<Rightarrow> string" where
  "value_of line =
     (if CHR ''='' \<in> set line then takeWhile (\<lambda>c. c \<noteq> CHR ''='') (tl (dropWhile (\<lambda>c. c \<noteq> CHR ''='') line)) else key_of line)"

definition number_of :: "string \<Rightarrow> int option" where
  "number_of line = atoi (value_of line @ [NUL])"

definition is_comment :: "string \<Rightarrow> bool" where
  "is_comment line \<longleftrightarrow> line \<noteq> [] \<and> hd line = CHR ''#''"

fun create_config :: "string list \<Rightarrow> int option" where
  "create_config [] = Some 10"
| "create_config (line # ls) =
     (if is_comment line then create_config ls
      else if key_of line = ''database_size'' then number_of line
      else create_config ls)"

definition config_line :: "string \<Rightarrow> offsets \<times> dnp3_config \<Rightarrow> (offsets \<times> dnp3_config) option" where
  "config_line line = (\<lambda>(off, c).
     (let k = key_of line; v = value_of line; num = (\<lambda>f. Option.bind (number_of line) f) in
      if is_comment line then Some (off, c)
      else if k = ''local_address'' then num (\<lambda>n. Some (off, c\<lparr>LocalAddr := n\<rparr>))
      else if k = ''remote_address'' then num (\<lambda>n. Some (off, c\<lparr>RemoteAddr := n\<rparr>))
      else if k = ''keep_alive_timeout''
      then (if v = ''MAX'' then Some (off, c\<lparr>KeepAliveTimeout := None\<rparr>) else num (\<lambda>n. Some (off, c\<lparr>KeepAliveTimeout := Some n\<rparr>)))
      else if k = ''enable_unsolicited'' then Some (off, c\<lparr>allowUnsolicited := (v = ''True'')\<rparr>)
      else if k = ''select_timeout'' then num (\<lambda>n. Some (off, c\<lparr>selectTimeout := n\<rparr>))
      else if k = ''max_controls_per_request'' then num (\<lambda>n. Some (off, c\<lparr>maxControlsPerRequest := n\<rparr>))
      else if k = ''max_rx_frag_size'' then num (\<lambda>n. Some (off, c\<lparr>maxRxFragSize := n\<rparr>))
      else if k = ''max_tx_frag_size'' then num (\<lambda>n. Some (off, c\<lparr>maxTxFragSize := n\<rparr>))
      else if k = ''event_buffer_size'' then num (\<lambda>n. Some (off, c\<lparr>eventBufferConfig := n\<rparr>))
      else if k = ''offset_di'' then num (\<lambda>n. Some (off\<lparr>offset_di := n\<rparr>, c))
      else if k = ''offset_do'' then num (\<lambda>n. Some (off\<lparr>offset_do := n\<rparr>, c))
      else if k = ''offset_ai'' then num (\<lambda>n. Some (off\<lparr>offset_ai := n\<rparr>, c))
      else if k = ''offset_ao'' then num (\<lambda>n. Some (off\<lparr>offset_ao := n\<rparr>, c))
      else if k = ''sol_confirm_timeout'' then num (\<lambda>n. Some (off, c\<lparr>solConfirmTimeout := n\<rparr>))
      else if k = ''unsol_confirm_timeout'' then num (\<lambda>n. Some (off, c\<lparr>unsolConfirmTimeout := n\<rparr>))
      else if k = ''unsol_retry_timeout'' then num (\<lambda>n. Some (off, c\<lparr>unsolRetryTimeout := n\<rparr>))
      else Some (off, c)))"

text \<open>The lines of the file, none when it cannot be opened; \<open>defaults\<close> are the settings of the library.\<close>

definition parseDNP3Config :: "string list option \<Rightarrow> (int \<Rightarrow> dnp3_config) \<Rightarrow> offsets \<Rightarrow> (offsets \<times> dnp3_config) option" where
  "parseDNP3Config file defaults off =
     (case file of
        None \<Rightarrow> Some (off, defaults 10)
      | Some ls \<Rightarrow> do {
          n \<leftarrow> create_config ls;
          for_each config_line ls (off, defaults n)
        })"

section \<open>The server\<close>

text \<open>
  One round of the server: the points are built under the lock of the image. The second component is what the library
  receives.
\<close>

definition dnp3_round :: "offsets \<Rightarrow> plc \<Rightarrow> (plc \<times> point list) option" where
  "dnp3_round off p = do {
     p \<leftarrow> lock p;
     b \<leftarrow> update_vals off p;
     p \<leftarrow> unlock p;
     Some (p, b)
   }"

text \<open>The rounds: the run flag and the image as the other threads have left it. \<open>mapUnusedIO\<close> is that of the Modbus server.\<close>

fun dnp3_rounds :: "offsets \<Rightarrow> (bool \<times> plc) list \<Rightarrow> point list list \<Rightarrow> point list list option" where
  "dnp3_rounds off [] bs = Some bs"
| "dnp3_rounds off ((run_dnp3, p) # rs) bs =
     (if \<not> run_dnp3 then Some bs
      else Option.bind (dnp3_round off p) (\<lambda>(p, b). dnp3_rounds off rs (bs @ [b])))"

text \<open>The offsets of the configuration, the connection of the unused points, and the rounds.\<close>

definition dnp3StartServer ::
  "string list option \<Rightarrow> (int \<Rightarrow> dnp3_config) \<Rightarrow> offsets \<Rightarrow> plc \<Rightarrow> (bool \<times> plc) list \<Rightarrow> (dnp3_config \<times> plc \<times> point list list) option" where
  "dnp3StartServer file defaults off p rs = do {
     (off, c) \<leftarrow> parseDNP3Config file defaults off;
     p \<leftarrow> mapUnusedIO p;
     bs \<leftarrow> dnp3_rounds off rs [];
     Some (c, p, bs)
   }"

end
