(* ===== verification/Dnp3_Props.thy ===== *)
theory Dnp3_Props
  imports Dnp3
begin

text \<open>
  The commands of a DNP3 master that work, those that leave the image locked or write behind it, and why the update loop
  never completes a round.
\<close>

section \<open>Commands\<close>

lemma lock_free: "\<not> bufferLock p \<Longrightarrow> lock p = Some (p\<lparr>bufferLock := True\<rparr>)"
  by (simp add: lock_def)

lemma unlock_held: "bufferLock p \<Longrightarrow> unlock p = Some (p\<lparr>bufferLock := False\<rparr>)"
  by (simp add: unlock_def)

lemma free_again: "\<not> bufferLock p \<Longrightarrow> p\<lparr>bufferLock := False\<rparr> = p"
  by (simp add: plc.equality)

lemma store_unlocked:
  "\<not> bufferLock p \<Longrightarrow> (store_uint q v (p\<lparr>bufferLock := True\<rparr>))\<lparr>bufferLock := False\<rparr> = store_uint q v p"
  "\<not> bufferLock p \<Longrightarrow> (store_bool r b (p\<lparr>bufferLock := True\<rparr>))\<lparr>bufferLock := False\<rparr> = store_bool r b p"
  by (auto simp: store_uint_def set_uint_def store_bool_def set_bool_def split: option.splits)

text \<open>
  C35. A 16-bit analog output reaches the output word or the memory word of its index. An index above the last one leaves
  the image locked for ever, so that the runtime stops at its next cycle, and the last one is dropped with success.
\<close>

theorem analog_output_effect:
  assumes "\<not> bufferLock p" "\<forall>k < 1024. int_output p k \<noteq> None \<and> int_memory p k \<noteq> None" "i = unat (index + word_of_int (offset_ao off))"
  shows "operate_int16 off v index p =
    (if i < 1024 then Some (SUCCESS, store_uint (int_output p i) v p)
     else if i < 2047 then Some (SUCCESS, store_uint (int_memory p (i - 1024)) v p)
     else if i = 2047 then Some (SUCCESS, p)
     else Some (OUT_OF_RANGE, p\<lparr>bufferLock := True\<rparr>))"
proof -
  let ?p = "p\<lparr>bufferLock := True\<rparr>"
  have i: "unat (shift_index (offset_ao off) index) = i" by (simp add: shift_index_def assms(3))
  have u: "unlock (store_uint q w ?p) = Some (store_uint q w p)" "unlock ?p = Some p" for q w
    using assms(1) by (simp_all add: unlock_held store_unlocked free_again)
  note run = operate_int16_def Let_def i lock_free[OF assms(1)] mb_ranges tab_below_def u
  consider "i < 1024" | "1024 \<le> i" "i < 2047" | "i = 2047" | "2047 < i" by linarith
  then show ?thesis
  proof cases
    case 1
    then obtain a where "int_output p i = Some a" using assms(2) by auto
    then show ?thesis using 1 u(1) by (simp add: run)
  next
    case 2
    then have "i - 1024 < 1024" by arith
    then obtain a where "int_memory p (i - 1024) = Some a" using assms(2)[rule_format, of "i - 1024"] by auto
    then show ?thesis using 2 u(1) by (simp add: run)
  qed (simp_all add: run)
qed

text \<open>
  C36. A command for a binary output is in bounds exactly when its index, shifted by the offset of the binary inputs, is
  below 8192; the handler does not test it, so that a master can write behind the table of the outputs.
\<close>

theorem control_output_bounds:
  assumes "\<not> bufferLock p" "code = LATCH_ON \<or> code = LATCH_OFF" "i = unat (index + word_of_int (offset_di off))"
  shows "operate_crob off code index p =
    (if i < 8192 then Some (SUCCESS, store_bool (bool_output p (i div 8) (i mod 8)) (if code = LATCH_ON then 1 else 0) p) else None)"
proof -
  let ?p = "p\<lparr>bufferLock := True\<rparr>"
  have i: "unat (shift_index (offset_di off) index) = i" by (simp add: shift_index_def assms(3))
  have d: "i div 8 < 1024 \<longleftrightarrow> i < 8192" by auto
  have u: "unlock (store_bool q w ?p) = Some (store_bool q w p)" for q w
    using assms(1) by (simp add: unlock_held store_unlocked)
  show ?thesis
    using assms(2) by (auto simp: operate_crob_def Let_def i lock_free[OF assms(1)] bool_at_def BUFFER_SIZE_def d u)
qed

section \<open>The update loop\<close>

lemma update_vals_faults: "update_vals off p = None"
proof -
  have "3072 \<in> set [MIN_32B_RANGE..<MAX_32B_RANGE]" by (simp add: mb_ranges)
  then have "for_each (memory_point (dint_memory p) v MIN_32B_RANGE) [MIN_32B_RANGE..<MAX_32B_RANGE] b = None" for v b
    by (rule for_each_fault) (simp add: memory_point_def tab_at_def mb_ranges BUFFER_SIZE_def)
  then show ?thesis by (simp add: update_vals_def bind_eq_None_conv)
qed

text \<open>
  The outstation never completes an update: the loop over the 32-bit memory counts to 4094, but the table has
  only 1024 entries, and it reads behind it in the first round, whatever the configuration and the image.
\<close>

theorem outstation_reads_out_of_bounds:
  "dnp3StartServer file defaults off p ((True, q) # rs) = None"
  by (simp add: dnp3StartServer_def dnp3_round_def update_vals_faults bind_eq_None_conv split: prod.splits)

section \<open>The configuration\<close>

lemma digits_no_equals: "CHR ''='' \<notin> set (show_nat n)"
  using show_nat_digits[of n] by (auto simp: is_digit_def)

text \<open>A number is read back from the line that sets it.\<close>

lemma number_line:
  assumes "CHR ''='' \<notin> set k" "n < 2 ^ 31"
  shows "key_of (k @ ''='' @ show_nat n) = trim k" "number_of (k @ ''='' @ show_nat n) = Some (int n)"
proof -
  have k: "takeWhile (\<lambda>c. c \<noteq> CHR ''='') (k @ ''='' @ show_nat n) = k" "dropWhile (\<lambda>c. c \<noteq> CHR ''='') (k @ ''='' @ show_nat n) = ''='' @ show_nat n"
    using assms(1) by (auto simp: takeWhile_append dropWhile_append)
  show "key_of (k @ ''='' @ show_nat n) = trim k" unfolding key_of_def k(1) ..
  have "takeWhile (\<lambda>c. c \<noteq> CHR ''='') (show_nat n) = show_nat n" using digits_no_equals[of n] by (auto simp: takeWhile_eq_all_conv)
  then have "value_of (k @ ''='' @ show_nat n) = show_nat n" unfolding value_of_def k(2) by simp
  then show "number_of (k @ ''='' @ show_nat n) = Some (int n)"
    using atoi_show[OF assms(2), of NUL "[]"] by (simp add: number_of_def is_digit_def)
qed

lemma offset_line: "n < 2 ^ 31 \<Longrightarrow> config_line (''offset_di='' @ show_nat n) (off, c) = Some (off\<lparr>offset_di := int n\<rparr>, c)"
  using number_line[of "''offset_di''" n] by (simp add: config_line_def is_comment_def trim_def ltrim_def rtrim_def is_blank_def Let_def)

section \<open>Examples\<close>

definition all_mapped :: plc where
  "all_mapped = null_image\<lparr>int_output := (\<lambda>i. Some (UVar i)), int_memory := (\<lambda>i. Some (UVar (1024 + i))), bool_output := (\<lambda>i j. Some (BVar (8 * i + j)))\<rparr>"

definition no_offsets :: offsets where
  "no_offsets = \<lparr>offset_di = 0, offset_do = 0, offset_ai = 0, offset_ao = 0\<rparr>"

text \<open>Index 2048.\<close>

theorem analog_output_effect_witness:
  "operate_int16 no_offsets 7 2048 all_mapped = Some (OUT_OF_RANGE, all_mapped\<lparr>bufferLock := True\<rparr>)"
  using analog_output_effect[of all_mapped 2048 2048 no_offsets 7] by (simp add: all_mapped_def no_offsets_def)

text \<open>Index 8192.\<close>

theorem control_output_bounds_witness: "operate_crob no_offsets LATCH_ON 8192 all_mapped = None"
  using control_output_bounds[of all_mapped LATCH_ON 8192 8192 no_offsets] by (simp add: all_mapped_def no_offsets_def)

end
