(* ===== verification/MbMaster.thy ===== *)
theory MbMaster
  imports CStrings
begin

text \<open>
  The Modbus master (Packetized-PLC-IO/modbus_master.cpp): the configuration of the slave devices, the thread that polls
  them, and the copying between its buffers and the process image. The protocol is the libmodbus library, which is not
  part of the repository: its answers are arguments, and what is asked of it is recorded.
\<close>

section \<open>Data\<close>

definition MAX_MB_IO :: nat where "MAX_MB_IO = 400"
definition MB_TCP :: byte where "MB_TCP = 1"
definition MB_RTU :: byte where "MB_RTU = 2"

record MB_address =
  start_address :: "16 word"
  num_regs :: "16 word"

record MB_device =
  mb_ctx :: "nat option"
  dev_name :: "char list"
  protocol :: byte
  dev_address :: "char list"
  ip_port :: "16 word"
  rtu_baud :: int
  rtu_parity :: char
  rtu_data_bit :: int
  rtu_stop_bit :: int
  rtu_tx_pause :: int
  dev_id :: byte
  isConnected :: bool
  discrete_inputs :: MB_address
  coils :: MB_address
  input_registers :: MB_address
  holding_read_registers :: MB_address
  holding_registers :: MB_address

record mb_config =
  mb_devices :: "MB_device list"
  num_devices :: byte
  polling_period :: "16 word"
  timeout :: "16 word"

text \<open>What \<open>calloc\<close> leaves.\<close>

definition no_address :: MB_address where
  "no_address = \<lparr>start_address = 0, num_regs = 0\<rparr>"

definition zero_device :: MB_device where
  "zero_device = \<lparr>mb_ctx = None, dev_name = replicate 100 NUL, protocol = 0, dev_address = replicate 100 NUL, ip_port = 0, rtu_baud = 0,
     rtu_parity = NUL, rtu_data_bit = 0, rtu_stop_bit = 0, rtu_tx_pause = 0, dev_id = 0, isConnected = False, discrete_inputs = no_address,
     coils = no_address, input_registers = no_address, holding_read_registers = no_address, holding_registers = no_address\<rparr>"

definition initial_config :: mb_config where
  "initial_config = \<lparr>mb_devices = [], num_devices = 0, polling_period = 100, timeout = 1000\<rparr>"

text \<open>The string in an array.\<close>

definition cstr :: "char list \<Rightarrow> string" where
  "cstr b = takeWhile (\<lambda>c. c \<noteq> NUL) b"

section \<open>The configuration file\<close>

text \<open>
  What is between two separators. When the first one is missing, the loop goes on behind the end of the string; the
  copy ends in the array \<open>dst\<close>.
\<close>

definition getData :: "char list \<Rightarrow> char list \<Rightarrow> char \<Rightarrow> char \<Rightarrow> char list option" where
  "getData line dst separator1 separator2 = do {
     cs \<leftarrow> skip_while (\<lambda>c. c \<noteq> separator1 \<and> c \<noteq> NUL) line;
     a \<leftarrow> copy_while (\<lambda>c. c \<noteq> separator2 \<and> c \<noteq> NUL) (tl cs);
     sprint a dst
   }"

text \<open>The number from the seventh character to the dot, in an array of five characters.\<close>

definition getDeviceNumber :: "char list \<Rightarrow> char list \<Rightarrow> int option" where
  "getDeviceNumber temp line = do {
     a \<leftarrow> copy_while (\<lambda>c. c \<noteq> CHR ''.'') (drop 6 line);
     (if a = [] then atoi temp else Option.bind (sprint a temp) atoi)
   }"

definition getFunction :: "char list \<Rightarrow> char list \<Rightarrow> char list option" where
  "getFunction line parameter = do {
     cs \<leftarrow> skip_while (\<lambda>c. c \<noteq> CHR ''.'') line;
     a \<leftarrow> copy_while (\<lambda>c. c \<noteq> CHR '' '' \<and> c \<noteq> CHR ''='' \<and> c \<noteq> CHR ''('') (tl cs);
     (if a = [] then Some parameter else sprint a parameter)
   }"

text \<open>The value of a line, in an array of the given size, and as a number.\<close>

definition line_data :: "nat \<Rightarrow> char list \<Rightarrow> char list option" where
  "line_data sz line = getData line (replicate sz NUL) (CHR 0x22) (CHR 0x22)"

definition line_number :: "nat \<Rightarrow> char list \<Rightarrow> int option" where
  "line_number sz line = Option.bind (line_data sz line) atoi"

definition line_word :: "nat \<Rightarrow> char list \<Rightarrow> 'a::len word option" where
  "line_word sz line = map_option word_of_int (line_number sz line)"

text \<open>A setting of one device, by the name of the parameter.\<close>

definition device_setting :: "char list \<Rightarrow> char list \<Rightarrow> MB_device \<Rightarrow> MB_device option" where
  "device_setting functionType line d =
     (if begins ''name'' functionType then map_option (\<lambda>b. d\<lparr>dev_name := b\<rparr>) (getData line (dev_name d) (CHR 0x22) (CHR 0x22))
      else if begins ''protocol'' functionType
      then map_option (\<lambda>b. if begins ''TCP'' b then d\<lparr>protocol := MB_TCP\<rparr> else if begins ''RTU'' b then d\<lparr>protocol := MB_RTU\<rparr> else d) (line_data 5 line)
      else if begins ''slave_id'' functionType then map_option (\<lambda>n. d\<lparr>dev_id := n\<rparr>) (line_word 5 line)
      else if begins ''address'' functionType then map_option (\<lambda>b. d\<lparr>dev_address := b\<rparr>) (getData line (dev_address d) (CHR 0x22) (CHR 0x22))
      else if begins ''IP_Port'' functionType then map_option (\<lambda>n. d\<lparr>ip_port := n\<rparr>) (line_word 6 line)
      else if begins ''RTU_Baud_Rate'' functionType then map_option (\<lambda>n. d\<lparr>rtu_baud := n\<rparr>) (line_number 10 line)
      else if begins ''RTU_Parity'' functionType then map_option (\<lambda>b. d\<lparr>rtu_parity := b ! 0\<rparr>) (line_data 3 line)
      else if begins ''RTU_Data_Bits'' functionType then map_option (\<lambda>n. d\<lparr>rtu_data_bit := n\<rparr>) (line_number 6 line)
      else if begins ''RTU_Stop_Bits'' functionType then map_option (\<lambda>n. d\<lparr>rtu_stop_bit := n\<rparr>) (line_number 20 line)
      else if begins ''RTU_TX_Pause'' functionType then map_option (\<lambda>n. d\<lparr>rtu_tx_pause := n\<rparr>) (line_number 10 line)
      else if begins ''Discrete_Inputs_Start'' functionType
      then map_option (\<lambda>n. d\<lparr>discrete_inputs := (discrete_inputs d)\<lparr>start_address := n\<rparr>\<rparr>) (line_word 10 line)
      else if begins ''Discrete_Inputs_Size'' functionType
      then map_option (\<lambda>n. d\<lparr>discrete_inputs := (discrete_inputs d)\<lparr>num_regs := n\<rparr>\<rparr>) (line_word 10 line)
      else if begins ''Coils_Start'' functionType then map_option (\<lambda>n. d\<lparr>coils := (coils d)\<lparr>start_address := n\<rparr>\<rparr>) (line_word 10 line)
      else if begins ''Coils_Size'' functionType then map_option (\<lambda>n. d\<lparr>coils := (coils d)\<lparr>num_regs := n\<rparr>\<rparr>) (line_word 10 line)
      else if begins ''Input_Registers_Start'' functionType
      then map_option (\<lambda>n. d\<lparr>input_registers := (input_registers d)\<lparr>start_address := n\<rparr>\<rparr>) (line_word 10 line)
      else if begins ''Input_Registers_Size'' functionType
      then map_option (\<lambda>n. d\<lparr>input_registers := (input_registers d)\<lparr>num_regs := n\<rparr>\<rparr>) (line_word 10 line)
      else if begins ''Holding_Registers_Read_Start'' functionType
      then map_option (\<lambda>n. d\<lparr>holding_read_registers := (holding_read_registers d)\<lparr>start_address := n\<rparr>\<rparr>) (line_word 10 line)
      else if begins ''Holding_Registers_Read_Size'' functionType
      then map_option (\<lambda>n. d\<lparr>holding_read_registers := (holding_read_registers d)\<lparr>num_regs := n\<rparr>\<rparr>) (line_word 10 line)
      else if begins ''Holding_Registers_Start'' functionType
      then map_option (\<lambda>n. d\<lparr>holding_registers := (holding_registers d)\<lparr>start_address := n\<rparr>\<rparr>) (line_word 10 line)
      else if begins ''Holding_Registers_Size'' functionType
      then map_option (\<lambda>n. d\<lparr>holding_registers := (holding_registers d)\<lparr>num_regs := n\<rparr>\<rparr>) (line_word 10 line)
      else Some d)"

text \<open>What the arrays on the stack hold: of the number and of the name of the parameter.\<close>

record cfg_junk =
  temp_junk :: "char list"
  function_junk :: "char list"

text \<open>\<open>strncpy\<close> into an array of 1024 characters, which has no end when the line is longer.\<close>

definition line_array :: "string \<Rightarrow> char list" where
  "line_array l = take 1024 (cstr l @ replicate 1024 NUL)"

definition parse_line :: "cfg_junk \<Rightarrow> string \<Rightarrow> mb_config \<Rightarrow> mb_config option" where
  "parse_line junk l c =
     (let line = line_array l in
      if NUL \<notin> set line \<and> line ! 0 \<noteq> CHR ''#'' then None
      else if line ! 0 = CHR ''#'' \<or> length (cstr line) \<le> 1 then Some c
      else if begins ''Num_Devices'' line
      then map_option (\<lambda>n. c\<lparr>num_devices := n, mb_devices := replicate (unat n) zero_device\<rparr>) (line_word 5 line)
      else if begins ''Polling_Period'' line then map_option (\<lambda>n. c\<lparr>polling_period := n\<rparr>) (line_word 10 line)
      else if begins ''Timeout'' line then map_option (\<lambda>n. c\<lparr>timeout := n\<rparr>) (line_word 10 line)
      else if begins ''device'' line
      then do {
        k \<leftarrow> getDeviceNumber (temp_junk junk) line;
        functionType \<leftarrow> getFunction line (function_junk junk);
        d \<leftarrow> (if k < 0 then None else rd (mb_devices c) (nat k));
        d \<leftarrow> device_setting functionType line d;
        Some (c\<lparr>mb_devices := (mb_devices c)[nat k := d]\<rparr>)
      }
      else Some c)"

section \<open>The state of the thread\<close>

text \<open>What is asked of the library, with the context of the device.\<close>

datatype mb_request = New_Tcp string "16 word" | New_Rtu string int char int int | Set_Slave "nat option" byte | Set_Response_Timeout "nat option" nat nat
  | Connect "nat option" | Close "nat option" | Read_Input_Bits "nat option" "16 word" "16 word" | Write_Bits "nat option" "16 word" "byte list"
  | Read_Input_Registers "nat option" "16 word" "16 word" | Read_Registers "nat option" "16 word" "16 word"
  | Write_Registers "nat option" "16 word" "16 word list"

text \<open>
  \<open>sf2\<close> is how far the pointer \<open>special_functions[2]\<close> has been moved from the variable that the program located there.
\<close>

record mbm =
  cfg :: mb_config
  bool_input_buf :: "byte list"
  bool_output_buf :: "byte list"
  int_input_buf :: "16 word list"
  int_output_buf :: "16 word list"
  ioLock :: bool
  mb_img :: plc
  sf2 :: nat
  mb_lg :: rlog
  requests :: "mb_request list"

definition mb_log :: "string \<Rightarrow> 'a mbm_scheme \<Rightarrow> 'a mbm_scheme option" where
  "mb_log m s = (if length m < 1000 then map_option (\<lambda>l. s\<lparr>mb_lg := l\<rparr>) (runtime_log m (mb_lg s)) else None)"

definition request_mb :: "mb_request \<Rightarrow> 'a mbm_scheme \<Rightarrow> 'a mbm_scheme" where
  "request_mb r s = s\<lparr>requests := requests s @ [r]\<rparr>"

definition io_lock :: "'a mbm_scheme \<Rightarrow> 'a mbm_scheme option" where
  "io_lock s = (if ioLock s then None else Some (s\<lparr>ioLock := True\<rparr>))"

definition io_unlock :: "'a mbm_scheme \<Rightarrow> 'a mbm_scheme option" where
  "io_unlock s = (if ioLock s then Some (s\<lparr>ioLock := False\<rparr>) else None)"

text \<open>The file, none when it cannot be opened.\<close>

definition parseConfig :: "cfg_junk \<Rightarrow> string list option \<Rightarrow> 'a mbm_scheme \<Rightarrow> 'a mbm_scheme option" where
  "parseConfig junk file s =
     (case file of
        None \<Rightarrow> mb_log (''Skipping configuration of Slave Devices (mbconfig.cfg file not found)'' @ nl) s
      | Some ls \<Rightarrow> map_option (\<lambda>c. s\<lparr>cfg := c\<rparr>) (for_each (parse_line junk) ls (cfg s)))"

section \<open>Polling\<close>

text \<open>
  What the library answers during one poll of a device: whether it connects, the values it reads or none for an error,
  whether it writes, and the texts of \<open>modbus_strerror\<close>.
\<close>

record mb_answers =
  connects :: bool
  bits_read :: "byte list option"
  coils_written :: bool
  input_read :: "16 word list option"
  holding_read :: "16 word list option"
  holding_written :: bool
  error_text :: string

text \<open>The indices into the buffers, local variables of the thread.\<close>

record mbx = mbm +
  bool_input_index :: "16 word"
  bool_output_index :: "16 word"
  int_input_index :: "16 word"
  int_output_index :: "16 word"

definition device_at :: "nat \<Rightarrow> 'a mbm_scheme \<Rightarrow> MB_device option" where
  "device_at i s = rd (mb_devices (cfg s)) i"

definition set_connected :: "nat \<Rightarrow> bool \<Rightarrow> 'a mbm_scheme \<Rightarrow> 'a mbm_scheme" where
  "set_connected i b s = s\<lparr>cfg := (cfg s)\<lparr>mb_devices := (mb_devices (cfg s))[i := (mb_devices (cfg s) ! i)\<lparr>isConnected := b\<rparr>]\<rparr>\<rparr>"

text \<open>
  \<open>if (special_functions[2] != NULL) *special_functions[2]++\<close>: the increment is of the pointer, and what it leads to is
  read first.
\<close>

definition count_error :: "'a mbm_scheme \<Rightarrow> 'a mbm_scheme option" where
  "count_error s =
     (if special_functions (mb_img s) 2 = None then Some s
      else if sf2 s = 0 then Some (s\<lparr>sf2 := 1\<rparr>) else None)"

definition named :: "MB_device \<Rightarrow> string \<Rightarrow> string \<Rightarrow> string" where
  "named d what err = what @ '' failed on MB device '' @ cstr (dev_name d) @ '': '' @ err @ nl"

text \<open>A device that is not reached over a serial line is closed after an error.\<close>

definition close_after_error :: "nat \<Rightarrow> MB_device \<Rightarrow> 'a mbm_scheme \<Rightarrow> 'a mbm_scheme" where
  "close_after_error i d s = (if protocol d \<noteq> MB_RTU then set_connected i False (request_mb (Close (mb_ctx d)) s) else s)"

text \<open>One element of the loops that copy what was read; the indices have 16 bits.\<close>

definition put_bool_input :: "byte \<Rightarrow> mbx \<Rightarrow> mbx option" where
  "put_bool_input v s = map_option (\<lambda>b. s\<lparr>bool_input_buf := b, bool_input_index := bool_input_index s + 1\<rparr>)
     (wr (bool_input_buf s) (unat (bool_input_index s)) v)"

definition put_int_input :: "16 word \<Rightarrow> mbx \<Rightarrow> mbx option" where
  "put_int_input v s = map_option (\<lambda>b. s\<lparr>int_input_buf := b, int_input_index := int_input_index s + 1\<rparr>)
     (wr (int_input_buf s) (unat (int_input_index s)) v)"

definition take_coil :: "nat \<Rightarrow> byte list \<times> mbx \<Rightarrow> (byte list \<times> mbx) option" where
  "take_coil j = (\<lambda>(t, s). map_option (\<lambda>v. (t @ [v], s\<lparr>bool_output_index := bool_output_index s + 1\<rparr>))
     (rd (bool_output_buf s) (unat (bool_output_index s))))"

definition take_register :: "nat \<Rightarrow> 16 word list \<times> mbx \<Rightarrow> (16 word list \<times> mbx) option" where
  "take_register j = (\<lambda>(t, s). map_option (\<lambda>v. (t @ [v], s\<lparr>int_output_index := int_output_index s + 1\<rparr>))
     (rd (int_output_buf s) (unat (int_output_index s))))"

text \<open>The values read go into an array of \<open>n\<close> elements.\<close>

definition answer :: "16 word \<Rightarrow> 'v list option \<Rightarrow> 'v list option option" where
  "answer n r = (case r of None \<Rightarrow> Some None | Some vs \<Rightarrow> if length vs \<le> unat n then Some (Some vs) else None)"

definition read_discrete :: "nat \<Rightarrow> mb_answers \<Rightarrow> mbx \<Rightarrow> mbx option" where
  "read_discrete i a s = do {
     d \<leftarrow> device_at i s;
     let n = num_regs (discrete_inputs d);
     (if n = 0 then Some s
      else do {
        let s = request_mb (Read_Input_Bits (mb_ctx d) (start_address (discrete_inputs d)) n) s;
        r \<leftarrow> answer n (bits_read a);
        (case r of
           None \<Rightarrow> do {
             let s = close_after_error i d s;
             s \<leftarrow> mb_log (named d ''Modbus Read Discrete Input Registers'' (error_text a)) s;
             count_error (s\<lparr>bool_input_index := bool_input_index s + n\<rparr>)
           }
         | Some vs \<Rightarrow> do {
             s \<leftarrow> io_lock s;
             s \<leftarrow> for_each put_bool_input vs s;
             io_unlock s
           })
      })
   }"

definition write_coils :: "nat \<Rightarrow> mb_answers \<Rightarrow> mbx \<Rightarrow> mbx option" where
  "write_coils i a s = do {
     d \<leftarrow> device_at i s;
     let n = num_regs (coils d);
     (if n = 0 then Some s
      else do {
        s \<leftarrow> io_lock s;
        (t, s) \<leftarrow> for_each take_coil [0..<unat n] ([], s);
        s \<leftarrow> io_unlock s;
        let s = request_mb (Write_Bits (mb_ctx d) (start_address (coils d)) t) s;
        (if coils_written a then Some s
         else do {
           let s = close_after_error i d s;
           s \<leftarrow> mb_log (named d ''Modbus Write Coils'' (error_text a)) s;
           count_error s
         })
      })
   }"

text \<open>The two reads of registers, which go to the same buffer.\<close>

definition read_registers :: "(MB_device \<Rightarrow> MB_address) \<Rightarrow> (nat option \<Rightarrow> 16 word \<Rightarrow> 16 word \<Rightarrow> mb_request) \<Rightarrow> string \<Rightarrow>
    (mb_answers \<Rightarrow> 16 word list option) \<Rightarrow> nat \<Rightarrow> mb_answers \<Rightarrow> mbx \<Rightarrow> mbx option" where
  "read_registers regs req what res i a s = do {
     d \<leftarrow> device_at i s;
     let n = num_regs (regs d);
     (if n = 0 then Some s
      else do {
        let s = request_mb (req (mb_ctx d) (start_address (regs d)) n) s;
        r \<leftarrow> answer n (res a);
        (case r of
           None \<Rightarrow> do {
             let s = close_after_error i d s;
             s \<leftarrow> mb_log (named d what (error_text a)) s;
             count_error (s\<lparr>int_input_index := int_input_index s + n\<rparr>)
           }
         | Some vs \<Rightarrow> do {
             s \<leftarrow> io_lock s;
             s \<leftarrow> for_each put_int_input vs s;
             io_unlock s
           })
      })
   }"

definition read_input_registers :: "nat \<Rightarrow> mb_answers \<Rightarrow> mbx \<Rightarrow> mbx option" where
  "read_input_registers = read_registers input_registers Read_Input_Registers ''Modbus Read Input Registers'' input_read"

definition read_holding_registers :: "nat \<Rightarrow> mb_answers \<Rightarrow> mbx \<Rightarrow> mbx option" where
  "read_holding_registers = read_registers holding_read_registers Read_Registers ''Modbus Read Holding Registers'' holding_read"

definition write_holding_registers :: "nat \<Rightarrow> mb_answers \<Rightarrow> mbx \<Rightarrow> mbx option" where
  "write_holding_registers i a s = do {
     d \<leftarrow> device_at i s;
     let n = num_regs (holding_registers d);
     (if n = 0 then Some s
      else do {
        s \<leftarrow> io_lock s;
        (t, s) \<leftarrow> for_each take_register [0..<unat n] ([], s);
        s \<leftarrow> io_unlock s;
        let s = request_mb (Write_Registers (mb_ctx d) (start_address (holding_registers d)) t) s;
        (if holding_written a then Some s
         else do {
           let s = close_after_error i d s;
           s \<leftarrow> mb_log (named d ''Modbus Write Holding Registers'' (error_text a)) s;
           count_error s
         })
      })
   }"

text \<open>The other devices on the same serial port.\<close>

definition sharing :: "nat \<Rightarrow> mb_config \<Rightarrow> nat list" where
  "sharing i c = filter (\<lambda>a. a \<noteq> i \<and> cstr (dev_address (mb_devices c ! i)) = cstr (dev_address (mb_devices c ! a))) [0..<unat (num_devices c)]"

definition connect_device :: "nat \<Rightarrow> mb_answers \<Rightarrow> MB_device \<Rightarrow> mbx \<Rightarrow> mbx option" where
  "connect_device i a d s = do {
     s \<leftarrow> mb_log (''Device '' @ cstr (dev_name d) @ '' is disconnected. Attempting to reconnect...'' @ nl) s;
     let s = request_mb (Connect (mb_ctx d)) s;
     (if \<not> connects a
      then do {
        s \<leftarrow> mb_log (''Connection failed on MB device '' @ cstr (dev_name d) @ '': '' @ error_text a @ nl) s;
        s \<leftarrow> count_error s;
        Some (s\<lparr>bool_input_index := bool_input_index s + num_regs (discrete_inputs d),
          int_input_index := int_input_index s + num_regs (input_registers d) + num_regs (holding_read_registers d),
          bool_output_index := bool_output_index s + num_regs (coils d),
          int_output_index := int_output_index s + num_regs (holding_registers d)\<rparr>)
      }
      else map_option (set_connected i True) (mb_log (''Connected to MB device '' @ cstr (dev_name d) @ nl) s))
   }"

text \<open>
  The pause before a request has the length \<open>28000000000 / rtu_baud\<close>, computed as an \<open>int\<close>: a device without a baud rate
  divides by zero. The pauses themselves have no effect on the state.
\<close>

definition query_device :: "(nat \<Rightarrow> mb_answers) \<Rightarrow> nat \<Rightarrow> mbx \<Rightarrow> mbx option" where
  "query_device ans i s = do {
     d \<leftarrow> device_at i s;
     let others = (if protocol d = MB_RTU then sharing i (cfg s) else []);
     let rtu_port_connected = (\<exists>a \<in> set others. isConnected (mb_devices (cfg s) ! a));
     let s = (if others \<noteq> [] then request_mb (Set_Slave (mb_ctx d) (dev_id d)) s else s);
     s \<leftarrow> (if \<not> isConnected d \<and> \<not> rtu_port_connected then connect_device i (ans i) d s else Some s);
     d \<leftarrow> device_at i s;
     (if isConnected d \<or> rtu_port_connected
      then if rtu_baud d = 0 then None
      else do {
        s \<leftarrow> read_discrete i (ans i) s;
        s \<leftarrow> write_coils i (ans i) s;
        s \<leftarrow> read_input_registers i (ans i) s;
        s \<leftarrow> read_holding_registers i (ans i) s;
        write_holding_registers i (ans i) s
      }
      else Some s)
   }"

text \<open>One pass over the devices; then the thread sleeps for the polling period.\<close>

definition query_pass :: "(nat \<Rightarrow> mb_answers) \<Rightarrow> mbm \<Rightarrow> mbm option" where
  "query_pass ans s =
     map_option mbm.truncate
       (for_each (query_device ans) [0..<unat (num_devices (cfg s))] (mbm.extend s (mbx.fields 0 0 0 0)))"

text \<open>The passes of the thread: the run flag, and what the main loop has done to the state in between.\<close>

fun querySlaveDevices :: "(bool \<times> (mbm \<Rightarrow> mbm) \<times> (nat \<Rightarrow> mb_answers)) list \<Rightarrow> mbm \<Rightarrow> mbm option" where
  "querySlaveDevices [] s = Some s"
| "querySlaveDevices ((run_openplc, main, ans) # ps) s =
     (if \<not> run_openplc then Some s else Option.bind (query_pass ans (main s)) (querySlaveDevices ps))"

section \<open>The start\<close>

text \<open>\<open>new_ctx i\<close> is what the library returns for device \<open>i\<close>.\<close>

definition init_device :: "(nat \<Rightarrow> nat option) \<Rightarrow> nat \<Rightarrow> mbm \<Rightarrow> mbm option" where
  "init_device new_ctx i s = do {
     d \<leftarrow> device_at i s;
     let ds = mb_devices (cfg s);
     (c, s) \<leftarrow> (if protocol d = MB_TCP then Some (new_ctx i, request_mb (New_Tcp (cstr (dev_address d)) (ip_port d)) s)
       else if protocol d = MB_RTU
       then (case filter (\<lambda>a. cstr (dev_address d) = cstr (dev_address (ds ! a))) [0..<i] of
           [] \<Rightarrow> Some (new_ctx i, request_mb (New_Rtu (cstr (dev_address d)) (rtu_baud d) (rtu_parity d) (rtu_data_bit d) (rtu_stop_bit d)) s)
         | a # _ \<Rightarrow> do {
             let e = ds ! a;
             s \<leftarrow> (if rtu_baud d \<noteq> rtu_baud e \<or> rtu_parity d \<noteq> rtu_parity e \<or> rtu_data_bit d \<noteq> rtu_data_bit e \<or> rtu_stop_bit d \<noteq> rtu_stop_bit e
               then mb_log (''Warning MB device '' @ cstr (dev_name d) @ '' port setting missmatch'' @ nl) s else Some s);
             Some (mb_ctx e, s)
           })
       else Some (mb_ctx d, s));
     let s = s\<lparr>cfg := (cfg s)\<lparr>mb_devices := (mb_devices (cfg s))[i := d\<lparr>mb_ctx := c\<rparr>]\<rparr>\<rparr>;
     let s = request_mb (Set_Slave c (dev_id d)) s;
     let t = unat (timeout (cfg s));
     Some (request_mb (Set_Response_Timeout c (t div 1000) (t mod 1000 * 1000)) s)
   }"

text \<open>The second component says whether the thread is started.\<close>

definition initializeMB :: "cfg_junk \<Rightarrow> string list option \<Rightarrow> (nat \<Rightarrow> nat option) \<Rightarrow> mbm \<Rightarrow> (mbm \<times> bool) option" where
  "initializeMB junk file new_ctx s = do {
     s \<leftarrow> parseConfig junk file s;
     s \<leftarrow> for_each (init_device new_ctx) [0..<unat (num_devices (cfg s))] s;
     Some (s\<lparr>mb_img := store_lint (special_functions (mb_img s) 2) 0 (mb_img s)\<rparr>, num_devices (cfg s) > 0)
   }"

section \<open>The process image\<close>

definition in_mb_step :: "nat \<Rightarrow> mbm \<Rightarrow> mbm option" where
  "in_mb_step i s = do {
     q \<leftarrow> bool_at (bool_input (mb_img s)) (100 + i div 8) (i mod 8);
     b \<leftarrow> rd (bool_input_buf s) i;
     let p = store_bool q b (mb_img s);
     r \<leftarrow> tab_at (int_input p) (100 + i);
     w \<leftarrow> rd (int_input_buf s) i;
     Some (s\<lparr>mb_img := store_uint r w p\<rparr>)
   }"

definition updateBuffersIn_MB :: "mbm \<Rightarrow> mbm option" where
  "updateBuffersIn_MB s = do {
     s \<leftarrow> io_lock s;
     s \<leftarrow> for_each in_mb_step [0..<MAX_MB_IO] s;
     io_unlock s
   }"

definition out_mb_step :: "nat \<Rightarrow> mbm \<Rightarrow> mbm option" where
  "out_mb_step i s = do {
     q \<leftarrow> bool_at (bool_output (mb_img s)) (100 + i div 8) (i mod 8);
     s \<leftarrow> (case q of None \<Rightarrow> Some s | Some a \<Rightarrow> map_option (\<lambda>b. s\<lparr>bool_output_buf := b\<rparr>) (wr (bool_output_buf s) i (bools (mb_img s) a)));
     r \<leftarrow> tab_at (int_output (mb_img s)) (100 + i);
     (case r of None \<Rightarrow> Some s | Some a \<Rightarrow> map_option (\<lambda>b. s\<lparr>int_output_buf := b\<rparr>) (wr (int_output_buf s) i (uints (mb_img s) a)))
   }"

definition updateBuffersOut_MB :: "mbm \<Rightarrow> mbm option" where
  "updateBuffersOut_MB s = do {
     s \<leftarrow> io_lock s;
     s \<leftarrow> for_each out_mb_step [0..<MAX_MB_IO] s;
     io_unlock s
   }"

end
