(* ===== verification/PlcMain.thy ===== *)
theory PlcMain
  imports Caas MbMaster Pstorage Modbus
begin

text \<open>
  The main function of the PLC runtime (Packetized-PLC-IO/main.cpp): the start, the scan cycle, which brings together the
  packet layer, the Modbus master and the program, and the shutdown. The process image is shared by all of them; it is
  kept with the node, and the master and the persistent storage are given it while they run. The program is generated
  from the PLC code by the MATIEC compiler and is an argument, and so are the clocks. The functions of custom_layer.h are
  empty, and the reading of the clock at the top of a cycle has no effect.
\<close>

section \<open>State\<close>

text \<open>
  The generated program: the addresses of its located variables, its initialisation, one run, and its cycle time.
\<close>

record program =
  ix :: nat
  qx :: nat
  config_init :: "plc \<Rightarrow> plc"
  config_run :: "32 word \<Rightarrow> plc \<Rightarrow> plc"
  common_ticktime :: int

record openplc =
  node :: caas
  master :: mbm
  cycle_counter :: "64 word"
  tick :: "32 word"
  plc_time :: iec_time

text \<open>What a cycle takes from outside: the packets, the results of the transfers, and the clock of the host.\<close>

record scan_env =
  rx_events :: "rx_event list"
  tx_ok :: "nat \<Rightarrow> bool"
  host_time :: "64 word"
  host_zone :: "64 word"
  host_dst :: bool

definition on_plc :: "(plc \<Rightarrow> plc option) \<Rightarrow> openplc \<Rightarrow> openplc option" where
  "on_plc f s = map_option (\<lambda>n. s\<lparr>node := n\<rparr>) (on_image f (node s))"

text \<open>The master works on the image of the node.\<close>

definition with_master :: "(mbm \<Rightarrow> mbm option) \<Rightarrow> openplc \<Rightarrow> openplc option" where
  "with_master f s = map_option (\<lambda>m. s\<lparr>master := m, node := (node s)\<lparr>image := mb_img m\<rparr>\<rparr>) (f ((master s)\<lparr>mb_img := image (node s)\<rparr>))"

section \<open>The scan cycle\<close>

definition special_step :: "scan_env \<Rightarrow> openplc \<Rightarrow> openplc option" where
  "special_step e s =
     (let (c, p) = handleSpecialFunctions (host_time e) (host_zone e) (host_dst e) (cycle_counter s, image (node s)) in
      on_plc (\<lambda>_. Some p) (s\<lparr>cycle_counter := c\<rparr>))"

definition program_step :: "program \<Rightarrow> openplc \<Rightarrow> openplc option" where
  "program_step P s = on_plc (\<lambda>p. Some (config_run P (tick s) p)) (s\<lparr>tick := tick s + 1\<rparr>)"

text \<open>What happens under the lock of the image.\<close>

definition logic_step :: "program \<Rightarrow> scan_env \<Rightarrow> openplc \<Rightarrow> openplc option" where
  "logic_step P e s = do {
     s \<leftarrow> on_plc lock s;
     s \<leftarrow> with_master updateBuffersIn_MB s;
     s \<leftarrow> special_step e s;
     s \<leftarrow> program_step P s;
     s \<leftarrow> with_master updateBuffersOut_MB s;
     on_plc unlock s
   }"

definition scan_cycle :: "program \<Rightarrow> scan_env \<Rightarrow> openplc \<Rightarrow> (rx_end \<times> openplc) option" where
  "scan_cycle P e s = do {
     s \<leftarrow> on_plc (\<lambda>p. Some (glueVars (ix P) (qx P) p)) s;
     (r, n) \<leftarrow> updateBuffersIn (rx_events e) (node s);
     let s = s\<lparr>node := n\<rparr>;
     (if r = Waiting then Some (Waiting, s)
      else do {
        s \<leftarrow> logic_step P e s;
        n \<leftarrow> updateBuffersOut (tx_ok e) (node s);
        Some (Released, s\<lparr>node := n, plc_time := updateTime (common_ticktime P) (plc_time s)\<rparr>)
      })
   }"

text \<open>
  The main loop: the run flag, what the other threads have done since the last cycle, and the cycle. It ends when the flag
  is cleared, or stays in a cycle whose packets do not come.
\<close>

fun main_loop :: "program \<Rightarrow> (bool \<times> (openplc \<Rightarrow> openplc) \<times> scan_env) list \<Rightarrow> openplc \<Rightarrow> (rx_end \<times> openplc) option" where
  "main_loop P [] s = Some (Released, s)"
| "main_loop P ((run_openplc, threads, e) # es) s =
     (if \<not> run_openplc then Some (Released, s)
      else do {
        (r, s) \<leftarrow> scan_cycle P e (threads s);
        (if r = Waiting then Some (Waiting, s) else main_loop P es s)
      })"

section \<open>The start\<close>

text \<open>What the start takes from outside; the last two are the events of the first call of \<open>updateBuffersIn\<close>.\<close>

record boot_env =
  node_line :: string
  topo_doc :: json
  sched_doc :: json
  tx_devs :: "(int \<times> bool) list"
  rx_devs :: "(int \<times> bool) list"
  pkt_junk :: "nat \<Rightarrow> 32 word"
  mb_junk :: cfg_junk
  mb_file :: "string list option"
  mb_contexts :: "nat \<Rightarrow> nat option"
  stored_file :: "byte list option"
  first_events :: "rx_event list"
  first_tx :: "nat \<Rightarrow> bool"

definition with_storage :: "byte list option \<Rightarrow> openplc \<Rightarrow> openplc option" where
  "with_storage file s =
     map_option (\<lambda>t. s\<lparr>master := (master s)\<lparr>mb_lg := ps_lg t\<rparr>, node := (node s)\<lparr>image := ps_img t\<rparr>\<rparr>)
       (readPersistentStorage \<lparr>ps_img = image (node s), ps_lg = mb_lg (master s), ps_file = file, persistentBuffer = []\<rparr>)"

text \<open>Up to the first exchange with the packet layer. The second component says whether the thread of the master runs.\<close>

definition openplc_init :: "program \<Rightarrow> boot_env \<Rightarrow> openplc \<Rightarrow> (openplc \<times> bool) option" where
  "openplc_init P b s = do {
     s \<leftarrow> with_master (mb_log (''OpenPLC Runtime starting...'' @ nl)) s;
     s \<leftarrow> on_plc (\<lambda>p. Some (glueVars (ix P) (qx P) (config_init P p))) s;
     n \<leftarrow> initializeHardware (node_line b) (topo_doc b) (sched_doc b) (tx_devs b) (rx_devs b) (pkt_junk b) (node s);
     (m, polling) \<leftarrow> initializeMB (mb_junk b) (mb_file b) (mb_contexts b) ((master s)\<lparr>mb_img := image n\<rparr>);
     s \<leftarrow> with_master (\<lambda>_. Some m) (s\<lparr>node := n\<rparr>);
     Some (s, polling)
   }"

definition openplc_start :: "program \<Rightarrow> boot_env \<Rightarrow> openplc \<Rightarrow> (rx_end \<times> openplc \<times> bool) option" where
  "openplc_start P b s = do {
     (s, polling) \<leftarrow> openplc_init P b s;
     (r, n) \<leftarrow> updateBuffersIn (first_events b) (node s);
     let s = s\<lparr>node := n\<rparr>;
     (if r = Waiting then Some (Waiting, s, polling)
      else do {
        n \<leftarrow> updateBuffersOut (first_tx b) (node s);
        s \<leftarrow> on_plc (\<lambda>p. Some (glueVars (ix P) (qx P) p)) (s\<lparr>node := n\<rparr>);
        s \<leftarrow> on_plc mapUnusedIO s;
        s \<leftarrow> with_storage (stored_file b) s;
        Some (Released, s, polling)
      })
   }"

section \<open>The end\<close>

text \<open>After the interactive server has been joined.\<close>

definition openplc_stop :: "(nat \<Rightarrow> bool) \<Rightarrow> openplc \<Rightarrow> openplc option" where
  "openplc_stop ok_tx s = do {
     s \<leftarrow> on_plc (\<lambda>p. Some (disableOutputs p)) s;
     n \<leftarrow> updateBuffersOut ok_tx (node s);
     Some (s\<lparr>node := n\<rparr>)
   }"

end
