(* ===== verification/MbMaster_Props.thy ===== *)
theory MbMaster_Props
  imports MbMaster
begin

text \<open>
  Every slave has its own part of the buffers, whatever happens to the others; what is read reaches the process image, and
  what the image holds is written; where a configuration or an error is fatal.
\<close>

section \<open>Slices of the buffers\<close>

definition splice :: "'v list \<Rightarrow> nat \<Rightarrow> 'v list \<Rightarrow> 'v list" where
  "splice b i vs = take i b @ vs @ drop (i + length vs) b"

lemma length_splice [simp]: "i + length vs \<le> length b \<Longrightarrow> length (splice b i vs) = length b"
  by (simp add: splice_def)

lemma splice_Nil [simp]: "splice b i [] = b"
  by (simp add: splice_def)

lemma splice_Cons: "i < length b \<Longrightarrow> splice (b[i := v]) (Suc i) vs = splice b i (v # vs)"
  by (simp add: splice_def take_Suc_conv_app_nth)

lemma index_step:
  assumes "unat (k :: 16 word) < 400"
  shows "unat (k + 1) = unat k + 1"
  using assms unat_plus_small[of k 1] by simp

lemma put_bools:
  assumes "unat (bool_input_index s) + length vs \<le> length (bool_input_buf s)" "length (bool_input_buf s) = 400"
  shows "for_each put_bool_input vs s = Some (s\<lparr>bool_input_buf := splice (bool_input_buf s) (unat (bool_input_index s)) vs,
    bool_input_index := bool_input_index s + of_nat (length vs)\<rparr>)"
  using assms
proof (induction vs arbitrary: s)
  case (Cons v vs)
  let ?i = "bool_input_index s"
  let ?s = "s\<lparr>bool_input_buf := (bool_input_buf s)[unat ?i := v], bool_input_index := ?i + 1\<rparr>"
  have i: "unat ?i < 400" "unat (?i + 1) = Suc (unat ?i)" using Cons.prems index_step[of ?i] by simp_all
  have "put_bool_input v s = Some ?s" using Cons.prems by (simp add: put_bool_input_def wr_def)
  moreover have "for_each put_bool_input vs ?s = Some (?s\<lparr>bool_input_buf := splice (bool_input_buf ?s) (unat (bool_input_index ?s)) vs,
    bool_input_index := bool_input_index ?s + of_nat (length vs)\<rparr>)"
    using Cons.prems i by (intro Cons.IH) simp_all
  ultimately show ?case using Cons.prems i by (simp add: splice_Cons ac_simps)
qed simp

lemma put_ints:
  assumes "unat (int_input_index s) + length vs \<le> length (int_input_buf s)" "length (int_input_buf s) = 400"
  shows "for_each put_int_input vs s = Some (s\<lparr>int_input_buf := splice (int_input_buf s) (unat (int_input_index s)) vs,
    int_input_index := int_input_index s + of_nat (length vs)\<rparr>)"
  using assms
proof (induction vs arbitrary: s)
  case (Cons v vs)
  let ?i = "int_input_index s"
  let ?s = "s\<lparr>int_input_buf := (int_input_buf s)[unat ?i := v], int_input_index := ?i + 1\<rparr>"
  have i: "unat ?i < 400" "unat (?i + 1) = Suc (unat ?i)" using Cons.prems index_step[of ?i] by simp_all
  have "put_int_input v s = Some ?s" using Cons.prems by (simp add: put_int_input_def wr_def)
  moreover have "for_each put_int_input vs ?s = Some (?s\<lparr>int_input_buf := splice (int_input_buf ?s) (unat (int_input_index ?s)) vs,
    int_input_index := int_input_index ?s + of_nat (length vs)\<rparr>)"
    using Cons.prems i by (intro Cons.IH) simp_all
  ultimately show ?case using Cons.prems i by (simp add: splice_Cons ac_simps)
qed simp

lemma take_coils:
  assumes "unat (bool_output_index s) + n \<le> length (bool_output_buf s)" "length (bool_output_buf s) = 400"
  shows "for_each take_coil [0..<n] (t, s) = Some (t @ take n (drop (unat (bool_output_index s)) (bool_output_buf s)),
    s\<lparr>bool_output_index := bool_output_index s + of_nat n\<rparr>)"
  using assms
proof (induction n)
  case (Suc n)
  let ?i = "bool_output_index s"
  have "n < 2 ^ 16" using Suc.prems by simp
  then have "unat (?i + of_nat n) = unat ?i + n" using Suc.prems
    by (subst unat_plus_small) (simp_all add: unat_of_nat take_bit_nat_eq_self)
  moreover have "take (Suc n) (drop (unat ?i) (bool_output_buf s)) = take n (drop (unat ?i) (bool_output_buf s)) @ [bool_output_buf s ! (unat ?i + n)]"
    using Suc.prems by (simp add: take_Suc_conv_app_nth)
  ultimately show ?case using Suc by (simp add: for_each_append take_coil_def rd_def ac_simps)
qed simp

lemma take_registers:
  assumes "unat (int_output_index s) + n \<le> length (int_output_buf s)" "length (int_output_buf s) = 400"
  shows "for_each take_register [0..<n] (t, s) = Some (t @ take n (drop (unat (int_output_index s)) (int_output_buf s)),
    s\<lparr>int_output_index := int_output_index s + of_nat n\<rparr>)"
  using assms
proof (induction n)
  case (Suc n)
  let ?i = "int_output_index s"
  have "n < 2 ^ 16" using Suc.prems by simp
  then have "unat (?i + of_nat n) = unat ?i + n" using Suc.prems
    by (subst unat_plus_small) (simp_all add: unat_of_nat take_bit_nat_eq_self)
  moreover have "take (Suc n) (drop (unat ?i) (int_output_buf s)) = take n (drop (unat ?i) (int_output_buf s)) @ [int_output_buf s ! (unat ?i + n)]"
    using Suc.prems by (simp add: take_Suc_conv_app_nth)
  ultimately show ?case using Suc by (simp add: for_each_append take_register_def rd_def ac_simps)
qed simp

section \<open>What a poll of a device does\<close>

text \<open>
  A step that ends in a state with the given property when the condition holds, and faults otherwise.
\<close>

definition outcome :: "bool \<Rightarrow> ('a \<Rightarrow> bool) \<Rightarrow> 'a option \<Rightarrow> bool" where
  "outcome c P x \<longleftrightarrow> (if c then \<exists>t. x = Some t \<and> P t else x = None)"

lemma outcome_Some: "c \<Longrightarrow> P t \<Longrightarrow> outcome c P (Some t)"
  by (simp add: outcome_def)

lemma outcome_bind:
  assumes "outcome c P x" "\<And>t. c \<Longrightarrow> P t \<Longrightarrow> outcome c' Q (f t)" "c' \<Longrightarrow> c"
  shows "outcome c' Q (Option.bind x f)"
  using assms by (cases c) (auto simp: outcome_def)

lemma outcome_mono: "outcome c P x \<Longrightarrow> (\<And>t. P t \<Longrightarrow> Q t) \<Longrightarrow> outcome c Q x"
  by (auto simp: outcome_def)

lemma outcome_for_upt:
  assumes "I 0 s" "c 0" and "\<And>i t. i < n \<Longrightarrow> c i \<Longrightarrow> I i t \<Longrightarrow> outcome (c (Suc i)) (I (Suc i)) (f i t)" and "\<And>i. c (Suc i) \<Longrightarrow> c i"
  shows "outcome (c n) (I n) (for_each f [0..<n] s)"
  using assms(3)
proof (induction n)
  case 0
  then show ?case using assms(1,2) by (simp add: outcome_Some)
next
  case (Suc n)
  have "outcome (c n) (I n) (for_each f [0..<n] s)" by (rule Suc.IH) (use Suc.prems in simp)
  moreover have "for_each f [] = Some" by (rule ext) simp
  then have "for_each f [0..<Suc n] s = Option.bind (for_each f [0..<n] s) (f n)" by (cases "for_each f [0..<n] s") (simp_all add: for_each_append)
  ultimately show ?case using Suc.prems[of n] assms(4)[of n] by (auto intro: outcome_bind)
qed

text \<open>
  The error counter has room for a number of further errors: it is not located in the program, or the pointer is still
  on its variable for each of them.
\<close>

definition room :: "'a mbm_scheme \<Rightarrow> nat \<Rightarrow> bool" where
  "room s e \<longleftrightarrow> special_functions (mb_img s) 2 = None \<or> e = 0 \<or> sf2 s + e \<le> 1"

definition moved :: "'a mbm_scheme \<Rightarrow> nat \<Rightarrow> nat" where
  "moved s e = (if special_functions (mb_img s) 2 = None then 0 else e)"

lemma room_0 [simp]: "room s 0"
  by (simp add: room_def)

text \<open>
  What steps for device \<open>i\<close> do to the state: whether it is connected then, the number of errors, the requests, how far
  the four indices have moved, and the input buffers.
\<close>

definition became :: "nat \<Rightarrow> bool \<Rightarrow> nat \<Rightarrow> mb_request list \<Rightarrow> 16 word \<Rightarrow> 16 word \<Rightarrow> 16 word \<Rightarrow> 16 word \<Rightarrow> byte list \<Rightarrow> 16 word list \<Rightarrow> mbx \<Rightarrow> mbx \<Rightarrow> bool" where
  "became i u e rs bi bo ii io b w s t \<longleftrightarrow>
     cfg t = (cfg s)\<lparr>mb_devices := (mb_devices (cfg s))[i := (mb_devices (cfg s) ! i)\<lparr>isConnected := u\<rparr>]\<rparr> \<and>
     mb_img t = mb_img s \<and> sf2 t = sf2 s + moved s e \<and> ioLock t = ioLock s \<and> bool_output_buf t = bool_output_buf s \<and> int_output_buf t = int_output_buf s \<and>
     log_inv (mb_lg t) \<and> requests t = requests s @ rs \<and> bool_input_index t = bool_input_index s + bi \<and> bool_output_index t = bool_output_index s + bo \<and>
     int_input_index t = int_input_index s + ii \<and> int_output_index t = int_output_index s + io \<and> bool_input_buf t = b \<and> int_input_buf t = w"

definition linked :: "nat \<Rightarrow> mbx \<Rightarrow> bool" where
  "linked i s = isConnected (mb_devices (cfg s) ! i)"

text \<open>A state in which the thread can poll device \<open>i\<close>.\<close>

definition pollable :: "nat \<Rightarrow> MB_device \<Rightarrow> mbx \<Rightarrow> bool" where
  "pollable i d s \<longleftrightarrow> i < length (mb_devices (cfg s)) \<and> (\<exists>b. mb_devices (cfg s) ! i = d\<lparr>isConnected := b\<rparr>) \<and> length (dev_name d) = 100 \<and>
     \<not> ioLock s \<and> log_inv (mb_lg s) \<and> length (bool_input_buf s) = 400 \<and> length (int_input_buf s) = 400 \<and>
     length (bool_output_buf s) = 400 \<and> length (int_output_buf s) = 400"

lemma became_refl: "pollable i d s \<Longrightarrow> became i (linked i s) 0 [] 0 0 0 0 (bool_input_buf s) (int_input_buf s) s s"
  by (simp add: became_def linked_def pollable_def moved_def)

lemma became_trans:
  assumes "became i u e rs bi bo ii io b w s t" "became i u' e' rs' bi' bo' ii' io' b' w' t v" "i < length (mb_devices (cfg s))"
  shows "became i u' (e + e') (rs @ rs') (bi + bi') (bo + bo') (ii + ii') (io + io') b' w' s v"
  using assms by (simp add: became_def moved_def add.assoc)

lemma became_linked: "became i u e rs bi bo ii io b w s t \<Longrightarrow> i < length (mb_devices (cfg s)) \<Longrightarrow> linked i t = u"
  by (simp add: became_def linked_def)

lemma became_room: "became i u e rs bi bo ii io b w s t \<Longrightarrow> room s e \<Longrightarrow> room t e' = room s (e + e')"
  by (auto simp: became_def room_def moved_def)

lemma became_pollable:
  assumes "became i u e rs bi bo ii io b w s t" "pollable i d s" "length b = 400" "length w = 400"
  shows "pollable i d t"
  using assms by (auto simp: pollable_def became_def)

lemma mb_logE:
  assumes "log_inv (mb_lg s)" "length m < 1000"
  obtains l where "mb_log m s = Some (s\<lparr>mb_lg := l\<rparr>)" "log_inv l"
proof -
  have "ok (runtime_log m (mb_lg s)) log_inv" using assms by (intro ok_runtime_log) simp_all
  then show thesis using that assms(2) by (auto simp: mb_log_def ok_iff)
qed

lemma cstr_length: "length (cstr b) \<le> length b"
  by (simp add: cstr_def length_takeWhile_le)

lemma named_short: "length (dev_name d) = 100 \<Longrightarrow> length what < 100 \<Longrightarrow> length err < 700 \<Longrightarrow> length (named d what err) < 1000"
  using cstr_length[of "dev_name d"] by (simp add: named_def nl_def)

text \<open>The second error, counted with the pointer moved, is a fault.\<close>

lemma count_error_became:
  assumes "became i u 0 rs bi bo ii io b w s v"
  shows "outcome (room s 1) (became i u 1 rs bi bo ii io b w s) (count_error v)"
  using assms by (auto simp: outcome_def count_error_def room_def became_def moved_def)

text \<open>After an error a device on TCP is closed; the error is reported.\<close>

definition closing :: "MB_device \<Rightarrow> mb_request list" where
  "closing d = (if protocol d \<noteq> MB_RTU then [Close (mb_ctx d)] else [])"

lemma after_error:
  assumes p: "pollable i d s" and at: "device_at i s = Some d'" and l: "length what < 100" "length err < 700"
  obtains v where "mb_log (named d' what err) (close_after_error i d' s) = Some v"
    "became i (linked i s \<and> protocol d = MB_RTU) 0 (closing d) 0 0 0 0 (bool_input_buf s) (int_input_buf s) s v"
proof -
  obtain b where d: "d' = d\<lparr>isConnected := b\<rparr>" "mb_devices (cfg s) ! i = d'" "i < length (mb_devices (cfg s))"
    using p at by (auto simp: pollable_def device_at_def rd_def split: if_splits)
  let ?s = "close_after_error i d' s"
  have "log_inv (mb_lg ?s)" using p by (simp add: close_after_error_def set_connected_def request_mb_def pollable_def)
  moreover have "length (named d' what err) < 1000" using p l d(1) by (intro named_short) (simp_all add: pollable_def)
  ultimately obtain g where g: "mb_log (named d' what err) ?s = Some (?s\<lparr>mb_lg := g\<rparr>)" "log_inv g" by (rule mb_logE)
  have "became i (linked i s \<and> protocol d = MB_RTU) 0 (closing d) 0 0 0 0 (bool_input_buf s) (int_input_buf s) s (?s\<lparr>mb_lg := g\<rparr>)"
  proof (cases "protocol d = MB_RTU")
    case True
    then show ?thesis using became_refl[OF p] d g(2) by (simp add: close_after_error_def became_def closing_def)
  next
    case False
    then show ?thesis using d g(2) by (simp add: close_after_error_def became_def closing_def set_connected_def request_mb_def moved_def)
  qed
  then show thesis using g(1) by (intro that)
qed

section \<open>The requests to one device\<close>

text \<open>Exact answers: the library returns as many values as were asked for.\<close>

definition exact :: "MB_device \<Rightarrow> mb_answers \<Rightarrow> bool" where
  "exact d a \<longleftrightarrow> (\<forall>vs. bits_read a = Some vs \<longrightarrow> length vs = unat (num_regs (discrete_inputs d))) \<and>
     (\<forall>vs. input_read a = Some vs \<longrightarrow> length vs = unat (num_regs (input_registers d))) \<and>
     (\<forall>vs. holding_read a = Some vs \<longrightarrow> length vs = unat (num_regs (holding_read_registers d))) \<and> length (error_text a) < 700"

definition spliced :: "'v list \<Rightarrow> 16 word \<Rightarrow> 'v list option \<Rightarrow> 'v list" where
  "spliced b k r = (case r of None \<Rightarrow> b | Some vs \<Rightarrow> splice b (unat k) vs)"

text \<open>One kind of request: none when the device has no such registers; after an error a device on TCP is closed.\<close>

definition request_of :: "MB_device \<Rightarrow> 16 word \<Rightarrow> mb_request \<Rightarrow> bool \<Rightarrow> mb_request list" where
  "request_of d n r bad = (if n = 0 then [] else if bad then r # closing d else [r])"

definition error_of :: "16 word \<Rightarrow> bool \<Rightarrow> nat" where
  "error_of n bad = (if n \<noteq> 0 \<and> bad then 1 else 0)"

text \<open>All requests of a poll, with the values that are written, and the number of those that fail.\<close>

definition bits_requests :: "MB_device \<Rightarrow> mb_answers \<Rightarrow> mb_request list" where
  "bits_requests d a = (let r = discrete_inputs d in
     request_of d (num_regs r) (Read_Input_Bits (mb_ctx d) (start_address r) (num_regs r)) (bits_read a = None))"

definition coil_requests :: "MB_device \<Rightarrow> mb_answers \<Rightarrow> byte list \<Rightarrow> mb_request list" where
  "coil_requests d a cs = request_of d (num_regs (coils d)) (Write_Bits (mb_ctx d) (start_address (coils d)) cs) (\<not> coils_written a)"

definition input_requests :: "MB_device \<Rightarrow> mb_answers \<Rightarrow> mb_request list" where
  "input_requests d a = (let r = input_registers d in
     request_of d (num_regs r) (Read_Input_Registers (mb_ctx d) (start_address r) (num_regs r)) (input_read a = None))"

definition holding_requests :: "MB_device \<Rightarrow> mb_answers \<Rightarrow> mb_request list" where
  "holding_requests d a = (let r = holding_read_registers d in
     request_of d (num_regs r) (Read_Registers (mb_ctx d) (start_address r) (num_regs r)) (holding_read a = None))"

definition register_requests :: "MB_device \<Rightarrow> mb_answers \<Rightarrow> 16 word list \<Rightarrow> mb_request list" where
  "register_requests d a ws =
     request_of d (num_regs (holding_registers d)) (Write_Registers (mb_ctx d) (start_address (holding_registers d)) ws) (\<not> holding_written a)"

definition poll_requests :: "MB_device \<Rightarrow> mb_answers \<Rightarrow> byte list \<Rightarrow> 16 word list \<Rightarrow> mb_request list" where
  "poll_requests d a cs ws = bits_requests d a @ coil_requests d a cs @ input_requests d a @ holding_requests d a @ register_requests d a ws"

definition poll_errors :: "MB_device \<Rightarrow> mb_answers \<Rightarrow> nat" where
  "poll_errors d a = error_of (num_regs (discrete_inputs d)) (bits_read a = None) + error_of (num_regs (coils d)) (\<not> coils_written a) +
     error_of (num_regs (input_registers d)) (input_read a = None) + error_of (num_regs (holding_read_registers d)) (holding_read a = None) +
     error_of (num_regs (holding_registers d)) (\<not> holding_written a)"

lemma pollable_device:
  assumes "pollable i d s"
  obtains d' where "device_at i s = Some d'" "d' = d\<lparr>isConnected := linked i s\<rparr>"
  using assms by (auto simp: pollable_def device_at_def rd_def linked_def)

lemma asked_simps [simp]:
  "cfg (request_mb r s) = cfg s" "bool_input_buf (request_mb r s) = bool_input_buf s" "int_input_buf (request_mb r s) = int_input_buf s"
  "bool_output_buf (request_mb r s) = bool_output_buf s" "int_output_buf (request_mb r s) = int_output_buf s" "ioLock (request_mb r s) = ioLock s"
  "mb_img (request_mb r s) = mb_img s" "sf2 (request_mb r s) = sf2 s" "mb_lg (request_mb r s) = mb_lg s" "requests (request_mb r s) = requests s @ [r]"
  "device_at i (request_mb r s) = device_at i s"
  by (simp_all add: request_mb_def device_at_def)

lemma request_index [simp]:
  "bool_input_index (request_mb r s) = bool_input_index s" "int_input_index (request_mb r s) = int_input_index s"
  "bool_output_index (request_mb r s) = bool_output_index s" "int_output_index (request_mb r s) = int_output_index s"
  "linked i (request_mb r s) = linked i s"
  by (simp_all add: request_mb_def linked_def)

lemma pollable_request: "pollable i d (request_mb r s) = pollable i d s"
  by (simp add: pollable_def)

lemma became_request: "pollable i d s \<Longrightarrow> became i (linked i s) 0 [r] 0 0 0 0 (bool_input_buf s) (int_input_buf s) s (request_mb r s)"
  by (simp add: became_def linked_def pollable_def moved_def)

lemma poll_step_refl:
  "pollable i d s \<Longrightarrow> n = 0 \<Longrightarrow> b = bool_input_buf s \<Longrightarrow> w = int_input_buf s \<Longrightarrow> e = error_of n bad \<Longrightarrow>
    became i (linked i s \<and> (protocol d = MB_RTU \<or> e = 0)) e (request_of d n r bad) 0 0 0 0 b w s s"
  using became_refl[of i d s] by (simp add: error_of_def request_of_def)

lemma spliced_none [simp]: "spliced b k None = b"
  by (simp add: spliced_def)

text \<open>A request that fails, with the move of the indices over its part.\<close>

lemma failed_request:
  assumes p: "pollable i d s" and at: "device_at i s = Some d'" and n: "n \<noteq> 0" "bad" and l: "length what < 100" "length (error_text a) < 700"
    and s: "s' = request_mb r (s\<lparr>bool_output_index := bool_output_index s + bo, int_output_index := int_output_index s + io\<rparr>)"
  shows "outcome (room s (error_of n bad))
    (became i (linked i s \<and> (protocol d = MB_RTU \<or> error_of n bad = 0)) (error_of n bad) (request_of d n r bad) bi bo ii io (bool_input_buf s) (int_input_buf s) s)
    (Option.bind (mb_log (named d' what (error_text a)) (close_after_error i d' s'))
      (\<lambda>s. count_error (s\<lparr>bool_input_index := bool_input_index s + bi, int_input_index := int_input_index s + ii\<rparr>)))"
proof -
  have p': "pollable i d s'" and at': "device_at i s' = Some d'" using p at unfolding s by (simp_all add: pollable_def device_at_def)
  obtain v where v: "mb_log (named d' what (error_text a)) (close_after_error i d' s') = Some v"
    "became i (linked i s' \<and> protocol d = MB_RTU) 0 (closing d) 0 0 0 0 (bool_input_buf s') (int_input_buf s') s' v"
    by (rule after_error[OF p' at' l])
  let ?v = "v\<lparr>bool_input_index := bool_input_index v + bi, int_input_index := int_input_index v + ii\<rparr>"
  have "became i (linked i s \<and> protocol d = MB_RTU) 0 (r # closing d) bi bo ii io (bool_input_buf s) (int_input_buf s) s ?v"
    using v(2) unfolding s by (simp add: became_def linked_def moved_def)
  from count_error_became[OF this] show ?thesis using n by (simp add: v(1) error_of_def request_of_def)
qed

lemma read_discrete_poll:
  assumes p: "pollable i d s" and n: "unat (bool_input_index s) + unat (num_regs (discrete_inputs d)) \<le> 400" and a: "exact d a"
    and e: "e = error_of (num_regs (discrete_inputs d)) (bits_read a = None)"
  shows "outcome (room s e) (became i (linked i s \<and> (protocol d = MB_RTU \<or> e = 0)) e
      (bits_requests d a) (num_regs (discrete_inputs d)) 0 0 0 (spliced (bool_input_buf s) (bool_input_index s) (bits_read a)) (int_input_buf s) s)
    (read_discrete i a s)"
proof -
  obtain d' where d: "device_at i s = Some d'" "d' = d\<lparr>isConnected := linked i s\<rparr>" using p by (rule pollable_device)
  let ?n = "num_regs (discrete_inputs d)"
  show ?thesis
  proof (cases "?n = 0")
    case True
    then have "read_discrete i a s = Some s" "spliced (bool_input_buf s) (bool_input_index s) (bits_read a) = bool_input_buf s"
      using d a by (auto simp: read_discrete_def spliced_def exact_def Let_def split: option.splits)
    then show ?thesis using True poll_step_refl[OF p True refl refl e] e by (simp add: outcome_Some error_of_def bits_requests_def Let_def)
  next
    case False
    let ?r = "Read_Input_Bits (mb_ctx d) (start_address (discrete_inputs d)) ?n"
    let ?s = "request_mb ?r s"
    show ?thesis
    proof (cases "bits_read a")
      case None
      then have "read_discrete i a s = Option.bind (mb_log (named d' ''Modbus Read Discrete Input Registers'' (error_text a)) (close_after_error i d' ?s))
          (\<lambda>s. count_error (s\<lparr>bool_input_index := bool_input_index s + ?n, int_input_index := int_input_index s + 0\<rparr>))"
        using False d by (simp add: read_discrete_def answer_def Let_def)
      moreover have "length (error_text a) < 700" using a by (simp add: exact_def)
      ultimately show ?thesis using failed_request[OF p d(1) False, of True "''Modbus Read Discrete Input Registers''" a ?s ?r 0 0 ?n 0] None e by (simp add: bits_requests_def Let_def)
    next
      case (Some vs)
      then have l: "length vs = unat ?n" using a by (simp add: exact_def)
      let ?l = "?s\<lparr>ioLock := True\<rparr>"
      let ?t = "?s\<lparr>bool_input_buf := splice (bool_input_buf s) (unat (bool_input_index s)) vs, bool_input_index := bool_input_index s + ?n\<rparr>"
      have "for_each put_bool_input vs ?l = Some (?t\<lparr>ioLock := True\<rparr>)"
        using put_bools[of ?l vs] n l p by (simp add: pollable_def)
      moreover have "?t\<lparr>ioLock := False\<rparr> = ?t" using p by (simp add: pollable_def mbx.equality)
      ultimately have "read_discrete i a s = Some ?t" using False d Some l p
        by (simp add: read_discrete_def answer_def Let_def io_lock_def io_unlock_def pollable_def)
      then show ?thesis using False Some became_request[OF p, of ?r] e
        by (simp add: outcome_Some error_of_def bits_requests_def Let_def request_of_def became_def spliced_def)
    qed
  qed
qed

lemma read_registers_poll:
  assumes p: "pollable i d s" and n: "unat (int_input_index s) + unat (num_regs (regs d)) \<le> 400"
    and a: "\<forall>vs. res a = Some vs \<longrightarrow> length vs = unat (num_regs (regs d))" "length (error_text a) < 700"
    and r: "\<And>b. regs (d\<lparr>isConnected := b\<rparr>) = regs d" and w: "length what < 100" and e: "e = error_of (num_regs (regs d)) (res a = None)"
  shows "outcome (room s e) (became i (linked i s \<and> (protocol d = MB_RTU \<or> e = 0)) e
      (request_of d (num_regs (regs d)) (req (mb_ctx d) (start_address (regs d)) (num_regs (regs d))) (res a = None))
      0 0 (num_regs (regs d)) 0 (bool_input_buf s) (spliced (int_input_buf s) (int_input_index s) (res a)) s)
    (read_registers regs req what res i a s)"
proof -
  obtain d' where d: "device_at i s = Some d'" "d' = d\<lparr>isConnected := linked i s\<rparr>" using p by (rule pollable_device)
  let ?n = "num_regs (regs d)"
  show ?thesis
  proof (cases "?n = 0")
    case True
    then have "read_registers regs req what res i a s = Some s" "spliced (int_input_buf s) (int_input_index s) (res a) = int_input_buf s"
      using d a r by (auto simp: read_registers_def spliced_def Let_def split: option.splits)
    then show ?thesis using True poll_step_refl[OF p True refl refl e] e by (simp add: outcome_Some error_of_def)
  next
    case False
    let ?r = "req (mb_ctx d) (start_address (regs d)) ?n"
    let ?s = "request_mb ?r s"
    show ?thesis
    proof (cases "res a")
      case None
      then have "read_registers regs req what res i a s = Option.bind (mb_log (named d' what (error_text a)) (close_after_error i d' ?s))
          (\<lambda>s. count_error (s\<lparr>bool_input_index := bool_input_index s + 0, int_input_index := int_input_index s + ?n\<rparr>))"
        using False d r by (simp add: read_registers_def answer_def Let_def)
      then show ?thesis using failed_request[OF p d(1) False, of True what a ?s ?r 0 0 0 ?n] None e w a(2) by simp
    next
      case (Some vs)
      then have l: "length vs = unat ?n" using a by simp
      let ?l = "?s\<lparr>ioLock := True\<rparr>"
      let ?t = "?s\<lparr>int_input_buf := splice (int_input_buf s) (unat (int_input_index s)) vs, int_input_index := int_input_index s + ?n\<rparr>"
      have "for_each put_int_input vs ?l = Some (?t\<lparr>ioLock := True\<rparr>)"
        using put_ints[of ?l vs] n l p by (simp add: pollable_def)
      moreover have "?t\<lparr>ioLock := False\<rparr> = ?t" using p by (simp add: pollable_def mbx.equality)
      ultimately have "read_registers regs req what res i a s = Some ?t" using False d r Some l p
        by (simp add: read_registers_def answer_def Let_def io_lock_def io_unlock_def pollable_def)
      then show ?thesis using False Some became_request[OF p, of ?r] e
        by (simp add: outcome_Some error_of_def request_of_def became_def spliced_def)
    qed
  qed
qed

text \<open>The writes: the slice of the output buffer is sent, and nothing is read.\<close>

lemma write_coils_poll:
  assumes p: "pollable i d s" and n: "unat (bool_output_index s) + unat (num_regs (coils d)) \<le> 400" and a: "length (error_text a) < 700"
    and e: "e = error_of (num_regs (coils d)) (\<not> coils_written a)"
  shows "outcome (room s e) (became i (linked i s \<and> (protocol d = MB_RTU \<or> e = 0)) e
      (coil_requests d a (take (unat (num_regs (coils d))) (drop (unat (bool_output_index s)) (bool_output_buf s))))
      0 (num_regs (coils d)) 0 0 (bool_input_buf s) (int_input_buf s) s)
    (write_coils i a s)"
proof -
  obtain d' where d: "device_at i s = Some d'" "d' = d\<lparr>isConnected := linked i s\<rparr>" using p by (rule pollable_device)
  let ?n = "num_regs (coils d)"
  show ?thesis
  proof (cases "?n = 0")
    case True
    then have "write_coils i a s = Some s" using d by (simp add: write_coils_def Let_def)
    then show ?thesis using True poll_step_refl[OF p True refl refl e] e by (simp add: outcome_Some error_of_def coil_requests_def)
  next
    case False
    let ?v = "take (unat ?n) (drop (unat (bool_output_index s)) (bool_output_buf s))"
    let ?r = "Write_Bits (mb_ctx d) (start_address (coils d)) ?v"
    let ?l = "s\<lparr>ioLock := True\<rparr>" and ?i = "s\<lparr>bool_output_index := bool_output_index s + ?n\<rparr>"
    let ?s = "request_mb ?r ?i"
    have "for_each take_coil [0..<unat ?n] ([], ?l) = Some (?v, ?i\<lparr>ioLock := True\<rparr>)"
      using take_coils[of ?l "unat ?n" "[]"] n p by (simp add: pollable_def)
    moreover have "io_lock s = Some ?l" "io_unlock (?i\<lparr>ioLock := True\<rparr>) = Some ?i" using p by (simp_all add: io_lock_def io_unlock_def pollable_def mbx.equality)
    ultimately have run: "write_coils i a s = (if coils_written a then Some ?s
      else Option.bind (mb_log (named d' ''Modbus Write Coils'' (error_text a)) (close_after_error i d' ?s))
          (\<lambda>s. count_error (s\<lparr>bool_input_index := bool_input_index s + 0, int_input_index := int_input_index s + 0\<rparr>)))"
      using False d by (simp add: write_coils_def Let_def)
    show ?thesis
    proof (cases "coils_written a")
      case True
      then show ?thesis using False run e p
        by (simp add: outcome_Some error_of_def coil_requests_def request_of_def became_def linked_def moved_def pollable_def)
    next
      case bad: False
      have s: "?s = request_mb ?r (s\<lparr>bool_output_index := bool_output_index s + ?n, int_output_index := int_output_index s + 0\<rparr>)" by simp
      have l: "length ''Modbus Write Coils'' < 100" by simp
      show ?thesis unfolding run e if_not_P[OF bad] using failed_request[OF p d(1) False bad l a s, of 0 0] by (simp add: coil_requests_def)
    qed
  qed
qed

lemma write_holding_registers_poll:
  assumes p: "pollable i d s" and n: "unat (int_output_index s) + unat (num_regs (holding_registers d)) \<le> 400" and a: "length (error_text a) < 700"
    and e: "e = error_of (num_regs (holding_registers d)) (\<not> holding_written a)"
  shows "outcome (room s e) (became i (linked i s \<and> (protocol d = MB_RTU \<or> e = 0)) e
      (register_requests d a (take (unat (num_regs (holding_registers d))) (drop (unat (int_output_index s)) (int_output_buf s))))
      0 0 0 (num_regs (holding_registers d)) (bool_input_buf s) (int_input_buf s) s)
    (write_holding_registers i a s)"
proof -
  obtain d' where d: "device_at i s = Some d'" "d' = d\<lparr>isConnected := linked i s\<rparr>" using p by (rule pollable_device)
  let ?n = "num_regs (holding_registers d)"
  show ?thesis
  proof (cases "?n = 0")
    case True
    then have "write_holding_registers i a s = Some s" using d by (simp add: write_holding_registers_def Let_def)
    then show ?thesis using True poll_step_refl[OF p True refl refl e] e by (simp add: outcome_Some error_of_def register_requests_def)
  next
    case False
    let ?v = "take (unat ?n) (drop (unat (int_output_index s)) (int_output_buf s))"
    let ?r = "Write_Registers (mb_ctx d) (start_address (holding_registers d)) ?v"
    let ?l = "s\<lparr>ioLock := True\<rparr>" and ?i = "s\<lparr>int_output_index := int_output_index s + ?n\<rparr>"
    let ?s = "request_mb ?r ?i"
    have "for_each take_register [0..<unat ?n] ([], ?l) = Some (?v, ?i\<lparr>ioLock := True\<rparr>)"
      using take_registers[of ?l "unat ?n" "[]"] n p by (simp add: pollable_def)
    moreover have "io_lock s = Some ?l" "io_unlock (?i\<lparr>ioLock := True\<rparr>) = Some ?i" using p by (simp_all add: io_lock_def io_unlock_def pollable_def mbx.equality)
    ultimately have run: "write_holding_registers i a s = (if holding_written a then Some ?s
      else Option.bind (mb_log (named d' ''Modbus Write Holding Registers'' (error_text a)) (close_after_error i d' ?s))
          (\<lambda>s. count_error (s\<lparr>bool_input_index := bool_input_index s + 0, int_input_index := int_input_index s + 0\<rparr>)))"
      using False d by (simp add: write_holding_registers_def Let_def)
    show ?thesis
    proof (cases "holding_written a")
      case True
      then show ?thesis using False run e p
        by (simp add: outcome_Some error_of_def register_requests_def request_of_def became_def linked_def moved_def pollable_def)
    next
      case bad: False
      have s: "?s = request_mb ?r (s\<lparr>bool_output_index := bool_output_index s + 0, int_output_index := int_output_index s + ?n\<rparr>)" by simp
      have l: "length ''Modbus Write Holding Registers'' < 100" by simp
      show ?thesis unfolding run e if_not_P[OF bad] using failed_request[OF p d(1) False bad l a s, of 0 0] by (simp add: register_requests_def)
    qed
  qed
qed

lemma spliced_length: "unat k + n \<le> 400 \<Longrightarrow> length b = 400 \<Longrightarrow> (\<And>vs. r = Some vs \<Longrightarrow> length vs = n) \<Longrightarrow> length (spliced b k r) = 400"
  by (auto simp: spliced_def split: option.splits)

lemma unat_sum: "unat (a :: 16 word) + unat b \<le> 400 \<Longrightarrow> unat (a + b) = unat a + unat b"
  by (intro unat_plus_small) simp

lemma then_step:
  assumes p: "i < length (mb_devices (cfg s))" and x: "outcome (room s e) (became i (linked i s \<and> (R \<or> e = 0)) e rs bi bo ii io b w s) x"
    and y: "\<And>t. became i (linked i s \<and> (R \<or> e = 0)) e rs bi bo ii io b w s t \<Longrightarrow>
      outcome (room t e') (became i (linked i t \<and> (R \<or> e' = 0)) e' rs' bi' bo' ii' io' b' w' t) (f t)"
    and u: "u = (linked i s \<and> (R \<or> e + e' = 0))"
  shows "outcome (room s (e + e')) (became i u (e + e') (rs @ rs') (bi + bi') (bo + bo') (ii + ii') (io + io') b' w' s) (Option.bind x f)"
proof (rule outcome_bind[OF x])
  fix t
  assume r: "room s e" and t: "became i (linked i s \<and> (R \<or> e = 0)) e rs bi bo ii io b w s t"
  have "room t e' = room s (e + e')" by (rule became_room[OF t r])
  moreover have "(linked i t \<and> (R \<or> e' = 0)) = u" using became_linked[OF t p] u by auto
  ultimately show "outcome (room s (e + e')) (became i u (e + e') (rs @ rs') (bi + bi') (bo + bo') (ii + ii') (io + io') b' w' s) (f t)"
    using outcome_mono[OF y[OF t] became_trans[OF t _ p]] by simp
qed (auto simp: room_def)

text \<open>The five requests of a poll.\<close>

definition poll_device :: "nat \<Rightarrow> mb_answers \<Rightarrow> mbx \<Rightarrow> mbx option" where
  "poll_device i a s = do {
     s \<leftarrow> read_discrete i a s;
     s \<leftarrow> write_coils i a s;
     s \<leftarrow> read_input_registers i a s;
     s \<leftarrow> read_holding_registers i a s;
     write_holding_registers i a s
   }"

lemma requests_poll:
  assumes p: "pollable i d s" and e: "exact d a"
    and n: "unat (bool_input_index s) + unat (num_regs (discrete_inputs d)) \<le> 400" "unat (bool_output_index s) + unat (num_regs (coils d)) \<le> 400"
      "unat (int_input_index s) + unat (num_regs (input_registers d)) + unat (num_regs (holding_read_registers d)) \<le> 400"
      "unat (int_output_index s) + unat (num_regs (holding_registers d)) \<le> 400"
  shows "outcome (room s (poll_errors d a)) (became i (linked i s \<and> (protocol d = MB_RTU \<or> poll_errors d a = 0)) (poll_errors d a)
      (poll_requests d a (take (unat (num_regs (coils d))) (drop (unat (bool_output_index s)) (bool_output_buf s)))
        (take (unat (num_regs (holding_registers d))) (drop (unat (int_output_index s)) (int_output_buf s))))
      (num_regs (discrete_inputs d)) (num_regs (coils d)) (num_regs (input_registers d) + num_regs (holding_read_registers d)) (num_regs (holding_registers d))
      (spliced (bool_input_buf s) (bool_input_index s) (bits_read a))
      (spliced (spliced (int_input_buf s) (int_input_index s) (input_read a)) (int_input_index s + num_regs (input_registers d)) (holding_read a)) s)
    (poll_device i a s)"
proof -
  let ?b = "spliced (bool_input_buf s) (bool_input_index s) (bits_read a)"
  let ?w = "spliced (int_input_buf s) (int_input_index s) (input_read a)"
  let ?x = "spliced ?w (int_input_index s + num_regs (input_registers d)) (holding_read a)"
  let ?cs = "take (unat (num_regs (coils d))) (drop (unat (bool_output_index s)) (bool_output_buf s))"
  let ?ws = "take (unat (num_regs (holding_registers d))) (drop (unat (int_output_index s)) (int_output_buf s))"
  let ?e1 = "error_of (num_regs (discrete_inputs d)) (bits_read a = None)" and ?e2 = "error_of (num_regs (coils d)) (\<not> coils_written a)"
  let ?e3 = "error_of (num_regs (input_registers d)) (input_read a = None)" and ?e4 = "error_of (num_regs (holding_read_registers d)) (holding_read a = None)"
  let ?e5 = "error_of (num_regs (holding_registers d)) (\<not> holding_written a)"
  have len: "length (bool_input_buf s) = 400" "length (int_input_buf s) = 400" and i: "i < length (mb_devices (cfg s))" using p by (simp_all add: pollable_def)
  have err: "length (error_text a) < 700" and er: "\<forall>vs. input_read a = Some vs \<longrightarrow> length vs = unat (num_regs (input_registers d))"
      "\<forall>vs. holding_read a = Some vs \<longrightarrow> length vs = unat (num_regs (holding_read_registers d))"
    using e by (auto simp: exact_def)
  have w1: "unat (int_input_index s + num_regs (input_registers d)) = unat (int_input_index s) + unat (num_regs (input_registers d))"
    using n(3) by (intro unat_sum) simp
  have lb: "length ?b = 400" by (rule spliced_length[OF n(1) len(1)]) (use e in \<open>simp add: exact_def\<close>)
  have ni: "unat (int_input_index s) + unat (num_regs (input_registers d)) \<le> 400" using n(3) by simp
  have lw: "length ?w = 400" by (rule spliced_length[OF ni len(2)]) (use er(1) in simp)
  have lx: "length ?x = 400" by (rule spliced_length[OF _ lw]) (use n(3) w1 er(2) in simp_all)
  have what: "length ''Modbus Read Input Registers'' < 100" "length ''Modbus Read Holding Registers'' < 100" by simp_all
  note s1 = read_discrete_poll[OF p n(1) e refl]
  have s2: "outcome (room t ?e2) (became i (linked i t \<and> (protocol d = MB_RTU \<or> ?e2 = 0)) ?e2
      (coil_requests d a ?cs)
      0 (num_regs (coils d)) 0 0 ?b (int_input_buf s) t) (write_coils i a t)"
    if t: "became i u e' rs bi 0 ii io ?b (int_input_buf s) s t" for t u e' rs bi ii io
    using write_coils_poll[OF became_pollable[OF t p lb len(2)] _ err refl] n(2) t by (simp add: became_def)
  note s12 = then_step[OF i s1 s2 refl]
  have s3: "outcome (room t ?e3) (became i (linked i t \<and> (protocol d = MB_RTU \<or> ?e3 = 0)) ?e3
      (input_requests d a)
      0 0 (num_regs (input_registers d)) 0 ?b ?w t) (read_input_registers i a t)"
    if t: "became i u e' rs bi bo 0 io ?b (int_input_buf s) s t" for t u e' rs bi bo io
    using read_registers_poll[where regs = input_registers and res = input_read and req = Read_Input_Registers, OF became_pollable[OF t p lb len(2)] _ er(1) err _ what(1) refl]
      ni t by (simp add: became_def read_input_registers_def input_requests_def Let_def)
  have s123: "outcome (room s (?e1 + ?e2 + ?e3)) (became i (linked i s \<and> (protocol d = MB_RTU \<or> ?e1 + ?e2 + ?e3 = 0)) (?e1 + ?e2 + ?e3)
      (bits_requests d a @ coil_requests d a ?cs @ input_requests d a) (num_regs (discrete_inputs d)) (num_regs (coils d)) (num_regs (input_registers d)) 0 ?b ?w s)
      (Option.bind (Option.bind (read_discrete i a s) (write_coils i a)) (read_input_registers i a))"
    using then_step[OF i s12 s3 refl] by simp
  have s4: "outcome (room t ?e4) (became i (linked i t \<and> (protocol d = MB_RTU \<or> ?e4 = 0)) ?e4
      (holding_requests d a)
      0 0 (num_regs (holding_read_registers d)) 0 ?b ?x t) (read_holding_registers i a t)"
    if t: "became i u e' rs bi bo (num_regs (input_registers d)) io ?b ?w s t" for t u e' rs bi bo io
    using read_registers_poll[where regs = holding_read_registers and res = holding_read and req = Read_Registers, OF became_pollable[OF t p lb lw] _ er(2) err _ what(2) refl]
      n(3) w1 t by (simp add: became_def read_holding_registers_def holding_requests_def Let_def)
  note s1234 = then_step[OF i s123 s4 refl]
  have s5: "outcome (room t ?e5) (became i (linked i t \<and> (protocol d = MB_RTU \<or> ?e5 = 0)) ?e5
      (register_requests d a ?ws)
      0 0 0 (num_regs (holding_registers d)) ?b ?x t) (write_holding_registers i a t)"
    if t: "became i u e' rs bi bo ii 0 ?b ?x s t" for t u e' rs bi bo ii
    using write_holding_registers_poll[OF became_pollable[OF t p lb lx] _ err refl] n(4) t by (simp add: became_def)
  have s1_4: "outcome (room s (?e1 + ?e2 + ?e3 + ?e4)) (became i (linked i s \<and> (protocol d = MB_RTU \<or> ?e1 + ?e2 + ?e3 + ?e4 = 0)) (?e1 + ?e2 + ?e3 + ?e4)
      (bits_requests d a @ coil_requests d a ?cs @ input_requests d a @ holding_requests d a)
      (num_regs (discrete_inputs d)) (num_regs (coils d)) (num_regs (input_registers d) + num_regs (holding_read_registers d)) 0 ?b ?x s)
      (Option.bind (Option.bind (Option.bind (read_discrete i a s) (write_coils i a)) (read_input_registers i a)) (read_holding_registers i a))"
    using s1234 by simp
  show ?thesis
    using then_step[OF i s1_4 s5 refl]
    by (simp add: poll_device_def poll_errors_def poll_requests_def Let_def)
qed

section \<open>One pass over the devices\<close>

lemma connect_poll:
  assumes p: "pollable i d s" and a: "length (error_text a) < 700"
  shows "connects a \<Longrightarrow> \<exists>v. connect_device i a d s = Some v \<and> became i True 0 [Connect (mb_ctx d)] 0 0 0 0 (bool_input_buf s) (int_input_buf s) s v"
    "\<not> connects a \<Longrightarrow> outcome (room s 1) (became i (linked i s) 1 [Connect (mb_ctx d)] (num_regs (discrete_inputs d)) (num_regs (coils d))
      (num_regs (input_registers d) + num_regs (holding_read_registers d)) (num_regs (holding_registers d)) (bool_input_buf s) (int_input_buf s) s)
      (connect_device i a d s)"
proof -
  have n: "length (cstr (dev_name d)) \<le> 100" using p cstr_length[of "dev_name d"] by (simp add: pollable_def)
  let ?m1 = "''Device '' @ cstr (dev_name d) @ '' is disconnected. Attempting to reconnect...'' @ nl"
  let ?m2 = "''Connection failed on MB device '' @ cstr (dev_name d) @ '': '' @ error_text a @ nl"
  let ?m3 = "''Connected to MB device '' @ cstr (dev_name d) @ nl"
  have m: "length ?m1 < 1000" "length ?m2 < 1000" "length ?m3 < 1000" using n a by (simp_all add: nl_def)
  have "log_inv (mb_lg s)" using p by (simp add: pollable_def)
  from mb_logE[OF this m(1)] obtain l1 where l1: "mb_log ?m1 s = Some (s\<lparr>mb_lg := l1\<rparr>)" "log_inv l1" .
  let ?s = "request_mb (Connect (mb_ctx d)) (s\<lparr>mb_lg := l1\<rparr>)"
  have ls: "log_inv (mb_lg ?s)" using l1(2) by simp
  have b: "became i (linked i s) 0 [Connect (mb_ctx d)] 0 0 0 0 (bool_input_buf s) (int_input_buf s) s (?s\<lparr>mb_lg := l\<rparr>)" if "log_inv l" for l
    using became_refl[OF p] that by (simp add: became_def)
  { assume c: "connects a"
    from mb_logE[OF ls m(3)] obtain l where l: "mb_log ?m3 ?s = Some (?s\<lparr>mb_lg := l\<rparr>)" "log_inv l" .
    have "connect_device i a d s = Some (set_connected i True (?s\<lparr>mb_lg := l\<rparr>))"
      using c unfolding connect_device_def l1(1) bind.bind_lunit Let_def l(1) by simp
    moreover have "became i True 0 [Connect (mb_ctx d)] 0 0 0 0 (bool_input_buf s) (int_input_buf s) s (set_connected i True (?s\<lparr>mb_lg := l\<rparr>))"
      using l(2) by (simp add: became_def set_connected_def moved_def)
    ultimately show "\<exists>v. connect_device i a d s = Some v \<and> became i True 0 [Connect (mb_ctx d)] 0 0 0 0 (bool_input_buf s) (int_input_buf s) s v" by blast }
  { assume c: "\<not> connects a"
    from mb_logE[OF ls m(2)] obtain l where l: "mb_log ?m2 ?s = Some (?s\<lparr>mb_lg := l\<rparr>)" "log_inv l" .
    let ?f = "\<lambda>s. s\<lparr>bool_input_index := bool_input_index s + num_regs (discrete_inputs d),
          int_input_index := int_input_index s + num_regs (input_registers d) + num_regs (holding_read_registers d),
          bool_output_index := bool_output_index s + num_regs (coils d), int_output_index := int_output_index s + num_regs (holding_registers d)\<rparr>"
    have run: "connect_device i a d s = Option.bind (count_error (?s\<lparr>mb_lg := l\<rparr>)) (\<lambda>s. Some (?f s))"
      using c unfolding connect_device_def l1(1) bind.bind_lunit Let_def l(1) by simp
    show "outcome (room s 1) (became i (linked i s) 1 [Connect (mb_ctx d)] (num_regs (discrete_inputs d)) (num_regs (coils d))
      (num_regs (input_registers d) + num_regs (holding_read_registers d)) (num_regs (holding_registers d)) (bool_input_buf s) (int_input_buf s) s)
      (connect_device i a d s)"
      unfolding run by (rule outcome_bind[OF count_error_became[OF b[OF l(2)]]]) (auto simp: outcome_Some became_def add.assoc) }
qed

text \<open>Another device on the port of an RTU device is connected, \<open>l\<close> telling which devices are.\<close>

definition port_up :: "mb_config \<Rightarrow> (nat \<Rightarrow> bool) \<Rightarrow> nat \<Rightarrow> bool" where
  "port_up c l i \<longleftrightarrow> protocol (mb_devices c ! i) = MB_RTU \<and> (\<exists>a \<in> set (sharing i c). l a)"

text \<open>What is asked before the poll.\<close>

definition slave_requests :: "mb_config \<Rightarrow> nat \<Rightarrow> mb_request list" where
  "slave_requests c i = (let d = mb_devices c ! i in
     if protocol d = MB_RTU \<and> sharing i c \<noteq> [] then [Set_Slave (mb_ctx d) (dev_id d)] else [])"

text \<open>The requests once the connection is settled.\<close>

lemma polled_when_linked:
  assumes p: "pollable i d s" and e: "exact d a"
    and n: "unat (bool_input_index s) + unat (num_regs (discrete_inputs d)) \<le> 400" "unat (bool_output_index s) + unat (num_regs (coils d)) \<le> 400"
      "unat (int_input_index s) + unat (num_regs (input_registers d)) + unat (num_regs (holding_read_registers d)) \<le> 400"
      "unat (int_output_index s) + unat (num_regs (holding_registers d)) \<le> 400"
    and t: "became i u 0 rs 0 0 0 0 (bool_input_buf s) (int_input_buf s) s t"
  shows "outcome (rtu_baud d \<noteq> 0 \<and> room s (poll_errors d a))
    (became i (u \<and> (protocol d = MB_RTU \<or> poll_errors d a = 0)) (poll_errors d a)
      (rs @ poll_requests d a (take (unat (num_regs (coils d))) (drop (unat (bool_output_index s)) (bool_output_buf s)))
        (take (unat (num_regs (holding_registers d))) (drop (unat (int_output_index s)) (int_output_buf s))))
      (num_regs (discrete_inputs d)) (num_regs (coils d)) (num_regs (input_registers d) + num_regs (holding_read_registers d)) (num_regs (holding_registers d))
      (spliced (bool_input_buf s) (bool_input_index s) (bits_read a))
      (spliced (spliced (int_input_buf s) (int_input_index s) (input_read a)) (int_input_index s + num_regs (input_registers d)) (holding_read a)) s)
    (if rtu_baud d = 0 then None else poll_device i a t)"
proof (cases "rtu_baud d = 0")
  case False
  have i: "i < length (mb_devices (cfg s))" "length (bool_input_buf s) = 400" "length (int_input_buf s) = 400" using p by (simp_all add: pollable_def)
  have pt: "pollable i d t" by (rule became_pollable[OF t p i(2,3)])
  have st: "bool_input_index t = bool_input_index s" "int_input_index t = int_input_index s" "bool_output_index t = bool_output_index s"
    "int_output_index t = int_output_index s" "bool_output_buf t = bool_output_buf s" "int_output_buf t = int_output_buf s"
    "bool_input_buf t = bool_input_buf s" "int_input_buf t = int_input_buf s" using t by (simp_all add: became_def)
  have "outcome (room s (poll_errors d a)) (became i (u \<and> (protocol d = MB_RTU \<or> poll_errors d a = 0)) (poll_errors d a)
    (poll_requests d a (take (unat (num_regs (coils d))) (drop (unat (bool_output_index s)) (bool_output_buf s)))
      (take (unat (num_regs (holding_registers d))) (drop (unat (int_output_index s)) (int_output_buf s))))
    (num_regs (discrete_inputs d)) (num_regs (coils d)) (num_regs (input_registers d) + num_regs (holding_read_registers d)) (num_regs (holding_registers d))
    (spliced (bool_input_buf s) (bool_input_index s) (bits_read a))
    (spliced (spliced (int_input_buf s) (int_input_index s) (input_read a)) (int_input_index s + num_regs (input_registers d)) (holding_read a)) t)
    (poll_device i a t)"
    using requests_poll[OF pt e] n st became_linked[OF t i(1)] became_room[OF t, of "poll_errors d a"] by simp
  from outcome_mono[OF this became_trans[OF t _ i(1)]] show ?thesis using False by simp
qed (simp add: outcome_def)

lemma query_device_poll:
  assumes p: "pollable i d s" and d: "mb_devices (cfg s) ! i = d" and e: "exact d (ans i)"
    and n: "unat (bool_input_index s) + unat (num_regs (discrete_inputs d)) \<le> 400" "unat (bool_output_index s) + unat (num_regs (coils d)) \<le> 400"
      "unat (int_input_index s) + unat (num_regs (input_registers d)) + unat (num_regs (holding_read_registers d)) \<le> 400"
      "unat (int_output_index s) + unat (num_regs (holding_registers d)) \<le> 400"
    and o: "on = (isConnected d \<or> port_up (cfg s) (\<lambda>a. isConnected (mb_devices (cfg s) ! a)) i)" and up: "up = (on \<or> connects (ans i))"
    and q: "q = (if up then poll_errors d (ans i) else 1)"
  shows "outcome ((up \<longrightarrow> rtu_baud d \<noteq> 0) \<and> room s q)
    (became i ((isConnected d \<or> \<not> on \<and> connects (ans i)) \<and> (protocol d = MB_RTU \<or> q = 0)) q
      (slave_requests (cfg s) i @ (if on then [] else [Connect (mb_ctx d)]) @ (if up then poll_requests d (ans i)
        (take (unat (num_regs (coils d))) (drop (unat (bool_output_index s)) (bool_output_buf s)))
        (take (unat (num_regs (holding_registers d))) (drop (unat (int_output_index s)) (int_output_buf s))) else []))
      (num_regs (discrete_inputs d)) (num_regs (coils d)) (num_regs (input_registers d) + num_regs (holding_read_registers d)) (num_regs (holding_registers d))
      (spliced (bool_input_buf s) (bool_input_index s) (if up then bits_read (ans i) else None))
      (spliced (spliced (int_input_buf s) (int_input_index s) (if up then input_read (ans i) else None))
        (int_input_index s + num_regs (input_registers d)) (if up then holding_read (ans i) else None)) s)
    (query_device ans i s)"
proof -
  have i: "i < length (mb_devices (cfg s))" "length (bool_input_buf s) = 400" "length (int_input_buf s) = 400" using p by (simp_all add: pollable_def)
  have at: "device_at i s = Some d" using d i by (simp add: device_at_def rd_def)
  have err: "length (error_text (ans i)) < 700" using e by (simp add: exact_def)
  let ?others = "if protocol d = MB_RTU then sharing i (cfg s) else []"
  let ?s = "if ?others \<noteq> [] then request_mb (Set_Slave (mb_ctx d) (dev_id d)) s else s"
  let ?pu = "\<exists>a \<in> set ?others. isConnected (mb_devices (cfg s) ! a)"
  obtain s0 P where s0: "s0 = ?s" and P: "P = ?pu" by simp
  have pu: "P = port_up (cfg s) (\<lambda>a. isConnected (mb_devices (cfg s) ! a)) i" unfolding P by (auto simp: port_up_def d)
  have li: "linked i s = isConnected d" by (simp add: linked_def d)
  have b0: "became i (isConnected d) 0 (slave_requests (cfg s) i) 0 0 0 0 (bool_input_buf s) (int_input_buf s) s s0"
    using became_refl[OF p] became_request[OF p] li by (simp add: s0 slave_requests_def Let_def d)
  have p0: "pollable i d s0" by (rule became_pollable[OF b0 p i(2,3)])
  have run: "query_device ans i s =
      Option.bind (if \<not> isConnected d \<and> \<not> P then connect_device i (ans i) d s0 else Some s0) (\<lambda>s. Option.bind (device_at i s)
        (\<lambda>d. if isConnected d \<or> P then if rtu_baud d = 0 then None else poll_device i (ans i) s else Some s))"
    unfolding query_device_def at bind.bind_lunit Let_def poll_device_def s0 P by (rule refl)
  have after: "device_at i t = Some (d\<lparr>isConnected := linked i t\<rparr>)" if "pollable i d t" for t using that by (rule pollable_device) simp
  note polls = polled_when_linked[OF p e n]
  show ?thesis
  proof (cases on)
    case True
    have c: "(\<not> isConnected d \<and> \<not> P) = False" "isConnected d \<or> P" using True o pu by simp_all
    have "query_device ans i s = (if rtu_baud d = 0 then None else poll_device i (ans i) s0)"
      using c(2) became_linked[OF b0 i(1)] unfolding run c(1) by (simp add: after[OF p0])
    then show ?thesis using polls[OF b0] True up q by simp
  next
    case False
    then have np: "\<not> isConnected d" "\<not> P" using o pu by simp_all
    have run: "query_device ans i s = Option.bind (connect_device i (ans i) d s0) (\<lambda>s. Option.bind (device_at i s)
        (\<lambda>d. if isConnected d then if rtu_baud d = 0 then None else poll_device i (ans i) s else Some s))"
      unfolding run using np by simp
    show ?thesis
    proof (cases "connects (ans i)")
      case True
      then obtain v where v: "connect_device i (ans i) d s0 = Some v"
        "became i True 0 [Connect (mb_ctx d)] 0 0 0 0 (bool_input_buf s0) (int_input_buf s0) s0 v" using connect_poll(1)[OF p0 err] by blast
      have b: "became i True 0 (slave_requests (cfg s) i @ [Connect (mb_ctx d)]) 0 0 0 0 (bool_input_buf s) (int_input_buf s) s v"
        using became_trans[OF b0 v(2) i(1)] b0 by (simp add: became_def)
      have "linked i v" using became_linked[OF b i(1)] by simp
      then have "query_device ans i s = (if rtu_baud d = 0 then None else poll_device i (ans i) v)"
        unfolding run v(1) by (simp add: after[OF became_pollable[OF b p i(2,3)]])
      then show ?thesis using polls[OF b] True up q False by simp
    next
      case no: False
      have c: "outcome (room s 1) (became i False 1 (slave_requests (cfg s) i @ [Connect (mb_ctx d)]) (num_regs (discrete_inputs d)) (num_regs (coils d))
        (num_regs (input_registers d) + num_regs (holding_read_registers d)) (num_regs (holding_registers d)) (bool_input_buf s) (int_input_buf s) s)
        (connect_device i (ans i) d s0)"
      proof (rule outcome_mono)
        have "room s0 1 = room s 1" "linked i s0 = False" "bool_input_buf s0 = bool_input_buf s" "int_input_buf s0 = int_input_buf s"
          using became_room[OF b0, of 1] became_linked[OF b0 i(1)] np(1) b0 by (simp_all add: became_def)
        then show "outcome (room s 1) (became i False 1 [Connect (mb_ctx d)] (num_regs (discrete_inputs d)) (num_regs (coils d))
            (num_regs (input_registers d) + num_regs (holding_read_registers d)) (num_regs (holding_registers d)) (bool_input_buf s) (int_input_buf s) s0)
          (connect_device i (ans i) d s0)"
          using connect_poll(2)[OF p0 err no] by simp
      qed (use became_trans[OF b0 _ i(1)] in fastforce)
      have "outcome (room s 1) (became i False 1 (slave_requests (cfg s) i @ [Connect (mb_ctx d)]) (num_regs (discrete_inputs d)) (num_regs (coils d))
        (num_regs (input_registers d) + num_regs (holding_read_registers d)) (num_regs (holding_registers d)) (bool_input_buf s) (int_input_buf s) s)
        (query_device ans i s)"
        unfolding run
        by (rule outcome_bind[OF c]) (auto simp: after[OF became_pollable[OF _ p i(2,3)]] became_linked[OF _ i(1)] outcome_Some)
      then show ?thesis using no False up q np(1) by simp
    qed
  qed
qed

definition dev :: "mbm \<Rightarrow> nat \<Rightarrow> MB_device" where
  "dev s i = mb_devices (cfg s) ! i"

definition regs :: "(MB_device \<Rightarrow> MB_address) \<Rightarrow> mbm \<Rightarrow> nat \<Rightarrow> nat" where
  "regs f s i = unat (num_regs (f (dev s i)))"

definition regs_before :: "(MB_device \<Rightarrow> MB_address) \<Rightarrow> mbm \<Rightarrow> nat \<Rightarrow> nat" where
  "regs_before f s k = (\<Sum>i<k. regs f s i)"

definition ints_before :: "mbm \<Rightarrow> nat \<Rightarrow> nat" where
  "ints_before s k = (\<Sum>i<k. regs input_registers s i + regs holding_read_registers s i)"

text \<open>
  Which devices are connected after the poll of the first \<open>k\<close>: an RTU device stays as it is after an error, another one is
  closed. An RTU device does not connect when another one on its port is connected.
\<close>

definition polled_link :: "(nat \<Rightarrow> mb_answers) \<Rightarrow> mbm \<Rightarrow> nat \<Rightarrow> (nat \<Rightarrow> bool) \<Rightarrow> bool" where
  "polled_link ans s i l = ((l i \<or> \<not> port_up (cfg s) l i \<and> connects (ans i)) \<and> (protocol (dev s i) = MB_RTU \<or> poll_errors (dev s i) (ans i) = 0))"

primrec links :: "(nat \<Rightarrow> mb_answers) \<Rightarrow> mbm \<Rightarrow> nat \<Rightarrow> nat \<Rightarrow> bool" where
  "links ans s 0 = (\<lambda>i. isConnected (dev s i))"
| "links ans s (Suc k) = (links ans s k)(k := polled_link ans s k (links ans s k))"

text \<open>A device is asked that is connected, or whose port is, or that connects; the answers of the others do not count.\<close>

definition online :: "(nat \<Rightarrow> mb_answers) \<Rightarrow> mbm \<Rightarrow> nat \<Rightarrow> bool" where
  "online ans s i \<longleftrightarrow> isConnected (dev s i) \<or> port_up (cfg s) (links ans s i) i"

definition reached :: "(nat \<Rightarrow> mb_answers) \<Rightarrow> mbm \<Rightarrow> nat \<Rightarrow> bool" where
  "reached ans s i \<longleftrightarrow> online ans s i \<or> connects (ans i)"

definition slave_answer :: "(nat \<Rightarrow> mb_answers) \<Rightarrow> mbm \<Rightarrow> nat \<Rightarrow> (mb_answers \<Rightarrow> 'v list option) \<Rightarrow> 'v list option" where
  "slave_answer ans s i r = (if reached ans s i then r (ans i) else None)"

text \<open>The part of a buffer that belongs to a request: the answer, or what was there before.\<close>

definition slot_of :: "'v list \<Rightarrow> nat \<Rightarrow> nat \<Rightarrow> 'v list option \<Rightarrow> 'v list" where
  "slot_of old k n r = (case r of None \<Rightarrow> take n (drop k old) | Some vs \<Rightarrow> vs)"

definition bit_slot :: "(nat \<Rightarrow> mb_answers) \<Rightarrow> mbm \<Rightarrow> nat \<Rightarrow> byte list" where
  "bit_slot ans s i = slot_of (bool_input_buf s) (regs_before discrete_inputs s i) (regs discrete_inputs s i) (slave_answer ans s i bits_read)"

definition int_slot :: "(nat \<Rightarrow> mb_answers) \<Rightarrow> mbm \<Rightarrow> nat \<Rightarrow> 16 word list" where
  "int_slot ans s i =
     slot_of (int_input_buf s) (ints_before s i) (regs input_registers s i) (slave_answer ans s i input_read) @
     slot_of (int_input_buf s) (ints_before s i + regs input_registers s i) (regs holding_read_registers s i) (slave_answer ans s i holding_read)"

text \<open>What is asked of a device in a pass, its part of the output buffers in it, and how many of these requests fail.\<close>

definition device_requests :: "(nat \<Rightarrow> mb_answers) \<Rightarrow> mbm \<Rightarrow> nat \<Rightarrow> mb_request list" where
  "device_requests ans s i = slave_requests (cfg s) i @ (if online ans s i then [] else [Connect (mb_ctx (dev s i))]) @
     (if reached ans s i
      then poll_requests (dev s i) (ans i) (take (regs coils s i) (drop (regs_before coils s i) (bool_output_buf s)))
        (take (regs holding_registers s i) (drop (regs_before holding_registers s i) (int_output_buf s)))
      else [])"

definition device_errors :: "(nat \<Rightarrow> mb_answers) \<Rightarrow> mbm \<Rightarrow> nat \<Rightarrow> nat" where
  "device_errors ans s i = (if reached ans s i then poll_errors (dev s i) (ans i) else 1)"

text \<open>
  The pass does not fault: every device that is asked has a baud rate, and the errors do not carry the pointer of the
  error counter past its variable.
\<close>

definition pass_safe :: "(nat \<Rightarrow> mb_answers) \<Rightarrow> mbm \<Rightarrow> nat \<Rightarrow> bool" where
  "pass_safe ans s n \<longleftrightarrow> (\<forall>i < n. reached ans s i \<longrightarrow> rtu_baud (dev s i) \<noteq> 0) \<and> room s (\<Sum>i<n. device_errors ans s i)"

text \<open>
  The parts of the devices fit into the buffers, and what the library answers has the size that was asked for. The rest
  is what the types of the program and its own steps give.
\<close>

definition poll_ready :: "(nat \<Rightarrow> mb_answers) \<Rightarrow> mbm \<Rightarrow> bool" where
  "poll_ready ans s \<longleftrightarrow> (let n = unat (num_devices (cfg s)) in
     length (mb_devices (cfg s)) = n \<and> (\<forall>i < n. length (dev_name (dev s i)) = 100 \<and> exact (dev s i) (ans i)) \<and>
     regs_before discrete_inputs s n \<le> 400 \<and> regs_before coils s n \<le> 400 \<and> ints_before s n \<le> 400 \<and> regs_before holding_registers s n \<le> 400 \<and>
     \<not> ioLock s \<and> log_inv (mb_lg s) \<and> length (bool_input_buf s) = 400 \<and> length (int_input_buf s) = 400 \<and>
     length (bool_output_buf s) = 400 \<and> length (int_output_buf s) = 400)"

text \<open>A slice that is spliced into a buffer the first part of which has been filled.\<close>

lemma spliced_slot:
  assumes "length x = k" "k + n \<le> length old" "unat w = k" "\<And>vs. r = Some vs \<Longrightarrow> length vs = n"
  shows "spliced (x @ drop k old) w r = (x @ slot_of old k n r) @ drop (k + n) old" "length (slot_of old k n r) = n"
  using assms by (cases r; simp add: spliced_def splice_def slot_of_def ac_simps; metis append_take_drop_id drop_drop add.commute)+

lemma regs_before_Suc [simp]: "regs_before f s (Suc k) = regs_before f s k + regs f s k" "regs_before f s 0 = 0"
  "ints_before s (Suc k) = ints_before s k + regs input_registers s k + regs holding_read_registers s k" "ints_before s 0 = 0"
  by (simp_all add: regs_before_def ints_before_def)

lemma before_mono: "k \<le> n \<Longrightarrow> regs_before f s k \<le> regs_before f s n" "k \<le> n \<Longrightarrow> ints_before s k \<le> ints_before s n"
  unfolding regs_before_def ints_before_def by (intro sum_mono2; auto)+

lemma links_later [simp]: "k \<le> i \<Longrightarrow> links ans s k i = isConnected (dev s i)"
  by (induction k) auto

text \<open>The configuration with the connections, and what does not depend on them.\<close>

definition with_links :: "mbm \<Rightarrow> (nat \<Rightarrow> bool) \<Rightarrow> mb_config" where
  "with_links s l = (cfg s)\<lparr>mb_devices := map (\<lambda>j. (dev s j)\<lparr>isConnected := l j\<rparr>) [0..<length (mb_devices (cfg s))]\<rparr>"

lemma with_links_same [simp]: "with_links s (\<lambda>i. isConnected (dev s i)) = cfg s"
proof -
  have "map (\<lambda>j. (dev s j)\<lparr>isConnected := isConnected (dev s j)\<rparr>) [0..<length (mb_devices (cfg s))] = mb_devices (cfg s)"
    by (intro nth_equalityI) (simp_all add: dev_def)
  then show ?thesis by (simp add: with_links_def)
qed

lemma with_links_nth: "i < length (mb_devices (cfg s)) \<Longrightarrow> mb_devices (with_links s l) ! i = (dev s i)\<lparr>isConnected := l i\<rparr>"
  by (simp add: with_links_def)

lemma sharing_links:
  assumes "length (mb_devices (cfg s)) = unat (num_devices (cfg s))" "i < length (mb_devices (cfg s))"
  shows "sharing i (with_links s l) = sharing i (cfg s)"
proof -
  have "num_devices (with_links s l) = num_devices (cfg s)" by (simp add: with_links_def)
  then show ?thesis using assms by (auto simp: sharing_def with_links_nth dev_def intro!: filter_cong)
qed

lemma port_up_links:
  assumes "length (mb_devices (cfg s)) = unat (num_devices (cfg s))" "i < length (mb_devices (cfg s))"
  shows "port_up (with_links s l) (\<lambda>a. isConnected (mb_devices (with_links s l) ! a)) i = port_up (cfg s) l i"
    "slave_requests (with_links s l) i = slave_requests (cfg s) i"
proof -
  have "isConnected (mb_devices (with_links s l) ! a) = l a" if "a \<in> set (sharing i (cfg s))" for a
    using that assms by (simp add: with_links_nth sharing_def)
  then show "port_up (with_links s l) (\<lambda>a. isConnected (mb_devices (with_links s l) ! a)) i = port_up (cfg s) l i"
    "slave_requests (with_links s l) i = slave_requests (cfg s) i"
    using assms by (auto simp: port_up_def slave_requests_def sharing_links with_links_nth dev_def Let_def)
qed

lemma with_links_update: "i < length (mb_devices (cfg s)) \<Longrightarrow>
   (with_links s l)\<lparr>mb_devices := (mb_devices (with_links s l))[i := (mb_devices (with_links s l) ! i)\<lparr>isConnected := u\<rparr>]\<rparr> = with_links s (l(i := u))"
  by (simp add: with_links_def) (rule arg_cong[where f = "\<lambda>x. (cfg s)\<lparr>mb_devices := x\<rparr>"], rule nth_equalityI, auto simp: nth_list_update)

text \<open>The state of the loop after \<open>k\<close> devices.\<close>

definition polled :: "(nat \<Rightarrow> mb_answers) \<Rightarrow> mbm \<Rightarrow> nat \<Rightarrow> mbx \<Rightarrow> bool" where
  "polled ans s k t \<longleftrightarrow> cfg t = with_links s (links ans s k) \<and>
     unat (bool_input_index t) = regs_before discrete_inputs s k \<and> unat (bool_output_index t) = regs_before coils s k \<and>
     unat (int_input_index t) = ints_before s k \<and> unat (int_output_index t) = regs_before holding_registers s k \<and>
     (\<exists>x. bool_input_buf t = x @ drop (regs_before discrete_inputs s k) (bool_input_buf s) \<and> x = concat (map (bit_slot ans s) [0..<k]) \<and> length x = regs_before discrete_inputs s k) \<and>
     (\<exists>x. int_input_buf t = x @ drop (ints_before s k) (int_input_buf s) \<and> x = concat (map (int_slot ans s) [0..<k]) \<and> length x = ints_before s k) \<and>
     bool_output_buf t = bool_output_buf s \<and> int_output_buf t = int_output_buf s \<and> mb_img t = mb_img s \<and> sf2 t = sf2 s + moved s (\<Sum>i<k. device_errors ans s i) \<and>
     \<not> ioLock t \<and> log_inv (mb_lg t) \<and> requests t = requests s @ concat (map (device_requests ans s) [0..<k])"

lemma polled_pollable:
  assumes r: "poll_ready ans s" and k: "k < unat (num_devices (cfg s))" and t: "polled ans s k t"
  shows "pollable k (dev s k) t" "mb_devices (cfg t) ! k = dev s k"
proof -
  note r' = r[unfolded poll_ready_def Let_def]
  have bk: "regs_before discrete_inputs s k \<le> 400" "ints_before s k \<le> 400"
    using r' before_mono[of k "unat (num_devices (cfg s))"] k by (meson less_imp_le_nat le_trans)+
  show d: "mb_devices (cfg t) ! k = dev s k" using t k r' by (simp add: polled_def with_links_nth)
  have "length (bool_input_buf t) = 400" "length (int_input_buf t) = 400" using t bk r' by (auto simp: polled_def)
  moreover have "\<exists>b. mb_devices (cfg t) ! k = (dev s k)\<lparr>isConnected := b\<rparr>" unfolding d by (metis MB_device.surjective MB_device.update_convs(12))
  ultimately show "pollable k (dev s k) t" using t k r' by (simp add: polled_def pollable_def with_links_def)
qed

text \<open>What the answers of device \<open>k\<close> make of buffers that hold those of the devices before it.\<close>

lemma slots_filled:
  assumes r: "poll_ready ans s" and k: "k < unat (num_devices (cfg s))"
    and x: "length x = regs_before discrete_inputs s k" "unat bi = regs_before discrete_inputs s k" and y: "length y = ints_before s k" "unat ii = ints_before s k"
  shows "spliced (x @ drop (regs_before discrete_inputs s k) (bool_input_buf s)) bi (slave_answer ans s k bits_read) =
      (x @ bit_slot ans s k) @ drop (regs_before discrete_inputs s (Suc k)) (bool_input_buf s)" (is ?bits)
    "spliced (spliced (y @ drop (ints_before s k) (int_input_buf s)) ii (slave_answer ans s k input_read)) (ii + num_regs (input_registers (dev s k)))
        (slave_answer ans s k holding_read) =
      (y @ int_slot ans s k) @ drop (ints_before s (Suc k)) (int_input_buf s)" (is ?ints)
    "length (bit_slot ans s k) = regs discrete_inputs s k" "length (int_slot ans s k) = regs input_registers s k + regs holding_read_registers s k"
    "unat (ii + num_regs (input_registers (dev s k))) = ints_before s k + regs input_registers s k"
proof -
  let ?n = "unat (num_devices (cfg s))"
  note r' = r[unfolded poll_ready_def Let_def]
  have bk: "regs_before discrete_inputs s (Suc k) \<le> 400" "ints_before s (Suc k) \<le> 400" using r' before_mono[of "Suc k" ?n] k by (meson Suc_leI le_trans)+
  have ls: "length (bool_input_buf s) = 400" "length (int_input_buf s) = 400" using r' by auto
  have "exact (dev s k) (ans k)" using r' k by simp
  then have ex: "\<And>vs. slave_answer ans s k bits_read = Some vs \<Longrightarrow> length vs = regs discrete_inputs s k"
    "\<And>vs. slave_answer ans s k input_read = Some vs \<Longrightarrow> length vs = regs input_registers s k"
    "\<And>vs. slave_answer ans s k holding_read = Some vs \<Longrightarrow> length vs = regs holding_read_registers s k"
    by (auto simp: exact_def regs_def slave_answer_def split: if_splits)
  show ?bits "length (bit_slot ans s k) = regs discrete_inputs s k"
    using spliced_slot[OF x(1) _ x(2) ex(1)] bk(1) ls(1) unfolding bit_slot_def by simp_all
  let ?i = "slot_of (int_input_buf s) (ints_before s k) (regs input_registers s k) (slave_answer ans s k input_read)"
  have i: "spliced (y @ drop (ints_before s k) (int_input_buf s)) ii (slave_answer ans s k input_read) =
      (y @ ?i) @ drop (ints_before s k + regs input_registers s k) (int_input_buf s)" "length ?i = regs input_registers s k"
    using spliced_slot[OF y(1) _ y(2) ex(2)] bk(2) ls(2) by simp_all
  show w: "unat (ii + num_regs (input_registers (dev s k))) = ints_before s k + regs input_registers s k"
    using bk(2) by (subst unat_sum) (simp_all add: y(2) regs_def)
  have l: "length (y @ ?i) = ints_before s k + regs input_registers s k" using y(1) i(2) by simp
  show ?ints "length (int_slot ans s k) = regs input_registers s k + regs holding_read_registers s k"
    using spliced_slot[OF l _ w ex(3), of "int_input_buf s"] bk(2) ls(2) i unfolding int_slot_def by simp_all
qed

lemma polled_step:
  assumes r: "poll_ready ans s" and k: "k < unat (num_devices (cfg s))" and sf: "pass_safe ans s k" and t: "polled ans s k t"
  shows "outcome (pass_safe ans s (Suc k)) (polled ans s (Suc k)) (query_device ans k t)"
proof -
  let ?d = "dev s k" and ?n = "unat (num_devices (cfg s))" and ?up = "reached ans s k" and ?q = "device_errors ans s k"
  note r' = r[unfolded poll_ready_def Let_def]
  note p = polled_pollable[OF r k t]
  have e: "exact ?d (ans k)" using r' k by simp
  have bk: "regs_before discrete_inputs s (Suc k) \<le> 400" "regs_before coils s (Suc k) \<le> 400" "ints_before s (Suc k) \<le> 400" "regs_before holding_registers s (Suc k) \<le> 400"
    using r' before_mono[of "Suc k" ?n] k by (meson Suc_leI le_trans)+
  have rg: "unat (num_regs (f ?d)) = regs f s k" for f by (simp add: regs_def)
  have ix: "unat (bool_input_index t) = regs_before discrete_inputs s k" "unat (bool_output_index t) = regs_before coils s k"
     "unat (int_input_index t) = ints_before s k" "unat (int_output_index t) = regs_before holding_registers s k" using t by (simp_all add: polled_def)
  have len: "length (mb_devices (cfg s)) = ?n" "k < length (mb_devices (cfg s))" using r' k by simp_all
  have ct: "cfg t = with_links s (links ans s k)" using t by (simp add: polled_def)
  have on: "online ans s k = (isConnected ?d \<or> port_up (cfg t) (\<lambda>a. isConnected (mb_devices (cfg t) ! a)) k)"
    by (simp add: online_def ct port_up_links[OF len])
  have b: "unat (bool_input_index t) + unat (num_regs (discrete_inputs ?d)) \<le> 400" "unat (bool_output_index t) + unat (num_regs (coils ?d)) \<le> 400"
      "unat (int_input_index t) + unat (num_regs (input_registers ?d)) + unat (num_regs (holding_read_registers ?d)) \<le> 400"
      "unat (int_output_index t) + unat (num_regs (holding_registers ?d)) \<le> 400" using bk by (simp_all add: ix rg)
  note run = query_device_poll[where ans = ans, OF p e b on reached_def device_errors_def]
  have safe: "((?up \<longrightarrow> rtu_baud ?d \<noteq> 0) \<and> room t ?q) = pass_safe ans s (Suc k)"
    using sf t by (auto simp: pass_safe_def room_def moved_def polled_def less_Suc_eq)
  show ?thesis unfolding safe[symmetric]
  proof (rule outcome_mono[OF run])
    fix u
    assume u: "became k ((isConnected ?d \<or> \<not> online ans s k \<and> connects (ans k)) \<and> (protocol ?d = MB_RTU \<or> ?q = 0)) ?q
      (slave_requests (cfg t) k @ (if online ans s k then [] else [Connect (mb_ctx ?d)]) @ (if ?up then poll_requests ?d (ans k)
        (take (unat (num_regs (coils ?d))) (drop (unat (bool_output_index t)) (bool_output_buf t)))
        (take (unat (num_regs (holding_registers ?d))) (drop (unat (int_output_index t)) (int_output_buf t))) else []))
      (num_regs (discrete_inputs ?d)) (num_regs (coils ?d)) (num_regs (input_registers ?d) + num_regs (holding_read_registers ?d)) (num_regs (holding_registers ?d))
      (spliced (bool_input_buf t) (bool_input_index t) (if ?up then bits_read (ans k) else None))
      (spliced (spliced (int_input_buf t) (int_input_index t) (if ?up then input_read (ans k) else None))
        (int_input_index t + num_regs (input_registers ?d)) (if ?up then holding_read (ans k) else None)) t u"
    have dk: "mb_devices (cfg t) ! k = dev s k" by (rule p(2))
    have "(cfg t)\<lparr>mb_devices := (mb_devices (cfg t))[k := (mb_devices (cfg t) ! k)\<lparr>isConnected := v\<rparr>]\<rparr> = with_links s ((links ans s k)(k := v))" for v
      unfolding ct by (rule with_links_update[OF len(2)])
    moreover have "((isConnected ?d \<or> \<not> online ans s k \<and> connects (ans k)) \<and> (protocol ?d = MB_RTU \<or> ?q = 0)) = polled_link ans s k (links ans s k)"
      by (auto simp: polled_link_def device_errors_def online_def reached_def)
    ultimately have cu: "cfg u = with_links s (links ans s (Suc k))" using u by (simp add: became_def)
    have an: "(if ?up then bits_read (ans k) else None) = slave_answer ans s k bits_read" "(if ?up then input_read (ans k) else None) = slave_answer ans s k input_read"
      "(if ?up then holding_read (ans k) else None) = slave_answer ans s k holding_read" by (simp_all add: slave_answer_def)
    obtain x y where x: "bool_input_buf t = x @ drop (regs_before discrete_inputs s k) (bool_input_buf s)" "x = concat (map (bit_slot ans s) [0..<k])"
        "length x = regs_before discrete_inputs s k"
      and y: "int_input_buf t = y @ drop (ints_before s k) (int_input_buf s)" "y = concat (map (int_slot ans s) [0..<k])" "length y = ints_before s k"
      using t by (auto simp: polled_def)
    note sl = slots_filled[OF r k x(3) ix(1) y(3) ix(3)]
    have bu: "bool_input_buf u = (x @ bit_slot ans s k) @ drop (regs_before discrete_inputs s (Suc k)) (bool_input_buf s)"
      "int_input_buf u = (y @ int_slot ans s k) @ drop (ints_before s (Suc k)) (int_input_buf s)"
      using u unfolding became_def an x(1) y(1) sl(1,2) by blast+
    have iu: "bool_input_index u = bool_input_index t + num_regs (discrete_inputs ?d)" "bool_output_index u = bool_output_index t + num_regs (coils ?d)"
      "int_input_index u = (int_input_index t + num_regs (input_registers ?d)) + num_regs (holding_read_registers ?d)"
      "int_output_index u = int_output_index t + num_regs (holding_registers ?d)" using u by (simp_all add: became_def add.assoc)
    have "unat (bool_input_index u) = regs_before discrete_inputs s (Suc k)" "unat (bool_output_index u) = regs_before coils s (Suc k)"
       "unat (int_input_index u) = ints_before s (Suc k)" "unat (int_output_index u) = regs_before holding_registers s (Suc k)"
      unfolding iu using bk sl(5) by (subst unat_sum; simp add: ix rg)+
    moreover have "requests u = requests s @ concat (map (device_requests ans s) [0..<Suc k])"
    proof -
      have "slave_requests (cfg t) k = slave_requests (cfg s) k" unfolding ct by (rule port_up_links(2)[OF len])
      then show ?thesis using u t by (simp add: became_def polled_def device_requests_def rg ix)
    qed
    moreover have "sf2 u = sf2 s + moved s (\<Sum>i<Suc k. device_errors ans s i)" using u t by (simp add: became_def polled_def moved_def)
    moreover have "bool_output_buf u = bool_output_buf s" "int_output_buf u = int_output_buf s" "mb_img u = mb_img s" "\<not> ioLock u" "log_inv (mb_lg u)"
      using u t by (simp_all add: became_def polled_def)
    ultimately show "polled ans s (Suc k) u" unfolding polled_def using cu bu sl(3,4) x(2,3) y(2,3) by simp
  qed
qed
lemma regs_extend [simp]: "cfg (mbm.extend s m) = cfg s" "bool_input_buf (mbm.extend s m) = bool_input_buf s" "bool_output_buf (mbm.extend s m) = bool_output_buf s"
  "int_input_buf (mbm.extend s m) = int_input_buf s" "int_output_buf (mbm.extend s m) = int_output_buf s" "ioLock (mbm.extend s m) = ioLock s"
  "mb_img (mbm.extend s m) = mb_img s" "sf2 (mbm.extend s m) = sf2 s" "mb_lg (mbm.extend s m) = mb_lg s"
  "bool_input_index (mbm.extend s (mbx.fields a b c d)) = a" "bool_output_index (mbm.extend s (mbx.fields a b c d)) = b"
  "int_input_index (mbm.extend s (mbx.fields a b c d)) = c" "int_output_index (mbm.extend s (mbx.fields a b c d)) = d"
  by (simp_all add: mbm.defs mbx.defs)

text \<open>
  The state after a pass: what was read is in the slots, in the order of the devices; the requests are those of the
  devices one after the other; the errors have moved the pointer of the counter.
\<close>

definition pass_done :: "(nat \<Rightarrow> mb_answers) \<Rightarrow> mbm \<Rightarrow> mbm \<Rightarrow> bool" where
  "pass_done ans s t \<longleftrightarrow> (let n = unat (num_devices (cfg s)) in
     bool_input_buf t = concat (map (bit_slot ans s) [0..<n]) @ drop (regs_before discrete_inputs s n) (bool_input_buf s) \<and>
     int_input_buf t = concat (map (int_slot ans s) [0..<n]) @ drop (ints_before s n) (int_input_buf s) \<and>
     requests t = requests s @ concat (map (device_requests ans s) [0..<n]) \<and> cfg t = with_links s (links ans s n) \<and>
     sf2 t = sf2 s + moved s (\<Sum>i<n. device_errors ans s i) \<and>
     length (bool_input_buf t) = 400 \<and> length (int_input_buf t) = 400 \<and>
     mb_img t = mb_img s \<and> \<not> ioLock t \<and> bool_output_buf t = bool_output_buf s \<and> int_output_buf t = int_output_buf s)"

lemma pass_runs:
  assumes "poll_ready ans s"
  shows "outcome (pass_safe ans s (unat (num_devices (cfg s)))) (pass_done ans s) (query_pass ans s)"
proof -
  let ?n = "unat (num_devices (cfg s))" and ?s = "mbm.extend s (mbx.fields 0 0 0 0)"
  note r = assms[unfolded poll_ready_def Let_def]
  have run: "query_pass ans s = Option.bind (for_each (query_device ans) [0..<?n] ?s) (\<lambda>u. Some (mbm.truncate u))"
    by (simp add: query_pass_def map_conv_bind_option comp_def)
  have q: "requests ?s = requests s" by (simp add: mbm.defs)
  have "polled ans s 0 ?s" using r q by (simp add: polled_def moved_def)
  then have l: "outcome (pass_safe ans s ?n) (polled ans s ?n) (for_each (query_device ans) [0..<?n] ?s)"
  proof (rule outcome_for_upt)
    show "pass_safe ans s i" if "pass_safe ans s (Suc i)" for i using that by (auto simp: pass_safe_def room_def)
    show "pass_safe ans s 0" by (simp add: pass_safe_def)
  qed (rule polled_step[OF assms])
  show ?thesis unfolding run
  proof (rule outcome_bind[OF l])
    fix u
    assume c: "pass_safe ans s ?n" and u: "polled ans s ?n u"
    have tr: "bool_input_buf (mbm.truncate u) = bool_input_buf u" "int_input_buf (mbm.truncate u) = int_input_buf u" "cfg (mbm.truncate u) = cfg u" "sf2 (mbm.truncate u) = sf2 u"
      "bool_output_buf (mbm.truncate u) = bool_output_buf u" "int_output_buf (mbm.truncate u) = int_output_buf u"
      "requests (mbm.truncate u) = requests u" "mb_img (mbm.truncate u) = mb_img u" "ioLock (mbm.truncate u) = ioLock u" by (simp_all add: mbm.defs)
    have "length (bool_input_buf u) = 400" "length (int_input_buf u) = 400" using u r by (auto simp: polled_def)
    then have "pass_done ans s (mbm.truncate u)" using u by (auto simp: pass_done_def polled_def Let_def tr)
    then show "outcome (pass_safe ans s ?n) (pass_done ans s) (Some (mbm.truncate u))" using c by (simp add: outcome_Some)
  qed
qed

section \<open>Between the buffers and the image\<close>

definition in_bit :: "plc \<Rightarrow> nat \<Rightarrow> bool_ptr option" where "in_bit p i = bool_input p (100 + i div 8) (i mod 8)"
definition in_word :: "plc \<Rightarrow> nat \<Rightarrow> uint_ptr option" where "in_word p i = int_input p (100 + i)"

text \<open>No two of the points of the master are located at the same variable.\<close>

definition separate :: "(nat \<Rightarrow> 'p option) \<Rightarrow> bool" where
  "separate f \<longleftrightarrow> (\<forall>i < 400. \<forall>j < 400. f i \<noteq> None \<longrightarrow> f i = f j \<longrightarrow> i = j)"

definition imaged :: "mbm \<Rightarrow> nat \<Rightarrow> mbm \<Rightarrow> bool" where
  "imaged s k t \<longleftrightarrow> (\<exists>q. t = s\<lparr>mb_img := q\<rparr> \<and> same_tables (mb_img s) q \<and>
     (\<forall>j < k. \<forall>a. in_bit (mb_img s) j = Some a \<longrightarrow> bools q a = bool_input_buf s ! j) \<and>
     (\<forall>j < k. \<forall>a. in_word (mb_img s) j = Some a \<longrightarrow> uints q a = int_input_buf s ! j) \<and>
     bufferLock q = bufferLock (mb_img s) \<and> (\<forall>a. (\<forall>j < 400. in_bit (mb_img s) j \<noteq> Some a) \<longrightarrow> bools q a = bools (mb_img s) a))"

lemma in_mb_step_ok:
  assumes k: "k < 400" and l: "length (bool_input_buf s) = 400" "length (int_input_buf s) = 400"
    and d: "separate (in_bit (mb_img s))" "separate (in_word (mb_img s))" and t: "imaged s k t"
  shows "ok (in_mb_step k t) (imaged s (Suc k))"
proof -
  obtain q where q: "t = s\<lparr>mb_img := q\<rparr>" "same_tables (mb_img s) q"
    "\<forall>j < k. \<forall>a. in_bit (mb_img s) j = Some a \<longrightarrow> bools q a = bool_input_buf s ! j"
    "\<forall>j < k. \<forall>a. in_word (mb_img s) j = Some a \<longrightarrow> uints q a = int_input_buf s ! j"
    "bufferLock q = bufferLock (mb_img s)" "\<forall>a. (\<forall>j < 400. in_bit (mb_img s) j \<noteq> Some a) \<longrightarrow> bools q a = bools (mb_img s) a"
    using t by (auto simp: imaged_def)
  let ?q = "store_uint (in_word (mb_img s) k) (int_input_buf s ! k) (store_bool (in_bit (mb_img s) k) (bool_input_buf s ! k) q)"
  have tb: "bool_input q = bool_input (mb_img s)" "int_input q = int_input (mb_img s)" using q(2) by (simp_all add: same_tables_def)
  have "same_tables q (store_bool (in_bit (mb_img s) k) (bool_input_buf s ! k) q)" by (simp add: same_tables_def store_bool_def set_bool_def split: option.splits)
  then have tb': "int_input (store_bool (in_bit (mb_img s) k) (bool_input_buf s ! k) q) = int_input (mb_img s)" using tb by (simp add: same_tables_def)
  have "in_mb_step k t = Some (s\<lparr>mb_img := ?q\<rparr>)"
    using k l tb tb' by (simp add: in_mb_step_def q(1) rd_def Let_def in_bit_def in_word_def)
  moreover have "same_tables (mb_img s) ?q" using q(2) by simp
  moreover have "bools ?q a = bool_input_buf s ! j" if "j < Suc k" "in_bit (mb_img s) j = Some a" for j a
    using that q(3) d(1) k by (cases "j = k") (auto simp: bools_store_bool separate_def split: option.splits)
  moreover have "uints ?q a = int_input_buf s ! j" if "j < Suc k" "in_word (mb_img s) j = Some a" for j a
    using that q(4) d(2) k by (cases "j = k") (auto simp: uints_store_uint separate_def split: option.splits)
  moreover have "bools ?q a = bools (mb_img s) a" if "\<forall>j < 400. in_bit (mb_img s) j \<noteq> Some a" for a
    using that q(6) k by (auto simp: bools_store_bool split: option.splits)
  moreover have "bufferLock ?q = bufferLock (mb_img s)" using q(5) by simp
  ultimately show ?thesis by (auto simp: imaged_def)
qed

lemma updateBuffersIn_MB_runs:
  assumes l: "length (bool_input_buf s) = 400" "length (int_input_buf s) = 400" "\<not> ioLock s"
    and d: "separate (in_bit (mb_img s))" "separate (in_word (mb_img s))"
  shows "\<exists>u. updateBuffersIn_MB s = Some u \<and> same_tables (mb_img s) (mb_img u) \<and> u = s\<lparr>mb_img := mb_img u\<rparr> \<and>
     bufferLock (mb_img u) = bufferLock (mb_img s) \<and> (\<forall>a. (\<forall>j < 400. in_bit (mb_img s) j \<noteq> Some a) \<longrightarrow> bools (mb_img u) a = bools (mb_img s) a) \<and>
     (\<forall>j < 400. \<forall>a. in_bit (mb_img s) j = Some a \<longrightarrow> bools (mb_img u) a = bool_input_buf s ! j) \<and>
     (\<forall>j < 400. \<forall>a. in_word (mb_img s) j = Some a \<longrightarrow> uints (mb_img u) a = int_input_buf s ! j)"
proof -
  let ?s = "s\<lparr>ioLock := True\<rparr>"
  have "imaged ?s 0 ?s" by (auto simp: imaged_def intro!: exI[of _ "mb_img s"])
  then have "ok (for_each in_mb_step [0..<400] ?s) (imaged ?s 400)"
    by (rule ok_for_upt) (rule in_mb_step_ok, use l d in simp_all)
  then obtain q where q: "for_each in_mb_step [0..<400] ?s = Some (?s\<lparr>mb_img := q\<rparr>)" "same_tables (mb_img s) q"
     "\<forall>j < 400. \<forall>a. in_bit (mb_img s) j = Some a \<longrightarrow> bools q a = bool_input_buf s ! j"
     "\<forall>j < 400. \<forall>a. in_word (mb_img s) j = Some a \<longrightarrow> uints q a = int_input_buf s ! j"
     "bufferLock q = bufferLock (mb_img s)" "\<forall>a. (\<forall>j < 400. in_bit (mb_img s) j \<noteq> Some a) \<longrightarrow> bools q a = bools (mb_img s) a"
    by (auto simp: ok_iff imaged_def)
  have "s\<lparr>mb_img := q, ioLock := False\<rparr> = s\<lparr>mb_img := q\<rparr>" using l(3) by simp
  then have "updateBuffersIn_MB s = Some (s\<lparr>mb_img := q\<rparr>)"
    using l(3) q(1) by (simp add: updateBuffersIn_MB_def io_lock_def io_unlock_def MAX_MB_IO_def)
  then show ?thesis using q(2-6) by (intro exI[of _ "s\<lparr>mb_img := q\<rparr>"]) simp
qed

text \<open>A position of a concatenation.\<close>

lemma concat_nth:
  assumes "i < n" "j < length (f i)"
  shows "concat (map f [0..<n]) ! ((\<Sum>k<i. length (f k)) + j) = f i ! j" "(\<Sum>k<i. length (f k)) + j < length (concat (map f [0..<n]))"
proof -
  have s: "[0..<n] = [0..<i] @ i # [Suc i..<n]" using assms(1) by (metis le_add1 less_imp_le_nat plus_nat.add_0 upt_add_eq_append upt_conv_Cons zero_le le_add_diff_inverse)
  have l: "length (concat (map f [0..<i])) = (\<Sum>k<i. length (f k))" by (simp add: length_concat comp_def interv_sum_list_conv_sum_set_nat atLeast0LessThan)
  show "concat (map f [0..<n]) ! ((\<Sum>k<i. length (f k)) + j) = f i ! j" "(\<Sum>k<i. length (f k)) + j < length (concat (map f [0..<n]))"
    unfolding s using l assms(2) by (simp_all add: nth_append)
qed


text \<open>What a device answers is found at its position of the buffer.\<close>

lemma slot_length:
  assumes "poll_ready ans s" "i < unat (num_devices (cfg s))"
  shows "length (bit_slot ans s i) = regs discrete_inputs s i" "length (int_slot ans s i) = regs input_registers s i + regs holding_read_registers s i"
proof -
  note r = assms(1)[unfolded poll_ready_def Let_def]
  have e: "exact (dev s i) (ans i)" and l: "length (bool_input_buf s) = 400" "length (int_input_buf s) = 400" using r assms(2) by auto
  have "regs_before discrete_inputs s (Suc i) \<le> 400" "ints_before s (Suc i) \<le> 400"
    using r before_mono[of "Suc i" "unat (num_devices (cfg s))"] assms(2) by (meson Suc_leI le_trans)+
  then show "length (bit_slot ans s i) = regs discrete_inputs s i" "length (int_slot ans s i) = regs input_registers s i + regs holding_read_registers s i"
    using e l by (auto simp: bit_slot_def int_slot_def slot_of_def slave_answer_def exact_def regs_def split: option.splits)
qed

lemma before_slots:
  assumes "poll_ready ans s" "i < unat (num_devices (cfg s))"
  shows "regs_before discrete_inputs s i = (\<Sum>k<i. length (bit_slot ans s k))" "ints_before s i = (\<Sum>k<i. length (int_slot ans s k))"
  unfolding regs_before_def ints_before_def using slot_length[OF assms(1)] assms(2) by (simp_all cong: sum.cong_simp)

lemma answers_in_buffers:
  assumes r: "poll_ready ans s" and i: "i < unat (num_devices (cfg s))" "reached ans s i" and t: "pass_done ans s t"
  shows "bits_read (ans i) = Some vs \<Longrightarrow> j < length vs \<Longrightarrow> bool_input_buf t ! (regs_before discrete_inputs s i + j) = vs ! j \<and> regs_before discrete_inputs s i + j < 400"
    "input_read (ans i) = Some ws \<Longrightarrow> k < length ws \<Longrightarrow> int_input_buf t ! (ints_before s i + k) = ws ! k \<and> ints_before s i + k < 400"
    "holding_read (ans i) = Some us \<Longrightarrow> m < length us \<Longrightarrow>
      int_input_buf t ! (ints_before s i + regs input_registers s i + m) = us ! m \<and> ints_before s i + regs input_registers s i + m < 400"
proof -
  let ?n = "unat (num_devices (cfg s))"
  have b: "bool_input_buf t = concat (map (bit_slot ans s) [0..<?n]) @ drop (regs_before discrete_inputs s ?n) (bool_input_buf s)"
    "int_input_buf t = concat (map (int_slot ans s) [0..<?n]) @ drop (ints_before s ?n) (int_input_buf s)"
    "length (bool_input_buf t) = 400" "length (int_input_buf t) = 400" using t unfolding pass_done_def Let_def by blast+
  have e: "exact (dev s i) (ans i)" using r i(1) by (auto simp: poll_ready_def Let_def)
  have bits: "bool_input_buf t ! (regs_before discrete_inputs s i + j) = bit_slot ans s i ! j \<and> regs_before discrete_inputs s i + j < 400"
    if "j < length (bit_slot ans s i)" for j
    using concat_nth[of i ?n j "bit_slot ans s"] that i(1) b(1,3) before_slots[OF r i(1)] by (simp add: nth_append)
  have ints: "int_input_buf t ! (ints_before s i + j) = int_slot ans s i ! j \<and> ints_before s i + j < 400"
    if "j < length (int_slot ans s i)" for j
    using concat_nth[of i ?n j "int_slot ans s"] that i(1) b(2,4) before_slots[OF r i(1)] by (simp add: nth_append)
  note sl = slot_length[OF r i(1)]
  { assume "bits_read (ans i) = Some vs" "j < length vs"
    then show "bool_input_buf t ! (regs_before discrete_inputs s i + j) = vs ! j \<and> regs_before discrete_inputs s i + j < 400"
      using bits[of j] i(2) by (simp add: bit_slot_def slave_answer_def slot_of_def) }
  { assume w: "input_read (ans i) = Some ws" "k < length ws"
    then have "length ws = regs input_registers s i" using e by (simp add: exact_def regs_def)
    then show "int_input_buf t ! (ints_before s i + k) = ws ! k \<and> ints_before s i + k < 400"
      using ints[of k] w i(2) sl(2) by (simp add: int_slot_def slave_answer_def slot_of_def[of _ _ _ "Some ws"] nth_append) }
  { assume w: "holding_read (ans i) = Some us" "m < length us"
    then have l: "length us = regs holding_read_registers s i" using e by (simp add: exact_def regs_def)
    have "int_slot ans s i ! (regs input_registers s i + m) = us ! m"
    proof -
      have "length (slot_of (int_input_buf s) (ints_before s i) (regs input_registers s i) (slave_answer ans s i input_read)) = regs input_registers s i"
        using sl(2) w i(2) l by (simp add: int_slot_def slave_answer_def slot_of_def[of _ _ _ "Some us"])
      then show ?thesis using w i(2) by (simp add: int_slot_def slave_answer_def slot_of_def[of _ _ _ "Some us"] nth_append)
    qed
    then show "int_input_buf t ! (ints_before s i + regs input_registers s i + m) = us ! m \<and> ints_before s i + regs input_registers s i + m < 400"
      using ints[of "regs input_registers s i + m"] w(2) sl(2) l by (simp add: add.assoc) }
qed

text \<open>
  C27. One pass of the polling thread over TCP and RTU devices, with any connections and any failures. The conditions are
  that the parts of all devices fit into the buffers of 400 elements, that the library returns as many values as were
  asked for, and what types and earlier passes give (\<open>poll_ready\<close>). The pass faults exactly when a device that is asked has
  no baud rate (of whatever protocol), or when the errors carry the pointer of a located error counter past its variable;
  otherwise it ends, and then: the input buffers are filled part by part, in the order of the devices, where a device
  that is asked and answers has its values in its part, and one that is not asked or fails keeps what was there before and
  does not shift the parts of the devices behind it. The requests of the pass are those of the devices one after the
  other: the selection of the slave on a shared port, a connect for a device that is not online, the reads, and the writes
  of exactly its part of the output buffers, each followed by a close when it fails on TCP. What is connected
  afterwards is stated; the image, the lock and the output buffers are as before.
\<close>

theorem slaves_have_slots:
  assumes "poll_ready ans s"
  shows "if pass_safe ans s (unat (num_devices (cfg s))) then \<exists>t. query_pass ans s = Some t \<and> pass_done ans s t else query_pass ans s = None"
  using pass_runs[OF assms] by (simp add: outcome_def)

text \<open>
  C28. What the slaves answer in a pass that does not fault (C27) is in the process image after the next exchange: the
  bit at position \<open>j\<close> of device \<open>i\<close> in the variable located at %IX100.0 plus its offset, the registers in those located
  from %IW100 on. No variable is located at two of these points.
\<close>

theorem slave_values_reach_image:
  assumes "poll_ready ans s" "pass_safe ans s (unat (num_devices (cfg s)))" "separate (in_bit (mb_img s))" "separate (in_word (mb_img s))"
  shows "\<exists>t u. query_pass ans s = Some t \<and> updateBuffersIn_MB t = Some u \<and>
    (\<forall>i < unat (num_devices (cfg s)). reached ans s i \<longrightarrow>
      (\<forall>vs j a. bits_read (ans i) = Some vs \<and> j < length vs \<and> in_bit (mb_img s) (regs_before discrete_inputs s i + j) = Some a \<longrightarrow> bools (mb_img u) a = vs ! j) \<and>
      (\<forall>vs j a. input_read (ans i) = Some vs \<and> j < length vs \<and> in_word (mb_img s) (ints_before s i + j) = Some a \<longrightarrow> uints (mb_img u) a = vs ! j) \<and>
      (\<forall>vs j a. holding_read (ans i) = Some vs \<and> j < length vs \<and> in_word (mb_img s) (ints_before s i + regs input_registers s i + j) = Some a \<longrightarrow>
        uints (mb_img u) a = vs ! j))"
proof -
  obtain t where t: "query_pass ans s = Some t" "pass_done ans s t" using pass_runs[OF assms(1)] assms(2) by (auto simp: outcome_def)
  have d: "mb_img t = mb_img s" "length (bool_input_buf t) = 400" "length (int_input_buf t) = 400" "\<not> ioLock t"
    using t(2) unfolding pass_done_def Let_def by blast+
  obtain u where u: "updateBuffersIn_MB t = Some u"
    "\<forall>j < 400. \<forall>a. in_bit (mb_img s) j = Some a \<longrightarrow> bools (mb_img u) a = bool_input_buf t ! j"
    "\<forall>j < 400. \<forall>a. in_word (mb_img s) j = Some a \<longrightarrow> uints (mb_img u) a = int_input_buf t ! j"
    using updateBuffersIn_MB_runs[of t] d assms(3,4) by auto
  show ?thesis
    by (intro exI[of _ t] exI[of _ u] conjI allI impI t(1) u(1); elim conjE)
      (metis answers_in_buffers[OF assms(1) _ _ t(2)] u(2) u(3))+
qed

section \<open>What goes wrong\<close>

text \<open>A second communication error, with the counter located in the program, goes through the moved pointer.\<close>

lemma second_error_faults:
  assumes "special_functions (mb_img s) 2 \<noteq> None" "sf2 s = 0"
  shows "\<exists>t. count_error s = Some t \<and> mb_img t = mb_img s \<and> count_error t = None"
  using assms by (simp add: count_error_def)

text \<open>A device without a baud rate, as every TCP device of a file that does not set one, divides by zero once it is connected.\<close>

lemma no_baud_rate_faults:
  assumes "device_at i s = Some d" "isConnected d" "protocol d = MB_TCP" "rtu_baud d = 0"
  shows "query_device ans i s = None"
  using assms by (simp add: query_device_def MB_TCP_def MB_RTU_def Let_def)

section \<open>The configuration file\<close>

definition quoted :: "string \<Rightarrow> string" where
  "quoted v = CHR 0x22 # v @ [CHR 0x22]"

lemma line_data_quoted:
  assumes "CHR 0x22 \<notin> set k" "NUL \<notin> set k" "CHR 0x22 \<notin> set v" "NUL \<notin> set v"
  shows "line_data sz (k @ quoted v @ r) = sprint v (replicate sz NUL)"
proof -
  have a: "skip_while (\<lambda>c. c \<noteq> CHR 0x22 \<and> c \<noteq> NUL) (k @ CHR 0x22 # v @ CHR 0x22 # r) = Some (CHR 0x22 # v @ CHR 0x22 # r)"
    using assms by (intro skip_while_append) auto
  have b: "copy_while (\<lambda>c. c \<noteq> CHR 0x22 \<and> c \<noteq> NUL) (v @ CHR 0x22 # r) = Some v"
    using assms by (intro copy_while_append) auto
  show ?thesis by (simp add: line_data_def getData_def quoted_def a b)
qed

lemma digits_plain: "CHR 0x22 \<notin> set (show_nat n)" "NUL \<notin> set (show_nat n)"
  using show_nat_digits[of n] by (auto simp: is_digit_def)

lemma line_number_quoted:
  assumes "CHR 0x22 \<notin> set k" "NUL \<notin> set k" "length (show_nat n) < sz" "n < 2 ^ 31"
  shows "line_number sz (k @ quoted (show_nat n) @ r) = Some (int n)"
  using assms atoi_show[of n NUL] by (simp add: line_number_def line_data_quoted digits_plain sprint_def is_digit_def)

lemma line_word_quoted:
  assumes "CHR 0x22 \<notin> set k" "NUL \<notin> set k" "length (show_nat n) < sz" "n < 2 ^ 31"
  shows "line_word sz (k @ quoted (show_nat n) @ r) = Some (of_nat n)"
  using line_number_quoted[OF assms, of r] by (simp add: line_word_def)

lemma line_array_short:
  assumes "NUL \<notin> set l" "length l < 1024"
  shows "line_array l = l @ NUL # replicate (1023 - length l) NUL" "cstr (line_array l) = l"
proof -
  have c: "cstr l = l" using assms(1) by (auto simp: cstr_def takeWhile_eq_all_conv)
  have "Suc (1023 - length l) = 1024 - length l" using assms(2) by simp
  then show *: "line_array l = l @ NUL # replicate (1023 - length l) NUL"
    using assms(2) by (simp add: line_array_def c flip: replicate_Suc)
  show "cstr (line_array l) = l" unfolding * using assms(1) by (auto simp: cstr_def takeWhile_append)
qed

lemma plain_line:
  assumes "NUL \<notin> set l" "length l < 1024" "l = k @ quoted v" "k = c0 # c1 # k'" "c0 \<noteq> CHR ''#''"
  shows "\<exists>r. line_array l = k @ quoted v @ r" "NUL \<in> set (line_array l)" "line_array l ! 0 = c0" "1 < length (cstr (line_array l))"
  using line_array_short[OF assms(1,2)] assms(3-5) by auto

lemma begins_append [simp]: "length lit \<le> length k \<Longrightarrow> begins lit (k @ r) = begins lit k"
  by (simp add: begins_def)

text \<open>The count makes the devices, all zero; what was set for them before is lost.\<close>

lemma num_devices_line:
  assumes "n < 256"
  shows "parse_line junk (''Num_Devices = '' @ quoted (show_nat n)) c =
    Some (c\<lparr>num_devices := of_nat n, mb_devices := replicate n zero_device\<rparr>)"
proof -
  let ?l = "''Num_Devices = '' @ quoted (show_nat n)"
  have d: "length (show_nat n) \<le> 3" using assms by (intro length_show_nat) simp_all
  have l: "NUL \<notin> set ?l" "length ?l < 1024" using d digits_plain[of n] by (simp_all add: quoted_def)
  from plain_line[OF l refl, of "CHR ''N''" "CHR ''u''" "''m_Devices = ''"] obtain r
    where r: "line_array ?l = ''Num_Devices = '' @ quoted (show_nat n) @ r" "NUL \<in> set (line_array ?l)" "line_array ?l ! 0 = CHR ''N''"
      "1 < length (cstr (line_array ?l))" by auto
  have w: "line_word 5 (line_array ?l) = Some (of_nat n :: byte)" unfolding r(1) by (rule line_word_quoted) (use d assms in simp_all)
  have b: "begins ''Num_Devices'' (line_array ?l)" unfolding r(1) by (simp add: begins_def)
  have "unat (of_nat n :: byte) = n" using assms by (simp add: unat_of_nat take_bit_nat_eq_self)
  then show ?thesis using r(2-4) w b by (simp add: parse_line_def Let_def)
qed

lemma atoi_sprint: "length (show_nat k) < length b \<Longrightarrow> k < 2 ^ 31 \<Longrightarrow> Option.bind (sprint (show_nat k) b) atoi = Some (int k)"
  using atoi_show[of k NUL] by (simp add: sprint_def is_digit_def)

text \<open>The port of a device; a device that the count has not made is behind the array.\<close>

lemma port_line:
  assumes "k < 10000" "n < 65536" "length (temp_junk junk) = 5" "7 < length (function_junk junk)"
  shows "parse_line junk (''device'' @ show_nat k @ ''.IP_Port = '' @ quoted (show_nat n)) c =
    (if k < length (mb_devices c) then Some (c\<lparr>mb_devices := (mb_devices c)[k := (mb_devices c ! k)\<lparr>ip_port := of_nat n\<rparr>]\<rparr>) else None)"
proof -
  let ?l = "''device'' @ show_nat k @ ''.IP_Port = '' @ quoted (show_nat n)"
  let ?a = "line_array ?l"
  have dg: "length (show_nat n) \<le> 5" "length (show_nat k) \<le> 4" using assms(1,2) by (auto intro: length_show_nat)
  have l: "NUL \<notin> set ?l" "length ?l < 1024" using dg digits_plain[of n] digits_plain[of k] by (simp_all add: quoted_def)
  have e: "?l = (''device'' @ show_nat k @ ''.IP_Port = '') @ quoted (show_nat n)" by simp
  from plain_line[OF l e, of "CHR ''d''" "CHR ''e''" "''vice'' @ show_nat k @ ''.IP_Port = ''"] obtain r
    where r: "?a = (''device'' @ show_nat k @ ''.IP_Port = '') @ quoted (show_nat n) @ r" "NUL \<in> set ?a" "?a ! 0 = CHR ''d''" "1 < length (cstr ?a)" by auto
  have kd: "CHR ''.'' \<notin> set (show_nat k)" using show_nat_digits[of k] by (auto simp: is_digit_def)
  have num: "getDeviceNumber (temp_junk junk) ?a = Some (int k)"
  proof -
    have "drop 6 ?a = show_nat k @ CHR ''.'' # ''IP_Port = '' @ quoted (show_nat n) @ r" unfolding r(1) by simp
    moreover have "copy_while (\<lambda>c. c \<noteq> CHR ''.'') (show_nat k @ CHR ''.'' # cs) = Some (show_nat k)" for cs
      using kd by (intro copy_while_append) auto
    ultimately show ?thesis using atoi_sprint[of k "temp_junk junk"] dg(2) assms(1,3) show_nat_digits[of k] by (simp add: getDeviceNumber_def)
  qed
  have fn: "getFunction ?a (function_junk junk) = Some (''IP_Port'' @ NUL # drop 8 (function_junk junk))"
  proof -
    have "skip_while (\<lambda>c. c \<noteq> CHR ''.'') ((''device'' @ show_nat k) @ CHR ''.'' # cs) = Some (CHR ''.'' # cs)" for cs
      using kd by (intro skip_while_append) auto
    then have "skip_while (\<lambda>c. c \<noteq> CHR ''.'') ?a = Some (CHR ''.'' # ''IP_Port = '' @ quoted (show_nat n) @ r)" unfolding r(1) by simp
    then show ?thesis using assms(4) by (simp add: getFunction_def sprint_def eval_nat_numeral)
  qed
  have w: "line_word 6 ?a = Some (of_nat n :: 16 word)" unfolding r(1)
    by (rule line_word_quoted) (use dg assms(2) digits_plain[of k] in simp_all)
  have b: "\<not> begins ''Num_Devices'' ?a" "\<not> begins ''Polling_Period'' ?a" "\<not> begins ''Timeout'' ?a" "begins ''device'' ?a"
    unfolding r(1) by (simp_all add: begins_def)
  have ds: "device_setting (''IP_Port'' @ NUL # x) ?a d = Some (d\<lparr>ip_port := of_nat n\<rparr>)" for x d
    unfolding device_setting_def w by (simp add: begins_def)
  show ?thesis using r(2-4) b num fn ds[of "drop 8 (function_junk junk)"] by (simp add: parse_line_def Let_def rd_def)
qed

section \<open>Examples\<close>

text \<open>One device that is not connected, with two inputs, one coil and one register.\<close>

definition one_slave :: mbm where
  "one_slave = \<lparr>cfg = initial_config\<lparr>num_devices := 1, mb_devices := [zero_device\<lparr>protocol := MB_TCP, rtu_baud := 9600,
       discrete_inputs := \<lparr>start_address = 0, num_regs = 2\<rparr>, coils := \<lparr>start_address = 0, num_regs = 1\<rparr>,
       input_registers := \<lparr>start_address = 10, num_regs = 1\<rparr>\<rparr>]\<rparr>,
     bool_input_buf = replicate 400 0, bool_output_buf = 1 # replicate 399 0, int_input_buf = replicate 400 0, int_output_buf = replicate 400 0,
     ioLock = False, mb_img = null_image\<lparr>bool_input := (\<lambda>i j. if i = 100 \<and> j = 1 then Some (BVar 4) else None),
       int_input := (\<lambda>i. None)(100 := Some (UVar 6))\<rparr>, sf2 = 0, mb_lg = \<lparr>log_text = [], log_counter = 0\<rparr>, requests = []\<rparr>"

definition slave_answers :: "nat \<Rightarrow> mb_answers" where
  "slave_answers i = \<lparr>connects = True, bits_read = Some [0, 1], coils_written = True, input_read = Some [77], holding_read = None, holding_written = True, error_text = []\<rparr>"

lemma one_slave_ready: "poll_ready slave_answers one_slave"
  by (simp add: poll_ready_def dev_def one_slave_def slave_answers_def exact_def initial_config_def zero_device_def no_address_def MB_TCP_def MB_RTU_def
      regs_before_def ints_before_def regs_def log_inv_def null_image_def Let_def)

lemma one_slave_devices: "unat (num_devices (cfg one_slave)) = 1" "reached slave_answers one_slave 0" "\<not> online slave_answers one_slave 0"
    "pass_safe slave_answers one_slave 1"
  by (simp_all add: pass_safe_def room_def reached_def online_def port_up_def dev_def one_slave_def slave_answers_def null_image_def zero_device_def MB_TCP_def MB_RTU_def)

theorem slaves_have_slots_witness:
  "\<exists>t. query_pass slave_answers one_slave = Some t \<and> take 2 (bool_input_buf t) = [0, 1] \<and> int_input_buf t ! 0 = 77 \<and>
    requests t = [Connect None, Read_Input_Bits None 0 2, Write_Bits None 0 [1], Read_Input_Registers None 10 1]"
proof -
  obtain t where t: "query_pass slave_answers one_slave = Some t" "pass_done slave_answers one_slave t"
    using slaves_have_slots[OF one_slave_ready] one_slave_devices(1,4) by auto
  have rb: "regs coils one_slave 0 = 1" "regs holding_registers one_slave 0 = 0"
    by (simp_all add: regs_def dev_def one_slave_def zero_device_def no_address_def)
  have sl: "bit_slot slave_answers one_slave 0 = [0, 1]" "int_slot slave_answers one_slave 0 ! 0 = 77" "int_slot slave_answers one_slave 0 \<noteq> []"
    using one_slave_devices(2) by (simp_all add: bit_slot_def int_slot_def slot_of_def slave_answer_def slave_answers_def)
  have dr: "device_requests slave_answers one_slave 0 = [Connect None, Read_Input_Bits None 0 2, Write_Bits None 0 [1], Read_Input_Registers None 10 1]"
    using one_slave_devices(2,3) rb
    by (simp add: device_requests_def slave_requests_def poll_requests_def bits_requests_def coil_requests_def input_requests_def holding_requests_def
        register_requests_def request_of_def Let_def dev_def)
      (simp add: one_slave_def slave_answers_def zero_device_def no_address_def MB_TCP_def MB_RTU_def)
  have "requests one_slave = []" by (simp add: one_slave_def)
  then show ?thesis using t sl dr by (auto simp: pass_done_def Let_def one_slave_devices(1) nth_append)
qed

theorem slave_values_reach_image_witness:
  "\<exists>t u. query_pass slave_answers one_slave = Some t \<and> updateBuffersIn_MB t = Some u \<and> bools (mb_img u) (BVar 4) = 1 \<and> uints (mb_img u) (UVar 6) = 77"
proof -
  have in_w: "in_bit (mb_img one_slave) j = (if j = 1 then Some (BVar 4) else None)" "in_word (mb_img one_slave) j = (if j = 0 then Some (UVar 6) else None)" for j
  proof -
    have "j div 8 = 0 \<and> j mod 8 = 1 \<longleftrightarrow> j = 1" by presburger
    then show "in_bit (mb_img one_slave) j = (if j = 1 then Some (BVar 4) else None)" by (simp add: in_bit_def one_slave_def)
    show "in_word (mb_img one_slave) j = (if j = 0 then Some (UVar 6) else None)" by (simp add: in_word_def one_slave_def)
  qed
  then have "separate (in_bit (mb_img one_slave))" "separate (in_word (mb_img one_slave))" by (auto simp: separate_def split: if_splits)
  from slave_values_reach_image[OF one_slave_ready one_slave_devices(4)[folded one_slave_devices(1)] this] obtain t u where t: "query_pass slave_answers one_slave = Some t" "updateBuffersIn_MB t = Some u"
    and v: "\<forall>i < unat (num_devices (cfg one_slave)). reached slave_answers one_slave i \<longrightarrow>
      (\<forall>vs j a. bits_read (slave_answers i) = Some vs \<and> j < length vs \<and> in_bit (mb_img one_slave) (regs_before discrete_inputs one_slave i + j) = Some a \<longrightarrow> bools (mb_img u) a = vs ! j) \<and>
      (\<forall>vs j a. input_read (slave_answers i) = Some vs \<and> j < length vs \<and> in_word (mb_img one_slave) (ints_before one_slave i + j) = Some a \<longrightarrow> uints (mb_img u) a = vs ! j) \<and>
      (\<forall>vs j a. holding_read (slave_answers i) = Some vs \<and> j < length vs \<and>
        in_word (mb_img one_slave) (ints_before one_slave i + regs input_registers one_slave i + j) = Some a \<longrightarrow> uints (mb_img u) a = vs ! j)"
    by (elim exE conjE) (rule that)
  have n: "unat (num_devices (cfg one_slave)) = 1" "reached slave_answers one_slave 0" by (simp_all add: one_slave_devices)
  have a: "bits_read (slave_answers 0) = Some [0, 1]" "input_read (slave_answers 0) = Some [77]" by (simp_all add: slave_answers_def)
  have "bools (mb_img u) (BVar 4) = [0, 1 :: byte] ! 1" using n a(1) in_w by (intro v[rule_format, of 0, THEN conjunct1, rule_format]) simp_all
  moreover have "uints (mb_img u) (UVar 6) = [77 :: 16 word] ! 0"
    using n a(2) in_w by (intro v[rule_format, of 0, THEN conjunct2, THEN conjunct1, rule_format]) simp_all
  ultimately show ?thesis using t by auto
qed

end
