(* ===== verification/PlcMain_Props.thy ===== *)
theory PlcMain_Props
  imports PlcMain Caas_Props MbMaster_Props Pstorage_Props Modbus_Props
begin

text \<open>
  A scan cycle brings the inputs of the packets and of the slaves to the program and what it computes to the frames and the
  slaves; the runtime keeps its invariant; a node sends nothing before it has received, and nothing once it stops.
\<close>

section \<open>The outputs of the master\<close>

definition out_bit :: "plc \<Rightarrow> nat \<Rightarrow> bool_ptr option" where "out_bit p i = bool_output p (100 + i div 8) (i mod 8)"
definition out_word :: "plc \<Rightarrow> nat \<Rightarrow> uint_ptr option" where "out_word p i = int_output p (100 + i)"

definition written :: "mbm \<Rightarrow> nat \<Rightarrow> mbm \<Rightarrow> bool" where
  "written s k t \<longleftrightarrow> (\<exists>b w. t = s\<lparr>bool_output_buf := b, int_output_buf := w\<rparr> \<and> length b = 400 \<and> length w = 400 \<and>
     (\<forall>j < k. \<forall>a. out_bit (mb_img s) j = Some a \<longrightarrow> b ! j = bools (mb_img s) a) \<and>
     (\<forall>j < k. \<forall>a. out_word (mb_img s) j = Some a \<longrightarrow> w ! j = uints (mb_img s) a))"

lemma out_mb_step_ok:
  assumes k: "k < 400" and t: "written s k t"
  shows "ok (out_mb_step k t) (written s (Suc k))"
proof -
  obtain b w where t: "t = s\<lparr>bool_output_buf := b, int_output_buf := w\<rparr>" "length b = 400" "length w = 400"
    "\<forall>j < k. \<forall>a. out_bit (mb_img s) j = Some a \<longrightarrow> b ! j = bools (mb_img s) a"
    "\<forall>j < k. \<forall>a. out_word (mb_img s) j = Some a \<longrightarrow> w ! j = uints (mb_img s) a" using t by (auto simp: written_def)
  let ?b = "case out_bit (mb_img s) k of None \<Rightarrow> b | Some a \<Rightarrow> b[k := bools (mb_img s) a]"
  let ?w = "case out_word (mb_img s) k of None \<Rightarrow> w | Some a \<Rightarrow> w[k := uints (mb_img s) a]"
  have "out_mb_step k t = Some (s\<lparr>bool_output_buf := ?b, int_output_buf := ?w\<rparr>)"
    using k t(2,3) by (auto simp: out_mb_step_def t(1) wr_def out_bit_def out_word_def split: option.splits)
  moreover have "?b ! j = bools (mb_img s) a" if "j < Suc k" "out_bit (mb_img s) j = Some a" for j a
    using that t(2,4) k by (cases "j = k") (auto split: option.splits)
  moreover have "?w ! j = uints (mb_img s) a" if "j < Suc k" "out_word (mb_img s) j = Some a" for j a
    using that t(3,5) k by (cases "j = k") (auto split: option.splits)
  moreover have "length ?b = 400" "length ?w = 400" using t(2,3) by (simp_all split: option.splits)
  ultimately have "written s (Suc k) (s\<lparr>bool_output_buf := ?b, int_output_buf := ?w\<rparr>)"
    unfolding written_def by (intro exI[of _ ?b] exI[of _ ?w]) blast
  then show ?thesis by (simp add: \<open>out_mb_step k t = _\<close>)
qed

lemma updateBuffersOut_MB_runs:
  assumes l: "length (bool_output_buf s) = 400" "length (int_output_buf s) = 400" "\<not> ioLock s"
  shows "\<exists>u. updateBuffersOut_MB s = Some u \<and> written s 400 u"
proof -
  let ?s = "s\<lparr>ioLock := True\<rparr>"
  have "written ?s 0 ?s" using l by (auto simp: written_def intro!: exI[of _ "bool_output_buf s"] exI[of _ "int_output_buf s"])
  then have "ok (for_each out_mb_step [0..<400] ?s) (written ?s 400)"
    by (rule ok_for_upt) (rule out_mb_step_ok)
  then obtain u where u: "for_each out_mb_step [0..<400] ?s = Some u" "written ?s 400 u" by (auto simp: ok_iff)
  have "updateBuffersOut_MB s = Some (u\<lparr>ioLock := False\<rparr>)"
    using l(3) u by (auto simp: updateBuffersOut_MB_def io_lock_def io_unlock_def MAX_MB_IO_def written_def)
  moreover have "written s 400 (u\<lparr>ioLock := False\<rparr>)" using u(2) l(3) unfolding written_def
    by (elim exE conjE) (rule exI, rule exI, rule conjI, rule mbm.equality; simp)
  ultimately show ?thesis by blast
qed

section \<open>The packet layer\<close>

lemma rx_packet_sends_nothing: "rx_packet b now s = Some (go, t) \<Longrightarrow> tx_frames t = tx_frames s \<and> caas.cfg t = caas.cfg s"
  by (auto simp: rx_packet_def bind_eq_Some_conv Let_def case_prod_beta split: option.splits if_splits)

lemma rx_loop_sends_nothing: "rx_loop es s = Some (r, t) \<Longrightarrow> tx_frames t = tx_frames s \<and> caas.cfg t = caas.cfg s"
proof (induction es arbitrary: s)
  case (Cons e es)
  then show ?case by (auto simp: bind_eq_Some_conv split: if_splits prod.splits dest: rx_packet_sends_nothing)
qed simp

lemma updateBuffersIn_sends_nothing: "updateBuffersIn es s = Some (r, t) \<Longrightarrow> tx_frames t = tx_frames s \<and> caas.cfg t = caas.cfg s"
  by (auto simp: updateBuffersIn_def on_image_def bind_eq_Some_conv split: if_splits rx_end.splits dest!: rx_loop_sends_nothing) (metis rx_end.exhaust)+


lemma send_step_keeps: "send_step f i s = Some t \<Longrightarrow> caas.cfg t = caas.cfg s \<and> input_timestamp t = input_timestamp s \<and> input_pkt_id t = input_pkt_id s \<and> seqid_index t = seqid_index s"
  by (auto simp: send_step_def sendFrame_def bind_eq_Some_conv)

lemma updateBuffersOut_keeps_inv:
  assumes "updateBuffersOut f s = Some t" "caas_inv s"
  shows "caas_inv t"
proof -
  have loop: "caas_inv v" if "for_each (send_step f) is u = Some v" "caas_inv u" for "is" u v
  proof (rule for_each_inv[where I = caas_inv, OF that])
    show "caas_inv y" if "caas_inv x" "send_step f i x = Some y" for i x y
      using that(1) send_step_keeps[OF that(2)] by (simp add: caas_inv_def)
  qed
  show ?thesis using assms
    by (auto simp: updateBuffersOut_def on_image_def bind_eq_Some_conv caas_inv_def split: option.splits if_splits dest!: loop)
qed

lemma updateBuffersOut_cfg:
  assumes "updateBuffersOut f s = Some t"
  shows "caas.cfg t = caas.cfg s"
proof -
  have loop: "caas.cfg v = caas.cfg u" if "for_each (send_step f) is u = Some v" for "is" u v
    by (rule for_each_inv[where I = "\<lambda>x. caas.cfg x = caas.cfg u", OF that]) (auto dest: send_step_keeps)
  show ?thesis using assms
    by (auto simp: updateBuffersOut_def on_image_def bind_eq_Some_conv split: option.splits if_splits dest!: loop)
qed

lemma waits_without_packets: "\<forall>e \<in> set es. \<not> rx_success e \<Longrightarrow> rx_loop es s = Some (Waiting, s)"
  by (induction es) auto

section \<open>One cycle\<close>

text \<open>A program that writes to the image what it likes, and neither its tables nor its lock.\<close>

definition program_ok :: "program \<Rightarrow> bool" where
  "program_ok P \<longleftrightarrow> (\<forall>t p. same_tables p (config_run P t p) \<and> bufferLock (config_run P t p) = bufferLock p)"

definition master_ok :: "mbm \<Rightarrow> bool" where
  "master_ok m \<longleftrightarrow> length (bool_input_buf m) = 400 \<and> length (int_input_buf m) = 400 \<and> length (bool_output_buf m) = 400 \<and>
     length (int_output_buf m) = 400 \<and> \<not> ioLock m"

text \<open>The variables of the slaves and the input \<open>%IX0.0\<close> are different ones.\<close>

definition points_ok :: "program \<Rightarrow> plc \<Rightarrow> bool" where
  "points_ok P p \<longleftrightarrow> separate (in_bit p) \<and> separate (in_word p) \<and> (\<forall>j < 400. in_bit p j \<noteq> Some (BVar (ix P)))"

definition plc_inv :: "program \<Rightarrow> openplc \<Rightarrow> bool" where
  "plc_inv P s \<longleftrightarrow> caas_inv (node s) \<and> cfg_inv (caas.cfg (node s)) \<and> \<not> bufferLock (image (node s)) \<and> master_ok (master s) \<and>
     points_ok P (image (node s))"

lemma same_points: "same_tables p q \<Longrightarrow> in_bit q = in_bit p \<and> in_word q = in_word p \<and> out_bit q = out_bit p \<and> out_word q = out_word p"
  by (simp add: same_tables_def in_bit_def in_word_def out_bit_def out_word_def fun_eq_iff)

lemma glue_points [simp]: "in_bit (glueVars i q p) = in_bit p" "in_word (glueVars i q p) = in_word p"
  "out_bit (glueVars i q p) = out_bit p" "out_word (glueVars i q p) = out_word p"
  by (auto simp: glueVars_def in_bit_def in_word_def out_bit_def out_word_def fun_eq_iff)

lemma points_glue [simp]: "points_ok P (glueVars i q p) = points_ok P p"
  by (simp add: points_ok_def)

lemma points_same: "same_tables p q \<Longrightarrow> points_ok P q = points_ok P p"
  using same_points[of p q] by (simp add: points_ok_def)

text \<open>What the program is given: the packet input is set, and the points of the slaves have their values.\<close>

definition program_sees :: "program \<Rightarrow> openplc \<Rightarrow> plc \<Rightarrow> bool" where
  "program_sees P s p \<longleftrightarrow> same_tables (glueVars (ix P) (qx P) (image (node s))) p \<and> bools p (BVar (ix P)) = 1 \<and>
     (\<forall>j < 400. \<forall>a. in_bit p j = Some a \<longrightarrow> bools p a = bool_input_buf (master s) ! j) \<and>
     (\<forall>j < 400. \<forall>a. in_word p j = Some a \<longrightarrow> uints p a = int_input_buf (master s) ! j)"

text \<open>What becomes of the image \<open>p\<close> that the program leaves.\<close>

definition outputs_written :: "program \<Rightarrow> openplc \<Rightarrow> plc \<Rightarrow> openplc \<Rightarrow> bool" where
  "outputs_written P s p t \<longleftrightarrow>
     (\<forall>j < 400. \<forall>a. out_bit p j = Some a \<longrightarrow> bool_output_buf (master t) ! j = bools p a) \<and>
     (\<forall>j < 400. \<forall>a. out_word p j = Some a \<longrightarrow> int_output_buf (master t) ! j = uints p a) \<and>
     length (tx_frames (node t)) = length (tx_frames (node s)) + (if bools p (BVar (qx P)) = 1 then OUTPUT_STREAM_NUM (caas.cfg (node s)) else 0)"


lemma special_frame:
  assumes "handleSpecialFunctions n z d (c, p) = (c', q)"
  shows "same_tables p q" "bufferLock q = bufferLock p" "bools q = bools p" "uints q = uints p"
  using assms by (auto simp: handleSpecialFunctions_def Let_def same_tables_def store_lint_def set_lint_def split: option.splits if_splits)

lemma logic_step_ok:
  assumes p: "p = image (node s)" "\<not> bufferLock p" "points_ok P p" "bools p (BVar (ix P)) = 1" and m: "master_ok (master s)" and pr: "program_ok P"
  obtains t q where "logic_step P e s = Some t" "same_tables p q" "bools q (BVar (ix P)) = 1"
    "\<forall>j < 400. \<forall>a. in_bit p j = Some a \<longrightarrow> bools q a = bool_input_buf (master s) ! j"
    "\<forall>j < 400. \<forall>a. in_word p j = Some a \<longrightarrow> uints q a = int_input_buf (master s) ! j"
    "node t = (node s)\<lparr>image := (config_run P (tick s) q)\<lparr>bufferLock := False\<rparr>\<rparr>" "master_ok (master t)"
    "\<forall>j < 400. \<forall>a. out_bit p j = Some a \<longrightarrow> bool_output_buf (master t) ! j = bools (config_run P (tick s) q) a"
    "\<forall>j < 400. \<forall>a. out_word p j = Some a \<longrightarrow> int_output_buf (master t) ! j = uints (config_run P (tick s) q) a"
    "tick t = tick s + 1" "plc_time t = plc_time s"
proof -
  let ?p = "p\<lparr>bufferLock := True\<rparr>"
  let ?s1 = "s\<lparr>node := (node s)\<lparr>image := ?p\<rparr>\<rparr>"
  let ?m = "(master s)\<lparr>mb_img := ?p\<rparr>"
  have s1: "on_plc lock s = Some ?s1" using p(1,2) by (simp add: on_plc_def on_image_def lock_def)
  have pp: "in_bit ?p = in_bit p" "in_word ?p = in_word p" "out_bit ?p = out_bit p" "out_word ?p = out_word p"
    by (simp_all add: in_bit_def in_word_def out_bit_def out_word_def fun_eq_iff)
  have l: "length (bool_input_buf ?m) = 400" "length (int_input_buf ?m) = 400" "\<not> ioLock ?m" using m by (simp_all add: master_ok_def)
  have d: "separate (in_bit (mb_img ?m))" "separate (in_word (mb_img ?m))" using p(3) by (simp_all add: points_ok_def pp)
  obtain u where u: "updateBuffersIn_MB ?m = Some u" "same_tables ?p (mb_img u)" "u = ?m\<lparr>mb_img := mb_img u\<rparr>" "bufferLock (mb_img u)"
    "\<forall>a. (\<forall>j < 400. in_bit p j \<noteq> Some a) \<longrightarrow> bools (mb_img u) a = bools p a"
    "\<forall>j < 400. \<forall>a. in_bit p j = Some a \<longrightarrow> bools (mb_img u) a = bool_input_buf (master s) ! j"
    "\<forall>j < 400. \<forall>a. in_word p j = Some a \<longrightarrow> uints (mb_img u) a = int_input_buf (master s) ! j"
    using updateBuffersIn_MB_runs[OF l d] by (auto simp: pp)
  let ?s2 = "?s1\<lparr>master := u, node := (node s)\<lparr>image := mb_img u\<rparr>\<rparr>"
  have s2: "with_master updateBuffersIn_MB ?s1 = Some ?s2" using u(1) by (simp add: with_master_def)
  obtain c q where q: "handleSpecialFunctions (host_time e) (host_zone e) (host_dst e) (cycle_counter s, mb_img u) = (c, q)" by fastforce
  note fr = special_frame[OF q]
  let ?s3 = "?s2\<lparr>cycle_counter := c, node := (node s)\<lparr>image := q\<rparr>\<rparr>"
  have s3: "special_step e ?s2 = Some ?s3" by (simp add: special_step_def q on_plc_def on_image_def)
  let ?r = "config_run P (tick s) q"
  let ?s4 = "?s3\<lparr>tick := tick s + 1, node := (node s)\<lparr>image := ?r\<rparr>\<rparr>"
  have s4: "program_step P ?s3 = Some ?s4" by (simp add: program_step_def on_plc_def on_image_def)
  have tb: "same_tables p q" using u(2) fr(1) by (auto simp: same_tables_def)
  have tr: "same_tables p ?r" using pr tb by (auto simp: program_ok_def intro: same_tables_trans)
  have lr: "bufferLock ?r" using pr fr(2) u(4) by (simp add: program_ok_def)
  let ?n = "u\<lparr>mb_img := ?r\<rparr>"
  have um: "length (bool_output_buf ?n) = 400" "length (int_output_buf ?n) = 400" "\<not> ioLock ?n" "length (bool_input_buf ?n) = 400" "length (int_input_buf ?n) = 400"
    using m by (subst u(3), simp add: master_ok_def)+
  obtain v where v: "updateBuffersOut_MB ?n = Some v" "written ?n 400 v" using updateBuffersOut_MB_runs[OF um(1-3)] by blast
  have vi: "mb_img v = ?r" using v(2) by (auto simp: written_def)
  let ?s5 = "?s4\<lparr>master := v, node := (node s)\<lparr>image := ?r\<rparr>\<rparr>"
  have s5: "with_master updateBuffersOut_MB ?s4 = Some ?s5" using v(1) by (simp add: with_master_def vi)
  let ?t = "?s5\<lparr>node := (node s)\<lparr>image := ?r\<lparr>bufferLock := False\<rparr>\<rparr>\<rparr>"
  have t: "on_plc unlock ?s5 = Some ?t" using lr by (simp add: on_plc_def on_image_def unlock_def)
  have run: "logic_step P e s = Some ?t" by (simp only: logic_step_def s1 s2 s3 s4 s5 t bind.bind_lunit)
  have mo: "master_ok v" using v(2) um by (auto simp: written_def master_ok_def)
  have wo: "\<forall>j < 400. \<forall>a. out_bit p j = Some a \<longrightarrow> bool_output_buf v ! j = bools ?r a" "\<forall>j < 400. \<forall>a. out_word p j = Some a \<longrightarrow> int_output_buf v ! j = uints ?r a"
    using v(2) same_points[OF tr] by (auto simp: written_def)
  have one: "bools q (BVar (ix P)) = 1" using u(5) fr(3) p(3,4) by (auto simp: points_ok_def)
  have vals: "\<forall>j < 400. \<forall>a. in_bit p j = Some a \<longrightarrow> bools q a = bool_input_buf (master s) ! j"
    "\<forall>j < 400. \<forall>a. in_word p j = Some a \<longrightarrow> uints q a = int_input_buf (master s) ! j" using u(6,7) fr(3,4) by simp_all
  show thesis by (rule that[OF run tb one vals]) (use mo wo in simp_all)
qed


lemma glue_simps [simp]: "bool_input (glueVars i q p) 0 0 = Some (BVar i)" "bool_output (glueVars i q p) 0 0 = Some (BVar q)"
  by (simp_all add: glueVars_def)

lemma plc_inv_again:
  assumes "plc_inv P s" "caas_inv (node t)" "caas.cfg (node t) = caas.cfg (node s)" "master_ok (master t)"
    "same_tables (glueVars (ix P) (qx P) (image (node s))) (image (node t))" "\<not> bufferLock (image (node t))"
  shows "plc_inv P t"
  using assms points_same[OF assms(5)] by (simp add: plc_inv_def)

definition scanned :: "program \<Rightarrow> openplc \<Rightarrow> rx_end \<times> openplc \<Rightarrow> bool" where
  "scanned P s = (\<lambda>(r, t). case r of
     Waiting \<Rightarrow> bufferLock (image (node t)) \<and> tx_frames (node t) = tx_frames (node s) \<and> master t = master s
   | Released \<Rightarrow> plc_inv P t \<and> (\<exists>p. program_sees P s p \<and> image (node t) = (config_run P (tick s) p)\<lparr>bufferLock := False\<rparr> \<and>
       outputs_written P s (image (node t)) t))"

lemma scan_runs:
  assumes inv: "plc_inv P s" and pr: "program_ok P" and es: "\<forall>x \<in> set (rx_events e). 42 \<le> length (rx_bytes x)"
  shows "ok (scan_cycle P e s) (scanned P s)"
proof -
  let ?g = "glueVars (ix P) (qx P) (image (node s))"
  let ?n = "(node s)\<lparr>image := ?g\<rparr>"
  have g: "on_plc (\<lambda>p. Some (glueVars (ix P) (qx P) p)) s = Some (s\<lparr>node := ?n\<rparr>)" by (simp add: on_plc_def on_image_def)
  have i: "caas_inv ?n" "\<not> bufferLock (image ?n)" "bool_input (image ?n) 0 0 = Some (BVar (ix P))"
    using inv by (simp_all add: plc_inv_def caas_inv_def)
  obtain r n where n: "updateBuffersIn (rx_events e) ?n = Some (r, n)" "caas_inv n" "caas.cfg n = caas.cfg (node s)"
    "image n = (case r of Released \<Rightarrow> set_bool (BVar (ix P)) 1 (image ?n) | Waiting \<Rightarrow> (image ?n)\<lparr>bufferLock := True\<rparr>)"
    using updateBuffersIn_safe[OF i(1) es i(2,3)] by (auto simp: ok_iff)
  have tx: "tx_frames n = tx_frames (node s)" using updateBuffersIn_sends_nothing[OF n(1)] by simp
  show ?thesis
  proof (cases r)
    case Waiting
    then have "scan_cycle P e s = Some (Waiting, s\<lparr>node := n\<rparr>)" unfolding scan_cycle_def g using n(1) by simp
    then show ?thesis using Waiting n(4) tx by (simp add: scanned_def)
  next
    case Released
    let ?s = "s\<lparr>node := n\<rparr>"
    have p: "image n = image (node ?s)" "\<not> bufferLock (image n)" "points_ok P (image n)" "bools (image n) (BVar (ix P)) = 1" "master_ok (master ?s)"
    proof -
      have "same_tables ?g (image n)" using n(4) Released by simp
      then show "points_ok P (image n)" using points_same[of ?g "image n" P] inv by (simp add: plc_inv_def)
    qed (use n(4) Released inv in \<open>simp_all add: plc_inv_def set_bool_def\<close>)
    obtain t q where t: "logic_step P e ?s = Some t" "same_tables (image n) q" "bools q (BVar (ix P)) = 1"
      "\<forall>j < 400. \<forall>a. in_bit (image n) j = Some a \<longrightarrow> bools q a = bool_input_buf (master s) ! j"
      "\<forall>j < 400. \<forall>a. in_word (image n) j = Some a \<longrightarrow> uints q a = int_input_buf (master s) ! j"
      "node t = n\<lparr>image := (config_run P (tick s) q)\<lparr>bufferLock := False\<rparr>\<rparr>" "master_ok (master t)"
      "\<forall>j < 400. \<forall>a. out_bit (image n) j = Some a \<longrightarrow> bool_output_buf (master t) ! j = bools (config_run P (tick s) q) a"
      "\<forall>j < 400. \<forall>a. out_word (image n) j = Some a \<longrightarrow> int_output_buf (master t) ! j = uints (config_run P (tick s) q) a"
      by (rule logic_step_ok[OF p pr, of e]) (rule that, simp_all)
    have "same_tables ?g (image n)" using n(4) Released by simp
    then have tg: "same_tables ?g q" by (rule same_tables_trans[OF _ t(2)])
    let ?r = "config_run P (tick s) q"
    have tr: "same_tables ?g ?r" using pr tg by (auto simp: program_ok_def intro: same_tables_trans)
    have qo: "bool_output ?r 0 0 = Some (BVar (qx P))" using tr by (simp add: same_tables_def)
    have ci: "cfg_inv (caas.cfg (node t))" using t(6) n(3) inv by (simp add: plc_inv_def)
    obtain m where m: "updateBuffersOut (tx_ok e) (node t) = Some m" "image m = ?r\<lparr>bufferLock := False\<rparr>" "caas.cfg m = caas.cfg (node s)"
      "length (tx_frames m) = length (tx_frames (node s)) + (if bools ?r (BVar (qx P)) = 1 then OUTPUT_STREAM_NUM (caas.cfg (node s)) else 0)"
      "caas_inv m"
    proof -
      have "ok (updateBuffersOut (tx_ok e) (node t)) (\<lambda>x. image x = image (node t) \<and> caas.cfg x = caas.cfg (node t) \<and>
        tx_frames x = tx_frames (node t) @ (if bools (image (node t)) (BVar (qx P)) = 1 then map (frame_of (node t)) [0..<OUTPUT_STREAM_NUM (caas.cfg (node t))] else []) \<and>
        clock_reads x = clock_reads (node t) + (if bools (image (node t)) (BVar (qx P)) = 1 then 1 + unat (compute_times (COMPUTE_TIME (caas.cfg (node t)))) else 0))"
        by (rule updateBuffersOut_eq[OF ci]) (use t(6) qo in simp_all)
      then show thesis using that t(6) n(3) tx updateBuffersOut_keeps_inv[of "tx_ok e" "node t"] n(2) by (auto simp: ok_iff caas_inv_def)
    qed
    let ?t = "t\<lparr>node := m, plc_time := updateTime (common_ticktime P) (plc_time t)\<rparr>"
    have run: "scan_cycle P e s = Some (Released, ?t)" unfolding scan_cycle_def g using n(1) Released t(1) m(1) by simp
    have "plc_inv P ?t" by (rule plc_inv_again[OF inv]) (use m(2,3,5) t(7) tr in simp_all)
    moreover have "program_sees P s q" using tg t(3,4,5) same_points[OF t(2)] same_points[OF tg] by (simp add: program_sees_def)
    moreover have "outputs_written P s (image (node ?t)) ?t"
    proof -
      have "same_tables (image n) ?r" using t(2) pr by (auto simp: program_ok_def intro: same_tables_trans)
      then have "same_tables (image n) (?r\<lparr>bufferLock := False\<rparr>)" by simp
      from same_points[OF this]
      have "out_bit (?r\<lparr>bufferLock := False\<rparr>) = out_bit (image n)" "out_word (?r\<lparr>bufferLock := False\<rparr>) = out_word (image n)" by simp_all
      then show ?thesis using m t(8,9) by (simp add: outputs_written_def)
    qed
    ultimately show ?thesis using m(2) by (auto simp: run scanned_def)
  qed
qed


text \<open>
  C5. One scan cycle of the runtime: it waits for the packets and sends nothing while it does; once they are there, the
  program is run exactly once, on an image in which the packet input is set and every located point of the slaves has the
  value that was polled last. What it computes is what the image holds afterwards, with the lock free, what the slaves are
  sent next, and, when the output is set, one frame for each output stream.
\<close>

theorem scan_cycle_effect:
  assumes "plc_inv P s" "program_ok P" "\<forall>x \<in> set (rx_events e). 42 \<le> length (rx_bytes x)"
  shows "ok (scan_cycle P e s) (scanned P s)"
  by (rule scan_runs[OF assms])

section \<open>The main loop\<close>

text \<open>
  C6. The main loop never faults and keeps the invariant of the runtime, whatever packets come and whatever the other
  threads do between the cycles, as long as they keep the invariant; when it does not come back, it holds the lock of the
  image.
\<close>

theorem main_loop_safe:
  assumes "plc_inv P s" "program_ok P"
    and "\<forall>(run, threads, e) \<in> set es. (\<forall>t. plc_inv P t \<longrightarrow> plc_inv P (threads t)) \<and> (\<forall>x \<in> set (rx_events e). 42 \<le> length (rx_bytes x))"
  shows "ok (main_loop P es s) (\<lambda>(r, t). if r = Released then plc_inv P t else bufferLock (image (node t)))"
  using assms
proof (induction P es s rule: main_loop.induct)
  case (2 P run threads e es s)
  show ?case
  proof (cases run)
    case True
    have e: "\<forall>x \<in> set (rx_events e). 42 \<le> length (rx_bytes x)" and i: "plc_inv P (threads s)" using "2.prems" by auto
    obtain r t where t: "scan_cycle P e (threads s) = Some (r, t)" "scanned P (threads s) (r, t)"
      using scan_runs[OF i "2.prems"(2) e] by (auto simp: ok_iff)
    show ?thesis
    proof (cases r)
      case Waiting
      then show ?thesis using True t by (simp add: scanned_def)
    next
      case Released
      then have "plc_inv P t" using t(2) by (simp add: scanned_def)
      then show ?thesis using 2(1)[of "(r, t)" r t] True t(1) Released "2.prems" by simp
    qed
  qed (use "2.prems" in simp)
qed simp

section \<open>The start and the end\<close>

text \<open>What the start of the master leaves alone.\<close>

definition fixed_part :: "mbm \<Rightarrow> plc \<times> (byte list \<times> byte list) \<times> (16 word list \<times> 16 word list) \<times> bool" where
  "fixed_part s = (mb_img s, (bool_input_buf s, bool_output_buf s), (int_input_buf s, int_output_buf s), ioLock s)"

lemma fixed_simps [simp]: "fixed_part (s\<lparr>mbm.cfg := c\<rparr>) = fixed_part s" "fixed_part (request_mb r s) = fixed_part s"
  by (simp_all add: fixed_part_def request_mb_def)

lemma mb_log_keeps: "mb_log m s = Some t \<Longrightarrow> fixed_part t = fixed_part s"
  by (auto simp: mb_log_def fixed_part_def split: if_splits)

lemma init_device_keeps: "init_device c i s = Some t \<Longrightarrow> fixed_part t = fixed_part s"
  by (auto simp: init_device_def bind_eq_Some_conv Let_def split: if_splits list.splits prod.splits dest!: mb_log_keeps)

lemma fixed_partD: "fixed_part t = fixed_part s \<Longrightarrow> mb_img t = mb_img s \<and> master_ok t = master_ok s"
  by (simp add: fixed_part_def master_ok_def)

lemma initializeMB_keeps:
  assumes "initializeMB j f c s = Some (m, b)"
  shows "same_tables (mb_img s) (mb_img m)" "bufferLock (mb_img m) = bufferLock (mb_img s)" "master_ok m = master_ok s"
proof -
  obtain u v where u: "parseConfig j f s = Some u" "for_each (init_device c) [0..<unat (num_devices (mbm.cfg u))] u = Some v"
    "m = v\<lparr>mb_img := store_lint (special_functions (mb_img v) 2) 0 (mb_img v)\<rparr>" using assms by (auto simp: initializeMB_def bind_eq_Some_conv)
  have "fixed_part u = fixed_part s" using u(1) by (auto simp: parseConfig_def split: option.splits dest!: mb_log_keeps)
  moreover have "fixed_part v = fixed_part u"
    by (rule for_each_inv[where I = "\<lambda>x. fixed_part x = fixed_part u", OF u(2)]) (auto dest: init_device_keeps)
  ultimately have "mb_img v = mb_img s \<and> master_ok v = master_ok s" by (intro fixed_partD) simp
  then show "same_tables (mb_img s) (mb_img m)" "bufferLock (mb_img m) = bufferLock (mb_img s)" "master_ok m = master_ok s"
    by (simp_all add: u(3) master_ok_def)
qed

lemma initializeHardware_keeps: "initializeHardware l t c a b j s = Some n \<Longrightarrow> image n = image s \<and> tx_frames n = tx_frames s"
  by (auto simp: initializeHardware_def bind_eq_Some_conv)

lemma openplc_init_keeps:
  assumes "openplc_init P b s = Some (t, polling)"
  shows "tx_frames (node t) = tx_frames (node s)" "bool_input (image (node t)) 0 0 = Some (BVar (ix P))"
proof -
  obtain l s1 s2 n m where
    a: "with_master (mb_log l) s = Some s1" and b: "on_plc (\<lambda>p. Some (glueVars (ix P) (qx P) (config_init P p))) s1 = Some s2"
    and c: "initializeHardware (node_line b) (topo_doc b) (sched_doc b) (tx_devs b) (rx_devs b) (pkt_junk b) (node s2) = Some n"
    and d: "initializeMB (mb_junk b) (mb_file b) (mb_contexts b) ((master s2)\<lparr>mb_img := image n\<rparr>) = Some (m, polling)"
    and e: "with_master (\<lambda>_. Some m) (s2\<lparr>node := n\<rparr>) = Some t"
    using assms by (auto simp: openplc_init_def bind_eq_Some_conv)
  show "tx_frames (node t) = tx_frames (node s)"
    using a b c e by (auto simp: with_master_def on_plc_def on_image_def dest: initializeHardware_keeps)
  have "bool_input (image (node s2)) 0 0 = Some (BVar (ix P))" using b by (auto simp: on_plc_def on_image_def)
  then show "bool_input (image (node t)) 0 0 = Some (BVar (ix P))"
    using initializeMB_keeps(1)[OF d] initializeHardware_keeps[OF c] e by (auto simp: same_tables_def with_master_def)
qed

lemma start_waits:
  assumes "openplc_start P b s = Some (r, t, polling)" "\<forall>e \<in> set (first_events b). \<not> rx_success e"
  shows "r = Waiting \<and> bufferLock (image (node t)) \<and> tx_frames (node t) = tx_frames (node s)"
proof -
  obtain u where u: "openplc_init P b s = Some (u, polling)"
    using assms(1) by (auto simp: openplc_start_def bind_eq_Some_conv Let_def split: if_splits)
  note k = openplc_init_keeps[OF u]
  have "\<exists>n. updateBuffersIn (first_events b) (node u) = Some (Waiting, n) \<and> bufferLock (image n) \<and> tx_frames n = tx_frames (node u)"
    if "openplc_start P b s \<noteq> None"
    using that k(2) waits_without_packets[OF assms(2)]
    by (cases "bufferLock (image (node u))") (auto simp: u openplc_start_def updateBuffersIn_def on_image_def lock_def)
  then show ?thesis using assms(1) k(1) by (auto simp: openplc_start_def u)
qed

text \<open>What is read from the file reaches its variables when no two words share one.\<close>

lemma bytes_words_length: "length (bytes_words bs) = length bs div 2"
  by (induction bs rule: bytes_words.induct) simp_all

lemma restore_block:
  assumes "n \<le> 1024" "n \<le> length b" "distinct_ptrs (int_memory p)"
  shows "for_each (restore_word b) [0..<n] p = Some (memregs.put_block 0 (nth b) n p)"
  using assms
proof (induction n)
  case 0
  then show ?case by (simp add: memregs.put_block_def)
next
  case (Suc n)
  then show ?case by (simp add: for_each_append restore_word_def rd_in memregs.put_block_Suc)
qed

lemma restored_distinct:
  assumes "BUFFER_SIZE \<le> length b" "distinct_ptrs (int_memory p)"
  shows "ok (for_each (restore_word b) [0..<BUFFER_SIZE] p)
    (\<lambda>q. same_tables p q \<and> bufferLock q = bufferLock p \<and> (\<forall>i < BUFFER_SIZE. \<forall>a. int_memory p i = Some a \<longrightarrow> uints q a = b ! i))"
proof -
  let ?q = "memregs.put_block 0 (nth b) BUFFER_SIZE p"
  have f: "same_tables p ?q" "bufferLock ?q = bufferLock p" using memregs.put_block_frame[OF assms(2)] by blast+
  have "uints ?q a = b ! i" if "i < BUFFER_SIZE" "int_memory p i = Some a" for i a
    using memregs.get_put_block[OF assms(2), of 0 "nth b" BUFFER_SIZE i] that f(1) by (simp add: same_tables_def)
  then show ?thesis using restore_block[of BUFFER_SIZE b p] assms f by (simp add: BUFFER_SIZE_def)
qed

lemma storage_read:
  assumes "with_storage file s = Some t" "distinct_ptrs (int_memory (image (node s)))" "\<not> bufferLock (image (node s))"
  shows "same_tables (image (node s)) (image (node t)) \<and> \<not> bufferLock (image (node t)) \<and> master_ok (master t) = master_ok (master s) \<and>
    node t = (node s)\<lparr>image := image (node t)\<rparr> \<and>
    (\<forall>bs i a. file = Some bs \<and> 2048 \<le> length bs \<and> i < BUFFER_SIZE \<and> int_memory (image (node s)) i = Some a \<longrightarrow> uints (image (node t)) a = bytes_words bs ! i)"
proof -
  let ?s = "\<lparr>ps_img = image (node s), ps_lg = mb_lg (master s), ps_file = file, persistentBuffer = []\<rparr>"
  obtain u where u: "readPersistentStorage ?s = Some u" "t = s\<lparr>master := (master s)\<lparr>mb_lg := ps_lg u\<rparr>, node := (node s)\<lparr>image := ps_img u\<rparr>\<rparr>"
    using assms(1) by (auto simp: with_storage_def)
  have log: "ps_img y = ps_img x" if "ps_log m x = Some y" for m x y using that by (auto simp: ps_log_def split: if_splits)
  have "same_tables (image (node s)) (ps_img u) \<and> \<not> bufferLock (ps_img u) \<and>
    (\<forall>bs i a. file = Some bs \<and> 2048 \<le> length bs \<and> i < BUFFER_SIZE \<and> int_memory (image (node s)) i = Some a \<longrightarrow> uints (ps_img u) a = bytes_words bs ! i)"
  proof (cases "\<exists>bs. file = Some bs \<and> \<not> length bs div 2 < BUFFER_SIZE")
    case False
    then have "ps_img u = image (node s)" using u(1) by (auto simp: readPersistentStorage_def dest: log split: option.splits if_splits)
    moreover have "\<not> 2048 \<le> length bs" if "file = Some bs" for bs using False that by (auto simp: BUFFER_SIZE_def)
    ultimately show ?thesis using assms(3) by auto
  next
    case True
    then obtain bs where bs: "file = Some bs" "\<not> length bs div 2 < BUFFER_SIZE" by blast
    let ?p = "(image (node s))\<lparr>bufferLock := True\<rparr>"
    have "BUFFER_SIZE \<le> length (bytes_words bs)" "distinct_ptrs (int_memory ?p)" using bs(2) assms(2) by (simp_all add: bytes_words_length)
    from restored_distinct[OF this] obtain q where q: "for_each (restore_word (bytes_words bs)) [0..<BUFFER_SIZE] ?p = Some q" "same_tables ?p q" "bufferLock q"
      "\<forall>i < BUFFER_SIZE. \<forall>a. int_memory ?p i = Some a \<longrightarrow> uints q a = bytes_words bs ! i" by (auto simp: ok_iff)
    obtain l where l: "ps_log (''Persistent Storage: Reading persistent.file into local buffers'' @ nl) ?s = Some l"
      using u(1) bs by (auto simp: readPersistentStorage_def bind_eq_Some_conv)
    have "ps_img l = image (node s)" using log[OF l] by simp
    then have "ps_img u = q\<lparr>bufferLock := False\<rparr>"
      using u(1) bs q(1,3) assms(3) unfolding readPersistentStorage_def by (auto simp: l[unfolded bs(1)] lock_def unlock_def simp del: append.simps append_Cons)
    then show ?thesis using bs(1) q(2,4) by (simp add: same_tables_def)
  qed
  then show ?thesis using u(2) by (simp add: master_ok_def)
qed

text \<open>The image as the C program starts with it, and a program whose initialisation leaves its tables alone.\<close>

definition unmapped :: "plc \<Rightarrow> bool" where
  "unmapped p \<longleftrightarrow> same_tables null_image p \<and> \<not> bufferLock p"

definition init_ok :: "program \<Rightarrow> bool" where
  "init_ok P \<longleftrightarrow> (\<forall>p. same_tables p (config_init P p) \<and> bufferLock (config_init P p) = bufferLock p)"

lemma openplc_init_ready:
  assumes "openplc_init P b s = Some (t, polling)" "unmapped (image (node s))" "init_ok P" "master_ok (master s)"
  shows "master_ok (master t)" "same_tables (glueVars (ix P) (qx P) null_image) (image (node t))" "\<not> bufferLock (image (node t))"
    "0 < INPUT_STREAM_NUM (caas.cfg (node t)) \<Longrightarrow> CYCLE_TIME (caas.cfg (node t)) \<noteq> 0 \<Longrightarrow> caas_inv (node t) \<and> cfg_inv (caas.cfg (node t))"
proof -
  obtain l s1 s2 n m where
    a: "with_master (mb_log l) s = Some s1" and b: "on_plc (\<lambda>p. Some (glueVars (ix P) (qx P) (config_init P p))) s1 = Some s2"
    and c: "initializeHardware (node_line b) (topo_doc b) (sched_doc b) (tx_devs b) (rx_devs b) (pkt_junk b) (node s2) = Some n"
    and d: "initializeMB (mb_junk b) (mb_file b) (mb_contexts b) ((master s2)\<lparr>mb_img := image n\<rparr>) = Some (m, polling)"
    and e: "with_master (\<lambda>_. Some m) (s2\<lparr>node := n\<rparr>) = Some t"
    using assms(1) by (auto simp: openplc_init_def bind_eq_Some_conv)
  have s1: "image (node s1) = image (node s)" "master_ok (master s1) = master_ok (master s)"
    using a by (auto simp: with_master_def master_ok_def mb_log_def split: if_splits)
  have s2: "image (node s2) = glueVars (ix P) (qx P) (config_init P (image (node s)))" "master s2 = master s1"
    using b s1 by (auto simp: on_plc_def on_image_def)
  have t: "master t = m" "node t = n\<lparr>image := mb_img m\<rparr>" using e by (auto simp: with_master_def)
  note mb = initializeMB_keeps[OF d] and hw = initializeHardware_keeps[OF c]
  show "master_ok (master t)" using mb(3) s1(2) s2(2) assms(4) t(1) by (simp add: master_ok_def)
  have "same_tables null_image (config_init P (image (node s)))" using assms(2,3) by (auto simp: unmapped_def init_ok_def intro: same_tables_trans)
  then have "same_tables (glueVars (ix P) (qx P) null_image) (image (node s2))" unfolding s2 by (simp add: same_tables_def glueVars_def)
  then show "same_tables (glueVars (ix P) (qx P) null_image) (image (node t))" using mb(1) hw t(2) by (auto intro: same_tables_trans)
  show "\<not> bufferLock (image (node t))" using mb(2) hw t(2) s2(1) assms(2,3) by (simp add: unmapped_def init_ok_def)
  show "caas_inv (node t) \<and> cfg_inv (caas.cfg (node t))" if "0 < INPUT_STREAM_NUM (caas.cfg (node t))" "CYCLE_TIME (caas.cfg (node t)) \<noteq> 0"
    using initializeHardware_ready[OF c] that t(2) by (simp add: caas_inv_def)
qed

text \<open>
  The program has its one input and its one output, and every other point is connected to the Modbus server: the coil,
  the discrete input, the input register or the holding register of its own number.
\<close>

definition connected :: "program \<Rightarrow> plc \<Rightarrow> bool" where
  "connected P q \<longleftrightarrow>
     (\<forall>i < 1024. \<forall>j < 8. bool_input q i j = Some (if i = 0 \<and> j = 0 then BVar (ix P) else MbDiscreteInput (i * 8 + j)) \<and>
       bool_output q i j = Some (if i = 0 \<and> j = 0 then BVar (qx P) else MbCoil (i * 8 + j))) \<and>
     (\<forall>i < 1024. int_input q i = Some (MbInputReg i) \<and> int_output q i = Some (MbHoldingReg i) \<and>
       int_memory q i = Some (MbHoldingReg (i + 1024)))"

lemma connected_same: "same_tables p q \<Longrightarrow> connected P p \<Longrightarrow> connected P q"
  by (simp add: connected_def same_tables_def)

lemma mapped_connected:
  assumes "same_tables (glueVars (ix P) (qx P) null_image) p" "mapUnusedIO p = Some q" "\<not> bufferLock p"
  shows "connected P q"
proof -
  have t: "bool_input p = (\<lambda>i j. if i = 0 \<and> j = 0 then Some (BVar (ix P)) else None)"
    "bool_output p = (\<lambda>i j. if i = 0 \<and> j = 0 then Some (BVar (qx P)) else None)"
    "int_input p = (\<lambda>i. None)" "int_output p = (\<lambda>i. None)" "int_memory p = (\<lambda>i. None)"
    using assms(1) by (auto simp: same_tables_def glueVars_def fun_eq_iff)
  show ?thesis using assms(2) unfolding mapUnusedIO_eq[OF assms(3)] by (auto simp: connected_def t)
qed

text \<open>The connection of the unused points keeps what the invariant asks for.\<close>

lemma mapped_image:
  assumes "same_tables (glueVars (ix P) (qx P) null_image) p" "mapUnusedIO p = Some q" "\<not> bufferLock p"
  shows "points_ok P q" "distinct_ptrs (int_memory q)" "\<forall>i < 1024. int_memory q i \<noteq> None" "\<not> bufferLock q" "bool_output q 0 0 = Some (BVar (qx P))"
proof -
  have t: "bool_input p = (\<lambda>i j. if i = 0 \<and> j = 0 then Some (BVar (ix P)) else None)" "int_input p = (\<lambda>i. None)" "int_memory p = (\<lambda>i. None)"
    "bool_output p 0 0 = Some (BVar (qx P))"
    using assms(1) by (auto simp: same_tables_def glueVars_def fun_eq_iff)
  have q: "bool_input q = (\<lambda>i j. if i < 1024 \<and> j < 8 \<and> bool_input p i j = None then Some (MbDiscreteInput (i * 8 + j)) else bool_input p i j)"
    "int_input q = (\<lambda>i. if i < 1024 \<and> int_input p i = None then Some (MbInputReg i) else int_input p i)"
    "int_memory q = (\<lambda>i. if i < 1024 \<and> int_memory p i = None then Some (MbHoldingReg (i + 1024)) else int_memory p i)"
    "bool_output q 0 0 = bool_output p 0 0" "bufferLock q = bufferLock p"
    using assms(2) t(4) unfolding mapUnusedIO_eq[OF assms(3)] by auto
  have e: "in_bit q j = Some (MbDiscreteInput (800 + j))" if "j < 400" for j
    using that by (simp add: in_bit_def q(1) t(1) algebra_simps)
  have f: "in_word q j = Some (MbInputReg (100 + j))" if "j < 400" for j using that by (simp add: in_word_def q(2) t(2))
  show "points_ok P q" using e f by (simp add: points_ok_def separate_def)
  show "distinct_ptrs (int_memory q)" by (auto simp: q(3) t(3) distinct_ptrs_def split: if_splits)
  show "\<forall>i < 1024. int_memory q i \<noteq> None" "\<not> bufferLock q" "bool_output q 0 0 = Some (BVar (qx P))"
    using q(3-5) t(3,4) assms(3) by simp_all
qed

lemma start_invariant:
  assumes "openplc_start P b s = Some (Released, t, polling)" "unmapped (image (node s))" "init_ok P" "master_ok (master s)"
    and "\<forall>x \<in> set (first_events b). 42 \<le> length (rx_bytes x)" "0 < INPUT_STREAM_NUM (caas.cfg (node t))" "CYCLE_TIME (caas.cfg (node t)) \<noteq> 0"
  shows "plc_inv P t \<and> connected P (image (node t)) \<and> (\<forall>bs i. stored_file b = Some bs \<and> 2048 \<le> length bs \<and> i < 1024 \<longrightarrow>
    (\<exists>a. int_memory (image (node t)) i = Some a \<and> uints (image (node t)) a = bytes_words bs ! i))"
proof -
  obtain u n where u: "openplc_init P b s = Some (u, polling)" "updateBuffersIn (first_events b) (node u) = Some (Released, n)"
    using assms(1) by (auto simp: openplc_start_def bind_eq_Some_conv Let_def split: if_splits) (metis rx_end.exhaust)
  then obtain m s1 s2 where m: "updateBuffersOut (first_tx b) n = Some m"
      "on_plc (\<lambda>p. Some (glueVars (ix P) (qx P) p)) (u\<lparr>node := m\<rparr>) = Some s1" "on_plc mapUnusedIO s1 = Some s2" "with_storage (stored_file b) s2 = Some t"
    using assms(1) by (auto simp: openplc_start_def bind_eq_Some_conv Let_def)
  note init = openplc_init_ready[OF u(1) assms(2-4)] and st = updateBuffersIn_sends_nothing[OF u(2)]
  have s1: "node s1 = m\<lparr>image := glueVars (ix P) (qx P) (image m)\<rparr>" "master s1 = master u" using m(2) by (auto simp: on_plc_def on_image_def)
  obtain q where q: "mapUnusedIO (image (node s1)) = Some q" "node s2 = (node s1)\<lparr>image := q\<rparr>" "master s2 = master u"
    using m(3) s1(2) by (auto simp: on_plc_def on_image_def)
  have "caas.cfg (node s2) = caas.cfg (node u)" using q(2) s1(1) updateBuffersOut_cfg[OF m(1)] st by simp
  moreover have "caas.cfg (node t) = caas.cfg (node s2)" using m(4) by (auto simp: with_storage_def)
  ultimately have c: "caas.cfg (node t) = caas.cfg (node u)" "caas_inv (node u)" "cfg_inv (caas.cfg (node u))" using init(4) assms(6,7) by simp_all
  let ?g = "glueVars (ix P) (qx P) null_image"
  have b: "bool_input (image (node u)) 0 0 = Some (BVar (ix P))" using openplc_init_keeps(2)[OF u(1)] .
  have n: "caas_inv n" "image n = set_bool (BVar (ix P)) 1 (image (node u))"
    using updateBuffersIn_safe[OF c(2) assms(5) init(3) b] u(2) by simp_all
  have tn: "same_tables ?g (image n)" "\<not> bufferLock (image n)" using init(2,3) by (simp_all add: n(2))
  have bo: "bool_output (image n) 0 0 = Some (BVar (qx P))" using tn(1) by (simp add: same_tables_def)
  have cn: "cfg_inv (caas.cfg n)" using c(3) st by simp
  have im: "image m = image n" using updateBuffersOut_eq[OF cn tn(2) bo, of "first_tx b"] m(1) by simp
  have mi: "caas_inv m" by (rule updateBuffersOut_keeps_inv[OF m(1) n(1)])
  have ts1: "same_tables ?g (image (node s1))" "\<not> bufferLock (image (node s1))" using tn s1(1) im by (auto simp: same_tables_def glueVars_def)
  note mp = mapped_image[OF ts1(1) q(1) ts1(2)]
  have d: "distinct_ptrs (int_memory (image (node s2)))" "\<not> bufferLock (image (node s2))" using mp(2,4) q(2) by simp_all
  have r: "same_tables (image (node s2)) (image (node t))" "\<not> bufferLock (image (node t))" "master_ok (master t) = master_ok (master s2)"
    "\<forall>bs i a. stored_file b = Some bs \<and> 2048 \<le> length bs \<and> i < BUFFER_SIZE \<and> int_memory (image (node s2)) i = Some a \<longrightarrow> uints (image (node t)) a = bytes_words bs ! i"
    and e: "node t = (node s2)\<lparr>image := image (node t)\<rparr>"
    using storage_read[OF m(4) d] by blast+
  have "same_tables q (image (node t))" using r(1) q(2) by simp
  then have co: "connected P (image (node t))" by (rule connected_same) (rule mapped_connected[OF ts1(1) q(1) ts1(2)])
  have po: "points_ok P (image (node t))" using mp(1) points_same \<open>same_tables q (image (node t))\<close> by blast
  have "caas_inv ((node s2)\<lparr>image := p\<rparr>)" for p using mi q(2) s1(1) by (simp add: caas_inv_def)
  then have "caas_inv (node t)" by (subst e)
  then have "plc_inv P t" using po r(2,3) c init(1) q(3) by (simp add: plc_inv_def)
  moreover have "\<exists>a. int_memory (image (node t)) i = Some a \<and> uints (image (node t)) a = bytes_words bs ! i"
    if "stored_file b = Some bs" "2048 \<le> length bs" "i < 1024" for bs i
  proof -
    note b = that
    obtain a where a: "int_memory q i = Some a" using mp(3) b(3) by blast
    then have "int_memory (image (node t)) i = Some a" using \<open>same_tables q (image (node t))\<close> by (simp add: same_tables_def)
    moreover have "uints (image (node t)) a = bytes_words bs ! i" using r(4) a b q(2) by (simp add: BUFFER_SIZE_def)
    ultimately show ?thesis by blast
  qed
  ultimately show ?thesis using co by blast
qed

text \<open>The start comes back when the packets come.\<close>

lemma storage_returns:
  assumes "log_inv (mb_lg (master s))" "distinct_ptrs (int_memory (image (node s)))" "\<not> bufferLock (image (node s))"
  shows "\<exists>t. with_storage file s = Some t"
proof -
  let ?s = "\<lparr>ps_img = image (node s), ps_lg = mb_lg (master s), ps_file = file, persistentBuffer = []\<rparr>"
  have log: "\<exists>l. ps_log m ?s = Some (?s\<lparr>ps_lg := l\<rparr>)" if "length m < 1000" for m
    using ps_log_ok[OF that, of ?s] assms(1) by (auto simp: ok_iff)
  have m: "length (''Warning: Persistent Storage file not found'' @ nl) < 1000" "length (''Persistent Storage: Error while trying to read persistent.file!'' @ nl) < 1000"
    "length (''Persistent Storage: Reading persistent.file into local buffers'' @ nl) < 1000" by (simp_all add: nl_def)
  have "\<exists>u. readPersistentStorage ?s = Some u"
  proof (cases "\<exists>bs. file = Some bs \<and> \<not> length bs div 2 < BUFFER_SIZE")
    case False
    then show ?thesis using log[OF m(1)] log[OF m(2)] by (auto simp: readPersistentStorage_def split: option.splits simp del: append.simps append_Cons)
  next
    case True
    then obtain bs where bs: "file = Some bs" "\<not> length bs div 2 < BUFFER_SIZE" by blast
    let ?p = "(image (node s))\<lparr>bufferLock := True\<rparr>"
    have "BUFFER_SIZE \<le> length (bytes_words bs)" "distinct_ptrs (int_memory ?p)" using bs(2) assms(2) by (simp_all add: bytes_words_length)
    from restored_distinct[OF this] obtain q where q: "for_each (restore_word (bytes_words bs)) [0..<BUFFER_SIZE] ?p = Some q" "bufferLock q" by (auto simp: ok_iff)
    obtain l where l: "ps_log (''Persistent Storage: Reading persistent.file into local buffers'' @ nl) ?s = Some (?s\<lparr>ps_lg := l\<rparr>)" using log[OF m(3)] by blast
    show ?thesis using bs q assms(3) unfolding readPersistentStorage_def
      by (simp add: l[unfolded bs(1)] lock_def unlock_def del: append.simps append_Cons)
  qed
  then show ?thesis by (auto simp: with_storage_def)
qed

lemma start_ends:
  assumes u: "openplc_init P b s = Some (u, polling)" "caas_inv (node u)" "cfg_inv (caas.cfg (node u))" "log_inv (mb_lg (master u))"
    and s: "unmapped (image (node s))" "init_ok P" "master_ok (master s)" and es: "\<forall>x \<in> set (first_events b). on_time (caas.cfg (node u)) instant x"
    "Some ` {..<INPUT_STREAM_NUM (caas.cfg (node u))} = (\<lambda>x. seqid_index (node u) (uint (rx_seq_id (rx_bytes x)))) ` set (first_events b)"
  shows "\<exists>t. openplc_start P b s = Some (Released, t, polling) \<and> caas.cfg (node t) = caas.cfg (node u)"
proof -
  note init = openplc_init_ready[OF u(1) s] and ib = openplc_init_keeps(2)[OF u(1)]
  obtain n where n: "updateBuffersIn (first_events b) (node u) = Some (Released, n)" "image n = set_bool (BVar (ix P)) 1 (image (node u))"
    using updateBuffersIn_returns[OF u(2) init(3) ib es] by (auto simp: ok_iff)
  note st = updateBuffersIn_sends_nothing[OF n(1)]
  have tn: "same_tables (glueVars (ix P) (qx P) null_image) (image n)" "\<not> bufferLock (image n)" using init(2,3) by (simp_all add: n(2))
  have bo: "bool_output (image n) 0 0 = Some (BVar (qx P))" using tn(1) by (simp add: same_tables_def)
  have cn: "cfg_inv (caas.cfg n)" using u(3) st by simp
  obtain m where m: "updateBuffersOut (first_tx b) n = Some m" "image m = image n" "caas.cfg m = caas.cfg n"
    using updateBuffersOut_eq[OF cn tn(2) bo, of "first_tx b"] by (auto simp: ok_iff)
  let ?s1 = "u\<lparr>node := m\<lparr>image := glueVars (ix P) (qx P) (image m)\<rparr>\<rparr>"
  have s1: "on_plc (\<lambda>p. Some (glueVars (ix P) (qx P) p)) (u\<lparr>node := m\<rparr>) = Some ?s1" by (simp add: on_plc_def on_image_def)
  have t1: "same_tables (glueVars (ix P) (qx P) null_image) (image (node ?s1))" "\<not> bufferLock (image (node ?s1))"
    using tn m(2) by (auto simp: same_tables_def glueVars_def)
  obtain q where q: "mapUnusedIO (image (node ?s1)) = Some q" using mapUnusedIO_eq[OF t1(2)] by blast
  note mp = mapped_image[OF t1(1) q t1(2)]
  let ?s2 = "?s1\<lparr>node := (node ?s1)\<lparr>image := q\<rparr>\<rparr>"
  have s2: "on_plc mapUnusedIO ?s1 = Some ?s2" using q by (simp add: on_plc_def on_image_def)
  obtain t where t: "with_storage (stored_file b) ?s2 = Some t" using storage_returns[of ?s2] u(4) mp(2,4) by auto
  have "caas.cfg (node t) = caas.cfg (node u)" using t st m(3) by (auto simp: with_storage_def)
  moreover have "openplc_start P b s = Some (Released, t, polling)"
    using u(1) n(1) m(1) s1 s2 t by (simp add: openplc_start_def)
  ultimately show ?thesis by blast
qed

text \<open>
  C7. Once the first packets are in, the start leaves the runtime as the main loop needs it, with every point that the
  program does not use connected to the cell of the Modbus server that has its number, and every memory word as the
  persistent file has it, when there is one and it has at least 2048 bytes.
\<close>

theorem start_ready:
  assumes "openplc_start P b s = Some (Released, t, polling)" "unmapped (image (node s))" "init_ok P" "master_ok (master s)"
    and "\<forall>x \<in> set (first_events b). 42 \<le> length (rx_bytes x)" "0 < INPUT_STREAM_NUM (caas.cfg (node t))" "CYCLE_TIME (caas.cfg (node t)) \<noteq> 0"
  shows "plc_inv P t \<and> connected P (image (node t)) \<and> (\<forall>bs i. stored_file b = Some bs \<and> 2048 \<le> length bs \<and> i < 1024 \<longrightarrow>
    (\<exists>a. int_memory (image (node t)) i = Some a \<and> uints (image (node t)) a = bytes_words bs ! i))"
  by (rule start_invariant[OF assms])

text \<open>
  C8. A node sends nothing before it has received: as long as no transfer brings a packet, its start waits in the first
  reading of the inputs, with the lock of the image held and no frame sent. Nodes that form a ring wait for each other.
\<close>

theorem starts_by_waiting:
  assumes "openplc_start P b s = Some (r, t, polling)" "\<forall>e \<in> set (first_events b). \<not> rx_success e"
  shows "r = Waiting \<and> bufferLock (image (node t)) \<and> tx_frames (node t) = tx_frames (node s)"
  by (rule start_waits[OF assms])


definition zeroed :: "plc \<Rightarrow> plc \<Rightarrow> nat \<Rightarrow> nat \<Rightarrow> bool" where
  "zeroed p q i j \<longleftrightarrow> same_tables p q \<and> bufferLock q = bufferLock p \<and>
     (\<forall>k l a. (k < i \<and> l < 8 \<or> k = i \<and> l < j) \<and> bool_output p k l = Some a \<longrightarrow> bools q a = 0)"

lemma zero_bools:
  "zeroed p (fold (\<lambda>i. fold (\<lambda>j q. store_bool (bool_output q i j) 0 q) [0..<8]) [0..<BUFFER_SIZE] p) BUFFER_SIZE 0"
proof (rule fold_upt_inv[where I = "\<lambda>i q. zeroed p q i 0"])
  fix i t assume "zeroed p t i 0"
  then have "zeroed p (fold (\<lambda>j q. store_bool (bool_output q i j) 0 q) [0..<8] t) i 8"
  proof (rule fold_upt_inv[where I = "\<lambda>j q. zeroed p q i j"])
    fix j u assume "zeroed p u i j"
    moreover from this have "bool_output u = bool_output p" by (simp add: zeroed_def same_tables_def)
    ultimately show "zeroed p (store_bool (bool_output u i j) 0 u) i (Suc j)"
      by (auto simp: zeroed_def bools_store_bool less_Suc_eq split: option.splits)
  qed
  then show "zeroed p (fold (\<lambda>j q. store_bool (bool_output q i j) 0 q) [0..<8] t) (Suc i) 0" by (auto simp: zeroed_def less_Suc_eq)
qed (simp add: zeroed_def)

text \<open>The bytes, which leave the other cells alone.\<close>

lemma zero_bytes:
  fixes p :: plc
  defines "q \<equiv> fold (\<lambda>i q. case byte_output q i of None \<Rightarrow> q | Some a \<Rightarrow> q\<lparr>bytes := (bytes q)(a := 0)\<rparr>) [0..<BUFFER_SIZE] p"
  shows "same_tables p q \<and> bufferLock q = bufferLock p \<and> bools q = bools p \<and> uints q = uints p \<and>
    (\<forall>k < BUFFER_SIZE. \<forall>a. byte_output p k = Some a \<longrightarrow> bytes q a = 0)"
  unfolding q_def
  by (rule fold_upt_inv[where I = "\<lambda>i q. same_tables p q \<and> bufferLock q = bufferLock p \<and> bools q = bools p \<and> uints q = uints p \<and>
      (\<forall>k < i. \<forall>a. byte_output p k = Some a \<longrightarrow> bytes q a = 0)"])
    (auto simp: same_tables_def less_Suc_eq split: option.splits)

lemma zero_words:
  fixes p :: plc
  defines "q \<equiv> fold (\<lambda>i q. store_uint (int_output q i) 0 q) [0..<BUFFER_SIZE] p"
  shows "same_tables p q \<and> bufferLock q = bufferLock p \<and> bools q = bools p \<and> bytes q = bytes p \<and>
    (\<forall>k < BUFFER_SIZE. \<forall>a. int_output p k = Some a \<longrightarrow> uints q a = 0)"
  unfolding q_def
  by (rule fold_upt_inv[where I = "\<lambda>i q. same_tables p q \<and> bufferLock q = bufferLock p \<and> bools q = bools p \<and> bytes q = bytes p \<and>
      (\<forall>k < i. \<forall>a. int_output p k = Some a \<longrightarrow> uints q a = 0)"])
    (auto simp: same_tables_def uints_store_uint store_uint_def set_uint_def less_Suc_eq split: option.splits)

lemma disableOutputs_zero:
  "same_tables p (disableOutputs p) \<and> bufferLock (disableOutputs p) = bufferLock p \<and>
   (\<forall>k < BUFFER_SIZE. (\<forall>l < 8. \<forall>a. bool_output p k l = Some a \<longrightarrow> bools (disableOutputs p) a = 0) \<and>
     (\<forall>a. byte_output p k = Some a \<longrightarrow> bytes (disableOutputs p) a = 0) \<and> (\<forall>a. int_output p k = Some a \<longrightarrow> uints (disableOutputs p) a = 0))"
proof -
  let ?b = "fold (\<lambda>i. fold (\<lambda>j q. store_bool (bool_output q i j) 0 q) [0..<8]) [0..<BUFFER_SIZE] p"
  let ?y = "fold (\<lambda>i q. case byte_output q i of None \<Rightarrow> q | Some a \<Rightarrow> q\<lparr>bytes := (bytes q)(a := 0)\<rparr>) [0..<BUFFER_SIZE] ?b"
  have d: "disableOutputs p = fold (\<lambda>i q. store_uint (int_output q i) 0 q) [0..<BUFFER_SIZE] ?y" by (simp add: disableOutputs_def Let_def)
  show ?thesis unfolding d using zero_bools[of p] zero_bytes[of ?b] zero_words[of ?y]
    by (simp add: zeroed_def same_tables_def)
qed

text \<open>
  When the runtime stops, every located output is set to zero, and the packet layer, which sends only while the output
  is set, sends nothing more.
\<close>

theorem stops_with_outputs_off:
  assumes "cfg_inv (caas.cfg (node s))" "\<not> bufferLock (image (node s))" "bool_output (image (node s)) 0 0 = Some q"
  shows "ok (openplc_stop f s) (\<lambda>t. tx_frames (node t) = tx_frames (node s) \<and> same_tables (image (node s)) (image (node t)) \<and>
    (\<forall>k < BUFFER_SIZE. (\<forall>l < 8. \<forall>a. bool_output (image (node s)) k l = Some a \<longrightarrow> bools (image (node t)) a = 0) \<and>
      (\<forall>a. byte_output (image (node s)) k = Some a \<longrightarrow> bytes (image (node t)) a = 0) \<and>
      (\<forall>a. int_output (image (node s)) k = Some a \<longrightarrow> uints (image (node t)) a = 0)))"
proof -
  let ?p = "image (node s)" and ?n = "(node s)\<lparr>image := disableOutputs (image (node s))\<rparr>"
  note z = disableOutputs_zero[of ?p]
  have "0 < BUFFER_SIZE" by (simp add: BUFFER_SIZE_def)
  then have q: "bools (disableOutputs ?p) q = 0" "bool_output (disableOutputs ?p) 0 0 = Some q" "\<not> bufferLock (disableOutputs ?p)"
    using z[THEN conjunct2, THEN conjunct2, rule_format, of 0, THEN conjunct1, rule_format, of 0 q] z \<open>0 < BUFFER_SIZE\<close> assms(2,3) by (simp_all add: same_tables_def)
  have "ok (updateBuffersOut f ?n) (\<lambda>t. image t = disableOutputs ?p \<and> tx_frames t = tx_frames (node s))"
    by (rule ok_weaken[OF updateBuffersOut_eq[of ?n q f]]) (use assms(1) q in simp_all)
  then obtain n where n: "updateBuffersOut f ?n = Some n" "image n = disableOutputs ?p" "tx_frames n = tx_frames (node s)" by (auto simp: ok_iff)
  have "openplc_stop f s = Some (s\<lparr>node := n\<rparr>)" using n(1) by (simp add: openplc_stop_def on_plc_def on_image_def)
  then show ?thesis using n z by simp
qed

section \<open>A runtime\<close>

text \<open>The program copies its input to its output.\<close>

definition copy_program :: program where
  "copy_program = \<lparr>ix = 4, qx = 5, config_init = id, config_run = (\<lambda>t p. set_bool (BVar 5) (bools p (BVar 4)) p), common_ticktime = 20000000\<rparr>"

definition no_slaves :: mbm where
  "no_slaves = \<lparr>cfg = initial_config, bool_input_buf = replicate 400 0, bool_output_buf = replicate 400 0, int_input_buf = replicate 400 0,
     int_output_buf = replicate 400 0, ioLock = False, mb_img = null_image, sf2 = 0, mb_lg = \<lparr>log_text = [], log_counter = 0\<rparr>, requests = []\<rparr>"

definition example_plc :: openplc where
  "example_plc = \<lparr>node = example_node, master = no_slaves, cycle_counter = 0, tick = 0, plc_time = \<lparr>tv_sec = 0, tv_nsec = 0\<rparr>\<rparr>"

definition example_scan :: scan_env where
  "example_scan = \<lparr>rx_events = [example_event 514, example_event 513], tx_ok = (\<lambda>i. True), host_time = 0, host_zone = 0, host_dst = False\<rparr>"

lemma example_runtime: "plc_inv copy_program example_plc" "program_ok copy_program" "\<forall>x \<in> set (rx_events example_scan). 42 \<le> length (rx_bytes x)"
proof -
  have "in_bit (image example_node) = (\<lambda>j. None)" "in_word (image example_node) = (\<lambda>j. None)"
    by (simp_all add: example_node_def in_bit_def in_word_def glueVars_def set_bool_def fun_eq_iff)
  then show "plc_inv copy_program example_plc" using example_caas_inv
    by (simp add: plc_inv_def example_plc_def master_ok_def no_slaves_def points_ok_def separate_def example_node_def)
qed (simp_all add: program_ok_def copy_program_def example_scan_def example_event_def example_fields)

text \<open>A cycle ends when the packets are there in time.\<close>

lemma scan_ends:
  assumes "plc_inv P s" "program_ok P" "\<forall>x \<in> set (rx_events e). on_time (caas.cfg (node s)) instant x"
    and "Some ` {..<INPUT_STREAM_NUM (caas.cfg (node s))} = (\<lambda>x. seqid_index (node s) (uint (rx_seq_id (rx_bytes x)))) ` set (rx_events e)"
  shows "\<exists>t. scan_cycle P e s = Some (Released, t) \<and> scanned P s (Released, t)"
proof -
  let ?n = "(node s)\<lparr>image := glueVars (ix P) (qx P) (image (node s))\<rparr>"
  have "ok (updateBuffersIn (rx_events e) ?n) (\<lambda>(r, t). r = Released \<and> image t = set_bool (BVar (ix P)) 1 (image ?n))"
    using assms by (intro updateBuffersIn_returns[where instant = instant]) (simp_all add: plc_inv_def caas_inv_def)
  then obtain n where n: "updateBuffersIn (rx_events e) ?n = Some (Released, n)" by (auto simp: ok_iff)
  have "\<forall>x \<in> set (rx_events e). 42 \<le> length (rx_bytes x)" using assms(3) by (simp add: on_time_def)
  from scan_runs[OF assms(1,2) this] obtain r t where t: "scan_cycle P e s = Some (r, t)" "scanned P s (r, t)" by (auto simp: ok_iff)
  have "r = Released" using t(1) n by (auto simp: scan_cycle_def on_plc_def on_image_def bind_eq_Some_conv)
  then show ?thesis using t by blast
qed

lemma example_scan_ends: "\<exists>t. scan_cycle copy_program example_scan example_plc = Some (Released, t)"
proof -
  have o: "on_time example_cfg 12845056 (example_event sid)" for sid
    by (simp add: on_time_def example_event_def example_fields example_instant)
  have k: "seqid_index example_node (uint (rx_seq_id (rx_bytes (example_event 513)))) = Some 0"
    "seqid_index example_node (uint (rx_seq_id (rx_bytes (example_event 514)))) = Some 1"
    by (simp_all add: example_event_def example_fields example_node_def)
  have n: "{..<2 :: nat} = {1, 0}" by auto
  have c: "caas.cfg (node example_plc) = example_cfg" "INPUT_STREAM_NUM example_cfg = 2" by (simp_all add: example_plc_def example_node_def example_cfg_def)
  show ?thesis using scan_ends[OF example_runtime(1,2), of example_scan 12845056] o k n c
    by (auto simp: example_scan_def example_plc_def)
qed

theorem scan_cycle_effect_witness:
  "\<exists>t. scan_cycle copy_program example_scan example_plc = Some (Released, t) \<and> bools (image (node t)) (BVar 5) = 1 \<and> length (tx_frames (node t)) = 1"
proof -
  obtain t where t: "scan_cycle copy_program example_scan example_plc = Some (Released, t)" using example_scan_ends by blast
  have "ok (scan_cycle copy_program example_scan example_plc) (scanned copy_program example_plc)" by (rule scan_cycle_effect[OF example_runtime])
  then obtain p where p: "program_sees copy_program example_plc p" "image (node t) = (config_run copy_program (tick example_plc) p)\<lparr>bufferLock := False\<rparr>"
    "outputs_written copy_program example_plc (image (node t)) t" by (auto simp: t scanned_def)
  have "bools (image (node t)) (BVar 5) = 1" using p(1,2) by (simp add: program_sees_def copy_program_def set_bool_def)
  moreover have "length (tx_frames (node t)) = 1" using p(3) calculation
    by (simp add: outputs_written_def copy_program_def example_plc_def example_node_def example_cfg_def)
  ultimately show ?thesis using t by blast
qed

theorem main_loop_safe_witness: "ok (main_loop copy_program [(True, id, example_scan), (False, id, example_scan)] example_plc) (\<lambda>(r, t). if r = Released then plc_inv copy_program t else bufferLock (image (node t)))"
  by (rule main_loop_safe[OF example_runtime(1,2)]) (use example_runtime(3) in auto)

theorem stops_with_outputs_off_witness: "ok (openplc_stop (\<lambda>i. True) example_plc) (\<lambda>t. tx_frames (node t) = [] \<and> bools (image (node t)) (BVar 5) = 0)"
proof (rule ok_weaken[OF stops_with_outputs_off[where q = "BVar 5"]])
  let ?p = "image (node example_plc)"
  show o: "bool_output ?p 0 0 = Some (BVar 5)" by (simp add: example_plc_def example_node_def glueVars_def set_bool_def)
  show "cfg_inv (caas.cfg (node example_plc))" "\<not> bufferLock ?p" using example_caas_inv(2) by (simp_all add: example_plc_def example_node_def)
  fix t assume a: "tx_frames (node t) = tx_frames (node example_plc) \<and> same_tables ?p (image (node t)) \<and>
    (\<forall>k < BUFFER_SIZE. (\<forall>l < 8. \<forall>a. bool_output ?p k l = Some a \<longrightarrow> bools (image (node t)) a = 0) \<and>
      (\<forall>a. byte_output ?p k = Some a \<longrightarrow> bytes (image (node t)) a = 0) \<and> (\<forall>a. int_output ?p k = Some a \<longrightarrow> uints (image (node t)) a = 0))"
  have "bools (image (node t)) (BVar 5) = 0"
    by (rule a[THEN conjunct2, THEN conjunct2, rule_format, of 0, THEN conjunct1, rule_format, of 0]) (simp_all add: o BUFFER_SIZE_def)
  moreover have "tx_frames (node example_plc) = []" by (simp add: example_plc_def example_node_def)
  ultimately show "tx_frames (node t) = [] \<and> bools (image (node t)) (BVar 5) = 0" using a by simp
qed

text \<open>A node with one input stream and no packet.\<close>

definition example_boot :: boot_env where
  "example_boot = \<lparr>node_line = ''00:00:00:00:00:02'', topo_doc = example_topo, sched_doc = example_sche, tx_devs = [(3, True)], rx_devs = [(4, True)],
     pkt_junk = (\<lambda>i. 7), mb_junk = \<lparr>temp_junk = [], function_junk = []\<rparr>, mb_file = Some [], mb_contexts = (\<lambda>i. None), stored_file = None,
     first_events = [], first_tx = (\<lambda>i. True)\<rparr>"

text \<open>The state before the start, and what its first part makes of it.\<close>

definition cold_plc :: openplc where
  "cold_plc = example_plc\<lparr>node := example_node\<lparr>image := null_image\<rparr>\<rparr>"

lemma cold_init:
  assumes "b = example_boot\<lparr>first_events := es, stored_file := file\<rparr>"
  obtains u where "openplc_init copy_program b cold_plc = Some (u, False)" "log_inv (mb_lg (master u))" "tx_frames (node u) = []"
    "caas.cfg (node u) = the (init_configure ''00:00:00:00:00:02'' example_topo example_sche)"
    "seqid_index (node u) = index_streams (input_seq_ids (caas.cfg (node u)))"
proof -
  let ?m = "''OpenPLC Runtime starting...'' @ nl"
  obtain l where l: "mb_log ?m ((master cold_plc)\<lparr>mb_img := image (node cold_plc)\<rparr>) = Some (no_slaves\<lparr>mb_img := null_image, mb_lg := l\<rparr>)" "log_inv l"
    by (simp add: mb_log_def cold_plc_def example_plc_def no_slaves_def runtime_log_def LOG_SIZE_def log_inv_def nl_def)
  have "init_configure ''00:00:00:00:00:02'' example_topo example_sche \<noteq> None" by code_simp
  then obtain c where c: "init_configure ''00:00:00:00:00:02'' example_topo example_sche = Some c" by blast
  have "\<exists>u. openplc_init copy_program b cold_plc = Some (u, False) \<and> log_inv (mb_lg (master u)) \<and> tx_frames (node u) = [] \<and>
    caas.cfg (node u) = c \<and> seqid_index (node u) = index_streams (input_seq_ids c)"
    unfolding openplc_init_def with_master_def l(1) using l(2)
    by (simp add: assms example_boot_def on_plc_def on_image_def initializeHardware_def c dma_init_def initializeMB_def parseConfig_def no_slaves_def
        initial_config_def store_lint_def glueVars_def copy_program_def cold_plc_def example_plc_def example_node_def)
  then show thesis using that c by auto
qed

text \<open>Stream 513 sends a packet in time, and the file holds nines.\<close>

definition cold_boot :: boot_env where
  "cold_boot = example_boot\<lparr>first_events := [example_event 513], stored_file := Some (word_bytes (replicate 1024 9))\<rparr>"

lemma cold_parts: "unmapped (image (node cold_plc))" "init_ok copy_program" "master_ok (master cold_plc)"
  by (simp_all add: unmapped_def cold_plc_def init_ok_def copy_program_def example_plc_def no_slaves_def master_ok_def)

lemma cold_config:
  "\<exists>c. init_configure ''00:00:00:00:00:02'' example_topo example_sche = Some c \<and> input_seq_ids c = [513] \<and> INPUT_STREAM_NUM c = 1 \<and> CYCLE_TIME c = 2097152 \<and> COMPUTE_OFFSET c = 262144"
proof -
  have "(case init_configure ''00:00:00:00:00:02'' example_topo example_sche of None \<Rightarrow> False
    | Some c \<Rightarrow> input_seq_ids c = [513] \<and> INPUT_STREAM_NUM c = 1 \<and> CYCLE_TIME c = 2097152 \<and> COMPUTE_OFFSET c = 262144)" by code_simp
  then show ?thesis by (auto split: option.splits)
qed

lemma cold_start: "\<exists>t. openplc_start copy_program cold_boot cold_plc = Some (Released, t, False) \<and> INPUT_STREAM_NUM (caas.cfg (node t)) = 1 \<and> CYCLE_TIME (caas.cfg (node t)) = 2097152"
proof -
  obtain u where u: "openplc_init copy_program cold_boot cold_plc = Some (u, False)" "log_inv (mb_lg (master u))" "tx_frames (node u) = []"
    "caas.cfg (node u) = the (init_configure ''00:00:00:00:00:02'' example_topo example_sche)"
    "seqid_index (node u) = index_streams (input_seq_ids (caas.cfg (node u)))"
    by (rule cold_init[OF cold_boot_def])
  obtain c where c: "caas.cfg (node u) = c" "input_seq_ids c = [513]" "INPUT_STREAM_NUM c = 1" "CYCLE_TIME c = 2097152" "COMPUTE_OFFSET c = 262144"
    using cold_config u(4) by auto
  have i: "caas_inv (node u) \<and> cfg_inv (caas.cfg (node u))" using openplc_init_ready(4)[OF u(1) cold_parts] c by simp
  have "on_time c 12845056 (example_event 513)" by (simp add: on_time_def example_event_def example_fields example_instant c)
  moreover have "seqid_index (node u) (uint (rx_seq_id (rx_bytes (example_event 513)))) = Some 0"
    by (simp add: u(5) c index_streams_def example_event_def example_fields)
  ultimately have "\<exists>t. openplc_start copy_program cold_boot cold_plc = Some (Released, t, False) \<and> caas.cfg (node t) = caas.cfg (node u)"
    using i c by (intro start_ends[OF u(1) _ _ u(2) cold_parts, of 12845056]) (simp_all add: cold_boot_def lessThan_Suc)
  then show ?thesis using c by auto
qed

theorem start_ready_witness:
  "\<exists>t. openplc_start copy_program cold_boot cold_plc = Some (Released, t, False) \<and> plc_inv copy_program t \<and>
    bool_output (image (node t)) 3 2 = Some (MbCoil 26) \<and> (\<exists>a. int_memory (image (node t)) 5 = Some a \<and> uints (image (node t)) a = 9)"
proof -
  obtain t where t: "openplc_start copy_program cold_boot cold_plc = Some (Released, t, False)" "INPUT_STREAM_NUM (caas.cfg (node t)) = 1" "CYCLE_TIME (caas.cfg (node t)) = 2097152"
    using cold_start by blast
  have "\<forall>x \<in> set (first_events cold_boot). 42 \<le> length (rx_bytes x)" by (simp add: cold_boot_def example_event_def example_fields)
  from start_ready[OF t(1) cold_parts this] t(2,3)
  have r: "plc_inv copy_program t \<and> connected copy_program (image (node t)) \<and> (\<forall>bs i. stored_file cold_boot = Some bs \<and> 2048 \<le> length bs \<and> i < 1024 \<longrightarrow>
    (\<exists>a. int_memory (image (node t)) i = Some a \<and> uints (image (node t)) a = bytes_words bs ! i))" by simp
  have "stored_file cold_boot = Some (word_bytes (replicate 1024 9))" "2048 \<le> length (word_bytes (replicate 1024 9))"
    "bytes_words (word_bytes (replicate 1024 9)) ! 5 = 9" by (simp_all add: cold_boot_def word_bytes_length words_of_bytes)
  then have "\<exists>a. int_memory (image (node t)) 5 = Some a \<and> uints (image (node t)) a = 9"
    using r[THEN conjunct2, THEN conjunct2, rule_format, of "word_bytes (replicate 1024 9)" 5] by simp
  moreover have "bool_output (image (node t)) 3 2 = Some (MbCoil 26)" using r by (simp add: connected_def)
  ultimately show ?thesis using t(1) r by blast
qed

text \<open>Without a packet it waits.\<close>

lemma cold_waits: "\<exists>t. openplc_start copy_program example_boot cold_plc = Some (Waiting, t, False)"
proof -
  have "example_boot = example_boot\<lparr>first_events := [], stored_file := None\<rparr>" by (simp add: example_boot_def)
  from cold_init[OF this] obtain u where u: "openplc_init copy_program example_boot cold_plc = Some (u, False)" by blast
  have "bool_input (image (node u)) 0 0 = Some (BVar 4)" using openplc_init_keeps(2)[OF u] by (simp add: copy_program_def)
  moreover have "first_events example_boot = []" by (simp add: example_boot_def)
  ultimately show ?thesis using openplc_init_ready(3)[OF u cold_parts]
    by (simp add: openplc_start_def u updateBuffersIn_def on_image_def lock_def)
qed

theorem starts_by_waiting_witness: "\<exists>t. openplc_start copy_program example_boot cold_plc = Some (Waiting, t, False) \<and> tx_frames (node t) = []"
proof -
  obtain t where t: "openplc_start copy_program example_boot cold_plc = Some (Waiting, t, False)" using cold_waits by blast
  have "first_events example_boot = []" "tx_frames (node cold_plc) = []" by (simp_all add: example_boot_def cold_plc_def example_node_def)
  then show ?thesis using starts_by_waiting[OF t] t by simp
qed

end
