(* ===== verification/Spec2Isabelle.thy ===== *)
theory Spec2Isabelle
  imports Modbus_Props Pccc_Props Enip_Props Server_Props CaasConfig_Props Caas_Props Topo_Props
    BestMaster_Props BufferQueue_Props MdPdelayResp_Props SyncReceive_Props ClockMaster_Props MdPdelayReq_Props
    PortAnnounceInfoExt_Props MainLoop_Props NodeStart_Props
    Interactive_Props Pstorage_Props Dnp3_Props PlcMain_Props
begin

text \<open>
  The software of the Ziggo-CaaS switch: a PLC runtime whose inputs and outputs are packets of a time-sensitive network,
  and the daemon that synchronizes the clocks of the switches and configures their gates. This is the root of the
  development; every component has a theory with its definitions, and one of the same name with \<open>_Props\<close> that proves
  what holds of it.

  \<^bold>\<open>The program.\<close>
  \<open>src/Software/Packetized-PLC-IO\<close> is the runtime, a fork of OpenPLC: \<open>main.cpp\<close> runs the compiled PLC program in a cycle over a
  process image, a family of tables of pointers (\<open>ladder.h\<close>, \<open>glueVars.cpp\<close>). The packet layer (\<open>hardware_layers/blank.cpp\<close>,
  configured by \<open>config.cpp\<close>) fills the inputs from packets and sends the outputs as packets; the Modbus master
  (\<open>modbus_master.cpp\<close>) exchanges the image with slave devices from a thread of its own; the servers for Modbus, EtherNet/IP
  with PCCC, and DNP3 (\<open>server.cpp\<close>, \<open>modbus.cpp\<close>, \<open>enip.cpp\<close>, \<open>pccc.cpp\<close>, \<open>dnp3.cpp\<close>) give clients access to it under the mutex
  \<open>bufferLock\<close>; the interactive server (\<open>interactive_server.cpp\<close>) starts and stops them; \<open>persistent_storage.cpp\<close> keeps its
  memory words in a file.
  \<open>src/Software/Time-Synchronization\<close> is the daemon: an implementation of IEEE 802.1AS. \<open>time_sync_main_loop.c\<close> takes
  packets from a queue (\<open>dma_proxy/buffer_queue.c\<close>) and gives them to the state machines of \<open>time_sync/\<close>, which elect the
  grandmaster by Announce messages, measure the delay of each link by Pdelay messages, and pass the time on by Sync and
  Follow_Up messages; \<open>tsn_drivers/\<close> holds their arithmetic, the clock and the registers. \<open>topo.cpp\<close> computes the gates and
  the forwarding rules of the switch.

  \<^bold>\<open>How the code is modelled.\<close>
  A struct is a record, an enumeration a datatype, an integer a word of its width. A
  function of the C code is a function from a state to an option, and \<open>None\<close> is whatever does not come back
  normally: an access outside an array, a lock taken twice or released while free, an undefined conversion or join, a call
  of \<open>exit\<close>, an exception that nobody catches, a loop that does not end. So a theorem \<open>ok (f s) Q\<close> (Prelude) says that \<open>f\<close>
  returns, without a fault, and that \<open>Q\<close> holds of the result. What the system calls, the hardware, the libraries and
  uninitialised memory yield are arguments, so that the theorems hold for all they may be. Threads meet at the mutexes: what
  the others do while a function does not hold the lock is an argument, or a sequence of steps.

  \<^bold>\<open>Shared theories.\<close>
  Prelude: checked arrays, loops (\<open>for_each\<close>), and the rules of \<open>ok\<close>. PlcImage: the image, its mutex, \<open>glueVars\<close> and the
  helpers of \<open>main.cpp\<close>. ImageBank: the locale \<open>image_bank\<close>, what a client may expect of a table of the image, and its
  interpretations on the five tables. NetState: the log, and the message buffer of a server. CStrings: \<open>atoi\<close>, \<open>sprintf\<close>
  and the scanning of lines. Json: the documents and accessors of the JSON library. Machine: \<open>sm_loop\<close>, the loop
  \<open>while (1)\<close> that all machines of the daemon share, and the locale \<open>state_machine\<close>, which gives its return from a rank that
  every step lowers. BufferQueue: the locale \<open>bounded_fifo\<close>. PtpTypes, PtpArith, PriorityVec, MsgFrame, EthFrame and TxMachine:
  the data, the arithmetic, the vectors, the messages and the transmitter of the machines.

  \<^bold>\<open>The runtime.\<close>
  Modbus, Pccc, Enip: one definition for each handler; what every request does to the image and the answer, that those a
  predicate admits are safe, and the requests that are not. Server: the connections, \<open>handleConnections\<close>. CaasConfig: the
  streams of a node (\<open>init_configure\<close>). Caas: the packet layer; \<open>rx_packet\<close> is the body of the polling loop, \<open>Waiting\<close> says that
  \<open>updateBuffersIn\<close> is still in it. MbMaster: the configuration file, \<open>query_pass\<close> (one round of the polling thread over all
  devices, with the answers of libmodbus) and the exchange with the image; its theorems say where the value of each register
  of each slave is found. Interactive: \<open>processCommand\<close>, the assembly of lines, the threads of the four services. Pstorage: the
  file and its thread. Dnp3: the handlers that the opendnp3 library calls, \<open>update_vals\<close>, and the configuration file. PlcMain:
  \<open>main\<close>, with \<open>openplc_start\<close>, \<open>scan_cycle\<close>, \<open>main_loop\<close> and \<open>openplc_stop\<close>; its theorems compose the packet layer, the master
  and the storage: one cycle, the invariant of the whole runtime, its establishment, and the wait of the first cycle.

  \<^bold>\<open>The daemon.\<close>
  PortAnnounceInfo, PortStateSelection, PortAnnounceTransmit and PortAnnounceInfoExt: the election and its messages;
  BestMaster_Props has the election as a whole. MdPdelayReq and MdPdelayResp: the measurement of a link. MdSyncSend,
  SyncReceive (MDSyncReceive and PortSyncSyncReceive), SiteSync, PortSyncSend, ClockSlaveSync and ClockMaster: the time; the
  theorems follow a Sync message through all the machines of a node to the clock and to the other ports. Rtc: the registers of
  the clock. TimeSyncInit: the globals after the start. MainLoop: the dispatch of packets and timers and \<open>start_node\<close>;
  PortStart_Props and NodeStart_Props: what the start sends, and a message relayed by a node that has been started. Topo: the
  gate control lists and the forwarding rules. ExampleNode and the last section of each theory of properties: the states on
  which the witnesses evaluate the theorems.

  \<^bold>\<open>Bounds.\<close>
  \<open>sm_loop\<close>, \<open>scale_up\<close> and \<open>tsu_match\<close> are partial functions, so that returning is proved wherever it is claimed. The loops
  that accept clients and serve connections run over the list of what the system calls return; \<open>accept_clients\<close> has a count
  that bounds the clients and \<open>server_loop\<close> another, and any number may be given. \<open>querySlaveDevices\<close>, \<open>pstorage_loop\<close>,
  \<open>dnp3_rounds\<close> and \<open>main_loop\<close> run over the list of their rounds. The log has room for 999 lines of 999 characters, the
  invariant \<open>log_inv\<close>.

  \<^bold>\<open>Not modelled.\<close>
  Third-party and generated code: \<open>json.hpp\<close>, \<open>lib/\<close> (the runtime of the MATIEC compiler), the compiled PLC program, which
  is an argument of PlcMain, and the libraries opendnp3 and libmodbus, which are not in the repository. Drivers that only touch
  the hardware: \<open>uio.c\<close>, \<open>gpio_reset.c\<close>, \<open>tagger.c\<close>, the DMA channels, and the hardware layers of boards that are not used
  (\<open>pixtend.cpp\<close>, \<open>raspberrypi.cpp\<close> and the others). Log files and command lines: \<open>log/\<close>, \<open>config.c\<close>,
  \<open>switch_config_main.c\<close>. The copy of \<open>tsn_drivers\<close> in the runtime, which repeats files of the daemon. Printing, sleeping and
  socket options, which do not change the state, and the Verilog of \<open>src/Hardware\<close>. The interleaving of several threads inside
  one function is modelled at the granularity of critical sections only.
\<close>

end
